(* ===== verification/Prelude.thy ===== *)
theory Prelude
  imports
    Main
    "HOL-Library.Word"
    "HOL-Library.Char_ord"
    "HOL-Library.List_Lexorder"
    "HOL-Library.Product_Lexorder"
    "HOL-Library.Multiset"
begin

text \<open>
  Shared vocabulary of the development: how Go values are represented, and the generic facts
  the component theories use.

  \<^item> A Go \<^verbatim>\<open>error\<close> result is an option (\<open>None\<close> is \<^verbatim>\<open>nil\<close>); a pair
    (value, error) is a sum, \<open>Inl\<close> the error.
  \<^item> A Go \<^verbatim>\<open>map\<close> is an association list with strictly increasing keys
    (\<open>gm_wf\<close>), so that equal maps are equal lists; \<open>gm_put\<close> and \<open>gm_del\<close> are
    assignment and \<^verbatim>\<open>delete\<close>, and an unordered \<^verbatim>\<open>range\<close> visits the keys in that
    order.
  \<^item> A string is a list of bytes; \<^verbatim>\<open>sort.Strings\<close> is \<open>sort\<close> in the byte-wise
    lexicographic order.
  \<^item> An instant is the number of nanoseconds since an epoch, an \<open>int\<close>; the zero
    \<^verbatim>\<open>time.Time\<close> is \<open>None\<close> wherever the code tests \<^verbatim>\<open>IsZero\<close>.
\<close>

named_theorems model_simps "definitions that unfold in every component proof"

type_synonym time = int
type_synonym duration = int
type_synonym ('k, 'v) gomap = "('k \<times> 'v) list"

abbreviation second :: duration where
  "second \<equiv> 1000000000"

subsection \<open>Errors\<close>

text \<open>The first error of two checks made in order.\<close>

fun or_else :: "'e option \<Rightarrow> 'e option \<Rightarrow> 'e option" where
  "or_else (Some e) b = Some e"
| "or_else None b = b"

text \<open>\<^verbatim>\<open>if bad { return err }\<close>\<close>

definition fail_if :: "bool \<Rightarrow> 'e \<Rightarrow> 'e option" where
  "fail_if b e = (if b then Some e else None)"

text \<open>\<^verbatim>\<open>x, err := f(); if err != nil { return err }\<close>\<close>

fun rbind :: "'e + 'a \<Rightarrow> ('a \<Rightarrow> 'e + 'b) \<Rightarrow> 'e + 'b" where
  "rbind (Inl e) f = Inl e"
| "rbind (Inr x) f = f x"

subsection \<open>Strings\<close>

text \<open>\<^verbatim>\<open>strings.TrimSpace\<close> on the ASCII white space bytes.\<close>

definition is_space :: "char \<Rightarrow> bool" where
  "is_space c \<longleftrightarrow> of_char c \<in> {9, 10, 11, 12, 13, 32 :: nat}"

definition trim_space :: "string \<Rightarrow> string" where
  "trim_space s = rev (dropWhile is_space (rev (dropWhile is_space s)))"

text \<open>Decimal text of integers, as \<^verbatim>\<open>%d\<close> and \<^verbatim>\<open>strconv.Itoa\<close> print them.\<close>

definition digit :: "nat \<Rightarrow> char" where
  "digit d = char_of (48 + d)"

fun nat_text :: "nat \<Rightarrow> string" where
  "nat_text n = (if n < 10 then [digit n] else nat_text (n div 10) @ [digit (n mod 10)])"

declare nat_text.simps [simp del]

definition int_text :: "int \<Rightarrow> string" where
  "int_text i = (if i < 0 then CHR ''-'' # nat_text (nat (- i)) else nat_text (nat i))"

text \<open>\<^verbatim>\<open>strings.ToLower\<close> on ASCII letters.\<close>

definition lower_char :: "char \<Rightarrow> char" where
  "lower_char c = (if 65 \<le> (of_char c :: nat) \<and> of_char c \<le> (90 :: nat) then char_of ((of_char c :: nat) + 32) else c)"

definition to_lower :: "string \<Rightarrow> string" where
  "to_lower s = map lower_char s"

definition blank :: "string \<Rightarrow> bool" where
  "blank s \<longleftrightarrow> trim_space s = []"

subsection \<open>Go maps\<close>

definition gm_wf :: "('k :: linorder, 'v) gomap \<Rightarrow> bool" where
  "gm_wf m \<longleftrightarrow> sorted_wrt (<) (map fst m)"

fun gm_put :: "'k :: linorder \<Rightarrow> 'v \<Rightarrow> ('k, 'v) gomap \<Rightarrow> ('k, 'v) gomap" where
  "gm_put k v [] = [(k, v)]"
| "gm_put k v ((k', v') # m) =
     (if k < k' then (k, v) # (k', v') # m
      else if k = k' then (k, v) # m
      else (k', v') # gm_put k v m)"

definition gm_del :: "'k :: linorder \<Rightarrow> ('k, 'v) gomap \<Rightarrow> ('k, 'v) gomap" where
  "gm_del k m = filter (\<lambda>(k', _). k' \<noteq> k) m"

text \<open>Reading a missing key gives the zero value of the element type.\<close>

definition gm_get :: "'v \<Rightarrow> ('k, 'v) gomap \<Rightarrow> 'k \<Rightarrow> 'v" where
  "gm_get zero m k = (case map_of m k of None \<Rightarrow> zero | Some v \<Rightarrow> v)"

definition gm_has :: "('k, 'v) gomap \<Rightarrow> 'k \<Rightarrow> bool" where
  "gm_has m k \<longleftrightarrow> map_of m k \<noteq> None"

text \<open>\<^verbatim>\<open>INSERT \<dots> ON CONFLICT DO UPDATE\<close>: replace the row with the key, or append.\<close>

fun upsert :: "('a \<Rightarrow> 'k) \<Rightarrow> 'a \<Rightarrow> 'a list \<Rightarrow> 'a list" where
  "upsert key x [] = [x]"
| "upsert key x (y # ys) = (if key y = key x then x # ys else y # upsert key x ys)"

text \<open>\<^verbatim>\<open>select { case c <- x: default: }\<close> on a channel with room for so many.\<close>

definition offer :: "nat \<Rightarrow> 'a \<Rightarrow> 'a list \<Rightarrow> 'a list" where
  "offer capacity x q = (if length q < capacity then q @ [x] else q)"

lemma length_offer: "length q \<le> n \<Longrightarrow> length (offer n x q) \<le> n"
  by (simp add: offer_def)

text \<open>A Go \<^verbatim>\<open>map[string]bool\<close> used as a set.\<close>

definition str_set :: "'k :: linorder list \<Rightarrow> 'k list" where
  "str_set xs = sort (remdups xs)"

subsection \<open>Facts about errors\<close>

lemma or_else_None [simp]: "or_else a b = None \<longleftrightarrow> a = None \<and> b = None"
  by (cases a) auto

lemma or_else_Some: "or_else a b = Some e \<longleftrightarrow> a = Some e \<or> a = None \<and> b = Some e"
  by (cases a) auto

lemma or_else_None_right [simp]: "or_else a None = a"
  by (cases a) auto

lemma fail_if_None [simp]: "fail_if b e = None \<longleftrightarrow> \<not> b"
  by (simp add: fail_if_def)

lemma fail_if_True [simp]: "fail_if True e = Some e"
  and fail_if_False [simp]: "fail_if False e = None"
  by (simp_all add: fail_if_def)

lemma rbind_Inr [simp]: "rbind r f = Inr y \<longleftrightarrow> (\<exists>x. r = Inr x \<and> f x = Inr y)"
  by (cases r) auto

subsection \<open>Facts about strings\<close>

lemma dropWhile_all_iff: "(\<forall>x\<in>set (dropWhile P xs). P x) \<longleftrightarrow> (\<forall>x\<in>set xs. P x)"
  by (induction xs) auto

lemma blank_iff: "blank s \<longleftrightarrow> (\<forall>c\<in>set s. is_space c)"
  unfolding blank_def trim_space_def by (simp add: dropWhile_all_iff)

lemma blank_Nil [simp]: "blank []"
  by (simp add: blank_iff)

lemma not_blank_nonempty [dest]: "\<not> blank s \<Longrightarrow> s \<noteq> []"
  by auto

lemma dropWhile_rev_dropWhile:
  "dropWhile P (rev (dropWhile P (rev (dropWhile P xs)))) = rev (dropWhile P (rev (dropWhile P xs)))"
proof (cases "dropWhile P xs")
  case Nil
  show ?thesis unfolding Nil by simp
next
  case (Cons c cs)
  then have "\<not> P c" by (metis dropWhile_eq_Cons_conv)
  then show ?thesis unfolding Cons by (auto simp: dropWhile_append)
qed

lemma trim_space_idem [simp]: "trim_space (trim_space s) = trim_space s"
  unfolding trim_space_def
  by (subst dropWhile_rev_dropWhile) (metis dropWhile_rev_dropWhile rev_rev_ident)

subsection \<open>Facts about Go maps\<close>

lemma gm_wf_Nil [simp]: "gm_wf []"
  by (simp add: gm_wf_def)

lemma gm_wf_Cons [simp]: "gm_wf (kv # m) \<longleftrightarrow> (\<forall>k\<in>fst ` set m. fst kv < k) \<and> gm_wf m"
  by (auto simp: gm_wf_def)

lemma gm_wf_distinct: "gm_wf m \<Longrightarrow> distinct (map fst m)"
  by (induction m) (auto simp del: distinct_map)

lemma fst_set_gm_put [simp]: "fst ` set (gm_put k v m) = insert k (fst ` set m)"
  by (induction k v m rule: gm_put.induct) auto

lemma gm_wf_put [simp]: "gm_wf m \<Longrightarrow> gm_wf (gm_put k v m)"
  by (induction k v m rule: gm_put.induct) auto

lemma map_of_gm_put [simp]: "gm_wf m \<Longrightarrow> map_of (gm_put k v m) = (map_of m)(k \<mapsto> v)"
  by (induction k v m rule: gm_put.induct) (auto simp: fun_eq_iff map_of_eq_None_iff)

lemma gm_wf_del [simp]: "gm_wf m \<Longrightarrow> gm_wf (gm_del k m)"
  unfolding gm_del_def by (induction m) auto

lemma gm_wf_filter: "gm_wf m \<Longrightarrow> gm_wf (filter P m)"
  by (induction m) auto

lemma map_of_gm_del [simp]: "map_of (gm_del k m) = (map_of m)(k := None)"
  unfolding gm_del_def by (induction m) auto

lemma gm_wf_eqI: "gm_wf m \<Longrightarrow> gm_wf m' \<Longrightarrow> map_of m = map_of m' \<Longrightarrow> m = m'"
proof (induction m arbitrary: m')
  case Nil
  then have "dom (map_of m') = {}" using arg_cong [of "map_of []" "map_of m'" dom] by simp
  then show ?case by (simp add: dom_map_of_conv_image_fst)
next
  case (Cons kv m)
  obtain k v where kv: "kv = (k, v)" by (cases kv)
  from Cons.prems kv have "map_of m' k = Some v" using fun_cong [of _ "map_of m'" k] by fastforce
  then obtain k' v' n where m': "m' = (k', v') # n" by (cases m') auto
  have eq: "(map_of m)(k \<mapsto> v) = (map_of n)(k' \<mapsto> v')"
    using Cons.prems kv m' by (simp add: fun_upd_def)
  have "k \<in> insert k' (fst ` set n)" "k' \<in> insert k (fst ` set m)"
    using arg_cong [OF eq, of dom] by (auto simp: dom_map_of_conv_image_fst)
  with Cons.prems kv m' have kk: "k' = k" by (auto dest: less_asym)
  have out: "map_of m k = None" "map_of n k = None"
    using Cons.prems kv m' kk by (auto simp: map_of_eq_None_iff)
  have "v' = v" using fun_cong [OF eq, of k] kk by simp
  moreover have "map_of m = map_of n"
    using eq kk out by (metis fun_upd_triv fun_upd_upd)
  ultimately show ?case using Cons.IH [of n] Cons.prems kv m' kk by simp
qed

lemma gm_get_put [simp]:
  "gm_wf m \<Longrightarrow> gm_get z (gm_put k v m) k' = (if k' = k then v else gm_get z m k')"
  by (simp add: gm_get_def)

lemma set_str_set [simp]: "set (str_set xs) = set xs"
  by (simp add: str_set_def)

lemma distinct_str_set [simp]: "distinct (str_set xs)"
  by (simp add: str_set_def)

lemma sorted_str_set [simp]: "sorted (str_set xs)"
  by (simp add: str_set_def)

lemma set_upsert_keys [simp]: "key ` set (upsert key x ys) = insert (key x) (key ` set ys)"
  by (induction ys) auto

lemma distinct_upsert [simp]: "distinct (map key ys) \<Longrightarrow> distinct (map key (upsert key x ys))"
proof (induction ys)
  case (Cons y ys)
  then show ?case using set_upsert_keys [of key x ys] by (auto simp del: set_upsert_keys)
qed simp

lemma set_upsert: "distinct (map key ys) \<Longrightarrow> set (upsert key x ys) = insert x {y \<in> set ys. key y \<noteq> key x}"
  by (induction ys) (auto simp: image_iff)

lemma upsert_new: "key x \<notin> key ` set xs \<Longrightarrow> upsert key x xs = xs @ [x]"
  by (induction xs) auto

lemma fold_upsert_fresh:
  "distinct (map key xs) \<Longrightarrow> key ` set xs \<inter> key ` set ys = {} \<Longrightarrow> fold (upsert key) xs ys = ys @ xs"
  by (induction xs arbitrary: ys) (auto simp: upsert_new)

lemma sort_map_key: "sort (map f xs) = map f (sort_key f xs)"
  by (rule properties_for_sort) simp_all

lemma lower_char_idem [simp]: "lower_char (lower_char c) = lower_char c"
  by (auto simp: lower_char_def)

lemma lower_char_space [simp]: "is_space (lower_char c) \<longleftrightarrow> is_space c"
  by (auto simp: lower_char_def is_space_def)

lemma to_lower_idem [simp]: "to_lower (to_lower s) = to_lower s"
  by (simp add: to_lower_def comp_def)

end
