(* ===== verification/Station.thy ===== *)
theory Station
  imports Prelude
begin

text \<open>
  The command-station abstraction of \<^verbatim>\<open>internal/station\<close>: the vocabulary every driver and
  the services share (directions, accessory positions and commands, report qualities and
  states, capabilities, status), and the health tracker that turns responses and
  communication errors into a connectivity.

  A Go string type with named constants is a datatype with one constructor per constant and one
  for any other string; the empty string, the zero value, is such an other string.
\<close>

subsection \<open>Vocabulary\<close>

datatype connectivity = Online | Degraded | Offline

record health_report =
  hr_connectivity :: connectivity
  hr_last_seen :: "time option"

datatype direction = Forward | Reverse | DirectionOther string

fun direction_valid :: "direction \<Rightarrow> bool" where
  "direction_valid Forward = True"
| "direction_valid Reverse = True"
| "direction_valid (DirectionOther _) = False"

datatype accessory_position = Position1 | Position2 | PositionOther string

abbreviation NoPosition :: accessory_position where
  "NoPosition \<equiv> PositionOther ''''"

fun position_valid :: "accessory_position \<Rightarrow> bool" where
  "position_valid Position1 = True"
| "position_valid Position2 = True"
| "position_valid (PositionOther _) = False"

fun position_inverted :: "accessory_position \<Rightarrow> accessory_position" where
  "position_inverted Position1 = Position2"
| "position_inverted Position2 = Position1"
| "position_inverted (PositionOther s) = PositionOther s"

text \<open>The string the constant stands for.\<close>

fun position_string :: "accessory_position \<Rightarrow> string" where
  "position_string Position1 = ''position1''"
| "position_string Position2 = ''position2''"
| "position_string (PositionOther s) = s"

definition MinBasicAccessoryAddress :: int where
  "MinBasicAccessoryAddress = 1"

definition MaxBasicAccessoryAddress :: int where
  "MaxBasicAccessoryAddress = 2040"

datatype station_error =
    ErrUnsupported
  | ErrOffline
  | ErrInvalidAccessoryAddress int
  | ErrInvalidAccessoryPosition accessory_position
  | ErrSpeedOutOfRange
  | ErrContext
  | ErrTransport string

record accessory_command =
  ac_address :: int
  ac_position :: accessory_position

definition accessory_command_validate :: "accessory_command \<Rightarrow> station_error option" where
  "accessory_command_validate c =
     (if ac_address c < MinBasicAccessoryAddress \<or> ac_address c > MaxBasicAccessoryAddress
      then Some (ErrInvalidAccessoryAddress (ac_address c))
      else if \<not> position_valid (ac_position c)
      then Some (ErrInvalidAccessoryPosition (ac_position c))
      else None)"

datatype report_quality = QualityStation | QualityAssumed | QualityPhysical | QualityOther string

abbreviation NoQuality :: report_quality where
  "NoQuality \<equiv> QualityOther ''''"

fun quality_valid :: "report_quality \<Rightarrow> bool" where
  "quality_valid (QualityOther _) = False"
| "quality_valid _ = True"

datatype report_state = ReportKnown | ReportUnknown | ReportInvalid | ReportOther string

abbreviation NoReport :: report_state where
  "NoReport \<equiv> ReportOther ''''"

fun report_valid :: "report_state \<Rightarrow> bool" where
  "report_valid (ReportOther _) = False"
| "report_valid _ = True"

record accessory_state_event =
  ev_address :: int
  ev_position :: accessory_position
  ev_state :: report_state
  ev_quality :: report_quality
  ev_observed_at :: "time option"

definition has_known_position :: "accessory_state_event \<Rightarrow> bool" where
  "has_known_position e \<longleftrightarrow>
     (ev_state e = NoReport \<or> ev_state e = ReportKnown) \<and> position_valid (ev_position e)"

record capabilities =
  cap_driver :: string
  cap_track_power :: bool
  cap_locomotive_control :: bool
  cap_functions :: int
  cap_max_function_number :: int
  cap_accessory_control :: bool
  cap_feedback :: bool

record feedback_event =
  fb_source :: string
  fb_kind :: string
  fb_address :: int
  fb_active :: bool

datatype power_text = PowerOn | PowerOff | PowerUnknown

record status =
  st_connectivity :: connectivity
  st_last_seen :: "time option"
  st_track_power :: power_text
  st_emergency_stop :: bool
  st_short_circuit :: bool
  st_programming_mode :: bool
  st_main_current :: "16 word"
  st_programming_current :: "16 word"
  st_filtered_main_current :: "16 word"
  st_temperature :: "16 word"
  st_supply_voltage :: "16 word"
  st_track_voltage :: "16 word"
  st_high_temperature :: bool
  st_power_lost :: bool
  st_external_short_circuit :: bool
  st_internal_short_circuit :: bool

text \<open>
  \<^verbatim>\<open>CheckCommandAllowed\<close>: the argument is the health of a station that implements
  \<^verbatim>\<open>HealthProvider\<close>, and \<open>None\<close> for one that does not.
\<close>

definition check_command_allowed :: "health_report option \<Rightarrow> station_error option" where
  "check_command_allowed h =
     (case h of
        Some r \<Rightarrow> (if hr_connectivity r = Offline then Some ErrOffline else None)
      | None \<Rightarrow> None)"

subsection \<open>Health tracker\<close>

record health_tracker =
  ht_started_at :: "time option"
  ht_last_seen :: "time option"
  ht_failure_since :: "time option"
  ht_offline_after :: duration

definition DefaultOfflineAfter :: duration where
  "DefaultOfflineAfter = 10 * second"

definition new_health_tracker :: "duration \<Rightarrow> health_tracker" where
  "new_health_tracker d =
     \<lparr> ht_started_at = None, ht_last_seen = None, ht_failure_since = None,
       ht_offline_after = (if d \<le> 0 then DefaultOfflineAfter else d) \<rparr>"

definition health_connected :: "time \<Rightarrow> health_tracker \<Rightarrow> health_tracker" where
  "health_connected now h =
     h\<lparr> ht_started_at := Some now, ht_last_seen := None, ht_failure_since := Some now \<rparr>"

definition health_valid_response :: "time \<Rightarrow> health_tracker \<Rightarrow> health_tracker" where
  "health_valid_response now h =
     h\<lparr> ht_last_seen := Some now, ht_failure_since := None \<rparr>"

definition health_communication_error :: "time \<Rightarrow> health_tracker \<Rightarrow> health_tracker" where
  "health_communication_error now h =
     (if ht_failure_since h = None then h\<lparr> ht_failure_since := Some now \<rparr> else h)"

definition health_of :: "time \<Rightarrow> health_tracker \<Rightarrow> health_report" where
  "health_of now h =
     (let offline_after =
            (if ht_offline_after h \<le> 0 then DefaultOfflineAfter else ht_offline_after h);
          c1 = (case ht_failure_since h of
                  None \<Rightarrow> Online
                | Some failed \<Rightarrow> if now - failed \<ge> offline_after then Offline else Degraded);
          c2 = (if ht_started_at h = None then Offline else c1)
      in \<lparr> hr_connectivity = c2, hr_last_seen = ht_last_seen h \<rparr>)"

text \<open>The tracker driven by a trace of timed driver events.\<close>

datatype health_event = Connected time | ValidResponse time | CommunicationError time

fun health_step :: "health_event \<Rightarrow> health_tracker \<Rightarrow> health_tracker" where
  "health_step (Connected t) h = health_connected t h"
| "health_step (ValidResponse t) h = health_valid_response t h"
| "health_step (CommunicationError t) h = health_communication_error t h"

definition health_run :: "duration \<Rightarrow> health_event list \<Rightarrow> health_tracker" where
  "health_run d evs = fold health_step evs (new_health_tracker d)"

text \<open>
  What the trace says, read off without the tracker's fields: whether a connection was ever
  made, and since when the trace has been without a valid response.
\<close>

fun is_connected_event :: "health_event \<Rightarrow> bool" where
  "is_connected_event (Connected _) = True"
| "is_connected_event _ = False"

text \<open>The argument is the trace in reverse, latest event first.\<close>

fun failing_since :: "health_event list \<Rightarrow> time option" where
  "failing_since [] = None"
| "failing_since (Connected t # evs) = Some t"
| "failing_since (ValidResponse t # evs) = None"
| "failing_since (CommunicationError t # evs) =
     (case failing_since evs of None \<Rightarrow> Some t | Some t' \<Rightarrow> Some t')"

subsection \<open>Facts about the vocabulary\<close>

lemma position_inverted_involutive [simp]: "position_inverted (position_inverted p) = p"
  by (cases p) auto

lemma position_valid_inverted [simp]: "position_valid (position_inverted p) = position_valid p"
  by (cases p) auto

lemma position_inverted_eq [simp]: "position_inverted p = position_inverted q \<longleftrightarrow> p = q"
  by (metis position_inverted_involutive)

lemma position_valid_iff: "position_valid p \<longleftrightarrow> p = Position1 \<or> p = Position2"
  by (cases p) auto

lemma position_string_inj:
  "position_valid p \<Longrightarrow> position_valid q \<Longrightarrow> position_string p = position_string q \<Longrightarrow> p = q"
  by (auto simp: position_valid_iff)

lemma length_position_string: "position_valid p \<Longrightarrow> length (position_string p) = 9"
  by (auto simp: position_valid_iff)

lemma accessory_command_validate_None:
  "accessory_command_validate c = None \<longleftrightarrow>
     1 \<le> ac_address c \<and> ac_address c \<le> 2040 \<and> position_valid (ac_position c)"
  by (auto simp: accessory_command_validate_def MinBasicAccessoryAddress_def
      MaxBasicAccessoryAddress_def)

subsection \<open>Facts about the health tracker\<close>

lemmas health_ops =
  health_connected_def health_valid_response_def health_communication_error_def

lemma health_fold_started:
  "ht_started_at (fold health_step evs h) = None \<longleftrightarrow>
     ht_started_at h = None \<and> (\<forall>e\<in>set evs. \<not> is_connected_event e)"
proof (induction evs arbitrary: h)
  case Nil
  then show ?case by simp
next
  case (Cons e evs)
  show ?case by (cases e) (auto simp: Cons.IH health_ops)
qed

lemma health_step_offline_after [simp]: "ht_offline_after (health_step e h) = ht_offline_after h"
  by (cases e) (auto simp: health_ops)

lemma health_fold_offline_after [simp]:
  "ht_offline_after (fold health_step evs h) = ht_offline_after h"
  by (induction evs arbitrary: h) auto

lemma health_run_failure_since: "ht_failure_since (health_run d evs) = failing_since (rev evs)"
proof (induction evs rule: rev_induct)
  case Nil
  then show ?case by (simp add: health_run_def new_health_tracker_def)
next
  case (snoc e evs)
  have "health_run d (evs @ [e]) = health_step e (health_run d evs)"
    by (simp add: health_run_def)
  then show ?case using snoc
    by (cases e) (auto simp: health_ops split: option.splits)
qed

lemma health_run_offline_after_pos: "0 < ht_offline_after (health_run d evs)"
  by (simp add: health_run_def new_health_tracker_def DefaultOfflineAfter_def)

lemma health_run_started:
  "ht_started_at (health_run d evs) = None \<longleftrightarrow> (\<forall>e\<in>set evs. \<not> is_connected_event e)"
  unfolding health_run_def by (subst health_fold_started) (simp add: new_health_tracker_def)

text \<open>
  the connectivity a driver reports is determined by its trace of events: Offline before
  any connection; otherwise Online when the latest connection or error has been followed by a
  valid response, and Degraded or Offline by how long the first unanswered failure has lasted.
  A later error never restarts that clock.
\<close>

theorem health_of_trace:
  "hr_connectivity (health_of now (health_run d evs)) =
     (if \<forall>e\<in>set evs. \<not> is_connected_event e then Offline
      else case failing_since (rev evs) of
             None \<Rightarrow> Online
           | Some t \<Rightarrow>
               if now - t < (if d \<le> 0 then DefaultOfflineAfter else d) then Degraded else Offline)"
proof -
  have "ht_offline_after (health_run d evs) = (if d \<le> 0 then DefaultOfflineAfter else d)"
    by (simp add: health_run_def new_health_tracker_def)
  then show ?thesis
    using health_run_offline_after_pos [of d evs]
    by (auto simp: health_of_def Let_def health_run_failure_since health_run_started
        split: option.splits)
qed

text \<open>
  A concrete run: connected at 0, answered at 1, errors at 5 and 12, read at 15 with the
  default delay of ten seconds: the first error counts, and the station is offline.
\<close>

theorem health_of_trace_witness:
  "(\<exists>e\<in>set [Connected 0, ValidResponse second, CommunicationError (5 * second),
        CommunicationError (12 * second)]. is_connected_event e) \<and>
   hr_connectivity (health_of (15 * second)
     (health_run 0 [Connected 0, ValidResponse second, CommunicationError (5 * second),
        CommunicationError (12 * second)])) = Offline"
  by (subst health_of_trace) (simp add: DefaultOfflineAfter_def)

end
