(* ===== verification/Turnout.thy ===== *)
theory Turnout
  imports Station
begin

text \<open>
  Turnouts as \<^verbatim>\<open>internal/model/model.go\<close> defines them: a turnout is a set of DCC accessory
  endpoints and a list of named positions, each a vector of endpoint positions. The theory
  models validation, normalisation of stored and legacy turnouts, and the resolution of
  observed endpoint states to a named position, and shows that resolution inverts the
  commands a position stands for.
\<close>

datatype turnout_kind =
    KindSimple | KindThreeWay | KindDoubleSlip | KindSingleSlip | KindCustom | KindOther string

fun kind_valid :: "turnout_kind \<Rightarrow> bool" where
  "kind_valid (KindOther _) = False"
| "kind_valid _ = True"

record accessory_endpoint =
  ep_id :: string
  ep_linear_address :: int
  ep_inverted :: bool

record turnout_position_definition =
  pd_id :: string
  pd_label :: string
  pd_endpoints :: "(string, accessory_position) gomap"

datatype command_status =
    CommandIdle | CommandPending | CommandSucceeded | CommandFailed | CommandTimeout
  | CommandOther string

abbreviation NoCommandStatus :: command_status where
  "NoCommandStatus \<equiv> CommandOther ''''"

fun command_status_valid :: "command_status \<Rightarrow> bool" where
  "command_status_valid (CommandOther _) = False"
| "command_status_valid _ = True"

record turnout =
  t_id :: string
  t_name :: string
  t_kind :: turnout_kind
  t_endpoints :: "accessory_endpoint list"
  t_positions :: "turnout_position_definition list"
  t_desired_position :: string
  t_reported_position :: string
  t_pending :: bool
  t_reported_status :: report_state
  t_quality :: report_quality
  t_command_status :: command_status
  t_dcc_address :: int
  t_desired_state :: string
  t_reported_state :: string

subsection \<open>Legacy fields\<close>

definition legacy_turnout_position :: "string \<Rightarrow> string" where
  "legacy_turnout_position v = (if v = ''straight'' \<or> v = ''diverging'' then v else [])"

definition legacy_turnout_state :: "string \<Rightarrow> string" where
  "legacy_turnout_state v = (if v = ''straight'' \<or> v = ''diverging'' then v else ''unknown'')"

definition new_simple_turnout :: "string \<Rightarrow> string \<Rightarrow> int \<Rightarrow> string \<Rightarrow> string \<Rightarrow> turnout" where
  "new_simple_turnout i name addr desired reported =
     \<lparr> t_id = i, t_name = name, t_kind = KindSimple,
       t_endpoints = [\<lparr> ep_id = ''main'', ep_linear_address = addr, ep_inverted = False \<rparr>],
       t_positions =
         [\<lparr> pd_id = ''straight'', pd_label = [], pd_endpoints = [(''main'', Position1)] \<rparr>,
          \<lparr> pd_id = ''diverging'', pd_label = [], pd_endpoints = [(''main'', Position2)] \<rparr>],
       t_desired_position = legacy_turnout_position desired,
       t_reported_position = legacy_turnout_position reported,
       t_pending = False, t_reported_status = NoReport, t_quality = NoQuality,
       t_command_status = NoCommandStatus, t_dcc_address = addr,
       t_desired_state = legacy_turnout_state desired,
       t_reported_state = legacy_turnout_state reported \<rparr>"

text \<open>A nil receiver is ruled out: every caller passes the address of a local variable.\<close>

definition populate_legacy_turnout_fields :: "turnout \<Rightarrow> turnout" where
  "populate_legacy_turnout_fields t =
     (case t_endpoints t of
        [e] \<Rightarrow>
          (if t_kind t \<noteq> KindSimple
           then t\<lparr> t_dcc_address := 0, t_desired_state := [], t_reported_state := [] \<rparr>
           else t\<lparr> t_dcc_address := ep_linear_address e,
                   t_desired_state := legacy_turnout_state (t_desired_position t),
                   t_reported_state := legacy_turnout_state (t_reported_position t) \<rparr>)
      | _ \<Rightarrow> t\<lparr> t_dcc_address := 0, t_desired_state := [], t_reported_state := [] \<rparr>)"

subsection \<open>Validation\<close>

datatype turnout_problem =
    IdRequired
  | NameRequired
  | InvalidKind turnout_kind
  | EndpointRequired
  | SimpleEndpointCount
  | EndpointWithoutId
  | InvalidLinearAddress string int
  | DuplicateEndpoint string
  | SharedLinearAddress string string int
  | PositionRequired
  | SimplePositionCount
  | PositionWithoutId
  | ReservedPosition string
  | DuplicatePosition string
  | IncompleteVector string
  | UndeclaredEndpoint string string
  | InvalidEndpointValue string accessory_position string
  | DuplicateVector string string
  | UnknownDesiredPosition string
  | UnknownReportedPosition string
  | InvalidReportedStatus report_state
  | InvalidQuality report_quality
  | InvalidCommandStatus command_status

fun problem_code :: "turnout_problem \<Rightarrow> string" where
  "problem_code IdRequired = ''turnout_definition_invalid''"
| "problem_code NameRequired = ''turnout_definition_invalid''"
| "problem_code (InvalidKind _) = ''turnout_definition_invalid''"
| "problem_code EndpointRequired = ''turnout_endpoint_missing''"
| "problem_code SimpleEndpointCount = ''turnout_simple_invalid''"
| "problem_code EndpointWithoutId = ''turnout_endpoint_invalid''"
| "problem_code (InvalidLinearAddress _ _) = ''turnout_endpoint_invalid''"
| "problem_code (DuplicateEndpoint _) = ''turnout_endpoint_invalid''"
| "problem_code (SharedLinearAddress _ _ _) = ''accessory_address_conflict''"
| "problem_code PositionRequired = ''turnout_position_missing''"
| "problem_code SimplePositionCount = ''turnout_simple_invalid''"
| "problem_code PositionWithoutId = ''turnout_position_invalid''"
| "problem_code (ReservedPosition _) = ''turnout_position_invalid''"
| "problem_code (DuplicatePosition _) = ''turnout_position_duplicate''"
| "problem_code (IncompleteVector _) = ''turnout_position_vector_missing''"
| "problem_code (UndeclaredEndpoint _ _) = ''turnout_endpoint_undeclared''"
| "problem_code (InvalidEndpointValue _ _ _) = ''turnout_position_invalid''"
| "problem_code (DuplicateVector _ _) = ''turnout_position_vector_duplicate''"
| "problem_code (UnknownDesiredPosition _) = ''turnout_position_invalid''"
| "problem_code (UnknownReportedPosition _) = ''turnout_position_invalid''"
| "problem_code (InvalidReportedStatus _) = ''turnout_state_invalid''"
| "problem_code (InvalidQuality _) = ''turnout_state_invalid''"
| "problem_code (InvalidCommandStatus _) = ''turnout_state_invalid''"

text \<open>\<^verbatim>\<open>TurnoutValidationError\<close>: code, turnout id and the problem its message words.\<close>

record turnout_validation_error =
  tv_code :: string
  tv_turnout_id :: string
  tv_problem :: turnout_problem

definition invalid_turnout :: "turnout \<Rightarrow> turnout_problem \<Rightarrow> turnout_validation_error" where
  "invalid_turnout t p = \<lparr> tv_code = problem_code p, tv_turnout_id = t_id t, tv_problem = p \<rparr>"

text \<open>
  The endpoint loop. \<open>ids\<close> and \<open>addrs\<close> are the two maps it fills: the keys of
  \<^verbatim>\<open>endpointIDs\<close>, and the owner of each address in \<^verbatim>\<open>addresses\<close>.
\<close>

fun validate_endpoints ::
  "string list \<Rightarrow> (int \<times> string) list \<Rightarrow> accessory_endpoint list \<Rightarrow> turnout_problem + string list" where
  "validate_endpoints ids addrs [] = Inr ids"
| "validate_endpoints ids addrs (e # es) =
     (if blank (ep_id e) then Inl EndpointWithoutId
      else if ep_linear_address e < MinBasicAccessoryAddress \<or>
              ep_linear_address e > MaxBasicAccessoryAddress
      then Inl (InvalidLinearAddress (ep_id e) (ep_linear_address e))
      else if ep_id e \<in> set ids then Inl (DuplicateEndpoint (ep_id e))
      else case map_of addrs (ep_linear_address e) of
             Some other \<Rightarrow> Inl (SharedLinearAddress other (ep_id e) (ep_linear_address e))
           | None \<Rightarrow>
               validate_endpoints (ep_id e # ids) ((ep_linear_address e, ep_id e) # addrs) es)"

definition turnout_vector_key ::
  "accessory_endpoint list \<Rightarrow> (string, accessory_position) gomap \<Rightarrow> string" where
  "turnout_vector_key es values =
     concat (map (\<lambda>i. i @ ''='' @ position_string (gm_get NoPosition values i) @ '';'')
       (sort (map ep_id es)))"

text \<open>The loop over one position's vector.\<close>

fun validate_vector ::
  "string list \<Rightarrow> string \<Rightarrow> (string, accessory_position) gomap \<Rightarrow> turnout_problem option" where
  "validate_vector ids pid [] = None"
| "validate_vector ids pid ((i, v) # vs) =
     (if i \<notin> set ids then Some (UndeclaredEndpoint pid i)
      else if \<not> position_valid v then Some (InvalidEndpointValue pid v i)
      else validate_vector ids pid vs)"

text \<open>
  The position loop, with the maps \<^verbatim>\<open>positionIDs\<close> and \<^verbatim>\<open>vectors\<close>; it returns the
  declared position ids.
\<close>

fun validate_positions ::
  "accessory_endpoint list \<Rightarrow> string list \<Rightarrow> string list \<Rightarrow> (string \<times> string) list \<Rightarrow>
   turnout_position_definition list \<Rightarrow> turnout_problem + string list" where
  "validate_positions es ids pids vectors [] = Inr pids"
| "validate_positions es ids pids vectors (p # ps) =
     (if blank (pd_id p) then Inl PositionWithoutId
      else if pd_id p = ''unknown'' \<or> pd_id p = ''invalid'' then Inl (ReservedPosition (pd_id p))
      else if pd_id p \<in> set pids then Inl (DuplicatePosition (pd_id p))
      else if length (pd_endpoints p) \<noteq> length ids then Inl (IncompleteVector (pd_id p))
      else case validate_vector ids (pd_id p) (pd_endpoints p) of
             Some e \<Rightarrow> Inl e
           | None \<Rightarrow>
               (let key = turnout_vector_key es (pd_endpoints p) in
                case map_of vectors key of
                  Some other \<Rightarrow> Inl (DuplicateVector other (pd_id p))
                | None \<Rightarrow> validate_positions es ids (pd_id p # pids) ((key, pd_id p) # vectors) ps))"

definition validate_turnout_problem :: "turnout \<Rightarrow> turnout_problem option" where
  "validate_turnout_problem t =
     (if blank (t_id t) then Some IdRequired
      else if blank (t_name t) then Some NameRequired
      else if \<not> kind_valid (t_kind t) then Some (InvalidKind (t_kind t))
      else if t_endpoints t = [] then Some EndpointRequired
      else if t_kind t = KindSimple \<and> length (t_endpoints t) \<noteq> 1 then Some SimpleEndpointCount
      else case validate_endpoints [] [] (t_endpoints t) of
        Inl e \<Rightarrow> Some e
      | Inr ids \<Rightarrow>
          if t_positions t = [] then Some PositionRequired
          else if t_kind t = KindSimple \<and> length (t_positions t) \<noteq> 2 then Some SimplePositionCount
          else case validate_positions (t_endpoints t) ids [] [] (t_positions t) of
            Inl e \<Rightarrow> Some e
          | Inr pids \<Rightarrow>
              if t_desired_position t \<noteq> [] \<and> t_desired_position t \<notin> set pids
              then Some (UnknownDesiredPosition (t_desired_position t))
              else if t_reported_position t \<noteq> [] \<and> t_reported_position t \<notin> set pids
              then Some (UnknownReportedPosition (t_reported_position t))
              else if t_reported_status t \<noteq> NoReport \<and> \<not> report_valid (t_reported_status t)
              then Some (InvalidReportedStatus (t_reported_status t))
              else if t_quality t \<noteq> NoQuality \<and> \<not> quality_valid (t_quality t)
              then Some (InvalidQuality (t_quality t))
              else if t_command_status t \<noteq> NoCommandStatus \<and>
                      \<not> command_status_valid (t_command_status t)
              then Some (InvalidCommandStatus (t_command_status t))
              else None)"

definition validate_turnout :: "turnout \<Rightarrow> turnout_validation_error option" where
  "validate_turnout t = map_option (invalid_turnout t) (validate_turnout_problem t)"

subsection \<open>Normalisation\<close>

definition default_reported_status :: "report_state \<Rightarrow> string \<Rightarrow> report_state" where
  "default_reported_status st reported =
     (if st = NoReport \<or> (st = ReportUnknown \<and> reported \<noteq> [])
      then (if reported = [] then ReportUnknown else ReportKnown) else st)"

definition default_quality :: "report_quality \<Rightarrow> string \<Rightarrow> report_quality" where
  "default_quality q reported = (if q = NoQuality \<and> reported \<noteq> [] then QualityAssumed else q)"

definition default_command_status ::
  "command_status \<Rightarrow> bool \<Rightarrow> string \<Rightarrow> string \<Rightarrow> command_status" where
  "default_command_status st pending desired reported =
     (if st = NoCommandStatus
      then (if pending then CommandPending
            else if desired \<noteq> [] \<and> desired = reported then CommandSucceeded else CommandIdle)
      else st)"

text \<open>
  The steps after the legacy conversion. The three defaults read only fields none of them
  writes, so they are one update.
\<close>

definition with_defaults :: "turnout \<Rightarrow> turnout" where
  "with_defaults t =
     populate_legacy_turnout_fields
       (t\<lparr> t_reported_status := default_reported_status (t_reported_status t) (t_reported_position t),
           t_quality := default_quality (t_quality t) (t_reported_position t),
           t_command_status := default_command_status (t_command_status t) (t_pending t)
             (t_desired_position t) (t_reported_position t) \<rparr>)"

definition normalize_turnout :: "turnout \<Rightarrow> turnout_validation_error + turnout" where
  "normalize_turnout t0 =
     (let t = with_defaults (if t_endpoints t0 = [] \<and> t_dcc_address t0 > 0
                then new_simple_turnout (t_id t0) (t_name t0) (t_dcc_address t0)
                       (t_desired_state t0) (t_reported_state t0)
                else t0)
      in case validate_turnout t of Some e \<Rightarrow> Inl e | None \<Rightarrow> Inr t)"

subsection \<open>Positions and endpoints\<close>

definition turnout_position :: "turnout \<Rightarrow> string \<Rightarrow> turnout_position_definition option" where
  "turnout_position t i = find (\<lambda>p. pd_id p = i) (t_positions t)"

definition turnout_endpoint :: "turnout \<Rightarrow> string \<Rightarrow> accessory_endpoint option" where
  "turnout_endpoint t i = find (\<lambda>e. ep_id e = i) (t_endpoints t)"

definition physical_accessory_position ::
  "accessory_endpoint \<Rightarrow> accessory_position \<Rightarrow> accessory_position" where
  "physical_accessory_position e logical = (if ep_inverted e then position_inverted logical else logical)"

text \<open>The loop of \<^verbatim>\<open>ResolveTurnoutPosition\<close> that fills \<^verbatim>\<open>normalized\<close>.\<close>

fun normalize_endpoint_states ::
  "accessory_endpoint list \<Rightarrow> (string, accessory_position) gomap \<Rightarrow>
   (string \<times> accessory_position) list option" where
  "normalize_endpoint_states [] states = Some []"
| "normalize_endpoint_states (e # es) states =
     (case map_of states (ep_id e) of
        None \<Rightarrow> None
      | Some s \<Rightarrow>
          if \<not> position_valid s then None
          else map_option (\<lambda>r. (ep_id e, if ep_inverted e then position_inverted s else s) # r)
                 (normalize_endpoint_states es states))"

definition position_matches ::
  "(string \<times> accessory_position) list \<Rightarrow> turnout_position_definition \<Rightarrow> bool" where
  "position_matches normalized p \<longleftrightarrow>
     (\<forall>(i, expected) \<in> set (pd_endpoints p). gm_get NoPosition normalized i = expected)"

definition resolve_turnout_position ::
  "turnout \<Rightarrow> (string, accessory_position) gomap \<Rightarrow> string option" where
  "resolve_turnout_position t states =
     (if validate_turnout t \<noteq> None then None
      else case normalize_endpoint_states (t_endpoints t) states of
             None \<Rightarrow> None
           | Some normalized \<Rightarrow>
               map_option pd_id (find (position_matches normalized) (t_positions t)))"

subsection \<open>Validation: what a valid turnout satisfies\<close>

lemma validate_endpoints_Inr:
  "validate_endpoints ids addrs es = Inr ids' \<Longrightarrow>
     ids' = rev (map ep_id es) @ ids \<and> distinct (map ep_id es) \<and>
     set (map ep_id es) \<inter> set ids = {} \<and>
     distinct (map ep_linear_address es) \<and>
     set (map ep_linear_address es) \<inter> fst ` set addrs = {} \<and>
     (\<forall>e\<in>set es. \<not> blank (ep_id e) \<and> 1 \<le> ep_linear_address e \<and> ep_linear_address e \<le> 2040)"
proof (induction es arbitrary: ids addrs)
  case Nil
  then show ?case by simp
next
  case (Cons e es)
  have c: "\<not> blank (ep_id e)" "1 \<le> ep_linear_address e" "ep_linear_address e \<le> 2040"
      "ep_id e \<notin> set ids" "ep_linear_address e \<notin> fst ` set addrs"
    and r: "validate_endpoints (ep_id e # ids) ((ep_linear_address e, ep_id e) # addrs) es = Inr ids'"
    using Cons.prems
    by (simp_all add: MinBasicAccessoryAddress_def MaxBasicAccessoryAddress_def map_of_eq_None_iff
        split: if_splits option.splits)
  from Cons.IH [OF r] c show ?case by auto
qed

lemma validate_vector_None:
  "validate_vector ids pid vs = None \<longleftrightarrow> (\<forall>(i, v)\<in>set vs. i \<in> set ids \<and> position_valid v)"
  by (induction ids pid vs rule: validate_vector.induct) auto

lemma validate_positions_Inr:
  "validate_positions es ids pids vectors ps = Inr pids' \<Longrightarrow>
     pids' = rev (map pd_id ps) @ pids \<and> distinct (map pd_id ps) \<and>
     set (map pd_id ps) \<inter> set pids = {} \<and>
     distinct (map (\<lambda>p. turnout_vector_key es (pd_endpoints p)) ps) \<and>
     (\<lambda>p. turnout_vector_key es (pd_endpoints p)) ` set ps \<inter> fst ` set vectors = {} \<and>
     (\<forall>p\<in>set ps. \<not> blank (pd_id p) \<and> length (pd_endpoints p) = length ids \<and>
        (\<forall>(i, v)\<in>set (pd_endpoints p). i \<in> set ids \<and> position_valid v))"
proof (induction ps arbitrary: pids vectors)
  case Nil
  then show ?case by simp
next
  case (Cons p ps)
  let ?key = "turnout_vector_key es (pd_endpoints p)"
  have c: "\<not> blank (pd_id p)" "pd_id p \<notin> set pids" "length (pd_endpoints p) = length ids"
      "validate_vector ids (pd_id p) (pd_endpoints p) = None" "?key \<notin> fst ` set vectors"
    and r: "validate_positions es ids (pd_id p # pids) ((?key, pd_id p) # vectors) ps = Inr pids'"
    using Cons.prems
    by (simp_all add: Let_def map_of_eq_None_iff split: if_splits option.splits)
  from Cons.IH [OF r] c show ?case by (simp add: validate_vector_None)
qed

text \<open>The conditions a valid turnout meets, in one predicate.\<close>

definition turnout_wf :: "turnout \<Rightarrow> bool" where
  "turnout_wf t \<longleftrightarrow>
     t_endpoints t \<noteq> [] \<and> t_positions t \<noteq> [] \<and>
     distinct (map ep_id (t_endpoints t)) \<and> distinct (map ep_linear_address (t_endpoints t)) \<and>
     (\<forall>e\<in>set (t_endpoints t). 1 \<le> ep_linear_address e \<and> ep_linear_address e \<le> 2040) \<and>
     distinct (map pd_id (t_positions t)) \<and>
     distinct (map (\<lambda>p. turnout_vector_key (t_endpoints t) (pd_endpoints p)) (t_positions t)) \<and>
     (\<forall>p\<in>set (t_positions t). \<not> blank (pd_id p) \<and>
        length (pd_endpoints p) = length (t_endpoints t) \<and>
        (\<forall>(i, v)\<in>set (pd_endpoints p). i \<in> ep_id ` set (t_endpoints t) \<and> position_valid v))"

lemma validate_turnout_wf: "validate_turnout t = None \<Longrightarrow> turnout_wf t"
proof -
  assume "validate_turnout t = None"
  then obtain ids pids where ne: "t_endpoints t \<noteq> []" "t_positions t \<noteq> []"
    and e: "validate_endpoints [] [] (t_endpoints t) = Inr ids"
    and p: "validate_positions (t_endpoints t) ids [] [] (t_positions t) = Inr pids"
    unfolding validate_turnout_def validate_turnout_problem_def
    by (simp split: if_splits sum.splits)
  from validate_endpoints_Inr [OF e] have ids: "set ids = ep_id ` set (t_endpoints t)"
    "length ids = length (t_endpoints t)" by auto
  show ?thesis
    unfolding turnout_wf_def
    using ne validate_endpoints_Inr [OF e] validate_positions_Inr [OF p] ids by simp
qed

text \<open>A map value of Go has distinct keys, so a complete vector covers every endpoint.\<close>

definition go_vectors :: "turnout \<Rightarrow> bool" where
  "go_vectors t \<longleftrightarrow> (\<forall>p\<in>set (t_positions t). gm_wf (pd_endpoints p))"

lemma vector_covers:
  assumes "turnout_wf t" and "go_vectors t" and "p \<in> set (t_positions t)"
  shows "fst ` set (pd_endpoints p) = ep_id ` set (t_endpoints t)"
proof -
  have sub: "fst ` set (pd_endpoints p) \<subseteq> ep_id ` set (t_endpoints t)"
    and len: "length (pd_endpoints p) = length (t_endpoints t)"
    and d: "distinct (map ep_id (t_endpoints t))"
    using assms by (fastforce simp: turnout_wf_def)+
  have "distinct (map fst (pd_endpoints p))"
    using assms by (auto simp: go_vectors_def intro: gm_wf_distinct simp del: distinct_map)
  then have "card (fst ` set (pd_endpoints p)) = length (pd_endpoints p)"
    by (metis distinct_card length_map list.set_map)
  moreover have "card (ep_id ` set (t_endpoints t)) = length (t_endpoints t)"
    using d by (metis distinct_card length_map list.set_map)
  ultimately show ?thesis using sub len by (simp add: card_subset_eq)
qed

lemma vector_value:
  assumes "turnout_wf t" and "go_vectors t" and "p \<in> set (t_positions t)" and "e \<in> set (t_endpoints t)"
  obtains v where "map_of (pd_endpoints p) (ep_id e) = Some v"
    and "(ep_id e, v) \<in> set (pd_endpoints p)" and "position_valid v"
    and "gm_get NoPosition (pd_endpoints p) (ep_id e) = v"
proof -
  have "ep_id e \<in> fst ` set (pd_endpoints p)"
    using vector_covers [OF assms(1-3)] assms(4) by simp
  then obtain v where v: "map_of (pd_endpoints p) (ep_id e) = Some v"
    by (metis not_None_eq map_of_eq_None_iff)
  then have "(ep_id e, v) \<in> set (pd_endpoints p)" by (rule map_of_SomeD)
  moreover from this assms have "position_valid v" by (fastforce simp: turnout_wf_def)
  ultimately show ?thesis using v that by (simp add: gm_get_def)
qed

subsection \<open>The vector key is injective\<close>

lemma vector_key_inj_aux:
  "\<forall>i\<in>set is. position_valid (f i) \<and> position_valid (g i) \<Longrightarrow>
   concat (map (\<lambda>i. i @ ''='' @ position_string (f i) @ '';'') is) =
   concat (map (\<lambda>i. i @ ''='' @ position_string (g i) @ '';'') is) \<Longrightarrow>
   \<forall>i\<in>set is. f i = g i"
proof (induction "is")
  case Nil
  then show ?case by simp
next
  case (Cons i "is")
  have "length (position_string (f i)) = length (position_string (g i))"
    using Cons.prems(1) by (simp add: length_position_string)
  then have s: "position_string (f i) = position_string (g i)"
    and r: "concat (map (\<lambda>i. i @ ''='' @ position_string (f i) @ '';'') is) =
         concat (map (\<lambda>i. i @ ''='' @ position_string (g i) @ '';'') is)"
    using Cons.prems(2) by (simp_all add: append_eq_append_conv)
  have "f i = g i" using Cons.prems(1) s by (intro position_string_inj) auto
  moreover have "\<forall>i\<in>set is. f i = g i" using Cons.IH [OF _ r] Cons.prems(1) by simp
  ultimately show ?case by simp
qed

lemma turnout_vector_key_inj:
  assumes "turnout_vector_key es m = turnout_vector_key es m'"
    and "\<forall>e\<in>set es. position_valid (gm_get NoPosition m (ep_id e)) \<and>
           position_valid (gm_get NoPosition m' (ep_id e))"
    and "e \<in> set es"
  shows "gm_get NoPosition m (ep_id e) = gm_get NoPosition m' (ep_id e)"
  using vector_key_inj_aux [of "sort (map ep_id es)"
      "gm_get NoPosition m" "gm_get NoPosition m'"] assms
  by (simp add: turnout_vector_key_def)

lemma positions_distinguished:
  assumes "turnout_wf t" and "go_vectors t"
    and "p \<in> set (t_positions t)" and "q \<in> set (t_positions t)"
    and "\<forall>e\<in>set (t_endpoints t). gm_get NoPosition (pd_endpoints p) (ep_id e) =
           gm_get NoPosition (pd_endpoints q) (ep_id e)"
  shows "p = q"
proof -
  have "turnout_vector_key (t_endpoints t) (pd_endpoints p) =
        turnout_vector_key (t_endpoints t) (pd_endpoints q)"
    unfolding turnout_vector_key_def using assms(5) by (intro arg_cong [where f = concat]) simp
  with assms(1,3,4) show ?thesis
    by (auto simp: turnout_wf_def distinct_map dest: inj_onD)
qed

subsection \<open>Resolution\<close>

lemma normalize_endpoint_states_Some:
  assumes "distinct (map ep_id es)"
  shows "normalize_endpoint_states es states = Some r \<longleftrightarrow>
     (\<forall>e\<in>set es. \<exists>s. map_of states (ep_id e) = Some s \<and> position_valid s) \<and>
     r = map (\<lambda>e. (ep_id e, physical_accessory_position e (the (map_of states (ep_id e))))) es"
  by (induction es arbitrary: r)
    (auto simp: physical_accessory_position_def split: option.splits)

lemma map_of_map_key:
  "distinct (map k xs) \<Longrightarrow> x \<in> set xs \<Longrightarrow> map_of (map (\<lambda>x. (k x, f x)) xs) (k x) = Some (f x)"
  by (induction xs) (auto simp: rev_image_eqI)

lemma physical_accessory_position_involutive [simp]:
  "physical_accessory_position e (physical_accessory_position e p) = p"
  by (simp add: physical_accessory_position_def)

lemma physical_accessory_position_valid [simp]:
  "position_valid (physical_accessory_position e p) = position_valid p"
  by (simp add: physical_accessory_position_def)

lemma position_matches_iff:
  assumes wf: "turnout_wf t" "go_vectors t" and p: "p \<in> set (t_positions t)"
    and get: "\<forall>e\<in>set (t_endpoints t). gm_get NoPosition n (ep_id e) = h e"
  shows "position_matches n p \<longleftrightarrow>
     (\<forall>e\<in>set (t_endpoints t). h e = gm_get NoPosition (pd_endpoints p) (ep_id e))"
proof
  assume m: "position_matches n p"
  show "\<forall>e\<in>set (t_endpoints t). h e = gm_get NoPosition (pd_endpoints p) (ep_id e)"
  proof
    fix e assume e: "e \<in> set (t_endpoints t)"
    obtain v where "(ep_id e, v) \<in> set (pd_endpoints p)"
      and "gm_get NoPosition (pd_endpoints p) (ep_id e) = v"
      using vector_value [OF wf p e] by metis
    with m get e show "h e = gm_get NoPosition (pd_endpoints p) (ep_id e)"
      by (auto simp: position_matches_def)
  qed
next
  assume all: "\<forall>e\<in>set (t_endpoints t). h e = gm_get NoPosition (pd_endpoints p) (ep_id e)"
  have "gm_get NoPosition n i = v" if iv: "(i, v) \<in> set (pd_endpoints p)" for i v
  proof -
    have "i \<in> ep_id ` set (t_endpoints t)"
      using vector_covers [OF wf p] iv by (metis fst_conv image_eqI)
    then obtain e where e: "e \<in> set (t_endpoints t)" "ep_id e = i" by auto
    have "map_of (pd_endpoints p) i = Some v"
      using iv wf(2) p by (intro map_of_is_SomeI gm_wf_distinct) (auto simp: go_vectors_def)
    then have "gm_get NoPosition (pd_endpoints p) (ep_id e) = v" using e by (simp add: gm_get_def)
    then show ?thesis using all get e by auto
  qed
  then show "position_matches n p" by (auto simp: position_matches_def)
qed

lemma turnout_position_Some:
  "distinct (map pd_id (t_positions t)) \<Longrightarrow>
     turnout_position t i = Some p \<longleftrightarrow> p \<in> set (t_positions t) \<and> pd_id p = i"
  unfolding turnout_position_def
  by (auto simp: find_Some_iff2 find_Some_iff distinct_map in_set_conv_nth dest: inj_onD)
     (metis (mono_tags, lifting) distinct_conv_nth distinct_map length_map nth_map less_trans nat_neq_iff)

text \<open>The state each endpoint reports once every endpoint has moved to position \<open>p\<close>.\<close>

definition commanded_states ::
  "turnout \<Rightarrow> turnout_position_definition \<Rightarrow> (string, accessory_position) gomap" where
  "commanded_states t p =
     map (\<lambda>e. (ep_id e, physical_accessory_position e (gm_get NoPosition (pd_endpoints p) (ep_id e))))
       (t_endpoints t)"

text \<open>What it means for observed states to be exactly those of position \<open>p\<close>.\<close>

definition states_show ::
  "turnout \<Rightarrow> (string, accessory_position) gomap \<Rightarrow> turnout_position_definition \<Rightarrow> bool" where
  "states_show t states p \<longleftrightarrow>
     (\<forall>e\<in>set (t_endpoints t). map_of states (ep_id e) =
        Some (physical_accessory_position e (gm_get NoPosition (pd_endpoints p) (ep_id e))))"

lemma commanded_states_show: "turnout_wf t \<Longrightarrow> states_show t (commanded_states t p) p"
  unfolding states_show_def commanded_states_def turnout_wf_def
  by (intro ballI map_of_map_key) auto

lemma matches_iff_states_show:
  assumes wf: "turnout_wf t" "go_vectors t" and p: "p \<in> set (t_positions t)"
    and n: "normalize_endpoint_states (t_endpoints t) states = Some n"
  shows "position_matches n p \<longleftrightarrow> states_show t states p"
proof -
  let ?h = "\<lambda>e. physical_accessory_position e (the (map_of states (ep_id e)))"
  have d: "distinct (map ep_id (t_endpoints t))" using wf by (simp add: turnout_wf_def)
  have all: "\<forall>e\<in>set (t_endpoints t). \<exists>s. map_of states (ep_id e) = Some s"
    and n': "n = map (\<lambda>e. (ep_id e, ?h e)) (t_endpoints t)"
    using normalize_endpoint_states_Some [OF d] n by auto
  have "\<forall>e\<in>set (t_endpoints t). gm_get NoPosition n (ep_id e) = ?h e"
    unfolding n' gm_get_def by (simp add: map_of_map_key [OF d])
  then have "position_matches n p \<longleftrightarrow>
      (\<forall>e\<in>set (t_endpoints t). ?h e = gm_get NoPosition (pd_endpoints p) (ep_id e))"
    by (rule position_matches_iff [OF wf p])
  also have "\<dots> \<longleftrightarrow> states_show t states p"
    unfolding states_show_def
    using all by (metis option.sel physical_accessory_position_involutive)
  finally show ?thesis .
qed

lemma states_show_normalizes:
  assumes wf: "turnout_wf t" "go_vectors t" and p: "p \<in> set (t_positions t)"
    and "states_show t states p"
  obtains n where "normalize_endpoint_states (t_endpoints t) states = Some n"
proof -
  have d: "distinct (map ep_id (t_endpoints t))" using wf by (simp add: turnout_wf_def)
  have "\<forall>e\<in>set (t_endpoints t). \<exists>s. map_of states (ep_id e) = Some s \<and> position_valid s"
    using assms(4) vector_value [OF wf p]
    by (metis physical_accessory_position_valid states_show_def)
  then show ?thesis using that normalize_endpoint_states_Some [OF d] by auto
qed

lemma states_show_unique:
  assumes "turnout_wf t" and "go_vectors t"
    and "p \<in> set (t_positions t)" and "q \<in> set (t_positions t)"
    and "states_show t states p" and "states_show t states q"
  shows "p = q"
  using assms
  by (intro positions_distinguished [of t])
     (auto simp: states_show_def, metis physical_accessory_position_involutive)

text \<open>
  for a valid turnout, \<^verbatim>\<open>ResolveTurnoutPosition\<close> names a position exactly when the observed
  endpoint states are the ones that position commands, inverted endpoints included. So the
  states reached by commanding a position resolve to that position and to no other.
\<close>

theorem resolve_turnout_position_iff:
  assumes "validate_turnout t = None" and "go_vectors t"
  shows "resolve_turnout_position t states = Some i \<longleftrightarrow>
     (\<exists>p. turnout_position t i = Some p \<and> states_show t states p)"
proof -
  have wf: "turnout_wf t" using assms(1) by (rule validate_turnout_wf)
  have d: "distinct (map pd_id (t_positions t))" using wf by (simp add: turnout_wf_def)
  show ?thesis
  proof
    assume "resolve_turnout_position t states = Some i"
    then obtain n p where n: "normalize_endpoint_states (t_endpoints t) states = Some n"
      and f: "find (position_matches n) (t_positions t) = Some p" "pd_id p = i"
      by (auto simp: resolve_turnout_position_def assms(1) split: option.splits)
    then have p: "p \<in> set (t_positions t)" "position_matches n p"
      by (auto simp: find_Some_iff)
    then show "\<exists>p. turnout_position t i = Some p \<and> states_show t states p"
      using f matches_iff_states_show [OF wf assms(2) p(1) n] turnout_position_Some [OF d] by auto
  next
    assume "\<exists>p. turnout_position t i = Some p \<and> states_show t states p"
    then obtain p where p: "p \<in> set (t_positions t)" "pd_id p = i" "states_show t states p"
      using turnout_position_Some [OF d] by auto
    obtain n where n: "normalize_endpoint_states (t_endpoints t) states = Some n"
      using states_show_normalizes [OF wf assms(2) p(1,3)] .
    have m: "position_matches n p"
      using matches_iff_states_show [OF wf assms(2) p(1) n] p(3) by simp
    then obtain q where q: "find (position_matches n) (t_positions t) = Some q"
      using p(1) by (cases "find (position_matches n) (t_positions t)") (auto simp: find_None_iff)
    then have "q \<in> set (t_positions t)" "position_matches n q" by (auto simp: find_Some_iff)
    then have "q = p"
      using states_show_unique [OF wf assms(2)] p matches_iff_states_show [OF wf assms(2) _ n] by blast
    then show "resolve_turnout_position t states = Some i"
      using q n p(2) by (simp add: resolve_turnout_position_def assms(1))
  qed
qed

definition example_slip :: turnout where
  "example_slip =
     \<lparr> t_id = ''slip'', t_name = ''Slip'', t_kind = KindDoubleSlip,
       t_endpoints = [\<lparr> ep_id = ''a'', ep_linear_address = 10, ep_inverted = False \<rparr>,
                      \<lparr> ep_id = ''b'', ep_linear_address = 11, ep_inverted = True \<rparr>],
       t_positions =
         [\<lparr> pd_id = ''p0'', pd_label = [], pd_endpoints = [(''a'', Position1), (''b'', Position1)] \<rparr>,
          \<lparr> pd_id = ''p1'', pd_label = [], pd_endpoints = [(''a'', Position1), (''b'', Position2)] \<rparr>,
          \<lparr> pd_id = ''p2'', pd_label = [], pd_endpoints = [(''a'', Position2), (''b'', Position2)] \<rparr>],
       t_desired_position = ''p0'', t_reported_position = ''p0'', t_pending = False,
       t_reported_status = ReportKnown, t_quality = QualityStation,
       t_command_status = CommandSucceeded, t_dcc_address = 0, t_desired_state = [],
       t_reported_state = [] \<rparr>"

lemma example_slip_valid: "validate_turnout example_slip = None"
  by code_simp

lemma example_slip_go: "go_vectors example_slip"
  by (simp add: go_vectors_def example_slip_def) 

theorem resolve_turnout_position_iff_witness:
  "resolve_turnout_position example_slip [(''a'', Position2), (''b'', Position1)] = Some ''p2''"
  by (subst resolve_turnout_position_iff [OF example_slip_valid example_slip_go])
     (simp add: example_slip_def turnout_position_def states_show_def
       physical_accessory_position_def gm_get_def)

subsection \<open>Normalisation\<close>

lemma populate_legacy_fields [simp]:
  "t_id (populate_legacy_turnout_fields t) = t_id t"
  "t_name (populate_legacy_turnout_fields t) = t_name t"
  "t_kind (populate_legacy_turnout_fields t) = t_kind t"
  "t_endpoints (populate_legacy_turnout_fields t) = t_endpoints t"
  "t_positions (populate_legacy_turnout_fields t) = t_positions t"
  "t_desired_position (populate_legacy_turnout_fields t) = t_desired_position t"
  "t_reported_position (populate_legacy_turnout_fields t) = t_reported_position t"
  "t_pending (populate_legacy_turnout_fields t) = t_pending t"
  "t_reported_status (populate_legacy_turnout_fields t) = t_reported_status t"
  "t_quality (populate_legacy_turnout_fields t) = t_quality t"
  "t_command_status (populate_legacy_turnout_fields t) = t_command_status t"
  by (simp_all add: populate_legacy_turnout_fields_def split: list.split)

lemma populate_legacy_idem [simp]:
  "populate_legacy_turnout_fields (populate_legacy_turnout_fields t) = populate_legacy_turnout_fields t"
  by (cases t) (auto simp: populate_legacy_turnout_fields_def split: list.split)

lemma default_reported_status_idem [simp]:
  "default_reported_status (default_reported_status s r) r = default_reported_status s r"
  by (auto simp: default_reported_status_def)

lemma default_quality_idem [simp]: "default_quality (default_quality q r) r = default_quality q r"
  by (auto simp: default_quality_def)

lemma default_command_status_idem [simp]:
  "default_command_status (default_command_status s b d r) b d r = default_command_status s b d r"
  by (auto simp: default_command_status_def)

lemma populate_legacy_cong:
  assumes "t_kind s = t_kind t" and "t_endpoints s = t_endpoints t"
    and "t_desired_position s = t_desired_position t" and "t_reported_position s = t_reported_position t"
  shows "t_dcc_address (populate_legacy_turnout_fields s) = t_dcc_address (populate_legacy_turnout_fields t)"
    and "t_desired_state (populate_legacy_turnout_fields s) = t_desired_state (populate_legacy_turnout_fields t)"
    and "t_reported_state (populate_legacy_turnout_fields s) = t_reported_state (populate_legacy_turnout_fields t)"
  using assms by (auto simp: populate_legacy_turnout_fields_def split: list.split)

lemma with_defaults_idem [simp]: "with_defaults (with_defaults t) = with_defaults t"
  by (rule turnout.equality) (auto simp: with_defaults_def intro: populate_legacy_cong)

text \<open>
  What \<^verbatim>\<open>NormalizeTurnout\<close> accepts is a valid turnout with a known runtime state (reported
  status and command status are named constants, and a reported position always comes with
  a quality), and normalising it again changes nothing.
\<close>

theorem normalize_turnout_stable:
  assumes "normalize_turnout t = Inr t'"
  shows "validate_turnout t' = None \<and> normalize_turnout t' = Inr t' \<and>
    report_valid (t_reported_status t') \<and> command_status_valid (t_command_status t') \<and>
    (t_reported_position t' \<noteq> [] \<longrightarrow>
       t_reported_status t' \<noteq> ReportUnknown \<and> quality_valid (t_quality t'))"
proof -
  obtain t1 where v: "validate_turnout t' = None" and t': "t' = with_defaults t1"
    using assms by (auto simp: normalize_turnout_def Let_def split: option.splits)
  have ne: "t_endpoints t' \<noteq> []" using validate_turnout_wf [OF v] by (simp add: turnout_wf_def)
  have again: "normalize_turnout t' = Inr t'"
    using v ne by (simp add: normalize_turnout_def Let_def t')
  have "t_reported_status t' \<noteq> NoReport" "t_command_status t' \<noteq> NoCommandStatus"
    and r: "t_reported_position t' \<noteq> [] \<longrightarrow> t_reported_status t' \<noteq> ReportUnknown"
    and q: "t_reported_position t' \<noteq> [] \<longrightarrow> t_quality t' \<noteq> NoQuality"
    by (auto simp: t' with_defaults_def default_reported_status_def default_quality_def
        default_command_status_def)
  moreover have "t_reported_status t' = NoReport \<or> report_valid (t_reported_status t')"
    and "t_quality t' = NoQuality \<or> quality_valid (t_quality t')"
    and "t_command_status t' = NoCommandStatus \<or> command_status_valid (t_command_status t')"
    using v unfolding validate_turnout_def validate_turnout_problem_def
    by (auto split: if_splits sum.splits)
  ultimately show ?thesis using v again by blast
qed

definition example_legacy :: turnout where
  "example_legacy = (new_simple_turnout ''t1'' ''Entry'' 5 [] [])
     \<lparr> t_endpoints := [], t_positions := [], t_desired_state := ''diverging'',
       t_reported_state := ''straight'' \<rparr>"

theorem normalize_turnout_stable_witness:
  "\<exists>t'. normalize_turnout example_legacy = Inr t' \<and> t_reported_position t' = ''straight'' \<and>
     normalize_turnout t' = Inr t'"
proof -
  let ?t = "new_simple_turnout ''t1'' ''Entry'' 5 ''diverging'' ''straight''
     \<lparr> t_reported_status := ReportKnown, t_quality := QualityAssumed, t_command_status := CommandIdle \<rparr>"
  have n: "normalize_turnout example_legacy = Inr ?t" by code_simp
  have "t_reported_position ?t = ''straight''" by code_simp
  then show ?thesis using n normalize_turnout_stable [OF n] by blast
qed

end
