(* ===== verification/Search.thy ===== *)
theory Search
  imports Prelude
begin

text \<open>
  The breadth-first searches of the program share one shape: a queue, a set of states already
  seen, and an inner loop over the successors of the state at the head. This theory models
  that shape once, as executable definitions over an arbitrary successor function, and proves
  it correct against a locale that only asks the reachable states to lie in a finite set:
  the search always stops, what it finds is a shortest walk, and when it finds nothing there
  is nothing to find. \<open>bfs\<close> is the search that stops at a goal and carries its path;
  \<open>flood\<close> is the traversal without a goal that collects a connected component.
\<close>

subsection \<open>Walks\<close>

fun walk :: "('s \<Rightarrow> ('l \<times> 's) list) \<Rightarrow> 's \<Rightarrow> 'l list \<Rightarrow> 's \<Rightarrow> bool" where
  "walk succ s [] t \<longleftrightarrow> s = t"
| "walk succ s (l # ls) t \<longleftrightarrow> (\<exists>s'. (l, s') \<in> set (succ s) \<and> walk succ s' ls t)"

subsection \<open>Search with a goal\<close>

datatype ('s, 'l) expansion = Found "'s \<times> 'l list" | Continue "'s list" "('s \<times> 'l list) list"

text \<open>
  The inner loop: skip a state already seen, stop at a goal, otherwise mark the state as seen
  and append it to the queue with its path.
\<close>

fun expand ::
  "('s \<Rightarrow> bool) \<Rightarrow> 'l list \<Rightarrow> ('l \<times> 's) list \<Rightarrow> 's list \<Rightarrow> ('s \<times> 'l list) list \<Rightarrow> ('s, 'l) expansion" where
  "expand goal p [] seen new = Continue seen new"
| "expand goal p ((l, s) # cs) seen new =
     (if s \<in> set seen then expand goal p cs seen new
      else if goal s then Found (s, p @ [l])
      else expand goal p cs (s # seen) (new @ [(s, p @ [l])]))"

text \<open>The outer loop; \<open>None\<close> would be a loop that never ends.\<close>

partial_function (option) bfs ::
  "('s \<Rightarrow> ('l \<times> 's) list) \<Rightarrow> ('s \<Rightarrow> bool) \<Rightarrow> ('s \<times> 'l list) list \<Rightarrow> 's list \<Rightarrow>
   ('s \<times> 'l list) option option" where
  "bfs succ goal queue seen =
     (case queue of
        [] \<Rightarrow> Some None
      | q # rest \<Rightarrow>
          (case expand goal (snd q) (succ (fst q)) seen [] of
             Found r \<Rightarrow> Some (Some r)
           | Continue seen' new \<Rightarrow> bfs succ goal (rest @ new) seen'))"

subsection \<open>Flooding a component\<close>

fun push_new :: "'s list \<Rightarrow> 's list \<Rightarrow> 's list \<Rightarrow> 's list \<times> 's list" where
  "push_new [] visited queue = (visited, queue)"
| "push_new (s # ss) visited queue =
     (if s \<in> set visited then push_new ss visited queue
      else push_new ss (s # visited) (queue @ [s]))"

partial_function (option) flood ::
  "('s \<Rightarrow> 's list) \<Rightarrow> 's list \<Rightarrow> 's list \<Rightarrow> 's list \<Rightarrow> ('s list \<times> 's list) option" where
  "flood adj queue visited component =
     (case queue of
        [] \<Rightarrow> Some (component, visited)
      | s # rest \<Rightarrow>
          (case push_new (adj s) visited rest of
             (visited', queue') \<Rightarrow> flood adj queue' visited' (component @ [s])))"

declare bfs.simps [code] flood.simps [code]

subsection \<open>Facts about walks\<close>

lemma walk_append: "walk succ s (ls @ ls') t \<longleftrightarrow> (\<exists>u. walk succ s ls u \<and> walk succ u ls' t)"
  by (induction ls arbitrary: s) auto

lemma walk_snoc: "walk succ s (ls @ [l]) t \<longleftrightarrow> (\<exists>u. walk succ s ls u \<and> (l, t) \<in> set (succ u))"
  by (auto simp: walk_append)

lemma walk_closed:
  assumes "walk succ s ls t" and "s \<in> V"
    and "\<And>u l v. u \<in> V \<Longrightarrow> (l, v) \<in> set (succ u) \<Longrightarrow> v \<in> V"
  shows "t \<in> V"
  using assms(1,2)
proof (induction ls arbitrary: s)
  case Nil
  then show ?case by simp
next
  case (Cons l ls)
  then show ?case using assms(3) by auto
qed

subsection \<open>Facts about the inner loops\<close>

lemma expand_Found:
  "expand goal p cs seen new = Found (t, q) \<Longrightarrow>
     t \<notin> set seen \<and> goal t \<and> (\<exists>l. (l, t) \<in> set cs \<and> q = p @ [l])"
  by (induction goal p cs seen new rule: expand.induct) (auto split: if_splits)

definition fresh_step :: "('s \<Rightarrow> bool) \<Rightarrow> 'l list \<Rightarrow> ('l \<times> 's) list \<Rightarrow> 's list \<Rightarrow> 's \<times> 'l list \<Rightarrow> bool" where
  "fresh_step goal p cs seen tq \<longleftrightarrow>
     fst tq \<notin> set seen \<and> \<not> goal (fst tq) \<and> (\<exists>l. (l, fst tq) \<in> set cs \<and> snd tq = p @ [l])"

lemma expand_Continue:
  "expand goal p cs seen new = Continue seen' new' \<Longrightarrow>
     \<exists>add. new' = new @ add \<and> seen' = rev (map fst add) @ seen \<and>
       (\<forall>tq\<in>set add. fresh_step goal p cs seen tq) \<and> snd ` set cs \<subseteq> set seen'"
proof (induction cs arbitrary: seen new)
  case Nil
  then show ?case by simp
next
  case (Cons c cs)
  obtain l s where c: "c = (l, s)" by (cases c)
  have mono: "fresh_step goal p cs seen tq \<Longrightarrow> fresh_step goal p (c # cs) seen tq" for tq seen
    by (auto simp: fresh_step_def)
  show ?case
  proof (cases "s \<in> set seen")
    case True
    then have "expand goal p cs seen new = Continue seen' new'" using Cons.prems c by simp
    from Cons.IH [OF this] obtain add where add: "new' = new @ add" "seen' = rev (map fst add) @ seen"
      "\<forall>tq\<in>set add. fresh_step goal p cs seen tq" "snd ` set cs \<subseteq> set seen'" by blast
    then have "snd ` set (c # cs) \<subseteq> set seen'" using True c by simp
    moreover have "\<forall>tq\<in>set add. fresh_step goal p (c # cs) seen tq" using add(3) mono by simp
    ultimately show ?thesis using add(1,2) by (intro exI [of _ add]) simp
  next
    case False
    then have g: "\<not> goal s"
      and "expand goal p cs (s # seen) (new @ [(s, p @ [l])]) = Continue seen' new'"
      using Cons.prems c by (auto split: if_splits)
    from Cons.IH [OF this(2)] obtain add where add:
      "new' = (new @ [(s, p @ [l])]) @ add" "seen' = rev (map fst add) @ s # seen"
      "\<forall>tq\<in>set add. fresh_step goal p cs (s # seen) tq" "snd ` set cs \<subseteq> set seen'" by blast
    have "fresh_step goal p (c # cs) seen tq" if "tq \<in> set ((s, p @ [l]) # add)" for tq
    proof -
      have "fresh_step goal p (c # cs) seen (s, p @ [l])" using g False c by (auto simp: fresh_step_def)
      moreover have "fresh_step goal p (c # cs) seen tq" if "tq \<in> set add"
        using add(3) that by (auto simp: fresh_step_def)
      ultimately show ?thesis using that by auto
    qed
    moreover have "snd ` set (c # cs) \<subseteq> set seen'" using add(2,4) c by simp
    ultimately show ?thesis using add(1,2) by (intro exI [of _ "(s, p @ [l]) # add"]) simp
  qed
qed

lemma push_new_eq:
  "\<exists>add. push_new ss visited queue = (rev add @ visited, queue @ add) \<and>
     set add = set ss - set visited \<and> distinct add"
proof (induction ss arbitrary: visited queue)
  case Nil
  then show ?case by simp
next
  case (Cons s ss)
  show ?case
  proof (cases "s \<in> set visited")
    case True
    then show ?thesis using Cons.IH [of visited queue] by auto
  next
    case False
    obtain add where "push_new ss (s # visited) (queue @ [s]) = (rev add @ s # visited, (queue @ [s]) @ add)"
      "set add = set ss - set (s # visited)" "distinct add"
      using Cons.IH [of "s # visited" "queue @ [s]"] by blast
    then show ?thesis using False by (intro exI [of _ "s # add"]) auto
  qed
qed

subsection \<open>Correctness of the search\<close>

locale search_space =
  fixes succ :: "'s \<Rightarrow> ('l \<times> 's) list" and U :: "'s set"
  assumes finite_states: "finite U"
    and closed: "s \<in> U \<Longrightarrow> (l, t) \<in> set (succ s) \<Longrightarrow> t \<in> U"
begin

definition bfs_inv :: "'s \<Rightarrow> ('s \<Rightarrow> bool) \<Rightarrow> ('s \<times> 'l list) list \<Rightarrow> 's list \<Rightarrow> bool" where
  "bfs_inv s0 goal queue seen \<longleftrightarrow>
     s0 \<in> set seen \<and> set seen \<subseteq> U \<and> fst ` set queue \<subseteq> set seen \<and> (\<forall>t\<in>set seen. \<not> goal t) \<and>
     (\<forall>t\<in>set seen. t \<notin> fst ` set queue \<longrightarrow> snd ` set (succ t) \<subseteq> set seen) \<and>
     (\<forall>(t, p)\<in>set queue. walk succ s0 p t \<and> (\<forall>p'. walk succ s0 p' t \<longrightarrow> length p \<le> length p')) \<and>
     sorted (map (length \<circ> snd) queue) \<and>
     (\<forall>q\<in>set queue. length (snd q) \<le> Suc (length (snd (hd queue))))"

lemma near_states_seen:
  assumes inv: "bfs_inv s0 goal ((s, p) # rest) seen"
    and "walk succ s0 ls t" and "length ls \<le> length p"
  shows "t \<in> set seen"
  using assms(2,3)
proof (induction ls arbitrary: t rule: rev_induct)
  case Nil
  then show ?case using inv by (simp add: bfs_inv_def)
next
  case (snoc l ls)
  then obtain u where u: "walk succ s0 ls u" "(l, t) \<in> set (succ u)" by (auto simp: walk_snoc)
  then have seen: "u \<in> set seen" using snoc by simp
  have "u \<notin> fst ` set ((s, p) # rest)"
  proof
    assume "u \<in> fst ` set ((s, p) # rest)"
    then obtain q where q: "(u, q) \<in> set ((s, p) # rest)"
      by (metis imageE prod.collapse)
    then have "length p \<le> length q" using inv by (auto simp: bfs_inv_def)
    moreover have "length q \<le> length ls" using inv q u(1) by (auto simp: bfs_inv_def)
    ultimately show False using snoc.prems(2) by simp
  qed
  then have "snd ` set (succ u) \<subseteq> set seen" using inv seen unfolding bfs_inv_def by blast
  then show ?case using u(2) by (auto dest: subsetD simp: image_iff)
qed

lemma bfs_inv_step:
  assumes inv: "bfs_inv s0 goal ((s, p) # rest) seen"
    and step: "expand goal p (succ s) seen [] = Continue seen' new"
  shows "bfs_inv s0 goal (rest @ new) seen'"
proof -
  obtain add where add: "new = add" "seen' = rev (map fst add) @ seen"
      "\<forall>tq\<in>set add. fresh_step goal p (succ s) seen tq" "snd ` set (succ s) \<subseteq> set seen'"
    using expand_Continue [OF step] by auto
  have s: "s \<in> U" "walk succ s0 p s" using inv by (auto simp: bfs_inv_def)
  have new_walk: "walk succ s0 q t \<and> (\<forall>p'. walk succ s0 p' t \<longrightarrow> length q \<le> length p') \<and> t \<in> U \<and>
      length q = Suc (length p) \<and> \<not> goal t"
    if tq: "(t, q) \<in> set add" for t q
  proof -
    obtain l where l: "t \<notin> set seen" "\<not> goal t" "(l, t) \<in> set (succ s)" "q = p @ [l]"
      using add(3) tq by (auto simp: fresh_step_def)
    have "Suc (length p) \<le> length p'" if "walk succ s0 p' t" for p'
      using near_states_seen [OF inv that] l(1) not_less_eq_eq by blast
    moreover have "t \<in> U" using closed [OF s(1) l(3)] .
    ultimately show ?thesis using l s(2) by (auto simp: walk_snoc)
  qed
  have seen_eq: "set seen' = set seen \<union> fst ` set add" using add(2) by auto
  have rest_len: "\<forall>q\<in>set rest. length p \<le> length (snd q) \<and> length (snd q) \<le> Suc (length p)"
    using inv by (auto simp: bfs_inv_def)
  have add_len: "\<forall>q\<in>set add. length (snd q) = Suc (length p)" using new_walk by force
  have "sorted (map (length \<circ> snd) (rest @ new))"
  proof -
    have "sorted (map (length \<circ> snd) rest)" using inv by (simp add: bfs_inv_def)
    moreover have "map (length \<circ> snd) add = replicate (length add) (Suc (length p))"
      by (rule replicate_eqI) (use add_len in auto)
    ultimately show ?thesis using rest_len add(1) by (auto simp: sorted_append)
  qed
  moreover have "\<forall>q\<in>set (rest @ new). length (snd q) \<le> Suc (length (snd (hd (rest @ new))))"
    using rest_len add_len add(1) by (cases rest; cases add) fastforce+
  moreover have "\<forall>t\<in>set seen'. t \<notin> fst ` set (rest @ new) \<longrightarrow> snd ` set (succ t) \<subseteq> set seen'"
    using inv add(1,4) seen_eq unfolding bfs_inv_def by (auto 0 4)
  moreover have "\<forall>(t, p)\<in>set (rest @ new). walk succ s0 p t \<and> (\<forall>p'. walk succ s0 p' t \<longrightarrow> length p \<le> length p')"
  proof -
    have "\<forall>(t, p)\<in>set rest. walk succ s0 p t \<and> (\<forall>p'. walk succ s0 p' t \<longrightarrow> length p \<le> length p')"
      using inv by (simp add: bfs_inv_def)
    moreover have "\<forall>(t, p)\<in>set add. walk succ s0 p t \<and> (\<forall>p'. walk succ s0 p' t \<longrightarrow> length p \<le> length p')"
      using new_walk by blast
    ultimately show ?thesis using add(1) by (simp add: ball_Un)
  qed
  moreover have "s0 \<in> set seen'" "set seen' \<subseteq> U" "fst ` set (rest @ new) \<subseteq> set seen'"
    "\<forall>t\<in>set seen'. \<not> goal t"
  proof -
    have old: "s0 \<in> set seen" "set seen \<subseteq> U" "fst ` set rest \<subseteq> set seen" "\<forall>t\<in>set seen. \<not> goal t"
      using inv by (simp_all add: bfs_inv_def)
    have "fst ` set add \<subseteq> U" "\<forall>t\<in>fst ` set add. \<not> goal t" using new_walk by (force, force)
    then show "s0 \<in> set seen'" "set seen' \<subseteq> U" "fst ` set (rest @ new) \<subseteq> set seen'"
      "\<forall>t\<in>set seen'. \<not> goal t"
      using old unfolding seen_eq add(1) by auto
  qed
  ultimately show ?thesis unfolding bfs_inv_def by (intro conjI)
qed

lemma bfs_inv_found:
  assumes inv: "bfs_inv s0 goal ((s, p) # rest) seen"
    and step: "expand goal p (succ s) seen [] = Found (t, q)"
  shows "goal t \<and> walk succ s0 q t \<and> (\<forall>t' q'. goal t' \<longrightarrow> walk succ s0 q' t' \<longrightarrow> length q \<le> length q')"
proof -
  obtain l where l: "goal t" "(l, t) \<in> set (succ s)" "q = p @ [l]"
    using expand_Found [OF step] by blast
  have "walk succ s0 p s" using inv by (auto simp: bfs_inv_def)
  then have w: "walk succ s0 q t" using l by (auto simp: walk_snoc)
  have "length q \<le> length q'" if "goal t'" "walk succ s0 q' t'" for t' q'
  proof (rule ccontr)
    assume "\<not> length q \<le> length q'"
    then have "t' \<in> set seen" using near_states_seen [OF inv that(2)] l(3) by simp
    then show False using inv that(1) by (simp add: bfs_inv_def)
  qed
  then show ?thesis using l(1) w by blast
qed

lemma bfs_inv_empty:
  assumes "bfs_inv s0 goal [] seen" and "walk succ s0 ls t"
  shows "\<not> goal t"
proof -
  have "t \<in> set seen"
    using walk_closed [OF assms(2), of "set seen"] assms(1) unfolding bfs_inv_def by force
  then show ?thesis using assms(1) by (simp add: bfs_inv_def)
qed

definition bfs_spec :: "'s \<Rightarrow> ('s \<Rightarrow> bool) \<Rightarrow> ('s \<times> 'l list) option \<Rightarrow> bool" where
  "bfs_spec s0 goal r \<longleftrightarrow>
     (case r of
        Some (t, p) \<Rightarrow> goal t \<and> walk succ s0 p t \<and>
          (\<forall>t' p'. goal t' \<longrightarrow> walk succ s0 p' t' \<longrightarrow> length p \<le> length p')
      | None \<Rightarrow> \<forall>t p. walk succ s0 p t \<longrightarrow> \<not> goal t)"

lemma bfs_total:
  "bfs_inv s0 goal queue seen \<Longrightarrow> \<exists>r. bfs succ goal queue seen = Some r \<and> bfs_spec s0 goal r"
proof (induction "(queue, seen)" arbitrary: queue seen
    rule: wf_induct [OF wf_inv_image, of "less_than <*lex*> less_than"
      "\<lambda>(queue, seen). (card (U - set seen), length queue)"])
  case 1
  then show ?case by auto
next
  case (2 queue seen)
  show ?case
  proof (cases queue)
    case Nil
    have "bfs_spec s0 goal None"
      using bfs_inv_empty [OF 2(2) [unfolded Nil]] by (simp add: bfs_spec_def)
    then show ?thesis using Nil by (simp add: bfs.simps)
  next
    case (Cons sp rest)
    obtain s p where sp: "sp = (s, p)" by (cases sp)
    note inv = 2(2) [unfolded Cons sp]
    show ?thesis
    proof (cases "expand goal p (succ s) seen []")
      case (Found r)
      obtain t q where r: "r = (t, q)" by (cases r)
      show ?thesis using bfs_inv_found [OF inv Found [unfolded r]] Found r Cons sp
        by (auto simp: bfs.simps bfs_spec_def)
    next
      case (Continue seen' new)
      have next_inv: "bfs_inv s0 goal (rest @ new) seen'" using bfs_inv_step [OF inv Continue] .
      obtain add where add: "new = add" "seen' = rev (map fst add) @ seen"
          "\<forall>tq\<in>set add. fresh_step goal p (succ s) seen tq"
        using expand_Continue [OF Continue] by auto
      have "((rest @ new, seen'), (queue, seen)) \<in>
          inv_image (less_than <*lex*> less_than) (\<lambda>(queue, seen). (card (U - set seen), length queue))"
      proof (cases add)
        case Nil
        then show ?thesis using add Cons by simp
      next
        case (Cons a as)
        then have "fst a \<in> U - set seen" "fst a \<in> set seen'" 
          using add next_inv by (auto simp: bfs_inv_def fresh_step_def)
        moreover have "set seen \<subseteq> set seen'" using add by auto
        ultimately have "card (U - set seen') < card (U - set seen)"
          using finite_states by (intro psubset_card_mono) auto
        then show ?thesis by simp
      qed
      then obtain r where "bfs succ goal (rest @ new) seen' = Some r" "bfs_spec s0 goal r"
        using 2(1) next_inv by blast
      then show ?thesis using Continue Cons sp by (subst bfs.simps) simp
    qed
  qed
qed

lemma bfs_correct:
  assumes "s0 \<in> U" and "\<not> goal s0"
  shows "\<exists>r. bfs succ goal [(s0, [])] [s0] = Some r \<and> bfs_spec s0 goal r"
  by (rule bfs_total) (use assms in \<open>auto simp: bfs_inv_def\<close>)

end

subsection \<open>Correctness of the traversal\<close>

locale component_space =
  fixes adj :: "'s \<Rightarrow> 's list" and U :: "'s set"
  assumes finite_nodes: "finite U"
    and closed_nodes: "s \<in> U \<Longrightarrow> set (adj s) \<subseteq> U"
begin

abbreviation edge :: "('s \<times> 's) set" where
  "edge \<equiv> {(s, t). t \<in> set (adj s)}"

text \<open>
  \<open>old\<close> is what earlier traversals visited; the states of this one are the component so far,
  the queue, and nothing else.
\<close>

definition flood_inv :: "'s set \<Rightarrow> 's \<Rightarrow> 's list \<Rightarrow> 's list \<Rightarrow> 's list \<Rightarrow> bool" where
  "flood_inv old s0 queue visited component \<longleftrightarrow>
     set visited = old \<union> set component \<union> set queue \<and> distinct (component @ queue) \<and>
     old \<inter> set (component @ queue) = {} \<and> s0 \<in> set (component @ queue) \<and>
     set (component @ queue) \<subseteq> U \<and> set (component @ queue) \<subseteq> edge\<^sup>* `` {s0} \<and>
     (\<forall>s\<in>set component. set (adj s) \<subseteq> set visited)"

lemma flood_inv_step:
  assumes inv: "flood_inv old s0 (s # rest) visited component"
    and step: "push_new (adj s) visited rest = (visited', queue')"
  shows "flood_inv old s0 queue' visited' (component @ [s])"
    and "card (U - set (component @ [s])) < card (U - set component)"
proof -
  obtain add where add: "visited' = rev add @ visited" "queue' = rest @ add"
      "set add = set (adj s) - set visited" "distinct add"
    using push_new_eq [of "adj s" visited rest] step by auto
  have s: "s \<in> U" "s \<notin> set component" "(s0, s) \<in> edge\<^sup>*" using inv by (auto simp: flood_inv_def)
  have reach: "set add \<subseteq> edge\<^sup>* `` {s0}" using add(3) s(3) by (auto intro: rtrancl.rtrancl_into_rtrancl)
  have "set add \<subseteq> U" using closed_nodes [OF s(1)] add(3) by auto
  then show "flood_inv old s0 queue' visited' (component @ [s])"
    using inv add reach unfolding flood_inv_def by (intro conjI) (simp_all, blast+)
  show "card (U - set (component @ [s])) < card (U - set component)"
    using finite_nodes s by (intro psubset_card_mono) auto
qed

lemma flood_inv_end:
  assumes inv: "flood_inv old s0 [] visited component" and old: "edge `` old \<subseteq> old"
  shows "set component = edge\<^sup>* `` {s0} - old"
proof -
  have c: "set visited = old \<union> set component" "s0 \<in> set component"
    "\<forall>s\<in>set component. set (adj s) \<subseteq> set visited"
    using inv unfolding flood_inv_def by (simp, simp, blast)
  have "t \<in> old \<union> set component" if "(s0, t) \<in> edge\<^sup>*" for t
    using that
  proof (induction rule: rtrancl_induct)
    case base
    then show ?case using c by simp
  next
    case (step u v)
    then show ?case using c old by auto
  qed
  moreover have "set component \<subseteq> edge\<^sup>* `` {s0}" "old \<inter> set component = {}"
    using inv by (auto simp: flood_inv_def)
  ultimately show ?thesis by auto
qed

lemma flood_total:
  assumes "flood_inv old s0 queue visited component" and old: "edge `` old \<subseteq> old"
  shows "\<exists>component' visited'. flood adj queue visited component = Some (component', visited') \<and>
     set component' = edge\<^sup>* `` {s0} - old \<and> distinct component' \<and> set visited' = old \<union> set component'"
  using assms(1)
proof (induction "card (U - set component)" arbitrary: queue visited component rule: less_induct)
  case less
  show ?case
  proof (cases queue)
    case Nil
    note inv = less.prems [unfolded Nil]
    show ?thesis using flood_inv_end [OF inv old] inv Nil by (simp add: flood.simps flood_inv_def)
  next
    case (Cons s rest)
    obtain visited' queue' where step: "push_new (adj s) visited rest = (visited', queue')"
      by fastforce
    note inv = less.prems [unfolded Cons]
    show ?thesis
      using less.hyps [OF flood_inv_step(2,1) [OF inv step]] Cons step by (subst flood.simps) simp
  qed
qed

text \<open>
  Started at an unvisited state, the traversal ends, and collects exactly the states reachable
  from it that earlier traversals have not visited.
\<close>

lemma flood_correct:
  assumes "s0 \<in> U" and "s0 \<notin> set visited" and "edge `` set visited \<subseteq> set visited"
  shows "\<exists>component visited'. flood adj [s0] (s0 # visited) [] = Some (component, visited') \<and>
     set component = edge\<^sup>* `` {s0} - set visited \<and> distinct component \<and>
     set visited' = set visited \<union> set component"
  by (rule flood_total) (use assms in \<open>auto simp: flood_inv_def\<close>)

end

end
