(* ===== verification/Service.thy ===== *)
theory Service
  imports Station
begin

text \<open>
  What the services of \<^verbatim>\<open>internal/service\<close> share: the error values of
  \<^verbatim>\<open>errors.go\<close>, of the store and of the station as one datatype, the users and sessions
  of the model, and the permission matrix of \<^verbatim>\<open>permissions.go\<close>. An error wrapped with
  \<^verbatim>\<open>%w\<close> is the constructor of the wrapping function around the wrapped one.
\<close>

datatype service_error =
    ErrPermissionDenied
  | ErrValidation string
  | ErrLeaseNotOwned
  | ErrLeaseNotActive
  | ErrLeaseOwnedByOtherUser
  | ErrLeaseTakeoverConflict
  | ErrAccessTokenExpired
  | ErrRefreshTokenExpired
  | ErrInvalidAccessToken
  | ErrInvalidRefreshToken
  | ErrEmergencyStopActive
  | ErrTrackPowerOff
  | ErrTrackPowerUnknown
  | ErrSafetyPreempted
  | ErrInvalidTurnoutPosition
  | ErrTurnoutBusy
  | ErrUnsafeTurnoutTransition
  | ErrTurnoutConfirmationTimeout
  | ErrTurnoutTransitionFailed service_error
  | ErrOccupancySequenceStale
  | ErrOccupancySequenceConflict
  | ErrNotFound
  | ErrConflict
  | ErrRouteOccupied
  | ErrRouteOccupancyUnknown
  | ErrRouteConflict
  | ErrTurnoutConfigurationPending
  | ErrAccessoryAddressConflict
  | ErrStopCommandFailed service_error
  | ErrContextCancelled
  | ErrInvalidTurnout string
  | ErrTurnoutSuperseded
  | ErrJoin service_error service_error
  | ErrMessage string
  | ErrDatabase
  | ErrStation station_error

subsection \<open>Roles and permissions\<close>

datatype role = RoleViewer | RoleDriver | RoleDispatcher | RoleAdministrator | RoleSensor | RoleOther string

fun role_valid :: "role \<Rightarrow> bool" where
  "role_valid (RoleOther _) = False"
| "role_valid _ = True"

datatype permission =
    PermissionView | PermissionDrive | PermissionDispatch | PermissionConfigure
  | PermissionOccupancyWrite | PermissionOther string

fun allowed :: "role \<Rightarrow> permission \<Rightarrow> bool" where
  "allowed RoleViewer p \<longleftrightarrow> p = PermissionView"
| "allowed RoleDriver p \<longleftrightarrow> p = PermissionView \<or> p = PermissionDrive"
| "allowed RoleDispatcher p \<longleftrightarrow>
     p = PermissionView \<or> p = PermissionDrive \<or> p = PermissionDispatch"
| "allowed RoleAdministrator p \<longleftrightarrow> True"
| "allowed RoleSensor p \<longleftrightarrow> p = PermissionOccupancyWrite"
| "allowed (RoleOther _) p \<longleftrightarrow> False"

subsection \<open>Users, sessions and locomotives\<close>

text \<open>The fields the services read.\<close>

record user =
  u_id :: string
  u_role :: role

record session =
  s_id :: string
  s_user_id :: string

record locomotive =
  l_id :: string
  l_name :: string
  l_dcc_address :: int
  l_address_kind :: string
  l_speed_steps :: int
  l_manufacturer :: string
  l_model :: string

subsection \<open>Facts about permissions\<close>

text \<open>
  The human roles are totally ordered by what they may do; the sensor role is apart: besides the
  administrator it alone may write occupancy, and it may do nothing else.
\<close>

lemma allowed_monotone:
  "allowed RoleViewer p \<Longrightarrow> allowed RoleDriver p"
  "allowed RoleDriver p \<Longrightarrow> allowed RoleDispatcher p"
  "allowed RoleDispatcher p \<Longrightarrow> allowed RoleAdministrator p"
  by auto

lemma allowed_drive: "allowed r PermissionDrive \<longleftrightarrow> r \<in> {RoleDriver, RoleDispatcher, RoleAdministrator}"
  by (cases r) auto

lemma allowed_occupancy_write:
  "allowed r PermissionOccupancyWrite \<longleftrightarrow> r \<in> {RoleAdministrator, RoleSensor}"
  by (cases r) auto

lemma allowed_valid: "allowed r p \<Longrightarrow> role_valid r"
  by (cases r) auto

end
