(* ===== verification/TurnoutPath.thy ===== *)
theory TurnoutPath
  imports Turnout Search Service
begin

text \<open>
  The planning part of \<^verbatim>\<open>SetTurnout\<close> in \<^verbatim>\<open>internal/service/railway.go\<close>: a turnout with
  several motors is moved one endpoint at a time through declared positions. The path is found
  by a breadth-first search, modelled as the \<open>bfs\<close> of theory \<open>Search\<close> over the position
  ids, and shown to be safe, shortest, and found whenever one exists.
\<close>

definition zero_position :: turnout_position_definition where
  "zero_position = \<lparr> pd_id = [], pd_label = [], pd_endpoints = [] \<rparr>"

text \<open>\<^verbatim>\<open>position, _ := turnout.Position(id)\<close>: the zero value when the id is not declared.\<close>

definition position_or_zero :: "turnout \<Rightarrow> string \<Rightarrow> turnout_position_definition" where
  "position_or_zero t i = (case turnout_position t i of None \<Rightarrow> zero_position | Some p \<Rightarrow> p)"

definition endpoint_vector_distance ::
  "turnout \<Rightarrow> turnout_position_definition \<Rightarrow> turnout_position_definition \<Rightarrow> nat" where
  "endpoint_vector_distance t l r =
     length (filter (\<lambda>e. gm_get NoPosition (pd_endpoints l) (ep_id e) \<noteq>
                         gm_get NoPosition (pd_endpoints r) (ep_id e)) (t_endpoints t))"

definition changed_turnout_endpoints :: "turnout \<Rightarrow> string \<Rightarrow> string \<Rightarrow> string list" where
  "changed_turnout_endpoints t from target =
     str_set (map ep_id (filter (\<lambda>e.
       (case turnout_position t from of
          None \<Rightarrow> True
        | Some f \<Rightarrow> gm_get NoPosition (pd_endpoints f) (ep_id e) \<noteq>
            gm_get NoPosition (pd_endpoints (position_or_zero t target)) (ep_id e))) (t_endpoints t)))"

text \<open>The candidates of the inner loop: the declared positions one endpoint away.\<close>

definition turnout_moves :: "turnout \<Rightarrow> string \<Rightarrow> (string \<times> string) list" where
  "turnout_moves t i =
     map (\<lambda>c. (pd_id c, pd_id c))
       (filter (\<lambda>c. endpoint_vector_distance t (position_or_zero t i) c = 1) (t_positions t))"

text \<open>\<open>None\<close> is a search that does not return.\<close>

definition safe_turnout_path ::
  "turnout \<Rightarrow> string \<Rightarrow> string \<Rightarrow> (service_error + turnout_position_definition list) option" where
  "safe_turnout_path t from target =
     (case turnout_position t target of
        None \<Rightarrow> Some (Inl (ErrValidation ''turnout position is not declared''))
      | Some target_position \<Rightarrow>
          if from = [] then Some (Inr [target_position])
          else if from = target then Some (Inr [])
          else if turnout_position t from = None then Some (Inl ErrUnsafeTurnoutTransition)
          else
            (case bfs (turnout_moves t) (\<lambda>i. i = target) [(from, [])] [from] of
               None \<Rightarrow> None
             | Some None \<Rightarrow> Some (Inl ErrUnsafeTurnoutTransition)
             | Some (Some (_, path)) \<Rightarrow> Some (Inr (map (position_or_zero t) path))))"

subsection \<open>The search space of a turnout\<close>

lemma turnout_moves_iff:
  "(l, j) \<in> set (turnout_moves t i) \<longleftrightarrow>
     (\<exists>c\<in>set (t_positions t). l = pd_id c \<and> j = pd_id c \<and>
        endpoint_vector_distance t (position_or_zero t i) c = 1)"
  by (auto simp: turnout_moves_def)

definition declared_ids :: "turnout \<Rightarrow> string \<Rightarrow> string set" where
  "declared_ids t start = insert start (pd_id ` set (t_positions t))"

interpretation tp: search_space "turnout_moves t" "declared_ids t start" for t start
  by unfold_locales (auto simp: declared_ids_def turnout_moves_iff)

subsection \<open>Safe sequences of positions\<close>

text \<open>
  The promise, without reference to the search: every position is declared, and each differs
  from the one before it in exactly one endpoint.
\<close>

fun safe_sequence :: "turnout \<Rightarrow> turnout_position_definition \<Rightarrow> turnout_position_definition list \<Rightarrow> bool" where
  "safe_sequence t p [] \<longleftrightarrow> True"
| "safe_sequence t p (q # qs) \<longleftrightarrow>
     q \<in> set (t_positions t) \<and> endpoint_vector_distance t p q = 1 \<and> safe_sequence t q qs"

lemma position_or_zero_declared:
  assumes "distinct (map pd_id (t_positions t))" and "p \<in> set (t_positions t)"
  shows "position_or_zero t (pd_id p) = p"
proof -
  have "turnout_position t (pd_id p) = Some p" using assms by (simp add: turnout_position_Some)
  then show ?thesis by (simp add: position_or_zero_def)
qed

text \<open>Walks of the search and safe sequences are the same thing, read by ids or by positions.\<close>

lemma walk_safe_sequence:
  assumes d: "distinct (map pd_id (t_positions t))" and "p \<in> set (t_positions t)"
    and "walk (turnout_moves t) (pd_id p) ids i"
  shows "safe_sequence t p (map (position_or_zero t) ids)"
    and "ids \<noteq> [] \<Longrightarrow> i = last ids"
    and "set ids \<subseteq> pd_id ` set (t_positions t)"
proof -
  have "safe_sequence t p (map (position_or_zero t) ids) \<and> (ids \<noteq> [] \<longrightarrow> i = last ids) \<and>
      set ids \<subseteq> pd_id ` set (t_positions t)"
    using assms(2,3)
  proof (induction ids arbitrary: p)
    case Nil
    then show ?case by simp
  next
    case (Cons l ls)
    then obtain c where c: "c \<in> set (t_positions t)" "l = pd_id c"
      "endpoint_vector_distance t p c = 1" "walk (turnout_moves t) (pd_id c) ls i"
      by (auto simp: turnout_moves_iff position_or_zero_declared [OF d])
    then show ?case using Cons.IH [OF c(1,4)] position_or_zero_declared [OF d c(1)]
      by (cases ls) auto
  qed
  then show "safe_sequence t p (map (position_or_zero t) ids)" "ids \<noteq> [] \<Longrightarrow> i = last ids"
    "set ids \<subseteq> pd_id ` set (t_positions t)" by auto
qed

lemma safe_sequence_walk:
  assumes d: "distinct (map pd_id (t_positions t))"
  shows "p \<in> set (t_positions t) \<Longrightarrow> safe_sequence t p qs \<Longrightarrow>
    walk (turnout_moves t) (pd_id p) (map pd_id qs) (pd_id (last (p # qs)))"
proof (induction qs arbitrary: p)
  case Nil
  then show ?case by simp
next
  case (Cons q qs)
  then show ?case
    using position_or_zero_declared [OF d, of p] by (auto simp: turnout_moves_iff)
qed

lemma last_map_position:
  "ids \<noteq> [] \<Longrightarrow> last (map (position_or_zero t) ids) = position_or_zero t (last ids)"
  by (simp add: last_map)

text \<open>
  Planning a move of a valid turnout from a declared position always returns. A plan is a safe
  sequence that ends in the target and no safe sequence to the target is shorter; the transition
  is refused only when no safe sequence exists at all.
\<close>

lemma safe_turnout_path_search:
  assumes d: "distinct (map pd_id (t_positions t))"
    and p: "p \<in> set (t_positions t)" and q: "q \<in> set (t_positions t)"
    and ne: "pd_id p \<noteq> []" "pd_id p \<noteq> pd_id q"
  shows "(\<exists>qs. safe_turnout_path t (pd_id p) (pd_id q) = Some (Inr qs) \<and> qs \<noteq> [] \<and>
            safe_sequence t p qs \<and> last qs = q \<and>
            (\<forall>rs. safe_sequence t p rs \<longrightarrow> last (p # rs) = q \<longrightarrow> length qs \<le> length rs)) \<or>
         (safe_turnout_path t (pd_id p) (pd_id q) = Some (Inl ErrUnsafeTurnoutTransition) \<and>
            (\<forall>rs. safe_sequence t p rs \<longrightarrow> last (p # rs) \<noteq> q))"
proof -
  have pos: "turnout_position t (pd_id p) = Some p" "turnout_position t (pd_id q) = Some q"
    using p q by (simp_all add: turnout_position_Some [OF d])
  obtain r where r: "bfs (turnout_moves t) (\<lambda>i. i = pd_id q) [(pd_id p, [])] [pd_id p] = Some r"
    and spec: "tp.bfs_spec t (pd_id p) (\<lambda>i. i = pd_id q) r"
    using tp.bfs_correct [of "pd_id p" t "pd_id p" "\<lambda>i. i = pd_id q"] ne
    by (auto simp: declared_ids_def)
  have path: "safe_turnout_path t (pd_id p) (pd_id q) =
      (case r of None \<Rightarrow> Some (Inl ErrUnsafeTurnoutTransition)
       | Some (_, path) \<Rightarrow> Some (Inr (map (position_or_zero t) path)))"
    using r pos ne by (simp add: safe_turnout_path_def split: option.split)
  have seq: "walk (turnout_moves t) (pd_id p) (map pd_id rs) (pd_id q)"
    if "safe_sequence t p rs" "last (p # rs) = q" for rs
    using safe_sequence_walk [OF d p that(1)] that(2) by simp
  show ?thesis
  proof (cases r)
    case None
    then have "\<not> walk (turnout_moves t) (pd_id p) ids (pd_id q)" for ids
      using spec by (auto simp: tp.bfs_spec_def)
    then have "\<forall>rs. safe_sequence t p rs \<longrightarrow> last (p # rs) \<noteq> q" using seq by blast
    then show ?thesis using path None by simp
  next
    case (Some ip)
    then obtain i ids where ip: "r = Some (i, ids)" by (cases ip) auto
    have w: "walk (turnout_moves t) (pd_id p) ids (pd_id q)" and
      short: "\<And>ids'. walk (turnout_moves t) (pd_id p) ids' (pd_id q) \<Longrightarrow> length ids \<le> length ids'"
      using spec ip by (auto simp: tp.bfs_spec_def)
    have nn: "ids \<noteq> []" using w ne by (cases ids) auto
    have "last (map (position_or_zero t) ids) = q"
      using walk_safe_sequence(2) [OF d p w nn] position_or_zero_declared [OF d q]
      by (simp add: last_map_position [OF nn])
    moreover have "length ids \<le> length rs" if "safe_sequence t p rs" "last (p # rs) = q" for rs
      using short [OF seq [OF that]] by simp
    ultimately show ?thesis
      using path ip nn walk_safe_sequence(1) [OF d p w] by (intro disjI1) auto
  qed
qed



end
