(* ===== verification/TimeText.thy ===== *)
theory TimeText
  imports Prelude
begin

text \<open>
  Instants as the store keeps them: \<^verbatim>\<open>timeText\<close> and \<^verbatim>\<open>parseTime\<close> of
  \<^verbatim>\<open>internal/store/store.go\<close>, that is \<^verbatim>\<open>RFC3339Nano\<close> in UTC, and the order SQLite
  gives to those texts.

  The first nineteen characters of such a text (years 0 to 9999) have a fixed width and increase
  with the second they name, so the model keeps that second itself; the rest of the text, an
  optional fraction without trailing zeros and a \<^verbatim>\<open>Z\<close>, is kept as the characters it is.
  Texts compare by the second and then, character by character, by the rest.
\<close>

type_synonym time_text = "int \<times> string"

fun digits :: "nat \<Rightarrow> nat \<Rightarrow> string" where
  "digits 0 n = []"
| "digits (Suc k) n = digits k (n div 10) @ [digit (n mod 10)]"

definition strip_zeros :: "string \<Rightarrow> string" where
  "strip_zeros s = rev (dropWhile (\<lambda>c. c = CHR ''0'') (rev s))"

definition fraction_text :: "nat \<Rightarrow> string" where
  "fraction_text n = (if n = 0 then ''Z'' else ''.'' @ strip_zeros (digits 9 n) @ ''Z'')"

definition time_text :: "time \<Rightarrow> time_text" where
  "time_text t = (t div second, fraction_text (nat (t mod second)))"

definition digits_value :: "string \<Rightarrow> nat" where
  "digits_value s = foldl (\<lambda>v c. 10 * v + (of_char c - 48)) 0 s"

definition pad9 :: "string \<Rightarrow> string" where
  "pad9 s = s @ replicate (9 - length s) (CHR ''0'')"

definition parse_time :: "time_text \<Rightarrow> time option" where
  "parse_time x =
     (if snd x = ''Z'' then Some (fst x * second)
      else case snd x of
             c # rest \<Rightarrow>
               if c = CHR ''.'' \<and> rest \<noteq> [] \<and> last rest = CHR ''Z'' \<and> length rest \<le> 10
               then Some (fst x * second + int (digits_value (pad9 (butlast rest))))
               else None
           | [] \<Rightarrow> None)"

subsection \<open>Digits\<close>

lemma length_digits [simp]: "length (digits k n) = k"
  by (induction k arbitrary: n) auto

lemma digits_numeral:
  "digits (numeral k) n = digits (pred_numeral k) (n div 10) @ [digit (n mod 10)]"
  by (simp only: numeral_eq_Suc digits.simps)

lemma digit_chars:
  "digit 0 = CHR ''0''" "digit 1 = CHR ''1''" "digit 2 = CHR ''2''" "digit 3 = CHR ''3''"
  "digit 4 = CHR ''4''" "digit 5 = CHR ''5''" "digit 6 = CHR ''6''" "digit 7 = CHR ''7''"
  "digit 8 = CHR ''8''" "digit 9 = CHR ''9''" "digit (Suc 0) = CHR ''1''"
  by code_simp+

lemmas time_text_eval = time_text_def fraction_text_def digits_numeral digit_chars strip_zeros_def

lemma of_char_digit: "d < 10 \<Longrightarrow> (of_char (digit d) :: nat) = 48 + d"
  by (simp add: digit_def)

lemma digits_value_snoc: "digits_value (s @ [c]) = 10 * digits_value s + (of_char c - 48)"
  by (simp add: digits_value_def)

lemma digits_value_digits: "digits_value (digits k n) = n mod 10 ^ k"
proof (induction k arbitrary: n)
  case 0
  then show ?case by (simp add: digits_value_def)
next
  case (Suc k)
  have "n mod 10 ^ Suc k = 10 * (n div 10 mod 10 ^ k) + n mod 10"
    by (simp add: mod_mult2_eq)
  then show ?case using Suc by (simp add: digits_value_snoc of_char_digit)
qed

lemma strip_zeros_replicate: "\<exists>m. s = strip_zeros s @ replicate m (CHR ''0'')"
proof -
  let ?P = "\<lambda>c. c = CHR ''0''"
  have "rev s = takeWhile ?P (rev s) @ dropWhile ?P (rev s)" by simp
  moreover have "takeWhile ?P (rev s) = replicate (length (takeWhile ?P (rev s))) (CHR ''0'')"
    by (rule replicate_eqI) (auto dest: set_takeWhileD)
  ultimately show ?thesis
    unfolding strip_zeros_def by (metis rev_append rev_replicate rev_rev_ident)
qed

lemma pad9_strip_zeros:
  assumes "length s = 9"
  shows "pad9 (strip_zeros s) = s"
proof -
  obtain m where m: "s = strip_zeros s @ replicate m (CHR ''0'')" using strip_zeros_replicate by blast
  then have "length s = length (strip_zeros s) + m" by (metis length_append length_replicate)
  then have "m = 9 - length (strip_zeros s)" using assms by simp
  then show ?thesis using m by (simp add: pad9_def)
qed

lemma length_strip_zeros: "length (strip_zeros s) \<le> length s"
  using length_dropWhile_le [of _ "rev s"] by (simp add: strip_zeros_def)

subsection \<open>Reading back what was written\<close>

text \<open>
  An instant survives the store: parsing the text written for it gives it back to the
  nanosecond.
\<close>

theorem parse_time_text: "parse_time (time_text t) = Some t"
proof (cases "t mod second = 0")
  case True
  then have "t div second * second = t" using div_mult_mod_eq [of t second] by linarith
  with True show ?thesis by (simp add: parse_time_def time_text_def fraction_text_def)
next
  case False
  let ?n = "nat (t mod second)"
  have n: "?n \<noteq> 0" "?n < 10 ^ 9" "int ?n = t mod second" using False by simp_all
  have len: "length (strip_zeros (digits 9 ?n)) \<le> 9" using length_strip_zeros [of "digits 9 ?n"] by simp
  have "parse_time (time_text t) =
      Some (t div second * second + int (digits_value (pad9 (strip_zeros (digits 9 ?n)))))"
    using n(1) len by (simp add: parse_time_def time_text_def fraction_text_def butlast_append)
  also have "digits_value (pad9 (strip_zeros (digits 9 ?n))) = ?n"
    using n(2) by (simp only: pad9_strip_zeros length_digits digits_value_digits mod_less)
  finally show ?thesis using n(3) div_mult_mod_eq [of t second] by simp
qed

subsection \<open>The order of texts\<close>

text \<open>Across seconds the texts order as the instants do.\<close>

lemma time_text_less_seconds: "a div second < b div second \<Longrightarrow> time_text a < time_text b"
  by (simp add: time_text_def)

lemma time_text_le_seconds: "time_text a \<le> time_text b \<Longrightarrow> a div second \<le> b div second"
  by (auto simp: time_text_def)

lemma time_text_whole_seconds:
  assumes "a mod second = 0" and "b mod second = 0"
  shows "time_text a < time_text b \<longleftrightarrow> a < b"
proof -
  have "time_text a < time_text b \<longleftrightarrow> a div second < b div second"
    using assms by (simp add: time_text_def)
  also have "\<dots> \<longleftrightarrow> a < b"
    using assms div_mult_mod_eq [of a second] div_mult_mod_eq [of b second] by linarith
  finally show ?thesis .
qed

text \<open>A text order that misleads is off by less than a second.\<close>

lemma time_text_slack: "time_text a \<le> time_text b \<Longrightarrow> a < b + second"
proof -
  assume "time_text a \<le> time_text b"
  then have "a div second * second \<le> b div second * second" using time_text_le_seconds by simp
  moreover have "a mod second < second" "0 \<le> b mod second" by simp_all
  ultimately show ?thesis
    using div_mult_mod_eq [of a second] div_mult_mod_eq [of b second] by linarith
qed

lemma time_text_slack_not: "\<not> time_text a \<le> time_text b \<Longrightarrow> b < a + second"
  using time_text_slack [of b a] by simp

end
