(* ===== verification/Lease.thy ===== *)
theory Lease
  imports TimeText Service
begin

text \<open>
  Control leases: the table \<^verbatim>\<open>control_leases\<close> and the statements of
  \<^verbatim>\<open>internal/store/leases.go\<close> on it. A table is the list of its rows in the order of
  insertion. The constraints are those of the schema: the primary key, the foreign keys to
  locomotives, users and sessions (enforced, \<^verbatim>\<open>PRAGMA foreign_keys=ON\<close>), and the partial
  unique index that allows one live lease per locomotive. Instants are compared as the texts
  the columns hold (theory \<open>TimeText\<close>); since every text reads back as the instant written
  (\<open>parse_time_text\<close>), rows hold the instants. Failures of the database itself are
  not modelled.
\<close>

datatype lease_state = LeaseActive | LeaseStopping | LeaseReleased

record control_lease =
  cl_id :: string
  cl_locomotive_id :: string
  cl_user_id :: string
  cl_session_id :: string
  cl_state :: lease_state
  cl_acquired_at :: time
  cl_renewed_at :: time
  cl_expires_at :: time
  cl_release_after :: "time option"
  cl_release_reason :: string
  cl_heartbeat_millis :: int

record lease_db =
  ld_locomotives :: "locomotive list"
  ld_users :: "string list"
  ld_sessions :: "string list"
  ld_leases :: "control_lease list"

definition lease_live :: "control_lease \<Rightarrow> bool" where
  "lease_live l \<longleftrightarrow> cl_state l = LeaseActive \<or> cl_state l = LeaseStopping"

subsection \<open>Statements\<close>

text \<open>\<^verbatim>\<open>isUnique\<close> accepts every constraint failure, the foreign keys included.\<close>

definition create_lease :: "control_lease \<Rightarrow> lease_db \<Rightarrow> service_error + lease_db" where
  "create_lease l db =
     (if (\<exists>r\<in>set (ld_leases db). cl_id r = cl_id l) \<or>
         (lease_live l \<and>
            (\<exists>r\<in>set (ld_leases db). cl_locomotive_id r = cl_locomotive_id l \<and> lease_live r)) \<or>
         cl_locomotive_id l \<notin> l_id ` set (ld_locomotives db) \<or>
         cl_user_id l \<notin> set (ld_users db) \<or> cl_session_id l \<notin> set (ld_sessions db)
      then Inl ErrConflict
      else Inr (db\<lparr> ld_leases := ld_leases db @ [l\<lparr> cl_release_after := None, cl_heartbeat_millis := 0 \<rparr>] \<rparr>))"

definition get_lease :: "string \<Rightarrow> lease_db \<Rightarrow> service_error + control_lease" where
  "get_lease i db =
     (case find (\<lambda>l. cl_id l = i) (ld_leases db) of None \<Rightarrow> Inl ErrNotFound | Some l \<Rightarrow> Inr l)"

definition live_lease_for_loco :: "string \<Rightarrow> lease_db \<Rightarrow> service_error + control_lease" where
  "live_lease_for_loco i db =
     (case find (\<lambda>l. cl_locomotive_id l = i \<and> lease_live l) (ld_leases db) of
        None \<Rightarrow> Inl ErrNotFound | Some l \<Rightarrow> Inr l)"

definition live_leases :: "lease_db \<Rightarrow> control_lease list" where
  "live_leases db = sort_key (\<lambda>l. (time_text (cl_acquired_at l), cl_id l)) (filter lease_live (ld_leases db))"

definition live_leases_for_session :: "string \<Rightarrow> lease_db \<Rightarrow> control_lease list" where
  "live_leases_for_session s db =
     sort_key (\<lambda>l. time_text (cl_acquired_at l))
       (filter (\<lambda>l. cl_session_id l = s \<and> lease_live l) (ld_leases db))"

text \<open>\<^verbatim>\<open>UPDATE \<dots> SET upd WHERE cond\<close> followed by \<^verbatim>\<open>requireAffected\<close>.\<close>

definition update_where ::
  "(control_lease \<Rightarrow> bool) \<Rightarrow> (control_lease \<Rightarrow> control_lease) \<Rightarrow> lease_db \<Rightarrow> service_error + lease_db" where
  "update_where cond upd db =
     (if \<exists>l\<in>set (ld_leases db). cond l
      then Inr (db\<lparr> ld_leases := map (\<lambda>l. if cond l then upd l else l) (ld_leases db) \<rparr>)
      else Inl ErrNotFound)"

definition heartbeat_cond :: "string \<Rightarrow> string \<Rightarrow> time \<Rightarrow> control_lease \<Rightarrow> bool" where
  "heartbeat_cond i sess now l \<longleftrightarrow>
     cl_id l = i \<and> cl_session_id l = sess \<and> cl_state l = LeaseActive \<and>
     time_text (cl_expires_at l) > time_text now"

definition renew_row :: "time \<Rightarrow> time \<Rightarrow> control_lease \<Rightarrow> control_lease" where
  "renew_row renewed expires l = l\<lparr> cl_renewed_at := renewed, cl_expires_at := expires \<rparr>"

definition heartbeat_lease ::
  "string \<Rightarrow> string \<Rightarrow> time \<Rightarrow> time \<Rightarrow> lease_db \<Rightarrow> service_error + lease_db" where
  "heartbeat_lease i sess renewed expires =
     update_where (heartbeat_cond i sess renewed) (renew_row renewed expires)"

definition transfer_cond :: "string \<Rightarrow> string \<Rightarrow> string \<Rightarrow> time \<Rightarrow> control_lease \<Rightarrow> bool" where
  "transfer_cond i user sess now l \<longleftrightarrow> heartbeat_cond i sess now l \<and> cl_user_id l = user"

definition transfer_row :: "string \<Rightarrow> time \<Rightarrow> time \<Rightarrow> control_lease \<Rightarrow> control_lease" where
  "transfer_row to renewed expires l = (renew_row renewed expires l)\<lparr> cl_session_id := to \<rparr>"

text \<open>The row returned is the updated one; the primary key makes it the only one.\<close>

definition transfer_active_lease ::
  "string \<Rightarrow> string \<Rightarrow> string \<Rightarrow> string \<Rightarrow> time \<Rightarrow> time \<Rightarrow> lease_db \<Rightarrow>
   service_error + (control_lease \<times> lease_db)" where
  "transfer_active_lease i user from to renewed expires db =
     (case find (transfer_cond i user from renewed) (ld_leases db) of
        None \<Rightarrow> Inl ErrNotFound
      | Some l \<Rightarrow>
          if to \<notin> set (ld_sessions db) then Inl ErrDatabase
          else rbind (update_where (transfer_cond i user from renewed) (transfer_row to renewed expires) db)
                 (\<lambda>db'. Inr (transfer_row to renewed expires l, db')))"

definition renew_cond :: "string \<Rightarrow> string \<Rightarrow> string \<Rightarrow> time \<Rightarrow> control_lease \<Rightarrow> bool" where
  "renew_cond i loco sess now l \<longleftrightarrow> heartbeat_cond i sess now l \<and> cl_locomotive_id l = loco"

definition renew_active_lease_for_command ::
  "string \<Rightarrow> string \<Rightarrow> string \<Rightarrow> time \<Rightarrow> time \<Rightarrow> lease_db \<Rightarrow> service_error + lease_db" where
  "renew_active_lease_for_command i loco sess now expires =
     update_where (renew_cond i loco sess now) (renew_row now expires)"

definition expired_active_leases :: "time \<Rightarrow> lease_db \<Rightarrow> control_lease list" where
  "expired_active_leases now db =
     filter (\<lambda>l. cl_state l = LeaseActive \<and> time_text (cl_expires_at l) \<le> time_text now) (ld_leases db)"

definition stopping_row :: "string \<Rightarrow> time \<Rightarrow> control_lease \<Rightarrow> control_lease" where
  "stopping_row reason release_after l =
     l\<lparr> cl_state := LeaseStopping, cl_release_reason := reason, cl_release_after := Some release_after \<rparr>"

definition mark_lease_stopping :: "string \<Rightarrow> string \<Rightarrow> time \<Rightarrow> lease_db \<Rightarrow> service_error + lease_db" where
  "mark_lease_stopping i reason release_after =
     update_where (\<lambda>l. cl_id l = i \<and> cl_state l = LeaseActive) (stopping_row reason release_after)"

definition mark_lease_stopping_for_session ::
  "string \<Rightarrow> string \<Rightarrow> string \<Rightarrow> time \<Rightarrow> lease_db \<Rightarrow> service_error + lease_db" where
  "mark_lease_stopping_for_session i sess reason release_after =
     update_where (\<lambda>l. cl_id l = i \<and> cl_session_id l = sess \<and> cl_state l = LeaseActive)
       (stopping_row reason release_after)"

definition stopping_leases_ready :: "time \<Rightarrow> lease_db \<Rightarrow> control_lease list" where
  "stopping_leases_ready now db =
     filter (\<lambda>l. cl_state l = LeaseStopping \<and>
       (case cl_release_after l of None \<Rightarrow> False | Some r \<Rightarrow> time_text r \<le> time_text now)) (ld_leases db)"

definition release_row :: "string \<Rightarrow> control_lease \<Rightarrow> control_lease" where
  "release_row reason l =
     l\<lparr> cl_state := LeaseReleased, cl_release_reason := reason, cl_release_after := None \<rparr>"

definition release_lease :: "string \<Rightarrow> string \<Rightarrow> string \<Rightarrow> lease_db \<Rightarrow> service_error + lease_db" where
  "release_lease i sess reason =
     update_where (\<lambda>l. cl_id l = i \<and> lease_live l \<and> (sess \<noteq> [] \<longrightarrow> cl_session_id l = sess))
       (release_row reason)"

subsection \<open>Invariant\<close>

definition lease_inv :: "lease_db \<Rightarrow> bool" where
  "lease_inv db \<longleftrightarrow>
     distinct (map cl_id (ld_leases db)) \<and>
     distinct (map cl_locomotive_id (filter lease_live (ld_leases db))) \<and>
     (\<forall>l\<in>set (ld_leases db). cl_locomotive_id l \<in> l_id ` set (ld_locomotives db) \<and>
        cl_user_id l \<in> set (ld_users db) \<and> cl_session_id l \<in> set (ld_sessions db))"

text \<open>A lease only moves forward through its states.\<close>

fun state_rank :: "lease_state \<Rightarrow> nat" where
  "state_rank LeaseActive = 0"
| "state_rank LeaseStopping = 1"
| "state_rank LeaseReleased = 2"

definition lease_forward :: "lease_db \<Rightarrow> lease_db \<Rightarrow> bool" where
  "lease_forward db db' \<longleftrightarrow>
     (\<forall>l\<in>set (ld_leases db). \<exists>l'\<in>set (ld_leases db'). cl_id l' = cl_id l \<and>
        cl_locomotive_id l' = cl_locomotive_id l \<and> cl_user_id l' = cl_user_id l \<and>
        state_rank (cl_state l) \<le> state_rank (cl_state l'))"

lemma lease_live_rank: "lease_live l \<longleftrightarrow> state_rank (cl_state l) < 2"
  by (cases "cl_state l") (simp_all add: lease_live_def)

lemma lease_forward_refl [simp]: "lease_forward db db"
  by (auto simp: lease_forward_def)

lemma lease_forward_trans: "lease_forward a b \<Longrightarrow> lease_forward b c \<Longrightarrow> lease_forward a c"
  unfolding lease_forward_def by (metis order_trans)

subsection \<open>The contract of an update\<close>

text \<open>
  Every \<^verbatim>\<open>UPDATE\<close> of the store keeps the identity of a row, points it at an existing
  session, and never moves a lease back to an earlier state.
\<close>

locale lease_update =
  fixes cond :: "control_lease \<Rightarrow> bool" and upd :: "control_lease \<Rightarrow> control_lease"
    and sessions :: "string set"
  assumes same_id [simp]: "cl_id (upd l) = cl_id l"
    and same_loco [simp]: "cl_locomotive_id (upd l) = cl_locomotive_id l"
    and same_user [simp]: "cl_user_id (upd l) = cl_user_id l"
    and good_session: "cl_session_id l \<in> sessions \<Longrightarrow> cl_session_id (upd l) \<in> sessions"
    and forward: "cond l \<Longrightarrow> state_rank (cl_state l) \<le> state_rank (cl_state (upd l))"
begin

definition row :: "control_lease \<Rightarrow> control_lease" where
  "row l = (if cond l then upd l else l)"

lemma row_simps [simp]:
  "cl_id (row l) = cl_id l" "cl_locomotive_id (row l) = cl_locomotive_id l"
  "cl_user_id (row l) = cl_user_id l"
  by (simp_all add: row_def)

lemma row_session: "cl_session_id l \<in> sessions \<Longrightarrow> cl_session_id (row l) \<in> sessions"
  using good_session by (simp add: row_def)

lemma row_rank: "state_rank (cl_state l) \<le> state_rank (cl_state (row l))"
  using forward [of l] by (simp add: row_def)

lemma row_live: "lease_live (row l) \<Longrightarrow> lease_live l"
  using row_rank [of l] by (simp add: lease_live_rank)

lemma update_rows:
  "update_where cond upd db = Inr db' \<Longrightarrow> db' = db\<lparr> ld_leases := map row (ld_leases db) \<rparr>"
  by (simp add: update_where_def row_def [abs_def] split: if_splits)

lemma live_locos_subset:
  "cl_locomotive_id ` set (filter lease_live (map row ls)) \<subseteq> cl_locomotive_id ` set (filter lease_live ls)"
  using row_live by force

lemma live_locos_distinct:
  "distinct (map cl_locomotive_id (filter lease_live ls)) \<Longrightarrow>
   distinct (map cl_locomotive_id (filter lease_live (map row ls)))"
proof (induction ls)
  case Nil
  then show ?case by simp
next
  case (Cons l ls)
  have d: "distinct (map cl_locomotive_id (filter lease_live ls))"
    using Cons.prems by (simp split: if_splits)
  show ?case
  proof (cases "lease_live (row l)")
    case True
    then have "cl_locomotive_id l \<notin> cl_locomotive_id ` set (filter lease_live ls)"
      using Cons.prems row_live [OF True] by simp
    then have "cl_locomotive_id l \<notin> cl_locomotive_id ` set (filter lease_live (map row ls))"
      using live_locos_subset by blast
    then show ?thesis using Cons.IH [OF d] True by simp
  next
    case False
    then show ?thesis using Cons.IH [OF d] by simp
  qed
qed

lemma update_inv:
  assumes "lease_inv db" and "update_where cond upd db = Inr db'" and "sessions = set (ld_sessions db)"
  shows "lease_inv db'"
proof -
  note db' = update_rows [OF assms(2)]
  have "map cl_id (map row (ld_leases db)) = map cl_id (ld_leases db)" by simp
  moreover have "distinct (map cl_locomotive_id (filter lease_live (map row (ld_leases db))))"
    using assms(1) by (intro live_locos_distinct) (simp add: lease_inv_def)
  moreover have "\<forall>l\<in>set (ld_leases db). cl_session_id (row l) \<in> set (ld_sessions db)"
    using assms(1,3) row_session by (simp add: lease_inv_def)
  ultimately show ?thesis
    using assms(1) unfolding lease_inv_def db' by (simp add: comp_def)
qed

lemma update_forward:
  assumes "update_where cond upd db = Inr db'"
  shows "lease_forward db db'"
  unfolding update_rows [OF assms] lease_forward_def using row_rank by auto

end

interpretation heartbeat_upd: lease_update "heartbeat_cond i sess now" "renew_row renewed expires" ss
  for i sess now renewed expires ss
  by unfold_locales (simp_all add: renew_row_def)

interpretation renew_upd: lease_update "renew_cond i loco sess now" "renew_row renewed expires" ss
  for i loco sess now renewed expires ss
  by unfold_locales (simp_all add: renew_row_def)

interpretation transfer_upd:
  lease_update "transfer_cond i user sess now" "transfer_row to renewed expires" "insert to ss"
  for i user sess now to renewed expires ss
  by unfold_locales (simp_all add: transfer_row_def renew_row_def)

interpretation stopping_upd:
  lease_update "\<lambda>l. P l \<and> cl_state l = LeaseActive" "stopping_row reason release_after" ss
  for P reason release_after ss
  by unfold_locales (simp_all add: stopping_row_def)

interpretation release_upd: lease_update P "release_row reason" ss for P reason ss
proof unfold_locales
  show "state_rank (cl_state l) \<le> state_rank (cl_state (release_row reason l))" for l
    by (cases "cl_state l") (simp_all add: release_row_def)
qed (simp_all add: release_row_def)

subsection \<open>Every statement keeps the invariant\<close>

datatype lease_op =
    CreateOp control_lease
  | HeartbeatOp string string time time
  | TransferOp string string string string time time
  | RenewOp string string string time time
  | MarkOp string string time
  | MarkSessionOp string string string time
  | ReleaseOp string string string

fun lease_exec :: "lease_op \<Rightarrow> lease_db \<Rightarrow> service_error + lease_db" where
  "lease_exec (CreateOp l) db = create_lease l db"
| "lease_exec (HeartbeatOp i s r e) db = heartbeat_lease i s r e db"
| "lease_exec (TransferOp i u a b r e) db =
     (case transfer_active_lease i u a b r e db of Inl err \<Rightarrow> Inl err | Inr (_, db') \<Rightarrow> Inr db')"
| "lease_exec (RenewOp i l s n e) db = renew_active_lease_for_command i l s n e db"
| "lease_exec (MarkOp i r t) db = mark_lease_stopping i r t db"
| "lease_exec (MarkSessionOp i s r t) db = mark_lease_stopping_for_session i s r t db"
| "lease_exec (ReleaseOp i s r) db = release_lease i s r db"

text \<open>A refused statement leaves the table as it was.\<close>

definition lease_step :: "lease_op \<Rightarrow> lease_db \<Rightarrow> lease_db" where
  "lease_step oper db = (case lease_exec oper db of Inl _ \<Rightarrow> db | Inr db' \<Rightarrow> db')"

lemma create_lease_inv:
  assumes inv: "lease_inv db" and run: "create_lease l db = Inr db'"
  shows "lease_inv db' \<and> lease_forward db db'"
proof -
  let ?r = "l\<lparr> cl_release_after := None, cl_heartbeat_millis := 0 \<rparr>"
  have db': "db' = db\<lparr> ld_leases := ld_leases db @ [?r] \<rparr>"
    and new: "cl_id l \<notin> cl_id ` set (ld_leases db)"
      "lease_live l \<Longrightarrow> cl_locomotive_id l \<notin> cl_locomotive_id ` set (filter lease_live (ld_leases db))"
      "cl_locomotive_id l \<in> l_id ` set (ld_locomotives db)" "cl_user_id l \<in> set (ld_users db)"
      "cl_session_id l \<in> set (ld_sessions db)"
    using run by (auto simp: create_lease_def split: if_splits)
  have "lease_live ?r = lease_live l" by (simp add: lease_live_def)
  then have "lease_inv db'" using inv new unfolding lease_inv_def db' by simp
  moreover have "lease_forward db db'" by (auto simp: db' lease_forward_def)
  ultimately show ?thesis by blast
qed

lemma transfer_active_lease_Inr:
  assumes "transfer_active_lease i u a b r e db = Inr (l, db')"
  shows "b \<in> set (ld_sessions db) \<and> update_where (transfer_cond i u a r) (transfer_row b r e) db = Inr db' \<and>
     (\<exists>l0\<in>set (ld_leases db). transfer_cond i u a r l0 \<and> l = transfer_row b r e l0)"
  using assms unfolding transfer_active_lease_def
  by (auto simp: find_Some_iff split: option.splits if_splits)

lemma lease_exec_inv:
  assumes inv: "lease_inv db" and run: "lease_exec oper db = Inr db'"
  shows "lease_inv db' \<and> lease_forward db db'"
proof (cases oper)
  case (CreateOp l)
  then show ?thesis using create_lease_inv [OF inv] run by simp
next
  case (HeartbeatOp i s r e)
  then have "update_where (heartbeat_cond i s r) (renew_row r e) db = Inr db'"
    using run by (simp add: heartbeat_lease_def)
  then show ?thesis using heartbeat_upd.update_inv [OF inv _ refl] heartbeat_upd.update_forward by blast
next
  case (TransferOp i u a b r e)
  then obtain l where "transfer_active_lease i u a b r e db = Inr (l, db')"
    using run by (auto split: sum.splits)
  then have "b \<in> set (ld_sessions db)"
    and *: "update_where (transfer_cond i u a r) (transfer_row b r e) db = Inr db'"
    using transfer_active_lease_Inr by blast+
  then have "insert b (set (ld_sessions db)) = set (ld_sessions db)" by auto
  then show ?thesis using transfer_upd.update_inv [OF inv *] transfer_upd.update_forward [OF *] by blast
next
  case (RenewOp i l s n e)
  then have "update_where (renew_cond i l s n) (renew_row n e) db = Inr db'"
    using run by (simp add: renew_active_lease_for_command_def)
  then show ?thesis using renew_upd.update_inv [OF inv _ refl] renew_upd.update_forward by blast
next
  case (MarkOp i r t)
  then have "update_where (\<lambda>l. cl_id l = i \<and> cl_state l = LeaseActive) (stopping_row r t) db = Inr db'"
    using run by (simp add: mark_lease_stopping_def)
  then show ?thesis
    using stopping_upd.update_inv [OF inv _ refl, where P = "\<lambda>l. cl_id l = i"]
      stopping_upd.update_forward [where P = "\<lambda>l. cl_id l = i"] by blast
next
  case (MarkSessionOp i s r t)
  then have "update_where (\<lambda>l. (cl_id l = i \<and> cl_session_id l = s) \<and> cl_state l = LeaseActive)
      (stopping_row r t) db = Inr db'"
    using run by (simp add: mark_lease_stopping_for_session_def conj_assoc)
  then show ?thesis
    using stopping_upd.update_inv [OF inv _ refl, where P = "\<lambda>l. cl_id l = i \<and> cl_session_id l = s"]
      stopping_upd.update_forward [where P = "\<lambda>l. cl_id l = i \<and> cl_session_id l = s"] by blast
next
  case (ReleaseOp i s r)
  then obtain P where "update_where P (release_row r) db = Inr db'"
    using run by (simp add: release_lease_def)
  then show ?thesis using release_upd.update_inv [OF inv _ refl] release_upd.update_forward by blast
qed

lemma lease_step_inv: "lease_inv db \<Longrightarrow> lease_inv (lease_step oper db) \<and> lease_forward db (lease_step oper db)"
  using lease_exec_inv by (auto simp: lease_step_def split: sum.splits)

lemma lease_steps_inv: "lease_inv db \<Longrightarrow> lease_inv (fold lease_step ops db) \<and> lease_forward db (fold lease_step ops db)"
proof (induction ops arbitrary: db)
  case Nil
  then show ?case by simp
next
  case (Cons oper ops)
  then show ?case using lease_step_inv [of db oper] lease_forward_trans by (metis fold_simps(2))
qed

subsection \<open>Looking up rows\<close>

lemma get_lease_Inr:
  assumes "lease_inv db"
  shows "get_lease i db = Inr l \<longleftrightarrow> l \<in> set (ld_leases db) \<and> cl_id l = i"
proof -
  have d: "distinct (map cl_id (ld_leases db))" using assms by (simp add: lease_inv_def)
  have "find (\<lambda>l. cl_id l = i) ls = Some l \<longleftrightarrow> l \<in> set ls \<and> cl_id l = i"
    if "distinct (map cl_id ls)" for ls :: "control_lease list"
    using that by (induction ls) auto
  from this [OF d] show ?thesis by (auto simp: get_lease_def split: option.split)
qed

lemma lease_inv_unique:
  assumes "lease_inv db" and "l \<in> set (ld_leases db)" and "l' \<in> set (ld_leases db)" and "cl_id l = cl_id l'"
  shows "l = l'"
  using assms get_lease_Inr [OF assms(1)] by (metis sum.inject(2))

lemma update_where_Inr:
  assumes inv: "lease_inv db" and run: "update_where cond upd db = Inr db'"
    and id: "\<And>l. cond l \<Longrightarrow> cl_id l = i" and keep: "\<And>l. cl_id (upd l) = cl_id l"
  shows "\<exists>l. get_lease i db = Inr l \<and> cond l \<and> get_lease i db' = Inr (upd l) \<and>
    (\<forall>j. j \<noteq> i \<longrightarrow> get_lease j db' = get_lease j db)"
proof -
  obtain l where l: "l \<in> set (ld_leases db)" "cond l" and
    db': "db' = db\<lparr> ld_leases := map (\<lambda>l. if cond l then upd l else l) (ld_leases db) \<rparr>"
    using run by (auto simp: update_where_def split: if_splits)
  have other: "\<not> cond l'" if "l' \<in> set (ld_leases db)" "l' \<noteq> l" for l'
    using lease_inv_unique [OF inv that(1) l(1)] id l(2) that(2) by metis
  have "find (\<lambda>l. cl_id l = i) (map (\<lambda>l. if cond l then upd l else l) ls) =
      map_option (\<lambda>l. if cond l then upd l else l) (find (\<lambda>l. cl_id l = i) ls)" for ls i
    by (induction ls) (auto simp: keep)
  then have look: "get_lease j db' = (case get_lease j db of Inl e \<Rightarrow> Inl e
      | Inr l \<Rightarrow> Inr (if cond l then upd l else l))" for j
    by (simp add: get_lease_def db' split: option.split)
  have "get_lease i db = Inr l" using get_lease_Inr [OF inv] l id by blast
  moreover have "get_lease j db' = get_lease j db" if "j \<noteq> i" for j
  proof (cases "get_lease j db")
    case (Inr b)
    then have "\<not> cond b" using get_lease_Inr [OF inv, of j b] id that by blast
    then show ?thesis using look [of j] Inr by simp
  qed (simp add: look)
  ultimately show ?thesis using look [of i] l(2) by auto
qed

subsection \<open>Properties\<close>

text \<open>
  C5: however the statements of the store are interleaved, starting from an empty table, no
  locomotive ever has two live leases.
\<close>

theorem one_live_lease_per_locomotive:
  assumes "ld_leases db = []"
    and "l \<in> set (ld_leases (fold lease_step ops db))" and "lease_live l"
    and "l' \<in> set (ld_leases (fold lease_step ops db))" and "lease_live l'"
    and "cl_locomotive_id l = cl_locomotive_id l'"
  shows "l = l'"
proof -
  have "lease_inv db" using assms(1) by (simp add: lease_inv_def)
  then have "lease_inv (fold lease_step ops db)" using lease_steps_inv by blast
  then have "distinct (map cl_locomotive_id (filter lease_live (ld_leases (fold lease_step ops db))))"
    by (simp add: lease_inv_def)
  then show ?thesis using assms(2-6) by (auto simp: distinct_map dest: inj_onD)
qed

definition example_loco :: locomotive where
  "example_loco = \<lparr> l_id = ''loco'', l_name = ''BR 01'', l_dcc_address = 3, l_address_kind = ''short'',
     l_speed_steps = 128, l_manufacturer = [], l_model = [] \<rparr>"

definition example_db :: lease_db where
  "example_db = \<lparr> ld_locomotives = [example_loco], ld_users = [''ann'', ''bob''],
     ld_sessions = [''s1'', ''s2''], ld_leases = [] \<rparr>"

definition example_lease :: "string \<Rightarrow> string \<Rightarrow> string \<Rightarrow> time \<Rightarrow> control_lease" where
  "example_lease i u s expires = \<lparr> cl_id = i, cl_locomotive_id = ''loco'', cl_user_id = u,
     cl_session_id = s, cl_state = LeaseActive, cl_acquired_at = 0, cl_renewed_at = 0,
     cl_expires_at = expires, cl_release_after = None, cl_release_reason = [], cl_heartbeat_millis = 0 \<rparr>"

text \<open>
  A second client asks for the locomotive while the first holds it: the table keeps the first
  lease only.
\<close>

definition example_ops :: "lease_op list" where
  "example_ops = [CreateOp (example_lease ''a'' ''ann'' ''s1'' (10 * second)),
     CreateOp (example_lease ''b'' ''bob'' ''s2'' (10 * second))]"

lemma example_ops_leases:
  "ld_leases (fold lease_step example_ops example_db) = [example_lease ''a'' ''ann'' ''s1'' (10 * second)]"
  by (simp add: example_ops_def lease_step_def create_lease_def example_db_def example_loco_def
      example_lease_def lease_live_def)

theorem one_live_lease_per_locomotive_witness:
  "{l \<in> set (ld_leases (fold lease_step example_ops example_db)). lease_live l \<and> cl_locomotive_id l = ''loco''} =
   {example_lease ''a'' ''ann'' ''s1'' (10 * second)}" (is "?L = {?a}")
proof
  have a: "?a \<in> set (ld_leases (fold lease_step example_ops example_db))" by (simp add: example_ops_leases)
  then show "{?a} \<subseteq> ?L" by (simp add: example_lease_def lease_live_def)
  show "?L \<subseteq> {?a}"
  proof
    fix l
    assume "l \<in> ?L"
    then show "l \<in> {?a}"
      using one_live_lease_per_locomotive [of example_db l example_ops ?a] a
      by (simp add: example_db_def example_lease_def lease_live_def)
  qed
qed

text \<open>
  Leases only move forward. A lease that was released is still there, and still released,
  after any further statements, with the same locomotive and user.
\<close>

theorem released_lease_stays_released:
  assumes "lease_inv db" and "get_lease i db = Inr l" and "cl_state l = LeaseReleased"
  shows "\<exists>l'. get_lease i (fold lease_step ops db) = Inr l' \<and> cl_state l' = LeaseReleased \<and>
     cl_locomotive_id l' = cl_locomotive_id l \<and> cl_user_id l' = cl_user_id l"
proof -
  have inv: "lease_inv (fold lease_step ops db)" and "lease_forward db (fold lease_step ops db)"
    using lease_steps_inv [OF assms(1)] by auto
  then obtain l' where l': "l' \<in> set (ld_leases (fold lease_step ops db))" "cl_id l' = i"
    "cl_locomotive_id l' = cl_locomotive_id l" "cl_user_id l' = cl_user_id l"
    "state_rank (cl_state l) \<le> state_rank (cl_state l')"
    using assms(2) get_lease_Inr [OF assms(1)] unfolding lease_forward_def by metis
  then have "cl_state l' = LeaseReleased" using assms(3) by (cases "cl_state l'") auto
  then show ?thesis using l' get_lease_Inr [OF inv] by blast
qed

definition example_released :: lease_db where
  "example_released = example_db\<lparr> ld_leases :=
     [(example_lease ''a'' ''ann'' ''s1'' (10 * second))\<lparr> cl_state := LeaseReleased \<rparr>] \<rparr>"

theorem released_lease_stays_released_witness:
  "\<exists>l. get_lease ''a'' (fold lease_step [HeartbeatOp ''a'' ''s1'' second (20 * second)] example_released) = Inr l \<and>
     cl_state l = LeaseReleased"
proof -
  let ?l = "(example_lease ''a'' ''ann'' ''s1'' (10 * second))\<lparr> cl_state := LeaseReleased \<rparr>"
  have "lease_inv example_released"
    by (simp add: lease_inv_def example_released_def example_db_def example_loco_def example_lease_def
        lease_live_def)
  moreover have "get_lease ''a'' example_released = Inr ?l"
    by (simp add: get_lease_def example_released_def example_lease_def)
  moreover have "cl_state ?l = LeaseReleased" by simp
  ultimately show ?thesis
    using released_lease_stays_released [of example_released "''a''" ?l
        "[HeartbeatOp ''a'' ''s1'' second (20 * second)]"] by blast
qed

text \<open>
  A heartbeat that is accepted found an active lease held by the same session whose deadline
  was less than a second behind at most, and renews exactly that lease.
\<close>

theorem heartbeat_lease_accepts:
  assumes "lease_inv db" and "heartbeat_lease i sess now expires db = Inr db'"
  shows "\<exists>l. get_lease i db = Inr l \<and> cl_session_id l = sess \<and> cl_state l = LeaseActive \<and>
     now < cl_expires_at l + second \<and>
     get_lease i db' = Inr (l\<lparr> cl_renewed_at := now, cl_expires_at := expires \<rparr>) \<and>
     (\<forall>j. j \<noteq> i \<longrightarrow> get_lease j db' = get_lease j db)"
proof -
  have "update_where (heartbeat_cond i sess now) (renew_row now expires) db = Inr db'"
    using assms(2) by (simp add: heartbeat_lease_def)
  from update_where_Inr [OF assms(1) this, of i] obtain l where
    l: "get_lease i db = Inr l" "heartbeat_cond i sess now l" "get_lease i db' = Inr (renew_row now expires l)"
    "\<forall>j. j \<noteq> i \<longrightarrow> get_lease j db' = get_lease j db"
    by (auto simp: heartbeat_cond_def renew_row_def)
  then have "now < cl_expires_at l + second"
    using time_text_slack [of now "cl_expires_at l"] by (simp add: heartbeat_cond_def less_imp_le)
  then show ?thesis using l by (auto simp: heartbeat_cond_def renew_row_def)
qed

definition example_held :: "time \<Rightarrow> lease_db" where
  "example_held expires = example_db\<lparr> ld_leases := [example_lease ''a'' ''ann'' ''s1'' expires] \<rparr>"

lemma example_held_inv: "lease_inv (example_held e)"
  by (simp add: lease_inv_def example_held_def example_db_def example_loco_def example_lease_def lease_live_def)

lemma heartbeat_example:
  "heartbeat_lease ''a'' ''s1'' now expires (example_held e) =
     (if time_text e > time_text now
      then Inr (example_db\<lparr> ld_leases := [(example_lease ''a'' ''ann'' ''s1'' expires)\<lparr> cl_renewed_at := now \<rparr>] \<rparr>)
      else Inl ErrNotFound)"
  by (simp add: heartbeat_lease_def update_where_def heartbeat_cond_def renew_row_def example_held_def
      example_lease_def)

theorem heartbeat_lease_accepts_witness:
  "\<exists>l db'. heartbeat_lease ''a'' ''s1'' second (20 * second) (example_held (10 * second)) = Inr db' \<and>
     get_lease ''a'' db' = Inr l \<and> cl_expires_at l = 20 * second"
proof -
  have "time_text (10 * second) > time_text second" by (intro time_text_less_seconds) simp
  then obtain db' where "heartbeat_lease ''a'' ''s1'' second (20 * second) (example_held (10 * second)) = Inr db'"
    by (simp only: heartbeat_example if_True)
  with heartbeat_lease_accepts [OF example_held_inv this] show ?thesis by auto
qed

text \<open>
  inside one second the order of the texts is not the order of the instants. A lease that
  expired at 10.12 s is still renewed by a heartbeat at 10.123 s, and a lease that expires at
  10.123 s is refused a heartbeat at 10.12 s.
\<close>

theorem heartbeat_text_order:
  "(\<exists>db'. heartbeat_lease ''a'' ''s1'' 10123000000 20000000000 (example_held 10120000000) = Inr db') \<and>
   heartbeat_lease ''a'' ''s1'' 10120000000 20000000000 (example_held 10123000000) = Inl ErrNotFound"
proof -
  have "time_text 10120000000 = (10, ''.12Z'')" "time_text 10123000000 = (10, ''.123Z'')"
    by (simp_all add: time_text_eval)
  moreover have "''.123Z'' < ''.12Z''" by code_simp
  ultimately show ?thesis by (simp add: heartbeat_example)
qed

end
