(* ===== verification/Gate.thy ===== *)
theory Gate
  imports Prelude
begin

text \<open>
  The priority gate of \<^verbatim>\<open>internal/service/command_gate.go\<close>, which serialises the writes to
  the command station. Each section of \<^verbatim>\<open>acquire\<close> and of the release function between
  \<^verbatim>\<open>mu.Lock\<close> and \<^verbatim>\<open>mu.Unlock\<close> is one atomic step; the steps of any number of callers
  interleave freely. The channel \<^verbatim>\<open>changed\<close> is the number of times it has been closed and
  replaced: a receive from the channel captured as number \<open>n\<close> is ready once that
  number has moved on.
\<close>

record gate =
  g_active :: bool
  g_safety_waiters :: int
  g_ordinary_waiters :: int
  g_changed :: nat

datatype phase = NotEntered | Waiting nat | Holding | Cancelled | Done

record caller =
  gc_safety :: bool
  gc_phase :: phase

definition new_priority_command_gate :: gate where
  "new_priority_command_gate =
     \<lparr> g_active = False, g_safety_waiters = 0, g_ordinary_waiters = 0, g_changed = 0 \<rparr>"

definition signal_locked :: "gate \<Rightarrow> gate" where
  "signal_locked g = g\<lparr> g_changed := Suc (g_changed g) \<rparr>"

definition add_waiter :: "bool \<Rightarrow> int \<Rightarrow> gate \<Rightarrow> gate" where
  "add_waiter safety d g =
     (if safety then g\<lparr> g_safety_waiters := g_safety_waiters g + d \<rparr>
      else g\<lparr> g_ordinary_waiters := g_ordinary_waiters g + d \<rparr>)"

definition must_wait :: "gate \<Rightarrow> bool \<Rightarrow> bool" where
  "must_wait g safety \<longleftrightarrow> g_active g \<or> (\<not> safety \<and> g_safety_waiters g > 0)"

text \<open>
  From the test of the loop to the next unlock: wait on the current channel, give up because the
  context has ended, or take the gate. \<open>ended\<close> is whether \<^verbatim>\<open>ctx.Err\<close> is set.
\<close>

definition try_enter :: "bool \<Rightarrow> bool \<Rightarrow> gate \<Rightarrow> gate \<times> phase" where
  "try_enter ended safety g =
     (if must_wait g safety then (g, Waiting (g_changed g))
      else if ended then (signal_locked (add_waiter safety (-1) g), Cancelled)
      else ((add_waiter safety (-1) g)\<lparr> g_active := True \<rparr>, Holding))"

definition gate_enter :: "bool \<Rightarrow> bool \<Rightarrow> gate \<Rightarrow> gate \<times> phase" where
  "gate_enter ended safety g = try_enter ended safety (add_waiter safety 1 g)"

definition gate_cancel :: "bool \<Rightarrow> gate \<Rightarrow> gate" where
  "gate_cancel safety g = signal_locked (add_waiter safety (-1) g)"

definition gate_release :: "gate \<Rightarrow> gate" where
  "gate_release g = signal_locked (g\<lparr> g_active := False \<rparr>)"

subsection \<open>Interleavings\<close>

type_synonym gate_system = "gate \<times> caller list"

definition set_phase :: "nat \<Rightarrow> phase \<Rightarrow> caller list \<Rightarrow> caller list" where
  "set_phase k p cs = cs[k := (cs ! k)\<lparr> gc_phase := p \<rparr>]"

inductive gate_step :: "gate_system \<Rightarrow> nat \<Rightarrow> gate_system \<Rightarrow> bool" where
  enter: "k < length cs \<Longrightarrow> gc_phase (cs ! k) = NotEntered \<Longrightarrow>
    gate_enter ended (gc_safety (cs ! k)) g = (g', p) \<Longrightarrow>
    gate_step (g, cs) k (g', set_phase k p cs)"
| wake: "k < length cs \<Longrightarrow> gc_phase (cs ! k) = Waiting n \<Longrightarrow> n < g_changed g \<Longrightarrow>
    try_enter ended (gc_safety (cs ! k)) g = (g', p) \<Longrightarrow>
    gate_step (g, cs) k (g', set_phase k p cs)"
| cancel: "k < length cs \<Longrightarrow> gc_phase (cs ! k) = Waiting n \<Longrightarrow>
    gate_step (g, cs) k (gate_cancel (gc_safety (cs ! k)) g, set_phase k Cancelled cs)"
| release: "k < length cs \<Longrightarrow> gc_phase (cs ! k) = Holding \<Longrightarrow>
    gate_step (g, cs) k (gate_release g, set_phase k Done cs)"

inductive gate_reachable :: "gate_system \<Rightarrow> bool" where
  start: "\<forall>c\<in>set cs. gc_phase c = NotEntered \<Longrightarrow> gate_reachable (new_priority_command_gate, cs)"
| step: "gate_reachable s \<Longrightarrow> gate_step s k s' \<Longrightarrow> gate_reachable s'"

subsection \<open>Invariant\<close>

definition waiting :: "bool \<Rightarrow> caller \<Rightarrow> bool" where
  "waiting safety c \<longleftrightarrow> gc_safety c = safety \<and> (\<exists>n. gc_phase c = Waiting n)"

definition holding :: "caller \<Rightarrow> bool" where
  "holding c \<longleftrightarrow> gc_phase c = Holding"

definition num :: "(caller \<Rightarrow> bool) \<Rightarrow> caller list \<Rightarrow> int" where
  "num P cs = int (length (filter P cs))"

text \<open>
  The counters count; the gate is active exactly while one caller holds it; and a caller that
  waits on the current channel has a reason to wait, so no wake-up is lost.
\<close>

definition gate_inv :: "gate_system \<Rightarrow> bool" where
  "gate_inv s \<longleftrightarrow>
     g_safety_waiters (fst s) = num (waiting True) (snd s) \<and>
     g_ordinary_waiters (fst s) = num (waiting False) (snd s) \<and>
     num holding (snd s) = (if g_active (fst s) then 1 else 0) \<and>
     (\<forall>c\<in>set (snd s). \<forall>n. gc_phase c = Waiting n \<longrightarrow>
        n \<le> g_changed (fst s) \<and> (n = g_changed (fst s) \<longrightarrow> must_wait (fst s) (gc_safety c)))"

lemma num_update:
  "k < length cs \<Longrightarrow>
   num P (cs[k := c]) = num P cs + of_bool (P c) - of_bool (P (cs ! k))"
proof (induction cs arbitrary: k)
  case Nil
  then show ?case by simp
next
  case (Cons d cs)
  then show ?case by (cases k) (auto simp: num_def)
qed

lemma num_nonneg [simp]: "0 \<le> num P cs"
  by (simp add: num_def)

lemma num_pos_iff: "0 < num P cs \<longleftrightarrow> (\<exists>c\<in>set cs. P c)"
  by (induction cs) (auto simp: num_def)

lemma num_set_phase:
  assumes "k < length cs"
  shows "num holding (set_phase k p cs) =
      num holding cs + of_bool (p = Holding) - of_bool (gc_phase (cs ! k) = Holding)"
    and "num (waiting s) (set_phase k p cs) = num (waiting s) cs
      + of_bool (gc_safety (cs ! k) = s \<and> (\<exists>n. p = Waiting n)) - of_bool (waiting s (cs ! k))"
  using assms by (simp_all add: set_phase_def num_update holding_def waiting_def)

lemma set_set_phase: "c \<in> set (set_phase k p cs) \<Longrightarrow>
    c \<in> set cs \<or> k < length cs \<and> c = (cs ! k)\<lparr> gc_phase := p \<rparr>"
  unfolding set_phase_def by (metis list_update_beyond not_less set_update_subset_insert insertE subsetD)

text \<open>A step that signals leaves nobody waiting on the current channel.\<close>

lemma signal_waiting:
  assumes inv: "gate_inv (g, cs)" and "g_changed g' = Suc (g_changed g)" and "\<And>n. p \<noteq> Waiting n"
  shows "\<forall>c\<in>set (set_phase k p cs). \<forall>n. gc_phase c = Waiting n \<longrightarrow>
     n \<le> g_changed g' \<and> (n = g_changed g' \<longrightarrow> must_wait g' (gc_safety c))"
proof (intro ballI allI impI)
  fix c n
  assume c: "c \<in> set (set_phase k p cs)" "gc_phase c = Waiting n"
  then have "c \<in> set cs" using set_set_phase [OF c(1)] assms(3) by auto
  then have "n \<le> g_changed g" using inv c(2) by (simp add: gate_inv_def)
  then show "n \<le> g_changed g' \<and> (n = g_changed g' \<longrightarrow> must_wait g' (gc_safety c))"
    using assms(2) by simp
qed

lemmas gate_ops = signal_locked_def add_waiter_def gate_cancel_def gate_release_def

lemma try_enter_cases:
  assumes "try_enter ended s g = (g', p)"
  obtains (wait) "must_wait g s" "g' = g" "p = Waiting (g_changed g)"
    | (ended) "\<not> must_wait g s" "g' = gate_cancel s g" "p = Cancelled"
    | (granted) "\<not> must_wait g s" "g' = (add_waiter s (-1) g)\<lparr> g_active := True \<rparr>" "p = Holding"
  using assms by (auto simp: try_enter_def gate_cancel_def split: if_splits)

text \<open>
  One step from the loop test, for a caller counted as waiting by \<open>g\<close> and not waiting on a
  current channel.
\<close>

lemma try_enter_inv:
  assumes k: "k < length cs" and step: "try_enter ended (gc_safety (cs ! k)) g = (g', p)"
    and sw: "g_safety_waiters g = num (waiting True) cs
        + of_bool (gc_safety (cs ! k)) - of_bool (waiting True (cs ! k))"
    and ow: "g_ordinary_waiters g = num (waiting False) cs
        + of_bool (\<not> gc_safety (cs ! k)) - of_bool (waiting False (cs ! k))"
    and hold: "gc_phase (cs ! k) \<noteq> Holding" "num holding cs = (if g_active g then 1 else 0)"
    and wait: "\<forall>c\<in>set cs. \<forall>n. gc_phase c = Waiting n \<longrightarrow>
        n \<le> g_changed g \<and> (n = g_changed g \<longrightarrow> must_wait g (gc_safety c))"
  shows "gate_inv (g', set_phase k p cs)"
proof -
  have later: "\<forall>c\<in>set (set_phase k p cs). \<forall>n. gc_phase c = Waiting n \<longrightarrow>
     n \<le> g_changed g' \<and> (n = g_changed g' \<longrightarrow> must_wait g' (gc_safety c))"
  proof (intro ballI allI impI)
    fix c n
    assume c: "c \<in> set (set_phase k p cs)" "gc_phase c = Waiting n"
    consider "c \<in> set cs" | "c = (cs ! k)\<lparr> gc_phase := p \<rparr>" using set_set_phase [OF c(1)] by blast
    then show "n \<le> g_changed g' \<and> (n = g_changed g' \<longrightarrow> must_wait g' (gc_safety c))"
    proof cases
      case 1
      then have "n \<le> g_changed g" "n = g_changed g \<longrightarrow> must_wait g (gc_safety c)" using wait c(2) by auto
      with step show ?thesis by (cases rule: try_enter_cases) (auto simp: gate_ops must_wait_def)
    next
      case 2
      with step c(2) show ?thesis by (cases rule: try_enter_cases) auto
    qed
  qed
  from step show ?thesis
  proof (cases rule: try_enter_cases)
    case wait
    then show ?thesis using sw ow hold later k by (simp add: gate_inv_def num_set_phase)
  next
    case ended
    then show ?thesis using sw ow hold later k
      by (simp add: gate_inv_def num_set_phase gate_ops)
  next
    case granted
    then show ?thesis using sw ow hold later k
      by (simp add: gate_inv_def num_set_phase gate_ops must_wait_def)
  qed
qed

lemma gate_step_inv:
  assumes inv: "gate_inv s" and step: "gate_step s k s'"
  shows "gate_inv s'"
  using step inv
proof (cases rule: gate_step.cases)
  case (enter cs ended g g' p)
  let ?g = "add_waiter (gc_safety (cs ! k)) 1 g"
  have w: "\<not> waiting b (cs ! k)" for b using enter by (simp add: waiting_def)
  show ?thesis unfolding enter(2)
  proof (rule try_enter_inv)
    show "k < length cs" by fact
    show "try_enter ended (gc_safety (cs ! k)) ?g = (g', p)" using enter by (simp add: gate_enter_def)
    show "gc_phase (cs ! k) \<noteq> Holding" using enter by simp
    show "\<forall>c\<in>set cs. \<forall>n. gc_phase c = Waiting n \<longrightarrow>
        n \<le> g_changed ?g \<and> (n = g_changed ?g \<longrightarrow> must_wait ?g (gc_safety c))"
      using inv enter(1) by (auto simp: gate_inv_def add_waiter_def must_wait_def)
  qed (use inv enter(1) w in \<open>simp_all add: gate_inv_def add_waiter_def\<close>)
next
  case (wake cs n g ended g' p)
  have w: "waiting b (cs ! k) = (gc_safety (cs ! k) = b)" for b using wake by (simp add: waiting_def)
  show ?thesis unfolding wake(2)
    by (rule try_enter_inv [OF wake(3) wake(6)]) (use inv wake w in \<open>simp_all add: gate_inv_def\<close>)
next
  case (cancel cs n g)
  then have w: "waiting b (cs ! k) = (gc_safety (cs ! k) = b)" for b by (simp add: waiting_def)
  note inv' = inv [unfolded cancel(1)]
  have "g_changed (gate_cancel (gc_safety (cs ! k)) g) = Suc (g_changed g)" by (simp add: gate_ops)
  note later = signal_waiting [OF inv' this, of Cancelled k]
  show ?thesis unfolding cancel(2) gate_inv_def
    using inv' cancel(3,4) w later by (intro conjI) (simp_all add: gate_inv_def num_set_phase gate_ops)
next
  case (release cs g)
  then have w: "\<not> waiting b (cs ! k)" for b by (simp add: waiting_def)
  have "g_active g"
  proof (rule ccontr)
    assume "\<not> g_active g"
    then have "\<not> (0 < num holding cs)" using inv release(1) by (simp add: gate_inv_def)
    then show False using release(3,4) nth_mem [of k cs] by (auto simp: num_pos_iff holding_def)
  qed
  note inv' = inv [unfolded release(1)]
  have "g_changed (gate_release g) = Suc (g_changed g)" by (simp add: gate_ops)
  note later = signal_waiting [OF inv' this, of Done k]
  show ?thesis unfolding release(2) gate_inv_def
    using inv' release(3,4) w later \<open>g_active g\<close>
    by (intro conjI) (simp_all add: gate_inv_def num_set_phase gate_ops)
qed

lemma gate_reachable_inv: "gate_reachable s \<Longrightarrow> gate_inv s"
proof (induction rule: gate_reachable.induct)
  case (start cs)
  then have "filter P cs = []" if "\<And>c. P c \<Longrightarrow> gc_phase c \<noteq> NotEntered" for P
    using that by (auto simp: filter_empty_conv)
  then show ?case using start
    by (auto simp: gate_inv_def new_priority_command_gate_def num_def waiting_def holding_def)
next
  case (step s k s')
  then show ?case using gate_step_inv by blast
qed

subsection \<open>Properties\<close>

text \<open>
  C6: at most one caller is ever between a successful \<^verbatim>\<open>acquire\<close> and its release, whatever the
  interleaving and the cancellations.
\<close>

theorem gate_mutual_exclusion:
  assumes "gate_reachable (g, cs)" and "j < length cs" and "k < length cs"
    and "gc_phase (cs ! j) = Holding" and "gc_phase (cs ! k) = Holding"
  shows "j = k"
proof (rule ccontr)
  assume "j \<noteq> k"
  have "num holding cs \<le> 1" using gate_reachable_inv [OF assms(1)] by (simp add: gate_inv_def)
  moreover have "num holding cs = num holding (cs[j := c]) + 1" if "\<not> holding c" for c
    using num_update [OF assms(2), of holding c] assms(4) that by (simp add: holding_def)
  moreover have "0 < num holding (cs[j := c])" for c
  proof -
    have "cs ! k \<in> set (cs[j := c])"
      using \<open>j \<noteq> k\<close> assms(3) nth_mem [of k "cs[j := c]"] by simp
    then show ?thesis using assms(5) by (auto simp: num_pos_iff holding_def)
  qed
  ultimately show False by (metis holding_def phase.distinct(5) caller.select_convs(2) add_le_same_cancel2 not_less)
qed

text \<open>
  An ordinary command never overtakes a waiting safety command: at the moment it is given the
  gate, no safety command is waiting.
\<close>

theorem gate_safety_priority:
  assumes "gate_reachable (g, cs)" and "gate_step (g, cs) k (g', cs')"
    and "gc_phase (cs' ! k) = Holding" and "\<not> gc_safety (cs ! k)"
  shows "\<forall>c\<in>set cs. \<not> waiting True c"
proof -
  have inv: "gate_inv (g, cs)" using gate_reachable_inv [OF assms(1)] .
  from assms(2) have "g_safety_waiters g \<le> 0"
  proof (cases rule: gate_step.cases)
    case (enter ended p)
    then have "p = Holding" using assms(3) by (simp add: set_phase_def)
    then show ?thesis using enter assms(4)
      by (auto simp: gate_enter_def try_enter_def must_wait_def add_waiter_def split: if_splits)
  next
    case (wake n ended p)
    then have "p = Holding" using assms(3) by (simp add: set_phase_def)
    then show ?thesis using wake assms(4)
      by (auto simp: try_enter_def must_wait_def split: if_splits)
  qed (use assms(3) in \<open>simp_all add: set_phase_def\<close>)
  then have "\<not> 0 < num (waiting True) cs" using inv by (simp add: gate_inv_def)
  then show ?thesis by (simp add: num_pos_iff)
qed

text \<open>
  C7: the gate never strands its callers. While someone waits, either the gate is held, or some
  waiting caller has been woken and takes the gate as soon as it runs.
\<close>

theorem gate_no_lost_wakeup:
  assumes "gate_reachable (g, cs)" and "c \<in> set cs" and "gc_phase c = Waiting n"
  shows "(\<exists>k<length cs. gc_phase (cs ! k) = Holding) \<or>
     (\<exists>k m g' cs'. k < length cs \<and> gc_phase (cs ! k) = Waiting m \<and>
        gate_step (g, cs) k (g', cs') \<and> gc_phase (cs' ! k) = Holding)"
proof (cases "g_active g")
  case True
  then have "0 < num holding cs" using gate_reachable_inv [OF assms(1)] by (simp add: gate_inv_def)
  then show ?thesis by (auto simp: num_pos_iff holding_def in_set_conv_nth)
next
  case False
  have inv: "gate_inv (g, cs)" using gate_reachable_inv [OF assms(1)] .
  obtain d where d: "d \<in> set cs" "waiting (gc_safety d) d" "\<not> must_wait g (gc_safety d)"
  proof (cases "\<exists>d\<in>set cs. waiting True d")
    case True
    then show ?thesis using that \<open>\<not> g_active g\<close> by (auto simp: must_wait_def waiting_def)
  next
    case none: False
    then have "g_safety_waiters g \<le> 0" using inv num_pos_iff [of "waiting True" cs]
      by (auto simp: gate_inv_def)
    then show ?thesis using that [OF assms(2)] assms(3) \<open>\<not> g_active g\<close>
      by (simp add: must_wait_def waiting_def)
  qed
  then obtain k m where k: "k < length cs" "cs ! k = d" "gc_phase d = Waiting m"
    by (auto simp: in_set_conv_nth waiting_def)
  have "m < g_changed g" using inv d(1,3) k(3) le_neq_implies_less
    by (fastforce simp: gate_inv_def)
  moreover have "try_enter False (gc_safety d) g = ((add_waiter (gc_safety d) (-1) g)\<lparr> g_active := True \<rparr>, Holding)"
    using d(3) by (simp add: try_enter_def)
  ultimately have "gate_step (g, cs) k ((add_waiter (gc_safety d) (-1) g)\<lparr> g_active := True \<rparr>, set_phase k Holding cs)"
    using k by (auto intro: gate_step.wake)
  moreover have "gc_phase (set_phase k Holding cs ! k) = Holding" using k by (simp add: set_phase_def)
  ultimately show ?thesis using k by blast
qed

subsection \<open>A concrete contention\<close>

text \<open>
  One ordinary command holds the gate; an ordinary and a safety command queue behind it.
\<close>

definition contention :: "phase \<Rightarrow> phase \<Rightarrow> phase \<Rightarrow> caller list" where
  "contention a b c = [\<lparr> gc_safety = False, gc_phase = a \<rparr>, \<lparr> gc_safety = False, gc_phase = b \<rparr>,
     \<lparr> gc_safety = True, gc_phase = c \<rparr>]"

definition contended :: "bool \<Rightarrow> int \<Rightarrow> int \<Rightarrow> nat \<Rightarrow> gate" where
  "contended a s w n = \<lparr> g_active = a, g_safety_waiters = s, g_ordinary_waiters = w, g_changed = n \<rparr>"

lemmas contention_eval = contention_def contended_def gate_enter_def try_enter_def must_wait_def
  add_waiter_def set_phase_def gate_release_def signal_locked_def

lemma contention_start: "gate_reachable (contended False 0 0 0, contention NotEntered NotEntered NotEntered)"
  using gate_reachable.start [of "contention NotEntered NotEntered NotEntered"]
  by (simp add: contention_def contended_def new_priority_command_gate_def)

lemma contention_first: "gate_reachable (contended True 0 0 0, contention Holding NotEntered NotEntered)"
  using gate_reachable.step [OF contention_start gate_step.enter [of 0 "contention NotEntered NotEntered NotEntered" False "contended False 0 0 0" "contended True 0 0 0" Holding]]
  by (simp add: contention_eval)

lemma contention_second: "gate_reachable (contended True 0 1 0, contention Holding (Waiting 0) NotEntered)"
  using gate_reachable.step [OF contention_first gate_step.enter [of 1 "contention Holding NotEntered NotEntered" False "contended True 0 0 0" "contended True 0 1 0" "Waiting 0"]]
  by (simp add: contention_eval)

lemma contention_third: "gate_reachable (contended True 1 1 0, contention Holding (Waiting 0) (Waiting 0))"
  using gate_reachable.step [OF contention_second gate_step.enter [of 2 "contention Holding (Waiting 0) NotEntered" False "contended True 0 1 0" "contended True 1 1 0" "Waiting 0"]]
  by (simp add: contention_eval)

lemma contention_released: "gate_reachable (contended False 1 1 1, contention Done (Waiting 0) (Waiting 0))"
  using gate_reachable.step [OF contention_third gate_step.release [of 0]]
  by (simp add: contention_eval)

theorem gate_mutual_exclusion_witness:
  "{k. k < 3 \<and> gc_phase (contention Holding (Waiting 0) (Waiting 0) ! k) = Holding} = {0}"
proof -
  have h: "gc_phase (contention Holding (Waiting 0) (Waiting 0) ! 0) = Holding" by (simp add: contention_def)
  have "k = 0" if "k < 3" "gc_phase (contention Holding (Waiting 0) (Waiting 0) ! k) = Holding" for k
    using gate_mutual_exclusion [OF contention_third, of k 0] h that by (simp add: contention_def)
  with h show ?thesis by auto
qed

theorem gate_safety_priority_witness:
  "gate_step (contended False 0 0 0, contention NotEntered NotEntered NotEntered) 0
     (contended True 0 0 0, contention Holding NotEntered NotEntered) \<and>
   filter (waiting True) (contention NotEntered NotEntered NotEntered) = []"
proof -
  have "gate_step (contended False 0 0 0, contention NotEntered NotEntered NotEntered) 0
     (contended True 0 0 0, contention Holding NotEntered NotEntered)"
    using gate_step.enter [of 0 "contention NotEntered NotEntered NotEntered" False
        "contended False 0 0 0" "contended True 0 0 0" Holding]
    by (simp add: contention_eval)
  with gate_safety_priority [OF contention_start this] show ?thesis
    by (simp add: contention_def filter_empty_conv)
qed

text \<open>After the release both waiters have been woken, and the safety command takes the gate.\<close>

theorem gate_no_lost_wakeup_witness:
  "\<exists>k m g' cs'. gc_phase (contention Done (Waiting 0) (Waiting 0) ! k) = Waiting m \<and>
     gate_step (contended False 1 1 1, contention Done (Waiting 0) (Waiting 0)) k (g', cs') \<and>
     gc_phase (cs' ! k) = Holding"
proof -
  have "\<not> (\<exists>k<length (contention Done (Waiting 0) (Waiting 0)).
      gc_phase (contention Done (Waiting 0) (Waiting 0) ! k) = Holding)"
    by (auto simp: contention_def nth_Cons split: nat.splits)
  then show ?thesis
    using gate_no_lost_wakeup [OF contention_released, of "\<lparr> gc_safety = True, gc_phase = Waiting 0 \<rparr>" 0]
    by (auto simp: contention_def)
qed

end
