(* ===== verification/Control.thy ===== *)
theory Control
  imports Lease "HOL-Library.Signed_Division"
begin

text \<open>
  The control service of \<^verbatim>\<open>internal/service/control.go\<close>: leases, throttle and function
  commands, track power, emergency stop, take-over, and the sweep that stops and releases
  expired leases.

  The state record holds the fields of \<^verbatim>\<open>ControlService\<close> and, as logs, what the service does
  to the outside: the events it publishes, the calls it makes to the command station with their
  outcome, and the availability it reports to the occupancy service. The station is code the
  service only calls, so its answers are an argument, \<open>station_env\<close>. Metrics are left out.

  A handler that writes to the station waits at the priority gate (theory \<open>Gate\<close>) in the
  middle. It is two definitions: what it does up to \<^verbatim>\<open>commands.acquire\<close>, which yields a ticket
  carrying its local variables, and what it does once it holds the gate. Other operations run
  between the two; the step relation at the end lets any operation do so. A speed is the
  percentage the client sent; the station receives it divided by a hundred.
\<close>

subsection \<open>State\<close>

datatype station_call =
    SetTrackPowerCall bool
  | EmergencyStopCall
  | SetLocoSpeedCall int int direction
  | SetLocoFunctionCall int int bool

datatype control_event =
    StationStatusChanged connectivity "time option"
  | TrackPowerChanged bool "string option"
  | TrackEmergencyStop bool "string option"
  | ControlAcquired control_lease
  | ControlTransferred control_lease string
  | SpeedChanged string int direction string
  | FunctionChanged string int bool
  | ControlExpired string string string time
  | ControlReleased control_lease

record control_config =
  cc_lease_ttl :: duration
  cc_stop_grace :: duration
  cc_capabilities :: capabilities
  cc_occupancy_provider :: "string option"

record control =
  ctl_db :: lease_db
  ctl_power_known :: bool
  ctl_power_on :: bool
  ctl_estop :: bool
  ctl_epoch :: "64 word"
  ctl_last_status :: "status option"
  ctl_last_direction :: "(string, direction) gomap"
  ctl_events :: "control_event list"
  ctl_calls :: "(station_call \<times> bool) list"
  ctl_occupancy_calls :: "(string \<times> bool) list"

text \<open>
  The station during one operation: its health and status when it provides them, and its reply
  to a command.
\<close>

record station_env =
  se_health :: "health_report option"
  se_status :: "(station_error + status) option"
  se_reply :: "station_error option"

definition new_control_service :: "lease_db \<Rightarrow> control" where
  "new_control_service db =
     \<lparr> ctl_db = db, ctl_power_known = False, ctl_power_on = False, ctl_estop = False, ctl_epoch = 0,
       ctl_last_status = None, ctl_last_direction = [], ctl_events = [], ctl_calls = [],
       ctl_occupancy_calls = [] \<rparr>"

definition publish :: "control_event \<Rightarrow> control \<Rightarrow> control" where
  "publish e s = s\<lparr> ctl_events := ctl_events s @ [e] \<rparr>"

definition publish_if :: "bool \<Rightarrow> control_event \<Rightarrow> control \<Rightarrow> control" where
  "publish_if b e s = (if b then publish e s else s)"

text \<open>\<^verbatim>\<open>observeStationCommand\<close> around a call.\<close>

definition observe_station_command :: "station_env \<Rightarrow> station_call \<Rightarrow> control \<Rightarrow> control \<times> service_error option" where
  "observe_station_command env c s =
     (s\<lparr> ctl_calls := ctl_calls s @ [(c, se_reply env = None)] \<rparr>, map_option ErrStation (se_reply env))"

subsection \<open>Safety state\<close>

definition preempt_ordinary_commands :: "control \<Rightarrow> control" where
  "preempt_ordinary_commands s = s\<lparr> ctl_epoch := ctl_epoch s + 1 \<rparr>"

definition remember_loco_direction :: "string \<Rightarrow> direction \<Rightarrow> control \<Rightarrow> control" where
  "remember_loco_direction loco d s = s\<lparr> ctl_last_direction := gm_put loco d (ctl_last_direction s) \<rparr>"

definition stop_direction :: "string \<Rightarrow> control \<Rightarrow> direction" where
  "stop_direction loco s =
     (let d = gm_get (DirectionOther []) (ctl_last_direction s) loco
      in if direction_valid d then d else Forward)"

definition set_track_power_state :: "bool \<Rightarrow> control \<Rightarrow> control" where
  "set_track_power_state enabled s =
     (let s1 = (if \<not> enabled \<and> (\<not> ctl_power_known s \<or> ctl_power_on s)
                then preempt_ordinary_commands s else s)
      in s1\<lparr> ctl_power_known := True, ctl_power_on := enabled \<rparr>)"

definition set_emergency_stop_state :: "bool \<Rightarrow> control \<Rightarrow> control" where
  "set_emergency_stop_state active s =
     (let s1 = (if active \<and> \<not> ctl_estop s then preempt_ordinary_commands s else s)
      in s1\<lparr> ctl_estop := active \<rparr>)"

definition observe_safety_status :: "status \<Rightarrow> control \<Rightarrow> control" where
  "observe_safety_status st s =
     (let s1 = (case st_track_power st of
                  PowerUnknown \<Rightarrow> s
                | p \<Rightarrow> set_track_power_state (p = PowerOn) s)
      in if st_emergency_stop st \<and> \<not> ctl_estop s1
         then (preempt_ordinary_commands s1)\<lparr> ctl_estop := True \<rparr> else s1)"

definition ensure_track_power_known :: "station_env \<Rightarrow> control \<Rightarrow> control \<times> service_error option" where
  "ensure_track_power_known env s =
     (if ctl_power_known s then (s, None)
      else case se_status env of
             None \<Rightarrow> (s, None)
           | Some (Inl e) \<Rightarrow> (s, Some (ErrStation e))
           | Some (Inr st) \<Rightarrow> (observe_safety_status st s, None))"

definition check_drive_allowed :: "bool \<Rightarrow> control \<Rightarrow> service_error option" where
  "check_drive_allowed allow_stop s =
     (if allow_stop then None
      else if ctl_estop s then Some ErrEmergencyStopActive
      else if \<not> ctl_power_known s then Some ErrTrackPowerUnknown
      else if \<not> ctl_power_on s then Some ErrTrackPowerOff
      else None)"

definition check_command_allowed_err :: "station_env \<Rightarrow> service_error option" where
  "check_command_allowed_err env = map_option ErrStation (check_command_allowed (se_health env))"

definition zero_status :: status where
  "zero_status =
     \<lparr> st_connectivity = Degraded, st_last_seen = None, st_track_power = PowerUnknown,
       st_emergency_stop = False, st_short_circuit = False, st_programming_mode = False,
       st_main_current = 0, st_programming_current = 0, st_filtered_main_current = 0,
       st_temperature = 0, st_supply_voltage = 0, st_track_voltage = 0,
       st_high_temperature = False, st_power_lost = False, st_external_short_circuit = False,
       st_internal_short_circuit = False \<rparr>"

definition last_status_or_default :: "control \<Rightarrow> status" where
  "last_status_or_default s = (case ctl_last_status s of None \<Rightarrow> zero_status | Some st \<Rightarrow> st)"

definition remember_track_power :: "bool \<Rightarrow> control \<Rightarrow> control" where
  "remember_track_power enabled s =
     (let s1 = set_track_power_state enabled s
      in s1\<lparr> ctl_last_status := Some ((last_status_or_default s1)
               \<lparr> st_track_power := (if enabled then PowerOn else PowerOff) \<rparr>) \<rparr>)"

definition remember_emergency_stop :: "bool \<Rightarrow> control \<Rightarrow> control" where
  "remember_emergency_stop active s =
     (let s1 = set_emergency_stop_state active s
      in s1\<lparr> ctl_last_status := Some ((last_status_or_default s1)\<lparr> st_emergency_stop := active \<rparr>) \<rparr>)"

definition update_occupancy_provider_availability :: "control_config \<Rightarrow> connectivity \<Rightarrow> control \<Rightarrow> control" where
  "update_occupancy_provider_availability cfg c s =
     (case cc_occupancy_provider cfg of
        None \<Rightarrow> s
      | Some p \<Rightarrow> if p = [] then s else s\<lparr> ctl_occupancy_calls := ctl_occupancy_calls s @ [(p, c \<noteq> Offline)] \<rparr>)"

definition publish_station_status_changes :: "control_config \<Rightarrow> status \<Rightarrow> control \<Rightarrow> control" where
  "publish_station_status_changes cfg st0 s0 =
     (let s1 = update_occupancy_provider_availability cfg (st_connectivity st0) (observe_safety_status st0 s0);
          st = st0\<lparr> st_emergency_stop := ctl_estop s1 \<rparr>;
          previous = ctl_last_status s1;
          s2 = s1\<lparr> ctl_last_status := Some st \<rparr>;
          changed = (\<lambda>eq. case previous of None \<Rightarrow> True | Some p \<Rightarrow> \<not> eq p);
          s3 = publish_if (changed (\<lambda>p. st_connectivity p = st_connectivity st))
                 (StationStatusChanged (st_connectivity st) (st_last_seen st)) s2;
          s4 = publish_if (st_track_power st \<noteq> PowerUnknown \<and>
                   changed (\<lambda>p. st_track_power p = st_track_power st))
                 (TrackPowerChanged (st_track_power st = PowerOn) None) s3
      in publish_if (changed (\<lambda>p. st_emergency_stop p = st_emergency_stop st))
           (TrackEmergencyStop (st_emergency_stop st) None) s4)"

definition station_status :: "station_env \<Rightarrow> control \<Rightarrow> control \<times> (service_error + status)" where
  "station_status env s =
     (case se_status env of
        Some (Inl e) \<Rightarrow> (s, Inl (ErrStation e))
      | Some (Inr st) \<Rightarrow>
          (let s1 = observe_safety_status st s in (s1, Inr (st\<lparr> st_emergency_stop := ctl_estop s1 \<rparr>)))
      | None \<Rightarrow>
          (s, Inr (zero_status
             \<lparr> st_connectivity := (case se_health env of None \<Rightarrow> Degraded | Some h \<Rightarrow> hr_connectivity h),
               st_last_seen := (case se_health env of None \<Rightarrow> None | Some h \<Rightarrow> hr_last_seen h),
               st_track_power := (if ctl_power_known s \<and> ctl_power_on s then PowerOn
                                  else if ctl_power_known s then PowerOff else PowerUnknown),
               st_emergency_stop := ctl_estop s \<rparr>)))"

subsection \<open>Leases\<close>

definition get_locomotive :: "string \<Rightarrow> control \<Rightarrow> service_error + locomotive" where
  "get_locomotive i s =
     (case find (\<lambda>l. l_id l = i) (ld_locomotives (ctl_db s)) of None \<Rightarrow> Inl ErrNotFound | Some l \<Rightarrow> Inr l)"

definition heartbeat_millis :: "control_config \<Rightarrow> int" where
  "heartbeat_millis cfg = (cc_lease_ttl cfg sdiv 1000000) sdiv 3"

definition validate_command_lease ::
  "string \<Rightarrow> string \<Rightarrow> string \<Rightarrow> time \<Rightarrow> control \<Rightarrow> service_error option" where
  "validate_command_lease lease loco sess now s =
     (case get_lease lease (ctl_db s) of
        Inl e \<Rightarrow> Some e
      | Inr l \<Rightarrow>
          if cl_locomotive_id l \<noteq> loco \<or> cl_session_id l \<noteq> sess \<or> cl_state l \<noteq> LeaseActive \<or>
             \<not> (now < cl_expires_at l)
          then Some ErrNotFound else None)"

text \<open>\<open>new_id\<close> is the result of \<^verbatim>\<open>newID\<close>.\<close>

definition acquire ::
  "control_config \<Rightarrow> string \<Rightarrow> time \<Rightarrow> user \<Rightarrow> session \<Rightarrow> string \<Rightarrow> control \<Rightarrow>
   control \<times> (service_error + control_lease)" where
  "acquire cfg new_id now u sess loco s =
     (if \<not> allowed (u_role u) PermissionDrive then (s, Inl ErrPermissionDenied)
      else case get_locomotive loco s of
             Inl e \<Rightarrow> (s, Inl e)
           | Inr _ \<Rightarrow>
               (let l = \<lparr> cl_id = new_id, cl_locomotive_id = loco, cl_user_id = u_id u,
                          cl_session_id = s_id sess, cl_state = LeaseActive, cl_acquired_at = now,
                          cl_renewed_at = now, cl_expires_at = now + cc_lease_ttl cfg,
                          cl_release_after = None, cl_release_reason = [],
                          cl_heartbeat_millis = heartbeat_millis cfg \<rparr>
                in case create_lease l (ctl_db s) of
                     Inl e \<Rightarrow> (s, Inl e)
                   | Inr db \<Rightarrow> (publish (ControlAcquired l) (s\<lparr> ctl_db := db \<rparr>), Inr l)))"

definition heartbeat ::
  "control_config \<Rightarrow> time \<Rightarrow> string \<Rightarrow> session \<Rightarrow> control \<Rightarrow> control \<times> (service_error + control_lease)" where
  "heartbeat cfg now i sess s =
     (case heartbeat_lease i (s_id sess) now (now + cc_lease_ttl cfg) (ctl_db s) of
        Inl e \<Rightarrow> (s, Inl e)
      | Inr db \<Rightarrow>
          (s\<lparr> ctl_db := db \<rparr>,
           rbind (get_lease i db) (\<lambda>l. Inr (l\<lparr> cl_heartbeat_millis := heartbeat_millis cfg \<rparr>))))"

definition leases_for_session :: "control_config \<Rightarrow> session \<Rightarrow> control \<Rightarrow> control_lease list" where
  "leases_for_session cfg sess s =
     map (\<lambda>l. l\<lparr> cl_heartbeat_millis := heartbeat_millis cfg \<rparr>) (live_leases_for_session (s_id sess) (ctl_db s))"

datatype control_ownership = OwnershipMine | OwnershipSameUserOtherSession | OwnershipOther

record locomotive_control_state =
  lc_locomotive_id :: string
  lc_state :: lease_state
  lc_ownership :: control_ownership
  lc_expires_at :: time
  lc_release_after :: "time option"

definition locomotive_control_states :: "session \<Rightarrow> control \<Rightarrow> locomotive_control_state list" where
  "locomotive_control_states sess s =
     map (\<lambda>l. \<lparr> lc_locomotive_id = cl_locomotive_id l, lc_state = cl_state l,
                 lc_ownership = (if cl_session_id l = s_id sess then OwnershipMine
                                 else if cl_user_id l = s_user_id sess then OwnershipSameUserOtherSession
                                 else OwnershipOther),
                 lc_expires_at = cl_expires_at l, lc_release_after = cl_release_after l \<rparr>)
       (live_leases (ctl_db s))"

subsection \<open>Requests and tickets\<close>

datatype request =
    ReqTrackPower user bool
  | ReqEmergencyStop user
  | ReqThrottle user session string string int direction
  | ReqFunction session string string int bool
  | ReqTakeover user session string
  | ReqRelease string session
  | ReqStop control_lease string

datatype ticket =
    TrackPowerTicket user bool "64 word"
  | EmergencyStopTicket user
  | ThrottleTicket user session string string int direction locomotive "64 word"
  | FunctionTicket session string string int bool locomotive "64 word"
  | TakeoverTicket session string control_lease locomotive
  | StopTicket control_lease string locomotive time

datatype outcome = Finished | Queued ticket

definition set_track_power_begin :: "control_config \<Rightarrow> user \<Rightarrow> bool \<Rightarrow> control \<Rightarrow> service_error + outcome" where
  "set_track_power_begin cfg u enabled s =
     (if \<not> allowed (u_role u) PermissionDrive then Inl ErrPermissionDenied
      else if \<not> cap_track_power (cc_capabilities cfg) then Inl (ErrStation ErrUnsupported)
      else Inr (Queued (TrackPowerTicket u enabled (ctl_epoch s))))"

definition set_track_power_run ::
  "station_env \<Rightarrow> user \<Rightarrow> bool \<Rightarrow> 64 word \<Rightarrow> control \<Rightarrow> control \<times> service_error option" where
  "set_track_power_run env u enabled epoch s =
     (let s1 = (if \<not> enabled then preempt_ordinary_commands s else s) in
      if enabled \<and> ctl_epoch s1 \<noteq> epoch then (s1, Some ErrSafetyPreempted)
      else case check_command_allowed_err env of
        Some e \<Rightarrow> (s1, Some e)
      | None \<Rightarrow>
          (case observe_station_command env (SetTrackPowerCall enabled) s1 of
             (s2, Some e) \<Rightarrow> (s2, Some e)
           | (s2, None) \<Rightarrow>
               (let s3 = remember_track_power enabled s2;
                    was_stopped = ctl_estop s3;
                    s4 = (if enabled then remember_emergency_stop False s3 else s3);
                    s5 = publish (TrackPowerChanged enabled (Some (u_id u))) s4
                in (publish_if (enabled \<and> was_stopped) (TrackEmergencyStop False (Some (u_id u))) s5, None))))"

definition emergency_stop_begin :: "user \<Rightarrow> service_error + outcome" where
  "emergency_stop_begin u =
     (if \<not> allowed (u_role u) PermissionDrive then Inl ErrPermissionDenied
      else Inr (Queued (EmergencyStopTicket u)))"

definition emergency_stop_run :: "station_env \<Rightarrow> user \<Rightarrow> control \<Rightarrow> control \<times> service_error option" where
  "emergency_stop_run env u s =
     (let s1 = preempt_ordinary_commands s in
      case check_command_allowed_err env of
        Some e \<Rightarrow> (s1, Some e)
      | None \<Rightarrow>
          (case observe_station_command env EmergencyStopCall s1 of
             (s2, Some e) \<Rightarrow> (s2, Some e)
           | (s2, None) \<Rightarrow>
               (publish (TrackEmergencyStop True (Some (u_id u))) (remember_emergency_stop True s2), None)))"

definition throttle_begin ::
  "time \<Rightarrow> user \<Rightarrow> session \<Rightarrow> string \<Rightarrow> string \<Rightarrow> int \<Rightarrow> direction \<Rightarrow> control \<Rightarrow> service_error + outcome" where
  "throttle_begin now u sess loco lease speed d s =
     (if speed < 0 \<or> speed > 100 then Inl (ErrValidation ''speed must be between 0 and 100'')
      else if \<not> direction_valid d then Inl (ErrValidation ''direction must be forward or reverse'')
      else rbind (get_locomotive loco s) (\<lambda>l.
        case validate_command_lease lease loco (s_id sess) now s of
          Some e \<Rightarrow> Inl e
        | None \<Rightarrow> Inr (Queued (ThrottleTicket u sess loco lease speed d l (ctl_epoch s)))))"

text \<open>
  The checks a drive command passes under the gate, in order; \<open>stop\<close> is the safety flag of
  the throttle.
\<close>

definition drive_checks ::
  "control_config \<Rightarrow> station_env \<Rightarrow> time \<Rightarrow> bool \<Rightarrow> string \<Rightarrow> string \<Rightarrow> string \<Rightarrow> 64 word \<Rightarrow> control \<Rightarrow>
   control \<times> service_error option" where
  "drive_checks cfg env now stop lease loco sess epoch s =
     (let s1 = (if stop then preempt_ordinary_commands s else s) in
      if \<not> stop \<and> ctl_epoch s1 \<noteq> epoch then (s1, Some ErrSafetyPreempted)
      else case check_command_allowed_err env of
        Some e \<Rightarrow> (s1, Some e)
      | None \<Rightarrow>
          (case (if stop then (s1, None) else ensure_track_power_known env s1) of
             (s2, Some e) \<Rightarrow> (s2, Some e)
           | (s2, None) \<Rightarrow>
               (case check_drive_allowed stop s2 of
                  Some e \<Rightarrow> (s2, Some e)
                | None \<Rightarrow>
                    (case renew_active_lease_for_command lease loco sess now (now + cc_lease_ttl cfg) (ctl_db s2) of
                       Inl e \<Rightarrow> (s2, Some e)
                     | Inr db \<Rightarrow> (s2\<lparr> ctl_db := db \<rparr>, None)))))"

definition throttle_run ::
  "control_config \<Rightarrow> station_env \<Rightarrow> time \<Rightarrow> user \<Rightarrow> session \<Rightarrow> string \<Rightarrow> string \<Rightarrow> int \<Rightarrow> direction \<Rightarrow>
   locomotive \<Rightarrow> 64 word \<Rightarrow> control \<Rightarrow> control \<times> service_error option" where
  "throttle_run cfg env now u sess loco lease speed d l epoch s =
     (case drive_checks cfg env now (speed = 0) lease loco (s_id sess) epoch s of
        (s1, Some e) \<Rightarrow> (s1, Some e)
      | (s1, None) \<Rightarrow>
          (case observe_station_command env (SetLocoSpeedCall (l_dcc_address l) speed d) s1 of
             (s2, Some e) \<Rightarrow> (s2, Some e)
           | (s2, None) \<Rightarrow>
               (publish (SpeedChanged loco speed d (u_id u)) (remember_loco_direction loco d s2), None)))"

definition function_begin ::
  "control_config \<Rightarrow> time \<Rightarrow> session \<Rightarrow> string \<Rightarrow> string \<Rightarrow> int \<Rightarrow> bool \<Rightarrow> control \<Rightarrow> service_error + outcome" where
  "function_begin cfg now sess loco lease fn on s =
     (if cap_functions (cc_capabilities cfg) \<le> 0
      then Inl (ErrValidation ''station does not support locomotive functions'')
      else if fn < 0 \<or> fn > cap_max_function_number (cc_capabilities cfg)
      then Inl (ErrValidation (''function must be between 0 and '' @ int_text (cap_max_function_number (cc_capabilities cfg))))
      else rbind (get_locomotive loco s) (\<lambda>l.
        case validate_command_lease lease loco (s_id sess) now s of
          Some e \<Rightarrow> Inl e
        | None \<Rightarrow> Inr (Queued (FunctionTicket sess loco lease fn on l (ctl_epoch s)))))"

definition function_run ::
  "control_config \<Rightarrow> station_env \<Rightarrow> time \<Rightarrow> session \<Rightarrow> string \<Rightarrow> string \<Rightarrow> int \<Rightarrow> bool \<Rightarrow>
   locomotive \<Rightarrow> 64 word \<Rightarrow> control \<Rightarrow> control \<times> service_error option" where
  "function_run cfg env now sess loco lease fn on l epoch s =
     (case drive_checks cfg env now False lease loco (s_id sess) epoch s of
        (s1, Some e) \<Rightarrow> (s1, Some e)
      | (s1, None) \<Rightarrow>
          (case observe_station_command env (SetLocoFunctionCall (l_dcc_address l) fn on) s1 of
             (s2, Some e) \<Rightarrow> (s2, Some e)
           | (s2, None) \<Rightarrow> (publish (FunctionChanged loco fn on) s2, None)))"

text \<open>The tests both halves of a take-over make on the lease they read.\<close>

definition takeover_check :: "time \<Rightarrow> session \<Rightarrow> control_lease \<Rightarrow> service_error option" where
  "takeover_check now sess l =
     (if cl_state l \<noteq> LeaseActive \<or> \<not> (now < cl_expires_at l) then Some ErrLeaseNotActive
      else if cl_user_id l \<noteq> s_user_id sess then Some ErrLeaseOwnedByOtherUser
      else None)"

definition takeover_begin :: "time \<Rightarrow> user \<Rightarrow> session \<Rightarrow> string \<Rightarrow> control \<Rightarrow> service_error + outcome" where
  "takeover_begin now u sess lease s =
     (if \<not> allowed (u_role u) PermissionDrive then Inl ErrPermissionDenied
      else rbind (get_lease lease (ctl_db s)) (\<lambda>l.
        case takeover_check now sess l of
          Some e \<Rightarrow> Inl e
        | None \<Rightarrow>
            if cl_session_id l = s_id sess then Inr Finished
            else rbind (get_locomotive (cl_locomotive_id l) s) (\<lambda>loco.
                   Inr (Queued (TakeoverTicket sess lease l loco)))))"

text \<open>The part of a take-over that stops the locomotive and hands over the lease.\<close>

definition takeover_transfer ::
  "control_config \<Rightarrow> station_env \<Rightarrow> time \<Rightarrow> session \<Rightarrow> string \<Rightarrow> control_lease \<Rightarrow> locomotive \<Rightarrow>
   control \<Rightarrow> control \<times> service_error option" where
  "takeover_transfer cfg env renewed sess lease l loco s =
     (let s1 = preempt_ordinary_commands s in
      case check_command_allowed_err env of
        Some e \<Rightarrow> (s1, Some e)
      | None \<Rightarrow>
          (let d = stop_direction (cl_locomotive_id l) s1 in
           case observe_station_command env (SetLocoSpeedCall (l_dcc_address loco) 0 d) s1 of
             (s2, Some e) \<Rightarrow> (s2, Some e)
           | (s2, None) \<Rightarrow>
               (let s3 = remember_loco_direction (cl_locomotive_id l) d s2 in
                case transfer_active_lease lease (s_user_id sess) (cl_session_id l) (s_id sess)
                       renewed (renewed + cc_lease_ttl cfg) (ctl_db s3) of
                  Inl e \<Rightarrow> (s3, Some (if e = ErrNotFound then ErrLeaseTakeoverConflict else e))
                | Inr (l', db) \<Rightarrow>
                    (publish (ControlTransferred (l'\<lparr> cl_heartbeat_millis := heartbeat_millis cfg \<rparr>)
                       (cl_session_id l)) (s3\<lparr> ctl_db := db \<rparr>), None))))"

definition takeover_run ::
  "control_config \<Rightarrow> station_env \<Rightarrow> time \<Rightarrow> time \<Rightarrow> session \<Rightarrow> string \<Rightarrow> control_lease \<Rightarrow> locomotive \<Rightarrow>
   control \<Rightarrow> control \<times> service_error option" where
  "takeover_run cfg env now renewed sess lease l loco s =
     (case get_lease lease (ctl_db s) of
        Inl e \<Rightarrow> (s, Some e)
      | Inr current \<Rightarrow>
          (case takeover_check now sess current of
             Some e \<Rightarrow> (s, Some e)
           | None \<Rightarrow>
               if cl_session_id current = s_id sess then (s, None)
               else if cl_session_id current \<noteq> cl_session_id l then (s, Some ErrLeaseTakeoverConflict)
               else takeover_transfer cfg env renewed sess lease l loco s))"

text \<open>\<^verbatim>\<open>stopAndScheduleRelease\<close>.\<close>

definition stop_begin :: "control_config \<Rightarrow> time \<Rightarrow> control_lease \<Rightarrow> string \<Rightarrow> control \<Rightarrow>
   control \<times> (service_error + outcome)" where
  "stop_begin cfg now l reason s =
     (case get_locomotive (cl_locomotive_id l) s of
        Inl e \<Rightarrow> (s, Inl e)
      | Inr loco \<Rightarrow>
          (let release_at = now + cc_stop_grace cfg in
           case mark_lease_stopping_for_session (cl_id l) (cl_session_id l) reason release_at (ctl_db s) of
             Inl e \<Rightarrow> (s, Inl e)
           | Inr db \<Rightarrow> (s\<lparr> ctl_db := db \<rparr>, Inr (Queued (StopTicket l reason loco release_at)))))"

definition stop_run :: "station_env \<Rightarrow> control_lease \<Rightarrow> string \<Rightarrow> locomotive \<Rightarrow> time \<Rightarrow> control \<Rightarrow>
   control \<times> service_error option" where
  "stop_run env l reason loco release_at s =
     (let s1 = preempt_ordinary_commands s in
      case check_command_allowed_err env of
        Some e \<Rightarrow> (s1, Some (ErrStopCommandFailed e))
      | None \<Rightarrow>
          (let d = stop_direction (cl_locomotive_id l) s1 in
           case observe_station_command env (SetLocoSpeedCall (l_dcc_address loco) 0 d) s1 of
             (s2, Some e) \<Rightarrow> (s2, Some (ErrStopCommandFailed e))
           | (s2, None) \<Rightarrow>
               (publish (ControlExpired (cl_id l) (cl_locomotive_id l) reason release_at)
                  (remember_loco_direction (cl_locomotive_id l) d s2), None)))"

definition release_begin :: "control_config \<Rightarrow> time \<Rightarrow> string \<Rightarrow> session \<Rightarrow> control \<Rightarrow>
   control \<times> (service_error + outcome)" where
  "release_begin cfg now i sess s =
     (case get_lease i (ctl_db s) of
        Inl e \<Rightarrow> (s, Inl e)
      | Inr l \<Rightarrow>
          if cl_session_id l \<noteq> s_id sess then (s, Inl ErrLeaseNotOwned)
          else stop_begin cfg now l ''client_release'' s)"

text \<open>One iteration of the second loop of \<^verbatim>\<open>Sweep\<close>.\<close>

definition release_ready :: "control_lease \<Rightarrow> control \<Rightarrow> control" where
  "release_ready l s =
     (case release_lease (cl_id l) [] (cl_release_reason l) (ctl_db s) of
        Inl _ \<Rightarrow> s
      | Inr db \<Rightarrow> publish (ControlReleased l) (s\<lparr> ctl_db := db \<rparr>))"

text \<open>
  One iteration of the first loop of \<^verbatim>\<open>Sweep\<close>, when nothing else runs while it waits at the
  gate; the background context never ends the wait.
\<close>

definition expire_lease :: "control_config \<Rightarrow> station_env \<Rightarrow> time \<Rightarrow> control_lease \<Rightarrow> control \<Rightarrow> control" where
  "expire_lease cfg env now l s =
     (case stop_begin cfg now l ''heartbeat_timeout'' s of
        (s1, Inr (Queued (StopTicket l' reason loco release_at))) \<Rightarrow> fst (stop_run env l' reason loco release_at s1)
      | (s1, _) \<Rightarrow> s1)"

definition sweep :: "control_config \<Rightarrow> station_env \<Rightarrow> time \<Rightarrow> control \<Rightarrow> control" where
  "sweep cfg env now s =
     (let s1 = fold (expire_lease cfg env now) (expired_active_leases now (ctl_db s)) s
      in fold release_ready (stopping_leases_ready now (ctl_db s1)) s1)"

fun begin_request :: "control_config \<Rightarrow> time \<Rightarrow> request \<Rightarrow> control \<Rightarrow> control \<times> (service_error + outcome)" where
  "begin_request cfg now (ReqTrackPower u enabled) s = (s, set_track_power_begin cfg u enabled s)"
| "begin_request cfg now (ReqEmergencyStop u) s = (s, emergency_stop_begin u)"
| "begin_request cfg now (ReqThrottle u sess loco lease speed d) s = (s, throttle_begin now u sess loco lease speed d s)"
| "begin_request cfg now (ReqFunction sess loco lease fn on) s = (s, function_begin cfg now sess loco lease fn on s)"
| "begin_request cfg now (ReqTakeover u sess lease) s = (s, takeover_begin now u sess lease s)"
| "begin_request cfg now (ReqRelease i sess) s = release_begin cfg now i sess s"
| "begin_request cfg now (ReqStop l reason) s = stop_begin cfg now l reason s"

fun run_ticket :: "control_config \<Rightarrow> station_env \<Rightarrow> time \<Rightarrow> time \<Rightarrow> ticket \<Rightarrow> control \<Rightarrow> control \<times> service_error option" where
  "run_ticket cfg env now renewed (TrackPowerTicket u enabled epoch) s = set_track_power_run env u enabled epoch s"
| "run_ticket cfg env now renewed (EmergencyStopTicket u) s = emergency_stop_run env u s"
| "run_ticket cfg env now renewed (ThrottleTicket u sess loco lease speed d l epoch) s =
     throttle_run cfg env now u sess loco lease speed d l epoch s"
| "run_ticket cfg env now renewed (FunctionTicket sess loco lease fn on l epoch) s =
     function_run cfg env now sess loco lease fn on l epoch s"
| "run_ticket cfg env now renewed (TakeoverTicket sess lease l loco) s =
     takeover_run cfg env now renewed sess lease l loco s"
| "run_ticket cfg env now renewed (StopTicket l reason loco release_at) s = stop_run env l reason loco release_at s"

text \<open>
  Interleavings: a state and the tickets waiting at the gate. A dropped ticket is a caller whose
  context ended; \<open>ReqStop\<close> is an iteration of the sweep over any lease it may have read.
\<close>

type_synonym world = "control \<times> ticket list"

inductive control_step :: "control_config \<Rightarrow> world \<Rightarrow> world \<Rightarrow> bool" for cfg where
  request: "begin_request cfg now req s = (s', r) \<Longrightarrow>
    control_step cfg (s, ts) (s', case r of Inr (Queued t) \<Rightarrow> t # ts | _ \<Rightarrow> ts)"
| run: "t \<in> set ts \<Longrightarrow> run_ticket cfg env now renewed t s = (s', r) \<Longrightarrow>
    control_step cfg (s, ts) (s', remove1 t ts)"
| give_up: "control_step cfg (s, ts) (s, remove1 t ts)"
| status_event: "control_step cfg (s, ts) (publish_station_status_changes cfg st s, ts)"
| query: "station_status env s = (s', r) \<Longrightarrow> control_step cfg (s, ts) (s', ts)"
| acquired: "acquire cfg i now u sess loco s = (s', r) \<Longrightarrow> control_step cfg (s, ts) (s', ts)"
| heartbeat: "heartbeat cfg now i sess s = (s', r) \<Longrightarrow> control_step cfg (s, ts) (s', ts)"
| released: "control_step cfg (s, ts) (release_ready l s, ts)"

inductive control_reachable :: "control_config \<Rightarrow> lease_db \<Rightarrow> world \<Rightarrow> bool" for cfg db where
  start: "control_reachable cfg db (new_control_service db, [])"
| step: "control_reachable cfg db w \<Longrightarrow> control_step cfg w w' \<Longrightarrow> control_reachable cfg db w'"


subsection \<open>What each helper leaves unchanged\<close>

lemma publish_simps [simp]:
  "ctl_db (publish e s) = ctl_db s" "ctl_estop (publish e s) = ctl_estop s"
  "ctl_epoch (publish e s) = ctl_epoch s" "ctl_calls (publish e s) = ctl_calls s"
  "ctl_power_known (publish e s) = ctl_power_known s" "ctl_power_on (publish e s) = ctl_power_on s"
  "ctl_last_direction (publish e s) = ctl_last_direction s" "ctl_last_status (publish e s) = ctl_last_status s"
  by (simp_all add: publish_def)

lemma publish_if_simps [simp]:
  "ctl_db (publish_if b e s) = ctl_db s" "ctl_estop (publish_if b e s) = ctl_estop s"
  "ctl_epoch (publish_if b e s) = ctl_epoch s" "ctl_calls (publish_if b e s) = ctl_calls s"
  "ctl_power_known (publish_if b e s) = ctl_power_known s" "ctl_power_on (publish_if b e s) = ctl_power_on s"
  by (simp_all add: publish_if_def)

lemma preempt_simps [simp]:
  "ctl_db (preempt_ordinary_commands s) = ctl_db s" "ctl_estop (preempt_ordinary_commands s) = ctl_estop s"
  "ctl_epoch (preempt_ordinary_commands s) = ctl_epoch s + 1" "ctl_calls (preempt_ordinary_commands s) = ctl_calls s"
  "ctl_power_known (preempt_ordinary_commands s) = ctl_power_known s"
  "ctl_power_on (preempt_ordinary_commands s) = ctl_power_on s"
  "ctl_last_direction (preempt_ordinary_commands s) = ctl_last_direction s"
  "ctl_last_status (preempt_ordinary_commands s) = ctl_last_status s"
  by (simp_all add: preempt_ordinary_commands_def)

lemma direction_simps [simp]:
  "ctl_db (remember_loco_direction l d s) = ctl_db s" "ctl_estop (remember_loco_direction l d s) = ctl_estop s"
  "ctl_epoch (remember_loco_direction l d s) = ctl_epoch s" "ctl_calls (remember_loco_direction l d s) = ctl_calls s"
  "ctl_power_known (remember_loco_direction l d s) = ctl_power_known s"
  "ctl_power_on (remember_loco_direction l d s) = ctl_power_on s"
  by (simp_all add: remember_loco_direction_def)

lemma power_state_simps [simp]:
  "ctl_db (set_track_power_state b s) = ctl_db s" "ctl_estop (set_track_power_state b s) = ctl_estop s"
  "ctl_calls (set_track_power_state b s) = ctl_calls s" "ctl_power_known (set_track_power_state b s)"
  "ctl_power_on (set_track_power_state b s) = b"
  "ctl_epoch (set_track_power_state b s) =
     ctl_epoch s + of_bool (\<not> b \<and> (\<not> ctl_power_known s \<or> ctl_power_on s))"
  by (simp_all add: set_track_power_state_def Let_def)

lemma estop_state_simps [simp]:
  "ctl_db (set_emergency_stop_state b s) = ctl_db s" "ctl_estop (set_emergency_stop_state b s) = b"
  "ctl_calls (set_emergency_stop_state b s) = ctl_calls s"
  "ctl_power_known (set_emergency_stop_state b s) = ctl_power_known s"
  "ctl_power_on (set_emergency_stop_state b s) = ctl_power_on s"
  "ctl_epoch (set_emergency_stop_state b s) = ctl_epoch s + of_bool (b \<and> \<not> ctl_estop s)"
  by (simp_all add: set_emergency_stop_state_def Let_def)

lemma remember_power_simps [simp]:
  "ctl_db (remember_track_power b s) = ctl_db s" "ctl_estop (remember_track_power b s) = ctl_estop s"
  "ctl_calls (remember_track_power b s) = ctl_calls s"
  "ctl_power_known (remember_track_power b s)" "ctl_power_on (remember_track_power b s) = b"
  "ctl_epoch (remember_track_power b s) =
     ctl_epoch s + of_bool (\<not> b \<and> (\<not> ctl_power_known s \<or> ctl_power_on s))"
  by (simp_all add: remember_track_power_def Let_def)

lemma remember_estop_simps [simp]:
  "ctl_db (remember_emergency_stop b s) = ctl_db s" "ctl_estop (remember_emergency_stop b s) = b"
  "ctl_calls (remember_emergency_stop b s) = ctl_calls s"
  "ctl_power_known (remember_emergency_stop b s) = ctl_power_known s"
  "ctl_power_on (remember_emergency_stop b s) = ctl_power_on s"
  "ctl_epoch (remember_emergency_stop b s) = ctl_epoch s + of_bool (b \<and> \<not> ctl_estop s)"
  by (simp_all add: remember_emergency_stop_def Let_def)

lemma observe_simps [simp]:
  "ctl_db (observe_safety_status st s) = ctl_db s" "ctl_calls (observe_safety_status st s) = ctl_calls s"
  "ctl_estop (observe_safety_status st s) \<longleftrightarrow> ctl_estop s \<or> st_emergency_stop st"
  by (auto simp: observe_safety_status_def Let_def split: power_text.split)

lemma occupancy_simps [simp]:
  "ctl_db (update_occupancy_provider_availability cfg c s) = ctl_db s"
  "ctl_calls (update_occupancy_provider_availability cfg c s) = ctl_calls s"
  "ctl_estop (update_occupancy_provider_availability cfg c s) = ctl_estop s"
  "ctl_epoch (update_occupancy_provider_availability cfg c s) = ctl_epoch s"
  "ctl_last_status (update_occupancy_provider_availability cfg c s) = ctl_last_status s"
  "ctl_events (update_occupancy_provider_availability cfg c s) = ctl_events s"
  by (simp_all add: update_occupancy_provider_availability_def split: option.split)

lemma publish_status_simps [simp]:
  "ctl_db (publish_station_status_changes cfg st s) = ctl_db s"
  "ctl_calls (publish_station_status_changes cfg st s) = ctl_calls s"
  "ctl_estop (publish_station_status_changes cfg st s) \<longleftrightarrow> ctl_estop s \<or> st_emergency_stop st"
  "ctl_epoch (publish_station_status_changes cfg st s) = ctl_epoch (observe_safety_status st s)"
  by (simp_all add: publish_station_status_changes_def Let_def)

end
