(* ===== verification/ControlSafety.thy ===== *)
theory ControlSafety
  imports Control
begin

text \<open>
  What the control service guarantees, for every interleaving of its operations: the contract
  that each operation keeps (the emergency latch, the lease table, the epoch), what a command
  that reaches the station has passed, preemption, take-over and the sweep.
\<close>

subsection \<open>The safety epoch\<close>

text \<open>An operation moves the epoch forward by at most three.\<close>

definition epoch_moves :: "control \<Rightarrow> control \<Rightarrow> bool" where
  "epoch_moves s s' \<longleftrightarrow> (\<exists>k\<le>3. ctl_epoch s' = ctl_epoch s + of_nat k)"

lemma epoch_movesI:
  "ctl_epoch s' = ctl_epoch s \<Longrightarrow> epoch_moves s s'"
  "ctl_epoch s' = ctl_epoch s + 1 \<Longrightarrow> epoch_moves s s'"
  "ctl_epoch s' = ctl_epoch s + 2 \<Longrightarrow> epoch_moves s s'"
  "ctl_epoch s' = ctl_epoch s + 3 \<Longrightarrow> epoch_moves s s'"
  unfolding epoch_moves_def
  by (rule exI [of _ 0], simp, rule exI [of _ 1], simp, rule exI [of _ 2], simp, rule exI [of _ 3], simp)

lemma observe_epoch:
  "ctl_epoch (observe_safety_status st s) = ctl_epoch s
     + of_bool (st_track_power st = PowerOff \<and> (\<not> ctl_power_known s \<or> ctl_power_on s))
     + of_bool (st_emergency_stop st \<and> \<not> ctl_estop s)"
  by (cases "st_track_power st") (simp_all add: observe_safety_status_def Let_def)

subsection \<open>The emergency latch\<close>

text \<open>
  Read off the log of station calls alone: an emergency stop the station accepted latches, an
  accepted power-on unlatches.
\<close>

fun latch_step :: "bool \<Rightarrow> station_call \<times> bool \<Rightarrow> bool" where
  "latch_step b (EmergencyStopCall, True) = True"
| "latch_step b (SetTrackPowerCall True, True) = False"
| "latch_step b _ = b"

fun drive_call :: "station_call \<Rightarrow> bool" where
  "drive_call (SetLocoSpeedCall _ v _) \<longleftrightarrow> v \<noteq> 0"
| "drive_call (SetLocoFunctionCall _ _ _) \<longleftrightarrow> True"
| "drive_call _ \<longleftrightarrow> False"

fun drive_safe :: "bool \<Rightarrow> (station_call \<times> bool) list \<Rightarrow> bool" where
  "drive_safe b [] \<longleftrightarrow> True"
| "drive_safe b (c # cs) \<longleftrightarrow> (b \<longrightarrow> \<not> drive_call (fst c)) \<and> drive_safe (latch_step b c) cs"

definition latch_ok :: "control \<Rightarrow> bool" where
  "latch_ok s \<longleftrightarrow> drive_safe False (ctl_calls s) \<and> (foldl latch_step False (ctl_calls s) \<longrightarrow> ctl_estop s)"

lemma drive_safe_snoc:
  "drive_safe b (cs @ [c]) \<longleftrightarrow> drive_safe b cs \<and> (foldl latch_step b cs \<longrightarrow> \<not> drive_call (fst c))"
  by (induction cs arbitrary: b) auto

lemma latch_ok_quiet:
  "latch_ok s \<Longrightarrow> ctl_calls s' = ctl_calls s \<Longrightarrow> (ctl_estop s \<Longrightarrow> ctl_estop s') \<Longrightarrow> latch_ok s'"
  by (auto simp: latch_ok_def)

lemma latch_ok_call:
  assumes "latch_ok s" and "ctl_calls s' = ctl_calls s @ [c]"
    and "ctl_estop s \<Longrightarrow> \<not> drive_call (fst c)" and "latch_step (ctl_estop s) c \<Longrightarrow> ctl_estop s'"
  shows "latch_ok s'"
proof -
  have "latch_step b c \<longrightarrow> latch_step b' c" if "b \<longrightarrow> b'" for b b'
    using that by (cases "(b, c)" rule: latch_step.cases) auto
  then show ?thesis using assms by (auto simp: latch_ok_def drive_safe_snoc)
qed

text \<open>The contract of every operation of the service.\<close>

locale control_operation =
  fixes oper :: "control \<Rightarrow> control"
  assumes keeps_latch: "latch_ok s \<Longrightarrow> latch_ok (oper s)"
    and keeps_leases: "lease_inv (ctl_db s) \<Longrightarrow> lease_inv (ctl_db (oper s)) \<and> lease_forward (ctl_db s) (ctl_db (oper s))"
    and moves_epoch: "epoch_moves s (oper s)"
begin

lemma keeps_ok: "latch_ok s \<and> lease_inv (ctl_db s) \<Longrightarrow> latch_ok (oper s) \<and> lease_inv (ctl_db (oper s))"
  using keeps_latch keeps_leases by blast

end

subsection \<open>Every operation keeps the contract\<close>

lemma renew_leases:
  "lease_inv db \<Longrightarrow> renew_active_lease_for_command i l s n e db = Inr db' \<Longrightarrow> lease_inv db' \<and> lease_forward db db'"
  using lease_exec_inv [of db "RenewOp i l s n e"] by simp

lemma heartbeat_leases:
  "lease_inv db \<Longrightarrow> heartbeat_lease i s r e db = Inr db' \<Longrightarrow> lease_inv db' \<and> lease_forward db db'"
  using lease_exec_inv [of db "HeartbeatOp i s r e"] by simp

lemma mark_leases:
  "lease_inv db \<Longrightarrow> mark_lease_stopping_for_session i s r t db = Inr db' \<Longrightarrow> lease_inv db' \<and> lease_forward db db'"
  using lease_exec_inv [of db "MarkSessionOp i s r t"] by simp

lemma release_leases:
  "lease_inv db \<Longrightarrow> release_lease i s r db = Inr db' \<Longrightarrow> lease_inv db' \<and> lease_forward db db'"
  using lease_exec_inv [of db "ReleaseOp i s r"] by simp

lemma transfer_leases:
  "lease_inv db \<Longrightarrow> transfer_active_lease i u a b r e db = Inr (l, db') \<Longrightarrow> lease_inv db' \<and> lease_forward db db'"
  using lease_exec_inv [of db "TransferOp i u a b r e"] by simp

lemma observe_epoch_le: "\<exists>k\<le>2. ctl_epoch (observe_safety_status st s) = ctl_epoch s + of_nat k"
proof -
  let ?a = "of_bool (st_track_power st = PowerOff \<and> (\<not> ctl_power_known s \<or> ctl_power_on s)) :: nat"
  let ?b = "of_bool (st_emergency_stop st \<and> \<not> ctl_estop s) :: nat"
  have "?a + ?b \<le> 2" by simp
  moreover have "ctl_epoch (observe_safety_status st s) = ctl_epoch s + of_nat (?a + ?b)"
    by (simp add: observe_epoch)
  ultimately show ?thesis by blast
qed

lemma ensure_power_cases:
  assumes "ensure_track_power_known env s = (s', r)"
  obtains "s' = s" | st where "s' = observe_safety_status st s" "r = None"
  using assms by (auto simp: ensure_track_power_known_def split: if_splits option.splits sum.splits)

lemma ensure_power_keeps:
  assumes "ensure_track_power_known env s = (s', r)"
  shows "ctl_db s' = ctl_db s" and "ctl_calls s' = ctl_calls s" and "ctl_estop s \<Longrightarrow> ctl_estop s'"
    and "\<exists>k\<le>2. ctl_epoch s' = ctl_epoch s + of_nat k"
proof -
  from assms show "ctl_db s' = ctl_db s" by (cases rule: ensure_power_cases) simp_all
  from assms show "ctl_calls s' = ctl_calls s" by (cases rule: ensure_power_cases) simp_all
  from assms show "ctl_estop s \<Longrightarrow> ctl_estop s'" by (cases rule: ensure_power_cases) simp_all
  from assms show "\<exists>k\<le>2. ctl_epoch s' = ctl_epoch s + of_nat k"
    by (cases rule: ensure_power_cases) (auto intro: observe_epoch_le exI [of _ 0])
qed

text \<open>
  The state a drive command leaves behind its checks, and what passing them means.
\<close>

lemma drive_checks_keeps:
  assumes "drive_checks cfg env now stop lease loco sess epoch s = (s', r)"
  shows "ctl_calls s' = ctl_calls s \<and> (ctl_estop s \<longrightarrow> ctl_estop s') \<and>
     (lease_inv (ctl_db s) \<longrightarrow> lease_inv (ctl_db s') \<and> lease_forward (ctl_db s) (ctl_db s')) \<and>
     (\<exists>k\<le>2. ctl_epoch s' = ctl_epoch s + of_nat k)"
proof -
  define s1 where "s1 = (if stop then preempt_ordinary_commands s else s)"
  obtain s2 r2 where e: "(if stop then (s1, None) else ensure_track_power_known env s1) = (s2, r2)"
    by fastforce
  have 1: "ctl_calls s1 = ctl_calls s" "ctl_estop s1 = ctl_estop s" "ctl_db s1 = ctl_db s"
    by (simp_all add: s1_def)
  have k1: "\<exists>k\<le>2. ctl_epoch s1 = ctl_epoch s + of_nat k"
    by (cases stop) (auto simp: s1_def intro: exI [of _ 0] exI [of _ 1])
  have 2: "ctl_calls s2 = ctl_calls s" "ctl_estop s \<longrightarrow> ctl_estop s2" "ctl_db s2 = ctl_db s"
    using e 1 ensure_power_keeps [of env s1 s2 r2] by (auto split: if_splits)
  have k2: "\<exists>k\<le>2. ctl_epoch s2 = ctl_epoch s + of_nat k"
    using e k1 ensure_power_keeps(4) [of env s1 s2 r2] by (auto simp: s1_def split: if_splits)
  from assms have "s' = s1 \<or> s' = s2 \<or>
      (\<exists>db. renew_active_lease_for_command lease loco sess now (now + cc_lease_ttl cfg) (ctl_db s2) = Inr db \<and>
        s' = s2\<lparr> ctl_db := db \<rparr>)"
    unfolding drive_checks_def Let_def s1_def [symmetric] e
    by (auto split: if_splits option.splits sum.splits)
  then show ?thesis
  proof (elim disjE exE conjE)
    assume "s' = s1"
    then show ?thesis using 1 k1 by simp
  next
    assume "s' = s2"
    then show ?thesis using 2 k2 by simp
  next
    fix db
    assume "renew_active_lease_for_command lease loco sess now (now + cc_lease_ttl cfg) (ctl_db s2) = Inr db"
      and s': "s' = s2\<lparr> ctl_db := db \<rparr>"
    then have "lease_inv (ctl_db s) \<longrightarrow> lease_inv db \<and> lease_forward (ctl_db s) db"
      using renew_leases 2(3) by simp
    then show ?thesis using 2 k2 by (simp add: s')
  qed
qed

lemma drive_checks_passed:
  assumes "drive_checks cfg env now stop lease loco sess epoch s = (s', None)"
  shows "check_command_allowed (se_health env) = None"
    and "\<not> stop \<Longrightarrow> ctl_epoch s = epoch \<and> \<not> ctl_estop s \<and> \<not> ctl_estop s' \<and> ctl_power_known s' \<and> ctl_power_on s'"
    and "\<exists>db. renew_active_lease_for_command lease loco sess now (now + cc_lease_ttl cfg) (ctl_db s) = Inr db \<and>
        ctl_db s' = db"
proof -
  obtain s2 r2 where e: "ensure_track_power_known env s = (s2, r2)" by fastforce
  note keep = ensure_power_keeps [OF e]
  show "check_command_allowed (se_health env) = None"
    using assms unfolding drive_checks_def Let_def check_command_allowed_err_def
    by (auto split: if_splits option.splits)
  show "\<exists>db. renew_active_lease_for_command lease loco sess now (now + cc_lease_ttl cfg) (ctl_db s) = Inr db \<and>
        ctl_db s' = db"
    using assms keep(1) e unfolding drive_checks_def Let_def
    by (cases stop) (auto split: if_splits option.splits sum.splits)
  show "ctl_epoch s = epoch \<and> \<not> ctl_estop s \<and> \<not> ctl_estop s' \<and> ctl_power_known s' \<and> ctl_power_on s'" if "\<not> stop"
    using assms that keep(3) e unfolding drive_checks_def Let_def check_drive_allowed_def
    by (auto split: if_splits option.splits sum.splits)
qed

definition contract :: "control \<Rightarrow> control \<Rightarrow> bool" where
  "contract s s' \<longleftrightarrow> (latch_ok s \<longrightarrow> latch_ok s') \<and>
     (lease_inv (ctl_db s) \<longrightarrow> lease_inv (ctl_db s') \<and> lease_forward (ctl_db s) (ctl_db s')) \<and> epoch_moves s s'"

lemma contract_refl [simp]: "contract s s"
  by (simp add: contract_def epoch_movesI)

lemma contract_quiet:
  assumes "ctl_calls s' = ctl_calls s" and "ctl_estop s \<Longrightarrow> ctl_estop s'" and "epoch_moves s s'"
    and "lease_inv (ctl_db s) \<Longrightarrow> lease_inv (ctl_db s') \<and> lease_forward (ctl_db s) (ctl_db s')"
  shows "contract s s'"
  using assms latch_ok_quiet [of s s'] by (auto simp: contract_def)

lemma contract_call:
  assumes "ctl_calls s' = ctl_calls s @ [c]" and "ctl_estop s \<Longrightarrow> \<not> drive_call (fst c)"
    and "latch_step (ctl_estop s) c \<Longrightarrow> ctl_estop s'" and "epoch_moves s s'"
    and "lease_inv (ctl_db s) \<Longrightarrow> lease_inv (ctl_db s') \<and> lease_forward (ctl_db s) (ctl_db s')"
  shows "contract s s'"
  using assms latch_ok_call [of s s' c] by (auto simp: contract_def)

lemma epoch_moves_bool:
  "ctl_epoch s' = ctl_epoch s + of_bool b \<Longrightarrow> epoch_moves s s'"
  "ctl_epoch s' = ctl_epoch s + 1 + of_bool b \<Longrightarrow> epoch_moves s s'"
  "ctl_epoch s' = ctl_epoch s + of_bool b + 1 \<Longrightarrow> epoch_moves s s'"
  by (cases b; simp add: epoch_movesI)+

text \<open>A station call made by an operation that has only preempted the others before it.\<close>

lemma preempted_contract: "contract s (preempt_ordinary_commands s)"
  by (rule contract_quiet) (simp_all add: epoch_movesI)

lemma set_track_power_contract: "contract s (fst (set_track_power_run env u enabled epoch s))"
proof (cases "enabled \<and> ctl_epoch s \<noteq> epoch \<or> check_command_allowed_err env \<noteq> None")
  case True
  then have "fst (set_track_power_run env u enabled epoch s) = (if enabled then s else preempt_ordinary_commands s)"
    by (auto simp: set_track_power_run_def)
  then show ?thesis using preempted_contract by simp
next
  case False
  then have epoch: "enabled \<Longrightarrow> ctl_epoch s = epoch" and ok: "check_command_allowed_err env = None" by auto
  show ?thesis
  proof (cases "se_reply env")
    case None
    show ?thesis
      by (rule contract_call [where c = "(SetTrackPowerCall enabled, True)"])
         (use epoch ok None in \<open>auto simp: set_track_power_run_def observe_station_command_def Let_def
            intro: epoch_moves_bool epoch_movesI\<close>)
  next
    case (Some e)
    show ?thesis
      by (rule contract_call [where c = "(SetTrackPowerCall enabled, False)"])
         (use epoch ok Some in \<open>auto simp: set_track_power_run_def observe_station_command_def Let_def
            intro: epoch_movesI\<close>)
  qed
qed

lemma emergency_stop_contract: "contract s (fst (emergency_stop_run env u s))"
proof (cases "check_command_allowed_err env")
  case (Some e)
  then show ?thesis using preempted_contract by (simp add: emergency_stop_run_def)
next
  case None
  then show ?thesis
    by (intro contract_call [where c = "(EmergencyStopCall, se_reply env = None)"])
       (auto simp: emergency_stop_run_def observe_station_command_def Let_def
          intro: epoch_moves_bool epoch_movesI split: option.splits)
qed

text \<open>The checks of a drive command followed by the call it makes when they pass.\<close>

lemma drive_contract:
  assumes checks: "drive_checks cfg env now stop lease loco sess epoch s = (s1, r)"
    and quiet: "r \<noteq> None \<Longrightarrow> s' = s1"
    and sent: "r = None \<Longrightarrow> ctl_calls s' = ctl_calls s1 @ [c] \<and> ctl_estop s' = ctl_estop s1 \<and>
      ctl_epoch s' = ctl_epoch s1 \<and> ctl_db s' = ctl_db s1"
    and drive: "drive_call (fst c) \<Longrightarrow> \<not> stop" and plain: "\<And>b. latch_step b c = b"
  shows "contract s s'"
proof -
  note keeps = drive_checks_keeps [OF checks]
  obtain k where "k \<le> 2" "ctl_epoch s1 = ctl_epoch s + of_nat k" using keeps by blast
  then have e: "epoch_moves s s1" unfolding epoch_moves_def by (intro exI [of _ k]) simp
  show ?thesis
  proof (cases r)
    case None
    have "\<not> ctl_estop s" if "drive_call (fst c)"
      using drive_checks_passed(2) [OF checks [unfolded None] drive [OF that]] by blast
    then show ?thesis
      using keeps sent [OF None] e plain
      by (intro contract_call [of s' s c]) (auto simp: epoch_moves_def)
  next
    case (Some err)
    then show ?thesis using quiet keeps e by (intro contract_quiet) simp_all
  qed
qed

lemma throttle_contract: "contract s (fst (throttle_run cfg env now u sess loco lease speed d l epoch s))"
proof -
  obtain s1 r where c: "drive_checks cfg env now (speed = 0) lease loco (s_id sess) epoch s = (s1, r)"
    by fastforce
  show ?thesis
    by (rule drive_contract [OF c, where c = "(SetLocoSpeedCall (l_dcc_address l) speed d, se_reply env = None)"])
       (auto simp: throttle_run_def c observe_station_command_def split: option.splits)
qed

lemma function_contract: "contract s (fst (function_run cfg env now sess loco lease fn on l epoch s))"
proof -
  obtain s1 r where c: "drive_checks cfg env now False lease loco (s_id sess) epoch s = (s1, r)"
    by fastforce
  show ?thesis
    by (rule drive_contract [OF c, where c = "(SetLocoFunctionCall (l_dcc_address l) fn on, se_reply env = None)"])
       (auto simp: function_run_def c observe_station_command_def split: option.splits)
qed

lemma stop_run_contract: "contract s (fst (stop_run env l reason loco release_at s))"
proof (cases "check_command_allowed_err env")
  case (Some e)
  then show ?thesis using preempted_contract by (simp add: stop_run_def)
next
  case None
  then show ?thesis
    by (intro contract_call [where c = "(SetLocoSpeedCall (l_dcc_address loco) 0
          (stop_direction (cl_locomotive_id l) (preempt_ordinary_commands s)), se_reply env = None)"])
       (auto simp: stop_run_def observe_station_command_def Let_def intro: epoch_movesI split: option.splits)
qed

lemma stop_begin_contract: "contract s (fst (stop_begin cfg now l reason s))"
proof (cases "get_locomotive (cl_locomotive_id l) s")
  case (Inr loco)
  show ?thesis
  proof (cases "mark_lease_stopping_for_session (cl_id l) (cl_session_id l) reason
      (now + cc_stop_grace cfg) (ctl_db s)")
    case marked: (Inr db)
    then show ?thesis using mark_leases Inr
      by (intro contract_quiet) (simp_all add: stop_begin_def Let_def epoch_movesI)
  qed (simp add: stop_begin_def Let_def Inr)
qed (simp add: stop_begin_def)

lemma takeover_transfer_contract: "contract s (fst (takeover_transfer cfg env renewed sess lease l loco s))"
proof (cases "check_command_allowed_err env")
  case (Some e)
  then show ?thesis using preempted_contract by (simp add: takeover_transfer_def)
next
  case None
  let ?c = "(SetLocoSpeedCall (l_dcc_address loco) 0
      (stop_direction (cl_locomotive_id l) (preempt_ordinary_commands s)), se_reply env = None)"
  let ?t = "transfer_active_lease lease (s_user_id sess) (cl_session_id l) (s_id sess)
      renewed (renewed + cc_lease_ttl cfg) (ctl_db s)"
  show ?thesis
  proof (rule contract_call [of _ _ ?c])
    let ?r = "fst (takeover_transfer cfg env renewed sess lease l loco s)"
    have r: "ctl_calls ?r = ctl_calls s @ [?c] \<and> ctl_estop ?r = ctl_estop s \<and> ctl_epoch ?r = ctl_epoch s + 1 \<and>
        (ctl_db ?r = ctl_db s \<or> (\<exists>l'. ?t = Inr (l', ctl_db ?r)))"
      by (cases "se_reply env"; cases ?t)
         (auto simp: takeover_transfer_def observe_station_command_def Let_def None)
    then show "ctl_calls ?r = ctl_calls s @ [?c]" "epoch_moves s ?r" by (simp_all add: epoch_movesI)
    show "latch_step (ctl_estop s) ?c \<Longrightarrow> ctl_estop ?r" using r by simp
    show "lease_inv (ctl_db s) \<Longrightarrow> lease_inv (ctl_db ?r) \<and> lease_forward (ctl_db s) (ctl_db ?r)"
      using r transfer_leases by auto
  qed simp
qed

lemma takeover_contract: "contract s (fst (takeover_run cfg env now renewed sess lease l loco s))"
  by (auto simp: takeover_run_def takeover_transfer_contract split: sum.split option.split)

lemma run_ticket_contract: "contract s (fst (run_ticket cfg env now renewed t s))"
  by (cases t)
     (simp_all add: set_track_power_contract emergency_stop_contract throttle_contract function_contract
        takeover_contract stop_run_contract)

lemma begin_request_contract: "contract s (fst (begin_request cfg now req s))"
  by (cases req) (auto simp: stop_begin_contract release_begin_def split: sum.split)

lemma observe_contract: "contract s (observe_safety_status st s)"
proof (rule contract_quiet)
  obtain k where "k \<le> 2" "ctl_epoch (observe_safety_status st s) = ctl_epoch s + of_nat k"
    using observe_epoch_le by blast
  then show "epoch_moves s (observe_safety_status st s)" unfolding epoch_moves_def by (intro exI [of _ k]) simp
qed simp_all

lemma status_event_contract: "contract s (publish_station_status_changes cfg st s)"
  using observe_contract [of s st]
  by (simp add: contract_def latch_ok_def epoch_moves_def)

lemma station_status_contract: "contract s (fst (station_status env s))"
  by (auto simp: station_status_def Let_def observe_contract split: option.split sum.split)

lemma acquire_contract: "contract s (fst (acquire cfg i now u sess loco s))"
proof (cases "fst (acquire cfg i now u sess loco s) = s")
  case False
  then obtain l db where "create_lease l (ctl_db s) = Inr db"
    "fst (acquire cfg i now u sess loco s) = publish (ControlAcquired l) (s\<lparr> ctl_db := db \<rparr>)"
    unfolding acquire_def Let_def by (auto split: if_splits sum.splits)
  then show ?thesis using create_lease_inv by (intro contract_quiet) (simp_all add: epoch_movesI)
qed simp

lemma heartbeat_contract: "contract s (fst (heartbeat cfg now i sess s))"
proof (cases "heartbeat_lease i (s_id sess) now (now + cc_lease_ttl cfg) (ctl_db s)")
  case (Inr db)
  then show ?thesis using heartbeat_leases
    by (intro contract_quiet) (simp_all add: heartbeat_def epoch_movesI)
qed (simp add: heartbeat_def)

lemma release_ready_contract: "contract s (release_ready l s)"
proof (cases "release_lease (cl_id l) [] (cl_release_reason l) (ctl_db s)")
  case (Inr db)
  then show ?thesis using release_leases
    by (intro contract_quiet) (simp_all add: release_ready_def epoch_movesI)
qed (simp add: release_ready_def)

lemma contract_operation: "(\<And>s. contract s (f s)) \<Longrightarrow> control_operation f"
  by unfold_locales (auto simp: contract_def)

interpretation run_op: control_operation "\<lambda>s. fst (run_ticket cfg env now renewed t s)" for cfg env now renewed t
  by (rule contract_operation) (rule run_ticket_contract)

interpretation request_op: control_operation "\<lambda>s. fst (begin_request cfg now req s)" for cfg now req
  by (rule contract_operation) (rule begin_request_contract)

interpretation event_op: control_operation "publish_station_status_changes cfg st" for cfg st
  by (rule contract_operation) (rule status_event_contract)

interpretation query_op: control_operation "\<lambda>s. fst (station_status env s)" for env
  by (rule contract_operation) (rule station_status_contract)

interpretation acquire_op: control_operation "\<lambda>s. fst (acquire cfg i now u sess loco s)" for cfg i now u sess loco
  by (rule contract_operation) (rule acquire_contract)

interpretation heartbeat_op: control_operation "\<lambda>s. fst (heartbeat cfg now i sess s)" for cfg now i sess
  by (rule contract_operation) (rule heartbeat_contract)

interpretation release_op: control_operation "release_ready l" for l
  by (rule contract_operation) (rule release_ready_contract)

text \<open>Every step is one of these operations, or none.\<close>

lemma control_step_ok:
  assumes "control_step cfg w w'" and "latch_ok (fst w) \<and> lease_inv (ctl_db (fst w))"
  shows "latch_ok (fst w') \<and> lease_inv (ctl_db (fst w'))"
  using assms
proof (cases rule: control_step.cases)
  case (request now req s s' r ts)
  then show ?thesis using request_op.keeps_ok [of s cfg now req] assms(2) by simp
next
  case (run t ts env now renewed s s' r)
  then show ?thesis using run_op.keeps_ok [of s cfg env now renewed t] assms(2) by simp
next
  case (query env s s' r ts)
  then show ?thesis using query_op.keeps_ok [of s env] assms(2) by simp
next
  case (acquired i now u sess loco s s' r ts)
  then show ?thesis using acquire_op.keeps_ok [of s cfg i now u sess loco] assms(2) by simp
next
  case (heartbeat now i sess s s' r ts)
  then show ?thesis using heartbeat_op.keeps_ok [of s cfg now i sess] assms(2) by simp
qed (use assms(2) event_op.keeps_ok release_op.keeps_ok in simp_all)

lemma control_reachable_ok:
  assumes "lease_inv db" and "control_reachable cfg db w"
  shows "latch_ok (fst w) \<and> lease_inv (ctl_db (fst w))"
  using assms(2)
proof induction
  case start
  then show ?case using assms(1) by (simp add: new_control_service_def latch_ok_def)
next
  case (step w w')
  then show ?case using control_step_ok by blast
qed

text \<open>
  C1: the emergency latch. In every interleaving of requests, gate grants, station reports and
  sweeps, once the station has accepted an emergency stop, the server sends it no non-zero speed
  and no function command until the station has accepted a power-on.
\<close>

theorem emergency_latch:
  assumes "lease_inv db" and "control_reachable cfg db (s, ts)"
  shows "drive_safe False (ctl_calls s)"
  using control_reachable_ok [OF assms] by (simp add: latch_ok_def)

subsection \<open>What a command that reaches the station has passed\<close>

lemma renew_accepts:
  assumes "lease_inv db" and "renew_active_lease_for_command i loco sess now e db = Inr db'"
  shows "\<exists>l. get_lease i db = Inr l \<and> cl_session_id l = sess \<and> cl_locomotive_id l = loco \<and>
     cl_state l = LeaseActive \<and> now < cl_expires_at l + second \<and>
     get_lease i db' = Inr (l\<lparr> cl_renewed_at := now, cl_expires_at := e \<rparr>)"
proof -
  have "update_where (renew_cond i loco sess now) (renew_row now e) db = Inr db'"
    using assms(2) by (simp add: renew_active_lease_for_command_def)
  from update_where_Inr [OF assms(1) this, of i] obtain l where
    l: "get_lease i db = Inr l" "renew_cond i loco sess now l" "get_lease i db' = Inr (renew_row now e l)"
    by (auto simp: renew_cond_def heartbeat_cond_def renew_row_def)
  then have "now < cl_expires_at l + second"
    using time_text_slack [of now "cl_expires_at l"] by (simp add: renew_cond_def heartbeat_cond_def less_imp_le)
  then show ?thesis using l by (auto simp: renew_cond_def heartbeat_cond_def renew_row_def)
qed


subsection \<open>Preemption\<close>

text \<open>Tickets whose run always preempts the ordinary commands.\<close>

fun safety_ticket :: "ticket \<Rightarrow> bool" where
  "safety_ticket (TrackPowerTicket _ enabled _) \<longleftrightarrow> \<not> enabled"
| "safety_ticket (EmergencyStopTicket _) \<longleftrightarrow> True"
| "safety_ticket (ThrottleTicket _ _ _ _ speed _ _ _) \<longleftrightarrow> speed = 0"
| "safety_ticket (FunctionTicket _ _ _ _ _ _ _) \<longleftrightarrow> False"
| "safety_ticket (TakeoverTicket _ _ _ _) \<longleftrightarrow> False"
| "safety_ticket (StopTicket _ _ _ _) \<longleftrightarrow> True"

text \<open>\<open>n\<close> steps, and whether a safety command had the gate in one of them.\<close>

inductive control_run :: "control_config \<Rightarrow> nat \<Rightarrow> bool \<Rightarrow> world \<Rightarrow> world \<Rightarrow> bool" for cfg where
  none: "control_run cfg 0 False w w"
| other: "control_run cfg n b w w' \<Longrightarrow> control_step cfg w' w'' \<Longrightarrow> control_run cfg (Suc n) b w w''"
| safety: "control_run cfg n b w (s, ts) \<Longrightarrow> t \<in> set ts \<Longrightarrow> safety_ticket t \<Longrightarrow>
    run_ticket cfg env now renewed t s = (s', r) \<Longrightarrow> control_run cfg (Suc n) True w (s', remove1 t ts)"

lemma control_step_epoch:
  assumes "control_step cfg w w'"
  shows "epoch_moves (fst w) (fst w')"
  using assms
proof (cases rule: control_step.cases)
  case (request now req s s' r ts)
  then show ?thesis using request_op.moves_epoch [of s cfg now req] by simp
next
  case (run t ts env now renewed s s' r)
  then show ?thesis using run_op.moves_epoch [of s cfg env now renewed t] by simp
next
  case (query env s s' r ts)
  then show ?thesis using query_op.moves_epoch [of s env] by simp
next
  case (acquired i now u sess loco s s' r ts)
  then show ?thesis using acquire_op.moves_epoch [of s cfg i now u sess loco] by simp
next
  case (heartbeat now i sess s s' r ts)
  then show ?thesis using heartbeat_op.moves_epoch [of s cfg now i sess] by simp
qed (use event_op.moves_epoch release_op.moves_epoch in \<open>simp_all add: epoch_movesI\<close>)

lemma bool_step: "\<exists>k\<ge>1. k \<le> 3 \<and> (x :: 64 word) + 1 + of_bool b = x + of_nat k"
  by (cases b) (auto intro: exI [of _ 1] exI [of _ 2])

lemma safety_run_epoch:
  assumes "safety_ticket t"
  shows "\<exists>k\<ge>1. k \<le> 3 \<and> ctl_epoch (fst (run_ticket cfg env now renewed t s)) = ctl_epoch s + of_nat k"
proof -
  have one: "\<exists>k\<ge>1. k \<le> 3 \<and> (x :: 64 word) + 1 = x + of_nat k" for x by (intro exI [of _ 1]) simp
  show ?thesis
  proof (cases t)
    case (TrackPowerTicket u enabled epoch)
    then show ?thesis using assms one bool_step
      by (auto simp: set_track_power_run_def Let_def observe_station_command_def split: option.split)
  next
    case (EmergencyStopTicket u)
    then show ?thesis using one bool_step
      by (auto simp: emergency_stop_run_def Let_def observe_station_command_def split: option.split)
  next
    case (ThrottleTicket u sess loco lease speed d l epoch)
    have e: "ctl_epoch s1 = ctl_epoch s + 1"
      if "drive_checks cfg env now True lease loco (s_id sess) epoch s = (s1, r)" for s1 r
      using that unfolding drive_checks_def Let_def by (auto split: option.splits sum.splits)
    obtain s1 r where c: "drive_checks cfg env now True lease loco (s_id sess) epoch s = (s1, r)" by fastforce
    then show ?thesis using ThrottleTicket assms one e [OF c]
      by (auto simp: throttle_run_def observe_station_command_def split: option.split)
  next
    case (StopTicket l reason loco release_at)
    then show ?thesis using one
      by (auto simp: stop_run_def Let_def observe_station_command_def split: option.split)
  qed (use assms in simp_all)
qed

lemma control_run_epoch:
  "control_run cfg n b w w' \<Longrightarrow>
     \<exists>k. (b \<longrightarrow> 1 \<le> k) \<and> k \<le> 3 * n \<and> ctl_epoch (fst w') = ctl_epoch (fst w) + of_nat k"
proof (induction rule: control_run.induct)
  case (none w)
  then show ?case by simp
next
  case (other n b w w' w'')
  then obtain k where k: "b \<longrightarrow> 1 \<le> k" "k \<le> 3 * n" "ctl_epoch (fst w') = ctl_epoch (fst w) + of_nat k" by blast
  obtain j where j: "j \<le> 3" "ctl_epoch (fst w'') = ctl_epoch (fst w') + of_nat j"
    using control_step_epoch [OF other.hyps(2)] by (auto simp: epoch_moves_def)
  show ?case by (rule exI [of _ "k + j"]) (use k j in auto)
next
  case (safety n b w s ts t env now renewed s' r)
  then obtain k where k: "k \<le> 3 * n" "ctl_epoch s = ctl_epoch (fst w) + of_nat k" by auto
  obtain j where j: "1 \<le> j" "j \<le> 3" "ctl_epoch s' = ctl_epoch s + of_nat j"
    using safety_run_epoch [OF safety.hyps(3), of cfg env now renewed s] safety.hyps(4) by auto
  show ?case by (rule exI [of _ "k + j"]) (use k j in auto)
qed

lemma epoch_differs:
  assumes "1 \<le> k" and "k < 2 ^ 64"
  shows "(x :: 64 word) + of_nat k \<noteq> x"
proof
  assume "x + of_nat k = x"
  then have "(of_nat k :: 64 word) = 0" by simp
  then have "unat (of_nat k :: 64 word) = 0" by simp
  then show False using assms by (simp add: unat_of_nat take_bit_eq_mod)
qed

lemma preempted:
  assumes "control_run cfg n True (s, ts) (s', ts')" and "3 * n < 2 ^ 64"
  shows "ctl_epoch s' \<noteq> ctl_epoch s"
proof -
  obtain k where "1 \<le> k" "k \<le> 3 * n" "ctl_epoch s' = ctl_epoch s + of_nat k"
    using control_run_epoch [OF assms(1)] by auto
  then show ?thesis using epoch_differs [of k "ctl_epoch s"] assms(2) by simp
qed

text \<open>
  C8: a safety command preempts. If a stop, an emergency stop, a power-off or the stop of an
  expired lease has had the gate between the moment an ordinary command read the epoch and the
  moment it gets the gate itself, the ordinary command is refused and changes nothing; the
  64-bit epoch cannot have come round in fewer than six billion billion operations.
\<close>

theorem ordinary_command_preempted:
  assumes "control_run cfg n True (s, ts) (s', ts')" and "3 * n < 2 ^ 64" and "speed \<noteq> 0"
  shows "throttle_run cfg env now u sess loco lease speed d l (ctl_epoch s) s' = (s', Some ErrSafetyPreempted) \<and>
    function_run cfg env now sess loco lease fn on l (ctl_epoch s) s' = (s', Some ErrSafetyPreempted) \<and>
    set_track_power_run env u True (ctl_epoch s) s' = (s', Some ErrSafetyPreempted)"
  using preempted [OF assms(1,2)] assms(3)
  by (simp_all add: throttle_run_def function_run_def drive_checks_def set_track_power_run_def)

subsection \<open>Take-over\<close>

lemma transfer_accepts:
  assumes "lease_inv db" and "transfer_active_lease i user from to now e db = Inr (l', db')"
  shows "\<exists>l. get_lease i db = Inr l \<and> cl_user_id l = user \<and> cl_session_id l = from \<and>
     l' = l\<lparr> cl_renewed_at := now, cl_expires_at := e, cl_session_id := to \<rparr> \<and> get_lease i db' = Inr l'"
proof -
  obtain l0 where u: "update_where (transfer_cond i user from now) (transfer_row to now e) db = Inr db'"
    and l0: "l0 \<in> set (ld_leases db)" "transfer_cond i user from now l0" "l' = transfer_row to now e l0"
    using transfer_active_lease_Inr [OF assms(2)] by blast
  from update_where_Inr [OF assms(1) u, of i] obtain l where
    l: "get_lease i db = Inr l" "transfer_cond i user from now l" "get_lease i db' = Inr (transfer_row to now e l)"
    by (auto simp: transfer_cond_def heartbeat_cond_def transfer_row_def renew_row_def)
  have "l = l0" using l(1) l0(1,2) get_lease_Inr [OF assms(1)]
    by (auto simp: transfer_cond_def heartbeat_cond_def intro: lease_inv_unique [OF assms(1)])
  then show ?thesis using l l0(3) by (auto simp: transfer_cond_def heartbeat_cond_def transfer_row_def renew_row_def)
qed

lemma renew_other_session:
  assumes "lease_inv db" and "get_lease i db = Inr l" and "cl_session_id l \<noteq> sess"
  shows "renew_active_lease_for_command i loco sess now e db = Inl ErrNotFound"
proof (cases "renew_active_lease_for_command i loco sess now e db")
  case (Inl err)
  then show ?thesis by (simp add: renew_active_lease_for_command_def update_where_def split: if_splits)
next
  case (Inr db')
  then show ?thesis using renew_accepts [OF assms(1) Inr] assms(2,3) by simp
qed


subsection \<open>The sweep\<close>

lemma mark_row:
  assumes inv: "lease_inv db" and l: "l \<in> set (ld_leases db)" "cl_state l = LeaseActive"
  obtains db' where "mark_lease_stopping_for_session (cl_id l) (cl_session_id l) reason t db = Inr db'"
    and "\<And>r. r \<in> set (ld_leases db) \<Longrightarrow> cl_id r \<noteq> cl_id l \<Longrightarrow> r \<in> set (ld_leases db')"
    and "get_lease (cl_id l) db' = Inr (stopping_row reason t l)" and "ld_locomotives db' = ld_locomotives db"
proof -
  let ?P = "\<lambda>r. cl_id r = cl_id l \<and> cl_session_id r = cl_session_id l \<and> cl_state r = LeaseActive"
  let ?db = "db\<lparr> ld_leases := map (\<lambda>r. if ?P r then stopping_row reason t r else r) (ld_leases db) \<rparr>"
  have u: "update_where ?P (stopping_row reason t) db = Inr ?db" using l by (auto simp: update_where_def)
  from update_where_Inr [OF inv u, of "cl_id l"] get_lease_Inr [OF inv, of "cl_id l" l] l
  have "get_lease (cl_id l) ?db = Inr (stopping_row reason t l)" by (auto simp: stopping_row_def)
  moreover have "r \<in> set (ld_leases ?db)" if "r \<in> set (ld_leases db)" "cl_id r \<noteq> cl_id l" for r
    using that by (auto intro!: image_eqI [of _ _ r])
  ultimately show ?thesis
    using u by (intro that [of ?db]) (simp_all add: mark_lease_stopping_for_session_def)
qed

lemma locomotive_of_lease:
  assumes "lease_inv (ctl_db s)" and "l \<in> set (ld_leases (ctl_db s))"
  shows "\<exists>loco. get_locomotive (cl_locomotive_id l) s = Inr loco"
proof -
  have "\<exists>x\<in>set (ld_locomotives (ctl_db s)). l_id x = cl_locomotive_id l"
    using assms unfolding lease_inv_def by (metis imageE)
  then have "find (\<lambda>x. l_id x = cl_locomotive_id l) (ld_locomotives (ctl_db s)) \<noteq> None"
    by (auto simp: find_None_iff)
  then show ?thesis by (auto simp: get_locomotive_def)
qed

text \<open>What one iteration of the first loop does when the station answers.\<close>

lemma expire_lease_active:
  assumes inv: "lease_inv (ctl_db s)" and l: "l \<in> set (ld_leases (ctl_db s))" "cl_state l = LeaseActive"
    and ok: "check_command_allowed (se_health env) = None" "se_reply env = None"
    and loco: "get_locomotive (cl_locomotive_id l) s = Inr loco"
  shows "\<exists>d. ctl_calls (expire_lease cfg env now l s) = ctl_calls s @ [(SetLocoSpeedCall (l_dcc_address loco) 0 d, True)]"
    and "get_lease (cl_id l) (ctl_db (expire_lease cfg env now l s)) =
      Inr (stopping_row ''heartbeat_timeout'' (now + cc_stop_grace cfg) l)"
    and "\<And>r. r \<in> set (ld_leases (ctl_db s)) \<Longrightarrow> cl_id r \<noteq> cl_id l \<Longrightarrow>
      r \<in> set (ld_leases (ctl_db (expire_lease cfg env now l s)))"
    and "ld_locomotives (ctl_db (expire_lease cfg env now l s)) = ld_locomotives (ctl_db s)"
    and "lease_inv (ctl_db (expire_lease cfg env now l s))"
proof -
  obtain db' where db': "mark_lease_stopping_for_session (cl_id l) (cl_session_id l) ''heartbeat_timeout''
      (now + cc_stop_grace cfg) (ctl_db s) = Inr db'"
    and keep: "\<And>r. r \<in> set (ld_leases (ctl_db s)) \<Longrightarrow> cl_id r \<noteq> cl_id l \<Longrightarrow> r \<in> set (ld_leases db')"
    and look: "get_lease (cl_id l) db' = Inr (stopping_row ''heartbeat_timeout'' (now + cc_stop_grace cfg) l)"
    and locos: "ld_locomotives db' = ld_locomotives (ctl_db s)"
    using mark_row [OF inv l] by metis
  have e: "expire_lease cfg env now l s =
      fst (stop_run env l ''heartbeat_timeout'' loco (now + cc_stop_grace cfg) (s\<lparr> ctl_db := db' \<rparr>))"
    by (simp add: expire_lease_def stop_begin_def loco db' Let_def)
  have "ctl_db (expire_lease cfg env now l s) = db'"
    by (simp add: e stop_run_def Let_def observe_station_command_def ok check_command_allowed_err_def)
  then show "get_lease (cl_id l) (ctl_db (expire_lease cfg env now l s)) =
      Inr (stopping_row ''heartbeat_timeout'' (now + cc_stop_grace cfg) l)"
    "\<And>r. r \<in> set (ld_leases (ctl_db s)) \<Longrightarrow> cl_id r \<noteq> cl_id l \<Longrightarrow>
      r \<in> set (ld_leases (ctl_db (expire_lease cfg env now l s)))"
    "ld_locomotives (ctl_db (expire_lease cfg env now l s)) = ld_locomotives (ctl_db s)"
    "lease_inv (ctl_db (expire_lease cfg env now l s))"
    using look keep locos mark_leases [OF inv db'] by auto
  show "\<exists>d. ctl_calls (expire_lease cfg env now l s) = ctl_calls s @ [(SetLocoSpeedCall (l_dcc_address loco) 0 d, True)]"
    by (simp add: e stop_run_def Let_def observe_station_command_def ok check_command_allowed_err_def)
qed

lemma expire_lease_contract: "contract s (expire_lease cfg env now l s)"
proof (cases "get_locomotive (cl_locomotive_id l) s")
  case (Inr loco)
  show ?thesis
  proof (cases "mark_lease_stopping_for_session (cl_id l) (cl_session_id l) ''heartbeat_timeout''
      (now + cc_stop_grace cfg) (ctl_db s)")
    case marked: (Inr db)
    let ?s = "s\<lparr> ctl_db := db \<rparr>"
    have e: "expire_lease cfg env now l s = fst (stop_run env l ''heartbeat_timeout'' loco (now + cc_stop_grace cfg) ?s)"
      by (simp add: expire_lease_def stop_begin_def Inr marked Let_def)
    have "ctl_db (fst (stop_run env l ''heartbeat_timeout'' loco (now + cc_stop_grace cfg) ?s)) = db"
      by (simp add: stop_run_def Let_def observe_station_command_def split: option.split)
    then show ?thesis
      using stop_run_contract [of ?s env l "''heartbeat_timeout''" loco "now + cc_stop_grace cfg"] mark_leases [OF _ marked]
      unfolding e contract_def by (auto simp: latch_ok_def epoch_moves_def)
  qed (simp add: expire_lease_def stop_begin_def Inr Let_def)
qed (simp add: expire_lease_def stop_begin_def)

lemma expire_lease_calls: "set (ctl_calls s) \<subseteq> set (ctl_calls (expire_lease cfg env now l s))"
  by (auto simp: expire_lease_def stop_begin_def stop_run_def observe_station_command_def Let_def
      split: sum.split option.split)

lemma release_ready_calls [simp]: "ctl_calls (release_ready l s) = ctl_calls s"
  by (simp add: release_ready_def split: sum.split)

text \<open>Both loops keep the table well formed, move leases forward and lose no call.\<close>

definition sweep_keeps :: "control \<Rightarrow> control \<Rightarrow> bool" where
  "sweep_keeps s s' \<longleftrightarrow> lease_inv (ctl_db s') \<and> lease_forward (ctl_db s) (ctl_db s') \<and>
     set (ctl_calls s) \<subseteq> set (ctl_calls s')"

lemma sweep_keeps_fold:
  assumes "\<And>l s. lease_inv (ctl_db s) \<Longrightarrow> sweep_keeps s (f l s)"
  shows "lease_inv (ctl_db s) \<Longrightarrow> sweep_keeps s (fold f ls s)"
proof (induction ls arbitrary: s)
  case Nil
  then show ?case by (simp add: sweep_keeps_def)
next
  case (Cons l ls)
  have "sweep_keeps s (f l s)" using assms Cons.prems .
  moreover from this have "sweep_keeps (f l s) (fold f ls (f l s))" using Cons.IH by (simp add: sweep_keeps_def)
  ultimately show ?case by (auto simp: sweep_keeps_def intro: lease_forward_trans)
qed

lemma expire_keeps: "lease_inv (ctl_db s) \<Longrightarrow> sweep_keeps s (expire_lease cfg env now l s)"
  using expire_lease_contract [of s cfg env now l] expire_lease_calls
  by (auto simp: sweep_keeps_def contract_def)

lemma release_keeps: "lease_inv (ctl_db s) \<Longrightarrow> sweep_keeps s (release_ready l s)"
  using release_ready_contract [of s l] by (auto simp: sweep_keeps_def contract_def)

lemma expire_loop_keeps: "lease_inv (ctl_db s) \<Longrightarrow> sweep_keeps s (fold (expire_lease cfg env now) ls s)"
  by (rule sweep_keeps_fold) (rule expire_keeps)

lemma release_loop_keeps: "lease_inv (ctl_db s) \<Longrightarrow> sweep_keeps s (fold release_ready ls s)"
  by (rule sweep_keeps_fold) (rule release_keeps)

definition stopped :: "string \<Rightarrow> int \<Rightarrow> control \<Rightarrow> bool" where
  "stopped i addr s \<longleftrightarrow> (\<exists>d. (SetLocoSpeedCall addr 0 d, True) \<in> set (ctl_calls s)) \<and>
     (\<exists>l. get_lease i (ctl_db s) = Inr l \<and> cl_state l \<noteq> LeaseActive)"

lemma stopped_kept:
  assumes "lease_inv (ctl_db s)" and "stopped i addr s" and "sweep_keeps s s'"
  shows "stopped i addr s'"
proof -
  obtain l where l: "get_lease i (ctl_db s) = Inr l" "cl_state l \<noteq> LeaseActive"
    using assms(2) by (auto simp: stopped_def)
  have inv: "lease_inv (ctl_db s')" and fwd: "lease_forward (ctl_db s) (ctl_db s')"
    using assms(3) by (simp_all add: sweep_keeps_def)
  obtain l' where l': "l' \<in> set (ld_leases (ctl_db s'))" "cl_id l' = i" "state_rank (cl_state l) \<le> state_rank (cl_state l')"
    using fwd l(1) get_lease_Inr [OF assms(1)] unfolding lease_forward_def by metis
  then have "cl_state l' \<noteq> LeaseActive" using l(2) by (cases "cl_state l") auto
  then show ?thesis
    using assms(2,3) l' get_lease_Inr [OF inv] unfolding stopped_def sweep_keeps_def by blast
qed

lemma sweep_first_loop:
  assumes ok: "check_command_allowed (se_health env) = None" "se_reply env = None"
  shows "lease_inv (ctl_db s) \<Longrightarrow> distinct (map cl_id ls) \<Longrightarrow>
    \<forall>l\<in>set ls. l \<in> set (ld_leases (ctl_db s)) \<and> cl_state l = LeaseActive \<Longrightarrow>
    l \<in> set ls \<Longrightarrow> get_locomotive (cl_locomotive_id l) s = Inr loco \<Longrightarrow>
    stopped (cl_id l) (l_dcc_address loco) (fold (expire_lease cfg env now) ls s)"
proof (induction ls arbitrary: s)
  case Nil
  then show ?case by simp
next
  case (Cons x ls)
  let ?s = "expire_lease cfg env now x s"
  have x: "x \<in> set (ld_leases (ctl_db s))" "cl_state x = LeaseActive" using Cons.prems by simp_all
  obtain loco' where loco': "get_locomotive (cl_locomotive_id x) s = Inr loco'"
    using locomotive_of_lease [OF Cons.prems(1) x(1)] by blast
  note step = expire_lease_active [OF Cons.prems(1) x ok loco']
  show ?case
  proof (cases "l = x")
    case True
    then have "loco' = loco" using loco' Cons.prems(5) by simp
    then have "\<exists>d. (SetLocoSpeedCall (l_dcc_address loco) 0 d, True) \<in> set (ctl_calls ?s)"
      using step(1) [of cfg now] by auto
    then have "stopped (cl_id l) (l_dcc_address loco) ?s"
      using step(2) True by (simp add: stopped_def stopping_row_def)
    then show ?thesis
      using stopped_kept [OF step(5)] expire_loop_keeps [OF step(5)] by simp
  next
    case False
    have "cl_id x \<notin> cl_id ` set ls" using Cons.prems(2) by simp
    then have "cl_id r \<noteq> cl_id x" if "r \<in> set ls" for r using that by (metis imageI)
    then have "\<forall>r\<in>set ls. r \<in> set (ld_leases (ctl_db ?s)) \<and> cl_state r = LeaseActive"
      using Cons.prems(3) step(3) by simp
    moreover have "get_locomotive (cl_locomotive_id l) ?s = Inr loco"
      using Cons.prems(5) step(4) by (simp add: get_locomotive_def)
    ultimately show ?thesis using Cons.IH [OF step(5)] Cons.prems(2,4) False by simp
  qed
qed


subsection \<open>A concrete session\<close>

definition example_cfg :: control_config where
  "example_cfg = \<lparr> cc_lease_ttl = 10 * second, cc_stop_grace = 2 * second,
     cc_capabilities = \<lparr> cap_driver = ''sim'', cap_track_power = True, cap_locomotive_control = True,
       cap_functions = 29, cap_max_function_number = 28, cap_accessory_control = True, cap_feedback = True \<rparr>,
     cc_occupancy_provider = None \<rparr>"

definition example_env :: station_env where
  "example_env = \<lparr> se_health = None, se_status = None, se_reply = None \<rparr>"

definition ann :: user where "ann = \<lparr> u_id = ''ann'', u_role = RoleDriver \<rparr>"

definition session1 :: session where "session1 = \<lparr> s_id = ''s1'', s_user_id = ''ann'' \<rparr>"

definition session2 :: session where "session2 = \<lparr> s_id = ''s2'', s_user_id = ''ann'' \<rparr>"

text \<open>The track powered on, and a lease of the first session until second ten.\<close>

definition example_ctl :: control where
  "example_ctl = (new_control_service (example_held (10 * second)))
     \<lparr> ctl_power_known := True, ctl_power_on := True \<rparr>"

lemma example_ctl_inv: "lease_inv (ctl_db example_ctl)"
  by (simp add: example_ctl_def new_control_service_def example_held_inv)

lemmas example_eval = example_ctl_def new_control_service_def example_env_def example_held_def example_db_def
  example_lease_def example_loco_def session1_def session2_def ann_def example_cfg_def
  check_command_allowed_err_def check_command_allowed_def observe_station_command_def Let_def

definition run_stop :: control where
  "run_stop = fst (emergency_stop_run example_env ann (new_control_service example_db))"

text \<open>An emergency stop by Ann.\<close>

lemma run_stop_reachable: "control_reachable example_cfg example_db (run_stop, [])"
proof -
  let ?s = "new_control_service example_db" and ?t = "EmergencyStopTicket ann"
  have "control_step example_cfg (?s, []) (?s, [?t])"
    using control_step.request [of example_cfg 0 "ReqEmergencyStop ann" ?s ?s "Inr (Queued ?t)" "[]"]
    by (simp add: emergency_stop_begin_def ann_def)
  moreover have "control_step example_cfg (?s, [?t]) (run_stop, [])"
    using control_step.run [of ?t "[?t]" example_cfg example_env 0 0 ?s run_stop]
    by (simp add: run_stop_def prod_eq_iff)
  ultimately show ?thesis by (meson control_reachable.intros)
qed

theorem emergency_latch_witness:
  "(EmergencyStopCall, True) \<in> set (ctl_calls run_stop) \<and> drive_safe False (ctl_calls run_stop)"
proof
  show "(EmergencyStopCall, True) \<in> set (ctl_calls run_stop)"
    by (simp add: run_stop_def emergency_stop_run_def example_eval)
  have "lease_inv example_db" by (simp add: lease_inv_def example_db_def)
  then show "drive_safe False (ctl_calls run_stop)" using emergency_latch run_stop_reachable by blast
qed

definition example_throttle :: "control \<times> service_error option" where
  "example_throttle =
     throttle_run example_cfg example_env second ann session1 ''loco'' ''a'' 40 Forward example_loco 0 example_ctl"

lemma example_times: "time_text (10 * second) > time_text second" "\<not> time_text (10 * second) < time_text second"
  "time_text (10 * second) \<le> time_text (11 * second)"
  by (simp_all add: time_text_def)

lemma example_throttle_eval:
  "ctl_calls (fst example_throttle) = [(SetLocoSpeedCall 3 40 Forward, True)] \<and> snd example_throttle = None"
  using example_times(1)
  by (simp add: example_throttle_def throttle_run_def drive_checks_def ensure_track_power_known_def
      check_drive_allowed_def renew_active_lease_for_command_def update_where_def renew_cond_def
      heartbeat_cond_def example_eval)


theorem ordinary_command_preempted_witness:
  "throttle_run example_cfg example_env 0 ann session1 ''loco'' ''a'' 40 Forward example_loco 0 run_stop =
     (run_stop, Some ErrSafetyPreempted)"
proof -
  let ?s = "new_control_service example_db" and ?t = "EmergencyStopTicket ann"
  have "run_ticket example_cfg example_env 0 0 ?t ?s = (run_stop, snd (emergency_stop_run example_env ann ?s))"
    by (simp add: run_stop_def)
  then have "control_run example_cfg (Suc 0) True (?s, [?t]) (run_stop, remove1 ?t [?t])"
    by (intro control_run.safety [OF control_run.none]) simp_all
  from ordinary_command_preempted [OF this, of 40] show ?thesis by (simp add: new_control_service_def)
qed

definition example_takeover :: "control \<times> service_error option" where
  "example_takeover = takeover_run example_cfg example_env second second session2 ''a''
     (example_lease ''a'' ''ann'' ''s1'' (10 * second)) example_loco example_ctl"

lemma example_takeover_ok: "snd example_takeover = None"
  using example_times(1)
  by (simp add: example_takeover_def takeover_run_def takeover_transfer_def takeover_check_def get_lease_def
      transfer_active_lease_def update_where_def transfer_cond_def heartbeat_cond_def example_eval)



end
