(* ===== verification/Occupancy.thy ===== *)
theory Occupancy
  imports Service
begin

text \<open>
  Block occupancy: the values of \<^verbatim>\<open>internal/model/occupancy.go\<close>, the provider and mapping
  tables of \<^verbatim>\<open>internal/store/occupancy.go\<close>, and the occupancy service of
  \<^verbatim>\<open>internal/service/occupancy.go\<close>, which keeps the last observation of every sensor and
  derives the state of each block from the fresh ones. The sections the service runs under its
  mutex are the definitions; the published changes are a log. Metrics and the periodic goroutine
  that calls \<^verbatim>\<open>Recompute\<close> are left out.
\<close>

subsection \<open>Values\<close>

datatype occupancy_state = OccUnknown | OccFree | OccOccupied | OccOther string

fun occupancy_state_valid :: "occupancy_state \<Rightarrow> bool" where
  "occupancy_state_valid (OccOther _) = False"
| "occupancy_state_valid _ = True"

record occupant_ref =
  or_type :: string
  or_id :: string

record block_occupancy =
  bo_block_id :: string
  bo_state :: occupancy_state
  bo_occupant :: "occupant_ref option"
  bo_updated_at :: time

record block_occupancy_changed =
  bc_block_id :: string
  bc_state :: occupancy_state
  bc_occupant :: "occupant_ref option"
  bc_updated_at :: time
  bc_occupied :: bool

definition new_unknown_block_occupancy :: "string \<Rightarrow> time \<Rightarrow> block_occupancy" where
  "new_unknown_block_occupancy b now =
     \<lparr> bo_block_id = b, bo_state = OccUnknown, bo_occupant = None, bo_updated_at = now \<rparr>"

definition legacy_occupied :: "block_occupancy \<Rightarrow> bool" where
  "legacy_occupied o' \<longleftrightarrow> bo_state o' = OccOccupied"

definition changed_event :: "block_occupancy \<Rightarrow> block_occupancy_changed" where
  "changed_event o' =
     \<lparr> bc_block_id = bo_block_id o', bc_state = bo_state o', bc_occupant = bo_occupant o',
       bc_updated_at = bo_updated_at o', bc_occupied = legacy_occupied o' \<rparr>"

record occupancy_provider =
  op_id :: string
  op_type :: string
  op_priority :: int
  op_required :: bool
  op_stale_after :: duration
  op_freshness_required :: bool

record occupancy_sensor_mapping =
  om_provider_id :: string
  om_sensor_id :: string
  om_block_id :: string
  om_required :: "bool option"
  om_priority :: "int option"

record resolved_mapping =
  rm_provider_id :: string
  rm_sensor_id :: string
  rm_block_id :: string
  rm_required :: bool
  rm_priority :: int
  rm_stale_after :: duration

record occupancy_observation =
  ob_provider_id :: string
  ob_sensor_id :: string
  ob_state :: occupancy_state
  ob_sequence :: "64 word"
  ob_observed_at :: time
  ob_received_at :: time
  ob_occupant :: "occupant_ref option"

record sensor_occupancy_state =
  ss_provider_id :: string
  ss_sensor_id :: string
  ss_block_id :: string
  ss_state :: occupancy_state
  ss_sequence :: "64 word"
  ss_observed_at :: "time option"
  ss_received_at :: "time option"
  ss_occupant :: "occupant_ref option"
  ss_required :: bool
  ss_priority :: int
  ss_fresh :: bool
  ss_available :: bool

subsection \<open>Validation\<close>

datatype occupancy_problem =
    BlockIdRequired | ProviderIdRequired | ProviderTypeRequired string | ProviderPriority string
  | NegativeStaleAfter string | PositiveStaleAfter string
  | MappingProviderRequired | MappingSensorRequired | MappingBlockRequired | MappingPriority
  | MappingProviderMismatch string string
  | ObservationProviderRequired | ObservationSensorRequired | ObservationSequence
  | UnknownState occupancy_state | OccupantNotAllowed | OccupantIncomplete
  | EmptyBatch | DuplicateSensor

datatype occupancy_error = InvalidOccupancy occupancy_problem | OccupancyFailure service_error

definition validate_occupancy_value :: "occupancy_state \<Rightarrow> occupant_ref option \<Rightarrow> occupancy_problem option" where
  "validate_occupancy_value st oc =
     (if \<not> occupancy_state_valid st then Some (UnknownState st)
      else case oc of
             None \<Rightarrow> None
           | Some r \<Rightarrow>
               if st \<noteq> OccOccupied then Some OccupantNotAllowed
               else if blank (or_type r) \<or> blank (or_id r) then Some OccupantIncomplete
               else None)"

definition validate_block_occupancy :: "block_occupancy \<Rightarrow> occupancy_problem option" where
  "validate_block_occupancy b =
     (if blank (bo_block_id b) then Some BlockIdRequired
      else validate_occupancy_value (bo_state b) (bo_occupant b))"

definition validate_occupancy_provider :: "occupancy_provider \<Rightarrow> occupancy_problem option" where
  "validate_occupancy_provider p =
     (if blank (op_id p) then Some ProviderIdRequired
      else if blank (op_type p) then Some (ProviderTypeRequired (op_id p))
      else if op_priority p < 0 \<or> op_priority p > 100 then Some (ProviderPriority (op_id p))
      else if op_stale_after p < 0 then Some (NegativeStaleAfter (op_id p))
      else if op_freshness_required p \<and> op_stale_after p \<le> 0 then Some (PositiveStaleAfter (op_id p))
      else None)"

definition validate_occupancy_sensor_mapping :: "occupancy_sensor_mapping \<Rightarrow> occupancy_problem option" where
  "validate_occupancy_sensor_mapping m =
     (if blank (om_provider_id m) then Some MappingProviderRequired
      else if blank (om_sensor_id m) then Some MappingSensorRequired
      else if blank (om_block_id m) then Some MappingBlockRequired
      else case om_priority m of
             Some p \<Rightarrow> if p < 0 \<or> p > 100 then Some MappingPriority else None
           | None \<Rightarrow> None)"

definition validate_occupancy_observation :: "occupancy_observation \<Rightarrow> bool \<Rightarrow> occupancy_problem option" where
  "validate_occupancy_observation ob sequence_required =
     (if blank (ob_provider_id ob) then Some ObservationProviderRequired
      else if blank (ob_sensor_id ob) then Some ObservationSensorRequired
      else if sequence_required \<and> ob_sequence ob = 0 then Some ObservationSequence
      else validate_occupancy_value (ob_state ob) (ob_occupant ob))"

definition resolve_mapping :: "occupancy_sensor_mapping \<Rightarrow> occupancy_provider \<Rightarrow> occupancy_error + resolved_mapping" where
  "resolve_mapping m p =
     (case validate_occupancy_provider p of
        Some e \<Rightarrow> Inl (InvalidOccupancy e)
      | None \<Rightarrow>
          (case validate_occupancy_sensor_mapping m of
             Some e \<Rightarrow> Inl (InvalidOccupancy e)
           | None \<Rightarrow>
               if om_provider_id m \<noteq> op_id p
               then Inl (InvalidOccupancy (MappingProviderMismatch (om_provider_id m) (op_id p)))
               else Inr \<lparr> rm_provider_id = om_provider_id m, rm_sensor_id = om_sensor_id m,
                           rm_block_id = om_block_id m,
                           rm_required = (case om_required m of None \<Rightarrow> op_required p | Some r \<Rightarrow> r),
                           rm_priority = (case om_priority m of None \<Rightarrow> op_priority p | Some n \<Rightarrow> n),
                           rm_stale_after = op_stale_after p \<rparr>))"

subsection \<open>Providers and mappings in the store\<close>

record occupancy_db =
  odb_providers :: "occupancy_provider list"
  odb_mappings :: "occupancy_sensor_mapping list"
  odb_blocks :: "string list"

definition set_occupancy_provider :: "occupancy_provider \<Rightarrow> occupancy_db \<Rightarrow> occupancy_error + occupancy_db" where
  "set_occupancy_provider p db =
     (case validate_occupancy_provider p of
        Some e \<Rightarrow> Inl (InvalidOccupancy e)
      | None \<Rightarrow> Inr (db\<lparr> odb_providers := upsert op_id p (odb_providers db) \<rparr>))"

definition occupancy_provider_row :: "string \<Rightarrow> occupancy_db \<Rightarrow> occupancy_error + occupancy_provider" where
  "occupancy_provider_row i db =
     (case find (\<lambda>p. op_id p = i) (odb_providers db) of
        None \<Rightarrow> Inl (OccupancyFailure ErrNotFound) | Some p \<Rightarrow> Inr p)"

definition list_occupancy_providers :: "occupancy_db \<Rightarrow> occupancy_provider list" where
  "list_occupancy_providers db = sort_key op_id (odb_providers db)"

definition mapping_key :: "occupancy_sensor_mapping \<Rightarrow> string \<times> string" where
  "mapping_key m = (om_provider_id m, om_sensor_id m)"

text \<open>The foreign keys of the mapping table are enforced.\<close>

definition set_occupancy_sensor_mapping ::
  "occupancy_sensor_mapping \<Rightarrow> occupancy_db \<Rightarrow> occupancy_error + occupancy_db" where
  "set_occupancy_sensor_mapping m db =
     (case validate_occupancy_sensor_mapping m of
        Some e \<Rightarrow> Inl (InvalidOccupancy e)
      | None \<Rightarrow>
          if om_provider_id m \<notin> op_id ` set (odb_providers db) \<or> om_block_id m \<notin> set (odb_blocks db)
          then Inl (OccupancyFailure ErrDatabase)
          else Inr (db\<lparr> odb_mappings := upsert mapping_key m (odb_mappings db) \<rparr>))"

definition occupancy_sensor_mapping_row ::
  "string \<Rightarrow> string \<Rightarrow> occupancy_db \<Rightarrow> occupancy_error + occupancy_sensor_mapping" where
  "occupancy_sensor_mapping_row p s db =
     (case find (\<lambda>m. mapping_key m = (p, s)) (odb_mappings db) of
        None \<Rightarrow> Inl (OccupancyFailure ErrNotFound) | Some m \<Rightarrow> Inr m)"

definition list_occupancy_sensor_mappings :: "occupancy_db \<Rightarrow> occupancy_sensor_mapping list" where
  "list_occupancy_sensor_mappings db = sort_key mapping_key (odb_mappings db)"

definition resolve_occupancy_sensor_mapping ::
  "string \<Rightarrow> string \<Rightarrow> occupancy_db \<Rightarrow> occupancy_error + resolved_mapping" where
  "resolve_occupancy_sensor_mapping p s db =
     rbind (occupancy_provider_row p db) (\<lambda>provider.
       rbind (occupancy_sensor_mapping_row p s db) (\<lambda>mapping. resolve_mapping mapping provider))"

text \<open>The provider cache of the loop never changes what a lookup returns.\<close>

fun resolve_all ::
  "occupancy_db \<Rightarrow> occupancy_sensor_mapping list \<Rightarrow> occupancy_error + resolved_mapping list" where
  "resolve_all db [] = Inr []"
| "resolve_all db (m # ms) =
     rbind (occupancy_provider_row (om_provider_id m) db) (\<lambda>p.
       rbind (resolve_mapping m p) (\<lambda>r. rbind (resolve_all db ms) (\<lambda>rs. Inr (r # rs))))"

definition resolved_mappings :: "occupancy_db \<Rightarrow> occupancy_error + resolved_mapping list" where
  "resolved_mappings db = resolve_all db (list_occupancy_sensor_mappings db)"

subsection \<open>Aggregation\<close>

type_synonym source_key = "string \<times> string"

record occupancy_diagnostics =
  od_state_conflict :: bool
  od_identity_conflict :: bool

definition source_fresh :: "resolved_mapping \<Rightarrow> occupancy_observation \<Rightarrow> bool \<Rightarrow> time \<Rightarrow> bool" where
  "source_fresh c ob available now \<longleftrightarrow>
     available \<and> (rm_stale_after c \<le> 0 \<or> now - ob_received_at ob \<le> rm_stale_after c)"

definition source_key_of :: "resolved_mapping \<Rightarrow> source_key" where
  "source_key_of c = (rm_provider_id c, rm_sensor_id c)"

definition provider_available :: "(string, bool) gomap \<Rightarrow> string \<Rightarrow> bool" where
  "provider_available av p = (case map_of av p of None \<Rightarrow> True | Some b \<Rightarrow> b)"

text \<open>The local variables of the loop in \<^verbatim>\<open>aggregateBlock\<close>.\<close>

record aggregate =
  ag_occupied :: bool
  ag_has_required :: bool
  ag_required_missing :: bool
  ag_fresh_free :: bool
  ag_best_priority :: int
  ag_best_occupant :: "occupant_ref option"
  ag_identity_conflict :: bool

definition aggregate_start :: aggregate where
  "aggregate_start = \<lparr> ag_occupied = False, ag_has_required = False, ag_required_missing = False,
     ag_fresh_free = False, ag_best_priority = -1, ag_best_occupant = None, ag_identity_conflict = False \<rparr>"

text \<open>The observation of a source when it exists and is fresh.\<close>

definition fresh_observation ::
  "(source_key, occupancy_observation) gomap \<Rightarrow> (string, bool) gomap \<Rightarrow> time \<Rightarrow> resolved_mapping \<Rightarrow>
   occupancy_observation option" where
  "fresh_observation obs av now c =
     (case map_of obs (source_key_of c) of
        None \<Rightarrow> None
      | Some ob \<Rightarrow>
          if source_fresh c ob (provider_available av (rm_provider_id c)) now then Some ob else None)"

definition aggregate_occupant :: "resolved_mapping \<Rightarrow> occupant_ref option \<Rightarrow> aggregate \<Rightarrow> aggregate" where
  "aggregate_occupant c oc a =
     (case oc of
        None \<Rightarrow> a
      | Some r \<Rightarrow>
          if rm_priority c > ag_best_priority a
          then a\<lparr> ag_best_priority := rm_priority c, ag_best_occupant := Some r, ag_identity_conflict := False \<rparr>
          else if rm_priority c = ag_best_priority a \<and> ag_best_occupant a \<noteq> None \<and> ag_best_occupant a \<noteq> Some r
          then a\<lparr> ag_identity_conflict := True \<rparr>
          else a)"

definition aggregate_source ::
  "string \<Rightarrow> (source_key, occupancy_observation) gomap \<Rightarrow> (string, bool) gomap \<Rightarrow> time \<Rightarrow>
   resolved_mapping \<Rightarrow> aggregate \<Rightarrow> aggregate" where
  "aggregate_source b obs av now c a0 =
     (if rm_block_id c \<noteq> b then a0
      else
        (let a = (if rm_required c then a0\<lparr> ag_has_required := True \<rparr> else a0) in
         case fresh_observation obs av now c of
           None \<Rightarrow> (if rm_required c then a\<lparr> ag_required_missing := True \<rparr> else a)
         | Some ob \<Rightarrow>
             (case ob_state ob of
                OccUnknown \<Rightarrow> (if rm_required c then a\<lparr> ag_required_missing := True \<rparr> else a)
              | OccFree \<Rightarrow> a\<lparr> ag_fresh_free := True \<rparr>
              | OccOccupied \<Rightarrow> aggregate_occupant c (ob_occupant ob) (a\<lparr> ag_occupied := True \<rparr>)
              | OccOther _ \<Rightarrow> a)))"

definition aggregate_block ::
  "string \<Rightarrow> resolved_mapping list \<Rightarrow> (source_key, occupancy_observation) gomap \<Rightarrow> (string, bool) gomap \<Rightarrow>
   time \<Rightarrow> block_occupancy \<times> occupancy_diagnostics" where
  "aggregate_block b configs obs av now =
     (let a = fold (aggregate_source b obs av now) configs aggregate_start;
          r = new_unknown_block_occupancy b now;
          quiet = \<lparr> od_state_conflict = False, od_identity_conflict = False \<rparr>
      in if ag_occupied a
         then (r\<lparr> bo_state := OccOccupied,
                  bo_occupant := (if ag_identity_conflict a then None else ag_best_occupant a) \<rparr>,
               \<lparr> od_state_conflict = ag_fresh_free a, od_identity_conflict = ag_identity_conflict a \<rparr>)
         else if ag_required_missing a then (r, quiet)
         else if ag_has_required a \<or> ag_fresh_free a then (r\<lparr> bo_state := OccFree \<rparr>, quiet)
         else (r, quiet))"

subsection \<open>The service\<close>

record occupancy_service =
  oc_observations :: "(source_key, occupancy_observation) gomap"
  oc_states :: "(string, block_occupancy) gomap"
  oc_availability :: "(string, bool) gomap"
  oc_started_at :: time
  oc_diagnostics :: "(string, occupancy_diagnostics) gomap"
  oc_events :: "block_occupancy_changed list"

definition new_occupancy_service :: "occupancy_db \<Rightarrow> time \<Rightarrow> occupancy_service" where
  "new_occupancy_service db now =
     \<lparr> oc_observations = [],
       oc_states = fold (\<lambda>b. gm_put b (new_unknown_block_occupancy b now)) (odb_blocks db) [],
       oc_availability = [], oc_started_at = now, oc_diagnostics = [], oc_events = [] \<rparr>"

definition recompute_block ::
  "resolved_mapping list \<Rightarrow> time \<Rightarrow> string \<Rightarrow> occupancy_service \<Rightarrow> occupancy_service \<times> block_occupancy option" where
  "recompute_block configs now b s =
     (case aggregate_block b configs (oc_observations s) (oc_availability s) now of
        (fresh, diagnostics) \<Rightarrow>
          (let previous = gm_get (new_unknown_block_occupancy b now) (oc_states s) b;
               changed = bo_state previous \<noteq> bo_state fresh;
               state = fresh\<lparr> bo_updated_at := (if changed then now else bo_updated_at previous) \<rparr>
           in (s\<lparr> oc_diagnostics := gm_put b diagnostics (oc_diagnostics s),
                  oc_states := gm_put b state (oc_states s) \<rparr>,
               if changed then Some state else None)))"

text \<open>The loop over the affected blocks, in key order, and the publication of its changes.\<close>

fun recompute_blocks ::
  "resolved_mapping list \<Rightarrow> time \<Rightarrow> string list \<Rightarrow> occupancy_service \<Rightarrow> occupancy_service \<times> block_occupancy list" where
  "recompute_blocks configs now [] s = (s, [])"
| "recompute_blocks configs now (b # bs) s =
     (case recompute_block configs now b s of
        (s1, change) \<Rightarrow>
          (case recompute_blocks configs now bs s1 of
             (s2, changes) \<Rightarrow> (s2, case change of None \<Rightarrow> changes | Some c \<Rightarrow> c # changes)))"

definition publish_changes :: "block_occupancy list \<Rightarrow> occupancy_service \<Rightarrow> occupancy_service" where
  "publish_changes cs s = s\<lparr> oc_events := oc_events s @ map changed_event cs \<rparr>"

definition recompute_and_publish :: "resolved_mapping list \<Rightarrow> time \<Rightarrow> string list \<Rightarrow> occupancy_service \<Rightarrow> occupancy_service" where
  "recompute_and_publish configs now bs s =
     (case recompute_blocks configs now bs s of (s1, cs) \<Rightarrow> publish_changes cs s1)"

definition same_observation_payload :: "occupancy_observation \<Rightarrow> occupancy_observation \<Rightarrow> bool" where
  "same_observation_payload l r \<longleftrightarrow>
     ob_provider_id l = ob_provider_id r \<and> ob_sensor_id l = ob_sensor_id r \<and> ob_state l = ob_state r \<and>
     ob_sequence l = ob_sequence r \<and> ob_observed_at l = ob_observed_at r \<and> ob_occupant l = ob_occupant r"

definition mapping_for_source :: "resolved_mapping list \<Rightarrow> source_key \<Rightarrow> resolved_mapping option" where
  "mapping_for_source configs key = find (\<lambda>c. source_key_of c = key) configs"

definition observation_key :: "occupancy_observation \<Rightarrow> source_key" where
  "observation_key ob = (ob_provider_id ob, ob_sensor_id ob)"

text \<open>The first loop of \<^verbatim>\<open>ObserveBatch\<close>.\<close>

fun prepare_batch ::
  "resolved_mapping list \<Rightarrow> time \<Rightarrow> source_key list \<Rightarrow> occupancy_observation list \<Rightarrow>
   occupancy_error + (resolved_mapping \<times> occupancy_observation) list" where
  "prepare_batch configs now seen [] = Inr []"
| "prepare_batch configs now seen (ob # obs) =
     (case validate_occupancy_observation ob True of
        Some e \<Rightarrow> Inl (InvalidOccupancy e)
      | None \<Rightarrow>
          if observation_key ob \<in> set seen then Inl (InvalidOccupancy DuplicateSensor)
          else case mapping_for_source configs (observation_key ob) of
                 None \<Rightarrow> Inl (OccupancyFailure ErrNotFound)
               | Some m \<Rightarrow>
                   rbind (prepare_batch configs now (observation_key ob # seen) obs) (\<lambda>rest.
                     Inr ((m, ob\<lparr> ob_received_at := now \<rparr>) # rest)))"

text \<open>The sequence check under the mutex.\<close>

fun check_sequences ::
  "(source_key, occupancy_observation) gomap \<Rightarrow> (resolved_mapping \<times> occupancy_observation) list \<Rightarrow>
   service_error option" where
  "check_sequences known [] = None"
| "check_sequences known ((m, ob) # items) =
     (case map_of known (observation_key ob) of
        None \<Rightarrow> check_sequences known items
      | Some previous \<Rightarrow>
          if ob_sequence ob < ob_sequence previous then Some ErrOccupancySequenceStale
          else if ob_sequence ob = ob_sequence previous then
            (if same_observation_payload previous ob then check_sequences known items
             else Some ErrOccupancySequenceConflict)
          else check_sequences known items)"

text \<open>The loop that records the observations; it returns the affected blocks.\<close>

fun record_batch ::
  "(resolved_mapping \<times> occupancy_observation) list \<Rightarrow> (source_key, occupancy_observation) gomap \<Rightarrow>
   (source_key, occupancy_observation) gomap \<times> string list" where
  "record_batch [] known = (known, [])"
| "record_batch ((m, ob) # items) known =
     (if (case map_of known (observation_key ob) of None \<Rightarrow> False | Some p \<Rightarrow> ob_sequence ob = ob_sequence p)
      then record_batch items known
      else (case record_batch items (gm_put (observation_key ob) ob known) of
              (known', blocks) \<Rightarrow> (known', rm_block_id m # blocks)))"

definition observe_batch ::
  "occupancy_db \<Rightarrow> time \<Rightarrow> occupancy_observation list \<Rightarrow> occupancy_service \<Rightarrow>
   occupancy_error + occupancy_service" where
  "observe_batch db now obs s =
     (if obs = [] then Inl (InvalidOccupancy EmptyBatch)
      else rbind (resolved_mappings db) (\<lambda>configs.
        rbind (prepare_batch configs now [] obs) (\<lambda>items.
          case check_sequences (oc_observations s) items of
            Some e \<Rightarrow> Inl (OccupancyFailure e)
          | None \<Rightarrow>
              (case record_batch items (oc_observations s) of
                 (known, blocks) \<Rightarrow>
                   Inr (recompute_and_publish configs now (str_set blocks) (s\<lparr> oc_observations := known \<rparr>))))))"

definition block_state :: "string \<Rightarrow> occupancy_service \<Rightarrow> block_occupancy" where
  "block_state b s = gm_get (new_unknown_block_occupancy b (oc_started_at s)) (oc_states s) b"

definition provider_state ::
  "time \<Rightarrow> occupancy_service \<Rightarrow> resolved_mapping \<Rightarrow> sensor_occupancy_state" where
  "provider_state now s c =
     (let available = provider_available (oc_availability s) (rm_provider_id c);
          base = \<lparr> ss_provider_id = rm_provider_id c, ss_sensor_id = rm_sensor_id c,
                    ss_block_id = rm_block_id c, ss_state = OccUnknown, ss_sequence = 0,
                    ss_observed_at = None, ss_received_at = None, ss_occupant = None,
                    ss_required = rm_required c, ss_priority = rm_priority c, ss_fresh = False,
                    ss_available = available \<rparr>
      in case map_of (oc_observations s) (source_key_of c) of
           None \<Rightarrow> base
         | Some ob \<Rightarrow>
             base\<lparr> ss_state := ob_state ob, ss_sequence := ob_sequence ob,
                    ss_observed_at := Some (ob_observed_at ob), ss_received_at := Some (ob_received_at ob),
                    ss_occupant := ob_occupant ob, ss_fresh := source_fresh c ob available now \<rparr>)"

definition provider_states ::
  "occupancy_db \<Rightarrow> time \<Rightarrow> string \<Rightarrow> occupancy_service \<Rightarrow> occupancy_error + sensor_occupancy_state list" where
  "provider_states db now b s =
     rbind (resolved_mappings db) (\<lambda>configs.
       Inr (sort_key (\<lambda>x. (ss_provider_id x, ss_sensor_id x))
         (map (provider_state now s) (filter (\<lambda>c. rm_block_id c = b) configs))))"

text \<open>The loop of \<^verbatim>\<open>Recompute\<close> over the states of blocks that are no longer stored.\<close>

definition forget_removed_blocks :: "occupancy_db \<Rightarrow> occupancy_service \<Rightarrow> occupancy_service" where
  "forget_removed_blocks db s =
     s\<lparr> oc_states := filter (\<lambda>(b, _). b \<in> set (odb_blocks db)) (oc_states s),
        oc_diagnostics := filter (\<lambda>(b, _). \<not> (gm_has (oc_states s) b \<and> b \<notin> set (odb_blocks db)))
          (oc_diagnostics s) \<rparr>"

definition recompute :: "occupancy_db \<Rightarrow> time \<Rightarrow> occupancy_service \<Rightarrow> occupancy_error + occupancy_service" where
  "recompute db now s =
     rbind (resolved_mappings db) (\<lambda>configs.
       Inr (recompute_and_publish configs now (str_set (odb_blocks db)) (forget_removed_blocks db s)))"

definition set_provider_available ::
  "occupancy_db \<Rightarrow> time \<Rightarrow> string \<Rightarrow> bool \<Rightarrow> occupancy_service \<Rightarrow> occupancy_error + occupancy_service" where
  "set_provider_available db now p available s =
     rbind (resolved_mappings db) (\<lambda>configs.
       Inr (recompute_and_publish configs now
              (str_set (map rm_block_id (filter (\<lambda>c. rm_provider_id c = p) configs)))
              (s\<lparr> oc_availability := gm_put p available (oc_availability s),
                  oc_observations := (if available then oc_observations s
                    else filter (\<lambda>((p', _), _). p' \<noteq> p) (oc_observations s)) \<rparr>)))"

end
