(* ===== verification/OccupancyFacts.thy ===== *)
theory OccupancyFacts
  imports Occupancy
begin

text \<open>
  What the occupancy service guarantees: the aggregation is conservative (a block is free only
  on fresh evidence, and any fresh occupied source makes it occupied), the identity of an
  occupant is that of the best source, sequence numbers of a source never go back, and every
  change of a block's state is published exactly once.
\<close>

subsection \<open>What the sources of a block say\<close>

abbreviation says ::
  "string \<Rightarrow> (source_key, occupancy_observation) gomap \<Rightarrow> (string, bool) gomap \<Rightarrow> time \<Rightarrow> occupancy_state \<Rightarrow>
   resolved_mapping \<Rightarrow> bool" where
  "says b obs av now st c \<equiv> rm_block_id c = b \<and>
     (case fresh_observation obs av now c of None \<Rightarrow> False | Some ob \<Rightarrow> ob_state ob = st)"

abbreviation missing ::
  "string \<Rightarrow> (source_key, occupancy_observation) gomap \<Rightarrow> (string, bool) gomap \<Rightarrow> time \<Rightarrow> resolved_mapping \<Rightarrow> bool" where
  "missing b obs av now c \<equiv> rm_block_id c = b \<and> rm_required c \<and>
     (case fresh_observation obs av now c of None \<Rightarrow> True | Some ob \<Rightarrow> ob_state ob = OccUnknown)"

lemma aggregate_occupant_simps [simp]:
  "ag_occupied (aggregate_occupant c oc a) = ag_occupied a"
  "ag_has_required (aggregate_occupant c oc a) = ag_has_required a"
  "ag_required_missing (aggregate_occupant c oc a) = ag_required_missing a"
  "ag_fresh_free (aggregate_occupant c oc a) = ag_fresh_free a"
  by (simp_all add: aggregate_occupant_def split: option.split)

lemma aggregate_source_simps:
  "ag_occupied (aggregate_source b obs av now c a) \<longleftrightarrow> ag_occupied a \<or> says b obs av now OccOccupied c"
  "ag_fresh_free (aggregate_source b obs av now c a) \<longleftrightarrow> ag_fresh_free a \<or> says b obs av now OccFree c"
  "ag_has_required (aggregate_source b obs av now c a) \<longleftrightarrow> ag_has_required a \<or> rm_block_id c = b \<and> rm_required c"
  "ag_required_missing (aggregate_source b obs av now c a) \<longleftrightarrow> ag_required_missing a \<or> missing b obs av now c"
  by (auto simp: aggregate_source_def Let_def split: option.split occupancy_state.split)

lemma fold_flag:
  assumes "\<And>c a. flag (f c a) \<longleftrightarrow> flag a \<or> P c"
  shows "flag (fold f cs a) \<longleftrightarrow> flag a \<or> (\<exists>c\<in>set cs. P c)"
  by (induction cs arbitrary: a) (auto simp: assms)

lemmas aggregate_flags =
  fold_flag [where flag = ag_occupied, OF aggregate_source_simps(1)]
  fold_flag [where flag = ag_fresh_free, OF aggregate_source_simps(2)]
  fold_flag [where flag = ag_has_required, OF aggregate_source_simps(3)]
  fold_flag [where flag = ag_required_missing, OF aggregate_source_simps(4)]

text \<open>
  C27: the state of a block. It is occupied as soon as one fresh source says so; otherwise unknown
  when a required source is stale, absent, unavailable or undecided; otherwise free exactly when
  some fresh source says free. So a block is never reported free on the absence of evidence.
\<close>

theorem aggregate_block_state:
  assumes "\<forall>ob\<in>snd ` set obs. occupancy_state_valid (ob_state ob)"
  shows "bo_state (fst (aggregate_block b configs obs av now)) =
    (if \<exists>c\<in>set configs. says b obs av now OccOccupied c then OccOccupied
     else if \<exists>c\<in>set configs. missing b obs av now c then OccUnknown
     else if \<exists>c\<in>set configs. says b obs av now OccFree c then OccFree
     else OccUnknown)"
proof -
  have valid: "occupancy_state_valid (ob_state ob)" if "fresh_observation obs av now c = Some ob" for c ob
  proof -
    have "(source_key_of c, ob) \<in> set obs"
      using that by (auto simp: fresh_observation_def dest!: map_of_SomeD split: option.splits if_splits)
    then show ?thesis using assms by force
  qed
  have req: "\<exists>c\<in>set configs. says b obs av now OccFree c"
    if c: "c \<in> set configs" "rm_block_id c = b" "rm_required c"
      and no: "\<not> (\<exists>c\<in>set configs. missing b obs av now c)" "\<not> (\<exists>c\<in>set configs. says b obs av now OccOccupied c)" for c
  proof -
    have "\<not> missing b obs av now c" "\<not> says b obs av now OccOccupied c" using c(1) no by blast+
    then obtain ob where ob: "fresh_observation obs av now c = Some ob" "ob_state ob \<noteq> OccUnknown"
      "ob_state ob \<noteq> OccOccupied" using c(2,3) by (auto split: option.splits)
    then have "ob_state ob = OccFree" using valid [OF ob(1)] by (cases "ob_state ob") auto
    then show ?thesis using c(1,2) ob(1) by (intro bexI [of _ c]) simp_all
  qed
  have start: "\<not> ag_occupied aggregate_start" "\<not> ag_fresh_free aggregate_start"
    "\<not> ag_has_required aggregate_start" "\<not> ag_required_missing aggregate_start"
    by (simp_all add: aggregate_start_def)
  show ?thesis
    using req
    unfolding aggregate_block_def Let_def aggregate_flags
    by (simp only: start simp_thms) (auto simp: new_unknown_block_occupancy_def)
qed

text \<open>
  Two contacts of one block, one required: the required one has been silent for too long while the
  optional one says free. The block is unknown, not free.
\<close>

definition contact :: "string \<Rightarrow> bool \<Rightarrow> duration \<Rightarrow> resolved_mapping" where
  "contact i required stale = \<lparr> rm_provider_id = ''rbus'', rm_sensor_id = i, rm_block_id = ''b1'',
     rm_required = required, rm_priority = 50, rm_stale_after = stale \<rparr>"

definition report :: "string \<Rightarrow> occupancy_state \<Rightarrow> 64 word \<Rightarrow> time \<Rightarrow> occupancy_observation" where
  "report i st n t = \<lparr> ob_provider_id = ''rbus'', ob_sensor_id = i, ob_state = st, ob_sequence = n,
     ob_observed_at = t, ob_received_at = t, ob_occupant = None \<rparr>"

definition example_reports :: "(source_key, occupancy_observation) gomap" where
  "example_reports = [((''rbus'', ''1''), report ''1'' OccFree 1 0), ((''rbus'', ''2''), report ''2'' OccFree 1 (9 * second))]"

theorem aggregate_block_state_witness:
  "bo_state (fst (aggregate_block ''b1'' [contact ''1'' True (5 * second), contact ''2'' False (5 * second)]
     example_reports [] (10 * second))) = OccUnknown"
proof -
  have "\<forall>ob\<in>snd ` set example_reports. occupancy_state_valid (ob_state ob)"
    by (simp add: example_reports_def report_def)
  from aggregate_block_state [OF this] show ?thesis
    by (simp add: example_reports_def report_def contact_def fresh_observation_def source_key_of_def
        source_fresh_def provider_available_def)
qed

subsection \<open>The identity of an occupant\<close>

definition named ::
  "string \<Rightarrow> (source_key, occupancy_observation) gomap \<Rightarrow> (string, bool) gomap \<Rightarrow> time \<Rightarrow> resolved_mapping \<Rightarrow>
   occupant_ref option" where
  "named b obs av now c =
     (if says b obs av now OccOccupied c
      then (case fresh_observation obs av now c of None \<Rightarrow> None | Some ob \<Rightarrow> ob_occupant ob) else None)"

lemma aggregate_source_best:
  "ag_best_priority (aggregate_source b obs av now c a) = ag_best_priority (aggregate_occupant c (named b obs av now c) a)"
  "ag_best_occupant (aggregate_source b obs av now c a) = ag_best_occupant (aggregate_occupant c (named b obs av now c) a)"
  "ag_identity_conflict (aggregate_source b obs av now c a) =
     ag_identity_conflict (aggregate_occupant c (named b obs av now c) a)"
  by (auto simp: aggregate_source_def aggregate_occupant_def named_def Let_def
      split: option.split occupancy_state.split)

text \<open>The loop keeps the best priority seen, an occupant named at it, and whether they agree.\<close>

definition best_inv :: "(resolved_mapping \<Rightarrow> occupant_ref option) \<Rightarrow> resolved_mapping list \<Rightarrow> aggregate \<Rightarrow> bool" where
  "best_inv nm cs a \<longleftrightarrow>
     (\<forall>c\<in>set cs. nm c \<noteq> None \<longrightarrow> rm_priority c \<le> ag_best_priority a \<and> ag_best_occupant a \<noteq> None) \<and>
     (ag_best_occupant a = None \<longrightarrow> ag_best_priority a = -1) \<and>
     (\<forall>r. ag_best_occupant a = Some r \<longrightarrow>
        (\<exists>c\<in>set cs. nm c = Some r \<and> rm_priority c = ag_best_priority a) \<and>
        (\<not> ag_identity_conflict a \<longrightarrow>
           (\<forall>c\<in>set cs. \<forall>r'. nm c = Some r' \<and> rm_priority c = ag_best_priority a \<longrightarrow> r' = r)))"

lemma best_inv_step:
  assumes inv: "best_inv nm cs a" and prio: "0 \<le> rm_priority c"
    and a': "ag_best_priority a' = ag_best_priority (aggregate_occupant c (nm c) a)"
      "ag_best_occupant a' = ag_best_occupant (aggregate_occupant c (nm c) a)"
      "ag_identity_conflict a' = ag_identity_conflict (aggregate_occupant c (nm c) a)"
  shows "best_inv nm (cs @ [c]) a'"
proof (cases "nm c")
  case None
  then show ?thesis using inv a' by (auto simp: best_inv_def aggregate_occupant_def)
next
  case (Some r)
  consider (better) "rm_priority c > ag_best_priority a" | (equal) "rm_priority c = ag_best_priority a"
    | (worse) "rm_priority c < ag_best_priority a" by linarith
  then show ?thesis
  proof cases
    case better
    then show ?thesis using inv a' Some by (auto simp: best_inv_def aggregate_occupant_def)
  next
    case equal
    then have "ag_best_occupant a \<noteq> None" using inv prio by (auto simp: best_inv_def)
    then obtain r0 where r0: "ag_best_occupant a = Some r0" by blast
    then show ?thesis using inv a' Some equal
      by (cases "r0 = r") (auto simp: best_inv_def aggregate_occupant_def)
  next
    case worse
    then show ?thesis using inv a' Some prio by (auto simp: best_inv_def aggregate_occupant_def)
  qed
qed

lemma best_inv_fold:
  "\<forall>c\<in>set cs. 0 \<le> rm_priority c \<Longrightarrow>
   best_inv (named b obs av now) cs (fold (aggregate_source b obs av now) cs aggregate_start)"
proof (induction cs rule: rev_induct)
  case Nil
  then show ?case by (simp add: best_inv_def aggregate_start_def)
next
  case (snoc c cs)
  let ?a = "fold (aggregate_source b obs av now) cs aggregate_start"
  have "best_inv (named b obs av now) cs ?a" "0 \<le> rm_priority c" using snoc by simp_all
  from best_inv_step [OF this aggregate_source_best [of b obs av now c ?a]] show ?case by simp
qed

text \<open>
  the occupant a block reports is the one named by the fresh occupied sources of the highest
  priority, and all of those agree on it; when they disagree none is reported.
\<close>

theorem aggregate_block_occupant:
  assumes "\<forall>c\<in>set configs. 0 \<le> rm_priority c"
    and "bo_occupant (fst (aggregate_block b configs obs av now)) = Some r"
  shows "\<exists>c\<in>set configs. named b obs av now c = Some r \<and>
    (\<forall>c'\<in>set configs. \<forall>r'. named b obs av now c' = Some r' \<longrightarrow>
       rm_priority c' \<le> rm_priority c \<and> (rm_priority c' = rm_priority c \<longrightarrow> r' = r))"
proof -
  let ?a = "fold (aggregate_source b obs av now) configs aggregate_start"
  have inv: "best_inv (named b obs av now) configs ?a" using best_inv_fold [OF assms(1)] .
  have "ag_best_occupant ?a = Some r" "\<not> ag_identity_conflict ?a"
    using assms(2) by (auto simp: aggregate_block_def Let_def new_unknown_block_occupancy_def split: if_splits)
  then obtain c where c: "c \<in> set configs" "named b obs av now c = Some r" "rm_priority c = ag_best_priority ?a"
    and agree: "\<And>c' r'. c' \<in> set configs \<Longrightarrow> named b obs av now c' = Some r' \<Longrightarrow>
      rm_priority c' \<le> ag_best_priority ?a \<and> (rm_priority c' = ag_best_priority ?a \<longrightarrow> r' = r)"
    using inv unfolding best_inv_def by blast
  show ?thesis
    by (rule bexI [OF _ c(1)]) (use agree c(2,3) in auto)
qed

definition train_report :: "string \<Rightarrow> string \<Rightarrow> occupancy_observation" where
  "train_report i train = (report i OccOccupied 1 0)\<lparr> ob_occupant := Some \<lparr> or_type = ''train'', or_id = train \<rparr> \<rparr>"

theorem aggregate_block_occupant_witness:
  "let configs = [contact ''1'' False 0, (contact ''2'' False 0)\<lparr> rm_priority := 90 \<rparr>];
       obs = [((''rbus'', ''1''), train_report ''1'' ''ice''), ((''rbus'', ''2''), train_report ''2'' ''tgv'')];
       r = \<lparr> or_type = ''train'', or_id = ''tgv'' \<rparr>
   in bo_occupant (fst (aggregate_block ''b1'' configs obs [] 0)) = Some r \<and>
      (\<exists>c\<in>set configs. named ''b1'' obs [] 0 c = Some r \<and> rm_priority c = 90)"
proof -
  let ?c2 = "(contact ''2'' False 0)\<lparr> rm_priority := 90 \<rparr>"
  let ?configs = "[contact ''1'' False 0, ?c2]"
  let ?obs = "[((''rbus'', ''1''), train_report ''1'' ''ice''), ((''rbus'', ''2''), train_report ''2'' ''tgv'')]"
  let ?r = "\<lparr> or_type = ''train'', or_id = ''tgv'' \<rparr>"
  have prio: "\<forall>c\<in>set ?configs. 0 \<le> rm_priority c" by (simp add: contact_def)
  have occ: "bo_occupant (fst (aggregate_block ''b1'' ?configs ?obs [] 0)) = Some ?r"
    by (simp add: aggregate_block_def aggregate_source_def aggregate_occupant_def aggregate_start_def Let_def
        fresh_observation_def source_key_of_def source_fresh_def provider_available_def contact_def
        train_report_def report_def)
  have "named ''b1'' ?obs [] 0 ?c2 = Some ?r"
    by (simp add: named_def fresh_observation_def source_key_of_def source_fresh_def provider_available_def
        contact_def train_report_def report_def)
  then show ?thesis
    using aggregate_block_occupant [OF prio occ] occ by (auto simp: Let_def contact_def)
qed

subsection \<open>Recomputation and publication\<close>

definition oc_wf :: "occupancy_service \<Rightarrow> bool" where
  "oc_wf s \<longleftrightarrow> gm_wf (oc_observations s) \<and> gm_wf (oc_states s) \<and> gm_wf (oc_availability s) \<and> gm_wf (oc_diagnostics s)"

abbreviation state_of :: "occupancy_service \<Rightarrow> string \<Rightarrow> occupancy_state" where
  "state_of s b \<equiv> bo_state (block_state b s)"

definition derived :: "resolved_mapping list \<Rightarrow> time \<Rightarrow> occupancy_service \<Rightarrow> string \<Rightarrow> occupancy_state" where
  "derived configs now s b =
     bo_state (fst (aggregate_block b configs (oc_observations s) (oc_availability s) now))"

lemma aggregate_block_id [simp]: "bo_block_id (fst (aggregate_block b configs obs av now)) = b"
  by (simp add: aggregate_block_def Let_def new_unknown_block_occupancy_def)

lemma state_of_get: "state_of s b = bo_state (gm_get (new_unknown_block_occupancy b now) (oc_states s) b)"
  by (simp add: block_state_def gm_get_def new_unknown_block_occupancy_def split: option.split)

lemma recompute_block_effect:
  assumes wf: "oc_wf s" and run: "recompute_block configs now b s = (s1, change)"
  shows "oc_wf s1" and "oc_observations s1 = oc_observations s" and "oc_availability s1 = oc_availability s"
    and "oc_events s1 = oc_events s"
    and "state_of s1 b' = (if b' = b then derived configs now s b else state_of s b')"
    and "case change of None \<Rightarrow> state_of s b = derived configs now s b
         | Some c \<Rightarrow> state_of s b \<noteq> derived configs now s b \<and> bo_block_id c = b \<and> bo_state c = derived configs now s b"
proof -
  obtain fresh diag where a: "aggregate_block b configs (oc_observations s) (oc_availability s) now = (fresh, diag)"
    by fastforce
  have fresh: "bo_state fresh = derived configs now s b" "bo_block_id fresh = b"
    using a aggregate_block_id [of b configs "oc_observations s" "oc_availability s" now] by (simp_all add: derived_def)
  note eqs = run [unfolded recompute_block_def a Let_def prod.case]
  show "oc_wf s1" "oc_observations s1 = oc_observations s" "oc_availability s1 = oc_availability s"
    "oc_events s1 = oc_events s" using eqs wf by (auto simp: oc_wf_def)
  show "state_of s1 b' = (if b' = b then derived configs now s b else state_of s b')"
    using eqs wf fresh by (auto simp: block_state_def oc_wf_def)
  show "case change of None \<Rightarrow> state_of s b = derived configs now s b
         | Some c \<Rightarrow> state_of s b \<noteq> derived configs now s b \<and> bo_block_id c = b \<and> bo_state c = derived configs now s b"
    unfolding state_of_get [of b s now] using eqs fresh by auto
qed

lemma recompute_blocks_effect:
  assumes "oc_wf s" and "distinct bs" and "recompute_blocks configs now bs s = (s', cs)"
  shows "oc_wf s'" and "oc_observations s' = oc_observations s" and "oc_availability s' = oc_availability s"
    and "oc_events s' = oc_events s"
    and "\<forall>b. state_of s' b = (if b \<in> set bs then derived configs now s b else state_of s b)"
    and "map bo_block_id cs = filter (\<lambda>b. state_of s b \<noteq> derived configs now s b) bs"
    and "\<forall>c\<in>set cs. bo_state c = derived configs now s (bo_block_id c)"
proof -
  have "oc_wf s' \<and> oc_observations s' = oc_observations s \<and> oc_availability s' = oc_availability s \<and>
      oc_events s' = oc_events s \<and>
      (\<forall>b. state_of s' b = (if b \<in> set bs then derived configs now s b else state_of s b)) \<and>
      map bo_block_id cs = filter (\<lambda>b. state_of s b \<noteq> derived configs now s b) bs \<and>
      (\<forall>c\<in>set cs. bo_state c = derived configs now s (bo_block_id c))"
    using assms
  proof (induction bs arbitrary: s s' cs)
    case Nil
    then show ?case by simp
  next
    case (Cons b bs)
    obtain s1 change where one: "recompute_block configs now b s = (s1, change)" by fastforce
    obtain s2 cs2 where rest: "recompute_blocks configs now bs s1 = (s2, cs2)" by fastforce
    note eff = recompute_block_effect [OF Cons.prems(1) one]
    have d: "derived configs now s1 = derived configs now s"
      using eff(2,3) by (simp add: derived_def fun_eq_iff)
    have nb: "b \<notin> set bs" "distinct bs" using Cons.prems(2) by simp_all
    have s': "s' = s2" "cs = (case change of None \<Rightarrow> cs2 | Some c \<Rightarrow> c # cs2)"
      using Cons.prems(3) one rest by simp_all
    have ih: "oc_wf s2" "oc_observations s2 = oc_observations s" "oc_availability s2 = oc_availability s"
      "oc_events s2 = oc_events s"
      "\<forall>b. state_of s2 b = (if b \<in> set bs then derived configs now s b else state_of s1 b)"
      "map bo_block_id cs2 = filter (\<lambda>b. state_of s1 b \<noteq> derived configs now s b) bs"
      "\<forall>c\<in>set cs2. bo_state c = derived configs now s (bo_block_id c)"
      using Cons.IH [OF eff(1) nb(2) rest] eff(2-4) d by simp_all
    have "filter (\<lambda>b. state_of s1 b \<noteq> derived configs now s b) bs =
        filter (\<lambda>b. state_of s b \<noteq> derived configs now s b) bs"
      using nb(1) eff(5) by (intro filter_cong) auto
    then show ?case
      using ih eff(5,6) s' by (cases change) auto
  qed
  then show "oc_wf s'" "oc_observations s' = oc_observations s" "oc_availability s' = oc_availability s"
    "oc_events s' = oc_events s"
    "\<forall>b. state_of s' b = (if b \<in> set bs then derived configs now s b else state_of s b)"
    "map bo_block_id cs = filter (\<lambda>b. state_of s b \<noteq> derived configs now s b) bs"
    "\<forall>c\<in>set cs. bo_state c = derived configs now s (bo_block_id c)" by blast+
qed

text \<open>The changes published: the blocks whose state changed, each once, with its new state.\<close>

definition publishes :: "occupancy_service \<Rightarrow> string list \<Rightarrow> occupancy_service \<Rightarrow> bool" where
  "publishes s bs s' \<longleftrightarrow>
     (\<exists>evs. oc_events s' = oc_events s @ evs \<and>
        map bc_block_id evs = filter (\<lambda>b. state_of s b \<noteq> state_of s' b) bs \<and>
        (\<forall>e\<in>set evs. bc_state e = state_of s' (bc_block_id e)))"

lemma recompute_and_publish_effect:
  assumes wf: "oc_wf s" and d: "distinct bs"
  shows "oc_wf (recompute_and_publish configs now bs s)"
    and "oc_observations (recompute_and_publish configs now bs s) = oc_observations s"
    and "oc_availability (recompute_and_publish configs now bs s) = oc_availability s"
    and "state_of (recompute_and_publish configs now bs s) b =
      (if b \<in> set bs then derived configs now s b else state_of s b)"
    and "publishes s bs (recompute_and_publish configs now bs s)"
proof -
  obtain s1 cs where r: "recompute_blocks configs now bs s = (s1, cs)" by fastforce
  note eff = recompute_blocks_effect [OF wf d r]
  have e: "recompute_and_publish configs now bs s = publish_changes cs s1"
    by (simp add: recompute_and_publish_def r)
  have st: "state_of (publish_changes cs s1) b = state_of s1 b" for b
    by (simp add: publish_changes_def block_state_def)
  show "oc_wf (recompute_and_publish configs now bs s)"
    "oc_observations (recompute_and_publish configs now bs s) = oc_observations s"
    "oc_availability (recompute_and_publish configs now bs s) = oc_availability s"
    using eff(1-3) by (simp_all add: e publish_changes_def oc_wf_def)
  show "state_of (recompute_and_publish configs now bs s) b =
      (if b \<in> set bs then derived configs now s b else state_of s b)"
    using eff(5) by (simp add: e st)
  have "map bc_block_id (map changed_event cs) = filter (\<lambda>b. state_of s b \<noteq> state_of s1 b) bs"
    using eff(5,6) by (simp add: changed_event_def comp_def cong: filter_cong)
  moreover have "\<forall>e\<in>set (map changed_event cs). bc_state e = state_of s1 (bc_block_id e)"
  proof -
    have "bo_block_id ` set cs \<subseteq> set bs" using arg_cong [OF eff(6), of set] by auto
    then show ?thesis using eff(5,7) by (auto simp: changed_event_def)
  qed
  ultimately show "publishes s bs (recompute_and_publish configs now bs s)"
    unfolding publishes_def e st
    by (intro exI [of _ "map changed_event cs"]) (simp add: publish_changes_def eff(4))
qed

text \<open>
  C28: a recomputation brings every block of the layout to the state its sources now imply, forgets
  the blocks that are gone, and publishes exactly the states that changed, each once.
\<close>

theorem recompute_derives:
  assumes "oc_wf s" and "resolved_mappings db = Inr configs" and "recompute db now s = Inr s'"
  shows "(\<forall>b. state_of s' b = (if b \<in> set (odb_blocks db) then derived configs now s b else OccUnknown)) \<and>
    publishes (forget_removed_blocks db s) (str_set (odb_blocks db)) s' \<and>
    oc_observations s' = oc_observations s \<and> oc_wf s'"
proof -
  let ?s = "forget_removed_blocks db s"
  have wf: "oc_wf ?s" using assms(1) by (simp add: oc_wf_def forget_removed_blocks_def gm_wf_filter)
  have s': "s' = recompute_and_publish configs now (str_set (odb_blocks db)) ?s"
    using assms(2,3) by (simp add: recompute_def)
  note eff = recompute_and_publish_effect [OF wf distinct_str_set [of "odb_blocks db"], where configs = configs and now = now, folded s']
  have "derived configs now ?s b = derived configs now s b" for b
    by (simp add: derived_def forget_removed_blocks_def)
  moreover have "state_of ?s b = OccUnknown" if "b \<notin> set (odb_blocks db)" for b
  proof -
    have "map_of (oc_states ?s) b = None"
      using that by (auto simp: forget_removed_blocks_def map_of_eq_None_iff)
    then show ?thesis by (simp add: block_state_def gm_get_def new_unknown_block_occupancy_def)
  qed
  ultimately show ?thesis using eff by (simp add: forget_removed_blocks_def)
qed

definition example_odb :: occupancy_db where
  "example_odb =
     \<lparr> odb_providers = [\<lparr> op_id = ''rbus'', op_type = ''current-detection'', op_priority = 50,
         op_required = True, op_stale_after = 5 * second, op_freshness_required = True \<rparr>],
       odb_mappings = [\<lparr> om_provider_id = ''rbus'', om_sensor_id = ''1'', om_block_id = ''b1'',
         om_required = None, om_priority = None \<rparr>],
       odb_blocks = [''b1''] \<rparr>"

lemma example_resolved: "resolved_mappings example_odb = Inr [contact ''1'' True (5 * second)]"
  by (simp add: resolved_mappings_def list_occupancy_sensor_mappings_def example_odb_def mapping_key_def
      occupancy_provider_row_def resolve_mapping_def validate_occupancy_provider_def
      validate_occupancy_sensor_mapping_def contact_def blank_iff is_space_def)

definition example_occ :: occupancy_service where
  "example_occ = (new_occupancy_service example_odb 0)
     \<lparr> oc_observations := [((''rbus'', ''1''), report ''1'' OccOccupied 1 0)] \<rparr>"

lemma example_occ_wf: "oc_wf example_occ"
  by (simp add: oc_wf_def example_occ_def new_occupancy_service_def example_odb_def)

theorem recompute_derives_witness:
  "\<exists>s'. recompute example_odb second example_occ = Inr s' \<and> bo_state (block_state ''b1'' s') = OccOccupied"
proof -
  obtain s' where r: "recompute example_odb second example_occ = Inr s'"
    by (simp add: recompute_def example_resolved)
  have "derived [contact ''1'' True (5 * second)] second example_occ ''b1'' = OccOccupied"
    by (simp add: derived_def aggregate_block_def aggregate_source_def aggregate_start_def aggregate_occupant_def
        fresh_observation_def source_key_of_def source_fresh_def provider_available_def contact_def report_def
        example_occ_def new_occupancy_service_def Let_def)
  then show ?thesis
    using recompute_derives [OF example_occ_wf example_resolved r] r by (simp add: example_odb_def)
qed

subsection \<open>Sequences\<close>

lemma prepare_batch_items:
  "prepare_batch configs now seen obs = Inr items \<Longrightarrow>
     map snd items = map (\<lambda>ob. ob\<lparr> ob_received_at := now \<rparr>) obs \<and>
     distinct (map observation_key obs) \<and> set (map observation_key obs) \<inter> set seen = {} \<and>
     (\<forall>ob\<in>set obs. validate_occupancy_observation ob True = None)"
proof (induction obs arbitrary: seen items)
  case Nil
  then show ?case by simp
next
  case (Cons ob obs)
  then obtain m rest where "validate_occupancy_observation ob True = None" "observation_key ob \<notin> set seen"
    "prepare_batch configs now (observation_key ob # seen) obs = Inr rest"
    "items = (m, ob\<lparr> ob_received_at := now \<rparr>) # rest"
    by (auto split: option.splits if_splits)
  then show ?case using Cons.IH [of "observation_key ob # seen" rest] by auto
qed

lemma check_sequences_put:
  "gm_wf known \<Longrightarrow> k \<notin> set (map (observation_key \<circ> snd) items) \<Longrightarrow>
   check_sequences (gm_put k ob known) items = check_sequences known items"
proof (induction items)
  case (Cons item items)
  then have "check_sequences (gm_put k ob known) items = check_sequences known items"
    "map_of (gm_put k ob known) (observation_key (snd item)) = map_of known (observation_key (snd item))" by auto
  then show ?case by (cases item) (simp split: option.split)
qed simp

lemma same_payload_refl [simp]: "same_observation_payload ob ob"
  by (simp add: same_observation_payload_def)

lemma record_batch_effect:
  "gm_wf known \<Longrightarrow> distinct (map (observation_key \<circ> snd) items) \<Longrightarrow> check_sequences known items = None \<Longrightarrow>
   record_batch items known = (known', bs) \<Longrightarrow>
     gm_wf known' \<and>
     (\<forall>ob\<in>snd ` set items. \<exists>p. map_of known' (observation_key ob) = Some p \<and> same_observation_payload p ob) \<and>
     (\<forall>k p. map_of known k = Some p \<longrightarrow> (\<exists>p'. map_of known' k = Some p' \<and> ob_sequence p \<le> ob_sequence p')) \<and>
     (\<forall>k. k \<notin> (observation_key \<circ> snd) ` set items \<longrightarrow> map_of known' k = map_of known k)"
proof (induction items arbitrary: known bs)
  case Nil
  then show ?case by auto
next
  case (Cons item items)
  obtain m ob where item: "item = (m, ob)" by (cases item)
  let ?k = "observation_key ob"
  have k: "?k \<notin> (observation_key \<circ> snd) ` set items" "distinct (map (observation_key \<circ> snd) items)"
    using Cons.prems(2) item by (auto simp: comp_def)
  show ?case
  proof (cases "case map_of known ?k of None \<Rightarrow> False | Some p \<Rightarrow> ob_sequence ob = ob_sequence p")
    case True
    then obtain p where p: "map_of known ?k = Some p" "ob_sequence ob = ob_sequence p" by (auto split: option.splits)
    have same: "same_observation_payload p ob" and chk: "check_sequences known items = None"
      using Cons.prems(3) item p by (auto split: if_splits)
    have rec: "record_batch items known = (known', bs)" using Cons.prems(4) item True by simp
    note ih = Cons.IH [OF Cons.prems(1) k(2) chk rec]
    have "map_of known' ?k = map_of known ?k" using ih k(1) by blast
    then have "map_of known' ?k = Some p" using p(1) by simp
    then show ?thesis using ih same item by auto
  next
    case False
    have chk: "check_sequences known items = None" and up: "\<And>p. map_of known ?k = Some p \<Longrightarrow> ob_sequence p \<le> ob_sequence ob"
      using Cons.prems(3) item by (auto split: option.splits if_splits)
    obtain bs2 where rec: "record_batch items (gm_put ?k ob known) = (known', bs2)"
      using Cons.prems(4) item False by (auto split: prod.splits)
    have wf: "gm_wf (gm_put ?k ob known)" using Cons.prems(1) by simp
    have chk2: "check_sequences (gm_put ?k ob known) items = None"
      using check_sequences_put [OF Cons.prems(1)] k(1) chk by simp
    note ih = Cons.IH [OF wf k(2) chk2 rec]
    have "map_of known' ?k = map_of (gm_put ?k ob known) ?k" using ih k(1) by blast
    then have here: "map_of known' ?k = Some ob" using Cons.prems(1) by simp
    have "\<exists>p'. map_of known' k' = Some p' \<and> ob_sequence p \<le> ob_sequence p'" if "map_of known k' = Some p" for k' p
    proof (cases "k' = ?k")
      case False
      then have "map_of (gm_put ?k ob known) k' = Some p" using that Cons.prems(1) by simp
      then show ?thesis using ih by blast
    qed (use that here up in simp)
    then show ?thesis using ih here item Cons.prems(1) by auto
  qed
qed

text \<open>
  an accepted batch is recorded completely, and no source's sequence ever goes back: every
  observation of the batch is afterwards the one on record for its sensor, up to the time of
  reception, and every sensor's recorded sequence is at least what it was.
\<close>

theorem observe_batch_sequences:
  assumes "oc_wf s" and "observe_batch db now obs s = Inr s'"
  shows "(\<forall>ob\<in>set obs. \<exists>p. map_of (oc_observations s') (observation_key ob) = Some p \<and> same_observation_payload p ob) \<and>
    (\<forall>k p. map_of (oc_observations s) k = Some p \<longrightarrow>
       (\<exists>p'. map_of (oc_observations s') k = Some p' \<and> ob_sequence p \<le> ob_sequence p')) \<and> oc_wf s'"
proof -
  obtain configs items known blocks where c: "prepare_batch configs now [] obs = Inr items"
    and chk: "check_sequences (oc_observations s) items = None"
    and rec: "record_batch items (oc_observations s) = (known, blocks)"
    and s': "s' = recompute_and_publish configs now (str_set blocks) (s\<lparr> oc_observations := known \<rparr>)"
    using assms(2) by (auto simp: observe_batch_def split: if_splits option.splits prod.splits)
  note items = prepare_batch_items [OF c]
  have keys: "map (observation_key \<circ> snd) items = map observation_key obs"
  proof -
    have "map (observation_key \<circ> snd) items = map observation_key (map snd items)" by simp
    also have "\<dots> = map observation_key obs" using items by (simp add: observation_key_def comp_def)
    finally show ?thesis .
  qed
  have wf: "gm_wf (oc_observations s)" using assms(1) by (simp add: oc_wf_def)
  note eff = record_batch_effect [OF wf _ chk rec]
  have d: "distinct (map (observation_key \<circ> snd) items)" using items keys by simp
  have wf': "oc_wf (s\<lparr> oc_observations := known \<rparr>)" using assms(1) eff [OF d] by (simp add: oc_wf_def)
  note pub = recompute_and_publish_effect [OF wf' distinct_str_set [of blocks], where configs = configs and now = now, folded s']
  have obs: "\<exists>p. map_of known (observation_key ob) = Some p \<and> same_observation_payload p ob" if "ob \<in> set obs" for ob
  proof -
    have "ob\<lparr> ob_received_at := now \<rparr> \<in> snd ` set items"
      using items that by (metis (no_types, lifting) image_eqI list.set_map)
    then obtain p where "map_of known (observation_key (ob\<lparr> ob_received_at := now \<rparr>)) = Some p"
      "same_observation_payload p (ob\<lparr> ob_received_at := now \<rparr>)" using eff [OF d] by blast
    then show ?thesis by (auto simp: observation_key_def same_observation_payload_def)
  qed
  show ?thesis using obs eff [OF d] pub(1,2) by simp
qed

theorem observe_batch_sequences_witness:
  "\<exists>s' p. observe_batch example_odb second [report ''1'' OccFree 2 second] example_occ = Inr s' \<and>
     map_of (oc_observations s') (''rbus'', ''1'') = Some p \<and> ob_sequence p = 2"
proof -
  let ?o = "report ''1'' OccFree 2 second"
  obtain s' where r: "observe_batch example_odb second [?o] example_occ = Inr s'"
    by (simp add: observe_batch_def example_resolved validate_occupancy_observation_def validate_occupancy_value_def
        report_def observation_key_def mapping_for_source_def source_key_of_def contact_def example_occ_def
        blank_iff is_space_def split: prod.split)
  show ?thesis
    using observe_batch_sequences [OF example_occ_wf r] r
    by (auto simp: observation_key_def report_def same_observation_payload_def)
qed

end
