(* ===== verification/Feedback.thy ===== *)
theory Feedback
  imports OccupancyFacts
begin

text \<open>
  Block feedback of \<^verbatim>\<open>internal/service/railway.go\<close>: the loop of \<^verbatim>\<open>StartFeedback\<close> that turns
  the station's feedback events into occupancy observations, and \<^verbatim>\<open>SetBlockFeedback\<close>. Both
  number the observations of a sensor with a counter of their own, so the section ends with the
  proof that observations numbered this way are never refused.
\<close>

subsection \<open>Operations\<close>

record feedback_state =
  fs_occupancy :: occupancy_service
  fs_sequences :: "(source_key, 64 word) gomap"

definition next_feedback_sequence ::
  "source_key \<Rightarrow> (source_key, 64 word) gomap \<Rightarrow> (source_key, 64 word) gomap \<times> 64 word" where
  "next_feedback_sequence key m = (let n = gm_get 0 m key + 1 in (gm_put key n m, n))"

text \<open>Numbering an observation and handing it to the occupancy service.\<close>

definition submit_feedback ::
  "occupancy_db \<Rightarrow> time \<Rightarrow> time \<Rightarrow> source_key \<Rightarrow> occupancy_state \<Rightarrow> feedback_state \<Rightarrow>
   feedback_state \<times> occupancy_error option" where
  "submit_feedback db observed now key st f =
     (case next_feedback_sequence key (fs_sequences f) of
        (seqs, n) \<Rightarrow>
          (let ob = \<lparr> ob_provider_id = fst key, ob_sensor_id = snd key, ob_state = st, ob_sequence = n,
                       ob_observed_at = observed, ob_received_at = 0, ob_occupant = None \<rparr>
           in case observe_batch db now [ob] (fs_occupancy f) of
                Inl e \<Rightarrow> (f\<lparr> fs_sequences := seqs \<rparr>, Some e)
              | Inr occ \<Rightarrow> (f\<lparr> fs_sequences := seqs, fs_occupancy := occ \<rparr>, None)))"

text \<open>The provider an event is attributed to: its source, or \<^verbatim>\<open>*\<close> when that is not mapped.\<close>

definition feedback_mapping ::
  "occupancy_db \<Rightarrow> feedback_event \<Rightarrow> string \<times> (occupancy_error + resolved_mapping)" where
  "feedback_mapping db ev =
     (let sensor = int_text (fb_address ev) in
      case resolve_occupancy_sensor_mapping (fb_source ev) sensor db of
        Inl (OccupancyFailure ErrNotFound) \<Rightarrow> (''*'', resolve_occupancy_sensor_mapping ''*'' sensor db)
      | r \<Rightarrow> (fb_source ev, r))"

definition handle_feedback ::
  "occupancy_db \<Rightarrow> time \<Rightarrow> time \<Rightarrow> feedback_event \<Rightarrow> feedback_state \<Rightarrow> feedback_state" where
  "handle_feedback db observed now ev f =
     (case feedback_mapping db ev of
        (_, Inl _) \<Rightarrow> f
      | (p, Inr _) \<Rightarrow>
          fst (submit_feedback db observed now (p, int_text (fb_address ev))
                 (if fb_active ev then OccOccupied else OccFree) f))"

text \<open>Without a mapping both outcomes of \<^verbatim>\<open>ResourcesForBlock\<close> lead to the same error.\<close>

definition set_block_feedback ::
  "occupancy_db \<Rightarrow> time \<Rightarrow> time \<Rightarrow> string \<Rightarrow> bool \<Rightarrow> feedback_state \<Rightarrow> feedback_state \<times> occupancy_error option" where
  "set_block_feedback db observed now b occupied f =
     (case find (\<lambda>m. om_block_id m = b) (list_occupancy_sensor_mappings db) of
        None \<Rightarrow> (f, Some (OccupancyFailure ErrNotFound))
      | Some m \<Rightarrow> submit_feedback db observed now (mapping_key m) (if occupied then OccOccupied else OccFree) f)"

subsection \<open>Histories\<close>

text \<open>
  What happens to the occupancy service when only the station's own feedback feeds it; the
  configuration may be a different one at every operation.
\<close>

datatype feedback_op =
    StationFeedback occupancy_db time time feedback_event
  | BlockFeedback occupancy_db time time string bool
  | PeriodicRecompute occupancy_db time
  | ProviderAvailability occupancy_db time string bool

fun feedback_exec :: "feedback_op \<Rightarrow> feedback_state \<Rightarrow> feedback_state" where
  "feedback_exec (StationFeedback db observed now ev) f = handle_feedback db observed now ev f"
| "feedback_exec (BlockFeedback db observed now b occupied) f = fst (set_block_feedback db observed now b occupied f)"
| "feedback_exec (PeriodicRecompute db now) f =
     (case recompute db now (fs_occupancy f) of Inl _ \<Rightarrow> f | Inr occ \<Rightarrow> f\<lparr> fs_occupancy := occ \<rparr>)"
| "feedback_exec (ProviderAvailability db now p available) f =
     (case set_provider_available db now p available (fs_occupancy f) of
        Inl _ \<Rightarrow> f | Inr occ \<Rightarrow> f\<lparr> fs_occupancy := occ \<rparr>)"

definition feedback_start :: "occupancy_db \<Rightarrow> time \<Rightarrow> feedback_state" where
  "feedback_start db now = \<lparr> fs_occupancy = new_occupancy_service db now, fs_sequences = [] \<rparr>"

subsection \<open>Invariant\<close>

text \<open>Every counter is at most the number of operations, and no recorded sequence is ahead of it.\<close>

definition feedback_inv :: "nat \<Rightarrow> feedback_state \<Rightarrow> bool" where
  "feedback_inv n f \<longleftrightarrow>
     oc_wf (fs_occupancy f) \<and> gm_wf (fs_sequences f) \<and>
     (\<forall>k. unat (gm_get 0 (fs_sequences f) k) \<le> n) \<and>
     (\<forall>k ob. map_of (oc_observations (fs_occupancy f)) k = Some ob \<longrightarrow> ob_sequence ob \<le> gm_get 0 (fs_sequences f) k)"

lemma feedback_inv_start: "feedback_inv 0 (feedback_start db now)"
proof -
  have "gm_wf (fold (\<lambda>b. gm_put b (new_unknown_block_occupancy b now)) bs m)" if "gm_wf m" for bs m
    using that by (induction bs arbitrary: m) simp_all
  then show ?thesis
    by (simp add: feedback_inv_def feedback_start_def new_occupancy_service_def oc_wf_def gm_get_def)
qed

lemma next_sequence:
  assumes "feedback_inv n f" and "n < 2 ^ 64 - 1" and "next_feedback_sequence key (fs_sequences f) = (seqs, k)"
  shows "gm_get 0 (fs_sequences f) key < k" and "seqs = gm_put key k (fs_sequences f)"
    and "unat k \<le> Suc n" and "k \<noteq> 0"
proof -
  let ?c = "gm_get 0 (fs_sequences f) key"
  have k: "k = ?c + 1" and s: "seqs = gm_put key k (fs_sequences f)"
    using assms(3) by (auto simp: next_feedback_sequence_def Let_def)
  have c: "unat ?c \<le> n" using assms(1) unfolding feedback_inv_def by blast
  then have "unat ?c + 1 < 2 ^ 64" using assms(2) by simp
  then have u: "unat k = unat ?c + 1" unfolding k by (simp add: unat_word_ariths)
  show "?c < k" using u by (simp add: word_less_nat_alt)
  show "seqs = gm_put key k (fs_sequences f)" by (rule s)
  show "unat k \<le> Suc n" using u c by simp
  show "k \<noteq> 0" using u by auto
qed

lemma observe_single:
  assumes "oc_wf s" and "observe_batch db now [ob] s = Inr s'"
  shows "oc_wf s'" and "map_of (oc_observations s') k = Some ob' \<Longrightarrow>
    map_of (oc_observations s) k = Some ob' \<or> (k = observation_key ob \<and> ob' = ob\<lparr> ob_received_at := now \<rparr>)"
proof -
  let ?ob = "ob\<lparr> ob_received_at := now \<rparr>"
  obtain configs m known blocks where rec: "record_batch [(m, ?ob)] (oc_observations s) = (known, blocks)"
    and s': "s' = recompute_and_publish configs now (str_set blocks) (s\<lparr> oc_observations := known \<rparr>)"
    using assms(2) by (auto simp: observe_batch_def split: if_splits option.splits prod.splits)
  have wf: "gm_wf (oc_observations s)" using assms(1) by (simp add: oc_wf_def)
  have known: "known = oc_observations s \<or> known = gm_put (observation_key ob) ?ob (oc_observations s)"
    using rec by (auto simp: observation_key_def split: if_splits)
  then have wf': "oc_wf (s\<lparr> oc_observations := known \<rparr>)" using assms(1) wf by (auto simp: oc_wf_def)
  note pub = recompute_and_publish_effect [OF wf' distinct_str_set [of blocks], where configs = configs and now = now, folded s']
  show "oc_wf s'" by (rule pub(1))
  assume "map_of (oc_observations s') k = Some ob'"
  then have "map_of known k = Some ob'" using pub(2) by simp
  then show "map_of (oc_observations s) k = Some ob' \<or> (k = observation_key ob \<and> ob' = ?ob)"
    using known wf by (auto split: if_splits)
qed

lemma resolve_all_key:
  "resolve_all db ms = Inr cs \<Longrightarrow> m \<in> set ms \<Longrightarrow> \<exists>c\<in>set cs. source_key_of c = mapping_key m"
proof (induction ms arbitrary: cs)
  case (Cons x ms)
  then obtain p r rs where "resolve_mapping x p = Inr r" "resolve_all db ms = Inr rs" "cs = r # rs" by auto
  moreover from this(1) have "source_key_of r = mapping_key x"
    by (auto simp: resolve_mapping_def source_key_of_def mapping_key_def split: option.splits if_splits)
  ultimately show ?case using Cons by auto
qed simp

lemma resolved_source:
  assumes "resolve_occupancy_sensor_mapping p q db = Inr m" and "resolved_mappings db = Inr configs"
  shows "\<not> blank p" and "\<not> blank q" and "mapping_for_source configs (p, q) \<noteq> None"
proof -
  obtain mp pr where mp: "find (\<lambda>m. mapping_key m = (p, q)) (odb_mappings db) = Some mp" and r: "resolve_mapping mp pr = Inr m"
    using assms(1) by (auto simp: resolve_occupancy_sensor_mapping_def occupancy_sensor_mapping_row_def split: option.splits)
  have key: "mapping_key mp = (p, q)" "mp \<in> set (odb_mappings db)" using mp by (auto simp: find_Some_iff)
  then show "\<not> blank p" "\<not> blank q"
    using r by (auto simp: resolve_mapping_def validate_occupancy_sensor_mapping_def mapping_key_def split: option.splits if_splits)
  have "mp \<in> set (list_occupancy_sensor_mappings db)" using key(2) by (simp add: list_occupancy_sensor_mappings_def)
  then obtain c where "c \<in> set configs" "source_key_of c = (p, q)"
    using resolve_all_key [OF assms(2) [unfolded resolved_mappings_def]] key(1) by metis
  then show "mapping_for_source configs (p, q) \<noteq> None"
    by (auto simp: mapping_for_source_def find_None_iff)
qed

lemma observe_accepts:
  assumes "oc_wf s" and "resolve_occupancy_sensor_mapping p q db = Inr m" and "resolved_mappings db = Inr configs"
    and "observation_key ob = (p, q)" and "ob_sequence ob \<noteq> 0" and "ob_occupant ob = None" and "occupancy_state_valid (ob_state ob)"
    and "\<And>old. map_of (oc_observations s) (p, q) = Some old \<Longrightarrow> ob_sequence old < ob_sequence ob"
  shows "\<exists>s'. observe_batch db now [ob] s = Inr s' \<and> map_of (oc_observations s') (p, q) = Some (ob\<lparr> ob_received_at := now \<rparr>)"
proof -
  let ?ob = "ob\<lparr> ob_received_at := now \<rparr>"
  note r = resolved_source [OF assms(2,3)]
  obtain c where c: "mapping_for_source configs (p, q) = Some c" using r(3) by blast
  have ids: "ob_provider_id ob = p" "ob_sensor_id ob = q" using assms(4) by (simp_all add: observation_key_def)
  have v: "validate_occupancy_observation ob True = None"
    using r(1,2) assms(5-7) by (simp add: validate_occupancy_observation_def validate_occupancy_value_def ids)
  have prep: "prepare_batch configs now [] [ob] = Inr [(c, ?ob)]" using v c assms(4) by simp
  have key: "observation_key ?ob = (p, q)" using ids by (simp add: observation_key_def)
  have chk: "check_sequences (oc_observations s) [(c, ?ob)] = None"
    using assms(8) key by (fastforce split: option.split)
  have rec: "record_batch [(c, ?ob)] (oc_observations s) = (gm_put (p, q) ?ob (oc_observations s), [rm_block_id c])"
    using assms(8) key by (auto split: option.split)
  let ?s = "s\<lparr> oc_observations := gm_put (p, q) ?ob (oc_observations s) \<rparr>"
  have wf: "oc_wf ?s" "gm_wf (oc_observations s)" using assms(1) by (simp_all add: oc_wf_def)
  have "observe_batch db now [ob] s = Inr (recompute_and_publish configs now (str_set [rm_block_id c]) ?s)"
    using assms(3) prep chk rec by (simp add: observe_batch_def)
  then show ?thesis using recompute_and_publish_effect(2) [OF wf(1) distinct_str_set] wf(2) by simp
qed

lemma feedback_inv_Suc: "feedback_inv n f \<Longrightarrow> feedback_inv (Suc n) f"
  unfolding feedback_inv_def by (blast intro: le_SucI)

lemma feedback_inv_occupancy:
  assumes "feedback_inv n f" and "oc_wf occ"
    and "\<And>k ob. map_of (oc_observations occ) k = Some ob \<Longrightarrow> map_of (oc_observations (fs_occupancy f)) k = Some ob"
  shows "feedback_inv n (f\<lparr> fs_occupancy := occ \<rparr>)"
  using assms unfolding feedback_inv_def by (simp del: split_paired_All)

lemma submit_inv:
  assumes "feedback_inv n f" and "n < 2 ^ 64 - 1"
  shows "feedback_inv (Suc n) (fst (submit_feedback db observed now key st f))"
proof -
  obtain seqs k where sq: "next_feedback_sequence key (fs_sequences f) = (seqs, k)" by fastforce
  note q = next_sequence [OF assms sq]
  have inv: "oc_wf (fs_occupancy f)" "gm_wf (fs_sequences f)" "\<And>j. unat (gm_get 0 (fs_sequences f) j) \<le> n"
    "\<And>j ob. map_of (oc_observations (fs_occupancy f)) j = Some ob \<Longrightarrow> ob_sequence ob \<le> gm_get 0 (fs_sequences f) j"
    using assms(1) unfolding feedback_inv_def by blast+
  have get: "gm_get 0 seqs j = (if j = key then k else gm_get 0 (fs_sequences f) j)" for j
    using inv(2) q(2) by (simp add: gm_get_def)
  have up: "gm_get 0 (fs_sequences f) j \<le> gm_get 0 seqs j" for j using q(1) by (auto simp: get)
  have inv': "gm_wf seqs" "\<And>j. unat (gm_get 0 seqs j) \<le> Suc n" using inv(2,3) q(2,3) by (simp_all add: get le_SucI)
  let ?ob = "\<lparr> ob_provider_id = fst key, ob_sensor_id = snd key, ob_state = st, ob_sequence = k,
      ob_observed_at = observed, ob_received_at = 0, ob_occupant = None \<rparr>"
  show ?thesis
  proof (cases "observe_batch db now [?ob] (fs_occupancy f)")
    case (Inl e)
    have "ob_sequence ob \<le> gm_get 0 seqs j" if "map_of (oc_observations (fs_occupancy f)) j = Some ob" for j ob
      using order_trans [OF inv(4) [OF that] up] .
    then show ?thesis using Inl inv(1) inv' unfolding feedback_inv_def submit_feedback_def sq by (simp add: Let_def)
  next
    case (Inr occ)
    note o = observe_single [OF inv(1) Inr]
    have "ob_sequence ob \<le> gm_get 0 seqs j" if m: "map_of (oc_observations occ) j = Some ob" for j ob
      using o(2) [OF m]
    proof
      assume "map_of (oc_observations (fs_occupancy f)) j = Some ob"
      then show ?thesis using order_trans [OF inv(4) up] by blast
    next
      assume "j = observation_key ?ob \<and> ob = ?ob\<lparr> ob_received_at := now \<rparr>"
      then show ?thesis by (simp add: observation_key_def get)
    qed
    then show ?thesis using Inr o(1) inv' unfolding feedback_inv_def submit_feedback_def sq by (simp add: Let_def)
  qed
qed

lemma recompute_keeps:
  assumes "oc_wf s" and "recompute db now s = Inr s'"
  shows "oc_wf s'" and "oc_observations s' = oc_observations s"
proof -
  obtain configs where s': "s' = recompute_and_publish configs now (str_set (odb_blocks db)) (forget_removed_blocks db s)"
    using assms(2) by (auto simp: recompute_def)
  have wf: "oc_wf (forget_removed_blocks db s)"
    using assms(1) by (simp add: oc_wf_def forget_removed_blocks_def gm_wf_filter)
  note e = recompute_and_publish_effect [OF wf distinct_str_set [of "odb_blocks db"], where configs = configs and now = now, folded s']
  show "oc_wf s'" by (rule e(1))
  show "oc_observations s' = oc_observations s" using e(2) by (simp add: forget_removed_blocks_def)
qed

lemma provider_available_keeps:
  assumes "oc_wf s" and "set_provider_available db now p available s = Inr s'"
  shows "oc_wf s'" and "map_of (oc_observations s') k = Some ob \<Longrightarrow> map_of (oc_observations s) k = Some ob"
proof -
  let ?obs = "if available then oc_observations s else filter (\<lambda>((p', _), _). p' \<noteq> p) (oc_observations s)"
  let ?s = "s\<lparr> oc_availability := gm_put p available (oc_availability s), oc_observations := ?obs \<rparr>"
  obtain bs configs where s': "s' = recompute_and_publish configs now (str_set bs) ?s"
    using assms(2) by (auto simp: set_provider_available_def)
  have wf: "oc_wf ?s" using assms(1) by (simp add: oc_wf_def gm_wf_filter)
  note e = recompute_and_publish_effect [OF wf distinct_str_set [of bs], where configs = configs and now = now, folded s']
  show "oc_wf s'" by (rule e(1))
  assume "map_of (oc_observations s') k = Some ob"
  then have "(k, ob) \<in> set (oc_observations s)" using e(2) by (auto dest!: map_of_SomeD split: if_splits)
  then show "map_of (oc_observations s) k = Some ob"
    using assms(1) by (auto simp: oc_wf_def intro: map_of_is_SomeI gm_wf_distinct)
qed

lemma feedback_exec_inv:
  assumes inv: "feedback_inv n f" and n: "n < 2 ^ 64 - 1"
  shows "feedback_inv (Suc n) (feedback_exec op f)"
proof (cases op)
  case (StationFeedback db observed now ev)
  then show ?thesis
    using submit_inv [OF inv n] feedback_inv_Suc [OF inv] by (simp add: handle_feedback_def split: prod.split sum.split)
next
  case (BlockFeedback db observed now b occupied)
  then show ?thesis
    using submit_inv [OF inv n] feedback_inv_Suc [OF inv] by (simp add: set_block_feedback_def split: option.split)
next
  case (PeriodicRecompute db now)
  show ?thesis
  proof (cases "recompute db now (fs_occupancy f)")
    case (Inr occ)
    have "oc_wf (fs_occupancy f)" using inv unfolding feedback_inv_def by blast
    note k = recompute_keeps [OF this Inr]
    have "feedback_inv (Suc n) (f\<lparr> fs_occupancy := occ \<rparr>)"
      by (rule feedback_inv_occupancy [OF feedback_inv_Suc [OF inv] k(1)]) (simp only: k(2))
    then show ?thesis using PeriodicRecompute Inr by simp
  qed (use PeriodicRecompute feedback_inv_Suc [OF inv] in simp)
next
  case (ProviderAvailability db now p available)
  show ?thesis
  proof (cases "set_provider_available db now p available (fs_occupancy f)")
    case (Inr occ)
    have "oc_wf (fs_occupancy f)" using inv unfolding feedback_inv_def by blast
    from feedback_inv_occupancy [OF feedback_inv_Suc [OF inv] provider_available_keeps [OF this Inr]] show ?thesis
      using ProviderAvailability Inr by simp
  qed (use ProviderAvailability feedback_inv_Suc [OF inv] in simp)
qed

lemma feedback_run_inv:
  "feedback_inv n f \<Longrightarrow> n + length ops < 2 ^ 64 \<Longrightarrow> feedback_inv (n + length ops) (fold feedback_exec ops f)"
proof (induction ops arbitrary: n f)
  case (Cons op ops)
  have "feedback_inv (Suc n) (feedback_exec op f)" using feedback_exec_inv [OF Cons.prems(1)] Cons.prems(2) by simp
  from Cons.IH [OF this] Cons.prems(2) show ?case by simp
qed simp

text \<open>
  the station's own feedback is never refused. After any history of fewer than
  \<open>2^64 - 1\<close> feedback events, block updates, recomputations and changes of provider
  availability, a feedback event whose sensor is mapped is recorded: the observation on record
  for the sensor is afterwards the state the event reports, received now.
\<close>

theorem feedback_never_refused:
  assumes "length ops < 2 ^ 64 - 1" and "f = fold feedback_exec ops (feedback_start db0 t0)"
    and "feedback_mapping db ev = (p, Inr m)" and "resolved_mappings db = Inr configs"
  shows "\<exists>ob. map_of (oc_observations (fs_occupancy (handle_feedback db observed now ev f))) (p, int_text (fb_address ev)) = Some ob \<and>
    ob_state ob = (if fb_active ev then OccOccupied else OccFree) \<and> ob_received_at ob = now"
proof -
  let ?key = "(p, int_text (fb_address ev))"
  have inv: "feedback_inv (length ops) f" using feedback_run_inv [OF feedback_inv_start] assms(1,2) by simp
  have wf: "oc_wf (fs_occupancy f)" using inv unfolding feedback_inv_def by blast
  have res: "resolve_occupancy_sensor_mapping p (int_text (fb_address ev)) db = Inr m"
    using assms(3) by (auto simp: feedback_mapping_def Let_def split: sum.splits occupancy_error.splits service_error.splits)
  obtain seqs k where sq: "next_feedback_sequence ?key (fs_sequences f) = (seqs, k)" by fastforce
  note q = next_sequence [OF inv assms(1) sq]
  have less: "ob_sequence old < k" if "map_of (oc_observations (fs_occupancy f)) ?key = Some old" for old
    using that inv q(1) unfolding feedback_inv_def by (meson order.strict_trans1)
  let ?ob = "\<lparr> ob_provider_id = p, ob_sensor_id = int_text (fb_address ev),
      ob_state = (if fb_active ev then OccOccupied else OccFree), ob_sequence = k,
      ob_observed_at = observed, ob_received_at = 0, ob_occupant = None \<rparr>"
  obtain occ where "observe_batch db now [?ob] (fs_occupancy f) = Inr occ"
      "map_of (oc_observations occ) ?key = Some (?ob\<lparr> ob_received_at := now \<rparr>)"
  proof -
    have "\<exists>s'. observe_batch db now [?ob] (fs_occupancy f) = Inr s' \<and>
        map_of (oc_observations s') ?key = Some (?ob\<lparr> ob_received_at := now \<rparr>)"
      by (rule observe_accepts [OF wf res assms(4)]) (use q(4) less in \<open>simp_all add: observation_key_def\<close>)
    then show thesis using that by blast
  qed
  then show ?thesis using assms(3) sq by (simp add: handle_feedback_def submit_feedback_def Let_def)
qed

text \<open>A contact that reports free and then occupied.\<close>

definition contact_event :: "bool \<Rightarrow> feedback_event" where
  "contact_event on = \<lparr> fb_source = ''rbus'', fb_kind = ''rbus'', fb_address = 1, fb_active = on \<rparr>"

theorem feedback_never_refused_witness:
  "\<exists>ob. map_of (oc_observations (fs_occupancy (handle_feedback example_odb 2 2 (contact_event True)
       (feedback_exec (StationFeedback example_odb 1 1 (contact_event False)) (feedback_start example_odb 0)))))
     (''rbus'', ''1'') = Some ob \<and> ob_state ob = OccOccupied"
proof -
  let ?ops = "[StationFeedback example_odb 1 1 (contact_event False)]"
  have one: "int_text 1 = ''1''" by code_simp
  have mapped: "feedback_mapping example_odb (contact_event True) = (''rbus'', Inr (contact ''1'' True (5 * second)))"
    by (simp add: feedback_mapping_def contact_event_def one resolve_occupancy_sensor_mapping_def occupancy_provider_row_def
        occupancy_sensor_mapping_row_def example_odb_def mapping_key_def resolve_mapping_def validate_occupancy_provider_def
        validate_occupancy_sensor_mapping_def contact_def blank_iff is_space_def Let_def)
  show ?thesis
    using feedback_never_refused [OF _ refl mapped example_resolved, where ops = ?ops and ?db0.0 = example_odb and ?t0.0 = 0 and now = 2 and observed = 2]
    by (auto simp: contact_event_def one)
qed

end
