(* ===== verification/Railway.thy ===== *)
theory Railway
  imports TurnoutPath
begin

text \<open>
  Turnout commands and accessory feedback: \<^verbatim>\<open>SetTurnout\<close> of
  \<^verbatim>\<open>internal/service/railway.go\<close> with everything it calls, the handling of accessory state
  events, and the turnout statements of \<^verbatim>\<open>internal/store/railway.go\<close>.

  The definition tables of a turnout and its row are one \<open>turnout\<close> record, as the loading
  functions assemble it. What the world does during a command is an argument: the station's
  reply to the \<open>n\<close>-th accessory command ever sent, and for each step of the plan the time it
  starts, the accessory events delivered while it waits for confirmation, and how the wait ends
  when they do not confirm it. A command holds the lock of its turnout, so no other command of
  that turnout runs in between; the lock table itself and the metrics are left out.
\<close>

subsection \<open>State\<close>

record turnout_runtime_state =
  rs_id :: string
  rs_desired_position :: string
  rs_reported_position :: string
  rs_pending :: bool
  rs_reported_status :: report_state
  rs_quality :: report_quality
  rs_command_status :: command_status

datatype railway_event =
    TurnoutCommanded string string
  | TurnoutCommandFailed string string string
  | TurnoutStateChanged turnout_runtime_state

record turnout_command_runtime =
  rt_generation :: "64 word"
  rt_confirmation :: "64 word"
  rt_started_at :: "time option"
  rt_updates :: nat

type_synonym 'v endpoint_table = "(string, (string, 'v) gomap) gomap"

record railway =
  rw_turnouts :: "turnout list"
  rw_states :: "accessory_position endpoint_table"
  rw_reports :: "report_state endpoint_table"
  rw_qualities :: "report_quality endpoint_table"
  rw_generations :: "64 word endpoint_table"
  rw_runtime :: "(string, turnout_command_runtime) gomap"
  rw_events :: "railway_event list"
  rw_calls :: "(accessory_command \<times> bool) list"

definition new_railway_service :: "turnout list \<Rightarrow> railway" where
  "new_railway_service ts =
     \<lparr> rw_turnouts = ts, rw_states = [], rw_reports = [], rw_qualities = [], rw_generations = [],
       rw_runtime = [], rw_events = [], rw_calls = [] \<rparr>"

definition publish_railway :: "railway_event \<Rightarrow> railway \<Rightarrow> railway" where
  "publish_railway e r = r\<lparr> rw_events := rw_events r @ [e] \<rparr>"

text \<open>Reading and writing one endpoint of one turnout in a nested map.\<close>

definition table_row :: "'v endpoint_table \<Rightarrow> string \<Rightarrow> (string, 'v) gomap" where
  "table_row m t = gm_get [] m t"

definition table_put :: "string \<Rightarrow> string \<Rightarrow> 'v \<Rightarrow> 'v endpoint_table \<Rightarrow> 'v endpoint_table" where
  "table_put t e v m = gm_put t (gm_put e v (table_row m t)) m"

subsection \<open>Turnout rows\<close>

definition load_turnout :: "turnout \<Rightarrow> service_error + turnout" where
  "load_turnout t =
     (case normalize_turnout t of Inl _ \<Rightarrow> Inl (ErrInvalidTurnout (t_id t)) | Inr t' \<Rightarrow> Inr t')"

definition turnout_row :: "string \<Rightarrow> railway \<Rightarrow> turnout option" where
  "turnout_row i r = find (\<lambda>t. t_id t = i) (rw_turnouts r)"

definition get_turnout :: "string \<Rightarrow> railway \<Rightarrow> service_error + turnout" where
  "get_turnout i r = (case turnout_row i r of None \<Rightarrow> Inl ErrNotFound | Some t \<Rightarrow> load_turnout t)"

definition runtime_of_row :: "turnout \<Rightarrow> turnout_runtime_state" where
  "runtime_of_row t =
     \<lparr> rs_id = t_id t, rs_desired_position = t_desired_position t,
       rs_reported_position = t_reported_position t, rs_pending = t_pending t,
       rs_reported_status = default_reported_status (t_reported_status t) (t_reported_position t),
       rs_quality = default_quality (t_quality t) (t_reported_position t),
       rs_command_status = default_command_status (t_command_status t) (t_pending t)
         (t_desired_position t) (t_reported_position t) \<rparr>"

definition get_turnout_runtime_state :: "string \<Rightarrow> railway \<Rightarrow> service_error + turnout_runtime_state" where
  "get_turnout_runtime_state i r =
     (case turnout_row i r of
        None \<Rightarrow> Inl ErrNotFound
      | Some t \<Rightarrow>
          (let s = runtime_of_row t in
           if \<not> report_valid (rs_reported_status s) \<or>
              (rs_quality s \<noteq> NoQuality \<and> \<not> quality_valid (rs_quality s)) \<or>
              \<not> command_status_valid (rs_command_status s)
           then Inl (ErrInvalidTurnout i) else Inr s))"

fun load_all :: "turnout list \<Rightarrow> service_error + turnout list" where
  "load_all [] = Inr []"
| "load_all (t # ts) = rbind (load_turnout t) (\<lambda>t'. rbind (load_all ts) (\<lambda>ts'. Inr (t' # ts')))"

definition list_turnouts_by_accessory_address :: "int \<Rightarrow> railway \<Rightarrow> service_error + turnout list" where
  "list_turnouts_by_accessory_address addr r =
     load_all (sort_key t_id (filter (\<lambda>t. \<exists>e\<in>set (t_endpoints t). ep_linear_address e = addr) (rw_turnouts r)))"

definition update_turnout :: "string \<Rightarrow> (turnout \<Rightarrow> turnout) \<Rightarrow> railway \<Rightarrow> service_error + railway" where
  "update_turnout i f r =
     (if \<exists>t\<in>set (rw_turnouts r). t_id t = i
      then Inr (r\<lparr> rw_turnouts := map (\<lambda>t. if t_id t = i then f t else t) (rw_turnouts r) \<rparr>)
      else Inl ErrNotFound)"

definition set_turnout_desired_position :: "string \<Rightarrow> string \<Rightarrow> bool \<Rightarrow> railway \<Rightarrow> service_error + railway" where
  "set_turnout_desired_position i position pending =
     update_turnout i (\<lambda>t. t\<lparr> t_desired_position := position, t_pending := pending,
       t_command_status := (if pending then CommandPending else CommandIdle),
       t_desired_state := legacy_turnout_state position \<rparr>)"

definition set_turnout_observation ::
  "string \<Rightarrow> string \<Rightarrow> report_state \<Rightarrow> report_quality \<Rightarrow> railway \<Rightarrow> service_error + railway" where
  "set_turnout_observation i position st q =
     update_turnout i (\<lambda>t. t\<lparr> t_reported_position := position, t_reported_status := st, t_quality := q,
       t_reported_state := legacy_turnout_state position \<rparr>)"

definition set_turnout_command_result :: "string \<Rightarrow> bool \<Rightarrow> command_status \<Rightarrow> railway \<Rightarrow> service_error + railway" where
  "set_turnout_command_result i pending st =
     update_turnout i (\<lambda>t. t\<lparr> t_pending := pending, t_command_status := st \<rparr>)"

subsection \<open>Observations\<close>

definition quality_rank :: "report_quality \<Rightarrow> nat" where
  "quality_rank q = (case q of QualityPhysical \<Rightarrow> 3 | QualityStation \<Rightarrow> 2 | _ \<Rightarrow> 1)"

definition aggregate_accessory_quality :: "report_quality \<Rightarrow> report_quality \<Rightarrow> report_quality" where
  "aggregate_accessory_quality current fresh =
     (if \<not> quality_valid fresh then QualityAssumed
      else if quality_rank fresh < quality_rank current then fresh else current)"

fun resolve_endpoints ::
  "accessory_endpoint list \<Rightarrow> (string, accessory_position) gomap \<Rightarrow> (string, report_state) gomap \<Rightarrow>
   (string, report_quality) gomap \<Rightarrow> report_quality \<Rightarrow> (report_state \<times> report_quality) + report_quality" where
  "resolve_endpoints [] states reports qualities q = Inr q"
| "resolve_endpoints (e # es) states reports qualities q =
     (let q' = aggregate_accessory_quality q (gm_get NoQuality qualities (ep_id e)) in
      case map_of reports (ep_id e) of
        None \<Rightarrow> Inl (ReportUnknown, q')
      | Some rep \<Rightarrow>
          if rep = ReportUnknown then Inl (ReportUnknown, q')
          else if rep = ReportInvalid then Inl (ReportInvalid, q')
          else if \<not> position_valid (gm_get NoPosition states (ep_id e)) then Inl (ReportUnknown, q')
          else resolve_endpoints es states reports qualities q')"

definition resolve_turnout_observation ::
  "turnout \<Rightarrow> railway \<Rightarrow> string \<times> report_state \<times> report_quality" where
  "resolve_turnout_observation t r =
     (let states = table_row (rw_states r) (t_id t) in
      case resolve_endpoints (t_endpoints t) states (table_row (rw_reports r) (t_id t))
             (table_row (rw_qualities r) (t_id t)) QualityPhysical of
        Inl (st, q) \<Rightarrow> ([], st, q)
      | Inr q \<Rightarrow>
          (case resolve_turnout_position t states of
             None \<Rightarrow> ([], ReportInvalid, q)
           | Some p \<Rightarrow> (p, ReportKnown, q)))"

definition signal_turnout_update :: "string \<Rightarrow> railway \<Rightarrow> railway" where
  "signal_turnout_update i r =
     (case map_of (rw_runtime r) i of
        None \<Rightarrow> r
      | Some rt \<Rightarrow> r\<lparr> rw_runtime := gm_put i (rt\<lparr> rt_updates := Suc (rt_updates rt) \<rparr>) (rw_runtime r) \<rparr>)"

definition publish_turnout_state :: "string \<Rightarrow> railway \<Rightarrow> railway" where
  "publish_turnout_state i r =
     (case get_turnout_runtime_state i r of
        Inl _ \<Rightarrow> r
      | Inr s \<Rightarrow> publish_railway (TurnoutStateChanged s) r)"

definition persist_turnout_observation ::
  "string \<Rightarrow> string \<Rightarrow> report_state \<Rightarrow> report_quality \<Rightarrow> railway \<Rightarrow> railway" where
  "persist_turnout_observation i position st q r =
     (case set_turnout_observation i position st q r of
        Inl _ \<Rightarrow> r
      | Inr r' \<Rightarrow> publish_turnout_state i r')"

text \<open>
  Recording an event for one endpoint, under the mutex. \<open>None\<close> is a report the event cannot
  give: neither a known position nor a valid report state.
\<close>

definition record_accessory_event ::
  "accessory_state_event \<Rightarrow> string \<Rightarrow> string \<Rightarrow> railway \<Rightarrow> railway option" where
  "record_accessory_event ev i e r =
     (let report = (if has_known_position ev then Some (ev_position ev, ReportKnown)
                    else if report_valid (ev_state ev) then Some (NoPosition, ev_state ev) else None)
      in case report of
           None \<Rightarrow> None
         | Some (p, st) \<Rightarrow>
             Some (r\<lparr> rw_states := table_put i e p (rw_states r),
                      rw_reports := table_put i e st (rw_reports r),
                      rw_qualities := (if quality_valid (ev_quality ev)
                        then table_put i e (ev_quality ev) (rw_qualities r) else rw_qualities r),
                      rw_generations :=
                        (case map_of (rw_runtime r) i of
                           None \<Rightarrow> rw_generations r
                         | Some rt \<Rightarrow>
                             if (case (ev_observed_at ev, rt_started_at rt) of
                                   (Some at, Some started) \<Rightarrow> started \<le> at | _ \<Rightarrow> True)
                             then table_put i e (rt_confirmation rt) (rw_generations r)
                             else rw_generations r) \<rparr>))"

definition handle_turnout_event :: "accessory_state_event \<Rightarrow> turnout \<Rightarrow> railway \<Rightarrow> railway" where
  "handle_turnout_event ev t r =
     (case find (\<lambda>e. ep_linear_address e = ev_address ev) (t_endpoints t) of
        None \<Rightarrow> r
      | Some e \<Rightarrow>
          (case record_accessory_event ev (t_id t) (ep_id e) r of
             None \<Rightarrow> r
           | Some r1 \<Rightarrow>
               (case resolve_turnout_observation t r1 of
                  (position, st, q) \<Rightarrow>
                    signal_turnout_update (t_id t) (persist_turnout_observation (t_id t) position st q r1))))"

definition handle_accessory_state_event :: "accessory_state_event \<Rightarrow> railway \<Rightarrow> railway" where
  "handle_accessory_state_event ev r =
     (case list_turnouts_by_accessory_address (ev_address ev) r of
        Inl _ \<Rightarrow> r
      | Inr ts \<Rightarrow> fold (handle_turnout_event ev) ts r)"

definition seed_endpoint :: "turnout \<Rightarrow> turnout_position_definition \<Rightarrow> accessory_endpoint \<Rightarrow> railway \<Rightarrow> railway" where
  "seed_endpoint t p e r =
     (if gm_has (table_row (rw_reports r) (t_id t)) (ep_id e) then r
      else r\<lparr> rw_states := table_put (t_id t) (ep_id e)
                (physical_accessory_position e (gm_get NoPosition (pd_endpoints p) (ep_id e))) (rw_states r),
              rw_reports := table_put (t_id t) (ep_id e) ReportKnown (rw_reports r),
              rw_qualities := table_put (t_id t) (ep_id e)
                (if quality_valid (t_quality t) then t_quality t else QualityAssumed) (rw_qualities r) \<rparr>)"

definition seed_accessory_state :: "turnout \<Rightarrow> railway \<Rightarrow> railway" where
  "seed_accessory_state t r =
     (case turnout_position t (t_reported_position t) of
        None \<Rightarrow> r
      | Some p \<Rightarrow> fold (seed_endpoint t p) (t_endpoints t) r)"

subsection \<open>Commands\<close>

definition begin_turnout_command :: "string \<Rightarrow> railway \<Rightarrow> railway \<times> 64 word" where
  "begin_turnout_command i r =
     (let rt = (case map_of (rw_runtime r) i of
                  None \<Rightarrow> \<lparr> rt_generation = 0, rt_confirmation = 0, rt_started_at = None, rt_updates = 0 \<rparr>
                | Some rt \<Rightarrow> rt);
          rt' = rt\<lparr> rt_generation := rt_generation rt + 1 \<rparr>
      in (signal_turnout_update i (r\<lparr> rw_runtime := gm_put i rt' (rw_runtime r) \<rparr>), rt_generation rt'))"

definition begin_turnout_step :: "time \<Rightarrow> string \<Rightarrow> 64 word \<Rightarrow> railway \<Rightarrow> railway \<times> 64 word" where
  "begin_turnout_step now i generation r =
     (case map_of (rw_runtime r) i of
        None \<Rightarrow> (r, 0)
      | Some rt \<Rightarrow>
          if rt_generation rt \<noteq> generation then (r, 0)
          else
            (let rt' = rt\<lparr> rt_confirmation := rt_confirmation rt + 1, rt_started_at := Some now \<rparr>
             in (signal_turnout_update i (r\<lparr> rw_runtime := gm_put i rt' (rw_runtime r) \<rparr>), rt_confirmation rt')))"

datatype wait_end = TimedOut | ContextDone

fun wait_error :: "wait_end \<Rightarrow> service_error" where
  "wait_error TimedOut = ErrTurnoutConfirmationTimeout"
| "wait_error ContextDone = ErrContextCancelled"

text \<open>One turn of the wait loop: \<open>None\<close> to keep waiting, otherwise the result.\<close>

definition check_turnout_position ::
  "string \<Rightarrow> 64 word \<Rightarrow> 64 word \<Rightarrow> string \<Rightarrow> string list \<Rightarrow> railway \<Rightarrow> service_error option option" where
  "check_turnout_position i generation confirmation target changed r =
     (case map_of (rw_runtime r) i of
        None \<Rightarrow> Some (Some ErrTurnoutSuperseded)
      | Some rt \<Rightarrow>
          if rt_generation rt \<noteq> generation then Some (Some ErrTurnoutSuperseded)
          else
            (let confirmed = (\<forall>e\<in>set changed. gm_get 0 (table_row (rw_generations r) i) e = confirmation) in
             case get_turnout_runtime_state i r of
               Inl err \<Rightarrow> Some (Some err)
             | Inr s \<Rightarrow>
                 if rs_reported_status s = ReportKnown \<and> rs_reported_position s = target \<and> confirmed
                 then Some None else None))"

fun wait_for_turnout_position ::
  "string \<Rightarrow> 64 word \<Rightarrow> 64 word \<Rightarrow> string \<Rightarrow> string list \<Rightarrow> accessory_state_event list \<Rightarrow> wait_end \<Rightarrow>
   railway \<Rightarrow> railway \<times> service_error option" where
  "wait_for_turnout_position i generation confirmation target changed evs fin r =
     (case check_turnout_position i generation confirmation target changed r of
        Some result \<Rightarrow> (r, result)
      | None \<Rightarrow>
          (case evs of
             [] \<Rightarrow> (r, Some (wait_error fin))
           | ev # evs' \<Rightarrow>
               wait_for_turnout_position i generation confirmation target changed evs' fin
                 (handle_accessory_state_event ev r)))"

definition fail_turnout_command_with_status ::
  "string \<Rightarrow> string \<Rightarrow> string \<Rightarrow> command_status \<Rightarrow> service_error \<Rightarrow> railway \<Rightarrow> railway \<times> service_error option" where
  "fail_turnout_command_with_status i target reason st cause r =
     (case set_turnout_command_result i False st r of
        Inl e \<Rightarrow> (r, Some (ErrJoin cause e))
      | Inr r' \<Rightarrow>
          (publish_turnout_state i (publish_railway (TurnoutCommandFailed i target reason) r'), Some cause))"

definition fail_turnout_command ::
  "string \<Rightarrow> string \<Rightarrow> string \<Rightarrow> service_error \<Rightarrow> railway \<Rightarrow> railway \<times> service_error option" where
  "fail_turnout_command i target reason = fail_turnout_command_with_status i target reason CommandFailed"

definition succeed_turnout_command :: "string \<Rightarrow> railway \<Rightarrow> railway \<times> service_error option" where
  "succeed_turnout_command i r =
     (case set_turnout_command_result i False CommandSucceeded r of
        Inl e \<Rightarrow> (r, Some e)
      | Inr r' \<Rightarrow> (publish_turnout_state i r', None))"

text \<open>
  The loop over the endpoints that change in one step; \<open>Some (reason, error)\<close> when it fails.
\<close>

fun send_endpoints ::
  "(nat \<Rightarrow> station_error option) \<Rightarrow> string \<Rightarrow> turnout_position_definition \<Rightarrow> string list \<Rightarrow>
   accessory_endpoint list \<Rightarrow> railway \<Rightarrow> railway \<times> (string \<times> service_error) option" where
  "send_endpoints reply i p changed [] r = (r, None)"
| "send_endpoints reply i p changed (e # es) r =
     (if ep_id e \<notin> set changed then send_endpoints reply i p changed es r
      else case map_of (pd_endpoints p) (ep_id e) of
             None \<Rightarrow> (r, Some (''invalid_definition'', ErrTurnoutTransitionFailed (ErrMessage ''invalid turnout definition'')))
           | Some required \<Rightarrow>
               (let answer = reply (length (rw_calls r));
                    r' = r\<lparr> rw_calls := rw_calls r @
                      [(\<lparr> ac_address = ep_linear_address e,
                           ac_position = physical_accessory_position e required \<rparr>, answer = None)] \<rparr>
                in case answer of
                     Some err \<Rightarrow> (r', Some (''driver_error'', ErrTurnoutTransitionFailed (ErrStation err)))
                   | None \<Rightarrow> send_endpoints reply i p changed es r'))"

record step_world =
  sw_now :: time
  sw_events :: "accessory_state_event list"
  sw_end :: wait_end

definition quiet_world :: step_world where
  "quiet_world = \<lparr> sw_now = 0, sw_events = [], sw_end = TimedOut \<rparr>"

text \<open>One step of the plan: command what changes, then wait for the confirmation.\<close>

definition turnout_step ::
  "(nat \<Rightarrow> station_error option) \<Rightarrow> turnout \<Rightarrow> string \<Rightarrow> 64 word \<Rightarrow> step_world \<Rightarrow> string \<Rightarrow>
   turnout_position_definition \<Rightarrow> railway \<Rightarrow> railway \<times> service_error option" where
  "turnout_step reply t target generation w current p r =
     (let i = t_id t;
          changed = changed_turnout_endpoints t current (pd_id p);
          (r1, confirmation) = begin_turnout_step (sw_now w) i generation r
      in case send_endpoints reply i p changed (t_endpoints t) r1 of
           (r2, Some (reason, err)) \<Rightarrow> fail_turnout_command i target reason err r2
         | (r2, None) \<Rightarrow>
             (case wait_for_turnout_position i generation confirmation (pd_id p) changed
                     (sw_events w) (sw_end w) r2 of
                (r3, None) \<Rightarrow> (r3, None)
              | (r3, Some err) \<Rightarrow>
                  if err = ErrTurnoutConfirmationTimeout
                  then fail_turnout_command_with_status i target ''confirmation_timeout'' CommandTimeout err r3
                  else fail_turnout_command_with_status i target ''confirmation_interrupted'' CommandFailed err r3))"

fun follow_path ::
  "(nat \<Rightarrow> station_error option) \<Rightarrow> turnout \<Rightarrow> string \<Rightarrow> 64 word \<Rightarrow> step_world list \<Rightarrow> string \<Rightarrow>
   turnout_position_definition list \<Rightarrow> railway \<Rightarrow> railway \<times> service_error option" where
  "follow_path reply t target generation ws current [] r = succeed_turnout_command (t_id t) r"
| "follow_path reply t target generation ws current (p # ps) r =
     (if changed_turnout_endpoints t current (pd_id p) = []
      then follow_path reply t target generation ws (pd_id p) ps r
      else
        (case turnout_step reply t target generation (case ws of [] \<Rightarrow> quiet_world | w # _ \<Rightarrow> w) current p r of
           (r', Some err) \<Rightarrow> (r', Some err)
         | (r', None) \<Rightarrow> follow_path reply t target generation (tl ws) (pd_id p) ps r'))"

definition set_turnout ::
  "health_report option \<Rightarrow> (nat \<Rightarrow> station_error option) \<Rightarrow> step_world list \<Rightarrow> user \<Rightarrow> string \<Rightarrow> string \<Rightarrow>
   railway \<Rightarrow> (railway \<times> service_error option) option" where
  "set_turnout health reply ws u i position r =
     (if \<not> allowed (u_role u) PermissionDispatch then Some (r, Some ErrPermissionDenied)
      else case check_command_allowed health of
        Some e \<Rightarrow> Some (r, Some (ErrStation e))
      | None \<Rightarrow>
          (case get_turnout i r of
             Inl e \<Rightarrow> Some (r, Some e)
           | Inr t \<Rightarrow>
               if turnout_position t position = None then Some (r, Some ErrInvalidTurnoutPosition)
               else
                 (let (r1, generation) = begin_turnout_command i (seed_accessory_state t r) in
                  case set_turnout_desired_position i position True r1 of
                    Inl e \<Rightarrow> Some (r1, Some e)
                  | Inr r2 \<Rightarrow>
                      (let r3 = publish_railway (TurnoutCommanded i position) r2 in
                       case safe_turnout_path t (t_reported_position t) position of
                         None \<Rightarrow> None
                       | Some (Inl e) \<Rightarrow>
                           Some (fail_turnout_command i position ''unsafe_transition'' (ErrTurnoutTransitionFailed e) r3)
                       | Some (Inr []) \<Rightarrow> Some (succeed_turnout_command i r3)
                       | Some (Inr path) \<Rightarrow>
                           Some (follow_path reply t position generation ws (t_reported_position t) path r3)))))"

end
