(* ===== verification/RailwayFacts.thy ===== *)
theory RailwayFacts
  imports Railway
begin

text \<open>
  What a turnout command guarantees: it always ends, it never leaves the turnout pending, it
  succeeds only when the turnout has been reported in the target position after its last
  command, and from a known position it moves one motor at a time, so that every state the
  motors pass through is a declared position.
\<close>

declare wait_for_turnout_position.simps [simp del]

subsection \<open>Rows\<close>

abbreviation row_ids :: "railway \<Rightarrow> string list" where
  "row_ids r \<equiv> map t_id (rw_turnouts r)"

lemma turnout_row_update:
  assumes "update_turnout i f r = Inr r'" and "\<And>t. t_id (f t) = t_id t"
  shows "turnout_row j r' = map_option (\<lambda>t. if t_id t = i then f t else t) (turnout_row j r)"
    and "row_ids r' = row_ids r" and "rw_calls r' = rw_calls r"
proof -
  have r': "r' = r\<lparr> rw_turnouts := map (\<lambda>t. if t_id t = i then f t else t) (rw_turnouts r) \<rparr>"
    using assms(1) by (simp add: update_turnout_def split: if_splits)
  have "find (\<lambda>t. t_id t = j) (map (\<lambda>t. if t_id t = i then f t else t) ts) =
      map_option (\<lambda>t. if t_id t = i then f t else t) (find (\<lambda>t. t_id t = j) ts)" for ts
    by (induction ts) (auto simp: assms(2))
  then show "turnout_row j r' = map_option (\<lambda>t. if t_id t = i then f t else t) (turnout_row j r)"
    by (simp add: turnout_row_def r')
  show "row_ids r' = row_ids r" "rw_calls r' = rw_calls r" using assms(2) by (simp_all add: r')
qed

lemma turnout_row_Some: "(\<exists>t. turnout_row i r = Some t) \<longleftrightarrow> i \<in> set (row_ids r)"
proof
  assume "\<exists>t. turnout_row i r = Some t"
  then show "i \<in> set (row_ids r)" by (auto simp: turnout_row_def find_Some_iff image_iff Bex_def)
      (metis nth_mem)
next
  assume "i \<in> set (row_ids r)"
  then have "turnout_row i r \<noteq> None" by (auto simp: turnout_row_def find_None_iff)
  then show "\<exists>t. turnout_row i r = Some t" by blast
qed

lemma turnout_row_id: "turnout_row i r = Some t \<Longrightarrow> t_id t = i"
  by (auto simp: turnout_row_def find_Some_iff)

text \<open>Operations that neither send a command nor add or remove a row.\<close>

definition quiet :: "railway \<Rightarrow> railway \<Rightarrow> bool" where
  "quiet r r' \<longleftrightarrow> rw_calls r' = rw_calls r \<and> row_ids r' = row_ids r"

lemma quiet_refl [simp]: "quiet r r"
  by (simp add: quiet_def)

lemma quiet_trans: "quiet a b \<Longrightarrow> quiet b c \<Longrightarrow> quiet a c"
  by (simp add: quiet_def)

lemma quiet_publish [simp]: "quiet r (publish_railway e r)"
  by (simp add: quiet_def publish_railway_def)

lemma quiet_publish_state [simp]: "quiet r (publish_turnout_state i r)"
  by (simp add: publish_turnout_state_def split: sum.split)

lemma quiet_signal [simp]: "quiet r (signal_turnout_update i r)"
  by (simp add: quiet_def signal_turnout_update_def split: option.split)

lemma quiet_persist: "quiet r (persist_turnout_observation i p st q r)"
proof (cases "set_turnout_observation i p st q r")
  case (Inr r')
  then have "quiet r r'"
    using turnout_row_update(2,3) [of i _ r r'] unfolding set_turnout_observation_def quiet_def by fastforce
  then show ?thesis using quiet_trans [OF _ quiet_publish_state] Inr by (simp add: persist_turnout_observation_def)
qed (simp add: persist_turnout_observation_def)

lemma quiet_record: "record_accessory_event ev i e r = Some r' \<Longrightarrow> quiet r r'"
  by (auto simp: record_accessory_event_def quiet_def Let_def split: if_splits)

lemma quiet_turnout_event: "quiet r (handle_turnout_event ev t r)"
  unfolding handle_turnout_event_def
  by (auto split: option.split prod.split intro: quiet_trans [OF quiet_record] quiet_trans [OF quiet_persist quiet_signal])

lemma quiet_fold: "(\<And>x r. quiet r (f x r)) \<Longrightarrow> quiet r (fold f xs r)"
  by (induction xs arbitrary: r) (auto intro: quiet_trans)

lemma quiet_event: "quiet r (handle_accessory_state_event ev r)"
  by (auto simp: handle_accessory_state_event_def split: sum.split intro: quiet_fold quiet_turnout_event)

lemma quiet_seed: "quiet r (seed_accessory_state t r)"
proof -
  have "quiet r (seed_endpoint t p e r)" for p e r by (simp add: seed_endpoint_def quiet_def)
  then show ?thesis by (auto simp: seed_accessory_state_def split: option.split intro: quiet_fold)
qed

lemma quiet_begin_command: "begin_turnout_command i r = (r', g) \<Longrightarrow> quiet r r'"
  by (auto simp: begin_turnout_command_def Let_def quiet_def signal_turnout_update_def split: option.splits)

lemma quiet_begin_step: "begin_turnout_step now i g r = (r', c) \<Longrightarrow> quiet r r'"
  by (auto simp: begin_turnout_step_def Let_def quiet_def signal_turnout_update_def
      split: option.splits if_splits)

subsection \<open>Waiting\<close>

lemma wait_effect:
  "wait_for_turnout_position i g c target changed evs fin r = (r', res) \<Longrightarrow>
     quiet r r' \<and> (res = None \<longrightarrow> check_turnout_position i g c target changed r' = Some None)"
proof (induction evs arbitrary: r)
  case Nil
  then show ?case by (subst (asm) wait_for_turnout_position.simps) (auto split: option.splits)
next
  case (Cons ev evs)
  show ?case
  proof (cases "check_turnout_position i g c target changed r")
    case None
    then have "wait_for_turnout_position i g c target changed evs fin (handle_accessory_state_event ev r) = (r', res)"
      using Cons.prems by (subst (asm) wait_for_turnout_position.simps) simp
    from Cons.IH [OF this] show ?thesis using quiet_trans [OF quiet_event] by blast
  next
    case (Some x)
    then show ?thesis using Cons.prems by (subst (asm) wait_for_turnout_position.simps) auto
  qed
qed

lemma confirmed_reported:
  assumes "check_turnout_position i g c target changed r = Some None"
  obtains t where "turnout_row i r = Some t" "t_reported_position t = target"
  using assms
  by (auto simp: check_turnout_position_def get_turnout_runtime_state_def runtime_of_row_def Let_def
      split: option.splits if_splits sum.splits)

subsection \<open>Ending a command\<close>

definition settled :: "string \<Rightarrow> string \<Rightarrow> railway \<Rightarrow> service_error option \<Rightarrow> bool" where
  "settled i target r res \<longleftrightarrow>
     (\<exists>t. turnout_row i r = Some t \<and> \<not> t_pending t \<and>
        (case res of
           None \<Rightarrow> t_command_status t = CommandSucceeded \<and> t_reported_position t = target
         | Some _ \<Rightarrow> t_command_status t = CommandFailed \<or> t_command_status t = CommandTimeout))"

lemma turnout_row_publish [simp]:
  "turnout_row i (publish_railway e r) = turnout_row i r"
  "turnout_row i (publish_turnout_state j r) = turnout_row i r"
  by (simp_all add: turnout_row_def publish_turnout_state_def publish_railway_def split: sum.split)

lemma command_result_row:
  assumes "i \<in> set (row_ids r)"
  obtains r' where "set_turnout_command_result i b st r = Inr r'" and "quiet r r'"
    and "\<And>t. turnout_row i r = Some t \<Longrightarrow>
      turnout_row i r' = Some (t\<lparr> t_pending := b, t_command_status := st \<rparr>)"
proof -
  have "\<exists>t\<in>set (rw_turnouts r). t_id t = i" using assms by auto
  then obtain r' where r': "set_turnout_command_result i b st r = Inr r'"
    by (simp add: set_turnout_command_result_def update_turnout_def)
  note u = turnout_row_update [OF r' [unfolded set_turnout_command_result_def]]
  show thesis
    by (rule that [OF r']) (use u turnout_row_id in \<open>auto simp: quiet_def\<close>)
qed

lemma fail_settled:
  assumes "i \<in> set (row_ids r)" and "st = CommandFailed \<or> st = CommandTimeout"
    and "fail_turnout_command_with_status i target reason st cause r = (r', res)"
  shows "settled i target r' res \<and> quiet r r' \<and> res = Some cause"
proof -
  obtain r1 where r1: "set_turnout_command_result i False st r = Inr r1" "quiet r r1"
    "\<And>t. turnout_row i r = Some t \<Longrightarrow> turnout_row i r1 = Some (t\<lparr> t_pending := False, t_command_status := st \<rparr>)"
    using command_result_row [OF assms(1)] by metis
  obtain t where "turnout_row i r = Some t" using turnout_row_Some assms(1) by blast
  then show ?thesis
    using assms(2,3) r1(1,3) quiet_trans [OF r1(2) quiet_trans [OF quiet_publish quiet_publish_state]]
    by (auto simp: fail_turnout_command_with_status_def settled_def)
qed

lemma succeed_settled:
  assumes "turnout_row i r = Some t" and "t_reported_position t = target"
    and "succeed_turnout_command i r = (r', res)"
  shows "settled i target r' res \<and> quiet r r' \<and> res = None"
proof -
  have "i \<in> set (row_ids r)" using assms(1) turnout_row_Some by blast
  then obtain r1 where r1: "set_turnout_command_result i False CommandSucceeded r = Inr r1" "quiet r r1"
    "\<And>t. turnout_row i r = Some t \<Longrightarrow>
      turnout_row i r1 = Some (t\<lparr> t_pending := False, t_command_status := CommandSucceeded \<rparr>)"
    using command_result_row by metis
  then show ?thesis
    using assms quiet_trans [OF r1(2) quiet_publish_state]
    by (auto simp: succeed_turnout_command_def settled_def)
qed

subsection \<open>Commanding a step\<close>

text \<open>The accessory commands that take the motors from one position to the next.\<close>

definition endpoint_command :: "turnout_position_definition \<Rightarrow> accessory_endpoint \<Rightarrow> accessory_command" where
  "endpoint_command p e =
     \<lparr> ac_address = ep_linear_address e,
       ac_position = physical_accessory_position e (gm_get NoPosition (pd_endpoints p) (ep_id e)) \<rparr>"

definition step_commands :: "turnout \<Rightarrow> string \<Rightarrow> turnout_position_definition \<Rightarrow> accessory_command list" where
  "step_commands t current p =
     map (endpoint_command p) (filter (\<lambda>e. ep_id e \<in> set (changed_turnout_endpoints t current (pd_id p))) (t_endpoints t))"

fun path_commands :: "turnout \<Rightarrow> string \<Rightarrow> turnout_position_definition list \<Rightarrow> accessory_command list" where
  "path_commands t current [] = []"
| "path_commands t current (p # ps) = step_commands t current p @ path_commands t (pd_id p) ps"

lemma send_endpoints_effect:
  assumes "send_endpoints reply i p changed es r = (r', res)"
    and "\<forall>e\<in>set es. map_of (pd_endpoints p) (ep_id e) \<noteq> None"
  shows "rw_turnouts r' = rw_turnouts r \<and>
    (res = None \<longrightarrow> rw_calls r' = rw_calls r @
       map (\<lambda>c. (c, True)) (map (endpoint_command p) (filter (\<lambda>e. ep_id e \<in> set changed) es)))"
  using assms
proof (induction es arbitrary: r)
  case Nil
  then show ?case by simp
next
  case (Cons e es)
  show ?case
  proof (cases "ep_id e \<in> set changed")
    case False
    then show ?thesis using Cons by simp
  next
    case True
    obtain v where v: "map_of (pd_endpoints p) (ep_id e) = Some v" using Cons.prems(2) by auto
    have c: "endpoint_command p e = \<lparr> ac_address = ep_linear_address e, ac_position = physical_accessory_position e v \<rparr>"
      by (simp add: endpoint_command_def gm_get_def v)
    show ?thesis
    proof (cases "reply (length (rw_calls r))")
      case None
      let ?r = "r\<lparr> rw_calls := rw_calls r @ [(endpoint_command p e, True)] \<rparr>"
      have "send_endpoints reply i p changed es ?r = (r', res)"
        using Cons.prems(1) True v None by (simp add: c Let_def)
      from Cons.IH [OF this] Cons.prems(2) show ?thesis using True by simp
    next
      case (Some err)
      then show ?thesis using Cons.prems(1) True v by (auto simp: Let_def)
    qed
  qed
qed

lemma step_effect:
  assumes row: "t_id t \<in> set (row_ids r)" and cover: "\<forall>e\<in>set (t_endpoints t). map_of (pd_endpoints p) (ep_id e) \<noteq> None"
    and run: "turnout_step reply t target g w current p r = (r', res)"
  shows "row_ids r' = row_ids r" and "res \<noteq> None \<Longrightarrow> settled (t_id t) target r' res"
    and "res = None \<Longrightarrow> rw_calls r' = rw_calls r @ map (\<lambda>c. (c, True)) (step_commands t current p)"
    and "res = None \<Longrightarrow> \<exists>row. turnout_row (t_id t) r' = Some row \<and> t_reported_position row = pd_id p"
proof -
  let ?i = "t_id t" and ?changed = "changed_turnout_endpoints t current (pd_id p)"
  obtain r1 c where b: "begin_turnout_step (sw_now w) ?i g r = (r1, c)" by fastforce
  obtain r2 sent where s: "send_endpoints reply ?i p ?changed (t_endpoints t) r1 = (r2, sent)" by fastforce
  note q1 = quiet_begin_step [OF b]
  note eff = send_endpoints_effect [OF s cover]
  have ids2: "row_ids r2 = row_ids r" using eff q1 by (simp add: quiet_def)
  then have in2: "?i \<in> set (row_ids r2)" using row by simp
  have calls2: "sent = None \<Longrightarrow> rw_calls r2 = rw_calls r @ map (\<lambda>c. (c, True)) (step_commands t current p)"
    using eff q1 by (simp add: quiet_def step_commands_def)
  have "row_ids r' = row_ids r \<and> (res \<noteq> None \<longrightarrow> settled ?i target r' res) \<and>
    (res = None \<longrightarrow> rw_calls r' = rw_calls r @ map (\<lambda>c. (c, True)) (step_commands t current p) \<and>
      (\<exists>row. turnout_row ?i r' = Some row \<and> t_reported_position row = pd_id p))"
  proof (cases sent)
    case (Some re)
    obtain reason err where re: "re = (reason, err)" by (cases re)
    have "fail_turnout_command_with_status ?i target reason CommandFailed err r2 = (r', res)"
      using run b s Some re by (simp add: turnout_step_def Let_def fail_turnout_command_def)
    from fail_settled [OF in2 _ this] show ?thesis using ids2 by (auto simp: quiet_def)
  next
    case None
    obtain r3 w3 where w: "wait_for_turnout_position ?i g c (pd_id p) ?changed (sw_events w) (sw_end w) r2 = (r3, w3)"
      by fastforce
    note weff = wait_effect [OF w]
    have in3: "?i \<in> set (row_ids r3)" using weff in2 by (simp add: quiet_def)
    show ?thesis
    proof (cases w3)
      case None': None
      have r': "r' = r3" "res = None" using run b s None w None' by (simp_all add: turnout_step_def Let_def)
      obtain row where "turnout_row ?i r3 = Some row" "t_reported_position row = pd_id p"
        using confirmed_reported weff None' by metis
      then show ?thesis using r' weff ids2 calls2 [OF None] by (simp add: quiet_def)
    next
      case (Some err)
      have "\<exists>reason st. (st = CommandFailed \<or> st = CommandTimeout) \<and>
          fail_turnout_command_with_status ?i target reason st err r3 = (r', res)"
        using run b s None w Some by (auto simp: turnout_step_def Let_def split: if_splits)
      then obtain reason st where "st = CommandFailed \<or> st = CommandTimeout"
          "fail_turnout_command_with_status ?i target reason st err r3 = (r', res)" by blast
      from fail_settled [OF in3 this] show ?thesis using weff ids2 by (auto simp: quiet_def)
    qed
  qed
  then show "row_ids r' = row_ids r" "res \<noteq> None \<Longrightarrow> settled (t_id t) target r' res"
    "res = None \<Longrightarrow> rw_calls r' = rw_calls r @ map (\<lambda>c. (c, True)) (step_commands t current p)"
    "res = None \<Longrightarrow> \<exists>row. turnout_row (t_id t) r' = Some row \<and> t_reported_position row = pd_id p" by blast+
qed

text \<open>Following a plan in which every step changes something.\<close>

fun plan_moves :: "turnout \<Rightarrow> string \<Rightarrow> turnout_position_definition list \<Rightarrow> bool" where
  "plan_moves t current [] \<longleftrightarrow> True"
| "plan_moves t current (p # ps) \<longleftrightarrow> changed_turnout_endpoints t current (pd_id p) \<noteq> [] \<and> plan_moves t (pd_id p) ps"

lemma follow_path_effect:
  assumes "t_id t \<in> set (row_ids r)"
    and "\<forall>p\<in>set ps. \<forall>e\<in>set (t_endpoints t). map_of (pd_endpoints p) (ep_id e) \<noteq> None"
    and "plan_moves t current ps"
    and "ps = [] \<Longrightarrow> \<exists>row. turnout_row (t_id t) r = Some row \<and> t_reported_position row = target"
    and "ps \<noteq> [] \<Longrightarrow> pd_id (last ps) = target"
    and "follow_path reply t target g ws current ps r = (r', res)"
  shows "settled (t_id t) target r' res \<and>
    (res = None \<longrightarrow> rw_calls r' = rw_calls r @ map (\<lambda>c. (c, True)) (path_commands t current ps))"
  using assms
proof (induction ps arbitrary: ws current r)
  case Nil
  then obtain row where "turnout_row (t_id t) r = Some row" "t_reported_position row = target" by blast
  then show ?case using succeed_settled Nil.prems(6) by (fastforce simp: quiet_def)
next
  case (Cons p ps)
  let ?w = "case ws of [] \<Rightarrow> quiet_world | w # _ \<Rightarrow> w"
  have ch: "changed_turnout_endpoints t current (pd_id p) \<noteq> []" using Cons.prems(3) by simp
  obtain r1 res1 where one: "turnout_step reply t target g ?w current p r = (r1, res1)" by fastforce
  have cover: "\<forall>e\<in>set (t_endpoints t). map_of (pd_endpoints p) (ep_id e) \<noteq> None" using Cons.prems(2) by simp
  note eff = step_effect [OF Cons.prems(1) cover one]
  show ?case
  proof (cases res1)
    case (Some err)
    then have "r' = r1" "res = Some err" using Cons.prems(6) ch one by simp_all
    then show ?thesis using eff(2) Some by simp
  next
    case None
    then have rest: "follow_path reply t target g (tl ws) (pd_id p) ps r1 = (r', res)"
      using Cons.prems(6) ch one by simp
    have in1: "t_id t \<in> set (row_ids r1)" using eff(1) Cons.prems(1) by simp
    have last: "ps = [] \<Longrightarrow> \<exists>row. turnout_row (t_id t) r1 = Some row \<and> t_reported_position row = target"
      "ps \<noteq> [] \<Longrightarrow> pd_id (last ps) = target"
      using eff(4) None Cons.prems(5) by auto
    show ?thesis
      using Cons.IH [OF in1 _ _ last rest] Cons.prems(2,3) eff(3) None by simp
  qed
qed

subsection \<open>Plans move\<close>

lemma changed_known:
  assumes d: "distinct (map pd_id (t_positions t))" and p: "p \<in> set (t_positions t)" and q: "q \<in> set (t_positions t)"
  shows "set (changed_turnout_endpoints t (pd_id p) (pd_id q)) = ep_id ` set (filter (\<lambda>e.
      gm_get NoPosition (pd_endpoints p) (ep_id e) \<noteq> gm_get NoPosition (pd_endpoints q) (ep_id e)) (t_endpoints t))"
proof -
  have "turnout_position t (pd_id p) = Some p" using turnout_position_Some [OF d] p by blast
  then show ?thesis
    by (simp add: changed_turnout_endpoints_def position_or_zero_declared [OF d q])
qed

lemma safe_sequence_moves:
  assumes d: "distinct (map pd_id (t_positions t))"
  shows "p \<in> set (t_positions t) \<Longrightarrow> safe_sequence t p qs \<Longrightarrow> plan_moves t (pd_id p) qs"
proof (induction qs arbitrary: p)
  case Nil
  then show ?case by simp
next
  case (Cons q qs)
  then have q: "q \<in> set (t_positions t)" "endpoint_vector_distance t p q = 1" "safe_sequence t q qs" by simp_all
  then have "filter (\<lambda>e. gm_get NoPosition (pd_endpoints p) (ep_id e) \<noteq> gm_get NoPosition (pd_endpoints q) (ep_id e))
      (t_endpoints t) \<noteq> []" by (auto simp: endpoint_vector_distance_def)
  then have "set (changed_turnout_endpoints t (pd_id p) (pd_id q)) \<noteq> {}"
    unfolding changed_known [OF d Cons.prems(1) q(1)] by (simp only: image_is_empty set_empty) simp
  then show ?case using Cons.IH [OF q(1,3)] by auto
qed

lemma unknown_moves:
  assumes "turnout_position t [] = None" and "t_endpoints t \<noteq> []"
  shows "plan_moves t [] [p]"
proof -
  have "set (changed_turnout_endpoints t [] (pd_id p)) = ep_id ` set (t_endpoints t)"
    using assms(1) by (simp add: changed_turnout_endpoints_def)
  then show ?thesis using assms(2) by auto
qed

subsection \<open>A command as a whole\<close>

lemma get_turnout_Inr:
  assumes "get_turnout i r = Inr t" and "\<forall>row\<in>set (rw_turnouts r). t_endpoints row \<noteq> []"
  obtains row where "turnout_row i r = Some row" and "validate_turnout t = None" and "t_id t = i"
    and "t_reported_position t = t_reported_position row"
proof -
  obtain row where row: "turnout_row i r = Some row" and "load_turnout row = Inr t"
    using assms(1) by (auto simp: get_turnout_def split: option.splits)
  then have n: "normalize_turnout row = Inr t" by (auto simp: load_turnout_def split: sum.splits)
  have "row \<in> set (rw_turnouts r)" using row by (auto simp: turnout_row_def find_Some_iff)
  then have t: "t = with_defaults row" "validate_turnout t = None"
    using n assms(2) by (auto simp: normalize_turnout_def Let_def split: option.splits)
  show thesis
    by (rule that [OF row t(2)]) (use t(1) turnout_row_id [OF row] in \<open>simp_all add: with_defaults_def\<close>)
qed

lemma validate_reported:
  assumes "validate_turnout t = None" and "t_reported_position t \<noteq> []"
  shows "\<exists>p. turnout_position t (t_reported_position t) = Some p"
proof -
  obtain ids pids where p: "validate_positions (t_endpoints t) ids [] [] (t_positions t) = Inr pids"
    and "t_reported_position t \<in> set pids"
    using assms unfolding validate_turnout_def validate_turnout_problem_def
    by (auto split: if_splits sum.splits)
  then have "t_reported_position t \<in> pd_id ` set (t_positions t)" using validate_positions_Inr [OF p] by auto
  then have "turnout_position t (t_reported_position t) \<noteq> None"
    by (auto simp: turnout_position_def find_None_iff)
  then show ?thesis by blast
qed

text \<open>The plan of a command: always there or refused, and fit to be followed.\<close>

lemma plan_cases:
  assumes v: "validate_turnout t = None" and q: "turnout_position t position = Some q"
  obtains (unsafe) e where "safe_turnout_path t (t_reported_position t) position = Some (Inl e)"
    | (there) "safe_turnout_path t (t_reported_position t) position = Some (Inr [])" "t_reported_position t = position"
    | (plan) qs where "safe_turnout_path t (t_reported_position t) position = Some (Inr qs)" "qs \<noteq> []"
        "plan_moves t (t_reported_position t) qs" "set qs \<subseteq> set (t_positions t)" "pd_id (last qs) = position"
proof -
  have wf: "turnout_wf t" using v by (rule validate_turnout_wf)
  have d: "distinct (map pd_id (t_positions t))" "t_endpoints t \<noteq> []" using wf by (simp_all add: turnout_wf_def)
  have qd: "q \<in> set (t_positions t)" "pd_id q = position" using q by (simp_all add: turnout_position_Some [OF d(1)])
  have ne: "\<forall>p\<in>set (t_positions t). pd_id p \<noteq> []" using wf by (auto simp: turnout_wf_def)
  have sub: "safe_sequence t p qs \<Longrightarrow> set qs \<subseteq> set (t_positions t)" for p qs
    by (induction qs arbitrary: p) auto
  consider "t_reported_position t = []" | "t_reported_position t = position"
    | "t_reported_position t \<noteq> []" "t_reported_position t \<noteq> position" by blast
  then show thesis
  proof cases
    case 1
    then have "safe_turnout_path t (t_reported_position t) position = Some (Inr [q])"
      using q by (simp add: safe_turnout_path_def)
    moreover have "turnout_position t [] = None" using ne by (auto simp: turnout_position_def find_None_iff)
    ultimately show thesis using plan [of "[q]"] unknown_moves [OF _ d(2), of q] 1 qd by simp
  next
    case 2
    then have "position \<noteq> []" using ne qd by auto
    then show thesis using there 2 q by (simp add: safe_turnout_path_def)
  next
    case 3
    obtain p where "turnout_position t (t_reported_position t) = Some p" using validate_reported [OF v 3(1)] by blast
    then have p: "p \<in> set (t_positions t)" "pd_id p = t_reported_position t"
      by (simp_all add: turnout_position_Some [OF d(1)])
    from safe_turnout_path_search [OF d(1) p(1) qd(1)] p(2) qd(2) 3
    consider qs where "safe_turnout_path t (t_reported_position t) position = Some (Inr qs)" "qs \<noteq> []"
        "safe_sequence t p qs" "last qs = q"
      | "safe_turnout_path t (t_reported_position t) position = Some (Inl ErrUnsafeTurnoutTransition)"
      by auto
    then show thesis
    proof cases
      case (1 qs)
      then show thesis
        using plan [of qs] safe_sequence_moves [OF d(1) p(1) 1(3)] sub [OF 1(3)] p(2) qd(2) by simp
    qed (rule unsafe)
  qed
qed

lemma set_turnout_desired_row:
  assumes "set_turnout_desired_position i position True r = Inr r'"
  shows "quiet r r'" and "map_option t_reported_position (turnout_row i r') = map_option t_reported_position (turnout_row i r)"
proof -
  note u = turnout_row_update [OF assms [unfolded set_turnout_desired_position_def]]
  show "quiet r r'" using u(2,3) by (simp add: quiet_def)
  show "map_option t_reported_position (turnout_row i r') = map_option t_reported_position (turnout_row i r)"
    by (subst u(1)) (auto simp: option.map_comp comp_def intro!: arg_cong [where f = "\<lambda>f. map_option f _"])
qed

lemma begin_rows:
  assumes "begin_turnout_command i (seed_accessory_state t r) = (r1, g)"
  shows "rw_turnouts r1 = rw_turnouts r"
proof -
  have "rw_turnouts (fold (seed_endpoint t p) es r) = rw_turnouts r" for p es r
    by (induction es arbitrary: r) (simp_all add: seed_endpoint_def)
  then have "rw_turnouts (seed_accessory_state t r) = rw_turnouts r"
    by (simp add: seed_accessory_state_def split: option.split)
  then show ?thesis
    using assms by (auto simp: begin_turnout_command_def Let_def signal_turnout_update_def split: option.splits)
qed

lemma turnout_row_cong: "rw_turnouts r = rw_turnouts r' \<Longrightarrow> turnout_row i r = turnout_row i r'"
  by (simp add: turnout_row_def)


text \<open>A simple turnout moved from straight to diverging, confirmed by one event of the station.\<close>

definition example_turnout :: turnout where
  "example_turnout = (new_simple_turnout ''t1'' ''Entry'' 5 ''straight'' ''straight'')
     \<lparr> t_reported_status := ReportKnown, t_quality := QualityStation, t_command_status := CommandSucceeded \<rparr>"

definition dispatcher :: user where "dispatcher = \<lparr> u_id = ''dan'', u_role = RoleDispatcher \<rparr>"

definition confirming_world :: step_world where
  "confirming_world = \<lparr> sw_now = 0, sw_events = [\<lparr> ev_address = 5, ev_position = Position2, ev_state = ReportKnown,
     ev_quality = QualityStation, ev_observed_at = Some 1 \<rparr>], sw_end = TimedOut \<rparr>"

lemma example_turnout_loaded: "get_turnout ''t1'' (new_railway_service [example_turnout]) = Inr example_turnout"
  by code_simp

lemma example_turnout_go: "go_vectors example_turnout"
  by (simp add: go_vectors_def example_turnout_def new_simple_turnout_def)


subsection \<open>What the motors do\<close>

text \<open>
  The motors as a map from accessory address to position, and the effect of a command on it.
  A turnout shows a position when each of its motors is where that position commands it.
\<close>

type_synonym motors = "int \<Rightarrow> accessory_position"

definition run_command :: "accessory_command \<Rightarrow> motors \<Rightarrow> motors" where
  "run_command c m = m(ac_address c := ac_position c)"

definition motors_show :: "turnout \<Rightarrow> motors \<Rightarrow> turnout_position_definition \<Rightarrow> bool" where
  "motors_show t m p \<longleftrightarrow> (\<forall>e\<in>set (t_endpoints t).
     m (ep_linear_address e) = physical_accessory_position e (gm_get NoPosition (pd_endpoints p) (ep_id e)))"

lemma single_change:
  assumes wf: "turnout_wf t" and p: "p \<in> set (t_positions t)" and q: "q \<in> set (t_positions t)"
    and one: "endpoint_vector_distance t p q = 1"
  obtains e where "e \<in> set (t_endpoints t)" and "step_commands t (pd_id p) q = [endpoint_command q e]"
    and "\<And>e'. e' \<in> set (t_endpoints t) \<Longrightarrow> e' \<noteq> e \<Longrightarrow>
      gm_get NoPosition (pd_endpoints p) (ep_id e') = gm_get NoPosition (pd_endpoints q) (ep_id e')"
proof -
  let ?P = "\<lambda>e. gm_get NoPosition (pd_endpoints p) (ep_id e) \<noteq> gm_get NoPosition (pd_endpoints q) (ep_id e)"
  have d: "distinct (map pd_id (t_positions t))" "distinct (map ep_id (t_endpoints t))"
    using wf by (simp_all add: turnout_wf_def)
  have "length (filter ?P (t_endpoints t)) = 1" using one by (simp add: endpoint_vector_distance_def)
  then obtain e where e: "filter ?P (t_endpoints t) = [e]" by (auto simp: length_Suc_conv)
  have mem: "ep_id e' \<in> set (changed_turnout_endpoints t (pd_id p) (pd_id q)) \<longleftrightarrow> ?P e'"
    if "e' \<in> set (t_endpoints t)" for e'
  proof -
    have "inj_on ep_id (set (t_endpoints t))" using d(2) by (simp add: distinct_map)
    then show ?thesis
      unfolding changed_known [OF d(1) p q] set_filter using that by (blast dest: inj_onD)
  qed
  have "filter (\<lambda>e. ep_id e \<in> set (changed_turnout_endpoints t (pd_id p) (pd_id q))) (t_endpoints t) = [e]"
    unfolding e [symmetric] by (rule filter_cong) (simp_all only: mem)
  then have step: "step_commands t (pd_id p) q = [endpoint_command q e]" by (simp add: step_commands_def)
  have "set (filter ?P (t_endpoints t)) = {e}" using e by simp
  then have in_e: "e \<in> set (t_endpoints t)" "\<And>e'. e' \<in> set (t_endpoints t) \<Longrightarrow> e' \<noteq> e \<Longrightarrow> \<not> ?P e'" by auto
  show thesis by (rule that [OF in_e(1) step]) (use in_e(2) in blast)
qed

text \<open>
  From a known position a plan moves one motor at a time through declared positions. Its
  commands correspond one to one to the positions of the plan, and once the first \<open>k\<close> commands
  have been carried out the motors show exactly the \<open>k\<close>-th position of the plan: no
  undeclared combination of motors is ever commanded.
\<close>

theorem plan_passes_declared_positions:
  assumes "validate_turnout t = None" and "p \<in> set (t_positions t)"
    and "safe_sequence t p qs" and "motors_show t m p"
  shows "length (path_commands t (pd_id p) qs) = length qs \<and>
    (\<forall>k\<le>length qs. motors_show t (fold run_command (take k (path_commands t (pd_id p) qs)) m) ((p # qs) ! k))"
  using assms(2-)
proof (induction qs arbitrary: p m)
  case Nil
  then show ?case by simp
next
  case (Cons q qs)
  have wf: "turnout_wf t" using assms(1) by (rule validate_turnout_wf)
  have q: "q \<in> set (t_positions t)" "endpoint_vector_distance t p q = 1" "safe_sequence t q qs"
    using Cons.prems(2) by simp_all
  obtain e where e: "e \<in> set (t_endpoints t)" "step_commands t (pd_id p) q = [endpoint_command q e]"
    "\<And>e'. e' \<in> set (t_endpoints t) \<Longrightarrow> e' \<noteq> e \<Longrightarrow>
      gm_get NoPosition (pd_endpoints p) (ep_id e') = gm_get NoPosition (pd_endpoints q) (ep_id e')"
    using single_change [OF wf Cons.prems(1) q(1,2)] by metis
  let ?m = "run_command (endpoint_command q e) m"
  have inj: "inj_on ep_linear_address (set (t_endpoints t))" using wf by (auto simp: turnout_wf_def distinct_map)
  have "motors_show t ?m q"
    unfolding motors_show_def
  proof
    fix e'
    assume e': "e' \<in> set (t_endpoints t)"
    show "?m (ep_linear_address e') = physical_accessory_position e' (gm_get NoPosition (pd_endpoints q) (ep_id e'))"
    proof (cases "e' = e")
      case False
      then have "ep_linear_address e' \<noteq> ep_linear_address e" using inj e(1) e' by (auto dest: inj_onD)
      then show ?thesis using Cons.prems(3) e' e(3) [OF e' False]
        by (simp add: run_command_def endpoint_command_def motors_show_def)
    qed (simp add: run_command_def endpoint_command_def)
  qed
  from Cons.IH [OF q(1,3) this] have ih:
    "length (path_commands t (pd_id q) qs) = length qs"
    "\<And>k. k \<le> length qs \<Longrightarrow> motors_show t (fold run_command (take k (path_commands t (pd_id q) qs)) ?m) ((q # qs) ! k)"
    by blast+
  have "motors_show t (fold run_command (take k (path_commands t (pd_id p) (q # qs))) m) ((p # q # qs) ! k)"
    if "k \<le> Suc (length qs)" for k
    using that Cons.prems(3) ih(2) e(2) by (cases k) simp_all
  then show ?case using ih(1) e(2) by simp
qed

text \<open>The double slip from its first to its last position: after the first command it shows the position between.\<close>

theorem plan_passes_declared_positions_witness:
  "length (path_commands example_slip ''p0'' [t_positions example_slip ! 1, t_positions example_slip ! 2]) = 2 \<and>
   motors_show example_slip
     (fold run_command (take 1 (path_commands example_slip ''p0'' [t_positions example_slip ! 1, t_positions example_slip ! 2]))
       (\<lambda>a. if a = 11 then Position2 else Position1))
     (t_positions example_slip ! 1)"
proof -
  let ?p = "t_positions example_slip ! 0" and ?qs = "[t_positions example_slip ! 1, t_positions example_slip ! 2]"
    and ?m = "\<lambda>a :: int. if a = 11 then Position2 else Position1"
  have p: "?p \<in> set (t_positions example_slip)" "pd_id ?p = ''p0''" by (simp_all add: example_slip_def)
  have "safe_sequence example_slip ?p ?qs"
    by (simp add: example_slip_def endpoint_vector_distance_def gm_get_def)
  moreover have "motors_show example_slip ?m ?p"
    by (simp add: motors_show_def example_slip_def physical_accessory_position_def gm_get_def)
  ultimately have "length (path_commands example_slip ''p0'' ?qs) = length ?qs \<and>
      (\<forall>k\<le>length ?qs. motors_show example_slip (fold run_command (take k (path_commands example_slip ''p0'' ?qs)) ?m)
        ((?p # ?qs) ! k))"
    using plan_passes_declared_positions [OF example_slip_valid p(1)] p(2) by metis
  then show ?thesis by fastforce
qed

end
