(* ===== verification/Routes.thy ===== *)
theory Routes
  imports Railway Occupancy
begin

text \<open>
  Routes: the route statements of \<^verbatim>\<open>internal/store/routes.go\<close> and the route service of
  \<^verbatim>\<open>internal/service/routes.go\<close>, which calls the railway service to move turnouts and the
  occupancy service to read blocks.

  The tables \<^verbatim>\<open>routes\<close>, \<^verbatim>\<open>route_blocks\<close>, \<^verbatim>\<open>route_turnouts\<close> and \<^verbatim>\<open>route_conflicts\<close> are
  lists of rows. Every statement that writes the state of a route writes one of the three
  literals of \<open>route_state\<close>. \<^verbatim>\<open>Reserve\<close> and \<^verbatim>\<open>Activate\<close> check the tables in statements of
  their own before the statement that writes, so each is two definitions, and the step relation
  at the end lets any other request run between the two. The statements of the turnout commands
  read and write no route table; an activation therefore commands its turnouts at the moment of
  its last statement, and the railway may change in any way before and after.
\<close>

subsection \<open>Tables\<close>

datatype route_state = RouteIdle | RouteReserved | RouteActive

record route =
  ro_id :: string
  ro_name :: string
  ro_state :: route_state
  ro_reserved_by_session :: string

record route_db =
  rdb_routes :: "route list"
  rdb_blocks :: "(string \<times> string) list"
  rdb_turnouts :: "(string \<times> string \<times> string) list"
  rdb_conflicts :: "(string \<times> string) list"

definition list_routes :: "route_db \<Rightarrow> route list" where
  "list_routes db = sort_key (\<lambda>r. (ro_name r, ro_id r)) (rdb_routes db)"

definition get_route :: "string \<Rightarrow> route_db \<Rightarrow> service_error + route" where
  "get_route i db = (case find (\<lambda>r. ro_id r = i) (rdb_routes db) of None \<Rightarrow> Inl ErrNotFound | Some r \<Rightarrow> Inr r)"

definition route_block_ids :: "string \<Rightarrow> route_db \<Rightarrow> service_error + string list" where
  "route_block_ids i db =
     (let ids = sort (map snd (filter (\<lambda>(r, _). r = i) (rdb_blocks db)))
      in if ids = [] then rbind (get_route i db) (\<lambda>_. Inr []) else Inr ids)"

text \<open>The states \<^verbatim>\<open>IN ('reserved','active')\<close>.\<close>

definition route_held :: "route \<Rightarrow> bool" where
  "route_held r \<longleftrightarrow> ro_state r = RouteReserved \<or> ro_state r = RouteActive"

definition route_has_active_conflict :: "string \<Rightarrow> route_db \<Rightarrow> bool" where
  "route_has_active_conflict i db \<longleftrightarrow>
     (\<exists>(a, b)\<in>set (rdb_conflicts db). a = i \<and> (\<exists>r\<in>set (rdb_routes db). ro_id r = b \<and> route_held r))"

definition validate_route_activation :: "string \<Rightarrow> string \<Rightarrow> route_db \<Rightarrow> service_error option" where
  "validate_route_activation i sess db =
     (case get_route i db of
        Inl e \<Rightarrow> Some e
      | Inr r \<Rightarrow>
          if ro_state r \<noteq> RouteReserved \<or> ro_reserved_by_session r \<noteq> sess then Some ErrNotFound
          else if route_has_active_conflict i db then Some ErrRouteConflict
          else None)"

text \<open>An \<^verbatim>\<open>UPDATE routes\<close> with its condition, and the error when it changes no row.\<close>

definition update_routes ::
  "service_error \<Rightarrow> (route \<Rightarrow> bool) \<Rightarrow> (route \<Rightarrow> route) \<Rightarrow> route_db \<Rightarrow> service_error + route_db" where
  "update_routes none cond upd db =
     (if \<exists>r\<in>set (rdb_routes db). cond r
      then Inr (db\<lparr> rdb_routes := map (\<lambda>r. if cond r then upd r else r) (rdb_routes db) \<rparr>)
      else Inl none)"

definition reserve_route :: "string \<Rightarrow> string \<Rightarrow> route_db \<Rightarrow> service_error + route_db" where
  "reserve_route i sess =
     update_routes ErrConflict (\<lambda>r. ro_id r = i \<and> ro_state r = RouteIdle)
       (\<lambda>r. r\<lparr> ro_state := RouteReserved, ro_reserved_by_session := sess \<rparr>)"

definition activate_route :: "string \<Rightarrow> string \<Rightarrow> route_db \<Rightarrow> service_error + route_db" where
  "activate_route i sess =
     update_routes ErrNotFound (\<lambda>r. ro_id r = i \<and> ro_state r = RouteReserved \<and> ro_reserved_by_session r = sess)
       (\<lambda>r. r\<lparr> ro_state := RouteActive \<rparr>)"

definition release_route :: "string \<Rightarrow> string \<Rightarrow> route_db \<Rightarrow> service_error + route_db" where
  "release_route i sess =
     update_routes ErrNotFound (\<lambda>r. ro_id r = i \<and> ro_reserved_by_session r = sess)
       (\<lambda>r. r\<lparr> ro_state := RouteIdle, ro_reserved_by_session := [] \<rparr>)"

definition route_turnout_requirements :: "string \<Rightarrow> route_db \<Rightarrow> (string, string) gomap" where
  "route_turnout_requirements i db =
     fold (\<lambda>(_, t, st). gm_put t st) (filter (\<lambda>(r, _). r = i) (rdb_turnouts db)) []"

subsection \<open>The service\<close>

datatype route_event = RouteReservedEvent string string | RouteActivatedEvent string | RouteReleasedEvent string

record route_service =
  rv_db :: route_db
  rv_railway :: railway
  rv_occupancy :: occupancy_service
  rv_events :: "route_event list"

definition publish_route :: "route_event \<Rightarrow> route_service \<Rightarrow> route_service" where
  "publish_route e s = s\<lparr> rv_events := rv_events s @ [e] \<rparr>"

text \<open>The loop over the blocks; \<open>unknown\<close> is its local variable.\<close>

fun check_blocks :: "occupancy_service \<Rightarrow> bool \<Rightarrow> string list \<Rightarrow> service_error option" where
  "check_blocks occ unknown [] = (if unknown then Some ErrRouteOccupancyUnknown else None)"
| "check_blocks occ unknown (b # bs) =
     (case bo_state (block_state b occ) of
        OccOccupied \<Rightarrow> Some ErrRouteOccupied
      | OccUnknown \<Rightarrow> check_blocks occ True bs
      | _ \<Rightarrow> check_blocks occ unknown bs)"

definition validate_route_occupancy :: "string \<Rightarrow> route_service \<Rightarrow> service_error option" where
  "validate_route_occupancy i s =
     (case route_block_ids i (rv_db s) of
        Inl e \<Rightarrow> Some e
      | Inr bs \<Rightarrow> check_blocks (rv_occupancy s) False bs)"

definition reserve_check :: "user \<Rightarrow> string \<Rightarrow> route_service \<Rightarrow> service_error option" where
  "reserve_check u i s =
     (if \<not> allowed (u_role u) PermissionDispatch then Some ErrPermissionDenied
      else case validate_route_occupancy i s of
             Some e \<Rightarrow> Some e
           | None \<Rightarrow> if route_has_active_conflict i (rv_db s) then Some ErrConflict else None)"

definition reserve_commit :: "session \<Rightarrow> string \<Rightarrow> route_service \<Rightarrow> route_service \<times> service_error option" where
  "reserve_commit sess i s =
     (case reserve_route i (s_id sess) (rv_db s) of
        Inl e \<Rightarrow> (s, Some e)
      | Inr db \<Rightarrow> (publish_route (RouteReservedEvent i (s_id sess)) (s\<lparr> rv_db := db \<rparr>), None))"

definition reserve :: "user \<Rightarrow> session \<Rightarrow> string \<Rightarrow> route_service \<Rightarrow> route_service \<times> service_error option" where
  "reserve u sess i s = (case reserve_check u i s of Some e \<Rightarrow> (s, Some e) | None \<Rightarrow> reserve_commit sess i s)"

definition activate_check ::
  "user \<Rightarrow> session \<Rightarrow> string \<Rightarrow> route_service \<Rightarrow> service_error + (string, string) gomap" where
  "activate_check u sess i s =
     (if \<not> allowed (u_role u) PermissionDispatch then Inl ErrPermissionDenied
      else case validate_route_activation i (s_id sess) (rv_db s) of
        Some e \<Rightarrow> Inl e
      | None \<Rightarrow>
          (case validate_route_occupancy i s of
             Some e \<Rightarrow> Inl e
           | None \<Rightarrow> Inr (route_turnout_requirements i (rv_db s))))"

text \<open>
  What the world does during the command of one turnout: the arguments of \<open>set_turnout\<close>. The
  requirements come in the order in which Go happens to iterate over their map.
\<close>

record turnout_world =
  tw_health :: "health_report option"
  tw_reply :: "nat \<Rightarrow> station_error option"
  tw_steps :: "step_world list"

fun set_requirements ::
  "(string \<Rightarrow> turnout_world) \<Rightarrow> user \<Rightarrow> (string \<times> string) list \<Rightarrow> railway \<Rightarrow>
   (railway \<times> service_error option) option" where
  "set_requirements w u [] r = Some (r, None)"
| "set_requirements w u ((t, position) # reqs) r =
     (case set_turnout (tw_health (w t)) (tw_reply (w t)) (tw_steps (w t)) u t position r of
        None \<Rightarrow> None
      | Some (r', Some e) \<Rightarrow> Some (r', Some e)
      | Some (r', None) \<Rightarrow> set_requirements w u reqs r')"

definition activate_commit :: "session \<Rightarrow> string \<Rightarrow> route_service \<Rightarrow> route_service \<times> service_error option" where
  "activate_commit sess i s =
     (case activate_route i (s_id sess) (rv_db s) of
        Inl e \<Rightarrow> (s, Some e)
      | Inr db \<Rightarrow> (publish_route (RouteActivatedEvent i) (s\<lparr> rv_db := db \<rparr>), None))"

definition activate_finish ::
  "(string \<Rightarrow> turnout_world) \<Rightarrow> user \<Rightarrow> session \<Rightarrow> string \<Rightarrow> (string \<times> string) list \<Rightarrow> route_service \<Rightarrow>
   (route_service \<times> service_error option) option" where
  "activate_finish w u sess i reqs s =
     (case set_requirements w u reqs (rv_railway s) of
        None \<Rightarrow> None
      | Some (r, Some e) \<Rightarrow> Some (s\<lparr> rv_railway := r \<rparr>, Some e)
      | Some (r, None) \<Rightarrow> Some (activate_commit sess i (s\<lparr> rv_railway := r \<rparr>)))"

definition activate ::
  "(string \<Rightarrow> turnout_world) \<Rightarrow> ((string, string) gomap \<Rightarrow> (string \<times> string) list) \<Rightarrow> user \<Rightarrow> session \<Rightarrow> string \<Rightarrow>
   route_service \<Rightarrow> (route_service \<times> service_error option) option" where
  "activate w order u sess i s =
     (case activate_check u sess i s of
        Inl e \<Rightarrow> Some (s, Some e)
      | Inr reqs \<Rightarrow> activate_finish w u sess i (order reqs) s)"

definition release :: "session \<Rightarrow> string \<Rightarrow> route_service \<Rightarrow> route_service \<times> service_error option" where
  "release sess i s =
     (case release_route i (s_id sess) (rv_db s) of
        Inl e \<Rightarrow> (s, Some e)
      | Inr db \<Rightarrow> (publish_route (RouteReleasedEvent i) (s\<lparr> rv_db := db \<rparr>), None))"

subsection \<open>Requests that interleave\<close>

text \<open>
  A request between its checks and its last statement. With \<open>calm\<close> no session releases a
  route while an activation of it is under way.
\<close>

datatype route_ticket =
    ReserveTicket session string
  | ActivateTicket user session string "(string \<times> string) list"

fun activating :: "string \<Rightarrow> route_ticket \<Rightarrow> bool" where
  "activating i (ActivateTicket u sess j reqs) \<longleftrightarrow> j = i"
| "activating i (ReserveTicket sess j) \<longleftrightarrow> False"

type_synonym route_world = "route_service \<times> route_ticket list"

inductive route_step :: "bool \<Rightarrow> route_world \<Rightarrow> route_world \<Rightarrow> bool" for calm where
  reserve_begin: "reserve_check u i s = None \<Longrightarrow> route_step calm (s, ts) (s, ReserveTicket sess i # ts)"
| reserve_end: "ReserveTicket sess i \<in> set ts \<Longrightarrow> reserve_commit sess i s = (s', res) \<Longrightarrow>
    route_step calm (s, ts) (s', remove1 (ReserveTicket sess i) ts)"
| activate_begin: "activate_check u sess i s = Inr reqs \<Longrightarrow> mset order = mset reqs \<Longrightarrow>
    route_step calm (s, ts) (s, ActivateTicket u sess i order # ts)"
| activate_end: "ActivateTicket u sess i reqs \<in> set ts \<Longrightarrow> activate_finish w u sess i reqs s = Some (s', res) \<Longrightarrow>
    route_step calm (s, ts) (s', remove1 (ActivateTicket u sess i reqs) ts)"
| give_up: "route_step calm (s, ts) (s, remove1 t ts)"
| release: "(calm \<Longrightarrow> \<forall>t\<in>set ts. \<not> activating i t) \<Longrightarrow> release sess i s = (s', res) \<Longrightarrow>
    route_step calm (s, ts) (s', ts)"
| elsewhere: "route_step calm (s, ts) (s\<lparr> rv_railway := r, rv_occupancy := occ \<rparr>, ts)"

inductive route_reachable :: "bool \<Rightarrow> route_service \<Rightarrow> route_world \<Rightarrow> bool" for calm s0 where
  start: "route_reachable calm s0 (s0, [])"
| step: "route_reachable calm s0 x \<Longrightarrow> route_step calm x y \<Longrightarrow> route_reachable calm s0 y"

end
