(* ===== verification/RouteFacts.thy ===== *)
theory RouteFacts
  imports Routes RailwayFacts
begin

text \<open>
  Properties of the route service: conflicting routes are never held together when requests run
  one after the other, and never active together when they interleave; what a successful
  activation has established; and the interleaving in which two sessions reserve conflicting
  routes.
\<close>

subsection \<open>Updates of one route\<close>

definition held :: "route_db \<Rightarrow> string \<Rightarrow> bool" where
  "held db i \<longleftrightarrow> (\<exists>r\<in>set (rdb_routes db). ro_id r = i \<and> route_held r)"

definition active :: "route_db \<Rightarrow> string \<Rightarrow> bool" where
  "active db i \<longleftrightarrow> (\<exists>r\<in>set (rdb_routes db). ro_id r = i \<and> ro_state r = RouteActive)"

lemma active_held: "active db i \<Longrightarrow> held db i"
  by (auto simp: active_def held_def route_held_def)

definition conflicts :: "route_db \<Rightarrow> string \<Rightarrow> string \<Rightarrow> bool" where
  "conflicts db a b \<longleftrightarrow> a \<noteq> b \<and> (a, b) \<in> set (rdb_conflicts db)"

lemma has_active_conflict_iff:
  "route_has_active_conflict i db \<longleftrightarrow> (\<exists>b. (i, b) \<in> set (rdb_conflicts db) \<and> held db b)"
  by (fastforce simp: route_has_active_conflict_def held_def)

text \<open>
  The contract of the three statements: they write rows of one route and keep its identity.
\<close>

locale route_update =
  fixes i :: string and none :: service_error and cond :: "route \<Rightarrow> bool" and upd :: "route \<Rightarrow> route"
  assumes cond_id: "cond r \<Longrightarrow> ro_id r = i" and upd_id: "ro_id (upd r) = ro_id r"
begin

lemma tables:
  "update_routes none cond upd db = Inr db' \<Longrightarrow>
     rdb_conflicts db' = rdb_conflicts db \<and> rdb_blocks db' = rdb_blocks db \<and> rdb_turnouts db' = rdb_turnouts db \<and>
     map ro_id (rdb_routes db') = map ro_id (rdb_routes db)"
  by (auto simp: update_routes_def upd_id split: if_splits)

lemma rows:
  "update_routes none cond upd db = Inr db' \<Longrightarrow>
     set (rdb_routes db') = (\<lambda>r. if cond r then upd r else r) ` set (rdb_routes db)"
  by (auto simp: update_routes_def split: if_splits)

lemma row_id: "ro_id (if cond r then upd r else r) = ro_id r"
  by (simp add: upd_id)

lemma held_update:
  assumes "update_routes none cond upd db = Inr db'"
  shows "held db' j \<longleftrightarrow> (\<exists>r\<in>set (rdb_routes db). ro_id r = j \<and> route_held (if cond r then upd r else r))"
  unfolding held_def rows [OF assms] bex_simps row_id ..

lemma active_update:
  assumes "update_routes none cond upd db = Inr db'"
  shows "active db' j \<longleftrightarrow> (\<exists>r\<in>set (rdb_routes db). ro_id r = j \<and> ro_state (if cond r then upd r else r) = RouteActive)"
  unfolding active_def rows [OF assms] bex_simps row_id ..

lemma others:
  assumes "update_routes none cond upd db = Inr db'" and "j \<noteq> i"
  shows "held db' j \<longleftrightarrow> held db j" and "active db' j \<longleftrightarrow> active db j"
  using cond_id upd_id assms(2) by (auto simp: held_def active_def rows [OF assms(1)])

lemma error: "update_routes none cond upd db = Inl e \<longleftrightarrow> e = none \<and> (\<forall>r\<in>set (rdb_routes db). \<not> cond r)"
  by (auto simp: update_routes_def)

end

interpretation reserve_update: route_update i ErrConflict "\<lambda>r. ro_id r = i \<and> ro_state r = RouteIdle"
    "\<lambda>r. r\<lparr> ro_state := RouteReserved, ro_reserved_by_session := sess \<rparr>" for i sess
  by unfold_locales simp_all

interpretation activate_update: route_update i ErrNotFound
    "\<lambda>r. ro_id r = i \<and> ro_state r = RouteReserved \<and> ro_reserved_by_session r = sess"
    "\<lambda>r. r\<lparr> ro_state := RouteActive \<rparr>" for i sess
  by unfold_locales simp_all

interpretation release_update: route_update i ErrNotFound "\<lambda>r. ro_id r = i \<and> ro_reserved_by_session r = sess"
    "\<lambda>r. r\<lparr> ro_state := RouteIdle, ro_reserved_by_session := [] \<rparr>" for i sess
  by unfold_locales simp_all

lemma reserve_route_effect:
  assumes "reserve_route i sess db = Inr db'"
  shows "rdb_conflicts db' = rdb_conflicts db" and "active db' j \<longleftrightarrow> active db j"
    and "held db' j \<longleftrightarrow> j = i \<or> held db j"
proof -
  note u = assms [unfolded reserve_route_def]
  show "rdb_conflicts db' = rdb_conflicts db" using reserve_update.tables [OF u] by simp
  show "active db' j \<longleftrightarrow> active db j" unfolding reserve_update.active_update [OF u] unfolding active_def by (rule bex_cong) auto
  have "\<exists>r\<in>set (rdb_routes db). ro_id r = i \<and> ro_state r = RouteIdle"
    using u by (simp add: update_routes_def split: if_splits)
  then have "held db' i" unfolding reserve_update.held_update [OF u] by (auto simp: route_held_def)
  then show "held db' j \<longleftrightarrow> j = i \<or> held db j" using reserve_update.others(1) [OF u, of j] by (cases "j = i") simp_all
qed

lemma activate_route_effect:
  assumes "activate_route i sess db = Inr db'"
  shows "rdb_conflicts db' = rdb_conflicts db" and "held db' j \<longleftrightarrow> held db j"
    and "active db' j \<longleftrightarrow> j = i \<or> active db j"
proof -
  note u = assms [unfolded activate_route_def]
  show "rdb_conflicts db' = rdb_conflicts db" using activate_update.tables [OF u] by simp
  show "held db' j \<longleftrightarrow> held db j"
    unfolding activate_update.held_update [OF u] unfolding held_def by (rule bex_cong) (auto simp: route_held_def)
  have "\<exists>r\<in>set (rdb_routes db). ro_id r = i \<and> ro_state r = RouteReserved \<and> ro_reserved_by_session r = sess"
    using u by (simp add: update_routes_def split: if_splits)
  then have "active db' i" unfolding activate_update.active_update [OF u] by auto
  then show "active db' j \<longleftrightarrow> j = i \<or> active db j" using activate_update.others(2) [OF u, of j] by (cases "j = i") simp_all
qed

lemma release_route_effect:
  assumes "release_route i sess db = Inr db'"
  shows "rdb_conflicts db' = rdb_conflicts db" and "active db' j \<Longrightarrow> active db j"
    and "held db' j \<Longrightarrow> held db j" and "j \<noteq> i \<Longrightarrow> held db' j \<longleftrightarrow> held db j"
proof -
  note u = assms [unfolded release_route_def]
  show "rdb_conflicts db' = rdb_conflicts db" using release_update.tables [OF u] by simp
  show "active db' j \<Longrightarrow> active db j"
    unfolding release_update.active_update [OF u] unfolding active_def by (auto split: if_splits)
  show "held db' j \<Longrightarrow> held db j"
    unfolding release_update.held_update [OF u] unfolding held_def by (auto simp: route_held_def split: if_splits)
  show "j \<noteq> i \<Longrightarrow> held db' j \<longleftrightarrow> held db j" by (rule release_update.others(1) [OF u])
qed

subsection \<open>Requests one after the other\<close>

text \<open>The route service under whole requests; \<open>Elsewhere\<close> is anything the rest of the server does.\<close>

datatype route_request =
    Reserve user session string
  | Activate "string \<Rightarrow> turnout_world" "(string, string) gomap \<Rightarrow> (string \<times> string) list" user session string
  | Release session string
  | Elsewhere railway occupancy_service

fun route_exec :: "route_request \<Rightarrow> route_service \<Rightarrow> route_service option" where
  "route_exec (Reserve u sess i) s = Some (fst (reserve u sess i s))"
| "route_exec (Activate w order u sess i) s = map_option fst (activate w order u sess i s)"
| "route_exec (Release sess i) s = Some (fst (release sess i s))"
| "route_exec (Elsewhere r occ) s = Some (s\<lparr> rv_railway := r, rv_occupancy := occ \<rparr>)"

fun route_run :: "route_request list \<Rightarrow> route_service \<Rightarrow> route_service option" where
  "route_run [] s = Some s"
| "route_run (q # qs) s = Option.bind (route_exec q s) (route_run qs)"

definition symmetric_conflicts :: "route_db \<Rightarrow> bool" where
  "symmetric_conflicts db \<longleftrightarrow> (\<forall>(a, b)\<in>set (rdb_conflicts db). (b, a) \<in> set (rdb_conflicts db))"

definition exclusive :: "(string \<Rightarrow> bool) \<Rightarrow> route_db \<Rightarrow> bool" where
  "exclusive P db \<longleftrightarrow> (\<forall>a b. conflicts db a b \<longrightarrow> \<not> (P a \<and> P b))"

lemma conflicts_sym: "symmetric_conflicts db \<Longrightarrow> conflicts db a b \<Longrightarrow> conflicts db b a"
  by (auto simp: symmetric_conflicts_def conflicts_def)

lemma conflicts_cong: "rdb_conflicts db' = rdb_conflicts db \<Longrightarrow> conflicts db' = conflicts db"
  by (simp add: conflicts_def fun_eq_iff)

lemma set_turnout_returns: "\<exists>x. set_turnout health reply ws u i position r = Some x"
proof (cases "get_turnout i r")
  case (Inr t)
  then obtain row where "normalize_turnout row = Inr t"
    by (auto simp: get_turnout_def load_turnout_def split: option.splits sum.splits)
  then have v: "validate_turnout t = None" by (auto simp: normalize_turnout_def Let_def split: option.splits)
  obtain r1 g where b: "begin_turnout_command i (seed_accessory_state t r) = (r1, g)" by fastforce
  show ?thesis
  proof (cases "turnout_position t position")
    case (Some q)
    from v Some show ?thesis
      by (cases rule: plan_cases) (use Inr Some b in \<open>simp_all add: set_turnout_def Let_def split: option.split sum.split list.split\<close>)
  qed (use Inr in \<open>simp add: set_turnout_def split: option.split\<close>)
qed (simp add: set_turnout_def split: option.split)

lemma set_requirements_returns: "\<exists>x. set_requirements w u reqs r = Some x"
proof (induction reqs arbitrary: r)
  case (Cons tp reqs)
  obtain t p where tp: "tp = (t, p)" by (cases tp)
  obtain r' e where "set_turnout (tw_health (w t)) (tw_reply (w t)) (tw_steps (w t)) u t p r = Some (r', e)"
    using set_turnout_returns by fast
  then show ?case using Cons.IH tp by (simp split: option.split)
qed simp

lemma activate_finish_cases:
  obtains (turnout) r e where "activate_finish w u sess i reqs s = Some (s\<lparr> rv_railway := r \<rparr>, Some e)"
      "set_requirements w u reqs (rv_railway s) = Some (r, Some e)"
    | (commit) r where "activate_finish w u sess i reqs s = Some (activate_commit sess i (s\<lparr> rv_railway := r \<rparr>))"
      "set_requirements w u reqs (rv_railway s) = Some (r, None)"
proof -
  obtain r e where "set_requirements w u reqs (rv_railway s) = Some (r, e)" using set_requirements_returns by fast
  then show thesis using turnout commit by (cases e) (simp_all add: activate_finish_def)
qed

lemma reserve_check_free:
  assumes "reserve_check u i s = None" and "conflicts (rv_db s) i b"
  shows "\<not> held (rv_db s) b"
  using assms
  by (auto simp: reserve_check_def has_active_conflict_iff conflicts_def split: if_splits option.splits)

lemma reserve_commit_db:
  assumes "reserve_commit sess i s = (s', res)"
  obtains (refused) "rv_db s' = rv_db s" "res \<noteq> None"
    | (reserved) "reserve_route i (s_id sess) (rv_db s) = Inr (rv_db s')" "res = None"
  using assms by (auto simp: reserve_commit_def publish_route_def split: sum.splits)

lemma activate_commit_db:
  assumes "activate_commit sess i s = (s', res)"
  obtains (refused) "rv_db s' = rv_db s" "res \<noteq> None"
    | (activated) "activate_route i (s_id sess) (rv_db s) = Inr (rv_db s')" "res = None" "rv_railway s' = rv_railway s"
  using assms by (auto simp: activate_commit_def publish_route_def split: sum.splits)

lemma activate_finish_db:
  assumes "activate_finish w u sess i reqs s = Some (s', res)"
  obtains (refused) "rv_db s' = rv_db s" "res \<noteq> None"
    | (activated) "activate_route i (s_id sess) (rv_db s) = Inr (rv_db s')" "res = None"
      "set_requirements w u reqs (rv_railway s) = Some (rv_railway s', None)"
proof (cases rule: activate_finish_cases [where w = w and u = u and sess = sess and i = i and reqs = reqs and s = s])
  case (turnout r e)
  then show thesis using assms refused by simp
next
  case (commit r)
  then have "activate_commit sess i (s\<lparr> rv_railway := r \<rparr>) = (s', res)" using assms by simp
  then show thesis by (cases rule: activate_commit_db) (use commit refused activated in simp_all)
qed

lemma release_db:
  assumes "release sess i s = (s', res)"
  obtains (refused) "rv_db s' = rv_db s" | (released) "release_route i (s_id sess) (rv_db s) = Inr (rv_db s')"
  using assms by (auto simp: release_def publish_route_def split: sum.splits)

lemma exclusive_mono:
  assumes "exclusive P db" and "rdb_conflicts db' = rdb_conflicts db" and "\<And>i. P' i \<Longrightarrow> P i"
  shows "exclusive P' db'"
  using assms(1,3) unfolding exclusive_def conflicts_cong [OF assms(2)] by blast

lemma exclusive_insert:
  assumes "exclusive P db" and "rdb_conflicts db' = rdb_conflicts db" and "symmetric_conflicts db"
    and "\<And>b. conflicts db i b \<Longrightarrow> \<not> P b" and "\<And>j. P' j \<Longrightarrow> j = i \<or> P j"
  shows "exclusive P' db'"
  using assms conflicts_sym [OF assms(3)] unfolding exclusive_def conflicts_cong [OF assms(2)]
  by (metis conflicts_def)

lemma route_exec_exclusive:
  assumes sym: "symmetric_conflicts (rv_db s)" and ex: "exclusive (held (rv_db s)) (rv_db s)"
  shows "\<exists>s'. route_exec q s = Some s' \<and> rdb_conflicts (rv_db s') = rdb_conflicts (rv_db s) \<and>
    exclusive (held (rv_db s')) (rv_db s')"
proof (cases q)
  case (Reserve u sess i)
  obtain s' res where run: "reserve u sess i s = (s', res)" by fastforce
  have "rdb_conflicts (rv_db s') = rdb_conflicts (rv_db s) \<and> exclusive (held (rv_db s')) (rv_db s')"
  proof (cases "reserve_check u i s")
    case None
    then have "reserve_commit sess i s = (s', res)" using run by (simp add: reserve_def)
    then show ?thesis
    proof (cases rule: reserve_commit_db)
      case reserved
      note e = reserve_route_effect [OF reserved(1)]
      show ?thesis
        using e(1) exclusive_insert [OF ex e(1) sym reserve_check_free [OF None], where P' = "held (rv_db s')"] e(3) by blast
    qed (use ex in simp)
  qed (use run ex in \<open>simp add: reserve_def\<close>)
  then show ?thesis using Reserve run by simp
next
  case (Activate w order u sess i)
  show ?thesis
  proof (cases "activate_check u sess i s")
    case (Inr reqs)
    obtain s' res where run: "activate_finish w u sess i (order reqs) s = Some (s', res)"
      using activate_finish_cases by (metis surj_pair)
    have "rdb_conflicts (rv_db s') = rdb_conflicts (rv_db s) \<and> exclusive (held (rv_db s')) (rv_db s')"
      using run
    proof (cases rule: activate_finish_db)
      case activated
      note e = activate_route_effect [OF activated(1)]
      show ?thesis using exclusive_mono [OF ex e(1), where P' = "held (rv_db s')"] e by blast
    qed (use ex in simp)
    then show ?thesis using Activate Inr run by (simp add: activate_def)
  qed (use Activate ex in \<open>simp add: activate_def\<close>)
next
  case (Release sess i)
  obtain s' res where run: "release sess i s = (s', res)" by fastforce
  then have "rdb_conflicts (rv_db s') = rdb_conflicts (rv_db s) \<and> exclusive (held (rv_db s')) (rv_db s')"
  proof (cases rule: release_db)
    case released
    note e = release_route_effect [OF released]
    show ?thesis using exclusive_mono [OF ex e(1), where P' = "held (rv_db s')"] e by blast
  qed (use ex in simp)
  then show ?thesis using Release run by simp
qed (use ex in simp)

text \<open>
  requests that run one after the other never hold two conflicting routes. Start with no
  route held and conflicts declared in both directions; then after any sequence of reservations,
  activations and releases, whatever users and sessions send them and whatever the turnouts and
  blocks do in between, the requests have all returned and of two conflicting routes at most one
  is reserved or active.
\<close>

theorem conflicting_routes_exclusive:
  assumes "symmetric_conflicts (rv_db s)" and "\<forall>r\<in>set (rdb_routes (rv_db s)). ro_state r = RouteIdle"
  shows "\<exists>s'. route_run qs s = Some s' \<and> exclusive (held (rv_db s')) (rv_db s')"
proof -
  have "exclusive (held (rv_db s)) (rv_db s)"
    using assms(2) by (auto simp: exclusive_def held_def route_held_def)
  then show ?thesis
    using assms(1)
  proof (induction qs arbitrary: s)
    case (Cons q qs)
    obtain s1 where s1: "route_exec q s = Some s1" "rdb_conflicts (rv_db s1) = rdb_conflicts (rv_db s)"
      "exclusive (held (rv_db s1)) (rv_db s1)"
      using route_exec_exclusive [OF Cons.prems(2,1)] by blast
    have "symmetric_conflicts (rv_db s1)" using Cons.prems(2) s1(2) by (simp add: symmetric_conflicts_def)
    from Cons.IH [OF s1(3) this] show ?case using s1(1) by simp
  qed simp
qed

text \<open>Two routes over one block, in conflict with each other, and two sessions that want them.\<close>

definition example_routes :: route_service where
  "example_routes =
     \<lparr> rv_db = \<lparr> rdb_routes = map (\<lambda>i. \<lparr> ro_id = i, ro_name = i, ro_state = RouteIdle, ro_reserved_by_session = [] \<rparr>) [''r1'', ''r2''],
         rdb_blocks = [(''r1'', ''b1''), (''r2'', ''b1'')], rdb_turnouts = [(''r1'', ''t1'', ''diverging'')],
         rdb_conflicts = [(''r1'', ''r2''), (''r2'', ''r1'')] \<rparr>,
       rv_railway = new_railway_service [example_turnout],
       rv_occupancy = \<lparr> oc_observations = [],
         oc_states = [(''b1'', \<lparr> bo_block_id = ''b1'', bo_state = OccFree, bo_occupant = None, bo_updated_at = 0 \<rparr>)],
         oc_availability = [], oc_started_at = 0, oc_diagnostics = [], oc_events = [] \<rparr>,
       rv_events = [] \<rparr>"

definition dispatch_session :: "string \<Rightarrow> session" where
  "dispatch_session i = \<lparr> s_id = i, s_user_id = ''dan'' \<rparr>"

theorem conflicting_routes_exclusive_witness:
  "\<exists>s'. route_run [Reserve dispatcher (dispatch_session ''s1'') ''r1'', Reserve dispatcher (dispatch_session ''s2'') ''r2'']
       example_routes = Some s' \<and> held (rv_db s') ''r1'' \<and> \<not> held (rv_db s') ''r2''"
proof -
  let ?qs = "[Reserve dispatcher (dispatch_session ''s1'') ''r1'', Reserve dispatcher (dispatch_session ''s2'') ''r2'']"
  have sym: "symmetric_conflicts (rv_db example_routes)"
    and idle: "\<forall>r\<in>set (rdb_routes (rv_db example_routes)). ro_state r = RouteIdle" by code_simp+
  obtain s' where s': "route_run ?qs example_routes = Some s'" "exclusive (held (rv_db s')) (rv_db s')"
    using conflicting_routes_exclusive [OF sym idle, of ?qs] by blast
  have "map_option (\<lambda>s. held (rv_db s) ''r1'' \<and> conflicts (rv_db s) ''r1'' ''r2'') (route_run ?qs example_routes) = Some True"
    by code_simp
  then show ?thesis using s' by (auto simp: exclusive_def)
qed

subsection \<open>Requests that interleave\<close>

text \<open>A route is committed when it is active or its activation has passed the checks.\<close>

definition committed :: "route_world \<Rightarrow> string \<Rightarrow> bool" where
  "committed x i \<longleftrightarrow> active (rv_db (fst x)) i \<or> (\<exists>t\<in>set (snd x). activating i t)"

definition route_inv :: "route_world \<Rightarrow> bool" where
  "route_inv x \<longleftrightarrow>
     symmetric_conflicts (rv_db (fst x)) \<and>
     (\<forall>i. committed x i \<longrightarrow> held (rv_db (fst x)) i) \<and>
     exclusive (committed x) (rv_db (fst x))"

lemma activate_check_Inr:
  assumes "activate_check u sess i s = Inr reqs"
  shows "held (rv_db s) i" and "conflicts (rv_db s) i b \<Longrightarrow> \<not> held (rv_db s) b"
proof -
  obtain r where r: "get_route i (rv_db s) = Inr r" "ro_state r = RouteReserved" "\<not> route_has_active_conflict i (rv_db s)"
    using assms by (auto simp: activate_check_def validate_route_activation_def split: if_splits sum.splits option.splits)
  then have "r \<in> set (rdb_routes (rv_db s))" "ro_id r = i"
    by (auto simp: get_route_def find_Some_iff split: option.splits)
  then show "held (rv_db s) i" using r(2) by (auto simp: held_def route_held_def)
  show "conflicts (rv_db s) i b \<Longrightarrow> \<not> held (rv_db s) b"
    using r(3) by (auto simp: has_active_conflict_iff conflicts_def)
qed

text \<open>A step that commits nothing new and lets go of nothing committed.\<close>

lemma route_inv_mono:
  assumes "route_inv x" and "rdb_conflicts (rv_db (fst y)) = rdb_conflicts (rv_db (fst x))"
    and "\<And>i. committed y i \<Longrightarrow> committed x i"
    and "\<And>i. committed y i \<Longrightarrow> held (rv_db (fst x)) i \<Longrightarrow> held (rv_db (fst y)) i"
  shows "route_inv y"
proof -
  have "symmetric_conflicts (rv_db (fst y))" using assms(1,2) by (simp add: route_inv_def symmetric_conflicts_def)
  moreover have "exclusive (committed y) (rv_db (fst y))"
    using assms(1) by (intro exclusive_mono [OF _ assms(2), where P = "committed x"] assms(3)) (simp_all add: route_inv_def)
  ultimately show ?thesis using assms(1,3,4) by (simp add: route_inv_def)
qed

lemma committed_simps:
  "committed (s, ReserveTicket sess i # ts) j \<longleftrightarrow> committed (s, ts) j"
  "committed (s, ActivateTicket u sess i reqs # ts) j \<longleftrightarrow> j = i \<or> committed (s, ts) j"
  by (auto simp: committed_def)

lemma committed_subset:
  "set ts' \<subseteq> set ts \<Longrightarrow> (\<And>i. active (rv_db s') i \<Longrightarrow> committed (s, ts) i) \<Longrightarrow> committed (s', ts') j \<Longrightarrow> committed (s, ts) j"
  by (auto simp: committed_def)

lemma route_step_inv: "route_step True x y \<Longrightarrow> route_inv x \<Longrightarrow> route_inv y"
proof (induction rule: route_step.induct)
  case (reserve_begin u i s ts sess)
  then show ?case by (elim route_inv_mono) (simp_all add: committed_simps)
next
  case (reserve_end sess i ts s s' res)
  let ?ts = "remove1 (ReserveTicket sess i) ts"
  from reserve_end(2) show ?case
  proof (cases rule: reserve_commit_db)
    case refused
    then show ?thesis using reserve_end(3) set_remove1_subset [of _ ts]
      by (elim route_inv_mono) (auto simp: committed_def)
  next
    case reserved
    note e = reserve_route_effect [OF reserved(1)]
    have "set ?ts \<subseteq> set ts" by (rule set_remove1_subset)
    then show ?thesis using reserve_end(3) e by (elim route_inv_mono) (auto simp: committed_def)
  qed
next
  case (activate_begin u sess i s reqs order ts)
  note c = activate_check_Inr [OF activate_begin(1)]
  have inv: "symmetric_conflicts (rv_db s)" "\<And>j. committed (s, ts) j \<Longrightarrow> held (rv_db s) j"
    "exclusive (committed (s, ts)) (rv_db s)" using activate_begin(3) by (simp_all add: route_inv_def)
  have "exclusive (committed (s, ActivateTicket u sess i order # ts)) (rv_db s)"
    by (rule exclusive_insert [OF inv(3) refl inv(1), of i]) (use c(2) inv(2) in \<open>auto simp: committed_simps\<close>)
  then show ?case using inv c(1) by (auto simp: route_inv_def committed_simps)
next
  case (activate_end u sess i reqs ts w s s' res)
  have was: "committed (s, ts) i" using activate_end(1) by (fastforce simp: committed_def)
  from activate_end(2) show ?case
  proof (cases rule: activate_finish_db)
    case refused
    then show ?thesis using activate_end(3) set_remove1_subset [of _ ts]
      by (elim route_inv_mono) (auto simp: committed_def)
  next
    case activated
    note e = activate_route_effect [OF activated(1)]
    show ?thesis
    proof (rule route_inv_mono [OF activate_end(3)])
      fix j
      show "committed (s', remove1 (ActivateTicket u sess i reqs) ts) j \<Longrightarrow> committed (s, ts) j"
        using set_remove1_subset [of "ActivateTicket u sess i reqs" ts] e(3) [of j] was by (auto simp: committed_def)
    qed (use e in auto)
  qed
next
  case (give_up s ts t)
  then show ?case using set_remove1_subset [of t ts] by (elim route_inv_mono) (auto simp: committed_def)
next
  case (release ts i sess s s' res)
  from release(2) show ?case
  proof (cases rule: release_db)
    case refused
    then show ?thesis using release(3) by (elim route_inv_mono) (auto simp: committed_def)
  next
    case released
    note e = release_route_effect [OF released]
    have free: "\<not> (\<exists>t\<in>set ts. activating i t)" using release(1) by blast
    show ?thesis
    proof (rule route_inv_mono [OF release(3)])
      fix j
      show "committed (s', ts) j \<Longrightarrow> committed (s, ts) j"
        by (rule committed_subset [OF order_refl]) (use e(2) in \<open>auto simp: committed_def\<close>)
      assume "committed (s', ts) j" "held (rv_db (fst (s, ts))) j"
      then show "held (rv_db (fst (s', ts))) j"
        using free e(4) [of j] active_held [of "rv_db s'" j] by (cases "j = i") (auto simp: committed_def)
    qed (use e in simp)
  qed
next
  case (elsewhere s ts r occ)
  then show ?case by (elim route_inv_mono) (auto simp: committed_def)
qed


definition moving_world :: "string \<Rightarrow> turnout_world" where
  "moving_world t = \<lparr> tw_health = None, tw_reply = (\<lambda>_. None), tw_steps = [confirming_world] \<rparr>"

definition reserved_routes :: route_service where
  "reserved_routes = fst (reserve_commit (dispatch_session ''s1'') ''r1'' example_routes)"

definition active_routes :: route_service where
  "active_routes = fst (the (activate_finish moving_world dispatcher (dispatch_session ''s1'') ''r1'' [(''t1'', ''diverging'')] reserved_routes))"

lemma reserved_reachable: "route_reachable calm example_routes (reserved_routes, [])"
proof -
  have "reserve_check dispatcher ''r1'' example_routes = None" by code_simp
  then have "route_reachable calm example_routes (example_routes, [ReserveTicket (dispatch_session ''s1'') ''r1''])"
    by (rule route_reachable.step [OF route_reachable.start route_step.reserve_begin])
  moreover have "route_step calm (example_routes, [ReserveTicket (dispatch_session ''s1'') ''r1'']) (reserved_routes, [])"
    using route_step.reserve_end [of "dispatch_session ''s1''" "''r1''" "[ReserveTicket (dispatch_session ''s1'') ''r1'']" example_routes]
    by (simp add: reserved_routes_def prod_eq_iff)
  ultimately show ?thesis by (rule route_reachable.step)
qed

lemma active_reachable: "route_reachable calm example_routes (active_routes, [])"
proof -
  let ?t = "ActivateTicket dispatcher (dispatch_session ''s1'') ''r1'' [(''t1'', ''diverging'')]"
  have "activate_check dispatcher (dispatch_session ''s1'') ''r1'' reserved_routes = Inr [(''t1'', ''diverging'')]" by code_simp
  then have "route_reachable calm example_routes (reserved_routes, [?t])"
    by (rule route_reachable.step [OF reserved_reachable route_step.activate_begin]) simp
  moreover have "activate_finish moving_world dispatcher (dispatch_session ''s1'') ''r1'' [(''t1'', ''diverging'')] reserved_routes
      = Some (active_routes, None)"
    by code_simp
  then have "route_step calm (reserved_routes, [?t]) (active_routes, remove1 ?t [?t])"
    by (intro route_step.activate_end) simp_all
  ultimately show ?thesis by (simp add: route_reachable.step)
qed


text \<open>
  Reservations of conflicting routes can both succeed. \<^verbatim>\<open>Reserve\<close> looks for conflicts and
  writes the reservation in two statements. When two sessions reserve conflicting routes and both
  look before either writes, both hold their route, and from then on the activation of either
  is refused with a route conflict.
\<close>

theorem reserve_race:
  "\<exists>s. route_reachable True example_routes (s, []) \<and> conflicts (rv_db s) ''r1'' ''r2'' \<and>
     held (rv_db s) ''r1'' \<and> held (rv_db s) ''r2'' \<and>
     activate_check dispatcher (dispatch_session ''s1'') ''r1'' s = Inl ErrRouteConflict \<and>
     activate_check dispatcher (dispatch_session ''s2'') ''r2'' s = Inl ErrRouteConflict"
proof -
  let ?t1 = "ReserveTicket (dispatch_session ''s1'') ''r1''" and ?t2 = "ReserveTicket (dispatch_session ''s2'') ''r2''"
  let ?s = "fst (reserve_commit (dispatch_session ''s2'') ''r2'' reserved_routes)"
  have "reserve_check dispatcher ''r1'' example_routes = None" by code_simp
  then have "route_reachable True example_routes (example_routes, [?t1])"
    by (rule route_reachable.step [OF route_reachable.start route_step.reserve_begin])
  moreover have "reserve_check dispatcher ''r2'' example_routes = None" by code_simp
  ultimately have "route_reachable True example_routes (example_routes, [?t2, ?t1])"
    by (rule route_reachable.step [OF _ route_step.reserve_begin])
  then have "route_reachable True example_routes (reserved_routes, remove1 ?t1 [?t2, ?t1])"
    by (rule route_reachable.step [OF _ route_step.reserve_end]) (simp_all add: reserved_routes_def prod_eq_iff)
  then have "route_reachable True example_routes (?s, remove1 ?t2 (remove1 ?t1 [?t2, ?t1]))"
    by (rule route_reachable.step [OF _ route_step.reserve_end]) (simp_all add: dispatch_session_def prod_eq_iff)
  then have r: "route_reachable True example_routes (?s, [])" by (simp add: dispatch_session_def)
  have "conflicts (rv_db ?s) ''r1'' ''r2''" "held (rv_db ?s) ''r1''" "held (rv_db ?s) ''r2''"
    "activate_check dispatcher (dispatch_session ''s1'') ''r1'' ?s = Inl ErrRouteConflict"
    "activate_check dispatcher (dispatch_session ''s2'') ''r2'' ?s = Inl ErrRouteConflict" by code_simp+
  with r show ?thesis by blast
qed

subsection \<open>What an activation establishes\<close>

text \<open>
  The command columns of a turnout, which only commands of that turnout write; \<open>keeps i\<close>
  says that nothing but the status of turnout \<open>i\<close> changed.
\<close>

definition command_row :: "string \<Rightarrow> railway \<Rightarrow> (string \<times> bool \<times> command_status) option" where
  "command_row j r = map_option (\<lambda>t. (t_desired_position t, t_pending t, t_command_status t)) (turnout_row j r)"

definition keeps :: "string \<Rightarrow> railway \<Rightarrow> railway \<Rightarrow> bool" where
  "keeps i r r' \<longleftrightarrow> (\<forall>j. j \<noteq> i \<longrightarrow> command_row j r' = command_row j r) \<and>
     map_option fst (command_row i r') = map_option fst (command_row i r)"

lemma keeps_refl [simp]: "keeps i r r"
  by (simp add: keeps_def)

lemma keeps_trans: "keeps i a b \<Longrightarrow> keeps i b c \<Longrightarrow> keeps i a c"
  by (simp add: keeps_def)

lemma keeps_rows: "rw_turnouts r' = rw_turnouts r \<Longrightarrow> keeps i r r'"
  by (simp add: keeps_def command_row_def turnout_row_def)

lemma rows_unchanged [simp]:
  "rw_turnouts (publish_railway e r) = rw_turnouts r"
  "rw_turnouts (publish_turnout_state i r) = rw_turnouts r"
  "rw_turnouts (signal_turnout_update i r) = rw_turnouts r"
  by (simp_all add: publish_railway_def publish_turnout_state_def signal_turnout_update_def split: sum.split option.split)

lemma keeps_observation:
  assumes "set_turnout_observation j p st q r = Inr r'"
  shows "keeps i r r'"
proof -
  have u: "turnout_row k r' = map_option (\<lambda>t. if t_id t = j then t\<lparr> t_reported_position := p, t_reported_status := st,
      t_quality := q, t_reported_state := legacy_turnout_state p \<rparr> else t) (turnout_row k r)" for k
    by (rule turnout_row_update(1) [OF assms [unfolded set_turnout_observation_def]]) simp
  have "command_row k r' = command_row k r" for k
    unfolding command_row_def u by (cases "turnout_row k r") simp_all
  then show ?thesis by (simp add: keeps_def)
qed

lemma keeps_event: "keeps i r (handle_accessory_state_event ev r)"
proof -
  have "keeps i r (handle_turnout_event ev t r)" for t r
  proof -
    have rec: "rw_turnouts r' = rw_turnouts r" if "record_accessory_event ev k e r = Some r'" for k e r'
      using that by (auto simp: record_accessory_event_def Let_def split: if_splits)
    have per: "keeps i r (persist_turnout_observation k p st q r)" for k p st q r
      by (auto simp: persist_turnout_observation_def split: sum.split intro: keeps_trans [OF keeps_observation keeps_rows])
    show ?thesis
      unfolding handle_turnout_event_def
      by (auto split: option.split prod.split
          intro: keeps_trans [OF keeps_rows [OF rec] keeps_trans [OF per keeps_rows]])
  qed
  then have "keeps i r (fold (handle_turnout_event ev) ts r)" for ts
    by (induction ts arbitrary: r) (auto intro: keeps_trans)
  then show ?thesis by (simp add: handle_accessory_state_event_def split: sum.split)
qed

lemma keeps_wait:
  "wait_for_turnout_position j g c target changed evs fin r = (r', res) \<Longrightarrow> keeps i r r'"
proof (induction evs arbitrary: r)
  case Nil
  then show ?case by (subst (asm) wait_for_turnout_position.simps) (auto split: option.splits)
next
  case (Cons ev evs)
  show ?case
  proof (cases "check_turnout_position j g c target changed r")
    case None
    then have "wait_for_turnout_position j g c target changed evs fin (handle_accessory_state_event ev r) = (r', res)"
      using Cons.prems by (subst (asm) wait_for_turnout_position.simps) simp
    from keeps_trans [OF keeps_event Cons.IH [OF this]] show ?thesis .
  qed (use Cons.prems in \<open>subst (asm) wait_for_turnout_position.simps, auto\<close>)
qed

lemma keeps_result:
  assumes "set_turnout_command_result i b st r = Inr r'"
  shows "keeps i r r'" and "command_row i r' = map_option (\<lambda>(d, _). (d, b, st)) (command_row i r)"
proof -
  have u: "turnout_row k r' = map_option (\<lambda>t. if t_id t = i then t\<lparr> t_pending := b, t_command_status := st \<rparr> else t)
      (turnout_row k r)" for k
    by (rule turnout_row_update(1) [OF assms [unfolded set_turnout_command_result_def]]) simp
  have row: "command_row k r' = (if k = i then map_option (\<lambda>(d, _). (d, b, st)) else id) (command_row k r)" for k
    unfolding command_row_def u by (cases "turnout_row k r") (auto dest: turnout_row_id)
  then show "command_row i r' = map_option (\<lambda>(d, _). (d, b, st)) (command_row i r)" by simp
  show "keeps i r r'" by (auto simp: keeps_def row option.map_comp comp_def case_prod_beta intro!: option.map_cong)
qed

lemma keeps_fail: "fail_turnout_command_with_status i target reason st cause r = (r', res) \<Longrightarrow> keeps i r r' \<and> res \<noteq> None"
  by (auto simp: fail_turnout_command_with_status_def split: sum.splits
      intro: keeps_trans [OF keeps_result(1) keeps_rows])

lemma keeps_succeed:
  assumes "succeed_turnout_command i r = (r', res)"
  shows "keeps i r r'" and "res = None \<Longrightarrow> command_row i r' = map_option (\<lambda>(d, _). (d, False, CommandSucceeded)) (command_row i r)"
proof -
  show "keeps i r r'"
    using assms by (auto simp: succeed_turnout_command_def split: sum.splits intro: keeps_trans [OF keeps_result(1) keeps_rows])
  assume "res = None"
  then obtain r1 where r1: "set_turnout_command_result i False CommandSucceeded r = Inr r1" "r' = publish_turnout_state i r1"
    using assms by (auto simp: succeed_turnout_command_def split: sum.splits)
  then show "command_row i r' = map_option (\<lambda>(d, _). (d, False, CommandSucceeded)) (command_row i r)"
    using keeps_result(2) [OF r1(1)] by (simp add: command_row_def)
qed

lemma send_rows: "send_endpoints reply i p changed es r = (r', res) \<Longrightarrow> rw_turnouts r' = rw_turnouts r"
  by (induction es arbitrary: r) (force simp: Let_def split: if_splits option.splits)+

lemma keeps_step:
  assumes "turnout_step reply t target g w current p r = (r', res)"
  shows "keeps (t_id t) r r'"
proof -
  obtain r1 c where b: "begin_turnout_step (sw_now w) (t_id t) g r = (r1, c)" by fastforce
  obtain r2 sent where s: "send_endpoints reply (t_id t) p (changed_turnout_endpoints t current (pd_id p)) (t_endpoints t) r1 = (r2, sent)"
    by fastforce
  obtain r3 w3 where w: "wait_for_turnout_position (t_id t) g c (pd_id p) (changed_turnout_endpoints t current (pd_id p))
      (sw_events w) (sw_end w) r2 = (r3, w3)" by fastforce
  have "rw_turnouts r1 = rw_turnouts r"
    using b by (auto simp: begin_turnout_step_def Let_def split: option.splits if_splits)
  then have k2: "keeps (t_id t) r r2" using send_rows [OF s] by (simp add: keeps_rows)
  have k3: "keeps (t_id t) r r3" using keeps_trans [OF k2 keeps_wait [OF w]] .
  show ?thesis
    using assms b s w
    by (auto simp: turnout_step_def Let_def fail_turnout_command_def split: option.splits if_splits
        intro: keeps_trans [OF k2] keeps_trans [OF k3] k3 dest!: keeps_fail)
qed

lemma keeps_follow:
  "follow_path reply t target g ws current ps r = (r', res) \<Longrightarrow>
     keeps (t_id t) r r' \<and> (res = None \<longrightarrow>
       command_row (t_id t) r' = map_option (\<lambda>(d, _). (d, False, CommandSucceeded)) (command_row (t_id t) r))"
proof (induction ps arbitrary: ws current r)
  case Nil
  then show ?case using keeps_succeed by simp
next
  case (Cons p ps)
  show ?case
  proof (cases "changed_turnout_endpoints t current (pd_id p) = []")
    case True
    then have "follow_path reply t target g ws (pd_id p) ps r = (r', res)" using Cons.prems by simp
    then show ?thesis by (rule Cons.IH)
  next
    case False
    obtain r1 e where step: "turnout_step reply t target g (case ws of [] \<Rightarrow> quiet_world | w # _ \<Rightarrow> w) current p r = (r1, e)"
      by fastforce
    note k = keeps_step [OF step]
    show ?thesis
    proof (cases e)
      case None
      then have "follow_path reply t target g (tl ws) (pd_id p) ps r1 = (r', res)" using Cons.prems False step by simp
      note ih = Cons.IH [OF this]
      have "map_option (\<lambda>(d, _). (d, False, CommandSucceeded)) (command_row (t_id t) r1) =
          map_option (\<lambda>(d, _). (d, False, CommandSucceeded)) (command_row (t_id t) r)"
        using k by (cases "command_row (t_id t) r"; cases "command_row (t_id t) r1") (auto simp: keeps_def)
      then show ?thesis using ih keeps_trans [OF k] by simp
    qed (use Cons.prems False step k in auto)
  qed
qed

lemma normalize_turnout_id: "normalize_turnout t = Inr t' \<Longrightarrow> t_id t' = t_id t"
  by (auto simp: normalize_turnout_def with_defaults_def new_simple_turnout_def populate_legacy_turnout_fields_def
      Let_def split: if_splits option.splits list.splits)

lemma set_turnout_commands:
  assumes "set_turnout health reply ws u i position r = Some (r', res)"
  shows "(\<forall>j. j \<noteq> i \<longrightarrow> command_row j r' = command_row j r) \<and>
    (res = None \<longrightarrow> command_row i r' = Some (position, False, CommandSucceeded))"
proof -
  have same: ?thesis if "r' = r" "res \<noteq> None" using that by auto
  consider "r' = r" "res \<noteq> None" | t where "allowed (u_role u) PermissionDispatch" "check_command_allowed health = None"
      "get_turnout i r = Inr t" "turnout_position t position \<noteq> None"
    using assms by (auto simp: set_turnout_def split: if_splits option.splits sum.splits)
  then show ?thesis
  proof cases
    case (2 t)
    obtain row where row: "turnout_row i r = Some row" "normalize_turnout row = Inr t"
      using 2(3) by (auto simp: get_turnout_def load_turnout_def split: option.splits sum.splits)
    have id: "t_id t = i" using normalize_turnout_id [OF row(2)] turnout_row_id [OF row(1)] by simp
    obtain r1 g where b: "begin_turnout_command i (seed_accessory_state t r) = (r1, g)" by fastforce
    have rows1: "rw_turnouts r1 = rw_turnouts r" using begin_rows [OF b] .
    show ?thesis
    proof (cases "set_turnout_desired_position i position True r1")
      case (Inl e)
      then have "r' = r1" "res \<noteq> None" using assms 2 b by (auto simp: set_turnout_def)
      then show ?thesis using rows1 by (auto simp: command_row_def turnout_row_def)
    next
      case (Inr r2)
      let ?r3 = "publish_railway (TurnoutCommanded i position) r2"
      have u: "turnout_row k r2 = map_option (\<lambda>t. if t_id t = i then t\<lparr> t_desired_position := position, t_pending := True,
          t_command_status := CommandPending, t_desired_state := legacy_turnout_state position \<rparr> else t) (turnout_row k r1)" for k
        using turnout_row_update(1) [OF Inr [unfolded set_turnout_desired_position_def]] by simp
      have others: "command_row k ?r3 = command_row k r" if "k \<noteq> i" for k
        using that unfolding command_row_def turnout_row_publish u
        by (cases "turnout_row k r1") (use turnout_row_cong [OF rows1] turnout_row_id [of k r1] in auto)
      have mine: "map_option (\<lambda>(d, _). (d, False, CommandSucceeded)) (command_row i ?r3) = Some (position, False, CommandSucceeded)"
        using row(1) turnout_row_cong [OF rows1, of i] turnout_row_id [OF row(1)] by (simp add: command_row_def u)
      have "(case safe_turnout_path t (t_reported_position t) position of
           None \<Rightarrow> None
         | Some (Inl e) \<Rightarrow> Some (fail_turnout_command i position ''unsafe_transition'' (ErrTurnoutTransitionFailed e) ?r3)
         | Some (Inr []) \<Rightarrow> Some (succeed_turnout_command i ?r3)
         | Some (Inr path) \<Rightarrow> Some (follow_path reply t position g ws (t_reported_position t) path ?r3)) = Some (r', res)"
        using assms 2 b Inr by (auto simp: set_turnout_def Let_def)
      then consider e where "fail_turnout_command i position ''unsafe_transition'' (ErrTurnoutTransitionFailed e) ?r3 = (r', res)"
        | "succeed_turnout_command i ?r3 = (r', res)"
        | path where "follow_path reply t position g ws (t_reported_position t) path ?r3 = (r', res)"
        by (auto simp del: follow_path.simps split: option.splits sum.splits list.splits)
      then have "keeps i ?r3 r' \<and> (res = None \<longrightarrow>
          command_row i r' = map_option (\<lambda>(d, _). (d, False, CommandSucceeded)) (command_row i ?r3))"
      proof cases
        case (1 e)
        from keeps_fail [OF 1 [unfolded fail_turnout_command_def]] show ?thesis by blast
      next
        case 2
        from keeps_succeed [OF 2] show ?thesis by blast
      next
        case (3 path)
        from keeps_follow [OF 3] show ?thesis unfolding id .
      qed
      then show ?thesis using others mine by (auto simp: keeps_def)
    qed
  qed (rule same)
qed

lemma set_requirements_commands:
  "set_requirements w u reqs r = Some (r', None) \<Longrightarrow> distinct (map fst reqs) \<Longrightarrow>
     (\<forall>j. j \<notin> fst ` set reqs \<longrightarrow> command_row j r' = command_row j r) \<and>
     (\<forall>(t, p)\<in>set reqs. command_row t r' = Some (p, False, CommandSucceeded))"
proof (induction reqs arbitrary: r)
  case (Cons tp reqs)
  obtain t p where tp: "tp = (t, p)" by (cases tp)
  obtain r1 where r1: "set_turnout (tw_health (w t)) (tw_reply (w t)) (tw_steps (w t)) u t p r = Some (r1, None)"
      "set_requirements w u reqs r1 = Some (r', None)"
    using Cons.prems(1) tp by (auto split: option.splits prod.splits)
  have t: "t \<notin> fst ` set reqs" "distinct (map fst reqs)" using Cons.prems(2) tp by auto
  note c = set_turnout_commands [OF r1(1)]
  note ih = Cons.IH [OF r1(2) t(2)]
  show ?case using c ih t(1) tp by (auto simp: image_iff)
qed simp

lemma requirements_map:
  assumes "gm_wf m"
  shows "gm_wf (fold (\<lambda>(_, t, st). gm_put t st) xs m)"
  using assms by (induction xs arbitrary: m) auto

lemma check_blocks_None: "check_blocks occ b bs = None \<Longrightarrow> \<not> b \<and> (\<forall>x\<in>set bs. bo_state (block_state x occ) \<noteq> OccOccupied \<and> bo_state (block_state x occ) \<noteq> OccUnknown)"
  by (induction occ b bs rule: check_blocks.induct) (auto split: if_splits occupancy_state.splits)

lemma validate_route_occupancy_None:
  assumes "(i, b) \<in> set (rdb_blocks (rv_db s))" and "validate_route_occupancy i s = None"
  shows "bo_state (block_state b (rv_occupancy s)) \<notin> {OccOccupied, OccUnknown}"
proof -
  obtain bs where bs: "route_block_ids i (rv_db s) = Inr bs" "check_blocks (rv_occupancy s) False bs = None"
    using assms(2) by (auto simp: validate_route_occupancy_def split: sum.splits)
  have mem: "b \<in> set (sort (map snd (filter (\<lambda>(r, _). r = i) (rdb_blocks (rv_db s)))))"
    using assms(1) by (force simp: image_iff)
  then have "sort (map snd (filter (\<lambda>(r, _). r = i) (rdb_blocks (rv_db s)))) \<noteq> []" by (metis list.set(1) empty_iff)
  then have "b \<in> set bs" using bs(1) mem by (simp add: route_block_ids_def Let_def)
  then show ?thesis using check_blocks_None [OF bs(2)] by blast
qed

text \<open>
  C29: what a successful activation has established, in whatever order the turnouts were
  commanded and whatever the station did. The caller may dispatch; the route was reserved by the
  caller's session with no conflicting route reserved or active, and none of its blocks was
  occupied or unknown; afterwards the route is active, and every turnout it requires has been
  commanded to the required position, successfully, and is not pending.
\<close>

theorem activate_establishes:
  assumes "activate w order u sess i s = Some (s', None)" and "\<And>m. mset (order m) = mset m"
  shows "allowed (u_role u) PermissionDispatch \<and>
    (\<exists>r. get_route i (rv_db s) = Inr r \<and> ro_state r = RouteReserved \<and> ro_reserved_by_session r = s_id sess) \<and>
    (\<forall>b. conflicts (rv_db s) i b \<longrightarrow> \<not> held (rv_db s) b) \<and>
    (\<forall>b. (i, b) \<in> set (rdb_blocks (rv_db s)) \<longrightarrow>
       bo_state (block_state b (rv_occupancy s)) \<notin> {OccOccupied, OccUnknown}) \<and>
    active (rv_db s') i \<and>
    (\<forall>(t, p)\<in>set (route_turnout_requirements i (rv_db s)).
       \<exists>row. turnout_row t (rv_railway s') = Some row \<and> t_desired_position row = p \<and> \<not> t_pending row \<and>
         t_command_status row = CommandSucceeded)"
proof (intro conjI allI impI)
  obtain reqs where c: "activate_check u sess i s = Inr reqs" and f: "activate_finish w u sess i (order reqs) s = Some (s', None)"
    using assms(1) by (auto simp: activate_def split: sum.splits)
  show "allowed (u_role u) PermissionDispatch" using c by (simp add: activate_check_def split: if_splits)
  have v: "validate_route_activation i (s_id sess) (rv_db s) = None" "validate_route_occupancy i s = None"
    and reqs: "reqs = route_turnout_requirements i (rv_db s)"
    using c by (auto simp: activate_check_def split: if_splits option.splits)
  show "\<exists>r. get_route i (rv_db s) = Inr r \<and> ro_state r = RouteReserved \<and> ro_reserved_by_session r = s_id sess"
    using v(1) by (auto simp: validate_route_activation_def split: sum.splits if_splits)
  show "\<not> held (rv_db s) b" if "conflicts (rv_db s) i b" for b using activate_check_Inr(2) [OF c that] .
  show "bo_state (block_state b (rv_occupancy s)) \<notin> {OccOccupied, OccUnknown}"
    if "(i, b) \<in> set (rdb_blocks (rv_db s))" for b
    using that v(2) by (rule validate_route_occupancy_None)
  from f have a: "activate_route i (s_id sess) (rv_db s) = Inr (rv_db s')"
    and moved: "set_requirements w u (order reqs) (rv_railway s) = Some (rv_railway s', None)"
    by (cases rule: activate_finish_db; simp)+
  show "active (rv_db s') i" using activate_route_effect(3) [OF a] by blast
  have "gm_wf reqs" unfolding reqs route_turnout_requirements_def by (rule requirements_map) simp
  then have "distinct (map fst (order reqs))"
    using assms(2) [of reqs] gm_wf_distinct by (metis mset_eq_imp_distinct_iff mset_map)
  note cmd = set_requirements_commands [OF moved this]
  have "set (order reqs) = set reqs" using assms(2) [of reqs] mset_eq_setD by blast
  with cmd show "\<forall>(t, p)\<in>set (route_turnout_requirements i (rv_db s)).
       \<exists>row. turnout_row t (rv_railway s') = Some row \<and> t_desired_position row = p \<and> \<not> t_pending row \<and>
         t_command_status row = CommandSucceeded"
    unfolding reqs by (fastforce simp: command_row_def)
qed

theorem activate_establishes_witness:
  "\<exists>row. turnout_row ''t1'' (rv_railway active_routes) = Some row \<and> t_desired_position row = ''diverging'' \<and>
     t_command_status row = CommandSucceeded"
proof -
  have "activate moving_world (\<lambda>m. m) dispatcher (dispatch_session ''s1'') ''r1'' reserved_routes = Some (active_routes, None)"
    by code_simp
  moreover have "(''t1'', ''diverging'') \<in> set (route_turnout_requirements ''r1'' (rv_db reserved_routes))" by code_simp
  ultimately show ?thesis using activate_establishes [where order = "\<lambda>m. m"] by fastforce
qed

end
