(* ===== verification/RollingStock.thy ===== *)
theory RollingStock
  imports Lease
begin

text \<open>
  Rolling stock: the locomotive statements of \<^verbatim>\<open>internal/store/railway.go\<close> and the
  locomotive operations of \<^verbatim>\<open>internal/service/railway.go\<close>. The database is that of the leases,
  because both layers look at the leases before they change a locomotive. Each operation runs
  as a whole; the events it publishes are left out.
\<close>

subsection \<open>Store\<close>

definition list_locomotives :: "lease_db \<Rightarrow> locomotive list" where
  "list_locomotives db = sort_key l_name (ld_locomotives db)"

definition locomotive_row :: "string \<Rightarrow> lease_db \<Rightarrow> service_error + locomotive" where
  "locomotive_row i db =
     (case find (\<lambda>l. l_id l = i) (ld_locomotives db) of None \<Rightarrow> Inl ErrNotFound | Some l \<Rightarrow> Inr l)"

definition insert_locomotive :: "locomotive \<Rightarrow> lease_db \<Rightarrow> service_error + lease_db" where
  "insert_locomotive x db =
     (if l_id x \<in> l_id ` set (ld_locomotives db) then Inl ErrConflict
      else Inr (db\<lparr> ld_locomotives := ld_locomotives db @ [x] \<rparr>))"

definition update_locomotive_row :: "locomotive \<Rightarrow> lease_db \<Rightarrow> service_error + lease_db" where
  "update_locomotive_row x db =
     (if l_id x \<in> l_id ` set (ld_locomotives db)
      then Inr (db\<lparr> ld_locomotives := map (\<lambda>l. if l_id l = l_id x then x else l) (ld_locomotives db) \<rparr>)
      else Inl ErrNotFound)"

definition delete_locomotive_row :: "string \<Rightarrow> lease_db \<Rightarrow> service_error + lease_db" where
  "delete_locomotive_row i db =
     (if \<exists>l\<in>set (ld_leases db). cl_locomotive_id l = i then Inl ErrConflict
      else if i \<in> l_id ` set (ld_locomotives db)
      then Inr (db\<lparr> ld_locomotives := filter (\<lambda>l. l_id l \<noteq> i) (ld_locomotives db) \<rparr>)
      else Inl ErrNotFound)"

definition replace_locomotives :: "locomotive list \<Rightarrow> bool \<Rightarrow> lease_db \<Rightarrow> service_error + lease_db" where
  "replace_locomotives items replace db =
     (if replace \<and> (\<exists>l\<in>set (ld_leases db). lease_live l) then Inl ErrConflict
      else
        (let db1 = (if replace then db\<lparr> ld_leases := [], ld_locomotives := [] \<rparr> else db)
         in Inr (db1\<lparr> ld_locomotives := fold (upsert l_id) items (ld_locomotives db1) \<rparr>)))"

subsection \<open>Input\<close>

record locomotive_input =
  li_name :: string
  li_dcc_address :: int
  li_address_kind :: string
  li_speed_steps :: int
  li_manufacturer :: string
  li_model :: string

definition locomotive_from_input :: "string \<Rightarrow> locomotive_input \<Rightarrow> service_error + locomotive" where
  "locomotive_from_input i input =
     (let name = trim_space (li_name input);
          kind = to_lower (trim_space (li_address_kind input));
          maker = trim_space (li_manufacturer input);
          modl = trim_space (li_model input);
          addr = li_dcc_address input
      in if name = [] then Inl (ErrValidation ''name is required'')
         else if length name > 128 then Inl (ErrValidation ''name must be at most 128 characters'')
         else if length maker > 128 then Inl (ErrValidation ''manufacturer must be at most 128 characters'')
         else if length modl > 128 then Inl (ErrValidation ''model must be at most 128 characters'')
         else if addr < 1 \<or> addr > 10239 then Inl (ErrValidation ''dccAddress must be in range 1..10239'')
         else if kind = ''short'' \<and> addr > 127 then Inl (ErrValidation ''short dccAddress must be in range 1..127'')
         else if kind = ''long'' \<and> addr < 128 then Inl (ErrValidation ''long dccAddress must be in range 128..10239'')
         else if kind \<noteq> ''short'' \<and> kind \<noteq> ''long'' then Inl (ErrValidation ''addressKind must be short or long'')
         else if li_speed_steps input \<notin> {14, 28, 128}
         then Inl (ErrValidation ''speedSteps must be one of 14, 28 or 128'')
         else Inr \<lparr> l_id = i, l_name = name, l_dcc_address = addr, l_address_kind = kind,
                     l_speed_steps = li_speed_steps input, l_manufacturer = maker, l_model = modl \<rparr>)"

subsection \<open>Service\<close>

definition create_locomotive ::
  "string \<Rightarrow> user \<Rightarrow> locomotive_input \<Rightarrow> lease_db \<Rightarrow> service_error + (locomotive \<times> lease_db)" where
  "create_locomotive new_id u input db =
     (if \<not> allowed (u_role u) PermissionConfigure then Inl ErrPermissionDenied
      else rbind (locomotive_from_input new_id input) (\<lambda>x.
        rbind (insert_locomotive x db) (\<lambda>db'. Inr (x, db'))))"

text \<open>The live lease of a locomotive refuses its change; another error of the lookup is passed on.\<close>

definition refuse_live :: "string \<Rightarrow> lease_db \<Rightarrow> service_error option" where
  "refuse_live i db =
     (case live_lease_for_loco i db of
        Inr _ \<Rightarrow> Some ErrConflict
      | Inl e \<Rightarrow> if e = ErrNotFound then None else Some e)"

definition update_locomotive ::
  "user \<Rightarrow> string \<Rightarrow> locomotive_input \<Rightarrow> lease_db \<Rightarrow> service_error + (locomotive \<times> lease_db)" where
  "update_locomotive u i input db =
     (if \<not> allowed (u_role u) PermissionConfigure then Inl ErrPermissionDenied
      else rbind (locomotive_row i db) (\<lambda>_.
        case refuse_live i db of
          Some e \<Rightarrow> Inl e
        | None \<Rightarrow>
            rbind (locomotive_from_input i input) (\<lambda>x.
              rbind (update_locomotive_row x db) (\<lambda>db'. Inr (x, db')))))"

definition delete_locomotive :: "user \<Rightarrow> string \<Rightarrow> lease_db \<Rightarrow> service_error + lease_db" where
  "delete_locomotive u i db =
     (if \<not> allowed (u_role u) PermissionConfigure then Inl ErrPermissionDenied
      else rbind (locomotive_row i db) (\<lambda>_.
        case refuse_live i db of
          Some e \<Rightarrow> Inl e
        | None \<Rightarrow> delete_locomotive_row i db))"

subsection \<open>Archives\<close>

text \<open>
  Rolling stock archives of \<^verbatim>\<open>internal/transfer/archive.go\<close>, as the documents they contain;
  \<open>seen\<close> is the set of identifiers already met.
\<close>

datatype archive_error = ArchiveRequiresIdAndName | ArchiveDuplicateId string | ArchiveBadAddress string
  | ArchiveBadKind string | ArchiveBadSpeedSteps string

fun validate_locomotives :: "string list \<Rightarrow> locomotive list \<Rightarrow> archive_error option" where
  "validate_locomotives seen [] = None"
| "validate_locomotives seen (x # xs) =
     (if l_id x = [] \<or> l_name x = [] then Some ArchiveRequiresIdAndName
      else if l_id x \<in> set seen then Some (ArchiveDuplicateId (l_id x))
      else if l_dcc_address x < 1 \<or> l_dcc_address x > 9999 then Some (ArchiveBadAddress (l_id x))
      else if l_address_kind x \<noteq> ''short'' \<and> l_address_kind x \<noteq> ''long'' then Some (ArchiveBadKind (l_id x))
      else if l_speed_steps x \<noteq> 14 \<and> l_speed_steps x \<noteq> 28 \<and> l_speed_steps x \<noteq> 128
      then Some (ArchiveBadSpeedSteps (l_id x))
      else validate_locomotives (l_id x # seen) xs)"

definition export_rolling_stock :: "lease_db \<Rightarrow> locomotive list" where
  "export_rolling_stock db = list_locomotives db"

definition import_rolling_stock ::
  "user \<Rightarrow> locomotive list \<Rightarrow> bool \<Rightarrow> lease_db \<Rightarrow> (service_error + archive_error) + lease_db" where
  "import_rolling_stock u items replace db =
     (if \<not> allowed (u_role u) PermissionConfigure then Inl (Inl ErrPermissionDenied)
      else case validate_locomotives [] items of
             Some e \<Rightarrow> Inl (Inr e)
           | None \<Rightarrow> (case replace_locomotives items replace db of Inl e \<Rightarrow> Inl (Inl e) | Inr db' \<Rightarrow> Inr db'))"

subsection \<open>Input facts\<close>

definition locomotive_wf :: "locomotive \<Rightarrow> bool" where
  "locomotive_wf x \<longleftrightarrow>
     l_name x \<noteq> [] \<and> length (l_name x) \<le> 128 \<and> length (l_manufacturer x) \<le> 128 \<and> length (l_model x) \<le> 128 \<and>
     (l_address_kind x = ''short'' \<and> 1 \<le> l_dcc_address x \<and> l_dcc_address x \<le> 127 \<or>
      l_address_kind x = ''long'' \<and> 128 \<le> l_dcc_address x \<and> l_dcc_address x \<le> 10239) \<and>
     l_speed_steps x \<in> {14, 28, 128}"

definition input_of :: "locomotive \<Rightarrow> locomotive_input" where
  "input_of x = \<lparr> li_name = l_name x, li_dcc_address = l_dcc_address x, li_address_kind = l_address_kind x,
     li_speed_steps = l_speed_steps x, li_manufacturer = l_manufacturer x, li_model = l_model x \<rparr>"

lemma from_input_fields:
  assumes "locomotive_from_input i input = Inr x"
  shows "locomotive_wf x" and "l_id x = i" and "l_name x = trim_space (li_name input)"
    and "l_manufacturer x = trim_space (li_manufacturer input)" and "l_model x = trim_space (li_model input)"
    and "l_address_kind x = to_lower (trim_space (li_address_kind input))"
    and "l_dcc_address x = li_dcc_address input" and "l_speed_steps x = li_speed_steps input"
proof -
  let ?x = "\<lparr> l_id = i, l_name = trim_space (li_name input), l_dcc_address = li_dcc_address input,
    l_address_kind = to_lower (trim_space (li_address_kind input)), l_speed_steps = li_speed_steps input,
    l_manufacturer = trim_space (li_manufacturer input), l_model = trim_space (li_model input) \<rparr>"
  have "x = ?x \<and> locomotive_wf ?x"
    using assms unfolding locomotive_from_input_def Let_def
    by (simp add: locomotive_wf_def split: if_split_asm) linarith
  then show "locomotive_wf x" "l_id x = i" "l_name x = trim_space (li_name input)"
    "l_manufacturer x = trim_space (li_manufacturer input)" "l_model x = trim_space (li_model input)"
    "l_address_kind x = to_lower (trim_space (li_address_kind input))"
    "l_dcc_address x = li_dcc_address input" "l_speed_steps x = li_speed_steps input" by simp_all
qed

lemma kind_stable:
  assumes "kind = ''short'' \<or> kind = ''long''"
  shows "to_lower (trim_space kind) = kind"
proof -
  have "to_lower (trim_space ''short'') = ''short''" "to_lower (trim_space ''long'') = ''long''" by code_simp+
  then show ?thesis using assms by auto
qed

text \<open>
  What the input check accepts is a well-formed locomotive, with an address that fits its
  kind, a supported number of speed steps, and texts without surrounding space of at most 128
  characters; and writing a stored locomotive back unchanged gives exactly that locomotive.
\<close>

theorem locomotive_from_input_roundtrip:
  assumes "locomotive_from_input i input = Inr x"
  shows "locomotive_wf x \<and> locomotive_from_input j (input_of x) = Inr (x\<lparr> l_id := j \<rparr>)"
proof -
  note f = from_input_fields [OF assms]
  have trims: "trim_space (l_name x) = l_name x" "trim_space (l_manufacturer x) = l_manufacturer x"
    "trim_space (l_model x) = l_model x" using f by simp_all
  have kind: "to_lower (trim_space (l_address_kind x)) = l_address_kind x"
    by (rule kind_stable) (use f(1) in \<open>auto simp: locomotive_wf_def\<close>)
  have "locomotive_from_input j (input_of x) = Inr (x\<lparr> l_id := j \<rparr>)"
    using f(1) by (auto simp: locomotive_from_input_def input_of_def trims kind locomotive_wf_def Let_def)
  then show ?thesis using f(1) by blast
qed

definition example_input :: locomotive_input where
  "example_input = \<lparr> li_name = '' BR 01 '', li_dcc_address = 3, li_address_kind = ''Short'', li_speed_steps = 128,
     li_manufacturer = [], li_model = [] \<rparr>"

theorem locomotive_from_input_roundtrip_witness:
  "locomotive_wf example_loco \<and> locomotive_from_input ''loco'' (input_of example_loco) = Inr example_loco"
proof -
  have "locomotive_from_input ''loco'' example_input = Inr example_loco" by code_simp
  from locomotive_from_input_roundtrip [OF this, of "''loco''"] show ?thesis by (simp add: example_loco_def)
qed

subsection \<open>What every change of the stock keeps\<close>

definition stock_inv :: "lease_db \<Rightarrow> bool" where
  "stock_inv db \<longleftrightarrow> lease_inv db \<and> distinct (map l_id (ld_locomotives db))"

text \<open>The locomotives that a live lease refers to.\<close>

definition leased :: "lease_db \<Rightarrow> string \<Rightarrow> bool" where
  "leased db i \<longleftrightarrow> (\<exists>l\<in>set (ld_leases db). cl_locomotive_id l = i \<and> lease_live l)"

locale stock_change =
  fixes change :: "lease_db \<Rightarrow> 'e + lease_db"
  assumes keeps_inv: "stock_inv db \<Longrightarrow> change db = Inr db' \<Longrightarrow> stock_inv db'"
    and keeps_leased: "stock_inv db \<Longrightarrow> change db = Inr db' \<Longrightarrow> leased db i \<Longrightarrow> locomotive_row i db' = locomotive_row i db"
begin

definition apply_change :: "lease_db \<Rightarrow> lease_db" where
  "apply_change db = (case change db of Inl _ \<Rightarrow> db | Inr db' \<Rightarrow> db')"

lemma change_safe:
  assumes "stock_inv db"
  shows "stock_inv (apply_change db) \<and> (\<forall>i. leased db i \<longrightarrow> locomotive_row i (apply_change db) = locomotive_row i db)"
  using keeps_inv [OF assms] keeps_leased [OF assms] assms by (cases "change db") (auto simp: apply_change_def)

end

lemma map_sum_Inr [simp]: "map_sum f g x = Inr y \<longleftrightarrow> (\<exists>z. x = Inr z \<and> y = g z)"
  by (cases x) auto

lemma lease_inv_more:
  assumes "lease_inv db" and "l_id ` set (ld_locomotives db) \<subseteq> l_id ` set ls"
  shows "lease_inv (db\<lparr> ld_locomotives := ls \<rparr>)"
  using assms by (auto simp: lease_inv_def)

lemma leased_exists: "stock_inv db \<Longrightarrow> leased db i \<Longrightarrow> i \<in> l_id ` set (ld_locomotives db)"
  by (auto simp: stock_inv_def lease_inv_def leased_def)

lemma refuse_live_None: "refuse_live i db = None \<longleftrightarrow> \<not> leased db i"
  by (auto simp: refuse_live_def live_lease_for_loco_def leased_def find_None_iff find_Some_iff
      split: option.splits)

lemma find_append_new: "i \<in> l_id ` set ls \<Longrightarrow> find (\<lambda>l. l_id l = i) (ls @ xs) = find (\<lambda>l. l_id l = i) ls"
  by (induction ls) auto

lemma find_map_other:
  "i \<noteq> l_id x \<Longrightarrow> find (\<lambda>l. l_id l = i) (map (\<lambda>l. if l_id l = l_id x then x else l) ls) = find (\<lambda>l. l_id l = i) ls"
  by (induction ls) auto

lemma find_filter_other: "i \<noteq> j \<Longrightarrow> find (\<lambda>l. l_id l = i) (filter (\<lambda>l. l_id l \<noteq> j) ls) = find (\<lambda>l. l_id l = i) ls"
  by (induction ls) auto

interpretation create_change: stock_change "\<lambda>db. map_sum id snd (create_locomotive new_id u input db)" for new_id u input
proof unfold_locales
  fix db db' i
  assume inv: "stock_inv db" and run: "map_sum id snd (create_locomotive new_id u input db) = Inr db'"
  then obtain x where x: "l_id x \<notin> l_id ` set (ld_locomotives db)" "db' = db\<lparr> ld_locomotives := ld_locomotives db @ [x] \<rparr>"
    by (auto simp: create_locomotive_def insert_locomotive_def split: if_splits)
  show "stock_inv db'" using inv x by (auto simp: stock_inv_def intro: lease_inv_more)
  show "leased db i \<Longrightarrow> locomotive_row i db' = locomotive_row i db"
    using leased_exists [OF inv] x(2) by (simp add: locomotive_row_def find_append_new)
qed

lemma update_locomotive_safe:
  assumes inv: "stock_inv db" and run: "map_sum id snd (update_locomotive u j input db) = Inr db'"
  shows "stock_inv db'" and "leased db i \<Longrightarrow> locomotive_row i db' = locomotive_row i db"
proof -
  obtain x where x: "l_id x = j" "\<not> leased db j"
      "db' = db\<lparr> ld_locomotives := map (\<lambda>l. if l_id l = l_id x then x else l) (ld_locomotives db) \<rparr>"
    using run by (auto simp: update_locomotive_def update_locomotive_row_def refuse_live_None
        dest!: from_input_fields(2) split: if_splits option.splits)
  have ids: "map l_id (map (\<lambda>l. if l_id l = l_id x then x else l) (ld_locomotives db)) = map l_id (ld_locomotives db)" by simp
  then have "l_id ` set (map (\<lambda>l. if l_id l = l_id x then x else l) (ld_locomotives db)) = l_id ` set (ld_locomotives db)"
    by (metis set_map)
  then show "stock_inv db'" using inv x(3) ids by (simp add: stock_inv_def lease_inv_more del: map_map set_map)
  assume "leased db i"
  then have "i \<noteq> l_id x" using x(1,2) by blast
  then have "find (\<lambda>l. l_id l = i) (ld_locomotives db') = find (\<lambda>l. l_id l = i) (ld_locomotives db)"
    unfolding x(3) by (simp add: find_map_other)
  then show "locomotive_row i db' = locomotive_row i db" by (simp only: locomotive_row_def)
qed

interpretation update_change: stock_change "\<lambda>db. map_sum id snd (update_locomotive u j input db)" for u j input
  by unfold_locales (fact update_locomotive_safe)+

interpretation delete_change: stock_change "delete_locomotive u j" for u j
proof unfold_locales
  fix db db' i
  assume inv: "stock_inv db" and run: "delete_locomotive u j db = Inr db'"
  then have j: "\<forall>l\<in>set (ld_leases db). cl_locomotive_id l \<noteq> j"
    and db': "db' = db\<lparr> ld_locomotives := filter (\<lambda>l. l_id l \<noteq> j) (ld_locomotives db) \<rparr>"
    by (auto simp: delete_locomotive_def delete_locomotive_row_def split: if_splits option.splits)
  have "lease_inv db'" using inv j unfolding db' stock_inv_def lease_inv_def by force
  then show "stock_inv db'" using inv unfolding stock_inv_def db' by (simp add: distinct_map_filter)
  assume "leased db i"
  then have "i \<noteq> j" using j by (auto simp: leased_def)
  then have "find (\<lambda>l. l_id l = i) (ld_locomotives db') = find (\<lambda>l. l_id l = i) (ld_locomotives db)"
    unfolding db' by (simp add: find_filter_other)
  then show "locomotive_row i db' = locomotive_row i db" by (simp only: locomotive_row_def)
qed

lemma fold_upsert_ids:
  "distinct (map l_id ls) \<Longrightarrow> distinct (map l_id (fold (upsert l_id) xs ls)) \<and>
   l_id ` set ls \<subseteq> l_id ` set (fold (upsert l_id) xs ls)"
proof (induction xs arbitrary: ls)
  case (Cons x xs)
  from Cons.IH [OF distinct_upsert [OF Cons.prems, of x]] show ?case using set_upsert_keys [of l_id x ls] by auto
qed simp

lemma replace_inv:
  assumes "stock_inv db" and "replace_locomotives items replace db = Inr db'"
  shows "stock_inv db'"
proof (cases replace)
  case True
  then have "db' = db\<lparr> ld_leases := [], ld_locomotives := fold (upsert l_id) items [] \<rparr>"
    using assms(2) by (simp add: replace_locomotives_def split: if_splits)
  then show ?thesis using fold_upsert_ids [of "[]" items] by (simp add: stock_inv_def lease_inv_def)
next
  case False
  then have "db' = db\<lparr> ld_locomotives := fold (upsert l_id) items (ld_locomotives db) \<rparr>"
    using assms(2) by (simp add: replace_locomotives_def)
  then show ?thesis using assms(1) fold_upsert_ids [of "ld_locomotives db" items]
    by (simp add: stock_inv_def lease_inv_more)
qed

interpretation replace_change: stock_change "replace_locomotives items True" for items
proof unfold_locales
  show "stock_inv db \<Longrightarrow> replace_locomotives items True db = Inr db' \<Longrightarrow> stock_inv db'" for db db' by (rule replace_inv)
  show "replace_locomotives items True db = Inr db' \<Longrightarrow> leased db i \<Longrightarrow> locomotive_row i db' = locomotive_row i db" for db db' i
    by (auto simp: replace_locomotives_def leased_def split: if_splits)
qed

lemma lease_exec_locomotives: "lease_exec oper db = Inr db' \<Longrightarrow> ld_locomotives db' = ld_locomotives db"
  by (cases oper) (auto simp: create_lease_def heartbeat_lease_def transfer_active_lease_def renew_active_lease_for_command_def
      mark_lease_stopping_def mark_lease_stopping_for_session_def release_lease_def update_where_def
      split: if_splits option.splits sum.splits)

interpretation lease_change: stock_change "lease_exec oper" for oper
proof unfold_locales
  fix db db' i
  assume inv: "stock_inv db" and run: "lease_exec oper db = Inr db'"
  show "stock_inv db'" using inv lease_exec_inv [OF _ run] lease_exec_locomotives [OF run] by (simp add: stock_inv_def)
  show "locomotive_row i db' = locomotive_row i db" using lease_exec_locomotives [OF run] by (simp add: locomotive_row_def)
qed

subsection \<open>Histories of the stock\<close>

datatype stock_op =
    CreateLoco string user locomotive_input
  | UpdateLoco user string locomotive_input
  | DeleteLoco user string
  | ReplaceStock "locomotive list"
  | LeaseStatement lease_op

fun stock_step :: "stock_op \<Rightarrow> lease_db \<Rightarrow> lease_db" where
  "stock_step (CreateLoco i u input) db = (case create_locomotive i u input db of Inl _ \<Rightarrow> db | Inr (_, db') \<Rightarrow> db')"
| "stock_step (UpdateLoco u i input) db = (case update_locomotive u i input db of Inl _ \<Rightarrow> db | Inr (_, db') \<Rightarrow> db')"
| "stock_step (DeleteLoco u i) db = (case delete_locomotive u i db of Inl _ \<Rightarrow> db | Inr db' \<Rightarrow> db')"
| "stock_step (ReplaceStock items) db = (case replace_locomotives items True db of Inl _ \<Rightarrow> db | Inr db' \<Rightarrow> db')"
| "stock_step (LeaseStatement oper) db = (case lease_exec oper db of Inl _ \<Rightarrow> db | Inr db' \<Rightarrow> db')"

lemma stock_step_safe:
  assumes "stock_inv db"
  shows "stock_inv (stock_step oper db) \<and> (\<forall>i. leased db i \<longrightarrow> locomotive_row i (stock_step oper db) = locomotive_row i db)"
proof (cases oper)
  case (CreateLoco i u input)
  have "stock_step oper db = create_change.apply_change i u input db"
    by (cases "create_locomotive i u input db") (auto simp: CreateLoco create_change.apply_change_def)
  then show ?thesis using create_change.change_safe [OF assms] by simp
next
  case (UpdateLoco u i input)
  have "stock_step oper db = update_change.apply_change u i input db"
    by (cases "update_locomotive u i input db") (auto simp: UpdateLoco update_change.apply_change_def)
  then show ?thesis using update_change.change_safe [OF assms] by simp
next
  case (DeleteLoco u i)
  then show ?thesis using delete_change.change_safe [OF assms] by (simp add: delete_change.apply_change_def)
next
  case (ReplaceStock items)
  then show ?thesis using replace_change.change_safe [OF assms] by (simp add: replace_change.apply_change_def)
next
  case (LeaseStatement oper)
  then show ?thesis using lease_change.change_safe [OF assms] by (simp add: lease_change.apply_change_def)
qed


definition ada :: user where "ada = \<lparr> u_id = ''ada'', u_role = RoleAdministrator \<rparr>"


text \<open>
  importing an archive in merge mode changes a leased locomotive all the same. With a live
  lease on a locomotive, \<^verbatim>\<open>UpdateLocomotive\<close> is refused with a conflict, but importing an archive
  that names the locomotive with another address succeeds and leaves that address in its row.
\<close>

theorem merge_import_changes_leased:
  "\<exists>db x. stock_inv db \<and> leased db ''loco'' \<and> locomotive_row ''loco'' db = Inr x \<and> l_dcc_address x = 3 \<and>
     update_locomotive ada ''loco'' (input_of (x\<lparr> l_dcc_address := 4 \<rparr>)) db = Inl ErrConflict \<and>
     (\<exists>db'. import_rolling_stock ada [x\<lparr> l_dcc_address := 4 \<rparr>] False db = Inr db' \<and> leased db' ''loco'' \<and>
        locomotive_row ''loco'' db' = Inr (x\<lparr> l_dcc_address := 4 \<rparr>))"
proof -
  let ?db = "example_db\<lparr> ld_leases := [example_lease ''a'' ''ann'' ''s1'' second] \<rparr>"
  let ?x = "example_loco\<lparr> l_dcc_address := 4 \<rparr>"
  have "stock_inv ?db"
    by (simp add: stock_inv_def lease_inv_def example_db_def example_loco_def example_lease_def)
  moreover have "leased ?db ''loco''" "locomotive_row ''loco'' ?db = Inr example_loco" "l_dcc_address example_loco = 3"
    "update_locomotive ada ''loco'' (input_of ?x) ?db = Inl ErrConflict"
    "import_rolling_stock ada [?x] False ?db = Inr (?db\<lparr> ld_locomotives := [?x] \<rparr>)"
    "leased (?db\<lparr> ld_locomotives := [?x] \<rparr>) ''loco''" "locomotive_row ''loco'' (?db\<lparr> ld_locomotives := [?x] \<rparr>) = Inr ?x"
    by code_simp+
  ultimately show ?thesis by blast
qed

subsection \<open>Archives round trip\<close>

definition importable :: "locomotive \<Rightarrow> bool" where
  "importable x \<longleftrightarrow> l_id x \<noteq> [] \<and> l_name x \<noteq> [] \<and> 1 \<le> l_dcc_address x \<and> l_dcc_address x \<le> 9999 \<and>
     l_address_kind x \<in> {''short'', ''long''} \<and> l_speed_steps x \<in> {14, 28, 128}"

lemma validate_locomotives_None:
  "validate_locomotives seen xs = None \<longleftrightarrow>
     (\<forall>x\<in>set xs. importable x) \<and> distinct (map l_id xs) \<and> set (map l_id xs) \<inter> set seen = {}"
  by (induction seen xs rule: validate_locomotives.induct) (auto simp: importable_def)

text \<open>
  Exporting the rolling stock and importing the archive again. For an administrator, with no
  live lease, and stored locomotives of the form the server creates, replacing the stock by its
  own export restores exactly the same locomotives when every address is at most 9999, and is
  refused as soon as one address is larger, although the server accepts addresses up to 10239.
\<close>

theorem export_import:
  assumes "allowed (u_role u) PermissionConfigure" and "stock_inv db" and "\<forall>l\<in>set (ld_leases db). \<not> lease_live l"
    and "\<forall>x\<in>set (ld_locomotives db). locomotive_wf x \<and> l_id x \<noteq> []"
  shows "if \<forall>x\<in>set (ld_locomotives db). l_dcc_address x \<le> 9999
    then \<exists>db'. import_rolling_stock u (export_rolling_stock db) True db = Inr db' \<and>
      mset (ld_locomotives db') = mset (ld_locomotives db)
    else \<exists>e. import_rolling_stock u (export_rolling_stock db) True db = Inl (Inr e)"
proof -
  let ?xs = "export_rolling_stock db"
  have m: "mset ?xs = mset (ld_locomotives db)" by (simp add: export_rolling_stock_def list_locomotives_def)
  then have set: "set ?xs = set (ld_locomotives db)" by (rule mset_eq_setD)
  have "distinct (map l_id (ld_locomotives db))" using assms(2) by (simp add: stock_inv_def)
  then have d: "distinct (map l_id ?xs)" using m by (metis mset_eq_imp_distinct_iff mset_map)
  have imp: "importable x \<longleftrightarrow> l_dcc_address x \<le> 9999" if "x \<in> set (ld_locomotives db)" for x
    using assms(4) that by (auto simp: importable_def locomotive_wf_def)
  have v: "validate_locomotives [] ?xs = None \<longleftrightarrow> (\<forall>x\<in>set (ld_locomotives db). l_dcc_address x \<le> 9999)"
    using d imp by (simp add: validate_locomotives_None set)
  have "replace_locomotives ?xs True db = Inr (db\<lparr> ld_leases := [], ld_locomotives := ?xs \<rparr>)"
    using assms(3) fold_upsert_fresh [OF d, of "[]"] by (auto simp: replace_locomotives_def)
  then show ?thesis
    using v assms(1) m by (cases "validate_locomotives [] ?xs") (auto simp: import_rolling_stock_def)
qed

theorem export_import_witness:
  "(\<exists>db'. import_rolling_stock ada (export_rolling_stock example_db) True example_db = Inr db' \<and>
      mset (ld_locomotives db') = mset (ld_locomotives example_db))"
proof -
  have "stock_inv example_db" "\<forall>l\<in>set (ld_leases example_db). \<not> lease_live l"
    "\<forall>x\<in>set (ld_locomotives example_db). locomotive_wf x \<and> l_id x \<noteq> []" "allowed (u_role ada) PermissionConfigure"
    by (simp_all add: stock_inv_def lease_inv_def example_db_def example_loco_def locomotive_wf_def ada_def)
  from export_import [OF this(4,1-3)] show ?thesis by (simp add: example_db_def example_loco_def)
qed

end
