(* ===== verification/Topology.thy ===== *)
theory Topology
  imports Turnout
begin

text \<open>
  The static description of the railway as \<^verbatim>\<open>internal/model/topology.go\<close> and
  \<^verbatim>\<open>internal/model/block_definition.go\<close> define it: nodes, track sections between them,
  the ports and connections of every turnout position, and blocks that own sections and
  turnouts. The theory models the validation of such a description loop by loop, and shows
  that it accepts exactly the descriptions that are well formed in a declarative sense.
\<close>

subsection \<open>Data\<close>

datatype node_kind = NodeJoint | NodeBuffer | NodeBoundary | NodeOther string

fun node_kind_valid :: "node_kind \<Rightarrow> bool" where
  "node_kind_valid (NodeOther _) = False"
| "node_kind_valid _ = True"

record topology_node =
  tn_id :: string
  tn_name :: string
  tn_kind :: node_kind

record track_section =
  ts_id :: string
  ts_name :: string
  ts_node_a :: string
  ts_node_b :: string
  ts_length_mm :: int

record turnout_port =
  pt_id :: string
  pt_node_id :: string

record port_connection =
  pc_port_a :: string
  pc_port_b :: string

record turnout_topology_position =
  tp_position_id :: string
  tp_connections :: "port_connection list"

record turnout_topology =
  tt_turnout_id :: string
  tt_ports :: "turnout_port list"
  tt_positions :: "turnout_topology_position list"

record block_definition =
  bd_id :: string
  bd_name :: string
  bd_track_section_ids :: "string list"
  bd_turnout_ids :: "string list"

record route_definition =
  rd_id :: string
  rd_name :: string
  rd_block_ids :: "string list"
  rd_turnout_states :: "(string, string) gomap"
  rd_conflict_route_ids :: "string list"
  rd_entry_node_id :: string
  rd_exit_node_id :: string

text \<open>
  The fields of \<^verbatim>\<open>LayoutDefinition\<close> that describe the track; its presentation, feedback
  mappings and occupancy sources are not read by the topology.
\<close>

record layout_definition =
  ld_blocks :: "block_definition list"
  ld_turnouts :: "turnout list"
  ld_routes :: "route_definition list"
  ld_topology_nodes :: "topology_node list"
  ld_track_sections :: "track_section list"
  ld_turnout_topologies :: "turnout_topology list"

subsection \<open>Problems\<close>

datatype turnout_topology_detail =
    TooFewPorts
  | PortWithoutId
  | DuplicatePort string
  | PortUnknownNode string string
  | TopologyPositionWithoutId
  | TopologyDuplicatePosition string
  | TopologyUnknownPosition string
  | ConnectionUnknownPort string string
  | ConnectionToItself string string
  | DuplicateConnection string string string
  | TopologyMissingPosition string

datatype topology_problem =
    NodeIdRequired
  | DuplicateNode string
  | InvalidNodeKind string node_kind
  | SectionIdRequired
  | DuplicateSection string
  | SectionUnknownNode string string
  | SectionLoop string string
  | SectionNegativeLength string int
  | TopologyTurnoutRequired
  | DuplicateTopology string
  | TopologyUnknownTurnout string
  | TurnoutTopologyError string string turnout_topology_detail

datatype block_problem =
    BlockIdAndName nat
  | DuplicateBlock string
  | BlockUnknownSection string string
  | SectionOwnedTwice string string string
  | BlockUnknownTurnout string string
  | TurnoutOwnedTwice string string string

subsection \<open>Validation of the topology\<close>

fun validate_nodes ::
  "topology_node list \<Rightarrow> (string, topology_node) gomap \<Rightarrow> topology_problem + (string, topology_node) gomap" where
  "validate_nodes [] nodes = Inr nodes"
| "validate_nodes (n # ns) nodes =
     (if blank (tn_id n) then Inl NodeIdRequired
      else if gm_has nodes (tn_id n) then Inl (DuplicateNode (tn_id n))
      else if \<not> node_kind_valid (tn_kind n) then Inl (InvalidNodeKind (tn_id n) (tn_kind n))
      else validate_nodes ns (gm_put (tn_id n) n nodes))"

fun validate_sections ::
  "(string, topology_node) gomap \<Rightarrow> track_section list \<Rightarrow> string list \<Rightarrow> topology_problem option" where
  "validate_sections nodes [] sections = None"
| "validate_sections nodes (s # ss) sections =
     (if blank (ts_id s) then Some SectionIdRequired
      else if ts_id s \<in> set sections then Some (DuplicateSection (ts_id s))
      else if \<not> gm_has nodes (ts_node_a s) then Some (SectionUnknownNode (ts_id s) (ts_node_a s))
      else if \<not> gm_has nodes (ts_node_b s) then Some (SectionUnknownNode (ts_id s) (ts_node_b s))
      else if ts_node_a s = ts_node_b s then Some (SectionLoop (ts_id s) (ts_node_a s))
      else if ts_length_mm s < 0 then Some (SectionNegativeLength (ts_id s) (ts_length_mm s))
      else validate_sections nodes ss (ts_id s # sections))"

definition new_port_connection_key :: "string \<Rightarrow> string \<Rightarrow> string \<times> string" where
  "new_port_connection_key a b = (if a > b then (b, a) else (a, b))"

abbreviation connection_key :: "port_connection \<Rightarrow> string \<times> string" where
  "connection_key c \<equiv> new_port_connection_key (pc_port_a c) (pc_port_b c)"

fun validate_ports ::
  "string \<Rightarrow> (string, topology_node) gomap \<Rightarrow> turnout_port list \<Rightarrow> string list \<Rightarrow> topology_problem + string list" where
  "validate_ports i nodes [] ports = Inr ports"
| "validate_ports i nodes (p # ps) ports =
     (if blank (pt_id p) then Inl (TurnoutTopologyError ''turnout_topology_invalid'' i PortWithoutId)
      else if pt_id p \<in> set ports
      then Inl (TurnoutTopologyError ''turnout_topology_invalid'' i (DuplicatePort (pt_id p)))
      else if \<not> gm_has nodes (pt_node_id p)
      then Inl (TurnoutTopologyError ''turnout_topology_invalid'' i (PortUnknownNode (pt_id p) (pt_node_id p)))
      else validate_ports i nodes ps (pt_id p # ports))"

fun validate_connections ::
  "string \<Rightarrow> string \<Rightarrow> string list \<Rightarrow> port_connection list \<Rightarrow> (string \<times> string) list \<Rightarrow> topology_problem option" where
  "validate_connections i pos ports [] connections = None"
| "validate_connections i pos ports (c # cs) connections =
     (if pc_port_a c \<notin> set ports
      then Some (TurnoutTopologyError ''turnout_topology_invalid'' i (ConnectionUnknownPort pos (pc_port_a c)))
      else if pc_port_b c \<notin> set ports
      then Some (TurnoutTopologyError ''turnout_topology_invalid'' i (ConnectionUnknownPort pos (pc_port_b c)))
      else if pc_port_a c = pc_port_b c
      then Some (TurnoutTopologyError ''turnout_topology_invalid'' i (ConnectionToItself pos (pc_port_a c)))
      else if connection_key c \<in> set connections
      then Some (TurnoutTopologyError ''turnout_topology_invalid'' i
             (DuplicateConnection pos (fst (connection_key c)) (snd (connection_key c))))
      else validate_connections i pos ports cs (connection_key c # connections))"

fun validate_topology_positions ::
  "string \<Rightarrow> string list \<Rightarrow> string list \<Rightarrow> turnout_topology_position list \<Rightarrow> string list \<Rightarrow>
   topology_problem + string list" where
  "validate_topology_positions i declared ports [] positions = Inr positions"
| "validate_topology_positions i declared ports (p # ps) positions =
     (if blank (tp_position_id p)
      then Inl (TurnoutTopologyError ''turnout_topology_position_invalid'' i TopologyPositionWithoutId)
      else if tp_position_id p \<in> set positions
      then Inl (TurnoutTopologyError ''turnout_topology_position_invalid'' i
             (TopologyDuplicatePosition (tp_position_id p)))
      else if tp_position_id p \<notin> set declared
      then Inl (TurnoutTopologyError ''turnout_topology_position_undeclared'' i
             (TopologyUnknownPosition (tp_position_id p)))
      else case validate_connections i (tp_position_id p) ports (tp_connections p) [] of
             Some e \<Rightarrow> Inl e
           | None \<Rightarrow> validate_topology_positions i declared ports ps (tp_position_id p # positions))"

definition validate_turnout_topology ::
  "turnout_topology \<Rightarrow> turnout \<Rightarrow> (string, topology_node) gomap \<Rightarrow> topology_problem option" where
  "validate_turnout_topology topo t nodes =
     (let i = tt_turnout_id topo; declared = map pd_id (t_positions t)
      in if length (tt_ports topo) < 2
         then Some (TurnoutTopologyError ''turnout_topology_invalid'' i TooFewPorts)
         else case validate_ports i nodes (tt_ports topo) [] of
                Inl e \<Rightarrow> Some e
              | Inr ports \<Rightarrow>
                  (case validate_topology_positions i declared ports (tt_positions topo) [] of
                     Inl e \<Rightarrow> Some e
                   | Inr positions \<Rightarrow>
                       (case find (\<lambda>p. p \<notin> set positions) (str_set declared) of
                          Some p \<Rightarrow> Some (TurnoutTopologyError ''turnout_topology_position_missing'' i
                                       (TopologyMissingPosition p))
                        | None \<Rightarrow> None)))"

fun validate_topologies ::
  "(string, turnout) gomap \<Rightarrow> (string, topology_node) gomap \<Rightarrow> turnout_topology list \<Rightarrow> string list \<Rightarrow>
   topology_problem option" where
  "validate_topologies turnouts nodes [] topologies = None"
| "validate_topologies turnouts nodes (topo # topos) topologies =
     (if blank (tt_turnout_id topo) then Some TopologyTurnoutRequired
      else if tt_turnout_id topo \<in> set topologies then Some (DuplicateTopology (tt_turnout_id topo))
      else case map_of turnouts (tt_turnout_id topo) of
             None \<Rightarrow> Some (TopologyUnknownTurnout (tt_turnout_id topo))
           | Some t \<Rightarrow>
               (case validate_turnout_topology topo t nodes of
                  Some e \<Rightarrow> Some e
                | None \<Rightarrow> validate_topologies turnouts nodes topos (tt_turnout_id topo # topologies)))"

definition turnouts_by_id :: "turnout list \<Rightarrow> (string, turnout) gomap" where
  "turnouts_by_id ts = fold (\<lambda>t. gm_put (t_id t) t) ts []"

definition validate_topology_definition :: "layout_definition \<Rightarrow> topology_problem option" where
  "validate_topology_definition l =
     (case validate_nodes (ld_topology_nodes l) [] of
        Inl e \<Rightarrow> Some e
      | Inr nodes \<Rightarrow>
          or_else (validate_sections nodes (ld_track_sections l) [])
            (validate_topologies (turnouts_by_id (ld_turnouts l)) nodes (ld_turnout_topologies l) []))"

subsection \<open>Validation of the blocks\<close>

text \<open>The two inner loops: every resource is declared and has no owner yet.\<close>

fun claim_resources ::
  "(string \<Rightarrow> block_problem) \<Rightarrow> (string \<Rightarrow> string \<Rightarrow> block_problem) \<Rightarrow> string list \<Rightarrow> string \<Rightarrow> string list \<Rightarrow>
   (string, string) gomap \<Rightarrow> block_problem + (string, string) gomap" where
  "claim_resources unknown taken declared b [] owners = Inr owners"
| "claim_resources unknown taken declared b (r # rs) owners =
     (if r \<notin> set declared then Inl (unknown r)
      else case map_of owners r of
             Some owner \<Rightarrow> Inl (taken r owner)
           | None \<Rightarrow> claim_resources unknown taken declared b rs (gm_put r b owners))"

fun validate_blocks ::
  "string list \<Rightarrow> string list \<Rightarrow> nat \<Rightarrow> block_definition list \<Rightarrow> string list \<Rightarrow>
   (string, string) gomap \<Rightarrow> (string, string) gomap \<Rightarrow> block_problem option" where
  "validate_blocks sections turnouts index [] blocks so to' = None"
| "validate_blocks sections turnouts index (b # bs) blocks so to' =
     (if bd_id b = [] \<or> bd_name b = [] then Some (BlockIdAndName index)
      else if bd_id b \<in> set blocks then Some (DuplicateBlock (bd_id b))
      else case claim_resources (BlockUnknownSection (bd_id b)) (\<lambda>r owner. SectionOwnedTwice r owner (bd_id b))
                  sections (bd_id b) (bd_track_section_ids b) so of
             Inl e \<Rightarrow> Some e
           | Inr so' \<Rightarrow>
               (case claim_resources (BlockUnknownTurnout (bd_id b)) (\<lambda>r owner. TurnoutOwnedTwice r owner (bd_id b))
                       turnouts (bd_id b) (bd_turnout_ids b) to' of
                  Inl e \<Rightarrow> Some e
                | Inr to'' \<Rightarrow> validate_blocks sections turnouts (Suc index) bs (bd_id b # blocks) so' to''))"

definition validate_block_definitions :: "layout_definition \<Rightarrow> block_problem option" where
  "validate_block_definitions l =
     validate_blocks (map ts_id (ld_track_sections l)) (map tt_turnout_id (ld_turnout_topologies l)) 0
       (ld_blocks l) [] [] []"

subsection \<open>What is accepted\<close>

text \<open>A topology of a turnout, against the node identifiers and the declared positions.\<close>

definition connections_wf :: "string set \<Rightarrow> port_connection list \<Rightarrow> bool" where
  "connections_wf ports cs \<longleftrightarrow>
     (\<forall>c\<in>set cs. pc_port_a c \<in> ports \<and> pc_port_b c \<in> ports \<and> pc_port_a c \<noteq> pc_port_b c) \<and>
     distinct (map connection_key cs)"

definition turnout_topology_wf :: "string set \<Rightarrow> string set \<Rightarrow> turnout_topology \<Rightarrow> bool" where
  "turnout_topology_wf nodes declared topo \<longleftrightarrow>
     2 \<le> length (tt_ports topo) \<and> distinct (map pt_id (tt_ports topo)) \<and>
     (\<forall>p\<in>set (tt_ports topo). \<not> blank (pt_id p) \<and> pt_node_id p \<in> nodes) \<and>
     distinct (map tp_position_id (tt_positions topo)) \<and>
     tp_position_id ` set (tt_positions topo) = declared \<and>
     (\<forall>p\<in>set (tt_positions topo). \<not> blank (tp_position_id p) \<and>
        connections_wf (pt_id ` set (tt_ports topo)) (tp_connections p))"

definition node_ids :: "layout_definition \<Rightarrow> string set" where
  "node_ids l = tn_id ` set (ld_topology_nodes l)"

definition sections_wf :: "string set \<Rightarrow> track_section list \<Rightarrow> bool" where
  "sections_wf nodes ss \<longleftrightarrow>
     distinct (map ts_id ss) \<and>
     (\<forall>s\<in>set ss. \<not> blank (ts_id s) \<and> ts_node_a s \<in> nodes \<and> ts_node_b s \<in> nodes \<and>
        ts_node_a s \<noteq> ts_node_b s \<and> 0 \<le> ts_length_mm s)"

definition topology_wf :: "layout_definition \<Rightarrow> bool" where
  "topology_wf l \<longleftrightarrow>
     distinct (map tn_id (ld_topology_nodes l)) \<and>
     (\<forall>n\<in>set (ld_topology_nodes l). \<not> blank (tn_id n) \<and> node_kind_valid (tn_kind n)) \<and>
     sections_wf (node_ids l) (ld_track_sections l) \<and>
     distinct (map tt_turnout_id (ld_turnout_topologies l)) \<and>
     (\<forall>topo\<in>set (ld_turnout_topologies l). \<not> blank (tt_turnout_id topo) \<and>
        (\<exists>t. map_of (turnouts_by_id (ld_turnouts l)) (tt_turnout_id topo) = Some t \<and>
           turnout_topology_wf (node_ids l) (pd_id ` set (t_positions t)) topo))"

text \<open>Every block is named, and no resource is in two blocks or twice in one.\<close>

definition blocks_wf :: "layout_definition \<Rightarrow> bool" where
  "blocks_wf l \<longleftrightarrow>
     distinct (map bd_id (ld_blocks l)) \<and>
     (\<forall>b\<in>set (ld_blocks l). bd_id b \<noteq> [] \<and> bd_name b \<noteq> [] \<and>
        set (bd_track_section_ids b) \<subseteq> ts_id ` set (ld_track_sections l) \<and>
        set (bd_turnout_ids b) \<subseteq> tt_turnout_id ` set (ld_turnout_topologies l)) \<and>
     distinct (concat (map bd_track_section_ids (ld_blocks l))) \<and>
     distinct (concat (map bd_turnout_ids (ld_blocks l)))"

lemma gm_has_iff: "gm_has m k \<longleftrightarrow> k \<in> fst ` set m"
  by (auto simp: gm_has_def map_of_eq_None_iff)

lemma validate_nodes_Inr:
  "validate_nodes ns nodes = Inr nodes' \<longleftrightarrow>
     nodes' = fold (\<lambda>n. gm_put (tn_id n) n) ns nodes \<and> distinct (map tn_id ns) \<and>
     tn_id ` set ns \<inter> fst ` set nodes = {} \<and>
     (\<forall>n\<in>set ns. \<not> blank (tn_id n) \<and> node_kind_valid (tn_kind n))"
  by (induction ns nodes rule: validate_nodes.induct) (auto simp: gm_has_iff)

lemma fst_fold_gm_put [simp]: "fst ` set (fold (\<lambda>x. gm_put (f x) (g x)) xs m) = f ` set xs \<union> fst ` set m"
  by (induction xs arbitrary: m) auto

lemma gm_wf_fold_put [simp]: "gm_wf m \<Longrightarrow> gm_wf (fold (\<lambda>x. gm_put (f x) (g x)) xs m)"
  by (induction xs arbitrary: m) auto

lemma validate_sections_None:
  "validate_sections nodes ss seen = None \<longleftrightarrow>
     sections_wf (fst ` set nodes) ss \<and> ts_id ` set ss \<inter> set seen = {}"
  by (induction nodes ss seen rule: validate_sections.induct) (auto simp: sections_wf_def gm_has_iff)

lemma validate_ports_Inr:
  "validate_ports i nodes ps ports = Inr ports' \<longleftrightarrow>
     ports' = rev (map pt_id ps) @ ports \<and> distinct (map pt_id ps) \<and> pt_id ` set ps \<inter> set ports = {} \<and>
     (\<forall>p\<in>set ps. \<not> blank (pt_id p) \<and> pt_node_id p \<in> fst ` set nodes)"
  by (induction i nodes ps ports rule: validate_ports.induct) (auto simp: gm_has_iff)

lemma validate_connections_None:
  "validate_connections i pos ports cs seen = None \<longleftrightarrow>
     connections_wf (set ports) cs \<and> connection_key ` set cs \<inter> set seen = {}"
  by (induction i pos ports cs seen rule: validate_connections.induct) (auto simp: connections_wf_def)

lemma validate_topology_positions_Inr:
  "validate_topology_positions i declared ports ps seen = Inr seen' \<longleftrightarrow>
     seen' = rev (map tp_position_id ps) @ seen \<and> distinct (map tp_position_id ps) \<and>
     tp_position_id ` set ps \<inter> set seen = {} \<and> tp_position_id ` set ps \<subseteq> set declared \<and>
     (\<forall>p\<in>set ps. \<not> blank (tp_position_id p) \<and> connections_wf (set ports) (tp_connections p))"
proof (induction i declared ports ps seen rule: validate_topology_positions.induct)
  case (2 i declared ports p ps positions)
  show ?case
  proof (cases "blank (tp_position_id p) \<or> tp_position_id p \<in> set positions \<or> tp_position_id p \<notin> set declared \<or>
      \<not> connections_wf (set ports) (tp_connections p)")
    case True
    then show ?thesis using validate_connections_None [of i "tp_position_id p" ports "tp_connections p" "[]"]
      by (auto split: option.splits)
  next
    case False
    then have "validate_connections i (tp_position_id p) ports (tp_connections p) [] = None"
      by (simp add: validate_connections_None)
    then show ?thesis using False 2 by auto
  qed
qed auto

lemma find_case_None:
  "(case find P xs of Some p \<Rightarrow> Some (e p) | None \<Rightarrow> None) = None \<longleftrightarrow> (\<forall>x\<in>set xs. \<not> P x)"
  by (auto split: option.splits simp: find_None_iff find_Some_iff)

lemma validate_turnout_topology_None:
  "validate_turnout_topology topo t nodes = None \<longleftrightarrow>
     turnout_topology_wf (fst ` set nodes) (pd_id ` set (t_positions t)) topo"
proof (cases "validate_ports (tt_turnout_id topo) nodes (tt_ports topo) []")
  case (Inl e)
  then have "\<not> turnout_topology_wf (fst ` set nodes) (pd_id ` set (t_positions t)) topo"
    using validate_ports_Inr [of "tt_turnout_id topo" nodes "tt_ports topo" "[]" "rev (map pt_id (tt_ports topo))"]
    by (auto simp: turnout_topology_wf_def)
  then show ?thesis using Inl by (simp add: validate_turnout_topology_def Let_def)
next
  case (Inr ports)
  note ports = Inr [unfolded validate_ports_Inr]
  have set_ports: "set ports = pt_id ` set (tt_ports topo)" using ports by auto
  let ?v = "validate_topology_positions (tt_turnout_id topo) (map pd_id (t_positions t)) ports (tt_positions topo) []"
  show ?thesis
  proof (cases ?v)
    case (Inl e)
    then have "\<not> turnout_topology_wf (fst ` set nodes) (pd_id ` set (t_positions t)) topo"
      using validate_topology_positions_Inr [of "tt_turnout_id topo" "map pd_id (t_positions t)" ports
          "tt_positions topo" "[]" "rev (map tp_position_id (tt_positions topo))"]
      by (auto simp: turnout_topology_wf_def set_ports)
    then show ?thesis using Inl Inr by (simp add: validate_turnout_topology_def Let_def)
  next
    case (Inr positions)
    note positions = Inr [unfolded validate_topology_positions_Inr]
    have "validate_turnout_topology topo t nodes = None \<longleftrightarrow>
        2 \<le> length (tt_ports topo) \<and> (\<forall>p\<in>pd_id ` set (t_positions t). p \<in> set positions)"
      using Inr \<open>validate_ports _ _ _ _ = _\<close>
      by (simp add: validate_turnout_topology_def Let_def find_case_None not_less)
    also have "\<dots> \<longleftrightarrow> turnout_topology_wf (fst ` set nodes) (pd_id ` set (t_positions t)) topo"
      using ports positions unfolding turnout_topology_wf_def set_ports by auto
    finally show ?thesis .
  qed
qed

lemma validate_topologies_None:
  "validate_topologies turnouts nodes topos seen = None \<longleftrightarrow>
     distinct (map tt_turnout_id topos) \<and> tt_turnout_id ` set topos \<inter> set seen = {} \<and>
     (\<forall>topo\<in>set topos. \<not> blank (tt_turnout_id topo) \<and>
        (\<exists>t. map_of turnouts (tt_turnout_id topo) = Some t \<and>
           turnout_topology_wf (fst ` set nodes) (pd_id ` set (t_positions t)) topo))"
proof (induction turnouts nodes topos seen rule: validate_topologies.induct)
  case (2 turnouts nodes topo topos topologies)
  show ?case
  proof (cases "blank (tt_turnout_id topo) \<or> tt_turnout_id topo \<in> set topologies \<or>
      (\<forall>t. map_of turnouts (tt_turnout_id topo) = Some t \<longrightarrow> validate_turnout_topology topo t nodes \<noteq> None)")
    case True
    then show ?thesis using validate_turnout_topology_None [of topo _ nodes]
      by (auto split: option.splits)
  next
    case False
    then obtain t where t: "map_of turnouts (tt_turnout_id topo) = Some t" "validate_turnout_topology topo t nodes = None"
      by blast
    then show ?thesis using False 2 validate_turnout_topology_None [of topo t nodes] by auto
  qed
qed auto

lemma validate_topology_definition_None: "validate_topology_definition l = None \<longleftrightarrow> topology_wf l"
proof (cases "validate_nodes (ld_topology_nodes l) []")
  case (Inl e)
  then have "\<not> topology_wf l"
    using validate_nodes_Inr [of "ld_topology_nodes l" "[]" "fold (\<lambda>n. gm_put (tn_id n) n) (ld_topology_nodes l) []"]
    by (auto simp: topology_wf_def)
  then show ?thesis using Inl by (simp add: validate_topology_definition_def)
next
  case (Inr nodes)
  note nodes = Inr [unfolded validate_nodes_Inr]
  show ?thesis using nodes Inr
    unfolding validate_topology_definition_def topology_wf_def
    by (simp add: validate_sections_None validate_topologies_None node_ids_def conj_ac)
qed

lemma claim_resources_Inr:
  "gm_wf owners \<Longrightarrow>
     claim_resources unknown taken declared b rs owners = Inr owners' \<longleftrightarrow>
     owners' = fold (\<lambda>r. gm_put r b) rs owners \<and> set rs \<subseteq> set declared \<and> distinct rs \<and>
     set rs \<inter> fst ` set owners = {}"
proof (induction unknown taken declared b rs owners rule: claim_resources.induct)
  case (2 unknown taken declared b r rs owners)
  show ?case
  proof (cases "r \<in> fst ` set owners")
    case True
    then obtain o' where "map_of owners r = Some o'" by (metis map_of_eq_None_iff option.exhaust)
    then show ?thesis using True by auto
  next
    case False
    then have "map_of owners r = None" by (simp add: map_of_eq_None_iff)
    then show ?thesis using False 2 by auto
  qed
qed auto

lemma claim_resources_Inl:
  assumes "gm_wf owners" and "claim_resources unknown taken declared b rs owners = Inl e"
  shows "\<not> (set rs \<subseteq> set declared \<and> distinct rs \<and> set rs \<inter> fst ` set owners = {})"
  using claim_resources_Inr [OF assms(1), of unknown taken declared b rs] assms(2) by auto

definition blocks_fit ::
  "string set \<Rightarrow> string set \<Rightarrow> block_definition list \<Rightarrow> string set \<Rightarrow> string set \<Rightarrow> string set \<Rightarrow> bool" where
  "blocks_fit sections turnouts bs seen so to' \<longleftrightarrow>
     distinct (map bd_id bs) \<and> bd_id ` set bs \<inter> seen = {} \<and>
     (\<forall>b\<in>set bs. bd_id b \<noteq> [] \<and> bd_name b \<noteq> [] \<and>
        set (bd_track_section_ids b) \<subseteq> sections \<and> set (bd_turnout_ids b) \<subseteq> turnouts) \<and>
     distinct (concat (map bd_track_section_ids bs)) \<and> set (concat (map bd_track_section_ids bs)) \<inter> so = {} \<and>
     distinct (concat (map bd_turnout_ids bs)) \<and> set (concat (map bd_turnout_ids bs)) \<inter> to' = {}"

lemma blocks_fit_Cons:
  "blocks_fit sections turnouts (b # bs) seen so to' \<longleftrightarrow>
     (bd_id b \<noteq> [] \<and> bd_name b \<noteq> [] \<and> bd_id b \<notin> seen) \<and>
     (set (bd_track_section_ids b) \<subseteq> sections \<and> distinct (bd_track_section_ids b) \<and>
        set (bd_track_section_ids b) \<inter> so = {}) \<and>
     (set (bd_turnout_ids b) \<subseteq> turnouts \<and> distinct (bd_turnout_ids b) \<and> set (bd_turnout_ids b) \<inter> to' = {}) \<and>
     blocks_fit sections turnouts bs (insert (bd_id b) seen)
       (set (bd_track_section_ids b) \<union> so) (set (bd_turnout_ids b) \<union> to')"
proof -
  have step: "distinct (xs @ ys) \<and> set (xs @ ys) \<inter> A = {} \<longleftrightarrow>
      (distinct xs \<and> set xs \<inter> A = {}) \<and> distinct ys \<and> set ys \<inter> (set xs \<union> A) = {}" for xs ys :: "string list" and A
    by auto
  have ids: "distinct (map bd_id (b # bs)) \<and> bd_id ` set (b # bs) \<inter> seen = {} \<longleftrightarrow>
      bd_id b \<notin> seen \<and> distinct (map bd_id bs) \<and> bd_id ` set bs \<inter> insert (bd_id b) seen = {}"
    by auto
  show ?thesis
    unfolding blocks_fit_def using ids
      step [of "bd_track_section_ids b" "concat (map bd_track_section_ids bs)" so]
      step [of "bd_turnout_ids b" "concat (map bd_turnout_ids bs)" to']
    by (simp only: list.map concat.simps list.set ball_simps) meson
qed

lemma validate_blocks_None:
  "gm_wf so \<Longrightarrow> gm_wf to' \<Longrightarrow>
     validate_blocks sections turnouts index bs seen so to' = None \<longleftrightarrow>
     blocks_fit (set sections) (set turnouts) bs (set seen) (fst ` set so) (fst ` set to')"
proof (induction bs arbitrary: index seen so to')
  case Nil
  then show ?case by (simp add: blocks_fit_def)
next
  case (Cons b bs)
  let ?c = "claim_resources (BlockUnknownSection (bd_id b)) (\<lambda>r owner. SectionOwnedTwice r owner (bd_id b))
    sections (bd_id b) (bd_track_section_ids b) so"
  let ?d = "claim_resources (BlockUnknownTurnout (bd_id b)) (\<lambda>r owner. TurnoutOwnedTwice r owner (bd_id b))
    turnouts (bd_id b) (bd_turnout_ids b) to'"
  show ?case
  proof (cases ?c)
    case (Inl e)
    then show ?thesis using claim_resources_Inl [OF Cons.prems(1) Inl] by (auto simp: blocks_fit_Cons)
  next
    case (Inr so1)
    note so1 = Inr [unfolded claim_resources_Inr [OF Cons.prems(1)]]
    show ?thesis
    proof (cases ?d)
      case (Inl e)
      then show ?thesis using \<open>?c = _\<close> claim_resources_Inl [OF Cons.prems(2) Inl] by (auto simp: blocks_fit_Cons)
    next
      case (Inr to1)
      note to1 = Inr [unfolded claim_resources_Inr [OF Cons.prems(2)]]
      have wf: "gm_wf so1" "gm_wf to1" using so1 to1 Cons.prems by simp_all
      have "validate_blocks sections turnouts index (b # bs) seen so to' = None \<longleftrightarrow>
          (bd_id b \<noteq> [] \<and> bd_name b \<noteq> [] \<and> bd_id b \<notin> set seen) \<and>
          validate_blocks sections turnouts (Suc index) bs (bd_id b # seen) so1 to1 = None"
        using Inr \<open>?c = _\<close> by simp
      then show ?thesis unfolding Cons.IH [OF wf] blocks_fit_Cons using so1 to1 by simp
    qed
  qed
qed

lemma validate_block_definitions_None: "validate_block_definitions l = None \<longleftrightarrow> blocks_wf l"
  unfolding validate_block_definitions_def blocks_wf_def
  by (subst validate_blocks_None) (simp_all add: blocks_fit_def)

end
