(* ===== verification/TrackGraph.thy ===== *)
theory TrackGraph
  imports Topology Search
begin

text \<open>
  The static track graph of \<^verbatim>\<open>internal/topology/graph.go\<close>: \<^verbatim>\<open>Build\<close> turns a valid
  layout into nodes, edges and an incidence index, checks the structure of the nodes and the
  connectivity of every block, and \<^verbatim>\<open>ConnectedComponents\<close> partitions the nodes. The receivers
  are never nil here: the callers obtain the graph from \<^verbatim>\<open>Build\<close>. A Go slice is a value in
  this model, so the \<^verbatim>\<open>clone\<close> functions, which only prevent aliasing, are the identity.
\<close>

subsection \<open>Edges\<close>

datatype edge_kind = EdgeTrackSection | EdgeTurnout | EdgeKindOther string

record track_edge =
  te_kind :: edge_kind
  te_node_a :: string
  te_node_b :: string
  te_track_section_id :: string
  te_length_mm :: int
  te_turnout_id :: string
  te_port_a :: string
  te_port_b :: string
  te_position_ids :: "string list"

abbreviation zero_edge :: track_edge where
  "zero_edge \<equiv> \<lparr> te_kind = EdgeKindOther [], te_node_a = [], te_node_b = [], te_track_section_id = [],
     te_length_mm = 0, te_turnout_id = [], te_port_a = [], te_port_b = [], te_position_ids = [] \<rparr>"

text \<open>\<open>None\<close> is the result \<^verbatim>\<open>"", false\<close>.\<close>

definition edge_other :: "track_edge \<Rightarrow> string \<Rightarrow> string option" where
  "edge_other e n =
     (if n = te_node_a e then Some (te_node_b e)
      else if n = te_node_b e then Some (te_node_a e)
      else None)"

definition edge_less :: "track_edge \<Rightarrow> track_edge \<Rightarrow> bool" where
  "edge_less a b =
     (if te_kind a \<noteq> te_kind b then te_kind a = EdgeTrackSection
      else if te_kind a = EdgeTrackSection then te_track_section_id a < te_track_section_id b
      else if te_turnout_id a \<noteq> te_turnout_id b then te_turnout_id a < te_turnout_id b
      else if te_port_a a \<noteq> te_port_a b then te_port_a a < te_port_a b
      else te_port_b a < te_port_b b)"

text \<open>\<^verbatim>\<open>sort.Slice\<close> with a comparison.\<close>

fun insert_by :: "('a \<Rightarrow> 'a \<Rightarrow> bool) \<Rightarrow> 'a \<Rightarrow> 'a list \<Rightarrow> 'a list" where
  "insert_by lt x [] = [x]"
| "insert_by lt x (y # ys) = (if lt y x then y # insert_by lt x ys else x # y # ys)"

definition sort_slice :: "('a \<Rightarrow> 'a \<Rightarrow> bool) \<Rightarrow> 'a list \<Rightarrow> 'a list" where
  "sort_slice lt xs = foldr (insert_by lt) xs []"

subsection \<open>The graph\<close>

record graph =
  gr_nodes :: "(string, topology_node) gomap"
  gr_node_ids :: "string list"
  gr_sections :: "(string, track_section) gomap"
  gr_section_ids :: "string list"
  gr_turnout_topologies :: "(string, turnout_topology) gomap"
  gr_turnout_ids :: "string list"
  gr_blocks :: "(string, block_definition) gomap"
  gr_block_ids :: "string list"
  gr_block_by_section :: "(string, string) gomap"
  gr_block_by_turnout :: "(string, string) gomap"
  gr_edges :: "track_edge list"
  gr_incident :: "(string, nat list) gomap"

datatype graph_error =
    GraphTopology topology_problem
  | GraphBlocks block_problem
  | JointWithoutTurnout string nat
  | BufferSections string nat
  | BufferIsPort string
  | BoundarySections string nat
  | BlockDisconnected string

definition canonical_connection :: "port_connection \<Rightarrow> port_connection" where
  "canonical_connection c =
     (if pc_port_a c > pc_port_b c then \<lparr> pc_port_a = pc_port_b c, pc_port_b = pc_port_a c \<rparr> else c)"

definition canonical_turnout_topology :: "turnout_topology \<Rightarrow> turnout_topology" where
  "canonical_turnout_topology topo =
     topo\<lparr> tt_ports := sort_key pt_id (tt_ports topo),
           tt_positions := sort_key tp_position_id
             (map (\<lambda>p. p\<lparr> tp_connections := sort_key (\<lambda>c. (pc_port_a c, pc_port_b c))
                            (map canonical_connection (tp_connections p)) \<rparr>) (tt_positions topo)) \<rparr>"

definition canonical_block :: "block_definition \<Rightarrow> block_definition" where
  "canonical_block b =
     b\<lparr> bd_track_section_ids := sort (bd_track_section_ids b), bd_turnout_ids := sort (bd_turnout_ids b) \<rparr>"

definition section_edge :: "track_section \<Rightarrow> track_edge" where
  "section_edge s =
     zero_edge\<lparr> te_kind := EdgeTrackSection, te_node_a := ts_node_a s, te_node_b := ts_node_b s,
                te_track_section_id := ts_id s, te_length_mm := ts_length_mm s \<rparr>"

text \<open>How many fixed track sections end at a node.\<close>

definition fixed_incidence :: "track_section list \<Rightarrow> (string, nat) gomap" where
  "fixed_incidence ss =
     fold (\<lambda>n m. gm_put n (Suc (gm_get 0 m n)) m) (concat (map (\<lambda>s. [ts_node_a s, ts_node_b s]) ss)) []"

type_synonym turnout_edge_key = "string \<times> string \<times> string"

definition new_turnout_edge_key :: "string \<Rightarrow> string \<Rightarrow> string \<Rightarrow> turnout_edge_key" where
  "new_turnout_edge_key i a b = (if a > b then (i, b, a) else (i, a, b))"

record turnout_edge =
  tue_edge :: track_edge
  tue_positions :: "string list"

definition port_map :: "turnout_topology \<Rightarrow> (string, string) gomap" where
  "port_map topo = fold (\<lambda>p. gm_put (pt_id p) (pt_node_id p)) (tt_ports topo) []"

text \<open>
  The iterations of the three nested loops over topologies, positions and connections, in
  order; each has the turnout, its ports, the position and the connection.
\<close>

type_synonym connection_visit = "string \<times> (string, string) gomap \<times> string \<times> port_connection"

definition topology_visits :: "turnout_topology \<Rightarrow> connection_visit list" where
  "topology_visits topo =
     (let canonical = canonical_turnout_topology topo
      in concat (map (\<lambda>p. map (\<lambda>c. (tt_turnout_id topo, port_map canonical, tp_position_id p, c)) (tp_connections p))
           (tt_positions canonical)))"

definition add_connection ::
  "connection_visit \<Rightarrow> (turnout_edge_key, turnout_edge) gomap \<Rightarrow> (turnout_edge_key, turnout_edge) gomap" where
  "add_connection v m =
     (case v of (i, ports, pos, c) \<Rightarrow>
        let key = new_turnout_edge_key i (pc_port_a c) (pc_port_b c);
            (_, a, b) = key;
            e = (case map_of m key of
                   Some e \<Rightarrow> e
                 | None \<Rightarrow> \<lparr> tue_edge = zero_edge\<lparr> te_kind := EdgeTurnout,
                              te_node_a := gm_get [] ports a, te_node_b := gm_get [] ports b,
                              te_turnout_id := i, te_port_a := a, te_port_b := b \<rparr>,
                            tue_positions = [] \<rparr>)
        in gm_put key (e\<lparr> tue_positions := List.insert pos (tue_positions e) \<rparr>) m)"

definition finish_turnout_edge :: "turnout_edge \<Rightarrow> track_edge" where
  "finish_turnout_edge e = (tue_edge e)\<lparr> te_position_ids := sort (tue_positions e) \<rparr>"

definition turnout_edges :: "turnout_topology list \<Rightarrow> track_edge list" where
  "turnout_edges topos =
     map (finish_turnout_edge \<circ> snd) (fold add_connection (concat (map topology_visits topos)) [])"

text \<open>The incidence index: the positions, in the edge list, of the edges at a node.\<close>

definition add_incident :: "nat \<times> track_edge \<Rightarrow> (string, nat list) gomap \<Rightarrow> (string, nat list) gomap" where
  "add_incident ie m =
     (case ie of (i, e) \<Rightarrow>
        let m1 = gm_put (te_node_a e) (gm_get [] m (te_node_a e) @ [i]) m
        in if te_node_b e \<noteq> te_node_a e then gm_put (te_node_b e) (gm_get [] m1 (te_node_b e) @ [i]) m1 else m1)"

definition build_incident :: "string list \<Rightarrow> track_edge list \<Rightarrow> (string, nat list) gomap" where
  "build_incident ids es = fold add_incident (enumerate 0 es) (fold (\<lambda>n. gm_put n []) ids [])"

subsection \<open>Node structure\<close>

definition check_node :: "(string, nat) gomap \<Rightarrow> string list \<Rightarrow> topology_node \<Rightarrow> graph_error option" where
  "check_node fixed ports n =
     (let i = tn_id n; k = gm_get 0 fixed i
      in case tn_kind n of
           NodeJoint \<Rightarrow> fail_if (k > 2 \<and> i \<notin> set ports) (JointWithoutTurnout i k)
         | NodeBuffer \<Rightarrow> or_else (fail_if (k > 1) (BufferSections i k)) (fail_if (i \<in> set ports) (BufferIsPort i))
         | NodeBoundary \<Rightarrow> fail_if (k > 1) (BoundarySections i k)
         | NodeOther _ \<Rightarrow> None)"

fun validate_node_structure ::
  "(string, topology_node) gomap \<Rightarrow> string list \<Rightarrow> (string, nat) gomap \<Rightarrow> string list \<Rightarrow> graph_error option" where
  "validate_node_structure nodes [] fixed ports = None"
| "validate_node_structure nodes (i # is) fixed ports =
     or_else (case map_of nodes i of None \<Rightarrow> None | Some n \<Rightarrow> check_node fixed ports n)
       (validate_node_structure nodes is fixed ports)"

subsection \<open>Connectivity of a block\<close>

definition edge_selected :: "block_definition \<Rightarrow> track_edge \<Rightarrow> bool" where
  "edge_selected b e \<longleftrightarrow>
     \<not> (te_kind e = EdgeTrackSection \<and> te_track_section_id e \<notin> set (bd_track_section_ids b)) \<and>
     \<not> (te_kind e = EdgeTurnout \<and> te_turnout_id e \<notin> set (bd_turnout_ids b))"

definition edge_nodes :: "track_edge list \<Rightarrow> string list" where
  "edge_nodes es = str_set (concat (map (\<lambda>e. [te_node_a e, te_node_b e]) es))"

definition add_adjacent :: "track_edge \<Rightarrow> (string, string list) gomap \<Rightarrow> (string, string list) gomap" where
  "add_adjacent e m =
     (let m1 = gm_put (te_node_a e) (gm_get [] m (te_node_a e) @ [te_node_b e]) m
      in gm_put (te_node_b e) (gm_get [] m1 (te_node_b e) @ [te_node_a e]) m1)"

definition adjacent_map :: "track_edge list \<Rightarrow> (string, string list) gomap" where
  "adjacent_map es = fold add_adjacent es []"

text \<open>
  The traversal starts at whichever node the unordered \<^verbatim>\<open>range\<close> yields first: \<open>start\<close>. The
  outer option is \<open>None\<close> for a traversal that never ends.
\<close>

definition connectivity_from ::
  "graph \<Rightarrow> block_definition \<Rightarrow> string \<Rightarrow> graph_error option option" where
  "connectivity_from g b start =
     (let es = filter (edge_selected b) (gr_edges g); nodes = edge_nodes es; adjacent = adjacent_map es
      in case flood (gm_get [] adjacent) [start] [start] [] of
           None \<Rightarrow> None
         | Some (_, visited) \<Rightarrow>
             Some (fail_if (length (remdups visited) \<noteq> length nodes) (BlockDisconnected (bd_id b))))"

definition validate_block_connectivity :: "graph \<Rightarrow> block_definition \<Rightarrow> graph_error option option" where
  "validate_block_connectivity g b =
     (case edge_nodes (filter (edge_selected b) (gr_edges g)) of
        [] \<Rightarrow> Some None
      | start # _ \<Rightarrow> connectivity_from g b start)"

subsection \<open>Build\<close>

definition add_block :: "block_definition \<Rightarrow> graph \<Rightarrow> graph" where
  "add_block b g =
     g\<lparr> gr_blocks := gm_put (bd_id b) (canonical_block b) (gr_blocks g),
        gr_block_ids := gr_block_ids g @ [bd_id b],
        gr_block_by_section := fold (\<lambda>s. gm_put s (bd_id b)) (bd_track_section_ids b) (gr_block_by_section g),
        gr_block_by_turnout := fold (\<lambda>t. gm_put t (bd_id b)) (bd_turnout_ids b) (gr_block_by_turnout g) \<rparr>"

fun add_blocks :: "block_definition list \<Rightarrow> graph \<Rightarrow> (graph_error + graph) option" where
  "add_blocks [] g = Some (Inr g)"
| "add_blocks (b # bs) g =
     (case validate_block_connectivity (add_block b g) (canonical_block b) of
        None \<Rightarrow> None
      | Some (Some e) \<Rightarrow> Some (Inl e)
      | Some None \<Rightarrow> add_blocks bs (add_block b g))"

text \<open>The graph before its blocks are added.\<close>

definition track_graph :: "layout_definition \<Rightarrow> graph" where
  "track_graph l =
     (let ids = sort (map tn_id (ld_topology_nodes l));
          es = sort_slice edge_less
                 (map section_edge (ld_track_sections l) @ turnout_edges (ld_turnout_topologies l))
      in \<lparr> gr_nodes = fold (\<lambda>n. gm_put (tn_id n) n) (ld_topology_nodes l) [],
           gr_node_ids = ids,
           gr_sections = fold (\<lambda>s. gm_put (ts_id s) s) (ld_track_sections l) [],
           gr_section_ids = sort (map ts_id (ld_track_sections l)),
           gr_turnout_topologies =
             fold (\<lambda>t. gm_put (tt_turnout_id t) (canonical_turnout_topology t)) (ld_turnout_topologies l) [],
           gr_turnout_ids = sort (map tt_turnout_id (ld_turnout_topologies l)),
           gr_blocks = [], gr_block_ids = [], gr_block_by_section = [], gr_block_by_turnout = [],
           gr_edges = es,
           gr_incident = build_incident ids es \<rparr>)"

definition port_nodes :: "layout_definition \<Rightarrow> string list" where
  "port_nodes l = concat (map (\<lambda>t. map pt_node_id (tt_ports t)) (ld_turnout_topologies l))"

definition build :: "layout_definition \<Rightarrow> (graph_error + graph) option" where
  "build l =
     (case validate_topology_definition l of
        Some e \<Rightarrow> Some (Inl (GraphTopology e))
      | None \<Rightarrow>
          (case validate_block_definitions l of
             Some e \<Rightarrow> Some (Inl (GraphBlocks e))
           | None \<Rightarrow>
               (let g = track_graph l
                in case validate_node_structure (gr_nodes g) (gr_node_ids g)
                          (fixed_incidence (ld_track_sections l)) (port_nodes l) of
                     Some e \<Rightarrow> Some (Inl e)
                   | None \<Rightarrow>
                       (case add_blocks (ld_blocks l) g of
                          None \<Rightarrow> None
                        | Some (Inl e) \<Rightarrow> Some (Inl e)
                        | Some (Inr g') \<Rightarrow> Some (Inr (g'\<lparr> gr_block_ids := sort (gr_block_ids g') \<rparr>))))))"

subsection \<open>Queries\<close>

text \<open>
  Indexing a slice out of range panics in Go; \<open>build_incident\<close> only records positions of the
  edge list, so the default is never reached.
\<close>

definition edge_at :: "'a \<Rightarrow> 'a list \<Rightarrow> nat \<Rightarrow> 'a" where
  "edge_at zero es i = (if i < length es then es ! i else zero)"

definition incident_edges :: "graph \<Rightarrow> string \<Rightarrow> track_edge list" where
  "incident_edges g n =
     (case map_of (gr_incident g) n of
        None \<Rightarrow> []
      | Some is \<Rightarrow> map (edge_at zero_edge (gr_edges g)) is)"

definition graph_node :: "graph \<Rightarrow> string \<Rightarrow> topology_node option" where
  "graph_node g i = map_of (gr_nodes g) i"

definition block_for_track_section :: "graph \<Rightarrow> string \<Rightarrow> block_definition option" where
  "block_for_track_section g s =
     (case map_of (gr_block_by_section g) s of None \<Rightarrow> None | Some b \<Rightarrow> map_of (gr_blocks g) b)"

definition block_for_turnout :: "graph \<Rightarrow> string \<Rightarrow> block_definition option" where
  "block_for_turnout g t =
     (case map_of (gr_block_by_turnout g) t of None \<Rightarrow> None | Some b \<Rightarrow> map_of (gr_blocks g) b)"

text \<open>The nodes the traversal tries from a node: \<^verbatim>\<open>next, _ := edge.Other(nodeID)\<close>.\<close>

definition edge_next :: "string \<Rightarrow> track_edge \<Rightarrow> string" where
  "edge_next n e = (case edge_other e n of None \<Rightarrow> [] | Some m \<Rightarrow> m)"

definition adjacent_nodes :: "graph \<Rightarrow> string \<Rightarrow> string list" where
  "adjacent_nodes g n = map (edge_next n) (incident_edges g n)"

fun collect_components ::
  "('s :: linorder \<Rightarrow> 's list) \<Rightarrow> 's list \<Rightarrow> 's list \<Rightarrow> 's list list option" where
  "collect_components adj [] visited = Some []"
| "collect_components adj (start # ids) visited =
     (if start \<in> set visited then collect_components adj ids visited
      else case flood adj [start] (start # visited) [] of
             None \<Rightarrow> None
           | Some (component, visited') \<Rightarrow>
               map_option ((#) (sort component)) (collect_components adj ids visited'))"

definition connected_components :: "graph \<Rightarrow> string list list option" where
  "connected_components g = collect_components (adjacent_nodes g) (gr_node_ids g) []"

end
