(* ===== verification/TrackGraphFacts.thy ===== *)
theory TrackGraphFacts
  imports TrackGraph
begin

text \<open>
  What \<^verbatim>\<open>Build\<close> and the queries of the track graph compute. The edge list is compared with a
  declarative set of edges read off the layout; the incidence index returns exactly the edges
  at a node; the traversals of blocks and components are instances of the flooding of theory
  \<^verbatim>\<open>Search\<close>, so a block is accepted exactly when it is connected and the components are the
  classes of mutual reachability.
\<close>

subsection \<open>Sorting\<close>

lemma mset_insert_by [simp]: "mset (insert_by lt x ys) = add_mset x (mset ys)"
  by (induction ys) auto

lemma mset_sort_slice [simp]: "mset (sort_slice lt xs) = mset xs"
  unfolding sort_slice_def by (induction xs) auto

lemma set_sort_slice [simp]: "set (sort_slice lt xs) = set xs"
  by (metis mset_sort_slice set_mset_mset)

lemma set_insert_by [simp]: "set (insert_by lt x ys) = insert x (set ys)"
  by (induction ys) auto

lemma sorted_insert_by:
  assumes "transp_on (insert x (set ys)) lt" and "sorted_wrt lt ys" and "\<forall>y\<in>set ys. lt x y \<or> lt y x"
  shows "sorted_wrt lt (insert_by lt x ys)"
  using assms
proof (induction ys)
  case (Cons y ys)
  have tr: "transp_on (insert x (set ys)) lt" using Cons.prems(1) by (rule transp_on_subset) auto
  show ?case
  proof (cases "lt y x")
    case True
    then show ?thesis using Cons.IH [OF tr] Cons.prems by auto
  next
    case False
    then have xy: "lt x y" using Cons.prems(3) by auto
    have "lt x z" if "z \<in> set ys" for z
      using Cons.prems(1,2) xy that transp_onD [OF Cons.prems(1), of x y z] by auto
    then show ?thesis using False xy Cons.prems(2) by auto
  qed
qed simp

lemma sorted_sort_slice:
  assumes "transp_on (set xs) lt" and "sorted_wrt (\<lambda>x y. lt x y \<or> lt y x) xs"
  shows "sorted_wrt lt (sort_slice lt xs)"
  using assms
proof (induction xs)
  case (Cons x xs)
  have "sorted_wrt lt (sort_slice lt xs)"
    using Cons transp_on_subset [OF Cons.prems(1), of "set xs"] by auto
  then have "sorted_wrt lt (insert_by lt x (sort_slice lt xs))"
    using Cons.prems by (intro sorted_insert_by) auto
  then show ?case by (simp add: sort_slice_def)
qed (simp add: sort_slice_def)

subsection \<open>The incidence index\<close>

definition edge_touches :: "string \<Rightarrow> track_edge \<Rightarrow> bool" where
  "edge_touches n e \<longleftrightarrow> n = te_node_a e \<or> n = te_node_b e"

lemma gm_get_Nil [simp]: "gm_get z [] k = z"
  by (simp add: gm_get_def)

lemma add_incident_wf [simp]: "gm_wf m \<Longrightarrow> gm_wf (add_incident ie m)"
  by (cases ie) (simp add: add_incident_def Let_def)

lemma add_incident_get:
  "gm_wf m \<Longrightarrow> gm_get [] (add_incident (i, e) m) n = gm_get [] m n @ (if edge_touches n e then [i] else [])"
  by (auto simp: add_incident_def Let_def edge_touches_def)

lemma fold_add_incident:
  "gm_wf m \<Longrightarrow> gm_get [] (fold add_incident ies m) n = gm_get [] m n @ map fst (filter (edge_touches n \<circ> snd) ies)"
proof (induction ies arbitrary: m)
  case (Cons ie ies)
  obtain i e where ie: "ie = (i, e)" by (cases ie)
  show ?case using Cons.IH [of "add_incident ie m"] Cons.prems ie by (auto simp: add_incident_get)
qed simp

lemma gm_get_empty_lists: "gm_get [] (fold (\<lambda>n. gm_put n []) ids []) n = []"
proof -
  have "gm_wf m \<Longrightarrow> (\<forall>n. gm_get [] m n = []) \<Longrightarrow> gm_get [] (fold (\<lambda>n. gm_put n []) ids m) n = []" for m
    by (induction ids arbitrary: m) auto
  from this [of "[]"] show ?thesis by simp
qed

lemma build_incident_get:
  "gm_get [] (build_incident ids es) n = map fst (filter (edge_touches n \<circ> snd) (enumerate 0 es))"
  by (simp add: build_incident_def fold_add_incident gm_get_empty_lists)

lemma map_edge_at: "map (edge_at z es) (map fst (filter (P \<circ> snd) (enumerate 0 es))) = filter P es"
proof -
  have "map (edge_at z es) (map fst (filter (P \<circ> snd) (enumerate 0 es))) =
      map snd (filter (P \<circ> snd) (enumerate 0 es))"
    by (auto simp: edge_at_def in_set_enumerate_eq)
  also have "\<dots> = filter P (map snd (enumerate 0 es))" by (simp only: filter_map)
  finally show ?thesis by simp
qed

definition incident_built :: "graph \<Rightarrow> bool" where
  "incident_built g \<longleftrightarrow> gr_incident g = build_incident (gr_node_ids g) (gr_edges g)"

lemma incident_edges_filter:
  assumes "incident_built g"
  shows "incident_edges g n = filter (edge_touches n) (gr_edges g)"
proof -
  have "incident_edges g n = map (edge_at zero_edge (gr_edges g)) (gm_get [] (gr_incident g) n)"
    by (simp add: incident_edges_def gm_get_def split: option.splits)
  then show ?thesis using assms unfolding incident_built_def by (simp add: build_incident_get map_edge_at del: map_map)
qed

subsection \<open>Components\<close>

text \<open>A traversal whose steps can be undone collects whole classes of reachability.\<close>

locale symmetric_space = component_space adj U
  for adj :: "'s :: linorder \<Rightarrow> 's list" and U +
  assumes undirected: "t \<in> set (adj s) \<Longrightarrow> s \<in> set (adj t)"
begin

lemma reach_sym: "(s, t) \<in> edge\<^sup>* \<Longrightarrow> (t, s) \<in> edge\<^sup>*"
proof -
  have "sym edge" using undirected by (auto simp: sym_def)
  then show "(s, t) \<in> edge\<^sup>* \<Longrightarrow> (t, s) \<in> edge\<^sup>*" by (meson sym_rtrancl symD)
qed

lemma reach_class: "(s, t) \<in> edge\<^sup>* \<Longrightarrow> edge\<^sup>* `` {t} = edge\<^sup>* `` {s}"
  using reach_sym by (auto intro: rtrancl_trans)

lemma closed_class:
  assumes "edge `` V \<subseteq> V" and "s \<notin> V"
  shows "edge\<^sup>* `` {s} \<inter> V = {}"
proof -
  have "edge\<^sup>* `` V \<subseteq> V" using assms(1) by (rule Image_closed_trancl [THEN equalityD1])
  then show ?thesis using assms(2) reach_sym by blast
qed

lemma collect_components_correct:
  assumes "set ids \<subseteq> U" and "edge `` set visited \<subseteq> set visited"
  shows "\<exists>cs. collect_components adj ids visited = Some cs \<and> distinct (concat cs) \<and>
     set (concat cs) = edge\<^sup>* `` set ids - set visited \<and>
     (\<forall>c\<in>set cs. sorted c \<and> c \<noteq> [] \<and> (\<forall>s\<in>set c. set c = edge\<^sup>* `` {s}))"
  using assms
proof (induction ids arbitrary: visited)
  case Nil
  then show ?case by simp
next
  case (Cons s ids)
  have closed_visited: "edge\<^sup>* `` set visited = set visited"
    using Cons.prems(2) by (rule Image_closed_trancl)
  show ?case
  proof (cases "s \<in> set visited")
    case True
    then have "edge\<^sup>* `` set (s # ids) - set visited = edge\<^sup>* `` set ids - set visited"
      using closed_visited by auto
    then show ?thesis using True Cons by simp
  next
    case False
    obtain component visited' where f: "flood adj [s] (s # visited) [] = Some (component, visited')"
        "set component = edge\<^sup>* `` {s} - set visited" "distinct component"
        "set visited' = set visited \<union> set component"
      using flood_correct [of s visited] Cons.prems False by auto
    have comp: "set component = edge\<^sup>* `` {s}" using f(2) closed_class [OF Cons.prems(2) False] by blast
    have "edge `` set visited' \<subseteq> set visited'"
      using Cons.prems(2) unfolding f(4) comp by (auto intro: rtrancl.rtrancl_into_rtrancl)
    then obtain cs where cs: "collect_components adj ids visited' = Some cs" "distinct (concat cs)"
        "set (concat cs) = edge\<^sup>* `` set ids - set visited'"
        "\<forall>c\<in>set cs. sorted c \<and> c \<noteq> [] \<and> (\<forall>s\<in>set c. set c = edge\<^sup>* `` {s})"
      using Cons.IH [of visited'] Cons.prems(1) by auto
    have "collect_components adj (s # ids) visited = Some (sort component # cs)" using f cs False by simp
    moreover have "distinct (concat (sort component # cs))"
      using f(3,4) cs(2,3) by auto
    moreover have "set (concat (sort component # cs)) = edge\<^sup>* `` set (s # ids) - set visited"
      using f(4) cs(3) comp f(2) by auto
    moreover have "sort component \<noteq> []" using comp set_sort [of "\<lambda>x. x" component] by fastforce
    moreover have "\<forall>t\<in>set component. set component = edge\<^sup>* `` {t}"
      using reach_class unfolding comp by blast
    ultimately show ?thesis using cs(4) by (intro exI [of _ "sort component # cs"]) auto
  qed
qed

end

definition touching_nodes :: "track_edge list \<Rightarrow> string \<Rightarrow> string list" where
  "touching_nodes es n = map (edge_next n) (filter (edge_touches n) es)"

definition edge_ends :: "track_edge set \<Rightarrow> string set" where
  "edge_ends E = te_node_a ` E \<union> te_node_b ` E"

definition edge_links :: "track_edge set \<Rightarrow> (string \<times> string) set" where
  "edge_links E = {(x, y). \<exists>e\<in>E. (x = te_node_a e \<and> y = te_node_b e) \<or> (x = te_node_b e \<and> y = te_node_a e)}"

lemma touching_nodes_iff: "t \<in> set (touching_nodes es s) \<longleftrightarrow> (s, t) \<in> edge_links (set es)"
proof -
  have "(edge_touches s e \<and> t = edge_next s e) \<longleftrightarrow>
      (s = te_node_a e \<and> t = te_node_b e) \<or> (s = te_node_b e \<and> t = te_node_a e)" for e
    by (auto simp: edge_touches_def edge_next_def edge_other_def)
  then show ?thesis unfolding touching_nodes_def edge_links_def by auto
qed

lemma touching_nodes_links: "{(s, t). t \<in> set (touching_nodes es s)} = edge_links (set es)"
  by (auto simp: touching_nodes_iff)

interpretation tracks: symmetric_space "touching_nodes es" "set ids \<union> edge_ends (set es)" for es ids
  by unfold_locales (auto simp: touching_nodes_iff edge_links_def edge_ends_def)

lemma adjacent_nodes_touching: "incident_built g \<Longrightarrow> adjacent_nodes g = touching_nodes (gr_edges g)"
  by (simp add: fun_eq_iff adjacent_nodes_def touching_nodes_def incident_edges_filter)

lemma connected_components_partition:
  assumes "incident_built g" and "edge_ends (set (gr_edges g)) \<subseteq> set (gr_node_ids g)"
  shows "\<exists>cs. connected_components g = Some cs \<and> distinct (concat cs) \<and> set (concat cs) = set (gr_node_ids g) \<and>
     (\<forall>c\<in>set cs. sorted c \<and> c \<noteq> [] \<and> (\<forall>s\<in>set c. set c = (edge_links (set (gr_edges g)))\<^sup>* `` {s}))"
proof -
  let ?E = "edge_links (set (gr_edges g))" and ?ids = "gr_node_ids g"
  have "?E `` set ?ids \<subseteq> set ?ids" using assms(2) by (auto simp: edge_links_def edge_ends_def)
  then have "?E\<^sup>* `` set ?ids = set ?ids" by (rule Image_closed_trancl)
  then show ?thesis
    using tracks.collect_components_correct [of ?ids ?ids "gr_edges g" "[]"]
    unfolding connected_components_def adjacent_nodes_touching [OF assms(1)] touching_nodes_links by simp
qed

subsection \<open>The edges of a layout\<close>

text \<open>The edges a layout describes: its sections, and every pair of ports some position connects.\<close>

definition topology_keys :: "turnout_topology \<Rightarrow> (string \<times> string) set" where
  "topology_keys topo = (\<Union>p\<in>set (tt_positions topo). connection_key ` set (tp_connections p))"

definition port_node :: "turnout_topology \<Rightarrow> string \<Rightarrow> string" where
  "port_node topo i = (case find (\<lambda>p. pt_id p = i) (tt_ports topo) of None \<Rightarrow> [] | Some p \<Rightarrow> pt_node_id p)"

definition positions_joining :: "turnout_topology \<Rightarrow> string \<times> string \<Rightarrow> string list" where
  "positions_joining topo k =
     str_set (map tp_position_id (filter (\<lambda>p. k \<in> connection_key ` set (tp_connections p)) (tt_positions topo)))"

definition turnout_edge_of :: "turnout_topology \<Rightarrow> string \<times> string \<Rightarrow> track_edge" where
  "turnout_edge_of topo k =
     zero_edge\<lparr> te_kind := EdgeTurnout, te_node_a := port_node topo (fst k), te_node_b := port_node topo (snd k),
                te_turnout_id := tt_turnout_id topo, te_port_a := fst k, te_port_b := snd k,
                te_position_ids := positions_joining topo k \<rparr>"

definition layout_edges :: "layout_definition \<Rightarrow> track_edge set" where
  "layout_edges l =
     section_edge ` set (ld_track_sections l) \<union>
     {turnout_edge_of topo k |topo k. topo \<in> set (ld_turnout_topologies l) \<and> k \<in> topology_keys topo}"

lemma map_of_fold_put:
  "distinct (map f xs) \<Longrightarrow> map_of (fold (\<lambda>x. gm_put (f x) (g x)) xs []) k = Some v \<longleftrightarrow> (\<exists>x\<in>set xs. f x = k \<and> g x = v)"
proof (induction xs rule: rev_induct)
  case (snoc x xs)
  then show ?case by (auto simp: image_iff)
qed simp

lemma find_key:
  "distinct (map f xs) \<Longrightarrow> map_option g (find (\<lambda>x. f x = k) xs) = Some v \<longleftrightarrow> (\<exists>x\<in>set xs. f x = k \<and> g x = v)"
  by (induction xs) (auto simp: image_iff)

lemma port_map_canonical:
  assumes "distinct (map pt_id (tt_ports topo))"
  shows "gm_get [] (port_map (canonical_turnout_topology topo)) i = port_node topo i"
proof -
  have d: "distinct (map pt_id (sort_key pt_id (tt_ports topo)))"
    using assms by (metis distinct_map mset_map mset_eq_imp_distinct_iff mset_sort)
  have "map_of (port_map (canonical_turnout_topology topo)) i = Some v \<longleftrightarrow>
      map_option pt_node_id (find (\<lambda>p. pt_id p = i) (tt_ports topo)) = Some v" for v
    unfolding find_key [OF assms] using map_of_fold_put [OF d, of pt_node_id i v]
    by (simp add: port_map_def canonical_turnout_topology_def)
  then have "map_of (port_map (canonical_turnout_topology topo)) i =
      map_option pt_node_id (find (\<lambda>p. pt_id p = i) (tt_ports topo))"
    by (metis option.exhaust)
  then show ?thesis by (simp add: gm_get_def port_node_def split: option.splits)
qed

definition visit_key :: "connection_visit \<Rightarrow> turnout_edge_key" where
  "visit_key v = (case v of (i, _, _, c) \<Rightarrow> new_turnout_edge_key i (pc_port_a c) (pc_port_b c))"

definition visit_position :: "connection_visit \<Rightarrow> string" where
  "visit_position v = (case v of (_, _, pos, _) \<Rightarrow> pos)"

definition visit_edge :: "connection_visit \<Rightarrow> track_edge" where
  "visit_edge v =
     (case v of (i, ports, _, c) \<Rightarrow> case visit_key v of (_, a, b) \<Rightarrow>
        zero_edge\<lparr> te_kind := EdgeTurnout, te_node_a := gm_get [] ports a, te_node_b := gm_get [] ports b,
                   te_turnout_id := i, te_port_a := a, te_port_b := b \<rparr>)"

lemma add_connection_eq:
  "add_connection v m =
     (let e = (case map_of m (visit_key v) of Some e \<Rightarrow> e | None \<Rightarrow> \<lparr> tue_edge = visit_edge v, tue_positions = [] \<rparr>)
      in gm_put (visit_key v) (e\<lparr> tue_positions := List.insert (visit_position v) (tue_positions e) \<rparr>) m)"
  by (auto simp: add_connection_def visit_key_def visit_edge_def visit_position_def new_turnout_edge_key_def
      Let_def split: prod.splits option.splits)

lemma add_connection_wf [simp]: "gm_wf m \<Longrightarrow> gm_wf (add_connection v m)"
  by (simp add: add_connection_eq Let_def)

definition visits_give :: "connection_visit list \<Rightarrow> turnout_edge_key \<Rightarrow> turnout_edge \<Rightarrow> bool" where
  "visits_give vs k e \<longleftrightarrow>
     (\<exists>v\<in>set vs. visit_key v = k \<and> tue_edge e = visit_edge v) \<and> distinct (tue_positions e) \<and>
     set (tue_positions e) = visit_position ` {v \<in> set vs. visit_key v = k}"

lemma fold_add_connection_wf [simp]: "gm_wf m \<Longrightarrow> gm_wf (fold add_connection vs m)"
  by (induction vs arbitrary: m) auto

lemma fold_add_connection:
  "map_of (fold add_connection vs []) k = None \<and> k \<notin> visit_key ` set vs \<or>
     (\<exists>e. map_of (fold add_connection vs []) k = Some e \<and> visits_give vs k e)"
proof (induction vs rule: rev_induct)
  case (snoc v vs)
  let ?m = "fold add_connection vs []"
  have wf: "gm_wf ?m" by simp
  show ?case
  proof (cases "visit_key v = k")
    case False
    then have "map_of (fold add_connection (vs @ [v]) []) k = map_of ?m k"
      using wf by (simp add: add_connection_eq Let_def)
    moreover have "visits_give (vs @ [v]) k e \<longleftrightarrow> visits_give vs k e" for e
    proof -
      have "{w \<in> set (vs @ [v]). visit_key w = k} = {w \<in> set vs. visit_key w = k}" using False by auto
      then show ?thesis unfolding visits_give_def using False by auto
    qed
    ultimately show ?thesis using snoc False by auto
  next
    case True
    have all: "{w \<in> set (vs @ [v]). visit_key w = k} = insert v {w \<in> set vs. visit_key w = k}" using True by auto
    from snoc show ?thesis
    proof
      assume a: "map_of ?m k = None \<and> k \<notin> visit_key ` set vs"
      then have none: "{w \<in> set vs. visit_key w = k} = {}" by auto
      have "map_of (fold add_connection (vs @ [v]) []) k =
          Some \<lparr> tue_edge = visit_edge v, tue_positions = [visit_position v] \<rparr>"
        using wf a True by (simp add: add_connection_eq Let_def)
      then show ?thesis using True unfolding visits_give_def all none by auto
    next
      assume "\<exists>e. map_of ?m k = Some e \<and> visits_give vs k e"
      then obtain e where e: "map_of ?m k = Some e" "visits_give vs k e" by blast
      then have "map_of (fold add_connection (vs @ [v]) []) k =
          Some (e\<lparr> tue_positions := List.insert (visit_position v) (tue_positions e) \<rparr>)"
        using wf True by (simp add: add_connection_eq Let_def)
      then show ?thesis using e(2) True unfolding visits_give_def all by auto
    qed
  qed
qed simp

lemma canonical_connection_key:
  "new_turnout_edge_key i (pc_port_a (canonical_connection c)) (pc_port_b (canonical_connection c)) = (i, connection_key c)"
  by (auto simp: new_turnout_edge_key_def canonical_connection_def new_port_connection_key_def)

lemma topology_visits_iff:
  "v \<in> set (topology_visits topo) \<longleftrightarrow>
     (\<exists>p\<in>set (tt_positions topo). \<exists>c\<in>set (tp_connections p).
        v = (tt_turnout_id topo, port_map (canonical_turnout_topology topo), tp_position_id p, canonical_connection c))"
  by (auto simp: topology_visits_def Let_def canonical_turnout_topology_def)

lemma topology_visit_keys:
  "visit_key ` set (topology_visits topo) = Pair (tt_turnout_id topo) ` topology_keys topo"
proof -
  have "set (topology_visits topo) = (\<Union>p\<in>set (tt_positions topo). (\<lambda>c. (tt_turnout_id topo,
      port_map (canonical_turnout_topology topo), tp_position_id p, canonical_connection c)) ` set (tp_connections p))"
    using topology_visits_iff [of _ topo] by blast
  then show ?thesis by (simp add: image_UN image_image visit_key_def canonical_connection_key topology_keys_def)
qed

definition topologies_ok :: "turnout_topology list \<Rightarrow> bool" where
  "topologies_ok topos \<longleftrightarrow>
     distinct (map tt_turnout_id topos) \<and> (\<forall>topo\<in>set topos. distinct (map pt_id (tt_ports topo)))"

lemma visits_of_key:
  assumes ok: "topologies_ok topos" and topo: "topo \<in> set topos"
  shows "{v \<in> set (concat (map topology_visits topos)). visit_key v = (tt_turnout_id topo, k)} =
    {v \<in> set (topology_visits topo). visit_key v = (tt_turnout_id topo, k)}"
proof -
  have "topo' = topo" if "topo' \<in> set topos" "v \<in> set (topology_visits topo')" "visit_key v = (tt_turnout_id topo, k)" for topo' v
  proof -
    have "visit_key v \<in> Pair (tt_turnout_id topo') ` topology_keys topo'"
      using that(2) topology_visit_keys [of topo'] by blast
    then have "tt_turnout_id topo' = tt_turnout_id topo" using that(3) by auto
    then show ?thesis using ok that(1) topo by (metis topologies_ok_def distinct_map inj_on_contraD)
  qed
  then show ?thesis using topo unfolding set_concat set_map by blast
qed

lemma visits_give_edge:
  assumes ok: "topologies_ok topos" and topo: "topo \<in> set topos"
    and e: "visits_give (concat (map topology_visits topos)) (tt_turnout_id topo, k) e"
  shows "finish_turnout_edge e = turnout_edge_of topo k"
proof -
  note same = visits_of_key [OF ok topo, of k]
  obtain v where v: "v \<in> set (topology_visits topo)" "visit_key v = (tt_turnout_id topo, k)" "tue_edge e = visit_edge v"
    using e same unfolding visits_give_def by blast
  obtain p c where pc: "v = (tt_turnout_id topo, port_map (canonical_turnout_topology topo), p, c)"
    using v(1) by (auto simp: topology_visits_iff)
  have ports: "distinct (map pt_id (tt_ports topo))" using ok topo by (simp add: topologies_ok_def)
  have "visit_edge v = zero_edge\<lparr> te_kind := EdgeTurnout, te_node_a := port_node topo (fst k),
      te_node_b := port_node topo (snd k), te_turnout_id := tt_turnout_id topo, te_port_a := fst k, te_port_b := snd k \<rparr>"
    using v(2) by (cases k) (simp add: visit_edge_def pc port_map_canonical [OF ports])
  moreover have "sort (tue_positions e) = positions_joining topo k"
  proof (rule sorted_distinct_set_unique)
    have "visit_position ` {v \<in> set (topology_visits topo). visit_key v = (tt_turnout_id topo, k)} =
        tp_position_id ` {p \<in> set (tt_positions topo). k \<in> connection_key ` set (tp_connections p)}"
    proof (intro equalityI subsetI)
      fix x assume "x \<in> visit_position ` {v \<in> set (topology_visits topo). visit_key v = (tt_turnout_id topo, k)}"
      then obtain q c where "q \<in> set (tt_positions topo)" "c \<in> set (tp_connections q)" "x = tp_position_id q"
        "connection_key c = k"
        by (auto simp: topology_visits_iff visit_position_def visit_key_def canonical_connection_key)
      then show "x \<in> tp_position_id ` {p \<in> set (tt_positions topo). k \<in> connection_key ` set (tp_connections p)}"
        by blast
    next
      fix x assume "x \<in> tp_position_id ` {p \<in> set (tt_positions topo). k \<in> connection_key ` set (tp_connections p)}"
      then obtain q c where q: "q \<in> set (tt_positions topo)" "c \<in> set (tp_connections q)" "x = tp_position_id q"
        "connection_key c = k" by blast
      let ?v = "(tt_turnout_id topo, port_map (canonical_turnout_topology topo), tp_position_id q, canonical_connection c)"
      have "?v \<in> set (topology_visits topo)" using q by (auto simp: topology_visits_iff)
      moreover have "visit_key ?v = (tt_turnout_id topo, k)" "visit_position ?v = x"
        using q by (simp_all add: visit_key_def visit_position_def canonical_connection_key)
      ultimately show "x \<in> visit_position ` {v \<in> set (topology_visits topo). visit_key v = (tt_turnout_id topo, k)}"
        by blast
    qed
    then show "set (sort (tue_positions e)) = set (positions_joining topo k)"
      using e same unfolding visits_give_def positions_joining_def by auto
  qed (use e in \<open>simp_all add: visits_give_def positions_joining_def\<close>)
  ultimately show ?thesis using v(3) by (simp add: finish_turnout_edge_def turnout_edge_of_def)
qed

lemma turnout_edges_set:
  assumes ok: "topologies_ok topos"
  shows "set (turnout_edges topos) = {turnout_edge_of topo k |topo k. topo \<in> set topos \<and> k \<in> topology_keys topo}"
proof (intro equalityI subsetI)
  let ?vs = "concat (map topology_visits topos)"
  let ?m = "fold add_connection ?vs []"
  fix e assume "e \<in> set (turnout_edges topos)"
  then obtain key te where te: "(key, te) \<in> set ?m" "e = finish_turnout_edge te" by (auto simp: turnout_edges_def)
  then have "map_of ?m key = Some te" by (simp add: gm_wf_distinct)
  then have g: "visits_give ?vs key te" using fold_add_connection [of ?vs key] by auto
  then obtain topo where topo: "topo \<in> set topos" "key \<in> visit_key ` set (topology_visits topo)"
    by (auto simp: visits_give_def)
  then obtain k where k: "key = (tt_turnout_id topo, k)" "k \<in> topology_keys topo"
    unfolding topology_visit_keys by blast
  then show "e \<in> {turnout_edge_of topo k |topo k. topo \<in> set topos \<and> k \<in> topology_keys topo}"
    using visits_give_edge [OF ok topo(1)] g te(2) topo(1) by blast
next
  let ?vs = "concat (map topology_visits topos)"
  fix e assume "e \<in> {turnout_edge_of topo k |topo k. topo \<in> set topos \<and> k \<in> topology_keys topo}"
  then obtain topo k where topo: "e = turnout_edge_of topo k" "topo \<in> set topos" "k \<in> topology_keys topo" by blast
  then have "(tt_turnout_id topo, k) \<in> visit_key ` set (topology_visits topo)"
    unfolding topology_visit_keys by blast
  then have "(tt_turnout_id topo, k) \<in> visit_key ` set ?vs" using topo(2) unfolding set_concat set_map by blast
  then obtain te where te: "map_of (fold add_connection ?vs []) (tt_turnout_id topo, k) = Some te"
      "visits_give ?vs (tt_turnout_id topo, k) te"
    using fold_add_connection [of ?vs "(tt_turnout_id topo, k)"] by blast
  then show "e \<in> set (turnout_edges topos)"
    using visits_give_edge [OF ok topo(2) te(2)] topo(1) imageI [OF map_of_SomeD [OF te(1)], of "finish_turnout_edge \<circ> snd"]
    unfolding turnout_edges_def set_map by simp
qed

subsection \<open>The edge list\<close>

lemma edge_less_trans:
  assumes "edge_less a b" and "edge_less b c"
    and "te_kind a \<in> {EdgeTrackSection, EdgeTurnout}" and "te_kind b \<in> {EdgeTrackSection, EdgeTurnout}"
    and "te_kind c \<in> {EdgeTrackSection, EdgeTurnout}"
  shows "edge_less a c"
  using assms by (auto simp: edge_less_def split: if_splits dest: less_trans)

lemma distinct_keys_sorted_wrt: "distinct (map f xs) \<longleftrightarrow> sorted_wrt (\<lambda>x y. f x \<noteq> f y) xs"
  by (induction xs) auto

lemma sorted_wrt_set_mono:
  "sorted_wrt P xs \<Longrightarrow> (\<And>x y. x \<in> set xs \<Longrightarrow> y \<in> set xs \<Longrightarrow> P x y \<Longrightarrow> Q x y) \<Longrightarrow> sorted_wrt Q xs"
  by (induction xs) auto

definition edge_ident :: "track_edge \<Rightarrow> turnout_edge_key" where
  "edge_ident e = (te_turnout_id e, te_port_a e, te_port_b e)"

lemma turnout_edges_ident:
  "map edge_ident (turnout_edges topos) = map fst (fold add_connection (concat (map topology_visits topos)) [])"
proof -
  let ?vs = "concat (map topology_visits topos)"
  have "edge_ident (finish_turnout_edge te) = key" if "(key, te) \<in> set (fold add_connection ?vs [])" for key te
  proof -
    have "map_of (fold add_connection ?vs []) key = Some te" using that by (simp add: gm_wf_distinct)
    then obtain v where "visit_key v = key" "tue_edge te = visit_edge v"
      using fold_add_connection [of ?vs key] by (auto simp: visits_give_def)
    then show ?thesis
      by (auto simp: edge_ident_def finish_turnout_edge_def visit_edge_def visit_key_def
          new_turnout_edge_key_def split: prod.splits if_splits)
  qed
  then show ?thesis by (auto simp: turnout_edges_def)
qed

lemma turnout_edges_kind: "e \<in> set (turnout_edges topos) \<Longrightarrow> topologies_ok topos \<Longrightarrow> te_kind e = EdgeTurnout"
  by (auto simp: turnout_edges_set turnout_edge_of_def)

lemma track_edges_sorted:
  assumes ok: "topologies_ok topos" and ids: "distinct (map ts_id ss)"
  shows "sorted_wrt edge_less (sort_slice edge_less (map section_edge ss @ turnout_edges topos))"
proof (rule sorted_sort_slice)
  let ?es = "map section_edge ss @ turnout_edges topos"
  have kinds: "te_kind e \<in> {EdgeTrackSection, EdgeTurnout}" if "e \<in> set ?es" for e
    using that turnout_edges_kind [OF _ ok] by (auto simp: section_edge_def)
  show "transp_on (set ?es) edge_less"
    by (rule transp_onI) (use edge_less_trans kinds in blast)
  have "sorted_wrt (\<lambda>x y. edge_less x y \<or> edge_less y x) (map section_edge ss)"
    using ids unfolding distinct_keys_sorted_wrt sorted_wrt_map
    by (rule sorted_wrt_set_mono) (auto simp: edge_less_def section_edge_def)
  moreover have "sorted_wrt (\<lambda>x y. edge_less x y \<or> edge_less y x) (turnout_edges topos)"
  proof -
    have "distinct (map edge_ident (turnout_edges topos))"
      unfolding turnout_edges_ident by (rule gm_wf_distinct) simp
    then show ?thesis unfolding distinct_keys_sorted_wrt
      by (rule sorted_wrt_set_mono)
         (use turnout_edges_kind [OF _ ok] in \<open>auto simp: edge_less_def edge_ident_def\<close>)
  qed
  moreover have "edge_less (section_edge s) e" if "e \<in> set (turnout_edges topos)" for s e
    using turnout_edges_kind [OF that ok] by (simp add: edge_less_def section_edge_def)
  ultimately show "sorted_wrt (\<lambda>x y. edge_less x y \<or> edge_less y x) ?es"
    by (auto simp: sorted_wrt_append)
qed

lemma topology_wf_topologies: "topology_wf l \<Longrightarrow> topologies_ok (ld_turnout_topologies l)"
  by (auto simp: topology_wf_def topologies_ok_def turnout_topology_wf_def)

lemma track_graph_edges: "topology_wf l \<Longrightarrow> set (gr_edges (track_graph l)) = layout_edges l"
  by (simp add: track_graph_def Let_def turnout_edges_set topology_wf_topologies layout_edges_def)

lemma port_node_in:
  assumes "topology_wf l" and "topo \<in> set (ld_turnout_topologies l)" and "k \<in> topology_keys topo"
  shows "port_node topo (fst k) \<in> node_ids l" and "port_node topo (snd k) \<in> node_ids l"
proof -
  obtain t :: turnout where wf: "turnout_topology_wf (node_ids l) (pd_id ` set (t_positions t)) topo"
    using assms(1,2) unfolding topology_wf_def by blast
  have in_nodes: "port_node topo i \<in> node_ids l" if "i \<in> pt_id ` set (tt_ports topo)" for i
  proof -
    have "find (\<lambda>p. pt_id p = i) (tt_ports topo) \<noteq> None" using that by (auto simp: find_None_iff)
    then obtain p where p: "find (\<lambda>p. pt_id p = i) (tt_ports topo) = Some p" by blast
    then have "p \<in> set (tt_ports topo)" by (auto simp: find_Some_iff)
    with p show ?thesis using wf by (simp add: port_node_def turnout_topology_wf_def)
  qed
  have "fst k \<in> pt_id ` set (tt_ports topo) \<and> snd k \<in> pt_id ` set (tt_ports topo)"
    using wf assms(3) unfolding topology_keys_def turnout_topology_wf_def connections_wf_def
    by (auto simp: new_port_connection_key_def)
  then show "port_node topo (fst k) \<in> node_ids l" "port_node topo (snd k) \<in> node_ids l" using in_nodes by auto
qed

lemma layout_edges_ends:
  assumes "topology_wf l"
  shows "edge_ends (layout_edges l) \<subseteq> node_ids l"
proof -
  have "edge_ends (section_edge ` set (ld_track_sections l)) \<subseteq> node_ids l"
    using assms by (auto simp: edge_ends_def section_edge_def topology_wf_def sections_wf_def)
  moreover have "te_node_a (turnout_edge_of topo k) \<in> node_ids l \<and> te_node_b (turnout_edge_of topo k) \<in> node_ids l"
    if "topo \<in> set (ld_turnout_topologies l)" "k \<in> topology_keys topo" for topo k
    using port_node_in [OF assms that] by (simp add: turnout_edge_of_def)
  ultimately show ?thesis unfolding layout_edges_def edge_ends_def by blast
qed

subsection \<open>Node structure\<close>

definition section_count :: "layout_definition \<Rightarrow> string \<Rightarrow> nat" where
  "section_count l i = length (filter (\<lambda>s. ts_node_a s = i \<or> ts_node_b s = i) (ld_track_sections l))"

definition is_port :: "layout_definition \<Rightarrow> string \<Rightarrow> bool" where
  "is_port l i \<longleftrightarrow> (\<exists>topo\<in>set (ld_turnout_topologies l). \<exists>p\<in>set (tt_ports topo). pt_node_id p = i)"

text \<open>What the kind of a node allows: no plain fork at a joint, one section at most elsewhere.\<close>

definition node_fits :: "layout_definition \<Rightarrow> topology_node \<Rightarrow> bool" where
  "node_fits l n \<longleftrightarrow>
     (case tn_kind n of
        NodeJoint \<Rightarrow> section_count l (tn_id n) \<le> 2 \<or> is_port l (tn_id n)
      | NodeBuffer \<Rightarrow> section_count l (tn_id n) \<le> 1 \<and> \<not> is_port l (tn_id n)
      | NodeBoundary \<Rightarrow> section_count l (tn_id n) \<le> 1
      | NodeOther _ \<Rightarrow> True)"

lemma fold_count:
  "gm_wf m \<Longrightarrow> gm_get 0 (fold (\<lambda>n m. gm_put n (Suc (gm_get 0 m n)) m) ns m) k = gm_get 0 m k + count_list ns k"
  by (induction ns arbitrary: m) auto

lemma fixed_incidence_count:
  assumes "sections_wf nodes (ld_track_sections l)"
  shows "gm_get 0 (fixed_incidence (ld_track_sections l)) i = section_count l i"
proof -
  have "(\<forall>s\<in>set ss. ts_node_a s \<noteq> ts_node_b s) \<Longrightarrow>
      count_list (concat (map (\<lambda>s. [ts_node_a s, ts_node_b s]) ss)) i =
      length (filter (\<lambda>s. ts_node_a s = i \<or> ts_node_b s = i) ss)" for ss
    by (induction ss) auto
  moreover have "\<forall>s\<in>set (ld_track_sections l). ts_node_a s \<noteq> ts_node_b s"
    using assms by (simp add: sections_wf_def)
  ultimately show ?thesis by (simp add: fixed_incidence_def fold_count section_count_def)
qed

lemma set_port_nodes: "i \<in> set (port_nodes l) \<longleftrightarrow> is_port l i"
  by (auto simp: port_nodes_def is_port_def)

lemma check_node_None:
  assumes "sections_wf nodes (ld_track_sections l)"
  shows "check_node (fixed_incidence (ld_track_sections l)) (port_nodes l) n = None \<longleftrightarrow> node_fits l n"
  by (auto simp: check_node_def Let_def node_fits_def fixed_incidence_count [OF assms] set_port_nodes
      split: node_kind.splits)

lemma validate_node_structure_None:
  "validate_node_structure nodes is fixed ports = None \<longleftrightarrow>
     (\<forall>i\<in>set is. \<forall>n. map_of nodes i = Some n \<longrightarrow> check_node fixed ports n = None)"
  by (induction nodes "is" fixed ports rule: validate_node_structure.induct) (auto split: option.splits)

lemma track_graph_structure:
  assumes "topology_wf l"
  shows "validate_node_structure (gr_nodes (track_graph l)) (gr_node_ids (track_graph l))
      (fixed_incidence (ld_track_sections l)) (port_nodes l) = None \<longleftrightarrow> (\<forall>n\<in>set (ld_topology_nodes l). node_fits l n)"
proof -
  have d: "distinct (map tn_id (ld_topology_nodes l))" and s: "sections_wf (node_ids l) (ld_track_sections l)"
    using assms by (auto simp: topology_wf_def)
  show ?thesis
    unfolding validate_node_structure_None track_graph_def Let_def
    by (auto simp: map_of_fold_put [OF d] check_node_None [OF s])
qed

subsection \<open>Connectivity of blocks\<close>

lemma add_adjacent_wf [simp]: "gm_wf m \<Longrightarrow> gm_wf (add_adjacent e m)"
  by (simp add: add_adjacent_def Let_def)

lemma fold_add_adjacent:
  "gm_wf m \<Longrightarrow> set (gm_get [] (fold add_adjacent es m) s) = set (gm_get [] m s) \<union> edge_links (set es) `` {s}"
proof (induction es arbitrary: m)
  case (Cons e es)
  have "set (gm_get [] (add_adjacent e m) s) = set (gm_get [] m s) \<union> edge_links {e} `` {s}"
    using Cons.prems by (auto simp: add_adjacent_def Let_def edge_links_def)
  moreover have "edge_links (set (e # es)) = edge_links {e} \<union> edge_links (set es)" by (auto simp: edge_links_def)
  ultimately show ?case using Cons by auto
qed (simp add: edge_links_def)

lemma adjacent_map_iff: "t \<in> set (gm_get [] (adjacent_map es) s) \<longleftrightarrow> (s, t) \<in> edge_links (set es)"
  by (simp add: adjacent_map_def fold_add_adjacent)

interpretation block_tracks: component_space "gm_get [] (adjacent_map es)" "edge_ends (set es)" for es
  by unfold_locales (auto simp: adjacent_map_iff edge_links_def edge_ends_def)

lemma sym_edge_links: "sym (edge_links E)"
  by (auto simp: sym_def edge_links_def)

definition edges_connected :: "track_edge set \<Rightarrow> bool" where
  "edges_connected E \<longleftrightarrow> (\<forall>x\<in>edge_ends E. \<forall>y\<in>edge_ends E. (x, y) \<in> (edge_links E)\<^sup>*)"

lemma edges_connected_from:
  assumes "start \<in> edge_ends E"
  shows "(edge_links E)\<^sup>* `` {start} = edge_ends E \<longleftrightarrow> edges_connected E"
proof -
  have "edge_links E `` edge_ends E \<subseteq> edge_ends E" by (auto simp: edge_links_def edge_ends_def)
  then have sub: "(edge_links E)\<^sup>* `` {start} \<subseteq> edge_ends E"
    using assms Image_closed_trancl [of "edge_links E" "edge_ends E"] by blast
  have sym: "(x, start) \<in> (edge_links E)\<^sup>*" if "(start, x) \<in> (edge_links E)\<^sup>*" for x
    using that sym_rtrancl [OF sym_edge_links] by (meson symD)
  have "edges_connected E" if all: "edge_ends E \<subseteq> (edge_links E)\<^sup>* `` {start}"
    unfolding edges_connected_def
  proof (intro ballI)
    fix x y assume "x \<in> edge_ends E" "y \<in> edge_ends E"
    then have "(x, start) \<in> (edge_links E)\<^sup>*" "(start, y) \<in> (edge_links E)\<^sup>*" using all sym by auto
    then show "(x, y) \<in> (edge_links E)\<^sup>*" by (rule rtrancl_trans)
  qed
  moreover have "edge_ends E \<subseteq> (edge_links E)\<^sup>* `` {start}" if "edges_connected E"
    using that assms unfolding edges_connected_def by blast
  ultimately show ?thesis using sub by blast
qed

lemma set_edge_nodes [simp]: "set (edge_nodes es) = edge_ends (set es)"
  by (auto simp: edge_nodes_def edge_ends_def)

lemma finite_edge_ends [simp]: "finite (edge_ends (set es))"
  by (simp add: edge_ends_def)

text \<open>Whatever node the traversal starts from, it ends and decides connectivity.\<close>

lemma connectivity_from_correct:
  assumes "start \<in> edge_ends {e \<in> set (gr_edges g). edge_selected b e}"
  shows "connectivity_from g b start =
     Some (fail_if (\<not> edges_connected {e \<in> set (gr_edges g). edge_selected b e}) (BlockDisconnected (bd_id b)))"
proof -
  let ?es = "filter (edge_selected b) (gr_edges g)"
  let ?E = "{e \<in> set (gr_edges g). edge_selected b e}"
  have E: "set ?es = ?E" by auto
  obtain c v where f: "flood (gm_get [] (adjacent_map ?es)) [start] [start] [] = Some (c, v)"
      "set v = (edge_links ?E)\<^sup>* `` {start}"
    using block_tracks.flood_correct [of start ?es "[]"] assms by (auto simp: adjacent_map_iff)
  have "distinct (edge_nodes ?es)" by (simp add: edge_nodes_def)
  from distinct_card [OF this] have "length (edge_nodes ?es) = card (edge_ends ?E)"
    unfolding set_edge_nodes E by simp
  moreover have "length (remdups v) = card ((edge_links ?E)\<^sup>* `` {start})"
    using f(2) by (simp add: length_remdups_card_conv)
  moreover have "card ((edge_links ?E)\<^sup>* `` {start}) = card (edge_ends ?E) \<longleftrightarrow>
      (edge_links ?E)\<^sup>* `` {start} = edge_ends ?E"
  proof -
    have "edge_links ?E `` edge_ends ?E \<subseteq> edge_ends ?E" by (auto simp: edge_links_def edge_ends_def)
    then have sub: "(edge_links ?E)\<^sup>* `` {start} \<subseteq> edge_ends ?E"
      using assms Image_closed_trancl [of "edge_links ?E" "edge_ends ?E"] by blast
    have "finite (edge_ends ?E)" using finite_edge_ends [of ?es] E by simp
    from card_subset_eq [OF this sub] show ?thesis by (rule iffI) (assumption, simp only:)
  qed
  ultimately show ?thesis
    using f(1) edges_connected_from [OF assms] by (simp add: connectivity_from_def Let_def)
qed

lemma validate_block_connectivity_correct:
  "validate_block_connectivity g b =
     Some (fail_if (\<not> edges_connected {e \<in> set (gr_edges g). edge_selected b e}) (BlockDisconnected (bd_id b)))"
proof (cases "edge_nodes (filter (edge_selected b) (gr_edges g))")
  case Nil
  then have "edge_ends {e \<in> set (gr_edges g). edge_selected b e} = {}"
    using set_edge_nodes [of "filter (edge_selected b) (gr_edges g)"] by simp
  then show ?thesis using Nil by (simp add: validate_block_connectivity_def edges_connected_def)
next
  case (Cons start rest)
  then have "start \<in> edge_ends {e \<in> set (gr_edges g). edge_selected b e}"
    using set_edge_nodes [of "filter (edge_selected b) (gr_edges g)"] by auto
  then show ?thesis using Cons connectivity_from_correct by (simp add: validate_block_connectivity_def)
qed

lemma edge_selected_canonical [simp]: "edge_selected (canonical_block b) = edge_selected b"
  by (simp add: fun_eq_iff edge_selected_def canonical_block_def)

lemma add_block_simps [simp]:
  "gr_edges (add_block b g) = gr_edges g" "gr_incident (add_block b g) = gr_incident g"
  "gr_node_ids (add_block b g) = gr_node_ids g" "gr_nodes (add_block b g) = gr_nodes g"
  "gr_sections (add_block b g) = gr_sections g" "gr_turnout_ids (add_block b g) = gr_turnout_ids g"
  "gr_turnout_topologies (add_block b g) = gr_turnout_topologies g"
  by (simp_all add: add_block_def)

lemma fold_add_block [simp]:
  "gr_edges (fold add_block bs g) = gr_edges g" "gr_incident (fold add_block bs g) = gr_incident g"
  "gr_node_ids (fold add_block bs g) = gr_node_ids g" "gr_nodes (fold add_block bs g) = gr_nodes g"
  "gr_sections (fold add_block bs g) = gr_sections g" "gr_turnout_ids (fold add_block bs g) = gr_turnout_ids g"
  "gr_turnout_topologies (fold add_block bs g) = gr_turnout_topologies g"
  by (induction bs arbitrary: g) simp_all

definition block_connected :: "layout_definition \<Rightarrow> block_definition \<Rightarrow> bool" where
  "block_connected l b \<longleftrightarrow> edges_connected {e \<in> layout_edges l. edge_selected b e}"

lemma add_blocks_correct:
  "if \<forall>b\<in>set bs. edges_connected {e \<in> set (gr_edges g). edge_selected b e}
   then add_blocks bs g = Some (Inr (fold add_block bs g)) else \<exists>e. add_blocks bs g = Some (Inl e)"
proof (induction bs arbitrary: g)
  case (Cons b bs)
  show ?case using Cons.IH [of "add_block b g"]
    by (auto simp: validate_block_connectivity_correct fail_if_def split: if_splits)
qed simp

text \<open>The graph that \<open>build\<close> returns.\<close>

definition built_graph :: "layout_definition \<Rightarrow> graph" where
  "built_graph l =
     (let g = fold add_block (ld_blocks l) (track_graph l) in g\<lparr> gr_block_ids := sort (gr_block_ids g) \<rparr>)"

definition layout_accepted :: "layout_definition \<Rightarrow> bool" where
  "layout_accepted l \<longleftrightarrow>
     topology_wf l \<and> blocks_wf l \<and> (\<forall>n\<in>set (ld_topology_nodes l). node_fits l n) \<and>
     (\<forall>b\<in>set (ld_blocks l). block_connected l b)"

lemma build_cases:
  "if layout_accepted l then build l = Some (Inr (built_graph l)) else \<exists>e. build l = Some (Inl e)"
proof (cases "topology_wf l \<and> blocks_wf l")
  case False
  then show ?thesis
    by (auto simp: build_def layout_accepted_def split: option.splits
        dest: validate_topology_definition_None [THEN iffD1] validate_block_definitions_None [THEN iffD1])
next
  case True
  then have v: "validate_topology_definition l = None" "validate_block_definitions l = None"
    by (simp_all add: validate_topology_definition_None validate_block_definitions_None)
  show ?thesis
  proof (cases "\<forall>n\<in>set (ld_topology_nodes l). node_fits l n")
    case False
    then show ?thesis using v True track_graph_structure [of l]
      by (auto simp: build_def layout_accepted_def Let_def split: option.splits)
  next
    case fits: True
    then have "validate_node_structure (gr_nodes (track_graph l)) (gr_node_ids (track_graph l))
        (fixed_incidence (ld_track_sections l)) (port_nodes l) = None"
      using True track_graph_structure [of l] by blast
    then have "build l = (case add_blocks (ld_blocks l) (track_graph l) of None \<Rightarrow> None | Some (Inl e) \<Rightarrow> Some (Inl e)
        | Some (Inr g') \<Rightarrow> Some (Inr (g'\<lparr> gr_block_ids := sort (gr_block_ids g') \<rparr>)))"
      using v by (simp add: build_def Let_def)
    then show ?thesis
      using add_blocks_correct [of "ld_blocks l" "track_graph l"] True fits
      by (auto simp: layout_accepted_def block_connected_def track_graph_edges built_graph_def Let_def split: if_splits)
  qed
qed

subsection \<open>Blocks of resources\<close>

lemma fold_add_block_maps:
  "gr_blocks (fold add_block bs g) = fold (\<lambda>b. gm_put (bd_id b) (canonical_block b)) bs (gr_blocks g)"
  "gr_block_by_section (fold add_block bs g) =
     fold (\<lambda>p. gm_put (fst p) (snd p)) (concat (map (\<lambda>b. map (\<lambda>s. (s, bd_id b)) (bd_track_section_ids b)) bs)) (gr_block_by_section g)"
  "gr_block_by_turnout (fold add_block bs g) =
     fold (\<lambda>p. gm_put (fst p) (snd p)) (concat (map (\<lambda>b. map (\<lambda>s. (s, bd_id b)) (bd_turnout_ids b)) bs)) (gr_block_by_turnout g)"
  by (induction bs arbitrary: g) (simp_all add: add_block_def fold_map comp_def)

lemma owner_lookup:
  fixes res :: "block_definition \<Rightarrow> string list"
  assumes ids: "distinct (map bd_id bs)" and owned: "distinct (concat (map res bs))"
  shows "(case map_of (fold (\<lambda>p. gm_put (fst p) (snd p)) (concat (map (\<lambda>b. map (\<lambda>s. (s, bd_id b)) (res b)) bs)) []) r of
       None \<Rightarrow> None | Some i \<Rightarrow> map_of (fold (\<lambda>b. gm_put (bd_id b) (canonical_block b)) bs []) i) =
     map_option canonical_block (find (\<lambda>b. r \<in> set (res b)) bs)"
proof -
  let ?ps = "concat (map (\<lambda>b. map (\<lambda>s. (s, bd_id b)) (res b)) bs)"
  have "map fst ?ps = concat (map res bs)" by (induction bs) (simp_all add: comp_def)
  then have "distinct (map fst ?ps)" using owned by simp
  note owner = map_of_fold_put [OF this, of snd r]
  note block = map_of_fold_put [OF ids, of canonical_block]
  show ?thesis
  proof (cases "find (\<lambda>b. r \<in> set (res b)) bs")
    case None
    then have "\<forall>b\<in>set bs. r \<notin> set (res b)" by (auto simp: find_None_iff)
    then have "map_of (fold (\<lambda>p. gm_put (fst p) (snd p)) ?ps []) r = None"
      using owner by (cases "map_of (fold (\<lambda>p. gm_put (fst p) (snd p)) ?ps []) r") auto
    then show ?thesis using None by simp
  next
    case (Some b)
    then have b: "b \<in> set bs" "r \<in> set (res b)" by (auto simp: find_Some_iff)
    then have "(r, bd_id b) \<in> set ?ps" by auto
    then have "map_of (fold (\<lambda>p. gm_put (fst p) (snd p)) ?ps []) r = Some (bd_id b)"
      using owner by force
    moreover have "map_of (fold (\<lambda>b. gm_put (bd_id b) (canonical_block b)) bs []) (bd_id b) = Some (canonical_block b)"
      using block b(1) by blast
    ultimately show ?thesis using Some by simp
  qed
qed

lemma built_graph_simps:
  "gr_edges (built_graph l) = gr_edges (track_graph l)" "gr_incident (built_graph l) = gr_incident (track_graph l)"
  "gr_node_ids (built_graph l) = gr_node_ids (track_graph l)" "gr_nodes (built_graph l) = gr_nodes (track_graph l)"
  "gr_turnout_ids (built_graph l) = gr_turnout_ids (track_graph l)"
  "gr_turnout_topologies (built_graph l) = gr_turnout_topologies (track_graph l)"
  by (simp_all add: built_graph_def Let_def)

lemma built_incident: "incident_built (built_graph l)"
  by (simp add: incident_built_def built_graph_simps) (simp add: track_graph_def Let_def)

lemma built_node_ids: "set (gr_node_ids (built_graph l)) = node_ids l"
  by (simp add: built_graph_simps track_graph_def Let_def node_ids_def)

lemma build_Inr: "build l = Some (Inr g) \<longleftrightarrow> layout_accepted l \<and> g = built_graph l"
  using build_cases [of l] by (auto split: if_splits)

lemma accepted_wf: "layout_accepted l \<Longrightarrow> topology_wf l" "layout_accepted l \<Longrightarrow> blocks_wf l"
  by (simp_all add: layout_accepted_def)

lemma built_edges: "layout_accepted l \<Longrightarrow> set (gr_edges (built_graph l)) = layout_edges l"
  by (simp add: built_graph_simps track_graph_edges accepted_wf)

lemma built_block_lookup:
  assumes "blocks_wf l"
  shows "block_for_track_section (built_graph l) s =
      map_option canonical_block (find (\<lambda>b. s \<in> set (bd_track_section_ids b)) (ld_blocks l))"
    and "block_for_turnout (built_graph l) t =
      map_option canonical_block (find (\<lambda>b. t \<in> set (bd_turnout_ids b)) (ld_blocks l))"
proof -
  have none: "gr_blocks (track_graph l) = []" "gr_block_by_section (track_graph l) = []"
    "gr_block_by_turnout (track_graph l) = []" by (simp_all add: track_graph_def Let_def)
  have maps: "gr_blocks (built_graph l) = fold (\<lambda>b. gm_put (bd_id b) (canonical_block b)) (ld_blocks l) (gr_blocks (track_graph l))"
    "gr_block_by_section (built_graph l) = fold (\<lambda>p. gm_put (fst p) (snd p))
       (concat (map (\<lambda>b. map (\<lambda>s. (s, bd_id b)) (bd_track_section_ids b)) (ld_blocks l))) (gr_block_by_section (track_graph l))"
    "gr_block_by_turnout (built_graph l) = fold (\<lambda>p. gm_put (fst p) (snd p))
       (concat (map (\<lambda>b. map (\<lambda>s. (s, bd_id b)) (bd_turnout_ids b)) (ld_blocks l))) (gr_block_by_turnout (track_graph l))"
    by (simp_all add: built_graph_def Let_def fold_add_block_maps)
  have wf: "distinct (map bd_id (ld_blocks l))" "distinct (concat (map bd_track_section_ids (ld_blocks l)))"
    "distinct (concat (map bd_turnout_ids (ld_blocks l)))" using assms by (simp_all add: blocks_wf_def)
  show "block_for_track_section (built_graph l) s =
      map_option canonical_block (find (\<lambda>b. s \<in> set (bd_track_section_ids b)) (ld_blocks l))"
    using owner_lookup [OF wf(1,2), of s]
    unfolding block_for_track_section_def maps none .
  show "block_for_turnout (built_graph l) t =
      map_option canonical_block (find (\<lambda>b. t \<in> set (bd_turnout_ids b)) (ld_blocks l))"
    using owner_lookup [OF wf(1,3), of t]
    unfolding block_for_turnout_def maps none .
qed

subsection \<open>Properties\<close>

text \<open>
  C31: Building the graph of a layout always returns, and succeeds exactly when the layout is
  well formed: identifiers unique, references resolved, every declared turnout position
  described once, no resource in two blocks, every node joined as its kind allows, and the
  resources of every block connected, from whichever node the check starts.
\<close>

theorem build_accepts:
  "(\<exists>r. build l = Some r) \<and> ((\<exists>g. build l = Some (Inr g)) \<longleftrightarrow> layout_accepted l)"
  using build_cases [of l] by (auto split: if_splits)

text \<open>
  The built graph has exactly the edges the layout describes, one per section and one per
  connected pair of ports with all positions that connect it, in strictly increasing order;
  the incidence index returns exactly the edges at a node; and a resource is looked up in the
  one block that declares it.
\<close>

theorem build_edges:
  assumes "build l = Some (Inr g)"
  shows "set (gr_edges g) = layout_edges l \<and> sorted_wrt edge_less (gr_edges g) \<and>
    incident_edges g n = filter (edge_touches n) (gr_edges g) \<and>
    block_for_track_section g s = map_option canonical_block (find (\<lambda>b. s \<in> set (bd_track_section_ids b)) (ld_blocks l)) \<and>
    block_for_turnout g t = map_option canonical_block (find (\<lambda>b. t \<in> set (bd_turnout_ids b)) (ld_blocks l))"
proof -
  have ok: "layout_accepted l" and g: "g = built_graph l" using assms by (simp_all add: build_Inr)
  note wf = accepted_wf [OF ok]
  have "sorted_wrt edge_less (gr_edges g)"
    using track_edges_sorted [OF topology_wf_topologies [OF wf(1)]] wf(1)
    by (simp add: g built_graph_simps track_graph_def Let_def topology_wf_def sections_wf_def)
  then show ?thesis
    using built_edges [OF ok] incident_edges_filter [OF built_incident] built_block_lookup [OF wf(2)]
    unfolding g by blast
qed

text \<open>
  The connected components of a built graph partition its nodes, each is sorted, and two
  nodes are in the same component exactly when a chain of edges joins them.
\<close>

theorem components_partition:
  assumes "build l = Some (Inr g)"
  shows "\<exists>cs. connected_components g = Some cs \<and> distinct (concat cs) \<and> set (concat cs) = node_ids l \<and>
    (\<forall>c\<in>set cs. sorted c \<and> c \<noteq> [] \<and> (\<forall>s\<in>set c. set c = (edge_links (layout_edges l))\<^sup>* `` {s}))"
proof -
  have ok: "layout_accepted l" and g: "g = built_graph l" using assms by (simp_all add: build_Inr)
  have "edge_ends (set (gr_edges g)) \<subseteq> set (gr_node_ids g)"
    using layout_edges_ends accepted_wf(1) [OF ok] by (simp add: g built_edges [OF ok] built_node_ids)
  then show ?thesis
    using connected_components_partition [of g] built_incident built_edges [OF ok] built_node_ids
    unfolding g by auto
qed

subsection \<open>A small layout\<close>

text \<open>A spur and a main line joined by one turnout, and a separate loop line.\<close>

definition example_node :: "string \<Rightarrow> node_kind \<Rightarrow> topology_node" where
  "example_node i k = \<lparr> tn_id = i, tn_name = [], tn_kind = k \<rparr>"

definition example_section :: "string \<Rightarrow> string \<Rightarrow> string \<Rightarrow> track_section" where
  "example_section i a b = \<lparr> ts_id = i, ts_name = i, ts_node_a = a, ts_node_b = b, ts_length_mm = 100 \<rparr>"

definition example_layout :: layout_definition where
  "example_layout =
     \<lparr> ld_blocks = [\<lparr> bd_id = ''b1'', bd_name = ''B'', bd_track_section_ids = [''s1''], bd_turnout_ids = [''t1''] \<rparr>],
       ld_turnouts = [new_simple_turnout ''t1'' ''T'' 5 ''straight'' ''straight''],
       ld_routes = [],
       ld_topology_nodes = [example_node ''a'' NodeBuffer, example_node ''b'' NodeJoint, example_node ''c'' NodeJoint,
         example_node ''d'' NodeJoint, example_node ''e'' NodeBoundary, example_node ''f'' NodeBuffer],
       ld_track_sections = [example_section ''s1'' ''a'' ''b'', example_section ''s2'' ''c'' ''e''],
       ld_turnout_topologies =
         [\<lparr> tt_turnout_id = ''t1'',
            tt_ports = [\<lparr> pt_id = ''stem'', pt_node_id = ''b'' \<rparr>, \<lparr> pt_id = ''main'', pt_node_id = ''c'' \<rparr>,
              \<lparr> pt_id = ''div'', pt_node_id = ''d'' \<rparr>],
            tt_positions =
              [\<lparr> tp_position_id = ''straight'', tp_connections = [\<lparr> pc_port_a = ''stem'', pc_port_b = ''main'' \<rparr>] \<rparr>,
               \<lparr> tp_position_id = ''diverging'', tp_connections = [\<lparr> pc_port_a = ''stem'', pc_port_b = ''div'' \<rparr>] \<rparr>] \<rparr>] \<rparr>"

lemma example_builds: "\<exists>g. build example_layout = Some (Inr g)"
proof -
  have "case build example_layout of Some (Inr _) \<Rightarrow> True | _ \<Rightarrow> False" by code_simp
  then show ?thesis by (auto split: option.splits sum.splits)
qed

lemma build_edges_witness:
  "\<exists>g. build example_layout = Some (Inr g) \<and> set (gr_edges g) = layout_edges example_layout \<and>
     block_for_turnout g ''t1'' = Some (canonical_block (hd (ld_blocks example_layout))) \<and>
     block_for_track_section g ''s2'' = None"
proof -
  obtain g where g: "build example_layout = Some (Inr g)" using example_builds by blast
  have "find (\<lambda>b. ''t1'' \<in> set (bd_turnout_ids b)) (ld_blocks example_layout) = Some (hd (ld_blocks example_layout))"
    and "find (\<lambda>b. ''s2'' \<in> set (bd_track_section_ids b)) (ld_blocks example_layout) = None" by code_simp+
  then show ?thesis using g build_edges [OF g, where s = "''s2''" and t = "''t1''"] by auto
qed

lemma components_partition_witness:
  "\<exists>g cs. build example_layout = Some (Inr g) \<and> connected_components g = Some cs \<and>
     set (concat cs) = node_ids example_layout"
  using example_builds components_partition [of example_layout] by blast

end
