(* ===== verification/GoQuote.thy ===== *)
theory GoQuote
  imports Prelude
begin

text \<open>
  The quoted form of a string, as \<^verbatim>\<open>strconv.Quote\<close> and the \<^verbatim>\<open>%q\<close> verb print it. Bytes from
  128 on are copied, which is what Go does with printable UTF-8 text. A quoted string can be
  read back, so texts assembled from quoted parts keep the parts apart.
\<close>

definition hex_digit :: "nat \<Rightarrow> char" where
  "hex_digit d = (if d < 10 then char_of (48 + d) else char_of (87 + d))"

definition quote_char :: "char \<Rightarrow> string" where
  "quote_char c =
     (let n = of_char c :: nat in
      if n = 34 then [CHR 0x5C, CHR 0x22]
      else if n = 92 then [CHR 0x5C, CHR 0x5C]
      else if n = 7 then [CHR 0x5C, CHR ''a'']
      else if n = 8 then [CHR 0x5C, CHR ''b'']
      else if n = 9 then [CHR 0x5C, CHR ''t'']
      else if n = 10 then [CHR 0x5C, CHR ''n'']
      else if n = 11 then [CHR 0x5C, CHR ''v'']
      else if n = 12 then [CHR 0x5C, CHR ''f'']
      else if n = 13 then [CHR 0x5C, CHR ''r'']
      else if n < 32 \<or> n = 127 then [CHR 0x5C, CHR ''x'', hex_digit (n div 16), hex_digit (n mod 16)]
      else [c])"

definition quote :: "string \<Rightarrow> string" where
  "quote s = CHR 0x22 # concat (map quote_char s) @ [CHR 0x22]"

subsection \<open>Reading a quoted string back\<close>

definition hex_value :: "char \<Rightarrow> nat" where
  "hex_value c = (if (of_char c :: nat) < 58 then of_char c - 48 else of_char c - 87)"

fun unquote_escape :: "string \<Rightarrow> (char \<times> string) option" where
  "unquote_escape (e # r) =
     (if e = CHR 0x22 \<or> e = CHR 0x5C then Some (e, r)
      else if e = CHR ''a'' then Some (CHR 0x07, r)
      else if e = CHR ''b'' then Some (CHR 0x08, r)
      else if e = CHR ''t'' then Some (CHR 0x09, r)
      else if e = CHR ''n'' then Some (CHR 0x0A, r)
      else if e = CHR ''v'' then Some (CHR 0x0B, r)
      else if e = CHR ''f'' then Some (CHR 0x0C, r)
      else if e = CHR ''r'' then Some (CHR 0x0D, r)
      else case r of h # l # r' \<Rightarrow> Some (char_of (16 * hex_value h + hex_value l), r') | _ \<Rightarrow> None)"
| "unquote_escape [] = None"

fun unquote_char :: "string \<Rightarrow> (char \<times> string) option" where
  "unquote_char (c # r) =
     (if c = CHR 0x22 then None else if c = CHR 0x5C then unquote_escape r else Some (c, r))"
| "unquote_char [] = None"

lemma hex_value_digit: "d < 16 \<Longrightarrow> hex_value (hex_digit d) = d"
  by (auto simp: hex_value_def hex_digit_def)

lemma char_eqI: "(of_char c :: nat) = of_char d \<Longrightarrow> c = d"
  by (metis char_of_char)

lemma unquote_quote_char: "unquote_char (quote_char c @ r) = Some (c, r)"
proof -
  let ?n = "of_char c :: nat"
  have c: "c = char_of ?n" by simp
  consider (quoted) "?n \<in> {34, 92, 7, 8, 9, 10, 11, 12, 13}" | (hex) "?n \<notin> {34, 92, 7, 8, 9, 10, 11, 12, 13}" "?n < 32 \<or> ?n = 127"
    | (plain) "?n \<notin> {34, 92, 7, 8, 9, 10, 11, 12, 13}" "\<not> (?n < 32 \<or> ?n = 127)" by blast
  then show ?thesis
  proof cases
    case quoted
    then show ?thesis by (auto simp: quote_char_def intro!: char_eqI)
  next
    case hex
    then have "?n div 16 < 16" by auto
    then have "char_of (16 * hex_value (hex_digit (?n div 16)) + hex_value (hex_digit (?n mod 16))) = c"
      by (simp add: hex_value_digit)
    then show ?thesis using hex by (simp add: quote_char_def Let_def)
  next
    case plain
    then have "c \<noteq> CHR 0x22" "c \<noteq> CHR 0x5C" by auto
    then show ?thesis using plain by (simp add: quote_char_def)
  qed
qed

lemma quoted_body_inj:
  "concat (map quote_char a) @ CHR 0x22 # x = concat (map quote_char b) @ CHR 0x22 # y \<Longrightarrow> a = b \<and> x = y"
proof (induction a arbitrary: b)
  case Nil
  show ?case
  proof (cases b)
    case (Cons d b')
    then have "CHR 0x22 # x = quote_char d @ concat (map quote_char b') @ CHR 0x22 # y" using Nil by simp
    then have "unquote_char (CHR 0x22 # x) = Some (d, concat (map quote_char b') @ CHR 0x22 # y)"
      by (simp only: unquote_quote_char)
    then show ?thesis by simp
  qed (use Nil in simp)
next
  case (Cons c a)
  let ?l = "quote_char c @ concat (map quote_char a) @ CHR 0x22 # x"
  have l: "unquote_char ?l = Some (c, concat (map quote_char a) @ CHR 0x22 # x)" by (rule unquote_quote_char)
  show ?case
  proof (cases b)
    case Nil
    then show ?thesis using Cons.prems l by simp
  next
    case (Cons d b')
    then have "?l = quote_char d @ concat (map quote_char b') @ CHR 0x22 # y" using Cons.prems by simp
    then have "unquote_char ?l = Some (d, concat (map quote_char b') @ CHR 0x22 # y)"
      by (simp only: unquote_quote_char)
    then show ?thesis using l Cons.IH [of b'] Cons by simp
  qed
qed

text \<open>A text that starts with a quoted string determines the string and what follows.\<close>

lemma quote_append_inj: "quote a @ x = quote b @ y \<longleftrightarrow> a = b \<and> x = y"
  using quoted_body_inj [of a x b y] by (auto simp: quote_def)

lemma quote_first: "\<exists>r. quote a = CHR 0x22 # r"
  by (simp add: quote_def)

end
