(* ===== verification/TrackPath.thy ===== *)
theory TrackPath
  imports TrackGraph GoQuote
begin

text \<open>
  The path search of \<^verbatim>\<open>internal/topology/path.go\<close>, over a view that is either the static graph
  or a snapshot of confirmed turnouts. A search state is a node together with the positions
  that each traversed turnout may still take; states are identified by a text key, and the
  path is rebuilt from a map of predecessors. The closures of a Go \<^verbatim>\<open>pathView\<close> are replaced by
  the edge list and the incidence index they close over.
\<close>

subsection \<open>Data\<close>

text \<open>A \<^verbatim>\<open>map[string]bool\<close> is the list of its true keys.\<close>

record path_constraints =
  pcs_excluded_track_sections :: "string list"
  pcs_excluded_turnouts :: "string list"
  pcs_excluded_blocks :: "string list"
  pcs_required_turnout_positions :: "(string, string) gomap"

record section_traversal =
  st_track_section_id :: string
  st_from_node_id :: string
  st_to_node_id :: string

record turnout_traversal =
  tr_turnout_id :: string
  tr_from_node_id :: string
  tr_to_node_id :: string
  tr_entry_port_id :: string
  tr_exit_port_id :: string
  tr_required_position_id :: string
  tr_possible_position_ids :: "string list"
  tr_active_position_id :: string
  tr_quality :: report_quality

datatype traversal = SectionTraversal section_traversal | TurnoutTraversal turnout_traversal

record physical_path =
  pp_from_node_id :: string
  pp_to_node_id :: string
  pp_cost_model :: string
  pp_cost :: nat
  pp_traversals :: "traversal list"

record path_edge =
  pe_edge :: track_edge
  pe_active_position :: string
  pe_quality :: report_quality

abbreviation zero_path_edge :: path_edge where
  "zero_path_edge \<equiv> \<lparr> pe_edge = zero_edge, pe_active_position = [], pe_quality = NoQuality \<rparr>"

record path_view =
  pv_static :: graph
  pv_edges :: "path_edge list"
  pv_incident :: "(string, nat list) gomap"

definition node_exists :: "path_view \<Rightarrow> string \<Rightarrow> bool" where
  "node_exists v n \<longleftrightarrow> gm_has (gr_nodes (pv_static v)) n"

definition view_incident :: "path_view \<Rightarrow> string \<Rightarrow> path_edge list" where
  "view_incident v n = map (edge_at zero_path_edge (pv_edges v)) (gm_get [] (pv_incident v) n)"

type_synonym requirements = "(string, string list) gomap"
type_synonym path_state = "string \<times> requirements"

subsection \<open>Requirements\<close>

fun intersect_sorted_strings :: "string list \<Rightarrow> string list \<Rightarrow> string list" where
  "intersect_sorted_strings [] bs = []"
| "intersect_sorted_strings as [] = []"
| "intersect_sorted_strings (a # as) (b # bs) =
     (if a < b then intersect_sorted_strings as (b # bs)
      else if a > b then intersect_sorted_strings (a # as) bs
      else a # intersect_sorted_strings as bs)"

definition extend_requirements ::
  "requirements \<Rightarrow> path_edge \<Rightarrow> path_constraints \<Rightarrow> requirements option" where
  "extend_requirements current cand c =
     (if te_kind (pe_edge cand) \<noteq> EdgeTurnout then Some current
      else
        let t = te_turnout_id (pe_edge cand);
            allowed0 = (if pe_active_position cand \<noteq> [] then [pe_active_position cand]
                        else te_position_ids (pe_edge cand));
            required = gm_get [] (pcs_required_turnout_positions c) t;
            allowed1 = (if required \<noteq> [] then intersect_sorted_strings allowed0 [required] else allowed0)
        in if required \<noteq> [] \<and> allowed1 = [] then None
           else case map_of current t of
                  None \<Rightarrow> Some (gm_put t allowed1 current)
                | Some existing \<Rightarrow>
                    (let allowed2 = intersect_sorted_strings existing allowed1
                     in if allowed2 = [] then None else Some (gm_put t allowed2 current)))"

definition edge_excluded :: "graph \<Rightarrow> track_edge \<Rightarrow> path_constraints \<Rightarrow> bool" where
  "edge_excluded g e c =
     (case te_kind e of
        EdgeTrackSection \<Rightarrow>
          te_track_section_id e \<in> set (pcs_excluded_track_sections c) \<or>
          (let b = gm_get [] (gr_block_by_section g) (te_track_section_id e)
           in b \<noteq> [] \<and> b \<in> set (pcs_excluded_blocks c))
      | EdgeTurnout \<Rightarrow>
          te_turnout_id e \<in> set (pcs_excluded_turnouts c) \<or>
          (let b = gm_get [] (gr_block_by_turnout g) (te_turnout_id e)
           in b \<noteq> [] \<and> b \<in> set (pcs_excluded_blocks c))
      | EdgeKindOther _ \<Rightarrow> False)"

definition path_state_key :: "path_state \<Rightarrow> string" where
  "path_state_key s =
     (case s of (n, rs) \<Rightarrow>
        quote n @ concat (map (\<lambda>t. CHR ''|'' # quote t @ CHR ''='' #
            concat (map (\<lambda>p. quote p @ '','') (gm_get [] rs t))) (sort (map fst rs))))"

subsection \<open>The search\<close>

record path_predecessor =
  pd_previous_key :: string
  pd_from_node_id :: string
  pd_edge :: path_edge

type_synonym predecessors = "(string, path_predecessor) gomap"

text \<open>The inner loop over the edges at a node.\<close>

datatype scan_result =
    Arrived path_state predecessors
  | Scanned "string list" predecessors "path_state list"

fun scan_edges ::
  "path_view \<Rightarrow> path_constraints \<Rightarrow> string \<Rightarrow> path_state \<Rightarrow> path_edge list \<Rightarrow>
   string list \<Rightarrow> predecessors \<Rightarrow> path_state list \<Rightarrow> scan_result" where
  "scan_edges v c to cur [] seen preds queue = Scanned seen preds queue"
| "scan_edges v c to cur (cand # cands) seen preds queue =
     (if edge_excluded (pv_static v) (pe_edge cand) c then scan_edges v c to cur cands seen preds queue
      else case edge_other (pe_edge cand) (fst cur) of
             None \<Rightarrow> scan_edges v c to cur cands seen preds queue
           | Some n \<Rightarrow>
               (case extend_requirements (snd cur) cand c of
                  None \<Rightarrow> scan_edges v c to cur cands seen preds queue
                | Some rs \<Rightarrow>
                    (let next = (n, rs); key = path_state_key next
                     in if key \<in> set seen then scan_edges v c to cur cands seen preds queue
                        else
                          let preds' = gm_put key \<lparr> pd_previous_key = path_state_key cur,
                                pd_from_node_id = fst cur, pd_edge = cand \<rparr> preds
                          in if n = to then Arrived next preds'
                             else scan_edges v c to cur cands (key # seen) preds' (queue @ [next]))))"

text \<open>The outer loop; the outer option is \<open>None\<close> for a search that never ends.\<close>

partial_function (option) search_loop ::
  "path_view \<Rightarrow> path_constraints \<Rightarrow> string \<Rightarrow> path_state list \<Rightarrow> string list \<Rightarrow> predecessors \<Rightarrow>
   (path_state \<times> predecessors) option option" where
  "search_loop v c to queue seen preds =
     (case queue of
        [] \<Rightarrow> Some None
      | cur # rest \<Rightarrow>
          (case scan_edges v c to cur (view_incident v (fst cur)) seen preds rest of
             Arrived target preds' \<Rightarrow> Some (Some (target, preds'))
           | Scanned seen' preds' queue' \<Rightarrow> search_loop v c to queue' seen' preds'))"

declare search_loop.simps [code]

subsection \<open>Building the path\<close>

type_synonym path_step = "string \<times> path_edge \<times> string"

text \<open>The loop of \<^verbatim>\<open>buildPath\<close>: from the target back to the start; \<open>steps\<close> is already reversed.\<close>

partial_function (option) trace_back ::
  "string \<Rightarrow> predecessors \<Rightarrow> string \<Rightarrow> string \<Rightarrow> path_step list \<Rightarrow> path_step list option" where
  "trace_back start preds key to steps =
     (if key = start then Some steps
      else
        let p = gm_get \<lparr> pd_previous_key = [], pd_from_node_id = [], pd_edge = zero_path_edge \<rparr> preds key
        in trace_back start preds (pd_previous_key p) (pd_from_node_id p) ((pd_from_node_id p, pd_edge p, to) # steps))"

declare trace_back.simps [code]

definition traversal_from_step :: "requirements \<Rightarrow> path_step \<Rightarrow> traversal" where
  "traversal_from_step rs step =
     (case step of (from, cand, to) \<Rightarrow>
        let e = pe_edge cand
        in if te_kind e = EdgeTrackSection
           then SectionTraversal \<lparr> st_track_section_id = te_track_section_id e, st_from_node_id = from, st_to_node_id = to \<rparr>
           else
             let (entry, exit) = (if from = te_node_b e then (te_port_b e, te_port_a e) else (te_port_a e, te_port_b e));
                 possible = gm_get [] rs (te_turnout_id e)
             in TurnoutTraversal
                  \<lparr> tr_turnout_id = te_turnout_id e, tr_from_node_id = from, tr_to_node_id = to,
                    tr_entry_port_id = entry, tr_exit_port_id = exit,
                    tr_required_position_id = (case possible of [] \<Rightarrow> [] | p # _ \<Rightarrow> p),
                    tr_possible_position_ids = possible,
                    tr_active_position_id = pe_active_position cand, tr_quality = pe_quality cand \<rparr>)"

definition empty_path :: "string \<Rightarrow> string \<Rightarrow> physical_path" where
  "empty_path from to =
     \<lparr> pp_from_node_id = from, pp_to_node_id = to, pp_cost_model = ''traversal_count'', pp_cost = 0, pp_traversals = [] \<rparr>"

definition build_path :: "physical_path \<Rightarrow> string \<Rightarrow> path_state \<Rightarrow> predecessors \<Rightarrow> physical_path option" where
  "build_path path start target preds =
     (case trace_back start preds (path_state_key target) (fst target) [] of
        None \<Rightarrow> None
      | Some steps \<Rightarrow>
          Some (path\<lparr> pp_traversals := map (traversal_from_step (snd target)) steps, pp_cost := length steps \<rparr>))"

text \<open>\<open>Some None\<close> is the result \<^verbatim>\<open>Path{}, false\<close>.\<close>

definition find_path ::
  "path_view \<Rightarrow> string \<Rightarrow> string \<Rightarrow> path_constraints \<Rightarrow> physical_path option option" where
  "find_path v from to c =
     (if \<not> node_exists v from \<or> \<not> node_exists v to then Some None
      else if from = to then Some (Some (empty_path from to))
      else
        let start = (from, []); start_key = path_state_key start
        in case search_loop v c to [start] [start_key] [] of
             None \<Rightarrow> None
           | Some None \<Rightarrow> Some None
           | Some (Some (target, preds)) \<Rightarrow> map_option Some (build_path (empty_path from to) start_key target preds))"

definition graph_view :: "graph \<Rightarrow> path_view" where
  "graph_view g =
     \<lparr> pv_static = g,
       pv_edges = map (\<lambda>e. \<lparr> pe_edge = e, pe_active_position = [], pe_quality = NoQuality \<rparr>) (gr_edges g),
       pv_incident = gr_incident g \<rparr>"

definition graph_find_path ::
  "graph \<Rightarrow> string \<Rightarrow> string \<Rightarrow> path_constraints \<Rightarrow> physical_path option option" where
  "graph_find_path g = find_path (graph_view g)"

definition graph_reachable :: "graph \<Rightarrow> string \<Rightarrow> string \<Rightarrow> path_constraints \<Rightarrow> bool option" where
  "graph_reachable g from to c = map_option (\<lambda>r. r \<noteq> None) (graph_find_path g from to c)"

end
