(* ===== verification/TrackPathFacts.thy ===== *)
theory TrackPathFacts
  imports TrackPath TrackGraphFacts
begin

text \<open>
  Correctness of the path search. The loop over text keys and predecessors is shown to compute
  the same as the search of theory \<^verbatim>\<open>Search\<close> over states, whose interpretation then gives
  termination and shortest results; the requirements a state carries are shown to describe
  exactly the settings of the turnouts under which the way travelled so far can be passed.
\<close>

subsection \<open>Keys identify states\<close>

definition positions_text :: "string list \<Rightarrow> string" where
  "positions_text ps = concat (map (\<lambda>p. quote p @ '','') ps)"

definition requirements_text :: "requirements \<Rightarrow> string" where
  "requirements_text rs = concat (map (\<lambda>tp. CHR ''|'' # quote (fst tp) @ CHR ''='' # positions_text (snd tp)) rs)"

lemma path_state_key_eq:
  assumes "gm_wf rs"
  shows "path_state_key (n, rs) = quote n @ requirements_text rs"
proof -
  have "sorted (map fst rs)" using assms unfolding gm_wf_def by (rule strict_sorted_imp_sorted)
  then have "sort (map fst rs) = map fst rs" by (rule sorted_sort_id)
  moreover have "gm_get [] rs (fst tp) = snd tp" if "tp \<in> set rs" for tp
  proof -
    have "map_of rs (fst tp) = Some (snd tp)" using gm_wf_distinct [OF assms] that by (intro map_of_is_SomeI) simp_all
    then show ?thesis by (simp add: gm_get_def)
  qed
  ultimately show ?thesis
    by (simp add: path_state_key_def requirements_text_def positions_text_def comp_def cong: map_cong)
qed

lemma positions_text_inj:
  assumes "positions_text ps @ x = positions_text qs @ y"
    and "\<And>r. x \<noteq> CHR 0x22 # r" and "\<And>r. y \<noteq> CHR 0x22 # r"
  shows "ps = qs \<and> x = y"
  using assms(1)
proof (induction ps arbitrary: qs)
  case Nil
  show ?case
  proof (cases qs)
    case (Cons q qs')
    obtain r where "quote q = CHR 0x22 # r" using quote_first by blast
    then show ?thesis using Nil Cons assms(2) by (simp add: positions_text_def)
  qed (use Nil in \<open>simp add: positions_text_def\<close>)
next
  case (Cons p ps)
  show ?case
  proof (cases qs)
    case Nil
    obtain r where "quote p = CHR 0x22 # r" using quote_first by blast
    then have "y = CHR 0x22 # r @ '','' @ positions_text ps @ x"
      using Cons.prems Nil by (simp add: positions_text_def)
    then show ?thesis using assms(3) by blast
  next
    case (Cons q qs')
    then have "quote p @ '','' @ positions_text ps @ x = quote q @ '','' @ positions_text qs' @ y"
      using Cons.prems by (simp add: positions_text_def)
    then have "p = q \<and> positions_text ps @ x = positions_text qs' @ y" by (simp add: quote_append_inj)
    then show ?thesis using Cons.IH [of qs'] Cons by simp
  qed
qed

lemma requirements_text_inj: "requirements_text rs = requirements_text rs' \<Longrightarrow> rs = rs'"
proof (induction rs arbitrary: rs')
  case Nil
  then show ?case by (cases rs') (auto simp: requirements_text_def)
next
  case (Cons tp rs)
  show ?case
  proof (cases rs')
    case Nil
    then show ?thesis using Cons.prems by (simp add: requirements_text_def)
  next
    case (Cons tq rs'')
    have start: "requirements_text zs \<noteq> CHR 0x22 # r" for zs r by (cases zs) (auto simp: requirements_text_def)
    have "quote (fst tp) @ CHR ''='' # positions_text (snd tp) @ requirements_text rs =
        quote (fst tq) @ CHR ''='' # positions_text (snd tq) @ requirements_text rs''"
      using Cons.prems Cons by (simp add: requirements_text_def)
    then have "fst tp = fst tq \<and> positions_text (snd tp) @ requirements_text rs =
        positions_text (snd tq) @ requirements_text rs''" by (simp add: quote_append_inj)
    then show ?thesis
      using positions_text_inj [of "snd tp" "requirements_text rs" "snd tq" "requirements_text rs''"] start
        Cons.IH [of rs''] Cons by (simp add: prod_eq_iff)
  qed
qed

lemma path_state_key_inj:
  "gm_wf (snd s) \<Longrightarrow> gm_wf (snd s') \<Longrightarrow> path_state_key s = path_state_key s' \<longleftrightarrow> s = s'"
  by (cases s; cases s') (auto simp: path_state_key_eq quote_append_inj dest: requirements_text_inj)

subsection \<open>The loop as a search over states\<close>

definition edge_move :: "path_view \<Rightarrow> path_constraints \<Rightarrow> path_state \<Rightarrow> path_edge \<Rightarrow> (path_step \<times> path_state) option" where
  "edge_move v c s cand =
     (if edge_excluded (pv_static v) (pe_edge cand) c then None
      else case edge_other (pe_edge cand) (fst s) of
             None \<Rightarrow> None
           | Some n \<Rightarrow> map_option (\<lambda>rs. ((fst s, cand, n), (n, rs))) (extend_requirements (snd s) cand c))"

definition path_moves :: "path_view \<Rightarrow> path_constraints \<Rightarrow> path_state \<Rightarrow> (path_step \<times> path_state) list" where
  "path_moves v c s = List.map_filter (edge_move v c s) (view_incident v (fst s))"

lemma extend_requirements_wf: "extend_requirements rs cand c = Some rs' \<Longrightarrow> gm_wf rs \<Longrightarrow> gm_wf rs'"
  by (auto simp: extend_requirements_def Let_def split: if_splits option.splits)

fun traced :: "predecessors \<Rightarrow> string \<Rightarrow> path_step list \<Rightarrow> string \<Rightarrow> string \<Rightarrow> bool" where
  "traced preds start [] key node \<longleftrightarrow> key = start"
| "traced preds start ((from, cand, to) # steps) key node \<longleftrightarrow>
     key \<noteq> start \<and> to = node \<and>
     (\<exists>k. map_of preds key = Some \<lparr> pd_previous_key = k, pd_from_node_id = from, pd_edge = cand \<rparr> \<and>
        traced preds start steps k from)"

lemma trace_back_traced:
  "traced preds start steps key node \<Longrightarrow> trace_back start preds key node acc = Some (rev steps @ acc)"
proof (induction preds start steps key node arbitrary: acc rule: traced.induct)
  case (1 preds start key node)
  then show ?case by (subst trace_back.simps) simp
next
  case (2 preds start "from" cand to steps key node)
  then obtain k where "key \<noteq> start" "to = node"
      "map_of preds key = Some \<lparr> pd_previous_key = k, pd_from_node_id = from, pd_edge = cand \<rparr>"
      "traced preds start steps k from" by auto
  then show ?case using 2 by (subst trace_back.simps) (simp add: gm_get_def)
qed

lemma traced_put:
  "traced preds start steps key node \<Longrightarrow> gm_wf preds \<Longrightarrow> k \<notin> fst ` set preds \<Longrightarrow>
     traced (gm_put k x preds) start steps key node"
proof (induction preds start steps key node rule: traced.induct)
  case (2 preds start "from" cand to steps key node)
  then obtain k' where *: "key \<noteq> start" "to = node"
      "map_of preds key = Some \<lparr> pd_previous_key = k', pd_from_node_id = from, pd_edge = cand \<rparr>"
      "traced preds start steps k' from" by auto
  then have "key \<noteq> k" using 2(4) by (metis map_of_eq_None_iff option.distinct(1))
  then show ?case using * 2 by simp
qed simp

definition search_inv ::
  "string \<Rightarrow> predecessors \<Rightarrow> path_state list \<Rightarrow> (path_state \<times> path_step list) list \<Rightarrow> bool" where
  "search_inv start preds seen queue \<longleftrightarrow>
     gm_wf preds \<and> fst ` set preds \<subseteq> path_state_key ` set seen \<and> start \<in> path_state_key ` set seen \<and>
     (\<forall>s\<in>set seen. gm_wf (snd s)) \<and>
     (\<forall>(s, p)\<in>set queue. gm_wf (snd s) \<and> traced preds start (rev p) (path_state_key s) (fst s))"

lemma search_inv_put:
  fixes cand :: path_edge
  assumes inv: "search_inv start preds seen queue" and cur: "(cur, p) \<in> set queue"
    and next_wf: "gm_wf (snd s)" and new: "path_state_key s \<notin> path_state_key ` set seen"
  defines "preds' \<equiv> gm_put (path_state_key s) \<lparr> pd_previous_key = path_state_key cur, pd_from_node_id = fst cur, pd_edge = cand \<rparr> preds"
  shows "traced preds' start (rev (p @ [(fst cur, cand, fst s)])) (path_state_key s) (fst s)"
    and "search_inv start preds' (s # seen) (queue @ [(s, p @ [(fst cur, cand, fst s)])])"
proof -
  have wf: "gm_wf preds" and fresh: "path_state_key s \<notin> fst ` set preds" and start: "path_state_key s \<noteq> start"
    using inv new unfolding search_inv_def by auto
  have keep: "traced preds' start (rev q) (path_state_key t) (fst t)" if "(t, q) \<in> set queue" for t q
    using inv that unfolding preds'_def by (intro traced_put [OF _ wf fresh]) (auto simp: search_inv_def)
  then show t: "traced preds' start (rev (p @ [(fst cur, cand, fst s)])) (path_state_key s) (fst s)"
    using cur wf start by (simp add: preds'_def)
  have "fst ` set preds' \<subseteq> path_state_key ` set (s # seen)" "gm_wf preds'"
    using inv wf by (auto simp: search_inv_def preds'_def)
  then show "search_inv start preds' (s # seen) (queue @ [(s, p @ [(fst cur, cand, fst s)])])"
    using inv keep t next_wf unfolding search_inv_def by auto
qed

fun scan_agrees ::
  "string \<Rightarrow> path_state \<times> path_step list \<Rightarrow> (path_state \<times> path_step list) list \<Rightarrow>
   (path_state, path_step) expansion \<Rightarrow> scan_result \<Rightarrow> bool" where
  "scan_agrees start cur rest (Found tq) r \<longleftrightarrow>
     (\<exists>preds. r = Arrived (fst tq) preds \<and> traced preds start (rev (snd tq)) (path_state_key (fst tq)) (fst (fst tq)))"
| "scan_agrees start cur rest (Continue seen new) r \<longleftrightarrow>
     (\<exists>preds. r = Scanned (map path_state_key seen) preds (map fst (rest @ new)) \<and>
        search_inv start preds seen (cur # rest @ new))"

lemma scan_edges_expand:
  assumes "search_inv start preds seen ((cur, p) # rest @ new)"
  shows "scan_agrees start (cur, p) rest
    (expand (\<lambda>s. fst s = to) p (List.map_filter (edge_move v c cur) cands) seen new)
    (scan_edges v c to cur cands (map path_state_key seen) preds (map fst (rest @ new)))"
  using assms
proof (induction cands arbitrary: seen preds new)
  case Nil
  then show ?case by auto
next
  case (Cons cand cands)
  show ?case
  proof (cases "edge_move v c cur cand")
    case None
    then have "scan_edges v c to cur (cand # cands) sn pr qu = scan_edges v c to cur cands sn pr qu" for sn pr qu
      by (auto simp: edge_move_def split: if_splits option.splits)
    then show ?thesis using None Cons by (simp add: List.map_filter_simps)
  next
    case (Some m)
    then obtain n rs where m: "m = ((fst cur, cand, n), (n, rs))" "\<not> edge_excluded (pv_static v) (pe_edge cand) c"
        "edge_other (pe_edge cand) (fst cur) = Some n" "extend_requirements (snd cur) cand c = Some rs"
      by (auto simp: edge_move_def split: if_splits option.splits)
    let ?s = "(n, rs)"
    have wf: "gm_wf (snd ?s)" and seen_wf: "\<forall>s\<in>set seen. gm_wf (snd s)"
      using extend_requirements_wf [OF m(4)] Cons.prems by (auto simp: search_inv_def)
    have seen_iff: "path_state_key ?s \<in> path_state_key ` set seen \<longleftrightarrow> ?s \<in> set seen"
      using path_state_key_inj [of ?s] wf seen_wf by (auto simp del: snd_conv)
    show ?thesis
    proof (cases "?s \<in> set seen")
      case True
      then have "path_state_key ?s \<in> path_state_key ` set seen" by blast
      then have "scan_edges v c to cur (cand # cands) (map path_state_key seen) pr qu =
          scan_edges v c to cur cands (map path_state_key seen) pr qu" for pr qu
        using m by simp
      then show ?thesis using True Some m(1) Cons by (simp add: List.map_filter_simps)
    next
      case False
      then have new_key: "path_state_key ?s \<notin> path_state_key ` set seen" using seen_iff by blast
      note put = search_inv_put [OF Cons.prems _ wf new_key, of cur p cand, simplified fst_conv]
      show ?thesis
      proof (cases "n = to")
        case True
        then show ?thesis using False new_key m Some put(1) by (simp add: List.map_filter_simps Let_def)
      next
        case away: False
        let ?preds' = "gm_put (path_state_key ?s)
          \<lparr> pd_previous_key = path_state_key cur, pd_from_node_id = fst cur, pd_edge = cand \<rparr> preds"
        have "search_inv start ?preds' (?s # seen) ((cur, p) # rest @ new @ [(?s, p @ [(fst cur, cand, n)])])"
          using put(2) by simp
        from Cons.IH [OF this] show ?thesis
          using False away new_key m Some by (simp add: List.map_filter_simps Let_def)
      qed
    qed
  qed
qed

lemma search_loop_bfs:
  "bfs succ goal queue seen = Some r \<Longrightarrow> succ = path_moves v c \<Longrightarrow> goal = (\<lambda>s. fst s = to) \<Longrightarrow>
     search_inv start preds seen queue \<Longrightarrow>
     (case r of
        None \<Rightarrow> search_loop v c to (map fst queue) (map path_state_key seen) preds = Some None
      | Some (t, q) \<Rightarrow> \<exists>preds'. search_loop v c to (map fst queue) (map path_state_key seen) preds = Some (Some (t, preds')) \<and>
          traced preds' start (rev q) (path_state_key t) (fst t))"
proof (induction succ goal queue seen r arbitrary: preds rule: bfs.raw_induct [rotated, consumes 1])
  case (1 bfs' succ goal queue seen r)
  note body = 1(2) [unfolded 1(3,4)]
  show ?case
  proof (cases queue)
    case Nil
    then show ?thesis using body by (subst search_loop.simps) auto
  next
    case (Cons q rest)
    obtain cur p where q: "q = (cur, p)" by (cases q)
    have inv: "search_inv start preds seen ((cur, p) # rest @ [])" using 1(5) Cons q by simp
    have scan: "scan_agrees start (cur, p) rest (expand (\<lambda>s. fst s = to) p (path_moves v c cur) seen [])
        (scan_edges v c to cur (view_incident v (fst cur)) (map path_state_key seen) preds (map fst rest))"
      using scan_edges_expand [OF inv, of to v c "view_incident v (fst cur)"] by (simp add: path_moves_def)
    show ?thesis
    proof (cases "expand (\<lambda>s. fst s = to) p (path_moves v c cur) seen []")
      case (Found tq)
      then have r: "r = Some tq" using body Cons q by simp
      obtain t steps where tq: "tq = (t, steps)" by (cases tq)
      show ?thesis using scan Found r tq Cons q by (subst search_loop.simps) auto
    next
      case (Continue seen' new)
      then have b: "bfs' succ goal (rest @ new) seen' = Some r" using body 1(3,4) Cons q by simp
      obtain preds' where p': "scan_edges v c to cur (view_incident v (fst cur)) (map path_state_key seen) preds (map fst rest) =
          Scanned (map path_state_key seen') preds' (map fst (rest @ new))"
        "search_inv start preds' seen' ((cur, p) # rest @ new)" using scan Continue by auto
      then have "search_inv start preds' seen' (rest @ new)" by (auto simp: search_inv_def)
      note ih = 1(1) [OF b 1(3,4) this]
      have "search_loop v c to (map fst queue) (map path_state_key seen) preds =
          search_loop v c to (map fst (rest @ new)) (map path_state_key seen') preds'"
        using p'(1) Cons q by (subst search_loop.simps) simp
      with ih show ?thesis by (simp only:)
    qed
  qed
qed

subsection \<open>Settings of the turnouts\<close>

text \<open>The positions in which an edge can be passed, before the constraints of the caller.\<close>

definition edge_allows :: "path_edge \<Rightarrow> string list" where
  "edge_allows cand = (if pe_active_position cand \<noteq> [] then [pe_active_position cand] else te_position_ids (pe_edge cand))"

definition setting_allows :: "path_constraints \<Rightarrow> (string \<Rightarrow> string) \<Rightarrow> path_edge \<Rightarrow> bool" where
  "setting_allows c \<sigma> cand \<longleftrightarrow>
     (te_kind (pe_edge cand) = EdgeTurnout \<longrightarrow>
        (let t = te_turnout_id (pe_edge cand); required = gm_get [] (pcs_required_turnout_positions c) t
         in \<sigma> t \<in> set (edge_allows cand) \<and> (required \<noteq> [] \<longrightarrow> \<sigma> t = required)))"

text \<open>A way along edges at each node, none excluded, that the setting \<open>\<sigma>\<close> of the turnouts opens.\<close>

fun physical_walk :: "path_view \<Rightarrow> path_constraints \<Rightarrow> (string \<Rightarrow> string) \<Rightarrow> string \<Rightarrow> path_step list \<Rightarrow> string \<Rightarrow> bool" where
  "physical_walk v c \<sigma> n [] m \<longleftrightarrow> n = m"
| "physical_walk v c \<sigma> n ((from, cand, to) # steps) m \<longleftrightarrow>
     from = n \<and> cand \<in> set (view_incident v n) \<and> \<not> edge_excluded (pv_static v) (pe_edge cand) c \<and>
     edge_other (pe_edge cand) n = Some to \<and> setting_allows c \<sigma> cand \<and> physical_walk v c \<sigma> to steps m"

definition opens :: "(string \<Rightarrow> string) \<Rightarrow> requirements \<Rightarrow> bool" where
  "opens \<sigma> rs \<longleftrightarrow> (\<forall>t ps. map_of rs t = Some ps \<longrightarrow> \<sigma> t \<in> set ps)"

lemma set_intersect_subset: "set (intersect_sorted_strings as bs) \<subseteq> set as \<inter> set bs"
  by (induction as bs rule: intersect_sorted_strings.induct) auto

lemma set_intersect: "sorted as \<Longrightarrow> sorted bs \<Longrightarrow> set (intersect_sorted_strings as bs) = set as \<inter> set bs"
proof (induction as bs rule: intersect_sorted_strings.induct)
  case (3 a as b bs)
  have "a \<notin> set (b # bs)" if "a < b" using that 3(5) by auto
  moreover have "b \<notin> set (a # as)" if "b < a" using that 3(4) by auto
  ultimately show ?case using 3 by auto
qed auto

lemma sorted_intersect: "sorted as \<Longrightarrow> sorted (intersect_sorted_strings as bs)"
proof (induction as bs rule: intersect_sorted_strings.induct)
  case (3 a as b bs)
  then show ?case using set_intersect_subset [of as bs] by auto
qed auto

lemma length_intersect: "length (intersect_sorted_strings as bs) \<le> length as"
  by (induction as bs rule: intersect_sorted_strings.induct) auto

text \<open>The views the program searches: sections and turnouts, with sorted positions, never none.\<close>

definition view_ok :: "path_view \<Rightarrow> bool" where
  "view_ok v \<longleftrightarrow> (\<forall>n. \<forall>cand\<in>set (view_incident v n). te_kind (pe_edge cand) \<in> {EdgeTrackSection, EdgeTurnout} \<and>
     (te_kind (pe_edge cand) = EdgeTurnout \<longrightarrow>
        sorted (te_position_ids (pe_edge cand)) \<and> te_position_ids (pe_edge cand) \<noteq> []))"

definition requirements_ok :: "requirements \<Rightarrow> bool" where
  "requirements_ok rs \<longleftrightarrow> gm_wf rs \<and> (\<forall>t ps. map_of rs t = Some ps \<longrightarrow> sorted ps \<and> ps \<noteq> [])"

lemma view_incident_edges: "cand \<in> set (view_incident v n) \<Longrightarrow> cand \<in> set (pv_edges v) \<or> cand = zero_path_edge"
  by (auto simp: view_incident_def edge_at_def)

lemma edge_allows_ok:
  assumes "view_ok v" and "cand \<in> set (view_incident v n)" and "te_kind (pe_edge cand) = EdgeTurnout"
  shows "sorted (edge_allows cand) \<and> edge_allows cand \<noteq> []"
  using assms by (auto simp: view_ok_def edge_allows_def)

text \<open>
  Passing a turnout narrows the positions it may take to those that also open the new edge.
\<close>

lemma extend_requirements_opens:
  assumes ok: "requirements_ok rs"
    and allows: "te_kind (pe_edge cand) = EdgeTurnout \<Longrightarrow> sorted (edge_allows cand) \<and> edge_allows cand \<noteq> []"
  shows "case extend_requirements rs cand c of
      Some rs' \<Rightarrow> requirements_ok rs' \<and> (\<forall>\<sigma>. opens \<sigma> rs' \<longleftrightarrow> opens \<sigma> rs \<and> setting_allows c \<sigma> cand)
    | None \<Rightarrow> \<forall>\<sigma>. \<not> (opens \<sigma> rs \<and> setting_allows c \<sigma> cand)"
proof (cases "te_kind (pe_edge cand) = EdgeTurnout")
  case False
  then show ?thesis using ok by (simp add: extend_requirements_def setting_allows_def)
next
  case True
  define t0 where "t0 = te_turnout_id (pe_edge cand)"
  define req where "req = gm_get [] (pcs_required_turnout_positions c) t0"
  define a1 where "a1 = (if req \<noteq> [] then intersect_sorted_strings (edge_allows cand) [req] else edge_allows cand)"
  have srt: "sorted (edge_allows cand)" "edge_allows cand \<noteq> []" and wf: "gm_wf rs"
    using allows True ok by (auto simp: requirements_ok_def)
  have a1: "sorted a1" using srt sorted_intersect by (simp add: a1_def)
  have set_a1: "\<sigma> t0 \<in> set a1 \<longleftrightarrow> setting_allows c \<sigma> cand" for \<sigma>
    using set_intersect [OF srt(1), of "[req]"] True by (auto simp: setting_allows_def Let_def a1_def req_def t0_def)
  have ext: "extend_requirements rs cand c =
      (if req \<noteq> [] \<and> a1 = [] then None
       else case map_of rs t0 of
              None \<Rightarrow> Some (gm_put t0 a1 rs)
            | Some ex \<Rightarrow> if intersect_sorted_strings ex a1 = [] then None
                        else Some (gm_put t0 (intersect_sorted_strings ex a1) rs))"
    unfolding extend_requirements_def Let_def edge_allows_def [symmetric] True a1_def req_def t0_def
    by (simp only: not_True_eq_False if_False simp_thms)
  have put: "opens \<sigma> (gm_put t0 ps rs) \<longleftrightarrow>
      \<sigma> t0 \<in> set ps \<and> (\<forall>t qs. t \<noteq> t0 \<longrightarrow> map_of rs t = Some qs \<longrightarrow> \<sigma> t \<in> set qs)" for \<sigma> ps
    using wf by (auto simp: opens_def)
  have put_ok: "requirements_ok (gm_put t0 ps rs)" if "sorted ps" "ps \<noteq> []" for ps
    using ok that by (auto simp: requirements_ok_def)
  show ?thesis
  proof (cases "req \<noteq> [] \<and> a1 = []")
    case True
    then show ?thesis using set_a1 ext by auto
  next
    case False
    then have ne: "a1 \<noteq> []" using srt(2) by (simp add: a1_def split: if_splits)
    show ?thesis
    proof (cases "map_of rs t0")
      case None
      then have "extend_requirements rs cand c = Some (gm_put t0 a1 rs)" using ext False by simp
      moreover have "opens \<sigma> (gm_put t0 a1 rs) \<longleftrightarrow> opens \<sigma> rs \<and> setting_allows c \<sigma> cand" for \<sigma>
        unfolding put unfolding set_a1 opens_def using None by (metis option.distinct(1))
      ultimately show ?thesis using put_ok [OF a1 ne] by simp
    next
      case (Some ex)
      then have ex: "sorted ex" using ok by (auto simp: requirements_ok_def)
      have inter: "set (intersect_sorted_strings ex a1) = set ex \<inter> set a1" using set_intersect [OF ex a1] .
      have iff: "opens \<sigma> rs \<and> setting_allows c \<sigma> cand \<longleftrightarrow>
          \<sigma> t0 \<in> set (intersect_sorted_strings ex a1) \<and> (\<forall>t qs. t \<noteq> t0 \<longrightarrow> map_of rs t = Some qs \<longrightarrow> \<sigma> t \<in> set qs)" for \<sigma>
        unfolding inter Int_iff set_a1 opens_def using Some by (metis option.inject)
      show ?thesis
      proof (cases "intersect_sorted_strings ex a1 = []")
        case True
        then have "extend_requirements rs cand c = None" using ext False Some by simp
        then show ?thesis using iff True by simp
      next
        case ne2: False
        then have "extend_requirements rs cand c = Some (gm_put t0 (intersect_sorted_strings ex a1) rs)"
          using ext False Some by simp
        then show ?thesis using put_ok [OF sorted_intersect [OF ex] ne2] iff put by simp
      qed
    qed
  qed
qed

lemma extend_requirements_put:
  "extend_requirements rs cand c = Some rs' \<Longrightarrow>
     (if te_kind (pe_edge cand) = EdgeTurnout
      then \<exists>ps. rs' = gm_put (te_turnout_id (pe_edge cand)) ps rs \<and> set ps \<subseteq> set (edge_allows cand) \<and>
        (length ps \<le> length (edge_allows cand) \<or>
           (\<exists>ex. map_of rs (te_turnout_id (pe_edge cand)) = Some ex \<and> length ps \<le> length ex))
      else rs' = rs)"
  using set_intersect_subset length_intersect unfolding extend_requirements_def Let_def edge_allows_def [symmetric]
  by (auto split: if_splits option.splits) blast+

lemma extend_requirements_keys:
  assumes "extend_requirements rs cand c = Some rs'"
  shows "fst ` set rs' = fst ` set rs \<union> (if te_kind (pe_edge cand) = EdgeTurnout then {te_turnout_id (pe_edge cand)} else {})"
proof (cases "te_kind (pe_edge cand) = EdgeTurnout")
  case True
  then obtain ps where "rs' = gm_put (te_turnout_id (pe_edge cand)) ps rs"
    using extend_requirements_put [OF assms] by auto
  then show ?thesis using True by simp
next
  case False
  then show ?thesis using extend_requirements_put [OF assms] by simp
qed

lemma in_map_filter: "y \<in> set (List.map_filter f xs) \<longleftrightarrow> (\<exists>x\<in>set xs. f x = Some y)"
  by (induction xs) (auto simp: List.map_filter_simps split: option.splits)

lemma path_moves_iff:
  "((from, cand, m), (m', rs')) \<in> set (path_moves v c (n, rs)) \<longleftrightarrow>
     from = n \<and> m' = m \<and> cand \<in> set (view_incident v n) \<and> \<not> edge_excluded (pv_static v) (pe_edge cand) c \<and>
     edge_other (pe_edge cand) n = Some m \<and> extend_requirements rs cand c = Some rs'"
proof -
  have "edge_move v c (n, rs) x = Some ((from, cand, m), (m', rs')) \<longleftrightarrow>
      x = cand \<and> from = n \<and> m' = m \<and> \<not> edge_excluded (pv_static v) (pe_edge cand) c \<and>
      edge_other (pe_edge cand) n = Some m \<and> extend_requirements rs cand c = Some rs'" for x
    by (auto simp: edge_move_def split: option.splits)
  then show ?thesis unfolding path_moves_def in_map_filter by auto
qed

definition step_turnouts :: "path_step list \<Rightarrow> string set" where
  "step_turnouts steps =
     {te_turnout_id (pe_edge cand) |from cand to. (from, cand, to) \<in> set steps \<and> te_kind (pe_edge cand) = EdgeTurnout}"

text \<open>The requirements at the end of a walk are exactly the settings that open it.\<close>

lemma walk_opens:
  "walk (path_moves v c) (n, rs) steps (m, rs') \<Longrightarrow> view_ok v \<Longrightarrow> requirements_ok rs \<Longrightarrow>
     requirements_ok rs' \<and> fst ` set rs' = fst ` set rs \<union> step_turnouts steps \<and>
     (\<forall>\<sigma>. opens \<sigma> rs' \<longleftrightarrow> opens \<sigma> rs \<and> physical_walk v c \<sigma> n steps m)"
proof (induction steps arbitrary: n rs)
  case Nil
  then show ?case by (auto simp: step_turnouts_def)
next
  case (Cons step steps)
  obtain a cand b where step: "step = (a, cand, b)" by (cases step)
  obtain s where s: "(step, s) \<in> set (path_moves v c (n, rs))" "walk (path_moves v c) s steps (m, rs')"
    using Cons.prems(1) by auto
  obtain n1 rs1 where s1: "s = (n1, rs1)" by (cases s)
  note move = s(1) [unfolded step s1 path_moves_iff]
  have allows: "te_kind (pe_edge cand) = EdgeTurnout \<Longrightarrow> sorted (edge_allows cand) \<and> edge_allows cand \<noteq> []"
    using edge_allows_ok [OF Cons.prems(2)] move by blast
  have ext: "requirements_ok rs1" "\<And>\<sigma>. opens \<sigma> rs1 \<longleftrightarrow> opens \<sigma> rs \<and> setting_allows c \<sigma> cand"
    using extend_requirements_opens [OF Cons.prems(3) allows, of c] move by auto
  note ih = Cons.IH [OF s(2) [unfolded s1] Cons.prems(2) ext(1)]
  have "step_turnouts (step # steps) =
      (if te_kind (pe_edge cand) = EdgeTurnout then {te_turnout_id (pe_edge cand)} else {}) \<union> step_turnouts steps"
    by (auto simp: step_turnouts_def step)
  then have "fst ` set rs' = fst ` set rs \<union> step_turnouts (step # steps)"
    using ih extend_requirements_keys [of rs cand c rs1] move by auto
  moreover have "opens \<sigma> rs' \<longleftrightarrow> opens \<sigma> rs \<and> physical_walk v c \<sigma> n (step # steps) m" for \<sigma>
    using ih ext(2) move step by auto
  ultimately show ?case using ih by blast
qed

lemma walk_exists:
  "physical_walk v c \<sigma> n steps m \<Longrightarrow> view_ok v \<Longrightarrow> requirements_ok rs \<Longrightarrow> opens \<sigma> rs \<Longrightarrow>
     \<exists>rs'. walk (path_moves v c) (n, rs) steps (m, rs')"
proof (induction v c \<sigma> n steps m arbitrary: rs rule: physical_walk.induct)
  case (2 v c \<sigma> n "from" cand to steps m)
  have move: "from = n" "cand \<in> set (view_incident v n)" "\<not> edge_excluded (pv_static v) (pe_edge cand) c"
    "edge_other (pe_edge cand) n = Some to" "setting_allows c \<sigma> cand" "physical_walk v c \<sigma> to steps m"
    using 2(2) by auto
  have allows: "te_kind (pe_edge cand) = EdgeTurnout \<Longrightarrow> sorted (edge_allows cand) \<and> edge_allows cand \<noteq> []"
    using edge_allows_ok [OF 2(3)] move(2) by blast
  obtain rs1 where rs1: "extend_requirements rs cand c = Some rs1" "requirements_ok rs1" "opens \<sigma> rs1"
    using extend_requirements_opens [OF 2(4) allows, of c] 2(5) move(5) by (auto split: option.splits)
  obtain rs' where "walk (path_moves v c) (to, rs1) steps (m, rs')"
    using 2(1) [OF move(6) 2(3) rs1(2,3)] by blast
  moreover have "((from, cand, to), (to, rs1)) \<in> set (path_moves v c (n, rs))"
    using move rs1(1) by (simp add: path_moves_iff)
  ultimately show ?case by auto
qed simp

subsection \<open>The search space is finite\<close>

definition view_nodes :: "path_view \<Rightarrow> string set" where
  "view_nodes v = insert [] (te_node_a ` pe_edge ` set (pv_edges v) \<union> te_node_b ` pe_edge ` set (pv_edges v))"

definition view_positions :: "path_view \<Rightarrow> string set" where
  "view_positions v = (\<Union>cand\<in>set (pv_edges v). set (edge_allows cand))"

definition positions_bound :: "path_view \<Rightarrow> nat" where
  "positions_bound v = sum_list (map (\<lambda>cand. length (edge_allows cand)) (pv_edges v))"

definition view_settings :: "path_view \<Rightarrow> (string \<times> string list) set" where
  "view_settings v = insert [] ((\<lambda>cand. te_turnout_id (pe_edge cand)) ` set (pv_edges v)) \<times>
     {ps. set ps \<subseteq> view_positions v \<and> length ps \<le> positions_bound v}"

definition path_space :: "path_view \<Rightarrow> string \<Rightarrow> path_state set" where
  "path_space v start = insert start (view_nodes v) \<times> {rs. gm_wf rs \<and> set rs \<subseteq> view_settings v}"

lemma finite_view_settings: "finite (view_settings v)"
proof -
  have "finite (view_positions v)" by (simp add: view_positions_def)
  then have "finite {ps. set ps \<subseteq> view_positions v \<and> length ps \<le> positions_bound v}" by (rule finite_lists_length_le)
  then show ?thesis by (simp add: view_settings_def)
qed

lemma finite_path_space: "finite (path_space v start)"
proof -
  have "{rs. gm_wf rs \<and> set rs \<subseteq> view_settings v} \<subseteq> {rs. set rs \<subseteq> view_settings v \<and> distinct rs}"
    using gm_wf_distinct distinct_map by blast
  then have "finite {rs. gm_wf rs \<and> set rs \<subseteq> view_settings v}"
    using finite_subset_distinct [OF finite_view_settings] finite_subset by blast
  then show ?thesis by (simp add: path_space_def view_nodes_def)
qed

lemma set_gm_put: "set (gm_put k v m) \<subseteq> insert (k, v) (set m)"
  by (induction k v m rule: gm_put.induct) auto

lemma extend_requirements_settings:
  assumes "extend_requirements rs cand c = Some rs'" and "set rs \<subseteq> view_settings v"
    and "cand \<in> set (pv_edges v) \<or> cand = zero_path_edge"
  shows "set rs' \<subseteq> view_settings v"
proof (cases "te_kind (pe_edge cand) = EdgeTurnout")
  case False
  then show ?thesis using assms by (simp add: extend_requirements_def)
next
  case True
  then have cand: "cand \<in> set (pv_edges v)" using assms(3) by auto
  obtain ps where ps: "rs' = gm_put (te_turnout_id (pe_edge cand)) ps rs"
      "set ps \<subseteq> set (edge_allows cand)" "length ps \<le> length (edge_allows cand) \<or>
        (\<exists>ex. map_of rs (te_turnout_id (pe_edge cand)) = Some ex \<and> length ps \<le> length ex)"
    using extend_requirements_put [OF assms(1)] True by auto
  have "length (edge_allows cand) \<le> positions_bound v"
    unfolding positions_bound_def using cand by (intro member_le_sum_list) auto
  moreover have "length ex \<le> positions_bound v" if "map_of rs (te_turnout_id (pe_edge cand)) = Some ex" for ex
    using map_of_SomeD [OF that] assms(2) by (auto simp: view_settings_def)
  moreover have "set ps \<subseteq> view_positions v" using ps(2) cand by (auto simp: view_positions_def)
  ultimately have "(te_turnout_id (pe_edge cand), ps) \<in> view_settings v"
    using ps(3) cand by (auto simp: view_settings_def intro: order_trans)
  then show ?thesis using ps(1) assms(2) set_gm_put [of "te_turnout_id (pe_edge cand)" ps rs] by auto
qed

interpretation track_path: search_space "path_moves v c" "path_space v start" for v c start
proof unfold_locales
  show "finite (path_space v start)" by (rule finite_path_space)
next
  fix s l t assume s: "s \<in> path_space v start" and t: "(l, t) \<in> set (path_moves v c s)"
  obtain n rs a cand b m rs' where e: "s = (n, rs)" "l = (a, cand, b)" "t = (m, rs')" by (cases s; cases t; cases l) blast
  note move = t [unfolded e path_moves_iff]
  note edge = view_incident_edges [of cand v n]
  have "m \<in> view_nodes v" using move edge by (auto simp: edge_other_def view_nodes_def split: if_splits)
  moreover have "gm_wf rs'" "set rs' \<subseteq> view_settings v"
    using s move edge extend_requirements_wf extend_requirements_settings [of rs cand c rs' v]
    by (auto simp: e path_space_def)
  ultimately show "t \<in> path_space v start" by (simp add: e path_space_def)
qed

subsection \<open>Correctness\<close>

text \<open>A setting of the turnouts that a path asks for.\<close>

definition opens_path :: "(string \<Rightarrow> string) \<Rightarrow> physical_path \<Rightarrow> bool" where
  "opens_path \<sigma> p \<longleftrightarrow>
     (\<forall>tr. TurnoutTraversal tr \<in> set (pp_traversals p) \<longrightarrow> \<sigma> (tr_turnout_id tr) \<in> set (tr_possible_position_ids tr))"

text \<open>
  What a returned path promises: it describes a way from one node to the other, the settings it
  lists are exactly those that open this way, there is one, the position it names as required
  is one, and no other way is shorter.
\<close>

definition path_correct :: "path_view \<Rightarrow> path_constraints \<Rightarrow> string \<Rightarrow> string \<Rightarrow> physical_path \<Rightarrow> bool" where
  "path_correct v c from to p \<longleftrightarrow>
     pp_from_node_id p = from \<and> pp_to_node_id p = to \<and> pp_cost p = length (pp_traversals p) \<and>
     (\<exists>steps rs. pp_traversals p = map (traversal_from_step rs) steps \<and>
        (\<forall>\<sigma>. opens_path \<sigma> p \<longleftrightarrow> physical_walk v c \<sigma> from steps to)) \<and>
     (\<exists>\<sigma>. opens_path \<sigma> p) \<and>
     (\<forall>tr. TurnoutTraversal tr \<in> set (pp_traversals p) \<longrightarrow> tr_required_position_id tr \<in> set (tr_possible_position_ids tr)) \<and>
     (\<forall>\<sigma> steps. physical_walk v c \<sigma> from steps to \<longrightarrow> pp_cost p \<le> length steps)"

lemma traversal_turnout:
  "TurnoutTraversal tr \<in> set (map (traversal_from_step rs) steps) \<Longrightarrow>
     \<forall>(a, cand, b)\<in>set steps. te_kind (pe_edge cand) \<in> {EdgeTrackSection, EdgeTurnout} \<Longrightarrow>
     tr_turnout_id tr \<in> step_turnouts steps \<and> tr_possible_position_ids tr = gm_get [] rs (tr_turnout_id tr) \<and>
     tr_required_position_id tr = (case gm_get [] rs (tr_turnout_id tr) of [] \<Rightarrow> [] | p # _ \<Rightarrow> p)"
  by (auto simp: traversal_from_step_def step_turnouts_def Let_def split: if_splits prod.splits) blast+

lemma step_turnout_traversal:
  assumes "t \<in> step_turnouts steps"
  shows "\<exists>tr. TurnoutTraversal tr \<in> set (map (traversal_from_step rs) steps) \<and> tr_turnout_id tr = t \<and>
     tr_possible_position_ids tr = gm_get [] rs t"
proof -
  obtain a cand b where s: "(a, cand, b) \<in> set steps" "te_kind (pe_edge cand) = EdgeTurnout" "te_turnout_id (pe_edge cand) = t"
    using assms by (auto simp: step_turnouts_def)
  then obtain tr where "traversal_from_step rs (a, cand, b) = TurnoutTraversal tr" "tr_turnout_id tr = t"
      "tr_possible_position_ids tr = gm_get [] rs t"
    by (cases "a = te_node_b (pe_edge cand)") (simp_all add: traversal_from_step_def Let_def)
  then show ?thesis using s(1) by (metis image_eqI set_map)
qed

lemma walk_kinds:
  "walk (path_moves v c) (n, rs) steps s \<Longrightarrow> view_ok v \<Longrightarrow>
     \<forall>(a, cand, b)\<in>set steps. te_kind (pe_edge cand) \<in> {EdgeTrackSection, EdgeTurnout}"
proof (induction steps arbitrary: n rs)
  case (Cons step steps)
  obtain a cand b n1 rs1 where e: "step = (a, cand, b)" "((a, cand, b), (n1, rs1)) \<in> set (path_moves v c (n, rs))"
      "walk (path_moves v c) (n1, rs1) steps s"
    using Cons.prems(1) by (cases step) auto
  have "te_kind (pe_edge cand) \<in> {EdgeTrackSection, EdgeTurnout}"
    using e(2) Cons.prems(2) unfolding path_moves_iff view_ok_def by blast
  then show ?case using Cons.IH [OF e(3) Cons.prems(2)] e(1) by auto
qed simp

lemma walk_path_correct:
  assumes view: "view_ok v" and w: "walk (path_moves v c) (from, []) steps (to, rs)"
    and shortest: "\<forall>s' steps'. fst s' = to \<longrightarrow> walk (path_moves v c) (from, []) steps' s' \<longrightarrow> length steps \<le> length steps'"
  shows "path_correct v c from to
    ((empty_path from to)\<lparr> pp_traversals := map (traversal_from_step rs) steps, pp_cost := length steps \<rparr>)"
proof -
  let ?p = "(empty_path from to)\<lparr> pp_traversals := map (traversal_from_step rs) steps, pp_cost := length steps \<rparr>"
  have start: "requirements_ok []" "\<And>\<sigma>. opens \<sigma> []" by (simp_all add: requirements_ok_def opens_def)
  note end_rs = walk_opens [OF w view start(1)]
  note kinds = walk_kinds [OF w view]
  have wf: "requirements_ok rs" and keys: "fst ` set rs = step_turnouts steps" using end_rs by auto
  have get: "\<exists>ps. map_of rs t = Some ps \<and> gm_get [] rs t = ps \<and> ps \<noteq> []" if "t \<in> step_turnouts steps" for t
  proof -
    have "map_of rs t \<noteq> None" using that keys by (simp add: map_of_eq_None_iff)
    then show ?thesis using wf by (auto simp: gm_get_def requirements_ok_def)
  qed
  have trav: "pp_traversals ?p = map (traversal_from_step rs) steps" by (simp add: empty_path_def)
  have opens_iff: "opens_path \<sigma> ?p \<longleftrightarrow> opens \<sigma> rs" for \<sigma>
  proof
    assume o: "opens_path \<sigma> ?p"
    show "opens \<sigma> rs" unfolding opens_def
    proof (intro allI impI)
      fix t ps assume ps: "map_of rs t = Some ps"
      then have "t \<in> step_turnouts steps" using keys by (metis map_of_SomeD fst_conv image_eqI)
      then show "\<sigma> t \<in> set ps"
        using step_turnout_traversal [of t steps rs] o ps unfolding opens_path_def trav by (auto simp: gm_get_def)
    qed
  next
    assume o: "opens \<sigma> rs"
    show "opens_path \<sigma> ?p" unfolding opens_path_def trav
    proof (intro allI impI)
      fix tr assume "TurnoutTraversal tr \<in> set (map (traversal_from_step rs) steps)"
      from traversal_turnout [OF this kinds] get o show "\<sigma> (tr_turnout_id tr) \<in> set (tr_possible_position_ids tr)"
        by (auto simp: opens_def)
    qed
  qed
  have "opens_path \<sigma> ?p \<longleftrightarrow> physical_walk v c \<sigma> from steps to" for \<sigma>
    using opens_iff end_rs start(2) by blast
  moreover have "\<exists>\<sigma>. opens_path \<sigma> ?p"
  proof -
    have "opens (\<lambda>t. hd (gm_get [] rs t)) rs" using wf by (auto simp: opens_def requirements_ok_def gm_get_def)
    then show ?thesis using opens_iff by blast
  qed
  moreover have "tr_required_position_id tr \<in> set (tr_possible_position_ids tr)"
    if "TurnoutTraversal tr \<in> set (map (traversal_from_step rs) steps)" for tr
    using traversal_turnout [OF that kinds] get [of "tr_turnout_id tr"] by (auto split: list.splits)
  moreover have "length steps \<le> length steps'" if "physical_walk v c \<sigma> from steps' to" for \<sigma> steps'
    using walk_exists [OF that view start(1) start(2)] shortest by fastforce
  ultimately show ?thesis unfolding path_correct_def trav by (auto simp: empty_path_def)
qed

lemma find_path_correct:
  assumes view: "view_ok v"
  shows "\<exists>r. find_path v from to c = Some r \<and>
    (case r of
       Some p \<Rightarrow> node_exists v from \<and> node_exists v to \<and> path_correct v c from to p
     | None \<Rightarrow> node_exists v from \<longrightarrow> node_exists v to \<longrightarrow> (\<forall>\<sigma> steps. \<not> physical_walk v c \<sigma> from steps to))"
proof (cases "node_exists v from \<and> node_exists v to")
  case False
  then show ?thesis by (auto simp: find_path_def)
next
  case exists: True
  show ?thesis
  proof (cases "from = to")
    case True
    have "empty_path to to = (empty_path to to)\<lparr> pp_traversals := map (traversal_from_step []) [], pp_cost := length [] \<rparr>"
      by (simp add: empty_path_def)
    then have "path_correct v c to to (empty_path to to)" using walk_path_correct [OF view, of c to "[]" to "[]"] by simp
    then show ?thesis using True exists by (simp add: find_path_def)
  next
    case False
    let ?s = "(from, []) :: path_state"
    have "?s \<in> path_space v from" by (simp add: path_space_def)
    from track_path.bfs_correct [OF this, of "\<lambda>s. fst s = to" c]
    obtain r where r: "bfs (path_moves v c) (\<lambda>s. fst s = to) [(?s, [])] [?s] = Some r"
        "track_path.bfs_spec v c ?s (\<lambda>s. fst s = to) r" using False by auto
    have inv: "search_inv (path_state_key ?s) [] [?s] [(?s, [])]" by (simp add: search_inv_def)
    note loop = search_loop_bfs [OF r(1) refl refl inv]
    show ?thesis
    proof (cases r)
      case None
      have none: "\<not> physical_walk v c \<sigma> from steps to" for \<sigma> steps
      proof
        assume "physical_walk v c \<sigma> from steps to"
        from walk_exists [OF this view, of "[]"] obtain rs where "walk (path_moves v c) ?s steps (to, rs)"
          by (auto simp: requirements_ok_def opens_def)
        then show False using r(2) None unfolding track_path.bfs_spec_def by fastforce
      qed
      have "find_path v from to c = Some None" using loop None exists False by (simp add: find_path_def Let_def)
      then show ?thesis using none by simp
    next
      case (Some tq)
      obtain m rs q where tq: "tq = ((m, rs), q)" by (metis prod.collapse)
      have spec: "m = to" "walk (path_moves v c) ?s q (to, rs)"
          "\<forall>t' p'. fst t' = to \<longrightarrow> walk (path_moves v c) ?s p' t' \<longrightarrow> length q \<le> length p'"
        using r(2) Some tq unfolding track_path.bfs_spec_def by auto
      obtain preds where p: "search_loop v c to [?s] [path_state_key ?s] [] = Some (Some ((to, rs), preds))"
          "traced preds (path_state_key ?s) (rev q) (path_state_key (to, rs)) to"
        using loop Some tq spec(1) by auto
      have "find_path v from to c =
          Some (Some ((empty_path from to)\<lparr> pp_traversals := map (traversal_from_step rs) q, pp_cost := length q \<rparr>))"
        using p exists False trace_back_traced [OF p(2), of "[]"] by (simp add: find_path_def Let_def build_path_def)
      then show ?thesis using walk_path_correct [OF view spec(2,3)] exists by simp
    qed
  qed
qed

subsection \<open>The static graph\<close>

lemma graph_view_incident:
  "incident_built g \<Longrightarrow> view_incident (graph_view g) n =
     map (\<lambda>e. \<lparr> pe_edge = e, pe_active_position = [], pe_quality = NoQuality \<rparr>) (incident_edges g n)"
proof -
  let ?f = "\<lambda>e. \<lparr> pe_edge = e, pe_active_position = [], pe_quality = NoQuality \<rparr>"
  assume g: "incident_built g"
  have "edge_at zero_path_edge (map ?f (gr_edges g)) i = ?f (edge_at zero_edge (gr_edges g) i)" for i
    by (simp add: edge_at_def)
  then show ?thesis
    by (simp add: view_incident_def graph_view_def incident_edges_def gm_get_def split: option.splits)
qed

lemma layout_edge_ok:
  assumes "e \<in> layout_edges l"
  shows "te_kind e \<in> {EdgeTrackSection, EdgeTurnout} \<and>
    (te_kind e = EdgeTurnout \<longrightarrow> sorted (te_position_ids e) \<and> te_position_ids e \<noteq> [])"
proof -
  have "positions_joining topo k \<noteq> []" if "k \<in> topology_keys topo" for topo k
  proof -
    have "set (positions_joining topo k) \<noteq> {}" using that by (auto simp: positions_joining_def topology_keys_def)
    then show ?thesis by auto
  qed
  then show ?thesis using assms by (auto simp: layout_edges_def section_edge_def turnout_edge_of_def positions_joining_def)
qed

lemma graph_view_ok: "layout_accepted l \<Longrightarrow> view_ok (graph_view (built_graph l))"
  unfolding view_ok_def graph_view_incident [OF built_incident] incident_edges_filter [OF built_incident]
  using built_edges [of l] layout_edge_ok [of _ l] by auto

lemma graph_view_nodes: "node_exists (graph_view (built_graph l)) n \<longleftrightarrow> n \<in> node_ids l"
  by (simp add: node_exists_def graph_view_def gm_has_iff built_graph_simps) (simp add: track_graph_def Let_def node_ids_def)

lemma graph_path_result:
  assumes "build l = Some (Inr g)"
  shows "\<exists>r. graph_find_path g from to c = Some r \<and>
    (case r of
       Some p \<Rightarrow> {from, to} \<subseteq> node_ids l \<and> path_correct (graph_view g) c from to p
     | None \<Rightarrow> {from, to} \<subseteq> node_ids l \<longrightarrow> (\<forall>\<sigma> steps. \<not> physical_walk (graph_view g) c \<sigma> from steps to))"
proof -
  have ok: "layout_accepted l" and g: "g = built_graph l" using assms by (simp_all add: build_Inr)
  show ?thesis
    using find_path_correct [OF graph_view_ok [OF ok], of "from" to c]
    unfolding g graph_find_path_def graph_view_nodes by (auto split: option.splits)
qed

text \<open>
  C22: On a built graph the path search always returns. A path it returns describes a way
  between the two nodes that avoids everything excluded; the positions it lists for the
  traversed turnouts are exactly the settings that open this way under the required positions,
  there is at least one, and no way through the graph is shorter. If it returns none, no
  setting of the turnouts opens any way between the nodes.
\<close>

theorem graph_find_path_correct:
  assumes "build l = Some (Inr g)"
  shows "\<exists>r. graph_find_path g from to c = Some r \<and>
    (case r of
       Some p \<Rightarrow> {from, to} \<subseteq> node_ids l \<and> path_correct (graph_view g) c from to p
     | None \<Rightarrow> {from, to} \<subseteq> node_ids l \<longrightarrow> (\<forall>\<sigma> steps. \<not> physical_walk (graph_view g) c \<sigma> from steps to))"
  using assms by (rule graph_path_result)

definition no_constraints :: path_constraints where
  "no_constraints =
     \<lparr> pcs_excluded_track_sections = [], pcs_excluded_turnouts = [], pcs_excluded_blocks = [],
       pcs_required_turnout_positions = [] \<rparr>"

lemma graph_find_path_correct_witness:
  "\<exists>g p. build example_layout = Some (Inr g) \<and> graph_find_path g ''a'' ''e'' no_constraints = Some (Some p) \<and>
     pp_cost p = 3 \<and> path_correct (graph_view g) no_constraints ''a'' ''e'' p"
proof -
  have "case build example_layout of
      Some (Inr g) \<Rightarrow> (case graph_find_path g ''a'' ''e'' no_constraints of Some (Some p) \<Rightarrow> pp_cost p = 3 | _ \<Rightarrow> False)
    | _ \<Rightarrow> False" by code_simp
  then obtain g p where g: "build example_layout = Some (Inr g)" "graph_find_path g ''a'' ''e'' no_constraints = Some (Some p)"
      "pp_cost p = 3"
    by (auto split: option.splits sum.splits)
  then show ?thesis using graph_find_path_correct [OF g(1), of "''a''" "''e''" no_constraints] by auto
qed

end
