(* ===== verification/ActiveTrack.thy ===== *)
theory ActiveTrack
  imports TrackPathFacts
begin

text \<open>
  The active view of \<^verbatim>\<open>internal/topology/active.go\<close>: a snapshot of the track graph with all
  fixed track and those turnout connections that the reported state confirms. The search of
  theory \<^verbatim>\<open>TrackPath\<close> runs on it unchanged; the facts here say that it finds a path exactly
  when the confirmed positions open one.
\<close>

subsection \<open>Searching a sorted slice\<close>

text \<open>\<^verbatim>\<open>sort.SearchStrings\<close>: the binary search for the first element not below \<open>x\<close>.\<close>

function search_strings :: "string list \<Rightarrow> string \<Rightarrow> nat \<Rightarrow> nat \<Rightarrow> nat" where
  "search_strings a x i j =
     (if i < j then
        (let h = (i + j) div 2
         in if a ! h < x then search_strings a x (h + 1) j else search_strings a x i h)
      else i)"
  by auto

termination
  by (relation "measure (\<lambda>(a, x, i, j). j - i)") auto

declare search_strings.simps [simp del]

subsection \<open>The view\<close>

record active_edge =
  ae_edge :: track_edge
  ae_reported_position :: string
  ae_quality :: report_quality

record active_graph =
  act_static :: graph
  act_edges :: "active_edge list"
  act_incident :: "(string, nat list) gomap"

definition turnout_connection_confirmed :: "track_edge \<Rightarrow> turnout \<Rightarrow> bool" where
  "turnout_connection_confirmed e t =
     (if t_pending t \<or> t_reported_status t \<noteq> ReportKnown \<or> t_reported_position t = [] then False
      else
        let index = search_strings (te_position_ids e) (t_reported_position t) 0 (length (te_position_ids e))
        in index < length (te_position_ids e) \<and> te_position_ids e ! index = t_reported_position t)"

text \<open>The body of the loop over the edges: \<open>None\<close> is \<^verbatim>\<open>continue\<close>.\<close>

definition activate_edge :: "(string, turnout) gomap \<Rightarrow> track_edge \<Rightarrow> active_edge option" where
  "activate_edge turnouts e =
     (if te_kind e = EdgeTurnout
      then case map_of turnouts (te_turnout_id e) of
             None \<Rightarrow> None
           | Some t \<Rightarrow>
               (if turnout_connection_confirmed e t
                then Some \<lparr> ae_edge = e, ae_reported_position = t_reported_position t, ae_quality = t_quality t \<rparr>
                else None)
      else Some \<lparr> ae_edge = e, ae_reported_position = [], ae_quality = NoQuality \<rparr>)"

definition active_view :: "graph \<Rightarrow> (string, turnout) gomap \<Rightarrow> active_graph" where
  "active_view g turnouts =
     (let es = List.map_filter (activate_edge turnouts) (gr_edges g)
      in \<lparr> act_static = g, act_edges = es, act_incident = build_incident (gr_node_ids g) (map ae_edge es) \<rparr>)"

definition active_incident_edges :: "active_graph \<Rightarrow> string \<Rightarrow> active_edge list" where
  "active_incident_edges a n =
     (case map_of (act_incident a) n of
        None \<Rightarrow> []
      | Some is \<Rightarrow> map (edge_at \<lparr> ae_edge = zero_edge, ae_reported_position = [], ae_quality = NoQuality \<rparr> (act_edges a)) is)"

definition active_connected_components :: "active_graph \<Rightarrow> string list list option" where
  "active_connected_components a =
     collect_components (\<lambda>n. map (edge_next n \<circ> ae_edge) (active_incident_edges a n)) (gr_node_ids (act_static a)) []"

definition active_path_edge :: "active_edge \<Rightarrow> path_edge" where
  "active_path_edge a = \<lparr> pe_edge = ae_edge a, pe_active_position = ae_reported_position a, pe_quality = ae_quality a \<rparr>"

definition active_path_view :: "active_graph \<Rightarrow> path_view" where
  "active_path_view a =
     \<lparr> pv_static = act_static a, pv_edges = map active_path_edge (act_edges a), pv_incident = act_incident a \<rparr>"

definition active_find_path ::
  "active_graph \<Rightarrow> string \<Rightarrow> string \<Rightarrow> path_constraints \<Rightarrow> physical_path option option" where
  "active_find_path a = find_path (active_path_view a)"

subsection \<open>The binary search\<close>

lemma search_strings_spec:
  assumes "sorted a" and "i \<le> j" and "j \<le> length a"
    and "\<forall>k<i. a ! k < x" and "\<forall>k. j \<le> k \<longrightarrow> k < length a \<longrightarrow> x \<le> a ! k"
  shows "search_strings a x i j \<le> length a \<and> (\<forall>k. k < search_strings a x i j \<longrightarrow> a ! k < x) \<and>
    (\<forall>k. search_strings a x i j \<le> k \<longrightarrow> k < length a \<longrightarrow> x \<le> a ! k)"
  using assms
proof (induction a x i j rule: search_strings.induct)
  case (1 a x i j)
  show ?case
  proof (cases "i < j")
    case False
    then show ?thesis using 1(3-7) by (subst (1 2 3) search_strings.simps) auto
  next
    case True
    define h where "h = (i + j) div 2"
    have h: "i \<le> h" "h < j" using True by (auto simp: h_def)
    show ?thesis
    proof (cases "a ! h < x")
      case low: True
      have eq: "search_strings a x i j = search_strings a x (h + 1) j"
        using True low by (subst search_strings.simps) (simp add: h_def Let_def)
      have "a ! k < x" if "k < h + 1" for k
        using sorted_nth_mono [OF 1(3), of k h] that low h(2) 1(5) by simp
      moreover have "h + 1 \<le> j" using h(2) by simp
      ultimately show ?thesis unfolding eq using 1(3,5,7) by (intro 1(1) [OF True h_def low]) blast+
    next
      case high: False
      have eq: "search_strings a x i j = search_strings a x i h"
        using True high by (subst search_strings.simps) (simp add: h_def Let_def)
      have "\<forall>k. h \<le> k \<longrightarrow> k < length a \<longrightarrow> x \<le> a ! k"
        using sorted_nth_mono [OF 1(3), of h] high by (meson linorder_not_less order_trans)
      moreover have "h \<le> length a" using h(2) 1(5) by simp
      ultimately show ?thesis unfolding eq using h(1) 1(3,6) by (intro 1(2) [OF True h_def high])
    qed
  qed
qed

lemma search_strings_member:
  assumes "sorted a"
  shows "(search_strings a x 0 (length a) < length a \<and> a ! search_strings a x 0 (length a) = x) \<longleftrightarrow> x \<in> set a"
proof -
  let ?i = "search_strings a x 0 (length a)"
  note spec = search_strings_spec [OF assms, of 0 "length a" x, simplified]
  show ?thesis
  proof
    assume "x \<in> set a"
    then obtain k where k: "k < length a" "a ! k = x" by (auto simp: in_set_conv_nth)
    have "?i \<le> k" using spec k by (meson linorder_not_less order_less_irrefl)
    then have "?i < length a" "x \<le> a ! ?i" "a ! ?i \<le> x"
      using spec k sorted_nth_mono [OF assms, of ?i k] by auto
    then show "?i < length a \<and> a ! ?i = x" by simp
  qed (auto simp: in_set_conv_nth)
qed

lemma turnout_connection_confirmed_iff:
  "sorted (te_position_ids e) \<Longrightarrow> turnout_connection_confirmed e t \<longleftrightarrow>
     \<not> t_pending t \<and> t_reported_status t = ReportKnown \<and> t_reported_position t \<noteq> [] \<and>
     t_reported_position t \<in> set (te_position_ids e)"
  using search_strings_member [of "te_position_ids e" "t_reported_position t"]
  by (auto simp: turnout_connection_confirmed_def Let_def)

subsection \<open>What the view contains\<close>

text \<open>The position a turnout is confirmed to be in.\<close>

definition confirmed_position :: "(string, turnout) gomap \<Rightarrow> string \<Rightarrow> string option" where
  "confirmed_position turnouts i =
     (case map_of turnouts i of
        None \<Rightarrow> None
      | Some t \<Rightarrow>
          (if \<not> t_pending t \<and> t_reported_status t = ReportKnown \<and> t_reported_position t \<noteq> []
           then Some (t_reported_position t) else None))"

definition reported :: "(string, turnout) gomap \<Rightarrow> string \<Rightarrow> string" where
  "reported turnouts i = (case confirmed_position turnouts i of None \<Rightarrow> [] | Some p \<Rightarrow> p)"

lemma activate_edge_Some:
  assumes "te_kind e = EdgeTurnout \<longrightarrow> sorted (te_position_ids e)"
  shows "(\<exists>a. activate_edge turnouts e = Some a) \<longleftrightarrow>
     (te_kind e = EdgeTurnout \<longrightarrow> (\<exists>p. confirmed_position turnouts (te_turnout_id e) = Some p \<and> p \<in> set (te_position_ids e)))"
  using assms by (auto simp: activate_edge_def confirmed_position_def turnout_connection_confirmed_iff split: option.splits)

lemma activate_edge_fields:
  "activate_edge turnouts e = Some a \<Longrightarrow> (te_kind e = EdgeTurnout \<longrightarrow> sorted (te_position_ids e)) \<Longrightarrow>
     ae_edge a = e \<and> ae_reported_position a = (if te_kind e = EdgeTurnout then reported turnouts (te_turnout_id e) else [])"
  by (auto simp: activate_edge_def reported_def confirmed_position_def turnout_connection_confirmed_iff
      split: if_splits option.splits)

definition sorted_edges :: "graph \<Rightarrow> bool" where
  "sorted_edges g \<longleftrightarrow> (\<forall>e\<in>set (gr_edges g). te_kind e \<in> {EdgeTrackSection, EdgeTurnout} \<and>
     (te_kind e = EdgeTurnout \<longrightarrow> sorted (te_position_ids e) \<and> te_position_ids e \<noteq> []))"

lemma map_edge_at_field:
  "map (edge_at z es) (map fst (filter (P \<circ> snd) (enumerate 0 (map f es)))) = filter (P \<circ> f) es"
proof -
  have "filter (P \<circ> snd) (enumerate 0 (map f es)) =
      map (\<lambda>(i, a). (i, f a)) (filter ((P \<circ> f) \<circ> snd) (enumerate 0 es))"
    by (simp add: filter_map comp_def case_prod_beta enumerate_eq_zip zip_map2)
  then show ?thesis using map_edge_at [of z es "P \<circ> f"] by (simp add: comp_def case_prod_beta)
qed

lemma active_incident_filter:
  "active_incident_edges (active_view g turnouts) n =
     filter (edge_touches n \<circ> ae_edge) (act_edges (active_view g turnouts))"
proof -
  let ?z = "\<lparr> ae_edge = zero_edge, ae_reported_position = [], ae_quality = NoQuality \<rparr>"
  have "active_incident_edges (active_view g turnouts) n =
      map (edge_at ?z (act_edges (active_view g turnouts))) (gm_get [] (act_incident (active_view g turnouts)) n)"
    by (simp add: active_incident_edges_def gm_get_def split: option.splits)
  also have "gm_get [] (act_incident (active_view g turnouts)) n =
      map fst (filter (edge_touches n \<circ> snd) (enumerate 0 (map ae_edge (act_edges (active_view g turnouts)))))"
    by (simp add: active_view_def Let_def build_incident_get)
  finally show ?thesis unfolding map_edge_at_field .
qed

lemma active_view_incident:
  "view_incident (active_path_view (active_view g turnouts)) n =
     map active_path_edge (active_incident_edges (active_view g turnouts) n)"
proof -
  have "edge_at zero_path_edge (map active_path_edge es) i =
      active_path_edge (edge_at \<lparr> ae_edge = zero_edge, ae_reported_position = [], ae_quality = NoQuality \<rparr> es i)" for es i
    by (simp add: edge_at_def active_path_edge_def)
  then show ?thesis
    by (simp add: view_incident_def active_path_view_def active_incident_edges_def gm_get_def split: option.splits)
qed

lemma active_incident_path:
  "cand \<in> set (view_incident (active_path_view (active_view g turnouts)) n) \<longleftrightarrow>
     (\<exists>e a. e \<in> set (gr_edges g) \<and> edge_touches n (ae_edge a) \<and> activate_edge turnouts e = Some a \<and> cand = active_path_edge a)"
  unfolding active_view_incident active_incident_filter by (auto simp: active_view_def Let_def in_map_filter)

text \<open>The components of the view, again the classes of mutual reachability.\<close>

lemma active_components_partition:
  assumes "edge_ends (ae_edge ` set (act_edges (active_view g turnouts))) \<subseteq> set (gr_node_ids g)"
  shows "\<exists>cs. active_connected_components (active_view g turnouts) = Some cs \<and> distinct (concat cs) \<and>
     set (concat cs) = set (gr_node_ids g) \<and>
     (\<forall>c\<in>set cs. sorted c \<and> c \<noteq> [] \<and>
        (\<forall>s\<in>set c. set c = (edge_links (ae_edge ` set (act_edges (active_view g turnouts))))\<^sup>* `` {s}))"
proof -
  let ?es = "map ae_edge (act_edges (active_view g turnouts))" and ?ids = "gr_node_ids g"
  have adj: "(\<lambda>n. map (edge_next n \<circ> ae_edge) (active_incident_edges (active_view g turnouts) n)) = touching_nodes ?es"
    by (simp add: fun_eq_iff active_incident_filter touching_nodes_def filter_map)
  have st: "act_static (active_view g turnouts) = g" by (simp add: active_view_def Let_def)
  have "edge_links (set ?es) `` set ?ids \<subseteq> set ?ids" using assms by (auto simp: edge_links_def edge_ends_def)
  then have "(edge_links (set ?es))\<^sup>* `` set ?ids = set ?ids" by (rule Image_closed_trancl)
  then show ?thesis
    using tracks.collect_components_correct [of ?ids ?ids ?es "[]"]
    unfolding active_connected_components_def adj touching_nodes_links st by simp
qed

subsection \<open>Paths the confirmed positions open\<close>

lemma active_candidate:
  assumes "sorted_edges g" and "cand \<in> set (view_incident (active_path_view (active_view g turnouts)) n)"
  shows "pe_edge cand \<in> set (gr_edges g) \<and> edge_touches n (pe_edge cand) \<and>
    (te_kind (pe_edge cand) = EdgeTurnout \<longrightarrow>
       confirmed_position turnouts (te_turnout_id (pe_edge cand)) = Some (pe_active_position cand) \<and>
       pe_active_position cand \<noteq> [] \<and> pe_active_position cand \<in> set (te_position_ids (pe_edge cand)))"
proof -
  obtain e a where e: "e \<in> set (gr_edges g)" "edge_touches n (ae_edge a)" "activate_edge turnouts e = Some a"
      "cand = active_path_edge a"
    using assms(2) unfolding active_incident_path by blast
  have srt: "te_kind e = EdgeTurnout \<longrightarrow> sorted (te_position_ids e)" using assms(1) e(1) by (simp add: sorted_edges_def)
  have "ae_edge a = e" using activate_edge_fields [OF e(3) srt] by simp
  then show ?thesis using e srt activate_edge_fields [OF e(3) srt]
    by (auto simp: active_path_edge_def activate_edge_def turnout_connection_confirmed_iff confirmed_position_def
        reported_def split: if_splits option.splits)
qed

lemma step_turnouts_Cons:
  "step_turnouts ((a, cand, b) # steps) =
     (if te_kind (pe_edge cand) = EdgeTurnout then {te_turnout_id (pe_edge cand)} else {}) \<union> step_turnouts steps"
  by (auto simp: step_turnouts_def)

lemma active_view_ok: "sorted_edges g \<Longrightarrow> view_ok (active_path_view (active_view g turnouts))"
  unfolding view_ok_def using active_candidate by (metis sorted_edges_def)

definition static_edge :: "path_edge \<Rightarrow> path_edge" where
  "static_edge cand = \<lparr> pe_edge = pe_edge cand, pe_active_position = [], pe_quality = NoQuality \<rparr>"

definition static_steps :: "path_step list \<Rightarrow> path_step list" where
  "static_steps = map (\<lambda>(a, cand, b). (a, static_edge cand, b))"

text \<open>The settings that open a way in the view are those that agree with the confirmed positions.\<close>

lemma active_walk_static:
  assumes "sorted_edges g" and "incident_built g"
  shows "physical_walk (active_path_view (active_view g turnouts)) c \<sigma> n steps m \<Longrightarrow>
     physical_walk (graph_view g) c (reported turnouts) n (static_steps steps) m \<and>
     (\<forall>t\<in>step_turnouts steps. confirmed_position turnouts t \<noteq> None)"
proof (induction steps arbitrary: n)
  case Nil
  then show ?case by (simp add: static_steps_def step_turnouts_def)
next
  case (Cons step steps)
  obtain a cand b where step: "step = (a, cand, b)" by (cases step)
  let ?v = "active_path_view (active_view g turnouts)"
  have w: "a = n" "cand \<in> set (view_incident ?v n)" "\<not> edge_excluded g (pe_edge cand) c"
      "edge_other (pe_edge cand) n = Some b" "setting_allows c \<sigma> cand" "physical_walk ?v c \<sigma> b steps m"
    using Cons.prems step by (auto simp: active_path_view_def active_view_def Let_def)
  note cand = active_candidate [OF assms(1) w(2)]
  have "static_edge cand \<in> set (view_incident (graph_view g) n)"
    using cand unfolding graph_view_incident [OF assms(2)] incident_edges_filter [OF assms(2)]
    by (auto simp: static_edge_def)
  moreover have "setting_allows c (reported turnouts) (static_edge cand)"
    using cand w(5) by (auto simp: setting_allows_def Let_def static_edge_def edge_allows_def reported_def)
  moreover have "te_kind (pe_edge cand) = EdgeTurnout \<longrightarrow> confirmed_position turnouts (te_turnout_id (pe_edge cand)) \<noteq> None"
    using cand by simp
  moreover have "pe_edge (static_edge cand) = pe_edge cand" "pv_static (graph_view g) = g"
    by (simp_all add: static_edge_def graph_view_def)
  ultimately show ?case using Cons.IH [OF w(6)] w unfolding step step_turnouts_Cons
    by (simp add: static_steps_def)
qed

lemma static_walk_active:
  assumes "sorted_edges g" and "incident_built g"
  shows "physical_walk (graph_view g) c (reported turnouts) n steps m \<Longrightarrow>
     \<forall>t\<in>step_turnouts steps. confirmed_position turnouts t \<noteq> None \<Longrightarrow>
     \<exists>steps'. length steps' = length steps \<and>
       physical_walk (active_path_view (active_view g turnouts)) c (reported turnouts) n steps' m"
proof (induction steps arbitrary: n)
  case Nil
  then show ?case by simp
next
  case (Cons step steps)
  obtain x cand b where step: "step = (x, cand, b)" by (cases step)
  let ?v = "active_path_view (active_view g turnouts)" and ?e = "pe_edge cand"
  have w: "x = n" "cand \<in> set (view_incident (graph_view g) n)" "\<not> edge_excluded g ?e c"
      "edge_other ?e n = Some b" "setting_allows c (reported turnouts) cand" "physical_walk (graph_view g) c (reported turnouts) b steps m"
    using Cons.prems(1) step by (auto simp: graph_view_def)
  have rest: "\<forall>t\<in>step_turnouts steps. confirmed_position turnouts t \<noteq> None"
    using Cons.prems(2) by (simp add: step step_turnouts_Cons)
  have here: "te_kind ?e = EdgeTurnout \<longrightarrow> (\<exists>p. confirmed_position turnouts (te_turnout_id ?e) = Some p)"
    using Cons.prems(2) by (simp add: step step_turnouts_Cons)
  have e: "?e \<in> set (gr_edges g)" "edge_touches n ?e" "pe_active_position cand = []"
    using w(2) unfolding graph_view_incident [OF assms(2)] incident_edges_filter [OF assms(2)] by auto
  have srt: "te_kind ?e = EdgeTurnout \<longrightarrow> sorted (te_position_ids ?e)" using assms(1) e(1) by (simp add: sorted_edges_def)
  have "te_kind ?e = EdgeTurnout \<longrightarrow> (\<exists>p. confirmed_position turnouts (te_turnout_id ?e) = Some p \<and> p \<in> set (te_position_ids ?e))"
    using here w(5) e(3) by (auto simp: setting_allows_def Let_def edge_allows_def reported_def)
  then obtain a where a: "activate_edge turnouts ?e = Some a" using activate_edge_Some [OF srt] by blast
  note fields = activate_edge_fields [OF a srt]
  have inc: "active_path_edge a \<in> set (view_incident ?v n)"
    unfolding active_incident_path using e a fields by auto
  have "setting_allows c (reported turnouts) (active_path_edge a)"
    using w(5) fields active_candidate [OF assms(1) inc] e(3)
    by (auto simp: setting_allows_def Let_def active_path_edge_def edge_allows_def)
  moreover obtain steps' where "length steps' = length steps" "physical_walk ?v c (reported turnouts) b steps' m"
    using Cons.IH [OF w(6) rest] by blast
  ultimately show ?case using inc w fields
    by (intro exI [of _ "(n, active_path_edge a, b) # steps'"])
       (simp add: step active_path_edge_def active_path_view_def active_view_def Let_def)
qed

lemma active_walk_confirmed:
  assumes "sorted_edges g"
  shows "physical_walk (active_path_view (active_view g turnouts)) c \<sigma> n steps m \<Longrightarrow>
     (\<forall>t\<in>step_turnouts steps. confirmed_position turnouts t = Some (\<sigma> t)) \<and>
     (\<forall>(a, cand, b)\<in>set steps. te_kind (pe_edge cand) \<in> {EdgeTrackSection, EdgeTurnout})"
proof (induction steps arbitrary: n)
  case Nil
  then show ?case by (simp add: step_turnouts_def)
next
  case (Cons step steps)
  obtain a cand b where step: "step = (a, cand, b)" by (cases step)
  let ?v = "active_path_view (active_view g turnouts)"
  have w: "cand \<in> set (view_incident ?v n)" "setting_allows c \<sigma> cand" "physical_walk ?v c \<sigma> b steps m"
    using Cons.prems step by auto
  note cand = active_candidate [OF assms w(1)]
  have "te_kind (pe_edge cand) \<in> {EdgeTrackSection, EdgeTurnout}" using cand assms unfolding sorted_edges_def by blast
  moreover have "te_kind (pe_edge cand) = EdgeTurnout \<longrightarrow>
      confirmed_position turnouts (te_turnout_id (pe_edge cand)) = Some (\<sigma> (te_turnout_id (pe_edge cand)))"
    using cand w(2) by (auto simp: setting_allows_def Let_def edge_allows_def)
  ultimately show ?case using Cons.IH [OF w(3)] unfolding step step_turnouts_Cons by simp
qed

lemma active_path_confirmed:
  assumes g: "sorted_edges g" and p: "path_correct (active_path_view (active_view g turnouts)) c from to p"
    and tr: "TurnoutTraversal tr \<in> set (pp_traversals p)"
  shows "confirmed_position turnouts (tr_turnout_id tr) = Some (tr_required_position_id tr)"
    and "tr_required_position_id tr \<in> set (tr_possible_position_ids tr)"
proof -
  let ?v = "active_path_view (active_view g turnouts)"
  obtain steps rs where s: "pp_traversals p = map (traversal_from_step rs) steps"
      "\<And>\<sigma>. opens_path \<sigma> p \<longleftrightarrow> physical_walk ?v c \<sigma> from steps to"
    using p unfolding path_correct_def by blast
  obtain \<sigma>0 where "opens_path \<sigma>0 p" using p unfolding path_correct_def by blast
  then have kinds: "\<forall>(a, cand, b)\<in>set steps. te_kind (pe_edge cand) \<in> {EdgeTrackSection, EdgeTurnout}"
    using s(2) active_walk_confirmed [OF g] by blast
  let ?\<sigma> = "\<lambda>t. case gm_get [] rs t of [] \<Rightarrow> [] | q # _ \<Rightarrow> q"
  have req: "tr_required_position_id x = ?\<sigma> (tr_turnout_id x) \<and> tr_required_position_id x \<in> set (tr_possible_position_ids x) \<and>
      tr_turnout_id x \<in> step_turnouts steps"
    if "TurnoutTraversal x \<in> set (pp_traversals p)" for x
    using traversal_turnout [of x rs steps] that kinds p unfolding s(1) path_correct_def by auto
  then have "opens_path ?\<sigma> p" unfolding opens_path_def by metis
  then have "\<forall>t\<in>step_turnouts steps. confirmed_position turnouts t = Some (?\<sigma> t)"
    using s(2) active_walk_confirmed [OF g] by blast
  then show "confirmed_position turnouts (tr_turnout_id tr) = Some (tr_required_position_id tr)"
    "tr_required_position_id tr \<in> set (tr_possible_position_ids tr)" using req [OF tr] by auto
qed

lemma built_sorted_edges: "layout_accepted l \<Longrightarrow> sorted_edges (built_graph l)"
  unfolding sorted_edges_def using built_edges [of l] layout_edge_ok [of _ l] by blast

text \<open>
  C23: The search on the active view always returns. A path it returns asks of every turnout
  on it exactly the position the turnout is confirmed to be in, so the present state of the
  railway opens it, and no way that the confirmed positions open is shorter; if it returns
  none, the confirmed positions open no way at all.
\<close>

theorem active_find_path_correct:
  assumes built: "build l = Some (Inr g)" and nodes: "{from, to} \<subseteq> node_ids l"
  shows "\<exists>r. active_find_path (active_view g turnouts) from to c = Some r \<and>
    (case r of
       Some p \<Rightarrow>
         (\<forall>tr. TurnoutTraversal tr \<in> set (pp_traversals p) \<longrightarrow>
            confirmed_position turnouts (tr_turnout_id tr) = Some (tr_required_position_id tr)) \<and>
         opens_path (reported turnouts) p \<and>
         (\<exists>steps. physical_walk (graph_view g) c (reported turnouts) from steps to \<and> length steps = pp_cost p) \<and>
         (\<forall>steps. physical_walk (graph_view g) c (reported turnouts) from steps to \<longrightarrow>
            (\<forall>t\<in>step_turnouts steps. confirmed_position turnouts t \<noteq> None) \<longrightarrow> pp_cost p \<le> length steps)
     | None \<Rightarrow>
         \<not> (\<exists>steps. physical_walk (graph_view g) c (reported turnouts) from steps to \<and>
              (\<forall>t\<in>step_turnouts steps. confirmed_position turnouts t \<noteq> None)))"
proof -
  have ok: "layout_accepted l" and g: "g = built_graph l" using built by (simp_all add: build_Inr)
  have se: "sorted_edges g" and inc: "incident_built g" using built_sorted_edges [OF ok] built_incident by (simp_all add: g)
  let ?v = "active_path_view (active_view g turnouts)"
  have ex: "node_exists ?v n \<longleftrightarrow> n \<in> node_ids l" for n
    using graph_view_nodes [of l n] by (simp add: g node_exists_def active_path_view_def active_view_def Let_def graph_view_def)
  obtain r where r: "find_path ?v from to c = Some r" "case r of Some p \<Rightarrow> path_correct ?v c from to p
      | None \<Rightarrow> \<forall>\<sigma> steps. \<not> physical_walk ?v c \<sigma> from steps to"
    using find_path_correct [OF active_view_ok [OF se], of turnouts "from" to c] nodes unfolding ex
    by (auto split: option.splits)
  show ?thesis
  proof (cases r)
    case None
    then have "\<not> physical_walk ?v c \<sigma> from steps to" for \<sigma> steps using r(2) by simp
    then have "\<not> (\<exists>steps. physical_walk (graph_view g) c (reported turnouts) from steps to \<and>
        (\<forall>t\<in>step_turnouts steps. confirmed_position turnouts t \<noteq> None))"
      using static_walk_active [OF se inc] by blast
    then show ?thesis using None r(1) by (simp add: active_find_path_def)
  next
    case (Some p)
    then have p: "path_correct ?v c from to p" using r(2) by simp
    note conf = active_path_confirmed [OF se p]
    have "opens_path (reported turnouts) p" unfolding opens_path_def using conf by (auto simp: reported_def)
    moreover obtain steps where "physical_walk (graph_view g) c (reported turnouts) from steps to" "length steps = pp_cost p"
    proof -
      obtain steps rs \<sigma> where "pp_traversals p = map (traversal_from_step rs) steps"
          "physical_walk ?v c \<sigma> from steps to" "pp_cost p = length (pp_traversals p)"
        using p unfolding path_correct_def by blast
      then show ?thesis using active_walk_static [OF se inc] that [of "static_steps steps"] by (simp add: static_steps_def)
    qed
    moreover have "pp_cost p \<le> length steps" if "physical_walk (graph_view g) c (reported turnouts) from steps to"
        "\<forall>t\<in>step_turnouts steps. confirmed_position turnouts t \<noteq> None" for steps
      using static_walk_active [OF se inc that] p unfolding path_correct_def by metis
    ultimately show ?thesis using Some r(1) conf(1) unfolding active_find_path_def by auto
  qed
qed

lemma active_find_path_correct_witness:
  "\<exists>g p. build example_layout = Some (Inr g) \<and>
     active_find_path (active_view g (turnouts_by_id (map (\<lambda>t. t\<lparr> t_reported_status := ReportKnown \<rparr>) (ld_turnouts example_layout))))
       ''a'' ''e'' no_constraints = Some (Some p) \<and>
     opens_path (reported (turnouts_by_id (map (\<lambda>t. t\<lparr> t_reported_status := ReportKnown \<rparr>) (ld_turnouts example_layout)))) p"
proof -
  let ?ts = "turnouts_by_id (map (\<lambda>t. t\<lparr> t_reported_status := ReportKnown \<rparr>) (ld_turnouts example_layout))"
  have "case build example_layout of
      Some (Inr g) \<Rightarrow> (case active_find_path (active_view g ?ts) ''a'' ''e'' no_constraints of Some (Some p) \<Rightarrow> True | _ \<Rightarrow> False)
    | _ \<Rightarrow> False" by code_simp
  then obtain g p where g: "build example_layout = Some (Inr g)"
      "active_find_path (active_view g ?ts) ''a'' ''e'' no_constraints = Some (Some p)"
    by (auto split: option.splits sum.splits)
  have "{''a'', ''e''} \<subseteq> node_ids example_layout" by code_simp
  from active_find_path_correct [OF g(1) this, of ?ts no_constraints] show ?thesis using g by auto
qed

end
