(* ===== verification/RouteCheck.thy ===== *)
theory RouteCheck
  imports TrackPathFacts
begin

text \<open>
  The check of route definitions against the track graph, \<^verbatim>\<open>internal/topology/routes.go\<close>: for
  every route with an entry and an exit a physical path is searched, first along the declared
  turnouts in their declared positions, and what the path needs is compared with what the
  route declares. The theory models the check with its issues and messages, and shows that a
  route without errors can be travelled with the turnouts it declares through the blocks it
  declares.
\<close>

subsection \<open>Issues\<close>

datatype validation_severity = SeverityError | SeverityWarning

record validation_issue =
  vi_severity :: validation_severity
  vi_code :: string
  vi_message :: string
  vi_resource_id :: string

definition route_issue :: "validation_severity \<Rightarrow> string \<Rightarrow> string \<Rightarrow> string \<Rightarrow> validation_issue" where
  "route_issue severity code res message =
     \<lparr> vi_severity = severity, vi_code = code, vi_message = message, vi_resource_id = res \<rparr>"

definition route_validation_errors :: "validation_issue list \<Rightarrow> validation_issue list" where
  "route_validation_errors is = filter (\<lambda>i. vi_severity i = SeverityError) is"

text \<open>The closure \<^verbatim>\<open>add\<close>: an issue with the same code and resource is recorded once.\<close>

type_synonym issue_log = "validation_issue list \<times> string list"

definition add_issue :: "validation_issue \<Rightarrow> issue_log \<Rightarrow> issue_log" where
  "add_issue i log =
     (case log of (issues, seen) \<Rightarrow>
        let key = vi_code i @ [CHR 0x00] @ vi_resource_id i
        in if key \<in> set seen then log else (issues @ [i], key # seen))"

definition issue_less :: "validation_issue \<Rightarrow> validation_issue \<Rightarrow> bool" where
  "issue_less a b =
     (if vi_severity a \<noteq> vi_severity b then vi_severity a = SeverityError
      else if vi_code a \<noteq> vi_code b then vi_code a < vi_code b
      else if vi_resource_id a \<noteq> vi_resource_id b then vi_resource_id a < vi_resource_id b
      else vi_message a < vi_message b)"

definition sort_validation_issues :: "validation_issue list \<Rightarrow> validation_issue list" where
  "sort_validation_issues is = sort_slice issue_less is"

fun join_strings :: "string \<Rightarrow> string list \<Rightarrow> string" where
  "join_strings sep [] = []"
| "join_strings sep [s] = s"
| "join_strings sep (s # t # ss) = s @ sep @ join_strings sep (t # ss)"

subsection \<open>One route\<close>

definition check_declared_turnout ::
  "graph \<Rightarrow> route_definition \<Rightarrow> (string, turnout) gomap \<Rightarrow> string \<times> string \<Rightarrow>
   issue_log \<times> (string, string) gomap \<Rightarrow> issue_log \<times> (string, string) gomap" where
  "check_declared_turnout g r turnouts tp st =
     (case (tp, st) of ((t, pos), (log, required)) \<Rightarrow>
        (case map_of turnouts t of
           None \<Rightarrow>
             (add_issue (route_issue SeverityError ''route_missing_turnout_position'' t
                (''route '' @ quote (rd_id r) @ '' references unknown turnout '' @ quote t)) log, required)
         | Some turnout \<Rightarrow>
             (if turnout_position turnout pos = None
              then (add_issue (route_issue SeverityError ''route_missing_turnout_position'' t
                     (''route '' @ quote (rd_id r) @ '' requests unknown position '' @ quote pos @
                      '' on turnout '' @ quote t)) log, required)
              else if gm_has (gr_turnout_topologies g) t then (log, gm_put t pos required)
              else (log, required))))"

definition search_route ::
  "graph \<Rightarrow> route_definition \<Rightarrow> (string, string) gomap \<Rightarrow> physical_path option option" where
  "search_route g r required =
     (let excluded = filter (\<lambda>t. \<not> gm_has (rd_turnout_states r) t) (gr_turnout_ids g);
          search = (\<lambda>ex req. graph_find_path g (rd_entry_node_id r) (rd_exit_node_id r)
             \<lparr> pcs_excluded_track_sections = [], pcs_excluded_turnouts = ex, pcs_excluded_blocks = [],
               pcs_required_turnout_positions = req \<rparr>)
      in case search excluded required of
           Some None \<Rightarrow>
             (case search [] required of
                Some None \<Rightarrow> search [] []
              | other \<Rightarrow> other)
         | other \<Rightarrow> other)"

text \<open>The loop over the traversals; the sets of turnouts and blocks are lists of their members.\<close>

definition check_traversal ::
  "graph \<Rightarrow> route_definition \<Rightarrow> traversal \<Rightarrow> issue_log \<times> string list \<times> string list \<Rightarrow>
   issue_log \<times> string list \<times> string list" where
  "check_traversal g r tr st =
     (case st of (log, turnouts, blocks) \<Rightarrow>
        (case tr of
           SectionTraversal s \<Rightarrow>
             (case block_for_track_section g (st_track_section_id s) of
                None \<Rightarrow> st
              | Some b \<Rightarrow> (log, turnouts, bd_id b # blocks))
         | TurnoutTraversal t \<Rightarrow>
             (let i = tr_turnout_id t;
                  declared = map_of (rd_turnout_states r) i;
                  detail = (case declared of None \<Rightarrow> ''is not declared''
                            | Some d \<Rightarrow> ''is declared as '' @ quote d);
                  bad = (case declared of None \<Rightarrow> True | Some d \<Rightarrow> d \<notin> set (tr_possible_position_ids t));
                  log' = (if bad
                     then add_issue (route_issue SeverityError ''route_missing_turnout_position'' i
                       (''route '' @ quote (rd_id r) @ '' requires turnout '' @ quote i @ '' in one of ['' @
                        join_strings '', '' (tr_possible_position_ids t) @ ''], but it '' @ detail)) log
                     else log)
              in (log', i # turnouts,
                  (case block_for_turnout g i of None \<Rightarrow> blocks | Some b \<Rightarrow> bd_id b # blocks)))))"

definition declaration_issues ::
  "route_definition \<Rightarrow> string list \<Rightarrow> string list \<Rightarrow> issue_log \<Rightarrow> issue_log" where
  "declaration_issues r turnouts blocks log =
     (let missing = filter (\<lambda>b. b \<notin> set (rd_block_ids r)) (str_set blocks);
          extra = filter (\<lambda>b. b \<notin> set blocks) (str_set (rd_block_ids r));
          idle = filter (\<lambda>t. t \<notin> set turnouts) (map fst (rd_turnout_states r));
          log1 = fold (\<lambda>b. add_issue (route_issue SeverityError ''route_missing_block'' b
                   (''route '' @ quote (rd_id r) @ '' traverses block '' @ quote b @ '' without declaring it''))) missing log;
          log2 = fold (\<lambda>b. add_issue (route_issue SeverityWarning ''route_extra_block'' b
                   (''route '' @ quote (rd_id r) @ '' declares non-traversed block '' @ quote b @
                    '' as additional protection''))) extra log1
      in fold (\<lambda>t. add_issue (route_issue SeverityWarning ''route_extra_turnout'' t
                   (''route '' @ quote (rd_id r) @ '' declares non-traversed turnout '' @ quote t @
                    '' as additional protection''))) idle log2)"

definition node_issues :: "graph \<Rightarrow> route_definition \<Rightarrow> issue_log" where
  "node_issues g r =
     (let log = (if graph_node g (rd_entry_node_id r) = None
                 then add_issue (route_issue SeverityError ''route_no_path'' (rd_entry_node_id r)
                   (''route '' @ quote (rd_id r) @ '' references unknown entry node '' @ quote (rd_entry_node_id r))) ([], [])
                 else ([], []))
      in if graph_node g (rd_exit_node_id r) = None
         then add_issue (route_issue SeverityError ''route_no_path'' (rd_exit_node_id r)
           (''route '' @ quote (rd_id r) @ '' references unknown exit node '' @ quote (rd_exit_node_id r))) log
         else log)"

text \<open>The path when one was found, and the issues; the outer option stands for termination.\<close>

definition validate_route_definition ::
  "graph \<Rightarrow> route_definition \<Rightarrow> (string, turnout) gomap \<Rightarrow> (physical_path option \<times> validation_issue list) option" where
  "validate_route_definition g r turnouts =
     (if rd_entry_node_id r = [] \<or> rd_exit_node_id r = []
      then Some (None, [route_issue SeverityError ''route_no_path'' (rd_id r)
             (''route '' @ quote (rd_id r) @ '' requires both entryNodeId and exitNodeId'')])
      else if fst (node_issues g r) \<noteq> [] then Some (None, fst (node_issues g r))
      else
        let (log, required) = fold (check_declared_turnout g r turnouts) (rd_turnout_states r) (node_issues g r, [])
        in case search_route g r required of
             None \<Rightarrow> None
           | Some None \<Rightarrow>
               Some (None, fst (add_issue (route_issue SeverityError ''route_no_path'' (rd_id r)
                 (''route '' @ quote (rd_id r) @ '' has no physical path from '' @ quote (rd_entry_node_id r) @
                  '' to '' @ quote (rd_exit_node_id r))) log))
           | Some (Some path) \<Rightarrow>
               (case fold (check_traversal g r) (pp_traversals path) (log, [], []) of
                  (log', used, blocks) \<Rightarrow> Some (Some path, fst (declaration_issues r used blocks log'))))"

subsection \<open>All routes\<close>

definition resources_from_path :: "graph \<Rightarrow> physical_path \<Rightarrow> string list" where
  "resources_from_path g p =
     concat (map (\<lambda>tr. case tr of
         SectionTraversal s \<Rightarrow>
           (''section:'' @ st_track_section_id s) #
             (case block_for_track_section g (st_track_section_id s) of None \<Rightarrow> [] | Some b \<Rightarrow> [''block:'' @ bd_id b])
       | TurnoutTraversal t \<Rightarrow>
           (''turnout:'' @ tr_turnout_id t) #
             (case block_for_turnout g (tr_turnout_id t) of None \<Rightarrow> [] | Some b \<Rightarrow> [''block:'' @ bd_id b]))
       (pp_traversals p))"

definition resource_sets_overlap :: "string list \<Rightarrow> string list \<Rightarrow> bool" where
  "resource_sets_overlap a b = list_ex (\<lambda>r. r \<in> set b) a"

definition undeclared_conflict :: "route_definition \<Rightarrow> route_definition \<Rightarrow> validation_issue list" where
  "undeclared_conflict a b =
     (if rd_id b \<notin> set (rd_conflict_route_ids a)
      then [route_issue SeverityWarning ''route_possible_undeclared_conflict'' (rd_id a)
             (''route '' @ quote (rd_id a) @ '' shares physical resources with route '' @ quote (rd_id b) @
              '' but does not declare it as a conflict'')]
      else [])"

fun undeclared_conflict_issues :: "(route_definition \<times> string list) list \<Rightarrow> validation_issue list" where
  "undeclared_conflict_issues [] = []"
| "undeclared_conflict_issues ((r, res) # rs) =
     concat (map (\<lambda>(r', res'). if resource_sets_overlap res res' then undeclared_conflict r r' @ undeclared_conflict r' r else []) rs)
     @ undeclared_conflict_issues rs"

fun validate_routes ::
  "graph \<Rightarrow> (string, turnout) gomap \<Rightarrow> route_definition list \<Rightarrow> validation_issue list \<Rightarrow>
   (route_definition \<times> string list) list \<Rightarrow> (validation_issue list \<times> (route_definition \<times> string list) list) option" where
  "validate_routes g turnouts [] issues validated = Some (issues, validated)"
| "validate_routes g turnouts (r # rs) issues validated =
     (if rd_entry_node_id r = [] \<and> rd_exit_node_id r = [] then validate_routes g turnouts rs issues validated
      else case validate_route_definition g r turnouts of
             None \<Rightarrow> None
           | Some (None, is) \<Rightarrow> validate_routes g turnouts rs (issues @ is) validated
           | Some (Some path, is) \<Rightarrow>
               validate_routes g turnouts rs (issues @ is) (validated @ [(r, resources_from_path g path)]))"

definition validate_route_definitions ::
  "graph \<Rightarrow> route_definition list \<Rightarrow> turnout list \<Rightarrow> validation_issue list option" where
  "validate_route_definitions g definitions turnouts =
     map_option (\<lambda>(issues, validated). sort_validation_issues (issues @ undeclared_conflict_issues validated))
       (validate_routes g (turnouts_by_id turnouts) (sort_key rd_id definitions) [] [])"

subsection \<open>The issue log\<close>

definition error_codes :: "string list" where
  "error_codes = [''route_no_path'', ''route_missing_block'', ''route_missing_turnout_position'']"

text \<open>The code of an issue determines its severity.\<close>

definition issue_known :: "validation_issue \<Rightarrow> bool" where
  "issue_known i \<longleftrightarrow> CHR 0x00 \<notin> set (vi_code i) \<and> (vi_severity i = SeverityError \<longleftrightarrow> vi_code i \<in> set error_codes)"

definition has_error :: "issue_log \<Rightarrow> bool" where
  "has_error log \<longleftrightarrow> (\<exists>i\<in>set (fst log). vi_severity i = SeverityError)"

definition log_ok :: "issue_log \<Rightarrow> bool" where
  "log_ok log \<longleftrightarrow> (\<forall>i\<in>set (fst log). issue_known i) \<and>
     (\<forall>k\<in>set (snd log). \<exists>i\<in>set (fst log). k = vi_code i @ [CHR 0x00] @ vi_resource_id i)"

lemma key_code:
  "c @ CHR 0x00 # x = d @ CHR 0x00 # y \<Longrightarrow> CHR 0x00 \<notin> set c \<Longrightarrow> CHR 0x00 \<notin> set d \<Longrightarrow> c = d"
  by (auto simp: append_eq_append_conv2 append_eq_Cons_conv Cons_eq_append_conv)

lemma add_issue_ok:
  assumes "log_ok log" and "issue_known i"
  shows "log_ok (add_issue i log)" and "has_error (add_issue i log) \<longleftrightarrow> has_error log \<or> vi_severity i = SeverityError"
proof -
  obtain issues seen where log: "log = (issues, seen)" by (cases log)
  let ?k = "vi_code i @ [CHR 0x00] @ vi_resource_id i"
  show "log_ok (add_issue i log)" using assms by (auto simp: log_ok_def add_issue_def log Let_def)
  show "has_error (add_issue i log) \<longleftrightarrow> has_error log \<or> vi_severity i = SeverityError"
  proof (cases "?k \<in> set seen")
    case True
    then obtain j where j: "j \<in> set issues" "?k = vi_code j @ [CHR 0x00] @ vi_resource_id j"
      using assms(1) by (auto simp: log_ok_def log)
    then have "issue_known j" using assms(1) by (simp add: log_ok_def log)
    then have "vi_severity j = SeverityError \<longleftrightarrow> vi_severity i = SeverityError"
      using key_code [of "vi_code i" "vi_resource_id i" "vi_code j" "vi_resource_id j"] j(2) assms(2)
      by (simp add: issue_known_def)
    then show ?thesis using True j(1) by (auto simp: add_issue_def has_error_def log Let_def)
  next
    case False
    then show ?thesis by (auto simp: add_issue_def has_error_def log Let_def)
  qed
qed

lemma fold_add_issues:
  assumes "log_ok log" and "\<forall>x\<in>set xs. issue_known (f x)"
  shows "log_ok (fold (\<lambda>x. add_issue (f x)) xs log) \<and>
    (has_error (fold (\<lambda>x. add_issue (f x)) xs log) \<longleftrightarrow> has_error log \<or> (\<exists>x\<in>set xs. vi_severity (f x) = SeverityError))"
  using assms
proof (induction xs arbitrary: log)
  case (Cons x xs)
  then show ?case using add_issue_ok [of log "f x"] by auto
qed simp

lemma route_issue_known [simp]:
  "issue_known (route_issue SeverityError ''route_missing_turnout_position'' x m)"
  "issue_known (route_issue SeverityError ''route_no_path'' x m)"
  "issue_known (route_issue SeverityError ''route_missing_block'' x m)"
  "issue_known (route_issue SeverityWarning ''route_extra_block'' x m)"
  "issue_known (route_issue SeverityWarning ''route_extra_turnout'' x m)"
  by (simp_all add: issue_known_def route_issue_def error_codes_def)

lemma route_issue_severity [simp]: "vi_severity (route_issue s c x m) = s"
  by (simp add: route_issue_def)

subsection \<open>What a route without errors passes\<close>

lemma check_declared_fold:
  assumes "log_ok log" and "fold (check_declared_turnout g r turnouts) tps (log, required) = (log', required')"
  shows "log_ok log' \<and> (has_error log \<longrightarrow> has_error log') \<and>
    (\<not> has_error log' \<longrightarrow> (\<forall>(t, pos)\<in>set tps. \<exists>tt. map_of turnouts t = Some tt \<and> turnout_position tt pos \<noteq> None))"
  using assms
proof (induction tps arbitrary: log required)
  case (Cons tp tps)
  obtain t pos where tp: "tp = (t, pos)" by (cases tp)
  obtain log1 req1 where st: "check_declared_turnout g r turnouts tp (log, required) = (log1, req1)" by fastforce
  have step: "log_ok log1 \<and> (has_error log \<longrightarrow> has_error log1) \<and>
      (\<not> has_error log1 \<longrightarrow> (\<exists>tt. map_of turnouts t = Some tt \<and> turnout_position tt pos \<noteq> None))"
    using st Cons.prems(1) add_issue_ok [OF Cons.prems(1)]
    by (auto simp: check_declared_turnout_def tp split: option.splits if_splits)
  have "fold (check_declared_turnout g r turnouts) tps (log1, req1) = (log', required')"
    using Cons.prems(2) st by simp
  from Cons.IH [OF _ this] step show ?case by (auto simp: tp)
qed simp

text \<open>What is recorded for one traversal: no error unless the turnout is not declared suitably.\<close>

definition traversal_declared :: "route_definition \<Rightarrow> traversal \<Rightarrow> bool" where
  "traversal_declared r tr \<longleftrightarrow>
     (case tr of
        SectionTraversal _ \<Rightarrow> True
      | TurnoutTraversal t \<Rightarrow>
          (\<exists>d. map_of (rd_turnout_states r) (tr_turnout_id t) = Some d \<and> d \<in> set (tr_possible_position_ids t)))"

definition traversal_block :: "graph \<Rightarrow> traversal \<Rightarrow> block_definition option" where
  "traversal_block g tr =
     (case tr of
        SectionTraversal s \<Rightarrow> block_for_track_section g (st_track_section_id s)
      | TurnoutTraversal t \<Rightarrow> block_for_turnout g (tr_turnout_id t))"

lemma check_traversal_fold:
  assumes "log_ok log" and "fold (check_traversal g r) trs (log, used, blocks) = (log', used', blocks')"
  shows "log_ok log' \<and> (has_error log \<longrightarrow> has_error log') \<and> set blocks \<subseteq> set blocks' \<and>
    (\<not> has_error log' \<longrightarrow> (\<forall>tr\<in>set trs. traversal_declared r tr)) \<and>
    (\<forall>tr\<in>set trs. \<forall>b. traversal_block g tr = Some b \<longrightarrow> bd_id b \<in> set blocks')"
  using assms
proof (induction trs arbitrary: log used blocks)
  case (Cons tr trs)
  obtain log1 used1 blocks1 where st: "check_traversal g r tr (log, used, blocks) = (log1, used1, blocks1)"
    by (cases "check_traversal g r tr (log, used, blocks)") auto
  have step: "log_ok log1 \<and> (has_error log \<longrightarrow> has_error log1) \<and> (\<not> has_error log1 \<longrightarrow> traversal_declared r tr) \<and>
      set blocks \<subseteq> set blocks1 \<and> (\<forall>b. traversal_block g tr = Some b \<longrightarrow> bd_id b \<in> set blocks1)"
    using st Cons.prems(1) add_issue_ok [OF Cons.prems(1)]
    by (cases tr)
       (auto simp: check_traversal_def traversal_declared_def traversal_block_def Let_def split: option.splits if_splits)
  have "fold (check_traversal g r) trs (log1, used1, blocks1) = (log', used', blocks')"
    using Cons.prems(2) st by simp
  from Cons.IH [OF _ this] step show ?case by auto
qed simp

lemma declaration_issues_error:
  assumes "log_ok log"
  shows "has_error (declaration_issues r used blocks log) \<longleftrightarrow> has_error log \<or> \<not> set blocks \<subseteq> set (rd_block_ids r)"
proof -
  note f = fold_add_issues
  show ?thesis unfolding declaration_issues_def Let_def
    by (subst f [THEN conjunct2], (auto intro: f [THEN conjunct1] assms simp: f [THEN conjunct1] assms)[2])+ auto
qed

lemma path_correct_walk:
  assumes "path_correct v c from to p" and "opens_path \<sigma> p"
  shows "\<exists>steps rs. pp_traversals p = map (traversal_from_step rs) steps \<and> physical_walk v c \<sigma> from steps to"
  using assms unfolding path_correct_def by blast

lemma physical_walk_relax: "physical_walk v c \<sigma> n steps m \<Longrightarrow> physical_walk v no_constraints \<sigma> n steps m"
  by (induction v c \<sigma> n steps m rule: physical_walk.induct)
     (auto simp: no_constraints_def edge_excluded_def setting_allows_def Let_def split: edge_kind.splits)

lemma search_route_correct:
  assumes "build l = Some (Inr g)"
  shows "\<exists>res. search_route g r required = Some res \<and>
    (case res of None \<Rightarrow> True | Some p \<Rightarrow> \<exists>c. path_correct (graph_view g) c (rd_entry_node_id r) (rd_exit_node_id r) p)"
proof -
  have one: "\<exists>res. graph_find_path g (rd_entry_node_id r) (rd_exit_node_id r) c = Some res \<and>
      (case res of None \<Rightarrow> True | Some p \<Rightarrow> path_correct (graph_view g) c (rd_entry_node_id r) (rd_exit_node_id r) p)" for c
    using graph_path_result [OF assms, of "rd_entry_node_id r" "rd_exit_node_id r" c] by (auto split: option.splits)
  show ?thesis unfolding search_route_def Let_def
    using one [of "\<lparr> pcs_excluded_track_sections = [], pcs_excluded_turnouts = filter (\<lambda>t. \<not> gm_has (rd_turnout_states r) t) (gr_turnout_ids g),
        pcs_excluded_blocks = [], pcs_required_turnout_positions = required \<rparr>"]
      one [of "\<lparr> pcs_excluded_track_sections = [], pcs_excluded_turnouts = [], pcs_excluded_blocks = [],
        pcs_required_turnout_positions = required \<rparr>"]
      one [of "\<lparr> pcs_excluded_track_sections = [], pcs_excluded_turnouts = [], pcs_excluded_blocks = [],
        pcs_required_turnout_positions = [] \<rparr>"]
    by (auto split: option.splits)
qed

text \<open>The setting a route declares, and a way it opens within the declared blocks.\<close>

definition declared_setting :: "route_definition \<Rightarrow> string \<Rightarrow> string" where
  "declared_setting r t = gm_get [] (rd_turnout_states r) t"

definition step_block :: "graph \<Rightarrow> path_step \<Rightarrow> block_definition option" where
  "step_block g step =
     (case step of (_, cand, _) \<Rightarrow>
        if te_kind (pe_edge cand) = EdgeTrackSection
        then block_for_track_section g (te_track_section_id (pe_edge cand))
        else block_for_turnout g (te_turnout_id (pe_edge cand)))"

definition route_passable :: "graph \<Rightarrow> (string, turnout) gomap \<Rightarrow> route_definition \<Rightarrow> bool" where
  "route_passable g turnouts r \<longleftrightarrow>
     (\<exists>steps. physical_walk (graph_view g) no_constraints (declared_setting r) (rd_entry_node_id r) steps (rd_exit_node_id r) \<and>
        step_turnouts steps \<subseteq> fst ` set (rd_turnout_states r) \<and>
        (\<forall>step\<in>set steps. \<forall>b. step_block g step = Some b \<longrightarrow> bd_id b \<in> set (rd_block_ids r))) \<and>
     (\<forall>(t, pos)\<in>set (rd_turnout_states r). \<exists>tt. map_of turnouts t = Some tt \<and> turnout_position tt pos \<noteq> None)"

lemma traversal_block_step: "traversal_block g (traversal_from_step rs step) = step_block g step"
  by (auto simp: traversal_block_def step_block_def traversal_from_step_def Let_def split: prod.splits)

lemma declared_traversals_pass:
  assumes p: "path_correct v c from to p" and declared: "\<forall>tr\<in>set (pp_traversals p). traversal_declared r tr"
  shows "\<exists>steps rs. pp_traversals p = map (traversal_from_step rs) steps \<and>
    physical_walk v no_constraints (declared_setting r) from steps to \<and> step_turnouts steps \<subseteq> fst ` set (rd_turnout_states r)"
proof -
  have "opens_path (declared_setting r) p"
    unfolding opens_path_def using declared by (force simp: traversal_declared_def declared_setting_def gm_get_def)
  then obtain steps rs where s: "pp_traversals p = map (traversal_from_step rs) steps"
      "physical_walk v c (declared_setting r) from steps to"
    using path_correct_walk [OF p] by blast
  have "t \<in> fst ` set (rd_turnout_states r)" if t: "t \<in> step_turnouts steps" for t
  proof -
    obtain tr where "TurnoutTraversal tr \<in> set (pp_traversals p)" "tr_turnout_id tr = t"
      using step_turnout_traversal [OF t, of rs] s(1) by auto
    then obtain d where "map_of (rd_turnout_states r) t = Some d"
      using declared by (force simp: traversal_declared_def)
    then show ?thesis by (metis fst_conv image_eqI map_of_SomeD)
  qed
  then show ?thesis using s physical_walk_relax [OF s(2)] by blast
qed

lemma validate_route_definition_sound:
  assumes built: "build l = Some (Inr g)"
  shows "\<exists>path is. validate_route_definition g r turnouts = Some (path, is) \<and>
    ((\<forall>i\<in>set is. vi_severity i \<noteq> SeverityError) \<longrightarrow> route_passable g turnouts r)"
proof -
  have start: "log_ok ([], [])" by (simp add: log_ok_def)
  have nodes: "log_ok (node_issues g r)" "has_error (node_issues g r) \<longleftrightarrow> fst (node_issues g r) \<noteq> []"
  proof -
    show "log_ok (node_issues g r)"
      unfolding node_issues_def Let_def using start by (auto intro!: add_issue_ok(1))
    show "has_error (node_issues g r) \<longleftrightarrow> fst (node_issues g r) \<noteq> []"
      by (auto simp: node_issues_def Let_def has_error_def add_issue_def split: if_splits)
  qed
  consider (ends) "rd_entry_node_id r = [] \<or> rd_exit_node_id r = []"
    | (unknown) "\<not> (rd_entry_node_id r = [] \<or> rd_exit_node_id r = [])" "fst (node_issues g r) \<noteq> []"
    | (search) "\<not> (rd_entry_node_id r = [] \<or> rd_exit_node_id r = [])" "fst (node_issues g r) = []" by blast
  then show ?thesis
  proof cases
    case ends
    then show ?thesis by (simp add: validate_route_definition_def)
  next
    case unknown
    then have "has_error (node_issues g r)" using nodes(2) by blast
    then show ?thesis using unknown by (auto simp: validate_route_definition_def has_error_def)
  next
    case search
    obtain log required where d: "fold (check_declared_turnout g r turnouts) (rd_turnout_states r) (node_issues g r, []) = (log, required)"
      by fastforce
    note declared = check_declared_fold [OF nodes(1) d]
    obtain res where res: "search_route g r required = Some res" "case res of None \<Rightarrow> True
        | Some p \<Rightarrow> \<exists>c. path_correct (graph_view g) c (rd_entry_node_id r) (rd_exit_node_id r) p"
      using search_route_correct [OF built] by blast
    show ?thesis
    proof (cases res)
      case None
      let ?i = "route_issue SeverityError ''route_no_path'' (rd_id r)
        (''route '' @ quote (rd_id r) @ '' has no physical path from '' @ quote (rd_entry_node_id r) @
         '' to '' @ quote (rd_exit_node_id r))"
      have "has_error (add_issue ?i log)" using add_issue_ok(2) [of log ?i] declared by simp
      then show ?thesis using search d res None by (auto simp: validate_route_definition_def has_error_def)
    next
      case (Some p)
      then obtain c where p: "path_correct (graph_view g) c (rd_entry_node_id r) (rd_exit_node_id r) p" using res(2) by auto
      obtain log' used blocks where t: "fold (check_traversal g r) (pp_traversals p) (log, [], []) = (log', used, blocks)"
        by (cases "fold (check_traversal g r) (pp_traversals p) (log, [], [])") auto
      have "log_ok log" using declared by blast
      note trav = check_traversal_fold [OF this t]
      have "log_ok log'" using trav by blast
      note final = declaration_issues_error [OF this, of r used blocks]
      have v: "validate_route_definition g r turnouts = Some (Some p, fst (declaration_issues r used blocks log'))"
        using search d res(1) Some t by (simp add: validate_route_definition_def)
      have "route_passable g turnouts r" if "\<not> has_error (declaration_issues r used blocks log')"
      proof -
        have no: "\<not> has_error log'" "set blocks \<subseteq> set (rd_block_ids r)" using final that by auto
        then have "\<forall>tr\<in>set (pp_traversals p). traversal_declared r tr" using trav by blast
        from declared_traversals_pass [OF p this] obtain steps rs where s:
            "pp_traversals p = map (traversal_from_step rs) steps"
            "physical_walk (graph_view g) no_constraints (declared_setting r) (rd_entry_node_id r) steps (rd_exit_node_id r)"
            "step_turnouts steps \<subseteq> fst ` set (rd_turnout_states r)" by blast
        have "bd_id b \<in> set (rd_block_ids r)" if "step \<in> set steps" "step_block g step = Some b" for step b
        proof -
          have "traversal_from_step rs step \<in> set (pp_traversals p)" using s(1) that(1) by simp
          then show ?thesis using trav no(2) traversal_block_step [of g rs step] that(2) by (metis subsetD)
        qed
        then show ?thesis using s declared trav no(1) unfolding route_passable_def by blast
      qed
      then show ?thesis using v by (auto simp: has_error_def)
    qed
  qed
qed

lemma validate_routes_sound:
  assumes "build l = Some (Inr g)"
  shows "\<exists>issues' validated'. validate_routes g turnouts rs issues validated = Some (issues', validated') \<and>
    set issues \<subseteq> set issues' \<and>
    (\<forall>r\<in>set rs. (rd_entry_node_id r \<noteq> [] \<or> rd_exit_node_id r \<noteq> []) \<longrightarrow> (\<forall>i\<in>set issues'. vi_severity i \<noteq> SeverityError) \<longrightarrow>
       route_passable g turnouts r)"
proof (induction rs arbitrary: issues validated)
  case (Cons r rs)
  show ?case
  proof (cases "rd_entry_node_id r = [] \<and> rd_exit_node_id r = []")
    case True
    then show ?thesis using Cons.IH [of issues validated] by auto
  next
    case False
    obtain path found where v: "validate_route_definition g r turnouts = Some (path, found)"
        "(\<forall>i\<in>set found. vi_severity i \<noteq> SeverityError) \<longrightarrow> route_passable g turnouts r"
      using validate_route_definition_sound [OF assms] by blast
    obtain validated1 where "validate_routes g turnouts (r # rs) issues validated =
        validate_routes g turnouts rs (issues @ found) validated1"
      using v(1) False by (cases path) auto
    then show ?thesis using Cons.IH [of "issues @ found" validated1] v(2) by auto
  qed
qed simp

text \<open>
  C24: The check of route definitions always returns. When it reports no error, every route
  with an entry or an exit can be travelled from its entry to its exit with the declared
  turnouts in their declared positions, without any other turnout and only through blocks the
  route declares, and every turnout position it declares exists.
\<close>

theorem validated_routes_passable:
  assumes built: "build l = Some (Inr g)"
  shows "\<exists>issues. validate_route_definitions g definitions turnouts = Some issues \<and>
    (route_validation_errors issues = [] \<longrightarrow>
       (\<forall>r\<in>set definitions. rd_entry_node_id r \<noteq> [] \<or> rd_exit_node_id r \<noteq> [] \<longrightarrow>
          route_passable g (turnouts_by_id turnouts) r))"
proof -
  obtain issues validated where v: "validate_routes g (turnouts_by_id turnouts) (sort_key rd_id definitions) [] [] =
      Some (issues, validated)"
      "\<forall>r\<in>set definitions. (rd_entry_node_id r \<noteq> [] \<or> rd_exit_node_id r \<noteq> []) \<longrightarrow>
         (\<forall>i\<in>set issues. vi_severity i \<noteq> SeverityError) \<longrightarrow> route_passable g (turnouts_by_id turnouts) r"
    using validate_routes_sound [OF built, of "turnouts_by_id turnouts" "sort_key rd_id definitions" "[]" "[]"] by auto
  have "validate_route_definitions g definitions turnouts =
      Some (sort_validation_issues (issues @ undeclared_conflict_issues validated))"
    using v(1) by (simp add: validate_route_definitions_def)
  moreover have "route_validation_errors (sort_validation_issues (issues @ undeclared_conflict_issues validated)) = [] \<Longrightarrow>
      \<forall>i\<in>set issues. vi_severity i \<noteq> SeverityError"
    by (auto simp: route_validation_errors_def sort_validation_issues_def filter_empty_conv)
  ultimately show ?thesis using v(2) by blast
qed

definition example_route :: route_definition where
  "example_route =
     \<lparr> rd_id = ''r1'', rd_name = ''R'', rd_block_ids = [''b1''], rd_turnout_states = [(''t1'', ''straight'')],
       rd_conflict_route_ids = [], rd_entry_node_id = ''a'', rd_exit_node_id = ''e'' \<rparr>"

lemma validated_routes_passable_witness:
  "\<exists>g. build example_layout = Some (Inr g) \<and> route_passable g (turnouts_by_id (ld_turnouts example_layout)) example_route"
proof -
  have "case build example_layout of
      Some (Inr g) \<Rightarrow> (case validate_route_definitions g [example_route] (ld_turnouts example_layout) of
        Some issues \<Rightarrow> route_validation_errors issues = [] | None \<Rightarrow> False)
    | _ \<Rightarrow> False" by code_simp
  then obtain g issues where g: "build example_layout = Some (Inr g)"
      "validate_route_definitions g [example_route] (ld_turnouts example_layout) = Some issues"
      "route_validation_errors issues = []"
    by (auto split: option.splits sum.splits)
  have "rd_entry_node_id example_route \<noteq> []" by (simp add: example_route_def)
  then show ?thesis
    using validated_routes_passable [OF g(1), of "[example_route]" "ld_turnouts example_layout"] g by auto
qed

end
