(* ===== verification/Queries.thy ===== *)
theory Queries
  imports ActiveTrack
begin

text \<open>
  The neighbourhood queries of \<^verbatim>\<open>internal/topology/queries.go\<close>, on the static graph and on the
  active view, and the public definition of \<^verbatim>\<open>internal/topology/definition.go\<close> that a client
  fetches and builds its own graph from. A Go set whose members are collected and sorted is the
  list of its members, sorted. The revision is a parameter: the hexadecimal SHA-256 digest of
  the JSON text of the content.
\<close>

subsection \<open>Edges at a node\<close>

definition edges_from_static :: "graph \<Rightarrow> string \<Rightarrow> track_edge list" where
  "edges_from_static g n =
     (case map_of (gr_incident g) n of None \<Rightarrow> [] | Some is \<Rightarrow> map (edge_at zero_edge (gr_edges g)) is)"

definition edges_from_active :: "active_graph \<Rightarrow> string \<Rightarrow> track_edge list" where
  "edges_from_active a n =
     (case map_of (act_incident a) n of
        None \<Rightarrow> []
      | Some is \<Rightarrow> map (\<lambda>i. edge_at zero_edge (map ae_edge (act_edges a)) i) is)"

subsection \<open>Neighbours and sections\<close>

definition neighbor_nodes :: "(string, topology_node) gomap \<Rightarrow> string \<Rightarrow> track_edge list \<Rightarrow> topology_node list" where
  "neighbor_nodes nodes n es =
     (if \<not> gm_has nodes n then []
      else map (gm_get \<lparr> tn_id = [], tn_name = [], tn_kind = NodeOther [] \<rparr> nodes)
             (str_set (List.map_filter (\<lambda>e. edge_other e n) es)))"

definition zero_section :: track_section where
  "zero_section = \<lparr> ts_id = [], ts_name = [], ts_node_a = [], ts_node_b = [], ts_length_mm = 0 \<rparr>"

definition track_sections_at_node :: "(string, track_section) gomap \<Rightarrow> track_edge list \<Rightarrow> track_section list" where
  "track_sections_at_node sections es =
     map (gm_get zero_section sections)
       (str_set (map te_track_section_id (filter (\<lambda>e. te_kind e = EdgeTrackSection) es)))"

definition adjacent_track_sections ::
  "string \<Rightarrow> (string, track_section) gomap \<Rightarrow> track_edge list list \<Rightarrow> track_section list" where
  "adjacent_track_sections s sections groups =
     map (gm_get zero_section sections)
       (str_set (map te_track_section_id
         (filter (\<lambda>e. te_kind e = EdgeTrackSection \<and> te_track_section_id e \<noteq> s) (concat groups))))"

definition graph_neighbor_nodes :: "graph \<Rightarrow> string \<Rightarrow> topology_node list" where
  "graph_neighbor_nodes g n = neighbor_nodes (gr_nodes g) n (edges_from_static g n)"

definition active_neighbor_nodes :: "active_graph \<Rightarrow> string \<Rightarrow> topology_node list" where
  "active_neighbor_nodes a n = neighbor_nodes (gr_nodes (act_static a)) n (edges_from_active a n)"

definition graph_track_sections_at_node :: "graph \<Rightarrow> string \<Rightarrow> track_section list" where
  "graph_track_sections_at_node g n = track_sections_at_node (gr_sections g) (edges_from_static g n)"

definition active_track_sections_at_node :: "active_graph \<Rightarrow> string \<Rightarrow> track_section list" where
  "active_track_sections_at_node a n = track_sections_at_node (gr_sections (act_static a)) (edges_from_active a n)"

definition graph_adjacent_track_sections :: "graph \<Rightarrow> string \<Rightarrow> track_section list" where
  "graph_adjacent_track_sections g s =
     (case map_of (gr_sections g) s of
        None \<Rightarrow> []
      | Some sec \<Rightarrow> adjacent_track_sections s (gr_sections g)
          [edges_from_static g (ts_node_a sec), edges_from_static g (ts_node_b sec)])"

definition active_adjacent_track_sections :: "active_graph \<Rightarrow> string \<Rightarrow> track_section list" where
  "active_adjacent_track_sections a s =
     (case map_of (gr_sections (act_static a)) s of
        None \<Rightarrow> []
      | Some sec \<Rightarrow> adjacent_track_sections s (gr_sections (act_static a))
          [edges_from_active a (ts_node_a sec), edges_from_active a (ts_node_b sec)])"

subsection \<open>Resources\<close>

record resource =
  rs_kind :: edge_kind
  rs_track_section_id :: string
  rs_turnout_id :: string

definition resource_of :: "track_edge \<Rightarrow> resource" where
  "resource_of e = \<lparr> rs_kind = te_kind e, rs_track_section_id = te_track_section_id e, rs_turnout_id = te_turnout_id e \<rparr>"

definition resource_less :: "resource \<Rightarrow> resource \<Rightarrow> bool" where
  "resource_less a b =
     (if rs_kind a \<noteq> rs_kind b then rs_kind a = EdgeTrackSection
      else if rs_kind a = EdgeTrackSection then rs_track_section_id a < rs_track_section_id b
      else rs_turnout_id a < rs_turnout_id b)"

definition canonical_resource :: "resource \<Rightarrow> resource" where
  "canonical_resource r =
     (let r1 = (if rs_kind r = EdgeTrackSection then r\<lparr> rs_turnout_id := [] \<rparr> else r)
      in if rs_kind r1 = EdgeTurnout then r1\<lparr> rs_track_section_id := [] \<rparr> else r1)"

definition resources_from_edges :: "track_edge list \<Rightarrow> resource list" where
  "resources_from_edges es = sort_slice resource_less (remdups (map resource_of es))"

definition adjacent_resources :: "resource \<Rightarrow> string list \<Rightarrow> (string \<Rightarrow> resource list) \<Rightarrow> resource list" where
  "adjacent_resources r ids at_node =
     sort_slice resource_less (remdups (filter (\<lambda>a. a \<noteq> r) (concat (map at_node ids))))"

definition graph_resources_at_node :: "graph \<Rightarrow> string \<Rightarrow> resource list" where
  "graph_resources_at_node g n = resources_from_edges (edges_from_static g n)"

definition active_resources_at_node :: "active_graph \<Rightarrow> string \<Rightarrow> resource list" where
  "active_resources_at_node a n = resources_from_edges (edges_from_active a n)"

definition graph_resource_node_ids :: "graph \<Rightarrow> resource \<Rightarrow> string list option" where
  "graph_resource_node_ids g r =
     (case rs_kind r of
        EdgeTrackSection \<Rightarrow> map_option (\<lambda>s. [ts_node_a s, ts_node_b s]) (map_of (gr_sections g) (rs_track_section_id r))
      | EdgeTurnout \<Rightarrow>
          map_option (\<lambda>topo. sort (map pt_node_id (tt_ports topo))) (map_of (gr_turnout_topologies g) (rs_turnout_id r))
      | EdgeKindOther _ \<Rightarrow> None)"

definition active_resource_node_ids :: "active_graph \<Rightarrow> resource \<Rightarrow> string list option" where
  "active_resource_node_ids a r =
     (if rs_kind r = EdgeTrackSection then graph_resource_node_ids (act_static a) r
      else if rs_kind r \<noteq> EdgeTurnout then None
      else
        let nodes = edge_nodes (filter (\<lambda>e. te_turnout_id e = rs_turnout_id r) (map ae_edge (act_edges a)))
        in if nodes = [] then None else Some nodes)"

definition graph_adjacent_resources :: "graph \<Rightarrow> resource \<Rightarrow> resource list" where
  "graph_adjacent_resources g r0 =
     (let r = canonical_resource r0
      in case graph_resource_node_ids g r of
           None \<Rightarrow> []
         | Some ns \<Rightarrow> adjacent_resources r ns (graph_resources_at_node g))"

definition active_adjacent_resources :: "active_graph \<Rightarrow> resource \<Rightarrow> resource list" where
  "active_adjacent_resources a r0 =
     (let r = canonical_resource r0
      in case active_resource_node_ids a r of
           None \<Rightarrow> []
         | Some ns \<Rightarrow> adjacent_resources r ns (active_resources_at_node a))"

subsection \<open>The public definition\<close>

definition graph_nodes :: "graph \<Rightarrow> topology_node list" where
  "graph_nodes g = map (gm_get \<lparr> tn_id = [], tn_name = [], tn_kind = NodeOther [] \<rparr> (gr_nodes g)) (gr_node_ids g)"

definition graph_track_sections :: "graph \<Rightarrow> track_section list" where
  "graph_track_sections g = map (gm_get zero_section (gr_sections g)) (gr_section_ids g)"

definition graph_turnout_topologies :: "graph \<Rightarrow> turnout_topology list" where
  "graph_turnout_topologies g =
     map (gm_get \<lparr> tt_turnout_id = [], tt_ports = [], tt_positions = [] \<rparr> (gr_turnout_topologies g)) (gr_turnout_ids g)"

definition graph_blocks :: "graph \<Rightarrow> block_definition list" where
  "graph_blocks g =
     map (gm_get \<lparr> bd_id = [], bd_name = [], bd_track_section_ids = [], bd_turnout_ids = [] \<rparr> (gr_blocks g)) (gr_block_ids g)"

record definition_content =
  dc_nodes :: "topology_node list"
  dc_track_sections :: "track_section list"
  dc_turnout_topologies :: "turnout_topology list"
  dc_blocks :: "block_definition list"

record topology_definition =
  td_revision :: string
  td_content :: definition_content

datatype definition_error = DefinitionGraph graph_error | RevisionMismatch

text \<open>
  The loops that replace nil slices by empty ones change nothing here: both are the empty list.
\<close>

definition content_of :: "graph \<Rightarrow> definition_content" where
  "content_of g =
     \<lparr> dc_nodes = graph_nodes g, dc_track_sections = graph_track_sections g,
       dc_turnout_topologies = graph_turnout_topologies g, dc_blocks = graph_blocks g \<rparr>"

definition definition_from_layout ::
  "(definition_content \<Rightarrow> string) \<Rightarrow> layout_definition \<Rightarrow> (definition_error + topology_definition) option" where
  "definition_from_layout revision l =
     (case build l of
        None \<Rightarrow> None
      | Some (Inl e) \<Rightarrow> Some (Inl (DefinitionGraph e))
      | Some (Inr g) \<Rightarrow> Some (Inr \<lparr> td_revision = revision (content_of g), td_content = content_of g \<rparr>))"

definition definition_layout :: "topology_definition \<Rightarrow> turnout list \<Rightarrow> layout_definition" where
  "definition_layout d turnouts =
     \<lparr> ld_blocks = dc_blocks (td_content d), ld_turnouts = turnouts, ld_routes = [],
       ld_topology_nodes = dc_nodes (td_content d), ld_track_sections = dc_track_sections (td_content d),
       ld_turnout_topologies = dc_turnout_topologies (td_content d) \<rparr>"

definition build_definition ::
  "(definition_content \<Rightarrow> string) \<Rightarrow> topology_definition \<Rightarrow> turnout list \<Rightarrow> (definition_error + graph) option" where
  "build_definition revision d turnouts =
     (let l = definition_layout d turnouts
      in case definition_from_layout revision l of
           None \<Rightarrow> None
         | Some (Inl e) \<Rightarrow> Some (Inl e)
         | Some (Inr canonical) \<Rightarrow>
             if td_revision d \<noteq> td_revision canonical then Some (Inl RevisionMismatch)
             else (case build l of
                     None \<Rightarrow> None
                   | Some (Inl e) \<Rightarrow> Some (Inl (DefinitionGraph e))
                   | Some (Inr g) \<Rightarrow> Some (Inr g)))"

end
