(* ===== verification/QueryFacts.thy ===== *)
theory QueryFacts
  imports Queries
begin

text \<open>
  What the neighbourhood queries answer, proved once for any view that returns the edges at a
  node and interpreted on the static graph and on the active view; and that a client which is
  sent the public definition builds the same graph as the server.
\<close>

subsection \<open>Views\<close>

lemma str_set_list: "set xs = A \<Longrightarrow> str_set xs = sorted_list_of_set A"
  by (auto simp: str_set_def sorted_list_of_set_sort_remdups)

locale edge_view =
  fixes at_node :: "string \<Rightarrow> track_edge list" and edges :: "track_edge set"
  assumes at_node: "set (at_node n) = {e \<in> edges. edge_touches n e}"
begin

lemma neighbors: "set (List.map_filter (\<lambda>e. edge_other e n) (at_node n)) = edge_links edges `` {n}"
proof -
  have "(\<exists>e\<in>set (at_node n). edge_other e n = Some m) \<longleftrightarrow> m \<in> edge_links edges `` {n}" for m
    unfolding at_node edge_links_def edge_touches_def edge_other_def by (auto split: if_splits; force)
  then show ?thesis unfolding set_eq_iff by (simp add: in_map_filter)
qed

lemma neighbor_ids:
  "str_set (List.map_filter (\<lambda>e. edge_other e n) (at_node n)) = sorted_list_of_set (edge_links edges `` {n})"
  by (rule str_set_list [OF neighbors])

lemma resources: "r \<in> set (resources_from_edges (at_node n)) \<longleftrightarrow> (\<exists>e\<in>edges. edge_touches n e \<and> resource_of e = r)"
  by (auto simp: resources_from_edges_def at_node)

lemma adjacent:
  "r' \<in> set (adjacent_resources r ns (\<lambda>n. resources_from_edges (at_node n))) \<longleftrightarrow>
     r' \<noteq> r \<and> (\<exists>n\<in>set ns. \<exists>e\<in>edges. edge_touches n e \<and> resource_of e = r')"
  by (auto simp: adjacent_resources_def resources)

end

lemma edges_from_static_filter:
  assumes "incident_built g"
  shows "edges_from_static g n = filter (edge_touches n) (gr_edges g)"
  using incident_edges_filter [OF assms] by (simp add: edges_from_static_def incident_edges_def)

lemma edges_from_active_filter:
  "edges_from_active (active_view g turnouts) n = filter (edge_touches n) (map ae_edge (act_edges (active_view g turnouts)))"
proof -
  have "edges_from_active (active_view g turnouts) n =
      map (edge_at zero_edge (map ae_edge (act_edges (active_view g turnouts)))) (gm_get [] (act_incident (active_view g turnouts)) n)"
    by (simp add: edges_from_active_def gm_get_def split: option.splits)
  then show ?thesis
    by (simp only: build_incident_get map_edge_at active_view_def Let_def active_graph.simps)
qed

definition static_edges :: "graph \<Rightarrow> track_edge set" where
  "static_edges g = set (gr_edges g)"

definition confirmed_edges :: "graph \<Rightarrow> (string, turnout) gomap \<Rightarrow> track_edge set" where
  "confirmed_edges g turnouts = ae_edge ` set (act_edges (active_view g turnouts))"

interpretation static_view: edge_view "edges_from_static (built_graph l)" "static_edges (built_graph l)" for l
  by unfold_locales (auto simp: edges_from_static_filter [OF built_incident] static_edges_def)

interpretation active: edge_view "edges_from_active (active_view g turnouts)" "confirmed_edges g turnouts" for g turnouts
  by unfold_locales (auto simp: edges_from_active_filter confirmed_edges_def)

text \<open>The edges a layout offers while its turnouts are where \<open>turnouts\<close> says.\<close>

definition open_edges :: "layout_definition \<Rightarrow> (string, turnout) gomap \<Rightarrow> track_edge set" where
  "open_edges l turnouts =
     {e \<in> layout_edges l. te_kind e = EdgeTurnout \<longrightarrow>
        (\<exists>p. confirmed_position turnouts (te_turnout_id e) = Some p \<and> p \<in> set (te_position_ids e))}"

lemma confirmed_open_edges:
  assumes "layout_accepted l"
  shows "confirmed_edges (built_graph l) turnouts = open_edges l turnouts"
proof -
  have sorted: "\<forall>e\<in>layout_edges l. te_kind e = EdgeTurnout \<longrightarrow> sorted (te_position_ids e)"
    using built_sorted_edges [OF assms] built_edges [OF assms] by (simp add: sorted_edges_def)
  have "confirmed_edges (built_graph l) turnouts = {e \<in> layout_edges l. \<exists>a. activate_edge turnouts e = Some a}"
    unfolding confirmed_edges_def active_view_def Let_def active_graph.simps built_edges [OF assms, symmetric]
    using activate_edge_fields sorted [unfolded built_edges [OF assms, symmetric]]
    by (force simp: in_map_filter image_iff)
  moreover have "(\<exists>a. activate_edge turnouts e = Some a) \<longleftrightarrow> (te_kind e = EdgeTurnout \<longrightarrow>
      (\<exists>p. confirmed_position turnouts (te_turnout_id e) = Some p \<and> p \<in> set (te_position_ids e)))" if "e \<in> layout_edges l" for e
    using sorted that by (intro activate_edge_Some) blast
  ultimately show ?thesis by (simp add: open_edges_def cong: conj_cong)
qed

subsection \<open>Neighbours\<close>

lemma gm_get_declared:
  assumes "distinct (map f xs)" and "k \<in> f ` set xs"
  shows "gm_get z (fold (\<lambda>x. gm_put (f x) (g x)) xs []) k \<in> g ` {x \<in> set xs. f x = k}"
proof -
  obtain x where "x \<in> set xs" "f x = k" using assms(2) by blast
  then show ?thesis using map_of_fold_put [OF assms(1), of g k "g x"] by (auto simp: gm_get_def)
qed

lemma graph_node_get:
  assumes "layout_accepted l" and "n \<in> node_ids l"
  shows "gm_get z (gr_nodes (built_graph l)) n \<in> set (ld_topology_nodes l) \<and> tn_id (gm_get z (gr_nodes (built_graph l)) n) = n"
proof -
  have "distinct (map tn_id (ld_topology_nodes l))" using accepted_wf(1) [OF assms(1)] by (simp add: topology_wf_def)
  from gm_get_declared [OF this, of n z "\<lambda>x. x"] assms(2) show ?thesis
    by (auto simp: built_graph_simps track_graph_def Let_def node_ids_def)
qed

lemma neighbor_nodes_of:
  assumes ok: "layout_accepted l" and n: "n \<in> node_ids l" and view: "edge_view at_node edges" and sub: "edges \<subseteq> layout_edges l"
  shows "map tn_id (neighbor_nodes (gr_nodes (built_graph l)) n (at_node n)) = sorted_list_of_set (edge_links edges `` {n})"
    and "set (neighbor_nodes (gr_nodes (built_graph l)) n (at_node n)) \<subseteq> set (ld_topology_nodes l)"
proof -
  let ?ids = "str_set (List.map_filter (\<lambda>e. edge_other e n) (at_node n))"
  have "edge_links edges `` {n} \<subseteq> edge_ends (layout_edges l)"
    using sub by (auto simp: edge_links_def edge_ends_def)
  also have "\<dots> \<subseteq> node_ids l" by (rule layout_edges_ends) (simp add: accepted_wf(1) [OF ok])
  finally have known: "set ?ids \<subseteq> node_ids l" by (simp add: edge_view.neighbors [OF view])
  have has: "gm_has (gr_nodes (built_graph l)) n"
    using n accepted_wf(1) [OF ok]
    by (auto simp: gm_has_iff built_graph_simps track_graph_def Let_def node_ids_def)
  have "map (tn_id \<circ> gm_get z (gr_nodes (built_graph l))) ?ids = ?ids" for z
    by (rule map_idI) (use known graph_node_get [OF ok] in auto)
  then show "map tn_id (neighbor_nodes (gr_nodes (built_graph l)) n (at_node n)) = sorted_list_of_set (edge_links edges `` {n})"
    using has by (simp add: neighbor_nodes_def edge_view.neighbor_ids [OF view])
  show "set (neighbor_nodes (gr_nodes (built_graph l)) n (at_node n)) \<subseteq> set (ld_topology_nodes l)"
    using has known graph_node_get [OF ok] by (auto simp: neighbor_nodes_def)
qed

lemma active_static: "act_static (active_view g turnouts) = g"
  by (simp add: active_view_def Let_def)

lemma open_edges_subset: "open_edges l turnouts \<subseteq> layout_edges l"
  by (auto simp: open_edges_def)

subsection \<open>Adjacent resources\<close>

text \<open>Two resources are adjacent when an edge of one meets an edge of the other.\<close>

definition resources_meet :: "track_edge set \<Rightarrow> resource \<Rightarrow> resource \<Rightarrow> bool" where
  "resources_meet edges r r' \<longleftrightarrow>
     r \<noteq> r' \<and> (\<exists>e\<in>edges. \<exists>e'\<in>edges. resource_of e = r \<and> resource_of e' = r' \<and> edge_ends {e} \<inter> edge_ends {e'} \<noteq> {})"

definition resource_ends :: "track_edge set \<Rightarrow> resource \<Rightarrow> string set" where
  "resource_ends edges r = edge_ends {e \<in> edges. resource_of e = r}"

lemma resources_meet_ends:
  "resources_meet edges r r' \<longleftrightarrow> r' \<noteq> r \<and> (\<exists>n\<in>resource_ends edges r. \<exists>e\<in>edges. edge_touches n e \<and> resource_of e = r')"
  unfolding resources_meet_def resource_ends_def edge_ends_def edge_touches_def by blast

lemma adjacent_iff_meet:
  assumes "edge_view at_node edges" and "set ns = resource_ends edges r"
  shows "r' \<in> set (adjacent_resources r ns (\<lambda>n. resources_from_edges (at_node n))) \<longleftrightarrow> resources_meet edges r r'"
  unfolding edge_view.adjacent [OF assms(1)] resources_meet_ends assms(2) ..

lemma edge_fields:
  "te_kind (section_edge s) = EdgeTrackSection" "te_turnout_id (section_edge s) = []" "te_track_section_id (section_edge s) = ts_id s"
  "te_kind (turnout_edge_of topo k) = EdgeTurnout" "te_turnout_id (turnout_edge_of topo k) = tt_turnout_id topo"
  by (simp_all add: section_edge_def turnout_edge_of_def)

lemma edge_resources:
  "resource_of (section_edge s) = \<lparr> rs_kind = EdgeTrackSection, rs_track_section_id = ts_id s, rs_turnout_id = [] \<rparr>"
  "resource_of (turnout_edge_of topo k) = \<lparr> rs_kind = EdgeTurnout, rs_track_section_id = [], rs_turnout_id = tt_turnout_id topo \<rparr>"
  by (simp_all add: resource_of_def section_edge_def turnout_edge_of_def)

lemma layout_edge_cases:
  assumes "e \<in> layout_edges l"
  obtains s where "s \<in> set (ld_track_sections l)" "e = section_edge s"
  | topo k where "topo \<in> set (ld_turnout_topologies l)" "k \<in> topology_keys topo" "e = turnout_edge_of topo k"
  using assms unfolding layout_edges_def by blast

lemma key_class: "distinct (map f xs) \<Longrightarrow> x \<in> set xs \<Longrightarrow> {y \<in> set xs. f y = f x} = {x}"
  by (auto simp: distinct_map dest: inj_onD)

lemma key_unique: "distinct (map f xs) \<Longrightarrow> x \<in> set xs \<Longrightarrow> y \<in> set xs \<Longrightarrow> f x = f y \<Longrightarrow> x = y"
  by (auto simp: distinct_map dest: inj_onD)

lemma built_sections:
  "gr_sections (built_graph l) = fold (\<lambda>s. gm_put (ts_id s) s) (ld_track_sections l) []"
  "gr_section_ids (built_graph l) = sort (map ts_id (ld_track_sections l))"
proof -
  have "gr_sections (fold add_block bs g) = gr_sections g \<and> gr_section_ids (fold add_block bs g) = gr_section_ids g" for bs g
    by (induction bs arbitrary: g) (simp_all add: add_block_def)
  then show "gr_sections (built_graph l) = fold (\<lambda>s. gm_put (ts_id s) s) (ld_track_sections l) []"
    "gr_section_ids (built_graph l) = sort (map ts_id (ld_track_sections l))"
    by (simp_all add: built_graph_def track_graph_def Let_def)
qed

lemma section_resource_ends:
  assumes sub: "edges \<subseteq> layout_edges l" and sections: "section_edge ` set (ld_track_sections l) \<subseteq> edges"
    and ids: "distinct (map ts_id (ld_track_sections l))" and r: "rs_kind r = EdgeTrackSection" "rs_turnout_id r = []"
  shows "case graph_resource_node_ids (built_graph l) r of
      None \<Rightarrow> resource_ends edges r = {}
    | Some ns \<Rightarrow> set ns = resource_ends edges r"
proof -
  let ?i = "rs_track_section_id r"
  have "{e \<in> edges. resource_of e = r} = section_edge ` {s \<in> set (ld_track_sections l). ts_id s = ?i}"
  proof (intro set_eqI iffI)
    fix e assume "e \<in> {e \<in> edges. resource_of e = r}"
    then have e: "e \<in> layout_edges l" "resource_of e = r" using sub by auto
    from e(1) show "e \<in> section_edge ` {s \<in> set (ld_track_sections l). ts_id s = ?i}"
      by (cases rule: layout_edge_cases) (use e(2) r in \<open>auto simp: edge_resources\<close>)
  next
    fix e assume "e \<in> section_edge ` {s \<in> set (ld_track_sections l). ts_id s = ?i}"
    then show "e \<in> {e \<in> edges. resource_of e = r}"
      using sections r by (cases r) (auto simp: edge_resources)
  qed
  then have ends: "resource_ends edges r = edge_ends (section_edge ` {s \<in> set (ld_track_sections l). ts_id s = ?i})"
    by (simp only: resource_ends_def)
  have look: "map_of (gr_sections (built_graph l)) ?i = Some sec \<longleftrightarrow> sec \<in> set (ld_track_sections l) \<and> ts_id sec = ?i" for sec
    unfolding built_sections map_of_fold_put [OF ids, of "\<lambda>s. s" ?i sec] by blast
  show ?thesis
  proof (cases "map_of (gr_sections (built_graph l)) ?i")
    case None
    then have none: "{s \<in> set (ld_track_sections l). ts_id s = ?i} = {}" using look [THEN iffD2] by (metis (mono_tags, lifting) Collect_empty_eq option.distinct(1))
    show ?thesis using None unfolding ends none by (simp add: graph_resource_node_ids_def r(1) edge_ends_def)
  next
    case (Some sec)
    then have sec: "{s \<in> set (ld_track_sections l). ts_id s = ?i} = {sec}"
      using look [of sec] key_class [OF ids, of sec] by simp
    show ?thesis using Some unfolding ends sec by (auto simp: graph_resource_node_ids_def r(1) edge_ends_def section_edge_def)
  qed
qed

lemma turnout_resource_edges:
  assumes "edges \<subseteq> layout_edges l" and r: "rs_kind r = EdgeTurnout" "rs_track_section_id r = []" "rs_turnout_id r \<noteq> []"
  shows "{e \<in> edges. resource_of e = r} = {e \<in> edges. te_turnout_id e = rs_turnout_id r}"
proof -
  obtain t where t: "r = \<lparr> rs_kind = EdgeTurnout, rs_track_section_id = [], rs_turnout_id = t \<rparr>" "t \<noteq> []"
    using r by (cases r) simp
  have "resource_of e = r \<longleftrightarrow> te_turnout_id e = rs_turnout_id r" if "e \<in> layout_edges l" for e
    using that by (cases rule: layout_edge_cases) (use t in \<open>simp_all add: edge_resources edge_fields\<close>)
  then show ?thesis using assms(1) by blast
qed

text \<open>Every port of a turnout is connected in some position.\<close>

definition ports_connected :: "turnout_topology \<Rightarrow> bool" where
  "ports_connected topo \<longleftrightarrow> pt_id ` set (tt_ports topo) = fst ` topology_keys topo \<union> snd ` topology_keys topo"

lemma turnout_resource_ends:
  assumes wf: "topology_wf l" and r: "rs_kind r = EdgeTurnout" "rs_track_section_id r = []" "rs_turnout_id r \<noteq> []"
    and connected: "\<forall>topo\<in>set (ld_turnout_topologies l). tt_turnout_id topo = rs_turnout_id r \<longrightarrow> ports_connected topo"
  shows "case graph_resource_node_ids (built_graph l) r of
      None \<Rightarrow> resource_ends (layout_edges l) r = {}
    | Some ns \<Rightarrow> set ns = resource_ends (layout_edges l) r"
proof -
  let ?i = "rs_turnout_id r"
  have ids: "distinct (map tt_turnout_id (ld_turnout_topologies l))" using wf by (simp add: topology_wf_def)
  have edges: "{e \<in> layout_edges l. resource_of e = r} = {e \<in> layout_edges l. te_turnout_id e = ?i}"
    using turnout_resource_edges [OF subset_refl r] .
  have topos: "map_of (gr_turnout_topologies (built_graph l)) ?i = Some t \<longleftrightarrow>
      (\<exists>x\<in>set (ld_turnout_topologies l). tt_turnout_id x = ?i \<and> canonical_turnout_topology x = t)" for t
    using map_of_fold_put [OF ids, of canonical_turnout_topology ?i t]
    by (simp add: built_graph_simps track_graph_def Let_def)
  show ?thesis
  proof (cases "map_of (gr_turnout_topologies (built_graph l)) ?i")
    case None
    then have none: "\<forall>x\<in>set (ld_turnout_topologies l). tt_turnout_id x \<noteq> ?i"
      using topos [THEN iffD2] by (metis option.distinct(1))
    have "te_turnout_id e \<noteq> ?i" if "e \<in> layout_edges l" for e
      using that by (cases rule: layout_edge_cases) (use none r(3) in \<open>auto simp: edge_fields\<close>)
    then have "{e \<in> layout_edges l. te_turnout_id e = ?i} = {}" by auto
    then show ?thesis using None edges by (simp add: graph_resource_node_ids_def r(1) resource_ends_def edge_ends_def)
  next
    case (Some t)
    then obtain topo where topo: "topo \<in> set (ld_turnout_topologies l)" "tt_turnout_id topo = ?i" "canonical_turnout_topology topo = t"
      using topos by blast
    have unique: "x = topo" if "x \<in> set (ld_turnout_topologies l)" "tt_turnout_id x = ?i" for x
      using key_unique [OF ids] that topo(1,2) by metis
    have "{e \<in> layout_edges l. te_turnout_id e = ?i} = turnout_edge_of topo ` topology_keys topo"
    proof (intro set_eqI iffI)
      fix e assume "e \<in> {e \<in> layout_edges l. te_turnout_id e = ?i}"
      then have "e \<in> layout_edges l" "te_turnout_id e = ?i" by auto
      then show "e \<in> turnout_edge_of topo ` topology_keys topo"
        by (cases rule: layout_edge_cases) (use unique r(3) in \<open>auto simp: edge_fields\<close>)
    qed (use topo in \<open>auto simp: layout_edges_def edge_fields\<close>)
    then have "resource_ends (layout_edges l) r = port_node topo ` (fst ` topology_keys topo \<union> snd ` topology_keys topo)"
      unfolding resource_ends_def edges by (simp add: edge_ends_def image_image image_Un turnout_edge_of_def)
    also have "\<dots> = port_node topo ` pt_id ` set (tt_ports topo)"
      using connected topo by (simp add: ports_connected_def)
    also have "\<dots> = pt_node_id ` set (tt_ports topo)"
    proof -
      have "distinct (map pt_id (tt_ports topo))"
        using topology_wf_topologies [OF wf] topo(1) by (simp add: topologies_ok_def)
      then have "port_node topo (pt_id p) = pt_node_id p" if "p \<in> set (tt_ports topo)" for p
        using that find_key [of pt_id "tt_ports topo" pt_node_id "pt_id p" "pt_node_id p"]
        by (auto simp: port_node_def split: option.splits)
      then show ?thesis by (simp add: image_image)
    qed
    finally show ?thesis
      using Some topo(3) by (auto simp: graph_resource_node_ids_def r(1) canonical_turnout_topology_def)
  qed
qed

lemma active_turnout_ends:
  assumes "layout_accepted l" and "rs_kind r = EdgeTurnout" "rs_track_section_id r = []" "rs_turnout_id r \<noteq> []"
  shows "case active_resource_node_ids (active_view (built_graph l) turnouts) r of
      None \<Rightarrow> resource_ends (open_edges l turnouts) r = {}
    | Some ns \<Rightarrow> set ns = resource_ends (open_edges l turnouts) r"
proof -
  let ?es = "filter (\<lambda>e. te_turnout_id e = rs_turnout_id r) (map ae_edge (act_edges (active_view (built_graph l) turnouts)))"
  have "set ?es = {e \<in> open_edges l turnouts. te_turnout_id e = rs_turnout_id r}"
    unfolding confirmed_open_edges [OF assms(1), symmetric] confirmed_edges_def by auto
  then have ends: "set (edge_nodes ?es) = resource_ends (open_edges l turnouts) r"
    by (simp add: resource_ends_def turnout_resource_edges [OF open_edges_subset assms(2-)])
  show ?thesis
  proof (cases "edge_nodes ?es")
    case Nil
    then show ?thesis using ends assms(2) by (simp add: active_resource_node_ids_def)
  next
    case (Cons n ns)
    then show ?thesis using ends assms(2) by (simp add: active_resource_node_ids_def)
  qed
qed

subsection \<open>The content of the public definition\<close>

lemma sorted_lookup:
  assumes "distinct (map f xs)"
  shows "map (gm_get z (fold (\<lambda>x. gm_put (f x) (g x)) xs [])) (sort (map f xs)) = map g (sort_key f xs)"
proof -
  have "gm_get z (fold (\<lambda>x. gm_put (f x) (g x)) xs []) (f x) = g x" if "x \<in> set xs" for x
    using map_of_fold_put [OF assms, of g "f x" "g x"] that by (auto simp: gm_get_def)
  then show ?thesis by (simp add: sort_map_key)
qed

lemma built_blocks:
  "gr_blocks (built_graph l) = fold (\<lambda>b. gm_put (bd_id b) (canonical_block b)) (ld_blocks l) []"
  "gr_block_ids (built_graph l) = sort (map bd_id (ld_blocks l))"
proof -
  have "gr_block_ids (fold add_block bs g) = gr_block_ids g @ map bd_id bs" for bs g
    by (induction bs arbitrary: g) (simp_all add: add_block_def)
  then show "gr_blocks (built_graph l) = fold (\<lambda>b. gm_put (bd_id b) (canonical_block b)) (ld_blocks l) []"
    "gr_block_ids (built_graph l) = sort (map bd_id (ld_blocks l))"
    by (simp_all add: built_graph_def track_graph_def Let_def fold_add_block_maps)
qed

definition canonical_content :: "layout_definition \<Rightarrow> definition_content" where
  "canonical_content l =
     \<lparr> dc_nodes = sort_key tn_id (ld_topology_nodes l), dc_track_sections = sort_key ts_id (ld_track_sections l),
       dc_turnout_topologies = map canonical_turnout_topology (sort_key tt_turnout_id (ld_turnout_topologies l)),
       dc_blocks = map canonical_block (sort_key bd_id (ld_blocks l)) \<rparr>"

lemma content_of_built:
  assumes "topology_wf l" and "blocks_wf l"
  shows "content_of (built_graph l) = canonical_content l"
proof -
  have ids: "distinct (map tn_id (ld_topology_nodes l))" "distinct (map ts_id (ld_track_sections l))"
    "distinct (map tt_turnout_id (ld_turnout_topologies l))" "distinct (map bd_id (ld_blocks l))"
    using assms by (simp_all add: topology_wf_def blocks_wf_def sections_wf_def)
  have "graph_nodes (built_graph l) = sort_key tn_id (ld_topology_nodes l)"
    using sorted_lookup [OF ids(1), where g = "\<lambda>x. x"]
    by (simp add: graph_nodes_def built_graph_simps) (simp add: track_graph_def Let_def)
  moreover have "graph_track_sections (built_graph l) = sort_key ts_id (ld_track_sections l)"
    using sorted_lookup [OF ids(2), where g = "\<lambda>x. x"] by (simp add: graph_track_sections_def built_sections)
  moreover have "graph_turnout_topologies (built_graph l) = map canonical_turnout_topology (sort_key tt_turnout_id (ld_turnout_topologies l))"
    using sorted_lookup [OF ids(3), where g = canonical_turnout_topology]
    by (simp add: graph_turnout_topologies_def built_graph_simps) (simp add: track_graph_def Let_def)
  moreover have "graph_blocks (built_graph l) = map canonical_block (sort_key bd_id (ld_blocks l))"
    using sorted_lookup [OF ids(4), where g = canonical_block] by (simp add: graph_blocks_def built_blocks)
  ultimately show ?thesis by (simp add: content_of_def canonical_content_def)
qed

subsection \<open>Canonical forms\<close>

lemma canonical_connection_idem [simp]: "canonical_connection (canonical_connection c) = canonical_connection c"
  by (auto simp: canonical_connection_def dest: less_asym)

lemma connection_key_canonical [simp]: "connection_key (canonical_connection c) = connection_key c"
  by (auto simp: canonical_connection_def new_port_connection_key_def)

lemma canonical_ids [simp]: "tt_turnout_id (canonical_turnout_topology topo) = tt_turnout_id topo" "bd_id (canonical_block b) = bd_id b"
  by (simp_all add: canonical_turnout_topology_def canonical_block_def)

lemma sort_key_map_id:
  assumes "\<And>x. f (h x) = f x" and "\<And>x. x \<in> set xs \<Longrightarrow> h (h x) = h x"
  shows "map h (sort_key f (map h (sort_key f xs))) = map h (sort_key f xs)"
proof -
  have "sorted (map f (map h (sort_key f xs)))" using assms(1) by (simp add: comp_def)
  then have "sort_key f (map h (sort_key f xs)) = map h (sort_key f xs)" by (rule sort_key_id_if_sorted)
  then show ?thesis using assms(2) by simp
qed

lemma canonical_turnout_topology_idem [simp]:
  "canonical_turnout_topology (canonical_turnout_topology topo) = canonical_turnout_topology topo"
proof -
  let ?k = "\<lambda>c. (pc_port_a c, pc_port_b c)"
  let ?h = "\<lambda>p :: turnout_topology_position. p\<lparr> tp_connections := sort_key ?k (map canonical_connection (tp_connections p)) \<rparr>"
  have "map canonical_connection (sort_key ?k (map canonical_connection cs)) = sort_key ?k (map canonical_connection cs)" for cs
    by (rule map_idI) auto
  then have h: "?h (?h p) = ?h p" for p by (simp add: sort_key_id_if_sorted)
  have "sort_key tp_position_id (map ?h (sort_key tp_position_id (map ?h (tt_positions topo)))) =
      sort_key tp_position_id (map ?h (tt_positions topo))"
  proof -
    have "map ?h (sort_key tp_position_id (map ?h ps)) = sort_key tp_position_id (map ?h ps)" for ps
      by (rule map_idI) (use h in auto)
    then show ?thesis by (simp only: sort_key_id_if_sorted sorted_sort_key)
  qed
  then show ?thesis by (simp add: canonical_turnout_topology_def sort_key_id_if_sorted)
qed

lemma canonical_block_idem [simp]: "canonical_block (canonical_block b) = canonical_block b"
  by (simp add: canonical_block_def sorted_sort_id)

lemma canonical_topology_keys [simp]: "topology_keys (canonical_turnout_topology topo) = topology_keys topo"
  by (simp add: topology_keys_def canonical_turnout_topology_def image_image)

lemma find_sort_key:
  assumes "distinct (map f xs)"
  shows "find (\<lambda>x. f x = k) (sort_key f xs) = find (\<lambda>x. f x = k) xs"
proof -
  have d: "distinct (map f (sort_key f xs))" using assms by (metis mset_eq_imp_distinct_iff mset_map mset_sort)
  have "find (\<lambda>x. f x = k) (sort_key f xs) = Some x \<longleftrightarrow> find (\<lambda>x. f x = k) xs = Some x" for x
    using find_key [OF assms, of "\<lambda>x. x" k x] find_key [OF d, of "\<lambda>x. x" k x] by (simp add: option.map_ident)
  then show ?thesis by (metis option.exhaust)
qed

lemma canonical_port_node:
  "distinct (map pt_id (tt_ports topo)) \<Longrightarrow> port_node (canonical_turnout_topology topo) i = port_node topo i"
  by (simp add: port_node_def canonical_turnout_topology_def find_sort_key)

lemma str_set_eq: "set xs = set ys \<Longrightarrow> str_set xs = str_set ys"
  by (metis distinct_str_set set_str_set sorted_distinct_set_unique sorted_str_set)

lemma canonical_positions_joining [simp]: "positions_joining (canonical_turnout_topology topo) k = positions_joining topo k"
  unfolding positions_joining_def
  by (rule str_set_eq) (simp add: canonical_turnout_topology_def Compr_image_eq image_image)

lemma canonical_edge:
  "distinct (map pt_id (tt_ports topo)) \<Longrightarrow> turnout_edge_of (canonical_turnout_topology topo) k = turnout_edge_of topo k"
  by (simp add: turnout_edge_of_def canonical_port_node)

lemma distinct_map_sort_key [simp]: "distinct (map g (sort_key f xs)) = distinct (map g xs)"
  by (metis mset_eq_imp_distinct_iff mset_map mset_sort)

lemma canonical_connections_wf:
  "connections_wf ports (sort_key k (map canonical_connection cs)) = connections_wf ports cs"
proof -
  have "pc_port_a (canonical_connection c) \<in> ports \<and> pc_port_b (canonical_connection c) \<in> ports \<and>
      pc_port_a (canonical_connection c) \<noteq> pc_port_b (canonical_connection c) \<longleftrightarrow>
      pc_port_a c \<in> ports \<and> pc_port_b c \<in> ports \<and> pc_port_a c \<noteq> pc_port_b c" for c
    by (auto simp: canonical_connection_def)
  then show ?thesis by (simp add: connections_wf_def comp_def)
qed

lemma canonical_topology_wf:
  "turnout_topology_wf nodes declared (canonical_turnout_topology topo) = turnout_topology_wf nodes declared topo"
  by (simp add: turnout_topology_wf_def canonical_turnout_topology_def canonical_connections_wf comp_def image_image)

lemma distinct_concat_sort_key: "distinct (concat (map g (sort_key f xs))) = distinct (concat (map g xs))"
proof -
  have "mset (concat (map g ys)) = \<Sum>\<^sub># (image_mset (mset \<circ> g) (mset ys))" for ys by (induction ys) simp_all
  then show ?thesis by (intro mset_eq_imp_distinct_iff) simp
qed

lemma distinct_concat_cong:
  assumes "\<And>x. mset (g x) = mset (h x)"
  shows "distinct (concat (map g xs)) = distinct (concat (map h xs))"
  by (rule mset_eq_imp_distinct_iff) (simp add: mset_concat comp_def assms)

subsection \<open>The layout a client builds from\<close>

definition canonical_layout :: "layout_definition \<Rightarrow> layout_definition" where
  "canonical_layout l = definition_layout \<lparr> td_revision = [], td_content = canonical_content l \<rparr> (ld_turnouts l)"

lemma canonical_layout_fields:
  "ld_topology_nodes (canonical_layout l) = sort_key tn_id (ld_topology_nodes l)"
  "ld_track_sections (canonical_layout l) = sort_key ts_id (ld_track_sections l)"
  "ld_turnout_topologies (canonical_layout l) = map canonical_turnout_topology (sort_key tt_turnout_id (ld_turnout_topologies l))"
  "ld_blocks (canonical_layout l) = map canonical_block (sort_key bd_id (ld_blocks l))"
  "ld_turnouts (canonical_layout l) = ld_turnouts l"
  by (simp_all add: canonical_layout_def definition_layout_def canonical_content_def)

lemma canonical_node_ids [simp]: "node_ids (canonical_layout l) = node_ids l"
  by (simp add: node_ids_def canonical_layout_fields)

lemma canonical_layout_topology_wf: "topology_wf (canonical_layout l) = topology_wf l"
  by (simp add: topology_wf_def canonical_layout_fields sections_wf_def canonical_topology_wf comp_def)

lemma canonical_layout_blocks_wf: "blocks_wf (canonical_layout l) = blocks_wf l"
proof -
  have ids: "tt_turnout_id ` canonical_turnout_topology ` T = tt_turnout_id ` T" for T by (simp add: image_image)
  have "mset (bd_track_section_ids (canonical_block b)) = mset (bd_track_section_ids b)"
    "mset (bd_turnout_ids (canonical_block b)) = mset (bd_turnout_ids b)" for b by (simp_all add: canonical_block_def)
  then have "distinct (concat (map (\<lambda>b. bd_track_section_ids (canonical_block b)) (sort_key bd_id (ld_blocks l)))) =
      distinct (concat (map bd_track_section_ids (ld_blocks l)))"
    "distinct (concat (map (\<lambda>b. bd_turnout_ids (canonical_block b)) (sort_key bd_id (ld_blocks l)))) =
      distinct (concat (map bd_turnout_ids (ld_blocks l)))"
    unfolding distinct_concat_sort_key by - (rule distinct_concat_cong; blast)+
  moreover have "bd_name (canonical_block b) = bd_name b" "set (bd_track_section_ids (canonical_block b)) = set (bd_track_section_ids b)"
    "set (bd_turnout_ids (canonical_block b)) = set (bd_turnout_ids b)" for b by (simp_all add: canonical_block_def)
  ultimately show ?thesis by (simp add: blocks_wf_def canonical_layout_fields comp_def image_image)
qed

lemma canonical_layout_edges:
  assumes "topology_wf l"
  shows "layout_edges (canonical_layout l) = layout_edges l"
proof -
  have "turnout_edge_of (canonical_turnout_topology topo) k = turnout_edge_of topo k" if "topo \<in> set (ld_turnout_topologies l)" for topo k
    using topology_wf_topologies [OF assms] that by (intro canonical_edge) (simp add: topologies_ok_def)
  moreover have "layout_edges x = section_edge ` set (ld_track_sections x) \<union>
      (\<Union>topo\<in>set (ld_turnout_topologies x). turnout_edge_of topo ` topology_keys topo)" for x
    unfolding layout_edges_def by blast
  ultimately show ?thesis by (simp add: canonical_layout_fields image_image cong: SUP_cong_simp)
qed

lemma canonical_layout_accepted:
  assumes "layout_accepted l"
  shows "layout_accepted (canonical_layout l)"
proof -
  note wf = accepted_wf [OF assms]
  have "section_count (canonical_layout l) i = section_count l i" for i
  proof -
    have "length (filter P (sort_key f xs)) = length (filter P xs)" for P and f :: "track_section \<Rightarrow> string" and xs
      by (metis mset_filter mset_sort size_mset)
    then show ?thesis by (simp add: section_count_def canonical_layout_fields)
  qed
  moreover have "is_port (canonical_layout l) i = is_port l i" for i
    by (simp add: is_port_def canonical_layout_fields) (simp add: canonical_turnout_topology_def)
  ultimately have "node_fits (canonical_layout l) n = node_fits l n" for n by (simp add: node_fits_def cong: node_kind.case_cong)
  moreover have "block_connected (canonical_layout l) (canonical_block b) = block_connected l b" for b
    by (simp add: block_connected_def canonical_layout_edges [OF wf(1)])
  ultimately show ?thesis
    using assms wf by (simp add: layout_accepted_def canonical_layout_topology_wf canonical_layout_blocks_wf)
      (simp add: canonical_layout_fields)
qed

lemma canonical_content_idem: "canonical_content (canonical_layout l) = canonical_content l"
  using sort_key_map_id [of tt_turnout_id canonical_turnout_topology "ld_turnout_topologies l"]
    sort_key_map_id [of bd_id canonical_block "ld_blocks l"]
  by (simp add: canonical_content_def canonical_layout_fields sort_key_id_if_sorted)

subsection \<open>Sections and resources\<close>

definition section_resource :: "string \<Rightarrow> resource" where
  "section_resource s = \<lparr> rs_kind = EdgeTrackSection, rs_track_section_id = s, rs_turnout_id = [] \<rparr>"

lemma section_edges_open: "section_edge ` set (ld_track_sections l) \<subseteq> open_edges l turnouts"
  by (auto simp: open_edges_def layout_edges_def edge_fields)

lemma section_edges_layout: "section_edge ` set (ld_track_sections l) \<subseteq> layout_edges l"
  by (auto simp: layout_edges_def)

lemma layout_edge_section:
  assumes "e \<in> layout_edges l"
  shows "te_kind e = EdgeTrackSection \<and> te_track_section_id e = s \<longleftrightarrow> resource_of e = section_resource s"
  using assms by (cases rule: layout_edge_cases) (auto simp: edge_resources section_resource_def edge_fields)

lemma section_ids_distinct: "topology_wf l \<Longrightarrow> distinct (map ts_id (ld_track_sections l))"
  by (simp add: topology_wf_def sections_wf_def)

lemma section_get:
  assumes "topology_wf l" and "s \<in> ts_id ` set (ld_track_sections l)"
  shows "ts_id (gm_get z (gr_sections (built_graph l)) s) = s"
  using gm_get_declared [OF section_ids_distinct [OF assms(1)] assms(2), of z "\<lambda>x. x"] by (auto simp: built_sections)

lemma adjacent_track_sections_of:
  assumes wf: "topology_wf l" and view: "edge_view at_node edges" and sub: "edges \<subseteq> layout_edges l"
    and sections: "section_edge ` set (ld_track_sections l) \<subseteq> edges"
  shows "map ts_id (case map_of (gr_sections (built_graph l)) s of
        None \<Rightarrow> []
      | Some sec \<Rightarrow> adjacent_track_sections s (gr_sections (built_graph l)) [at_node (ts_node_a sec), at_node (ts_node_b sec)]) =
    sorted_list_of_set {s'. resources_meet edges (section_resource s) (section_resource s')}"
proof -
  have "case graph_resource_node_ids (built_graph l) (section_resource s) of
      None \<Rightarrow> resource_ends edges (section_resource s) = {}
    | Some ns \<Rightarrow> set ns = resource_ends edges (section_resource s)"
    by (rule section_resource_ends [OF sub sections section_ids_distinct [OF wf]]) (simp_all add: section_resource_def)
  then have ends: "case map_of (gr_sections (built_graph l)) s of
      None \<Rightarrow> resource_ends edges (section_resource s) = {}
    | Some sec \<Rightarrow> resource_ends edges (section_resource s) = {ts_node_a sec, ts_node_b sec}"
    by (auto simp: graph_resource_node_ids_def section_resource_def split: option.splits)
  show ?thesis
  proof (cases "map_of (gr_sections (built_graph l)) s")
    case None
    then have "{s'. resources_meet edges (section_resource s) (section_resource s')} = {}"
      using ends by (simp add: resources_meet_ends)
    then show ?thesis using None by simp
  next
    case (Some sec)
    let ?at = "concat [at_node (ts_node_a sec), at_node (ts_node_b sec)]"
    let ?ids = "map te_track_section_id (filter (\<lambda>e. te_kind e = EdgeTrackSection \<and> te_track_section_id e \<noteq> s) ?at)"
    have at: "set ?at = {e \<in> edges. \<exists>n\<in>resource_ends edges (section_resource s). edge_touches n e}"
      using ends Some by (auto simp: edge_view.at_node [OF view])
    have "s' \<in> set ?ids \<longleftrightarrow> resources_meet edges (section_resource s) (section_resource s')" for s'
    proof -
      have "s' \<in> set ?ids \<longleftrightarrow> s' \<noteq> s \<and> (\<exists>e\<in>set ?at. te_kind e = EdgeTrackSection \<and> te_track_section_id e = s')" by auto
      also have "\<dots> \<longleftrightarrow> s' \<noteq> s \<and> (\<exists>e\<in>set ?at. resource_of e = section_resource s')"
        unfolding at using sub layout_edge_section by (metis (no_types, lifting) mem_Collect_eq subsetD)
      also have "\<dots> \<longleftrightarrow> resources_meet edges (section_resource s) (section_resource s')"
        unfolding at resources_meet_ends by (auto simp: section_resource_def)
      finally show ?thesis .
    qed
    then have ids: "str_set ?ids = sorted_list_of_set {s'. resources_meet edges (section_resource s) (section_resource s')}"
      by (intro str_set_list set_eqI) (simp only: mem_Collect_eq)
    have "s' \<in> ts_id ` set (ld_track_sections l)" if "s' \<in> set ?ids" for s'
    proof -
      from that obtain e where e: "e \<in> edges" "te_kind e = EdgeTrackSection" "te_track_section_id e = s'" using at by auto
      then have "e \<in> layout_edges l" using sub by blast
      then show ?thesis by (cases rule: layout_edge_cases) (use e in \<open>auto simp: edge_fields\<close>)
    qed
    then have "map (ts_id \<circ> gm_get z (gr_sections (built_graph l))) (str_set ?ids) = str_set ?ids" for z
      by (intro map_idI) (simp add: section_get [OF wf])
    then show ?thesis using Some ids by (simp add: adjacent_track_sections_def)
  qed
qed

lemma resource_ends_of:
  assumes ok: "layout_accepted l" and r: "rs_kind r0 = EdgeTurnout \<longrightarrow> rs_turnout_id r0 \<noteq> []"
  defines "r \<equiv> canonical_resource r0"
  shows "case active_resource_node_ids (active_view (built_graph l) turnouts) r of
      None \<Rightarrow> resource_ends (open_edges l turnouts) r = {}
    | Some ns \<Rightarrow> set ns = resource_ends (open_edges l turnouts) r"
    and "\<forall>topo\<in>set (ld_turnout_topologies l). tt_turnout_id topo = rs_turnout_id r \<longrightarrow> ports_connected topo \<Longrightarrow>
      case graph_resource_node_ids (built_graph l) r of
        None \<Rightarrow> resource_ends (layout_edges l) r = {}
      | Some ns \<Rightarrow> set ns = resource_ends (layout_edges l) r"
proof -
  note wf = accepted_wf(1) [OF ok]
  consider (sec) "rs_kind r = EdgeTrackSection" "rs_turnout_id r = []"
    | (turn) "rs_kind r = EdgeTurnout" "rs_track_section_id r = []" "rs_turnout_id r \<noteq> []"
    | (other) k where "rs_kind r = EdgeKindOther k"
    using r by (cases "rs_kind r0") (auto simp: r_def canonical_resource_def Let_def)
  note cases = this
  have none: "resource_ends edges r = {}" if "rs_kind r = EdgeKindOther k" "edges \<subseteq> layout_edges l" for edges k
  proof -
    have "resource_of e \<noteq> r" if "e \<in> layout_edges l" for e
      using that by (cases rule: layout_edge_cases) (use \<open>rs_kind r = EdgeKindOther k\<close> in \<open>auto simp: edge_resources\<close>)
    then show ?thesis using that(2) by (auto simp: resource_ends_def edge_ends_def)
  qed
  show "case active_resource_node_ids (active_view (built_graph l) turnouts) r of
      None \<Rightarrow> resource_ends (open_edges l turnouts) r = {}
    | Some ns \<Rightarrow> set ns = resource_ends (open_edges l turnouts) r"
    using cases
  proof cases
    case sec
    then show ?thesis
      using section_resource_ends [OF open_edges_subset section_edges_open section_ids_distinct [OF wf] sec]
      by (simp add: active_resource_node_ids_def active_static)
  next
    case turn
    then show ?thesis by (rule active_turnout_ends [OF ok])
  next
    case other
    then show ?thesis using none [OF other open_edges_subset] by (simp add: active_resource_node_ids_def)
  qed
  assume ports: "\<forall>topo\<in>set (ld_turnout_topologies l). tt_turnout_id topo = rs_turnout_id r \<longrightarrow> ports_connected topo"
  show "case graph_resource_node_ids (built_graph l) r of
      None \<Rightarrow> resource_ends (layout_edges l) r = {}
    | Some ns \<Rightarrow> set ns = resource_ends (layout_edges l) r"
    using cases
  proof cases
    case sec
    then show ?thesis by (rule section_resource_ends [OF subset_refl section_edges_layout section_ids_distinct [OF wf]])
  next
    case turn
    then show ?thesis using ports by (rule turnout_resource_ends [OF wf])
  next
    case other
    then show ?thesis using none [OF other subset_refl] by (simp add: graph_resource_node_ids_def)
  qed
qed

subsection \<open>Properties\<close>

lemma active_edge_view:
  "layout_accepted l \<Longrightarrow> edge_view (edges_from_active (active_view (built_graph l) turnouts)) (open_edges l turnouts)"
  using active.edge_view_axioms [of "built_graph l" turnouts] by (simp add: confirmed_open_edges)

lemma static_edge_view: "layout_accepted l \<Longrightarrow> edge_view (edges_from_static (built_graph l)) (layout_edges l)"
  using static_view.edge_view_axioms [of l] by (simp add: static_edges_def built_edges)

text \<open>
  On a built graph the neighbours of a node are exactly the nodes an edge joins it with,
  and the sections adjacent to a section exactly those that share one of its ends, sorted by
  identifier; the active view answers the same for the edges the confirmed turnout positions
  leave open.
\<close>

theorem neighborhood_queries:
  assumes "build l = Some (Inr g)" and "n \<in> node_ids l"
  shows "map tn_id (graph_neighbor_nodes g n) = sorted_list_of_set (edge_links (layout_edges l) `` {n}) \<and>
    set (graph_neighbor_nodes g n) \<subseteq> set (ld_topology_nodes l) \<and>
    map tn_id (active_neighbor_nodes (active_view g turnouts) n) = sorted_list_of_set (edge_links (open_edges l turnouts) `` {n}) \<and>
    map ts_id (graph_adjacent_track_sections g s) =
      sorted_list_of_set {s'. resources_meet (layout_edges l) (section_resource s) (section_resource s')} \<and>
    map ts_id (active_adjacent_track_sections (active_view g turnouts) s) =
      sorted_list_of_set {s'. resources_meet (open_edges l turnouts) (section_resource s) (section_resource s')}"
proof -
  have ok: "layout_accepted l" and g: "g = built_graph l" using assms(1) by (simp_all add: build_Inr)
  note static = static_edge_view [OF ok] and active = active_edge_view [OF ok, of turnouts]
  note wf = accepted_wf(1) [OF ok]
  show ?thesis
    using neighbor_nodes_of [OF ok assms(2) static subset_refl] neighbor_nodes_of(1) [OF ok assms(2) active open_edges_subset]
      adjacent_track_sections_of [OF wf static subset_refl section_edges_layout, of s]
      adjacent_track_sections_of [OF wf active open_edges_subset section_edges_open, of s]
    unfolding g graph_neighbor_nodes_def active_neighbor_nodes_def graph_adjacent_track_sections_def
      active_adjacent_track_sections_def active_static
    by blast
qed

theorem neighborhood_queries_witness:
  "\<exists>g. build example_layout = Some (Inr g) \<and>
     map tn_id (graph_neighbor_nodes g ''b'') = sorted_list_of_set (edge_links (layout_edges example_layout) `` {''b''})"
proof -
  obtain g where g: "build example_layout = Some (Inr g)" using example_builds by blast
  have "''b'' \<in> node_ids example_layout" by code_simp
  then show ?thesis using g neighborhood_queries [OF g] by blast
qed

text \<open>
  The active view lists as adjacent exactly the resources of which an open edge meets an
  open edge of the given one, a symmetric relation. So does the static graph when every port of
  the turnout asked for is connected in some position.
\<close>

theorem adjacent_resources_meet:
  assumes "build l = Some (Inr g)" and "rs_kind r = EdgeTurnout \<longrightarrow> rs_turnout_id r \<noteq> []"
  shows "(r' \<in> set (active_adjacent_resources (active_view g turnouts) r) \<longleftrightarrow>
      resources_meet (open_edges l turnouts) (canonical_resource r) r') \<and>
    ((\<forall>topo\<in>set (ld_turnout_topologies l). tt_turnout_id topo = rs_turnout_id (canonical_resource r) \<longrightarrow> ports_connected topo) \<longrightarrow>
      (r' \<in> set (graph_adjacent_resources g r) \<longleftrightarrow> resources_meet (layout_edges l) (canonical_resource r) r'))"
proof -
  have ok: "layout_accepted l" and g: "g = built_graph l" using assms(1) by (simp_all add: build_Inr)
  let ?r = "canonical_resource r"
  have meet: "\<not> resources_meet edges ?r r'" if "resource_ends edges ?r = {}" for edges
    using that by (simp add: resources_meet_ends)
  have "r' \<in> set (active_adjacent_resources (active_view g turnouts) r) \<longleftrightarrow> resources_meet (open_edges l turnouts) ?r r'"
    using resource_ends_of(1) [OF ok assms(2), of turnouts] adjacent_iff_meet [OF active_edge_view [OF ok, of turnouts]] meet
    by (auto simp: g active_adjacent_resources_def Let_def active_resources_at_node_def [abs_def] split: option.splits)
  moreover have "r' \<in> set (graph_adjacent_resources g r) \<longleftrightarrow> resources_meet (layout_edges l) ?r r'"
    if "\<forall>topo\<in>set (ld_turnout_topologies l). tt_turnout_id topo = rs_turnout_id ?r \<longrightarrow> ports_connected topo"
    using resource_ends_of(2) [OF ok assms(2) that] adjacent_iff_meet [OF static_edge_view [OF ok]] meet
    by (auto simp: g graph_adjacent_resources_def Let_def graph_resources_at_node_def [abs_def] split: option.splits)
  ultimately show ?thesis by blast
qed

theorem adjacent_resources_meet_witness:
  "\<exists>g. build example_layout = Some (Inr g) \<and>
     (section_resource ''s1'' \<in> set (graph_adjacent_resources g \<lparr> rs_kind = EdgeTurnout, rs_track_section_id = ''x'', rs_turnout_id = ''t1'' \<rparr>) \<longleftrightarrow>
       resources_meet (layout_edges example_layout) \<lparr> rs_kind = EdgeTurnout, rs_track_section_id = [], rs_turnout_id = ''t1'' \<rparr> (section_resource ''s1''))"
proof -
  obtain g where g: "build example_layout = Some (Inr g)" using example_builds by blast
  have "list_all ports_connected (ld_turnout_topologies example_layout)"
    by (simp add: example_layout_def ports_connected_def topology_keys_def new_port_connection_key_def) auto
  then show ?thesis
    using g adjacent_resources_meet [OF g, of "\<lparr> rs_kind = EdgeTurnout, rs_track_section_id = ''x'', rs_turnout_id = ''t1'' \<rparr>"]
    by (auto simp: list_all_iff canonical_resource_def)
qed

text \<open>
  C32: A published definition is accepted by the client that receives it with the same turnouts:
  it computes the same revision, whatever the digest, and builds a graph of the same content and
  the same edges. With any other revision it is refused.
\<close>

theorem public_definition_accepted:
  assumes "definition_from_layout revision l = Some (Inr d)"
  shows "(\<exists>g. build_definition revision d (ld_turnouts l) = Some (Inr g) \<and> content_of g = td_content d \<and>
      set (gr_edges g) = layout_edges l) \<and>
    (\<forall>other. other = td_revision d \<or>
      build_definition revision (d\<lparr> td_revision := other \<rparr>) (ld_turnouts l) = Some (Inl RevisionMismatch))"
proof -
  obtain g where g: "build l = Some (Inr g)" "d = \<lparr> td_revision = revision (content_of g), td_content = content_of g \<rparr>"
    using assms by (auto simp: definition_from_layout_def split: option.splits sum.splits)
  then have ok: "layout_accepted l" and "g = built_graph l" by (simp_all add: build_Inr)
  then have d: "d = \<lparr> td_revision = revision (canonical_content l), td_content = canonical_content l \<rparr>"
    using g(2) content_of_built accepted_wf [OF ok] by simp
  let ?c = "canonical_layout l"
  have c: "definition_layout (d\<lparr> td_revision := other \<rparr>) (ld_turnouts l) = ?c" "definition_layout d (ld_turnouts l) = ?c" for other
    by (simp_all add: d canonical_layout_def definition_layout_def)
  have ok': "layout_accepted ?c" by (rule canonical_layout_accepted [OF ok])
  then have b: "build ?c = Some (Inr (built_graph ?c))" by (simp add: build_Inr)
  have content: "content_of (built_graph ?c) = canonical_content l"
    using content_of_built accepted_wf [OF ok'] canonical_content_idem by simp
  have "definition_from_layout revision ?c = Some (Inr d)" by (simp add: definition_from_layout_def b content d)
  moreover have "set (gr_edges (built_graph ?c)) = layout_edges l"
    using built_edges [OF ok'] canonical_layout_edges [OF accepted_wf(1) [OF ok]] by simp
  ultimately show ?thesis using b content by (simp add: build_definition_def c) (simp add: d)
qed

theorem public_definition_accepted_witness:
  "\<exists>d g. definition_from_layout (\<lambda>c. concat (map tn_id (dc_nodes c))) example_layout = Some (Inr d) \<and>
     build_definition (\<lambda>c. concat (map tn_id (dc_nodes c))) d (ld_turnouts example_layout) = Some (Inr g) \<and>
     content_of g = td_content d"
proof -
  obtain g where "build example_layout = Some (Inr g)" using example_builds by blast
  then obtain d where "definition_from_layout (\<lambda>c. concat (map tn_id (dc_nodes c))) example_layout = Some (Inr d)"
    by (simp add: definition_from_layout_def)
  then show ?thesis using public_definition_accepted by blast
qed

end
