(* ===== verification/Frames.thy ===== *)
theory Frames
  imports Prelude
begin

unbundle bit_operations_syntax

text \<open>
  The framing layer of \<^verbatim>\<open>internal/websocket/websocket.go\<close>: what the server writes for a payload,
  and how it reads the frames of a client, byte by byte. A connection is the list of bytes still
  to be read; what is written is returned. The handshake, deadlines and JSON are not part of it.
\<close>

type_synonym byte = "8 word"

datatype ws_error =
    WsEof | WsUnexpectedEof | WsFragmented | WsNotMasked | WsTooLarge | WsUnsupportedOpcode byte

abbreviation max_payload :: nat where
  "max_payload \<equiv> 1048576"

subsection \<open>Bytes\<close>

text \<open>\<^verbatim>\<open>binary.BigEndian\<close>: the value of a byte sequence and the bytes of a value.\<close>

definition big_endian :: "byte list \<Rightarrow> nat" where
  "big_endian bs = foldl (\<lambda>n b. n * 256 + unat b) 0 bs"

fun put_big_endian :: "nat \<Rightarrow> nat \<Rightarrow> byte list" where
  "put_big_endian 0 n = []"
| "put_big_endian (Suc k) n = put_big_endian k (n div 256) @ [word_of_nat (n mod 256)]"

text \<open>\<^verbatim>\<open>io.ReadFull\<close>.\<close>

definition read_full :: "nat \<Rightarrow> byte list \<Rightarrow> ws_error + (byte list \<times> byte list)" where
  "read_full n s =
     (if n \<le> length s then Inr (take n s, drop n s)
      else Inl (if s = [] then WsEof else WsUnexpectedEof))"

subsection \<open>Writing\<close>

definition write_frame :: "byte \<Rightarrow> byte list \<Rightarrow> ws_error + byte list" where
  "write_frame opcode payload =
     (let n = length payload
      in if n > max_payload then Inl WsTooLarge
         else Inr ([0x80 OR opcode] @
                (if n < 126 then [word_of_nat n]
                 else if n \<le> 65535 then [126] @ put_big_endian 2 n
                 else [127] @ put_big_endian 8 n) @ payload))"

subsection \<open>Reading\<close>

definition unmask :: "byte list \<Rightarrow> byte list \<Rightarrow> byte list" where
  "unmask mk payload = map (\<lambda>(i, b). b XOR mk ! (i mod 4)) (enumerate 0 payload)"

text \<open>The part after the length is known.\<close>

definition read_payload :: "byte \<Rightarrow> nat \<Rightarrow> byte list \<Rightarrow> ws_error + (byte \<times> byte list \<times> byte list)" where
  "read_payload opcode n s =
     (if n > max_payload then Inl WsTooLarge
      else rbind (read_full 4 s) (\<lambda>(mk, s1).
        rbind (read_full n s1) (\<lambda>(payload, s2). Inr (opcode, unmask mk payload, s2))))"

definition read_frame :: "byte list \<Rightarrow> ws_error + (byte \<times> byte list \<times> byte list)" where
  "read_frame s =
     (case s of
        [] \<Rightarrow> Inl WsEof
      | [_] \<Rightarrow> Inl WsEof
      | first # snd_byte # s1 \<Rightarrow>
          (if first AND 0x80 = 0 then Inl WsFragmented
           else if snd_byte AND 0x80 = 0 then Inl WsNotMasked
           else
             let opcode = first AND 0x0F; n0 = unat (snd_byte AND 0x7F)
             in rbind (if n0 = 126 then rbind (read_full 2 s1) (\<lambda>(b, s2). Inr (big_endian b, s2)) else Inr (n0, s1))
                  (\<lambda>(n1, s2). rbind (if n1 = 127 then rbind (read_full 8 s2) (\<lambda>(b, s3). Inr (big_endian b, s3)) else Inr (n1, s2))
                    (\<lambda>(n, s3). read_payload opcode n s3))))"

lemma read_full_rest: "read_full n s = Inr (b, r) \<Longrightarrow> length r \<le> length s"
  by (auto simp: read_full_def split: if_splits)

lemma read_frame_shorter: "read_frame s = Inr (opcode, payload, r) \<Longrightarrow> length r < length s"
  by (auto simp: read_frame_def read_payload_def Let_def split: list.splits if_splits dest!: read_full_rest)

text \<open>
  The loop of \<^verbatim>\<open>ReadJSON\<close>, up to the text it hands to the JSON decoder; also what it wrote, and
  the bytes left.
\<close>

function read_text :: "byte list \<Rightarrow> (ws_error + byte list) \<times> byte list \<times> byte list" where
  "read_text s =
     (case read_frame s of
        Inl e \<Rightarrow> (Inl e, [], s)
      | Inr (opcode, payload, r) \<Rightarrow>
          (if opcode = 1 then (Inr payload, [], r)
           else if opcode = 8 then (Inl WsEof, [], r)
           else if opcode = 9 then
             (case write_frame 10 payload of
                Inl e \<Rightarrow> (Inl e, [], r)
              | Inr out \<Rightarrow> (case read_text r of (res, out', r') \<Rightarrow> (res, out @ out', r')))
           else if opcode = 10 then read_text r
           else (Inl (WsUnsupportedOpcode opcode), [], r)))"
  by auto

termination
  by (relation "measure length") (auto simp: read_frame_shorter)

declare read_text.simps [simp del]

subsection \<open>The frames of a client\<close>

text \<open>A final, masked frame with the shortest length encoding, as RFC 6455 prescribes it.\<close>

definition client_frame :: "byte \<Rightarrow> byte list \<Rightarrow> byte list \<Rightarrow> byte list" where
  "client_frame opcode mk payload =
     (let n = length payload
      in [0x80 OR opcode] @
         (if n < 126 then [0x80 OR word_of_nat n]
          else if n \<le> 65535 then [0x80 OR 126] @ put_big_endian 2 n
          else [0x80 OR 127] @ put_big_endian 8 n) @ mk @ unmask mk payload)"

lemma length_put_big_endian [simp]: "length (put_big_endian k n) = k"
  by (induction k arbitrary: n) auto

lemma big_endian_put: "big_endian (put_big_endian k n) = n mod 256 ^ k"
proof (induction k arbitrary: n)
  case (Suc k)
  have "unat (word_of_nat (n mod 256) :: byte) = n mod 256" by (simp add: unat_of_nat)
  then have "big_endian (put_big_endian (Suc k) n) = (n div 256) mod 256 ^ k * 256 + n mod 256"
    using Suc by (simp add: big_endian_def)
  also have "\<dots> = n mod 256 ^ Suc k" by (simp add: mod_mult2_eq mult.commute)
  finally show ?case .
qed (simp add: big_endian_def)

lemma length_unmask [simp]: "length (unmask mk payload) = length payload"
  by (simp add: unmask_def)

lemma nth_unmask: "i < length payload \<Longrightarrow> unmask mk payload ! i = payload ! i XOR mk ! (i mod 4)"
  by (simp add: unmask_def nth_enumerate_eq)

lemma unmask_unmask [simp]: "unmask mk (unmask mk payload) = payload"
  by (rule nth_equalityI) (simp_all add: nth_unmask xor.assoc)

lemma read_full_append: "length b = n \<Longrightarrow> read_full n (b @ s) = Inr (b, s)"
  by (simp add: read_full_def)

lemma header_bits:
  "list_all (\<lambda>k. (0x80 OR word_of_nat k) AND 0x80 \<noteq> (0 :: byte) \<and> unat ((0x80 OR word_of_nat k :: byte) AND 0x7F) = k) [0..<128]"
  "list_all (\<lambda>k. (0x80 OR word_of_nat k) AND 0x80 \<noteq> (0 :: byte) \<and> (0x80 OR word_of_nat k :: byte) AND 0x0F = word_of_nat k) [0..<16]"
  by code_simp+

lemma length_bits:
  "k < 128 \<Longrightarrow> (0x80 OR word_of_nat k) AND 0x80 \<noteq> (0 :: byte) \<and> unat ((0x80 OR word_of_nat k :: byte) AND 0x7F) = k"
  using header_bits(1) by (simp only: list_all_iff set_upt atLeastLessThan_iff) auto

lemma opcode_bits:
  assumes "opcode < (16 :: byte)"
  shows "(0x80 OR opcode) AND 0x80 \<noteq> (0 :: byte) \<and> (0x80 OR opcode) AND 0x0F = opcode"
proof -
  have "unat opcode < 16" using assms by (simp add: word_less_nat_alt)
  then have k: "unat opcode \<in> set [0..<16]" by simp
  have "word_of_nat (unat opcode) = opcode" by simp
  with bspec [OF header_bits(2) [unfolded list_all_iff] k] show ?thesis by (simp only: simp_thms)
qed

lemma read_payload_unmask:
  "length mk = 4 \<Longrightarrow> length payload \<le> max_payload \<Longrightarrow>
     read_payload opcode (length payload) (mk @ unmask mk payload @ rest) = Inr (opcode, payload, rest)"
  by (simp add: read_payload_def read_full_append)

lemma read_frame_client:
  assumes "opcode < 16" and "length mk = 4" and "length payload \<le> max_payload"
  shows "read_frame (client_frame opcode mk payload @ rest) =
    (if length payload = 127
     then read_payload opcode (big_endian (mk @ take 4 (unmask mk payload))) (drop 4 (unmask mk payload) @ rest)
     else Inr (opcode, payload, rest))"
proof -
  let ?n = "length payload" and ?body = "mk @ unmask mk payload @ rest"
  note op = opcode_bits [OF assms(1)]
  consider (short) "?n < 126" | (medium) "126 \<le> ?n" "?n \<le> 65535" | (long) "65535 < ?n" by linarith
  then show ?thesis
  proof cases
    case short
    then have "client_frame opcode mk payload @ rest = (0x80 OR opcode) # (0x80 OR word_of_nat ?n) # ?body"
      by (simp add: client_frame_def)
    then show ?thesis using short op length_bits [of ?n] read_payload_unmask [OF assms(2,3), of opcode rest]
      by (simp add: read_frame_def Let_def)
  next
    case medium
    have len: "unat ((0x80 OR 126 :: byte) AND 0x7F) = 126" "(0x80 OR 126) AND 0x80 \<noteq> (0 :: byte)"
      using length_bits [of 126] by simp_all
    have "client_frame opcode mk payload @ rest = (0x80 OR opcode) # (0x80 OR 126) # put_big_endian 2 ?n @ ?body"
      using medium by (simp add: client_frame_def)
    moreover have "big_endian (put_big_endian 2 ?n) = ?n" using medium by (simp add: big_endian_put)
    ultimately have r: "read_frame (client_frame opcode mk payload @ rest) =
        rbind (if ?n = 127 then rbind (read_full 8 ?body) (\<lambda>(b, s3). Inr (big_endian b, s3)) else Inr (?n, ?body))
          (\<lambda>(n, s3). read_payload opcode n s3)"
      using op len by (simp add: read_frame_def Let_def read_full_append)
    show ?thesis
    proof (cases "?n = 127")
      case True
      have "?body = (mk @ take 4 (unmask mk payload)) @ drop 4 (unmask mk payload) @ rest" by simp
      moreover have "length (mk @ take 4 (unmask mk payload)) = 8" using assms(2) True by simp
      ultimately have "read_full 8 ?body = Inr (mk @ take 4 (unmask mk payload), drop 4 (unmask mk payload) @ rest)"
        by (metis read_full_append)
      then show ?thesis using r True by simp
    next
      case False
      then show ?thesis using r read_payload_unmask [OF assms(2,3), of opcode rest] by simp
    qed
  next
    case long
    have len: "unat ((0x80 OR 127 :: byte) AND 0x7F) = 127" "(0x80 OR 127) AND 0x80 \<noteq> (0 :: byte)"
      using length_bits [of 127] by simp_all
    have "client_frame opcode mk payload @ rest = (0x80 OR opcode) # (0x80 OR 127) # put_big_endian 8 ?n @ ?body"
      using long by (simp add: client_frame_def)
    moreover have "big_endian (put_big_endian 8 ?n) = ?n" using assms(3) by (simp add: big_endian_put)
    ultimately show ?thesis
      using op len long read_payload_unmask [OF assms(2,3), of opcode rest]
      by (simp add: read_frame_def Let_def read_full_append)
  qed
qed

text \<open>
  A text is handed on; a ping before it is answered by a pong with the same payload, and a pong
  is skipped.
\<close>

lemma read_text_client:
  assumes "length mk = 4" and "length payload \<le> max_payload" and "length payload \<noteq> 127"
  shows "read_text (client_frame 1 mk payload @ rest) = (Inr payload, [], rest)"
    and "write_frame 10 payload = Inr pong \<Longrightarrow>
      read_text (client_frame 9 mk payload @ rest) = (case read_text rest of (res, out, r) \<Rightarrow> (res, pong @ out, r))"
    and "read_text (client_frame 10 mk payload @ rest) = read_text rest"
  using read_frame_client [of 1 mk payload rest] read_frame_client [of 9 mk payload rest]
    read_frame_client [of 10 mk payload rest] assms
  by (subst read_text.simps, simp)+

subsection \<open>The frames of the server\<close>

text \<open>How a client that follows RFC 6455 reads an unmasked final frame.\<close>

definition client_reads :: "byte list \<Rightarrow> (byte \<times> byte list \<times> byte list) option" where
  "client_reads s =
     (case s of
        first # l # s1 \<Rightarrow>
          (let (n, s2) = (if l = 126 then (big_endian (take 2 s1), drop 2 s1)
                          else if l = 127 then (big_endian (take 8 s1), drop 8 s1)
                          else (unat l, s1))
           in if length s2 < n then None else Some (first AND 0x0F, take n s2, drop n s2))
      | _ \<Rightarrow> None)"

lemma write_frame_read:
  assumes "opcode < 16" and "length payload \<le> max_payload"
  shows "\<exists>out. write_frame opcode payload = Inr out \<and> client_reads (out @ rest) = Some (opcode, payload, rest)"
proof -
  let ?n = "length payload"
  have op: "(0x80 OR opcode) AND 0x0F = opcode" using opcode_bits [OF assms(1)] by blast
  consider (short) "?n < 126" | (medium) "126 \<le> ?n" "?n \<le> 65535" | (long) "65535 < ?n" by linarith
  then show ?thesis
  proof cases
    case short
    then have "unat (word_of_nat ?n :: byte) = ?n" by (simp add: unat_of_nat)
    moreover from this have "(word_of_nat ?n :: byte) \<noteq> 126" "(word_of_nat ?n :: byte) \<noteq> 127" using short by auto
    ultimately show ?thesis using short op by (simp add: write_frame_def client_reads_def Let_def)
  next
    case medium
    then have "big_endian (put_big_endian 2 ?n) = ?n" by (simp add: big_endian_put)
    then show ?thesis using medium op by (simp add: write_frame_def client_reads_def Let_def)
  next
    case long
    have "big_endian (put_big_endian 8 ?n) = ?n" using assms(2) by (simp add: big_endian_put)
    then show ?thesis using long op assms(2) by (simp add: write_frame_def client_reads_def Let_def)
  qed
qed

text \<open>
  C39: A frame of a client with a payload of up to one mebibyte is read back exactly, whatever
  follows it, unless the payload has 127 bytes: the 16-bit length 127 is then taken for the
  marker of a 64-bit length, and the mask and the first bytes of the payload are read as that
  length.
\<close>

theorem read_client_frame:
  assumes "opcode < 16" and "length mk = 4" and "length payload \<le> max_payload"
  shows "read_frame (client_frame opcode mk payload @ rest) =
    (if length payload = 127
     then read_payload opcode (big_endian (mk @ take 4 (unmask mk payload))) (drop 4 (unmask mk payload) @ rest)
     else Inr (opcode, payload, rest))"
  using assms by (rule read_frame_client)

lemma take_unmask: "take k (unmask mk payload) = unmask mk (take k payload)"
  by (rule nth_equalityI) (simp_all add: nth_unmask)

lemma read_client_frame_witness:
  "read_frame (client_frame 1 [1, 2, 3, 4] (replicate 127 0) @ []) = Inl WsTooLarge \<and>
   read_frame (client_frame 1 [1, 2, 3, 4] [104, 105] @ [7]) = Inr (1, [104, 105], [7])"
proof -
  have "take 4 (unmask [1, 2, 3, 4] (replicate 127 0)) = [1, 2, 3, 4 :: byte]"
  proof -
    have "take 4 (replicate 127 (0 :: byte)) = replicate 4 0" by (simp add: take_replicate)
    moreover have "replicate 4 (0 :: byte) = [0, 0, 0, 0]" by (simp add: numeral_eq_Suc)
    moreover have "unmask [1, 2, 3, 4] [0, 0, 0, 0] = [1, 2, 3, 4 :: byte]" by code_simp
    ultimately show ?thesis by (simp only: take_unmask)
  qed
  then have "read_payload 1 (big_endian ([1, 2, 3, 4] @ take 4 (unmask [1, 2, 3, 4] (replicate 127 0))))
      (drop 4 (unmask [1, 2, 3, 4] (replicate 127 0)) @ []) = Inl WsTooLarge"
    by (simp only: read_payload_def big_endian_def) simp
  moreover have p: "(1 :: byte) < 16" "length [1, 2, 3, 4 :: byte] = 4" "length (replicate 127 (0 :: byte)) \<le> max_payload"
    "length [104, 105 :: byte] \<le> max_payload" by simp_all
  moreover have "length (replicate 127 (0 :: byte)) = 127" by (rule length_replicate)
  ultimately have "read_frame (client_frame 1 [1, 2, 3, 4] (replicate 127 0) @ []) = Inl WsTooLarge"
    using read_client_frame [OF p(1,2,3), of "[]"] by (simp only: if_True simp_thms)
  then show ?thesis using read_client_frame [OF p(1,2,4), of "[7]"] by (simp only:) simp
qed

end
