(* ===== verification/EventBus.thy ===== *)
theory EventBus
  imports Prelude "HOL-Library.Sublist"
begin

text \<open>
  The event bus of \<^verbatim>\<open>internal/events/bus.go\<close>. Publishing gives every event the next sequence
  number and offers it to each subscriber without blocking: a full subscriber loses its oldest
  event and is told so. Subscribers read concurrently; the model lets them read between any two
  channel operations of a delivery. What a subscriber has read, and how many overflow signals
  it has taken, are part of its state here, and the log of all events is kept beside the bus.
  A subscriber with an unbuffered channel is taken never to wait in a receive at the very moment
  of a send; the one caller subscribes with a buffer.
\<close>

subsection \<open>The bus\<close>

record 'p event =
  ev_type :: string
  ev_sequence :: "64 word"
  ev_timestamp :: time
  ev_payload :: 'p

record 'p subscription =
  sb_capacity :: nat
  sb_events :: "'p event list"
  sb_overflow :: bool
  sb_read :: "'p event list"
  sb_signals :: nat
  sb_since :: nat

record 'p bus =
  bus_seq :: "64 word"
  bus_subs :: "(nat, 'p subscription) gomap"
  bus_log :: "'p event list"

definition new_bus :: "'p bus" where
  "new_bus = \<lparr> bus_seq = 0, bus_subs = [], bus_log = [] \<rparr>"

definition current_sequence :: "'p bus \<Rightarrow> 64 word" where
  "current_sequence b = bus_seq b"

subsection \<open>Channels\<close>

text \<open>A receive, a send that does not block, and reading some events at once.\<close>

definition receive :: "'p subscription \<Rightarrow> 'p subscription" where
  "receive s =
     (case sb_events s of
        [] \<Rightarrow> s
      | e # es \<Rightarrow> s\<lparr> sb_events := es, sb_read := sb_read s @ [e] \<rparr>)"

definition try_send :: "'p event \<Rightarrow> 'p subscription \<Rightarrow> bool \<times> 'p subscription" where
  "try_send e s =
     (if length (sb_events s) < sb_capacity s then (True, s\<lparr> sb_events := sb_events s @ [e] \<rparr>) else (False, s))"

definition evict :: "'p subscription \<Rightarrow> bool \<times> 'p subscription" where
  "evict s = (case sb_events s of [] \<Rightarrow> (False, s) | e # es \<Rightarrow> (True, s\<lparr> sb_events := es \<rparr>))"

definition take_signal :: "'p subscription \<Rightarrow> 'p subscription" where
  "take_signal s = (if sb_overflow s then s\<lparr> sb_overflow := False, sb_signals := Suc (sb_signals s) \<rparr> else s)"

subsection \<open>Operations\<close>

text \<open>
  The body of the loop in \<^verbatim>\<open>Publish\<close>; the subscriber reads \<open>i\<close> events after a failed send and
  \<open>j\<close> more after the eviction.
\<close>

definition deliver :: "nat \<Rightarrow> nat \<Rightarrow> 'p event \<Rightarrow> 'p subscription \<Rightarrow> 'p subscription" where
  "deliver i j e s =
     (let (sent, s1) = try_send e s;
          (dropped, s4) =
            (if sent then (False, s1)
             else
               let (evicted, s2) = evict ((receive ^^ i) s1);
                   (sent', s3) = try_send e ((receive ^^ j) s2)
               in (evicted \<or> \<not> sent', s3))
      in if dropped then s4\<lparr> sb_overflow := True \<rparr> else s4)"

definition publish_event ::
  "(nat \<Rightarrow> nat \<times> nat) \<Rightarrow> string \<Rightarrow> 'p \<Rightarrow> time \<Rightarrow> 'p bus \<Rightarrow> 'p event \<times> 'p bus" where
  "publish_event reads ty payload now b =
     (let e = \<lparr> ev_type = ty, ev_sequence = bus_seq b + 1, ev_timestamp = now, ev_payload = payload \<rparr>
      in (e, b\<lparr> bus_seq := bus_seq b + 1,
                bus_subs := map (\<lambda>(k, s). (k, deliver (fst (reads k)) (snd (reads k)) e s)) (bus_subs b),
                bus_log := bus_log b @ [e] \<rparr>))"

definition subscribe_with_overflow :: "nat \<Rightarrow> nat \<Rightarrow> 'p bus \<Rightarrow> 'p bus" where
  "subscribe_with_overflow k buffer b =
     b\<lparr> bus_subs := gm_put k \<lparr> sb_capacity = buffer, sb_events = [], sb_overflow = False, sb_read = [],
          sb_signals = 0, sb_since = length (bus_log b) \<rparr> (bus_subs b) \<rparr>"

definition unsubscribe :: "nat \<Rightarrow> 'p bus \<Rightarrow> 'p bus" where
  "unsubscribe k b = b\<lparr> bus_subs := gm_del k (bus_subs b) \<rparr>"

text \<open>
  What can happen to a bus. A subscription is a new pointer, so its key is fresh.
\<close>

inductive bus_step :: "'p bus \<Rightarrow> 'p bus \<Rightarrow> bool" where
  publish: "bus_step b (snd (publish_event reads ty payload now b))"
| subscribe: "k \<notin> fst ` set (bus_subs b) \<Longrightarrow> bus_step b (subscribe_with_overflow k buffer b)"
| unsubscribe: "bus_step b (unsubscribe k b)"
| read: "map_of (bus_subs b) k = Some s \<Longrightarrow> bus_step b (b\<lparr> bus_subs := gm_put k (receive s) (bus_subs b) \<rparr>)"
| signal: "map_of (bus_subs b) k = Some s \<Longrightarrow> bus_step b (b\<lparr> bus_subs := gm_put k (take_signal s) (bus_subs b) \<rparr>)"

inductive bus_reachable :: "'p bus \<Rightarrow> bool" where
  start: "bus_reachable new_bus"
| step: "bus_reachable b \<Longrightarrow> bus_step b b' \<Longrightarrow> bus_reachable b'"

subsection \<open>What a subscriber sees\<close>

text \<open>What a subscriber has read and can still read, against the events since its subscription.\<close>

definition stream :: "'p subscription \<Rightarrow> 'p event list" where
  "stream s = sb_read s @ sb_events s"

definition sub_ok :: "'p event list \<Rightarrow> 'p subscription \<Rightarrow> bool" where
  "sub_ok log s \<longleftrightarrow>
     length (sb_events s) \<le> sb_capacity s \<and> sb_since s \<le> length log \<and>
     subseq (stream s) (drop (sb_since s) log) \<and>
     (\<not> sb_overflow s \<and> sb_signals s = 0 \<longrightarrow> stream s = drop (sb_since s) log) \<and>
     (0 < sb_capacity s \<and> sb_since s < length log \<longrightarrow> stream s \<noteq> [] \<and> last (stream s) = last log)"

text \<open>Reading moves an event from the queue to what was read.\<close>

lemma receive_simps [simp]:
  "stream (receive s) = stream s" "sb_capacity (receive s) = sb_capacity s" "sb_since (receive s) = sb_since s"
  "sb_overflow (receive s) = sb_overflow s" "sb_signals (receive s) = sb_signals s"
  "length (sb_events (receive s)) \<le> length (sb_events s)"
  by (auto simp: receive_def stream_def split: list.splits)

lemma receives_simps [simp]:
  "stream ((receive ^^ n) s) = stream s" "sb_capacity ((receive ^^ n) s) = sb_capacity s"
  "sb_since ((receive ^^ n) s) = sb_since s" "sb_overflow ((receive ^^ n) s) = sb_overflow s"
  "sb_signals ((receive ^^ n) s) = sb_signals s"
  by (induction n) simp_all

lemma receives_length: "length (sb_events ((receive ^^ n) s)) \<le> length (sb_events s)"
  by (induction n) (auto intro: order_trans [OF receive_simps(6)])

lemma receive_ok: "sub_ok log s \<Longrightarrow> sub_ok log (receive s)"
  by (auto simp: sub_ok_def intro: order_trans [OF receive_simps(6)])

lemma take_signal_ok: "sub_ok log s \<Longrightarrow> sub_ok log (take_signal s)"
  by (auto simp: sub_ok_def take_signal_def stream_def)

lemma subscribed_ok:
  "sub_ok log \<lparr> sb_capacity = n, sb_events = [], sb_overflow = False, sb_read = [], sb_signals = 0, sb_since = length log \<rparr>"
  by (simp add: sub_ok_def stream_def)

text \<open>Evicting leaves room in a queue that has any capacity, and loses at most one event.\<close>

lemma evict_stream:
  assumes "evict s = (b, s')"
  shows "subseq (stream s') (stream s)" and "\<not> b \<Longrightarrow> s' = s \<and> sb_events s = []"
    and "b \<Longrightarrow> length (sb_events s') < length (sb_events s)"
    and "sb_capacity s' = sb_capacity s" "sb_since s' = sb_since s" "sb_overflow s' = sb_overflow s" "sb_signals s' = sb_signals s"
  using assms by (auto simp: evict_def stream_def subseq_append' split: list.splits)

definition received :: "'p event \<Rightarrow> bool \<times> 'p subscription \<Rightarrow> 'p subscription \<Rightarrow> bool" where
  "received e r s \<longleftrightarrow>
     (case r of (dropped, s') \<Rightarrow>
        length (sb_events s') \<le> sb_capacity s \<and> sb_capacity s' = sb_capacity s \<and> sb_since s' = sb_since s \<and>
        sb_overflow s' = sb_overflow s \<and> sb_signals s' = sb_signals s \<and>
        (if dropped then subseq (stream s') (stream s @ [e]) else stream s' = stream s @ [e]) \<and>
        (0 < sb_capacity s \<longrightarrow> stream s' \<noteq> [] \<and> last (stream s') = e))"

lemma try_send_received:
  assumes "length (sb_events s) < sb_capacity s"
  shows "try_send e s = (True, s\<lparr> sb_events := sb_events s @ [e] \<rparr>)"
    and "stream (s\<lparr> sb_events := sb_events s @ [e] \<rparr>) = stream s @ [e]"
  using assms by (simp_all add: try_send_def stream_def)

lemma make_room_received:
  assumes full: "length (sb_events s) = sb_capacity s"
    and ev: "evict ((receive ^^ i) s) = (evicted, s2)" and send: "try_send e ((receive ^^ j) s2) = (sent, s3)"
  shows "received e (evicted \<or> \<not> sent, s3) s"
proof -
  let ?r = "(receive ^^ i) s" and ?q = "(receive ^^ j) s2"
  note e = evict_stream [OF ev]
  have r_len: "length (sb_events ?r) \<le> sb_capacity s" using full receives_length [of i s] by simp
  show ?thesis
  proof (cases "sb_capacity s = 0")
    case True
    then have "sb_events ?r = []" using r_len by simp
    then have none: "\<not> evicted" "s2 = ?r" using ev by (auto simp: evict_def)
    then have "length (sb_events ?q) = 0" using \<open>sb_events ?r = []\<close> receives_length [of j s2] by simp
    then have "\<not> sent" "s3 = ?q" using send True none(2) by (auto simp: try_send_def)
    then show ?thesis using none True \<open>length (sb_events ?q) = 0\<close>
      by (auto simp: received_def intro: list_emb_prefix subseq_rev_drop_many)
  next
    case False
    have "length (sb_events s2) < sb_capacity s" using e(2,3) r_len False by (cases evicted) auto
    then have room: "length (sb_events ?q) < sb_capacity ?q" using e(4) receives_length [of j s2] by simp
    note s3 = try_send_received [OF room, of e]
    have sent: "sent" "s3 = ?q\<lparr> sb_events := sb_events ?q @ [e] \<rparr>" using send s3(1) by auto
    have st: "stream s3 = stream s2 @ [e]" using sent(2) s3(2) by simp
    have "subseq (stream s3) (stream s @ [e])" using e(1) unfolding st by simp
    moreover have "\<not> evicted \<Longrightarrow> stream s3 = stream s @ [e]" using e(2) st by simp
    ultimately show ?thesis using sent room e(4-7) st by (auto simp: received_def)
  qed
qed

lemma deliver_received:
  assumes "length (sb_events s) \<le> sb_capacity s"
  shows "\<exists>dropped s'. received e (dropped, s') s \<and> deliver i j e s = (if dropped then s'\<lparr> sb_overflow := True \<rparr> else s')"
proof (cases "length (sb_events s) < sb_capacity s")
  case True
  note t = try_send_received [OF True, of e]
  have "received e (False, s\<lparr> sb_events := sb_events s @ [e] \<rparr>) s" using True t(2) by (simp add: received_def)
  then show ?thesis using t(1) by (intro exI [of _ False] exI) (simp add: deliver_def)
next
  case False
  then have full: "length (sb_events s) = sb_capacity s" using assms by simp
  obtain evicted s2 sent s3 where r: "evict ((receive ^^ i) s) = (evicted, s2)" "try_send e ((receive ^^ j) s2) = (sent, s3)"
    by (meson surj_pair)
  have "try_send e s = (False, s)" using False by (simp add: try_send_def)
  then have "deliver i j e s = (if evicted \<or> \<not> sent then s3\<lparr> sb_overflow := True \<rparr> else s3)"
    using r by (simp add: deliver_def)
  then show ?thesis using make_room_received [OF full r] by blast
qed

lemma deliver_ok:
  assumes ok: "sub_ok log s"
  shows "sub_ok (log @ [e]) (deliver i j e s)"
proof -
  obtain dropped s' where r: "received e (dropped, s') s" "deliver i j e s = (if dropped then s'\<lparr> sb_overflow := True \<rparr> else s')"
    using deliver_received [of s e i j] ok by (auto simp: sub_ok_def)
  have since: "drop (sb_since s) (log @ [e]) = drop (sb_since s) log @ [e]" using ok by (simp add: sub_ok_def)
  have "subseq (stream s @ [e]) (drop (sb_since s) log @ [e])" using ok by (simp add: sub_ok_def)
  then have sub: "subseq (stream s') (drop (sb_since s) log @ [e])"
    using r(1) by (auto simp: received_def split: if_splits intro: subseq_order.trans)
  have st: "stream (s'\<lparr> sb_overflow := True \<rparr>) = stream s'" by (simp add: stream_def)
  show ?thesis
    using r ok sub since st unfolding sub_ok_def received_def by (auto split: if_splits)
qed

definition bus_ok :: "'p bus \<Rightarrow> bool" where
  "bus_ok b \<longleftrightarrow> gm_wf (bus_subs b) \<and> (\<forall>s\<in>snd ` set (bus_subs b). sub_ok (bus_log b) s) \<and>
     bus_seq b = word_of_nat (length (bus_log b)) \<and>
     map ev_sequence (bus_log b) = map (\<lambda>n. word_of_nat (Suc n)) [0..<length (bus_log b)]"

lemma snd_gm_put: "snd ` set (gm_put k v m) \<subseteq> insert v (snd ` set m)"
  by (induction k v m rule: gm_put.induct) auto

lemma bus_ok_put:
  assumes "bus_ok b" and "sub_ok (bus_log b) s"
  shows "bus_ok (b\<lparr> bus_subs := gm_put k s (bus_subs b) \<rparr>)"
proof -
  have "\<forall>t\<in>snd ` set (gm_put k s (bus_subs b)). sub_ok (bus_log b) t"
    using assms snd_gm_put [of k s "bus_subs b"] unfolding bus_ok_def by blast
  then show ?thesis using assms(1) by (simp add: bus_ok_def)
qed

lemma bus_step_ok: "bus_step b b' \<Longrightarrow> bus_ok b \<Longrightarrow> bus_ok b'"
proof (induction rule: bus_step.induct)
  case (publish b reads ty payload now)
  have keys: "map fst (map (\<lambda>(k, s). (k, deliver (fst (reads k)) (snd (reads k)) e s)) m) = map fst m" for e :: "'a event" and m
    by (simp add: case_prod_beta comp_def)
  have wf: "gm_wf (map (\<lambda>(k, s). (k, deliver (fst (reads k)) (snd (reads k)) e s)) (bus_subs b))" for e
    using publish unfolding bus_ok_def gm_wf_def keys by blast
  show ?case using publish wf deliver_ok
    by (fastforce simp: publish_event_def Let_def bus_ok_def)
next
  case (subscribe k b buffer)
  then show ?case unfolding subscribe_with_overflow_def by (intro bus_ok_put subscribed_ok)
next
  case (unsubscribe b k)
  then show ?case by (auto simp: bus_ok_def unsubscribe_def gm_del_def intro: gm_wf_filter)
next
  case (read b k s)
  then have "sub_ok (bus_log b) s" using map_of_SomeD [OF read(1)] by (force simp: bus_ok_def)
  then show ?case using read bus_ok_put receive_ok by blast
next
  case (signal b k s)
  then have "sub_ok (bus_log b) s" using map_of_SomeD [OF signal(1)] by (force simp: bus_ok_def)
  then show ?case using signal bus_ok_put take_signal_ok by blast
qed

lemma bus_reachable_ok: "bus_reachable b \<Longrightarrow> bus_ok b"
proof (induction rule: bus_reachable.induct)
  case start
  then show ?case by (simp add: bus_ok_def new_bus_def)
next
  case (step b b')
  then show ?case by (blast intro: bus_step_ok)
qed

text \<open>
  C38: Whatever is published, subscribed and read in whatever order, the events of a subscriber,
  read and queued, are events published since it subscribed, in their order and numbered
  consecutively from one modulo two to the 64, never more queued than it has room for; with room for at least
  one the newest event is always among them; and a subscriber that is not told of an overflow
  has lost nothing.
\<close>

theorem subscriber_stream:
  assumes "bus_reachable b" and "map_of (bus_subs b) k = Some s"
  shows "subseq (sb_read s @ sb_events s) (drop (sb_since s) (bus_log b)) \<and>
    map ev_sequence (bus_log b) = map (\<lambda>n. word_of_nat (Suc n)) [0..<length (bus_log b)] \<and>
    length (sb_events s) \<le> sb_capacity s \<and>
    (0 < sb_capacity s \<and> sb_since s < length (bus_log b) \<longrightarrow>
       sb_read s @ sb_events s \<noteq> [] \<and> last (sb_read s @ sb_events s) = last (bus_log b)) \<and>
    (\<not> sb_overflow s \<and> sb_signals s = 0 \<longrightarrow> sb_read s @ sb_events s = drop (sb_since s) (bus_log b))"
proof -
  have ok: "bus_ok b" using bus_reachable_ok [OF assms(1)] .
  then have "sub_ok (bus_log b) s" using map_of_SomeD [OF assms(2)] by (force simp: bus_ok_def)
  then show ?thesis using ok unfolding sub_ok_def bus_ok_def stream_def by blast
qed

text \<open>A subscriber with room for one event that reads nothing while two are published.\<close>

definition example_bus :: "nat bus" where
  "example_bus =
     (let b1 = subscribe_with_overflow 1 1 new_bus;
          b2 = snd (publish_event (\<lambda>_. (0, 0)) ''power'' 7 0 b1)
      in snd (publish_event (\<lambda>_. (0, 0)) ''power'' 8 1 b2))"

lemma example_bus_reachable: "bus_reachable example_bus"
  unfolding example_bus_def Let_def
  by (intro bus_reachable.step [OF _ bus_step.publish] bus_reachable.step [OF bus_reachable.start bus_step.subscribe])
     (simp add: new_bus_def)

lemma subscriber_stream_witness:
  "\<exists>s. map_of (bus_subs example_bus) 1 = Some s \<and> sb_overflow s \<and> map ev_payload (sb_events s) = [8] \<and>
     last (sb_read s @ sb_events s) = last (bus_log example_bus)"
proof -
  have "case map_of (bus_subs example_bus) 1 of
      Some s \<Rightarrow> sb_overflow s \<and> map ev_payload (sb_events s) = [8] \<and> 0 < sb_capacity s \<and> sb_since s < length (bus_log example_bus)
    | None \<Rightarrow> False" by code_simp
  then obtain s where s: "map_of (bus_subs example_bus) 1 = Some s" "sb_overflow s" "map ev_payload (sb_events s) = [8]"
      "0 < sb_capacity s" "sb_since s < length (bus_log example_bus)"
    by (auto split: option.splits)
  note newest = subscriber_stream [OF example_bus_reachable s(1), THEN conjunct2, THEN conjunct2, THEN conjunct2, THEN conjunct1]
  have "last (sb_read s @ sb_events s) = last (bus_log example_bus)"
    using newest [THEN mp, OF conjI, OF s(4,5)] by (rule conjunct2)
  with s(1-3) show ?thesis by (intro exI conjI)
qed

end
