(* ===== verification/GoText.thy ===== *)
theory GoText
  imports TimeText
begin

text \<open>
  Functions of Go's \<^verbatim>\<open>strings\<close> and \<^verbatim>\<open>strconv\<close> packages on texts, as several components use
  them, with what printing and reading back amounts to.
\<close>

subsection \<open>Fields and numbers\<close>

text \<open>\<^verbatim>\<open>strings.Split\<close> on a separator of one byte, and \<^verbatim>\<open>strings.SplitN\<close> with limit two.\<close>

fun split_on :: "char \<Rightarrow> string \<Rightarrow> string list" where
  "split_on d [] = [[]]"
| "split_on d (c # s) =
     (if c = d then [] # split_on d s
      else case split_on d s of [] \<Rightarrow> [[c]] | p # ps \<Rightarrow> (c # p) # ps)"

definition split_once :: "char \<Rightarrow> string \<Rightarrow> string list" where
  "split_once d s =
     (if d \<in> set s then [takeWhile (\<lambda>c. c \<noteq> d) s, tl (dropWhile (\<lambda>c. c \<noteq> d) s)] else [s])"

definition is_digit :: "char \<Rightarrow> bool" where
  "is_digit c \<longleftrightarrow> 48 \<le> (of_char c :: nat) \<and> (of_char c :: nat) \<le> 57"

text \<open>\<^verbatim>\<open>strconv.Atoi\<close> with 64-bit integers.\<close>

definition atoi :: "string \<Rightarrow> int option" where
  "atoi s =
     (let (neg, ds) =
        (case s of [] \<Rightarrow> (False, [])
         | c # r \<Rightarrow> if c = CHR ''-'' then (True, r) else if c = CHR ''+'' then (False, r) else (False, s))
      in if ds = [] \<or> \<not> list_all is_digit ds then None
         else if neg then (if digits_value ds > 2 ^ 63 then None else Some (- int (digits_value ds)))
         else if digits_value ds \<ge> 2 ^ 63 then None else Some (int (digits_value ds)))"

subsection \<open>Round trips\<close>

lemma split_on_none: "d \<notin> set s \<Longrightarrow> split_on d s = [s]"
  by (induction s) auto

lemma split_on_append: "d \<notin> set s \<Longrightarrow> split_on d (s @ d # r) = s # split_on d r"
  by (induction s) auto

lemma split_once_append: "d \<notin> set s \<Longrightarrow> split_once d (s @ d # r) = [s, r]"
  by (auto simp: split_once_def takeWhile_append dropWhile_append)

lemma is_digit_digit: "d < 10 \<Longrightarrow> is_digit (digit d)"
  by (simp add: is_digit_def of_char_digit)

lemma nat_text_digits: "list_all is_digit (nat_text n) \<and> nat_text n \<noteq> [] \<and> digits_value (nat_text n) = n"
proof (induction n rule: nat_text.induct)
  case (1 n)
  then show ?case
    by (subst (1 2 3) nat_text.simps)
       (auto simp: is_digit_digit digits_value_snoc of_char_digit, simp add: digits_value_def of_char_digit)
qed

lemma is_digit_sign: "is_digit c \<Longrightarrow> c \<noteq> CHR ''-'' \<and> c \<noteq> CHR ''+'' \<and> c \<noteq> CHR ''$'' \<and> c \<noteq> CHR ''=''"
  by (auto simp: is_digit_def)

lemma atoi_int_text:
  assumes "0 \<le> i" and "i < 2 ^ 63"
  shows "atoi (int_text i) = Some i"
proof -
  have n: "list_all is_digit (nat_text (nat i))" "nat_text (nat i) \<noteq> []" "digits_value (nat_text (nat i)) = nat i"
    using nat_text_digits by auto
  then obtain c r where "nat_text (nat i) = c # r" by (cases "nat_text (nat i)") auto
  with n is_digit_sign [of c] assms show ?thesis
    by (auto simp: atoi_def int_text_def Let_def)
qed

lemma int_text_chars: "0 \<le> i \<Longrightarrow> CHR ''$'' \<notin> set (int_text i)"
  using nat_text_digits [of "nat i"] is_digit_sign by (auto simp: int_text_def list_all_iff)

end
