(* ===== verification/Passwords.thy ===== *)
theory Passwords
  imports GoText Service GoQuote
begin

text \<open>
  Secrets: \<^verbatim>\<open>internal/auth/password.go\<close> and \<^verbatim>\<open>internal/auth/token.go\<close>. Byte slices are
  strings of bytes. SHA-256 and HMAC-SHA-256 are parameters, functions on byte strings of which
  only the length of the digest is used; the bytes that \<^verbatim>\<open>crypto/rand\<close> delivers are an
  argument, \<open>None\<close> when reading them fails. The encodings around them, base64 without padding,
  the fields between dollar signs and the decimal count, are written out.
\<close>

subsection \<open>Base64\<close>

definition std_alphabet :: string where
  "std_alphabet = ''ABCDEFGHIJKLMNOPQRSTUVWXYZabcdefghijklmnopqrstuvwxyz0123456789+/''"

definition url_alphabet :: string where
  "url_alphabet = ''ABCDEFGHIJKLMNOPQRSTUVWXYZabcdefghijklmnopqrstuvwxyz0123456789-_''"

fun b64_digits :: "nat list \<Rightarrow> nat list" where
  "b64_digits [] = []"
| "b64_digits [a] = [a div 4, a mod 4 * 16]"
| "b64_digits [a, b] = [a div 4, a mod 4 * 16 + b div 16, b mod 16 * 4]"
| "b64_digits (a # b # c # r) =
     a div 4 # (a mod 4 * 16 + b div 16) # (b mod 16 * 4 + c div 64) # c mod 64 # b64_digits r"

definition b64_encode :: "string \<Rightarrow> string \<Rightarrow> string" where
  "b64_encode alphabet bs = map (\<lambda>d. alphabet ! d) (b64_digits (map of_char bs))"

text \<open>
  Decoding passes over line breaks, refuses every byte outside the alphabet (the padding sign
  too) and a single left-over digit, and drops the spare bits of a short last group.
\<close>

fun b64_bytes :: "nat list \<Rightarrow> nat list option" where
  "b64_bytes [] = Some []"
| "b64_bytes [a] = None"
| "b64_bytes [a, b] = Some [a * 4 + b div 16]"
| "b64_bytes [a, b, c] = Some [a * 4 + b div 16, b mod 16 * 16 + c div 4]"
| "b64_bytes (a # b # c # d # r) =
     map_option (\<lambda>bs. (a * 4 + b div 16) # (b mod 16 * 16 + c div 4) # (c mod 4 * 64 + d) # bs) (b64_bytes r)"

fun index_in :: "'a list \<Rightarrow> 'a \<Rightarrow> nat option" where
  "index_in [] x = None"
| "index_in (y # ys) x = (if x = y then Some 0 else map_option Suc (index_in ys x))"

definition b64_decode :: "string \<Rightarrow> string \<Rightarrow> service_error + string" where
  "b64_decode alphabet s =
     (let ds = map (index_in alphabet) (filter (\<lambda>c. of_char c \<notin> {10, 13 :: nat}) s)
      in case (if None \<in> set ds then None else b64_bytes (map the ds)) of
           None \<Rightarrow> Inl (ErrMessage ''illegal base64 data'')
         | Some bs \<Rightarrow> Inr (map char_of bs))"

subsection \<open>Passwords\<close>

record password_params =
  pp_iterations :: int
  pp_salt_length :: int
  pp_key_length :: int

definition default_password_params :: password_params where
  "default_password_params = \<lparr> pp_iterations = 600000, pp_salt_length = 16, pp_key_length = 32 \<rparr>"

definition xor_bytes :: "string \<Rightarrow> string \<Rightarrow> string" where
  "xor_bytes t u = map2 (\<lambda>a b. char_of (Bit_Operations.xor (of_char a :: nat) (of_char b))) t u"

fun pbkdf2_rounds :: "(string \<Rightarrow> string) \<Rightarrow> nat \<Rightarrow> string \<Rightarrow> string \<Rightarrow> string" where
  "pbkdf2_rounds mac 0 u t = t"
| "pbkdf2_rounds mac (Suc n) u t = pbkdf2_rounds mac n (mac u) (xor_bytes t (mac u))"

definition pbkdf2_block :: "(string \<Rightarrow> string \<Rightarrow> string) \<Rightarrow> string \<Rightarrow> string \<Rightarrow> int \<Rightarrow> nat \<Rightarrow> string" where
  "pbkdf2_block hmac password salt iterations block =
     (let u = hmac password (salt @ map char_of [block div 2 ^ 24, block div 2 ^ 16, block div 2 ^ 8, block])
      in pbkdf2_rounds (hmac password) (nat (iterations - 1)) u u)"

definition pbkdf2_sha256 :: "(string \<Rightarrow> string \<Rightarrow> string) \<Rightarrow> string \<Rightarrow> string \<Rightarrow> int \<Rightarrow> nat \<Rightarrow> string" where
  "pbkdf2_sha256 hmac password salt iterations key_length =
     (let blocks = (key_length + 31) div 32
      in take key_length (concat (map (pbkdf2_block hmac password salt iterations) [1..<Suc blocks])))"

text \<open>
  \<open>None\<close> is the panic of \<^verbatim>\<open>make\<close>, or of the final slice, on a negative length. The salt is
  what \<^verbatim>\<open>rand.Read\<close> fills a slice of the configured length with.
\<close>

definition hash_password ::
  "(string \<Rightarrow> string \<Rightarrow> string) \<Rightarrow> string option \<Rightarrow> string \<Rightarrow> password_params \<Rightarrow> (service_error + string) option" where
  "hash_password hmac rand password p =
     (if length password < 10 then Some (Inl (ErrMessage ''password must contain at least 10 characters''))
      else if pp_salt_length p < 0 then None
      else case rand of
        None \<Rightarrow> Some (Inl (ErrMessage ''rand''))
      | Some bytes \<Rightarrow>
          let salt = take (nat (pp_salt_length p)) bytes
          in if pp_key_length p < 0 then None
             else
               let key = pbkdf2_sha256 hmac password salt (pp_iterations p) (nat (pp_key_length p))
               in Some (Inr (''$pbkdf2-sha256$i='' @ int_text (pp_iterations p) @ ''$'' @
                     b64_encode std_alphabet salt @ ''$'' @ b64_encode std_alphabet key)))"

definition verify_password :: "(string \<Rightarrow> string \<Rightarrow> string) \<Rightarrow> string \<Rightarrow> string \<Rightarrow> service_error + bool" where
  "verify_password hmac encoded password =
     (let parts = split_on (CHR ''$'') encoded
      in if length parts \<noteq> 5 \<or> parts ! 1 \<noteq> ''pbkdf2-sha256'' then Inl (ErrMessage ''invalid password hash'')
         else
           let kv = split_once (CHR ''='') (parts ! 2)
           in if length kv \<noteq> 2 \<or> kv ! 0 \<noteq> ''i'' then Inl (ErrMessage ''invalid password parameters'')
              else case atoi (kv ! 1) of
                None \<Rightarrow> Inl (ErrMessage ''invalid password iteration count'')
              | Some iterations \<Rightarrow>
                  if iterations < 100000 then Inl (ErrMessage ''invalid password iteration count'')
                  else
                    rbind (b64_decode std_alphabet (parts ! 3)) (\<lambda>salt.
                    rbind (b64_decode std_alphabet (parts ! 4)) (\<lambda>expected.
                    Inr (pbkdf2_sha256 hmac password salt iterations (length expected) = expected))))"

subsection \<open>Tokens\<close>

definition hex_encode :: "string \<Rightarrow> string" where
  "hex_encode bs = concat (map (\<lambda>b. [hex_digit (of_char b div 16), hex_digit (of_char b mod 16)]) bs)"

definition hash_token :: "(string \<Rightarrow> string) \<Rightarrow> string \<Rightarrow> string" where
  "hash_token sha256 token = hex_encode (sha256 token)"

definition new_token :: "(string \<Rightarrow> string) \<Rightarrow> string option \<Rightarrow> service_error + (string \<times> string)" where
  "new_token sha256 rand =
     (case rand of
        None \<Rightarrow> Inl (ErrMessage ''rand'')
      | Some b \<Rightarrow> let token = b64_encode url_alphabet (take 32 b) in Inr (token, hash_token sha256 token))"

subsection \<open>Base64 round trip\<close>

lemma b64_digits_bound: "\<forall>x\<in>set bs. x < 256 \<Longrightarrow> \<forall>d\<in>set (b64_digits bs). d < 64"
  by (induction bs rule: b64_digits.induct) auto

lemma b64_bytes_digits: "\<forall>x\<in>set bs. x < 256 \<Longrightarrow> b64_bytes (b64_digits bs) = Some bs"
proof (induction bs rule: b64_digits.induct)
  case (4 a b c r)
  then have "b64_bytes (b64_digits r) = Some r" by simp
  moreover have "a div 4 * 4 + (a mod 4 * 16 + b div 16) div 16 = a"
    and "(a mod 4 * 16 + b div 16) mod 16 * 16 + (b mod 16 * 4 + c div 64) div 4 = b"
    and "(b mod 16 * 4 + c div 64) mod 4 * 64 + c mod 64 = c"
    using "4.prems" by auto
  ultimately show ?case by simp
qed auto

lemma index_in_nth: "distinct xs \<Longrightarrow> i < length xs \<Longrightarrow> index_in xs (xs ! i) = Some i"
proof (induction xs arbitrary: i)
  case (Cons x xs)
  then show ?case by (cases i) auto
qed simp

text \<open>What the round trip needs of an alphabet.\<close>

definition b64_alphabet :: "string \<Rightarrow> bool" where
  "b64_alphabet alphabet \<longleftrightarrow> length alphabet = 64 \<and> distinct alphabet \<and>
     list_all (\<lambda>c. (of_char c :: nat) \<noteq> 10 \<and> (of_char c :: nat) \<noteq> 13 \<and> c \<noteq> CHR ''$'') alphabet"

lemma std_alphabet: "b64_alphabet std_alphabet"
  by code_simp

lemma url_alphabet: "b64_alphabet url_alphabet"
  by code_simp

lemma b64_encode_in_alphabet: "b64_alphabet alphabet \<Longrightarrow> set (b64_encode alphabet bs) \<subseteq> set alphabet"
  using b64_digits_bound [of "map of_char bs"]
  by (auto simp: b64_encode_def b64_alphabet_def of_char_of)

lemma b64_decode_encode:
  assumes a: "b64_alphabet alphabet"
  shows "b64_decode alphabet (b64_encode alphabet bs) = Inr bs"
proof -
  let ?ds = "b64_digits (map of_char bs)"
  have bytes: "\<forall>x\<in>set (map of_char bs). x < (256 :: nat)" by auto
  have lines: "filter (\<lambda>c. of_char c \<notin> {10, 13 :: nat}) (b64_encode alphabet bs) = b64_encode alphabet bs"
    using a b64_encode_in_alphabet [OF a, of bs]
    by (intro filter_True) (auto simp: b64_alphabet_def list_all_iff)
  have digits: "map (index_in alphabet) (b64_encode alphabet bs) = map Some ?ds"
    using a b64_digits_bound [OF bytes] by (auto simp: b64_encode_def b64_alphabet_def index_in_nth)
  show ?thesis
    unfolding b64_decode_def lines digits Let_def
    by (simp add: b64_bytes_digits [OF bytes] comp_def image_iff)
qed

subsection \<open>Derived keys\<close>

lemma length_pbkdf2_rounds:
  assumes "\<And>m. length (mac m) = length t"
  shows "length (pbkdf2_rounds mac n u t) = length t"
  using assms by (induction n arbitrary: u t) (auto simp: xor_bytes_def)

lemma length_pbkdf2_block:
  assumes "\<And>k m. length (hmac k m) = 32"
  shows "length (pbkdf2_block hmac password salt iterations block) = 32"
  using assms by (simp add: pbkdf2_block_def Let_def length_pbkdf2_rounds)

lemma length_pbkdf2_sha256:
  assumes "\<And>k m. length (hmac k m) = 32"
  shows "length (pbkdf2_sha256 hmac password salt iterations n) = n"
proof -
  have "length (concat (map (pbkdf2_block hmac password salt iterations) [1..<Suc ((n + 31) div 32)])) =
      (n + 31) div 32 * 32"
    using assms by (simp add: length_concat comp_def length_pbkdf2_block sum_list_triv del: upt_Suc)
  moreover have "n \<le> (n + 31) div 32 * 32" by linarith
  ultimately show ?thesis by (simp add: pbkdf2_sha256_def Let_def del: upt_Suc)
qed

subsection \<open>Passwords round trip\<close>

lemma verify_password_fields:
  assumes "100000 \<le> iterations" and "iterations < 2 ^ 63"
  shows "verify_password hmac
      (''$pbkdf2-sha256$i='' @ int_text iterations @ ''$'' @ b64_encode std_alphabet salt @ ''$'' @
       b64_encode std_alphabet key) password =
    Inr (pbkdf2_sha256 hmac password salt iterations (length key) = key)"
proof -
  have dollar: "CHR ''$'' \<notin> set (b64_encode std_alphabet bs)" for bs
    using b64_encode_in_alphabet [OF std_alphabet, of bs] std_alphabet
    by (auto simp: b64_alphabet_def list_all_iff)
  have "split_on (CHR ''$'')
      ([] @ CHR ''$'' # ''pbkdf2-sha256'' @ CHR ''$'' # (''i='' @ int_text iterations) @ CHR ''$'' #
       b64_encode std_alphabet salt @ CHR ''$'' # b64_encode std_alphabet key) =
      [[], ''pbkdf2-sha256'', ''i='' @ int_text iterations, b64_encode std_alphabet salt,
       b64_encode std_alphabet key]"
    using int_text_chars [of iterations] assms
    by (simp add: split_on_append split_on_none dollar)
  moreover have "split_once (CHR ''='') (''i='' @ int_text iterations) = [''i'', int_text iterations]"
    using split_once_append [of "CHR ''=''" "''i''"] by simp
  ultimately show ?thesis
    using assms by (simp add: verify_password_def atoi_int_text b64_decode_encode std_alphabet)
qed

text \<open>
  A password hash is accepted for the password it was made from. For parameters of at least
  100000 iterations and lengths that are not negative, whatever salt the random source delivers,
  hashing a password of ten or more bytes yields a text that \<^verbatim>\<open>VerifyPassword\<close> parses back to
  the salt, the iteration count and the key: it accepts exactly the passwords whose derived key
  is the stored one, the original among them.
\<close>

theorem verify_hashed_password:
  assumes hmac: "\<And>k m. length (hmac k m) = 32"
    and p: "100000 \<le> pp_iterations p" "pp_iterations p < 2 ^ 63" "0 \<le> pp_salt_length p" "0 \<le> pp_key_length p"
    and len: "10 \<le> length password" "int (length salt) = pp_salt_length p"
  shows "\<exists>encoded. hash_password hmac (Some salt) password p = Some (Inr encoded) \<and>
    verify_password hmac encoded password = Inr True \<and>
    (\<forall>other. verify_password hmac encoded other =
       Inr (pbkdf2_sha256 hmac other salt (pp_iterations p) (nat (pp_key_length p)) =
            pbkdf2_sha256 hmac password salt (pp_iterations p) (nat (pp_key_length p))))"
proof -
  let ?key = "\<lambda>w. pbkdf2_sha256 hmac w salt (pp_iterations p) (nat (pp_key_length p))"
  let ?encoded = "''$pbkdf2-sha256$i='' @ int_text (pp_iterations p) @ ''$'' @ b64_encode std_alphabet salt @ ''$'' @
    b64_encode std_alphabet (?key password)"
  have "hash_password hmac (Some salt) password p = Some (Inr ?encoded)"
    using p len by (simp add: hash_password_def Let_def)
  moreover have "verify_password hmac ?encoded other = Inr (?key other = ?key password)" for other
    using verify_password_fields [OF p(1,2), of hmac salt "?key password" other]
    by (simp only: length_pbkdf2_sha256 [OF hmac])
  ultimately show ?thesis by (intro exI [of _ ?encoded]) simp
qed

theorem verify_hashed_password_witness:
  "\<exists>encoded. hash_password (\<lambda>k m. replicate 32 (CHR ''k'')) (Some (replicate 16 (CHR ''s''))) ''correct horse''
       default_password_params = Some (Inr encoded) \<and>
     verify_password (\<lambda>k m. replicate 32 (CHR ''k'')) encoded ''correct horse'' = Inr True"
  using verify_hashed_password [of "\<lambda>k m. replicate 32 (CHR ''k'')" default_password_params "''correct horse''"
      "replicate 16 (CHR ''s'')"]
  by (auto simp: default_password_params_def)

end
