(* ===== verification/Accounts.thy ===== *)
theory Accounts
  imports Passwords
begin

text \<open>
  Users and sessions: the tables \<^verbatim>\<open>users\<close> and \<^verbatim>\<open>sessions\<close> with the statements of
  \<^verbatim>\<open>internal/store/users.go\<close> and \<^verbatim>\<open>internal/store/sessions.go\<close>, and the operations of
  \<^verbatim>\<open>internal/service/users.go\<close> and \<^verbatim>\<open>internal/service/authentication.go\<close>. A table is the
  list of its rows in the order of insertion; the constraints are those of the schema, with
  user names compared without regard to the case of ASCII letters (\<^verbatim>\<open>COLLATE NOCASE\<close>). Rows
  hold instants, which the texts in the columns read back to (theory \<open>TimeText\<close>). An operation that reads
  before it writes is composed of its parts, so that other operations can come between them.
  What the clock, the random source and \<^verbatim>\<open>julianday\<close> of SQLite deliver are arguments.
  Failures of the database itself are not modelled.
\<close>

record account = user +
  ac_username :: string
  ac_display_name :: string
  ac_enabled :: bool
  ac_must_change_password :: bool
  ac_created_at :: time
  ac_updated_at :: time
  ac_last_login_at :: "time option"

record user_auth =
  ua_user :: account
  ua_password_hash :: string

record auth_session = session +
  as_client_id :: string
  as_client_name :: string
  as_platform :: string
  as_access_hash :: string
  as_refresh_hash :: string
  as_access_expiry :: time
  as_refresh_expiry :: time
  as_created_at :: time
  as_last_seen_at :: time
  as_revoked_at :: "time option"

record auth_db =
  ad_users :: "user_auth list"
  ad_sessions :: "auth_session list"

text \<open>What the services are built with, and the functions that lie outside the program.\<close>

record auth_env =
  ae_sha256 :: "string \<Rightarrow> string"
  ae_hmac :: "string \<Rightarrow> string \<Rightarrow> string"
  ae_julianday :: "time \<Rightarrow> int"
  ae_access_ttl :: duration
  ae_refresh_ttl :: duration
  ae_password_params :: password_params

subsection \<open>The users table\<close>

abbreviation user_key :: "user_auth \<Rightarrow> string" where
  "user_key r \<equiv> u_id (ua_user r)"

definition named :: "string \<Rightarrow> user_auth \<Rightarrow> bool" where
  "named username r \<longleftrightarrow> to_lower (ac_username (ua_user r)) = to_lower username"

definition user_count :: "auth_db \<Rightarrow> nat" where
  "user_count db = length (ad_users db)"

definition create_user :: "account \<Rightarrow> string \<Rightarrow> auth_db \<Rightarrow> service_error + auth_db" where
  "create_user user password_hash db =
     (let username = trim_space (ac_username user)
      in if \<exists>r\<in>set (ad_users db). user_key r = u_id user \<or> named username r then Inl ErrConflict
         else Inr (db\<lparr> ad_users := ad_users db @
                [\<lparr> ua_user = user\<lparr> ac_username := username, ac_last_login_at := None \<rparr>,
                   ua_password_hash = password_hash \<rparr>] \<rparr>))"

definition get_user_by_username :: "string \<Rightarrow> auth_db \<Rightarrow> service_error + user_auth" where
  "get_user_by_username username db =
     (case find (named username) (ad_users db) of None \<Rightarrow> Inl ErrNotFound | Some r \<Rightarrow> Inr r)"

definition get_user_by_id :: "string \<Rightarrow> auth_db \<Rightarrow> service_error + user_auth" where
  "get_user_by_id i db =
     (case find (\<lambda>r. user_key r = i) (ad_users db) of None \<Rightarrow> Inl ErrNotFound | Some r \<Rightarrow> Inr r)"

definition list_users :: "auth_db \<Rightarrow> account list" where
  "list_users db = sort_key (\<lambda>u. to_lower (ac_username u)) (map ua_user (ad_users db))"

text \<open>\<^verbatim>\<open>UPDATE users SET upd WHERE cond\<close>, and the same followed by \<^verbatim>\<open>requireAffected\<close>.\<close>

definition update_users :: "(user_auth \<Rightarrow> bool) \<Rightarrow> (user_auth \<Rightarrow> user_auth) \<Rightarrow> auth_db \<Rightarrow> auth_db" where
  "update_users cond upd db = db\<lparr> ad_users := map (\<lambda>r. if cond r then upd r else r) (ad_users db) \<rparr>"

definition update_users_affected ::
  "(user_auth \<Rightarrow> bool) \<Rightarrow> (user_auth \<Rightarrow> user_auth) \<Rightarrow> auth_db \<Rightarrow> service_error + auth_db" where
  "update_users_affected cond upd db =
     (if \<exists>r\<in>set (ad_users db). cond r then Inr (update_users cond upd db) else Inl ErrNotFound)"

definition enabled_row :: "bool \<Rightarrow> time \<Rightarrow> user_auth \<Rightarrow> user_auth" where
  "enabled_row enabled now r = r\<lparr> ua_user := (ua_user r)\<lparr> ac_enabled := enabled, ac_updated_at := now \<rparr> \<rparr>"

definition set_user_enabled :: "string \<Rightarrow> bool \<Rightarrow> time \<Rightarrow> auth_db \<Rightarrow> service_error + auth_db" where
  "set_user_enabled username enabled now = update_users_affected (named username) (enabled_row enabled now)"

definition role_row :: "role \<Rightarrow> time \<Rightarrow> user_auth \<Rightarrow> user_auth" where
  "role_row role now r = r\<lparr> ua_user := (ua_user r)\<lparr> u_role := role, ac_updated_at := now \<rparr> \<rparr>"

definition set_user_role :: "string \<Rightarrow> role \<Rightarrow> time \<Rightarrow> auth_db \<Rightarrow> service_error + auth_db" where
  "set_user_role username role now = update_users_affected (named username) (role_row role now)"

definition password_row :: "string \<Rightarrow> bool \<Rightarrow> time \<Rightarrow> user_auth \<Rightarrow> user_auth" where
  "password_row password_hash must_change now r =
     r\<lparr> ua_user := (ua_user r)\<lparr> ac_must_change_password := must_change, ac_updated_at := now \<rparr>,
        ua_password_hash := password_hash \<rparr>"

definition store_set_password :: "string \<Rightarrow> string \<Rightarrow> bool \<Rightarrow> time \<Rightarrow> auth_db \<Rightarrow> service_error + auth_db" where
  "store_set_password username password_hash must_change now =
     update_users_affected (named username) (password_row password_hash must_change now)"

definition login_row :: "time \<Rightarrow> user_auth \<Rightarrow> user_auth" where
  "login_row now r = r\<lparr> ua_user := (ua_user r)\<lparr> ac_last_login_at := Some now, ac_updated_at := now \<rparr> \<rparr>"

definition update_last_login :: "string \<Rightarrow> time \<Rightarrow> auth_db \<Rightarrow> auth_db" where
  "update_last_login i now = update_users (\<lambda>r. user_key r = i) (login_row now)"

subsection \<open>The sessions table\<close>

definition session_touch_interval :: duration where
  "session_touch_interval = 30 * second"

text \<open>\<^verbatim>\<open>CreateSession\<close> passes a violated constraint on as the error of the database.\<close>

definition create_session :: "auth_session \<Rightarrow> auth_db \<Rightarrow> service_error + auth_db" where
  "create_session sess db =
     (if (\<exists>r\<in>set (ad_sessions db). s_id r = s_id sess \<or> as_access_hash r = as_access_hash sess \<or>
             as_refresh_hash r = as_refresh_hash sess) \<or>
         s_user_id sess \<notin> user_key ` set (ad_users db)
      then Inl ErrDatabase
      else Inr (db\<lparr> ad_sessions := ad_sessions db @ [sess\<lparr> as_revoked_at := None \<rparr>] \<rparr>))"

definition session_where :: "(auth_session \<Rightarrow> bool) \<Rightarrow> auth_db \<Rightarrow> service_error + auth_session" where
  "session_where cond db =
     (case find cond (ad_sessions db) of None \<Rightarrow> Inl ErrNotFound | Some s \<Rightarrow> Inr s)"

definition session_by_access_hash :: "string \<Rightarrow> auth_db \<Rightarrow> service_error + auth_session" where
  "session_by_access_hash h = session_where (\<lambda>s. as_access_hash s = h)"

definition session_by_id :: "string \<Rightarrow> auth_db \<Rightarrow> service_error + auth_session" where
  "session_by_id i = session_where (\<lambda>s. s_id s = i)"

definition session_by_refresh_hash :: "string \<Rightarrow> auth_db \<Rightarrow> service_error + auth_session" where
  "session_by_refresh_hash h = session_where (\<lambda>s. as_refresh_hash s = h)"

text \<open>Every update of the table has \<^verbatim>\<open>revoked_at IS NULL\<close> among its conditions.\<close>

definition update_sessions :: "(auth_session \<Rightarrow> bool) \<Rightarrow> (auth_session \<Rightarrow> auth_session) \<Rightarrow> auth_db \<Rightarrow> auth_db" where
  "update_sessions cond upd db =
     db\<lparr> ad_sessions := map (\<lambda>s. if cond s \<and> as_revoked_at s = None then upd s else s) (ad_sessions db) \<rparr>"

definition rotated_row :: "string \<Rightarrow> string \<Rightarrow> time \<Rightarrow> time \<Rightarrow> time \<Rightarrow> auth_session \<Rightarrow> auth_session" where
  "rotated_row access_hash refresh_hash access_exp refresh_exp now s =
     s\<lparr> as_access_hash := access_hash, as_refresh_hash := refresh_hash, as_access_expiry := access_exp,
        as_refresh_expiry := refresh_exp, as_last_seen_at := now \<rparr>"

definition rotate_session_tokens ::
  "string \<Rightarrow> string \<Rightarrow> string \<Rightarrow> time \<Rightarrow> time \<Rightarrow> time \<Rightarrow> auth_db \<Rightarrow> service_error + auth_db" where
  "rotate_session_tokens i access_hash refresh_hash access_exp refresh_exp now db =
     (if \<not> (\<exists>s\<in>set (ad_sessions db). s_id s = i \<and> as_revoked_at s = None) then Inl ErrNotFound
      else if \<exists>s\<in>set (ad_sessions db). s_id s \<noteq> i \<and>
                 (as_access_hash s = access_hash \<or> as_refresh_hash s = refresh_hash)
      then Inl ErrDatabase
      else Inr (update_sessions (\<lambda>s. s_id s = i)
                  (rotated_row access_hash refresh_hash access_exp refresh_exp now) db))"

definition seen_row :: "time \<Rightarrow> auth_session \<Rightarrow> auth_session" where
  "seen_row now s = s\<lparr> as_last_seen_at := now \<rparr>"

definition touch_session :: "(time \<Rightarrow> int) \<Rightarrow> string \<Rightarrow> time \<Rightarrow> auth_db \<Rightarrow> auth_db" where
  "touch_session julianday i now =
     update_sessions (\<lambda>s. s_id s = i \<and> julianday (as_last_seen_at s) \<le> julianday (now - session_touch_interval))
       (seen_row now)"

definition revoked_row :: "time \<Rightarrow> auth_session \<Rightarrow> auth_session" where
  "revoked_row now s = s\<lparr> as_revoked_at := Some now \<rparr>"

definition revoke_session :: "string \<Rightarrow> time \<Rightarrow> auth_db \<Rightarrow> service_error + auth_db" where
  "revoke_session i now db =
     (if \<exists>s\<in>set (ad_sessions db). s_id s = i \<and> as_revoked_at s = None
      then Inr (update_sessions (\<lambda>s. s_id s = i) (revoked_row now) db)
      else Inl ErrNotFound)"

definition revoke_user_sessions :: "string \<Rightarrow> time \<Rightarrow> auth_db \<Rightarrow> auth_db" where
  "revoke_user_sessions user_id now = update_sessions (\<lambda>s. s_user_id s = user_id) (revoked_row now)"

subsection \<open>Identifiers\<close>

definition hex_bytes :: "nat list \<Rightarrow> string" where
  "hex_bytes bs = hex_encode (map char_of bs)"

definition new_id :: "string \<Rightarrow> string" where
  "new_id bytes =
     (let b0 = map of_char (take 16 (bytes @ replicate 16 (CHR 0x00))) :: nat list;
          b1 = b0[6 := b0 ! 6 mod 16 + 64];
          b = b1[8 := b1 ! 8 mod 64 + 128];
          part = (\<lambda>i j. hex_bytes (take (j - i) (drop i b)))
      in part 0 4 @ ''-'' @ part 4 6 @ ''-'' @ part 6 8 @ ''-'' @ part 8 10 @ ''-'' @ part 10 16)"

subsection \<open>User service\<close>

definition alphanumeric :: "char \<Rightarrow> bool" where
  "alphanumeric c \<longleftrightarrow> (let n = of_char c :: nat in 97 \<le> n \<and> n \<le> 122 \<or> 65 \<le> n \<and> n \<le> 90 \<or> 48 \<le> n \<and> n \<le> 57)"

fun username_ok :: "string \<Rightarrow> bool" where
  "username_ok [] = False"
| "username_ok (c # r) \<longleftrightarrow> alphanumeric c \<and> 2 \<le> length r \<and> length r \<le> 31 \<and>
     list_all (\<lambda>d. alphanumeric d \<or> d = CHR ''.'' \<or> d = CHR ''_'' \<or> d = CHR ''-'') r"

text \<open>\<open>None\<close> is a panic of \<^verbatim>\<open>HashPassword\<close>, before anything is written.\<close>

definition create_account ::
  "auth_env \<Rightarrow> string \<Rightarrow> string \<Rightarrow> string \<Rightarrow> role \<Rightarrow> bool \<Rightarrow> bool \<Rightarrow> string option \<Rightarrow> string \<Rightarrow> time \<Rightarrow> auth_db \<Rightarrow>
   (service_error + (account \<times> auth_db)) option" where
  "create_account env name display password role must_change bootstrap rand id_bytes now db =
     (let username = trim_space name
      in if \<not> username_ok username
         then Some (Inl (ErrMessage ''username must be 3-32 characters and use letters, digits, dot, underscore or dash''))
         else if \<not> role_valid role then Some (Inl (ErrMessage ''invalid role''))
         else if bootstrap \<and> user_count db \<noteq> 0
         then Some (Inl (ErrMessage ''bootstrap is only allowed when no user exists''))
         else
           map_option (\<lambda>res. rbind res (\<lambda>hash.
             let user = \<lparr> u_id = new_id id_bytes, u_role = role, ac_username = username, ac_display_name = display,
                   ac_enabled = True, ac_must_change_password = must_change, ac_created_at = now,
                   ac_updated_at = now, ac_last_login_at = None \<rparr>
             in rbind (create_user user hash db) (\<lambda>db'. Inr (user, db'))))
           (hash_password (ae_hmac env) rand password (ae_password_params env)))"

text \<open>\<^verbatim>\<open>SetEnabled\<close> up to the revocation, which comes after a second reading of the clock.\<close>

definition write_enabled :: "string \<Rightarrow> bool \<Rightarrow> time \<Rightarrow> auth_db \<Rightarrow> service_error + (string \<times> auth_db)" where
  "write_enabled username enabled now db =
     rbind (get_user_by_username username db) (\<lambda>found.
     rbind (set_user_enabled username enabled now db) (\<lambda>db'. Inr (user_key found, db')))"

definition set_enabled :: "string \<Rightarrow> bool \<Rightarrow> time \<Rightarrow> time \<Rightarrow> auth_db \<Rightarrow> service_error + auth_db" where
  "set_enabled username enabled now now' db =
     rbind (write_enabled username enabled now db) (\<lambda>(i, db').
       Inr (if \<not> enabled then revoke_user_sessions i now' db' else db'))"

definition set_role :: "string \<Rightarrow> role \<Rightarrow> time \<Rightarrow> auth_db \<Rightarrow> service_error + auth_db" where
  "set_role username role now db =
     (if \<not> role_valid role then Inl (ErrMessage ''invalid role'') else set_user_role username role now db)"

definition write_password ::
  "auth_env \<Rightarrow> string \<Rightarrow> string \<Rightarrow> bool \<Rightarrow> string option \<Rightarrow> time \<Rightarrow> auth_db \<Rightarrow>
   (service_error + (string \<times> auth_db)) option" where
  "write_password env username password must_change rand now db =
     map_option (\<lambda>res. rbind res (\<lambda>hash.
       rbind (get_user_by_username username db) (\<lambda>found.
       rbind (store_set_password username hash must_change now db) (\<lambda>db'. Inr (user_key found, db')))))
     (hash_password (ae_hmac env) rand password (ae_password_params env))"

definition set_password ::
  "auth_env \<Rightarrow> string \<Rightarrow> string \<Rightarrow> bool \<Rightarrow> string option \<Rightarrow> time \<Rightarrow> time \<Rightarrow> auth_db \<Rightarrow> (service_error + auth_db) option" where
  "set_password env username password must_change rand now now' db =
     map_option (\<lambda>res. rbind res (\<lambda>(i, db'). Inr (revoke_user_sessions i now' db')))
     (write_password env username password must_change rand now db)"

definition verify :: "auth_env \<Rightarrow> string \<Rightarrow> string \<Rightarrow> auth_db \<Rightarrow> service_error + account" where
  "verify env username password db =
     rbind (get_user_by_username username db) (\<lambda>found.
       if \<not> ac_enabled (ua_user found) then Inl (ErrMessage ''user disabled'')
       else if verify_password (ae_hmac env) (ua_password_hash found) password = Inr True
       then Inr (ua_user found)
       else Inl (ErrMessage ''invalid credentials''))"

subsection \<open>Authentication service\<close>

record token_pair =
  tp_access_token :: string
  tp_refresh_token :: string
  tp_access_expires_at :: time
  tp_refresh_expires_at :: time
  tp_session_id :: string
  tp_user :: account

definition new_session ::
  "auth_env \<Rightarrow> account \<Rightarrow> string \<Rightarrow> string \<Rightarrow> string \<Rightarrow> string option \<Rightarrow> string option \<Rightarrow> string \<Rightarrow> time \<Rightarrow> auth_db \<Rightarrow>
   service_error + (token_pair \<times> auth_db)" where
  "new_session env user client_id client_name platform rand rand' id_bytes now db =
     rbind (new_token (ae_sha256 env) rand) (\<lambda>(at, ah).
     rbind (new_token (ae_sha256 env) rand') (\<lambda>(rt, rh).
       let sess = \<lparr> s_id = new_id id_bytes, s_user_id = u_id user, as_client_id = client_id,
             as_client_name = client_name, as_platform = platform, as_access_hash = ah, as_refresh_hash = rh,
             as_access_expiry = now + ae_access_ttl env, as_refresh_expiry = now + ae_refresh_ttl env,
             as_created_at = now, as_last_seen_at = now, as_revoked_at = None \<rparr>
       in rbind (create_session sess db) (\<lambda>db'.
            Inr (\<lparr> tp_access_token = at, tp_refresh_token = rt, tp_access_expires_at = as_access_expiry sess,
                   tp_refresh_expires_at = as_refresh_expiry sess, tp_session_id = s_id sess, tp_user = user \<rparr>,
                 update_last_login (u_id user) now db'))))"

definition login ::
  "auth_env \<Rightarrow> string \<Rightarrow> string \<Rightarrow> string \<Rightarrow> string \<Rightarrow> string \<Rightarrow> string option \<Rightarrow> string option \<Rightarrow> string \<Rightarrow> time \<Rightarrow>
   auth_db \<Rightarrow> service_error + (token_pair \<times> auth_db)" where
  "login env username password client_id client_name platform rand rand' id_bytes now db =
     rbind (verify env username password db) (\<lambda>user.
       new_session env user client_id client_name platform rand rand' id_bytes now db)"

text \<open>The user of a session, when present and enabled.\<close>

definition enabled_user :: "service_error \<Rightarrow> string \<Rightarrow> auth_db \<Rightarrow> service_error + account" where
  "enabled_user err i db =
     (case get_user_by_id i db of
        Inl _ \<Rightarrow> Inl err
      | Inr found \<Rightarrow> if \<not> ac_enabled (ua_user found) then Inl err else Inr (ua_user found))"

definition authenticate ::
  "auth_env \<Rightarrow> string \<Rightarrow> time \<Rightarrow> auth_db \<Rightarrow> service_error + (account \<times> auth_session \<times> auth_db)" where
  "authenticate env token now db =
     (if token = [] then Inl ErrInvalidAccessToken
      else case session_by_access_hash (hash_token (ae_sha256 env) token) db of
        Inl _ \<Rightarrow> Inl ErrInvalidAccessToken
      | Inr sess \<Rightarrow>
          if as_revoked_at sess \<noteq> None then Inl ErrInvalidAccessToken
          else if \<not> now < as_access_expiry sess then Inl ErrAccessTokenExpired
          else
            rbind (enabled_user ErrInvalidAccessToken (s_user_id sess) db) (\<lambda>user.
              Inr (user, sess,
                   if now - as_last_seen_at sess \<ge> session_touch_interval
                   then touch_session (ae_julianday env) (s_id sess) now db else db)))"

text \<open>\<^verbatim>\<open>Refresh\<close> up to the new tokens, and from there on.\<close>

definition check_refresh :: "auth_env \<Rightarrow> string \<Rightarrow> time \<Rightarrow> auth_db \<Rightarrow> service_error + (auth_session \<times> account)" where
  "check_refresh env token now db =
     (case session_by_refresh_hash (hash_token (ae_sha256 env) token) db of
        Inl _ \<Rightarrow> Inl ErrInvalidRefreshToken
      | Inr sess \<Rightarrow>
          if as_revoked_at sess \<noteq> None then Inl ErrInvalidRefreshToken
          else if \<not> now < as_refresh_expiry sess then Inl ErrRefreshTokenExpired
          else rbind (enabled_user ErrInvalidRefreshToken (s_user_id sess) db) (\<lambda>user. Inr (sess, user)))"

definition rotate_tokens ::
  "auth_env \<Rightarrow> auth_session \<Rightarrow> account \<Rightarrow> string option \<Rightarrow> string option \<Rightarrow> time \<Rightarrow> auth_db \<Rightarrow>
   service_error + (token_pair \<times> auth_db)" where
  "rotate_tokens env sess user rand rand' now db =
     rbind (new_token (ae_sha256 env) rand) (\<lambda>(at, ah).
     rbind (new_token (ae_sha256 env) rand') (\<lambda>(rt, rh).
       let access_exp = now + ae_access_ttl env; refresh_exp = now + ae_refresh_ttl env
       in rbind (rotate_session_tokens (s_id sess) ah rh access_exp refresh_exp now db) (\<lambda>db'.
            Inr (\<lparr> tp_access_token = at, tp_refresh_token = rt, tp_access_expires_at = access_exp,
                   tp_refresh_expires_at = refresh_exp, tp_session_id = s_id sess, tp_user = user \<rparr>, db'))))"

definition refresh ::
  "auth_env \<Rightarrow> string \<Rightarrow> string option \<Rightarrow> string option \<Rightarrow> time \<Rightarrow> auth_db \<Rightarrow> service_error + (token_pair \<times> auth_db)" where
  "refresh env token rand rand' now db =
     rbind (check_refresh env token now db) (\<lambda>(sess, user). rotate_tokens env sess user rand rand' now db)"

definition logout :: "string \<Rightarrow> time \<Rightarrow> auth_db \<Rightarrow> service_error + auth_db" where
  "logout = revoke_session"

end
