(* ===== verification/AccountFacts.thy ===== *)
theory AccountFacts
  imports Accounts
begin

text \<open>
  What the accounts keep: the constraints of the tables under every operation, who is let in, and
  that a revoked session stays out whatever operations follow, in whatever order their parts run.
\<close>

subsection \<open>Interleaved operations\<close>

text \<open>
  An operation that has read, or has written its first statement, waits here with what it holds
  until its second part runs; parts of other operations may run in between.
\<close>

datatype pending =
    PendingLogin account string string string
  | PendingRefresh auth_session account time
  | PendingRevoke string

datatype auth_op =
    CreateAccountOp string string string role bool bool "string option" string time
  | SetEnabledOp string bool time
  | SetRoleOp string role time
  | SetPasswordOp string string bool "string option" time
  | LoginOp string string string string string
  | AuthenticateOp string time
  | RefreshOp string time
  | LogoutOp string time
  | FinishOp nat "string option" "string option" string time

type_synonym auth_world = "auth_db \<times> pending list"

fun finish :: "auth_env \<Rightarrow> pending \<Rightarrow> string option \<Rightarrow> string option \<Rightarrow> string \<Rightarrow> time \<Rightarrow> auth_db \<Rightarrow> service_error + auth_db" where
  "finish env (PendingLogin user c n p) rand rand' id_bytes now db =
     map_sum id snd (new_session env user c n p rand rand' id_bytes now db)"
| "finish env (PendingRefresh sess user t) rand rand' id_bytes now db =
     map_sum id snd (rotate_tokens env sess user rand rand' t db)"
| "finish env (PendingRevoke i) rand rand' id_bytes now db = Inr (revoke_user_sessions i now db)"

fun auth_exec :: "auth_env \<Rightarrow> auth_op \<Rightarrow> auth_world \<Rightarrow> service_error + auth_world" where
  "auth_exec env (CreateAccountOp u d w r m b rand i t) (db, ps) =
     (case create_account env u d w r m b rand i t db of
        None \<Rightarrow> Inr (db, ps) | Some res \<Rightarrow> rbind res (\<lambda>(_, db'). Inr (db', ps)))"
| "auth_exec env (SetEnabledOp u e t) (db, ps) =
     rbind (write_enabled u e t db) (\<lambda>(i, db'). Inr (db', if \<not> e then ps @ [PendingRevoke i] else ps))"
| "auth_exec env (SetRoleOp u r t) (db, ps) = rbind (set_role u r t db) (\<lambda>db'. Inr (db', ps))"
| "auth_exec env (SetPasswordOp u w m rand t) (db, ps) =
     (case write_password env u w m rand t db of
        None \<Rightarrow> Inr (db, ps) | Some res \<Rightarrow> rbind res (\<lambda>(i, db'). Inr (db', ps @ [PendingRevoke i])))"
| "auth_exec env (LoginOp u w c n p) (db, ps) =
     rbind (verify env u w db) (\<lambda>user. Inr (db, ps @ [PendingLogin user c n p]))"
| "auth_exec env (AuthenticateOp tok t) (db, ps) =
     rbind (authenticate env tok t db) (\<lambda>(_, _, db'). Inr (db', ps))"
| "auth_exec env (RefreshOp tok t) (db, ps) =
     rbind (check_refresh env tok t db) (\<lambda>(sess, user). Inr (db, ps @ [PendingRefresh sess user t]))"
| "auth_exec env (LogoutOp s t) (db, ps) = rbind (logout s t db) (\<lambda>db'. Inr (db', ps))"
| "auth_exec env (FinishOp k rand rand' i t) (db, ps) =
     (if k < length ps
      then rbind (finish env (ps ! k) rand rand' i t db) (\<lambda>db'. Inr (db', take k ps @ drop (Suc k) ps))
      else Inr (db, ps))"

text \<open>An operation that fails leaves the tables as they were.\<close>

definition auth_step :: "auth_env \<Rightarrow> auth_op \<Rightarrow> auth_world \<Rightarrow> auth_world" where
  "auth_step env oper w = (case auth_exec env oper w of Inl _ \<Rightarrow> w | Inr w' \<Rightarrow> w')"

definition auth_run :: "auth_env \<Rightarrow> auth_op list \<Rightarrow> auth_world \<Rightarrow> auth_world" where
  "auth_run env ops w = fold (auth_step env) ops w"

subsection \<open>Invariant\<close>

definition auth_inv :: "auth_db \<Rightarrow> bool" where
  "auth_inv db \<longleftrightarrow>
     distinct (map user_key (ad_users db)) \<and>
     distinct (map (\<lambda>r. to_lower (ac_username (ua_user r))) (ad_users db)) \<and>
     distinct (map s_id (ad_sessions db)) \<and>
     distinct (map as_access_hash (ad_sessions db)) \<and>
     distinct (map as_refresh_hash (ad_sessions db)) \<and>
     s_user_id ` set (ad_sessions db) \<subseteq> user_key ` set (ad_users db)"

text \<open>
  How the tables move: a session keeps its identifier and its user, a revoked one keeps
  everything, and no user disappears.
\<close>

definition auth_forward :: "auth_db \<Rightarrow> auth_db \<Rightarrow> bool" where
  "auth_forward db db' \<longleftrightarrow>
     (\<forall>s\<in>set (ad_sessions db). \<exists>s'\<in>set (ad_sessions db').
        s_id s' = s_id s \<and> s_user_id s' = s_user_id s \<and> (as_revoked_at s \<noteq> None \<longrightarrow> s' = s)) \<and>
     user_key ` set (ad_users db) \<subseteq> user_key ` set (ad_users db')"

lemma auth_forward_refl [simp]: "auth_forward db db"
  by (auto simp: auth_forward_def)

lemma auth_forward_trans: "auth_forward a b \<Longrightarrow> auth_forward b c \<Longrightarrow> auth_forward a c"
  unfolding auth_forward_def by (elim conjE, intro conjI ballI) (metis (no_types, lifting), blast)

text \<open>Both columns of hashes grow by hashes of the given set only.\<close>

definition columns_within :: "string set \<Rightarrow> auth_db \<Rightarrow> auth_db \<Rightarrow> bool" where
  "columns_within hs db db' \<longleftrightarrow>
     as_access_hash ` set (ad_sessions db') \<subseteq> as_access_hash ` set (ad_sessions db) \<union> hs \<and>
     as_refresh_hash ` set (ad_sessions db') \<subseteq> as_refresh_hash ` set (ad_sessions db) \<union> hs"

lemma columns_same: "ad_sessions db' = ad_sessions db \<Longrightarrow> columns_within hs db db'"
  by (auto simp: columns_within_def)

lemma columns_within_trans:
  "columns_within hs a b \<Longrightarrow> columns_within hs' b c \<Longrightarrow> columns_within (hs \<union> hs') a c"
  unfolding columns_within_def by blast

text \<open>
  What an update of the users table may change: not the key and not the name. What an update of
  the sessions table may change: not the identifier and not the user.
\<close>

locale user_update =
  fixes upd :: "user_auth \<Rightarrow> user_auth"
  assumes keeps_key: "user_key (upd r) = user_key r"
    and keeps_name: "ac_username (ua_user (upd r)) = ac_username (ua_user r)"
begin

lemma keys: "map user_key (ad_users (update_users cond upd db)) = map user_key (ad_users db)"
  by (simp add: update_users_def keeps_key)

lemma names:
  "map (\<lambda>r. to_lower (ac_username (ua_user r))) (ad_users (update_users cond upd db)) =
   map (\<lambda>r. to_lower (ac_username (ua_user r))) (ad_users db)"
  by (simp add: update_users_def keeps_name)

lemma sessions: "ad_sessions (update_users cond upd db) = ad_sessions db"
  by (simp add: update_users_def)

lemma update_inv: "auth_inv db \<Longrightarrow> auth_inv (update_users cond upd db)"
  unfolding auth_inv_def keys names sessions
  using arg_cong [OF keys [of cond db], of set] by simp

lemma update_forward: "auth_forward db (update_users cond upd db)"
  using arg_cong [OF keys [of cond db], of set] by (auto simp: auth_forward_def sessions)

lemma affected:
  assumes "auth_inv db" and "update_users_affected cond upd db = Inr db'"
  shows "auth_inv db' \<and> auth_forward db db'"
  using assms update_inv update_forward by (auto simp: update_users_affected_def split: if_splits)

end

locale session_update =
  fixes upd :: "auth_session \<Rightarrow> auth_session"
  assumes keeps_id: "s_id (upd s) = s_id s"
    and keeps_user: "s_user_id (upd s) = s_user_id s"
begin

lemma update_forward: "auth_forward db (update_sessions cond upd db)"
proof -
  have "\<exists>s'\<in>set (ad_sessions (update_sessions cond upd db)).
      s_id s' = s_id s \<and> s_user_id s' = s_user_id s \<and> (as_revoked_at s \<noteq> None \<longrightarrow> s' = s)"
    if "s \<in> set (ad_sessions db)" for s
    using that by (intro bexI [of _ "if cond s \<and> as_revoked_at s = None then upd s else s"])
      (simp_all add: update_sessions_def keeps_id keeps_user)
  then show ?thesis by (simp add: auth_forward_def update_sessions_def)
qed

lemma ids: "map s_id (ad_sessions (update_sessions cond upd db)) = map s_id (ad_sessions db)"
  by (simp add: update_sessions_def keeps_id)

lemma users: "map s_user_id (ad_sessions (update_sessions cond upd db)) = map s_user_id (ad_sessions db)"
  by (simp add: update_sessions_def keeps_user)

end

text \<open>Most updates leave the hashes alone too.\<close>

locale hash_update = session_update +
  assumes keeps_access: "as_access_hash (upd s) = as_access_hash s"
    and keeps_refresh: "as_refresh_hash (upd s) = as_refresh_hash s"
begin

lemma access_hashes:
  "map as_access_hash (ad_sessions (update_sessions cond upd db)) = map as_access_hash (ad_sessions db)"
  by (simp add: update_sessions_def keeps_access)

lemma refresh_hashes:
  "map as_refresh_hash (ad_sessions (update_sessions cond upd db)) = map as_refresh_hash (ad_sessions db)"
  by (simp add: update_sessions_def keeps_refresh)

lemma columns: "columns_within hs db (update_sessions cond upd db)"
  using arg_cong [OF access_hashes [of cond db], of set] arg_cong [OF refresh_hashes [of cond db], of set]
  unfolding columns_within_def set_map by (simp only:) blast

lemma update_inv:
  assumes "auth_inv db"
  shows "auth_inv (update_sessions cond upd db)"
proof -
  have "ad_users (update_sessions cond upd db) = ad_users db" by (simp add: update_sessions_def)
  moreover have "s_user_id ` set (ad_sessions (update_sessions cond upd db)) = s_user_id ` set (ad_sessions db)"
    using arg_cong [OF users [of cond db], of set] by simp
  ultimately show ?thesis using assms by (simp only: auth_inv_def ids access_hashes refresh_hashes)
qed

end

interpretation enabled_upd: user_update "enabled_row e t" for e t
  by unfold_locales (simp_all add: enabled_row_def)

interpretation role_upd: user_update "role_row r t" for r t
  by unfold_locales (simp_all add: role_row_def)

interpretation password_upd: user_update "password_row h m t" for h m t
  by unfold_locales (simp_all add: password_row_def)

interpretation login_upd: user_update "login_row t" for t
  by unfold_locales (simp_all add: login_row_def)

interpretation rotated_upd: session_update "rotated_row ah rh ae re t" for ah rh ae re t
  by unfold_locales (simp_all add: rotated_row_def)

interpretation seen_upd: hash_update "seen_row t" for t
  by unfold_locales (simp_all add: seen_row_def)

interpretation revoked_upd: hash_update "revoked_row t" for t
  by unfold_locales (simp_all add: revoked_row_def)

subsection \<open>Every part of an operation keeps the invariant\<close>

lemma create_user_inv:
  assumes "auth_inv db" and "create_user u h db = Inr db'"
  shows "auth_inv db' \<and> auth_forward db db'"
proof -
  obtain r where db': "db' = db\<lparr> ad_users := ad_users db @ [r] \<rparr>"
    and "user_key r \<notin> user_key ` set (ad_users db)"
    and "to_lower (ac_username (ua_user r)) \<notin> (\<lambda>r. to_lower (ac_username (ua_user r))) ` set (ad_users db)"
    using assms(2) by (fastforce simp: create_user_def Let_def named_def split: if_splits)
  then have "auth_inv db'" using assms(1) by (simp add: auth_inv_def subset_insertI2)
  then show ?thesis by (auto simp: db' auth_forward_def)
qed

lemma create_session_inv:
  assumes "auth_inv db" and "create_session s db = Inr db'"
  shows "auth_inv db' \<and> auth_forward db db'"
proof -
  have "auth_forward db db'"
    using assms(2) by (auto simp: create_session_def auth_forward_def split: if_splits)
  moreover have "auth_inv db'"
  proof -
    have db': "db' = db\<lparr> ad_sessions := ad_sessions db @ [s\<lparr> as_revoked_at := None \<rparr>] \<rparr>"
      and new: "s_id s \<notin> s_id ` set (ad_sessions db)" "as_access_hash s \<notin> as_access_hash ` set (ad_sessions db)"
        "as_refresh_hash s \<notin> as_refresh_hash ` set (ad_sessions db)" "s_user_id s \<in> user_key ` set (ad_users db)"
      using assms(2) by (auto simp: create_session_def split: if_splits)
    then show ?thesis using assms(1) unfolding auth_inv_def db' by simp
  qed
  ultimately show ?thesis by blast
qed

text \<open>New hashes on one session keep the column free of duplicates when no other session has them.\<close>

lemma distinct_changed_row:
  assumes "distinct (map key ss)" and "distinct (map s_id ss)"
    and "\<And>s. s \<in> set ss \<Longrightarrow> s_id s \<noteq> i \<Longrightarrow> key s \<noteq> h"
    and "\<And>s. key (f s) = (if s_id s = i \<and> as_revoked_at s = None then h else key s)"
  shows "distinct (map (\<lambda>s. key (f s)) ss)"
  using assms
proof (induction ss)
  case (Cons s ss)
  have "key (f s) \<noteq> key (f t)" if t: "t \<in> set ss" for t
  proof -
    have "key t \<noteq> key s" "s_id t \<noteq> s_id s" using Cons.prems(1,2) t by (auto simp: image_iff)
    then show ?thesis using Cons.prems(3) [of t] Cons.prems(3) [of s] t by (auto simp: Cons.prems(4))
  qed
  moreover have "distinct (map (\<lambda>s. key (f s)) ss)" using Cons by simp
  ultimately show ?case by auto
qed simp

lemma rotate_session_tokens_inv:
  assumes inv: "auth_inv db" and run: "rotate_session_tokens i ah rh ae re t db = Inr db'"
  shows "auth_inv db' \<and> auth_forward db db'"
proof -
  let ?f = "\<lambda>s. if s_id s = i \<and> as_revoked_at s = None then rotated_row ah rh ae re t s else s"
  have db': "db' = update_sessions (\<lambda>s. s_id s = i) (rotated_row ah rh ae re t) db"
    using run by (auto simp: rotate_session_tokens_def split: if_splits)
  have free: "s_id s \<noteq> i \<Longrightarrow> as_access_hash s \<noteq> ah \<and> as_refresh_hash s \<noteq> rh" if "s \<in> set (ad_sessions db)" for s
    using run that by (auto simp: rotate_session_tokens_def split: if_splits)
  have rows: "ad_sessions db' = map ?f (ad_sessions db)" by (simp add: db' update_sessions_def)
  have "distinct (map (\<lambda>s. as_access_hash (?f s)) (ad_sessions db))"
    by (rule distinct_changed_row [where i = i and h = ah and key = as_access_hash])
      (use inv free in \<open>auto simp: auth_inv_def rotated_row_def\<close>)
  moreover have "distinct (map (\<lambda>s. as_refresh_hash (?f s)) (ad_sessions db))"
    by (rule distinct_changed_row [where i = i and h = rh and key = as_refresh_hash])
      (use inv free in \<open>auto simp: auth_inv_def rotated_row_def\<close>)
  ultimately have "distinct (map as_access_hash (ad_sessions db'))" "distinct (map as_refresh_hash (ad_sessions db'))"
    by (simp_all only: rows map_map comp_def)
  moreover have "ad_users db' = ad_users db" by (simp add: db' update_sessions_def)
  moreover have "map s_id (ad_sessions db') = map s_id (ad_sessions db)" unfolding db' by (rule rotated_upd.ids)
  moreover have "s_user_id ` set (ad_sessions db') = s_user_id ` set (ad_sessions db)"
    using arg_cong [OF rotated_upd.users [of "\<lambda>s. s_id s = i" ah rh ae re t db], of set] unfolding db' by simp
  ultimately have "auth_inv db'" using inv by (simp only: auth_inv_def)
  then show ?thesis unfolding db' using rotated_upd.update_forward by blast
qed

lemma new_session_inv:
  assumes "auth_inv db" and "new_session env u c n p r r' i t db = Inr (pair, db')"
  shows "auth_inv db' \<and> auth_forward db db'"
proof -
  obtain s db1 where "create_session s db = Inr db1" and db': "db' = update_last_login (u_id u) t db1"
    using assms(2) by (auto simp: new_session_def Let_def split: prod.splits)
  then have "auth_inv db1" "auth_forward db db1" using create_session_inv assms(1) by blast+
  then show ?thesis
    unfolding db' update_last_login_def
    using login_upd.update_inv login_upd.update_forward auth_forward_trans by blast
qed

lemma rotate_tokens_inv:
  assumes "auth_inv db" and "rotate_tokens env s u r r' t db = Inr (pair, db')"
  shows "auth_inv db' \<and> auth_forward db db'"
  using assms rotate_session_tokens_inv by (fastforce simp: rotate_tokens_def Let_def split: prod.splits)

lemma revoke_user_sessions_inv:
  "auth_inv db \<Longrightarrow> auth_inv (revoke_user_sessions i t db) \<and> auth_forward db (revoke_user_sessions i t db)"
  unfolding revoke_user_sessions_def by (blast intro: revoked_upd.update_inv revoked_upd.update_forward)

lemma finish_inv:
  assumes "auth_inv db" and "finish env q r r' i t db = Inr db'"
  shows "auth_inv db' \<and> auth_forward db db'"
proof (cases q)
  case (PendingLogin u c n p)
  then obtain pair where "new_session env u c n p r r' i t db = Inr (pair, db')"
    using assms(2) by (cases "new_session env u c n p r r' i t db") auto
  then show ?thesis using new_session_inv assms(1) by blast
next
  case (PendingRefresh s u t')
  then obtain pair where "rotate_tokens env s u r r' t' db = Inr (pair, db')"
    using assms(2) by (cases "rotate_tokens env s u r r' t' db") auto
  then show ?thesis using rotate_tokens_inv assms(1) by blast
next
  case (PendingRevoke i)
  then show ?thesis using assms revoke_user_sessions_inv by auto
qed

lemma authenticate_inv:
  assumes "auth_inv db" and "authenticate env tok t db = Inr (u, s, db')"
  shows "auth_inv db' \<and> auth_forward db db'"
  using assms seen_upd.update_inv seen_upd.update_forward
  by (auto simp: authenticate_def touch_session_def split: if_splits sum.splits)

lemma write_enabled_inv:
  assumes "auth_inv db" and "write_enabled name e t db = Inr (i, db')"
  shows "auth_inv db' \<and> auth_forward db db'"
  using assms enabled_upd.affected by (auto simp: write_enabled_def set_user_enabled_def)

lemma write_password_inv:
  assumes "auth_inv db" and "write_password env name w m rand t db = Some (Inr (i, db'))"
  shows "auth_inv db' \<and> auth_forward db db'"
  using assms password_upd.affected by (auto simp: write_password_def store_set_password_def)

lemma create_account_inv:
  assumes "auth_inv db" and "create_account env n d w r m b rand i t db = Some (Inr (u, db'))"
  shows "auth_inv db' \<and> auth_forward db db'"
  using assms create_user_inv by (auto simp: create_account_def Let_def split: if_splits)

lemma set_role_inv:
  assumes "auth_inv db" and "set_role name r t db = Inr db'"
  shows "auth_inv db' \<and> auth_forward db db'"
  using assms role_upd.affected by (auto simp: set_role_def set_user_role_def split: if_splits)

lemma logout_inv:
  assumes "auth_inv db" and "logout i t db = Inr db'"
  shows "auth_inv db' \<and> auth_forward db db'"
  using assms revoked_upd.update_inv revoked_upd.update_forward
  by (auto simp: logout_def revoke_session_def split: if_splits)

lemmas account_operations_inv =
  create_account_inv write_enabled_inv set_role_inv write_password_inv authenticate_inv logout_inv finish_inv

lemma auth_exec_inv:
  assumes "auth_inv (fst w)" and "auth_exec env oper w = Inr w'"
  shows "auth_inv (fst w') \<and> auth_forward (fst w) (fst w')"
  using assms
  by (cases "(env, oper, w)" rule: auth_exec.cases)
    (auto split: option.splits if_splits dest: account_operations_inv)

lemma auth_step_inv:
  "auth_inv (fst w) \<Longrightarrow> auth_inv (fst (auth_step env oper w)) \<and> auth_forward (fst w) (fst (auth_step env oper w))"
  using auth_exec_inv by (auto simp: auth_step_def split: sum.splits)

lemma auth_run_Nil [simp]: "auth_run env [] w = w"
  and auth_run_Cons [simp]: "auth_run env (oper # ops) w = auth_run env ops (auth_step env oper w)"
  by (simp_all add: auth_run_def)

lemma auth_run_inv:
  "auth_inv (fst w) \<Longrightarrow> auth_inv (fst (auth_run env ops w)) \<and> auth_forward (fst w) (fst (auth_run env ops w))"
proof (induction ops arbitrary: w)
  case (Cons oper ops)
  from auth_step_inv [OF Cons.prems] Cons.IH [of "auth_step env oper w"] show ?case
    by (auto intro: auth_forward_trans)
qed simp

subsection \<open>Looking rows up\<close>

lemma find_distinct_key:
  "distinct (map key xs) \<Longrightarrow> find (\<lambda>x. key x = k) xs = Some x \<longleftrightarrow> x \<in> set xs \<and> key x = k"
  by (induction xs) auto

lemma session_by_access_hash_Inr:
  "auth_inv db \<Longrightarrow> session_by_access_hash h db = Inr s \<longleftrightarrow> s \<in> set (ad_sessions db) \<and> as_access_hash s = h"
  using find_distinct_key [of as_access_hash "ad_sessions db" h s]
  by (auto simp: session_by_access_hash_def session_where_def auth_inv_def split: option.splits)

lemma session_by_refresh_hash_Inr:
  "auth_inv db \<Longrightarrow> session_by_refresh_hash h db = Inr s \<longleftrightarrow> s \<in> set (ad_sessions db) \<and> as_refresh_hash s = h"
  using find_distinct_key [of as_refresh_hash "ad_sessions db" h s]
  by (auto simp: session_by_refresh_hash_def session_where_def auth_inv_def split: option.splits)

lemma get_user_by_id_Inr:
  "auth_inv db \<Longrightarrow> get_user_by_id i db = Inr r \<longleftrightarrow> r \<in> set (ad_users db) \<and> user_key r = i"
  using find_distinct_key [of user_key "ad_users db" i r]
  by (auto simp: get_user_by_id_def auth_inv_def split: option.splits)

lemma enabled_user_Inr:
  "auth_inv db \<Longrightarrow> enabled_user e i db = Inr u \<longleftrightarrow>
     (\<exists>r\<in>set (ad_users db). ua_user r = u \<and> u_id u = i \<and> ac_enabled u)"
proof -
  assume "auth_inv db"
  moreover have "enabled_user e i db = Inr u \<longleftrightarrow> (\<exists>r. get_user_by_id i db = Inr r \<and> ua_user r = u \<and> ac_enabled u)"
    by (auto simp: enabled_user_def split: sum.splits)
  ultimately show ?thesis by (auto simp: get_user_by_id_Inr)
qed

lemma auth_inv_session_unique:
  assumes "auth_inv db" and "s \<in> set (ad_sessions db)" and "s' \<in> set (ad_sessions db)" and "s_id s = s_id s'"
  shows "s = s'"
  using assms by (auto simp: auth_inv_def distinct_map inj_on_def)

subsection \<open>Who is let in\<close>

lemma authenticate_Inr:
  assumes "auth_inv db"
  shows "(\<exists>db'. authenticate env token now db = Inr (u, s, db')) \<longleftrightarrow>
    token \<noteq> [] \<and> s \<in> set (ad_sessions db) \<and> as_access_hash s = hash_token (ae_sha256 env) token \<and>
    as_revoked_at s = None \<and> now < as_access_expiry s \<and>
    (\<exists>r\<in>set (ad_users db). ua_user r = u \<and> u_id u = s_user_id s \<and> ac_enabled u)"
proof (cases "session_by_access_hash (hash_token (ae_sha256 env) token) db")
  case (Inl e)
  then have "\<not> (s \<in> set (ad_sessions db) \<and> as_access_hash s = hash_token (ae_sha256 env) token)"
    using session_by_access_hash_Inr [OF assms] by (metis sum.distinct(1))
  then show ?thesis using Inl by (auto simp: authenticate_def)
next
  case (Inr s')
  then have "s \<in> set (ad_sessions db) \<and> as_access_hash s = hash_token (ae_sha256 env) token \<longleftrightarrow> s = s'"
    using session_by_access_hash_Inr [OF assms] by (metis sum.inject(2))
  then show ?thesis
    using Inr enabled_user_Inr [OF assms, of ErrInvalidAccessToken "s_user_id s'"]
    by (auto simp: authenticate_def)
qed

lemma check_refresh_Inr:
  assumes "auth_inv db"
  shows "check_refresh env token now db = Inr (s, u) \<longleftrightarrow>
    s \<in> set (ad_sessions db) \<and> as_refresh_hash s = hash_token (ae_sha256 env) token \<and>
    as_revoked_at s = None \<and> now < as_refresh_expiry s \<and>
    (\<exists>r\<in>set (ad_users db). ua_user r = u \<and> u_id u = s_user_id s \<and> ac_enabled u)"
proof (cases "session_by_refresh_hash (hash_token (ae_sha256 env) token) db")
  case (Inl e)
  then have "\<not> (s \<in> set (ad_sessions db) \<and> as_refresh_hash s = hash_token (ae_sha256 env) token)"
    using session_by_refresh_hash_Inr [OF assms] by (metis sum.distinct(1))
  then show ?thesis using Inl by (auto simp: check_refresh_def)
next
  case (Inr s')
  then have "s \<in> set (ad_sessions db) \<and> as_refresh_hash s = hash_token (ae_sha256 env) token \<longleftrightarrow> s = s'"
    using session_by_refresh_hash_Inr [OF assms] by (metis sum.inject(2))
  then show ?thesis
    using Inr enabled_user_Inr [OF assms, of ErrInvalidRefreshToken "s_user_id s'"]
    by (auto simp: check_refresh_def)
qed

subsection \<open>Revocation\<close>

definition revoked_in :: "string \<Rightarrow> auth_db \<Rightarrow> bool" where
  "revoked_in i db \<longleftrightarrow> (\<exists>s\<in>set (ad_sessions db). s_id s = i \<and> as_revoked_at s \<noteq> None)"

lemma revoked_in_forward: "auth_forward db db' \<Longrightarrow> revoked_in i db \<Longrightarrow> revoked_in i db'"
  unfolding auth_forward_def revoked_in_def by metis

lemma revoked_in_refused:
  assumes "auth_inv db" and "revoked_in i db" and "s \<in> set (ad_sessions db)" and "as_revoked_at s = None"
  shows "s_id s \<noteq> i"
  using assms(2-4) auth_inv_session_unique [OF assms(1)] unfolding revoked_in_def by metis

lemma revoke_user_sessions_revokes:
  "s \<in> set (ad_sessions db) \<Longrightarrow> s_user_id s = i \<Longrightarrow> revoked_in (s_id s) (revoke_user_sessions i t db)"
  unfolding revoked_in_def revoke_user_sessions_def
  by (rule bexI [of _ "if as_revoked_at s = None then revoked_row t s else s"])
    (auto simp: update_sessions_def revoked_row_def)

lemma write_enabled_Inr:
  "write_enabled name e t db = Inr (i, db') \<Longrightarrow>
     ad_sessions db' = ad_sessions db \<and> (\<exists>found. get_user_by_username name db = Inr found \<and> user_key found = i)"
  by (auto simp: write_enabled_def set_user_enabled_def update_users_affected_def enabled_upd.sessions split: if_splits)

lemma write_password_Inr:
  "write_password env name w m rand t db = Some (Inr (i, db')) \<Longrightarrow>
     ad_sessions db' = ad_sessions db \<and> (\<exists>found. get_user_by_username name db = Inr found \<and> user_key found = i)"
  by (auto simp: write_password_def store_set_password_def update_users_affected_def password_upd.sessions
      split: if_splits)

lemma revocation_is_final:
  assumes inv: "auth_inv db" and old: "s \<in> set (ad_sessions db)" "s_user_id s = i"
    and db': "db' = fst (auth_run env ops (revoke_user_sessions i t db, ps))"
  shows "authenticate env token now db' = Inr (u, s', d) \<Longrightarrow> s_id s' \<noteq> s_id s"
    and "check_refresh env token now db' = Inr (s', u) \<Longrightarrow> s_id s' \<noteq> s_id s"
proof -
  have "auth_inv (revoke_user_sessions i t db)" using inv revoke_user_sessions_inv by blast
  then have run: "auth_inv db'" "auth_forward (revoke_user_sessions i t db) db'"
    using auth_run_inv [of "(revoke_user_sessions i t db, ps)" env ops] by (auto simp: db')
  have revoked: "revoked_in (s_id s) db'"
    using revoked_in_forward [OF run(2)] revoke_user_sessions_revokes [OF old] by blast
  show "s_id s' \<noteq> s_id s" if "authenticate env token now db' = Inr (u, s', d)"
    using that authenticate_Inr [OF run(1), of env token now u s'] revoked_in_refused [OF run(1) revoked] by blast
  show "s_id s' \<noteq> s_id s" if "check_refresh env token now db' = Inr (s', u)"
    using that check_refresh_Inr [OF run(1), of env token now s' u] revoked_in_refused [OF run(1) revoked] by blast
qed

subsection \<open>Which hashes the table can hold\<close>

fun drawn :: "auth_env \<Rightarrow> auth_op \<Rightarrow> string set" where
  "drawn env (FinishOp k r r' i t) =
     {h. \<exists>x\<in>{r, r'}. \<exists>tok. new_token (ae_sha256 env) x = Inr (tok, h)}"
| "drawn env _ = {}"

lemma new_session_columns:
  assumes "new_session env u c n p r r' i t db = Inr (pair, db')"
  shows "columns_within (drawn env (FinishOp k r r' i t)) db db'"
  using assms
  by (auto simp: new_session_def create_session_def update_last_login_def login_upd.sessions columns_within_def
      Let_def split: if_splits)

lemma rotate_tokens_columns:
  assumes "rotate_tokens env s u r r' t' db = Inr (pair, db')"
  shows "columns_within (drawn env (FinishOp k r r' i t)) db db'"
  using assms
  by (auto simp: rotate_tokens_def rotate_session_tokens_def update_sessions_def rotated_row_def columns_within_def
      Let_def split: if_splits)

lemma finish_columns:
  assumes "finish env q r r' i t db = Inr db'"
  shows "columns_within (drawn env (FinishOp k r r' i t)) db db'"
proof (cases q)
  case (PendingLogin u c n p)
  then obtain pair where "new_session env u c n p r r' i t db = Inr (pair, db')"
    using assms by (cases "new_session env u c n p r r' i t db") auto
  then show ?thesis by (rule new_session_columns)
next
  case (PendingRefresh s u t')
  then obtain pair where "rotate_tokens env s u r r' t' db = Inr (pair, db')"
    using assms by (cases "rotate_tokens env s u r r' t' db") auto
  then show ?thesis by (rule rotate_tokens_columns)
next
  case (PendingRevoke i)
  then show ?thesis
    using assms revoked_upd.columns by (auto simp: revoke_user_sessions_def)
qed

lemma create_account_sessions:
  "create_account env n d w r m b rand i t db = Some (Inr (u, db')) \<Longrightarrow> ad_sessions db' = ad_sessions db"
  by (auto simp: create_account_def create_user_def Let_def split: if_splits)

lemma set_role_sessions: "set_role n r t db = Inr db' \<Longrightarrow> ad_sessions db' = ad_sessions db"
  by (auto simp: set_role_def set_user_role_def update_users_affected_def role_upd.sessions split: if_splits)

lemma authenticate_columns:
  "authenticate env tok t db = Inr (u, s, db') \<Longrightarrow> columns_within hs db db'"
  using seen_upd.columns columns_same by (auto simp: authenticate_def touch_session_def split: if_splits sum.splits)

lemma logout_columns: "logout i t db = Inr db' \<Longrightarrow> columns_within hs db db'"
  using revoked_upd.columns by (auto simp: logout_def revoke_session_def split: if_splits)

lemma auth_exec_columns:
  assumes "auth_exec env oper w = Inr w'"
  shows "columns_within (drawn env oper) (fst w) (fst w')"
  using assms
  by (cases "(env, oper, w)" rule: auth_exec.cases)
    (auto split: option.splits if_splits simp del: drawn.simps(1)
      intro: columns_same columns_same [OF create_account_sessions] columns_same [OF set_role_sessions]
        columns_same [OF conjunct1 [OF write_enabled_Inr]] columns_same [OF conjunct1 [OF write_password_Inr]]
        authenticate_columns logout_columns finish_columns)

lemma auth_run_columns: "columns_within (\<Union>oper\<in>set ops. drawn env oper) (fst w) (fst (auth_run env ops w))"
proof (induction ops arbitrary: w)
  case Nil
  show ?case by (simp add: columns_same)
next
  case (Cons oper ops)
  have "columns_within (drawn env oper) (fst w) (fst (auth_step env oper w))"
    using auth_exec_columns [of env oper w] by (auto simp: auth_step_def columns_same split: sum.splits)
  from columns_within_trans [OF this Cons.IH [of "auth_step env oper w"]] show ?case by simp
qed

lemma columns_keep_out:
  assumes "columns_within hs db db'" and "h \<notin> hs"
  shows "h \<notin> as_access_hash ` set (ad_sessions db) \<Longrightarrow> h \<notin> as_access_hash ` set (ad_sessions db')"
    and "h \<notin> as_refresh_hash ` set (ad_sessions db) \<Longrightarrow> h \<notin> as_refresh_hash ` set (ad_sessions db')"
  using assms by (auto simp: columns_within_def)

subsection \<open>Refreshing\<close>

lemma refresh_Inr:
  assumes inv: "auth_inv db" and run: "refresh env token rand rand' now db = Inr (pair, db')"
  shows "\<exists>s u ah rh. check_refresh env token now db = Inr (s, u) \<and> auth_inv db' \<and>
    ah = hash_token (ae_sha256 env) (tp_access_token pair) \<and> rh = hash_token (ae_sha256 env) (tp_refresh_token pair) \<and>
    s_id s = tp_session_id pair \<and>
    db' = update_sessions (\<lambda>x. s_id x = s_id s)
      (rotated_row ah rh (now + ae_access_ttl env) (now + ae_refresh_ttl env) now) db"
proof -
  obtain s u where check: "check_refresh env token now db = Inr (s, u)"
    and rot: "rotate_tokens env s u rand rand' now db = Inr (pair, db')"
    using run by (auto simp: refresh_def)
  from rot have "auth_inv db'" using rotate_tokens_inv [OF inv] by blast
  with check rot show ?thesis
    by (auto simp: rotate_tokens_def rotate_session_tokens_def new_token_def Let_def split: if_splits option.splits)
qed

text \<open>The row of a session that is updated has only its new hashes; the old ones are in no row.\<close>

lemma rotated_hashes_gone:
  assumes inv: "auth_inv db" and s: "s \<in> set (ad_sessions db)" "as_revoked_at s = None"
    and db': "db' = update_sessions (\<lambda>x. s_id x = s_id s) (rotated_row ah rh ae re t) db"
  shows "ah \<noteq> as_access_hash s \<Longrightarrow> as_access_hash s \<notin> as_access_hash ` set (ad_sessions db')"
    and "rh \<noteq> as_refresh_hash s \<Longrightarrow> as_refresh_hash s \<notin> as_refresh_hash ` set (ad_sessions db')"
proof -
  have d: "inj_on as_access_hash (set (ad_sessions db))" "inj_on as_refresh_hash (set (ad_sessions db))"
    using inv by (simp_all add: auth_inv_def distinct_map)
  show "as_access_hash s \<notin> as_access_hash ` set (ad_sessions db')" if "ah \<noteq> as_access_hash s"
    using that s inj_onD [OF d(1), of s] unfolding db'
    by (auto simp: update_sessions_def rotated_row_def)
  show "as_refresh_hash s \<notin> as_refresh_hash ` set (ad_sessions db')" if "rh \<noteq> as_refresh_hash s"
    using that s inj_onD [OF d(2), of s] unfolding db'
    by (auto simp: update_sessions_def rotated_row_def)
qed

lemma absent_hash_refused:
  assumes "auth_inv db"
  shows "hash_token (ae_sha256 env) token \<notin> as_access_hash ` set (ad_sessions db) \<Longrightarrow>
      authenticate env token now db = Inl ErrInvalidAccessToken"
    and "hash_token (ae_sha256 env) token \<notin> as_refresh_hash ` set (ad_sessions db) \<Longrightarrow>
      check_refresh env token now db = Inl ErrInvalidRefreshToken"
  using session_by_access_hash_Inr [OF assms] session_by_refresh_hash_Inr [OF assms]
  by (auto simp: authenticate_def check_refresh_def image_iff split: sum.split)

subsection \<open>A login that crosses a change of the password\<close>

lemma get_user_by_username_Inr:
  "get_user_by_username name db = Inr r \<Longrightarrow> r \<in> set (ad_users db)"
  by (auto simp: get_user_by_username_def find_Some_iff split: option.splits)

lemma verify_Inr: "verify env name w db = Inr u \<Longrightarrow> ac_enabled u \<and> u \<in> ua_user ` set (ad_users db)"
  by (auto simp: verify_def dest: get_user_by_username_Inr split: if_splits)

definition has_enabled :: "string \<Rightarrow> auth_db \<Rightarrow> bool" where
  "has_enabled i db \<longleftrightarrow> (\<exists>r\<in>set (ad_users db). user_key r = i \<and> ac_enabled (ua_user r))"

lemma has_enabled_update:
  assumes "has_enabled i db" and "\<And>r. user_key (upd r) = user_key r"
    and "\<And>r. ac_enabled (ua_user r) \<Longrightarrow> ac_enabled (ua_user (upd r))"
  shows "has_enabled i (update_users cond upd db)"
proof -
  obtain r where r: "r \<in> set (ad_users db)" "user_key r = i" "ac_enabled (ua_user r)"
    using assms(1) by (auto simp: has_enabled_def)
  then show ?thesis unfolding has_enabled_def update_users_def
    by (intro bexI [of _ "if cond r then upd r else r"]) (auto simp: assms(2,3))
qed

lemma write_password_enabled:
  "write_password env name w m rand t db = Some (Inr (j, db')) \<Longrightarrow> has_enabled i db \<Longrightarrow> has_enabled i db'"
  by (auto simp: write_password_def store_set_password_def update_users_affected_def password_row_def
      intro: has_enabled_update split: if_splits)

lemma has_enabled_sessions: "ad_users db' = ad_users db \<Longrightarrow> has_enabled i db' = has_enabled i db"
  by (simp add: has_enabled_def)

lemma new_session_Inr:
  assumes "new_session env u c n p rand rand' i t db = Inr (pair, db')"
  shows "\<exists>s\<in>set (ad_sessions db'). s_id s = tp_session_id pair \<and> s_user_id s = u_id u \<and>
      as_access_hash s = hash_token (ae_sha256 env) (tp_access_token pair) \<and> as_revoked_at s = None \<and>
      as_access_expiry s = t + ae_access_ttl env"
    and "has_enabled j db \<Longrightarrow> has_enabled j db'"
proof -
  from assms obtain x db1 where "create_session x db = Inr db1" and db': "db' = update_last_login (u_id u) t db1"
    by (auto simp: new_session_def Let_def split: prod.splits)
  then have "ad_users db1 = ad_users db" by (auto simp: create_session_def split: if_splits)
  note * = this db'
  show "has_enabled j db \<Longrightarrow> has_enabled j db'"
    unfolding *(2) update_last_login_def using has_enabled_sessions [OF *(1)]
    by (intro has_enabled_update) (auto simp: login_row_def)
  show "\<exists>s\<in>set (ad_sessions db'). s_id s = tp_session_id pair \<and> s_user_id s = u_id u \<and>
      as_access_hash s = hash_token (ae_sha256 env) (tp_access_token pair) \<and> as_revoked_at s = None \<and>
      as_access_expiry s = t + ae_access_ttl env"
    using assms
    by (auto simp: new_session_def create_session_def update_last_login_def login_upd.sessions new_token_def Let_def
        split: if_splits option.splits)
qed

lemma new_session_token:
  assumes "new_session env u c n p (Some r) rand' i t db = Inr (pair, db')" and "r \<noteq> []"
  shows "tp_access_token pair \<noteq> []"
proof -
  have "tp_access_token pair = b64_encode url_alphabet (take 32 r)"
    using assms by (auto simp: new_session_def new_token_def Let_def split: if_splits)
  moreover have "b64_digits ds \<noteq> []" if "ds \<noteq> []" for ds
    using that by (cases ds rule: b64_digits.cases) auto
  ultimately show ?thesis using assms(2) by (simp add: b64_encode_def)
qed

subsection \<open>A database for the examples\<close>

text \<open>Digests that are the text itself, and a key derived with a constant MAC.\<close>

definition sample_env :: auth_env where
  "sample_env = \<lparr> ae_sha256 = (\<lambda>x. x), ae_hmac = (\<lambda>k m. replicate 32 (CHR ''k'')), ae_julianday = (\<lambda>t. t div 1000000),
     ae_access_ttl = 900 * second, ae_refresh_ttl = 86400 * second, ae_password_params = default_password_params \<rparr>"

definition sample_hash :: string where
  "sample_hash = ''$pbkdf2-sha256$i='' @ int_text 600000 @ ''$'' @ b64_encode std_alphabet ''salt'' @ ''$'' @
     b64_encode std_alphabet (pbkdf2_sha256 (ae_hmac sample_env) ''correct horse'' ''salt'' 600000 32)"

definition sample_user :: account where
  "sample_user = \<lparr> u_id = ''u1'', u_role = RoleDriver, ac_username = ''Ann'', ac_display_name = [], ac_enabled = True,
     ac_must_change_password = False, ac_created_at = 0, ac_updated_at = 0, ac_last_login_at = None \<rparr>"

definition sample_session :: auth_session where
  "sample_session = \<lparr> s_id = ''s1'', s_user_id = ''u1'', as_client_id = ''c'', as_client_name = [], as_platform = [],
     as_access_hash = ''41'', as_refresh_hash = ''52'', as_access_expiry = 900 * second,
     as_refresh_expiry = 86400 * second, as_created_at = 0, as_last_seen_at = 0, as_revoked_at = None \<rparr>"

definition sample_db :: auth_db where
  "sample_db = \<lparr> ad_users = [\<lparr> ua_user = sample_user, ua_password_hash = sample_hash \<rparr>], ad_sessions = [sample_session] \<rparr>"

lemma sample_inv: "auth_inv sample_db"
  by (simp add: auth_inv_def sample_db_def sample_user_def sample_session_def)

lemma sample_named:
  "to_lower name = ''ann'' \<Longrightarrow> get_user_by_username name sample_db = Inr (hd (ad_users sample_db))"
  "to_lower name = ''ann'' \<Longrightarrow> named name (hd (ad_users sample_db))"
proof -
  have "to_lower ''Ann'' = ''ann''" by code_simp
  then show "to_lower name = ''ann'' \<Longrightarrow> get_user_by_username name sample_db = Inr (hd (ad_users sample_db))"
    and "to_lower name = ''ann'' \<Longrightarrow> named name (hd (ad_users sample_db))"
    by (simp_all add: get_user_by_username_def sample_db_def sample_user_def named_def)
qed

lemma sample_verify: "verify sample_env ''ann'' ''correct horse'' sample_db = Inr sample_user"
proof -
  have "verify_password (ae_hmac sample_env) sample_hash ''correct horse'' = Inr True"
    unfolding sample_hash_def
    by (subst verify_password_fields) (simp_all add: length_pbkdf2_sha256 sample_env_def)
  moreover have "to_lower ''ann'' = ''ann''" by code_simp
  ultimately show ?thesis by (simp add: verify_def sample_named) (simp add: sample_db_def sample_user_def)
qed

lemma sample_tokens:
  "hash_token (ae_sha256 sample_env) ''A'' = ''41''" "hash_token (ae_sha256 sample_env) ''R'' = ''52''"
  "new_token (ae_sha256 sample_env) (Some ''one'') = Inr (''b25l'', ''6232356c'')"
  "new_token (ae_sha256 sample_env) (Some ''two'') = Inr (''dHdv'', ''64486476'')"
  by (simp_all only: sample_env_def auth_env.simps) code_simp+

subsection \<open>Properties\<close>

text \<open>
  C15: a request is let in exactly when its token is not empty, a session with the hash of the
  token exists, is not revoked and has not reached its expiry, and the user of that session exists
  and is enabled; the user and the session it is let in as are these.
\<close>

theorem authenticate_accepts:
  assumes "auth_inv db"
  shows "(\<exists>db'. authenticate env token now db = Inr (u, s, db')) \<longleftrightarrow>
    token \<noteq> [] \<and> s \<in> set (ad_sessions db) \<and> as_access_hash s = hash_token (ae_sha256 env) token \<and>
    as_revoked_at s = None \<and> now < as_access_expiry s \<and>
    (\<exists>r\<in>set (ad_users db). ua_user r = u \<and> u_id u = s_user_id s \<and> ac_enabled u)"
  by (rule authenticate_Inr [OF assms])

theorem authenticate_accepts_witness:
  "\<exists>d. authenticate sample_env ''A'' second sample_db = Inr (sample_user, sample_session, d)"
  using authenticate_accepts [OF sample_inv, of sample_env "''A''" second sample_user sample_session] sample_tokens
  by (simp add: sample_db_def sample_session_def sample_user_def)

text \<open>
  C16: disabling a user, or changing a password, shuts out every session the user had. After
  either operation has succeeded, whatever operations follow, in whatever order their parts run
  with those already under way (\<open>ps\<close>), no token authenticates as one of those sessions and none
  starts a refresh of one of them, the user being enabled again included.
\<close>

theorem revoked_sessions_stay_out:
  assumes inv: "auth_inv db" and user: "get_user_by_username name db = Inr found"
    and change: "set_enabled name False t t' db = Inr db' \<or> set_password env name password must_change rand t t' db = Some (Inr db')"
    and later: "db2 = fst (auth_run env ops (db', ps))"
    and old: "s \<in> set (ad_sessions db)" "s_user_id s = user_key found"
  shows "auth_inv db2 \<and>
    (\<forall>token now u s' d. authenticate env token now db2 = Inr (u, s', d) \<longrightarrow> s_id s' \<noteq> s_id s) \<and>
    (\<forall>token now u s'. check_refresh env token now db2 = Inr (s', u) \<longrightarrow> s_id s' \<noteq> s_id s)"
proof -
  obtain db1 where "auth_inv db1" "ad_sessions db1 = ad_sessions db"
    and db': "db' = revoke_user_sessions (user_key found) t' db1"
  proof -
    from change consider
        (enabled) i db1 where "write_enabled name False t db = Inr (i, db1)" "db' = revoke_user_sessions i t' db1"
      | (password) i db1 where "write_password env name password must_change rand t db = Some (Inr (i, db1))"
          "db' = revoke_user_sessions i t' db1"
      by (auto simp: set_enabled_def set_password_def)
    then show thesis
    proof cases
      case enabled
      then show thesis using that write_enabled_inv [OF inv] write_enabled_Inr user by (metis sum.inject(2))
    next
      case password
      then show thesis using that write_password_inv [OF inv] write_password_Inr user by (metis sum.inject(2))
    qed
  qed
  then show ?thesis
    using revocation_is_final [of db1 s "user_key found" db2 env ops t' ps] old later
      auth_run_inv [of "(db', ps)" env ops] revoke_user_sessions_inv [of db1] by auto
qed

theorem revoked_sessions_stay_out_witness:
  "\<exists>d. set_enabled ''ANN'' False second second sample_db = Inr d \<and>
     \<not> (\<exists>now u s d'. authenticate sample_env ''A'' now
           (fst (auth_run sample_env [SetEnabledOp ''ann'' True (2 * second)] (d, []))) = Inr (u, s, d') \<and> s_id s = ''s1'')"
proof -
  have ann: "to_lower ''ANN'' = ''ann''" by code_simp
  have "\<exists>d. set_enabled ''ANN'' False second second sample_db = Inr d"
    using sample_named(2) [OF ann]
    by (simp add: set_enabled_def write_enabled_def set_user_enabled_def update_users_affected_def sample_named(1) [OF ann])
      (simp add: sample_db_def)
  moreover have "sample_session \<in> set (ad_sessions sample_db)"
    "s_user_id sample_session = user_key (hd (ad_users sample_db))" "s_id sample_session = ''s1''"
    by (simp_all add: sample_db_def sample_session_def sample_user_def)
  ultimately show ?thesis
    using revoked_sessions_stay_out [OF sample_inv sample_named(1) [OF ann] _ refl] by metis
qed

text \<open>
  a refresh replaces both tokens of its session for good. After a refresh has succeeded, as
  long as none of the tokens drawn later happens to have the same hash, neither the refresh token
  that was presented nor the access token it came with is accepted again, whatever operations
  follow.
\<close>

theorem refreshed_tokens_stay_out:
  assumes inv: "auth_inv db" and run: "refresh env token rand rand' now db = Inr (pair, db')"
    and s: "s \<in> set (ad_sessions db)" "as_refresh_hash s = hash_token (ae_sha256 env) token"
    and access: "hash_token (ae_sha256 env) access = as_access_hash s"
    and fresh: "hash_token (ae_sha256 env) (tp_access_token pair) \<noteq> as_access_hash s"
      "hash_token (ae_sha256 env) (tp_refresh_token pair) \<noteq> as_refresh_hash s"
      "\<Union> (set (map (drawn env) ops)) \<inter> {as_access_hash s, as_refresh_hash s} = {}"
    and later: "db2 = fst (auth_run env ops (db', ps))"
  shows "authenticate env access t db2 = Inl ErrInvalidAccessToken \<and>
    check_refresh env token t db2 = Inl ErrInvalidRefreshToken"
proof -
  from refresh_Inr [OF inv run] obtain s' u where check: "check_refresh env token now db = Inr (s', u)"
    and inv': "auth_inv db'"
    and db': "db' = update_sessions (\<lambda>x. s_id x = s_id s')
      (rotated_row (hash_token (ae_sha256 env) (tp_access_token pair)) (hash_token (ae_sha256 env) (tp_refresh_token pair))
        (now + ae_access_ttl env) (now + ae_refresh_ttl env) now) db"
    by blast
  from check check_refresh_Inr [OF inv] have s': "s' \<in> set (ad_sessions db)" "as_refresh_hash s' = as_refresh_hash s"
      "as_revoked_at s' = None"
    using s by auto
  moreover have "inj_on as_refresh_hash (set (ad_sessions db))" using inv by (simp add: auth_inv_def distinct_map)
  ultimately have eq: "s' = s" using s(1) by (auto dest: inj_onD)
  have gone: "as_access_hash s \<notin> as_access_hash ` set (ad_sessions db')"
    "as_refresh_hash s \<notin> as_refresh_hash ` set (ad_sessions db')"
    using rotated_hashes_gone [OF inv s'(1,3) db'] fresh(1,2) by (simp_all add: eq)
  have "auth_inv db2" using auth_run_inv [of "(db', ps)" env ops] inv' later by simp
  have within: "columns_within (\<Union>oper\<in>set ops. drawn env oper) db' db2"
    using auth_run_columns [of env ops "(db', ps)"] later by simp
  have "as_access_hash s \<notin> as_access_hash ` set (ad_sessions db2)"
    using columns_keep_out(1) [OF within _ gone(1)] fresh(3) by auto
  moreover have "as_refresh_hash s \<notin> as_refresh_hash ` set (ad_sessions db2)"
    using columns_keep_out(2) [OF within _ gone(2)] fresh(3) by auto
  moreover note \<open>auth_inv db2\<close>
  ultimately show ?thesis using absent_hash_refused access s(2) by simp
qed

theorem refreshed_tokens_stay_out_witness:
  "\<exists>pair d. refresh sample_env ''R'' (Some ''one'') (Some ''two'') second sample_db = Inr (pair, d) \<and>
     authenticate sample_env ''A'' (2 * second) d = Inl ErrInvalidAccessToken \<and>
     check_refresh sample_env ''R'' (2 * second) d = Inl ErrInvalidRefreshToken"
proof -
  have s: "sample_session \<in> set (ad_sessions sample_db)" "as_refresh_hash sample_session = ''52''"
    "as_access_hash sample_session = ''41''"
    by (simp_all add: sample_db_def sample_session_def)
  have "check_refresh sample_env ''R'' second sample_db = Inr (sample_session, sample_user)"
    unfolding check_refresh_Inr [OF sample_inv]
    by (simp add: sample_tokens) (simp add: sample_db_def sample_session_def sample_user_def)
  moreover have "\<exists>pair d. rotate_tokens sample_env sample_session sample_user (Some ''one'') (Some ''two'') second sample_db =
      Inr (pair, d) \<and> tp_access_token pair = ''b25l'' \<and> tp_refresh_token pair = ''dHdv''"
    by (simp add: rotate_tokens_def sample_tokens rotate_session_tokens_def Let_def)
      (simp add: sample_db_def sample_session_def)
  ultimately obtain pair d where
    run: "refresh sample_env ''R'' (Some ''one'') (Some ''two'') second sample_db = Inr (pair, d)"
    and "tp_access_token pair = ''b25l''" "tp_refresh_token pair = ''dHdv''"
    by (auto simp: refresh_def)
  then have "hash_token (ae_sha256 sample_env) (tp_access_token pair) = ''6232356c''"
    "hash_token (ae_sha256 sample_env) (tp_refresh_token pair) = ''64486476''"
    using sample_tokens(3,4) by (auto simp: new_token_def Let_def)
  then show ?thesis
    using refreshed_tokens_stay_out [OF sample_inv run s(1), of "''A''" "[]" d "[]" "2 * second"] run s sample_tokens
    by auto
qed

text \<open>
  a login that was verified with the old password and stores its session only after the
  password has been replaced and the sessions of the user revoked is let in all the same, until
  its access token expires: the revocation reaches only the sessions that exist when it runs.
\<close>

theorem login_outlives_password_change:
  assumes inv: "auth_inv db" and verified: "verify env name old db = Inr u"
    and changed: "set_password env name' new must_change salt t t' db = Some (Inr db1)"
    and stored: "new_session env u c n p (Some bytes) rand' i t2 db1 = Inr (pair, db2)" "bytes \<noteq> []"
    and now: "now < t2 + ae_access_ttl env"
  shows "\<exists>u' s d. authenticate env (tp_access_token pair) now db2 = Inr (u', s, d) \<and>
    u_id u' = u_id u \<and> s_id s = tp_session_id pair"
proof -
  obtain j db0 where written: "write_password env name' new must_change salt t db = Some (Inr (j, db0))"
    and db1: "db1 = revoke_user_sessions j t' db0"
    using changed by (auto simp: set_password_def)
  have inv2: "auth_inv db2"
    using new_session_inv [OF _ stored(1)] revoke_user_sessions_inv write_password_inv [OF inv written] by (simp add: db1)
  have "has_enabled (u_id u) db" using verify_Inr [OF verified] by (auto simp: has_enabled_def)
  then have "has_enabled (u_id u) db1"
    using write_password_enabled [OF written] has_enabled_sessions [of db1 db0]
    by (simp add: db1 revoke_user_sessions_def update_sessions_def)
  then have "has_enabled (u_id u) db2" by (rule new_session_Inr(2) [OF stored(1)])
  with new_session_Inr(1) [OF stored(1)] new_session_token [OF stored] now
  show ?thesis using authenticate_Inr [OF inv2, of env "tp_access_token pair" now] unfolding has_enabled_def by metis
qed

theorem login_outlives_password_change_witness:
  "\<exists>d1 pair d2 u s d.
     set_password sample_env ''ann'' ''battery staple'' False (Some ''salt'') second second sample_db = Some (Inr d1) \<and>
     new_session sample_env sample_user ''c'' [] [] (Some ''one'') (Some ''two'') ''id'' (2 * second) d1 = Inr (pair, d2) \<and>
     authenticate sample_env (tp_access_token pair) (3 * second) d2 = Inr (u, s, d) \<and> u_id u = ''u1''"
proof -
  have ann: "to_lower ''ann'' = ''ann''" by code_simp
  have ttl: "ae_access_ttl sample_env = 900 * second" "u_id sample_user = ''u1''"
    by (simp_all add: sample_env_def sample_user_def)
  obtain hash where "hash_password (ae_hmac sample_env) (Some ''salt'') ''battery staple'' (ae_password_params sample_env) =
      Some (Inr hash)"
    by (auto simp: hash_password_def Let_def sample_env_def default_password_params_def)
  then obtain d1 where d1: "set_password sample_env ''ann'' ''battery staple'' False (Some ''salt'') second second sample_db =
      Some (Inr d1)" "d1 = revoke_user_sessions ''u1'' second (update_users (named ''ann'') (password_row hash False second) sample_db)"
    using sample_named(2) [OF ann]
    by (simp add: set_password_def write_password_def store_set_password_def update_users_affected_def
        sample_named(1) [OF ann]) (simp add: sample_db_def sample_user_def)
  have "new_id ''id'' \<noteq> ''s1''" by code_simp
  then have "\<exists>pair d2. new_session sample_env sample_user ''c'' [] [] (Some ''one'') (Some ''two'') ''id'' (2 * second) d1 =
      Inr (pair, d2)"
    by (simp add: new_session_def sample_tokens create_session_def Let_def d1(2) revoke_user_sessions_def update_sessions_def
        update_users_def sample_db_def sample_session_def sample_user_def revoked_row_def password_row_def)
  then obtain pair d2 where
    new: "new_session sample_env sample_user ''c'' [] [] (Some ''one'') (Some ''two'') ''id'' (2 * second) d1 = Inr (pair, d2)"
    by blast
  show ?thesis
    using login_outlives_password_change [OF sample_inv sample_verify d1(1) new, of "3 * second"] d1(1) new
    by (auto simp: ttl)
qed

end
