(* ===== verification/Speeds.thy ===== *)
theory Speeds
  imports Station
begin

text \<open>
  Speeds on their way to the track. The control service divides the percentage a client sends by
  a hundred, and the drivers multiply the quotient by their number of steps and round it, all in
  \<^verbatim>\<open>float64\<close>. A finite double is a mantissa over a
  power of two; quotient and product are
  rounded to 53 bits, half to even, as IEEE 754 and Go prescribe, so the steps computed here are
  those of the program to the last bit.
\<close>

type_synonym double = "int \<times> int"

definition round_half_even :: "int \<Rightarrow> int \<Rightarrow> int" where
  "round_half_even n d =
     (let q = n div d; r = n mod d
      in if 2 * r > d \<or> (2 * r = d \<and> odd q) then q + 1 else q)"

text \<open>The power of two that takes \<open>n\<close> to at least \<open>d\<close>.\<close>

function scale_up :: "int \<Rightarrow> int \<Rightarrow> int" where
  "scale_up n d = (if n \<le> 0 \<or> d \<le> n then 1 else 2 * scale_up (2 * n) d)"
  by pat_completeness auto
termination by (relation "measure (\<lambda>(n, d). nat (d - n))") auto

text \<open>The power of two by which a mantissa exceeds the 53 bits that are kept.\<close>

function excess :: "int \<Rightarrow> int" where
  "excess m = (if m < 9007199254740992 then 1 else 2 * excess (m div 2))"
  by pat_completeness auto
termination by (relation "measure nat") auto

declare scale_up.simps [simp del] excess.simps [simp del]

text \<open>
  \<open>n / d\<close> for integers \<open>0 \<le> n \<le> d\<close>: the mantissa has 53 bits when the quotient is scaled by
  \<open>2 ^ 52\<close> and by what takes it to one.
\<close>

definition double_quotient :: "int \<Rightarrow> int \<Rightarrow> double" where
  "double_quotient n d =
     (if n = 0 then (0, 1)
      else let k = 4503599627370496 * scale_up n d in (round_half_even (n * k) d, k))"

text \<open>The product with a small positive integer.\<close>

definition double_times :: "double \<Rightarrow> int \<Rightarrow> double" where
  "double_times x c =
     (let m = fst x * c; e = excess m in (round_half_even m e, snd x div e))"

text \<open>\<^verbatim>\<open>math.Round\<close> of a double that is not negative.\<close>

definition math_round :: "double \<Rightarrow> int" where
  "math_round x = (2 * fst x + snd x) div (2 * snd x)"

text \<open>The check \<^verbatim>\<open>speed < 0 || speed > 1\<close> of every driver.\<close>

definition speed_in_range :: "double \<Rightarrow> bool" where
  "speed_in_range x \<longleftrightarrow> 0 \<le> fst x \<and> fst x \<le> snd x"

definition speed_positive :: "double \<Rightarrow> bool" where
  "speed_positive x \<longleftrightarrow> 0 < fst x"

text \<open>\<^verbatim>\<open>float64(speed) / 100\<close>\<close>

definition station_speed :: "int \<Rightarrow> double" where
  "station_speed percent = double_quotient percent 100"

definition scaled_speed :: "double \<Rightarrow> int \<Rightarrow> int" where
  "scaled_speed x steps = math_round (double_times x steps)"

subsection \<open>The percentages a client can send\<close>

text \<open>
  There are 101 of them, so the steps are computed: a table over the percentages from \<open>0\<close> to
  \<open>100\<close> for each number of steps in use.
\<close>

definition percentages :: "int list" where
  "percentages = [0..100]"

lemma set_percentages: "set percentages = {0..100}"
  by (simp add: percentages_def)

definition percentage_ok :: "int \<Rightarrow> bool" where
  "percentage_ok p \<longleftrightarrow> speed_in_range (station_speed p) \<and> (speed_positive (station_speed p) \<longleftrightarrow> 0 < p)"

lemma percentage_in_range:
  assumes "0 \<le> p" "p \<le> 100"
  shows "speed_in_range (station_speed p)" "speed_positive (station_speed p) \<longleftrightarrow> 0 < p"
proof -
  have "list_all percentage_ok percentages" by code_simp
  then have "percentage_ok p" using assms by (simp add: list_all_iff set_percentages)
  then show "speed_in_range (station_speed p)" "speed_positive (station_speed p) \<longleftrightarrow> 0 < p"
    by (simp_all add: percentage_ok_def)
qed

text \<open>The rounding errors never matter: the steps are those of exact arithmetic.\<close>

definition exact_125 :: "int \<Rightarrow> bool" where
  "exact_125 p \<longleftrightarrow> scaled_speed (station_speed p) 125 = (5 * p + 2) div 4"

definition exact_126 :: "int \<Rightarrow> bool" where
  "exact_126 p \<longleftrightarrow> scaled_speed (station_speed p) 126 = (252 * p + 100) div 200"

lemma scaled_speed_125:
  assumes "0 \<le> p" "p \<le> 100"
  shows "scaled_speed (station_speed p) 125 = (5 * p + 2) div 4"
proof -
  have "list_all exact_125 percentages" by code_simp
  with assms show ?thesis by (simp add: list_all_iff set_percentages exact_125_def)
qed

lemma scaled_speed_126:
  assumes "0 \<le> p" "p \<le> 100"
  shows "scaled_speed (station_speed p) 126 = (252 * p + 100) div 200"
proof -
  have "list_all exact_126 percentages" by code_simp
  with assms show ?thesis by (simp add: list_all_iff set_percentages exact_126_def)
qed

end
