(* ===== verification/Z21.thy ===== *)
theory Z21
  imports Speeds Frames
begin

text \<open>
  The driver of the z21 command station, \<^verbatim>\<open>internal/station/z21/z21.go\<close>: the datagrams it
  sends, how it reads the datagrams it receives, the callers that wait for an answer, and the
  status it reports. The socket is the record field that says whether there is one, and the list
  of the datagrams written to it; whether a write fails, whether a context has ended and what
  arrives are arguments. A Go channel with a buffer is the list of what it holds; a channel made
  for one caller has a number. Integers of the protocol have their width.
\<close>

subsection \<open>Packets\<close>

definition put_le16 :: "nat \<Rightarrow> byte list" where
  "put_le16 n = [word_of_nat n, word_of_nat (n div 256)]"

definition get_le16 :: "byte list \<Rightarrow> nat" where
  "get_le16 bs = unat (bs ! 0) + 256 * unat (bs ! 1)"

definition xor_of :: "byte list \<Rightarrow> byte" where
  "xor_of data = foldl (XOR) 0 data"

definition lan :: "16 word \<Rightarrow> byte list \<Rightarrow> byte list" where
  "lan header payload = put_le16 (4 + length payload) @ put_le16 (unat header) @ payload"

definition xbus :: "byte list \<Rightarrow> byte list" where
  "xbus payload = put_le16 (4 + length payload + 1) @ put_le16 0x40 @ payload @ [xor_of payload]"

definition linear_to_faddress :: "int \<Rightarrow> station_error + 16 word" where
  "linear_to_faddress address =
     (if address < MinBasicAccessoryAddress \<or> address > MaxBasicAccessoryAddress
      then Inl (ErrInvalidAccessoryAddress address)
      else Inr (word_of_int (address - 1)))"

definition faddress_to_linear :: "16 word \<Rightarrow> station_error + int" where
  "faddress_to_linear f =
     (let address = int (unat f) + 1
      in if address < MinBasicAccessoryAddress \<or> address > MaxBasicAccessoryAddress
         then Inl (ErrInvalidAccessoryAddress (int (unat f))) else Inr address)"

definition high_byte :: "16 word \<Rightarrow> byte" where
  "high_byte w = ucast (drop_bit 8 w)"

definition turnout_command_packet :: "16 word \<Rightarrow> accessory_position \<Rightarrow> bool \<Rightarrow> byte list" where
  "turnout_command_packet f position activate =
     (let db = 0x80 OR 0x20;
          db1 = (if activate then db OR 0x08 else db);
          db2 = (if position = Position2 then db1 OR 0x01 else db1)
      in xbus [0x53, high_byte f, ucast f, db2])"

definition turnout_info_request_packet :: "16 word \<Rightarrow> byte list" where
  "turnout_info_request_packet f = xbus [0x43, high_byte f, ucast f]"

definition broadcast_flags :: "32 word" where
  "broadcast_flags = 0x00000001 OR 0x00000002"

definition broadcast_flags_packet :: "byte list" where
  "broadcast_flags_packet =
     lan 0x0050 (map (\<lambda>i. ucast (drop_bit (8 * i) broadcast_flags)) [0, 1, 2, 3])"

subsection \<open>State\<close>

record system_state =
  ss_main_current :: "16 word"
  ss_programming_current :: "16 word"
  ss_filtered_main_current :: "16 word"
  ss_temperature :: "16 word"
  ss_supply_voltage :: "16 word"
  ss_track_voltage :: "16 word"
  ss_central_state :: byte
  ss_central_state_ex :: byte
  ss_capabilities :: byte

record z21 =
  z_conn :: bool
  z_sent :: "byte list list"
  z_feedback :: "feedback_event list"
  z_accessory_events :: "accessory_state_event list"
  z_accessory_pulse :: duration
  z_accessory_waiters :: "(16 word, nat list) gomap"
  z_accessory_replies :: "(nat, accessory_state_event list) gomap"
  z_status_events :: "status list"
  z_x_waiters :: "nat list"
  z_system_waiters :: "nat list"
  z_x_replies :: "(nat, byte list) gomap"
  z_system_replies :: "(nat, system_state list) gomap"
  z_health :: health_tracker
  z_last_status :: "status option"

definition default_accessory_pulse :: duration where
  "default_accessory_pulse = 100000000"

definition new_z21 :: "duration \<Rightarrow> duration \<Rightarrow> z21" where
  "new_z21 offline_after pulse =
     \<lparr> z_conn = False, z_sent = [], z_feedback = [], z_accessory_events = [],
       z_accessory_pulse = (if pulse \<le> 0 then default_accessory_pulse else pulse),
       z_accessory_waiters = [], z_accessory_replies = [], z_status_events = [], z_x_waiters = [],
       z_system_waiters = [], z_x_replies = [], z_system_replies = [],
       z_health = new_health_tracker offline_after, z_last_status = None \<rparr>"

definition z21_capabilities :: capabilities where
  "z21_capabilities = \<lparr> cap_driver = ''z21'', cap_track_power = True, cap_locomotive_control = True,
     cap_functions = 29, cap_max_function_number = 28, cap_accessory_control = True, cap_feedback = True \<rparr>"

text \<open>\<^verbatim>\<open>for _, ch := range waiters { ch <- x }\<close>\<close>

definition reply_to :: "nat list \<Rightarrow> 'a \<Rightarrow> (nat, 'a list) gomap \<Rightarrow> (nat, 'a list) gomap" where
  "reply_to waiters x chans = fold (\<lambda>w m. gm_put w (gm_get [] m w @ [x]) m) waiters chans"

subsection \<open>Sending\<close>

text \<open>The circumstances of one \<^verbatim>\<open>send\<close>: whether its context has ended, and how the write ends.\<close>

record z21_io =
  io_cancelled :: bool
  io_write_error :: "station_error option"
  io_now :: time

definition z21_send :: "z21_io \<Rightarrow> byte list \<Rightarrow> z21 \<Rightarrow> station_error option \<times> z21" where
  "z21_send io b d =
     (if io_cancelled io then (Some ErrContext, d)
      else if \<not> z_conn d then (Some ErrOffline, d)
      else
        let d1 = d\<lparr> z_sent := z_sent d @ [b] \<rparr>
        in case io_write_error io of
             None \<Rightarrow> (None, d1)
           | Some e \<Rightarrow> (Some e, d1\<lparr> z_health := health_communication_error (io_now io) (z_health d1) \<rparr>))"

text \<open>\<open>dialled\<close> is the error of resolving the address or of dialling.\<close>

definition z21_connect :: "station_error option \<Rightarrow> z21_io \<Rightarrow> z21 \<Rightarrow> station_error option \<times> z21" where
  "z21_connect dialled io d =
     (case dialled of
        Some e \<Rightarrow> (Some e, d)
      | None \<Rightarrow>
          let d1 = d\<lparr> z_conn := True, z_health := health_connected (io_now io) (z_health d) \<rparr>
          in case z21_send io broadcast_flags_packet d1 of
               (Some e, d2) \<Rightarrow> (Some e, d2\<lparr> z_conn := False \<rparr>)
             | (None, d2) \<Rightarrow> (None, d2))"

definition z21_close :: "z21 \<Rightarrow> z21" where
  "z21_close d = d\<lparr> z_conn := False \<rparr>"

definition z21_set_track_power :: "z21_io \<Rightarrow> bool \<Rightarrow> z21 \<Rightarrow> station_error option \<times> z21" where
  "z21_set_track_power io on d = z21_send io (xbus [0x21, if on then 0x81 else 0x80]) d"

definition z21_emergency_stop :: "z21_io \<Rightarrow> z21 \<Rightarrow> station_error option \<times> z21" where
  "z21_emergency_stop io d = z21_send io (xbus [0x80]) d"

definition z21_speed_byte :: "double \<Rightarrow> direction \<Rightarrow> byte" where
  "z21_speed_byte speed direction =
     (let raw = (if speed_positive speed then word_of_int (scaled_speed speed 125) + 1 else 0)
      in if direction = Forward then raw OR 0x80 else raw)"

definition address_bytes :: "int \<Rightarrow> byte list" where
  "address_bytes address = [word_of_int (drop_bit 8 address) AND 0x3F, word_of_int address]"

definition z21_set_loco_speed :: "z21_io \<Rightarrow> int \<Rightarrow> double \<Rightarrow> direction \<Rightarrow> z21 \<Rightarrow> station_error option \<times> z21" where
  "z21_set_loco_speed io address speed direction d =
     (if \<not> speed_in_range speed then (Some ErrSpeedOutOfRange, d)
      else if \<not> direction_valid direction then (Some ErrUnsupported, d)
      else z21_send io (xbus ([0xE4, 0x13] @ address_bytes address @ [z21_speed_byte speed direction])) d)"

definition z21_set_loco_function :: "z21_io \<Rightarrow> int \<Rightarrow> int \<Rightarrow> bool \<Rightarrow> z21 \<Rightarrow> station_error option \<times> z21" where
  "z21_set_loco_function io address fn on d =
     (if fn < 0 \<or> fn > cap_max_function_number z21_capabilities then (Some ErrUnsupported, d)
      else z21_send io (xbus ([0xE4, 0xF8] @ address_bytes address @
             [(if on then 0x40 else 0) OR (word_of_int fn AND 0x3F)])) d)"

subsection \<open>Receiving\<close>

definition parse_system_state :: "byte list \<Rightarrow> system_state" where
  "parse_system_state p =
     (let word16 = (\<lambda>i. word_of_nat (get_le16 (take 2 (drop i p))) :: 16 word)
      in \<lparr> ss_main_current = word16 0, ss_programming_current = word16 2, ss_filtered_main_current = word16 4,
           ss_temperature = word16 6, ss_supply_voltage = word16 8, ss_track_voltage = word16 10,
           ss_central_state = p ! 12, ss_central_state_ex = p ! 13, ss_capabilities = p ! 15 \<rparr>)"

text \<open>The connectivity and the last contact are filled in when the status is read.\<close>

definition status_from_system_state :: "system_state \<Rightarrow> status" where
  "status_from_system_state s =
     \<lparr> st_connectivity = Offline, st_last_seen = None,
       st_track_power = (if ss_central_state s AND 0x02 \<noteq> 0 then PowerOff else PowerOn),
       st_emergency_stop = (ss_central_state s AND 0x01 \<noteq> 0),
       st_short_circuit = (ss_central_state s AND 0x04 \<noteq> 0),
       st_programming_mode = (ss_central_state s AND 0x20 \<noteq> 0),
       st_main_current = ss_main_current s, st_programming_current = ss_programming_current s,
       st_filtered_main_current = ss_filtered_main_current s, st_temperature = ss_temperature s,
       st_supply_voltage = ss_supply_voltage s, st_track_voltage = ss_track_voltage s,
       st_high_temperature = (ss_central_state_ex s AND 0x01 \<noteq> 0),
       st_power_lost = (ss_central_state_ex s AND 0x02 \<noteq> 0),
       st_external_short_circuit = (ss_central_state_ex s AND 0x04 \<noteq> 0),
       st_internal_short_circuit = (ss_central_state_ex s AND 0x08 \<noteq> 0) \<rparr>"

definition publish_accessory_state :: "16 word \<Rightarrow> accessory_state_event \<Rightarrow> z21 \<Rightarrow> z21" where
  "publish_accessory_state f e d =
     (let waiters = gm_get [] (z_accessory_waiters d) f
      in d\<lparr> z_accessory_waiters := gm_del f (z_accessory_waiters d),
            z_accessory_replies := reply_to waiters e (z_accessory_replies d),
            z_accessory_events := offer 64 e (z_accessory_events d) \<rparr>)"

definition turnout_report :: "time \<Rightarrow> int \<Rightarrow> byte \<Rightarrow> accessory_state_event" where
  "turnout_report now address zz =
     (let e = \<lparr> ev_address = address, ev_position = NoPosition, ev_state = NoReport,
                ev_quality = QualityStation, ev_observed_at = Some now \<rparr>
      in if zz = 0 then e\<lparr> ev_state := ReportUnknown \<rparr>
         else if zz = 1 then e\<lparr> ev_state := ReportKnown, ev_position := Position1 \<rparr>
         else if zz = 2 then e\<lparr> ev_state := ReportKnown, ev_position := Position2 \<rparr>
         else e\<lparr> ev_state := ReportInvalid \<rparr>)"

definition parse_turnout_info :: "time \<Rightarrow> byte list \<Rightarrow> z21 \<Rightarrow> z21" where
  "parse_turnout_info now p d =
     (let f = push_bit 8 (ucast (p ! 1)) OR ucast (p ! 2)
      in case faddress_to_linear f of
           Inl _ \<Rightarrow> d
         | Inr address \<Rightarrow> publish_accessory_state f (turnout_report now address (p ! 3 AND 0x03)) d)"

definition publish_x_status :: "byte \<Rightarrow> z21 \<Rightarrow> z21" where
  "publish_x_status b d =
     d\<lparr> z_x_waiters := [], z_x_replies := reply_to (z_x_waiters d) b (z_x_replies d) \<rparr>"

definition publish_system_state :: "system_state \<Rightarrow> z21 \<Rightarrow> z21" where
  "publish_system_state s d =
     d\<lparr> z_last_status := Some (status_from_system_state s), z_system_waiters := [],
        z_system_replies := reply_to (z_system_waiters d) s (z_system_replies d) \<rparr>"

text \<open>The inputs of one group of feedback modules, in the order they are published.\<close>

definition rbus_events :: "byte list \<Rightarrow> feedback_event list" where
  "rbus_events p =
     concat (map (\<lambda>i. map (\<lambda>b. \<lparr> fb_source = ''z21-rbus'', fb_kind = ''occupancy'',
          fb_address = int (unat (p ! 0)) * 80 + int ((i - 1) * 8 + b + 1), fb_active = bit (p ! i) b \<rparr>) [0..<8])
       [1..<length p])"

definition z21_publish :: "feedback_event \<Rightarrow> z21 \<Rightarrow> z21" where
  "z21_publish e d = d\<lparr> z_feedback := offer 64 e (z_feedback d) \<rparr>"

text \<open>One record of a datagram: its header and what follows it.\<close>

definition z21_record :: "time \<Rightarrow> nat \<Rightarrow> byte list \<Rightarrow> z21 \<Rightarrow> z21" where
  "z21_record now header p d =
     (if \<not> (header \<noteq> 0x40 \<or> (length p > 0 \<and> xor_of p = 0)) then d
      else
        let d1 = d\<lparr> z_health := health_valid_response now (z_health d) \<rparr>
        in if header = 0x40 \<and> length p = 4 \<and> p ! 0 = 0x62 \<and> p ! 1 = 0x22 \<and> xor_of (take 3 p) = p ! 3
           then publish_x_status (p ! 2) d1
           else if header = 0x40 \<and> length p = 5 \<and> p ! 0 = 0x43 then parse_turnout_info now p d1
           else if header = 0x84 \<and> length p = 16 then publish_system_state (parse_system_state p) d1
           else if header = 0x80 \<and> length p \<ge> 11 then fold z21_publish (rbus_events p) d1
           else d1)"

function z21_parse :: "time \<Rightarrow> byte list \<Rightarrow> z21 \<Rightarrow> z21" where
  "z21_parse now data d =
     (if length data < 4 then d
      else
        let n = get_le16 (take 2 data)
        in if n < 4 \<or> n > length data then d
           else z21_parse now (drop n data)
                  (z21_record now (get_le16 (take 2 (drop 2 data))) (drop 4 (take n data)) d))"
  by pat_completeness auto
termination by (relation "measure (\<lambda>(now, data, d). length data)") auto

declare z21_parse.simps [simp del]

subsection \<open>Accessories\<close>

definition remove_accessory_waiter :: "16 word \<Rightarrow> nat \<Rightarrow> z21 \<Rightarrow> z21" where
  "remove_accessory_waiter f w d =
     (let waiters = gm_get [] (z_accessory_waiters d) f
      in if w \<notin> set waiters then d
         else let rest = remove1 w waiters
              in d\<lparr> z_accessory_waiters := (if rest = [] then gm_del f (z_accessory_waiters d)
                                           else gm_put f rest (z_accessory_waiters d)) \<rparr>)"

text \<open>\<^verbatim>\<open>getAccessoryState\<close> up to the wait, with a new channel \<open>w\<close>; and from there on.\<close>

definition accessory_query_begin :: "z21_io \<Rightarrow> 16 word \<Rightarrow> nat \<Rightarrow> z21 \<Rightarrow> station_error option \<times> z21" where
  "accessory_query_begin io f w d =
     (let d1 = d\<lparr> z_accessory_waiters :=
                   gm_put f (gm_get [] (z_accessory_waiters d) f @ [w]) (z_accessory_waiters d),
                 z_accessory_replies := gm_put w [] (z_accessory_replies d) \<rparr>
      in case z21_send io (turnout_info_request_packet f) d1 of
           (Some e, d2) \<Rightarrow> (Some e, remove_accessory_waiter f w d2)
         | (None, d2) \<Rightarrow> (None, d2))"

definition accessory_query_end ::
  "bool \<Rightarrow> 16 word \<Rightarrow> nat \<Rightarrow> z21 \<Rightarrow> (station_error + accessory_state_event) \<times> z21" where
  "accessory_query_end ended f w d =
     (let d1 = remove_accessory_waiter f w d
      in case gm_get [] (z_accessory_replies d) w of
           [] \<Rightarrow> (Inl ErrContext, d1)
         | e # rest \<Rightarrow> if ended then (Inl ErrContext, d1)
                       else (Inr e, d1\<lparr> z_accessory_replies := gm_put w rest (z_accessory_replies d1) \<rparr>))"

text \<open>
  The circumstances of one accessory command: its three sends, the datagrams that arrive during
  the pulse and while it waits for the answer, and whether its context ends during either.
\<close>

record accessory_env =
  ax_activate :: z21_io
  ax_during_pulse :: "(time \<times> byte list) list"
  ax_cancelled :: bool
  ax_deactivate :: z21_io
  ax_query :: z21_io
  ax_replies :: "(time \<times> byte list) list"
  ax_ended :: bool

definition receive_all :: "(time \<times> byte list) list \<Rightarrow> z21 \<Rightarrow> z21" where
  "receive_all ds d = fold (\<lambda>(t, b). z21_parse t b) ds d"

text \<open>
  The errors returned, joined; none is success. The deactivation has a context of its own, which
  has not ended.
\<close>

definition z21_set_basic_accessory ::
  "accessory_env \<Rightarrow> nat \<Rightarrow> accessory_command \<Rightarrow> z21 \<Rightarrow> station_error list \<times> z21" where
  "z21_set_basic_accessory env w c d =
     (case accessory_command_validate c of
        Some e \<Rightarrow> ([e], d)
      | None \<Rightarrow>
     (case check_command_allowed (Some (health_of (io_now (ax_activate env)) (z_health d))) of
        Some e \<Rightarrow> ([e], d)
      | None \<Rightarrow>
     (case linear_to_faddress (ac_address c) of
        Inl e \<Rightarrow> ([e], d)
      | Inr f \<Rightarrow>
     (case z21_send (ax_activate env) (turnout_command_packet f (ac_position c) True) d of
        (Some e, d1) \<Rightarrow> ([e], d1)
      | (None, d1) \<Rightarrow>
          let d2 = receive_all (ax_during_pulse env) d1;
              (deactivate_err, d3) =
                z21_send ((ax_deactivate env)\<lparr> io_cancelled := False \<rparr>)
                  (turnout_command_packet f (ac_position c) False) d2
          in if ax_cancelled env then (ErrContext # case_option [] (\<lambda>e. [e]) deactivate_err, d3)
             else case deactivate_err of
               Some e \<Rightarrow> ([e], d3)
             | None \<Rightarrow>
                 (case accessory_query_begin (ax_query env) f w d3 of
                    (Some e, d4) \<Rightarrow> ([e], d4)
                  | (None, d4) \<Rightarrow>
                      (case accessory_query_end (ax_ended env) f w (receive_all (ax_replies env) d4) of
                         (Inl e, d5) \<Rightarrow> ([e], d5) | (Inr _, d5) \<Rightarrow> ([], d5)))))))"

subsection \<open>Status\<close>

definition z21_current_status :: "time \<Rightarrow> z21 \<Rightarrow> status" where
  "z21_current_status now d =
     (let status = (case z_last_status d of Some s \<Rightarrow> s
            | None \<Rightarrow> \<lparr> st_connectivity = Offline, st_last_seen = None, st_track_power = PowerUnknown,
                st_emergency_stop = False, st_short_circuit = False, st_programming_mode = False,
                st_main_current = 0, st_programming_current = 0, st_filtered_main_current = 0,
                st_temperature = 0, st_supply_voltage = 0, st_track_voltage = 0, st_high_temperature = False,
                st_power_lost = False, st_external_short_circuit = False, st_internal_short_circuit = False \<rparr>);
          health = health_of now (z_health d)
      in status\<lparr> st_connectivity := hr_connectivity health, st_last_seen := hr_last_seen health \<rparr>)"

definition remove_status_waiters :: "nat \<Rightarrow> nat \<Rightarrow> z21 \<Rightarrow> z21" where
  "remove_status_waiters x s d =
     d\<lparr> z_x_waiters := remove1 x (z_x_waiters d), z_system_waiters := remove1 s (z_system_waiters d) \<rparr>"

definition z21_error :: "time \<Rightarrow> z21 \<Rightarrow> z21" where
  "z21_error now d = d\<lparr> z_health := health_communication_error now (z_health d) \<rparr>"

text \<open>
  \<^verbatim>\<open>Status\<close> up to the wait for its two answers, with new channels \<open>x\<close> and \<open>s\<close>. A status at once
  means that a request could not be sent.
\<close>

definition status_begin :: "z21_io \<Rightarrow> z21_io \<Rightarrow> nat \<Rightarrow> nat \<Rightarrow> z21 \<Rightarrow> status option \<times> z21" where
  "status_begin io io' x s d =
     (let d1 = d\<lparr> z_x_waiters := z_x_waiters d @ [x], z_x_replies := gm_put x [] (z_x_replies d),
                 z_system_waiters := z_system_waiters d @ [s],
                 z_system_replies := gm_put s [] (z_system_replies d) \<rparr>;
          give_up = (\<lambda>now d. let d' = z21_error now d
                             in (Some (z21_current_status now d'), remove_status_waiters x s d'))
      in case z21_send io (xbus [0x21, 0x24]) d1 of
           (Some _, d2) \<Rightarrow> give_up (io_now io) d2
         | (None, d2) \<Rightarrow>
             (case z21_send io' (lan 0x0085 []) d2 of
                (Some _, d3) \<Rightarrow> give_up (io_now io') d3
              | (None, d3) \<Rightarrow> (None, d3)))"

datatype status_wait = StatusAnswered | StatusCancelled | StatusTimedOut

text \<open>The wait can end by its answers only when both have arrived.\<close>

definition status_end :: "status_wait \<Rightarrow> time \<Rightarrow> nat \<Rightarrow> nat \<Rightarrow> z21 \<Rightarrow> (status \<times> station_error option) option \<times> z21" where
  "status_end how now x s d =
     (case how of
        StatusAnswered \<Rightarrow>
          (if gm_get [] (z_x_replies d) x = [] \<or> gm_get [] (z_system_replies d) s = [] then (None, d)
           else (Some (z21_current_status now d, None), remove_status_waiters x s d))
      | StatusCancelled \<Rightarrow> (Some (z21_current_status now d, Some ErrContext), remove_status_waiters x s d)
      | StatusTimedOut \<Rightarrow>
          let d1 = z21_error now d in (Some (z21_current_status now d1, None), remove_status_waiters x s d1))"

definition z21_publish_status :: "status \<Rightarrow> z21 \<Rightarrow> z21" where
  "z21_publish_status s d = d\<lparr> z_status_events := offer 16 s (z_status_events d) \<rparr>"

end
