(* ===== verification/Z21Facts.thy ===== *)
theory Z21Facts
  imports Z21
begin

text \<open>
  What the z21 driver guarantees: its packets say what was asked and the answers are read back,
  a datagram is taken apart record by record, an activated accessory output is always released,
  and no reader of the socket ever blocks on a waiting caller.
\<close>

subsection \<open>Little-endian lengths\<close>

lemma length_put_le16 [simp]: "length (put_le16 n) = 2"
  by (simp add: put_le16_def)

lemma unat_byte_less: "unat (b :: byte) < 256"
  using unsigned_less [of b, where ?'a = nat] by simp

lemma unat_word16_less: "unat (w :: 16 word) < 65536"
  using unsigned_less [of w, where ?'a = nat] by simp

lemma unat_byte_of_nat: "unat (word_of_nat n :: byte) = n mod 256"
  by (simp add: unat_of_nat)

lemma word_byte_eqI: "n mod 256 = unat b \<Longrightarrow> word_of_nat n = (b :: byte)"
  by (simp only: word_unat_eq_iff unat_byte_of_nat)

lemma get_put_le16: "n < 65536 \<Longrightarrow> get_le16 (put_le16 n) = n"
  by (simp add: get_le16_def put_le16_def unat_byte_of_nat)

lemma put_get_le16:
  assumes "length bs = 2"
  shows "put_le16 (get_le16 bs) = bs" and "get_le16 bs < 65536"
proof -
  obtain a b where bs: "bs = [a, b]" using assms by (auto simp: length_Suc_conv numeral_2_eq_2)
  have lt: "unat a < 256" "unat b < 256" by (rule unat_byte_less)+
  then show "get_le16 bs < 65536" by (simp add: get_le16_def bs)
  have "(unat a + 256 * unat b) div 256 = unat b" using lt by simp
  moreover have "word_of_nat (unat a + 256 * unat b) = a"
    by (rule word_byte_eqI) (use lt in simp)
  ultimately show "put_le16 (get_le16 bs) = bs" by (simp add: get_le16_def put_le16_def bs)
qed

subsection \<open>Checksums\<close>

lemma foldl_xor: "foldl (XOR) (a :: byte) bs = a XOR foldl (XOR) 0 bs"
proof (induction bs arbitrary: a)
  case (Cons b bs)
  show ?case using Cons.IH [of "a XOR b"] Cons.IH [of b] by (simp add: xor.assoc)
qed simp

lemma xor_of_snoc [simp]: "xor_of (p @ [xor_of p]) = 0"
  by (simp add: xor_of_def)

lemma xor_of_Cons: "xor_of (b # bs) = b XOR xor_of bs"
  unfolding xor_of_def by (simp add: foldl_xor [of b])

lemma xbus_lan: "xbus p = lan 0x40 (p @ [xor_of p])"
  by (simp add: xbus_def lan_def)

subsection \<open>Datagrams are read record by record\<close>

lemma length_lan [simp]: "length (lan h p) = 4 + length p"
  by (simp add: lan_def)

lemma z21_parse_lan:
  assumes "length p \<le> 65531"
  shows "z21_parse now (lan h p @ rest) d = z21_parse now rest (z21_record now (unat h) p d)"
proof -
  have "unat h < 65536" by (rule unat_word16_less)
  moreover have "take 2 (lan h p @ rest) = put_le16 (4 + length p)"
    and "take 2 (drop 2 (lan h p @ rest)) = put_le16 (unat h)"
    by (simp_all add: lan_def)
  moreover have "drop 4 (take (4 + length p) (lan h p @ rest)) = p" by (simp add: lan_def)
  ultimately show ?thesis
    using assms by (subst z21_parse.simps) (simp add: Let_def get_put_le16)
qed

text \<open>What cannot be a record any more: too short, or with a length that does not fit.\<close>

definition z21_tail :: "byte list \<Rightarrow> bool" where
  "z21_tail data \<longleftrightarrow> length data < 4 \<or> get_le16 (take 2 data) < 4 \<or> get_le16 (take 2 data) > length data"

lemma z21_parse_tail: "z21_tail data \<Longrightarrow> z21_parse now data d = d"
  by (subst z21_parse.simps) (auto simp: z21_tail_def Let_def)

lemma z21_first_record:
  assumes "\<not> z21_tail data"
  shows "\<exists>h p rest. length p \<le> 65531 \<and> data = lan h p @ rest"
proof -
  let ?n = "get_le16 (take 2 data)"
  have len: "4 \<le> length data" "4 \<le> ?n" "?n \<le> length data" using assms by (auto simp: z21_tail_def)
  let ?p = "drop 4 (take ?n data)" and ?h = "word_of_nat (get_le16 (take 2 (drop 2 data))) :: 16 word"
  have two: "length (take 2 data) = 2" "length (take 2 (drop 2 data)) = 2" using len by simp_all
  have "put_le16 (4 + length ?p) = take 2 data" using len put_get_le16 [OF two(1)] by simp
  moreover have "put_le16 (unat ?h) = take 2 (drop 2 data)"
    using put_get_le16 [OF two(2)] by (simp add: unat_of_nat)
  ultimately have "lan ?h ?p = take 2 data @ take 2 (drop 2 data) @ drop 4 (take ?n data)"
    by (simp add: lan_def)
  also have "\<dots> = take 4 (take ?n data) @ drop 4 (take ?n data)"
    using len take_add [of 2 2 data] by (simp add: min_def)
  also have "\<dots> = take ?n data" by (rule append_take_drop_id)
  finally have "lan ?h ?p = take ?n data" .
  then have "data = lan ?h ?p @ drop ?n data" by simp
  moreover have "length ?p \<le> 65531" using put_get_le16(2) [OF two(1)] by simp
  ultimately show ?thesis by blast
qed

lemma z21_decompose:
  "\<exists>rs tail. data = concat (map (\<lambda>(h, p). lan h p) rs) @ tail \<and> z21_tail tail \<and> list_all (\<lambda>(h, p). length p \<le> 65531) rs"
proof (induction "length data" arbitrary: data rule: less_induct)
  case less
  show ?case
  proof (cases "z21_tail data")
    case True
    then show ?thesis by (intro exI [of _ "[]"] exI [of _ data]) simp
  next
    case False
    then obtain h p rest where *: "length p \<le> 65531" "data = lan h p @ rest" using z21_first_record by blast
    then have "length rest < length data" by simp
    from less [OF this] obtain rs tail where "rest = concat (map (\<lambda>(h, p). lan h p) rs) @ tail" "z21_tail tail"
      "list_all (\<lambda>(h, p). length p \<le> 65531) rs" by blast
    with * show ?thesis by (intro exI [of _ "(h, p) # rs"] exI [of _ tail]) simp
  qed
qed

lemma z21_parse_records:
  "list_all (\<lambda>(h, p). length p \<le> 65531) rs \<Longrightarrow> z21_tail tail \<Longrightarrow>
   z21_parse now (concat (map (\<lambda>(h, p). lan h p) rs) @ tail) d = fold (\<lambda>(h, p). z21_record now (unat h) p) rs d"
  by (induction rs arbitrary: d) (auto simp: z21_parse_tail z21_parse_lan)

text \<open>A record of the X-bus whose checksum is wrong changes nothing.\<close>

lemma z21_record_corrupt: "p = [] \<or> xor_of p \<noteq> 0 \<Longrightarrow> z21_record now 0x40 p d = d"
  by (auto simp: z21_record_def)

subsection \<open>Accessory packets\<close>

text \<open>How a station reads a command, after the protocol in \<^verbatim>\<open>docs/TURNOUTS.md\<close>, section 22.\<close>

definition station_reads_turnout :: "byte list \<Rightarrow> (int \<times> accessory_position \<times> bool) option" where
  "station_reads_turnout b =
     (if length b = 9 \<and> get_le16 (take 2 b) = 9 \<and> get_le16 (take 2 (drop 2 b)) = 0x40 \<and> b ! 4 = 0x53 \<and>
         xor_of (drop 4 b) = 0 \<and> bit (b ! 7) 7 \<and> \<not> bit (b ! 7) 6 \<and> bit (b ! 7) 5
      then Some (int (unat (b ! 5)) * 256 + int (unat (b ! 6)) + 1,
                 if bit (b ! 7) 0 then Position2 else Position1, bit (b ! 7) 3)
      else None)"

text \<open>The record with which a station reports the state of an output.\<close>

definition turnout_info_record :: "16 word \<Rightarrow> byte \<Rightarrow> byte list" where
  "turnout_info_record f zz = xbus [0x43, high_byte f, ucast f, zz]"

lemma faddress_bytes: "unat (high_byte f) * 256 + unat (ucast f :: byte) = unat f"
proof -
  have "unat (high_byte f) = unat f div 256"
    using unat_word16_less [of f]
    by (simp add: high_byte_def unsigned_ucast_eq unsigned_drop_bit_eq take_bit_eq_mod drop_bit_eq_div unat_div)
  moreover have "unat (ucast f :: byte) = unat f mod 256" by (simp add: unsigned_ucast_eq take_bit_eq_mod)
  ultimately show ?thesis by simp
qed

lemma faddress_join: "push_bit 8 (ucast (high_byte f)) OR ucast (ucast f :: byte) = (f :: 16 word)"
  by (rule bit_word_eqI) (auto simp: high_byte_def bit_simps)

lemma linear_faddress:
  assumes "1 \<le> a" "a \<le> 2040"
  shows "linear_to_faddress a = Inr (word_of_int (a - 1))" "unat (word_of_int (a - 1) :: 16 word) = nat (a - 1)"
    "faddress_to_linear (word_of_int (a - 1)) = Inr a"
proof -
  show "linear_to_faddress a = Inr (word_of_int (a - 1))"
    using assms by (simp add: linear_to_faddress_def MinBasicAccessoryAddress_def MaxBasicAccessoryAddress_def)
  show u: "unat (word_of_int (a - 1) :: 16 word) = nat (a - 1)"
    using assms by (simp add: unsigned_of_int take_bit_eq_mod del: of_int_diff)
  show "faddress_to_linear (word_of_int (a - 1)) = Inr a"
    using assms by (simp add: faddress_to_linear_def u Let_def MinBasicAccessoryAddress_def MaxBasicAccessoryAddress_def del: of_int_diff)
qed

lemma station_reads_turnout_packet:
  assumes "position_valid pos"
  shows "station_reads_turnout (turnout_command_packet f pos act) = Some (int (unat f) + 1, pos, act)"
proof -
  define db where "db = (if pos = Position2 then (if act then 0x80 OR 0x20 OR 0x08 else 0x80 OR 0x20) OR 0x01
      else (if act then 0x80 OR 0x20 OR 0x08 else 0x80 OR 0x20 :: byte))"
  let ?p = "[0x53, high_byte f, ucast f, db]"
  have packet: "turnout_command_packet f pos act = put_le16 9 @ put_le16 0x40 @ ?p @ [xor_of ?p]"
    by (simp add: turnout_command_packet_def xbus_def db_def Let_def)
  have db: "bit db 7" "\<not> bit db 6" "bit db 5" "bit db 0 \<longleftrightarrow> pos = Position2" "bit db 3 \<longleftrightarrow> act"
  proof -
    have "(0x80 OR 0x20 :: byte) = 0xA0" "(0xA0 OR 0x08 :: byte) = 0xA8" "(0xA0 OR 0x01 :: byte) = 0xA1"
      "(0xA8 OR 0x01 :: byte) = 0xA9" by simp_all
    then have "db \<in> {0xA0, 0xA1, 0xA8, 0xA9}" "pos = Position2 \<longleftrightarrow> db \<in> {0xA1, 0xA9}" "act \<longleftrightarrow> db \<in> {0xA8, 0xA9}"
      by (auto simp: db_def or.assoc)
    moreover have "bit (0xA0 :: byte) 7" "\<not> bit (0xA0 :: byte) 6" "bit (0xA0 :: byte) 5" "\<not> bit (0xA0 :: byte) 3" "\<not> bit (0xA0 :: byte) 0"
      "bit (0xA1 :: byte) 7" "\<not> bit (0xA1 :: byte) 6" "bit (0xA1 :: byte) 5" "\<not> bit (0xA1 :: byte) 3" "bit (0xA1 :: byte) 0"
      "bit (0xA8 :: byte) 7" "\<not> bit (0xA8 :: byte) 6" "bit (0xA8 :: byte) 5" "bit (0xA8 :: byte) 3" "\<not> bit (0xA8 :: byte) 0"
      "bit (0xA9 :: byte) 7" "\<not> bit (0xA9 :: byte) 6" "bit (0xA9 :: byte) 5" "bit (0xA9 :: byte) 3" "bit (0xA9 :: byte) 0"
      by simp_all
    ultimately show "bit db 7" "\<not> bit db 6" "bit db 5" "bit db 0 \<longleftrightarrow> pos = Position2" "bit db 3 \<longleftrightarrow> act"
      by auto
  qed
  have "xor_of [0x53, high_byte f, ucast f, db, xor_of ?p] = 0" using xor_of_snoc [of ?p] by simp
  moreover have "int (unat (high_byte f)) * 256 + int (unat (ucast f :: byte)) = int (unat f)"
    using faddress_bytes [of f] by linarith
  moreover have "(if pos = Position2 then Position2 else Position1) = pos"
    using assms by (auto simp: position_valid_iff)
  ultimately show ?thesis
    unfolding packet station_reads_turnout_def
    by (simp add: put_le16_def db get_le16_def)
qed

subsection \<open>Callers waiting for an answer\<close>

text \<open>
  A table of waiting callers: each has a channel of its own with room for one answer. An answer
  for a key goes to all who wait under it and takes them off the table. The channels are sound
  when every waiting caller is there once, with an empty channel: then no answer ever blocks.
\<close>

definition chan_ok :: "('k \<Rightarrow> nat list) \<Rightarrow> (nat, 'a list) gomap \<Rightarrow> bool" where
  "chan_ok waiting chans \<longleftrightarrow> gm_wf chans \<and>
     (\<forall>k. distinct (waiting k) \<and> (\<forall>w\<in>set (waiting k). map_of chans w = Some [])) \<and>
     (\<forall>k l w. w \<in> set (waiting k) \<longrightarrow> w \<in> set (waiting l) \<longrightarrow> k = l) \<and>
     (\<forall>w c. map_of chans w = Some c \<longrightarrow> length c \<le> 1)"

lemma reply_to_map_of:
  "distinct ws \<Longrightarrow> gm_wf m \<Longrightarrow> gm_wf (reply_to ws x m) \<and>
   map_of (reply_to ws x m) w = (if w \<in> set ws then Some (gm_get [] m w @ [x]) else map_of m w)"
  unfolding reply_to_def
proof (induction ws arbitrary: m)
  case (Cons v ws)
  then show ?case by (auto simp: gm_get_def)
qed simp

locale reply_table =
  fixes waiting :: "'s \<Rightarrow> 'k \<Rightarrow> nat list" and chans :: "'s \<Rightarrow> (nat, 'a list) gomap" and ok :: "'s \<Rightarrow> bool"
    and register :: "'k \<Rightarrow> nat \<Rightarrow> 's \<Rightarrow> 's" and answer :: "'k \<Rightarrow> 'a \<Rightarrow> 's \<Rightarrow> 's"
    and remove :: "'k \<Rightarrow> nat \<Rightarrow> 's \<Rightarrow> 's" and taken :: "nat \<Rightarrow> 'a list \<Rightarrow> 's \<Rightarrow> 's"
  assumes register: "ok s \<Longrightarrow> ok (register k w s) \<and> waiting (register k w s) = (waiting s)(k := waiting s k @ [w]) \<and>
      chans (register k w s) = gm_put w [] (chans s)"
    and answer: "ok s \<Longrightarrow> ok (answer k x s) \<and> waiting (answer k x s) = (waiting s)(k := []) \<and>
      chans (answer k x s) = reply_to (waiting s k) x (chans s)"
    and remove: "ok s \<Longrightarrow> ok (remove k w s) \<and> waiting (remove k w s) = (waiting s)(k := remove1 w (waiting s k)) \<and>
      chans (remove k w s) = chans s"
    and taken: "ok s \<Longrightarrow> ok (taken w c s) \<and> waiting (taken w c s) = waiting s \<and> chans (taken w c s) = gm_put w c (chans s)"
begin

definition sound :: "'s \<Rightarrow> bool" where
  "sound s \<longleftrightarrow> ok s \<and> chan_ok (waiting s) (chans s)"

lemma sound_register: "sound s \<Longrightarrow> map_of (chans s) w = None \<Longrightarrow> sound (register k w s)"
  using register [of s k w] by (fastforce simp: sound_def chan_ok_def)

lemma sound_remove: "sound s \<Longrightarrow> sound (remove k w s)"
  using remove [of s k w] by (auto simp: sound_def chan_ok_def dest: notin_set_remove1 set_remove1_subset [THEN subsetD])

lemma sound_taken: "sound s \<Longrightarrow> map_of (chans s) w = Some (x # c) \<Longrightarrow> sound (taken w c s)"
  using taken [of s w c] by (fastforce simp: sound_def chan_ok_def)

lemma sound_answer:
  assumes "sound s"
  shows "sound (answer k x s)"
proof -
  have c: "gm_wf (chans s)" "distinct (waiting s k)" "\<And>w. w \<in> set (waiting s k) \<Longrightarrow> gm_get [] (chans s) w = []"
    using assms by (auto simp: sound_def chan_ok_def gm_get_def)
  have "map_of (reply_to (waiting s k) x (chans s)) w = (if w \<in> set (waiting s k) then Some [x] else map_of (chans s) w)"
    "gm_wf (reply_to (waiting s k) x (chans s))" for w
    using reply_to_map_of [OF c(2,1), of x w] c(3) [of w] by auto
  then show ?thesis
    using assms answer [of s k x] by (auto simp: sound_def chan_ok_def)
qed

lemma answered:
  assumes "sound s" and "w \<in> set (waiting s k)"
  shows "map_of (chans (answer k x s)) w = Some [x]"
  using assms answer [of s k x] reply_to_map_of [of "waiting s k" "chans s" x w]
  by (auto simp: sound_def chan_ok_def gm_get_def)

lemma never_blocks: "sound s \<Longrightarrow> w \<in> set (waiting s k) \<Longrightarrow> gm_get [] (chans s) w = []"
  by (auto simp: sound_def chan_ok_def gm_get_def)

lemma room_for_one: "sound s \<Longrightarrow> length (gm_get [] (chans s) w) \<le> 1"
  by (auto simp: sound_def chan_ok_def gm_get_def split: option.split)

end

definition accessory_register :: "16 word \<Rightarrow> nat \<Rightarrow> z21 \<Rightarrow> z21" where
  "accessory_register f w d =
     d\<lparr> z_accessory_waiters := gm_put f (gm_get [] (z_accessory_waiters d) f @ [w]) (z_accessory_waiters d),
        z_accessory_replies := gm_put w [] (z_accessory_replies d) \<rparr>"

definition accessory_answer :: "16 word \<Rightarrow> accessory_state_event \<Rightarrow> z21 \<Rightarrow> z21" where
  "accessory_answer f e d =
     d\<lparr> z_accessory_waiters := gm_del f (z_accessory_waiters d),
        z_accessory_replies := reply_to (gm_get [] (z_accessory_waiters d) f) e (z_accessory_replies d) \<rparr>"

lemma gm_get_del: "gm_get z (gm_del k m) l = (if l = k then z else gm_get z m l)"
  by (simp add: gm_get_def)

interpretation accessory: reply_table "\<lambda>d. gm_get [] (z_accessory_waiters d)" z_accessory_replies
  "\<lambda>d. gm_wf (z_accessory_waiters d)" accessory_register accessory_answer remove_accessory_waiter
  "\<lambda>w c d. d\<lparr> z_accessory_replies := gm_put w c (z_accessory_replies d) \<rparr>"
  by unfold_locales
    (auto simp: accessory_register_def accessory_answer_def remove_accessory_waiter_def fun_eq_iff gm_get_del
      remove1_idem Let_def)

interpretation x_status: reply_table "\<lambda>d (_ :: unit). z_x_waiters d" z_x_replies "\<lambda>_. True"
  "\<lambda>_ w d. d\<lparr> z_x_waiters := z_x_waiters d @ [w], z_x_replies := gm_put w [] (z_x_replies d) \<rparr>"
  "\<lambda>_ b d. publish_x_status b d" "\<lambda>_ w d. d\<lparr> z_x_waiters := remove1 w (z_x_waiters d) \<rparr>"
  "\<lambda>w c d. d\<lparr> z_x_replies := gm_put w c (z_x_replies d) \<rparr>"
  by unfold_locales (auto simp: publish_x_status_def fun_eq_iff)

interpretation system_status: reply_table "\<lambda>d (_ :: unit). z_system_waiters d" z_system_replies "\<lambda>_. True"
  "\<lambda>_ w d. d\<lparr> z_system_waiters := z_system_waiters d @ [w], z_system_replies := gm_put w [] (z_system_replies d) \<rparr>"
  "\<lambda>_ s d. publish_system_state s d" "\<lambda>_ w d. d\<lparr> z_system_waiters := remove1 w (z_system_waiters d) \<rparr>"
  "\<lambda>w c d. d\<lparr> z_system_replies := gm_put w c (z_system_replies d) \<rparr>"
  by unfold_locales (auto simp: publish_system_state_def fun_eq_iff)

subsection \<open>Every sequence of operations\<close>

text \<open>
  The parts of the operations in any order, with the consumers of the three queues. A query or a
  request for the status brings channels nobody has used.
\<close>

datatype z21_op =
    Z21Receive time "byte list"
  | Z21Send z21_io "byte list"
  | Z21Connect "station_error option" z21_io
  | Z21Close
  | Z21Query z21_io "16 word" nat
  | Z21QueryEnd bool "16 word" nat
  | Z21Status z21_io z21_io nat nat
  | Z21StatusEnd status_wait time nat nat
  | Z21PublishStatus status
  | Z21TakeFeedback
  | Z21TakeAccessory
  | Z21TakeStatus

fun z21_exec :: "z21_op \<Rightarrow> z21 \<Rightarrow> z21" where
  "z21_exec (Z21Receive t b) d = z21_parse t b d"
| "z21_exec (Z21Send io b) d = snd (z21_send io b d)"
| "z21_exec (Z21Connect e io) d = snd (z21_connect e io d)"
| "z21_exec Z21Close d = z21_close d"
| "z21_exec (Z21Query io f w) d =
     (if gm_has (z_accessory_replies d) w then d else snd (accessory_query_begin io f w d))"
| "z21_exec (Z21QueryEnd ended f w) d = snd (accessory_query_end ended f w d)"
| "z21_exec (Z21Status io io' x s) d =
     (if gm_has (z_x_replies d) x \<or> gm_has (z_system_replies d) s then d else snd (status_begin io io' x s d))"
| "z21_exec (Z21StatusEnd how t x s) d = snd (status_end how t x s d)"
| "z21_exec (Z21PublishStatus s) d = z21_publish_status s d"
| "z21_exec Z21TakeFeedback d = d\<lparr> z_feedback := tl (z_feedback d) \<rparr>"
| "z21_exec Z21TakeAccessory d = d\<lparr> z_accessory_events := tl (z_accessory_events d) \<rparr>"
| "z21_exec Z21TakeStatus d = d\<lparr> z_status_events := tl (z_status_events d) \<rparr>"

text \<open>An event as the rest of the server expects it from a station.\<close>

definition event_wf :: "accessory_state_event \<Rightarrow> bool" where
  "event_wf e \<longleftrightarrow> MinBasicAccessoryAddress \<le> ev_address e \<and> ev_address e \<le> MaxBasicAccessoryAddress \<and>
     ev_quality e = QualityStation \<and> report_valid (ev_state e) \<and>
     (ev_state e = ReportKnown \<longleftrightarrow> position_valid (ev_position e)) \<and> ev_observed_at e \<noteq> None"

definition z21_inv :: "z21 \<Rightarrow> bool" where
  "z21_inv d \<longleftrightarrow> accessory.sound d \<and> x_status.sound d \<and> system_status.sound d \<and>
     length (z_feedback d) \<le> 64 \<and> length (z_accessory_events d) \<le> 64 \<and> length (z_status_events d) \<le> 16 \<and>
     list_all event_wf (z_accessory_events d) \<and>
     (\<forall>w c. map_of (z_accessory_replies d) w = Some c \<longrightarrow> list_all event_wf c)"

text \<open>What the invariant looks at, so that other fields may change.\<close>

definition z21_tables :: "z21 \<Rightarrow> _" where
  "z21_tables d =
     ((z_accessory_waiters d, z_accessory_replies d, z_x_waiters d, z_x_replies d, z_system_waiters d,
       z_system_replies d), z_feedback d, z_accessory_events d, z_status_events d)"

lemma z21_inv_tables: "z21_tables d' = z21_tables d \<Longrightarrow> z21_inv d \<Longrightarrow> z21_inv d'"
  by (simp add: z21_inv_def z21_tables_def accessory.sound_def x_status.sound_def system_status.sound_def)

lemmas sound_defs = accessory.sound_def x_status.sound_def system_status.sound_def

lemma turnout_report_wf:
  "MinBasicAccessoryAddress \<le> a \<Longrightarrow> a \<le> MaxBasicAccessoryAddress \<Longrightarrow> event_wf (turnout_report now a zz)"
  by (simp add: turnout_report_def event_wf_def Let_def)

lemma publish_accessory_state_inv:
  assumes inv: "z21_inv d" and e: "event_wf e"
  shows "z21_inv (publish_accessory_state f e d)"
proof -
  let ?d = "accessory_answer f e d"
  have eq: "publish_accessory_state f e d = ?d\<lparr> z_accessory_events := offer 64 e (z_accessory_events d) \<rparr>"
    by (simp add: publish_accessory_state_def accessory_answer_def Let_def)
  have acc: "accessory.sound d" using inv by (simp add: z21_inv_def)
  then have "accessory.sound ?d" by (rule accessory.sound_answer)
  moreover have "list_all event_wf c" if c: "map_of (z_accessory_replies ?d) w = Some c" for w c
  proof (cases "w \<in> set (gm_get [] (z_accessory_waiters d) f)")
    case True
    then show ?thesis using accessory.answered [OF acc True, of e] c e by simp
  next
    case False
    have "distinct (gm_get [] (z_accessory_waiters d) f)" "gm_wf (z_accessory_replies d)"
      using acc by (simp_all add: accessory.sound_def chan_ok_def)
    from reply_to_map_of [OF this, of e w] False have "map_of (z_accessory_replies d) w = Some c"
      using c by (simp add: accessory_answer_def)
    then show ?thesis using inv by (simp add: z21_inv_def)
  qed
  moreover have "list_all event_wf (offer 64 e (z_accessory_events d))"
    using inv e by (simp add: z21_inv_def offer_def)
  ultimately show ?thesis
    using inv unfolding eq
    by (simp add: z21_inv_def sound_defs accessory_answer_def length_offer)
qed

lemma fold_publish_inv: "z21_inv d \<Longrightarrow> z21_inv (fold z21_publish es d)"
proof (induction es arbitrary: d)
  case (Cons e es)
  have "z21_inv (z21_publish e d)"
    using Cons.prems by (simp add: z21_inv_def sound_defs z21_publish_def length_offer)
  then show ?case using Cons.IH by simp
qed simp

lemma publish_status_tables_inv:
  assumes "z21_inv d"
  shows "z21_inv (publish_x_status b d)" and "z21_inv (publish_system_state s d)"
  using assms x_status.sound_answer [of d b] system_status.sound_answer [of d s]
  by (simp_all add: z21_inv_def sound_defs publish_x_status_def publish_system_state_def)

lemma z21_record_inv:
  assumes "z21_inv d"
  shows "z21_inv (z21_record now h p d)"
proof -
  let ?d = "d\<lparr> z_health := health_valid_response now (z_health d) \<rparr>"
  have inv: "z21_inv ?d" by (rule z21_inv_tables [OF _ assms]) (simp add: z21_tables_def)
  then have "z21_inv (parse_turnout_info now p ?d)"
    unfolding parse_turnout_info_def
    by (auto simp: faddress_to_linear_def Let_def split: sum.split intro!: publish_accessory_state_inv turnout_report_wf)
  then show ?thesis
    using assms inv by (auto simp: z21_record_def Let_def intro: publish_status_tables_inv fold_publish_inv)
qed

lemma z21_parse_inv: "z21_inv d \<Longrightarrow> z21_inv (z21_parse now data d)"
proof (induction now data d rule: z21_parse.induct)
  case (1 now data d)
  then show ?case by (subst z21_parse.simps) (auto simp: Let_def z21_record_inv)
qed

lemma z21_send_tables: "z21_tables (snd (z21_send io b d)) = z21_tables d"
  by (simp add: z21_send_def z21_tables_def Let_def split: option.split)

lemma z21_send_inv: "z21_inv d \<Longrightarrow> z21_inv (snd (z21_send io b d))"
  by (rule z21_inv_tables [OF z21_send_tables])

lemma remove_accessory_waiter_inv: "z21_inv d \<Longrightarrow> z21_inv (remove_accessory_waiter f w d)"
  using accessory.sound_remove [of d f w]
  by (simp add: z21_inv_def sound_defs remove_accessory_waiter_def Let_def)

lemma accessory_query_begin_inv:
  assumes inv: "z21_inv d" and w: "\<not> gm_has (z_accessory_replies d) w"
  shows "z21_inv (snd (accessory_query_begin io f w d))"
proof -
  have "accessory.sound (accessory_register f w d)"
    using inv w by (intro accessory.sound_register) (simp_all add: z21_inv_def gm_has_def)
  moreover have "map_of (z_accessory_replies (accessory_register f w d)) v =
      (if v = w then Some [] else map_of (z_accessory_replies d) v)" for v
    using inv by (simp add: z21_inv_def accessory.sound_def chan_ok_def accessory_register_def)
  ultimately have reg: "z21_inv (accessory_register f w d)"
    using inv by (auto simp: z21_inv_def sound_defs accessory_register_def)
  have eq: "accessory_query_begin io f w d =
      (case z21_send io (turnout_info_request_packet f) (accessory_register f w d) of
         (Some e, d2) \<Rightarrow> (Some e, remove_accessory_waiter f w d2) | (None, d2) \<Rightarrow> (None, d2))"
    by (simp add: accessory_query_begin_def accessory_register_def)
  from z21_send_inv [OF reg, of io "turnout_info_request_packet f"] show ?thesis
    unfolding eq by (auto split: prod.split option.split intro: remove_accessory_waiter_inv)
qed

lemma accessory_query_end_inv:
  assumes inv: "z21_inv d"
  shows "z21_inv (snd (accessory_query_end ended f w d))"
proof -
  let ?d = "remove_accessory_waiter f w d"
  have r: "z21_inv ?d" using inv by (rule remove_accessory_waiter_inv)
  have same: "z_accessory_replies ?d = z_accessory_replies d"
    by (simp add: remove_accessory_waiter_def Let_def)
  have "z21_inv (?d\<lparr> z_accessory_replies := gm_put w c (z_accessory_replies ?d) \<rparr>)"
    if "map_of (z_accessory_replies ?d) w = Some (e # c)" for e c
  proof -
    have "accessory.sound (?d\<lparr> z_accessory_replies := gm_put w c (z_accessory_replies ?d) \<rparr>)"
      using r that by (intro accessory.sound_taken) (simp_all add: z21_inv_def)
    moreover have "gm_wf (z_accessory_replies ?d)" "list_all event_wf (e # c)"
      using r that unfolding z21_inv_def accessory.sound_def chan_ok_def by blast+
    ultimately show ?thesis using r by (auto simp: z21_inv_def sound_defs)
  qed
  with r same show ?thesis
    by (auto simp: accessory_query_end_def Let_def gm_get_def split: option.split list.split)
qed

lemma remove_status_waiters_inv:
  assumes "z21_inv d"
  shows "z21_inv (remove_status_waiters x s d)"
proof -
  have "x_status.sound (d\<lparr> z_x_waiters := remove1 x (z_x_waiters d) \<rparr>)"
    and "system_status.sound (d\<lparr> z_system_waiters := remove1 s (z_system_waiters d) \<rparr>)"
    using assms x_status.sound_remove [of d x] system_status.sound_remove [of d s] by (simp_all add: z21_inv_def)
  then show ?thesis using assms by (simp add: z21_inv_def sound_defs remove_status_waiters_def)
qed

lemma z21_error_inv: "z21_inv d \<Longrightarrow> z21_inv (z21_error now d)"
  by (rule z21_inv_tables) (simp_all add: z21_error_def z21_tables_def)

definition status_register :: "nat \<Rightarrow> nat \<Rightarrow> z21 \<Rightarrow> z21" where
  "status_register x s d =
     d\<lparr> z_x_waiters := z_x_waiters d @ [x], z_x_replies := gm_put x [] (z_x_replies d),
        z_system_waiters := z_system_waiters d @ [s], z_system_replies := gm_put s [] (z_system_replies d) \<rparr>"

lemma status_register_inv:
  assumes "z21_inv d" and "\<not> gm_has (z_x_replies d) x" and "\<not> gm_has (z_system_replies d) s"
  shows "z21_inv (status_register x s d)"
proof -
  have "x_status.sound (d\<lparr> z_x_waiters := z_x_waiters d @ [x], z_x_replies := gm_put x [] (z_x_replies d) \<rparr>)"
    and "system_status.sound (d\<lparr> z_system_waiters := z_system_waiters d @ [s], z_system_replies := gm_put s [] (z_system_replies d) \<rparr>)"
    using assms x_status.sound_register [of d x] system_status.sound_register [of d s]
    by (simp_all add: z21_inv_def gm_has_def)
  then show ?thesis using assms by (simp add: z21_inv_def sound_defs status_register_def)
qed

lemma status_begin_inv:
  assumes "z21_inv d" and "\<not> gm_has (z_x_replies d) x" and "\<not> gm_has (z_system_replies d) s"
  shows "z21_inv (snd (status_begin io io' x s d))"
proof -
  let ?d1 = "status_register x s d"
  let ?s2 = "z21_send io (xbus [0x21, 0x24]) ?d1"
  let ?s3 = "z21_send io' (lan 0x0085 []) (snd ?s2)"
  have i1: "z21_inv ?d1" using assms by (rule status_register_inv)
  then have i2: "z21_inv (snd ?s2)" and i3: "z21_inv (snd ?s3)" using z21_send_inv by blast+
  have eq: "snd (status_begin io io' x s d) =
      (case fst ?s2 of Some _ \<Rightarrow> remove_status_waiters x s (z21_error (io_now io) (snd ?s2))
       | None \<Rightarrow> (case fst ?s3 of Some _ \<Rightarrow> remove_status_waiters x s (z21_error (io_now io') (snd ?s3)) | None \<Rightarrow> snd ?s3))"
    by (simp add: status_begin_def status_register_def Let_def split: prod.split option.split)
  show ?thesis
    unfolding eq by (auto split: option.split intro: i2 i3 remove_status_waiters_inv z21_error_inv)
qed

lemma status_end_inv: "z21_inv d \<Longrightarrow> z21_inv (snd (status_end how now x s d))"
  by (cases how) (auto simp: status_end_def Let_def intro: remove_status_waiters_inv z21_error_inv)

lemma list_all_tl: "list_all P xs \<Longrightarrow> list_all P (tl xs)"
  by (cases xs) auto

lemma z21_connect_inv: "z21_inv d \<Longrightarrow> z21_inv (snd (z21_connect e io d))"
  by (rule z21_inv_tables)
    (auto simp: z21_connect_def z21_send_def z21_tables_def Let_def split: option.split)

lemma z21_exec_inv: "z21_inv d \<Longrightarrow> z21_inv (z21_exec oper d)"
proof (cases oper)
  case (Z21Query io f w)
  then show "z21_inv d \<Longrightarrow> ?thesis" using accessory_query_begin_inv by simp
next
  case (Z21Status io io' x s)
  then show "z21_inv d \<Longrightarrow> ?thesis" using status_begin_inv by simp
qed (auto intro: z21_parse_inv z21_send_inv z21_connect_inv accessory_query_end_inv status_end_inv,
     auto simp: z21_inv_def sound_defs z21_close_def z21_publish_status_def length_offer list_all_tl)

lemma new_z21_inv: "z21_inv (new_z21 a p)"
  by (simp add: z21_inv_def sound_defs chan_ok_def new_z21_def gm_get_def)

lemma z21_run_inv: "z21_inv d \<Longrightarrow> z21_inv (fold z21_exec ops d)"
  by (induction ops arbitrary: d) (simp_all add: z21_exec_inv)

subsection \<open>What an accessory command writes\<close>

lemma z21_record_io: "z_conn (z21_record now h p d) = z_conn d \<and> z_sent (z21_record now h p d) = z_sent d"
proof -
  have "z_conn (fold z21_publish es d) = z_conn d \<and> z_sent (fold z21_publish es d) = z_sent d" for es d
    by (induction es arbitrary: d) (simp_all add: z21_publish_def)
  then show ?thesis
    by (auto simp: z21_record_def parse_turnout_info_def publish_accessory_state_def publish_x_status_def
        publish_system_state_def Let_def split: sum.split)
qed

lemma z21_parse_io: "z_conn (z21_parse now b d) = z_conn d \<and> z_sent (z21_parse now b d) = z_sent d"
proof (induction now b d rule: z21_parse.induct)
  case (1 now data d)
  then show ?case by (subst (1 2) z21_parse.simps) (auto simp: Let_def z21_record_io)
qed

lemma receive_all_io: "z_conn (receive_all ds d) = z_conn d \<and> z_sent (receive_all ds d) = z_sent d"
  unfolding receive_all_def by (induction ds arbitrary: d) (auto simp: z21_parse_io split: prod.split)

lemma z21_send_cases:
  assumes "z21_send io b d = (e, d')"
  shows "e \<noteq> None \<and> d' = d \<or>
    z_conn d' = z_conn d \<and> z_conn d \<and> z_sent d' = z_sent d @ [b] \<and> e = io_write_error io"
  using assms by (auto simp: z21_send_def Let_def split: if_splits option.splits)

lemma z21_send_connected:
  "z_conn d \<Longrightarrow> \<not> io_cancelled io \<Longrightarrow> z_sent (snd (z21_send io b d)) = z_sent d @ [b]"
  by (simp add: z21_send_def Let_def split: option.split)

lemma query_begin_sent:
  assumes "accessory_query_begin io f w d = (e, d')"
  shows "\<exists>q. z_sent d' = z_sent d @ q \<and> (q = [] \<or> q = [turnout_info_request_packet f]) \<and> (e = None \<longrightarrow> q \<noteq> [])"
proof -
  let ?d1 = "accessory_register f w d"
  have reg: "z_sent ?d1 = z_sent d" by (simp add: accessory_register_def)
  have rem: "z_sent (remove_accessory_waiter f w x) = z_sent x" for x
    by (simp add: remove_accessory_waiter_def Let_def)
  obtain e2 d2 where s: "z21_send io (turnout_info_request_packet f) ?d1 = (e2, d2)" by fastforce
  have "e = e2 \<and> z_sent d' = z_sent d2"
    using assms s rem by (auto simp: accessory_query_begin_def accessory_register_def split: option.splits)
  with z21_send_cases [OF s] reg show ?thesis by auto
qed

lemma query_end_sent: "z_sent (snd (accessory_query_end ended f w d)) = z_sent d"
  by (simp add: accessory_query_end_def remove_accessory_waiter_def Let_def split: list.split)

text \<open>The packets one command adds to those sent before.\<close>

definition accessory_packets_ok :: "accessory_command \<Rightarrow> bool \<Rightarrow> bool \<Rightarrow> byte list list \<Rightarrow> bool" where
  "accessory_packets_ok c write_failed success extra \<longleftrightarrow>
     (let f = word_of_int (ac_address c - 1);
          on = turnout_command_packet f (ac_position c) True;
          off = turnout_command_packet f (ac_position c) False;
          ask = turnout_info_request_packet f
      in if success then extra = [on, off, ask]
         else extra = [] \<or> write_failed \<and> extra = [on] \<or> extra = [on, off] \<or> extra = [on, off, ask])"

lemma accessory_released:
  "\<exists>extra. z_sent (snd (z21_set_basic_accessory env w c d)) = z_sent d @ extra \<and>
     accessory_packets_ok c (io_write_error (ax_activate env) \<noteq> None) (fst (z21_set_basic_accessory env w c d) = []) extra"
proof (cases "accessory_command_validate c = None \<and>
    check_command_allowed (Some (health_of (io_now (ax_activate env)) (z_health d))) = None")
  case False
  then show ?thesis
    by (intro exI [of _ "[]"]) (auto simp: z21_set_basic_accessory_def accessory_packets_ok_def Let_def split: option.split)
next
  case True
  define f :: "16 word" where "f = word_of_int (ac_address c - 1)"
  have f: "linear_to_faddress (ac_address c) = Inr f"
    using True linear_faddress(1) [of "ac_address c"] by (simp add: accessory_command_validate_None f_def)
  let ?on = "turnout_command_packet f (ac_position c) True" and ?off = "turnout_command_packet f (ac_position c) False"
  let ?io2 = "(ax_deactivate env)\<lparr> io_cancelled := False \<rparr>"
  obtain e1 d1 where s1: "z21_send (ax_activate env) ?on d = (e1, d1)" by fastforce
  obtain e2 d3 where s2: "z21_send ?io2 ?off (receive_all (ax_during_pulse env) d1) = (e2, d3)" by fastforce
  obtain e3 d4 where s3: "accessory_query_begin (ax_query env) f w d3 = (e3, d4)" by fastforce
  obtain r d5 where s4: "accessory_query_end (ax_ended env) f w (receive_all (ax_replies env) d4) = (r, d5)" by fastforce
  have sent5: "z_sent d5 = z_sent d4" using query_end_sent [of "ax_ended env" f w "receive_all (ax_replies env) d4"] s4
    by (simp add: receive_all_io)
  have result: "z21_set_basic_accessory env w c d =
      (case e1 of Some e \<Rightarrow> ([e], d1)
       | None \<Rightarrow> if ax_cancelled env then (ErrContext # case_option [] (\<lambda>e. [e]) e2, d3)
           else case e2 of Some e \<Rightarrow> ([e], d3)
           | None \<Rightarrow> (case e3 of Some e \<Rightarrow> ([e], d4) | None \<Rightarrow> (case r of Inl e \<Rightarrow> ([e], d5) | Inr _ \<Rightarrow> ([], d5))))"
    using True by (simp add: z21_set_basic_accessory_def f s1 s2 s3 s4 Let_def split: option.split sum.split)
  show ?thesis
  proof (cases e1)
    case (Some e)
    from z21_send_cases [OF s1] Some consider "d1 = d" | "io_write_error (ax_activate env) = Some e" "z_sent d1 = z_sent d @ [?on]"
      by auto
    then show ?thesis
    proof cases
      case 1
      then show ?thesis by (intro exI [of _ "[]"]) (simp add: result Some accessory_packets_ok_def Let_def)
    next
      case 2
      then show ?thesis by (intro exI [of _ "[?on]"]) (simp add: result Some accessory_packets_ok_def Let_def f_def)
    qed
  next
    case None
    with z21_send_cases [OF s1] have 1: "z_conn d1" "z_sent d1 = z_sent d @ [?on]" by auto
    have 2: "z_sent d3 = z_sent d @ [?on, ?off]"
      using z21_send_connected [of "receive_all (ax_during_pulse env) d1" ?io2 ?off] 1 s2 by (simp add: receive_all_io)
    from query_begin_sent [OF s3] obtain q where q: "z_sent d4 = z_sent d3 @ q"
      "q = [] \<or> q = [turnout_info_request_packet f]" "e3 = None \<longrightarrow> q \<noteq> []" by blast
    define later where "later \<longleftrightarrow> \<not> ax_cancelled env \<and> e2 = None"
    have "z_sent (snd (z21_set_basic_accessory env w c d)) = z_sent d @ [?on, ?off] @ (if later then q else [])"
      using 2 q(1) sent5 by (auto simp: result None later_def split: option.split sum.split)
    moreover have "fst (z21_set_basic_accessory env w c d) = [] \<Longrightarrow> later \<and> e3 = None"
      by (auto simp: result None later_def split: option.splits sum.splits if_splits)
    then have "accessory_packets_ok c (io_write_error (ax_activate env) \<noteq> None)
        (fst (z21_set_basic_accessory env w c d) = []) ([?on, ?off] @ (if later then q else []))"
      using q(2,3) by (auto simp: accessory_packets_ok_def Let_def f_def)
    ultimately show ?thesis by blast
  qed
qed

subsection \<open>Answers\<close>

lemma turnout_info_record_read:
  "z21_parse now (turnout_info_record f zz) d =
     parse_turnout_info now [0x43, high_byte f, ucast f, zz, xor_of [0x43, high_byte f, ucast f, zz]]
       (d\<lparr> z_health := health_valid_response now (z_health d) \<rparr>)"
proof -
  let ?p = "[0x43, high_byte f, ucast f, zz]"
  have zero: "xor_of [0x43, high_byte f, ucast f, zz, xor_of ?p] = 0" using xor_of_snoc [of ?p] by simp
  have "z21_parse now (lan 0x40 (?p @ [xor_of ?p]) @ []) d =
      z21_parse now [] (z21_record now (unat (0x40 :: 16 word)) (?p @ [xor_of ?p]) d)"
    by (rule z21_parse_lan) simp
  also have "\<dots> = z21_record now (unat (0x40 :: 16 word)) (?p @ [xor_of ?p]) d"
    by (rule z21_parse_tail) (simp add: z21_tail_def)
  finally show ?thesis
    unfolding turnout_info_record_def xbus_lan by (simp add: z21_record_def zero Let_def)
qed

lemma parse_turnout_info_answer:
  assumes "faddress_to_linear f = Inr a"
  shows "parse_turnout_info now [h, high_byte f, ucast f, zz, x] d =
    publish_accessory_state f (turnout_report now a (zz AND 0x03)) d"
  using faddress_join [of f] assms by (simp add: parse_turnout_info_def Let_def)

lemma accessory_query_answered:
  assumes inv: "z21_inv d" and w: "\<not> gm_has (z_accessory_replies d) w" and a: "1 \<le> a" "a \<le> 2040"
    and ask: "accessory_query_begin io (word_of_int (a - 1)) w d = (None, d1)"
  shows "fst (accessory_query_end False (word_of_int (a - 1)) w
           (z21_parse now (turnout_info_record (word_of_int (a - 1)) zz) d1)) =
         Inr (turnout_report now a (zz AND 0x03))"
proof -
  let ?f = "word_of_int (a - 1) :: 16 word"
  let ?d0 = "accessory_register ?f w d" and ?e = "turnout_report now a (zz AND 0x03)"
  let ?h = "d1\<lparr> z_health := health_valid_response now (z_health d1) \<rparr>"
  have d1: "z_accessory_waiters d1 = z_accessory_waiters ?d0 \<and> z_accessory_replies d1 = z_accessory_replies ?d0"
    using ask z21_send_tables [of io "turnout_info_request_packet ?f" ?d0]
    by (auto simp: accessory_query_begin_def accessory_register_def z21_tables_def split: prod.splits option.splits)
  have "accessory.sound ?d0"
    using inv w by (intro accessory.sound_register) (simp_all add: z21_inv_def gm_has_def)
  then have sound: "accessory.sound ?h" using d1 by (simp add: accessory.sound_def)
  have "w \<in> set (gm_get [] (z_accessory_waiters ?d0) ?f)"
    using inv by (simp add: accessory_register_def z21_inv_def accessory.sound_def)
  then have "w \<in> set (gm_get [] (z_accessory_waiters ?h) ?f)" using d1 by simp
  from accessory.answered [OF sound this, of ?e]
  have "map_of (z_accessory_replies (publish_accessory_state ?f ?e ?h)) w = Some [?e]"
    by (simp add: publish_accessory_state_def accessory_answer_def Let_def)
  moreover have "z21_parse now (turnout_info_record ?f zz) d1 = publish_accessory_state ?f ?e ?h"
    unfolding turnout_info_record_read by (rule parse_turnout_info_answer [OF linear_faddress(3) [OF a]])
  ultimately show ?thesis by (simp add: accessory_query_end_def gm_get_def Let_def)
qed

subsection \<open>Properties\<close>

text \<open>
  A datagram is taken apart completely. It is the records that fit, one after the other,
  followed by bytes that cannot be a record; parsing it terminates and has the effect of handling
  those records in their order, whatever the bytes.
\<close>

theorem z21_parse_datagram:
  "\<exists>rs tail. data = concat (map (\<lambda>(h, p). lan h p) rs) @ tail \<and> z21_tail tail \<and>
     z21_parse now data d = fold (\<lambda>(h, p). z21_record now (unat h) p) rs d"
proof -
  obtain rs tail where "data = concat (map (\<lambda>(h, p). lan h p) rs) @ tail" "z21_tail tail"
    "list_all (\<lambda>(h, p). length p \<le> 65531) rs" using z21_decompose by blast
  then show ?thesis using z21_parse_records by blast
qed

text \<open>
  C36: the accessory protocol is read back on both sides. For every address from 1 to 2040 and
  either position a station reads from the packets of the driver that address, that position, and
  whether to switch the output on or off; and when it reports the output to a driver that has
  asked, the caller gets the reported state of that address (unknown, position 1, position 2 or
  invalid for the two state bits).
\<close>

theorem z21_accessory_protocol:
  assumes a: "1 \<le> a" "a \<le> 2040" and pos: "position_valid pos"
    and d: "z21_inv d" "\<not> gm_has (z_accessory_replies d) w"
    and ask: "accessory_query_begin io (word_of_int (a - 1)) w d = (None, d1)"
  shows "station_reads_turnout (turnout_command_packet (word_of_int (a - 1)) pos on) = Some (a, pos, on) \<and>
    fst (accessory_query_end False (word_of_int (a - 1)) w
      (z21_parse now (turnout_info_record (word_of_int (a - 1)) zz) d1)) = Inr (turnout_report now a (zz AND 0x03))"
  using station_reads_turnout_packet [OF pos, of "word_of_int (a - 1)" on] linear_faddress(2) [OF a] a
    accessory_query_answered [OF d a ask]
  by (simp del: of_int_diff)

theorem z21_accessory_protocol_witness:
  "station_reads_turnout (turnout_command_packet (word_of_int (2040 - 1)) Position2 True) = Some (2040, Position2, True) \<and>
   ev_position (turnout_report 5 2040 ((2 :: byte) AND 0x03)) = Position2 \<and>
   (\<exists>d1. fst (accessory_query_end False (word_of_int (2040 - 1)) 7
      (z21_parse 5 (turnout_info_record (word_of_int (2040 - 1)) 2) d1)) = Inr (turnout_report 5 2040 ((2 :: byte) AND 0x03)))"
proof -
  let ?io = "\<lparr> io_cancelled = False, io_write_error = None, io_now = 3 \<rparr>"
  let ?d = "(new_z21 0 0)\<lparr> z_conn := True \<rparr>"
  have "z21_inv ?d" using z21_inv_tables [OF _ new_z21_inv [of 0 0], of ?d] by (simp add: z21_tables_def)
  moreover have "\<not> gm_has (z_accessory_replies ?d) 7" by (simp add: new_z21_def gm_has_def)
  moreover obtain d1 where "accessory_query_begin ?io (word_of_int (2040 - 1)) 7 ?d = (None, d1)"
    by (simp add: accessory_query_begin_def z21_send_def Let_def)
  moreover have "ev_position (turnout_report 5 2040 ((2 :: byte) AND 0x03)) = Position2"
    by (simp add: turnout_report_def)
  ultimately show ?thesis
    using z21_accessory_protocol [of 2040 Position2 ?d 7 ?io d1 True 5 2] by (auto simp del: of_int_diff)
qed


text \<open>
  C35: the goroutine that reads the socket never blocks. Whatever the operations and their order,
  the channel of every waiting caller is empty, so the one answer it gets finds room; the three
  queues stay within their capacities; and every accessory event in them has a valid address, a
  valid state, and a position exactly when that state is known.
\<close>

theorem z21_never_blocks:
  "let d = fold z21_exec ops (new_z21 offline_after pulse)
   in list_all (\<lambda>w. gm_get [] (z_accessory_replies d) w = []) (gm_get [] (z_accessory_waiters d) f) \<and>
      list_all (\<lambda>w. gm_get [] (z_x_replies d) w = []) (z_x_waiters d) \<and>
      list_all (\<lambda>w. gm_get [] (z_system_replies d) w = []) (z_system_waiters d) \<and>
      length (z_feedback d) \<le> 64 \<and> length (z_accessory_events d) \<le> 64 \<and> length (z_status_events d) \<le> 16 \<and>
      list_all event_wf (z_accessory_events d)"
proof -
  have inv: "z21_inv (fold z21_exec ops (new_z21 offline_after pulse))" by (rule z21_run_inv [OF new_z21_inv])
  then show ?thesis
    unfolding Let_def list_all_iff
    using accessory.never_blocks x_status.never_blocks system_status.never_blocks
    by (simp add: z21_inv_def list_all_iff)
qed

end
