(* ===== verification/DccEx.thy ===== *)
theory DccEx
  imports Speeds GoText
begin

text \<open>
  The driver of the DCC-EX command station, \<^verbatim>\<open>internal/station/dccex/dccex.go\<close>: the text
  commands it writes, the frames it cuts out of the byte stream, and the life of its TCP
  connection, which is re-established when it is lost. A socket has the number of the dial that
  opened it. Reading goroutines, the reconnecting goroutine and the writer that holds
  \<^verbatim>\<open>writeMu\<close> are part of the state; a step is what runs while the mutex is held, with the
  events published right after it.
\<close>

subsection \<open>Frames in a byte stream\<close>

definition index_byte :: "char \<Rightarrow> string \<Rightarrow> nat option" where
  "index_byte c s = (if c \<in> set s then Some (length (takeWhile (\<lambda>d. d \<noteq> c) s)) else None)"

definition split_frames :: "string \<Rightarrow> bool \<Rightarrow> nat \<times> string option" where
  "split_frames data at_eof =
     (case index_byte (CHR ''<'') data of
        None \<Rightarrow> if at_eof then (length data, None) else (0, None)
      | Some start \<Rightarrow>
          (case index_byte (CHR ''>'') (drop start data) of
             None \<Rightarrow> if at_eof then (length data, Some (drop start data)) else (0, None)
           | Some n \<Rightarrow> (start + n + 1, Some (take (n + 1) (drop start data)))))"

lemma index_byte_less: "index_byte c s = Some n \<Longrightarrow> n < length s"
proof -
  have "c \<in> set s \<Longrightarrow> length (takeWhile (\<lambda>d. d \<noteq> c) s) < length s" by (induction s) auto
  then show "index_byte c s = Some n \<Longrightarrow> n < length s" by (auto simp: index_byte_def split: if_splits)
qed

lemma split_frames_token: "split_frames data e = (adv, Some t) \<Longrightarrow> 0 < adv \<and> data \<noteq> []"
  by (auto simp: split_frames_def split: option.splits if_splits dest: index_byte_less)

lemma split_frames_no_token: "split_frames data False = (adv, None) \<Longrightarrow> adv = 0"
  by (auto simp: split_frames_def split: option.splits if_splits)

text \<open>
  \<^verbatim>\<open>bufio.Scanner\<close> driven by \<open>split_frames\<close>: the bytes it holds, whether its reader has
  ended, and what the reader is still to deliver, read by read. A read fills at most the free part
  of the buffer; a full buffer without a frame ends the scan (\<^verbatim>\<open>ErrTooLong\<close>).
\<close>

definition max_token :: nat where
  "max_token = 65536"

function scan_loop :: "bool \<Rightarrow> string \<Rightarrow> string list \<Rightarrow> string list" where
  "scan_loop at_eof buf reads =
     (case (if buf \<noteq> [] \<or> at_eof then split_frames buf at_eof else (0, None)) of
        (adv, Some token) \<Rightarrow> token # scan_loop at_eof (drop adv buf) reads
      | (adv, None) \<Rightarrow>
          if at_eof \<or> length (drop adv buf) \<ge> max_token then []
          else case reads of
            [] \<Rightarrow> scan_loop True (drop adv buf) []
          | c # cs \<Rightarrow>
              let room = max_token - length (drop adv buf)
              in scan_loop False (drop adv buf @ take room c) (if length c \<le> room then cs else drop room c # cs))"
  by pat_completeness auto

termination
  by (relation "measure (\<lambda>(e, buf, reads).
        length buf + 2 * sum_list (map length reads) + length reads + (if e then 0 else 1))")
    (auto dest!: sym [of "(_, _)" "split_frames _ _"] split_frames_token split: if_splits)

declare scan_loop.simps [simp del]

definition scan_frames :: "string list \<Rightarrow> string list" where
  "scan_frames reads = scan_loop False [] reads"

subsection \<open>Reading a frame\<close>

text \<open>\<^verbatim>\<open>fmt.Sscanf\<close> for formats made of plain characters, blanks and \<^verbatim>\<open>%d\<close>.\<close>

datatype scan_item = ScanChar char | ScanSpace | ScanInt

definition is_blank :: "char \<Rightarrow> bool" where
  "is_blank c \<longleftrightarrow> is_space c \<and> c \<noteq> CHR 0x0A"

definition scan_int :: "string \<Rightarrow> (int \<times> string) option" where
  "scan_int s =
     (let t = dropWhile is_blank s;
          sign = (case t of c # _ \<Rightarrow> if c = CHR ''-'' \<or> c = CHR ''+'' then [c] else [] | [] \<Rightarrow> []);
          number = sign @ takeWhile is_digit (drop (length sign) t)
      in map_option (\<lambda>i. (i, drop (length number) t)) (atoi number))"

fun sscanf :: "scan_item list \<Rightarrow> string \<Rightarrow> int list option" where
  "sscanf [] s = Some []"
| "sscanf (ScanChar c # fs) s = (case s of d # r \<Rightarrow> if d = c then sscanf fs r else None | [] \<Rightarrow> None)"
| "sscanf (ScanSpace # fs) s =
     (case s of [] \<Rightarrow> sscanf fs [] | d # r \<Rightarrow> if is_blank d then sscanf fs (dropWhile is_blank r) else None)"
| "sscanf (ScanInt # fs) s = (case scan_int s of None \<Rightarrow> None | Some (i, r) \<Rightarrow> map_option ((#) i) (sscanf fs r))"

definition format_Q :: "scan_item list" where
  "format_Q = [ScanChar (CHR ''<''), ScanChar (CHR ''Q''), ScanSpace, ScanInt, ScanChar (CHR ''>'')]"

definition format_q :: "scan_item list" where
  "format_q = [ScanChar (CHR ''<''), ScanChar (CHR ''q''), ScanSpace, ScanInt, ScanChar (CHR ''>'')]"

definition format_S :: "scan_item list" where
  "format_S = [ScanChar (CHR ''<''), ScanChar (CHR ''S''), ScanSpace, ScanInt, ScanSpace, ScanInt, ScanChar (CHR ''>'')]"

definition sensor_event :: "int \<Rightarrow> bool \<Rightarrow> feedback_event" where
  "sensor_event i active =
     \<lparr> fb_source = ''dccex'', fb_kind = ''sensor'', fb_address = i, fb_active = active \<rparr>"

text \<open>The event of \<^verbatim>\<open>handleFrame\<close>, if the frame reports a sensor.\<close>

definition frame_event :: "string \<Rightarrow> feedback_event option" where
  "frame_event frame =
     (case sscanf format_Q frame of
        Some xs \<Rightarrow> Some (sensor_event (xs ! 0) True)
      | None \<Rightarrow>
     (case sscanf format_q frame of
        Some xs \<Rightarrow> Some (sensor_event (xs ! 0) False)
      | None \<Rightarrow>
     (case sscanf format_S frame of
        Some xs \<Rightarrow> Some (sensor_event (xs ! 0) (xs ! 1 \<noteq> 0))
      | None \<Rightarrow> None)))"

text \<open>The frames the read loop handles: those with both brackets once trimmed.\<close>

definition complete_frame :: "string \<Rightarrow> bool" where
  "complete_frame s \<longleftrightarrow> s \<noteq> [] \<and> hd s = CHR ''<'' \<and> last s = CHR ''>''"

definition handled_frames :: "string list \<Rightarrow> string list" where
  "handled_frames reads = filter complete_frame (map trim_space (scan_frames reads))"

subsection \<open>Commands\<close>

definition newline :: string where
  "newline = [CHR 0x0A]"

definition power_text_command :: "bool \<Rightarrow> string" where
  "power_text_command on = (if on then ''<1>'' else ''<0>'') @ newline"

definition emergency_stop_command :: string where
  "emergency_stop_command = ''<!>'' @ newline"

definition speed_command :: "int \<Rightarrow> double \<Rightarrow> direction \<Rightarrow> station_error + string" where
  "speed_command address speed direction =
     (if \<not> speed_in_range speed then Inl ErrSpeedOutOfRange
      else if \<not> direction_valid direction then Inl ErrUnsupported
      else Inr (''<t '' @ int_text address @ '' '' @ int_text (scaled_speed speed 126) @ '' '' @
             int_text (if direction = Forward then 1 else 0) @ ''>'' @ newline))"

definition dccex_capabilities :: capabilities where
  "dccex_capabilities = \<lparr> cap_driver = ''dccex'', cap_track_power = True, cap_locomotive_control = True,
     cap_functions = 69, cap_max_function_number = 68, cap_accessory_control = True, cap_feedback = True \<rparr>"

definition function_command :: "int \<Rightarrow> int \<Rightarrow> bool \<Rightarrow> station_error + string" where
  "function_command address fn on =
     (if fn < 0 \<or> fn > cap_max_function_number dccex_capabilities then Inl ErrUnsupported
      else Inr (''<F '' @ int_text address @ '' '' @ int_text fn @ '' '' @ int_text (if on then 1 else 0) @ ''>'' @ newline))"

definition accessory_text :: "accessory_command \<Rightarrow> station_error + string" where
  "accessory_text c =
     (case accessory_command_validate c of
        Some e \<Rightarrow> Inl e
      | None \<Rightarrow> Inr (''<a '' @ int_text (ac_address c) @ '' '' @
                 int_text (if ac_position c = Position2 then 1 else 0) @ ''>'' @ newline))"

subsection \<open>The driver\<close>

record dccex =
  dx_conn :: "nat option"
  dx_connection_id :: "64 word"
  dx_reconnecting :: bool
  dx_closed :: bool
  dx_cancelled :: bool
  dx_feedback :: "feedback_event list"
  dx_accessory_events :: "accessory_state_event list"
  dx_status_events :: "status list"
  dx_health :: health_tracker
  dx_readers :: "(nat \<times> 64 word) list"
  dx_loops :: nat
  dx_dialled :: nat
  dx_open :: "nat list"
  dx_writing :: "(nat \<times> 64 word \<times> string) option"
  dx_written :: "(nat \<times> string) list"

definition new_dccex :: "duration \<Rightarrow> dccex" where
  "new_dccex offline_after =
     \<lparr> dx_conn = None, dx_connection_id = 0, dx_reconnecting = False, dx_closed = False, dx_cancelled = False,
       dx_feedback = [], dx_accessory_events = [], dx_status_events = [],
       dx_health = new_health_tracker offline_after, dx_readers = [], dx_loops = 0, dx_dialled = 0,
       dx_open = [], dx_writing = None, dx_written = [] \<rparr>"

definition publish_health_status :: "time \<Rightarrow> dccex \<Rightarrow> dccex" where
  "publish_health_status now d =
     (let health = health_of now (dx_health d)
      in d\<lparr> dx_status_events := offer 16
           \<lparr> st_connectivity = hr_connectivity health, st_last_seen = hr_last_seen health,
             st_track_power = PowerUnknown, st_emergency_stop = False, st_short_circuit = False,
             st_programming_mode = False, st_main_current = 0, st_programming_current = 0,
             st_filtered_main_current = 0, st_temperature = 0, st_supply_voltage = 0, st_track_voltage = 0,
             st_high_temperature = False, st_power_lost = False, st_external_short_circuit = False,
             st_internal_short_circuit = False \<rparr> (dx_status_events d) \<rparr>)"

definition dx_publish :: "feedback_event \<Rightarrow> dccex \<Rightarrow> dccex" where
  "dx_publish e d = d\<lparr> dx_feedback := offer 64 e (dx_feedback d) \<rparr>"

definition dx_publish_accessory_state :: "accessory_state_event \<Rightarrow> dccex \<Rightarrow> dccex" where
  "dx_publish_accessory_state e d = d\<lparr> dx_accessory_events := offer 64 e (dx_accessory_events d) \<rparr>"

text \<open>A successful dial opens the next socket; the connection is installed with a reader.\<close>

definition dial :: "dccex \<Rightarrow> nat \<times> dccex" where
  "dial d = (dx_dialled d, d\<lparr> dx_dialled := dx_dialled d + 1, dx_open := dx_dialled d # dx_open d \<rparr>)"

definition close_socket :: "nat \<Rightarrow> dccex \<Rightarrow> dccex" where
  "close_socket c d = d\<lparr> dx_open := removeAll c (dx_open d) \<rparr>"

definition install :: "nat \<Rightarrow> dccex \<Rightarrow> dccex" where
  "install c d =
     (let i = dx_connection_id d + 1
      in d\<lparr> dx_conn := Some c, dx_connection_id := i, dx_readers := (c, i) # dx_readers d \<rparr>)"

definition already_connected :: station_error where
  "already_connected = ErrTransport ''DCC-EX driver is already connected''"

text \<open>\<^verbatim>\<open>Connect\<close>: its first check, and what follows a successful dial.\<close>

definition connect_check :: "dccex \<Rightarrow> station_error option" where
  "connect_check d =
     (if dx_closed d then Some ErrOffline else if dx_conn d \<noteq> None then Some already_connected else None)"

definition connect_dialled :: "time \<Rightarrow> dccex \<Rightarrow> station_error option \<times> dccex" where
  "connect_dialled now d =
     (let (c, d1) = dial d
      in case connect_check d1 of
           Some e \<Rightarrow> (Some e, close_socket c d1)
         | None \<Rightarrow>
             let d2 = install c d1;
                 d3 = d2\<lparr> dx_health := health_valid_response now (health_connected now (dx_health d2)) \<rparr>
             in (None, publish_health_status now d3))"

text \<open>\<^verbatim>\<open>Close\<close>: the part under the mutex, and cancelling the context of the goroutines.\<close>

definition dx_close :: "dccex \<Rightarrow> dccex" where
  "dx_close d =
     (let d1 = d\<lparr> dx_closed := True, dx_conn := None \<rparr>
      in case dx_conn d of None \<Rightarrow> d1 | Some c \<Rightarrow> close_socket c d1)"

definition dx_cancel :: "dccex \<Rightarrow> dccex" where
  "dx_cancel d = d\<lparr> dx_cancelled := True \<rparr>"

definition record_valid_response :: "64 word \<Rightarrow> time \<Rightarrow> dccex \<Rightarrow> bool \<times> dccex" where
  "record_valid_response i now d =
     (if dx_closed d \<or> dx_conn d = None \<or> dx_connection_id d \<noteq> i then (False, d)
      else (True, d\<lparr> dx_health := health_valid_response now (dx_health d) \<rparr>))"

definition handle_frame :: "string \<Rightarrow> dccex \<Rightarrow> dccex" where
  "handle_frame frame d = (case frame_event frame of None \<Rightarrow> d | Some e \<Rightarrow> dx_publish e d)"

definition connection_lost :: "nat \<Rightarrow> 64 word \<Rightarrow> time \<Rightarrow> dccex \<Rightarrow> dccex" where
  "connection_lost c i now d =
     (if dx_conn d = None \<or> dx_connection_id d \<noteq> i then close_socket c d
      else
        let d1 = d\<lparr> dx_conn := None, dx_health := health_communication_error now (dx_health d) \<rparr>;
            start = (\<not> dx_closed d \<and> \<not> dx_reconnecting d);
            d2 = (if start then d1\<lparr> dx_reconnecting := True, dx_loops := dx_loops d1 + 1 \<rparr> else d1)
        in publish_health_status now (close_socket c d2))"

text \<open>The reading goroutine: one complete frame, and the end of its stream.\<close>

definition read_frame :: "nat \<times> 64 word \<Rightarrow> string \<Rightarrow> time \<Rightarrow> dccex \<Rightarrow> dccex" where
  "read_frame rd frame now d =
     (case record_valid_response (snd rd) now d of
        (False, d1) \<Rightarrow> d1\<lparr> dx_readers := remove1 rd (dx_readers d1) \<rparr>
      | (True, d1) \<Rightarrow> handle_frame frame d1)"

definition read_end :: "nat \<times> 64 word \<Rightarrow> time \<Rightarrow> dccex \<Rightarrow> dccex" where
  "read_end rd now d =
     (let d1 = connection_lost (fst rd) (snd rd) now d in d1\<lparr> dx_readers := remove1 rd (dx_readers d1) \<rparr>)"

text \<open>The reconnecting goroutine: a dial that succeeds, one that fails, and the end of its pause.\<close>

definition reconnect_ends :: "dccex \<Rightarrow> dccex" where
  "reconnect_ends d = d\<lparr> dx_reconnecting := False, dx_loops := dx_loops d - 1 \<rparr>"

definition reconnect_dialled :: "time \<Rightarrow> dccex \<Rightarrow> dccex" where
  "reconnect_dialled now d =
     (let (c, d1) = dial d
      in if dx_closed d1 \<or> dx_cancelled d1 then reconnect_ends (close_socket c d1)
         else
           let d2 = reconnect_ends (install c d1)
           in publish_health_status now (d2\<lparr> dx_health := health_valid_response now (dx_health d2) \<rparr>))"

definition reconnect_failed :: "time \<Rightarrow> dccex \<Rightarrow> dccex" where
  "reconnect_failed now d =
     (if dx_cancelled d then reconnect_ends d
      else publish_health_status now (d\<lparr> dx_health := health_communication_error now (dx_health d) \<rparr>))"

definition reconnect_pause_ends :: "time \<Rightarrow> dccex \<Rightarrow> dccex" where
  "reconnect_pause_ends now d = (if dx_cancelled d then reconnect_ends d else publish_health_status now d)"

text \<open>\<^verbatim>\<open>send\<close>: the connection is read under the mutex, the write comes after.\<close>

definition send_begin :: "string \<Rightarrow> dccex \<Rightarrow> station_error option \<times> dccex" where
  "send_begin text d =
     (case dx_conn d of
        None \<Rightarrow> (Some ErrOffline, d)
      | Some c \<Rightarrow> (None, d\<lparr> dx_writing := Some (c, dx_connection_id d, text) \<rparr>))"

definition send_end :: "bool \<Rightarrow> time \<Rightarrow> dccex \<Rightarrow> station_error option \<times> dccex" where
  "send_end written now d =
     (case dx_writing d of
        None \<Rightarrow> (None, d)
      | Some (c, i, text) \<Rightarrow>
          let d1 = d\<lparr> dx_writing := None \<rparr>
          in if written then (None, d1\<lparr> dx_written := dx_written d1 @ [(c, text)] \<rparr>)
             else (Some ErrOffline, connection_lost c i now d1))"

definition accessory_assumed :: "accessory_command \<Rightarrow> time \<Rightarrow> accessory_state_event" where
  "accessory_assumed c now =
     \<lparr> ev_address = ac_address c, ev_position = ac_position c, ev_state = ReportKnown,
       ev_quality = QualityAssumed, ev_observed_at = Some now \<rparr>"

text \<open>
  \<^verbatim>\<open>SetBasicAccessory\<close> up to its write, and after it: the state is reported as assumed only when
  the write has succeeded.
\<close>

definition set_basic_accessory_begin :: "accessory_command \<Rightarrow> dccex \<Rightarrow> station_error option \<times> dccex" where
  "set_basic_accessory_begin c d =
     (case accessory_text c of Inl e \<Rightarrow> (Some e, d) | Inr text \<Rightarrow> send_begin text d)"

definition set_basic_accessory_end :: "bool \<Rightarrow> accessory_command \<Rightarrow> time \<Rightarrow> dccex \<Rightarrow> station_error option \<times> dccex" where
  "set_basic_accessory_end written c now d =
     (case send_end written now d of
        (Some e, d1) \<Rightarrow> (Some e, d1)
      | (None, d1) \<Rightarrow> (None, dx_publish_accessory_state (accessory_assumed c now) d1))"

subsection \<open>Steps\<close>

text \<open>
  Goroutines take turns between the sections the mutex protects. A dial of \<^verbatim>\<open>Connect\<close> may
  succeed at any time; only a running goroutine takes its steps, and only one writer holds
  \<^verbatim>\<open>writeMu\<close>. When the writer takes over an accessory command it ends as one.
\<close>

inductive dx_step :: "dccex \<Rightarrow> dccex \<Rightarrow> bool" where
  step_connect: "dx_step d (snd (connect_dialled now d))"
| step_close: "dx_step d (dx_close d)"
| step_cancel: "dx_closed d \<Longrightarrow> dx_step d (dx_cancel d)"
| step_frame: "rd \<in> set (dx_readers d) \<Longrightarrow> dx_step d (read_frame rd frame now d)"
| step_read_end: "rd \<in> set (dx_readers d) \<Longrightarrow> dx_step d (read_end rd now d)"
| step_reconnected: "0 < dx_loops d \<Longrightarrow> dx_step d (reconnect_dialled now d)"
| step_reconnect_failed: "0 < dx_loops d \<Longrightarrow> dx_step d (reconnect_failed now d)"
| step_pause_ends: "0 < dx_loops d \<Longrightarrow> dx_step d (reconnect_pause_ends now d)"
| step_send: "dx_writing d = None \<Longrightarrow> dx_step d (snd (send_begin text d))"
| step_sent: "dx_step d (snd (send_end written now d))"
| step_accessory: "dx_step d (snd (set_basic_accessory_end written c now d))"
| step_consume: "dx_step d (d\<lparr> dx_feedback := drop m (dx_feedback d),
    dx_accessory_events := drop n (dx_accessory_events d), dx_status_events := drop k (dx_status_events d) \<rparr>)"

inductive dx_reachable :: "duration \<Rightarrow> dccex \<Rightarrow> bool" for offline_after where
  dx_start: "dx_reachable offline_after (new_dccex offline_after)"
| dx_next: "dx_reachable offline_after d \<Longrightarrow> dx_step d d' \<Longrightarrow> dx_reachable offline_after d'"

end
