(* ===== verification/DccExFacts.thy ===== *)
theory DccExFacts
  imports DccEx
begin

text \<open>
  What the DCC-EX driver guarantees: the frames it sees do not depend on how the stream is cut
  into reads, its messages are read back, and its connection is never lost for good before it is
  closed.
\<close>

subsection \<open>The frames of a stream\<close>

text \<open>
  The frames of a whole stream, without reads and buffers: the next frame if it ends within the
  next \<open>max_token\<close> bytes; otherwise nothing more, but for an unfinished frame at the end of a
  stream that is shorter.
\<close>

function frames_of :: "string \<Rightarrow> string list" where
  "frames_of s =
     (case split_frames (take max_token s) False of
        (adv, Some t) \<Rightarrow> t # frames_of (drop adv s)
      | (_, None) \<Rightarrow> if max_token \<le> length s then [] else case_option [] (\<lambda>t. [t]) (snd (split_frames s True)))"
  by pat_completeness auto
termination
  by (relation "measure length") (auto dest!: sym [of "(_, _)" "split_frames _ _"] split_frames_token)

declare frames_of.simps [simp del]

lemma index_byte_append: "index_byte c s = Some n \<Longrightarrow> index_byte c (s @ x) = Some n"
  by (auto simp: index_byte_def takeWhile_append split: if_splits)

lemma split_frames_append:
  assumes "split_frames b False = (adv, Some t)"
  shows "split_frames (b @ x) False = (adv, Some t)" and "adv \<le> length b"
proof -
  obtain k n where k: "index_byte (CHR ''<'') b = Some k" "index_byte (CHR ''>'') (drop k b) = Some n"
    and r: "adv = k + n + 1" "t = take (n + 1) (drop k b)"
    using assms by (auto simp: split_frames_def split: option.splits)
  have kn: "k < length b" "n < length (drop k b)" using k index_byte_less by blast+
  then have "index_byte (CHR ''>'') (drop k (b @ x)) = Some n" using index_byte_append [OF k(2), of x] by simp
  then show "split_frames (b @ x) False = (adv, Some t)"
    using index_byte_append [OF k(1), of x] kn r by (simp add: split_frames_def)
  show "adv \<le> length b" using kn r by simp
qed

lemma split_frames_Nil [simp]: "split_frames [] False = (0, None)" "split_frames [] True = (0, None)"
  by (simp_all add: split_frames_def index_byte_def)

lemma scan_loop_eof:
  assumes "split_frames buf False = (adv, None)"
  shows "scan_loop True buf [] = case_option [] (\<lambda>t. [t]) (snd (split_frames buf True))"
proof -
  have all: "fst (split_frames buf True) = length buf"
    using assms by (auto simp: split_frames_def split: option.splits)
  have nil: "scan_loop True [] [] = []" by (subst scan_loop.simps) simp
  obtain tok where tok: "split_frames buf True = (length buf, tok)" using all by (cases "split_frames buf True") simp
  show ?thesis by (subst scan_loop.simps) (simp add: tok nil split: option.split)
qed

lemma scan_loop_frames:
  "length buf \<le> max_token \<Longrightarrow> scan_loop False buf reads = frames_of (buf @ concat reads)"
proof (induction "length buf + 2 * sum_list (map length reads) + length reads" arbitrary: buf reads rule: less_induct)
  case less
  let ?s = "buf @ concat reads"
  have window: "take max_token ?s = buf @ take (max_token - length buf) (concat reads)" using less.prems by simp
  have split: "(if buf \<noteq> [] \<or> False then split_frames buf False else (0, None)) = split_frames buf False" by simp
  show ?case
  proof (cases "split_frames buf False")
    case (Pair adv tok)
    show ?thesis
    proof (cases tok)
      case (Some t)
      have "split_frames (take max_token ?s) False = (adv, Some t)" "adv \<le> length buf"
        unfolding window using split_frames_append Pair Some by blast+
      moreover from this have "frames_of ?s = t # frames_of (drop adv buf @ concat reads)"
        by (subst frames_of.simps) simp
      moreover have "scan_loop False (drop adv buf) reads = frames_of (drop adv buf @ concat reads)"
        using split_frames_token [of buf False adv t] Pair Some less.prems by (intro less.hyps) auto
      moreover have "scan_loop False buf reads = t # scan_loop False (drop adv buf) reads"
        using Pair Some by (subst scan_loop.simps) (cases "buf = []"; simp)
      ultimately show ?thesis by simp
    next
      case None
      then have none: "split_frames buf False = (0, None)" using Pair split_frames_no_token by auto
      show ?thesis
      proof (cases "max_token \<le> length buf")
        case True
        then have "take max_token ?s = buf" using less.prems by simp
        then have "frames_of ?s = []" using True none by (subst frames_of.simps) simp
        moreover have "scan_loop False buf reads = []" using True none by (subst scan_loop.simps) (cases "buf = []"; simp)
        ultimately show ?thesis by simp
      next
        case False
        show ?thesis
        proof (cases reads)
          case Nil
          have "scan_loop False buf reads = scan_loop True buf []"
            using False none Nil by (subst scan_loop.simps) (cases "buf = []"; simp)
          also have "\<dots> = frames_of buf"
            using False none scan_loop_eof [OF none] by (subst frames_of.simps) simp
          finally show ?thesis using Nil by simp
        next
          case (Cons c cs)
          let ?room = "max_token - length buf"
          let ?reads = "if length c \<le> ?room then cs else drop ?room c # cs"
          have "scan_loop False buf reads = scan_loop False (buf @ take ?room c) ?reads"
            using False none Cons by (subst scan_loop.simps) (cases "buf = []"; simp add: Let_def)
          also have "\<dots> = frames_of ((buf @ take ?room c) @ concat ?reads)"
            using False Cons less.prems by (intro less.hyps) auto
          also have "(buf @ take ?room c) @ concat ?reads = ?s"
            using Cons by (auto simp flip: append_assoc simp del: append_assoc) (metis append_assoc append_take_drop_id)
          finally show ?thesis .
        qed
      qed
    qed
  qed
qed

lemma scan_frames_of: "scan_frames reads = frames_of (concat reads)"
  using scan_loop_frames [of "[]" reads] by (simp add: scan_frames_def)

text \<open>What a frame in the stream looks like, with bytes before it that are no part of any frame.\<close>

lemma index_byte_at: "c \<notin> set a \<Longrightarrow> index_byte c (a @ c # r) = Some (length a)"
  by (simp add: index_byte_def takeWhile_append)

lemma split_frames_frame:
  assumes "CHR ''<'' \<notin> set junk" and "CHR ''>'' \<notin> set body"
  shows "split_frames (junk @ CHR ''<'' # body @ CHR ''>'' # r) False =
    (length junk + length body + 2, Some (CHR ''<'' # body @ [CHR ''>'']))"
  using assms index_byte_at [of "CHR ''<''" junk] index_byte_at [of "CHR ''>''" "CHR ''<'' # body"]
  by (simp add: split_frames_def)

lemma frames_of_frame:
  assumes "CHR ''<'' \<notin> set junk" and "CHR ''>'' \<notin> set body" and "length junk + length body + 2 \<le> max_token"
  shows "frames_of (junk @ CHR ''<'' # body @ CHR ''>'' # r) = (CHR ''<'' # body @ [CHR ''>'']) # frames_of r"
proof -
  let ?n = "length junk + length body + 2"
  have "take max_token (junk @ CHR ''<'' # body @ CHR ''>'' # r) =
      junk @ CHR ''<'' # body @ CHR ''>'' # take (max_token - ?n) r"
    using assms(3) by (simp add: take_Cons' numeral_2_eq_2)
  then have "split_frames (take max_token (junk @ CHR ''<'' # body @ CHR ''>'' # r)) False =
      (?n, Some (CHR ''<'' # body @ [CHR ''>'']))"
    using split_frames_frame [OF assms(1,2)] by simp
  moreover have "drop ?n (junk @ CHR ''<'' # body @ CHR ''>'' # r) = r" by simp
  ultimately show ?thesis by (subst frames_of.simps) simp
qed

lemma frames_of_junk:
  assumes "CHR ''<'' \<notin> set junk"
  shows "frames_of junk = []"
proof -
  have "CHR ''<'' \<notin> set (take max_token junk)" using assms by (auto dest: in_set_takeD)
  then show ?thesis
    using assms by (subst frames_of.simps) (simp add: split_frames_def index_byte_def)
qed

subsection \<open>Messages of sensors\<close>

datatype sensor_message = SensorActive int | SensorInactive int | SensorState int int

fun sensor_id :: "sensor_message \<Rightarrow> int" where
  "sensor_id (SensorActive i) = i"
| "sensor_id (SensorInactive i) = i"
| "sensor_id (SensorState i _) = i"

fun sensor_body :: "sensor_message \<Rightarrow> string" where
  "sensor_body (SensorActive i) = ''Q '' @ int_text i"
| "sensor_body (SensorInactive i) = ''q '' @ int_text i"
| "sensor_body (SensorState i s) = ''S '' @ int_text i @ '' '' @ int_text s"

definition sensor_text :: "sensor_message \<Rightarrow> string" where
  "sensor_text m = CHR ''<'' # sensor_body m @ CHR ''>'' # newline"

fun message_event :: "sensor_message \<Rightarrow> feedback_event" where
  "message_event (SensorActive i) = sensor_event i True"
| "message_event (SensorInactive i) = sensor_event i False"
| "message_event (SensorState i s) = sensor_event i (s \<noteq> 0)"

fun message_ok :: "sensor_message \<Rightarrow> bool" where
  "message_ok (SensorActive i) \<longleftrightarrow> 0 \<le> i \<and> i < 2 ^ 63"
| "message_ok (SensorInactive i) \<longleftrightarrow> 0 \<le> i \<and> i < 2 ^ 63"
| "message_ok (SensorState i s) \<longleftrightarrow> 0 \<le> i \<and> i < 2 ^ 63 \<and> 0 \<le> s \<and> s < 2 ^ 63"

lemma int_text_digits:
  assumes "0 \<le> i"
  shows "int_text i \<noteq> []" and "list_all is_digit (int_text i)"
  using assms nat_text_digits [of "nat i"] by (simp_all add: int_text_def)

lemma digit_not_blank: "is_digit c \<Longrightarrow> \<not> is_blank c \<and> \<not> is_space c \<and> c \<noteq> CHR ''<'' \<and> c \<noteq> CHR ''>'' \<and> c \<noteq> CHR '' ''"
  by (auto simp: is_digit_def is_blank_def is_space_def)

lemma scan_int_text:
  assumes i: "0 \<le> i" "i < 2 ^ 63" and c: "\<not> is_digit c"
  shows "scan_int (int_text i @ c # r) = Some (i, c # r)"
proof -
  obtain d ds where t: "int_text i = d # ds" using int_text_digits(1) [OF i(1)] by (cases "int_text i") auto
  have digits: "list_all is_digit (d # ds)" using int_text_digits(2) [OF i(1)] t by simp
  then have "dropWhile is_blank (int_text i @ c # r) = int_text i @ c # r"
    using digit_not_blank by (auto simp: t)
  moreover have "d \<noteq> CHR ''-''" "d \<noteq> CHR ''+''" using digits is_digit_sign by auto
  moreover have "takeWhile is_digit (int_text i @ c # r) = int_text i"
    using digits c by (subst takeWhile_append2) (auto simp: t list_all_iff)
  ultimately show ?thesis
    using atoi_int_text [OF i] by (simp add: scan_int_def t Let_def)
qed

lemma blank_space: "is_blank (CHR '' '')"
  by (simp add: is_blank_def is_space_def)

lemma not_digit: "\<not> is_digit (CHR ''>'')" "\<not> is_digit (CHR '' '')"
  by (simp_all add: is_digit_def)

lemma dropWhile_blank_text: "0 \<le> i \<Longrightarrow> dropWhile is_blank (int_text i @ r) = int_text i @ r"
  using int_text_digits [of i] digit_not_blank by (cases "int_text i") auto

lemmas scan_text = scan_int_text not_digit blank_space dropWhile_blank_text

lemma frame_event_message:
  assumes "message_ok m"
  shows "frame_event (CHR ''<'' # sensor_body m @ [CHR ''>'']) = Some (message_event m)"
  using assms by (cases m) (simp_all add: frame_event_def format_Q_def format_q_def format_S_def scan_text)

lemma length_nat_text: "n < 10 ^ k \<Longrightarrow> 0 < k \<Longrightarrow> length (nat_text n) \<le> k"
proof (induction k arbitrary: n)
  case (Suc k)
  show ?case
  proof (cases "n < 10")
    case True
    then show ?thesis by (subst nat_text.simps) simp
  next
    case False
    with Suc.prems have "n div 10 < 10 ^ k" "0 < k" by (auto intro!: Nat.gr0I)
    with Suc.IH have "length (nat_text (n div 10)) \<le> k" by blast
    then show ?thesis using False by (subst nat_text.simps) simp
  qed
qed simp

lemma length_int_text:
  assumes "0 \<le> i" and "i < 2 ^ 63"
  shows "length (int_text i) \<le> 19"
proof -
  have "nat i < 10 ^ 19" using assms by simp
  from length_nat_text [OF this] show ?thesis using assms by (simp add: int_text_def)
qed

lemma int_text_no_bracket: "0 \<le> i \<Longrightarrow> CHR ''<'' \<notin> set (int_text i) \<and> CHR ''>'' \<notin> set (int_text i)"
  using int_text_digits(2) [of i] digit_not_blank by (auto simp: list_all_iff)

lemma sensor_body_ok:
  assumes "message_ok m"
  shows "CHR ''>'' \<notin> set (sensor_body m)" and "length (sensor_body m) \<le> 41"
  using assms by (cases m; fastforce simp: int_text_no_bracket dest: length_int_text)+

lemma frames_of_messages:
  "list_all message_ok ms \<Longrightarrow> junk = [] \<or> junk = newline \<Longrightarrow>
   frames_of (junk @ concat (map sensor_text ms)) = map (\<lambda>m. CHR ''<'' # sensor_body m @ [CHR ''>'']) ms"
proof (induction ms arbitrary: junk)
  case Nil
  then show ?case by (auto intro!: frames_of_junk simp: newline_def)
next
  case (Cons m ms)
  have "junk @ concat (map sensor_text (m # ms)) =
      junk @ CHR ''<'' # sensor_body m @ CHR ''>'' # newline @ concat (map sensor_text ms)"
    by (simp add: sensor_text_def)
  moreover have "length junk \<le> 1" "CHR ''<'' \<notin> set junk" using Cons.prems by (auto simp: newline_def)
  ultimately show ?case
    using Cons.IH [of newline] Cons.prems frames_of_frame [of junk "sensor_body m"] sensor_body_ok [of m]
    by (simp add: max_token_def)
qed

lemma trim_space_frame: "trim_space (CHR ''<'' # body @ [CHR ''>'']) = CHR ''<'' # body @ [CHR ''>'']"
  by (simp add: trim_space_def is_space_def)

lemma sensor_stream_frames:
  assumes "list_all message_ok ms" and "concat reads = concat (map sensor_text ms)"
  shows "map frame_event (handled_frames reads) = map (\<lambda>m. Some (message_event m)) ms"
proof -
  let ?f = "\<lambda>m. CHR ''<'' # sensor_body m @ [CHR ''>'']"
  have "scan_frames reads = map ?f ms" using frames_of_messages [OF assms(1), of "[]"] assms(2) by (simp add: scan_frames_of)
  then have "handled_frames reads = map ?f ms"
    by (simp add: handled_frames_def trim_space_frame comp_def complete_frame_def filter_True)
  then show ?thesis using assms(1) by (simp add: frame_event_message list_all_iff)
qed

subsection \<open>Commands are frames the station reads\<close>

definition format_accessory :: "scan_item list" where
  "format_accessory = [ScanChar (CHR ''<''), ScanChar (CHR ''a''), ScanSpace, ScanInt, ScanSpace, ScanInt, ScanChar (CHR ''>'')]"

definition format_speed :: "scan_item list" where
  "format_speed = [ScanChar (CHR ''<''), ScanChar (CHR ''t''), ScanSpace, ScanInt, ScanSpace, ScanInt, ScanSpace, ScanInt,
     ScanChar (CHR ''>'')]"

lemma accessory_text_read:
  assumes "accessory_command_validate c = None"
  shows "\<exists>text. accessory_text c = Inr (text @ newline) \<and>
    sscanf format_accessory text = Some [ac_address c, if ac_position c = Position2 then 1 else 0]"
proof -
  let ?p = "if ac_position c = Position2 then 1 else (0 :: int)"
  have a: "0 \<le> ac_address c" "ac_address c < 2 ^ 63" using assms by (simp_all add: accessory_command_validate_None)
  have p: "0 \<le> ?p" "?p < 2 ^ 63" by simp_all
  show ?thesis
    by (intro exI [of _ "''<a '' @ int_text (ac_address c) @ '' '' @ int_text ?p @ ''>''"])
      (use a p in \<open>simp add: accessory_text_def assms format_accessory_def scan_text del: of_nat_numeral\<close>)
qed

lemma speed_command_read:
  assumes p: "0 \<le> p" "p \<le> 100" and a: "0 \<le> a" "a < 2 ^ 63" and dir: "direction_valid dir"
  shows "\<exists>text. speed_command a (station_speed p) dir = Inr (text @ newline) \<and>
    sscanf format_speed text = Some [a, (252 * p + 100) div 200, if dir = Forward then 1 else 0]"
proof -
  have "0 \<le> (252 * p + 100) div 200" "(252 * p + 100) div 200 < 2 ^ 63" using p by auto
  then show ?thesis
    using a dir percentage_in_range [OF p] scaled_speed_126 [OF p]
    by (auto simp: speed_command_def format_speed_def scan_text)
qed

subsection \<open>The life of the connection\<close>

definition users_of :: "(nat \<times> 64 word) list \<Rightarrow> (nat \<times> 64 word \<times> string) option \<Rightarrow> (nat \<times> 64 word) set" where
  "users_of readers writing = set readers \<union> (case writing of None \<Rightarrow> {} | Some (c, i, _) \<Rightarrow> {(c, i)})"

lemma users_of_simps [simp]:
  "users_of [] None = {}"
  "users_of (r # readers) w = insert r (users_of readers w)"
  "users_of readers (Some (c, i, t)) = insert (c, i) (users_of readers None)"
  by (auto simp: users_of_def split: option.split)

lemma users_of_less: "x \<in> users_of (remove1 r readers) w \<Longrightarrow> x \<in> users_of readers w" "x \<in> users_of readers None \<Longrightarrow> x \<in> users_of readers w"
  by (auto simp: users_of_def dest: in_set_remove1 [THEN iffD1, rotated] set_remove1_subset [THEN subsetD] split: option.split)

lemma users_of_in: "r \<in> set readers \<Longrightarrow> r \<in> users_of readers w"
  by (simp add: users_of_def)

definition dx_inv :: "dccex \<Rightarrow> bool" where
  "dx_inv d \<longleftrightarrow>
     (dx_closed d \<longrightarrow> dx_conn d = None) \<and> (dx_cancelled d \<longrightarrow> dx_closed d) \<and>
     dx_loops d = (if dx_reconnecting d then 1 else 0) \<and>
     (\<forall>c. dx_conn d = Some c \<longrightarrow> (c, dx_connection_id d) \<in> set (dx_readers d) \<and> c \<in> set (dx_open d) \<and> c < dx_dialled d) \<and>
     (\<forall>c i. (c, i) \<in> users_of (dx_readers d) (dx_writing d) \<longrightarrow> c < dx_dialled d \<and> (dx_conn d = Some c \<longrightarrow> i = dx_connection_id d)) \<and>
     (dx_conn d = None \<longrightarrow> dx_closed d \<or> dx_dialled d = 0 \<or> dx_reconnecting d)"

text \<open>What the invariant looks at.\<close>

definition dx_core :: "dccex \<Rightarrow> _" where
  "dx_core d = ((dx_conn d, dx_connection_id d, dx_reconnecting d, dx_closed d, dx_cancelled d),
     dx_readers d, dx_loops d, dx_dialled d, dx_open d, dx_writing d)"

lemma dx_inv_core: "dx_core d' = dx_core d \<Longrightarrow> dx_inv d \<Longrightarrow> dx_inv d'"
  by (simp add: dx_inv_def dx_core_def)

lemma publish_health_status_core [simp]: "dx_core (publish_health_status now d) = dx_core d"
  by (simp add: publish_health_status_def dx_core_def Let_def)

lemma handle_frame_core [simp]: "dx_core (handle_frame f d) = dx_core d"
  by (simp add: handle_frame_def dx_publish_def dx_core_def split: option.split)

lemma record_valid_response_core: "dx_core (snd (record_valid_response i now d)) = dx_core d"
  by (simp add: record_valid_response_def dx_core_def)

lemma publish_health_inv: "dx_inv d \<Longrightarrow> dx_inv (publish_health_status now d)"
  by (rule dx_inv_core) simp_all

lemma install_inv:
  assumes "dx_inv d" and "\<not> dx_closed d"
  shows "dx_inv (install (dx_dialled d) (snd (dial d)))"
proof -
  have users: "c < dx_dialled d" if "(c, i) \<in> users_of (dx_readers d) (dx_writing d)" for c i
    using assms(1) that by (auto simp: dx_inv_def)
  have "dx_loops d = (if dx_reconnecting d then 1 else 0)" "\<not> dx_cancelled d"
    using assms by (simp_all add: dx_inv_def)
  then show ?thesis
    using assms(2) by (auto simp: dx_inv_def install_def dial_def Let_def less_Suc_eq dest: users)
qed

lemma close_dialled_inv:
  "dx_inv d \<Longrightarrow> dx_closed d \<or> dx_conn d \<noteq> None \<Longrightarrow> dx_inv (close_socket (dx_dialled d) (snd (dial d)))"
  by (auto simp: dx_inv_def dial_def close_socket_def less_Suc_eq)

lemma reconnect_ends_inv:
  "dx_inv d \<Longrightarrow> dx_closed d \<or> dx_conn d \<noteq> None \<Longrightarrow> dx_inv (reconnect_ends d)"
  by (auto simp: dx_inv_def reconnect_ends_def split: if_splits)

lemma connect_check_dial: "connect_check (d\<lparr> dx_dialled := n, dx_open := cs \<rparr>) = connect_check d"
  by (simp add: connect_check_def)

lemma connect_dialled_inv:
  assumes "dx_inv d"
  shows "dx_inv (snd (connect_dialled now d))"
proof (cases "connect_check d")
  case None
  let ?d2 = "install (dx_dialled d) (snd (dial d))"
  have "dx_inv ?d2" using assms None by (intro install_inv) (auto simp: connect_check_def split: if_splits)
  then have "dx_inv (?d2\<lparr> dx_health := health_valid_response now (health_connected now (dx_health ?d2)) \<rparr>)"
    by (rule dx_inv_core [rotated]) (simp add: dx_core_def)
  then show ?thesis
    using None publish_health_inv by (simp add: connect_dialled_def dial_def connect_check_dial Let_def)
next
  case (Some e)
  then have "dx_closed d \<or> dx_conn d \<noteq> None" by (auto simp: connect_check_def split: if_splits)
  with Some show ?thesis using close_dialled_inv [OF assms] by (simp add: connect_dialled_def connect_check_dial dial_def)
qed

lemma connection_lost_inv:
  assumes inv: "dx_inv d" and rd: "(c, i) \<in> users_of (dx_readers d) (dx_writing d)"
  shows "dx_inv (connection_lost c i now d)"
proof (cases "dx_conn d = None \<or> dx_connection_id d \<noteq> i")
  case True
  then show ?thesis
    using inv rd by (auto simp: connection_lost_def dx_inv_def close_socket_def)
next
  case False
  define d1 where "d1 = d\<lparr> dx_conn := None, dx_health := health_communication_error now (dx_health d),
    dx_reconnecting := (\<not> dx_closed d \<or> dx_reconnecting d), dx_loops := (if \<not> dx_closed d \<or> dx_reconnecting d then 1 else 0) \<rparr>"
  have closed: "\<not> dx_closed d" using inv False by (auto simp: dx_inv_def)
  have "dx_core (connection_lost c i now d) = dx_core (close_socket c d1)"
    using False closed inv
    by (auto simp: connection_lost_def Let_def d1_def dx_core_def close_socket_def publish_health_status_def dx_inv_def)
  moreover have "dx_inv (close_socket c d1)"
    using inv closed by (auto simp: d1_def dx_inv_def close_socket_def)
  ultimately show ?thesis by (rule dx_inv_core)
qed

lemma connection_lost_same: "dx_readers (connection_lost c i now d) = dx_readers d \<and> dx_writing (connection_lost c i now d) = dx_writing d"
  by (simp add: connection_lost_def close_socket_def publish_health_status_def Let_def)

lemma remove_reader_inv:
  assumes "dx_inv d" and "\<forall>c. dx_conn d = Some c \<longrightarrow> rd \<noteq> (c, dx_connection_id d)"
  shows "dx_inv (d\<lparr> dx_readers := remove1 rd (dx_readers d) \<rparr>)"
  using assms by (fastforce simp: dx_inv_def in_set_remove1 dest: users_of_less)

lemma read_frame_inv:
  assumes inv: "dx_inv d" and rd: "rd \<in> set (dx_readers d)"
  shows "dx_inv (read_frame rd frame now d)"
proof (cases "fst (record_valid_response (snd rd) now d)")
  case True
  then show ?thesis
    using dx_inv_core [OF record_valid_response_core inv, of "snd rd" now]
    by (auto simp: read_frame_def split: prod.split intro: dx_inv_core [OF handle_frame_core])
next
  case False
  then have "\<forall>c. dx_conn d = Some c \<longrightarrow> rd \<noteq> (c, dx_connection_id d)"
    using inv by (auto simp: record_valid_response_def dx_inv_def split: if_splits)
  then show ?thesis
    using False remove_reader_inv [OF inv] by (auto simp: read_frame_def record_valid_response_def split: if_splits)
qed

lemma read_end_inv:
  assumes inv: "dx_inv d" and rd: "rd \<in> set (dx_readers d)"
  shows "dx_inv (read_end rd now d)"
proof -
  obtain c i where ci: "rd = (c, i)" by fastforce
  have "dx_inv (connection_lost c i now d)" using inv rd ci by (intro connection_lost_inv) (simp_all add: users_of_in)
  moreover have "\<forall>k. dx_conn (connection_lost c i now d) = Some k \<longrightarrow> rd \<noteq> (k, dx_connection_id (connection_lost c i now d))"
    by (auto simp: connection_lost_def close_socket_def publish_health_status_def Let_def ci split: if_splits)
  ultimately show ?thesis by (simp add: read_end_def ci Let_def remove_reader_inv)
qed

lemma reconnect_dialled_inv:
  assumes "dx_inv d"
  shows "dx_inv (reconnect_dialled now d)"
proof (cases "dx_closed d \<or> dx_cancelled d")
  case True
  then have "dx_closed d" using assms by (auto simp: dx_inv_def)
  moreover from this have "dx_closed (close_socket (dx_dialled d) (snd (dial d)))" by (simp add: close_socket_def dial_def)
  ultimately show ?thesis
    using close_dialled_inv [OF assms] reconnect_ends_inv by (simp add: reconnect_dialled_def dial_def)
next
  case False
  let ?d2 = "reconnect_ends (install (dx_dialled d) (snd (dial d)))"
  have "dx_inv ?d2" using install_inv [OF assms] False by (intro reconnect_ends_inv) (simp_all add: install_def Let_def)
  then have "dx_inv (?d2\<lparr> dx_health := health_valid_response now (dx_health ?d2) \<rparr>)"
    by (rule dx_inv_core [rotated]) (simp add: dx_core_def)
  then show ?thesis using False publish_health_inv by (simp add: reconnect_dialled_def dial_def Let_def)
qed

lemma health_error_inv: "dx_inv d \<Longrightarrow> dx_inv (d\<lparr> dx_health := h \<rparr>)"
  by (rule dx_inv_core [rotated]) (simp_all add: dx_core_def)

lemma reconnect_other_inv:
  assumes "dx_inv d"
  shows "dx_inv (reconnect_failed now d)" and "dx_inv (reconnect_pause_ends now d)"
proof -
  have "dx_inv (reconnect_ends d)" if "dx_cancelled d"
    using that assms by (intro reconnect_ends_inv) (simp_all add: dx_inv_def)
  then show "dx_inv (reconnect_failed now d)" and "dx_inv (reconnect_pause_ends now d)"
    using publish_health_inv health_error_inv assms by (simp_all add: reconnect_failed_def reconnect_pause_ends_def)
qed

lemma writing_done_inv: "dx_inv d \<Longrightarrow> dx_inv (d\<lparr> dx_writing := None \<rparr>)"
  by (auto simp: dx_inv_def dest: users_of_less(2))

lemma send_begin_inv: "dx_inv d \<Longrightarrow> dx_inv (snd (send_begin text d))"
  by (auto simp: send_begin_def dx_inv_def users_of_in dest: users_of_less(2) split: option.splits)

lemma send_end_inv:
  assumes inv: "dx_inv d"
  shows "dx_inv (snd (send_end written now d))"
proof (cases "dx_writing d")
  case (Some w)
  obtain c i msg where w: "w = (c, i, msg)" by (cases w)
  let ?d1 = "d\<lparr> dx_writing := None \<rparr>"
  have "dx_inv (connection_lost c i now d)" using inv Some w by (intro connection_lost_inv) simp_all
  moreover have "connection_lost c i now ?d1 = (connection_lost c i now d)\<lparr> dx_writing := None \<rparr>"
    by (simp add: connection_lost_def close_socket_def publish_health_status_def Let_def)
  ultimately have "dx_inv (connection_lost c i now ?d1)" by (simp add: writing_done_inv)
  moreover have "dx_inv (?d1\<lparr> dx_written := x \<rparr>)" for x
    by (rule dx_inv_core [OF _ writing_done_inv [OF inv]]) (simp add: dx_core_def)
  ultimately show ?thesis using Some w by (simp add: send_end_def Let_def)
qed (use inv in \<open>simp add: send_end_def\<close>)

lemma accessory_end_inv:
  assumes "dx_inv d"
  shows "dx_inv (snd (set_basic_accessory_end written c now d))"
proof -
  have "dx_inv (dx_publish_accessory_state e x)" if "dx_inv x" for e x
    using that by (rule dx_inv_core [rotated]) (simp add: dx_publish_accessory_state_def dx_core_def)
  then show ?thesis
    using send_end_inv [OF assms, of written now] by (auto simp: set_basic_accessory_end_def split: prod.split option.split)
qed

lemma dx_close_inv: "dx_inv d \<Longrightarrow> dx_inv (dx_close d)"
  by (auto simp: dx_inv_def dx_close_def close_socket_def Let_def split: option.splits)

lemma dx_step_inv: "dx_step d d' \<Longrightarrow> dx_inv d \<Longrightarrow> dx_inv d'"
proof (induction rule: dx_step.induct)
  case (step_cancel d)
  then show ?case by (auto simp: dx_inv_def dx_cancel_def)
next
  case (step_consume d m n k)
  then show ?case by (rule dx_inv_core [rotated]) (simp add: dx_core_def)
qed (simp_all add: connect_dialled_inv dx_close_inv read_frame_inv read_end_inv reconnect_dialled_inv reconnect_other_inv
      send_begin_inv send_end_inv accessory_end_inv)

lemma dx_reachable_inv: "dx_reachable off d \<Longrightarrow> dx_inv d"
  by (induction rule: dx_reachable.induct)
    (auto intro: dx_step_inv, simp add: dx_inv_def new_dccex_def)

subsection \<open>Properties\<close>

text \<open>
  C34: The scanner of the read loop, with its buffer, its reads of any size and its split
  function that may ask for more, refines the function that cuts a whole stream into frames: how
  the bytes arrive changes nothing.
\<close>

theorem dccex_scan_refines: "scan_frames reads = frames_of (concat reads)"
  by (rule scan_frames_of)

text \<open>
  Sensor messages the station sends, however the network cuts them into reads, are turned
  into exactly the feedback events they stand for, in their order.
\<close>

theorem dccex_sensor_stream_read:
  assumes "list_all message_ok ms" and "concat reads = concat (map sensor_text ms)"
  shows "map frame_event (handled_frames reads) = map (\<lambda>m. Some (message_event m)) ms"
  by (rule sensor_stream_frames [OF assms])

theorem dccex_sensor_stream_read_witness:
  "map frame_event (handled_frames [''<'', ''Q 7>'' @ newline @ ''<S 12 '', ''0>'' @ newline]) =
     [Some (sensor_event 7 True), Some (sensor_event 12 False)]"
proof -
  have "digit 7 = CHR ''7''" "digit 1 = CHR ''1''" "digit 2 = CHR ''2''" "digit 0 = CHR ''0''" by code_simp+
  then show ?thesis
    using dccex_sensor_stream_read [of "[SensorActive 7, SensorState 12 0]" "[''<'', ''Q 7>'' @ newline @ ''<S 12 '', ''0>'' @ newline]"]
    by (simp add: sensor_text_def int_text_def nat_text.simps)
qed

text \<open>
  What the driver writes for an accessory or a speed is a line the station reads back as the
  very command: the address, the output of the position, the speed step closest to the percentage
  of the client, and the direction; nothing is written for an invalid command.
\<close>

theorem dccex_commands_read:
  "(case accessory_command_validate c of
      Some e \<Rightarrow> accessory_text c = Inl e
    | None \<Rightarrow> \<exists>text. accessory_text c = Inr (text @ newline) \<and>
        sscanf format_accessory text = Some [ac_address c, if ac_position c = Position2 then 1 else 0]) \<and>
   (0 \<le> p \<and> p \<le> 100 \<and> 0 \<le> a \<and> a < 2 ^ 63 \<longrightarrow>
     (if direction_valid dir
      then \<exists>text. speed_command a (station_speed p) dir = Inr (text @ newline) \<and>
        sscanf format_speed text = Some [a, (252 * p + 100) div 200, if dir = Forward then 1 else 0]
      else speed_command a (station_speed p) dir = Inl ErrUnsupported))"
proof (intro conjI impI)
  show "case accessory_command_validate c of
      Some e \<Rightarrow> accessory_text c = Inl e
    | None \<Rightarrow> \<exists>text. accessory_text c = Inr (text @ newline) \<and>
        sscanf format_accessory text = Some [ac_address c, if ac_position c = Position2 then 1 else 0]"
    using accessory_text_read [of c] by (cases "accessory_command_validate c") (simp_all add: accessory_text_def)
  assume "0 \<le> p \<and> p \<le> 100 \<and> 0 \<le> a \<and> a < 2 ^ 63"
  then show "if direction_valid dir
      then \<exists>text. speed_command a (station_speed p) dir = Inr (text @ newline) \<and>
        sscanf format_speed text = Some [a, (252 * p + 100) div 200, if dir = Forward then 1 else 0]
      else speed_command a (station_speed p) dir = Inl ErrUnsupported"
    using speed_command_read [of p a dir] percentage_in_range [of p] by (auto simp: speed_command_def)
qed

theorem dccex_commands_read_witness:
  "\<exists>text. speed_command 3 (station_speed 50) Forward = Inr (text @ newline) \<and> sscanf format_speed text = Some [3, 63, 1]"
  using dccex_commands_read [of "\<lparr> ac_address = 1, ac_position = Position1 \<rparr>" 50 3 Forward] by simp

text \<open>
  C10: Until it is closed a driver that has once been connected always has a connection that is
  open and being read, or exactly one goroutine that tries to reconnect and whose next successful
  dial restores the connection.
\<close>

theorem dccex_never_stuck:
  assumes "dx_reachable off d" and "\<not> dx_closed d" and "dx_dialled d \<noteq> 0"
  shows "(\<exists>c. dx_conn d = Some c \<and> c \<in> set (dx_open d) \<and> (c, dx_connection_id d) \<in> set (dx_readers d)) \<or>
    dx_conn d = None \<and> dx_loops d = 1 \<and> dx_step d (reconnect_dialled now d) \<and>
    dx_conn (reconnect_dialled now d) = Some (dx_dialled d)"
proof (cases "dx_conn d")
  case None
  then have "dx_loops d = 1" "\<not> dx_cancelled d"
    using assms dx_reachable_inv [OF assms(1)] by (auto simp: dx_inv_def)
  then show ?thesis
    using None assms(2) step_reconnected [of d now]
    by (simp add: reconnect_dialled_def dial_def install_def reconnect_ends_def publish_health_status_def Let_def)
next
  case (Some c)
  then show ?thesis using dx_reachable_inv [OF assms(1)] by (simp add: dx_inv_def)
qed

theorem dccex_never_stuck_witness:
  "dx_conn (snd (connect_dialled 0 (new_dccex 10))) = Some 0 \<and>
   0 \<in> set (dx_open (snd (connect_dialled 0 (new_dccex 10)))) \<and>
   (let d = read_end (0, 1) 0 (snd (connect_dialled 0 (new_dccex 10)))
    in dx_conn d = None \<and> dx_loops d = 1 \<and> dx_conn (reconnect_dialled 5 d) = Some 1)"
proof -
  let ?d1 = "snd (connect_dialled 0 (new_dccex 10))"
  let ?d2 = "read_end (0, 1) 0 ?d1"
  note defs = connect_dialled_def connect_check_def dial_def install_def new_dccex_def read_end_def connection_lost_def
    publish_health_status_def close_socket_def Let_def
  have r1: "dx_reachable 10 ?d1" by (rule dx_next [OF dx_start step_connect])
  have "dx_step ?d1 ?d2" by (rule step_read_end) (simp add: defs)
  with r1 have r2: "dx_reachable 10 ?d2" by (rule dx_next)
  show ?thesis
    using dccex_never_stuck [OF r1, of 0] dccex_never_stuck [OF r2, of 5] by (simp add: defs)
qed

text \<open>
  \<^verbatim>\<open>Connect\<close> does not look whether the driver is already reconnecting. When it succeeds
  meanwhile, the reconnecting goroutine replaces the new connection by its own without closing it:
  after \<^verbatim>\<open>Close\<close> a socket is still open, and \<^verbatim>\<open>Close\<close> waits for the goroutine that reads it.
\<close>

theorem dccex_orphaned_connection:
  "\<exists>d c i. dx_reachable off d \<and> dx_closed d \<and> dx_cancelled d \<and> dx_conn d = None \<and> dx_loops d = 0 \<and>
     c \<in> set (dx_open d) \<and> (c, i) \<in> set (dx_readers d)"
proof -
  let ?d1 = "snd (connect_dialled 0 (new_dccex off))"
  let ?d2 = "read_end (0, 1) 0 ?d1"
  let ?d3 = "snd (connect_dialled 0 ?d2)"
  let ?d4 = "reconnect_dialled 0 ?d3"
  let ?d6 = "dx_cancel (dx_close ?d4)"
  let ?d7 = "read_end (2, 3) 0 ?d6"
  note defs = connect_dialled_def connect_check_def dial_def install_def new_dccex_def read_end_def connection_lost_def
    publish_health_status_def close_socket_def reconnect_dialled_def reconnect_ends_def dx_close_def dx_cancel_def Let_def
  have "dx_step ?d1 ?d2" by (rule step_read_end) (simp add: defs)
  moreover have "dx_step ?d3 ?d4" by (rule step_reconnected) (simp add: defs)
  moreover have "dx_step (dx_close ?d4) ?d6" by (rule step_cancel) (simp add: defs)
  moreover have "dx_step ?d6 ?d7" by (rule step_read_end) (simp add: defs)
  ultimately have "dx_reachable off ?d7"
    by (meson dx_start dx_next step_connect step_close)
  moreover have "dx_closed ?d7 \<and> dx_cancelled ?d7 \<and> dx_conn ?d7 = None \<and> dx_loops ?d7 = 0 \<and>
      1 \<in> set (dx_open ?d7) \<and> (1, 2) \<in> set (dx_readers ?d7)"
    by (simp add: defs)
  ultimately show ?thesis by blast
qed

end
