(* ===== verification/Drivers.thy ===== *)
theory Drivers
  imports Z21Facts DccExFacts
begin

text \<open>
  What both drivers make of the percentage a client sends: the byte of a z21 packet and the step
  of a DCC-EX command.
\<close>

lemma speed_byte_value:
  assumes "0 \<le> s" and "s \<le> 126"
  shows "uint (word_of_int s :: byte) = s" and "uint ((word_of_int s :: byte) OR 0x80) = s + 128"
proof -
  have "nat s \<in> set [0..<127]" using assms by auto
  moreover have "list_all (\<lambda>n. uint (word_of_int (int n) :: byte) = int n \<and> uint ((word_of_int (int n) :: byte) OR 0x80) = int n + 128) [0..<127]"
    by (simp add: upt_rec)
  ultimately have "uint (word_of_int (int (nat s)) :: byte) = int (nat s) \<and> uint ((word_of_int (int (nat s)) :: byte) OR 0x80) = int (nat s) + 128"
    by (simp only: list_all_iff)
  then show "uint (word_of_int s :: byte) = s" and "uint ((word_of_int s :: byte) OR 0x80) = s + 128" using assms by simp_all
qed

definition z21_raw_speed :: "int \<Rightarrow> int" where
  "z21_raw_speed p = (if p = 0 then 0 else (5 * p + 2) div 4 + 1)"

lemma z21_speed_byte_value:
  assumes p: "0 \<le> p" "p \<le> 100"
  shows "uint (z21_speed_byte (station_speed p) dir) = (if dir = Forward then 128 else 0) + z21_raw_speed p"
proof -
  have raw: "(word_of_int (scaled_speed (station_speed p) 125) + 1 :: byte) = word_of_int ((5 * p + 2) div 4 + 1)"
    by (simp add: scaled_speed_125 [OF p])
  have "0 \<le> (5 * p + 2) div 4 + 1" "(5 * p + 2) div 4 + 1 \<le> 126" using p by auto
  note speed_byte_value [OF this]
  then show ?thesis
    using p percentage_in_range(2) [OF p] speed_byte_value [of 0]
    by (simp add: z21_speed_byte_def z21_raw_speed_def Let_def raw)
qed

text \<open>
  C37: A higher percentage is always a higher speed on the track, in both drivers, with all the
  roundings of the float64 arithmetic. Zero is exactly the ordinary stop, no percentage is the
  emergency stop of the z21 protocol (1), and the steps stay within the byte and the range of the
  command; the highest z21 step that is ever sent is 126.
\<close>

theorem driver_speeds:
  assumes "0 \<le> p" and "p < q" and "q \<le> 100"
  shows "uint (z21_speed_byte (station_speed p) Reverse) \<noteq> 1 \<and> uint (z21_speed_byte (station_speed p) Forward) \<noteq> 129 \<and>
    uint (z21_speed_byte (station_speed p) Reverse) < uint (z21_speed_byte (station_speed q) Reverse) \<and>
    uint (z21_speed_byte (station_speed q) Reverse) \<le> 126 \<and>
    uint (z21_speed_byte (station_speed q) Forward) = 128 + uint (z21_speed_byte (station_speed q) Reverse) \<and>
    (uint (z21_speed_byte (station_speed p) Reverse) = 0 \<longleftrightarrow> p = 0) \<and>
    scaled_speed (station_speed p) 126 < scaled_speed (station_speed q) 126 \<and>
    scaled_speed (station_speed q) 126 \<le> 126 \<and> (scaled_speed (station_speed p) 126 = 0 \<longleftrightarrow> p = 0)"
proof -
  have p: "0 \<le> p" "p \<le> 100" and q: "0 \<le> q" "q \<le> 100" using assms by simp_all
  have "(5 * p + 2 + 4) div 4 \<le> (5 * q + 2) div 4" "(252 * p + 100 + 200) div 200 \<le> (252 * q + 100) div 200"
    using assms by (auto intro!: zdiv_mono1)
  then have step: "(5 * p + 2) div 4 < (5 * q + 2) div 4" "(252 * p + 100) div 200 < (252 * q + 100) div 200" by simp_all
  have bounds: "(252 * q + 100) div 200 \<le> 126" "(5 * q + 2) div 4 \<le> 125" "0 \<le> (5 * p + 2) div 4"
    using assms by auto
  have zero: "(252 * p + 100) div 200 = 0 \<longleftrightarrow> p = 0" "(5 * p + 2) div 4 = 0 \<longleftrightarrow> p = 0"
    using assms by (auto simp: zdiv_eq_0_iff)
  then show ?thesis
    using assms step bounds zero unfolding z21_speed_byte_value [OF p] z21_speed_byte_value [OF q] scaled_speed_126 [OF p] scaled_speed_126 [OF q]
    by (simp add: z21_raw_speed_def)
qed

theorem driver_speeds_witness:
  "uint (z21_speed_byte (station_speed 0) Reverse) = 0 \<and>
   uint (z21_speed_byte (station_speed 0) Reverse) < uint (z21_speed_byte (station_speed 100) Reverse)"
  using driver_speeds [of 0 100] by simp

end
