(* ===== verification/Simulator.thy ===== *)
theory Simulator
  imports Speeds
begin

text \<open>
  The simulated command station, \<^verbatim>\<open>internal/station/simulator/simulator.go\<close>: locomotives,
  accessories with configurable behaviour, feedback, injected faults, and the epochs by which a
  command that is under way notices that the simulator was closed, reset or reconfigured. A
  command takes the mutex twice, when it is admitted and when it takes effect; the two sections
  are separate definitions, and so is what happens between them. The instant the clock shows and
  the order in which Go iterates over the scheduled reports are arguments. The buffered channels
  are lists that never exceed their capacity. Texts and times are values here, so the functions
  that clone them are the identity.
\<close>

subsection \<open>Data\<close>

record loco_state =
  lo_speed :: double
  lo_direction :: direction
  lo_functions :: "(int, bool) gomap"

type_synonym operation = string

definition OpStatus :: operation where "OpStatus = ''status''"
definition OpTrackPower :: operation where "OpTrackPower = ''track_power''"
definition OpEmergencyStop :: operation where "OpEmergencyStop = ''emergency_stop''"
definition OpThrottle :: operation where "OpThrottle = ''throttle''"
definition OpFunction :: operation where "OpFunction = ''function''"
definition OpAccessory :: operation where "OpAccessory = ''accessory''"

definition valid_operation :: "operation \<Rightarrow> bool" where
  "valid_operation op \<longleftrightarrow> op \<in> set [OpStatus, OpTrackPower, OpEmergencyStop, OpThrottle, OpFunction, OpAccessory]"

text \<open>An injected error is known by its text.\<close>

record operation_fault =
  of_delay :: duration
  of_error :: "string option"
  of_remaining :: int
  of_address :: int
  of_every :: int
  of_seen :: int

type_synonym feedback_key = "string \<times> string \<times> int"

record feedback_transition =
  ft_delay :: duration
  ft_active :: bool

datatype behavior_mode = BehaviorImmediate | BehaviorDelayed | BehaviorNoConfirmation | BehaviorInconsistent | BehaviorOther string

record accessory_behavior =
  ab_mode :: behavior_mode
  ab_delay :: duration
  ab_reported_position :: accessory_position

record accessory_state =
  as_desired :: accessory_position
  as_reported :: accessory_position
  as_pending :: bool
  as_last_command_at :: "time option"
  as_last_report_at :: "time option"

record electrical_state =
  el_main_current :: "16 word"
  el_programming_current :: "16 word"
  el_filtered_main_current :: "16 word"
  el_temperature :: "16 word"
  el_supply_voltage :: "16 word"
  el_track_voltage :: "16 word"
  el_programming_mode :: bool
  el_high_temperature :: bool
  el_power_lost :: bool
  el_external_short_circuit :: bool
  el_internal_short_circuit :: bool

record scheduled_report =
  sr_position :: accessory_position
  sr_due_at :: time
  sr_generation :: "64 word"

record sim_state =
  ss_connected :: bool
  ss_connectivity :: connectivity
  ss_last_seen :: "time option"
  ss_track_power :: bool
  ss_emergency_stop :: bool
  ss_locomotives :: "(int, loco_state) gomap"
  ss_accessories :: "(int, accessory_state) gomap"
  ss_electrical :: electrical_state
  ss_feedback_states :: "(feedback_key, bool) gomap"
  ss_behaviors :: "(int, accessory_behavior) gomap"
  ss_reports :: "(int, scheduled_report) gomap"
  ss_generation :: "(int, 64 word) gomap"
  ss_faults :: "(operation, operation_fault) gomap"
  ss_operation_epoch :: "64 word"
  ss_feedback_epoch :: "64 word"

text \<open>
  A lifecycle channel has the number of its \<^verbatim>\<open>make\<close>; only the current one can still be open.
\<close>

record simulator = sim_state +
  sm_feedback :: "feedback_event list"
  sm_status_events :: "status list"
  sm_accessory_events :: "accessory_state_event list"
  sm_lifecycle :: nat
  sm_lifecycle_closed :: bool

datatype sim_problem =
    UnsupportedConnectivity
  | UnsupportedOperation operation
  | NegativeFaultDelay
  | NegativeFaultRemaining
  | NegativeFaultEvery
  | FaultAddressNotAccessory
  | FaultAddressOutOfRange
  | AccessoryAddressOutOfRange
  | ReportedPositionNotAllowed
  | NegativeBehaviorDelay
  | DelayRequired
  | UnsupportedReportedPosition accessory_position
  | UnsupportedMode behavior_mode
  | UnsupportedQuality report_quality
  | NegativeTransitionDelay
  | NegativeBounceInterval

datatype sim_error =
    SimDisconnected
  | SimStation station_error
  | SimCanceled
  | SimFeedbackFull
  | SimContext
  | SimInjected string
  | SimInvalid sim_problem

subsection \<open>Creation and life cycle\<close>

definition nominal_electrical_state :: electrical_state where
  "nominal_electrical_state =
     \<lparr> el_main_current = 0, el_programming_current = 0, el_filtered_main_current = 0, el_temperature = 25,
       el_supply_voltage = 18000, el_track_voltage = 0, el_programming_mode = False, el_high_temperature = False,
       el_power_lost = False, el_external_short_circuit = False, el_internal_short_circuit = False \<rparr>"

definition new_state :: "bool \<Rightarrow> simulator \<Rightarrow> simulator" where
  "new_state connected s =
     s\<lparr> ss_connected := connected, ss_connectivity := Offline, ss_last_seen := None, ss_track_power := False,
        ss_emergency_stop := False, ss_locomotives := [], ss_accessories := [], ss_electrical := nominal_electrical_state,
        ss_feedback_states := [], ss_behaviors := [], ss_reports := [], ss_generation := [], ss_faults := [],
        ss_operation_epoch := 0, ss_feedback_epoch := 0 \<rparr>"

definition new_simulator :: simulator where
  "new_simulator =
     \<lparr> ss_connected = False, ss_connectivity = Offline, ss_last_seen = None, ss_track_power = False,
       ss_emergency_stop = False, ss_locomotives = [], ss_accessories = [], ss_electrical = nominal_electrical_state,
       ss_feedback_states = [], ss_behaviors = [], ss_reports = [], ss_generation = [], ss_faults = [],
       ss_operation_epoch = 0, ss_feedback_epoch = 0,
       sm_feedback = [], sm_status_events = [], sm_accessory_events = [], sm_lifecycle = 0, sm_lifecycle_closed = False \<rparr>"

definition sim_health :: "simulator \<Rightarrow> health_report" where
  "sim_health s =
     \<lparr> hr_connectivity = (if ss_connected s then ss_connectivity s else Offline), hr_last_seen = ss_last_seen s \<rparr>"

definition sim_status :: "simulator \<Rightarrow> status" where
  "sim_status s =
     (let e = ss_electrical s
      in \<lparr> st_connectivity = hr_connectivity (sim_health s), st_last_seen = hr_last_seen (sim_health s),
           st_track_power = (if ss_track_power s then PowerOn else PowerOff), st_emergency_stop = ss_emergency_stop s,
           st_short_circuit = (el_external_short_circuit e \<or> el_internal_short_circuit e),
           st_programming_mode = el_programming_mode e, st_main_current = el_main_current e,
           st_programming_current = el_programming_current e, st_filtered_main_current = el_filtered_main_current e,
           st_temperature = el_temperature e, st_supply_voltage = el_supply_voltage e, st_track_voltage = el_track_voltage e,
           st_high_temperature = el_high_temperature e, st_power_lost = el_power_lost e,
           st_external_short_circuit = el_external_short_circuit e, st_internal_short_circuit = el_internal_short_circuit e \<rparr>)"

definition publish_status_locked :: "simulator \<Rightarrow> simulator" where
  "publish_status_locked s = s\<lparr> sm_status_events := offer 64 (sim_status s) (sm_status_events s) \<rparr>"

definition publish_accessory_state_locked :: "accessory_position \<Rightarrow> int \<Rightarrow> report_quality \<Rightarrow> time \<Rightarrow> simulator \<Rightarrow> simulator" where
  "publish_accessory_state_locked position address quality at s =
     s\<lparr> sm_accessory_events := offer 64
          \<lparr> ev_address = address, ev_position = position, ev_state = ReportKnown, ev_quality = quality, ev_observed_at = Some at \<rparr>
          (sm_accessory_events s) \<rparr>"

definition mark_activity_locked :: "time \<Rightarrow> simulator \<Rightarrow> simulator" where
  "mark_activity_locked at s =
     (if ss_connected s \<and> ss_connectivity s \<noteq> Offline then s\<lparr> ss_last_seen := Some at \<rparr> else s)"

definition sim_connect :: "time \<Rightarrow> simulator \<Rightarrow> simulator" where
  "sim_connect now s =
     (let s1 = (if sm_lifecycle_closed s then s\<lparr> sm_lifecycle := sm_lifecycle s + 1, sm_lifecycle_closed := False \<rparr> else s)
      in s1\<lparr> ss_connected := True, ss_connectivity := Online, ss_last_seen := Some now \<rparr>)"

definition close_lifecycle_locked :: "simulator \<Rightarrow> simulator" where
  "close_lifecycle_locked s = s\<lparr> sm_lifecycle_closed := True \<rparr>"

definition sim_close :: "simulator \<Rightarrow> simulator" where
  "sim_close s =
     publish_status_locked ((close_lifecycle_locked s)\<lparr> ss_connected := False, ss_connectivity := Offline,
       ss_operation_epoch := ss_operation_epoch s + 1, ss_feedback_epoch := ss_feedback_epoch s + 1 \<rparr>)"

text \<open>Whether a receive from the lifecycle channel \<open>c\<close> returns.\<close>

definition lifecycle_done :: "nat \<Rightarrow> simulator \<Rightarrow> bool" where
  "lifecycle_done c s \<longleftrightarrow> c \<noteq> sm_lifecycle s \<or> sm_lifecycle_closed s"

definition sim_reset :: "time \<Rightarrow> simulator \<Rightarrow> simulator" where
  "sim_reset now s =
     (let s1 = close_lifecycle_locked s;
          connected = ss_connected s1;
          epoch = ss_operation_epoch s1 + 1;
          feedback_epoch = ss_feedback_epoch s1 + 1;
          s2 = (new_state connected s1)\<lparr> sm_lifecycle := sm_lifecycle s1 + 1, sm_lifecycle_closed := False,
                  ss_operation_epoch := epoch, ss_feedback_epoch := feedback_epoch \<rparr>;
          s3 = (if connected then s2\<lparr> ss_connectivity := Online, ss_last_seen := Some now \<rparr> else s2)
      in (publish_status_locked s3)\<lparr> sm_feedback := [], sm_accessory_events := [] \<rparr>)"

definition sim_ensure :: "simulator \<Rightarrow> sim_error option" where
  "sim_ensure s = fail_if (\<not> ss_connected s) SimDisconnected"

text \<open>\<open>None\<close> stands for any text that is none of the three connectivities.\<close>

definition set_connectivity :: "connectivity option \<Rightarrow> time \<Rightarrow> simulator \<Rightarrow> sim_error option \<times> simulator" where
  "set_connectivity c now s =
     (case c of
        None \<Rightarrow> (Some (SimInvalid UnsupportedConnectivity), s)
      | Some connectivity \<Rightarrow>
          (case sim_ensure s of
             Some e \<Rightarrow> (Some e, s)
           | None \<Rightarrow>
               let changed = (ss_connectivity s \<noteq> connectivity);
                   s1 = (if changed then s\<lparr> ss_operation_epoch := ss_operation_epoch s + 1 \<rparr> else s);
                   s2 = s1\<lparr> ss_connectivity := connectivity \<rparr>;
                   s3 = (if connectivity = Online then s2\<lparr> ss_last_seen := Some now \<rparr> else s2)
               in (None, if changed then publish_status_locked s3 else s3)))"

subsection \<open>Observed state\<close>

definition set_electrical_state :: "electrical_state \<Rightarrow> simulator \<Rightarrow> simulator" where
  "set_electrical_state e s = publish_status_locked (s\<lparr> ss_electrical := e \<rparr>)"

definition power_effect :: "bool \<Rightarrow> simulator \<Rightarrow> simulator" where
  "power_effect on s =
     (let s1 = s\<lparr> ss_track_power := on \<rparr>
      in if on then s1\<lparr> ss_emergency_stop := False,
                        ss_electrical := (ss_electrical s)\<lparr> el_track_voltage := el_supply_voltage (ss_electrical s) \<rparr> \<rparr>
         else s1\<lparr> ss_electrical := (ss_electrical s)\<lparr> el_track_voltage := 0 \<rparr> \<rparr>)"

definition set_track_power_state :: "bool \<Rightarrow> time \<Rightarrow> simulator \<Rightarrow> simulator" where
  "set_track_power_state on now s =
     (let changed = (ss_track_power s \<noteq> on \<or> (on \<and> ss_emergency_stop s));
          s1 = mark_activity_locked now (power_effect on s)
      in if changed then publish_status_locked s1 else s1)"

definition stop_all :: "(int, loco_state) gomap \<Rightarrow> (int, loco_state) gomap" where
  "stop_all ls = map (\<lambda>(a, l). (a, l\<lparr> lo_speed := (0, 1) \<rparr>)) ls"

definition set_emergency_stop_state :: "bool \<Rightarrow> time \<Rightarrow> simulator \<Rightarrow> simulator" where
  "set_emergency_stop_state active now s =
     (let changed = (ss_emergency_stop s \<noteq> active);
          s1 = (if active then s\<lparr> ss_locomotives := stop_all (ss_locomotives s) \<rparr> else s);
          s2 = mark_activity_locked now (s1\<lparr> ss_emergency_stop := active \<rparr>)
      in if changed then publish_status_locked s2 else s2)"

subsection \<open>Faults\<close>

definition set_operation_fault :: "operation \<Rightarrow> operation_fault \<Rightarrow> simulator \<Rightarrow> sim_error option \<times> simulator" where
  "set_operation_fault op f s =
     (if \<not> valid_operation op then (Some (SimInvalid (UnsupportedOperation op)), s)
      else if of_delay f < 0 then (Some (SimInvalid NegativeFaultDelay), s)
      else if of_remaining f < 0 then (Some (SimInvalid NegativeFaultRemaining), s)
      else if of_every f < 0 then (Some (SimInvalid NegativeFaultEvery), s)
      else if of_address f \<noteq> 0 \<and> op \<noteq> OpAccessory then (Some (SimInvalid FaultAddressNotAccessory), s)
      else if of_address f \<noteq> 0 \<and> (of_address f < MinBasicAccessoryAddress \<or> of_address f > MaxBasicAccessoryAddress)
      then (Some (SimInvalid FaultAddressOutOfRange), s)
      else (None, s\<lparr> ss_faults := gm_put op f (ss_faults s) \<rparr>))"

definition clear_faults :: "simulator \<Rightarrow> simulator" where
  "clear_faults s = s\<lparr> ss_faults := [], ss_operation_epoch := ss_operation_epoch s + 1 \<rparr>"

text \<open>The rule for an operation is consulted: the fault to inject, if any, and the rules left.\<close>

definition apply_fault_rule ::
  "operation \<Rightarrow> int list \<Rightarrow> (operation, operation_fault) gomap \<Rightarrow> operation_fault option \<times> (operation, operation_fault) gomap" where
  "apply_fault_rule op addresses faults =
     (case map_of faults op of
        None \<Rightarrow> (None, faults)
      | Some f0 \<Rightarrow>
          let has0 = (of_address f0 = 0 \<or> addresses = [of_address f0]);
              counted = (has0 \<and> of_every f0 > 1);
              f1 = (if counted then f0\<lparr> of_seen := of_seen f0 + 1 \<rparr> else f0);
              has1 = (if counted then of_seen f1 mod of_every f1 = 0 else has0);
              faults1 = (if counted then gm_put op f1 faults else faults);
              remaining = of_remaining f1 - 1;
              f2 = (if has1 \<and> of_remaining f1 > 0 \<and> remaining \<noteq> 0 then f1\<lparr> of_remaining := remaining \<rparr> else f1);
              faults2 = (if has1 \<and> of_remaining f1 > 0
                         then if remaining = 0 then gm_del op faults1 else gm_put op f2 faults1
                         else faults1)
          in (if has1 then Some f2 else None, faults2))"

subsection \<open>Admission of a command\<close>

definition ensure_operation_ready_locked :: "64 word \<Rightarrow> bool \<Rightarrow> simulator \<Rightarrow> sim_error option" where
  "ensure_operation_ready_locked epoch active s =
     (if epoch \<noteq> ss_operation_epoch s then Some SimCanceled
      else or_else (sim_ensure s) (fail_if (active \<and> ss_connectivity s = Offline) (SimStation ErrOffline)))"

text \<open>
  \<^verbatim>\<open>beforeOperation\<close>: its first section, and what follows once the mutex is released. There the
  context may have ended at once, or during the wait for the delay of the fault.
\<close>

definition operation_begin ::
  "operation \<Rightarrow> bool \<Rightarrow> int list \<Rightarrow> simulator \<Rightarrow> (sim_error + 64 word \<times> operation_fault option) \<times> simulator" where
  "operation_begin op active addresses s =
     (case sim_ensure s of
        Some e \<Rightarrow> (Inl e, s)
      | None \<Rightarrow>
          if active \<and> ss_connectivity s = Offline then (Inl (SimStation ErrOffline), s)
          else case apply_fault_rule op addresses (ss_faults s) of
            (fault, faults) \<Rightarrow> (Inr (ss_operation_epoch s, fault), s\<lparr> ss_faults := faults \<rparr>))"

definition operation_admit ::
  "64 word \<Rightarrow> bool \<Rightarrow> operation_fault option \<Rightarrow> bool \<Rightarrow> bool \<Rightarrow> simulator \<Rightarrow> sim_error option" where
  "operation_admit epoch active fault cancelled wait_failed s =
     (if cancelled then Some SimContext
      else if (case fault of None \<Rightarrow> False | Some f \<Rightarrow> of_delay f > 0 \<and> wait_failed) then Some SimContext
      else or_else (ensure_operation_ready_locked epoch active s)
        (case fault of None \<Rightarrow> None | Some f \<Rightarrow> map_option SimInjected (of_error f)))"

subsection \<open>Commands\<close>

definition sim_capabilities :: capabilities where
  "sim_capabilities = \<lparr> cap_driver = ''simulator'', cap_track_power = True, cap_locomotive_control = True,
     cap_functions = 69, cap_max_function_number = 68, cap_accessory_control = True, cap_feedback = True \<rparr>"

definition track_power_run :: "64 word \<Rightarrow> bool \<Rightarrow> time \<Rightarrow> simulator \<Rightarrow> sim_error option \<times> simulator" where
  "track_power_run epoch on now s =
     (case ensure_operation_ready_locked epoch True s of
        Some e \<Rightarrow> (Some e, s)
      | None \<Rightarrow> (None, mark_activity_locked now (power_effect on s)))"

definition sim_emergency_stop_run :: "64 word \<Rightarrow> time \<Rightarrow> simulator \<Rightarrow> sim_error option \<times> simulator" where
  "sim_emergency_stop_run epoch now s =
     (case ensure_operation_ready_locked epoch True s of
        Some e \<Rightarrow> (Some e, s)
      | None \<Rightarrow> (None, mark_activity_locked now
          (s\<lparr> ss_locomotives := stop_all (ss_locomotives s), ss_emergency_stop := True \<rparr>)))"

definition sim_status_run :: "64 word \<Rightarrow> time \<Rightarrow> simulator \<Rightarrow> (sim_error + status) \<times> simulator" where
  "sim_status_run epoch now s =
     (case ensure_operation_ready_locked epoch False s of
        Some e \<Rightarrow> (Inl e, s)
      | None \<Rightarrow>
          let s1 = (if ss_connectivity s = Online then mark_activity_locked now s else s)
          in (Inr (sim_status s1), s1))"

definition loco_or_new :: "int \<Rightarrow> simulator \<Rightarrow> loco_state" where
  "loco_or_new address s =
     (case map_of (ss_locomotives s) address of
        Some l \<Rightarrow> l
      | None \<Rightarrow> \<lparr> lo_speed = (0, 1), lo_direction = DirectionOther [], lo_functions = [] \<rparr>)"

definition loco_speed_run :: "64 word \<Rightarrow> int \<Rightarrow> double \<Rightarrow> direction \<Rightarrow> time \<Rightarrow> simulator \<Rightarrow> sim_error option \<times> simulator" where
  "loco_speed_run epoch address speed direction now s =
     (case ensure_operation_ready_locked epoch True s of
        Some e \<Rightarrow> (Some e, s)
      | None \<Rightarrow>
          if \<not> speed_in_range speed then (Some (SimStation ErrSpeedOutOfRange), s)
          else if \<not> direction_valid direction then (Some (SimStation ErrUnsupported), s)
          else (None, mark_activity_locked now (s\<lparr> ss_locomotives := gm_put address
                 ((loco_or_new address s)\<lparr> lo_speed := speed, lo_direction := direction \<rparr>) (ss_locomotives s) \<rparr>)))"

definition loco_function_run :: "64 word \<Rightarrow> int \<Rightarrow> int \<Rightarrow> bool \<Rightarrow> time \<Rightarrow> simulator \<Rightarrow> sim_error option \<times> simulator" where
  "loco_function_run epoch address fn on now s =
     (case ensure_operation_ready_locked epoch True s of
        Some e \<Rightarrow> (Some e, s)
      | None \<Rightarrow>
          if fn < 0 \<or> fn > cap_max_function_number sim_capabilities then (Some (SimStation ErrUnsupported), s)
          else
            let l = loco_or_new address s
            in (None, mark_activity_locked now (s\<lparr> ss_locomotives := gm_put address
                  (l\<lparr> lo_functions := gm_put fn on (lo_functions l) \<rparr>) (ss_locomotives s) \<rparr>)))"

subsection \<open>Accessories\<close>

definition zero_accessory :: accessory_state where
  "zero_accessory = \<lparr> as_desired = NoPosition, as_reported = NoPosition, as_pending = False,
     as_last_command_at = None, as_last_report_at = None \<rparr>"

definition accessory_of :: "int \<Rightarrow> simulator \<Rightarrow> accessory_state" where
  "accessory_of address s = gm_get zero_accessory (ss_accessories s) address"

definition put_accessory :: "int \<Rightarrow> accessory_state \<Rightarrow> simulator \<Rightarrow> simulator" where
  "put_accessory address a s = s\<lparr> ss_accessories := gm_put address a (ss_accessories s) \<rparr>"

text \<open>One turn of the loop over the scheduled reports.\<close>

definition apply_report :: "time \<Rightarrow> int \<Rightarrow> simulator \<Rightarrow> simulator" where
  "apply_report now address s =
     (case map_of (ss_reports s) address of
        None \<Rightarrow> s
      | Some r \<Rightarrow>
          if now < sr_due_at r then s
          else
            let a = accessory_of address s;
                s1 = (if gm_get 0 (ss_generation s) address = sr_generation r \<and> as_desired a = sr_position r
                      then publish_accessory_state_locked (sr_position r) address QualityPhysical (sr_due_at r)
                             (put_accessory address
                               (a\<lparr> as_reported := sr_position r, as_pending := False, as_last_report_at := Some (sr_due_at r) \<rparr>) s)
                      else s)
            in s1\<lparr> ss_reports := gm_del address (ss_reports s1) \<rparr>)"

definition apply_due_reports :: "time \<Rightarrow> int list \<Rightarrow> simulator \<Rightarrow> simulator" where
  "apply_due_reports now order s = fold (apply_report now) order s"

definition new_generation :: "int \<Rightarrow> simulator \<Rightarrow> simulator" where
  "new_generation address s =
     s\<lparr> ss_generation := gm_put address (gm_get 0 (ss_generation s) address + 1) (ss_generation s),
        ss_reports := gm_del address (ss_reports s) \<rparr>"

definition behavior_of :: "int \<Rightarrow> simulator \<Rightarrow> accessory_behavior" where
  "behavior_of address s =
     (let b = gm_get \<lparr> ab_mode = BehaviorOther [], ab_delay = 0, ab_reported_position = NoPosition \<rparr> (ss_behaviors s) address
      in if ab_mode b = BehaviorOther [] then b\<lparr> ab_mode := BehaviorImmediate \<rparr> else b)"

definition accessory_effect :: "accessory_command \<Rightarrow> time \<Rightarrow> simulator \<Rightarrow> simulator" where
  "accessory_effect c now s =
     (let address = ac_address c;
          position = ac_position c;
          a = (accessory_of address s)\<lparr> as_desired := position, as_last_command_at := Some now \<rparr>;
          s1 = new_generation address s;
          b = behavior_of address s1
      in case ab_mode b of
           BehaviorImmediate \<Rightarrow>
             put_accessory address (a\<lparr> as_reported := position, as_pending := False, as_last_report_at := Some now \<rparr>)
               (publish_accessory_state_locked position address QualityPhysical now s1)
         | BehaviorDelayed \<Rightarrow>
             put_accessory address (a\<lparr> as_pending := True \<rparr>)
               (s1\<lparr> ss_reports := gm_put address
                     \<lparr> sr_position = position, sr_due_at = now + ab_delay b,
                       sr_generation = gm_get 0 (ss_generation s1) address \<rparr> (ss_reports s1) \<rparr>)
         | BehaviorNoConfirmation \<Rightarrow> put_accessory address (a\<lparr> as_pending := True \<rparr>) s1
         | BehaviorInconsistent \<Rightarrow>
             put_accessory address (a\<lparr> as_reported := ab_reported_position b,
                 as_pending := (ab_reported_position b \<noteq> position), as_last_report_at := Some now \<rparr>)
               (publish_accessory_state_locked (ab_reported_position b) address QualityPhysical now s1)
         | BehaviorOther _ \<Rightarrow> put_accessory address a s1)"

definition basic_accessory_run ::
  "64 word \<Rightarrow> accessory_command \<Rightarrow> time \<Rightarrow> int list \<Rightarrow> simulator \<Rightarrow> sim_error option \<times> simulator" where
  "basic_accessory_run epoch c now order s =
     (case ensure_operation_ready_locked epoch True s of
        Some e \<Rightarrow> (Some e, s)
      | None \<Rightarrow> (None, mark_activity_locked now (accessory_effect c now (apply_due_reports now order s))))"

definition address_in_range :: "int \<Rightarrow> bool" where
  "address_in_range address \<longleftrightarrow> MinBasicAccessoryAddress \<le> address \<and> address \<le> MaxBasicAccessoryAddress"

definition check_behavior :: "accessory_behavior \<Rightarrow> sim_problem option" where
  "check_behavior b =
     (case ab_mode b of
        BehaviorDelayed \<Rightarrow>
          if ab_reported_position b \<noteq> NoPosition then Some ReportedPositionNotAllowed
          else if ab_delay b \<le> 0 then Some DelayRequired else None
      | BehaviorInconsistent \<Rightarrow>
          if \<not> position_valid (ab_reported_position b) then Some (UnsupportedReportedPosition (ab_reported_position b))
          else if ab_delay b < 0 then Some NegativeBehaviorDelay else None
      | BehaviorOther m \<Rightarrow> Some (UnsupportedMode (BehaviorOther m))
      | _ \<Rightarrow>
          if ab_reported_position b \<noteq> NoPosition then Some ReportedPositionNotAllowed
          else if ab_delay b < 0 then Some NegativeBehaviorDelay else None)"

definition set_accessory_behavior ::
  "int \<Rightarrow> accessory_behavior \<Rightarrow> time \<Rightarrow> int list \<Rightarrow> simulator \<Rightarrow> sim_error option \<times> simulator" where
  "set_accessory_behavior address b0 now order s =
     (if \<not> address_in_range address then (Some (SimInvalid AccessoryAddressOutOfRange), s)
      else
        let b = (if ab_mode b0 = BehaviorOther [] then b0\<lparr> ab_mode := BehaviorImmediate \<rparr> else b0)
        in case check_behavior b of
             Some e \<Rightarrow> (Some (SimInvalid e), s)
           | None \<Rightarrow>
               let s1 = apply_due_reports now order s
               in (None, s1\<lparr> ss_behaviors := gm_put address b (ss_behaviors s1) \<rparr>))"

definition report_accessory_position ::
  "int \<Rightarrow> accessory_position \<Rightarrow> report_quality \<Rightarrow> time \<Rightarrow> int list \<Rightarrow> simulator \<Rightarrow> sim_error option \<times> simulator" where
  "report_accessory_position address position quality now order s =
     (if \<not> address_in_range address then (Some (SimInvalid AccessoryAddressOutOfRange), s)
      else if \<not> position_valid position then (Some (SimInvalid (UnsupportedReportedPosition position)), s)
      else if \<not> quality_valid quality then (Some (SimInvalid (UnsupportedQuality quality)), s)
      else
        let s1 = new_generation address (apply_due_reports now order s);
            a = accessory_of address s1;
            s2 = put_accessory address (a\<lparr> as_reported := position,
                   as_pending := (as_desired a \<noteq> NoPosition \<and> as_desired a \<noteq> position), as_last_report_at := Some now \<rparr>) s1
        in (None, publish_accessory_state_locked position address quality now s2))"

definition sim_accessory :: "int \<Rightarrow> time \<Rightarrow> int list \<Rightarrow> simulator \<Rightarrow> accessory_state \<times> simulator" where
  "sim_accessory address now order s = (let s1 = apply_due_reports now order s in (accessory_of address s1, s1))"

definition sim_loco :: "int \<Rightarrow> simulator \<Rightarrow> loco_state" where
  "sim_loco address s = loco_or_new address s"

subsection \<open>Feedback\<close>

definition feedback_key_of :: "feedback_event \<Rightarrow> feedback_key" where
  "feedback_key_of e = (fb_source e, fb_kind e, fb_address e)"

definition note_feedback :: "feedback_event \<Rightarrow> simulator \<Rightarrow> simulator" where
  "note_feedback e s = s\<lparr> ss_feedback_states := gm_put (feedback_key_of e) (fb_active e) (ss_feedback_states s) \<rparr>"

definition set_feedback ::
  "bool \<Rightarrow> feedback_event \<Rightarrow> bool \<Rightarrow> 64 word option \<Rightarrow> simulator \<Rightarrow> sim_error option \<times> simulator" where
  "set_feedback cancelled e emit expected_epoch s =
     (if cancelled then (Some SimContext, s)
      else if expected_epoch \<noteq> None \<and> expected_epoch \<noteq> Some (ss_feedback_epoch s) then (Some SimCanceled, s)
      else
        let s1 = note_feedback e s
        in if \<not> emit then (None, s1)
           else if length (sm_feedback s1) < 64 then (None, s1\<lparr> sm_feedback := sm_feedback s1 @ [e] \<rparr>)
           else (Some SimFeedbackFull, s1))"

definition set_feedback_atomic :: "bool \<Rightarrow> feedback_event \<Rightarrow> simulator \<Rightarrow> sim_error option \<times> simulator" where
  "set_feedback_atomic cancelled e s =
     (if cancelled then (Some SimContext, s)
      else if length (sm_feedback s) < 64 then (None, note_feedback e (s\<lparr> sm_feedback := sm_feedback s @ [e] \<rparr>))
      else (Some SimFeedbackFull, s))"

definition inject_feedback :: "feedback_event \<Rightarrow> simulator \<Rightarrow> simulator" where
  "inject_feedback e s = snd (set_feedback False e True None s)"

definition set_feedback_state :: "feedback_event \<Rightarrow> simulator \<Rightarrow> simulator" where
  "set_feedback_state e s = snd (set_feedback False e False None s)"

text \<open>
  \<^verbatim>\<open>EmitFeedbackSequence\<close>: the check of the delays with the epoch it reads, and one transition,
  after its wait.
\<close>

definition feedback_sequence_begin :: "feedback_transition list \<Rightarrow> simulator \<Rightarrow> sim_error + 64 word" where
  "feedback_sequence_begin ts s =
     (if \<exists>t\<in>set ts. ft_delay t < 0 then Inl (SimInvalid NegativeTransitionDelay) else Inr (ss_feedback_epoch s))"

definition feedback_sequence_step ::
  "64 word \<Rightarrow> bool \<Rightarrow> bool \<Rightarrow> feedback_event \<Rightarrow> feedback_transition \<Rightarrow> simulator \<Rightarrow> sim_error option \<times> simulator" where
  "feedback_sequence_step epoch wait_failed cancelled e t s =
     (if ft_delay t > 0 \<and> wait_failed then (Some SimContext, s)
      else set_feedback cancelled (e\<lparr> fb_active := ft_active t \<rparr>) True (Some epoch) s)"

definition bounce_transitions :: "duration \<Rightarrow> sim_error + feedback_transition list" where
  "bounce_transitions interval =
     (if interval < 0 then Inl (SimInvalid NegativeBounceInterval)
      else Inr [\<lparr> ft_delay = 0, ft_active = True \<rparr>, \<lparr> ft_delay = interval, ft_active = False \<rparr>,
                \<lparr> ft_delay = interval, ft_active = True \<rparr>])"

subsection \<open>Snapshots\<close>

record operation_fault_state =
  os_delay :: duration
  os_error :: string
  os_remaining :: int
  os_address :: int
  os_every :: int
  os_seen :: int

definition fault_state :: "operation_fault \<Rightarrow> operation_fault_state" where
  "fault_state f =
     \<lparr> os_delay = of_delay f, os_error = (case of_error f of None \<Rightarrow> [] | Some m \<Rightarrow> m), os_remaining = of_remaining f,
       os_address = of_address f, os_every = of_every f, os_seen = of_seen f \<rparr>"

record sim_snapshot =
  sn_connected :: bool
  sn_connectivity :: connectivity
  sn_last_seen :: "time option"
  sn_track_power :: bool
  sn_emergency_stop :: bool
  sn_locomotives :: "(int, loco_state) gomap"
  sn_accessories :: "(int, accessory_state) gomap"
  sn_behaviors :: "(int, accessory_behavior) gomap"
  sn_electrical :: electrical_state
  sn_feedback_states :: "(feedback_key, bool) gomap"
  sn_faults :: "(operation, operation_fault_state) gomap"

definition take_snapshot :: "time \<Rightarrow> int list \<Rightarrow> simulator \<Rightarrow> sim_snapshot \<times> simulator" where
  "take_snapshot now order s =
     (let s1 = apply_due_reports now order s
      in (\<lparr> sn_connected = ss_connected s1, sn_connectivity = ss_connectivity s1, sn_last_seen = ss_last_seen s1,
            sn_track_power = ss_track_power s1, sn_emergency_stop = ss_emergency_stop s1,
            sn_locomotives = ss_locomotives s1, sn_accessories = ss_accessories s1, sn_behaviors = ss_behaviors s1,
            sn_electrical = ss_electrical s1, sn_feedback_states = ss_feedback_states s1,
            sn_faults = map (\<lambda>(op, f). (op, fault_state f)) (ss_faults s1) \<rparr>, s1))"

subsection \<open>All operations\<close>

text \<open>The commands of the station interface, and the operation under which each is admitted.\<close>

datatype station_command =
    StatusCommand
  | PowerCommand bool
  | EmergencyStopCommand
  | SpeedCommand int double direction
  | FunctionCommand int int bool
  | AccessoryCommand accessory_command

fun command_operation :: "station_command \<Rightarrow> operation" where
  "command_operation StatusCommand = OpStatus"
| "command_operation (PowerCommand _) = OpTrackPower"
| "command_operation EmergencyStopCommand = OpEmergencyStop"
| "command_operation (SpeedCommand _ _ _) = OpThrottle"
| "command_operation (FunctionCommand _ _ _) = OpFunction"
| "command_operation (AccessoryCommand _) = OpAccessory"

fun command_active :: "station_command \<Rightarrow> bool" where
  "command_active StatusCommand = False"
| "command_active _ = True"

fun command_addresses :: "station_command \<Rightarrow> int list" where
  "command_addresses (AccessoryCommand c) = [ac_address c]"
| "command_addresses _ = []"

definition command_begin ::
  "station_command \<Rightarrow> simulator \<Rightarrow> (sim_error + 64 word \<times> operation_fault option) \<times> simulator" where
  "command_begin c s =
     (case (case c of AccessoryCommand a \<Rightarrow> map_option SimStation (accessory_command_validate a) | _ \<Rightarrow> None) of
        Some e \<Rightarrow> (Inl e, s)
      | None \<Rightarrow> operation_begin (command_operation c) (command_active c) (command_addresses c) s)"

fun command_run :: "64 word \<Rightarrow> station_command \<Rightarrow> time \<Rightarrow> int list \<Rightarrow> simulator \<Rightarrow> sim_error option \<times> simulator" where
  "command_run epoch StatusCommand now order s =
     (case sim_status_run epoch now s of (Inl e, s1) \<Rightarrow> (Some e, s1) | (Inr _, s1) \<Rightarrow> (None, s1))"
| "command_run epoch (PowerCommand on) now order s = track_power_run epoch on now s"
| "command_run epoch EmergencyStopCommand now order s = sim_emergency_stop_run epoch now s"
| "command_run epoch (SpeedCommand a v d) now order s = loco_speed_run epoch a v d now s"
| "command_run epoch (FunctionCommand a f on) now order s = loco_function_run epoch a f on now s"
| "command_run epoch (AccessoryCommand c) now order s = basic_accessory_run epoch c now order s"

datatype sim_op =
    DoConnect time
  | DoClose
  | DoReset time
  | DoConnectivity "connectivity option" time
  | DoElectrical electrical_state
  | DoPowerState bool time
  | DoEmergencyState bool time
  | DoFault operation operation_fault
  | DoClearFaults
  | DoBegin station_command
  | DoRun "64 word" station_command time "int list"
  | DoBehavior int accessory_behavior time "int list"
  | DoReport int accessory_position report_quality time "int list"
  | DoRead time "int list"
  | DoFeedback bool feedback_event bool "64 word option"
  | DoFeedbackAtomic bool feedback_event
  | DoConsume nat nat nat

fun sim_exec :: "sim_op \<Rightarrow> simulator \<Rightarrow> simulator" where
  "sim_exec (DoConnect now) s = sim_connect now s"
| "sim_exec DoClose s = sim_close s"
| "sim_exec (DoReset now) s = sim_reset now s"
| "sim_exec (DoConnectivity c now) s = snd (set_connectivity c now s)"
| "sim_exec (DoElectrical e) s = set_electrical_state e s"
| "sim_exec (DoPowerState on now) s = set_track_power_state on now s"
| "sim_exec (DoEmergencyState active now) s = set_emergency_stop_state active now s"
| "sim_exec (DoFault op f) s = snd (set_operation_fault op f s)"
| "sim_exec DoClearFaults s = clear_faults s"
| "sim_exec (DoBegin c) s = snd (command_begin c s)"
| "sim_exec (DoRun epoch c now order) s = snd (command_run epoch c now order s)"
| "sim_exec (DoBehavior a b now order) s = snd (set_accessory_behavior a b now order s)"
| "sim_exec (DoReport a p q now order) s = snd (report_accessory_position a p q now order s)"
| "sim_exec (DoRead now order) s = apply_due_reports now order s"
| "sim_exec (DoFeedback cancelled e emit epoch) s = snd (set_feedback cancelled e emit epoch s)"
| "sim_exec (DoFeedbackAtomic cancelled e) s = snd (set_feedback_atomic cancelled e s)"
| "sim_exec (DoConsume n m k) s =
     s\<lparr> sm_feedback := drop n (sm_feedback s), sm_status_events := drop m (sm_status_events s),
        sm_accessory_events := drop k (sm_accessory_events s) \<rparr>"

end
