(* ===== verification/SimulatorFacts.thy ===== *)
theory SimulatorFacts
  imports Simulator
begin

text \<open>
  What the simulated station guarantees: accessories settle as their behaviour says although due
  reports are only applied when somebody looks, a command under way is cancelled exactly when the
  simulator was invalidated meanwhile, and an injected fault strikes in the announced rhythm.
\<close>

definition sim_run :: "sim_op list \<Rightarrow> simulator \<Rightarrow> simulator" where
  "sim_run ops s = fold sim_exec ops s"

lemma sim_run_simps [simp]:
  "sim_run [] s = s" "sim_run (op # ops) s = sim_run ops (sim_exec op s)"
  by (simp_all add: sim_run_def)

subsection \<open>Accessories\<close>

text \<open>The part of the state that concerns accessories.\<close>

definition acc_core :: "simulator \<Rightarrow> _" where
  "acc_core s = (ss_accessories s, ss_reports s, ss_generation s, ss_behaviors s)"

definition report_fits :: "simulator \<Rightarrow> int \<Rightarrow> scheduled_report \<Rightarrow> bool" where
  "report_fits s a r \<longleftrightarrow> gm_get 0 (ss_generation s) a = sr_generation r \<and>
     as_desired (accessory_of a s) = sr_position r \<and> as_pending (accessory_of a s)"

definition settled :: "accessory_state \<Rightarrow> bool" where
  "settled x \<longleftrightarrow> as_pending x \<or> as_desired x = NoPosition \<or> as_reported x = as_desired x"

definition acc_inv :: "simulator \<Rightarrow> bool" where
  "acc_inv s \<longleftrightarrow>
     gm_wf (ss_accessories s) \<and> gm_wf (ss_reports s) \<and> gm_wf (ss_generation s) \<and> gm_wf (ss_behaviors s) \<and>
     (\<forall>a r. map_of (ss_reports s) a = Some r \<longrightarrow> report_fits s a r) \<and>
     (\<forall>a. settled (accessory_of a s)) \<and>
     (\<forall>a b. map_of (ss_behaviors s) a = Some b \<longrightarrow> check_behavior b = None)"

lemma acc_inv_core: "acc_core s' = acc_core s \<Longrightarrow> acc_inv s \<Longrightarrow> acc_inv s'"
  by (simp add: acc_core_def acc_inv_def report_fits_def accessory_of_def)

lemma core_simps [simp]:
  "acc_core (publish_status_locked s) = acc_core s"
  "acc_core (publish_accessory_state_locked p a q t s) = acc_core s"
  "acc_core (mark_activity_locked t s) = acc_core s"
  "acc_core (sim_connect t s) = acc_core s"
  "acc_core (sim_close s) = acc_core s"
  "acc_core (power_effect on s) = acc_core s"
  "acc_core (note_feedback e s) = acc_core s"
  "acc_core (clear_faults s) = acc_core s"
  "acc_core (set_electrical_state el s) = acc_core s"
  "acc_core (set_track_power_state on t s) = acc_core s"
  "acc_core (set_emergency_stop_state on t s) = acc_core s"
  by (simp_all add: acc_core_def publish_status_locked_def publish_accessory_state_locked_def mark_activity_locked_def
      sim_connect_def sim_close_def close_lifecycle_locked_def power_effect_def note_feedback_def clear_faults_def
      set_electrical_state_def set_track_power_state_def set_emergency_stop_state_def Let_def)

lemma core_snd [simp]:
  "acc_core (snd (set_connectivity c t s)) = acc_core s"
  "acc_core (snd (set_operation_fault op f s)) = acc_core s"
  "acc_core (snd (command_begin cmd s)) = acc_core s"
  "acc_core (snd (set_feedback b e emit ep s)) = acc_core s"
  "acc_core (snd (set_feedback_atomic b e s)) = acc_core s"
proof -
  show "acc_core (snd (set_connectivity c t s)) = acc_core s"
    by (simp add: set_connectivity_def acc_core_def publish_status_locked_def Let_def split: option.split)
  show "acc_core (snd (set_operation_fault op f s)) = acc_core s" by (simp add: set_operation_fault_def acc_core_def)
  show "acc_core (snd (command_begin cmd s)) = acc_core s"
    by (simp add: command_begin_def operation_begin_def acc_core_def split: option.split station_command.split prod.split)
  show "acc_core (snd (set_feedback b e emit ep s)) = acc_core s"
    by (simp add: set_feedback_def acc_core_def note_feedback_def Let_def)
  show "acc_core (snd (set_feedback_atomic b e s)) = acc_core s"
    by (simp add: set_feedback_atomic_def acc_core_def note_feedback_def)
qed

lemma accessory_of_core: "acc_core s' = acc_core s \<Longrightarrow> accessory_of a s' = accessory_of a s"
  by (simp add: acc_core_def accessory_of_def)

lemma accessory_of_put [simp]:
  "gm_wf (ss_accessories s) \<Longrightarrow> accessory_of a (put_accessory b x s) = (if a = b then x else accessory_of a s)"
  by (simp add: accessory_of_def put_accessory_def)

lemma accessory_of_simps [simp]:
  "accessory_of a (publish_accessory_state_locked p b q t s) = accessory_of a s"
  "accessory_of a (s\<lparr> ss_reports := rs \<rparr>) = accessory_of a s"
  by (simp_all add: accessory_of_def publish_accessory_state_locked_def)

subsection \<open>Due reports\<close>

text \<open>What an accessory shows at an instant, with its report applied when it is due.\<close>

definition accessory_at :: "time \<Rightarrow> int \<Rightarrow> simulator \<Rightarrow> accessory_state" where
  "accessory_at now a s =
     (case map_of (ss_reports s) a of
        None \<Rightarrow> accessory_of a s
      | Some r \<Rightarrow>
          if now < sr_due_at r then accessory_of a s
          else (accessory_of a s)\<lparr> as_reported := sr_position r, as_pending := False, as_last_report_at := Some (sr_due_at r) \<rparr>)"

lemma apply_report_fields:
  "ss_generation (apply_report now b s) = ss_generation s" "ss_behaviors (apply_report now b s) = ss_behaviors s"
  by (simp_all add: apply_report_def publish_accessory_state_locked_def put_accessory_def Let_def split: option.split)

lemma apply_report_reports:
  "ss_reports (apply_report now b s) =
     (case map_of (ss_reports s) b of None \<Rightarrow> ss_reports s
      | Some r \<Rightarrow> if now < sr_due_at r then ss_reports s else gm_del b (ss_reports s))"
  by (simp add: apply_report_def publish_accessory_state_locked_def put_accessory_def Let_def split: option.split)

lemma apply_report_accessory:
  assumes "acc_inv s"
  shows "accessory_of a (apply_report now b s) = (if a = b then accessory_at now a s else accessory_of a s)"
proof -
  have wf: "gm_wf (ss_accessories s)" using assms by (simp add: acc_inv_def)
  have "report_fits s b r" if "map_of (ss_reports s) b = Some r" for r using assms that by (simp add: acc_inv_def)
  then show ?thesis
    using wf by (auto simp: apply_report_def accessory_at_def Let_def report_fits_def split: option.split)
qed

lemma apply_report_inv:
  assumes "acc_inv s"
  shows "acc_inv (apply_report now b s)"
proof -
  have reports: "map_of (ss_reports (apply_report now b s)) a = Some r \<Longrightarrow>
      map_of (ss_reports s) a = Some r \<and> (a = b \<longrightarrow> now < sr_due_at r)" for a r
    using assms by (auto simp: apply_report_reports acc_inv_def map_of_gm_del split: option.splits if_splits)
  have wf: "gm_wf (ss_reports (apply_report now b s))" "gm_wf (ss_accessories (apply_report now b s))"
    using assms by (auto simp: apply_report_def publish_accessory_state_locked_def put_accessory_def acc_inv_def Let_def split: option.split)
  have old: "accessory_of a (apply_report now b s) = accessory_of a s" if "map_of (ss_reports (apply_report now b s)) a = Some r" for a r
    using reports [OF that] by (auto simp: apply_report_accessory [OF assms] accessory_at_def)
  have "settled (accessory_of a (apply_report now b s))" for a
    using assms by (auto simp: apply_report_accessory [OF assms] accessory_at_def settled_def acc_inv_def report_fits_def split: option.split)
  then show ?thesis
    using assms wf reports old by (auto simp: acc_inv_def report_fits_def apply_report_fields)
qed

lemma apply_due_inv: "acc_inv s \<Longrightarrow> acc_inv (apply_due_reports now order s)"
  unfolding apply_due_reports_def by (induction order arbitrary: s) (simp_all add: apply_report_inv)

lemma accessory_at_step:
  assumes "acc_inv s" and "now \<le> later"
  shows "accessory_at later a (apply_report now b s) = accessory_at later a s"
proof (cases "a = b")
  case True
  have wf: "gm_wf (ss_reports s)" using assms by (simp add: acc_inv_def)
  show ?thesis
  proof (cases "map_of (ss_reports s) b")
    case None
    then show ?thesis
      using True by (simp add: accessory_at_def [of _ b] apply_report_accessory [OF assms(1)] apply_report_reports)
  next
    case (Some r)
    then show ?thesis using True wf assms(2)
      by (cases "now < sr_due_at r")
        (simp_all add: accessory_at_def [of _ b] apply_report_accessory [OF assms(1)] apply_report_reports map_of_gm_del)
  qed
next
  case False
  then have "map_of (ss_reports (apply_report now b s)) a = map_of (ss_reports s) a"
    using assms by (auto simp: apply_report_reports map_of_gm_del acc_inv_def split: option.split)
  then show ?thesis using False by (simp add: accessory_at_def apply_report_accessory [OF assms(1)] split: option.split)
qed

lemma accessory_at_due:
  "acc_inv s \<Longrightarrow> now \<le> later \<Longrightarrow> accessory_at later a (apply_due_reports now order s) = accessory_at later a s"
  unfolding apply_due_reports_def
  by (induction order arbitrary: s) (simp_all add: accessory_at_step apply_report_inv)

text \<open>In whichever order the map is traversed, the due reports and no others have been applied.\<close>

lemma apply_due_accessory:
  assumes "acc_inv s" and "map_of (ss_reports s) a \<noteq> None \<Longrightarrow> a \<in> set order"
  shows "accessory_of a (apply_due_reports now order s) = accessory_at now a s"
  using assms unfolding apply_due_reports_def
proof (induction order arbitrary: s)
  case Nil
  then show ?case by (auto simp: accessory_at_def split: option.split)
next
  case (Cons b order)
  have inv: "acc_inv (apply_report now b s)" using Cons.prems(1) by (rule apply_report_inv)
  show ?case
  proof (cases "a \<in> set order")
    case True
    then show ?thesis using Cons.IH [OF inv] accessory_at_step [OF Cons.prems(1)] by simp
  next
    case False
    then have other: "accessory_of a (fold (apply_report now) order s') = accessory_of a s'" if "acc_inv s'" for s'
      using that by (induction order arbitrary: s') (auto simp: apply_report_accessory apply_report_inv)
    have "a = b \<or> map_of (ss_reports s) a = None" using Cons.prems(2) False by auto
    then show ?thesis
      using other [OF inv] apply_report_accessory [OF Cons.prems(1)] by (auto simp: accessory_at_def)
  qed
qed

subsection \<open>Every operation keeps the invariant\<close>

lemma new_generation_inv:
  assumes "acc_inv s"
  shows "acc_inv (new_generation a s)"
proof -
  have "gm_wf (ss_reports s)" "gm_wf (ss_generation s)" using assms by (simp_all add: acc_inv_def)
  then show ?thesis
    using assms by (auto simp: acc_inv_def new_generation_def report_fits_def accessory_of_def map_of_gm_del split: if_splits)
qed

lemma new_generation_no_report: "acc_inv s \<Longrightarrow> map_of (ss_reports (new_generation a s)) a = None"
  by (simp add: new_generation_def map_of_gm_del acc_inv_def)

lemma accessory_of_new_generation [simp]: "accessory_of b (new_generation a s) = accessory_of b s"
  by (simp add: new_generation_def accessory_of_def)

lemma put_accessory_inv:
  assumes "acc_inv s" and "settled x" and "map_of (ss_reports s) a = None"
  shows "acc_inv (put_accessory a x s)"
proof -
  have wf: "gm_wf (ss_accessories s)" using assms(1) by (simp add: acc_inv_def)
  have "ss_reports (put_accessory a x s) = ss_reports s" "ss_generation (put_accessory a x s) = ss_generation s"
    "ss_behaviors (put_accessory a x s) = ss_behaviors s" "gm_wf (ss_accessories (put_accessory a x s))"
    using wf by (simp_all add: put_accessory_def)
  then show ?thesis using assms wf by (auto simp: acc_inv_def report_fits_def)
qed

lemma schedule_inv:
  assumes "acc_inv s" and "as_desired (accessory_of a s) = p" and "as_pending (accessory_of a s)"
  shows "acc_inv (s\<lparr> ss_reports := gm_put a \<lparr> sr_position = p, sr_due_at = due, sr_generation = gm_get 0 (ss_generation s) a \<rparr> (ss_reports s) \<rparr>)"
proof -
  have "gm_wf (ss_reports s)" using assms(1) by (simp add: acc_inv_def)
  then show ?thesis using assms by (auto simp: acc_inv_def report_fits_def split: if_splits)
qed

lemma behavior_of_checked:
  assumes "acc_inv s"
  shows "check_behavior (behavior_of a s) = None"
proof (cases "map_of (ss_behaviors s) a")
  case None
  then show ?thesis by (simp add: behavior_of_def gm_get_def Let_def check_behavior_def)
next
  case (Some b)
  then have "check_behavior b = None" using assms by (simp add: acc_inv_def)
  then show ?thesis using Some
    by (cases "ab_mode b") (auto simp: behavior_of_def gm_get_def Let_def check_behavior_def split: if_splits)
qed

lemma accessory_effect_inv:
  assumes "acc_inv s"
  shows "acc_inv (accessory_effect c now s)"
proof -
  let ?a = "ac_address c" and ?s1 = "new_generation (ac_address c) s"
  have inv: "acc_inv ?s1" by (rule new_generation_inv [OF assms])
  note none = new_generation_no_report [OF assms, of ?a]
  have put: "acc_inv (put_accessory ?a x ?s1)" if "settled x" for x
    by (rule put_accessory_inv [OF inv that none])
  have pub: "acc_inv (put_accessory ?a x (publish_accessory_state_locked p b q t ?s1))" if "settled x" for x p b q t
    by (rule acc_inv_core [OF _ put [OF that]])
      (simp add: acc_core_def put_accessory_def publish_accessory_state_locked_def)
  have behavior: "check_behavior (behavior_of ?a ?s1) = None" by (rule behavior_of_checked [OF inv])
  have delayed: "acc_inv (put_accessory ?a x (?s1\<lparr> ss_reports := gm_put ?a \<lparr> sr_position = as_desired x, sr_due_at = due,
      sr_generation = gm_get 0 (ss_generation ?s1) ?a \<rparr> (ss_reports ?s1) \<rparr>))" if "as_pending x" for x due
  proof -
    have "gm_wf (ss_accessories ?s1)" using inv by (simp add: acc_inv_def)
    then have "acc_inv ((put_accessory ?a x ?s1)\<lparr> ss_reports := gm_put ?a \<lparr> sr_position = as_desired x, sr_due_at = due,
        sr_generation = gm_get 0 (ss_generation (put_accessory ?a x ?s1)) ?a \<rparr> (ss_reports (put_accessory ?a x ?s1)) \<rparr>)"
      using that put [of x] by (intro schedule_inv) (simp_all add: settled_def)
    then show ?thesis by (rule acc_inv_core [rotated]) (simp add: acc_core_def put_accessory_def)
  qed
  show ?thesis
  proof (cases "ab_mode (behavior_of ?a ?s1)")
    case BehaviorDelayed
    then show ?thesis
      using delayed [of "(accessory_of ?a s)\<lparr> as_desired := ac_position c, as_last_command_at := Some now, as_pending := True \<rparr>"]
      by (simp add: accessory_effect_def Let_def)
  next
    case (BehaviorOther m)
    then show ?thesis using behavior by (simp add: check_behavior_def)
  qed (simp_all add: accessory_effect_def Let_def put pub settled_def)
qed

lemma report_position_inv:
  assumes inv: "acc_inv s"
  shows "acc_inv (snd (report_accessory_position a p q now order s))"
proof -
  let ?s1 = "new_generation a (apply_due_reports now order s)"
  have s1: "acc_inv ?s1" by (intro new_generation_inv apply_due_inv inv)
  have none: "map_of (ss_reports ?s1) a = None" by (intro new_generation_no_report apply_due_inv inv)
  have "acc_inv (put_accessory a x ?s1)" if "settled x" for x by (rule put_accessory_inv [OF s1 that none])
  then have "acc_inv (publish_accessory_state_locked p a q now (put_accessory a x ?s1))" if "settled x" for x
    using that by (intro acc_inv_core [OF core_simps(2)]) blast
  moreover have "settled ((accessory_of a s')\<lparr> as_reported := p, as_pending :=
      (as_desired (accessory_of a s') \<noteq> NoPosition \<and> as_desired (accessory_of a s') \<noteq> p), as_last_report_at := Some now \<rparr>)" for s'
    by (auto simp: settled_def)
  ultimately show ?thesis using inv by (simp add: report_accessory_position_def Let_def)
qed

lemma set_behavior_inv:
  assumes "acc_inv s"
  shows "acc_inv (snd (set_accessory_behavior a b now order s))"
proof -
  have inv: "acc_inv (apply_due_reports now order s)" by (rule apply_due_inv [OF assms])
  have "acc_inv (s'\<lparr> ss_behaviors := gm_put a b' (ss_behaviors s') \<rparr>)" if "acc_inv s'" "check_behavior b' = None" for s' b'
    using that by (auto simp: acc_inv_def report_fits_def accessory_of_def split: if_splits)
  then show ?thesis using assms inv
    by (simp add: set_accessory_behavior_def Let_def split: option.split)
qed

lemma command_run_core:
  assumes "\<And>a. c \<noteq> AccessoryCommand a"
  shows "acc_core (snd (command_run epoch c now order s)) = acc_core s"
  using assms
  by (cases c) (auto simp: acc_core_def mark_activity_locked_def loco_speed_run_def loco_function_run_def sim_status_run_def
      sim_emergency_stop_run_def track_power_run_def power_effect_def Let_def
      split: option.split prod.split sum.split if_splits)

lemma command_run_inv:
  assumes "acc_inv s"
  shows "acc_inv (snd (command_run epoch c now order s))"
proof (cases "\<exists>a. c = AccessoryCommand a")
  case True
  then obtain a where c: "c = AccessoryCommand a" ..
  have "acc_inv (mark_activity_locked now (accessory_effect a now (apply_due_reports now order s)))"
    by (rule acc_inv_core [OF core_simps(3)]) (intro accessory_effect_inv apply_due_inv assms)
  then show ?thesis using c assms by (simp add: basic_accessory_run_def split: option.split)
next
  case False
  then show ?thesis using acc_inv_core [OF command_run_core assms] by blast
qed

lemma new_state_inv: "acc_inv (new_state connected s)" "acc_inv new_simulator"
  by (simp_all add: acc_inv_def new_state_def new_simulator_def accessory_of_def zero_accessory_def settled_def gm_get_def)

lemma sim_reset_inv: "acc_inv (sim_reset now s)"
  by (rule acc_inv_core [OF _ new_state_inv(1) [of "ss_connected s" s]])
    (simp add: acc_core_def sim_reset_def publish_status_locked_def close_lifecycle_locked_def new_state_def Let_def)

lemma sim_exec_core:
  "case op of
     DoReset _ \<Rightarrow> True | DoRun _ _ _ _ \<Rightarrow> True | DoBehavior _ _ _ _ \<Rightarrow> True | DoReport _ _ _ _ _ \<Rightarrow> True | DoRead _ _ \<Rightarrow> True
   | _ \<Rightarrow> acc_core (sim_exec op s) = acc_core s"
proof (cases op)
  case (DoConsume n m k)
  then show ?thesis by (simp add: acc_core_def)
qed simp_all

lemma sim_exec_inv:
  assumes "acc_inv s"
  shows "acc_inv (sim_exec op s)"
  using sim_exec_core [of op s] acc_inv_core [OF _ assms, of "sim_exec op s"]
    sim_reset_inv command_run_inv [OF assms] set_behavior_inv [OF assms] report_position_inv [OF assms] apply_due_inv [OF assms]
  by (cases op) simp_all

lemma sim_run_inv: "acc_inv s \<Longrightarrow> acc_inv (sim_run ops s)"
  by (induction ops arbitrary: s) (simp_all add: sim_exec_inv)

subsection \<open>What a command does to its accessory\<close>

lemma accessory_at_core: "acc_core s' = acc_core s \<Longrightarrow> accessory_at t a s' = accessory_at t a s"
  by (simp add: accessory_at_def acc_core_def accessory_of_def split: option.split)

lemma accessory_at_published [simp]:
  "accessory_at t a (mark_activity_locked u s) = accessory_at t a s"
  "accessory_at t a (publish_accessory_state_locked p b q u s) = accessory_at t a s"
  by (rule accessory_at_core, simp)+

text \<open>What an accessory shows after a command that was accepted when it showed \<open>old\<close>.\<close>

definition commanded :: "accessory_behavior \<Rightarrow> accessory_position \<Rightarrow> time \<Rightarrow> time \<Rightarrow> accessory_state \<Rightarrow> accessory_state" where
  "commanded b p now later old =
     (let x = old\<lparr> as_desired := p, as_last_command_at := Some now \<rparr>
      in case ab_mode b of
           BehaviorImmediate \<Rightarrow> x\<lparr> as_reported := p, as_pending := False, as_last_report_at := Some now \<rparr>
         | BehaviorDelayed \<Rightarrow>
             if later < now + ab_delay b then x\<lparr> as_pending := True \<rparr>
             else x\<lparr> as_reported := p, as_pending := False, as_last_report_at := Some (now + ab_delay b) \<rparr>
         | BehaviorNoConfirmation \<Rightarrow> x\<lparr> as_pending := True \<rparr>
         | BehaviorInconsistent \<Rightarrow>
             x\<lparr> as_reported := ab_reported_position b, as_pending := (ab_reported_position b \<noteq> p), as_last_report_at := Some now \<rparr>
         | BehaviorOther _ \<Rightarrow> x)"

lemma behavior_of_core: "acc_core s' = acc_core s \<Longrightarrow> behavior_of a s' = behavior_of a s"
  by (simp add: behavior_of_def acc_core_def)

lemma behavior_of_generation [simp]: "behavior_of a (new_generation b s) = behavior_of a s"
  by (simp add: behavior_of_def new_generation_def)

lemma accessory_effect_at:
  assumes "acc_inv s"
  shows "accessory_at later a (accessory_effect c now s) =
    (if a = ac_address c then commanded (behavior_of a s) (ac_position c) now later (accessory_of a s) else accessory_at later a s)"
proof -
  let ?c = "ac_address c" and ?s1 = "new_generation (ac_address c) s"
  have wf: "gm_wf (ss_accessories s)" "gm_wf (ss_reports s)" "gm_wf (ss_accessories ?s1)" "gm_wf (ss_reports ?s1)"
    using assms new_generation_inv [OF assms, of ?c] by (simp_all add: acc_inv_def)
  have mine: "map_of (ss_reports ?s1) ?c = None" by (rule new_generation_no_report [OF assms])
  have other: "map_of (ss_reports ?s1) a = map_of (ss_reports s) a" if "a \<noteq> ?c"
    using that wf by (simp add: new_generation_def map_of_gm_del)
  have put: "accessory_at later a (put_accessory ?c x ?s1) = (if a = ?c then x else accessory_at later a s)" for x
    using wf mine other by (auto simp: accessory_at_def put_accessory_def [of ?c x] accessory_of_put [of ?s1, unfolded put_accessory_def] split: option.split)
  have sched: "accessory_at later a (put_accessory ?c x (?s1\<lparr> ss_reports := gm_put ?c r (ss_reports ?s1) \<rparr>)) =
      (if a = ?c then if later < sr_due_at r then x
         else x\<lparr> as_reported := sr_position r, as_pending := False, as_last_report_at := Some (sr_due_at r) \<rparr>
       else accessory_at later a s)" for x r
    using wf other by (auto simp: accessory_at_def put_accessory_def accessory_of_def new_generation_def split: option.split)
  have pub: "accessory_at later a (put_accessory ?c x (publish_accessory_state_locked p b q t ?s1)) =
      accessory_at later a (put_accessory ?c x ?s1)" for x p b q t
    by (rule accessory_at_core) (simp add: acc_core_def put_accessory_def publish_accessory_state_locked_def)
  show ?thesis
    by (cases "ab_mode (behavior_of ?c s)")
      (simp_all add: accessory_effect_def Let_def put pub sched commanded_def)
qed

subsection \<open>Invalidation\<close>

text \<open>The operations that cancel the commands under way.\<close>

fun invalidates :: "sim_op \<Rightarrow> simulator \<Rightarrow> bool" where
  "invalidates DoClose s = True"
| "invalidates (DoReset _) s = True"
| "invalidates DoClearFaults s = True"
| "invalidates (DoConnectivity c _) s = (c \<noteq> None \<and> ss_connected s \<and> c \<noteq> Some (ss_connectivity s))"
| "invalidates _ s = False"

fun invalidations :: "sim_op list \<Rightarrow> simulator \<Rightarrow> nat" where
  "invalidations [] s = 0"
| "invalidations (op # ops) s = (if invalidates op s then 1 else 0) + invalidations ops (sim_exec op s)"

text \<open>What the admission of a command looks at.\<close>

definition link_core :: "simulator \<Rightarrow> _" where
  "link_core s = (ss_connected s, ss_connectivity s, ss_operation_epoch s, (sm_lifecycle s, sm_lifecycle_closed s))"

lemma link_simps [simp]:
  "link_core (publish_status_locked s) = link_core s"
  "link_core (publish_accessory_state_locked p a q t s) = link_core s"
  "link_core (mark_activity_locked t s) = link_core s"
  "link_core (power_effect on s) = link_core s"
  "link_core (note_feedback e s) = link_core s"
  "link_core (put_accessory a x s) = link_core s"
  "link_core (new_generation a s) = link_core s"
  by (simp_all add: link_core_def publish_status_locked_def publish_accessory_state_locked_def mark_activity_locked_def
      power_effect_def note_feedback_def put_accessory_def new_generation_def Let_def)

lemma link_updates [simp]:
  "link_core (s\<lparr> ss_reports := rs \<rparr>) = link_core s" "link_core (s\<lparr> ss_behaviors := bs \<rparr>) = link_core s"
  "link_core (s\<lparr> ss_locomotives := ls \<rparr>) = link_core s" "link_core (s\<lparr> ss_faults := fs \<rparr>) = link_core s"
  "link_core (s\<lparr> ss_electrical := e \<rparr>) = link_core s" "link_core (s\<lparr> ss_emergency_stop := b \<rparr>) = link_core s"
  "link_core (s\<lparr> sm_feedback := q \<rparr>) = link_core s"
  by (simp_all add: link_core_def)

lemma apply_due_link [simp]: "link_core (apply_due_reports now order s) = link_core s"
proof -
  have "link_core (apply_report now b s) = link_core s" for b s
    by (simp add: apply_report_def Let_def split: option.split)
  then show ?thesis unfolding apply_due_reports_def by (induction order arbitrary: s) simp_all
qed

lemma accessory_effect_link [simp]: "link_core (accessory_effect c now s) = link_core s"
  by (simp add: accessory_effect_def Let_def split: behavior_mode.split)

lemma command_run_link: "link_core (snd (command_run epoch c now order s)) = link_core s"
  by (cases c) (auto simp: sim_status_run_def track_power_run_def sim_emergency_stop_run_def loco_speed_run_def
      loco_function_run_def basic_accessory_run_def Let_def split: option.split prod.split sum.split if_splits)

lemma sim_exec_link:
  "case op of
     DoConnect _ \<Rightarrow> True | DoClose \<Rightarrow> True | DoReset _ \<Rightarrow> True | DoConnectivity _ _ \<Rightarrow> True | DoClearFaults \<Rightarrow> True
   | _ \<Rightarrow> link_core (sim_exec op s) = link_core s"
  by (cases op)
    (auto simp: command_run_link set_electrical_state_def set_track_power_state_def set_emergency_stop_state_def
      set_operation_fault_def command_begin_def operation_begin_def set_accessory_behavior_def report_accessory_position_def
      set_feedback_def set_feedback_atomic_def Let_def
      split: option.split station_command.split prod.split,
     simp_all add: link_core_def)

text \<open>The epoch counts invalidations; without one, a station that answers goes on answering.\<close>

lemma sim_exec_epoch:
  "ss_operation_epoch (sim_exec op s) = ss_operation_epoch s + (if invalidates op s then 1 else 0)"
  using sim_exec_link [of op s]
  by (cases op) (auto simp: link_core_def sim_connect_def sim_close_def sim_reset_def set_connectivity_def clear_faults_def
      publish_status_locked_def close_lifecycle_locked_def sim_ensure_def fail_if_def Let_def split: option.split)

lemma sim_exec_ready:
  assumes "\<not> invalidates op s" and "ss_connected s" and "active \<longrightarrow> ss_connectivity s \<noteq> Offline"
  shows "ss_connected (sim_exec op s) \<and> (active \<longrightarrow> ss_connectivity (sim_exec op s) \<noteq> Offline)"
  using assms sim_exec_link [of op s]
  by (cases op) (auto simp: link_core_def sim_connect_def set_connectivity_def clear_faults_def publish_status_locked_def
      sim_ensure_def fail_if_def Let_def split: option.split)

lemma sim_run_epoch: "ss_operation_epoch (sim_run ops s) = ss_operation_epoch s + of_nat (invalidations ops s)"
  by (induction ops arbitrary: s) (simp_all add: sim_exec_epoch algebra_simps)

lemma sim_run_ready:
  "invalidations ops s = 0 \<Longrightarrow> ss_connected s \<Longrightarrow> active \<longrightarrow> ss_connectivity s \<noteq> Offline \<Longrightarrow>
     ss_connected (sim_run ops s) \<and> (active \<longrightarrow> ss_connectivity (sim_run ops s) \<noteq> Offline)"
proof (induction ops arbitrary: s)
  case (Cons op ops)
  then show ?case using sim_exec_ready [of op s active] by (auto split: if_splits)
qed simp

lemma begun_ready:
  assumes "command_begin c s = (Inr (epoch, fault), s1)"
  shows "epoch = ss_operation_epoch s1 \<and> ss_connected s1 \<and> (command_active c \<longrightarrow> ss_connectivity s1 \<noteq> Offline)"
  using assms
  by (auto simp: command_begin_def operation_begin_def sim_ensure_def fail_if_def split: option.splits if_splits prod.splits station_command.splits)

lemma ready_after:
  assumes "command_begin c s = (Inr (epoch, fault), s1)" and "invalidations ops s1 < 2 ^ 64"
  shows "ensure_operation_ready_locked epoch (command_active c) (sim_run ops s1) =
    (if invalidations ops s1 = 0 then None else Some SimCanceled)"
proof (cases "invalidations ops s1 = 0")
  case True
  then show ?thesis
    using begun_ready [OF assms(1)] sim_run_ready [of ops s1 "command_active c"] sim_run_epoch [of ops s1]
    by (auto simp: ensure_operation_ready_locked_def sim_ensure_def fail_if_def)
next
  case False
  then have "(of_nat (invalidations ops s1) :: 64 word) \<noteq> 0"
    using assms(2) by (simp add: word_of_nat_eq_0_iff nat_dvd_not_less)
  then show ?thesis
    using False begun_ready [OF assms(1)] sim_run_epoch [of ops s1] by (simp add: ensure_operation_ready_locked_def)
qed

lemma run_not_ready:
  "ensure_operation_ready_locked epoch (command_active c) s = Some e \<Longrightarrow> command_run epoch c now order s = (Some e, s)"
  by (cases c) (simp_all add: sim_status_run_def track_power_run_def sim_emergency_stop_run_def loco_speed_run_def
      loco_function_run_def basic_accessory_run_def)

lemma run_ready:
  "ensure_operation_ready_locked epoch (command_active c) s = None \<Longrightarrow>
     fst (command_run epoch c now order s) \<notin> {Some SimCanceled, Some SimDisconnected, Some (SimStation ErrOffline)}"
  by (cases c) (simp_all add: sim_status_run_def track_power_run_def sim_emergency_stop_run_def loco_speed_run_def
      loco_function_run_def basic_accessory_run_def Let_def)

subsection \<open>The rhythm of a fault\<close>

text \<open>Whether a rule strikes at its \<open>j\<close>-th use: every so many uses, and at most so often.\<close>

definition strikes :: "operation_fault \<Rightarrow> int \<Rightarrow> bool" where
  "strikes f j \<longleftrightarrow>
     (let k = max 1 (of_every f) in k dvd j \<and> (of_remaining f = 0 \<or> j div k \<le> of_remaining f))"

text \<open>What is left of the rule after \<open>m\<close> uses.\<close>

definition rule_after :: "operation_fault \<Rightarrow> int \<Rightarrow> operation_fault option" where
  "rule_after f m =
     (let k = max 1 (of_every f); used = m div k
      in if of_remaining f \<noteq> 0 \<and> of_remaining f \<le> used then None
         else Some (f\<lparr> of_seen := (if of_every f > 1 then m else of_seen f),
                       of_remaining := (if of_remaining f = 0 then 0 else of_remaining f - used) \<rparr>))"

lemma div_Suc_cases:
  fixes k m :: int
  assumes "0 < k"
  shows "(m + 1) div k = m div k + (if k dvd m + 1 then 1 else 0)"
proof (cases "k dvd m + 1")
  case True
  then obtain q where q: "m + 1 = k * q" by blast
  then have "m = k * (q - 1) + (k - 1)" by (simp add: algebra_simps)
  then have "m div k = q - 1" using assms by simp
  then show ?thesis using True q assms by simp
next
  case False
  then have "1 < k" using assms by (cases "k = 1") auto
  then have "(m + 1) div k = m div k + (m mod k + 1) div k" by (simp add: div_add1_eq [of m 1 k])
  moreover have "m mod k + 1 \<noteq> k"
  proof
    assume "m mod k + 1 = k"
    then have "(m + 1) mod k = 0" by (metis mod_add_left_eq mod_self)
    with False show False by (simp add: dvd_eq_mod_eq_0)
  qed
  moreover have "0 \<le> m mod k" "m mod k < k" using assms by simp_all
  ultimately show ?thesis using False by (simp add: div_pos_pos_trivial)
qed

lemma apply_fault_rule_step:
  assumes f: "0 \<le> of_remaining f" "of_address f = 0 \<or> addresses = [of_address f]"
    and wf: "gm_wf faults" and rule: "map_of faults op = rule_after f m" and m: "0 \<le> m"
    and result: "apply_fault_rule op addresses faults = (fault, faults')"
  shows "(fault \<noteq> None \<longleftrightarrow> strikes f (m + 1)) \<and> gm_wf faults' \<and> map_of faults' op = rule_after f (m + 1)"
proof -
  let ?k = "max 1 (of_every f)"
  have k: "0 < ?k" by simp
  have next_div: "(m + 1) div ?k = m div ?k + (if ?k dvd m + 1 then 1 else 0)" by (rule div_Suc_cases [OF k])
  have used: "0 \<le> m div ?k" using m k by (simp add: pos_imp_zdiv_nonneg_iff)
  show ?thesis
  proof (cases "of_remaining f \<noteq> 0 \<and> of_remaining f \<le> m div ?k")
    case True
    then have "map_of faults op = None" using rule by (simp add: rule_after_def Let_def)
    then have "fault = None" "faults' = faults" using result by (simp_all add: apply_fault_rule_def)
    then show ?thesis
      using True wf \<open>map_of faults op = None\<close> next_div by (auto simp: rule_after_def strikes_def Let_def split: if_splits)
  next
    case False
    then have some: "map_of faults op = Some (f\<lparr> of_seen := (if of_every f > 1 then m else of_seen f),
        of_remaining := (if of_remaining f = 0 then 0 else of_remaining f - m div ?k) \<rparr>)"
      using rule by (simp add: rule_after_def Let_def)
    then have ex: "\<exists>y. map_of faults op = Some y" by blast
    show ?thesis
    proof (cases "of_every f > 1")
      case every: True
      have dvd: "(m + 1) mod of_every f = 0 \<longleftrightarrow> of_every f dvd m + 1" by (simp add: dvd_eq_mod_eq_0)
      show ?thesis
        using False f wf some ex every result next_div used dvd
        by (auto simp: apply_fault_rule_def rule_after_def strikes_def Let_def map_of_gm_del max_def split: if_splits)
    next
      case every: False
      then have "?k = 1" by simp
      then show ?thesis
        using False f wf some ex every result used
        by (auto simp: apply_fault_rule_def rule_after_def strikes_def Let_def map_of_gm_del max_def split: if_splits) (metis+)
    qed
  qed
qed

text \<open>The faults met by \<open>n\<close> admissions in a row.\<close>

fun admissions :: "nat \<Rightarrow> station_command \<Rightarrow> simulator \<Rightarrow> (sim_error + 64 word \<times> operation_fault option) list" where
  "admissions 0 c s = []"
| "admissions (Suc n) c s = (case command_begin c s of (r, s1) \<Rightarrow> r # admissions n c s1)"

definition admitted :: "bool \<Rightarrow> sim_error + 64 word \<times> operation_fault option \<Rightarrow> bool" where
  "admitted struck r = (case r of Inl _ \<Rightarrow> False | Inr (_, fault) \<Rightarrow> (fault \<noteq> None) = struck)"

lemma command_begin_faults:
  "ss_connected (snd (command_begin c s)) = ss_connected s \<and> ss_connectivity (snd (command_begin c s)) = ss_connectivity s"
  by (auto simp: command_begin_def operation_begin_def split: option.split station_command.split prod.split)

lemma admissions_rhythm:
  assumes f: "0 \<le> of_remaining f" "of_address f = 0 \<or> command_addresses c = [of_address f]"
    and accepted: "case c of AccessoryCommand a \<Rightarrow> accessory_command_validate a = None | _ \<Rightarrow> True"
    and ready: "ss_connected s" "command_active c \<longrightarrow> ss_connectivity s \<noteq> Offline"
    and wf: "gm_wf (ss_faults s)" and rule: "map_of (ss_faults s) (command_operation c) = rule_after f m" and m: "0 \<le> m"
  shows "list_all2 admitted (map (\<lambda>i. strikes f (m + int i)) [1..<Suc n]) (admissions n c s)"
  using ready wf rule m
proof (induction n arbitrary: s m)
  case (Suc n)
  obtain fault faults' where step: "apply_fault_rule (command_operation c) (command_addresses c) (ss_faults s) = (fault, faults')"
    by fastforce
  have begun: "command_begin c s = (Inr (ss_operation_epoch s, fault), s\<lparr> ss_faults := faults' \<rparr>)"
    using accepted Suc.prems(1,2) step
    by (cases c) (auto simp: command_begin_def operation_begin_def sim_ensure_def fail_if_def)
  note after = apply_fault_rule_step [OF f Suc.prems(3,4,5) step]
  have rest: "list_all2 admitted (map (\<lambda>i. strikes f (m + 1 + int i)) [1..<Suc n]) (admissions n c (s\<lparr> ss_faults := faults' \<rparr>))"
    using Suc.prems after by (intro Suc.IH) simp_all
  have range: "[1..<Suc (Suc n)] = 1 # map Suc [1..<Suc n]" by (simp add: map_Suc_upt upt_conv_Cons)
  have "map (\<lambda>i. strikes f (m + int i)) [1..<Suc (Suc n)] = strikes f (m + 1) # map (\<lambda>i. strikes f (m + 1 + int i)) [1..<Suc n]"
    by (simp only: range list.map map_map o_def) (simp add: ac_simps)
  moreover have "admitted (strikes f (m + 1)) (Inr (ss_operation_epoch s, fault))" using after by (simp add: admitted_def)
  ultimately show ?case using begun rest by (simp del: upt_Suc)
qed simp

lemma faults_simps [simp]:
  "ss_faults (publish_status_locked s) = ss_faults s"
  "ss_faults (publish_accessory_state_locked p a q t s) = ss_faults s"
  "ss_faults (mark_activity_locked t s) = ss_faults s"
  "ss_faults (power_effect on s) = ss_faults s"
  "ss_faults (note_feedback e s) = ss_faults s"
  "ss_faults (put_accessory a x s) = ss_faults s"
  "ss_faults (new_generation a s) = ss_faults s"
  "ss_faults (close_lifecycle_locked s) = ss_faults s"
  by (simp_all add: publish_status_locked_def publish_accessory_state_locked_def mark_activity_locked_def
      power_effect_def note_feedback_def put_accessory_def new_generation_def close_lifecycle_locked_def Let_def)

lemma apply_due_faults [simp]: "ss_faults (apply_due_reports now order s) = ss_faults s"
proof -
  have "ss_faults (apply_report now b s) = ss_faults s" for b s
    by (simp add: apply_report_def Let_def split: option.split)
  then show ?thesis unfolding apply_due_reports_def by (induction order arbitrary: s) simp_all
qed

lemma accessory_effect_faults [simp]: "ss_faults (accessory_effect c now s) = ss_faults s"
  by (simp add: accessory_effect_def Let_def split: behavior_mode.split)

lemma command_run_faults [simp]: "ss_faults (snd (command_run epoch c now order s)) = ss_faults s"
  by (cases c) (auto simp: sim_status_run_def track_power_run_def sim_emergency_stop_run_def loco_speed_run_def
      loco_function_run_def basic_accessory_run_def Let_def split: option.split prod.split sum.split if_splits)

lemma apply_fault_rule_wf: "gm_wf faults \<Longrightarrow> apply_fault_rule op addresses faults = (fault, faults') \<Longrightarrow> gm_wf faults'"
  by (auto simp: apply_fault_rule_def Let_def split: option.splits if_splits)

lemma sim_exec_faults_wf: "gm_wf (ss_faults s) \<Longrightarrow> gm_wf (ss_faults (sim_exec op s))"
  by (cases op)
    (auto simp: sim_connect_def sim_close_def sim_reset_def new_state_def set_connectivity_def set_electrical_state_def
      set_track_power_state_def set_emergency_stop_state_def set_operation_fault_def clear_faults_def command_begin_def
      operation_begin_def set_accessory_behavior_def report_accessory_position_def set_feedback_def set_feedback_atomic_def
      Let_def dest: apply_fault_rule_wf split: option.split station_command.split prod.split)

lemma sim_run_faults_wf: "gm_wf (ss_faults s) \<Longrightarrow> gm_wf (ss_faults (sim_run ops s))"
  by (induction ops arbitrary: s) (simp_all add: sim_exec_faults_wf)

subsection \<open>Properties\<close>

text \<open>The operations that leave an accessory alone and happen no later than an instant.\<close>

fun leaves_alone :: "int \<Rightarrow> time \<Rightarrow> sim_op \<Rightarrow> bool" where
  "leaves_alone a later (DoReset _) = False"
| "leaves_alone a later (DoRun _ c now _) =
     (case c of AccessoryCommand k \<Rightarrow> ac_address k \<noteq> a \<and> now \<le> later | _ \<Rightarrow> True)"
| "leaves_alone a later (DoBehavior _ _ now _) = (now \<le> later)"
| "leaves_alone a later (DoReport b _ _ now _) = (b \<noteq> a \<and> now \<le> later)"
| "leaves_alone a later (DoRead now _) = (now \<le> later)"
| "leaves_alone a later _ = True"

lemma basic_accessory_at:
  assumes "acc_inv s" and "basic_accessory_run epoch c now order s = (None, s')"
  shows "accessory_at later a s' =
    (if a = ac_address c then commanded (behavior_of a s) (ac_position c) now later (accessory_of a (apply_due_reports now order s))
     else accessory_at later a (apply_due_reports now order s))"
proof -
  have "s' = mark_activity_locked now (accessory_effect c now (apply_due_reports now order s))"
    using assms(2) by (auto simp: basic_accessory_run_def split: option.splits)
  moreover have "behavior_of a (apply_due_reports now order s) = behavior_of a s"
    unfolding apply_due_reports_def
    by (induction order arbitrary: s) (simp_all add: behavior_of_def apply_report_fields)
  ultimately show ?thesis using accessory_effect_at [OF apply_due_inv [OF assms(1), of now order], of later a c now] by auto
qed

lemma command_at_alone:
  assumes "acc_inv s" and "leaves_alone a later (DoRun epoch c now order)"
  shows "accessory_at later a (snd (command_run epoch c now order s)) = accessory_at later a s"
proof (cases "\<exists>k. c = AccessoryCommand k")
  case True
  then obtain k where k: "c = AccessoryCommand k" ..
  show ?thesis
  proof (cases "fst (basic_accessory_run epoch k now order s)")
    case None
    then have "basic_accessory_run epoch k now order s = (None, snd (basic_accessory_run epoch k now order s))"
      by (metis prod.collapse)
    from basic_accessory_at [OF assms(1) this] show ?thesis using assms k by (simp add: accessory_at_due)
  next
    case (Some e)
    then show ?thesis using k by (auto simp: basic_accessory_run_def split: option.splits)
  qed
next
  case False
  then show ?thesis using accessory_at_core [OF command_run_core] by blast
qed

lemma sim_exec_at:
  assumes "acc_inv s" and "leaves_alone a later op"
  shows "accessory_at later a (sim_exec op s) = accessory_at later a s"
proof (cases op)
  case (DoRun epoch c now order)
  then show ?thesis using command_at_alone assms by simp
next
  case (DoReport b p q now order)
  have inv: "acc_inv (apply_due_reports now order s)" by (rule apply_due_inv [OF assms(1)])
  have wf: "gm_wf (ss_accessories (new_generation b (apply_due_reports now order s)))"
    using new_generation_inv [OF inv] by (simp add: acc_inv_def)
  have other: "accessory_at later a (new_generation b (apply_due_reports now order s)) = accessory_at later a (apply_due_reports now order s)"
    using DoReport assms(2) inv by (simp add: accessory_at_def new_generation_def accessory_of_def map_of_gm_del acc_inv_def split: option.split)
  have put: "accessory_at later a (put_accessory b x s') = accessory_at later a s'" if "gm_wf (ss_accessories s')" for x s'
    using that DoReport assms(2) by (auto simp: accessory_at_def put_accessory_def accessory_of_def split: option.split)
  show ?thesis
    using DoReport assms by (simp add: report_accessory_position_def Let_def put [OF wf] other accessory_at_due)
next
  case (DoBehavior b k now order)
  have "accessory_at later a (s'\<lparr> ss_behaviors := bs \<rparr>) = accessory_at later a s'" for s' bs
    by (simp add: accessory_at_def accessory_of_def split: option.split)
  then show ?thesis using DoBehavior assms
    by (simp add: set_accessory_behavior_def Let_def accessory_at_due split: option.split)
next
  case (DoRead now order)
  then show ?thesis using assms by (simp add: accessory_at_due)
next
  case (DoReset now)
  then show ?thesis using assms(2) by simp
qed (use sim_exec_core [of op s] accessory_at_core [of "sim_exec op s" s later a] in simp_all)

lemma sim_run_at:
  "acc_inv s \<Longrightarrow> list_all (leaves_alone a later) ops \<Longrightarrow> accessory_at later a (sim_run ops s) = accessory_at later a s"
  by (induction ops arbitrary: s) (simp_all add: sim_exec_at sim_exec_inv)

text \<open>C14: Accessories settle as their behaviour says although reports are only applied when somebody
  looks. After a command to an accessory in a reachable state, whatever happens next to the
  simulator that leaves this accessory alone (commands to others, reads, closing, connecting,
  faults), a read at any later instant shows what the behaviour configured at the command demands:
  the commanded position at once, or from the delay on, or never, or another one; and an
  accessory that is not pending reports the desired position.\<close>

theorem accessory_settles:
  assumes "s = sim_run before new_simulator"
    and "fst ` set (ss_reports s) \<subseteq> set order"
    and "basic_accessory_run epoch c now order s = (None, s1)"
    and "list_all (leaves_alone (ac_address c) later) after" and "s2 = sim_run after s1"
    and "fst ` set (ss_reports s2) \<subseteq> set order2"
  shows "fst (sim_accessory (ac_address c) later order2 s2) =
      commanded (behavior_of (ac_address c) s) (ac_position c) now later (fst (sim_accessory (ac_address c) now order s)) \<and>
    settled (fst (sim_accessory a later order2 s2))"
proof -
  have inv: "acc_inv s" using assms(1) sim_run_inv new_state_inv(2) by blast
  have inv1: "acc_inv s1"
    using command_run_inv [OF inv, of epoch "AccessoryCommand c" now order] assms(3) by simp
  have inv2: "acc_inv s2" using assms(5) sim_run_inv [OF inv1] by simp
  have covers: "map_of rs b \<noteq> None \<Longrightarrow> b \<in> set ord" if "fst ` set rs \<subseteq> set ord" for rs :: "(int, scheduled_report) gomap" and b ord
    using that by (auto simp: map_of_eq_None_iff)
  have "accessory_of (ac_address c) (apply_due_reports later order2 s2) = accessory_at later (ac_address c) s2"
    using covers assms(6) by (intro apply_due_accessory [OF inv2]) blast
  then have "fst (sim_accessory (ac_address c) later order2 s2) =
      commanded (behavior_of (ac_address c) s) (ac_position c) now later (fst (sim_accessory (ac_address c) now order s))"
    using assms(5) sim_run_at [OF inv1 assms(4)] basic_accessory_at [OF inv assms(3)] by (simp add: sim_accessory_def Let_def)
  moreover have "settled (fst (sim_accessory a later order2 s2))"
    using apply_due_inv [OF inv2, of later order2] by (simp add: sim_accessory_def Let_def acc_inv_def)
  ultimately show ?thesis by simp
qed

definition sample_ops :: "sim_op list" where
  "sample_ops = [DoConnect 5, DoBehavior 3 \<lparr> ab_mode = BehaviorDelayed, ab_delay = 100, ab_reported_position = NoPosition \<rparr> 6 []]"

definition sample_command :: accessory_command where
  "sample_command = \<lparr> ac_address = 3, ac_position = Position2 \<rparr>"

theorem accessory_settles_witness:
  "as_reported (fst (sim_accessory 3 120 [3] (sim_run [DoRead 50 [3], DoClose]
     (snd (basic_accessory_run 0 sample_command 10 [] (sim_run sample_ops new_simulator)))))) = Position2"
proof -
  let ?s = "sim_run sample_ops new_simulator" and ?after = "[DoRead 50 [3], DoClose] :: sim_op list"
  let ?s1 = "snd (basic_accessory_run 0 sample_command 10 [] ?s)"
  have "fst ` set (ss_reports ?s) \<subseteq> set []" by code_simp
  moreover have "basic_accessory_run 0 sample_command 10 [] ?s = (None, ?s1)" by code_simp
  moreover have "list_all (leaves_alone (ac_address sample_command) 120) ?after" by code_simp
  moreover have "fst ` set (ss_reports (sim_run ?after ?s1)) \<subseteq> set [3]" by code_simp
  ultimately have "fst (sim_accessory (ac_address sample_command) 120 [3] (sim_run ?after ?s1)) =
      commanded (behavior_of (ac_address sample_command) ?s) (ac_position sample_command) 10 120
        (fst (sim_accessory (ac_address sample_command) 10 [] ?s))"
    using accessory_settles [OF refl, of sample_ops "[]" 0 sample_command 10 ?s1 120 ?after "sim_run ?after ?s1" "[3]"] by blast
  moreover have "behavior_of (ac_address sample_command) ?s = \<lparr> ab_mode = BehaviorDelayed, ab_delay = 100, ab_reported_position = NoPosition \<rparr>"
    by code_simp
  ultimately show ?thesis by (simp add: commanded_def sample_command_def)
qed

text \<open>C11: Closing, resetting, clearing the faults or changing the connectivity cancels every command under
  way, and nothing else does. A command that was admitted, and waited while other operations
  ran, fails with the cancellation when one of these ran among them, when it leaves the wait and
  also when it takes effect, which then changes nothing; otherwise it meets the
  fault it drew and no other refusal for its connection. An epoch of 64 bits cannot come round in between.\<close>

theorem invalidation_cancels_commands:
  assumes "command_begin c s = (Inr (epoch, fault), s1)" and "s2 = sim_run ops s1" and "invalidations ops s1 < 2 ^ 64"
  shows "if invalidations ops s1 = 0
    then operation_admit epoch (command_active c) fault False False s2 =
           (case fault of None \<Rightarrow> None | Some f \<Rightarrow> map_option SimInjected (of_error f)) \<and>
         fst (command_run epoch c now order s2) \<notin> {Some SimCanceled, Some SimDisconnected, Some (SimStation ErrOffline)}
    else operation_admit epoch (command_active c) fault False False s2 = Some SimCanceled \<and>
         command_run epoch c now order s2 = (Some SimCanceled, s2)"
proof (cases "invalidations ops s1 = 0")
  case True
  then have ready: "ensure_operation_ready_locked epoch (command_active c) s2 = None"
    using ready_after [OF assms(1,3)] assms(2) by simp
  then show ?thesis using True run_ready [OF ready] by (simp add: operation_admit_def split: option.split)
next
  case False
  then have ready: "ensure_operation_ready_locked epoch (command_active c) s2 = Some SimCanceled"
    using ready_after [OF assms(1,3)] assms(2) by simp
  then show ?thesis using False run_not_ready [OF ready] by (simp add: operation_admit_def split: option.split)
qed

theorem invalidation_cancels_commands_witness:
  "command_run 0 (PowerCommand True) 9 [] (sim_run [DoClearFaults] (sim_run [DoConnect 5] new_simulator)) =
     (Some SimCanceled, sim_run [DoClearFaults] (sim_run [DoConnect 5] new_simulator))"
proof -
  have "command_begin (PowerCommand True) (sim_run [DoConnect 5] new_simulator) = (Inr (0, None), sim_run [DoConnect 5] new_simulator)"
    by code_simp
  from invalidation_cancels_commands [OF this refl, of "[DoClearFaults]" 9 "[]"] show ?thesis by simp
qed

text \<open>An injected fault strikes in the rhythm its rule announces. Of the uses of an operation
  after a rule was set for it, with an address that matches, exactly every so many meets the
  fault (each one without that setting), and no more than the announced number when there is one;
  all others go through, however long the series.\<close>

theorem faults_strike_in_rhythm:
  assumes "s = sim_run ops new_simulator"
    and "set_operation_fault (command_operation c) f s = (None, s1)" and "of_seen f = 0"
    and "of_address f = 0 \<or> command_addresses c = [of_address f]"
    and "ss_connected s" and "command_active c \<longrightarrow> ss_connectivity s \<noteq> Offline"
    and "case c of AccessoryCommand a \<Rightarrow> accessory_command_validate a = None | _ \<Rightarrow> True"
  shows "list_all2 admitted (map (\<lambda>i. strikes f (int i)) [1..<Suc n]) (admissions n c s1)"
proof -
  have wf: "gm_wf (ss_faults s)" using assms(1) sim_run_faults_wf [of new_simulator ops] by (simp add: new_simulator_def)
  have s1: "s1 = s\<lparr> ss_faults := gm_put (command_operation c) f (ss_faults s) \<rparr>" and nonneg: "0 \<le> of_remaining f"
    using assms(2) by (auto simp: set_operation_fault_def split: if_splits)
  have "map_of (ss_faults s1) (command_operation c) = rule_after f 0"
    using s1 wf nonneg assms(3) by (simp add: rule_after_def)
  then show ?thesis
    using admissions_rhythm [OF nonneg assms(4,7), of s1 0 n] s1 wf assms(5,6) by simp
qed

theorem faults_strike_in_rhythm_witness:
  "list_all2 admitted [False, False, True, False, False, True, False, False, False]
     (admissions 9 (PowerCommand True) (snd (set_operation_fault OpTrackPower
        \<lparr> of_delay = 0, of_error = Some ''x'', of_remaining = 2, of_address = 0, of_every = 3, of_seen = 0 \<rparr>
        (sim_run [DoConnect 5] new_simulator))))"
proof -
  let ?f = "\<lparr> of_delay = 0, of_error = Some ''x'', of_remaining = 2, of_address = 0, of_every = 3, of_seen = 0 \<rparr>"
  let ?s = "sim_run [DoConnect 5] new_simulator"
  have "set_operation_fault (command_operation (PowerCommand True)) ?f ?s = (None, snd (set_operation_fault OpTrackPower ?f ?s))"
    by code_simp
  moreover have "ss_connected ?s" "ss_connectivity ?s \<noteq> Offline" by code_simp+
  ultimately have "list_all2 admitted (map (\<lambda>i. strikes ?f (int i)) [1..<Suc 9])
      (admissions 9 (PowerCommand True) (snd (set_operation_fault OpTrackPower ?f ?s)))"
    by (intro faults_strike_in_rhythm [OF refl [of ?s]]) simp_all
  moreover have "map (\<lambda>i. strikes ?f (int i)) [1..<Suc 9] = [False, False, True, False, False, True, False, False, False]"
    by code_simp
  ultimately show ?thesis by simp
qed

end
