(* ===== verification/Scenario.thy ===== *)
theory Scenario
  imports Simulator
begin

text \<open>
  Scenarios of the simulated station, \<^verbatim>\<open>internal/station/simulator/scenario\<close>: the reading
  of a scenario document (\<^verbatim>\<open>scenario.go\<close>) and the runner that applies its steps
  (\<^verbatim>\<open>runner.go\<close>), by hand on a logical clock or in real time. What
  \<^verbatim>\<open>encoding/json\<close> makes of a document and \<^verbatim>\<open>time.ParseDuration\<close> of
  a text is an argument of the definitions, a \<open>scenario_env\<close>; every check on the decoded values is
  here. A text field that is absent is the empty text, as in the code, and a pointer field that is
  absent is \<open>None\<close>.
\<close>

subsection \<open>Documents\<close>

definition CurrentVersion :: int where "CurrentVersion = 2"

datatype action =
    ActionStationConnectivity
  | ActionStationTrackPower
  | ActionStationEmergency
  | ActionStationElectrical
  | ActionFeedbackSet
  | ActionFeedbackEmit
  | ActionAccessoryReport
  | ActionAccessoryBehavior
  | ActionFaultOperation
  | ActionFaultClear
  | ActionSimulatorReset
  | ActionOther string

text \<open>
  A connectivity of a document is \<open>None\<close> for a text that is none of the three. The structures
  that are decoded repeat the instant and the action of the header, which nothing reads.
\<close>

record raw_definition =
  rd_version :: "int option"
  rd_name :: string
  rd_initial :: "string option"
  rd_steps :: "string list option"

record raw_initial =
  ri_connectivity :: "connectivity option option"
  ri_track_power :: "bool option"
  ri_emergency_stop :: "bool option"
  ri_electrical :: "electrical_state option"

record step_header =
  sh_at :: string
  sh_action :: action

record connectivity_step =
  cs_connectivity :: "connectivity option option"

record track_power_step =
  tp_on :: "bool option"

record emergency_step =
  es_active :: "bool option"

record electrical_step =
  es_electrical :: "electrical_state option"

record feedback_set_step =
  fs_source :: string
  fs_kind :: string
  fs_address :: "int option"
  fs_active :: "bool option"
  fs_emit :: "bool option"

record feedback_emit_step =
  fe_source :: string
  fe_kind :: string
  fe_address :: "int option"
  fe_active :: "bool option"

record accessory_report_step =
  ar_address :: "int option"
  ar_position :: accessory_position
  ar_quality :: report_quality
  ar_state :: string

record accessory_behavior_step =
  br_address :: "int option"
  br_mode :: behavior_mode
  br_delay :: string
  br_reported_position :: accessory_position
  br_reported_state :: string

record fault_operation_step =
  fo_operation :: operation
  fo_delay :: string
  fo_error :: string
  fo_remaining :: "int option"
  fo_address :: "int option"
  fo_every :: "int option"

text \<open>What follows the value that was decoded.\<close>

datatype trailing = TrailingEnd | TrailingValue | TrailingGarbage string

record scenario_env =
  sc_duration :: "string \<Rightarrow> duration option"
  sc_trailing :: "string \<Rightarrow> trailing"
  sc_definition :: "string \<Rightarrow> string + raw_definition"
  sc_initial :: "string \<Rightarrow> string + raw_initial"
  sc_header :: "string \<Rightarrow> string + step_header"
  sc_connectivity :: "string \<Rightarrow> string + connectivity_step"
  sc_track_power :: "string \<Rightarrow> string + track_power_step"
  sc_emergency :: "string \<Rightarrow> string + emergency_step"
  sc_electrical :: "string \<Rightarrow> string + electrical_step"
  sc_feedback_set :: "string \<Rightarrow> string + feedback_set_step"
  sc_feedback_emit :: "string \<Rightarrow> string + feedback_emit_step"
  sc_accessory_report :: "string \<Rightarrow> string + accessory_report_step"
  sc_accessory_behavior :: "string \<Rightarrow> string + accessory_behavior_step"
  sc_fault_operation :: "string \<Rightarrow> string + fault_operation_step"
  sc_empty :: "string \<Rightarrow> string + unit"

datatype step_problem =
    DecodeFailed string
  | TrailingJSON
  | HeaderFailed string
  | AtRequired
  | AtInvalid string
  | AtNegative
  | ActionRequired
  | ActionUnsupported action
  | ConnectivityRequired
  | ConnectivityUnsupported
  | OnRequired
  | ActiveRequired
  | ElectricalRequired
  | SourceRequired
  | KindRequired
  | AddressRequired
  | AddressNegative
  | EmitRequired
  | AddressRange
  | QualityUnsupported report_quality
  | PositionRequiresVersion2
  | LegacyReportState string
  | StateOnlyVersion1
  | PositionUnsupported accessory_position
  | ReportedPositionRequiresVersion2
  | LegacyReportedState string
  | ReportedStateOnlyVersion1
  | ReportedPositionMisplaced
  | DelayMissing
  | ReportedPositionUnsupported accessory_position
  | ModeUnsupported behavior_mode
  | DurationInvalid string
  | DurationNegative
  | OperationUnsupported operation
  | RemainingNegative
  | EveryNegative
  | FaultEmpty
  | AddressNotAccessory

datatype scenario_problem =
    ScenarioDecode step_problem
  | VersionRequired
  | VersionUnsupported int
  | NameRequired
  | InitialRequired
  | StepsRequired
  | InitialDecode step_problem
  | InitialConnectivity
  | StepProblem nat step_problem
  | StepBefore nat duration duration

record initial =
  in_connectivity :: "connectivity option option"
  in_track_power :: "bool option"
  in_emergency_stop :: "bool option"
  in_electrical :: "electrical_state option"

record feedback_payload =
  fp_source :: string
  fp_kind :: string
  fp_address :: int
  fp_active :: bool
  fp_emit :: bool

record accessory_report_payload =
  rp_address :: int
  rp_position :: accessory_position
  rp_quality :: report_quality

record accessory_behavior_payload =
  bp_address :: int
  bp_behavior :: accessory_behavior

record fault_payload =
  lp_operation :: operation
  lp_fault :: operation_fault
  lp_message :: string

datatype payload =
    ConnectivityPayload "connectivity option"
  | BoolPayload bool
  | ElectricalPayload electrical_state
  | FeedbackPayload feedback_payload
  | ReportPayload accessory_report_payload
  | BehaviorPayload accessory_behavior_payload
  | FaultPayload fault_payload
  | EmptyPayload

record scenario_step =
  sp_at :: duration
  sp_action :: action
  sp_payload :: payload

record scenario_definition =
  sd_version :: int
  sd_name :: string
  sd_initial :: initial
  sd_steps :: "scenario_step list"

subsection \<open>Checks\<close>

definition valid_connectivity :: "connectivity option \<Rightarrow> bool" where
  "valid_connectivity c \<longleftrightarrow> c \<in> {Some Online, Some Degraded, Some Offline}"

definition decode_strict :: "scenario_env \<Rightarrow> (string \<Rightarrow> string + 'a) \<Rightarrow> string \<Rightarrow> step_problem + 'a" where
  "decode_strict env decode data =
     (case decode data of
        Inl e \<Rightarrow> Inl (DecodeFailed e)
      | Inr v \<Rightarrow>
          (case sc_trailing env data of
             TrailingEnd \<Rightarrow> Inr v
           | TrailingValue \<Rightarrow> Inl TrailingJSON
           | TrailingGarbage e \<Rightarrow> Inl (DecodeFailed e)))"

definition validate_address :: "int option \<Rightarrow> step_problem option" where
  "validate_address a = (case a of None \<Rightarrow> Some AddressRequired | Some n \<Rightarrow> fail_if (n < 0) AddressNegative)"

definition validate_accessory_address :: "int option \<Rightarrow> step_problem option" where
  "validate_accessory_address a =
     (case a of
        None \<Rightarrow> Some AddressRequired
      | Some n \<Rightarrow> fail_if (n < MinBasicAccessoryAddress \<or> n > MaxBasicAccessoryAddress) AddressRange)"

definition parse_feedback :: "string \<Rightarrow> string \<Rightarrow> int option \<Rightarrow> bool option \<Rightarrow> step_problem + feedback_payload" where
  "parse_feedback source kind address active =
     (if trim_space source = [] then Inl SourceRequired
      else if trim_space kind = [] then Inl KindRequired
      else case validate_address address of
        Some e \<Rightarrow> Inl e
      | None \<Rightarrow>
          (case active of
             None \<Rightarrow> Inl ActiveRequired
           | Some b \<Rightarrow> Inr \<lparr> fp_source = source, fp_kind = kind, fp_address = the address, fp_active = b, fp_emit = False \<rparr>))"

definition legacy_accessory_position :: "string \<Rightarrow> accessory_position option" where
  "legacy_accessory_position state =
     (if state = ''straight'' then Some Position1
      else if state = ''diverging'' then Some Position2
      else None)"

definition parse_accessory_report ::
  "int \<Rightarrow> accessory_report_step \<Rightarrow> step_problem + accessory_position \<times> report_quality" where
  "parse_accessory_report version raw =
     (let quality = (if ar_quality raw = NoQuality then QualityStation else ar_quality raw)
      in if \<not> quality_valid quality then Inl (QualityUnsupported quality)
         else if version = 1 then
           (if ar_position raw \<noteq> NoPosition \<or> ar_quality raw \<noteq> NoQuality then Inl PositionRequiresVersion2
            else case legacy_accessory_position (ar_state raw) of
              None \<Rightarrow> Inl (LegacyReportState (ar_state raw))
            | Some position \<Rightarrow> Inr (position, quality))
         else if ar_state raw \<noteq> [] then Inl StateOnlyVersion1
         else if \<not> position_valid (ar_position raw) then Inl (PositionUnsupported (ar_position raw))
         else Inr (ar_position raw, quality))"

definition parse_accessory_behavior_position :: "int \<Rightarrow> accessory_behavior_step \<Rightarrow> step_problem + accessory_position" where
  "parse_accessory_behavior_position version raw =
     (if version = 1 then
        (if br_reported_position raw \<noteq> NoPosition then Inl ReportedPositionRequiresVersion2
         else if br_reported_state raw = [] then Inr NoPosition
         else case legacy_accessory_position (br_reported_state raw) of
           None \<Rightarrow> Inl (LegacyReportedState (br_reported_state raw))
         | Some position \<Rightarrow> Inr position)
      else if br_reported_state raw \<noteq> [] then Inl ReportedStateOnlyVersion1
      else Inr (br_reported_position raw))"

definition optional_duration :: "scenario_env \<Rightarrow> string \<Rightarrow> step_problem + duration" where
  "optional_duration env text =
     (if text = [] then Inr 0
      else case sc_duration env text of
        None \<Rightarrow> Inl (DurationInvalid text)
      | Some d \<Rightarrow> if d < 0 then Inl DurationNegative else Inr d)"

definition validate_accessory_behavior :: "accessory_behavior \<Rightarrow> step_problem option" where
  "validate_accessory_behavior b =
     (case ab_mode b of
        BehaviorDelayed \<Rightarrow>
          or_else (fail_if (ab_delay b \<le> 0) DelayMissing)
            (fail_if (ab_reported_position b \<noteq> NoPosition) ReportedPositionMisplaced)
      | BehaviorInconsistent \<Rightarrow>
          fail_if (\<not> position_valid (ab_reported_position b)) (ReportedPositionUnsupported (ab_reported_position b))
      | BehaviorOther m \<Rightarrow> Some (ModeUnsupported (BehaviorOther m))
      | _ \<Rightarrow> fail_if (ab_reported_position b \<noteq> NoPosition) ReportedPositionMisplaced)"

subsection \<open>Steps\<close>

text \<open>The branches of the switch in \<^verbatim>\<open>parseStep\<close> with checks of their own.\<close>

definition parse_report_step :: "scenario_env \<Rightarrow> int \<Rightarrow> string \<Rightarrow> step_problem + payload" where
  "parse_report_step env version data =
     rbind (decode_strict env (sc_accessory_report env) data) (\<lambda>raw.
       case validate_accessory_address (ar_address raw) of
         Some e \<Rightarrow> Inl e
       | None \<Rightarrow>
           rbind (parse_accessory_report version raw) (\<lambda>(position, quality).
             Inr (ReportPayload \<lparr> rp_address = the (ar_address raw), rp_position = position, rp_quality = quality \<rparr>)))"

definition parse_behavior_step :: "scenario_env \<Rightarrow> int \<Rightarrow> string \<Rightarrow> step_problem + payload" where
  "parse_behavior_step env version data =
     rbind (decode_strict env (sc_accessory_behavior env) data) (\<lambda>raw.
       case validate_accessory_address (br_address raw) of
         Some e \<Rightarrow> Inl e
       | None \<Rightarrow>
           rbind (optional_duration env (br_delay raw)) (\<lambda>delay.
           rbind (parse_accessory_behavior_position version raw) (\<lambda>position.
             let b = \<lparr> ab_mode = br_mode raw, ab_delay = delay, ab_reported_position = position \<rparr>
             in case validate_accessory_behavior b of
                  Some e \<Rightarrow> Inl e
                | None \<Rightarrow> Inr (BehaviorPayload \<lparr> bp_address = the (br_address raw), bp_behavior = b \<rparr>))))"

definition fault_payload_of :: "fault_operation_step \<Rightarrow> duration \<Rightarrow> step_problem + payload" where
  "fault_payload_of raw delay =
     (let remaining = (case fo_remaining raw of None \<Rightarrow> 0 | Some n \<Rightarrow> n);
          every = (case fo_every raw of None \<Rightarrow> 0 | Some n \<Rightarrow> n);
          address = (case fo_address raw of None \<Rightarrow> 0 | Some n \<Rightarrow> n)
      in if remaining < 0 then Inl RemainingNegative
         else if every < 0 then Inl EveryNegative
         else if delay = 0 \<and> fo_error raw = [] then Inl FaultEmpty
         else
           case (if fo_address raw = None then None
                 else or_else (validate_accessory_address (fo_address raw))
                   (fail_if (fo_operation raw \<noteq> OpAccessory) AddressNotAccessory)) of
             Some e \<Rightarrow> Inl e
           | None \<Rightarrow> Inr (FaultPayload \<lparr> lp_operation = fo_operation raw,
               lp_fault = \<lparr> of_delay = delay, of_error = None, of_remaining = remaining, of_address = address,
                            of_every = every, of_seen = 0 \<rparr>,
               lp_message = fo_error raw \<rparr>))"

definition parse_fault_step :: "scenario_env \<Rightarrow> string \<Rightarrow> step_problem + payload" where
  "parse_fault_step env data =
     rbind (decode_strict env (sc_fault_operation env) data) (\<lambda>raw.
       if \<not> valid_operation (fo_operation raw) then Inl (OperationUnsupported (fo_operation raw))
       else rbind (optional_duration env (fo_delay raw)) (fault_payload_of raw))"

fun parse_payload :: "scenario_env \<Rightarrow> int \<Rightarrow> action \<Rightarrow> string \<Rightarrow> step_problem + payload" where
  "parse_payload env version ActionStationConnectivity data =
     rbind (decode_strict env (sc_connectivity env) data) (\<lambda>raw.
       case cs_connectivity raw of
         None \<Rightarrow> Inl ConnectivityRequired
       | Some c \<Rightarrow> if \<not> valid_connectivity c then Inl ConnectivityUnsupported else Inr (ConnectivityPayload c))"
| "parse_payload env version ActionStationTrackPower data =
     rbind (decode_strict env (sc_track_power env) data) (\<lambda>raw.
       case tp_on raw of None \<Rightarrow> Inl OnRequired | Some b \<Rightarrow> Inr (BoolPayload b))"
| "parse_payload env version ActionStationEmergency data =
     rbind (decode_strict env (sc_emergency env) data) (\<lambda>raw.
       case es_active raw of None \<Rightarrow> Inl ActiveRequired | Some b \<Rightarrow> Inr (BoolPayload b))"
| "parse_payload env version ActionStationElectrical data =
     rbind (decode_strict env (sc_electrical env) data) (\<lambda>raw.
       case es_electrical raw of None \<Rightarrow> Inl ElectricalRequired | Some e \<Rightarrow> Inr (ElectricalPayload e))"
| "parse_payload env version ActionFeedbackSet data =
     rbind (decode_strict env (sc_feedback_set env) data) (\<lambda>raw.
       rbind (parse_feedback (fs_source raw) (fs_kind raw) (fs_address raw) (fs_active raw)) (\<lambda>p.
         case fs_emit raw of None \<Rightarrow> Inl EmitRequired | Some b \<Rightarrow> Inr (FeedbackPayload (p\<lparr> fp_emit := b \<rparr>))))"
| "parse_payload env version ActionFeedbackEmit data =
     rbind (decode_strict env (sc_feedback_emit env) data) (\<lambda>raw.
       rbind (parse_feedback (fe_source raw) (fe_kind raw) (fe_address raw) (fe_active raw)) (\<lambda>p.
         Inr (FeedbackPayload (p\<lparr> fp_emit := True \<rparr>))))"
| "parse_payload env version ActionAccessoryReport data = parse_report_step env version data"
| "parse_payload env version ActionAccessoryBehavior data = parse_behavior_step env version data"
| "parse_payload env version ActionFaultOperation data = parse_fault_step env data"
| "parse_payload env version ActionFaultClear data = rbind (decode_strict env (sc_empty env) data) (\<lambda>_. Inr EmptyPayload)"
| "parse_payload env version ActionSimulatorReset data = rbind (decode_strict env (sc_empty env) data) (\<lambda>_. Inr EmptyPayload)"
| "parse_payload env version (ActionOther a) data = Inl (ActionUnsupported (ActionOther a))"

definition parse_step :: "scenario_env \<Rightarrow> string \<Rightarrow> int \<Rightarrow> step_problem + scenario_step" where
  "parse_step env data version =
     (case sc_header env data of
        Inl e \<Rightarrow> Inl (HeaderFailed e)
      | Inr header \<Rightarrow>
          if sh_at header = [] then Inl AtRequired
          else case sc_duration env (sh_at header) of
            None \<Rightarrow> Inl (AtInvalid (sh_at header))
          | Some at \<Rightarrow>
              if at < 0 then Inl AtNegative
              else if sh_action header = ActionOther [] then Inl ActionRequired
              else rbind (parse_payload env version (sh_action header) data) (\<lambda>p.
                Inr \<lparr> sp_at = at, sp_action = sh_action header, sp_payload = p \<rparr>))"

text \<open>The loop over the steps; the first one has no predecessor.\<close>

fun parse_steps ::
  "scenario_env \<Rightarrow> int \<Rightarrow> nat \<Rightarrow> duration \<Rightarrow> string list \<Rightarrow> scenario_problem + scenario_step list" where
  "parse_steps env version index previous [] = Inr []"
| "parse_steps env version index previous (data # rest) =
     (case parse_step env data version of
        Inl e \<Rightarrow> Inl (StepProblem index e)
      | Inr step \<Rightarrow>
          if index > 0 \<and> sp_at step < previous then Inl (StepBefore index (sp_at step) previous)
          else rbind (parse_steps env version (index + 1) (sp_at step) rest) (\<lambda>steps. Inr (step # steps)))"

definition parse_initial :: "scenario_env \<Rightarrow> string \<Rightarrow> scenario_problem + initial" where
  "parse_initial env data =
     (case decode_strict env (sc_initial env) data of
        Inl e \<Rightarrow> Inl (InitialDecode e)
      | Inr raw \<Rightarrow>
          if (case ri_connectivity raw of None \<Rightarrow> False | Some c \<Rightarrow> \<not> valid_connectivity c) then Inl InitialConnectivity
          else Inr \<lparr> in_connectivity = ri_connectivity raw, in_track_power = ri_track_power raw,
                     in_emergency_stop = ri_emergency_stop raw, in_electrical = ri_electrical raw \<rparr>)"

definition parse_scenario :: "scenario_env \<Rightarrow> string \<Rightarrow> scenario_problem + scenario_definition" where
  "parse_scenario env data =
     (case decode_strict env (sc_definition env) data of
        Inl e \<Rightarrow> Inl (ScenarioDecode e)
      | Inr raw \<Rightarrow>
          (case rd_version raw of
             None \<Rightarrow> Inl VersionRequired
           | Some version \<Rightarrow>
               if version \<noteq> 1 \<and> version \<noteq> CurrentVersion then Inl (VersionUnsupported version)
               else if trim_space (rd_name raw) = [] then Inl NameRequired
               else case rd_initial raw of
                 None \<Rightarrow> Inl InitialRequired
               | Some initial_data \<Rightarrow>
                   if trim_space initial_data = ''null'' then Inl InitialRequired
                   else case rd_steps raw of
                     None \<Rightarrow> Inl StepsRequired
                   | Some raw_steps \<Rightarrow>
                       rbind (parse_initial env initial_data) (\<lambda>initial.
                       rbind (parse_steps env version 0 0 raw_steps) (\<lambda>steps.
                         Inr \<lparr> sd_version = version, sd_name = rd_name raw, sd_initial = initial, sd_steps = steps \<rparr>))))"

end
