(* ===== verification/Runner.thy ===== *)
theory Runner
  imports Scenario
begin

text \<open>
  The scenario runner, \<^verbatim>\<open>internal/station/simulator/scenario/runner.go\<close>. Its mutex is held
  through each operation, so an operation is one step on a \<open>scenario_run\<close>: the runner with the
  simulator it drives and the logical clock it advances. Whether a context has ended where the
  code asks for it, the instant the clock of the simulator shows (it may be another clock than the runner's), and
  the order in which Go iterates over scheduled reports come from a \<open>run_context\<close>.
\<close>

subsection \<open>State\<close>

datatype runner_phase = StateLoaded | StateRunning | StateCompleted | StateStopped | StateFailed

datatype step_error = StepSimulator sim_error | StepUnsupported action | StepPanic

datatype runner_error =
    StartRefused runner_phase
  | ErrNotRunning
  | ErrManualClockRequired
  | ErrSimulatorLifecycleEnded
  | RunContextEnded
  | AdvanceNegative
  | LogicalTimeOverflow
  | InitialFailed sim_error
  | StepFailed nat scenario_step step_error

text \<open>
  \<open>rn_lifecycle\<close> is the channel of the simulator that is watched, \<open>rn_cancel\<close> whether the
  cancel function that was stored has been called.
\<close>

record runner =
  rn_definition :: scenario_definition
  rn_manual :: bool
  rn_phase :: runner_phase
  rn_elapsed :: duration
  rn_next_step :: nat
  rn_error :: "runner_error option"
  rn_lifecycle :: "nat option"
  rn_realtime :: bool
  rn_realtime_start :: time
  rn_cancel :: "bool option"
  rn_done :: bool

record scenario_run = runner +
  rw_simulator :: simulator
  rw_now :: time

record run_context =
  cx_start :: bool
  cx_check :: "nat \<Rightarrow> bool"
  cx_send :: "nat \<Rightarrow> bool"
  cx_now :: "scenario_run \<Rightarrow> time"
  cx_order :: "simulator \<Rightarrow> int list"

abbreviation run_steps :: "scenario_run \<Rightarrow> scenario_step list" where
  "run_steps r \<equiv> sd_steps (rn_definition r)"

definition new_runner :: "scenario_definition \<Rightarrow> simulator \<Rightarrow> bool \<Rightarrow> time \<Rightarrow> scenario_run" where
  "new_runner d s manual now =
     \<lparr> rn_definition = d, rn_manual = manual, rn_phase = StateLoaded, rn_elapsed = 0, rn_next_step = 0, rn_error = None,
       rn_lifecycle = None, rn_realtime = False, rn_realtime_start = 0, rn_cancel = None, rn_done = False,
       rw_simulator = s, rw_now = now \<rparr>"

subsection \<open>Ends\<close>

definition finish_locked :: "scenario_run \<Rightarrow> scenario_run" where
  "finish_locked r = r\<lparr> rn_done := True \<rparr>"

definition complete_locked :: "scenario_run \<Rightarrow> scenario_run" where
  "complete_locked r = finish_locked (r\<lparr> rn_phase := StateCompleted \<rparr>)"

definition cancel_run :: "scenario_run \<Rightarrow> scenario_run" where
  "cancel_run r = r\<lparr> rn_cancel := map_option (\<lambda>_. True) (rn_cancel r) \<rparr>"

definition fail_locked :: "runner_error \<Rightarrow> scenario_run \<Rightarrow> runner_error option \<times> scenario_run" where
  "fail_locked e r = (Some e, finish_locked (cancel_run (r\<lparr> rn_error := Some e, rn_phase := StateFailed \<rparr>)))"

definition ensure_runnable_locked :: "bool \<Rightarrow> scenario_run \<Rightarrow> runner_error option \<times> scenario_run" where
  "ensure_runnable_locked ended r =
     (if ended \<or> rn_cancel r = Some True then (Some RunContextEnded, finish_locked (r\<lparr> rn_phase := StateStopped \<rparr>))
      else if (case rn_lifecycle r of None \<Rightarrow> False | Some c \<Rightarrow> lifecycle_done c (rw_simulator r))
      then (Some ErrSimulatorLifecycleEnded, finish_locked (r\<lparr> rn_phase := StateStopped \<rparr>))
      else (None, r))"

subsection \<open>Steps\<close>

text \<open>A call of the simulator that returns an error, and one that does not.\<close>

definition calls :: "sim_error option \<times> simulator \<Rightarrow> scenario_run \<Rightarrow> step_error option \<times> scenario_run" where
  "calls result r = (map_option StepSimulator (fst result), r\<lparr> rw_simulator := snd result \<rparr>)"

definition does :: "simulator \<Rightarrow> scenario_run \<Rightarrow> step_error option \<times> scenario_run" where
  "does s r = (None, r\<lparr> rw_simulator := s \<rparr>)"

definition apply_feedback_step :: "bool \<Rightarrow> feedback_payload \<Rightarrow> scenario_run \<Rightarrow> step_error option \<times> scenario_run" where
  "apply_feedback_step ended p r =
     (let event = \<lparr> fb_source = fp_source p, fb_kind = fp_kind p, fb_address = fp_address p, fb_active = fp_active p \<rparr>
      in if fp_emit p then calls (set_feedback_atomic ended event (rw_simulator r)) r
         else does (set_feedback_state event (rw_simulator r)) r)"

definition payload_fault :: "fault_payload \<Rightarrow> operation_fault" where
  "payload_fault p = (if lp_message p \<noteq> [] then (lp_fault p)\<lparr> of_error := Some (lp_message p) \<rparr> else lp_fault p)"

text \<open>A payload of another kind than the action demands makes the type assertion panic.\<close>

definition apply_step_locked :: "run_context \<Rightarrow> scenario_step \<Rightarrow> scenario_run \<Rightarrow> step_error option \<times> scenario_run" where
  "apply_step_locked cx step r =
     (let s = rw_simulator r; now = cx_now cx r; order = cx_order cx s
      in case (sp_action step, sp_payload step) of
           (ActionStationConnectivity, ConnectivityPayload c) \<Rightarrow> calls (set_connectivity c now s) r
         | (ActionStationTrackPower, BoolPayload b) \<Rightarrow> does (set_track_power_state b now s) r
         | (ActionStationEmergency, BoolPayload b) \<Rightarrow> does (set_emergency_stop_state b now s) r
         | (ActionStationElectrical, ElectricalPayload e) \<Rightarrow> does (set_electrical_state e s) r
         | (ActionFeedbackSet, FeedbackPayload p) \<Rightarrow> apply_feedback_step (cx_send cx (rn_next_step r)) p r
         | (ActionFeedbackEmit, FeedbackPayload p) \<Rightarrow> apply_feedback_step (cx_send cx (rn_next_step r)) p r
         | (ActionAccessoryReport, ReportPayload p) \<Rightarrow>
             calls (report_accessory_position (rp_address p) (rp_position p) (rp_quality p) now order s) r
         | (ActionAccessoryBehavior, BehaviorPayload p) \<Rightarrow>
             calls (set_accessory_behavior (bp_address p) (bp_behavior p) now order s) r
         | (ActionFaultOperation, FaultPayload p) \<Rightarrow> calls (set_operation_fault (lp_operation p) (payload_fault p) s) r
         | (ActionFaultClear, _) \<Rightarrow> does (clear_faults s) r
         | (ActionSimulatorReset, _) \<Rightarrow>
             (let s1 = sim_reset now s in does s1 (r\<lparr> rn_lifecycle := Some (sm_lifecycle s1) \<rparr>))
         | (ActionOther a, _) \<Rightarrow> (Some (StepUnsupported (ActionOther a)), r)
         | _ \<Rightarrow> (Some StepPanic, r))"

definition apply_initial_locked :: "run_context \<Rightarrow> scenario_run \<Rightarrow> sim_error option \<times> scenario_run" where
  "apply_initial_locked cx r =
     (let initial = sd_initial (rn_definition r);
          now = cx_now cx r;
          s = rw_simulator r;
          (failure, s1) = (case in_connectivity initial of None \<Rightarrow> (None, s) | Some c \<Rightarrow> set_connectivity c now s)
      in case failure of
           Some e \<Rightarrow> (Some e, r\<lparr> rw_simulator := s1 \<rparr>)
         | None \<Rightarrow>
             let s2 = (case in_track_power initial of None \<Rightarrow> s1 | Some b \<Rightarrow> set_track_power_state b now s1);
                 s3 = (case in_emergency_stop initial of None \<Rightarrow> s2 | Some b \<Rightarrow> set_emergency_stop_state b now s2);
                 s4 = (case in_electrical initial of None \<Rightarrow> s3 | Some e \<Rightarrow> set_electrical_state e s3)
             in (None, r\<lparr> rw_simulator := s4 \<rparr>))"

text \<open>
  The two loops over the steps that are due, given those from \<open>rn_next_step\<close> on: one advances the
  clock to each step, the other does not.
\<close>

fun apply_due_realtime_locked ::
  "run_context \<Rightarrow> duration \<Rightarrow> scenario_step list \<Rightarrow> scenario_run \<Rightarrow> runner_error option \<times> scenario_run" where
  "apply_due_realtime_locked cx target [] r = (None, r)"
| "apply_due_realtime_locked cx target (step # rest) r =
     (if target < sp_at step then (None, r)
      else case ensure_runnable_locked (cx_check cx (rn_next_step r)) (r\<lparr> rn_elapsed := sp_at step \<rparr>) of
        (Some e, r1) \<Rightarrow> (Some e, r1)
      | (None, r1) \<Rightarrow>
          (case apply_step_locked cx step r1 of
             (Some e, r2) \<Rightarrow> fail_locked (StepFailed (rn_next_step r2) step e) r2
           | (None, r2) \<Rightarrow> apply_due_realtime_locked cx target rest (r2\<lparr> rn_next_step := rn_next_step r2 + 1 \<rparr>)))"

definition clock_to :: "duration \<Rightarrow> scenario_run \<Rightarrow> scenario_run" where
  "clock_to at r = r\<lparr> rw_now := rw_now r + (at - rn_elapsed r), rn_elapsed := at \<rparr>"

fun advance_loop ::
  "run_context \<Rightarrow> duration \<Rightarrow> scenario_step list \<Rightarrow> scenario_run \<Rightarrow> runner_error option \<times> scenario_run" where
  "advance_loop cx target [] r = (None, r)"
| "advance_loop cx target (step # rest) r =
     (if target < sp_at step then (None, r)
      else case ensure_runnable_locked (cx_check cx (rn_next_step r)) (clock_to (sp_at step) r) of
        (Some e, r1) \<Rightarrow> (Some e, r1)
      | (None, r1) \<Rightarrow>
          (case apply_step_locked cx step r1 of
             (Some e, r2) \<Rightarrow> fail_locked (StepFailed (rn_next_step r2) step e) r2
           | (None, r2) \<Rightarrow> advance_loop cx target rest (r2\<lparr> rn_next_step := rn_next_step r2 + 1 \<rparr>)))"

definition complete_if_done :: "scenario_run \<Rightarrow> scenario_run" where
  "complete_if_done r = (if rn_next_step r = length (run_steps r) then complete_locked r else r)"

subsection \<open>Operations\<close>

definition start_locked :: "run_context \<Rightarrow> bool \<Rightarrow> scenario_run \<Rightarrow> runner_error option \<times> scenario_run" where
  "start_locked cx realtime r =
     (if rn_phase r \<noteq> StateLoaded then (Some (StartRefused (rn_phase r)), r)
      else if cx_start cx then (Some RunContextEnded, r)
      else
        case apply_initial_locked cx (r\<lparr> rn_phase := StateRunning, rn_realtime := realtime,
               rn_lifecycle := Some (sm_lifecycle (rw_simulator r)) \<rparr>) of
          (Some e, r1) \<Rightarrow> fail_locked (InitialFailed e) r1
        | (None, r1) \<Rightarrow>
            (case apply_due_realtime_locked cx 0 (drop (rn_next_step r1) (run_steps r1)) r1 of
               (Some e, r2) \<Rightarrow> (Some e, r2)
             | (None, r2) \<Rightarrow> (None, complete_if_done r2)))"

definition start_manual :: "run_context \<Rightarrow> scenario_run \<Rightarrow> runner_error option \<times> scenario_run" where
  "start_manual cx r = (if \<not> rn_manual r then (Some ErrManualClockRequired, r) else start_locked cx False r)"

text \<open>\<open>wall\<close> is the instant of the wall clock.\<close>

definition start_realtime :: "run_context \<Rightarrow> time \<Rightarrow> scenario_run \<Rightarrow> runner_error option \<times> scenario_run" where
  "start_realtime cx wall r =
     (case start_locked cx True r of
        (Some e, r1) \<Rightarrow> (Some e, r1)
      | (None, r1) \<Rightarrow>
          if rn_phase r1 \<noteq> StateRunning then (None, r1)
          else (None, r1\<lparr> rn_cancel := Some False, rn_realtime_start := wall \<rparr>))"

definition advance :: "run_context \<Rightarrow> duration \<Rightarrow> scenario_run \<Rightarrow> runner_error option \<times> scenario_run" where
  "advance cx d r =
     (if d < 0 then (Some AdvanceNegative, r)
      else if rn_phase r \<noteq> StateRunning \<or> rn_realtime r then (Some ErrNotRunning, r)
      else if \<not> rn_manual r then (Some ErrManualClockRequired, r)
      else if d > (2 ^ 63 - 1) - rn_elapsed r then (Some LogicalTimeOverflow, r)
      else case ensure_runnable_locked (cx_start cx) r of
        (Some e, r1) \<Rightarrow> (Some e, r1)
      | (None, r1) \<Rightarrow>
          let target = rn_elapsed r1 + d
          in case advance_loop cx target (drop (rn_next_step r1) (run_steps r1)) r1 of
               (Some e, r2) \<Rightarrow> (Some e, r2)
             | (None, r2) \<Rightarrow> (None, complete_if_done (clock_to target r2)))"

text \<open>\<^verbatim>\<open>Stop\<close> up to its wait for the realtime goroutine.\<close>

definition stop_runner :: "scenario_run \<Rightarrow> scenario_run" where
  "stop_runner r =
     (if rn_phase r \<in> {StateLoaded, StateRunning}
      then finish_locked (cancel_run (r\<lparr> rn_phase := StateStopped \<rparr>)) else r)"

definition stop_from_runtime :: "scenario_run \<Rightarrow> scenario_run" where
  "stop_from_runtime r = (if rn_phase r = StateRunning then finish_locked (r\<lparr> rn_phase := StateStopped \<rparr>) else r)"

text \<open>
  The goroutine of a realtime run. The first section of a turn says for which step it waits, or
  that it returns; the second is what follows one of the three events it waits for, and says
  whether there is another turn.
\<close>

datatype wake = WakeContext | WakeLifecycle | WakeTimer

definition runtime_wait :: "scenario_run \<Rightarrow> duration option \<times> scenario_run" where
  "runtime_wait r =
     (if rn_phase r \<noteq> StateRunning then (None, r)
      else if rn_next_step r = length (run_steps r) then (None, complete_locked r)
      else (Some (sp_at (run_steps r ! rn_next_step r)), r))"

definition runtime_wake :: "run_context \<Rightarrow> wake \<Rightarrow> duration \<Rightarrow> scenario_run \<Rightarrow> bool \<times> scenario_run" where
  "runtime_wake cx w step_at r =
     (case w of
        WakeContext \<Rightarrow> (False, stop_from_runtime r)
      | WakeLifecycle \<Rightarrow> (False, stop_from_runtime r)
      | WakeTimer \<Rightarrow>
          (case ensure_runnable_locked (cx_start cx) r of
             (Some e, r1) \<Rightarrow> (False, r1)
           | (None, r1) \<Rightarrow>
               (case apply_due_realtime_locked cx step_at (drop (rn_next_step r1) (run_steps r1)) r1 of
                  (Some e, r2) \<Rightarrow> (False, r2)
                | (None, r2) \<Rightarrow>
                    if rn_next_step r2 = length (run_steps r2) then (False, complete_locked r2) else (True, r2))))"

record control_snapshot =
  ct_name :: string
  ct_state :: runner_phase
  ct_elapsed :: duration
  ct_next_step :: nat
  ct_step_count :: nat
  ct_error :: "runner_error option"

definition runner_snapshot :: "time \<Rightarrow> scenario_run \<Rightarrow> control_snapshot" where
  "runner_snapshot wall r =
     (let steps = run_steps r;
          wall_elapsed = wall - rn_realtime_start r;
          elapsed =
            (if rn_phase r = StateRunning \<and> rn_realtime r then
               (let shown = (if wall_elapsed > rn_elapsed r then wall_elapsed else rn_elapsed r)
                in if steps \<noteq> [] \<and> shown > sp_at (last steps) then sp_at (last steps) else shown)
             else rn_elapsed r)
      in \<lparr> ct_name = sd_name (rn_definition r), ct_state = rn_phase r, ct_elapsed = elapsed,
           ct_next_step = rn_next_step r, ct_step_count = length steps, ct_error = rn_error r \<rparr>)"

end
