(* ===== verification/ScenarioFacts.thy ===== *)
theory ScenarioFacts
  imports Runner SimulatorFacts
begin

text \<open>
  What the scenario reader and the runner guarantee together: a scenario that was read is never
  refused by the simulator it is applied to, the runner has applied exactly the steps that are due at the time it
  shows, and a run by hand is the replay of the script however the time is divided.
\<close>

subsection \<open>What was read\<close>

text \<open>A step that the simulator and the runner accept as it is.\<close>

definition step_sound :: "scenario_step \<Rightarrow> bool" where
  "step_sound st \<longleftrightarrow>
     (case (sp_action st, sp_payload st) of
        (ActionStationConnectivity, ConnectivityPayload c) \<Rightarrow> c \<noteq> None
      | (ActionStationTrackPower, BoolPayload _) \<Rightarrow> True
      | (ActionStationEmergency, BoolPayload _) \<Rightarrow> True
      | (ActionStationElectrical, ElectricalPayload _) \<Rightarrow> True
      | (ActionFeedbackSet, FeedbackPayload _) \<Rightarrow> True
      | (ActionFeedbackEmit, FeedbackPayload _) \<Rightarrow> True
      | (ActionAccessoryReport, ReportPayload p) \<Rightarrow>
          address_in_range (rp_address p) \<and> position_valid (rp_position p) \<and> quality_valid (rp_quality p)
      | (ActionAccessoryBehavior, BehaviorPayload p) \<Rightarrow>
          address_in_range (bp_address p) \<and> check_behavior (bp_behavior p) = None
      | (ActionFaultOperation, FaultPayload p) \<Rightarrow>
          fst (set_operation_fault (lp_operation p) (lp_fault p) new_simulator) = None
      | (ActionFaultClear, EmptyPayload) \<Rightarrow> True
      | (ActionSimulatorReset, EmptyPayload) \<Rightarrow> True
      | _ \<Rightarrow> False)"

lemma checked_address: "validate_accessory_address (Some a) = None \<longleftrightarrow> address_in_range a"
  by (auto simp: validate_accessory_address_def address_in_range_def)

lemma validate_accessory_address_None: "validate_accessory_address a = None \<longleftrightarrow> (\<exists>n. a = Some n \<and> address_in_range n)"
  by (cases a) (auto simp: validate_accessory_address_def address_in_range_def)

lemma optional_duration_nonneg: "optional_duration env t = Inr d \<Longrightarrow> 0 \<le> d"
  by (auto simp: optional_duration_def split: if_splits option.splits)

lemma legacy_position_valid: "legacy_accessory_position t = Some p \<Longrightarrow> position_valid p"
  by (auto simp: legacy_accessory_position_def split: if_splits)

lemma parse_report_valid: "parse_accessory_report v raw = Inr (p, q) \<Longrightarrow> position_valid p \<and> quality_valid q"
  by (auto simp: parse_accessory_report_def Let_def legacy_position_valid split: if_splits option.splits)

lemma validated_behavior:
  "validate_accessory_behavior b = None \<Longrightarrow> 0 \<le> ab_delay b \<Longrightarrow> check_behavior b = None"
  by (cases "ab_mode b") (auto simp: validate_accessory_behavior_def check_behavior_def)

lemma parse_report_step_sound:
  "parse_report_step env v data = Inr p \<Longrightarrow> step_sound \<lparr> sp_at = t, sp_action = ActionAccessoryReport, sp_payload = p \<rparr>"
  by (auto simp: step_sound_def parse_report_step_def validate_accessory_address_None dest: parse_report_valid split: option.splits)

lemma parse_behavior_step_sound:
  "parse_behavior_step env v data = Inr p \<Longrightarrow> step_sound \<lparr> sp_at = t, sp_action = ActionAccessoryBehavior, sp_payload = p \<rparr>"
  by (auto simp: step_sound_def parse_behavior_step_def validate_accessory_address_None Let_def
      intro!: validated_behavior split: option.splits) (erule optional_duration_nonneg)

lemma fault_accepted:
  "fst (set_operation_fault op f s) = None \<longleftrightarrow>
     valid_operation op \<and> 0 \<le> of_delay f \<and> 0 \<le> of_remaining f \<and> 0 \<le> of_every f \<and>
     (of_address f \<noteq> 0 \<longrightarrow> op = OpAccessory \<and> address_in_range (of_address f))"
  by (auto simp: set_operation_fault_def address_in_range_def)

lemma fault_payload_of_sound:
  assumes "fault_payload_of raw delay = Inr p" and "valid_operation (fo_operation raw)" and "0 \<le> delay"
  shows "step_sound \<lparr> sp_at = t, sp_action = ActionFaultOperation, sp_payload = p \<rparr>"
proof -
  define remaining where "remaining = (case fo_remaining raw of None \<Rightarrow> 0 | Some n \<Rightarrow> n)"
  define every where "every = (case fo_every raw of None \<Rightarrow> 0 | Some n \<Rightarrow> n)"
  note defs = fault_payload_of_def Let_def remaining_def [symmetric] every_def [symmetric]
  have "0 \<le> remaining" "0 \<le> every" using assms(1) by (auto simp: defs split: if_splits)
  then show ?thesis
    using assms by (cases "fo_address raw") (auto simp: defs step_sound_def fault_accepted checked_address split: if_splits option.splits)
qed

lemma parse_fault_step_sound:
  "parse_fault_step env data = Inr p \<Longrightarrow> step_sound \<lparr> sp_at = t, sp_action = ActionFaultOperation, sp_payload = p \<rparr>"
  by (auto simp: parse_fault_step_def intro!: fault_payload_of_sound split: if_splits) (erule optional_duration_nonneg)

lemma parse_payload_sound:
  assumes "parse_payload env v a data = Inr p"
  shows "step_sound \<lparr> sp_at = t, sp_action = a, sp_payload = p \<rparr>"
  using assms parse_report_step_sound parse_behavior_step_sound parse_fault_step_sound
  by (cases a) (auto simp: step_sound_def valid_connectivity_def split: option.splits if_splits)

lemma parse_step_sound: "parse_step env data v = Inr st \<Longrightarrow> step_sound st \<and> 0 \<le> sp_at st"
  by (auto simp: parse_step_def dest: parse_payload_sound split: sum.splits option.splits if_splits)

lemma parse_steps_sound:
  "parse_steps env v n previous data = Inr steps \<Longrightarrow>
     list_all (\<lambda>st. step_sound st \<and> 0 \<le> sp_at st) steps \<and> sorted (map sp_at steps) \<and>
     (n > 0 \<longrightarrow> (\<forall>st\<in>set steps. previous \<le> sp_at st))"
proof (induction env v n previous data arbitrary: steps rule: parse_steps.induct)
  case (2 env v n previous d rest)
  then show ?case
    by (fastforce dest: parse_step_sound split: sum.splits if_splits)
qed simp

definition script_sound :: "scenario_definition \<Rightarrow> bool" where
  "script_sound d \<longleftrightarrow> list_all step_sound (sd_steps d) \<and> sorted (map sp_at (sd_steps d)) \<and>
     (\<forall>st\<in>set (sd_steps d). 0 \<le> sp_at st) \<and> in_connectivity (sd_initial d) \<noteq> Some None"

lemma parse_initial_sound: "parse_initial env data = Inr i \<Longrightarrow> in_connectivity i \<noteq> Some None"
  by (auto simp: parse_initial_def valid_connectivity_def split: sum.splits if_splits option.splits)

lemma parse_scenario_sound: "parse_scenario env data = Inr d \<Longrightarrow> script_sound d"
  using parse_initial_sound parse_steps_sound
  by (fastforce simp: parse_scenario_def script_sound_def list_all_iff split: sum.splits option.splits if_splits)

subsection \<open>One step\<close>

text \<open>What a step does to the simulator when it succeeds.\<close>

definition step_op :: "int list \<Rightarrow> time \<Rightarrow> scenario_step \<Rightarrow> sim_op" where
  "step_op order now st =
     (case sp_payload st of
        ConnectivityPayload c \<Rightarrow> DoConnectivity c now
      | BoolPayload b \<Rightarrow> if sp_action st = ActionStationTrackPower then DoPowerState b now else DoEmergencyState b now
      | ElectricalPayload e \<Rightarrow> DoElectrical e
      | FeedbackPayload p \<Rightarrow>
          (let event = \<lparr> fb_source = fp_source p, fb_kind = fp_kind p, fb_address = fp_address p, fb_active = fp_active p \<rparr>
           in if fp_emit p then DoFeedbackAtomic False event else DoFeedback False event False None)
      | ReportPayload p \<Rightarrow> DoReport (rp_address p) (rp_position p) (rp_quality p) now order
      | BehaviorPayload p \<Rightarrow> DoBehavior (bp_address p) (bp_behavior p) now order
      | FaultPayload p \<Rightarrow> DoFault (lp_operation p) (payload_fault p)
      | EmptyPayload \<Rightarrow> if sp_action st = ActionFaultClear then DoClearFaults else DoReset now)"

text \<open>The errors a sound step can still meet: they depend on the state of the station.\<close>

definition step_refusals :: "step_error set" where
  "step_refusals = StepSimulator ` {SimDisconnected, SimFeedbackFull, SimContext}"

lemma set_connectivity_errors: "c \<noteq> None \<Longrightarrow> fst (set_connectivity c now s) \<in> {None, Some SimDisconnected}"
  by (auto simp: set_connectivity_def sim_ensure_def fail_if_def Let_def split: option.split)

lemma report_accepted:
  "address_in_range a \<Longrightarrow> position_valid p \<Longrightarrow> quality_valid q \<Longrightarrow> fst (report_accessory_position a p q now order s) = None"
  by (simp add: report_accessory_position_def Let_def)

lemma behavior_accepted:
  "address_in_range a \<Longrightarrow> check_behavior b = None \<Longrightarrow> fst (set_accessory_behavior a b now order s) = None"
  by (cases "ab_mode b") (auto simp: set_accessory_behavior_def check_behavior_def Let_def)

lemma feedback_errors:
  "fst (set_feedback_atomic ended e s) \<in> {None, Some SimFeedbackFull, Some SimContext}"
  by (simp add: set_feedback_atomic_def)

lemma payload_fault_accepted:
  "fst (set_operation_fault op (lp_fault p) s) = None \<Longrightarrow> fst (set_operation_fault op (payload_fault p) s') = None"
  by (auto simp: fault_accepted payload_fault_def)

lemma apply_step_errors:
  assumes "step_sound st" and "apply_step_locked cx st r = (Some e, r')"
  shows "e \<in> step_refusals"
proof -
  have *: "fst (apply_step_locked cx st r) = Some e" using assms(2) by simp
  show ?thesis
  proof (cases "sp_payload st")
    case (ConnectivityPayload c)
    then show ?thesis using * assms(1) set_connectivity_errors [of c "cx_now cx r" "rw_simulator r"]
      by (cases "sp_action st") (auto simp: step_sound_def apply_step_locked_def calls_def step_refusals_def Let_def)
  next
    case (FeedbackPayload p)
    have "fst (apply_feedback_step ended p r) = Some e \<Longrightarrow> e \<in> step_refusals" for ended
      using feedback_errors [of ended "\<lparr> fb_source = fp_source p, fb_kind = fp_kind p, fb_address = fp_address p, fb_active = fp_active p \<rparr>"
          "rw_simulator r"]
      by (auto simp: apply_feedback_step_def calls_def does_def step_refusals_def Let_def split: if_splits)
    then show ?thesis using * assms(1) FeedbackPayload
      by (cases "sp_action st") (auto simp: step_sound_def apply_step_locked_def Let_def)
  next
    case (ReportPayload p)
    then show ?thesis using * assms(1) report_accepted
      by (cases "sp_action st") (auto simp: step_sound_def apply_step_locked_def calls_def Let_def)
  next
    case (BehaviorPayload p)
    then show ?thesis using * assms(1) behavior_accepted
      by (cases "sp_action st") (auto simp: step_sound_def apply_step_locked_def calls_def Let_def)
  next
    case (FaultPayload p)
    then show ?thesis using * assms(1) payload_fault_accepted
      by (cases "sp_action st") (auto simp: step_sound_def apply_step_locked_def calls_def Let_def)
  qed (use * assms(1) in \<open>cases "sp_action st"; auto simp: step_sound_def apply_step_locked_def does_def Let_def\<close>)+
qed

text \<open>What a step leaves as it is, and what it does when it succeeds.\<close>

definition run_frame :: "scenario_run \<Rightarrow> _" where
  "run_frame r = (rn_definition r, (rn_manual r, rn_phase r, rn_elapsed r, rn_next_step r),
     (rn_error r, rn_realtime r, rn_realtime_start r, rn_cancel r), (rn_done r, rw_now r))"

lemma apply_step_frame: "run_frame (snd (apply_step_locked cx st r)) = run_frame r"
  by (cases "sp_action st"; cases "sp_payload st")
    (simp_all add: apply_step_locked_def apply_feedback_step_def calls_def does_def run_frame_def Let_def)

lemma apply_step_done:
  assumes "step_sound st" and "apply_step_locked cx st r = (None, r')"
  shows "rw_simulator r' = sim_exec (step_op (cx_order cx (rw_simulator r)) (cx_now cx r) st) (rw_simulator r)"
proof -
  have *: "snd (apply_step_locked cx st r) = r'" "fst (apply_step_locked cx st r) = None" using assms(2) by simp_all
  have feedback: "rw_simulator (snd (apply_feedback_step ended p r)) =
      sim_exec (let event = \<lparr> fb_source = fp_source p, fb_kind = fp_kind p, fb_address = fp_address p, fb_active = fp_active p \<rparr>
        in if fp_emit p then DoFeedbackAtomic False event else DoFeedback False event False None) (rw_simulator r)"
    if "fst (apply_feedback_step ended p r) = None" for ended p
    using that by (auto simp: apply_feedback_step_def calls_def does_def set_feedback_state_def set_feedback_atomic_def Let_def split: if_splits)
  show ?thesis
    using * assms(1) feedback
    by (cases "sp_action st"; cases "sp_payload st")
      (auto simp: step_sound_def apply_step_locked_def calls_def does_def step_op_def Let_def)
qed

subsection \<open>The loops\<close>

text \<open>The script applied to a simulator: each step at its instant after \<open>t0\<close>.\<close>

definition replay :: "(simulator \<Rightarrow> int list) \<Rightarrow> time \<Rightarrow> scenario_step list \<Rightarrow> simulator \<Rightarrow> simulator" where
  "replay order t0 steps s = fold (\<lambda>st s. sim_exec (step_op (order s) (t0 + sp_at st) st) s) steps s"

lemma replay_simps [simp]:
  "replay order t0 [] s = s"
  "replay order t0 (st # steps) s = replay order t0 steps (sim_exec (step_op (order s) (t0 + sp_at st) st) s)"
  "replay order t0 (steps @ steps') s = replay order t0 steps' (replay order t0 steps s)"
  by (simp_all add: replay_def)

abbreviation due :: "duration \<Rightarrow> scenario_step list \<Rightarrow> scenario_step list" where
  "due t steps \<equiv> takeWhile (\<lambda>st. sp_at st \<le> t) steps"

text \<open>The part of a run by hand that no loop changes.\<close>

definition hand_frame :: "scenario_run \<Rightarrow> _" where
  "hand_frame r = (rn_definition r, rn_manual r, rn_phase r, rn_realtime r, rn_error r, rn_cancel r, rn_done r)"

lemma run_frame_eq:
  "run_frame r' = run_frame r \<longleftrightarrow> hand_frame r' = hand_frame r \<and> rn_elapsed r' = rn_elapsed r \<and> rn_next_step r' = rn_next_step r \<and>
     rn_realtime_start r' = rn_realtime_start r \<and> rw_now r' = rw_now r"
  by (auto simp: run_frame_def hand_frame_def)

lemma hand_frame_simps [simp]:
  "hand_frame (r\<lparr> rn_elapsed := t \<rparr>) = hand_frame r" "hand_frame (clock_to t r) = hand_frame r"
  "hand_frame (r\<lparr> rn_next_step := n \<rparr>) = hand_frame r"
  by (simp_all add: hand_frame_def clock_to_def)

lemma ensure_runnable_None: "ensure_runnable_locked ended r = (None, r') \<longleftrightarrow>
    r' = r \<and> \<not> ended \<and> rn_cancel r \<noteq> Some True \<and> (\<forall>c. rn_lifecycle r = Some c \<longrightarrow> \<not> lifecycle_done c (rw_simulator r))"
  by (auto simp: ensure_runnable_locked_def split: option.splits)

lemma advance_loop_replays:
  assumes "\<forall>r. cx_now cx r = rw_now r"
  shows "advance_loop cx target steps r = (None, r') \<Longrightarrow> list_all step_sound steps \<Longrightarrow>
    rw_simulator r' = replay (cx_order cx) (rw_now r - rn_elapsed r) (due target steps) (rw_simulator r) \<and>
    rw_now r' - rn_elapsed r' = rw_now r - rn_elapsed r \<and> rn_next_step r' = rn_next_step r + length (due target steps) \<and>
    hand_frame r' = hand_frame r"
proof (induction steps arbitrary: r)
  case (Cons st steps)
  show ?case
  proof (cases "target < sp_at st")
    case False
    define r1 where "r1 = clock_to (sp_at st) r"
    obtain r2 where step: "apply_step_locked cx st r1 = (None, r2)"
      and rest: "advance_loop cx target steps (r2\<lparr> rn_next_step := rn_next_step r2 + 1 \<rparr>) = (None, r')"
      using Cons.prems(1) False
      by (auto simp: r1_def [symmetric] ensure_runnable_None fail_locked_def split: prod.splits option.splits)
    have "run_frame r2 = run_frame r1" using apply_step_frame [of cx st r1] step by simp
    then have kept: "hand_frame r2 = hand_frame r" "rn_elapsed r2 = sp_at st" "rn_next_step r2 = rn_next_step r"
      "rw_now r2 = rw_now r - rn_elapsed r + sp_at st"
      by (simp_all add: run_frame_eq r1_def) (simp_all add: clock_to_def)
    have "rw_simulator r2 = sim_exec (step_op (cx_order cx (rw_simulator r)) (rw_now r - rn_elapsed r + sp_at st) st) (rw_simulator r)"
      using apply_step_done [OF _ step] Cons.prems(2) assms by (simp add: r1_def clock_to_def algebra_simps)
    then show ?thesis using Cons.IH [OF rest] Cons.prems(2) kept False by simp
  qed (use Cons.prems in auto)
qed simp

lemma apply_due_replays:
  assumes "\<forall>r. cx_now cx r = rw_now r"
  shows "apply_due_realtime_locked cx target steps r = (None, r') \<Longrightarrow> list_all step_sound steps \<Longrightarrow>
    \<forall>st\<in>set (due target steps). sp_at st = rn_elapsed r \<Longrightarrow>
    rw_simulator r' = replay (cx_order cx) (rw_now r - rn_elapsed r) (due target steps) (rw_simulator r) \<and>
    rw_now r' = rw_now r \<and> rn_elapsed r' = rn_elapsed r \<and> rn_next_step r' = rn_next_step r + length (due target steps) \<and>
    hand_frame r' = hand_frame r"
proof (induction steps arbitrary: r)
  case (Cons st steps)
  show ?case
  proof (cases "target < sp_at st")
    case False
    define r1 where "r1 = r\<lparr> rn_elapsed := sp_at st \<rparr>"
    obtain r2 where step: "apply_step_locked cx st r1 = (None, r2)"
      and rest: "apply_due_realtime_locked cx target steps (r2\<lparr> rn_next_step := rn_next_step r2 + 1 \<rparr>) = (None, r')"
      using Cons.prems(1) False
      by (auto simp: r1_def [symmetric] ensure_runnable_None fail_locked_def split: prod.splits option.splits)
    have at: "sp_at st = rn_elapsed r" using Cons.prems(3) False by simp
    have "run_frame r2 = run_frame r1" using apply_step_frame [of cx st r1] step by simp
    then have kept: "hand_frame r2 = hand_frame r" "rn_elapsed r2 = rn_elapsed r" "rn_next_step r2 = rn_next_step r"
      "rw_now r2 = rw_now r"
      using at by (simp_all add: run_frame_eq r1_def)
    have "rw_simulator r2 = sim_exec (step_op (cx_order cx (rw_simulator r)) (rw_now r) st) (rw_simulator r)"
      using apply_step_done [OF _ step] Cons.prems(2) assms by (simp add: r1_def)
    moreover have "\<forall>u\<in>set (due target steps). sp_at u = rn_elapsed (r2\<lparr> rn_next_step := rn_next_step r2 + 1 \<rparr>)"
    proof
      fix u
      assume "u \<in> set (due target steps)"
      then have "u \<in> set (due target (st # steps))" using False by simp
      then have "sp_at u = rn_elapsed r" using Cons.prems(3) by blast
      then show "sp_at u = rn_elapsed (r2\<lparr> rn_next_step := rn_next_step r2 + 1 \<rparr>)" using kept(2) by simp
    qed
    ultimately show ?thesis using Cons.IH [OF rest] Cons.prems(2) kept False at by simp
  next
    case True
    then show ?thesis using Cons.prems(1) by simp
  qed
qed simp

subsection \<open>A run by hand\<close>

definition initial_ops :: "initial \<Rightarrow> time \<Rightarrow> sim_op list" where
  "initial_ops i now =
     (case in_connectivity i of None \<Rightarrow> [] | Some c \<Rightarrow> [DoConnectivity c now]) @
     (case in_track_power i of None \<Rightarrow> [] | Some b \<Rightarrow> [DoPowerState b now]) @
     (case in_emergency_stop i of None \<Rightarrow> [] | Some b \<Rightarrow> [DoEmergencyState b now]) @
     (case in_electrical i of None \<Rightarrow> [] | Some e \<Rightarrow> [DoElectrical e])"

lemma apply_initial_done:
  "apply_initial_locked cx r = (None, r') \<Longrightarrow>
     r' = r\<lparr> rw_simulator := sim_run (initial_ops (sd_initial (rn_definition r)) (cx_now cx r)) (rw_simulator r) \<rparr>"
  by (cases "in_connectivity (sd_initial (rn_definition r))"; cases "in_track_power (sd_initial (rn_definition r))";
      cases "in_emergency_stop (sd_initial (rn_definition r))"; cases "in_electrical (sd_initial (rn_definition r))")
    (auto simp: apply_initial_locked_def initial_ops_def case_prod_beta Let_def split: option.split_asm)

text \<open>The successive advances of a run, each in its own context; the first error ends it.\<close>

fun advances :: "(run_context \<times> duration) list \<Rightarrow> scenario_run \<Rightarrow> runner_error option \<times> scenario_run" where
  "advances [] r = (None, r)"
| "advances ((cx, d) # ds) r =
     (case advance cx d r of (Some e, r1) \<Rightarrow> (Some e, r1) | (None, r1) \<Rightarrow> advances ds r1)"

definition by_hand :: "(simulator \<Rightarrow> int list) \<Rightarrow> run_context \<Rightarrow> bool" where
  "by_hand order cx \<longleftrightarrow> (\<forall>r. cx_now cx r = rw_now r) \<and> cx_order cx = order"

definition replayed ::
  "scenario_definition \<Rightarrow> (simulator \<Rightarrow> int list) \<Rightarrow> simulator \<Rightarrow> time \<Rightarrow> duration \<Rightarrow> scenario_run \<Rightarrow> bool" where
  "replayed d order s t0 t r \<longleftrightarrow>
     rn_definition r = d \<and> rn_manual r \<and> \<not> rn_realtime r \<and> rn_elapsed r = t \<and> rw_now r = t0 + t \<and>
     rn_next_step r = length (due t (sd_steps d)) \<and>
     rw_simulator r = replay order t0 (due t (sd_steps d)) (sim_run (initial_ops (sd_initial d) t0) s) \<and>
     rn_phase r = (if due t (sd_steps d) = sd_steps d then StateCompleted else StateRunning)"

lemma takeWhile_dropWhile_later:
  "(\<And>x. P x \<Longrightarrow> Q x) \<Longrightarrow> takeWhile P xs @ takeWhile Q (dropWhile P xs) = takeWhile Q xs"
  by (induction xs) auto

lemma takeWhile_all_length: "length (takeWhile P xs) = length xs \<longleftrightarrow> takeWhile P xs = xs"
  by (metis takeWhile_eq_take take_all_iff order_refl)

lemma filter_due: "sorted (map sp_at steps) \<Longrightarrow> filter (\<lambda>st. sp_at st \<le> t) steps = due t steps"
proof (induction steps)
  case (Cons st steps)
  have "filter (\<lambda>u. sp_at u \<le> t) steps = []" if "t < sp_at st"
    using Cons.prems that by (auto simp: filter_empty_conv)
  then show ?case using Cons by auto
qed simp

lemma start_replayed:
  assumes "script_sound d" and "by_hand order cx" and "start_manual cx (new_runner d s True t0) = (None, r)"
  shows "replayed d order s t0 0 r"
proof -
  define r0 where "r0 = (new_runner d s True t0)\<lparr> rn_phase := StateRunning, rn_realtime := False, rn_lifecycle := Some (sm_lifecycle s) \<rparr>"
  have r0: "rn_definition r0 = d" "rn_manual r0" "\<not> rn_realtime r0" "rn_elapsed r0 = 0" "rw_now r0 = t0" "rn_next_step r0 = 0"
    "rw_simulator r0 = s" "rn_phase r0 = StateRunning"
    by (simp_all add: r0_def new_runner_def)
  obtain r1 r2 where initial: "apply_initial_locked cx r0 = (None, r1)"
    and loop: "apply_due_realtime_locked cx 0 (drop (rn_next_step r1) (run_steps r1)) r1 = (None, r2)" and r: "r = complete_if_done r2"
    using assms(3)
    by (auto simp: start_manual_def start_locked_def new_runner_def r0_def fail_locked_def split: if_splits prod.splits option.splits)
  note r1 = apply_initial_done [OF initial]
  have steps: "list_all step_sound (sd_steps d)" "\<forall>st\<in>set (due 0 (sd_steps d)). sp_at st = 0"
    using assms(1) by (auto simp: script_sound_def dest!: set_takeWhileD)
  have "rw_simulator r2 = replay order t0 (due 0 (sd_steps d)) (sim_run (initial_ops (sd_initial d) t0) s) \<and>
    rw_now r2 = t0 \<and> rn_elapsed r2 = 0 \<and> rn_next_step r2 = length (due 0 (sd_steps d)) \<and> hand_frame r2 = hand_frame r1"
    using apply_due_replays [OF _ loop] assms(2) steps r0 r1 by (simp add: by_hand_def)
  then show ?thesis
    using r r0 r1 by (auto simp: replayed_def complete_if_done_def complete_locked_def finish_locked_def hand_frame_def takeWhile_all_length)
qed

lemma advance_replayed:
  assumes "script_sound d" and "by_hand order cx" and "replayed d order s t0 t r" and "advance cx x r = (None, r')"
  shows "0 \<le> x \<and> replayed d order s t0 (t + x) r'"
proof -
  note old = assms(3) [unfolded replayed_def]
  have x: "0 \<le> x" and running: "rn_phase r = StateRunning"
    using assms(4) by (auto simp: advance_def split: if_splits)
  obtain r1 where loop: "advance_loop cx (t + x) (drop (rn_next_step r) (run_steps r)) r = (None, r1)"
    and r': "r' = complete_if_done (clock_to (t + x) r1)"
    using assms(4) old x running
    by (auto simp: advance_def ensure_runnable_None Let_def split: if_splits prod.splits option.splits)
  have rest: "drop (rn_next_step r) (run_steps r) = dropWhile (\<lambda>st. sp_at st \<le> t) (sd_steps d)"
    using old by (simp add: dropWhile_eq_drop)
  have sound: "list_all step_sound (dropWhile (\<lambda>st. sp_at st \<le> t) (sd_steps d))"
    using assms(1) by (auto simp: script_sound_def list_all_iff dest: set_dropWhileD)
  have all: "due t (sd_steps d) @ due (t + x) (dropWhile (\<lambda>st. sp_at st \<le> t) (sd_steps d)) = due (t + x) (sd_steps d)"
    using x by (intro takeWhile_dropWhile_later) simp
  have len: "length (due t (sd_steps d)) + length (due (t + x) (dropWhile (\<lambda>st. sp_at st \<le> t) (sd_steps d))) =
      length (due (t + x) (sd_steps d))"
    using arg_cong [OF all, of length] by simp
  have cx: "\<forall>r. cx_now cx r = rw_now r" "cx_order cx = order" using assms(2) by (simp_all add: by_hand_def)
  note result = advance_loop_replays [OF cx(1) loop [unfolded rest] sound]
  have "rw_simulator r1 = replay order t0 (due t (sd_steps d) @ due (t + x) (dropWhile (\<lambda>st. sp_at st \<le> t) (sd_steps d)))
      (sim_run (initial_ops (sd_initial d) t0) s)"
    using result old cx(2) by simp
  moreover have "rw_now r1 - rn_elapsed r1 = t0" "hand_frame r1 = hand_frame r" using result old by simp_all
  moreover have "rn_next_step r1 = length (due (t + x) (sd_steps d))" using result old len by simp
  ultimately have "rw_simulator r1 = replay order t0 (due (t + x) (sd_steps d)) (sim_run (initial_ops (sd_initial d) t0) s)"
    "rw_now r1 - rn_elapsed r1 = t0" "rn_next_step r1 = length (due (t + x) (sd_steps d))" "hand_frame r1 = hand_frame r"
    by (simp_all only: all)
  then show ?thesis
    using r' old running x
    by (auto simp: replayed_def complete_if_done_def complete_locked_def finish_locked_def hand_frame_def clock_to_def takeWhile_all_length)
qed

lemma advances_replayed:
  "script_sound d \<Longrightarrow> list_all (\<lambda>(cx, x). by_hand order cx) ds \<Longrightarrow> replayed d order s t0 t r \<Longrightarrow> advances ds r = (None, r') \<Longrightarrow>
     list_all (\<lambda>(cx, x). 0 \<le> x) ds \<and> replayed d order s t0 (t + sum_list (map snd ds)) r'"
proof (induction ds r arbitrary: t rule: advances.induct)
  case (2 cx x ds r)
  obtain r1 where "advance cx x r = (None, r1)" "advances ds r1 = (None, r')"
    using 2(5) by (auto split: prod.splits option.splits)
  note step = this
  have "by_hand order cx" using 2(3) by simp
  then have now: "0 \<le> x \<and> replayed d order s t0 (t + x) r1" using advance_replayed [OF 2(2) _ 2(4) step(1)] by blast
  have hand: "list_all (\<lambda>(cx, x). by_hand order cx) ds" using 2(3) by simp
  then have "list_all (\<lambda>(cx, x). 0 \<le> x) ds \<and> replayed d order s t0 (t + x + sum_list (map snd ds)) r'"
    using 2(1) [OF step(1) [symmetric] refl 2(2) hand conjunct2 [OF now] step(2)] by simp
  then show ?case using now by (simp add: add.assoc)
qed simp

subsection \<open>Properties\<close>

text \<open>C13: A scenario run by hand is the replay of its script, however the time is divided. Started on a
  simulator and advanced by any durations without an error, a run of a scenario that was read leaves the simulator
  as the initial settings followed by exactly the steps due by then leave it, each applied once, in
  order, at its own instant; the clock has moved by the sum of the durations, and the run is
  completed exactly when every step has been applied.\<close>

theorem runner_replays_script:
  assumes "parse_scenario env data = Inr d"
    and "by_hand order cx" and "start_manual cx (new_runner d s True t0) = (None, r0)"
    and "list_all (\<lambda>(cx, x). by_hand order cx) ds" and "advances ds r0 = (None, r)"
  shows "let t = sum_list (map snd ds); steps = filter (\<lambda>st. sp_at st \<le> t) (sd_steps d)
    in rw_simulator r = replay order t0 steps (sim_run (initial_ops (sd_initial d) t0) s) \<and>
       rn_next_step r = length steps \<and> rn_elapsed r = t \<and> rw_now r = t0 + t \<and>
       rn_phase r = (if steps = sd_steps d then StateCompleted else StateRunning)"
proof -
  have sound: "script_sound d" using assms(1) by (rule parse_scenario_sound)
  have "replayed d order s t0 (0 + sum_list (map snd ds)) r"
    using advances_replayed [OF sound assms(4) start_replayed [OF sound assms(2,3)] assms(5)] by blast
  moreover have "filter (\<lambda>st. sp_at st \<le> t) (sd_steps d) = due t (sd_steps d)" for t
    using sound by (intro filter_due) (simp add: script_sound_def)
  ultimately show ?thesis by (simp add: replayed_def Let_def)
qed

text \<open>A scenario that switches the power on after 5 and resets the simulator after 10.\<close>

definition sample_decoder :: scenario_env where
  "sample_decoder =
     \<lparr> sc_duration = (\<lambda>t. if t = ''5ns'' then Some 5 else if t = ''10ns'' then Some 10 else None),
       sc_trailing = (\<lambda>_. TrailingEnd),
       sc_definition = (\<lambda>_. Inr \<lparr> rd_version = Some 2, rd_name = ''sample'', rd_initial = Some ''{}'', rd_steps = Some [''on'', ''reset''] \<rparr>),
       sc_initial = (\<lambda>_. Inr \<lparr> ri_connectivity = Some (Some Degraded), ri_track_power = None, ri_emergency_stop = None, ri_electrical = None \<rparr>),
       sc_header = (\<lambda>t. Inr (if t = ''on'' then \<lparr> sh_at = ''5ns'', sh_action = ActionStationTrackPower \<rparr>
          else \<lparr> sh_at = ''10ns'', sh_action = ActionSimulatorReset \<rparr>)),
       sc_connectivity = (\<lambda>_. Inl []), sc_track_power = (\<lambda>_. Inr \<lparr> tp_on = Some True \<rparr>), sc_emergency = (\<lambda>_. Inl []),
       sc_electrical = (\<lambda>_. Inl []), sc_feedback_set = (\<lambda>_. Inl []), sc_feedback_emit = (\<lambda>_. Inl []),
       sc_accessory_report = (\<lambda>_. Inl []), sc_accessory_behavior = (\<lambda>_. Inl []), sc_fault_operation = (\<lambda>_. Inl []),
       sc_empty = (\<lambda>_. Inr ()) \<rparr>"

definition sample_script :: scenario_definition where
  "sample_script =
     \<lparr> sd_version = 2, sd_name = ''sample'',
       sd_initial = \<lparr> in_connectivity = Some (Some Degraded), in_track_power = None, in_emergency_stop = None, in_electrical = None \<rparr>,
       sd_steps = [\<lparr> sp_at = 5, sp_action = ActionStationTrackPower, sp_payload = BoolPayload True \<rparr>,
                   \<lparr> sp_at = 10, sp_action = ActionSimulatorReset, sp_payload = EmptyPayload \<rparr>] \<rparr>"

definition calm :: run_context where
  "calm = \<lparr> cx_start = False, cx_check = (\<lambda>_. False), cx_send = (\<lambda>_. False), cx_now = rw_now, cx_order = (\<lambda>_. []) \<rparr>"

lemma sample_parsed: "parse_scenario sample_decoder ''doc'' = Inr sample_script"
  by code_simp

lemma calm_by_hand: "by_hand (\<lambda>_. []) calm"
  by (simp add: by_hand_def calm_def)

definition sample_started :: scenario_run where
  "sample_started = snd (start_manual calm (new_runner sample_script (sim_connect 0 new_simulator) True 0))"

theorem runner_replays_script_witness:
  "ss_track_power (rw_simulator (snd (advances [(calm, 3), (calm, 4)] sample_started)))"
proof -
  let ?r = "snd (advances [(calm, 3), (calm, 4)] sample_started)"
  have "start_manual calm (new_runner sample_script (sim_connect 0 new_simulator) True 0) = (None, sample_started)"
    by code_simp
  moreover have "list_all (\<lambda>(cx, x). by_hand (\<lambda>_. []) cx) [(calm, 3), (calm, 4)]" by (simp add: calm_by_hand)
  moreover have "advances [(calm, 3), (calm, 4)] sample_started = (None, ?r)" by code_simp
  ultimately have "let t = sum_list (map snd [(calm, 3), (calm, 4)]);
      steps = filter (\<lambda>st. sp_at st \<le> t) (sd_steps sample_script)
    in rw_simulator ?r = replay (\<lambda>_. []) 0 steps (sim_run (initial_ops (sd_initial sample_script) 0) (sim_connect 0 new_simulator)) \<and>
       rn_next_step ?r = length steps \<and> rn_elapsed ?r = t \<and> rw_now ?r = 0 + t \<and>
       rn_phase ?r = (if steps = sd_steps sample_script then StateCompleted else StateRunning)"
    by (rule runner_replays_script [OF sample_parsed calm_by_hand])
  then have "rw_simulator ?r = replay (\<lambda>_. []) 0 [hd (sd_steps sample_script)]
      (sim_run (initial_ops (sd_initial sample_script) 0) (sim_connect 0 new_simulator))"
    by (simp add: Let_def sample_script_def)
  moreover have "ss_track_power (replay (\<lambda>_. []) 0 [hd (sd_steps sample_script)]
      (sim_run (initial_ops (sd_initial sample_script) 0) (sim_connect 0 new_simulator)))" by code_simp
  ultimately show ?thesis by simp
qed

end
