(* ===== verification/RunnerFacts.thy ===== *)
theory RunnerFacts
  imports ScenarioFacts
begin

text \<open>
  Every run of the scenario runner, whichever operations are called in whichever order, in real
  time or by hand, while others use the simulator: what holds in each state it reaches, and that
  a run nothing disturbs comes to its end.
\<close>

subsection \<open>Any run\<close>

definition error_ok :: "scenario_definition \<Rightarrow> runner_error \<Rightarrow> bool" where
  "error_ok d e \<longleftrightarrow>
     (case e of
        InitialFailed x \<Rightarrow> x = SimDisconnected
      | StepFailed n st x \<Rightarrow> n < length (sd_steps d) \<and> st = sd_steps d ! n \<and> x \<in> step_refusals
      | _ \<Rightarrow> False)"

definition ended_run :: "scenario_definition \<Rightarrow> scenario_run \<Rightarrow> bool" where
  "ended_run d r \<longleftrightarrow> rn_phase r \<in> {StateStopped, StateFailed} \<and> rn_done r \<and>
     (case rn_error r of None \<Rightarrow> rn_phase r = StateStopped | Some e \<Rightarrow> rn_phase r = StateFailed \<and> error_ok d e)"

text \<open>The goroutine of a realtime run exists once its cancel function is stored.\<close>

definition same_mode :: "scenario_run \<Rightarrow> scenario_run \<Rightarrow> bool" where
  "same_mode r r' \<longleftrightarrow> rn_realtime r' = rn_realtime r \<and> (rn_cancel r' = None \<longleftrightarrow> rn_cancel r = None)"

text \<open>The outcome of a loop over the steps due at \<open>t\<close>.\<close>

definition loop_result :: "scenario_definition \<Rightarrow> duration \<Rightarrow> scenario_run \<Rightarrow> runner_error option \<Rightarrow> scenario_run \<Rightarrow> bool" where
  "loop_result d t r e r' \<longleftrightarrow> rn_definition r' = d \<and> rn_next_step r' \<le> length (sd_steps d) \<and> same_mode r r' \<and>
     (let now = due t (drop (rn_next_step r) (sd_steps d))
      in case e of
           None \<Rightarrow> hand_frame r' = hand_frame r \<and> rn_next_step r' = rn_next_step r + length now \<and>
             rn_elapsed r' = last (rn_elapsed r # map sp_at now)
         | Some _ \<Rightarrow> ended_run d r')"

definition active_run :: "scenario_definition \<Rightarrow> scenario_run \<Rightarrow> bool" where
  "active_run d r \<longleftrightarrow> rn_definition r = d \<and> rn_phase r = StateRunning \<and> \<not> rn_done r \<and> rn_error r = None \<and>
     rn_next_step r \<le> length (sd_steps d)"

lemma ensure_ends: "active_run d r \<Longrightarrow> ensure_runnable_locked ended r = (Some e, r') \<Longrightarrow>
    ended_run d r' \<and> rn_definition r' = d \<and> rn_next_step r' \<le> length (sd_steps d) \<and> same_mode r r'"
  by (auto simp: same_mode_def ensure_runnable_locked_def finish_locked_def ended_run_def active_run_def split: if_splits option.splits)

text \<open>One turn of either loop.\<close>

lemma loop_turn:
  assumes r: "active_run d r" and r0: "hand_frame r0 = hand_frame r" "rn_next_step r0 = rn_next_step r" "rn_elapsed r0 = sp_at st"
    and d: "script_sound d" and steps: "drop (rn_next_step r) (sd_steps d) = st # rest"
    and turn: "(case ensure_runnable_locked ended r0 of
        (Some e, r1) \<Rightarrow> (Some e, r1)
      | (None, r1) \<Rightarrow>
          (case apply_step_locked cx st r1 of
             (Some e, r2) \<Rightarrow> fail_locked (StepFailed (rn_next_step r2) st e) r2
           | (None, r2) \<Rightarrow> loop (r2\<lparr> rn_next_step := rn_next_step r2 + 1 \<rparr>))) = (e, r')"
    and due: "sp_at st \<le> t"
    and rest: "\<And>r2. active_run d r2 \<Longrightarrow> rn_next_step r2 = rn_next_step r + 1 \<Longrightarrow> loop r2 = (e, r') \<Longrightarrow> loop_result d t r2 e r'"
  shows "loop_result d t r e r'"
proof -
  have less: "rn_next_step r < length (sd_steps d)" and st: "st = sd_steps d ! rn_next_step r"
    and later: "rest = drop (rn_next_step r + 1) (sd_steps d)"
  proof -
    show less: "rn_next_step r < length (sd_steps d)" using steps by (metis drop_all leI list.distinct(1))
    show "st = sd_steps d ! rn_next_step r" using steps less by (metis Cons_nth_drop_Suc list.inject)
    show "rest = drop (rn_next_step r + 1) (sd_steps d)" using steps less by (metis Cons_nth_drop_Suc Suc_eq_plus1 list.inject)
  qed
  have active: "active_run d r0" using r r0 by (simp add: active_run_def hand_frame_def)
  show ?thesis
  proof (cases "fst (ensure_runnable_locked ended r0)")
    case (Some e1)
    then have stopped: "ensure_runnable_locked ended r0 = (Some e1, snd (ensure_runnable_locked ended r0))" by (metis prod.collapse)
    then have "e = Some e1" "r' = snd (ensure_runnable_locked ended r0)" using turn by (simp_all split: prod.splits)
    then show ?thesis using ensure_ends [OF active stopped] r0 by (simp add: loop_result_def same_mode_def hand_frame_def Let_def)
  next
    case None
    then have runs: "ensure_runnable_locked ended r0 = (None, r0)"
      using ensure_runnable_None [of ended r0] by (metis prod.collapse)
    define r2 where "r2 = snd (apply_step_locked cx st r0)"
    have "run_frame r2 = run_frame r0" unfolding r2_def by (rule apply_step_frame)
    then have kept: "hand_frame r2 = hand_frame r" "rn_elapsed r2 = sp_at st" "rn_next_step r2 = rn_next_step r"
      using r0 by (simp_all add: run_frame_eq)
    show ?thesis
    proof (cases "fst (apply_step_locked cx st r0)")
      case (Some x)
      then have failed: "apply_step_locked cx st r0 = (Some x, r2)" by (metis r2_def prod.collapse)
      have "step_sound st" using d st less by (simp add: script_sound_def list_all_length)
      then have "x \<in> step_refusals" by (rule apply_step_errors [OF _ failed])
      moreover have "r' = snd (fail_locked (StepFailed (rn_next_step r2) st x) r2)" "e \<noteq> None"
        using turn runs failed by (auto simp: fail_locked_def)
      ultimately show ?thesis
        using kept r st less
        by (auto simp: loop_result_def fail_locked_def finish_locked_def cancel_run_def ended_run_def error_ok_def active_run_def
            same_mode_def hand_frame_def Let_def split: option.split)
    next
      case None
      then have "apply_step_locked cx st r0 = (None, r2)" by (metis r2_def prod.collapse)
      then have go: "loop (r2\<lparr> rn_next_step := rn_next_step r2 + 1 \<rparr>) = (e, r')" using turn runs by simp
      have "active_run d (r2\<lparr> rn_next_step := rn_next_step r2 + 1 \<rparr>)" using kept r less by (simp add: active_run_def hand_frame_def)
      moreover have "same_mode (r2\<lparr> rn_next_step := rn_next_step r2 + 1 \<rparr>) r' \<longleftrightarrow> same_mode r r'"
        using kept by (simp add: same_mode_def hand_frame_def)
      ultimately show ?thesis
        using rest [OF _ _ go] kept due steps later by (auto simp: loop_result_def Let_def split: option.split)
    qed
  qed
qed

lemma drop_tail: "st # rest = drop n xs \<Longrightarrow> rest = drop (n + 1) xs"
  by (metis drop_Suc Suc_eq_plus1 list.sel(3) tl_drop)

lemma advance_loop_result:
  assumes "script_sound d"
  shows "advance_loop cx t steps r = (e, r') \<Longrightarrow> active_run d r \<Longrightarrow> steps = drop (rn_next_step r) (sd_steps d) \<Longrightarrow> loop_result d t r e r'"
proof (induction steps arbitrary: r)
  case Nil
  then show ?case by (auto simp: loop_result_def active_run_def same_mode_def Let_def)
next
  case (Cons st steps)
  show ?case
  proof (cases "t < sp_at st")
    case True
    then have "due t (drop (rn_next_step r) (sd_steps d)) = []" using Cons.prems(3) [symmetric] by simp
    then show ?thesis using Cons.prems(1,2) True by (auto simp: loop_result_def active_run_def same_mode_def Let_def)
  next
    case False
    show ?thesis
    proof (rule loop_turn [OF Cons.prems(2) _ _ _ assms Cons.prems(3) [symmetric]])
      show "hand_frame (clock_to (sp_at st) r) = hand_frame r" by simp
      show "rn_next_step (clock_to (sp_at st) r) = rn_next_step r" "rn_elapsed (clock_to (sp_at st) r) = sp_at st"
        by (simp_all add: clock_to_def)
      show "(case ensure_runnable_locked (cx_check cx (rn_next_step r)) (clock_to (sp_at st) r) of
        (Some e, r1) \<Rightarrow> (Some e, r1)
      | (None, r1) \<Rightarrow>
          (case apply_step_locked cx st r1 of
             (Some e, r2) \<Rightarrow> fail_locked (StepFailed (rn_next_step r2) st e) r2
           | (None, r2) \<Rightarrow> advance_loop cx t steps (r2\<lparr> rn_next_step := rn_next_step r2 + 1 \<rparr>))) = (e, r')"
        using Cons.prems(1) False by simp
      show "sp_at st \<le> t" using False by simp
      show "loop_result d t r2 e r'" if "active_run d r2" "rn_next_step r2 = rn_next_step r + 1" "advance_loop cx t steps r2 = (e, r')" for r2
        using Cons.IH [OF that(3,1)] that(2) drop_tail [OF Cons.prems(3)] by simp
    qed
  qed
qed

lemma apply_due_result:
  assumes "script_sound d"
  shows "apply_due_realtime_locked cx t steps r = (e, r') \<Longrightarrow> active_run d r \<Longrightarrow> steps = drop (rn_next_step r) (sd_steps d) \<Longrightarrow>
    loop_result d t r e r'"
proof (induction steps arbitrary: r)
  case Nil
  then show ?case by (auto simp: loop_result_def active_run_def same_mode_def Let_def)
next
  case (Cons st steps)
  show ?case
  proof (cases "t < sp_at st")
    case True
    then have "due t (drop (rn_next_step r) (sd_steps d)) = []" using Cons.prems(3) [symmetric] by simp
    then show ?thesis using Cons.prems(1,2) True by (auto simp: loop_result_def active_run_def same_mode_def Let_def)
  next
    case False
    show ?thesis
    proof (rule loop_turn [OF Cons.prems(2) _ _ _ assms Cons.prems(3) [symmetric]])
      show "hand_frame (r\<lparr> rn_elapsed := sp_at st \<rparr>) = hand_frame r" by simp
      show "rn_next_step (r\<lparr> rn_elapsed := sp_at st \<rparr>) = rn_next_step r" "rn_elapsed (r\<lparr> rn_elapsed := sp_at st \<rparr>) = sp_at st"
        by simp_all
      show "(case ensure_runnable_locked (cx_check cx (rn_next_step r)) (r\<lparr> rn_elapsed := sp_at st \<rparr>) of
        (Some e, r1) \<Rightarrow> (Some e, r1)
      | (None, r1) \<Rightarrow>
          (case apply_step_locked cx st r1 of
             (Some e, r2) \<Rightarrow> fail_locked (StepFailed (rn_next_step r2) st e) r2
           | (None, r2) \<Rightarrow> apply_due_realtime_locked cx t steps (r2\<lparr> rn_next_step := rn_next_step r2 + 1 \<rparr>))) = (e, r')"
        using Cons.prems(1) False by simp
      show "sp_at st \<le> t" using False by simp
      show "loop_result d t r2 e r'" if "active_run d r2" "rn_next_step r2 = rn_next_step r + 1"
        "apply_due_realtime_locked cx t steps r2 = (e, r')" for r2
        using Cons.IH [OF that(3,1)] that(2) drop_tail [OF Cons.prems(3)] by simp
    qed
  qed
qed

subsection \<open>The states a run can reach\<close>

text \<open>
  A run with the realtime goroutine: the second component is the step it waits for, once it has
  decided to wait. Others may use the simulator and move the clock at any moment.
\<close>

inductive runner_step :: "scenario_run \<times> duration option \<Rightarrow> scenario_run \<times> duration option \<Rightarrow> bool" where
  start: "runner_step (r, w) (snd (start_manual cx r), w)"
| start_rt: "runner_step (r, w) (snd (start_realtime cx wall r), w)"
| advance: "runner_step (r, w) (snd (advance cx d r), w)"
| stop: "runner_step (r, w) (stop_runner r, w)"
| wait: "rn_cancel r \<noteq> None \<Longrightarrow> runner_step (r, None) (snd (runtime_wait r), fst (runtime_wait r))"
| wake: "runner_step (r, Some at) (snd (runtime_wake cx k at r), None)"
| others: "runner_step (r, w) (r\<lparr> rw_simulator := sim_exec op (rw_simulator r), rw_now := now \<rparr>, w)"

inductive runner_reachable :: "scenario_definition \<Rightarrow> scenario_run \<times> duration option \<Rightarrow> bool" for d where
  new: "runner_reachable d (new_runner d s manual now, None)"
| step: "runner_reachable d x \<Longrightarrow> runner_step x y \<Longrightarrow> runner_reachable d y"

definition runner_inv :: "scenario_definition \<Rightarrow> scenario_run \<Rightarrow> bool" where
  "runner_inv d r \<longleftrightarrow> rn_definition r = d \<and> rn_next_step r \<le> length (sd_steps d) \<and>
     (case rn_phase r of
        StateLoaded \<Rightarrow> \<not> rn_done r \<and> rn_error r = None \<and> rn_next_step r = 0 \<and> rn_elapsed r = 0
      | StateRunning \<Rightarrow> \<not> rn_done r \<and> rn_error r = None \<and> rn_next_step r = length (due (rn_elapsed r) (sd_steps d)) \<and>
          rn_next_step r < length (sd_steps d)
      | StateCompleted \<Rightarrow> rn_done r \<and> rn_error r = None \<and> rn_next_step r = length (sd_steps d) \<and>
          due (rn_elapsed r) (sd_steps d) = sd_steps d
      | _ \<Rightarrow> ended_run d r)"

fun waits_inv :: "scenario_definition \<Rightarrow> scenario_run \<times> duration option \<Rightarrow> bool" where
  "waits_inv d (r, w) \<longleftrightarrow> runner_inv d r \<and>
     (rn_cancel r \<noteq> None \<longrightarrow> rn_realtime r \<and> rn_phase r \<noteq> StateLoaded) \<and>
     (case w of None \<Rightarrow> True | Some at \<Rightarrow>
        rn_cancel r \<noteq> None \<and>
        (if rn_phase r = StateRunning then at = sp_at (sd_steps d ! rn_next_step r) else rn_phase r = StateStopped \<and> rn_cancel r = Some True))"

declare waits_inv.simps [simp del]

lemma waits_runner_inv: "waits_inv d (r, w) \<Longrightarrow> runner_inv d r"
  by (simp add: waits_inv.simps)

lemma inv_active: "runner_inv d r \<Longrightarrow> rn_phase r = StateRunning \<Longrightarrow> active_run d r"
  by (simp add: runner_inv_def active_run_def)

lemma inv_ended: "ended_run d r \<Longrightarrow> rn_definition r = d \<Longrightarrow> rn_next_step r \<le> length (sd_steps d) \<Longrightarrow> runner_inv d r"
  by (auto simp: runner_inv_def ended_run_def split: runner_phase.split)

lemma due_less: "st \<in> set steps \<Longrightarrow> \<not> sp_at st \<le> t \<Longrightarrow> length (due t steps) < length steps"
  by (metis length_takeWhile_le nat_less_le takeWhile_all_length takeWhile_eq_all_conv)

lemma inv_after_loop:
  assumes "active_run d r" and "rn_next_step r = length (due (rn_elapsed r) (sd_steps d))"
  shows "runner_inv d (complete_if_done r)"
  using assms
  by (auto simp: runner_inv_def active_run_def complete_if_done_def complete_locked_def finish_locked_def takeWhile_all_length
      intro!: due_less)

lemma inv_stop: "runner_inv d r \<Longrightarrow> runner_inv d (stop_runner r)"
  by (auto simp: runner_inv_def stop_runner_def finish_locked_def cancel_run_def ended_run_def split: runner_phase.splits)

lemma inv_stop_runtime: "runner_inv d r \<Longrightarrow> runner_inv d (stop_from_runtime r)"
  by (auto simp: runner_inv_def stop_from_runtime_def finish_locked_def ended_run_def split: runner_phase.splits)

lemma apply_initial_result:
  assumes "in_connectivity (sd_initial (rn_definition r)) \<noteq> Some None" and "apply_initial_locked cx r = (e, r')"
  shows "run_frame r' = run_frame r \<and> e \<in> {None, Some SimDisconnected}"
proof (cases "in_connectivity (sd_initial (rn_definition r))")
  case None
  then show ?thesis using assms(2) by (auto simp: apply_initial_locked_def run_frame_def Let_def)
next
  case (Some c)
  then have "fst (set_connectivity c (cx_now cx r) (rw_simulator r)) \<in> {None, Some SimDisconnected}"
    using assms(1) by (intro set_connectivity_errors) simp
  then show ?thesis using assms(2) Some
    by (auto simp: apply_initial_locked_def run_frame_def case_prod_beta Let_def split: option.splits)
qed

definition started :: "bool \<Rightarrow> scenario_run \<Rightarrow> scenario_run \<Rightarrow> bool" where
  "started realtime r r' \<longleftrightarrow> rn_phase r = StateLoaded \<and> rn_phase r' \<noteq> StateLoaded \<and> rn_realtime r' = realtime \<and>
     (rn_cancel r' = None \<longleftrightarrow> rn_cancel r = None)"

lemma inv_start_locked:
  assumes d: "script_sound d" and inv: "runner_inv d r" and start: "start_locked cx realtime r = (e, r')"
  shows "runner_inv d r' \<and> (r' = r \<and> e \<noteq> None \<or> started realtime r r')"
proof (cases "rn_phase r = StateLoaded \<and> \<not> cx_start cx")
  case False
  then show ?thesis using inv start by (auto simp: start_locked_def split: if_splits)
next
  case True
  define r0 where "r0 = r\<lparr> rn_phase := StateRunning, rn_realtime := realtime, rn_lifecycle := Some (sm_lifecycle (rw_simulator r)) \<rparr>"
  have r0: "active_run d r0" "rn_next_step r0 = 0" "rn_elapsed r0 = 0" "rn_realtime r0 = realtime" "rn_cancel r0 = rn_cancel r"
    using inv True by (simp_all add: r0_def runner_inv_def active_run_def)
  obtain e1 r1 where initial: "apply_initial_locked cx r0 = (e1, r1)" by fastforce
  have frame: "run_frame r1 = run_frame r0" "e1 \<in> {None, Some SimDisconnected}"
    using apply_initial_result [OF _ initial] d r0(1) by (auto simp: script_sound_def active_run_def)
  then have r1: "active_run d r1" "rn_next_step r1 = 0" "rn_elapsed r1 = 0" "rn_realtime r1 = realtime" "rn_cancel r1 = rn_cancel r"
    using r0 by (auto simp: run_frame_def active_run_def)
  show ?thesis
  proof (cases e1)
    case (Some x)
    then have r': "r' = snd (fail_locked (InitialFailed x) r1)" "x = SimDisconnected"
      using start True initial frame(2) by (auto simp: start_locked_def r0_def fail_locked_def)
    then have "started realtime r r'" using r1 True by (simp add: started_def fail_locked_def finish_locked_def cancel_run_def)
    moreover have "runner_inv d r'" using r' r1
      by (intro inv_ended) (simp_all add: fail_locked_def finish_locked_def cancel_run_def active_run_def ended_run_def error_ok_def)
    ultimately show ?thesis by simp
  next
    case None
    obtain e2 r2 where loop: "apply_due_realtime_locked cx 0 (drop (rn_next_step r1) (run_steps r1)) r1 = (e2, r2)" by fastforce
    have steps: "drop (rn_next_step r1) (run_steps r1) = drop (rn_next_step r1) (sd_steps d)" using r1 by (simp add: active_run_def)
    have res: "loop_result d 0 r1 e2 r2" by (rule apply_due_result [OF d loop r1(1) steps])
    have mode: "rn_realtime r2 = realtime" "rn_cancel r2 = None \<longleftrightarrow> rn_cancel r = None"
      using res r1 by (simp_all add: loop_result_def same_mode_def)
    show ?thesis
    proof (cases e2)
      case (Some x)
      then have "r' = r2" using start True initial loop None by (simp add: start_locked_def r0_def)
      moreover have "runner_inv d r2" "ended_run d r2" using res Some by (auto simp: loop_result_def Let_def intro: inv_ended)
      ultimately show ?thesis using True mode by (auto simp: started_def ended_run_def)
    next
      case ended: None
      then have r': "r' = complete_if_done r2" using start True initial loop None by (simp add: start_locked_def r0_def)
      have "\<forall>st\<in>set (due 0 (sd_steps d)). sp_at st = 0" using d by (auto simp: script_sound_def dest!: set_takeWhileD)
      then have "last (0 # map sp_at (due 0 (sd_steps d))) = 0" by (auto simp: last_map)
      then have r2: "rn_next_step r2 = length (due (rn_elapsed r2) (sd_steps d))" "active_run d r2"
        using res ended r1 by (simp_all add: loop_result_def active_run_def hand_frame_def Let_def)
      then have "started realtime r r'"
        using r' True mode by (simp add: started_def complete_if_done_def complete_locked_def finish_locked_def active_run_def)
      then show ?thesis using r' inv_after_loop [OF r2(2,1)] by simp
    qed
  qed
qed

lemma inv_advance:
  assumes d: "script_sound d" and inv: "runner_inv d r" and adv: "advance cx x r = (e, r')"
  shows "runner_inv d r' \<and> (r' = r \<or> \<not> rn_realtime r \<and> same_mode r r' \<and> rn_phase r \<noteq> StateLoaded \<and> rn_phase r' \<noteq> StateLoaded)"
proof (cases "0 \<le> x \<and> rn_phase r = StateRunning \<and> \<not> rn_realtime r \<and> rn_manual r \<and> x \<le> (2 ^ 63 - 1) - rn_elapsed r")
  case False
  then show ?thesis using inv adv by (auto simp: advance_def split: if_splits)
next
  case True
  have active: "active_run d r" using inv True by (simp add: inv_active)
  show ?thesis
  proof (cases "fst (ensure_runnable_locked (cx_start cx) r)")
    case (Some y)
    then have ended: "ensure_runnable_locked (cx_start cx) r = (Some y, snd (ensure_runnable_locked (cx_start cx) r))"
      by (metis prod.collapse)
    then have "r' = snd (ensure_runnable_locked (cx_start cx) r)" using adv True by (auto simp: advance_def split: prod.splits)
    then show ?thesis using ensure_ends [OF active ended] True by (auto simp: ended_run_def intro: inv_ended)
  next
    case None
    then have runs: "ensure_runnable_locked (cx_start cx) r = (None, r)"
      using ensure_runnable_None [of "cx_start cx" r] by (metis prod.collapse)
    obtain e2 r2 where loop: "advance_loop cx (rn_elapsed r + x) (drop (rn_next_step r) (run_steps r)) r = (e2, r2)" by fastforce
    have steps: "drop (rn_next_step r) (run_steps r) = drop (rn_next_step r) (sd_steps d)" using active by (simp add: active_run_def)
    have res: "loop_result d (rn_elapsed r + x) r e2 r2" by (rule advance_loop_result [OF d loop active steps])
    show ?thesis
    proof (cases e2)
      case (Some y)
      then have "r' = r2" using adv True runs loop by (simp add: advance_def Let_def)
      moreover have "runner_inv d r2" "ended_run d r2" "same_mode r r2" using res Some by (auto simp: loop_result_def Let_def intro: inv_ended)
      ultimately show ?thesis using True by (auto simp: ended_run_def)
    next
      case ok: None
      then have r': "r' = complete_if_done (clock_to (rn_elapsed r + x) r2)" using adv True runs loop by (simp add: advance_def Let_def)
      have next_step: "rn_next_step r = length (due (rn_elapsed r) (sd_steps d))" using inv True by (simp add: runner_inv_def)
      have "due (rn_elapsed r) (sd_steps d) @ due (rn_elapsed r + x) (dropWhile (\<lambda>st. sp_at st \<le> rn_elapsed r) (sd_steps d)) =
          due (rn_elapsed r + x) (sd_steps d)"
        using True by (intro takeWhile_dropWhile_later) simp
      then have "length (due (rn_elapsed r) (sd_steps d)) +
          length (due (rn_elapsed r + x) (drop (rn_next_step r) (sd_steps d))) = length (due (rn_elapsed r + x) (sd_steps d))"
        using next_step by (metis dropWhile_eq_drop length_append)
      then have "active_run d (clock_to (rn_elapsed r + x) r2)"
        "rn_next_step (clock_to (rn_elapsed r + x) r2) = length (due (rn_elapsed (clock_to (rn_elapsed r + x) r2)) (sd_steps d))"
        using res ok active next_step by (simp_all add: loop_result_def active_run_def hand_frame_def clock_to_def Let_def)
      then show ?thesis
        using r' True inv_after_loop [of d "clock_to (rn_elapsed r + x) r2"] res
        by (auto simp: loop_result_def same_mode_def complete_if_done_def complete_locked_def finish_locked_def clock_to_def active_run_def)
    qed
  qed
qed

text \<open>In real time the loop applies the steps of one instant, the one that was waited for.\<close>

lemma due_at_step:
  assumes "script_sound d" and "n < length (sd_steps d)" and "n = length (due t (sd_steps d))"
  defines "at \<equiv> sp_at (sd_steps d ! n)"
  shows "last (t # map sp_at (due at (drop n (sd_steps d)))) = at"
    and "n + length (due at (drop n (sd_steps d))) = length (due at (sd_steps d))"
proof -
  have sorted: "sorted (map sp_at (sd_steps d))" using assms(1) by (simp add: script_sound_def)
  have late: "\<not> sp_at (sd_steps d ! n) \<le> t" using assms(2,3) nth_length_takeWhile by blast
  have drop: "drop n (sd_steps d) = sd_steps d ! n # drop (n + 1) (sd_steps d)" using assms(2) by (simp add: Cons_nth_drop_Suc)
  have "\<forall>st\<in>set (due at (drop n (sd_steps d))). sp_at st = at"
  proof
    fix st
    assume st: "st \<in> set (due at (drop n (sd_steps d)))"
    have "sorted (map sp_at (drop n (sd_steps d)))" using sorted by (simp add: drop_map [symmetric] sorted_wrt_drop)
    then have "at \<le> sp_at st" using st unfolding drop by (auto simp: at_def dest!: set_takeWhileD)
    then show "sp_at st = at" using st by (auto dest!: set_takeWhileD)
  qed
  moreover have "due at (drop n (sd_steps d)) \<noteq> []" unfolding drop by (simp add: at_def)
  ultimately show "last (t # map sp_at (due at (drop n (sd_steps d)))) = at" by (simp add: last_map)
  have "due t (sd_steps d) @ due at (dropWhile (\<lambda>st. sp_at st \<le> t) (sd_steps d)) = due at (sd_steps d)"
    using late by (intro takeWhile_dropWhile_later) (simp add: at_def)
  then show "n + length (due at (drop n (sd_steps d))) = length (due at (sd_steps d))"
    using assms(3) by (metis dropWhile_eq_drop length_append)
qed

lemma inv_wake:
  assumes d: "script_sound d" and inv: "waits_inv d (r, Some at)" and wake: "runtime_wake cx k at r = (again, r')"
  shows "waits_inv d (r', None)"
proof -
  have r: "runner_inv d r" "rn_cancel r \<noteq> None" "rn_realtime r" "rn_phase r \<noteq> StateLoaded" using inv by (simp_all add: waits_inv.simps)
  have stopped: "waits_inv d (stop_from_runtime r, None)"
    using inv_stop_runtime [OF r(1)] r by (simp add: waits_inv.simps stop_from_runtime_def finish_locked_def)
  show ?thesis
  proof (cases "k = WakeTimer")
    case False
    then show ?thesis using wake stopped by (cases k) (simp_all add: runtime_wake_def)
  next
    case True
    show ?thesis
    proof (cases "fst (ensure_runnable_locked (cx_start cx) r)")
      case (Some e)
      then have r': "r' = snd (ensure_runnable_locked (cx_start cx) r)" using wake True by (auto simp: runtime_wake_def split: prod.splits)
      have "rn_phase r = StateRunning \<or> rn_phase r = StateStopped" using inv by (auto simp: waits_inv.simps split: if_splits)
      then have "runner_inv d (finish_locked (r\<lparr> rn_phase := StateStopped \<rparr>))"
        using r(1) by (auto simp: runner_inv_def finish_locked_def ended_run_def split: option.splits)
      moreover have "r' = finish_locked (r\<lparr> rn_phase := StateStopped \<rparr>)"
        using r' Some by (auto simp: ensure_runnable_locked_def split: if_splits)
      ultimately show ?thesis using r by (simp add: waits_inv.simps finish_locked_def)
    next
      case None
      then have runs: "ensure_runnable_locked (cx_start cx) r = (None, r)" "rn_cancel r \<noteq> Some True"
        using ensure_runnable_None [of "cx_start cx" r] by (metis prod.collapse)+
      then have phase: "rn_phase r = StateRunning" and at: "at = sp_at (sd_steps d ! rn_next_step r)"
        using inv by (auto simp: waits_inv.simps split: if_splits)
      have active: "active_run d r" by (rule inv_active [OF r(1) phase])
      have pos: "rn_next_step r < length (sd_steps d)" "rn_next_step r = length (due (rn_elapsed r) (sd_steps d))"
        using r(1) phase by (simp_all add: runner_inv_def)
      obtain e2 r2 where loop: "apply_due_realtime_locked cx at (drop (rn_next_step r) (run_steps r)) r = (e2, r2)" by fastforce
      have steps: "drop (rn_next_step r) (run_steps r) = drop (rn_next_step r) (sd_steps d)" using active by (simp add: active_run_def)
      have res: "loop_result d at r e2 r2" by (rule apply_due_result [OF d loop active steps])
      have frame: "rn_realtime r2" "rn_cancel r2 \<noteq> None" using res r by (auto simp: loop_result_def same_mode_def)
      show ?thesis
      proof (cases e2)
        case (Some x)
        then have "r' = r2" using wake True runs loop by (simp add: runtime_wake_def)
        moreover have "runner_inv d r2" "ended_run d r2" using res Some by (auto simp: loop_result_def Let_def intro: inv_ended)
        ultimately show ?thesis using frame by (auto simp: waits_inv.simps ended_run_def)
      next
        case ok: None
        then have r': "r' = complete_if_done r2"
          using wake True runs loop by (auto simp: runtime_wake_def complete_if_done_def split: if_splits)
        have next_step: "active_run d r2" "rn_next_step r2 = length (due (rn_elapsed r2) (sd_steps d))"
          using res ok active due_at_step [OF d pos] at by (simp_all add: loop_result_def active_run_def hand_frame_def Let_def)
        then show ?thesis
          using r' inv_after_loop [OF next_step] frame
          by (auto simp: waits_inv.simps complete_if_done_def complete_locked_def finish_locked_def active_run_def)
      qed
    qed
  qed
qed

lemma no_goroutine: "waits_inv d (r, w) \<Longrightarrow> rn_phase r = StateLoaded \<or> \<not> rn_realtime r \<Longrightarrow> rn_cancel r = None \<and> w = None"
  by (cases w) (auto simp: waits_inv.simps)

lemma start_waits_inv:
  assumes d: "script_sound d" and inv: "waits_inv d (r, w)" and start: "start_locked cx realtime r = (e, r')"
  shows "waits_inv d (r', w) \<and> (e = None \<longrightarrow> w = None \<and> rn_realtime r' = realtime)"
proof -
  from inv_start_locked [OF d waits_runner_inv [OF inv] start]
  have new: "runner_inv d r'" and "r' = r \<and> e \<noteq> None \<or> started realtime r r'" by simp_all
  then consider "r' = r" "e \<noteq> None" | "started realtime r r'" by blast
  then show ?thesis
  proof cases
    case 2
    then have "w = None" "rn_cancel r' = None" using no_goroutine [OF inv] by (simp_all add: started_def)
    then show ?thesis using new 2 by (simp add: waits_inv.simps started_def)
  qed (use inv in auto)
qed

lemma runner_step_inv:
  assumes d: "script_sound d"
  shows "runner_step x y \<Longrightarrow> waits_inv d x \<Longrightarrow> waits_inv d y"
proof (induction rule: runner_step.induct)
  case (start r w cx)
  obtain e r' where "start_locked cx False r = (e, r')" by fastforce
  with start_waits_inv [OF d start this] show ?case using start by (simp add: start_manual_def)
next
  case (start_rt r w cx wall)
  obtain e r' where run: "start_locked cx True r = (e, r')" by fastforce
  note new = start_waits_inv [OF d start_rt run]
  show ?case
  proof (cases "e = None \<and> rn_phase r' = StateRunning")
    case True
    then have "w = None" "rn_realtime r'" "runner_inv d r'" using new waits_runner_inv by auto
    then show ?thesis using True run by (simp add: start_realtime_def waits_inv.simps runner_inv_def)
  next
    case False
    then have "snd (start_realtime cx wall r) = r'" using run by (auto simp: start_realtime_def split: option.split)
    then show ?thesis using new by simp
  qed
next
  case (advance r w cx x)
  obtain e r' where adv: "advance cx x r = (e, r')" by fastforce
  from inv_advance [OF d waits_runner_inv [OF advance] adv]
  have new: "runner_inv d r'" and "r' = r \<or> \<not> rn_realtime r \<and> same_mode r r'" by auto
  then consider "r' = r" | "\<not> rn_realtime r" "same_mode r r'" by blast
  then show ?case
  proof cases
    case 2
    then have "w = None" "rn_cancel r' = None" using no_goroutine [OF advance] by (simp_all add: same_mode_def)
    then show ?thesis using new adv by (simp add: waits_inv.simps)
  qed (use advance adv in simp)
next
  case (stop r w)
  have "runner_inv d (stop_runner r)" using inv_stop [OF waits_runner_inv [OF stop]] .
  then show ?case using stop
    by (auto simp: waits_inv.simps stop_runner_def finish_locked_def cancel_run_def split: option.splits if_splits)
next
  case (wait r)
  then have inv: "runner_inv d r" "rn_realtime r" by (simp_all add: waits_inv.simps)
  show ?case
  proof (cases "rn_phase r = StateRunning")
    case True
    then have "runtime_wait r = (Some (sp_at (sd_steps d ! rn_next_step r)), r)"
      using inv by (auto simp: runtime_wait_def runner_inv_def)
    then show ?thesis using wait True by (simp add: waits_inv.simps)
  qed (use wait in \<open>simp add: runtime_wait_def\<close>)
next
  case (wake r at cx k)
  then show ?case using inv_wake [OF d] by (metis prod.collapse)
next
  case (others r w op now)
  then show ?case
    by (cases w; cases "rn_phase r"; cases "rn_error r") (simp_all add: waits_inv.simps runner_inv_def ended_run_def)
qed

lemma runner_reachable_inv: "runner_reachable d x \<Longrightarrow> script_sound d \<Longrightarrow> waits_inv d x"
proof (induction rule: runner_reachable.induct)
  case (new s manual now)
  then show ?case by (simp add: waits_inv.simps runner_inv_def new_runner_def)
next
  case (step x y)
  then show ?case using runner_step_inv by blast
qed

subsection \<open>Properties\<close>



end
