(* ===== verification/Presentation.thy ===== *)
theory Presentation
  imports Topology Complex_Main
begin

text \<open>
  The drawing of a layout, \<^verbatim>\<open>internal/model/layout_presentation.go\<close>: node positions, track
  paths, turnout placements and block styles, their validation against the layout they draw,
  and the merge of an imported drawing into a stored one, from
  \<^verbatim>\<open>internal/store/layout_presentation.go\<close>. The code compares floating point numbers and
  tests them for being finite but never computes with them, so a \<^verbatim>\<open>float64\<close> is a rational
  number, an infinity or not a number. A nil slice is not told from an empty one.
\<close>

subsection \<open>Numbers\<close>

datatype float64 = Finite rat | PosInf | NegInf | NotANumber

fun finite64 :: "float64 \<Rightarrow> bool" where
  "finite64 (Finite _) = True"
| "finite64 _ = False"

text \<open>The comparisons \<^verbatim>\<open>==\<close>, \<^verbatim>\<open><=\<close> and \<^verbatim>\<open><\<close>.\<close>

fun float_eq :: "float64 \<Rightarrow> float64 \<Rightarrow> bool" where
  "float_eq (Finite a) (Finite b) = (a = b)"
| "float_eq PosInf PosInf = True"
| "float_eq NegInf NegInf = True"
| "float_eq _ _ = False"

fun float_less :: "float64 \<Rightarrow> float64 \<Rightarrow> bool" where
  "float_less (Finite a) (Finite b) = (a < b)"
| "float_less (Finite _) PosInf = True"
| "float_less NegInf (Finite _) = True"
| "float_less NegInf PosInf = True"
| "float_less _ _ = False"

definition float_le :: "float64 \<Rightarrow> float64 \<Rightarrow> bool" where
  "float_le a b \<longleftrightarrow> float_less a b \<or> float_eq a b"

subsection \<open>Data\<close>

record layout_point =
  pt_x :: float64
  pt_y :: float64

record layout_node_position =
  np_node_id :: string
  np_x :: float64
  np_y :: float64

record layout_track_segment =
  sg_type :: string
  sg_control1 :: "layout_point option"
  sg_control2 :: "layout_point option"
  sg_to :: "layout_point option"

record layout_track_path =
  pa_track_section_id :: string
  pa_segments :: "layout_track_segment list"

record layout_turnout_position =
  up_turnout_id :: string
  up_x :: float64
  up_y :: float64
  up_rotation_degrees :: float64
  up_mirrored :: bool

record layout_block_style =
  bs_block_id :: string
  bs_color :: string
  bs_opacity :: float64

record layout_presentation =
  lp_coordinate_system :: string
  lp_grid_spacing :: float64
  lp_nodes :: "layout_node_position list"
  lp_track_sections :: "layout_track_path list"
  lp_turnouts :: "layout_turnout_position list"
  lp_blocks :: "layout_block_style list"

definition layout_coordinate_system :: string where
  "layout_coordinate_system = ''layout-units''"

definition default_grid_spacing :: float64 where
  "default_grid_spacing = Finite 20"

definition empty_layout_presentation :: layout_presentation where
  "empty_layout_presentation =
     \<lparr> lp_coordinate_system = layout_coordinate_system, lp_grid_spacing = default_grid_spacing,
       lp_nodes = [], lp_track_sections = [], lp_turnouts = [], lp_blocks = [] \<rparr>"

definition normalize_layout_presentation :: "layout_presentation \<Rightarrow> layout_presentation" where
  "normalize_layout_presentation p =
     p\<lparr> lp_coordinate_system :=
          (if lp_coordinate_system p = [] then layout_coordinate_system else lp_coordinate_system p),
        lp_grid_spacing :=
          (if float_eq (lp_grid_spacing p) (Finite 0) then default_grid_spacing else lp_grid_spacing p) \<rparr>"

subsection \<open>Problems\<close>

datatype presentation_problem =
    UnsupportedCoordinateSystem string
  | GridSpacingInvalid
  | UnknownDrawnNode string
  | DuplicateDrawnNode string
  | NodeNotFinite string
  | UnknownDrawnSection string
  | DuplicateDrawnSection string
  | PathNeedsNode string string
  | PathWithoutSegment string
  | SegmentEndpointInvalid string nat
  | LineWithControls string nat
  | CubicControlsInvalid string nat
  | SegmentTypeUnknown string nat string
  | PathEndsElsewhere string string
  | UnknownDrawnTurnout string
  | DuplicateDrawnTurnout string
  | PlacementNotFinite string
  | UnknownDrawnBlock string
  | DuplicateDrawnBlock string
  | InvalidColor string string
  | OpacityOutside string

text \<open>The fields \<^verbatim>\<open>Code\<close>, \<^verbatim>\<open>ResourceType\<close> and \<^verbatim>\<open>ResourceID\<close> of the error.\<close>

fun presentation_fields :: "presentation_problem \<Rightarrow> string \<times> string \<times> string" where
  "presentation_fields (UnsupportedCoordinateSystem _) = (''layout_presentation_invalid'', [], [])"
| "presentation_fields GridSpacingInvalid = (''layout_presentation_invalid'', [], [])"
| "presentation_fields (UnknownDrawnNode i) = (''layout_presentation_reference_invalid'', ''node'', i)"
| "presentation_fields (DuplicateDrawnNode i) = (''layout_node_position_invalid'', ''node'', i)"
| "presentation_fields (NodeNotFinite i) = (''layout_node_position_invalid'', ''node'', i)"
| "presentation_fields (UnknownDrawnSection i) = (''layout_presentation_reference_invalid'', ''trackSection'', i)"
| "presentation_fields (DuplicateDrawnSection i) = (''layout_track_path_invalid'', ''trackSection'', i)"
| "presentation_fields (PathNeedsNode i n) = (''layout_node_position_missing'', ''node'', n)"
| "presentation_fields (PathWithoutSegment i) = (''layout_track_path_invalid'', ''trackSection'', i)"
| "presentation_fields (SegmentEndpointInvalid i _) = (''layout_track_path_invalid'', ''trackSection'', i)"
| "presentation_fields (LineWithControls i _) = (''layout_track_path_invalid'', ''trackSection'', i)"
| "presentation_fields (CubicControlsInvalid i _) = (''layout_track_path_invalid'', ''trackSection'', i)"
| "presentation_fields (SegmentTypeUnknown i _ _) = (''layout_track_path_invalid'', ''trackSection'', i)"
| "presentation_fields (PathEndsElsewhere i _) = (''layout_track_path_invalid'', ''trackSection'', i)"
| "presentation_fields (UnknownDrawnTurnout i) = (''layout_presentation_reference_invalid'', ''turnout'', i)"
| "presentation_fields (DuplicateDrawnTurnout i) = (''layout_turnout_presentation_invalid'', ''turnout'', i)"
| "presentation_fields (PlacementNotFinite i) = (''layout_turnout_presentation_invalid'', ''turnout'', i)"
| "presentation_fields (UnknownDrawnBlock i) = (''layout_presentation_reference_invalid'', ''block'', i)"
| "presentation_fields (DuplicateDrawnBlock i) = (''layout_block_style_invalid'', ''block'', i)"
| "presentation_fields (InvalidColor i _) = (''layout_block_style_invalid'', ''block'', i)"
| "presentation_fields (OpacityOutside i) = (''layout_block_style_invalid'', ''block'', i)"

subsection \<open>Validation\<close>

definition finite_point :: "layout_point \<Rightarrow> bool" where
  "finite_point p \<longleftrightarrow> finite64 (pt_x p) \<and> finite64 (pt_y p)"

definition point_eq :: "layout_point \<Rightarrow> layout_point \<Rightarrow> bool" where
  "point_eq p q \<longleftrightarrow> float_eq (pt_x p) (pt_x q) \<and> float_eq (pt_y p) (pt_y q)"

definition is_hex_digit :: "char \<Rightarrow> bool" where
  "is_hex_digit c \<longleftrightarrow> (CHR ''0'' \<le> c \<and> c \<le> CHR ''9'') \<or> (CHR ''A'' \<le> c \<and> c \<le> CHR ''F'') \<or>
     (CHR ''a'' \<le> c \<and> c \<le> CHR ''f'')"

definition valid_layout_color :: "string \<Rightarrow> bool" where
  "valid_layout_color color \<longleftrightarrow>
     length color = 7 \<and> hd color = CHR ''#'' \<and> (\<forall>c\<in>set (tl color). is_hex_digit c)"

fun validate_node_positions ::
  "string list \<Rightarrow> layout_node_position list \<Rightarrow> (string, layout_point) gomap \<Rightarrow>
   presentation_problem + (string, layout_point) gomap" where
  "validate_node_positions nodes [] positions = Inr positions"
| "validate_node_positions nodes (n # ns) positions =
     (if blank (np_node_id n) \<or> np_node_id n \<notin> set nodes then Inl (UnknownDrawnNode (np_node_id n))
      else if gm_has positions (np_node_id n) then Inl (DuplicateDrawnNode (np_node_id n))
      else let position = \<lparr> pt_x = np_x n, pt_y = np_y n \<rparr>
           in if \<not> finite_point position then Inl (NodeNotFinite (np_node_id n))
              else validate_node_positions nodes ns (gm_put (np_node_id n) position positions))"

fun validate_segments :: "string \<Rightarrow> nat \<Rightarrow> layout_track_segment list \<Rightarrow> presentation_problem option" where
  "validate_segments i index [] = None"
| "validate_segments i index (s # ss) =
     (if \<not> (case sg_to s of None \<Rightarrow> False | Some p \<Rightarrow> finite_point p)
      then Some (SegmentEndpointInvalid i index)
      else if sg_type s = ''line'' then
        (if sg_control1 s \<noteq> None \<or> sg_control2 s \<noteq> None then Some (LineWithControls i index)
         else validate_segments i (Suc index) ss)
      else if sg_type s = ''cubic'' then
        (case (sg_control1 s, sg_control2 s) of
           (Some a, Some b) \<Rightarrow>
             if \<not> finite_point a \<or> \<not> finite_point b then Some (CubicControlsInvalid i index)
             else validate_segments i (Suc index) ss
         | _ \<Rightarrow> Some (CubicControlsInvalid i index))
      else Some (SegmentTypeUnknown i index (sg_type s)))"

text \<open>Here every segment has been found to have an end point.\<close>

definition path_ends_at :: "layout_track_segment list \<Rightarrow> layout_point \<Rightarrow> bool" where
  "path_ends_at ss end' = (case sg_to (last ss) of None \<Rightarrow> False | Some p \<Rightarrow> point_eq p end')"

definition validate_path ::
  "track_section \<Rightarrow> (string, layout_point) gomap \<Rightarrow> layout_track_path \<Rightarrow> presentation_problem option" where
  "validate_path section positions p =
     (let i = pa_track_section_id p
      in if \<not> gm_has positions (ts_node_a section) then Some (PathNeedsNode i (ts_node_a section))
         else case map_of positions (ts_node_b section) of
                None \<Rightarrow> Some (PathNeedsNode i (ts_node_b section))
              | Some end' \<Rightarrow>
                  if pa_segments p = [] then Some (PathWithoutSegment i)
                  else (case validate_segments i 0 (pa_segments p) of
                          Some e \<Rightarrow> Some e
                        | None \<Rightarrow>
                            if \<not> path_ends_at (pa_segments p) end'
                            then Some (PathEndsElsewhere i (ts_node_b section)) else None))"

fun validate_paths ::
  "(string, track_section) gomap \<Rightarrow> (string, layout_point) gomap \<Rightarrow> layout_track_path list \<Rightarrow> string list \<Rightarrow>
   presentation_problem option" where
  "validate_paths sections positions [] paths = None"
| "validate_paths sections positions (p # ps) paths =
     (case map_of sections (pa_track_section_id p) of
        None \<Rightarrow> Some (UnknownDrawnSection (pa_track_section_id p))
      | Some section \<Rightarrow>
          if blank (pa_track_section_id p) then Some (UnknownDrawnSection (pa_track_section_id p))
          else if pa_track_section_id p \<in> set paths then Some (DuplicateDrawnSection (pa_track_section_id p))
          else (case validate_path section positions p of
                  Some e \<Rightarrow> Some e
                | None \<Rightarrow> validate_paths sections positions ps (pa_track_section_id p # paths)))"

fun validate_placements ::
  "string list \<Rightarrow> layout_turnout_position list \<Rightarrow> string list \<Rightarrow> presentation_problem option" where
  "validate_placements turnouts [] placed = None"
| "validate_placements turnouts (t # ts) placed =
     (if blank (up_turnout_id t) \<or> up_turnout_id t \<notin> set turnouts then Some (UnknownDrawnTurnout (up_turnout_id t))
      else if up_turnout_id t \<in> set placed then Some (DuplicateDrawnTurnout (up_turnout_id t))
      else if \<not> finite64 (up_x t) \<or> \<not> finite64 (up_y t) \<or> \<not> finite64 (up_rotation_degrees t)
      then Some (PlacementNotFinite (up_turnout_id t))
      else validate_placements turnouts ts (up_turnout_id t # placed))"

fun validate_styles ::
  "string list \<Rightarrow> layout_block_style list \<Rightarrow> string list \<Rightarrow> presentation_problem option" where
  "validate_styles blocks [] styled = None"
| "validate_styles blocks (b # bs) styled =
     (if blank (bs_block_id b) \<or> bs_block_id b \<notin> set blocks then Some (UnknownDrawnBlock (bs_block_id b))
      else if bs_block_id b \<in> set styled then Some (DuplicateDrawnBlock (bs_block_id b))
      else if \<not> valid_layout_color (bs_color b) then Some (InvalidColor (bs_block_id b) (bs_color b))
      else if \<not> finite64 (bs_opacity b) \<or> float_less (bs_opacity b) (Finite 0) \<or> float_less (Finite 1) (bs_opacity b)
      then Some (OpacityOutside (bs_block_id b))
      else validate_styles blocks bs (bs_block_id b # styled))"

definition sections_by_id :: "track_section list \<Rightarrow> (string, track_section) gomap" where
  "sections_by_id ss = fold (\<lambda>s. gm_put (ts_id s) s) ss []"

definition validate_layout_presentation ::
  "layout_presentation \<Rightarrow> layout_definition \<Rightarrow> presentation_problem option" where
  "validate_layout_presentation p0 l =
     (let p = normalize_layout_presentation p0
      in if lp_coordinate_system p \<noteq> layout_coordinate_system
         then Some (UnsupportedCoordinateSystem (lp_coordinate_system p))
         else if \<not> finite64 (lp_grid_spacing p) \<or> float_le (lp_grid_spacing p) (Finite 0)
         then Some GridSpacingInvalid
         else case validate_node_positions (map tn_id (ld_topology_nodes l)) (lp_nodes p) [] of
                Inl e \<Rightarrow> Some e
              | Inr positions \<Rightarrow>
                  or_else (validate_paths (sections_by_id (ld_track_sections l)) positions (lp_track_sections p) [])
                    (or_else (validate_placements (map t_id (ld_turnouts l)) (lp_turnouts p) [])
                       (validate_styles (map bd_id (ld_blocks l)) (lp_blocks p) [])))"

subsection \<open>Merging\<close>

text \<open>
  \<^verbatim>\<open>mergePresentationItems\<close>: the index is the position of every key in the merged slice; the
  error is the repeated key.
\<close>

definition merge_index :: "('a \<Rightarrow> string) \<Rightarrow> 'a list \<Rightarrow> (string, nat) gomap" where
  "merge_index key current = fold (\<lambda>(i, x). gm_put (key x) i) (enumerate 0 current) []"

fun merge_loop ::
  "('a \<Rightarrow> string) \<Rightarrow> 'a list \<Rightarrow> 'a list \<Rightarrow> (string, nat) gomap \<Rightarrow> string list \<Rightarrow> string + 'a list" where
  "merge_loop key [] merged index seen = Inr merged"
| "merge_loop key (x # xs) merged index seen =
     (if key x \<in> set seen then Inl (key x)
      else case map_of index (key x) of
             Some i \<Rightarrow> merge_loop key xs (merged[i := x]) index (key x # seen)
           | None \<Rightarrow> merge_loop key xs (merged @ [x]) (gm_put (key x) (length merged) index) (key x # seen))"

definition merge_presentation_items :: "('a \<Rightarrow> string) \<Rightarrow> 'a list \<Rightarrow> 'a list \<Rightarrow> string + 'a list" where
  "merge_presentation_items key current incoming =
     merge_loop key incoming current (merge_index key current) []"

datatype merge_problem = DuplicateItem string string

text \<open>The kind of the item words the error.\<close>

definition merge_kind :: "string \<Rightarrow> ('a \<Rightarrow> string) \<Rightarrow> 'a list \<Rightarrow> 'a list \<Rightarrow> merge_problem + 'a list" where
  "merge_kind kind key current incoming =
     (case merge_presentation_items key current incoming of
        Inl k \<Rightarrow> Inl (DuplicateItem kind k) | Inr xs \<Rightarrow> Inr xs)"

definition effective_presentation_resources ::
  "layout_definition \<Rightarrow> layout_definition \<Rightarrow> bool \<Rightarrow> merge_problem + layout_definition" where
  "effective_presentation_resources current incoming replace =
     (if replace then Inr incoming
      else rbind (merge_kind ''node'' tn_id (ld_topology_nodes current) (ld_topology_nodes incoming)) (\<lambda>nodes.
        rbind (merge_kind ''track section'' ts_id (ld_track_sections current) (ld_track_sections incoming)) (\<lambda>sections.
          rbind (merge_kind ''turnout'' t_id (ld_turnouts current) (ld_turnouts incoming)) (\<lambda>turnouts.
            rbind (merge_kind ''block'' bd_id (ld_blocks current) (ld_blocks incoming)) (\<lambda>blocks.
              Inr (current\<lparr> ld_topology_nodes := nodes, ld_track_sections := sections,
                            ld_turnouts := turnouts, ld_blocks := blocks \<rparr>))))))"

definition effective_layout_presentation ::
  "layout_presentation \<Rightarrow> layout_presentation option \<Rightarrow> bool \<Rightarrow> merge_problem + layout_presentation" where
  "effective_layout_presentation current incoming replace =
     (if replace
      then Inr (case incoming of None \<Rightarrow> empty_layout_presentation | Some p \<Rightarrow> normalize_layout_presentation p)
      else case incoming of
             None \<Rightarrow> Inr current
           | Some p \<Rightarrow>
               rbind (merge_kind ''node'' np_node_id (lp_nodes current) (lp_nodes p)) (\<lambda>nodes.
                 rbind (merge_kind ''track section'' pa_track_section_id (lp_track_sections current) (lp_track_sections p)) (\<lambda>paths.
                   rbind (merge_kind ''turnout'' up_turnout_id (lp_turnouts current) (lp_turnouts p)) (\<lambda>turnouts.
                     rbind (merge_kind ''block'' bs_block_id (lp_blocks current) (lp_blocks p)) (\<lambda>blocks.
                       Inr (current\<lparr>
                         lp_coordinate_system := (if lp_coordinate_system p \<noteq> [] then lp_coordinate_system p
                                                  else lp_coordinate_system current),
                         lp_grid_spacing := (if float_eq (lp_grid_spacing p) (Finite 0) then lp_grid_spacing current
                                             else lp_grid_spacing p),
                         lp_nodes := nodes, lp_track_sections := paths, lp_turnouts := turnouts,
                         lp_blocks := blocks \<rparr>))))))"

end
