(* ===== verification/PresentationFacts.thy ===== *)
theory PresentationFacts
  imports Presentation
begin

text \<open>
  What the validation of a drawing accepts, stated without its loops, and that the indexed
  merge of two lists is the row-wise update of the first by the second.
\<close>

subsection \<open>Well-formed drawings\<close>

definition segment_wf :: "layout_track_segment \<Rightarrow> bool" where
  "segment_wf s \<longleftrightarrow>
     (\<exists>p. sg_to s = Some p \<and> finite_point p) \<and>
     (sg_type s = ''line'' \<and> sg_control1 s = None \<and> sg_control2 s = None \<or>
      sg_type s = ''cubic'' \<and>
        (\<exists>a b. sg_control1 s = Some a \<and> sg_control2 s = Some b \<and> finite_point a \<and> finite_point b))"

text \<open>Where the drawing puts a node.\<close>

definition drawn_at :: "layout_node_position list \<Rightarrow> string \<Rightarrow> layout_point option" where
  "drawn_at ns = map_of (map (\<lambda>n. (np_node_id n, \<lparr> pt_x = np_x n, pt_y = np_y n \<rparr>)) ns)"

definition path_wf ::
  "(string, track_section) gomap \<Rightarrow> (string \<Rightarrow> layout_point option) \<Rightarrow> layout_track_path \<Rightarrow> bool" where
  "path_wf sections pos p \<longleftrightarrow>
     (\<exists>s q. map_of sections (pa_track_section_id p) = Some s \<and> \<not> blank (pa_track_section_id p) \<and>
        pos (ts_node_a s) \<noteq> None \<and> pos (ts_node_b s) = Some q \<and>
        pa_segments p \<noteq> [] \<and> (\<forall>sg\<in>set (pa_segments p). segment_wf sg) \<and> path_ends_at (pa_segments p) q)"

definition placement_wf :: "string set \<Rightarrow> layout_turnout_position \<Rightarrow> bool" where
  "placement_wf turnouts t \<longleftrightarrow> \<not> blank (up_turnout_id t) \<and> up_turnout_id t \<in> turnouts \<and>
     finite64 (up_x t) \<and> finite64 (up_y t) \<and> finite64 (up_rotation_degrees t)"

definition style_wf :: "string set \<Rightarrow> layout_block_style \<Rightarrow> bool" where
  "style_wf blocks b \<longleftrightarrow> \<not> blank (bs_block_id b) \<and> bs_block_id b \<in> blocks \<and> valid_layout_color (bs_color b) \<and>
     (\<exists>r. bs_opacity b = Finite r \<and> 0 \<le> r \<and> r \<le> 1)"

definition presentation_wf :: "layout_presentation \<Rightarrow> layout_definition \<Rightarrow> bool" where
  "presentation_wf p l \<longleftrightarrow>
     lp_coordinate_system p = layout_coordinate_system \<and>
     (\<exists>g. lp_grid_spacing p = Finite g \<and> 0 < g) \<and>
     (distinct (map np_node_id (lp_nodes p)) \<and>
        (\<forall>n\<in>set (lp_nodes p). \<not> blank (np_node_id n) \<and> np_node_id n \<in> node_ids l \<and>
           finite64 (np_x n) \<and> finite64 (np_y n))) \<and>
     (distinct (map pa_track_section_id (lp_track_sections p)) \<and>
        (\<forall>q\<in>set (lp_track_sections p). path_wf (sections_by_id (ld_track_sections l)) (drawn_at (lp_nodes p)) q)) \<and>
     (distinct (map up_turnout_id (lp_turnouts p)) \<and>
        (\<forall>t\<in>set (lp_turnouts p). placement_wf (t_id ` set (ld_turnouts l)) t)) \<and>
     (distinct (map bs_block_id (lp_blocks p)) \<and>
        (\<forall>b\<in>set (lp_blocks p). style_wf (bd_id ` set (ld_blocks l)) b))"

subsection \<open>The loops\<close>

lemma not_finite_or_le: "finite64 x \<and> \<not> float_le x (Finite 0) \<longleftrightarrow> (\<exists>g. x = Finite g \<and> 0 < g)"
  by (cases x) (auto simp: float_le_def)

lemma opacity_ok:
  "finite64 x \<and> \<not> float_less x (Finite 0) \<and> \<not> float_less (Finite 1) x \<longleftrightarrow> (\<exists>r. x = Finite r \<and> 0 \<le> r \<and> r \<le> 1)"
  by (cases x) auto

lemma gm_has_map_of: "gm_has m k \<longleftrightarrow> (\<exists>v. map_of m k = Some v)"
  by (simp add: gm_has_def)

lemma validate_node_positions_Inr:
  "gm_wf ps \<Longrightarrow> validate_node_positions nodes ns ps = Inr ps' \<longleftrightarrow>
     ps' = fold (\<lambda>n. gm_put (np_node_id n) \<lparr> pt_x = np_x n, pt_y = np_y n \<rparr>) ns ps \<and>
     distinct (map np_node_id ns) \<and> np_node_id ` set ns \<inter> fst ` set ps = {} \<and>
     (\<forall>n\<in>set ns. \<not> blank (np_node_id n) \<and> np_node_id n \<in> set nodes \<and> finite64 (np_x n) \<and> finite64 (np_y n))"
  by (induction nodes ns ps rule: validate_node_positions.induct)
     (auto simp: gm_has_iff Let_def finite_point_def)

lemma fold_positions:
  "gm_wf ps \<Longrightarrow> distinct (map np_node_id ns) \<Longrightarrow> np_node_id ` set ns \<inter> fst ` set ps = {} \<Longrightarrow>
     map_of (fold (\<lambda>n. gm_put (np_node_id n) \<lparr> pt_x = np_x n, pt_y = np_y n \<rparr>) ns ps) = map_of ps ++ drawn_at ns"
proof (induction ns arbitrary: ps)
  case Nil
  then show ?case by (simp add: drawn_at_def)
next
  case (Cons n ns)
  have "map_of ps (np_node_id n) = None" using Cons.prems by (simp add: map_of_eq_None_iff)
  moreover have "drawn_at ns (np_node_id n) = None"
    using Cons.prems by (auto simp: drawn_at_def map_of_eq_None_iff)
  ultimately show ?case
    using Cons by (auto simp: drawn_at_def map_add_def fun_eq_iff split: option.splits)
qed

lemma validate_segments_None: "validate_segments i k ss = None \<longleftrightarrow> (\<forall>s\<in>set ss. segment_wf s)"
  by (induction i k ss rule: validate_segments.induct) (auto simp: segment_wf_def split: option.splits)

lemma validate_path_None:
  assumes "map_of sections (pa_track_section_id p) = Some s" and "\<not> blank (pa_track_section_id p)"
  shows "validate_path s positions p = None \<longleftrightarrow> path_wf sections (map_of positions) p"
proof (cases "validate_segments (pa_track_section_id p) 0 (pa_segments p)")
  case None
  have "\<forall>sg\<in>set (pa_segments p). segment_wf sg" using None by (simp add: validate_segments_None)
  then show ?thesis using assms None
    by (auto simp: validate_path_def path_wf_def Let_def gm_has_map_of split: option.splits)
next
  case (Some e)
  then have "\<not> path_wf sections (map_of positions) p"
    using validate_segments_None [of "pa_track_section_id p" 0 "pa_segments p"] by (simp add: path_wf_def)
  then show ?thesis using Some by (simp add: validate_path_def Let_def split: option.splits)
qed

lemma validate_paths_None:
  "validate_paths sections positions ps seen = None \<longleftrightarrow>
     distinct (map pa_track_section_id ps) \<and> pa_track_section_id ` set ps \<inter> set seen = {} \<and>
     (\<forall>p\<in>set ps. path_wf sections (map_of positions) p)"
proof (induction sections positions ps seen rule: validate_paths.induct)
  case (2 sections positions p ps paths)
  show ?case
  proof (cases "map_of sections (pa_track_section_id p)")
    case None
    then have "\<not> path_wf sections (map_of positions) p" by (simp add: path_wf_def)
    then show ?thesis using None by simp
  next
    case (Some s)
    show ?thesis
    proof (cases "blank (pa_track_section_id p) \<or> pa_track_section_id p \<in> set paths")
      case True
      then show ?thesis using Some by (auto simp: path_wf_def)
    next
      case False
      then show ?thesis using Some 2 [OF Some] validate_path_None [OF Some, of positions]
        by (cases "validate_path s positions p") auto
    qed
  qed
qed simp

lemma validate_placements_None:
  "validate_placements turnouts ts seen = None \<longleftrightarrow>
     distinct (map up_turnout_id ts) \<and> up_turnout_id ` set ts \<inter> set seen = {} \<and>
     (\<forall>t\<in>set ts. placement_wf (set turnouts) t)"
  by (induction turnouts ts seen rule: validate_placements.induct) (auto simp: placement_wf_def)

lemma validate_styles_None:
  "validate_styles blocks bs seen = None \<longleftrightarrow>
     distinct (map bs_block_id bs) \<and> bs_block_id ` set bs \<inter> set seen = {} \<and>
     (\<forall>b\<in>set bs. style_wf (set blocks) b)"
proof (induction blocks bs seen rule: validate_styles.induct)
  case (2 blocks b bs styled)
  then show ?case using opacity_ok [of "bs_opacity b"] by (auto simp: style_wf_def)
qed simp

lemma validate_layout_presentation_None:
  "validate_layout_presentation p l = None \<longleftrightarrow> presentation_wf (normalize_layout_presentation p) l"
proof -
  let ?p = "normalize_layout_presentation p"
  let ?v = "validate_node_positions (map tn_id (ld_topology_nodes l)) (lp_nodes ?p) []"
  note nodes = validate_node_positions_Inr [OF gm_wf_Nil, of "map tn_id (ld_topology_nodes l)" "lp_nodes ?p"]
  show ?thesis
  proof (cases ?v)
    case (Inl e)
    then have "\<not> presentation_wf ?p l" using nodes by (auto simp: presentation_wf_def node_ids_def)
    then show ?thesis using Inl by (simp add: validate_layout_presentation_def Let_def)
  next
    case (Inr positions)
    then have ok: "distinct (map np_node_id (lp_nodes ?p))"
      "\<forall>n\<in>set (lp_nodes ?p). \<not> blank (np_node_id n) \<and> np_node_id n \<in> node_ids l \<and> finite64 (np_x n) \<and> finite64 (np_y n)"
      and positions: "map_of positions = drawn_at (lp_nodes ?p)"
      using nodes [of positions] fold_positions [of "[]" "lp_nodes ?p"] by (auto simp: node_ids_def)
    show ?thesis
      using Inr ok
      by (simp add: validate_layout_presentation_def Let_def presentation_wf_def validate_paths_None
          validate_placements_None validate_styles_None positions flip: not_finite_or_le)
  qed
qed

text \<open>
  A drawing is accepted exactly when, with its defaults filled in, it is well formed: the
  coordinate system is known and the grid spacing positive, every node, section, turnout and
  block is drawn at most once and exists in the layout, every number is finite, every path
  connects two drawn nodes by lines and cubic curves and ends at its second node, and every
  block style has a colour and an opacity between 0 and 1.
\<close>

theorem presentation_accepts:
  "validate_layout_presentation p l = None \<longleftrightarrow> presentation_wf (normalize_layout_presentation p) l"
  by (rule validate_layout_presentation_None)

subsection \<open>Merging\<close>

definition indexed :: "('a \<Rightarrow> string) \<Rightarrow> 'a list \<Rightarrow> (string, nat) gomap \<Rightarrow> bool" where
  "indexed key xs index \<longleftrightarrow> gm_wf index \<and>
     (\<forall>k i. map_of index k = Some i \<longleftrightarrow> i < length xs \<and> key (xs ! i) = k)"

lemma upsert_at: "distinct (map key xs) \<Longrightarrow> i < length xs \<Longrightarrow> key (xs ! i) = key x \<Longrightarrow> upsert key x xs = xs[i := x]"
proof (induction xs arbitrary: i)
  case (Cons y ys)
  then show ?case
  proof (cases i)
    case (Suc j)
    then have "key y \<noteq> key x" using Cons.prems by (metis One_nat_def distinct.simps(2) imageI length_Cons list.simps(9) not_less_eq nth_Cons_Suc nth_mem set_map)
    then show ?thesis using Cons Suc by simp
  qed simp
qed simp

lemma indexed_merge_index: "distinct (map key xs) \<Longrightarrow> indexed key xs (merge_index key xs)"
proof (induction xs rule: rev_induct)
  case Nil
  then show ?case by (simp add: indexed_def merge_index_def)
next
  case (snoc x xs)
  have step: "merge_index key (xs @ [x]) = gm_put (key x) (length xs) (merge_index key xs)"
    by (simp add: merge_index_def enumerate_append_eq)
  have ix: "indexed key xs (merge_index key xs)" using snoc by simp
  have new: "i < length xs \<Longrightarrow> key (xs ! i) \<noteq> key x" for i
    using snoc.prems by (metis distinct.simps(2) distinct_rev imageI list.simps(9) nth_mem rev.simps(2) rev_map rev_rev_ident set_map set_rev)
  show ?case using ix new unfolding indexed_def step
    by (auto simp: nth_append less_Suc_eq split: if_splits)
qed

lemma indexed_None:
  assumes "indexed key xs index"
  shows "map_of index k = None \<longleftrightarrow> k \<notin> key ` set xs"
proof (cases "map_of index k")
  case None
  have "map_of index k = Some i \<longleftrightarrow> i < length xs \<and> key (xs ! i) = k" for i using assms by (simp add: indexed_def)
  then have "key (xs ! i) \<noteq> k" if "i < length xs" for i using None that by auto
  then show ?thesis using None by (metis imageE in_set_conv_nth)
next
  case (Some i)
  then have "i < length xs" "key (xs ! i) = k" using assms by (simp_all add: indexed_def)
  then have "k \<in> key ` set xs" by (metis imageI nth_mem)
  then show ?thesis using Some by simp
qed

lemma indexed_append:
  assumes "indexed key xs index" and "key x \<notin> key ` set xs"
  shows "indexed key (xs @ [x]) (gm_put (key x) (length xs) index)"
proof -
  have "key (xs ! i) \<noteq> key x" if "i < length xs" for i using assms(2) that by (metis imageI nth_mem)
  then show ?thesis using assms(1) unfolding indexed_def
    by (auto simp: nth_append less_Suc_eq split: if_splits)
qed

lemma indexed_update:
  "indexed key xs index \<Longrightarrow> map_of index (key x) = Some i \<Longrightarrow> indexed key (xs[i := x]) index"
  unfolding indexed_def by (auto simp: nth_list_update split: if_splits)

lemma merge_loop_upsert:
  "distinct (map key merged) \<Longrightarrow> indexed key merged index \<Longrightarrow>
     merge_loop key xs merged index seen = Inr ys \<longleftrightarrow>
     distinct (map key xs) \<and> key ` set xs \<inter> set seen = {} \<and> ys = fold (upsert key) xs merged"
proof (induction key xs merged index seen rule: merge_loop.induct)
  case (2 key x xs merged index seen)
  show ?case
  proof (cases "map_of index (key x)")
    case None
    then have "key x \<notin> key ` set merged" using 2 by (simp add: indexed_None)
    then show ?thesis using None 2 by (auto simp: indexed_append upsert_new)
  next
    case (Some i)
    then have i: "i < length merged" "key (merged ! i) = key x" using 2 by (auto simp: indexed_def)
    then have "upsert key x merged = merged[i := x]" using 2 by (simp add: upsert_at)
    moreover have "distinct (map key (merged[i := x]))" using i 2
      by (metis distinct_upsert \<open>upsert key x merged = merged[i := x]\<close>)
    ultimately show ?thesis using Some 2 by (auto simp: indexed_update)
  qed
qed auto

lemma merge_loop_repeats: "merge_loop key xs merged index seen = Inl k \<Longrightarrow> k \<in> key ` set xs"
  by (induction key xs merged index seen rule: merge_loop.induct) (auto split: if_splits option.splits)

text \<open>
  Merging a list of items into one with distinct keys fails exactly when a key comes
  twice, and otherwise is the update or addition of the items one by one: every item of the
  incoming list replaces the one with its key, and the others stay where they are.
\<close>

theorem merge_is_upsert:
  assumes "distinct (map key current)"
  shows "(if distinct (map key incoming)
      then merge_presentation_items key current incoming = Inr (fold (upsert key) incoming current)
      else \<exists>k\<in>key ` set incoming. merge_presentation_items key current incoming = Inl k)"
proof -
  note merge = merge_loop_upsert [OF assms indexed_merge_index [OF assms], of incoming "[]"]
  show ?thesis
  proof (cases "merge_presentation_items key current incoming")
    case (Inl k)
    then show ?thesis using merge merge_loop_repeats [of key incoming current _ "[]" k]
      by (auto simp: merge_presentation_items_def)
  next
    case (Inr ys)
    then show ?thesis using merge [of ys] by (simp add: merge_presentation_items_def)
  qed
qed

theorem merge_is_upsert_witness:
  "merge_presentation_items bs_block_id
     [\<lparr> bs_block_id = ''a'', bs_color = ''#000000'', bs_opacity = Finite 1 \<rparr>]
     [\<lparr> bs_block_id = ''b'', bs_color = ''#ffffff'', bs_opacity = Finite 0 \<rparr>,
      \<lparr> bs_block_id = ''a'', bs_color = ''#123456'', bs_opacity = Finite 1 \<rparr>] =
     Inr [\<lparr> bs_block_id = ''a'', bs_color = ''#123456'', bs_opacity = Finite 1 \<rparr>,
          \<lparr> bs_block_id = ''b'', bs_color = ''#ffffff'', bs_opacity = Finite 0 \<rparr>]"
  using merge_is_upsert [of bs_block_id "[\<lparr> bs_block_id = ''a'', bs_color = ''#000000'', bs_opacity = Finite 1 \<rparr>]"
      "[\<lparr> bs_block_id = ''b'', bs_color = ''#ffffff'', bs_opacity = Finite 0 \<rparr>,
        \<lparr> bs_block_id = ''a'', bs_color = ''#123456'', bs_opacity = Finite 1 \<rparr>]"]
  by simp

end
