(* ===== verification/LayoutTables.thy ===== *)
theory LayoutTables
  imports TrackGraph Routes Presentation
begin

text \<open>
  The tables that hold a layout, and the statements of \<^verbatim>\<open>internal/store/topology.go\<close>,
  \<^verbatim>\<open>internal/store/block_definitions.go\<close>, \<^verbatim>\<open>internal/store/layout_presentation.go\<close>
  and the membership helpers of \<^verbatim>\<open>internal/store/routes.go\<close> over them.

  A table is the list of its rows; a statement fails where a primary key, a unique, check or
  foreign key constraint of \<^verbatim>\<open>internal/store/store.go\<close> does, and a delete removes the rows
  that reference the deleted ones with \<^verbatim>\<open>ON DELETE CASCADE\<close>. Within one statement only the
  fact that it fails is visible, not which constraint it is. The definition of a turnout is kept
  with its row, as in the theory of the railway; the text of a stored path stands for its
  segments. A transaction is a function from tables to new tables or an error, and an error
  leaves the tables as they were.
\<close>

subsection \<open>Tables\<close>

record port_row =
  pr_turnout_id :: string
  pr_port_id :: string
  pr_node_id :: string
  pr_ordinal :: nat

record position_row =
  po_turnout_id :: string
  po_position_id :: string
  po_ordinal :: nat

record connection_row =
  cr_turnout_id :: string
  cr_position_id :: string
  cr_port_a :: string
  cr_port_b :: string
  cr_ordinal :: nat

record layout_tables =
  lt_turnouts :: "turnout list"
  lt_nodes :: "topology_node list"
  lt_sections :: "track_section list"
  lt_topologies :: "string list"
  lt_ports :: "port_row list"
  lt_positions :: "position_row list"
  lt_connections :: "connection_row list"
  lt_blocks :: "(string \<times> string) list"
  lt_block_sections :: "(string \<times> string) list"
  lt_block_turnouts :: "(string \<times> string) list"
  lt_drawing :: "(string \<times> float64) option"
  lt_node_positions :: "layout_node_position list"
  lt_track_paths :: "layout_track_path list"
  lt_turnout_positions :: "layout_turnout_position list"
  lt_block_styles :: "layout_block_style list"
  lt_routes :: "(route \<times> string \<times> string) list"
  lt_route_blocks :: "(string \<times> string) list"
  lt_route_turnouts :: "(string \<times> string \<times> string) list"
  lt_route_conflicts :: "(string \<times> string) list"
  lt_providers :: "occupancy_provider list"
  lt_mappings :: "occupancy_sensor_mapping list"

text \<open>What a failed statement was about.\<close>

datatype stored_item =
    StoredNodes
  | StoredNode string
  | StoredSection string
  | StoredTopology string
  | StoredPort string string
  | StoredPosition string string
  | StoredConnection string string
  | StoredBlock string
  | StoredBlockSection string string
  | StoredBlockTurnout string string
  | StoredDrawing
  | StoredNodePosition string
  | StoredPath string
  | StoredTurnoutPosition string
  | StoredBlockStyle string
  | StoredTurnouts
  | StoredTurnout string
  | StoredEndpoint string string
  | StoredVector string string string
  | StoredProvider string
  | StoredMapping string string
  | StoredRoute string

datatype layout_error =
    ConstraintFailed stored_item
  | UnknownTopology string
  | UnknownTopologyPosition string string
  | LayoutRejected graph_error
  | TurnoutsUnreadable service_error
  | BlockNotFound
  | SectionOfOmittedBlock string string
  | TurnoutOfOmittedBlock string string
  | DrawingRejected presentation_problem
  | DrawingUnmerged merge_problem

text \<open>\<^verbatim>\<open>for _, x := range xs { if err := stmt(x); err != nil { return err } }\<close>\<close>

fun each :: "('a \<Rightarrow> 's \<Rightarrow> 'e + 's) \<Rightarrow> 'a list \<Rightarrow> 's \<Rightarrow> 'e + 's" where
  "each f [] s = Inr s"
| "each f (x # xs) s = rbind (f x s) (each f xs)"

text \<open>A statement that a constraint may stop.\<close>

definition when_ok :: "bool \<Rightarrow> stored_item \<Rightarrow> 's \<Rightarrow> layout_error + 's" where
  "when_ok ok item s = (if ok then Inr s else Inl (ConstraintFailed item))"

abbreviation node_keys :: "layout_tables \<Rightarrow> string set" where
  "node_keys db \<equiv> tn_id ` set (lt_nodes db)"

abbreviation section_keys :: "layout_tables \<Rightarrow> string set" where
  "section_keys db \<equiv> ts_id ` set (lt_sections db)"

abbreviation turnout_keys :: "layout_tables \<Rightarrow> string set" where
  "turnout_keys db \<equiv> t_id ` set (lt_turnouts db)"

abbreviation block_keys :: "layout_tables \<Rightarrow> string set" where
  "block_keys db \<equiv> fst ` set (lt_blocks db)"

subsection \<open>Writing the topology\<close>

definition delete_track_sections :: "layout_tables \<Rightarrow> layout_tables" where
  "delete_track_sections db = db\<lparr> lt_sections := [], lt_block_sections := [], lt_track_paths := [] \<rparr>"

definition delete_turnout_topologies :: "layout_tables \<Rightarrow> layout_tables" where
  "delete_turnout_topologies db =
     db\<lparr> lt_topologies := [], lt_ports := [], lt_positions := [], lt_connections := [], lt_block_turnouts := [] \<rparr>"

definition delete_topology_nodes :: "layout_tables \<Rightarrow> layout_error + layout_tables" where
  "delete_topology_nodes db =
     when_ok ((\<forall>s\<in>set (lt_sections db). ts_node_a s \<notin> node_keys db \<and> ts_node_b s \<notin> node_keys db) \<and>
              (\<forall>p\<in>set (lt_ports db). pr_node_id p \<notin> node_keys db)) StoredNodes
       (db\<lparr> lt_nodes := [], lt_node_positions := [] \<rparr>)"

definition clear_topology_definition :: "layout_tables \<Rightarrow> layout_error + layout_tables" where
  "clear_topology_definition db = delete_topology_nodes (delete_turnout_topologies (delete_track_sections db))"

definition upsert_node :: "topology_node \<Rightarrow> layout_tables \<Rightarrow> layout_error + layout_tables" where
  "upsert_node n db =
     when_ok (node_kind_valid (tn_kind n)) (StoredNode (tn_id n))
       (db\<lparr> lt_nodes := upsert tn_id n (lt_nodes db) \<rparr>)"

definition upsert_section :: "track_section \<Rightarrow> layout_tables \<Rightarrow> layout_error + layout_tables" where
  "upsert_section s db =
     when_ok (0 \<le> ts_length_mm s \<and> ts_node_a s \<noteq> ts_node_b s \<and>
              ts_node_a s \<in> node_keys db \<and> ts_node_b s \<in> node_keys db) (StoredSection (ts_id s))
       (db\<lparr> lt_sections := upsert ts_id s (lt_sections db) \<rparr>)"

definition insert_topology :: "string \<Rightarrow> layout_tables \<Rightarrow> layout_error + layout_tables" where
  "insert_topology i db =
     when_ok (i \<in> turnout_keys db) (StoredTopology i)
       (db\<lparr> lt_topologies := upsert id i (lt_topologies db) \<rparr>)"

text \<open>The three deletes of the rows of one turnout; nothing else references these rows.\<close>

definition delete_topology_rows :: "string \<Rightarrow> layout_tables \<Rightarrow> layout_tables" where
  "delete_topology_rows i db =
     db\<lparr> lt_connections := filter (\<lambda>c. cr_turnout_id c \<noteq> i) (lt_connections db),
         lt_positions := filter (\<lambda>p. po_turnout_id p \<noteq> i) (lt_positions db),
         lt_ports := filter (\<lambda>p. pr_turnout_id p \<noteq> i) (lt_ports db) \<rparr>"

definition insert_port :: "string \<Rightarrow> nat \<times> turnout_port \<Rightarrow> layout_tables \<Rightarrow> layout_error + layout_tables" where
  "insert_port i item db =
     (let (ordinal, p) = item
      in when_ok (i \<in> set (lt_topologies db) \<and> pt_node_id p \<in> node_keys db \<and>
                  (\<forall>r\<in>set (lt_ports db). pr_turnout_id r = i \<longrightarrow> pr_port_id r \<noteq> pt_id p \<and> pr_ordinal r \<noteq> ordinal))
           (StoredPort i (pt_id p))
           (db\<lparr> lt_ports := lt_ports db @ [\<lparr> pr_turnout_id = i, pr_port_id = pt_id p,
                  pr_node_id = pt_node_id p, pr_ordinal = ordinal \<rparr>] \<rparr>))"

definition insert_position_row ::
  "string \<Rightarrow> string \<Rightarrow> nat \<Rightarrow> layout_tables \<Rightarrow> layout_error + layout_tables" where
  "insert_position_row i p ordinal db =
     when_ok (i \<in> set (lt_topologies db) \<and>
              (\<forall>r\<in>set (lt_positions db). po_turnout_id r = i \<longrightarrow> po_position_id r \<noteq> p \<and> po_ordinal r \<noteq> ordinal))
       (StoredPosition i p)
       (db\<lparr> lt_positions := lt_positions db @ [\<lparr> po_turnout_id = i, po_position_id = p, po_ordinal = ordinal \<rparr>] \<rparr>)"

definition insert_connection ::
  "string \<Rightarrow> string \<Rightarrow> nat \<times> port_connection \<Rightarrow> layout_tables \<Rightarrow> layout_error + layout_tables" where
  "insert_connection i p item db =
     (let (ordinal, c) = item
      in when_ok (pc_port_a c \<noteq> pc_port_b c \<and>
                  (\<exists>r\<in>set (lt_positions db). po_turnout_id r = i \<and> po_position_id r = p) \<and>
                  (\<exists>r\<in>set (lt_ports db). pr_turnout_id r = i \<and> pr_port_id r = pc_port_a c) \<and>
                  (\<exists>r\<in>set (lt_ports db). pr_turnout_id r = i \<and> pr_port_id r = pc_port_b c) \<and>
                  (\<forall>r\<in>set (lt_connections db). cr_turnout_id r = i \<and> cr_position_id r = p \<longrightarrow>
                     (cr_port_a r, cr_port_b r) \<noteq> (pc_port_a c, pc_port_b c) \<and> cr_ordinal r \<noteq> ordinal))
           (StoredConnection i p)
           (db\<lparr> lt_connections := lt_connections db @ [\<lparr> cr_turnout_id = i, cr_position_id = p,
                  cr_port_a = pc_port_a c, cr_port_b = pc_port_b c, cr_ordinal = ordinal \<rparr>] \<rparr>))"

definition insert_position ::
  "string \<Rightarrow> nat \<times> turnout_topology_position \<Rightarrow> layout_tables \<Rightarrow> layout_error + layout_tables" where
  "insert_position i item db =
     (let (ordinal, p) = item
      in rbind (insert_position_row i (tp_position_id p) ordinal db)
           (each (insert_connection i (tp_position_id p)) (enumerate 0 (tp_connections p))))"

definition store_topology :: "turnout_topology \<Rightarrow> layout_tables \<Rightarrow> layout_error + layout_tables" where
  "store_topology topo db =
     (let i = tt_turnout_id topo
      in rbind (insert_topology i db) (\<lambda>db1.
           rbind (each (insert_port i) (enumerate 0 (tt_ports topo)) (delete_topology_rows i db1))
             (each (insert_position i) (enumerate 0 (tt_positions topo)))))"

definition upsert_topology_definition :: "layout_definition \<Rightarrow> layout_tables \<Rightarrow> layout_error + layout_tables" where
  "upsert_topology_definition l db =
     rbind (each upsert_node (ld_topology_nodes l) db) (\<lambda>db1.
       rbind (each upsert_section (ld_track_sections l) db1)
         (each store_topology (ld_turnout_topologies l)))"

subsection \<open>Reading the topology\<close>

definition list_topology_nodes :: "layout_tables \<Rightarrow> topology_node list" where
  "list_topology_nodes db = sort_key tn_id (lt_nodes db)"

definition list_track_sections :: "layout_tables \<Rightarrow> track_section list" where
  "list_track_sections db = sort_key ts_id (lt_sections db)"

text \<open>
  \<^verbatim>\<open>topologies[indexes[id]]\<close>: the keys of the table are unique, so an identifier has one
  index. A row whose topology or position is missing is an error.
\<close>

definition add_port_row :: "port_row \<Rightarrow> turnout_topology list \<Rightarrow> layout_error + turnout_topology list" where
  "add_port_row r topos =
     (if pr_turnout_id r \<in> tt_turnout_id ` set topos
      then Inr (map (\<lambda>t. if tt_turnout_id t = pr_turnout_id r
                 then t\<lparr> tt_ports := tt_ports t @ [\<lparr> pt_id = pr_port_id r, pt_node_id = pr_node_id r \<rparr>] \<rparr>
                 else t) topos)
      else Inl (UnknownTopology (pr_turnout_id r)))"

definition add_position_row :: "position_row \<Rightarrow> turnout_topology list \<Rightarrow> layout_error + turnout_topology list" where
  "add_position_row r topos =
     (if po_turnout_id r \<in> tt_turnout_id ` set topos
      then Inr (map (\<lambda>t. if tt_turnout_id t = po_turnout_id r
                 then t\<lparr> tt_positions := tt_positions t @
                        [\<lparr> tp_position_id = po_position_id r, tp_connections = [] \<rparr>] \<rparr>
                 else t) topos)
      else Inl (UnknownTopology (po_turnout_id r)))"

definition add_connection_row :: "connection_row \<Rightarrow> turnout_topology list \<Rightarrow> layout_error + turnout_topology list" where
  "add_connection_row r topos =
     (if cr_turnout_id r \<notin> tt_turnout_id ` set topos then Inl (UnknownTopology (cr_turnout_id r))
      else if \<not> (\<exists>t\<in>set topos. tt_turnout_id t = cr_turnout_id r \<and>
                   cr_position_id r \<in> tp_position_id ` set (tt_positions t))
      then Inl (UnknownTopologyPosition (cr_position_id r) (cr_turnout_id r))
      else Inr (map (\<lambda>t. if tt_turnout_id t = cr_turnout_id r
                 then t\<lparr> tt_positions := map (\<lambda>p. if tp_position_id p = cr_position_id r
                           then p\<lparr> tp_connections := tp_connections p @
                                  [\<lparr> pc_port_a = cr_port_a r, pc_port_b = cr_port_b r \<rparr>] \<rparr>
                           else p) (tt_positions t) \<rparr>
                 else t) topos))"

definition list_turnout_topologies :: "layout_tables \<Rightarrow> layout_error + turnout_topology list" where
  "list_turnout_topologies db =
     rbind (each add_port_row (sort_key (\<lambda>r. (pr_turnout_id r, pr_ordinal r)) (lt_ports db))
              (map (\<lambda>i. \<lparr> tt_turnout_id = i, tt_ports = [], tt_positions = [] \<rparr>) (sort (lt_topologies db)))) (\<lambda>topos.
       rbind (each add_position_row (sort_key (\<lambda>r. (po_turnout_id r, po_ordinal r)) (lt_positions db)) topos)
         (each add_connection_row
            (sort_key (\<lambda>r. (cr_turnout_id r, cr_position_id r, cr_ordinal r)) (lt_connections db))))"

definition get_topology_definition :: "layout_tables \<Rightarrow> layout_error + layout_definition" where
  "get_topology_definition db =
     rbind (list_turnout_topologies db) (\<lambda>topos.
       Inr \<lparr> ld_blocks = [], ld_turnouts = [], ld_routes = [], ld_topology_nodes = list_topology_nodes db,
             ld_track_sections = list_track_sections db, ld_turnout_topologies = topos \<rparr>)"

subsection \<open>Blocks and their resources\<close>

text \<open>
  \<^verbatim>\<open>blocks[indexes[id]]\<close> reads index 0 for an identifier that is not in the map, and
  panics when there is no block at all: \<open>None\<close>.
\<close>

definition block_index :: "block_definition list \<Rightarrow> string \<Rightarrow> nat" where
  "block_index bs i = gm_get 0 (merge_index bd_id bs) i"

definition add_to_block ::
  "(string \<Rightarrow> block_definition \<Rightarrow> block_definition) \<Rightarrow> string \<times> string \<Rightarrow> block_definition list \<Rightarrow>
   block_definition list option" where
  "add_to_block f row bs =
     (let i = block_index bs (fst row)
      in if i < length bs then Some (bs[i := f (snd row) (bs ! i)]) else None)"

fun add_all_to_blocks ::
  "(string \<Rightarrow> block_definition \<Rightarrow> block_definition) \<Rightarrow> (string \<times> string) list \<Rightarrow> block_definition list \<Rightarrow>
   block_definition list option" where
  "add_all_to_blocks f [] bs = Some bs"
| "add_all_to_blocks f (row # rows) bs = Option.bind (add_to_block f row bs) (add_all_to_blocks f rows)"

abbreviation add_section :: "string \<Rightarrow> block_definition \<Rightarrow> block_definition" where
  "add_section s b \<equiv> b\<lparr> bd_track_section_ids := bd_track_section_ids b @ [s] \<rparr>"

abbreviation add_turnout :: "string \<Rightarrow> block_definition \<Rightarrow> block_definition" where
  "add_turnout t b \<equiv> b\<lparr> bd_turnout_ids := bd_turnout_ids b @ [t] \<rparr>"

abbreviation bare_block :: "string \<times> string \<Rightarrow> block_definition" where
  "bare_block row \<equiv> \<lparr> bd_id = fst row, bd_name = snd row, bd_track_section_ids = [], bd_turnout_ids = [] \<rparr>"

definition list_block_definitions :: "layout_tables \<Rightarrow> block_definition list option" where
  "list_block_definitions db =
     Option.bind (add_all_to_blocks add_section (sort (lt_block_sections db))
         (map bare_block (sort_key fst (lt_blocks db))))
       (add_all_to_blocks add_turnout (sort (lt_block_turnouts db)))"

definition load_block_resources :: "layout_tables \<Rightarrow> string \<times> string \<Rightarrow> block_definition" where
  "load_block_resources db row =
     \<lparr> bd_id = fst row, bd_name = snd row,
       bd_track_section_ids = sort (map snd (filter (\<lambda>m. fst m = fst row) (lt_block_sections db))),
       bd_turnout_ids = sort (map snd (filter (\<lambda>m. fst m = fst row) (lt_block_turnouts db))) \<rparr>"

text \<open>The join of the blocks with one of the two membership tables; a resource is in one row.\<close>

definition block_for_resource ::
  "(string \<times> string) list \<Rightarrow> string \<Rightarrow> layout_tables \<Rightarrow> layout_error + block_definition" where
  "block_for_resource members r db =
     (case find (\<lambda>b. (fst b, r) \<in> set members) (lt_blocks db) of
        None \<Rightarrow> Inl BlockNotFound | Some row \<Rightarrow> Inr (load_block_resources db row))"

definition stored_block_for_track_section :: "string \<Rightarrow> layout_tables \<Rightarrow> layout_error + block_definition" where
  "stored_block_for_track_section s db = block_for_resource (lt_block_sections db) s db"

definition stored_block_for_turnout :: "string \<Rightarrow> layout_tables \<Rightarrow> layout_error + block_definition" where
  "stored_block_for_turnout t db = block_for_resource (lt_block_turnouts db) t db"

definition resources_for_block :: "string \<Rightarrow> layout_tables \<Rightarrow> layout_error + block_definition" where
  "resources_for_block i db =
     (case find (\<lambda>b. fst b = i) (lt_blocks db) of
        None \<Rightarrow> Inl BlockNotFound | Some row \<Rightarrow> Inr (load_block_resources db row))"

definition delete_memberships :: "string \<Rightarrow> layout_tables \<Rightarrow> layout_tables" where
  "delete_memberships i db =
     db\<lparr> lt_block_sections := filter (\<lambda>m. fst m \<noteq> i) (lt_block_sections db),
         lt_block_turnouts := filter (\<lambda>m. fst m \<noteq> i) (lt_block_turnouts db) \<rparr>"

definition insert_block_section :: "string \<Rightarrow> string \<Rightarrow> layout_tables \<Rightarrow> layout_error + layout_tables" where
  "insert_block_section i s db =
     when_ok (i \<in> block_keys db \<and> s \<in> section_keys db \<and> s \<notin> snd ` set (lt_block_sections db))
       (StoredBlockSection i s) (db\<lparr> lt_block_sections := lt_block_sections db @ [(i, s)] \<rparr>)"

definition insert_block_turnout :: "string \<Rightarrow> string \<Rightarrow> layout_tables \<Rightarrow> layout_error + layout_tables" where
  "insert_block_turnout i t db =
     when_ok (i \<in> block_keys db \<and> t \<in> set (lt_topologies db) \<and> t \<notin> snd ` set (lt_block_turnouts db))
       (StoredBlockTurnout i t) (db\<lparr> lt_block_turnouts := lt_block_turnouts db @ [(i, t)] \<rparr>)"

definition insert_memberships :: "block_definition \<Rightarrow> layout_tables \<Rightarrow> layout_error + layout_tables" where
  "insert_memberships b db =
     rbind (each (insert_block_section (bd_id b)) (bd_track_section_ids b) db)
       (each (insert_block_turnout (bd_id b)) (bd_turnout_ids b))"

definition replace_block_memberships :: "block_definition list \<Rightarrow> layout_tables \<Rightarrow> layout_error + layout_tables" where
  "replace_block_memberships blocks db =
     each insert_memberships blocks (fold (\<lambda>b. delete_memberships (bd_id b)) blocks db)"

text \<open>
  A resource that the incoming layout describes may not stay in a block that the layout leaves
  out. The membership queries return at most one row.
\<close>

definition block_owner_for_resource :: "(string \<times> string) list \<Rightarrow> string \<Rightarrow> string option" where
  "block_owner_for_resource members r = map_option fst (find (\<lambda>m. snd m = r) members)"

definition reject_omitted_block_resource_changes ::
  "layout_definition \<Rightarrow> bool \<Rightarrow> layout_tables \<Rightarrow> layout_error option" where
  "reject_omitted_block_resource_changes l replace db =
     (let included = bd_id ` set (ld_blocks l);
          omitted = (\<lambda>members r. case block_owner_for_resource members r of
                                    None \<Rightarrow> None | Some o' \<Rightarrow> if o' \<in> included then None else Some o')
      in if replace then None
         else or_else
           (case find (\<lambda>s. omitted (lt_block_sections db) (ts_id s) \<noteq> None) (ld_track_sections l) of
              None \<Rightarrow> None
            | Some s \<Rightarrow> map_option (SectionOfOmittedBlock (ts_id s)) (omitted (lt_block_sections db) (ts_id s)))
           (case find (\<lambda>t. omitted (lt_block_turnouts db) (tt_turnout_id t) \<noteq> None) (ld_turnout_topologies l) of
              None \<Rightarrow> None
            | Some t \<Rightarrow> map_option (TurnoutOfOmittedBlock (tt_turnout_id t))
                          (omitted (lt_block_turnouts db) (tt_turnout_id t))))"

subsection \<open>Replacing the topology\<close>

definition list_turnouts :: "layout_tables \<Rightarrow> service_error + turnout list" where
  "list_turnouts db = load_all (sort_key (\<lambda>t. (t_name t, t_id t)) (lt_turnouts db))"

text \<open>\<open>None\<close> is a panic or a search that does not return; there is none.\<close>

definition replace_topology_definition ::
  "layout_definition \<Rightarrow> layout_tables \<Rightarrow> (layout_error + layout_tables) option" where
  "replace_topology_definition l db =
     (case list_turnouts db of
        Inl e \<Rightarrow> Some (Inl (TurnoutsUnreadable e))
      | Inr turnouts \<Rightarrow>
          (case list_block_definitions db of
             None \<Rightarrow> None
           | Some blocks \<Rightarrow>
               (case build (l\<lparr> ld_turnouts := turnouts, ld_blocks := blocks \<rparr>) of
                  None \<Rightarrow> None
                | Some (Inl e) \<Rightarrow> Some (Inl (LayoutRejected e))
                | Some (Inr _) \<Rightarrow>
                    Some (rbind (clear_topology_definition db) (\<lambda>db1.
                      rbind (upsert_topology_definition l db1) (replace_block_memberships blocks))))))"

subsection \<open>The drawing\<close>

definition read_layout_presentation :: "layout_tables \<Rightarrow> layout_presentation" where
  "read_layout_presentation db =
     empty_layout_presentation\<lparr>
       lp_coordinate_system := (case lt_drawing db of None \<Rightarrow> layout_coordinate_system | Some (cs, _) \<Rightarrow> cs),
       lp_grid_spacing := (case lt_drawing db of None \<Rightarrow> default_grid_spacing | Some (_, g) \<Rightarrow> g),
       lp_nodes := sort_key np_node_id (lt_node_positions db),
       lp_track_sections := sort_key pa_track_section_id (lt_track_paths db),
       lp_turnouts := sort_key up_turnout_id (lt_turnout_positions db),
       lp_blocks := sort_key bs_block_id (lt_block_styles db) \<rparr>"

text \<open>The rows that the queries of \<^verbatim>\<open>layoutPresentationResources\<close> read; the columns it leaves out are not used.\<close>

definition layout_presentation_resources :: "layout_tables \<Rightarrow> layout_definition" where
  "layout_presentation_resources db =
     \<lparr> ld_blocks = map bare_block (lt_blocks db), ld_turnouts = lt_turnouts db, ld_routes = [],
       ld_topology_nodes = lt_nodes db, ld_track_sections = lt_sections db, ld_turnout_topologies = [] \<rparr>"

definition clear_drawing :: "layout_tables \<Rightarrow> layout_tables" where
  "clear_drawing db =
     db\<lparr> lt_track_paths := [], lt_node_positions := [], lt_turnout_positions := [], lt_block_styles := [] \<rparr>"

definition upsert_drawing :: "string \<Rightarrow> float64 \<Rightarrow> layout_tables \<Rightarrow> layout_error + layout_tables" where
  "upsert_drawing cs g db =
     when_ok (float_less (Finite 0) g) StoredDrawing (db\<lparr> lt_drawing := Some (cs, g) \<rparr>)"

text \<open>A not-a-number is stored as \<^verbatim>\<open>NULL\<close>, which the columns refuse.\<close>

definition insert_node_position :: "layout_node_position \<Rightarrow> layout_tables \<Rightarrow> layout_error + layout_tables" where
  "insert_node_position n db =
     when_ok (np_x n \<noteq> NotANumber \<and> np_y n \<noteq> NotANumber \<and> np_node_id n \<in> node_keys db \<and>
              np_node_id n \<notin> np_node_id ` set (lt_node_positions db)) (StoredNodePosition (np_node_id n))
       (db\<lparr> lt_node_positions := lt_node_positions db @ [n] \<rparr>)"

text \<open>\<^verbatim>\<open>json.Marshal\<close> refuses a number that is not finite.\<close>

definition segment_points :: "layout_track_segment \<Rightarrow> layout_point list" where
  "segment_points s = concat (map (\<lambda>o'. case o' of None \<Rightarrow> [] | Some p \<Rightarrow> [p]) [sg_control1 s, sg_control2 s, sg_to s])"

definition insert_track_path :: "layout_track_path \<Rightarrow> layout_tables \<Rightarrow> layout_error + layout_tables" where
  "insert_track_path p db =
     when_ok ((\<forall>s\<in>set (pa_segments p). \<forall>q\<in>set (segment_points s). finite_point q) \<and>
              pa_track_section_id p \<in> section_keys db \<and>
              pa_track_section_id p \<notin> pa_track_section_id ` set (lt_track_paths db)) (StoredPath (pa_track_section_id p))
       (db\<lparr> lt_track_paths := lt_track_paths db @ [p] \<rparr>)"

definition insert_turnout_position :: "layout_turnout_position \<Rightarrow> layout_tables \<Rightarrow> layout_error + layout_tables" where
  "insert_turnout_position t db =
     when_ok (up_x t \<noteq> NotANumber \<and> up_y t \<noteq> NotANumber \<and> up_rotation_degrees t \<noteq> NotANumber \<and>
              up_turnout_id t \<in> turnout_keys db \<and>
              up_turnout_id t \<notin> up_turnout_id ` set (lt_turnout_positions db)) (StoredTurnoutPosition (up_turnout_id t))
       (db\<lparr> lt_turnout_positions := lt_turnout_positions db @ [t] \<rparr>)"

definition insert_block_style :: "layout_block_style \<Rightarrow> layout_tables \<Rightarrow> layout_error + layout_tables" where
  "insert_block_style b db =
     when_ok (float_le (Finite 0) (bs_opacity b) \<and> float_le (bs_opacity b) (Finite 1) \<and>
              bs_block_id b \<in> block_keys db \<and>
              bs_block_id b \<notin> bs_block_id ` set (lt_block_styles db)) (StoredBlockStyle (bs_block_id b))
       (db\<lparr> lt_block_styles := lt_block_styles db @ [b] \<rparr>)"

definition replace_layout_presentation :: "layout_presentation \<Rightarrow> layout_tables \<Rightarrow> layout_error + layout_tables" where
  "replace_layout_presentation p0 db =
     (let p = normalize_layout_presentation p0
      in case validate_layout_presentation p (layout_presentation_resources db) of
           Some e \<Rightarrow> Inl (DrawingRejected e)
         | None \<Rightarrow>
             rbind (upsert_drawing (lp_coordinate_system p) (lp_grid_spacing p) (clear_drawing db)) (\<lambda>db1.
               rbind (each insert_node_position (lp_nodes p) db1) (\<lambda>db2.
                 rbind (each insert_track_path (lp_track_sections p) db2) (\<lambda>db3.
                   rbind (each insert_turnout_position (lp_turnouts p) db3)
                     (each insert_block_style (lp_blocks p))))))"

end
