(* ===== verification/LayoutFacts.thy ===== *)
theory LayoutFacts
  imports LayoutTables PresentationFacts TrackGraphFacts
begin

text \<open>
  Reading and writing the topology tables. Under the keys that the tables enforce, the four
  queries of the topology list are a join (\<open>topology_at\<close>), and storing a topology
  changes the join at that turnout and nowhere else. From these follow what a replacement of
  the topology reads back, and the same for the blocks and the drawing.
\<close>

subsection \<open>Sorting and statements\<close>

lemma insort_key_cong: "\<forall>y\<in>set (x # ys). f y = c \<Longrightarrow> insort_key (\<lambda>y. (f y, g y)) x ys = insort_key g x ys"
  by (induction ys) (auto simp: less_eq_prod_def)

lemma sort_key_prefix: "\<forall>y\<in>set ys. f y = c \<Longrightarrow> sort_key (\<lambda>y. (f y, g y)) ys = sort_key g ys"
proof (induction ys)
  case (Cons y ys)
  then have "insort_key (\<lambda>y. (f y, g y)) y (sort_key g ys) = insort_key g y (sort_key g ys)"
    by (intro insort_key_cong [where c = c]) auto
  then show ?case using Cons by simp
qed simp

lemma when_ok_Inr [simp]: "when_ok b i s = Inr s' \<longleftrightarrow> b \<and> s' = s"
  by (auto simp: when_ok_def)

lemma when_ok_True [simp]: "when_ok True i s = Inr s"
  by (simp add: when_ok_def)

lemma sorted_rows: "sorted (map f xs) \<Longrightarrow> sort_key f xs = xs"
  by (simp add: sorted_sort_id sort_key_id_if_sorted)

subsection \<open>The keys of the topology tables\<close>

definition topo_ok :: "layout_tables \<Rightarrow> bool" where
  "topo_ok db \<longleftrightarrow>
     distinct (lt_topologies db) \<and>
     (\<forall>r\<in>set (lt_ports db). pr_turnout_id r \<in> set (lt_topologies db)) \<and>
     (\<forall>r\<in>set (lt_positions db). po_turnout_id r \<in> set (lt_topologies db)) \<and>
     distinct (map (\<lambda>r. (po_turnout_id r, po_position_id r)) (lt_positions db)) \<and>
     (\<forall>r\<in>set (lt_connections db).
        (cr_turnout_id r, cr_position_id r) \<in> (\<lambda>r. (po_turnout_id r, po_position_id r)) ` set (lt_positions db))"

abbreviation row_port :: "port_row \<Rightarrow> turnout_port" where
  "row_port r \<equiv> \<lparr> pt_id = pr_port_id r, pt_node_id = pr_node_id r \<rparr>"

abbreviation row_connection :: "connection_row \<Rightarrow> port_connection" where
  "row_connection r \<equiv> \<lparr> pc_port_a = cr_port_a r, pc_port_b = cr_port_b r \<rparr>"

definition ports_at :: "layout_tables \<Rightarrow> string \<Rightarrow> turnout_port list" where
  "ports_at db i = map row_port (sort_key pr_ordinal (filter (\<lambda>r. pr_turnout_id r = i) (lt_ports db)))"

definition connections_at :: "layout_tables \<Rightarrow> string \<Rightarrow> string \<Rightarrow> port_connection list" where
  "connections_at db i p =
     map row_connection (sort_key cr_ordinal (filter (\<lambda>r. cr_turnout_id r = i \<and> cr_position_id r = p) (lt_connections db)))"

definition positions_at :: "layout_tables \<Rightarrow> string \<Rightarrow> turnout_topology_position list" where
  "positions_at db i =
     map (\<lambda>r. \<lparr> tp_position_id = po_position_id r, tp_connections = connections_at db i (po_position_id r) \<rparr>)
       (sort_key po_ordinal (filter (\<lambda>r. po_turnout_id r = i) (lt_positions db)))"

text \<open>The topology that the rows of a turnout describe.\<close>

definition topology_at :: "layout_tables \<Rightarrow> string \<Rightarrow> turnout_topology" where
  "topology_at db i = \<lparr> tt_turnout_id = i, tt_ports = ports_at db i, tt_positions = positions_at db i \<rparr>"

subsection \<open>Reading\<close>

lemma each_add_port_row:
  "\<forall>r\<in>set rows. pr_turnout_id r \<in> tt_turnout_id ` set topos \<Longrightarrow>
     each add_port_row rows topos =
       Inr (map (\<lambda>t. t\<lparr> tt_ports := tt_ports t @ map row_port (filter (\<lambda>r. pr_turnout_id r = tt_turnout_id t) rows) \<rparr>) topos)"
proof (induction rows arbitrary: topos)
  case (Cons r rows)
  let ?topos = "map (\<lambda>t. if tt_turnout_id t = pr_turnout_id r then t\<lparr> tt_ports := tt_ports t @ [row_port r] \<rparr> else t) topos"
  have ids: "tt_turnout_id ` set ?topos = tt_turnout_id ` set topos"
    unfolding set_map image_image by (rule image_cong) auto
  have "each add_port_row (r # rows) topos = each add_port_row rows ?topos"
    using Cons.prems by (simp add: add_port_row_def)
  then show ?case using Cons.IH [of ?topos] Cons.prems unfolding ids by auto
qed simp

lemma each_add_position_row:
  "\<forall>r\<in>set rows. po_turnout_id r \<in> tt_turnout_id ` set topos \<Longrightarrow>
     each add_position_row rows topos =
       Inr (map (\<lambda>t. t\<lparr> tt_positions := tt_positions t @
         map (\<lambda>r. \<lparr> tp_position_id = po_position_id r, tp_connections = [] \<rparr>)
           (filter (\<lambda>r. po_turnout_id r = tt_turnout_id t) rows) \<rparr>) topos)"
proof (induction rows arbitrary: topos)
  case (Cons r rows)
  let ?topos = "map (\<lambda>t. if tt_turnout_id t = po_turnout_id r
     then t\<lparr> tt_positions := tt_positions t @ [\<lparr> tp_position_id = po_position_id r, tp_connections = [] \<rparr>] \<rparr> else t) topos"
  have ids: "tt_turnout_id ` set ?topos = tt_turnout_id ` set topos"
    unfolding set_map image_image by (rule image_cong) auto
  have "each add_position_row (r # rows) topos = each add_position_row rows ?topos"
    using Cons.prems by (simp add: add_position_row_def)
  then show ?case using Cons.IH [of ?topos] Cons.prems unfolding ids by auto
qed simp

definition position_keys :: "turnout_topology list \<Rightarrow> (string \<times> string) set" where
  "position_keys topos = {(tt_turnout_id t, tp_position_id p) | t p. t \<in> set topos \<and> p \<in> set (tt_positions t)}"

definition with_connection :: "connection_row \<Rightarrow> turnout_topology \<Rightarrow> turnout_topology" where
  "with_connection r t =
     (if tt_turnout_id t = cr_turnout_id r
      then t\<lparr> tt_positions := map (\<lambda>p. if tp_position_id p = cr_position_id r
                then p\<lparr> tp_connections := tp_connections p @ [row_connection r] \<rparr> else p) (tt_positions t) \<rparr>
      else t)"

lemma add_connection_row_Inr:
  "(cr_turnout_id r, cr_position_id r) \<in> position_keys topos \<Longrightarrow>
     add_connection_row r topos = Inr (map (with_connection r) topos)"
  by (force simp: add_connection_row_def position_keys_def with_connection_def)

lemma position_keys_with_connection: "position_keys (map (with_connection r) topos) = position_keys topos"
proof -
  have ids: "map tp_position_id (tt_positions (with_connection r t)) = map tp_position_id (tt_positions t)" for t
    by (simp add: with_connection_def)
  have same: "tp_position_id ` set (tt_positions (with_connection r t)) = tp_position_id ` set (tt_positions t)" for t
    using arg_cong [OF ids, of set] by simp
  have same_id: "tt_turnout_id (with_connection r t) = tt_turnout_id t" for t by (simp add: with_connection_def)
  have keys: "position_keys ts = (\<Union>t\<in>set ts. {tt_turnout_id t} \<times> tp_position_id ` set (tt_positions t))" for ts
    by (auto simp: position_keys_def)
  show ?thesis unfolding keys by (simp add: same same_id)
qed

lemma each_add_connection_row:
  "\<forall>r\<in>set rows. (cr_turnout_id r, cr_position_id r) \<in> position_keys topos \<Longrightarrow>
     each add_connection_row rows topos =
       Inr (map (\<lambda>t. t\<lparr> tt_positions := map (\<lambda>p. p\<lparr> tp_connections := tp_connections p @
         map row_connection (filter (\<lambda>r. cr_turnout_id r = tt_turnout_id t \<and> cr_position_id r = tp_position_id p) rows) \<rparr>)
           (tt_positions t) \<rparr>) topos)"
proof (induction rows arbitrary: topos)
  case (Cons r rows)
  have "each add_connection_row (r # rows) topos = each add_connection_row rows (map (with_connection r) topos)"
    using Cons.prems by (simp add: add_connection_row_Inr)
  moreover have "\<forall>x\<in>set rows. (cr_turnout_id x, cr_position_id x) \<in> position_keys (map (with_connection r) topos)"
    using Cons.prems by (simp add: position_keys_with_connection)
  ultimately show ?case using Cons.IH [of "map (with_connection r) topos"]
    by (auto simp: with_connection_def)
qed simp

lemma filter_port_rows:
  "filter (\<lambda>r. pr_turnout_id r = i) (sort_key (\<lambda>r. (pr_turnout_id r, pr_ordinal r)) rs) =
     sort_key pr_ordinal (filter (\<lambda>r. pr_turnout_id r = i) rs)"
  unfolding filter_sort by (rule sort_key_prefix [where c = i]) simp

lemma filter_position_rows:
  "filter (\<lambda>r. po_turnout_id r = i) (sort_key (\<lambda>r. (po_turnout_id r, po_ordinal r)) rs) =
     sort_key po_ordinal (filter (\<lambda>r. po_turnout_id r = i) rs)"
  unfolding filter_sort by (rule sort_key_prefix [where c = i]) simp

lemma filter_connection_rows:
  "filter (\<lambda>r. cr_turnout_id r = i \<and> cr_position_id r = p)
       (sort_key (\<lambda>r. (cr_turnout_id r, cr_position_id r, cr_ordinal r)) rs) =
     sort_key cr_ordinal (filter (\<lambda>r. cr_turnout_id r = i \<and> cr_position_id r = p) rs)"
  unfolding filter_sort
  by (subst sort_key_prefix [where c = i], simp, rule sort_key_prefix [where c = p]) simp

lemma list_turnout_topologies_join:
  assumes "topo_ok db"
  shows "list_turnout_topologies db = Inr (map (topology_at db) (sort (lt_topologies db)))"
proof -
  let ?ids = "sort (lt_topologies db)"
  let ?bare = "map (\<lambda>i. \<lparr> tt_turnout_id = i, tt_ports = [], tt_positions = [] \<rparr>) ?ids"
  let ?ported = "map (\<lambda>i. \<lparr> tt_turnout_id = i, tt_ports = ports_at db i, tt_positions = [] \<rparr>) ?ids"
  let ?bare_positions = "\<lambda>i. map (\<lambda>r. \<lparr> tp_position_id = po_position_id r, tp_connections = [] \<rparr>)
    (sort_key po_ordinal (filter (\<lambda>r. po_turnout_id r = i) (lt_positions db)))"
  let ?placed = "map (\<lambda>i. \<lparr> tt_turnout_id = i, tt_ports = ports_at db i, tt_positions = ?bare_positions i \<rparr>) ?ids"
  have ids: "tt_turnout_id ` set ?bare = set (lt_topologies db)" "tt_turnout_id ` set ?ported = set (lt_topologies db)"
    by (simp_all add: image_image)
  have ports: "each add_port_row (sort_key (\<lambda>r. (pr_turnout_id r, pr_ordinal r)) (lt_ports db)) ?bare = Inr ?ported"
    by (subst each_add_port_row) (use assms ids in \<open>auto simp: topo_ok_def filter_port_rows ports_at_def\<close>)
  have positions: "each add_position_row (sort_key (\<lambda>r. (po_turnout_id r, po_ordinal r)) (lt_positions db)) ?ported = Inr ?placed"
    by (subst each_add_position_row) (use assms ids in \<open>auto simp: topo_ok_def filter_position_rows\<close>)
  have "(cr_turnout_id r, cr_position_id r) \<in> position_keys ?placed" if r: "r \<in> set (lt_connections db)" for r
  proof -
    obtain q where q: "q \<in> set (lt_positions db)" "po_turnout_id q = cr_turnout_id r" "po_position_id q = cr_position_id r"
      using assms r by (auto simp: topo_ok_def)
    then have "cr_turnout_id r \<in> set (lt_topologies db)" using assms by (auto simp: topo_ok_def)
    then show ?thesis using q by (force simp: position_keys_def)
  qed
  then have "each add_connection_row (sort_key (\<lambda>r. (cr_turnout_id r, cr_position_id r, cr_ordinal r)) (lt_connections db)) ?placed =
      Inr (map (topology_at db) ?ids)"
    by (subst each_add_connection_row)
       (auto simp: topology_at_def positions_at_def connections_at_def filter_connection_rows)
  then show ?thesis unfolding list_turnout_topologies_def by (simp add: ports positions)
qed

subsection \<open>Storing one topology\<close>

definition port_rows :: "string \<Rightarrow> (nat \<times> turnout_port) list \<Rightarrow> port_row list" where
  "port_rows i = map (\<lambda>(k, p). \<lparr> pr_turnout_id = i, pr_port_id = pt_id p, pr_node_id = pt_node_id p, pr_ordinal = k \<rparr>)"

definition position_rows :: "string \<Rightarrow> (nat \<times> turnout_topology_position) list \<Rightarrow> position_row list" where
  "position_rows i = map (\<lambda>(k, p). \<lparr> po_turnout_id = i, po_position_id = tp_position_id p, po_ordinal = k \<rparr>)"

definition connection_rows :: "string \<Rightarrow> string \<Rightarrow> (nat \<times> port_connection) list \<Rightarrow> connection_row list" where
  "connection_rows i p = map (\<lambda>(k, c). \<lparr> cr_turnout_id = i, cr_position_id = p, cr_port_a = pc_port_a c,
     cr_port_b = pc_port_b c, cr_ordinal = k \<rparr>)"

definition all_connection_rows :: "string \<Rightarrow> (nat \<times> turnout_topology_position) list \<Rightarrow> connection_row list" where
  "all_connection_rows i ps =
     concat (map (\<lambda>(k, p). connection_rows i (tp_position_id p) (enumerate 0 (tp_connections p))) ps)"

lemma connection_rows_keys: "r \<in> set (connection_rows i p cs) \<Longrightarrow> cr_turnout_id r = i \<and> cr_position_id r = p"
  by (auto simp: connection_rows_def)

lemma position_rows_keys: "r \<in> set (position_rows i ps) \<Longrightarrow> po_turnout_id r = i \<and> po_position_id r \<in> (tp_position_id \<circ> snd) ` set ps"
  by (force simp: position_rows_def)

lemma port_rows_keys: "r \<in> set (port_rows i ps) \<Longrightarrow> pr_turnout_id r = i"
  by (auto simp: port_rows_def)

lemma each_insert_port:
  "i \<in> set (lt_topologies db) \<Longrightarrow> \<forall>(k, p)\<in>set ps. pt_node_id p \<in> node_keys db \<Longrightarrow>
   distinct (map (pt_id \<circ> snd) ps) \<Longrightarrow> distinct (map fst ps) \<Longrightarrow>
   \<forall>r\<in>set (lt_ports db). pr_turnout_id r = i \<longrightarrow> pr_port_id r \<notin> (pt_id \<circ> snd) ` set ps \<and> pr_ordinal r \<notin> fst ` set ps \<Longrightarrow>
     each (insert_port i) ps db = Inr (db\<lparr> lt_ports := lt_ports db @ port_rows i ps \<rparr>)"
proof (induction ps arbitrary: db)
  case Nil
  then show ?case by (simp add: port_rows_def)
next
  case (Cons kp ps)
  obtain k p where kp: "kp = (k, p)" by (cases kp)
  let ?db = "db\<lparr> lt_ports := lt_ports db @ port_rows i [(k, p)] \<rparr>"
  have "insert_port i kp db = Inr ?db" using Cons.prems by (auto simp: kp insert_port_def port_rows_def when_ok_def)
  moreover have "each (insert_port i) ps ?db = Inr (?db\<lparr> lt_ports := lt_ports ?db @ port_rows i ps \<rparr>)"
    by (rule Cons.IH) (use Cons.prems in \<open>auto simp: kp port_rows_def\<close>)
  ultimately show ?case by (simp add: kp port_rows_def)
qed

lemma each_insert_connection:
  "\<exists>r\<in>set (lt_positions db). po_turnout_id r = i \<and> po_position_id r = p \<Longrightarrow>
   \<forall>(k, c)\<in>set cs. pc_port_a c \<noteq> pc_port_b c \<and>
     (\<exists>r\<in>set (lt_ports db). pr_turnout_id r = i \<and> pr_port_id r = pc_port_a c) \<and>
     (\<exists>r\<in>set (lt_ports db). pr_turnout_id r = i \<and> pr_port_id r = pc_port_b c) \<Longrightarrow>
   distinct (map (\<lambda>(k, c). (pc_port_a c, pc_port_b c)) cs) \<Longrightarrow> distinct (map fst cs) \<Longrightarrow>
   \<forall>r\<in>set (lt_connections db). cr_turnout_id r = i \<and> cr_position_id r = p \<longrightarrow>
     (cr_port_a r, cr_port_b r) \<notin> (\<lambda>(k, c). (pc_port_a c, pc_port_b c)) ` set cs \<and> cr_ordinal r \<notin> fst ` set cs \<Longrightarrow>
     each (insert_connection i p) cs db = Inr (db\<lparr> lt_connections := lt_connections db @ connection_rows i p cs \<rparr>)"
proof (induction cs arbitrary: db)
  case Nil
  then show ?case by (simp add: connection_rows_def)
next
  case (Cons kc cs)
  obtain k c where kc: "kc = (k, c)" by (cases kc)
  let ?db = "db\<lparr> lt_connections := lt_connections db @ connection_rows i p [(k, c)] \<rparr>"
  have "insert_connection i p kc db = Inr ?db"
    using Cons.prems unfolding kc insert_connection_def Let_def when_ok_def connection_rows_def by auto
  moreover have "each (insert_connection i p) cs ?db = Inr (?db\<lparr> lt_connections := lt_connections ?db @ connection_rows i p cs \<rparr>)"
    by (rule Cons.IH) (use Cons.prems in \<open>auto simp: kc connection_rows_def\<close>)
  ultimately show ?case by (simp add: kc connection_rows_def)
qed

definition stored_ports :: "layout_tables \<Rightarrow> string \<Rightarrow> string set" where
  "stored_ports db i = pr_port_id ` set (filter (\<lambda>r. pr_turnout_id r = i) (lt_ports db))"

lemma stored_ports_iff: "a \<in> stored_ports db i \<longleftrightarrow> (\<exists>r\<in>set (lt_ports db). pr_turnout_id r = i \<and> pr_port_id r = a)"
  by (auto simp: stored_ports_def)

text \<open>What the statements need of a topology.\<close>

definition connections_fit :: "string set \<Rightarrow> port_connection list \<Rightarrow> bool" where
  "connections_fit ports cs \<longleftrightarrow> distinct (map (\<lambda>c. (pc_port_a c, pc_port_b c)) cs) \<and>
     (\<forall>c\<in>set cs. pc_port_a c \<noteq> pc_port_b c \<and> pc_port_a c \<in> ports \<and> pc_port_b c \<in> ports)"

lemma map_snd_enumerate: "map (f \<circ> snd) (enumerate n xs) = map f xs"
  by (simp flip: map_map)

lemma map_enumerate_snd: "map (\<lambda>(k, x). f x) (enumerate n xs) = map f xs"
proof -
  have "(\<lambda>(k :: nat, x). f x) = f \<circ> snd" by (auto simp: fun_eq_iff)
  then show ?thesis by (simp only: map_snd_enumerate)
qed

lemma enumerate_in: "(k, x) \<in> set (enumerate n xs) \<Longrightarrow> x \<in> set xs"
  by (auto simp: in_set_enumerate_eq)

lemma distinct_fst_enumerate [simp]: "distinct (map fst (enumerate n xs))"
  by simp

lemma each_insert_position:
  "i \<in> set (lt_topologies db) \<Longrightarrow>
   \<forall>(k, p)\<in>set ps. connections_fit (stored_ports db i) (tp_connections p) \<Longrightarrow>
   distinct (map (tp_position_id \<circ> snd) ps) \<Longrightarrow> distinct (map fst ps) \<Longrightarrow>
   \<forall>r\<in>set (lt_positions db). po_turnout_id r = i \<longrightarrow>
     po_position_id r \<notin> (tp_position_id \<circ> snd) ` set ps \<and> po_ordinal r \<notin> fst ` set ps \<Longrightarrow>
   \<forall>r\<in>set (lt_connections db). cr_turnout_id r = i \<longrightarrow> cr_position_id r \<notin> (tp_position_id \<circ> snd) ` set ps \<Longrightarrow>
     each (insert_position i) ps db =
       Inr (db\<lparr> lt_positions := lt_positions db @ position_rows i ps,
                lt_connections := lt_connections db @ all_connection_rows i ps \<rparr>)"
proof (induction ps arbitrary: db)
  case Nil
  then show ?case by (simp add: position_rows_def all_connection_rows_def)
next
  case (Cons kp ps)
  obtain k p where kp: "kp = (k, p)" by (cases kp)
  let ?cs = "enumerate 0 (tp_connections p)"
  let ?db1 = "db\<lparr> lt_positions := lt_positions db @ position_rows i [(k, p)] \<rparr>"
  let ?db2 = "?db1\<lparr> lt_connections := lt_connections db @ connection_rows i (tp_position_id p) ?cs \<rparr>"
  have row: "insert_position_row i (tp_position_id p) k db = Inr ?db1"
    using Cons.prems by (auto simp: kp insert_position_row_def position_rows_def when_ok_def)
  have fit: "connections_fit (stored_ports db i) (tp_connections p)"
    using Cons.prems(2) by (simp add: kp)
  have "each (insert_connection i (tp_position_id p)) ?cs ?db1 = Inr (?db1\<lparr> lt_connections := lt_connections ?db1 @
      connection_rows i (tp_position_id p) ?cs \<rparr>)"
  proof (rule each_insert_connection)
    show "\<forall>(k, c)\<in>set ?cs. pc_port_a c \<noteq> pc_port_b c \<and>
      (\<exists>r\<in>set (lt_ports ?db1). pr_turnout_id r = i \<and> pr_port_id r = pc_port_a c) \<and>
      (\<exists>r\<in>set (lt_ports ?db1). pr_turnout_id r = i \<and> pr_port_id r = pc_port_b c)"
      using fit by (auto simp: connections_fit_def stored_ports_iff dest!: enumerate_in)
    show "distinct (map (\<lambda>(k, c). (pc_port_a c, pc_port_b c)) ?cs)"
      using fit by (simp add: map_enumerate_snd connections_fit_def)
    show "\<forall>r\<in>set (lt_connections ?db1). cr_turnout_id r = i \<and> cr_position_id r = tp_position_id p \<longrightarrow>
      (cr_port_a r, cr_port_b r) \<notin> (\<lambda>(k, c). (pc_port_a c, pc_port_b c)) ` set ?cs \<and> cr_ordinal r \<notin> fst ` set ?cs"
      using Cons.prems(6) by (auto simp: kp)
  qed (auto simp: position_rows_def)
  then have one: "insert_position i kp db = Inr ?db2" by (simp add: kp insert_position_def row)
  have "each (insert_position i) ps ?db2 = Inr (?db2\<lparr> lt_positions := lt_positions ?db2 @ position_rows i ps,
      lt_connections := lt_connections ?db2 @ all_connection_rows i ps \<rparr>)"
  proof (rule Cons.IH)
    have "stored_ports ?db2 i = stored_ports db i" by (simp add: stored_ports_def)
    then show "\<forall>(k, p)\<in>set ps. connections_fit (stored_ports ?db2 i) (tp_connections p)"
      using Cons.prems(2) by auto
    show "\<forall>r\<in>set (lt_connections ?db2). cr_turnout_id r = i \<longrightarrow> cr_position_id r \<notin> (tp_position_id \<circ> snd) ` set ps"
    proof (intro ballI impI)
      fix r assume r: "r \<in> set (lt_connections ?db2)" "cr_turnout_id r = i"
      then consider "r \<in> set (lt_connections db)" | "cr_position_id r = tp_position_id p"
        by (auto dest!: connection_rows_keys)
      then show "cr_position_id r \<notin> (tp_position_id \<circ> snd) ` set ps"
        by cases (use Cons.prems(3,6) r(2) in \<open>simp_all add: kp\<close>)
    qed
  qed (use Cons.prems in \<open>auto simp: kp position_rows_def\<close>)
  then show ?case by (simp add: kp one [unfolded kp] position_rows_def all_connection_rows_def)
qed

definition topology_fits :: "string set \<Rightarrow> string set \<Rightarrow> turnout_topology \<Rightarrow> bool" where
  "topology_fits turnouts nodes topo \<longleftrightarrow>
     tt_turnout_id topo \<in> turnouts \<and> distinct (map pt_id (tt_ports topo)) \<and>
     (\<forall>p\<in>set (tt_ports topo). pt_node_id p \<in> nodes) \<and>
     distinct (map tp_position_id (tt_positions topo)) \<and>
     (\<forall>p\<in>set (tt_positions topo). connections_fit (pt_id ` set (tt_ports topo)) (tp_connections p))"

definition stored_topology :: "turnout_topology \<Rightarrow> layout_tables \<Rightarrow> layout_tables" where
  "stored_topology topo db =
     (let i = tt_turnout_id topo; db' = delete_topology_rows i db
      in db'\<lparr> lt_topologies := upsert id i (lt_topologies db),
              lt_ports := lt_ports db' @ port_rows i (enumerate 0 (tt_ports topo)),
              lt_positions := lt_positions db' @ position_rows i (enumerate 0 (tt_positions topo)),
              lt_connections := lt_connections db' @ all_connection_rows i (enumerate 0 (tt_positions topo)) \<rparr>)"

lemma set_upsert_id [simp]: "set (upsert id x xs) = insert x (set xs)"
  by (induction xs) auto

lemma store_topology_eq:
  assumes fits: "topology_fits (turnout_keys db) (node_keys db) topo"
  shows "store_topology topo db = Inr (stored_topology topo db)"
proof -
  let ?i = "tt_turnout_id topo"
  let ?db1 = "db\<lparr> lt_topologies := upsert id ?i (lt_topologies db) \<rparr>"
  let ?db2 = "delete_topology_rows ?i ?db1"
  let ?ps = "enumerate 0 (tt_ports topo)"
  let ?db3 = "?db2\<lparr> lt_ports := lt_ports ?db2 @ port_rows ?i ?ps \<rparr>"
  have one: "insert_topology ?i db = Inr ?db1"
    using fits by (simp add: insert_topology_def topology_fits_def when_ok_def)
  have two: "each (insert_port ?i) ?ps ?db2 = Inr ?db3"
    by (rule each_insert_port)
       (use fits in \<open>auto simp: delete_topology_rows_def topology_fits_def map_snd_enumerate dest: enumerate_in\<close>)
  have new: "map pr_port_id (port_rows ?i ?ps) = map pt_id (tt_ports topo)"
    "filter (\<lambda>r. pr_turnout_id r = ?i) (port_rows ?i ?ps) = port_rows ?i ?ps"
    by (auto simp: port_rows_def filter_id_conv map_snd_enumerate [unfolded comp_def] case_prod_beta comp_def)
  have ports: "stored_ports ?db3 ?i = pt_id ` set (tt_ports topo)"
    using arg_cong [OF new(1), of set] by (simp add: stored_ports_def delete_topology_rows_def new(2))
  have "each (insert_position ?i) (enumerate 0 (tt_positions topo)) ?db3 =
      Inr (?db3\<lparr> lt_positions := lt_positions ?db3 @ position_rows ?i (enumerate 0 (tt_positions topo)),
                lt_connections := lt_connections ?db3 @ all_connection_rows ?i (enumerate 0 (tt_positions topo)) \<rparr>)"
    by (rule each_insert_position, unfold ports)
       (use fits in \<open>auto simp: delete_topology_rows_def topology_fits_def map_snd_enumerate dest: enumerate_in\<close>)
  then show ?thesis
    unfolding store_topology_def Let_def one two rbind.simps
    by (simp add: stored_topology_def delete_topology_rows_def Let_def)
qed

subsection \<open>What a stored topology reads as\<close>

lemma all_connection_rows_keys:
  "r \<in> set (all_connection_rows i ps) \<Longrightarrow> cr_turnout_id r = i \<and> cr_position_id r \<in> (tp_position_id \<circ> snd) ` set ps"
  by (force simp: all_connection_rows_def dest!: connection_rows_keys)

lemma filter_rows_other:
  "(\<And>r. r \<in> set new \<Longrightarrow> \<not> P r) \<Longrightarrow> filter P (filter Q old @ new) = filter (\<lambda>r. Q r \<and> P r) old"
  by simp

lemma filter_rows_all:
  "(\<And>r. r \<in> set new \<Longrightarrow> P r) \<Longrightarrow> (\<And>r. Q r \<Longrightarrow> \<not> P r) \<Longrightarrow> filter P (filter Q old @ new) = new"
  by (auto simp: filter_id_conv filter_empty_conv)

lemma sorted_enumerate: "sorted (map fst (enumerate n xs))"
  by simp

lemma port_eta: "\<lparr> pt_id = pt_id p, pt_node_id = pt_node_id p \<rparr> = p"
  by simp

lemma connection_eta: "\<lparr> pc_port_a = pc_port_a c, pc_port_b = pc_port_b c \<rparr> = c"
  by simp

lemma ports_rows_read: "map row_port (sort_key pr_ordinal (port_rows i (enumerate 0 ps))) = ps"
proof -
  have "map pr_ordinal (port_rows i (enumerate 0 ps)) = map fst (enumerate 0 ps)"
    by (simp add: port_rows_def case_prod_beta comp_def)
  then have "sort_key pr_ordinal (port_rows i (enumerate 0 ps)) = port_rows i (enumerate 0 ps)"
    by (simp add: sorted_rows)
  moreover have "map row_port (port_rows i (enumerate 0 ps)) = map snd (enumerate 0 ps)"
    by (simp add: port_rows_def case_prod_beta comp_def port_eta)
  ultimately show ?thesis by simp
qed

lemma connection_rows_read: "map row_connection (sort_key cr_ordinal (connection_rows i p (enumerate 0 cs))) = cs"
proof -
  have "map cr_ordinal (connection_rows i p (enumerate 0 cs)) = map fst (enumerate 0 cs)"
    by (simp add: connection_rows_def case_prod_beta comp_def)
  then have "sort_key cr_ordinal (connection_rows i p (enumerate 0 cs)) = connection_rows i p (enumerate 0 cs)"
    by (simp add: sorted_rows)
  moreover have "map row_connection (connection_rows i p (enumerate 0 cs)) = map snd (enumerate 0 cs)"
    by (simp add: connection_rows_def case_prod_beta comp_def connection_eta)
  ultimately show ?thesis by simp
qed

lemma position_rows_sorted: "sort_key po_ordinal (position_rows i (enumerate 0 ps)) = position_rows i (enumerate 0 ps)"
proof -
  have "map po_ordinal (position_rows i (enumerate 0 ps)) = map fst (enumerate 0 ps)"
    by (simp add: position_rows_def case_prod_beta comp_def)
  then show ?thesis by (simp add: sorted_rows)
qed

lemma filter_all_connection_rows:
  "distinct (map (tp_position_id \<circ> snd) ps) \<Longrightarrow> (k, p) \<in> set ps \<Longrightarrow>
     filter (\<lambda>r. cr_turnout_id r = i \<and> cr_position_id r = tp_position_id p) (all_connection_rows i ps) =
       connection_rows i (tp_position_id p) (enumerate 0 (tp_connections p))"
proof (induction ps)
  case (Cons kp ps)
  obtain k' q where kp: "kp = (k', q)" by (cases kp)
  have rows: "all_connection_rows i (kp # ps) =
      connection_rows i (tp_position_id q) (enumerate 0 (tp_connections q)) @ all_connection_rows i ps"
    by (simp add: all_connection_rows_def kp)
  show ?case
  proof (cases "(k, p) = (k', q)")
    case True
    have "filter (\<lambda>r. cr_turnout_id r = i \<and> cr_position_id r = tp_position_id p) (all_connection_rows i ps) = []"
    proof -
      have "tp_position_id p \<notin> (tp_position_id \<circ> snd) ` set ps" using Cons.prems(1) True by (simp add: kp)
      then show ?thesis using all_connection_rows_keys [of _ i ps] unfolding filter_empty_conv by metis
    qed
    moreover have "filter (\<lambda>r. cr_turnout_id r = i \<and> cr_position_id r = tp_position_id p)
        (connection_rows i (tp_position_id q) (enumerate 0 (tp_connections q))) =
        connection_rows i (tp_position_id q) (enumerate 0 (tp_connections q))"
      using True by (auto simp: filter_id_conv dest: connection_rows_keys)
    ultimately show ?thesis using True by (simp add: rows)
  next
    case False
    then have inps: "(k, p) \<in> set ps" using Cons.prems(2) by (auto simp: kp)
    then have "tp_position_id p \<in> (tp_position_id \<circ> snd) ` set ps" by force
    moreover have "tp_position_id q \<notin> (tp_position_id \<circ> snd) ` set ps" using Cons.prems(1) by (simp add: kp)
    ultimately have "tp_position_id q \<noteq> tp_position_id p" by metis
    then have "filter (\<lambda>r. cr_turnout_id r = i \<and> cr_position_id r = tp_position_id p)
        (connection_rows i (tp_position_id q) (enumerate 0 (tp_connections q))) = []"
      by (auto simp: filter_empty_conv dest: connection_rows_keys)
    then show ?thesis using Cons inps by (simp add: rows)
  qed
qed simp

lemma stored_tables:
  "lt_topologies (stored_topology topo db) = upsert id (tt_turnout_id topo) (lt_topologies db)"
  "lt_ports (stored_topology topo db) = filter (\<lambda>r. pr_turnout_id r \<noteq> tt_turnout_id topo) (lt_ports db) @
     port_rows (tt_turnout_id topo) (enumerate 0 (tt_ports topo))"
  "lt_positions (stored_topology topo db) = filter (\<lambda>r. po_turnout_id r \<noteq> tt_turnout_id topo) (lt_positions db) @
     position_rows (tt_turnout_id topo) (enumerate 0 (tt_positions topo))"
  "lt_connections (stored_topology topo db) = filter (\<lambda>r. cr_turnout_id r \<noteq> tt_turnout_id topo) (lt_connections db) @
     all_connection_rows (tt_turnout_id topo) (enumerate 0 (tt_positions topo))"
  by (simp_all add: stored_topology_def delete_topology_rows_def Let_def)

lemma topology_at_other:
  assumes "i \<noteq> tt_turnout_id topo"
  shows "topology_at (stored_topology topo db) i = topology_at db i"
proof -
  have and_absorb: "(\<lambda>r. f r \<noteq> tt_turnout_id topo \<and> f r = i) = (\<lambda>r. f r = i)" for f :: "'a \<Rightarrow> string"
    using assms by auto
  have "filter (\<lambda>r. pr_turnout_id r = i) (lt_ports (stored_topology topo db)) = filter (\<lambda>r. pr_turnout_id r = i) (lt_ports db)"
    unfolding stored_tables by (subst filter_rows_other) (use assms in \<open>auto simp: and_absorb dest: port_rows_keys\<close>)
  moreover have "filter (\<lambda>r. po_turnout_id r = i) (lt_positions (stored_topology topo db)) = filter (\<lambda>r. po_turnout_id r = i) (lt_positions db)"
    unfolding stored_tables by (subst filter_rows_other) (use assms in \<open>auto simp: and_absorb dest: position_rows_keys\<close>)
  moreover have "filter (\<lambda>r. cr_turnout_id r = i \<and> cr_position_id r = p) (lt_connections (stored_topology topo db)) =
      filter (\<lambda>r. cr_turnout_id r = i \<and> cr_position_id r = p) (lt_connections db)" for p
    unfolding stored_tables
    by (subst filter_rows_other) (use assms in \<open>auto intro!: filter_cong dest: all_connection_rows_keys\<close>)
  ultimately show ?thesis
    by (simp add: topology_at_def ports_at_def positions_at_def connections_at_def)
qed

lemma topology_at_stored:
  assumes "distinct (map tp_position_id (tt_positions topo))"
  shows "topology_at (stored_topology topo db) (tt_turnout_id topo) = topo"
proof -
  let ?i = "tt_turnout_id topo" and ?ps = "enumerate 0 (tt_positions topo)"
  have ports: "filter (\<lambda>r. pr_turnout_id r = ?i) (lt_ports (stored_topology topo db)) = port_rows ?i (enumerate 0 (tt_ports topo))"
    unfolding stored_tables by (rule filter_rows_all) (auto dest: port_rows_keys)
  have positions: "filter (\<lambda>r. po_turnout_id r = ?i) (lt_positions (stored_topology topo db)) = position_rows ?i ?ps"
    unfolding stored_tables by (rule filter_rows_all) (auto dest: position_rows_keys)
  have connections: "connections_at (stored_topology topo db) ?i (tp_position_id p) = tp_connections p"
    if "(k, p) \<in> set ?ps" for k p
  proof -
    have "filter (\<lambda>r. cr_turnout_id r = ?i \<and> cr_position_id r = tp_position_id p) (lt_connections (stored_topology topo db)) =
        filter (\<lambda>r. cr_turnout_id r = ?i \<and> cr_position_id r = tp_position_id p) (all_connection_rows ?i ?ps)"
      by (simp add: stored_tables filter_empty_conv)
    also have "\<dots> = connection_rows ?i (tp_position_id p) (enumerate 0 (tp_connections p))"
      by (rule filter_all_connection_rows) (use assms that in \<open>simp_all add: map_snd_enumerate\<close>)
    finally show ?thesis by (simp add: connections_at_def connection_rows_read)
  qed
  have "positions_at (stored_topology topo db) ?i = map (\<lambda>(k, p). \<lparr> tp_position_id = tp_position_id p,
      tp_connections = connections_at (stored_topology topo db) ?i (tp_position_id p) \<rparr>) ?ps"
    by (simp add: positions_at_def positions position_rows_sorted) (simp add: position_rows_def case_prod_beta comp_def)
  also have "\<dots> = map snd ?ps"
    by (rule map_cong) (auto simp: connections)
  finally have "positions_at (stored_topology topo db) ?i = tt_positions topo" by simp
  moreover have "ports_at (stored_topology topo db) ?i = tt_ports topo"
    by (simp add: ports_at_def ports ports_rows_read)
  ultimately show ?thesis by (simp add: topology_at_def)
qed

lemma stored_topo_ok:
  assumes ok: "topo_ok db" and fits: "topology_fits turnouts nodes topo"
  shows "topo_ok (stored_topology topo db)"
proof -
  let ?i = "tt_turnout_id topo" and ?ps = "enumerate 0 (tt_positions topo)"
  let ?key = "\<lambda>r. (po_turnout_id r, po_position_id r)"
  have keys: "map ?key (position_rows ?i ?ps) = map (\<lambda>p. (?i, p)) (map tp_position_id (tt_positions topo))"
    unfolding map_snd_enumerate [symmetric, of tp_position_id "tt_positions topo" 0]
    by (simp add: position_rows_def case_prod_beta comp_def)
  have "distinct (map ?key (position_rows ?i ?ps))"
    unfolding keys distinct_map using fits by (auto simp: topology_fits_def inj_on_def distinct_map)
  moreover have "distinct (map ?key (filter (\<lambda>r. po_turnout_id r \<noteq> ?i) (lt_positions db)))"
    using ok by (auto simp: topo_ok_def distinct_map inj_on_def)
  ultimately have "distinct (map ?key (lt_positions (stored_topology topo db)))"
    unfolding stored_tables by (auto dest!: position_rows_keys)
  moreover have "?key ` set (position_rows ?i ?ps) = (\<lambda>p. (?i, p)) ` tp_position_id ` set (tt_positions topo)"
    using arg_cong [OF keys, of set] by (simp add: image_image)
  moreover have "distinct (lt_topologies (stored_topology topo db))"
    using ok distinct_upsert [of id "lt_topologies db" ?i] by (simp add: stored_tables topo_ok_def)
  ultimately show ?thesis
    using ok unfolding topo_ok_def stored_tables
    by (auto dest!: port_rows_keys position_rows_keys all_connection_rows_keys simp: image_Un in_set_enumerate_eq)
qed

subsection \<open>Storing a whole topology\<close>

lemma each_fold:
  "(\<And>x s. x \<in> set xs \<Longrightarrow> ok s \<Longrightarrow> f x s = Inr (g x s) \<and> ok (g x s)) \<Longrightarrow> ok s \<Longrightarrow>
     each f xs s = Inr (fold g xs s) \<and> ok (fold g xs s)"
  by (induction xs arbitrary: s) auto

definition layout_fits :: "layout_definition \<Rightarrow> string set \<Rightarrow> bool" where
  "layout_fits l turnouts \<longleftrightarrow>
     (\<forall>n\<in>set (ld_topology_nodes l). node_kind_valid (tn_kind n)) \<and>
     (\<forall>s\<in>set (ld_track_sections l). 0 \<le> ts_length_mm s \<and> ts_node_a s \<noteq> ts_node_b s \<and>
        ts_node_a s \<in> node_ids l \<and> ts_node_b s \<in> node_ids l) \<and>
     (\<forall>t\<in>set (ld_turnout_topologies l). topology_fits turnouts (node_ids l) t)"

definition with_nodes :: "layout_definition \<Rightarrow> layout_tables \<Rightarrow> layout_tables" where
  "with_nodes l db =
     db\<lparr> lt_nodes := fold (upsert tn_id) (ld_topology_nodes l) (lt_nodes db),
         lt_sections := fold (upsert ts_id) (ld_track_sections l) (lt_sections db) \<rparr>"

definition stored_layout :: "layout_definition \<Rightarrow> layout_tables \<Rightarrow> layout_tables" where
  "stored_layout l db = fold stored_topology (ld_turnout_topologies l) (with_nodes l db)"

lemma set_fold_upsert: "key ` set (fold (upsert key) xs ys) = key ` set ys \<union> key ` set xs"
  by (induction xs arbitrary: ys) auto

lemma fold_upsert_nodes:
  "fold (\<lambda>n db. db\<lparr> lt_nodes := upsert tn_id n (lt_nodes db) \<rparr>) ns db = db\<lparr> lt_nodes := fold (upsert tn_id) ns (lt_nodes db) \<rparr>"
  by (induction ns arbitrary: db) auto

lemma fold_upsert_sections:
  "fold (\<lambda>s db. db\<lparr> lt_sections := upsert ts_id s (lt_sections db) \<rparr>) ss db = db\<lparr> lt_sections := fold (upsert ts_id) ss (lt_sections db) \<rparr>"
  by (induction ss arbitrary: db) auto

lemma stored_topology_rest [simp]:
  "lt_turnouts (stored_topology topo db) = lt_turnouts db"
  "lt_nodes (stored_topology topo db) = lt_nodes db"
  "lt_sections (stored_topology topo db) = lt_sections db"
  "lt_blocks (stored_topology topo db) = lt_blocks db"
  "lt_block_sections (stored_topology topo db) = lt_block_sections db"
  "lt_block_turnouts (stored_topology topo db) = lt_block_turnouts db"
  "lt_drawing (stored_topology topo db) = lt_drawing db"
  "lt_node_positions (stored_topology topo db) = lt_node_positions db"
  "lt_track_paths (stored_topology topo db) = lt_track_paths db"
  "lt_turnout_positions (stored_topology topo db) = lt_turnout_positions db"
  "lt_block_styles (stored_topology topo db) = lt_block_styles db"
  "lt_routes (stored_topology topo db) = lt_routes db"
  "lt_route_blocks (stored_topology topo db) = lt_route_blocks db"
  "lt_route_turnouts (stored_topology topo db) = lt_route_turnouts db"
  "lt_route_conflicts (stored_topology topo db) = lt_route_conflicts db"
  "lt_providers (stored_topology topo db) = lt_providers db"
  "lt_mappings (stored_topology topo db) = lt_mappings db"
  by (simp_all add: stored_topology_def delete_topology_rows_def Let_def)

lemma fold_field: "(\<And>x s. f (g x s) = f s) \<Longrightarrow> f (fold g xs s) = f s"
  by (induction xs arbitrary: s) auto

lemma stored_layout_rest [simp]:
  "lt_turnouts (stored_layout l db) = lt_turnouts db"
  "lt_nodes (stored_layout l db) = fold (upsert tn_id) (ld_topology_nodes l) (lt_nodes db)"
  "lt_sections (stored_layout l db) = fold (upsert ts_id) (ld_track_sections l) (lt_sections db)"
  "lt_blocks (stored_layout l db) = lt_blocks db"
  "lt_block_sections (stored_layout l db) = lt_block_sections db"
  "lt_block_turnouts (stored_layout l db) = lt_block_turnouts db"
  "lt_drawing (stored_layout l db) = lt_drawing db"
  "lt_node_positions (stored_layout l db) = lt_node_positions db"
  "lt_track_paths (stored_layout l db) = lt_track_paths db"
  "lt_turnout_positions (stored_layout l db) = lt_turnout_positions db"
  "lt_block_styles (stored_layout l db) = lt_block_styles db"
  "lt_routes (stored_layout l db) = lt_routes db"
  "lt_route_blocks (stored_layout l db) = lt_route_blocks db"
  "lt_route_turnouts (stored_layout l db) = lt_route_turnouts db"
  "lt_route_conflicts (stored_layout l db) = lt_route_conflicts db"
  "lt_providers (stored_layout l db) = lt_providers db"
  "lt_mappings (stored_layout l db) = lt_mappings db"
  unfolding stored_layout_def
  by (subst fold_field [where g = stored_topology], simp, simp add: with_nodes_def)+

lemma fold_stored_topologies:
  "lt_topologies (fold stored_topology topos db) = fold (upsert id) (map tt_turnout_id topos) (lt_topologies db)"
  by (induction topos arbitrary: db) (simp_all add: stored_tables)

lemma lt_topologies_stored [simp]:
  "lt_topologies (stored_layout l db) = fold (upsert id) (map tt_turnout_id (ld_turnout_topologies l)) (lt_topologies db)"
  by (simp add: stored_layout_def fold_stored_topologies with_nodes_def)

lemma upsert_topology_definition_eq:
  assumes ok: "topo_ok db" and fits: "layout_fits l (turnout_keys db)"
  shows "upsert_topology_definition l db = Inr (stored_layout l db)" and "topo_ok (stored_layout l db)"
proof -
  let ?db1 = "db\<lparr> lt_nodes := fold (upsert tn_id) (ld_topology_nodes l) (lt_nodes db) \<rparr>"
  have nodes: "each upsert_node (ld_topology_nodes l) db = Inr ?db1"
    using each_fold [of "ld_topology_nodes l" "\<lambda>_. True" upsert_node "\<lambda>n db. db\<lparr> lt_nodes := upsert tn_id n (lt_nodes db) \<rparr>" db] fits
    by (simp add: upsert_node_def layout_fits_def fold_upsert_nodes when_ok_def)
  have ids: "node_ids l \<subseteq> node_keys ?db1" by (simp add: set_fold_upsert node_ids_def)
  have "each upsert_section (ld_track_sections l) ?db1 =
      Inr (fold (\<lambda>s db. db\<lparr> lt_sections := upsert ts_id s (lt_sections db) \<rparr>) (ld_track_sections l) ?db1) \<and>
      node_ids l \<subseteq> node_keys (fold (\<lambda>s db. db\<lparr> lt_sections := upsert ts_id s (lt_sections db) \<rparr>) (ld_track_sections l) ?db1)"
  proof (rule each_fold)
    fix s db assume s: "s \<in> set (ld_track_sections l)" and db: "node_ids l \<subseteq> node_keys db"
    then have "ts_node_a s \<in> node_keys db \<and> ts_node_b s \<in> node_keys db" using fits by (auto simp: layout_fits_def)
    then show "upsert_section s db = Inr (db\<lparr> lt_sections := upsert ts_id s (lt_sections db) \<rparr>) \<and>
        node_ids l \<subseteq> node_keys (db\<lparr> lt_sections := upsert ts_id s (lt_sections db) \<rparr>)"
      using s db fits by (simp add: upsert_section_def layout_fits_def when_ok_def)
  qed (rule ids)
  then have sections: "each upsert_section (ld_track_sections l) ?db1 = Inr (with_nodes l db)"
    by (simp add: fold_upsert_sections with_nodes_def)
  have ok1: "topo_ok (with_nodes l db)" using ok by (simp add: topo_ok_def with_nodes_def)
  have keys: "node_ids l \<subseteq> node_keys (with_nodes l db)" "turnout_keys (with_nodes l db) = turnout_keys db"
    using ids by (simp_all add: with_nodes_def)
  let ?inv = "\<lambda>s. node_ids l \<subseteq> node_keys s \<and> turnout_keys s = turnout_keys db \<and> topo_ok s"
  have "store_topology t s = Inr (stored_topology t s) \<and> ?inv (stored_topology t s)"
    if t: "t \<in> set (ld_turnout_topologies l)" and s: "?inv s" for t s
  proof -
    have "topology_fits (turnout_keys db) (node_ids l) t" using fits t by (simp add: layout_fits_def)
    then have f: "topology_fits (turnout_keys s) (node_keys s) t"
      using s by (auto simp: topology_fits_def)
    have "topo_ok (stored_topology t s)" using s stored_topo_ok [OF _ f] by blast
    then show ?thesis using s store_topology_eq [OF f] by simp
  qed
  then have "each store_topology (ld_turnout_topologies l) (with_nodes l db) = Inr (stored_layout l db) \<and> ?inv (stored_layout l db)"
    unfolding stored_layout_def using keys ok1 by (intro each_fold) auto
  then show "upsert_topology_definition l db = Inr (stored_layout l db)" and "topo_ok (stored_layout l db)"
    unfolding upsert_topology_definition_def nodes rbind.simps sections by simp_all
qed

lemma topology_at_with_nodes [simp]: "topology_at (with_nodes l db) = topology_at db"
  by (simp add: fun_eq_iff topology_at_def ports_at_def positions_at_def connections_at_def with_nodes_def)

lemma topology_at_fold_other:
  "i \<notin> tt_turnout_id ` set topos \<Longrightarrow> topology_at (fold stored_topology topos db) i = topology_at db i"
  by (induction topos arbitrary: db) (simp_all add: topology_at_other)

lemma topology_at_fold:
  "distinct (map tt_turnout_id topos) \<Longrightarrow> t \<in> set topos \<Longrightarrow>
     \<forall>t\<in>set topos. distinct (map tp_position_id (tt_positions t)) \<Longrightarrow>
     topology_at (fold stored_topology topos db) (tt_turnout_id t) = t"
proof (induction topos arbitrary: db)
  case (Cons u topos)
  show ?case
  proof (cases "t = u")
    case True
    then show ?thesis using Cons.prems by (simp add: topology_at_fold_other topology_at_stored)
  next
    case False
    then show ?thesis using Cons by auto
  qed
qed simp

text \<open>Storing a layout changes the join at the turnouts it describes, and nowhere else.\<close>

lemma topology_at_stored_layout:
  assumes "distinct (map tt_turnout_id (ld_turnout_topologies l))" and "layout_fits l turnouts"
  shows "t \<in> set (ld_turnout_topologies l) \<Longrightarrow> topology_at (stored_layout l db) (tt_turnout_id t) = t"
    and "i \<notin> tt_turnout_id ` set (ld_turnout_topologies l) \<Longrightarrow> topology_at (stored_layout l db) i = topology_at db i"
  using assms topology_at_fold [of "ld_turnout_topologies l" t "with_nodes l db"]
  by (auto simp: stored_layout_def layout_fits_def topology_fits_def topology_at_fold_other)

lemma sort_key_join: "(\<And>x. x \<in> set xs \<Longrightarrow> g (f x) = x) \<Longrightarrow> map g (sort (map f xs)) = sort_key f xs"
proof -
  assume "\<And>x. x \<in> set xs \<Longrightarrow> g (f x) = x"
  then have "map (g \<circ> f) (sort_key f xs) = map id (sort_key f xs)" by (intro map_cong) auto
  then show ?thesis by (simp add: sort_map_key)
qed

end
