(* ===== verification/LayoutStoreFacts.thy ===== *)
theory LayoutStoreFacts
  imports LayoutFacts
begin

text \<open>
  The blocks and their memberships, the replacement of a topology and of a drawing: what each
  accepts, and what reading back returns.
\<close>

subsection \<open>Reading the blocks\<close>

text \<open>The foreign keys and unique columns of the two membership tables.\<close>

definition members_ok :: "layout_tables \<Rightarrow> bool" where
  "members_ok db \<longleftrightarrow>
     distinct (map fst (lt_blocks db)) \<and>
     fst ` set (lt_block_sections db) \<subseteq> block_keys db \<and> snd ` set (lt_block_sections db) \<subseteq> section_keys db \<and>
     distinct (map snd (lt_block_sections db)) \<and>
     fst ` set (lt_block_turnouts db) \<subseteq> block_keys db \<and> snd ` set (lt_block_turnouts db) \<subseteq> set (lt_topologies db) \<and>
     distinct (map snd (lt_block_turnouts db))"

lemma add_to_block_eq:
  assumes "distinct (map bd_id bs)" and "fst row \<in> bd_id ` set bs"
  shows "add_to_block f row bs = Some (map (\<lambda>b. if bd_id b = fst row then f (snd row) b else b) bs)"
proof -
  have ix: "indexed bd_id bs (merge_index bd_id bs)" by (rule indexed_merge_index [OF assms(1)])
  obtain i where i: "map_of (merge_index bd_id bs) (fst row) = Some i"
    using indexed_None [OF ix, of "fst row"] assms(2) by (metis not_Some_eq)
  then have len: "i < length bs" and key: "bd_id (bs ! i) = fst row" using ix by (auto simp: indexed_def)
  have "bs[i := f (snd row) (bs ! i)] = map (\<lambda>b. if bd_id b = fst row then f (snd row) b else b) bs"
  proof (rule nth_equalityI)
    fix j assume j: "j < length (bs[i := f (snd row) (bs ! i)])"
    then have "bd_id (bs ! j) = fst row \<longleftrightarrow> j = i"
      using assms(1) len key by (metis distinct_conv_nth length_list_update length_map nth_map)
    then show "bs[i := f (snd row) (bs ! i)] ! j = map (\<lambda>b. if bd_id b = fst row then f (snd row) b else b) bs ! j"
      using j len by (auto simp: nth_list_update)
  qed simp
  then show ?thesis using len by (simp add: add_to_block_def block_index_def gm_get_def i)
qed

lemma add_all_to_blocks_eq:
  assumes keep: "\<And>r b. bd_id (f r b) = bd_id b"
  shows "distinct (map bd_id bs) \<Longrightarrow> \<forall>row\<in>set rows. fst row \<in> bd_id ` set bs \<Longrightarrow>
     add_all_to_blocks f rows bs = Some (map (\<lambda>b. fold f (map snd (filter (\<lambda>r. fst r = bd_id b) rows)) b) bs)"
proof (induction rows arbitrary: bs)
  case (Cons row rows)
  let ?bs = "map (\<lambda>b. if bd_id b = fst row then f (snd row) b else b) bs"
  have ids: "map bd_id ?bs = map bd_id bs" by (simp add: keep)
  have idset: "bd_id ` set ?bs = bd_id ` set bs"
    unfolding set_map image_image by (rule image_cong) (auto simp: keep)
  have "add_all_to_blocks f (row # rows) bs = add_all_to_blocks f rows ?bs"
    using Cons.prems by (simp add: add_to_block_eq)
  also have "\<dots> = Some (map (\<lambda>b. fold f (map snd (filter (\<lambda>r. fst r = bd_id b) rows)) b) ?bs)"
    by (rule Cons.IH, unfold ids idset) (use Cons.prems in auto)
  also have "\<dots> = Some (map (\<lambda>b. fold f (map snd (filter (\<lambda>r. fst r = bd_id b) (row # rows))) b) bs)"
    by (auto simp: keep)
  finally show ?case .
qed simp

lemma fold_add_section: "fold add_section ss b = b\<lparr> bd_track_section_ids := bd_track_section_ids b @ ss \<rparr>"
  by (induction ss arbitrary: b) auto

lemma fold_add_turnout: "fold add_turnout ts b = b\<lparr> bd_turnout_ids := bd_turnout_ids b @ ts \<rparr>"
  by (induction ts arbitrary: b) auto

lemma members_sorted: "map snd (filter (\<lambda>m. fst m = i) (sort rows)) = sort (map snd (filter (\<lambda>m. fst m = i) rows))"
  for rows :: "(string \<times> string) list"
proof -
  have "filter (\<lambda>m. fst m = i) (sort rows) = sort_key (\<lambda>m. (fst m, snd m)) (filter (\<lambda>m. fst m = i) rows)"
    by (simp add: filter_sort)
  also have "\<dots> = sort_key snd (filter (\<lambda>m. fst m = i) rows)"
    by (rule sort_key_prefix [where c = i]) simp
  finally show ?thesis by (simp add: sort_map_key)
qed

lemma list_block_definitions_join:
  assumes "members_ok db"
  shows "list_block_definitions db = Some (map (load_block_resources db) (sort_key fst (lt_blocks db)))"
proof -
  let ?rows = "sort_key fst (lt_blocks db)"
  let ?sectioned = "map (\<lambda>row. \<lparr> bd_id = fst row, bd_name = snd row,
     bd_track_section_ids = sort (map snd (filter (\<lambda>m. fst m = fst row) (lt_block_sections db))), bd_turnout_ids = [] \<rparr>) ?rows"
  have d: "distinct (map fst ?rows)"
    using assms by (metis distinct_sort members_ok_def sort_map_key)
  have "add_all_to_blocks add_section (sort (lt_block_sections db)) (map bare_block ?rows) = Some ?sectioned"
    by (subst add_all_to_blocks_eq)
       (use assms d in \<open>auto simp: comp_def fold_add_section members_sorted members_ok_def image_image\<close>)
  moreover have "add_all_to_blocks add_turnout (sort (lt_block_turnouts db)) ?sectioned =
      Some (map (load_block_resources db) ?rows)"
    by (subst add_all_to_blocks_eq)
       (use assms d in \<open>auto simp: comp_def fold_add_turnout members_sorted members_ok_def image_image load_block_resources_def\<close>)
  ultimately show ?thesis by (simp add: list_block_definitions_def)
qed

subsection \<open>Replacing memberships\<close>

lemma each_insert_section:
  "i \<in> block_keys db \<Longrightarrow> set ss \<subseteq> section_keys db \<Longrightarrow> distinct ss \<Longrightarrow> set ss \<inter> snd ` set (lt_block_sections db) = {} \<Longrightarrow>
     each (insert_block_section i) ss db = Inr (db\<lparr> lt_block_sections := lt_block_sections db @ map (Pair i) ss \<rparr>)"
proof (induction ss arbitrary: db)
  case (Cons s ss)
  let ?db = "db\<lparr> lt_block_sections := lt_block_sections db @ [(i, s)] \<rparr>"
  have "insert_block_section i s db = Inr ?db" using Cons.prems by (simp add: insert_block_section_def when_ok_def)
  moreover have "each (insert_block_section i) ss ?db =
      Inr (?db\<lparr> lt_block_sections := lt_block_sections ?db @ map (Pair i) ss \<rparr>)"
    using Cons.prems by (intro Cons.IH) auto
  ultimately show ?case by simp
qed simp

lemma each_insert_turnout:
  "i \<in> block_keys db \<Longrightarrow> set ts \<subseteq> set (lt_topologies db) \<Longrightarrow> distinct ts \<Longrightarrow> set ts \<inter> snd ` set (lt_block_turnouts db) = {} \<Longrightarrow>
     each (insert_block_turnout i) ts db = Inr (db\<lparr> lt_block_turnouts := lt_block_turnouts db @ map (Pair i) ts \<rparr>)"
proof (induction ts arbitrary: db)
  case (Cons t ts)
  let ?db = "db\<lparr> lt_block_turnouts := lt_block_turnouts db @ [(i, t)] \<rparr>"
  have "insert_block_turnout i t db = Inr ?db" using Cons.prems by (simp add: insert_block_turnout_def when_ok_def)
  moreover have "each (insert_block_turnout i) ts ?db =
      Inr (?db\<lparr> lt_block_turnouts := lt_block_turnouts ?db @ map (Pair i) ts \<rparr>)"
    using Cons.prems by (intro Cons.IH) auto
  ultimately show ?case by simp
qed simp

definition section_members :: "block_definition list \<Rightarrow> (string \<times> string) list" where
  "section_members bs = concat (map (\<lambda>b. map (Pair (bd_id b)) (bd_track_section_ids b)) bs)"

definition turnout_members :: "block_definition list \<Rightarrow> (string \<times> string) list" where
  "turnout_members bs = concat (map (\<lambda>b. map (Pair (bd_id b)) (bd_turnout_ids b)) bs)"

lemma map_snd_members:
  "map snd (section_members bs) = concat (map bd_track_section_ids bs)"
  "map snd (turnout_members bs) = concat (map bd_turnout_ids bs)"
  by (simp_all add: section_members_def turnout_members_def map_concat comp_def)

lemma each_insert_memberships:
  "bd_id ` set bs \<subseteq> block_keys db \<Longrightarrow>
   set (concat (map bd_track_section_ids bs)) \<subseteq> section_keys db \<Longrightarrow> distinct (concat (map bd_track_section_ids bs)) \<Longrightarrow>
   set (concat (map bd_track_section_ids bs)) \<inter> snd ` set (lt_block_sections db) = {} \<Longrightarrow>
   set (concat (map bd_turnout_ids bs)) \<subseteq> set (lt_topologies db) \<Longrightarrow> distinct (concat (map bd_turnout_ids bs)) \<Longrightarrow>
   set (concat (map bd_turnout_ids bs)) \<inter> snd ` set (lt_block_turnouts db) = {} \<Longrightarrow>
     each insert_memberships bs db =
       Inr (db\<lparr> lt_block_sections := lt_block_sections db @ section_members bs,
                lt_block_turnouts := lt_block_turnouts db @ turnout_members bs \<rparr>)"
proof (induction bs arbitrary: db)
  case Nil
  then show ?case by (simp add: section_members_def turnout_members_def)
next
  case (Cons b bs)
  let ?db1 = "db\<lparr> lt_block_sections := lt_block_sections db @ map (Pair (bd_id b)) (bd_track_section_ids b) \<rparr>"
  let ?db2 = "?db1\<lparr> lt_block_turnouts := lt_block_turnouts db @ map (Pair (bd_id b)) (bd_turnout_ids b) \<rparr>"
  have "each (insert_block_section (bd_id b)) (bd_track_section_ids b) db = Inr ?db1"
    by (rule each_insert_section) (use Cons.prems in auto)
  moreover have "each (insert_block_turnout (bd_id b)) (bd_turnout_ids b) ?db1 =
      Inr (?db1\<lparr> lt_block_turnouts := lt_block_turnouts ?db1 @ map (Pair (bd_id b)) (bd_turnout_ids b) \<rparr>)"
    by (rule each_insert_turnout) (use Cons.prems in auto)
  ultimately have one: "insert_memberships b db = Inr ?db2" by (simp add: insert_memberships_def)
  have img: "snd ` set (lt_block_sections ?db2) = snd ` set (lt_block_sections db) \<union> set (bd_track_section_ids b)"
    "snd ` set (lt_block_turnouts ?db2) = snd ` set (lt_block_turnouts db) \<union> set (bd_turnout_ids b)"
    by (auto simp: image_Un image_image)
  have fresh: "set (concat (map bd_track_section_ids bs)) \<inter> (snd ` set (lt_block_sections db) \<union> set (bd_track_section_ids b)) = {}"
      "set (concat (map bd_turnout_ids bs)) \<inter> (snd ` set (lt_block_turnouts db) \<union> set (bd_turnout_ids b)) = {}"
    using Cons.prems(3,4,6,7) unfolding list.map concat.simps set_append distinct_append by blast+
  have "each insert_memberships bs ?db2 = Inr (?db2\<lparr> lt_block_sections := lt_block_sections ?db2 @ section_members bs,
      lt_block_turnouts := lt_block_turnouts ?db2 @ turnout_members bs \<rparr>)"
    by (rule Cons.IH, unfold img)
      (use fresh Cons.prems(1,2,3,5,6) in simp_all)
  then show ?case by (simp add: one section_members_def turnout_members_def)
qed

lemma fold_delete_memberships:
  "fold (\<lambda>b. delete_memberships (bd_id b)) bs db =
     db\<lparr> lt_block_sections := filter (\<lambda>m. fst m \<notin> bd_id ` set bs) (lt_block_sections db),
         lt_block_turnouts := filter (\<lambda>m. fst m \<notin> bd_id ` set bs) (lt_block_turnouts db) \<rparr>"
  by (induction bs arbitrary: db) (auto simp: delete_memberships_def conj_commute cong: conj_cong)

text \<open>The tables after the memberships of some blocks have been replaced.\<close>

definition with_members :: "block_definition list \<Rightarrow> layout_tables \<Rightarrow> layout_tables" where
  "with_members bs db =
     db\<lparr> lt_block_sections := filter (\<lambda>m. fst m \<notin> bd_id ` set bs) (lt_block_sections db) @ section_members bs,
         lt_block_turnouts := filter (\<lambda>m. fst m \<notin> bd_id ` set bs) (lt_block_turnouts db) @ turnout_members bs \<rparr>"

lemma replace_block_memberships_eq:
  assumes "bd_id ` set bs \<subseteq> block_keys db"
    and "set (concat (map bd_track_section_ids bs)) \<subseteq> section_keys db" "distinct (concat (map bd_track_section_ids bs))"
    and "\<forall>(i, s)\<in>set (lt_block_sections db). s \<in> set (concat (map bd_track_section_ids bs)) \<longrightarrow> i \<in> bd_id ` set bs"
    and "set (concat (map bd_turnout_ids bs)) \<subseteq> set (lt_topologies db)" "distinct (concat (map bd_turnout_ids bs))"
    and "\<forall>(i, t)\<in>set (lt_block_turnouts db). t \<in> set (concat (map bd_turnout_ids bs)) \<longrightarrow> i \<in> bd_id ` set bs"
  shows "replace_block_memberships bs db = Inr (with_members bs db)"
  unfolding replace_block_memberships_def fold_delete_memberships
  by (subst each_insert_memberships) (use assms in \<open>fastforce simp: with_members_def\<close>)+

subsection \<open>Replacing the topology\<close>

definition cleared_topology :: "layout_tables \<Rightarrow> layout_tables" where
  "cleared_topology db =
     db\<lparr> lt_sections := [], lt_block_sections := [], lt_track_paths := [], lt_topologies := [], lt_ports := [],
         lt_positions := [], lt_connections := [], lt_block_turnouts := [], lt_nodes := [], lt_node_positions := [] \<rparr>"

lemma clear_topology_definition_eq: "clear_topology_definition db = Inr (cleared_topology db)"
  by (simp add: clear_topology_definition_def delete_track_sections_def delete_turnout_topologies_def
      delete_topology_nodes_def cleared_topology_def)

lemma cleared_topo_ok: "topo_ok (cleared_topology db)"
  by (simp add: topo_ok_def cleared_topology_def)

lemma load_all_ids: "load_all ts = Inr ts' \<Longrightarrow> map t_id ts' = map t_id ts"
proof (induction ts arbitrary: ts')
  case (Cons t ts)
  then obtain u us where u: "load_turnout t = Inr u" "load_all ts = Inr us" "ts' = u # us" by auto
  have "t_id u = t_id t" using u(1)
    by (auto simp: load_turnout_def normalize_turnout_def with_defaults_def populate_legacy_turnout_fields_def
        new_simple_turnout_def Let_def split: sum.splits option.splits list.splits if_splits)
  then show ?case using Cons.IH [OF u(2)] u(3) by simp
qed simp

lemma listed_turnouts_ids: "list_turnouts db = Inr ts \<Longrightarrow> t_id ` set ts = turnout_keys db"
proof -
  assume "list_turnouts db = Inr ts"
  then have "map t_id ts = map t_id (sort_key (\<lambda>t. (t_name t, t_id t)) (lt_turnouts db))"
    unfolding list_turnouts_def by (rule load_all_ids)
  from arg_cong [OF this, of set] show ?thesis by simp
qed

lemma distinct_map_comp: "distinct (map (\<lambda>x. h (g x)) xs) \<Longrightarrow> distinct (map g xs)"
  by (auto simp: distinct_map inj_on_def)

lemma connections_wf_fit: "connections_wf ports cs \<Longrightarrow> connections_fit ports cs"
  using distinct_map_comp [of "\<lambda>(a, b). new_port_connection_key a b" "\<lambda>c. (pc_port_a c, pc_port_b c)" cs]
  by (simp add: connections_wf_def connections_fit_def)

lemma turnouts_by_id_keys: "fst ` set (turnouts_by_id ts) = t_id ` set ts"
proof -
  have "fst ` set (fold (\<lambda>t. gm_put (t_id t) t) ts m) = t_id ` set ts \<union> fst ` set m" for m :: "(string, turnout) gomap"
    by (induction ts arbitrary: m) auto
  then show ?thesis by (simp add: turnouts_by_id_def)
qed

lemma topology_wf_fits:
  assumes wf: "topology_wf l"
  shows "layout_fits l (t_id ` set (ld_turnouts l))"
proof -
  have "topology_fits (t_id ` set (ld_turnouts l)) (node_ids l) t" if t: "t \<in> set (ld_turnout_topologies l)" for t
  proof -
    obtain u where u: "map_of (turnouts_by_id (ld_turnouts l)) (tt_turnout_id t) = Some u"
      and tw: "turnout_topology_wf (node_ids l) (pd_id ` set (t_positions u)) t"
      using wf t by (auto simp: topology_wf_def)
    have "tt_turnout_id t \<in> t_id ` set (ld_turnouts l)"
      using map_of_SomeD [OF u] turnouts_by_id_keys [of "ld_turnouts l"] by force
    then show ?thesis using tw by (auto simp: topology_fits_def turnout_topology_wf_def connections_wf_fit)
  qed
  then show ?thesis using wf by (auto simp: layout_fits_def topology_wf_def sections_wf_def)
qed

lemma fits_cong:
  "ld_topology_nodes l = ld_topology_nodes m \<Longrightarrow> ld_track_sections l = ld_track_sections m \<Longrightarrow>
   ld_turnout_topologies l = ld_turnout_topologies m \<Longrightarrow> layout_fits l = layout_fits m"
  by (simp add: fun_eq_iff layout_fits_def node_ids_def)

text \<open>What the tables hold after a layout is stored in cleared tables.\<close>

lemma stored_in_cleared:
  assumes "distinct (map tn_id (ld_topology_nodes l))" "distinct (map ts_id (ld_track_sections l))"
    "distinct (map tt_turnout_id (ld_turnout_topologies l))"
  shows "lt_nodes (stored_layout l (cleared_topology db)) = ld_topology_nodes l"
    and "lt_sections (stored_layout l (cleared_topology db)) = ld_track_sections l"
    and "lt_topologies (stored_layout l (cleared_topology db)) = map tt_turnout_id (ld_turnout_topologies l)"
  using fold_upsert_fresh [OF assms(1), of "[]"] fold_upsert_fresh [OF assms(2), of "[]"]
    fold_upsert_fresh [of id "map tt_turnout_id (ld_turnout_topologies l)" "[]"] assms(3)
  by (simp_all add: cleared_topology_def)

lemma filter_members:
  assumes "distinct (map bd_id bs)" and "b \<in> set bs"
  shows "map snd (filter (\<lambda>m. fst m = bd_id b) (section_members bs)) = bd_track_section_ids b"
    and "map snd (filter (\<lambda>m. fst m = bd_id b) (turnout_members bs)) = bd_turnout_ids b"
proof -
  have "map snd (filter (\<lambda>m. fst m = bd_id b) (concat (map (\<lambda>b. map (Pair (bd_id b)) (f b)) bs))) = f b"
    for f :: "block_definition \<Rightarrow> string list"
    using assms
  proof (induction bs)
    case (Cons c bs)
    have none: "filter (\<lambda>m. fst m = bd_id x) (concat (map (\<lambda>b. map (Pair (bd_id b)) (f b)) bs)) = []"
      if "bd_id x \<notin> bd_id ` set bs" for x using that by (auto simp: filter_empty_conv) (metis imageI)
    show ?case
    proof (cases "b = c")
      case True
      then show ?thesis using Cons.prems none [of c] by (simp add: filter_map comp_def)
    next
      case False
      then have "b \<in> set bs" "bd_id c \<noteq> bd_id b" using Cons.prems by auto
      then show ?thesis using Cons by (simp add: filter_map comp_def)
    qed
  qed simp
  from this [of bd_track_section_ids] this [of bd_turnout_ids]
  show "map snd (filter (\<lambda>m. fst m = bd_id b) (section_members bs)) = bd_track_section_ids b"
    and "map snd (filter (\<lambda>m. fst m = bd_id b) (turnout_members bs)) = bd_turnout_ids b"
    by (simp_all add: section_members_def turnout_members_def)
qed

text \<open>Reading the blocks after writing the memberships that were read.\<close>

lemma load_after_replace:
  assumes ok: "members_ok db" and row: "row \<in> set (lt_blocks db)"
    and bs: "bs = map (load_block_resources db) (sort_key fst (lt_blocks db))"
    and tables: "lt_block_sections db' = section_members bs" "lt_block_turnouts db' = turnout_members bs"
  shows "load_block_resources db' row = load_block_resources db row"
proof -
  have ids: "map bd_id bs = map fst (sort_key fst (lt_blocks db))"
    by (simp add: bs load_block_resources_def)
  have d: "distinct (map bd_id bs)" using ok unfolding ids by (metis distinct_sort members_ok_def sort_map_key)
  have "load_block_resources db row \<in> set bs" using row by (simp add: bs)
  from filter_members [OF d this] show ?thesis by (simp add: load_block_resources_def tables sorted_sort_id)
qed

definition topology_of :: "layout_definition \<Rightarrow> layout_definition" where
  "topology_of l =
     \<lparr> ld_blocks = [], ld_turnouts = [], ld_routes = [],
       ld_topology_nodes = sort_key tn_id (ld_topology_nodes l),
       ld_track_sections = sort_key ts_id (ld_track_sections l),
       ld_turnout_topologies = sort_key tt_turnout_id (ld_turnout_topologies l) \<rparr>"

lemma get_stored_layout:
  assumes "distinct (map tt_turnout_id (ld_turnout_topologies l))" and "layout_fits l turnouts"
    and "topo_ok db" and "\<And>i. topology_at db i = topology_at (stored_layout l db0) i"
    and "lt_nodes db = ld_topology_nodes l" "lt_sections db = ld_track_sections l"
      "lt_topologies db = map tt_turnout_id (ld_turnout_topologies l)"
  shows "get_topology_definition db = Inr (topology_of l)"
proof -
  have "map (topology_at db) (sort (map tt_turnout_id (ld_turnout_topologies l))) =
      sort_key tt_turnout_id (ld_turnout_topologies l)"
    by (rule sort_key_join) (simp add: assms(4) topology_at_stored_layout(1) [OF assms(1,2)])
  then have "list_turnout_topologies db = Inr (sort_key tt_turnout_id (ld_turnout_topologies l))"
    using list_turnout_topologies_join [OF assms(3)] by (simp add: assms(7))
  then show ?thesis
    by (simp add: get_topology_definition_def topology_of_def list_topology_nodes_def list_track_sections_def assms(5,6))
qed

text \<open>The layout that the tables and a new topology make together.\<close>

definition topology_accepted :: "layout_definition \<Rightarrow> layout_tables \<Rightarrow> bool" where
  "topology_accepted l db \<longleftrightarrow>
     (\<exists>ts bs. list_turnouts db = Inr ts \<and> list_block_definitions db = Some bs \<and>
        layout_accepted (l\<lparr> ld_turnouts := ts, ld_blocks := bs \<rparr>))"

lemma replaced_topology:
  assumes ok: "members_ok db" and ts: "list_turnouts db = Inr ts"
    and bs: "bs = map (load_block_resources db) (sort_key fst (lt_blocks db))"
    and accepted: "layout_accepted (l\<lparr> ld_turnouts := ts, ld_blocks := bs \<rparr>)"
  defines "db' \<equiv> with_members bs (stored_layout l (cleared_topology db))"
  shows "rbind (clear_topology_definition db) (\<lambda>db1.
           rbind (upsert_topology_definition l db1) (replace_block_memberships bs)) = Inr db'"
    and "get_topology_definition db' = Inr (topology_of l)"
    and "list_block_definitions db' = Some bs" and "lt_turnouts db' = lt_turnouts db"
    and "topo_ok db'" and "members_ok db'"
proof -
  let ?l = "l\<lparr> ld_turnouts := ts, ld_blocks := bs \<rparr>" and ?c = "cleared_topology db"
  let ?s = "stored_layout l ?c"
  have wf: "topology_wf ?l" "blocks_wf ?l" using accepted by (simp_all add: layout_accepted_def)
  have d: "distinct (map tn_id (ld_topology_nodes l))" "distinct (map ts_id (ld_track_sections l))"
    "distinct (map tt_turnout_id (ld_turnout_topologies l))"
    using wf(1) by (simp_all add: topology_wf_def sections_wf_def)
  have "layout_fits ?l (turnout_keys db)" using topology_wf_fits [OF wf(1)] listed_turnouts_ids [OF ts] by simp
  then have fits: "layout_fits l (turnout_keys ?c)"
    using fits_cong [of l ?l] by (simp add: cleared_topology_def)
  note stored = upsert_topology_definition_eq [OF cleared_topo_ok fits]
  note held = stored_in_cleared [OF d, of db]
  have blocks: "distinct (concat (map bd_track_section_ids bs))" "distinct (concat (map bd_turnout_ids bs))"
    "set (concat (map bd_track_section_ids bs)) \<subseteq> section_keys ?s"
    "set (concat (map bd_turnout_ids bs)) \<subseteq> set (lt_topologies ?s)"
    using wf(2) held by (auto simp: blocks_wf_def simp del: stored_layout_rest lt_topologies_stored)
  have empty: "lt_block_sections ?s = []" "lt_block_turnouts ?s = []" "lt_blocks ?s = lt_blocks db"
    by (simp_all add: cleared_topology_def)
  have ids: "bd_id ` set bs = block_keys db"
    by (simp add: bs image_image load_block_resources_def)
  have members: "replace_block_memberships bs ?s = Inr db'"
    unfolding db'_def by (rule replace_block_memberships_eq) (use blocks empty ids in auto)
  show "rbind (clear_topology_definition db) (\<lambda>db1.
      rbind (upsert_topology_definition l db1) (replace_block_memberships bs)) = Inr db'"
    unfolding clear_topology_definition_eq rbind.simps stored(1) by (rule members)
  have db': "lt_nodes db' = lt_nodes ?s" "lt_sections db' = lt_sections ?s" "lt_topologies db' = lt_topologies ?s"
    "lt_blocks db' = lt_blocks db" "lt_turnouts db' = lt_turnouts ?s"
    "lt_block_sections db' = section_members bs" "lt_block_turnouts db' = turnout_members bs"
    by (simp_all add: db'_def with_members_def empty del: stored_layout_rest)
  have at: "topology_at db' i = topology_at ?s i" for i
    by (simp add: topology_at_def ports_at_def positions_at_def connections_at_def db'_def with_members_def)
  show topo: "topo_ok db'" using stored(2) by (simp add: topo_ok_def db'_def with_members_def)
  show "get_topology_definition db' = Inr (topology_of l)"
    by (rule get_stored_layout [OF d(3) fits topo at]) (simp_all only: db' held)
  show "lt_turnouts db' = lt_turnouts db" by (simp add: db' cleared_topology_def)
  have set_members: "set (map snd (section_members bs)) = set (concat (map bd_track_section_ids bs))"
    "set (map snd (turnout_members bs)) = set (concat (map bd_turnout_ids bs))"
    by (simp_all only: map_snd_members)
  have fst_members: "fst ` set (section_members bs) \<subseteq> bd_id ` set bs" "fst ` set (turnout_members bs) \<subseteq> bd_id ` set bs"
    by (auto simp: section_members_def turnout_members_def)
  show ok': "members_ok db'"
    unfolding members_ok_def db' map_snd_members
    using ok blocks set_members fst_members ids
    by (simp add: members_ok_def)
  have "list_block_definitions db' = Some (map (load_block_resources db') (sort_key fst (lt_blocks db)))"
    using list_block_definitions_join [OF ok'] by (simp only: db')
  also have "map (load_block_resources db') (sort_key fst (lt_blocks db)) = bs"
    unfolding bs by (rule map_cong) (use load_after_replace [OF ok _ bs] db' in auto)
  finally show "list_block_definitions db' = Some bs" .
qed

text \<open>
  C21: Replacing the stored topology always returns; it succeeds exactly when the new topology
  makes a well-formed layout with the stored turnouts and blocks, and then reading the topology
  back gives the new one, sorted by identifier and with the ports, positions and connections in
  their order, and the blocks with their resources, and the turnouts, are the ones before.
\<close>

theorem replace_topology_roundtrip:
  assumes "members_ok db"
  shows "\<exists>r. replace_topology_definition l db = Some r \<and>
    (case r of
       Inl e \<Rightarrow> \<not> topology_accepted l db
     | Inr db' \<Rightarrow> topology_accepted l db \<and> get_topology_definition db' = Inr (topology_of l) \<and>
         list_block_definitions db' = list_block_definitions db \<and> list_turnouts db' = list_turnouts db \<and>
         topo_ok db' \<and> members_ok db')"
proof (cases "list_turnouts db")
  case (Inl e)
  then show ?thesis by (simp add: replace_topology_definition_def topology_accepted_def)
next
  case (Inr ts)
  define bs where "bs = map (load_block_resources db) (sort_key fst (lt_blocks db))"
  have blocks: "list_block_definitions db = Some bs" unfolding bs_def by (rule list_block_definitions_join [OF assms])
  let ?l = "l\<lparr> ld_turnouts := ts, ld_blocks := bs \<rparr>"
  show ?thesis
  proof (cases "layout_accepted ?l")
    case True
    note replaced = replaced_topology [OF assms Inr bs_def True]
    have "build ?l = Some (Inr (built_graph ?l))" using True by (simp add: build_Inr)
    then have "replace_topology_definition l db = Some (Inr (with_members bs (stored_layout l (cleared_topology db))))"
      by (simp only: replace_topology_definition_def Inr blocks sum.case option.case replaced(1))
    then show ?thesis using replaced True Inr blocks
      by (auto simp: topology_accepted_def list_turnouts_def)
  next
    case False
    then obtain e where "build ?l = Some (Inl e)" using build_cases [of ?l] by auto
    then show ?thesis using False Inr blocks
      by (simp add: replace_topology_definition_def topology_accepted_def)
  qed
qed

end
