(* ===== verification/DrawingFacts.thy ===== *)
theory DrawingFacts
  imports LayoutStoreFacts
begin

text \<open>
  Storing a drawing: the statements never fail on a drawing that its validation has accepted,
  and reading returns it.
\<close>

subsection \<open>The statements\<close>

lemma each_insert:
  "(\<And>x s. x \<in> set xs \<Longrightarrow> key x \<notin> key ` set (get s) \<Longrightarrow> ok s \<Longrightarrow> f x s = Inr (put (get s @ [x]) s)) \<Longrightarrow>
   (\<And>v s. get (put v s) = v) \<Longrightarrow> (\<And>v w s. put w (put v s) = put w s) \<Longrightarrow> (\<And>v s. ok s \<Longrightarrow> ok (put v s)) \<Longrightarrow>
   put (get s) s = s \<Longrightarrow>
   distinct (map key xs) \<Longrightarrow> key ` set xs \<inter> key ` set (get s) = {} \<Longrightarrow> ok s \<Longrightarrow>
     each f xs s = Inr (put (get s @ xs) s)"
proof (induction xs arbitrary: s)
  case (Cons x xs)
  have "f x s = Inr (put (get s @ [x]) s)" using Cons.prems(1) [of x s] Cons.prems(6-8) by auto
  moreover have "each f xs (put (get s @ [x]) s) = Inr (put (get (put (get s @ [x]) s) @ xs) (put (get s @ [x]) s))"
    using Cons.prems by (intro Cons.IH) auto
  ultimately show ?case using Cons.prems(2,3) by simp
qed simp

lemma segment_wf_points: "segment_wf s \<Longrightarrow> p \<in> set (segment_points s) \<Longrightarrow> finite_point p"
  by (auto simp: segment_wf_def segment_points_def)

lemma finite_not_nan: "finite64 x \<Longrightarrow> x \<noteq> NotANumber"
  by auto

lemma sections_by_id_keys: "map_of (sections_by_id ss) i = Some s \<Longrightarrow> i \<in> ts_id ` set ss"
proof -
  have "fst ` set (fold (\<lambda>s. gm_put (ts_id s) s) ss m) = ts_id ` set ss \<union> fst ` set m" for m :: "(string, track_section) gomap"
    by (induction ss arbitrary: m) auto
  then have "fst ` set (sections_by_id ss) = ts_id ` set ss" by (simp add: sections_by_id_def)
  then show "map_of (sections_by_id ss) i = Some s \<Longrightarrow> i \<in> ts_id ` set ss" by (force dest: map_of_SomeD)
qed

definition drawn_tables :: "layout_presentation \<Rightarrow> layout_tables \<Rightarrow> layout_tables" where
  "drawn_tables p db =
     db\<lparr> lt_drawing := Some (lp_coordinate_system p, lp_grid_spacing p), lt_node_positions := lp_nodes p,
         lt_track_paths := lp_track_sections p, lt_turnout_positions := lp_turnouts p, lt_block_styles := lp_blocks p \<rparr>"

lemma drawing_statements:
  assumes wf: "presentation_wf p (layout_presentation_resources db)"
  shows "rbind (upsert_drawing (lp_coordinate_system p) (lp_grid_spacing p) (clear_drawing db)) (\<lambda>db1.
           rbind (each insert_node_position (lp_nodes p) db1) (\<lambda>db2.
             rbind (each insert_track_path (lp_track_sections p) db2) (\<lambda>db3.
               rbind (each insert_turnout_position (lp_turnouts p) db3)
                 (each insert_block_style (lp_blocks p))))) = Inr (drawn_tables p db)"
proof -
  let ?ok = "\<lambda>s. node_keys s = node_keys db \<and> section_keys s = section_keys db \<and>
    turnout_keys s = turnout_keys db \<and> block_keys s = block_keys db"
  let ?db0 = "(clear_drawing db)\<lparr> lt_drawing := Some (lp_coordinate_system p, lp_grid_spacing p) \<rparr>"
  let ?db1 = "?db0\<lparr> lt_node_positions := lp_nodes p \<rparr>"
  let ?db2 = "?db1\<lparr> lt_track_paths := lp_track_sections p \<rparr>"
  let ?db3 = "?db2\<lparr> lt_turnout_positions := lp_turnouts p \<rparr>"
  have grid: "float_less (Finite 0) (lp_grid_spacing p)" using wf by (auto simp: presentation_wf_def)
  have dist: "distinct (map np_node_id (lp_nodes p))" "distinct (map pa_track_section_id (lp_track_sections p))"
      "distinct (map up_turnout_id (lp_turnouts p))" "distinct (map bs_block_id (lp_blocks p))"
    using wf by (simp_all only: presentation_wf_def)
  have empty: "lt_node_positions ?db0 = []" "lt_track_paths ?db1 = []" "lt_turnout_positions ?db2 = []" "lt_block_styles ?db3 = []"
    by (simp_all add: clear_drawing_def)
  have ok: "?ok ?db0" "?ok ?db1" "?ok ?db2" "?ok ?db3" by (simp_all add: clear_drawing_def)
  have zero: "upsert_drawing (lp_coordinate_system p) (lp_grid_spacing p) (clear_drawing db) = Inr ?db0"
    using grid by (simp add: upsert_drawing_def)
  have one: "each insert_node_position (lp_nodes p) ?db0 = Inr (?db0\<lparr> lt_node_positions := lt_node_positions ?db0 @ lp_nodes p \<rparr>)"
  proof (rule each_insert [where key = np_node_id and ok = ?ok])
    fix n s assume "n \<in> set (lp_nodes p)" "np_node_id n \<notin> np_node_id ` set (lt_node_positions s)" "?ok s"
    then show "insert_node_position n s = Inr (s\<lparr> lt_node_positions := lt_node_positions s @ [n] \<rparr>)"
      using wf by (auto simp: insert_node_position_def presentation_wf_def layout_presentation_resources_def node_ids_def
          when_ok_def dest: finite_not_nan)
  qed (simp_all add: dist clear_drawing_def)
  have two: "each insert_track_path (lp_track_sections p) ?db1 = Inr (?db1\<lparr> lt_track_paths := lt_track_paths ?db1 @ lp_track_sections p \<rparr>)"
  proof (rule each_insert [where key = pa_track_section_id and ok = ?ok])
    fix q s assume q: "q \<in> set (lp_track_sections p)" "pa_track_section_id q \<notin> pa_track_section_id ` set (lt_track_paths s)" "?ok s"
    then have path: "path_wf (sections_by_id (lt_sections db)) (drawn_at (lp_nodes p)) q"
      using wf by (auto simp: presentation_wf_def layout_presentation_resources_def)
    then have "pa_track_section_id q \<in> section_keys db" by (auto simp: path_wf_def dest: sections_by_id_keys)
    then show "insert_track_path q s = Inr (s\<lparr> lt_track_paths := lt_track_paths s @ [q] \<rparr>)"
      using q path by (auto simp: insert_track_path_def when_ok_def path_wf_def dest: segment_wf_points)
  qed (simp_all add: dist clear_drawing_def)
  have three: "each insert_turnout_position (lp_turnouts p) ?db2 = Inr (?db2\<lparr> lt_turnout_positions := lt_turnout_positions ?db2 @ lp_turnouts p \<rparr>)"
  proof (rule each_insert [where key = up_turnout_id and ok = ?ok])
    fix t s assume "t \<in> set (lp_turnouts p)" "up_turnout_id t \<notin> up_turnout_id ` set (lt_turnout_positions s)" "?ok s"
    then show "insert_turnout_position t s = Inr (s\<lparr> lt_turnout_positions := lt_turnout_positions s @ [t] \<rparr>)"
      using wf by (auto simp: insert_turnout_position_def presentation_wf_def placement_wf_def layout_presentation_resources_def
          when_ok_def dest: finite_not_nan)
  qed (simp_all add: dist clear_drawing_def)
  have four: "each insert_block_style (lp_blocks p) ?db3 = Inr (?db3\<lparr> lt_block_styles := lt_block_styles ?db3 @ lp_blocks p \<rparr>)"
  proof (rule each_insert [where key = bs_block_id and ok = ?ok])
    fix b s assume b: "b \<in> set (lp_blocks p)" "bs_block_id b \<notin> bs_block_id ` set (lt_block_styles s)" "?ok s"
    then have "style_wf (block_keys db) b"
      using wf by (simp add: presentation_wf_def layout_presentation_resources_def image_image)
    then show "insert_block_style b s = Inr (s\<lparr> lt_block_styles := lt_block_styles s @ [b] \<rparr>)"
      using b by (auto simp: insert_block_style_def style_wf_def when_ok_def float_le_def)
  qed (simp_all add: dist clear_drawing_def)
  show ?thesis
    unfolding zero rbind.simps one [unfolded empty append_Nil] two [unfolded empty append_Nil]
      three [unfolded empty append_Nil] four [unfolded empty append_Nil]
    by (simp add: drawn_tables_def clear_drawing_def)
qed

definition sorted_drawing :: "layout_presentation \<Rightarrow> layout_presentation" where
  "sorted_drawing p =
     p\<lparr> lp_nodes := sort_key np_node_id (lp_nodes p),
        lp_track_sections := sort_key pa_track_section_id (lp_track_sections p),
        lp_turnouts := sort_key up_turnout_id (lp_turnouts p), lp_blocks := sort_key bs_block_id (lp_blocks p) \<rparr>"

lemma normalize_idem [simp]:
  "normalize_layout_presentation (normalize_layout_presentation p) = normalize_layout_presentation p"
  by (simp add: normalize_layout_presentation_def layout_coordinate_system_def default_grid_spacing_def)

lemma drawing_statement_accepts:
  "replace_layout_presentation p db = Inr db' \<Longrightarrow>
     presentation_wf (normalize_layout_presentation p) (layout_presentation_resources db)"
  using validate_layout_presentation_None [of "normalize_layout_presentation p" "layout_presentation_resources db"]
  by (simp add: replace_layout_presentation_def Let_def split: option.splits)

text \<open>
  C33: Replacing the stored drawing succeeds exactly when the drawing is well formed for the
  stored layout: no statement fails after the validation. Reading it back then gives the drawing
  with its defaults filled in and its lists sorted, and the topology and the blocks read as
  before.
\<close>

theorem drawing_roundtrip:
  "case replace_layout_presentation p db of
     Inl e \<Rightarrow> (\<exists>d. e = DrawingRejected d) \<and>
       \<not> presentation_wf (normalize_layout_presentation p) (layout_presentation_resources db)
   | Inr db' \<Rightarrow>
       presentation_wf (normalize_layout_presentation p) (layout_presentation_resources db) \<and>
       read_layout_presentation db' = sorted_drawing (normalize_layout_presentation p) \<and>
       get_topology_definition db' = get_topology_definition db \<and>
       list_block_definitions db' = list_block_definitions db \<and>
       lt_turnouts db' = lt_turnouts db"
proof (cases "presentation_wf (normalize_layout_presentation p) (layout_presentation_resources db)")
  case True
  let ?p = "normalize_layout_presentation p"
  have "validate_layout_presentation ?p (layout_presentation_resources db) = None"
    using True by (simp add: validate_layout_presentation_None)
  then have "replace_layout_presentation p db = Inr (drawn_tables ?p db)"
    using drawing_statements [OF True] by (simp add: replace_layout_presentation_def Let_def)
  moreover have "load_block_resources (drawn_tables ?p db) = load_block_resources db"
    by (simp add: fun_eq_iff load_block_resources_def drawn_tables_def)
  ultimately show ?thesis using True
    by (simp add: drawn_tables_def read_layout_presentation_def sorted_drawing_def empty_layout_presentation_def
        get_topology_definition_def list_turnout_topologies_def list_topology_nodes_def list_track_sections_def
        list_block_definitions_def)
next
  case False
  then obtain d where "validate_layout_presentation (normalize_layout_presentation p) (layout_presentation_resources db) = Some d"
    using validate_layout_presentation_None [of "normalize_layout_presentation p"] by fastforce
  then show ?thesis using False by (simp add: replace_layout_presentation_def Let_def)
qed

end
