(* ===== verification/LayoutImport.thy ===== *)
theory LayoutImport
  imports LayoutTables RouteCheck GoText
begin

text \<open>
  The import and export of a whole layout: \<^verbatim>\<open>importLayout\<close>, \<^verbatim>\<open>ImportLayout\<close>,
  \<^verbatim>\<open>ValidateLayoutImport\<close> and \<^verbatim>\<open>ExportLayout\<close> of \<^verbatim>\<open>internal/store/routes.go\<close> and
  \<^verbatim>\<open>ListFeedbackMappings\<close> of \<^verbatim>\<open>internal/store/railway.go\<close>. An import checks the layout
  by itself, then against the tables, and then runs its statements in one transaction; a dry run
  is the same transaction with an error at its end.
\<close>

subsection \<open>The imported file\<close>

record feedback_row =
  fm_provider :: string
  fm_address :: int
  fm_block_id :: string

text \<open>\<^verbatim>\<open>LayoutDefinition\<close> with the fields that the topology does not read.\<close>

record layout_file =
  lf_layout :: layout_definition
  lf_presentation :: "layout_presentation option"
  lf_feedback_mappings :: "feedback_row list"
  lf_providers :: "occupancy_provider list"
  lf_mappings :: "occupancy_sensor_mapping list"

datatype import_error =
    TurnoutRejected turnout_validation_error
  | RoutesRejected "validation_issue list"
  | AddressConflict int string string
  | ConfigurationPending string
  | ProviderRejected occupancy_problem
  | MappingRejected occupancy_problem
  | StoreRejected layout_error
  | DryRunCompleted

definition stored :: "layout_error + 'a \<Rightarrow> import_error + 'a" where
  "stored r = (case r of Inl e \<Rightarrow> Inl (StoreRejected e) | Inr x \<Rightarrow> Inr x)"

subsection \<open>Checks\<close>

fun normalize_all :: "turnout list \<Rightarrow> import_error + turnout list" where
  "normalize_all [] = Inr []"
| "normalize_all (t # ts) =
     (case normalize_turnout t of
        Inl e \<Rightarrow> Inl (TurnoutRejected e)
      | Inr t' \<Rightarrow> rbind (normalize_all ts) (\<lambda>ts'. Inr (t' # ts')))"

text \<open>The loop body of both address checks: an address with another owner is a conflict.\<close>

fun claim_addresses :: "(int \<times> string) list \<Rightarrow> (int, string) gomap \<Rightarrow> import_error + (int, string) gomap" where
  "claim_addresses [] owners = Inr owners"
| "claim_addresses ((a, i) # claims) owners =
     (case map_of owners a of
        Some owner \<Rightarrow> if owner \<noteq> i then Inl (AddressConflict a owner i)
                      else claim_addresses claims (gm_put a i owners)
      | None \<Rightarrow> claim_addresses claims (gm_put a i owners))"

definition address_claims :: "turnout list \<Rightarrow> (int \<times> string) list" where
  "address_claims ts = concat (map (\<lambda>t. map (\<lambda>e. (ep_linear_address e, t_id t)) (t_endpoints t)) ts)"

definition validate_turnout_address_ownership :: "turnout list \<Rightarrow> import_error option" where
  "validate_turnout_address_ownership ts =
     (case claim_addresses (address_claims ts) [] of Inl e \<Rightarrow> Some e | Inr _ \<Rightarrow> None)"

definition reject_pending_turnout_configuration :: "turnout list \<Rightarrow> bool \<Rightarrow> layout_tables \<Rightarrow> import_error option" where
  "reject_pending_turnout_configuration ts replace db =
     map_option ConfigurationPending
       (find (\<lambda>i. replace \<or> i \<in> t_id ` set ts) (sort (map t_id (filter t_pending (lt_turnouts db)))))"

definition reject_existing_turnout_address_conflicts :: "turnout list \<Rightarrow> layout_tables \<Rightarrow> import_error option" where
  "reject_existing_turnout_address_conflicts ts db =
     (case claim_addresses
             (sort (address_claims (filter (\<lambda>t. t_id t \<notin> t_id ` set ts) (lt_turnouts db))) @ address_claims ts) [] of
        Inl e \<Rightarrow> Some e | Inr _ \<Rightarrow> None)"

subsection \<open>Turnouts\<close>

definition legacy_state :: "string \<Rightarrow> string" where
  "legacy_state position = (if position = ''straight'' \<or> position = ''diverging'' then position else ''unknown'')"

definition insert_endpoint :: "string \<Rightarrow> accessory_endpoint \<Rightarrow> accessory_endpoint list \<Rightarrow> layout_error + accessory_endpoint list" where
  "insert_endpoint i e es =
     when_ok (1 \<le> ep_linear_address e \<and> ep_id e \<notin> ep_id ` set es \<and> ep_linear_address e \<notin> ep_linear_address ` set es)
       (StoredEndpoint i (ep_id e)) (es @ [e])"

text \<open>A position with its vector; the vector's foreign key is to the endpoints just stored.\<close>

definition insert_position_definition ::
  "string \<Rightarrow> accessory_endpoint list \<Rightarrow> turnout_position_definition \<Rightarrow> turnout_position_definition list \<Rightarrow>
   layout_error + turnout_position_definition list" where
  "insert_position_definition i es p ps =
     (if pd_id p \<in> pd_id ` set ps then Inl (ConstraintFailed (StoredPosition i (pd_id p)))
      else case find (\<lambda>(e, v). e \<notin> ep_id ` set es \<or> \<not> position_valid v) (pd_endpoints p) of
             Some (e, _) \<Rightarrow> Inl (ConstraintFailed (StoredVector i (pd_id p) e))
           | None \<Rightarrow> Inr (ps @ [p]))"

text \<open>
  The row of a turnout with its definition. The code takes the address of the first endpoint;
  a turnout that has been normalised has one.
\<close>

definition upsert_turnout :: "turnout \<Rightarrow> layout_tables \<Rightarrow> layout_error + layout_tables" where
  "upsert_turnout t db =
     rbind (each (insert_endpoint (t_id t)) (t_endpoints t) []) (\<lambda>es.
       rbind (each (insert_position_definition (t_id t) es) (t_positions t) []) (\<lambda>ps.
         Inr (db\<lparr> lt_turnouts := upsert t_id
           (t\<lparr> t_dcc_address := ep_linear_address (hd (t_endpoints t)),
               t_desired_state := legacy_state (t_desired_position t),
               t_reported_state := legacy_state (t_reported_position t),
               t_endpoints := es, t_positions := ps \<rparr>) (lt_turnouts db) \<rparr>)))"

subsection \<open>Clearing\<close>

definition delete_routes :: "layout_tables \<Rightarrow> layout_tables" where
  "delete_routes db =
     db\<lparr> lt_route_conflicts := [], lt_route_turnouts := [], lt_route_blocks := [], lt_routes := [] \<rparr>"

definition delete_turnouts :: "layout_tables \<Rightarrow> layout_error + layout_tables" where
  "delete_turnouts db =
     when_ok ((\<forall>i\<in>set (lt_topologies db). i \<notin> turnout_keys db) \<and>
              (\<forall>(r, i, st)\<in>set (lt_route_turnouts db). i \<notin> turnout_keys db)) StoredTurnouts
       (db\<lparr> lt_turnouts := [], lt_turnout_positions := [] \<rparr>)"

definition delete_blocks :: "layout_tables \<Rightarrow> layout_error + layout_tables" where
  "delete_blocks db =
     when_ok (\<forall>(r, b)\<in>set (lt_route_blocks db). b \<notin> block_keys db) (StoredBlock [])
       (db\<lparr> lt_blocks := [], lt_mappings := filter (\<lambda>m. om_block_id m \<notin> block_keys db) (lt_mappings db),
            lt_block_sections := filter (\<lambda>m. fst m \<notin> block_keys db) (lt_block_sections db),
            lt_block_turnouts := filter (\<lambda>m. fst m \<notin> block_keys db) (lt_block_turnouts db), lt_block_styles := [] \<rparr>)"

definition clear_layout :: "layout_tables \<Rightarrow> layout_error + layout_tables" where
  "clear_layout db =
     rbind (clear_topology_definition db) (\<lambda>db1.
       rbind (delete_turnouts ((delete_routes db1)\<lparr> lt_mappings := [] \<rparr>)) (\<lambda>db2.
         rbind (delete_blocks db2) (\<lambda>db3. Inr (db3\<lparr> lt_providers := [] \<rparr>))))"

subsection \<open>Providers, blocks, mappings and routes\<close>

definition import_provider :: "occupancy_provider \<Rightarrow> layout_tables \<Rightarrow> import_error + layout_tables" where
  "import_provider p db =
     (case validate_occupancy_provider p of
        Some e \<Rightarrow> Inl (ProviderRejected e)
      | None \<Rightarrow> Inr (db\<lparr> lt_providers := upsert op_id p (lt_providers db) \<rparr>))"

definition upsert_block :: "block_definition \<Rightarrow> layout_tables \<Rightarrow> layout_tables" where
  "upsert_block b db = db\<lparr> lt_blocks := upsert fst (bd_id b, bd_name b) (lt_blocks db) \<rparr>"

definition default_provider :: "string \<Rightarrow> occupancy_provider" where
  "default_provider p =
     \<lparr> op_id = p, op_type = (if p = ''simulator'' then ''simulator'' else ''current-detection''),
       op_priority = 100, op_required = True, op_stale_after = 0, op_freshness_required = False \<rparr>"

text \<open>The provider is added when it is missing; an existing mapping keeps its other columns.\<close>

definition import_feedback_mapping :: "feedback_row \<Rightarrow> layout_tables \<Rightarrow> layout_error + layout_tables" where
  "import_feedback_mapping m db =
     (let p = fm_provider m; s = int_text (fm_address m);
          row = \<lparr> om_provider_id = p, om_sensor_id = s, om_block_id = fm_block_id m, om_required = None, om_priority = None \<rparr>
      in when_ok (fm_block_id m \<in> block_keys db) (StoredMapping p s)
           (db\<lparr> lt_providers := (if p \<in> op_id ` set (lt_providers db) then lt_providers db
                                 else lt_providers db @ [default_provider p]),
                lt_mappings := (case find (\<lambda>r. mapping_key r = (p, s)) (lt_mappings db) of
                    Some old \<Rightarrow> upsert mapping_key (old\<lparr> om_block_id := fm_block_id m \<rparr>) (lt_mappings db)
                  | None \<Rightarrow> lt_mappings db @ [row]) \<rparr>))"

definition import_sensor_mapping :: "occupancy_sensor_mapping \<Rightarrow> layout_tables \<Rightarrow> import_error + layout_tables" where
  "import_sensor_mapping m db =
     (case validate_occupancy_sensor_mapping m of
        Some e \<Rightarrow> Inl (MappingRejected e)
      | None \<Rightarrow>
          stored (when_ok (om_provider_id m \<in> op_id ` set (lt_providers db) \<and> om_block_id m \<in> block_keys db)
            (StoredMapping (om_provider_id m) (om_sensor_id m))
            (db\<lparr> lt_mappings := upsert mapping_key m (lt_mappings db) \<rparr>)))"

definition upsert_route :: "route_definition \<Rightarrow> layout_tables \<Rightarrow> layout_tables" where
  "upsert_route r db =
     db\<lparr> lt_routes := upsert (\<lambda>(row, _). ro_id row)
           (\<lparr> ro_id = rd_id r, ro_name = rd_name r, ro_state = RouteIdle, ro_reserved_by_session = [] \<rparr>,
            rd_entry_node_id r, rd_exit_node_id r) (lt_routes db) \<rparr>"

abbreviation route_keys :: "layout_tables \<Rightarrow> string set" where
  "route_keys db \<equiv> (\<lambda>(row, _). ro_id row) ` set (lt_routes db)"

definition insert_route_block :: "string \<Rightarrow> string \<Rightarrow> layout_tables \<Rightarrow> layout_error + layout_tables" where
  "insert_route_block i b db =
     when_ok (i \<in> route_keys db \<and> b \<in> block_keys db \<and> (i, b) \<notin> set (lt_route_blocks db)) (StoredRoute i)
       (db\<lparr> lt_route_blocks := lt_route_blocks db @ [(i, b)] \<rparr>)"

definition insert_route_turnout :: "string \<Rightarrow> string \<times> string \<Rightarrow> layout_tables \<Rightarrow> layout_error + layout_tables" where
  "insert_route_turnout i req db =
     when_ok (i \<in> route_keys db \<and> fst req \<in> turnout_keys db \<and>
              (\<forall>(r, t, st)\<in>set (lt_route_turnouts db). (r, t) \<noteq> (i, fst req))) (StoredRoute i)
       (db\<lparr> lt_route_turnouts := lt_route_turnouts db @ [(i, fst req, snd req)] \<rparr>)"

definition insert_route_conflict :: "string \<Rightarrow> string \<Rightarrow> layout_tables \<Rightarrow> layout_error + layout_tables" where
  "insert_route_conflict i c db =
     when_ok (i \<in> route_keys db \<and> c \<in> route_keys db \<and> (i, c) \<notin> set (lt_route_conflicts db)) (StoredRoute i)
       (db\<lparr> lt_route_conflicts := lt_route_conflicts db @ [(i, c)] \<rparr>)"

definition delete_route_rows :: "string \<Rightarrow> layout_tables \<Rightarrow> layout_tables" where
  "delete_route_rows i db =
     db\<lparr> lt_route_blocks := filter (\<lambda>(r, _). r \<noteq> i) (lt_route_blocks db),
         lt_route_turnouts := filter (\<lambda>(r, _). r \<noteq> i) (lt_route_turnouts db),
         lt_route_conflicts := filter (\<lambda>(r, _). r \<noteq> i) (lt_route_conflicts db) \<rparr>"

definition replace_route_rows :: "route_definition \<Rightarrow> layout_tables \<Rightarrow> layout_error + layout_tables" where
  "replace_route_rows r db =
     (let i = rd_id r
      in rbind (each (insert_route_block i) (rd_block_ids r) (delete_route_rows i db)) (\<lambda>db1.
           rbind (each (insert_route_turnout i) (rd_turnout_states r) db1)
             (each (insert_route_conflict i) (rd_conflict_route_ids r))))"

subsection \<open>The import\<close>

text \<open>The statements of the transaction, after its checks.\<close>

definition store_layout ::
  "layout_file \<Rightarrow> turnout list \<Rightarrow> layout_presentation \<Rightarrow> bool \<Rightarrow> layout_tables \<Rightarrow> import_error + layout_tables" where
  "store_layout f turnouts drawing replace db =
     (let l = lf_layout f in
      rbind (if replace then stored (clear_layout db) else Inr db) (\<lambda>db1.
      rbind (each import_provider (lf_providers f) db1) (\<lambda>db2.
      rbind (stored (each upsert_turnout turnouts (fold upsert_block (ld_blocks l) db2))) (\<lambda>db3.
      rbind (stored (upsert_topology_definition l db3)) (\<lambda>db4.
      rbind (stored (replace_block_memberships (ld_blocks l) db4)) (\<lambda>db5.
      rbind (if lf_presentation f \<noteq> None \<or> replace then stored (replace_layout_presentation drawing db5) else Inr db5) (\<lambda>db6.
      rbind (stored (each import_feedback_mapping (lf_feedback_mappings f) db6)) (\<lambda>db7.
      rbind (each import_sensor_mapping (lf_mappings f) db7) (\<lambda>db8.
        stored (each replace_route_rows (ld_routes l) (fold upsert_route (ld_routes l) db8)))))))))))"

text \<open>The checks of the transaction, in order; they return the drawing to store.\<close>

definition check_against_tables ::
  "layout_file \<Rightarrow> turnout list \<Rightarrow> bool \<Rightarrow> layout_tables \<Rightarrow> import_error + layout_presentation" where
  "check_against_tables f turnouts replace db =
     (let l = lf_layout f; validated = l\<lparr> ld_turnouts := turnouts \<rparr> in
      case effective_presentation_resources (layout_presentation_resources db) validated replace of
        Inl e \<Rightarrow> Inl (StoreRejected (DrawingUnmerged e))
      | Inr resources \<Rightarrow>
      (case effective_layout_presentation (read_layout_presentation db) (lf_presentation f) replace of
         Inl e \<Rightarrow> Inl (StoreRejected (DrawingUnmerged e))
       | Inr drawing \<Rightarrow>
       (case or_else (map_option (\<lambda>e. StoreRejected (DrawingRejected e)) (validate_layout_presentation drawing resources))
              (or_else (reject_pending_turnout_configuration turnouts replace db)
                 (or_else (map_option StoreRejected (reject_omitted_block_resource_changes l replace db))
                    (if replace then None else reject_existing_turnout_address_conflicts turnouts db))) of
          Some e \<Rightarrow> Inl e
        | None \<Rightarrow> Inr drawing)))"

text \<open>\<open>None\<close> is a search that does not return; there is none.\<close>

definition import_layout ::
  "layout_file \<Rightarrow> bool \<Rightarrow> bool \<Rightarrow> layout_tables \<Rightarrow> (import_error + layout_tables) option" where
  "import_layout f replace dry_run db =
     (let l = lf_layout f in
      case normalize_all (ld_turnouts l) of
        Inl e \<Rightarrow> Some (Inl e)
      | Inr turnouts \<Rightarrow>
      (case build (l\<lparr> ld_turnouts := turnouts \<rparr>) of
         None \<Rightarrow> None
       | Some (Inl e) \<Rightarrow> Some (Inl (StoreRejected (LayoutRejected e)))
       | Some (Inr g) \<Rightarrow>
       (case validate_route_definitions g (ld_routes l) turnouts of
          None \<Rightarrow> None
        | Some issues \<Rightarrow>
            if route_validation_errors issues \<noteq> [] then Some (Inl (RoutesRejected (route_validation_errors issues)))
            else (case validate_turnout_address_ownership turnouts of
                    Some e \<Rightarrow> Some (Inl e)
                  | None \<Rightarrow>
                      Some (rbind (check_against_tables f turnouts replace db) (\<lambda>drawing.
                        rbind (store_layout f turnouts drawing replace db) (\<lambda>db'.
                          if dry_run then Inl DryRunCompleted else Inr db')))))))"

text \<open>The tables after the transaction, and the error.\<close>

definition import_layout_commit ::
  "layout_file \<Rightarrow> bool \<Rightarrow> layout_tables \<Rightarrow> (layout_tables \<times> import_error option) option" where
  "import_layout_commit f replace db =
     map_option (\<lambda>r. case r of Inl e \<Rightarrow> (db, Some e) | Inr db' \<Rightarrow> (db', None)) (import_layout f replace False db)"

definition validate_layout_import :: "layout_file \<Rightarrow> bool \<Rightarrow> layout_tables \<Rightarrow> import_error option option" where
  "validate_layout_import f replace db =
     map_option (\<lambda>r. case r of Inl e \<Rightarrow> (if e = DryRunCompleted then None else Some e) | Inr _ \<Rightarrow> None)
       (import_layout f replace True db)"

subsection \<open>The export\<close>

definition occupancy_of :: "layout_tables \<Rightarrow> occupancy_db" where
  "occupancy_of db =
     \<lparr> odb_providers = lt_providers db, odb_mappings = lt_mappings db, odb_blocks = map fst (lt_blocks db) \<rparr>"

definition routes_of :: "layout_tables \<Rightarrow> route_db" where
  "routes_of db =
     \<lparr> rdb_routes = map fst (lt_routes db), rdb_blocks = lt_route_blocks db,
       rdb_turnouts = lt_route_turnouts db, rdb_conflicts = lt_route_conflicts db \<rparr>"

definition feedback_of :: "occupancy_sensor_mapping \<Rightarrow> feedback_row option" where
  "feedback_of m =
     map_option (\<lambda>a. \<lparr> fm_provider = om_provider_id m, fm_address = a, fm_block_id = om_block_id m \<rparr>) (atoi (om_sensor_id m))"

definition list_feedback_mappings :: "layout_tables \<Rightarrow> feedback_row list" where
  "list_feedback_mappings db = List.map_filter feedback_of (list_occupancy_sensor_mappings (occupancy_of db))"

definition export_route :: "layout_tables \<Rightarrow> route \<Rightarrow> route_definition option" where
  "export_route db r =
     (case find (\<lambda>(row, _). ro_id row = ro_id r) (lt_routes db) of
        None \<Rightarrow> None
      | Some (_, entry, exit) \<Rightarrow>
          Some \<lparr> rd_id = ro_id r, rd_name = ro_name r,
                 rd_block_ids = sort (map snd (filter (\<lambda>(i, _). i = ro_id r) (lt_route_blocks db))),
                 rd_turnout_states = route_turnout_requirements (ro_id r) (routes_of db),
                 rd_conflict_route_ids = sort (map snd (filter (\<lambda>(i, _). i = ro_id r) (lt_route_conflicts db))),
                 rd_entry_node_id = entry, rd_exit_node_id = exit \<rparr>)"

text \<open>Every listed route has its row, so the lookup of its entry and exit does not fail.\<close>

definition export_layout :: "layout_tables \<Rightarrow> (import_error + layout_file) option" where
  "export_layout db =
     (case list_block_definitions db of
        None \<Rightarrow> None
      | Some blocks \<Rightarrow> Some (
          case list_turnouts db of
            Inl e \<Rightarrow> Inl (StoreRejected (TurnoutsUnreadable e))
          | Inr turnouts \<Rightarrow>
              rbind (stored (get_topology_definition db)) (\<lambda>topology.
                Inr \<lparr> lf_layout = topology\<lparr> ld_blocks := blocks, ld_turnouts := turnouts,
                        ld_routes := List.map_filter (export_route db) (list_routes (routes_of db)) \<rparr>,
                      lf_presentation = Some (read_layout_presentation db),
                      lf_feedback_mappings = list_feedback_mappings db,
                      lf_providers = list_occupancy_providers (occupancy_of db),
                      lf_mappings = list_occupancy_sensor_mappings (occupancy_of db) \<rparr>)))"

end
