(* ===== verification/LayoutImportFacts.thy ===== *)
theory LayoutImportFacts
  imports LayoutImport DrawingFacts
begin

text \<open>
  What an import that succeeds has done to the tables: every statement is the update or the
  addition of a row, so the layout in the tables is the one before, or an empty one when
  everything is replaced, updated by the file.
\<close>

subsection \<open>Statements that succeeded\<close>

lemma stored_Inr [simp]: "stored r = Inr x \<longleftrightarrow> r = Inr x"
  by (cases r) (auto simp: stored_def)

lemma each_append:
  "(\<And>x s s'. f x s = Inr s' \<Longrightarrow> s' = s @ [x]) \<Longrightarrow> each f xs s = Inr s' \<Longrightarrow> s' = s @ xs"
proof (induction xs arbitrary: s)
  case (Cons x xs)
  then obtain u where "f x s = Inr u" "each f xs u = Inr s'" by auto
  then show ?case using Cons.IH [of u] Cons.prems(1) by auto
qed simp

lemma each_folds:
  "(\<And>x s s'. f x s = Inr s' \<Longrightarrow> s' = g x s) \<Longrightarrow> each f xs s = Inr s' \<Longrightarrow> s' = fold g xs s"
proof (induction xs arbitrary: s)
  case (Cons x xs)
  then obtain u where "f x s = Inr u" "each f xs u = Inr s'" by auto
  then show ?case using Cons.IH [of u] Cons.prems(1) by auto
qed simp

text \<open>The row of a turnout: its definition, with the columns of the first version.\<close>

definition stored_row :: "turnout \<Rightarrow> turnout" where
  "stored_row t =
     t\<lparr> t_dcc_address := ep_linear_address (hd (t_endpoints t)),
        t_desired_state := legacy_state (t_desired_position t),
        t_reported_state := legacy_state (t_reported_position t) \<rparr>"

lemma stored_row_simps [simp]:
  "t_id (stored_row t) = t_id t" "t_name (stored_row t) = t_name t" "t_endpoints (stored_row t) = t_endpoints t"
  "t_positions (stored_row t) = t_positions t" "t_pending (stored_row t) = t_pending t"
  by (simp_all add: stored_row_def)

lemma upsert_turnout_Inr:
  "upsert_turnout t db = Inr db' \<Longrightarrow> db' = db\<lparr> lt_turnouts := upsert t_id (stored_row t) (lt_turnouts db) \<rparr>"
proof -
  assume "upsert_turnout t db = Inr db'"
  then obtain es ps where es: "each (insert_endpoint (t_id t)) (t_endpoints t) [] = Inr es"
    and ps: "each (insert_position_definition (t_id t) es) (t_positions t) [] = Inr ps"
    and db': "db' = db\<lparr> lt_turnouts := upsert t_id (t\<lparr> t_dcc_address := ep_linear_address (hd (t_endpoints t)),
               t_desired_state := legacy_state (t_desired_position t),
               t_reported_state := legacy_state (t_reported_position t),
               t_endpoints := es, t_positions := ps \<rparr>) (lt_turnouts db) \<rparr>"
    by (auto simp: upsert_turnout_def)
  have "es = [] @ t_endpoints t"
    by (rule each_append [OF _ es]) (simp add: insert_endpoint_def)
  moreover have "ps = [] @ t_positions t"
    by (rule each_append [OF _ ps]) (auto simp: insert_position_definition_def split: if_splits option.splits)
  ultimately show ?thesis by (simp add: db' stored_row_def)
qed

lemma each_upsert_turnout:
  assumes "each upsert_turnout ts db = Inr db'"
  shows "db' = db\<lparr> lt_turnouts := fold (upsert t_id) (map stored_row ts) (lt_turnouts db) \<rparr>"
proof -
  have "db' = fold (\<lambda>t db. db\<lparr> lt_turnouts := upsert t_id (stored_row t) (lt_turnouts db) \<rparr>) ts db"
    by (rule each_folds [OF upsert_turnout_Inr assms])
  also have "\<dots> = db\<lparr> lt_turnouts := fold (upsert t_id) (map stored_row ts) (lt_turnouts db) \<rparr>"
    by (induction ts arbitrary: db) simp_all
  finally show ?thesis .
qed

lemma each_import_provider:
  assumes "each import_provider ps db = Inr db'"
  shows "db' = db\<lparr> lt_providers := fold (upsert op_id) ps (lt_providers db) \<rparr>"
proof -
  have "db' = fold (\<lambda>p db. db\<lparr> lt_providers := upsert op_id p (lt_providers db) \<rparr>) ps db"
    by (rule each_folds [OF _ assms]) (simp add: import_provider_def split: option.splits)
  also have "\<dots> = db\<lparr> lt_providers := fold (upsert op_id) ps (lt_providers db) \<rparr>"
    by (induction ps arbitrary: db) simp_all
  finally show ?thesis .
qed

lemma fold_upsert_block:
  "fold upsert_block bs db = db\<lparr> lt_blocks := fold (upsert fst) (map (\<lambda>b. (bd_id b, bd_name b)) bs) (lt_blocks db) \<rparr>"
  by (induction bs arbitrary: db) (simp_all add: upsert_block_def)

definition add_feedback :: "feedback_row \<Rightarrow> occupancy_sensor_mapping list \<Rightarrow> occupancy_sensor_mapping list" where
  "add_feedback m rows =
     (let p = fm_provider m; s = int_text (fm_address m)
      in case find (\<lambda>r. mapping_key r = (p, s)) rows of
           Some old \<Rightarrow> upsert mapping_key (old\<lparr> om_block_id := fm_block_id m \<rparr>) rows
         | None \<Rightarrow> rows @ [\<lparr> om_provider_id = p, om_sensor_id = s, om_block_id = fm_block_id m,
                             om_required = None, om_priority = None \<rparr>])"

definition add_default :: "feedback_row \<Rightarrow> occupancy_provider list \<Rightarrow> occupancy_provider list" where
  "add_default m ps = (if fm_provider m \<in> op_id ` set ps then ps else ps @ [default_provider (fm_provider m)])"

lemma each_import_feedback:
  assumes "each import_feedback_mapping ms db = Inr db'"
  shows "db' = db\<lparr> lt_providers := fold add_default ms (lt_providers db), lt_mappings := fold add_feedback ms (lt_mappings db) \<rparr>"
proof -
  have "db' = fold (\<lambda>m db. db\<lparr> lt_providers := add_default m (lt_providers db), lt_mappings := add_feedback m (lt_mappings db) \<rparr>) ms db"
    by (rule each_folds [OF _ assms]) (simp add: import_feedback_mapping_def add_default_def add_feedback_def Let_def)
  also have "\<dots> = db\<lparr> lt_providers := fold add_default ms (lt_providers db), lt_mappings := fold add_feedback ms (lt_mappings db) \<rparr>"
    by (induction ms arbitrary: db) simp_all
  finally show ?thesis .
qed

lemma each_import_mapping:
  assumes "each import_sensor_mapping ms db = Inr db'"
  shows "db' = db\<lparr> lt_mappings := fold (upsert mapping_key) ms (lt_mappings db) \<rparr>"
proof -
  have "db' = fold (\<lambda>m db. db\<lparr> lt_mappings := upsert mapping_key m (lt_mappings db) \<rparr>) ms db"
    by (rule each_folds [OF _ assms]) (simp add: import_sensor_mapping_def split: option.splits)
  also have "\<dots> = db\<lparr> lt_mappings := fold (upsert mapping_key) ms (lt_mappings db) \<rparr>"
    by (induction ms arbitrary: db) simp_all
  finally show ?thesis .
qed

subsection \<open>Routes\<close>

definition route_row :: "route_definition \<Rightarrow> route \<times> string \<times> string" where
  "route_row r =
     (\<lparr> ro_id = rd_id r, ro_name = rd_name r, ro_state = RouteIdle, ro_reserved_by_session = [] \<rparr>,
      rd_entry_node_id r, rd_exit_node_id r)"

abbreviation row_route_id :: "route \<times> string \<times> string \<Rightarrow> string" where
  "row_route_id \<equiv> \<lambda>(row, _). ro_id row"

lemma fold_upsert_route:
  "fold upsert_route rs db = db\<lparr> lt_routes := fold (upsert row_route_id) (map route_row rs) (lt_routes db) \<rparr>"
  by (induction rs arbitrary: db) (simp_all add: upsert_route_def route_row_def)

definition with_route_rows :: "route_definition \<Rightarrow> layout_tables \<Rightarrow> layout_tables" where
  "with_route_rows r db =
     (let i = rd_id r; d = delete_route_rows i db
      in d\<lparr> lt_route_blocks := lt_route_blocks d @ map (Pair i) (rd_block_ids r),
            lt_route_turnouts := lt_route_turnouts d @ map (Pair i) (rd_turnout_states r),
            lt_route_conflicts := lt_route_conflicts d @ map (Pair i) (rd_conflict_route_ids r) \<rparr>)"

lemma each_route_blocks:
  assumes "each (insert_route_block i) bs db = Inr db'"
  shows "db' = db\<lparr> lt_route_blocks := lt_route_blocks db @ map (Pair i) bs \<rparr>"
proof -
  have "db' = fold (\<lambda>b db. db\<lparr> lt_route_blocks := lt_route_blocks db @ [(i, b)] \<rparr>) bs db"
    by (rule each_folds [OF _ assms]) (simp add: insert_route_block_def)
  also have "\<dots> = db\<lparr> lt_route_blocks := lt_route_blocks db @ map (Pair i) bs \<rparr>"
    by (induction bs arbitrary: db) simp_all
  finally show ?thesis .
qed

lemma each_route_turnouts:
  assumes "each (insert_route_turnout i) ts db = Inr db'"
  shows "db' = db\<lparr> lt_route_turnouts := lt_route_turnouts db @ map (Pair i) ts \<rparr>"
proof -
  have "db' = fold (\<lambda>t db. db\<lparr> lt_route_turnouts := lt_route_turnouts db @ [(i, t)] \<rparr>) ts db"
    by (rule each_folds [OF _ assms]) (simp add: insert_route_turnout_def)
  also have "\<dots> = db\<lparr> lt_route_turnouts := lt_route_turnouts db @ map (Pair i) ts \<rparr>"
    by (induction ts arbitrary: db) simp_all
  finally show ?thesis .
qed

lemma each_route_conflicts:
  assumes "each (insert_route_conflict i) cs db = Inr db'"
  shows "db' = db\<lparr> lt_route_conflicts := lt_route_conflicts db @ map (Pair i) cs \<rparr>"
proof -
  have "db' = fold (\<lambda>c db. db\<lparr> lt_route_conflicts := lt_route_conflicts db @ [(i, c)] \<rparr>) cs db"
    by (rule each_folds [OF _ assms]) (simp add: insert_route_conflict_def)
  also have "\<dots> = db\<lparr> lt_route_conflicts := lt_route_conflicts db @ map (Pair i) cs \<rparr>"
    by (induction cs arbitrary: db) simp_all
  finally show ?thesis .
qed

lemma replace_route_rows_Inr: "replace_route_rows r db = Inr db' \<Longrightarrow> db' = with_route_rows r db"
  by (auto simp: replace_route_rows_def with_route_rows_def Let_def
      dest!: each_route_blocks each_route_turnouts each_route_conflicts)

lemma with_route_rows_rest [simp]:
  "lt_turnouts (with_route_rows r db) = lt_turnouts db" "lt_nodes (with_route_rows r db) = lt_nodes db"
  "lt_sections (with_route_rows r db) = lt_sections db" "lt_topologies (with_route_rows r db) = lt_topologies db"
  "lt_ports (with_route_rows r db) = lt_ports db" "lt_positions (with_route_rows r db) = lt_positions db"
  "lt_connections (with_route_rows r db) = lt_connections db" "lt_blocks (with_route_rows r db) = lt_blocks db"
  "lt_block_sections (with_route_rows r db) = lt_block_sections db"
  "lt_block_turnouts (with_route_rows r db) = lt_block_turnouts db"
  "lt_drawing (with_route_rows r db) = lt_drawing db" "lt_node_positions (with_route_rows r db) = lt_node_positions db"
  "lt_track_paths (with_route_rows r db) = lt_track_paths db"
  "lt_turnout_positions (with_route_rows r db) = lt_turnout_positions db"
  "lt_block_styles (with_route_rows r db) = lt_block_styles db" "lt_routes (with_route_rows r db) = lt_routes db"
  "lt_providers (with_route_rows r db) = lt_providers db" "lt_mappings (with_route_rows r db) = lt_mappings db"
  by (simp_all add: with_route_rows_def delete_route_rows_def Let_def)

lemma fold_route_rows_rest [simp]:
  "lt_turnouts (fold with_route_rows rs db) = lt_turnouts db" "lt_nodes (fold with_route_rows rs db) = lt_nodes db"
  "lt_sections (fold with_route_rows rs db) = lt_sections db" "lt_topologies (fold with_route_rows rs db) = lt_topologies db"
  "lt_ports (fold with_route_rows rs db) = lt_ports db" "lt_positions (fold with_route_rows rs db) = lt_positions db"
  "lt_connections (fold with_route_rows rs db) = lt_connections db" "lt_blocks (fold with_route_rows rs db) = lt_blocks db"
  "lt_block_sections (fold with_route_rows rs db) = lt_block_sections db"
  "lt_block_turnouts (fold with_route_rows rs db) = lt_block_turnouts db"
  "lt_drawing (fold with_route_rows rs db) = lt_drawing db" "lt_node_positions (fold with_route_rows rs db) = lt_node_positions db"
  "lt_track_paths (fold with_route_rows rs db) = lt_track_paths db"
  "lt_turnout_positions (fold with_route_rows rs db) = lt_turnout_positions db"
  "lt_block_styles (fold with_route_rows rs db) = lt_block_styles db" "lt_routes (fold with_route_rows rs db) = lt_routes db"
  "lt_providers (fold with_route_rows rs db) = lt_providers db" "lt_mappings (fold with_route_rows rs db) = lt_mappings db"
  by (subst fold_field [where g = with_route_rows], simp, simp)+

text \<open>The rows of a route after the loop over routes with distinct identifiers.\<close>

definition rows_at :: "string \<Rightarrow> (string \<times> 'a) list \<Rightarrow> 'a list" where
  "rows_at i rows = map snd (filter (\<lambda>(r, _). r = i) rows)"

lemma rows_at_append [simp]: "rows_at i (xs @ ys) = rows_at i xs @ rows_at i ys"
  by (simp add: rows_at_def)

lemma rows_at_Pair [simp]: "rows_at i (map (Pair j) xs) = (if i = j then xs else [])"
  by (induction xs) (auto simp: rows_at_def)

lemma rows_at_filter [simp]: "rows_at i (filter (\<lambda>(r, _). r \<noteq> j) rows) = (if i = j then [] else rows_at i rows)"
  by (induction rows) (auto simp: rows_at_def)

lemma rows_with_route:
  "rows_at i (lt_route_blocks (with_route_rows r db)) = (if i = rd_id r then rd_block_ids r else rows_at i (lt_route_blocks db))"
  "rows_at i (lt_route_turnouts (with_route_rows r db)) = (if i = rd_id r then rd_turnout_states r else rows_at i (lt_route_turnouts db))"
  "rows_at i (lt_route_conflicts (with_route_rows r db)) = (if i = rd_id r then rd_conflict_route_ids r else rows_at i (lt_route_conflicts db))"
  by (simp_all add: with_route_rows_def delete_route_rows_def Let_def)

lemma rows_after_routes_other:
  "i \<notin> rd_id ` set rs \<Longrightarrow>
     rows_at i (lt_route_blocks (fold with_route_rows rs db)) = rows_at i (lt_route_blocks db) \<and>
     rows_at i (lt_route_turnouts (fold with_route_rows rs db)) = rows_at i (lt_route_turnouts db) \<and>
     rows_at i (lt_route_conflicts (fold with_route_rows rs db)) = rows_at i (lt_route_conflicts db)"
  by (induction rs arbitrary: db) (simp_all add: rows_with_route)

lemma rows_after_routes:
  "distinct (map rd_id rs) \<Longrightarrow> r \<in> set rs \<Longrightarrow>
     rows_at (rd_id r) (lt_route_blocks (fold with_route_rows rs db)) = rd_block_ids r \<and>
     rows_at (rd_id r) (lt_route_turnouts (fold with_route_rows rs db)) = rd_turnout_states r \<and>
     rows_at (rd_id r) (lt_route_conflicts (fold with_route_rows rs db)) = rd_conflict_route_ids r"
proof (induction rs arbitrary: db)
  case (Cons q rs)
  show ?case
  proof (cases "r = q")
    case True
    then show ?thesis using Cons.prems rows_after_routes_other [of "rd_id r" rs "with_route_rows q db"]
      by (simp add: rows_with_route)
  next
    case False
    then show ?thesis using Cons by auto
  qed
qed simp

subsection \<open>The whole import\<close>

definition emptied :: "layout_tables \<Rightarrow> layout_tables" where
  "emptied db =
     \<lparr> lt_turnouts = [], lt_nodes = [], lt_sections = [], lt_topologies = [], lt_ports = [], lt_positions = [],
       lt_connections = [], lt_blocks = [], lt_block_sections = [], lt_block_turnouts = [], lt_drawing = lt_drawing db,
       lt_node_positions = [], lt_track_paths = [], lt_turnout_positions = [], lt_block_styles = [],
       lt_routes = [], lt_route_blocks = [], lt_route_turnouts = [], lt_route_conflicts = [],
       lt_providers = [], lt_mappings = [] \<rparr>"

lemma clear_layout_eq: "clear_layout db = Inr (emptied db)"
  by (simp add: clear_layout_def clear_topology_definition_eq delete_turnouts_def delete_routes_def delete_blocks_def
      cleared_topology_def emptied_def)

text \<open>What a layout is imported into.\<close>

definition import_base :: "bool \<Rightarrow> layout_tables \<Rightarrow> layout_tables" where
  "import_base replace db = (if replace then emptied db else db)"

definition imported_track :: "layout_file \<Rightarrow> turnout list \<Rightarrow> layout_tables \<Rightarrow> layout_tables" where
  "imported_track f ts b =
     with_members (ld_blocks (lf_layout f)) (stored_layout (lf_layout f)
       (b\<lparr> lt_providers := fold (upsert op_id) (lf_providers f) (lt_providers b),
           lt_blocks := fold (upsert fst) (map (\<lambda>b. (bd_id b, bd_name b)) (ld_blocks (lf_layout f))) (lt_blocks b),
           lt_turnouts := fold (upsert t_id) (map stored_row ts) (lt_turnouts b) \<rparr>))"

definition imported :: "layout_file \<Rightarrow> turnout list \<Rightarrow> layout_presentation \<Rightarrow> bool \<Rightarrow> layout_tables \<Rightarrow> layout_tables" where
  "imported f ts drawing replace b =
     (let d = (if lf_presentation f \<noteq> None \<or> replace
               then drawn_tables (normalize_layout_presentation drawing) (imported_track f ts b) else imported_track f ts b)
      in fold with_route_rows (ld_routes (lf_layout f))
           (d\<lparr> lt_providers := fold add_default (lf_feedback_mappings f) (lt_providers d),
               lt_mappings := fold (upsert mapping_key) (lf_mappings f) (fold add_feedback (lf_feedback_mappings f) (lt_mappings d)),
               lt_routes := fold (upsert row_route_id) (map route_row (ld_routes (lf_layout f))) (lt_routes d) \<rparr>))"

text \<open>No resource that the file describes is in a block that it leaves out.\<close>

definition owners_included :: "layout_definition \<Rightarrow> layout_tables \<Rightarrow> bool" where
  "owners_included l b \<longleftrightarrow>
     (\<forall>(i, s)\<in>set (lt_block_sections b). s \<in> ts_id ` set (ld_track_sections l) \<longrightarrow> i \<in> bd_id ` set (ld_blocks l)) \<and>
     (\<forall>(i, t)\<in>set (lt_block_turnouts b). t \<in> tt_turnout_id ` set (ld_turnout_topologies l) \<longrightarrow> i \<in> bd_id ` set (ld_blocks l))"

lemma owners_includedD:
  assumes "owners_included l b"
  shows "(i, s) \<in> set (lt_block_sections b) \<Longrightarrow> s \<in> ts_id ` set (ld_track_sections l) \<Longrightarrow> i \<in> bd_id ` set (ld_blocks l)"
    and "(i, t) \<in> set (lt_block_turnouts b) \<Longrightarrow> t \<in> tt_turnout_id ` set (ld_turnout_topologies l) \<Longrightarrow> i \<in> bd_id ` set (ld_blocks l)"
  using assms unfolding owners_included_def by blast+

lemma find_owner: "distinct (map snd rows) \<Longrightarrow> (i, s) \<in> set rows \<Longrightarrow> block_owner_for_resource rows s = Some i"
  unfolding block_owner_for_resource_def by (induction rows) (auto simp: image_iff)

lemma find_then_None:
  "(case find (\<lambda>x. g x \<noteq> None) xs of None \<Rightarrow> None | Some x \<Rightarrow> map_option (h x) (g x)) = None \<longleftrightarrow> (\<forall>x\<in>set xs. g x = None)"
  by (induction xs) auto

lemma reject_omitted_None:
  assumes "reject_omitted_block_resource_changes l False db = None" and ok: "members_ok db"
  shows "owners_included l db"
proof -
  let ?g = "\<lambda>members r. case block_owner_for_resource members r of
      None \<Rightarrow> None | Some o' \<Rightarrow> if o' \<in> bd_id ` set (ld_blocks l) then None else Some o'"
  have none: "\<forall>x\<in>set (ld_track_sections l). ?g (lt_block_sections db) (ts_id x) = None"
    "\<forall>x\<in>set (ld_turnout_topologies l). ?g (lt_block_turnouts db) (tt_turnout_id x) = None"
    using assms(1) unfolding reject_omitted_block_resource_changes_def Let_def if_False or_else_None find_then_None
    by blast+
  have "i \<in> bd_id ` set (ld_blocks l)" if "(i, ts_id x) \<in> set (lt_block_sections db)" "x \<in> set (ld_track_sections l)" for i x
  proof -
    have "block_owner_for_resource (lt_block_sections db) (ts_id x) = Some i"
      using find_owner ok that(1) by (simp add: members_ok_def)
    then show ?thesis using bspec [OF none(1) that(2)] by (simp split: if_splits)
  qed
  moreover have "i \<in> bd_id ` set (ld_blocks l)"
    if "(i, tt_turnout_id x) \<in> set (lt_block_turnouts db)" "x \<in> set (ld_turnout_topologies l)" for i x
  proof -
    have "block_owner_for_resource (lt_block_turnouts db) (tt_turnout_id x) = Some i"
      using find_owner ok that(1) by (simp add: members_ok_def)
    then show ?thesis using bspec [OF none(2) that(2)] by (simp split: if_splits)
  qed
  ultimately show ?thesis unfolding owners_included_def by fast
qed

lemma distinct_fold_upsert: "distinct (map key ys) \<Longrightarrow> distinct (map key (fold (upsert key) xs ys))"
  by (induction xs arbitrary: ys) auto

lemma set_fold_upsert_id [simp]: "set (fold (upsert id) xs ys) = set ys \<union> set xs"
  by (induction xs arbitrary: ys) auto

lemma imported_track_eq:
  assumes ok: "topo_ok b" "members_ok b" and own: "owners_included (lf_layout f) b"
    and acc: "layout_accepted ((lf_layout f)\<lparr> ld_turnouts := ts \<rparr>)"
  defines "l \<equiv> lf_layout f"
  defines "b3 \<equiv> b\<lparr> lt_providers := fold (upsert op_id) (lf_providers f) (lt_providers b),
           lt_blocks := fold (upsert fst) (map (\<lambda>b. (bd_id b, bd_name b)) (ld_blocks l)) (lt_blocks b),
           lt_turnouts := fold (upsert t_id) (map stored_row ts) (lt_turnouts b) \<rparr>"
  shows "upsert_topology_definition l b3 = Inr (stored_layout l b3)"
    and "replace_block_memberships (ld_blocks l) (stored_layout l b3) = Inr (imported_track f ts b)"
    and "topo_ok (imported_track f ts b)" and "members_ok (imported_track f ts b)"
proof -
  let ?l = "l\<lparr> ld_turnouts := ts \<rparr>"
  have wf: "topology_wf ?l" "blocks_wf ?l" using acc by (simp_all add: layout_accepted_def l_def)
  have "layout_fits ?l (t_id ` set ts)" using topology_wf_fits [OF wf(1)] by simp
  moreover have keys: "t_id ` set ts \<subseteq> turnout_keys b3"
    by (simp add: b3_def set_fold_upsert image_image)
  ultimately have fits: "layout_fits l (turnout_keys b3)"
    using fits_cong [of l ?l] by (auto simp: layout_fits_def topology_fits_def)
  have "topo_ok b3" using ok(1) by (simp add: topo_ok_def b3_def)
  note topo = upsert_topology_definition_eq [OF this fits]
  show "upsert_topology_definition l b3 = Inr (stored_layout l b3)" by (rule topo(1))
  let ?s = "stored_layout l b3" and ?bs = "ld_blocks l"
  have claims: "distinct (concat (map bd_track_section_ids ?bs))" "distinct (concat (map bd_turnout_ids ?bs))"
    "set (concat (map bd_track_section_ids ?bs)) \<subseteq> ts_id ` set (ld_track_sections l)"
    "set (concat (map bd_turnout_ids ?bs)) \<subseteq> tt_turnout_id ` set (ld_turnout_topologies l)"
    using wf(2) by (auto simp: blocks_wf_def)
  have blocks: "block_keys ?s = block_keys b \<union> bd_id ` set ?bs"
    using set_fold_upsert [of fst "map (\<lambda>b. (bd_id b, bd_name b)) ?bs" "lt_blocks b"] by (simp add: b3_def image_image)
  have sections: "section_keys ?s = section_keys b \<union> ts_id ` set (ld_track_sections l)"
    by (simp add: b3_def set_fold_upsert)
  have topologies: "set (lt_topologies ?s) = set (lt_topologies b) \<union> tt_turnout_id ` set (ld_turnout_topologies l)"
    by (simp add: b3_def)
  have rows: "lt_block_sections ?s = lt_block_sections b" "lt_block_turnouts ?s = lt_block_turnouts b"
    by (simp_all add: b3_def)
  have eq: "imported_track f ts b = with_members ?bs ?s" by (simp add: imported_track_def l_def b3_def)
  show "replace_block_memberships ?bs ?s = Inr (imported_track f ts b)"
    unfolding eq
  proof (rule replace_block_memberships_eq)
    show "bd_id ` set ?bs \<subseteq> block_keys ?s" unfolding blocks by blast
    show "set (concat (map bd_track_section_ids ?bs)) \<subseteq> section_keys ?s" using claims(3) unfolding sections by blast
    show "set (concat (map bd_turnout_ids ?bs)) \<subseteq> set (lt_topologies ?s)" using claims(4) unfolding topologies by blast
    show "\<forall>(i, s)\<in>set (lt_block_sections ?s). s \<in> set (concat (map bd_track_section_ids ?bs)) \<longrightarrow> i \<in> bd_id ` set ?bs"
      unfolding rows using owners_includedD(1) [OF own] subsetD [OF claims(3)] by (auto simp only: l_def)
    show "\<forall>(i, t)\<in>set (lt_block_turnouts ?s). t \<in> set (concat (map bd_turnout_ids ?bs)) \<longrightarrow> i \<in> bd_id ` set ?bs"
      unfolding rows using owners_includedD(2) [OF own] subsetD [OF claims(4)] by (auto simp only: l_def)
  qed (rule claims)+
  show "topo_ok (imported_track f ts b)" using topo(2) by (simp add: topo_ok_def eq with_members_def)
  have fst_members: "fst ` set (section_members ?bs) \<subseteq> bd_id ` set ?bs" "fst ` set (turnout_members ?bs) \<subseteq> bd_id ` set ?bs"
    by (auto simp: section_members_def turnout_members_def)
  have snd_members: "snd ` set (section_members ?bs) = set (concat (map bd_track_section_ids ?bs))"
    "snd ` set (turnout_members ?bs) = set (concat (map bd_turnout_ids ?bs))"
    using arg_cong [OF map_snd_members(1), of set] arg_cong [OF map_snd_members(2), of set] by simp_all
  have apart: "s \<notin> set (concat (map bd_track_section_ids ?bs))"
    if "(i, s) \<in> set (lt_block_sections b)" "i \<notin> bd_id ` set ?bs" for i s
    using owners_includedD(1) [OF own] subsetD [OF claims(3)] that by (auto simp only: l_def)
  have apart': "t \<notin> set (concat (map bd_turnout_ids ?bs))"
    if "(i, t) \<in> set (lt_block_turnouts b)" "i \<notin> bd_id ` set ?bs" for i t
    using owners_includedD(2) [OF own] subsetD [OF claims(4)] that by (auto simp only: l_def)
  have d: "distinct (map snd (filter (\<lambda>m. fst m \<notin> bd_id ` set ?bs) (lt_block_sections b) @ section_members ?bs))"
    "distinct (map snd (filter (\<lambda>m. fst m \<notin> bd_id ` set ?bs) (lt_block_turnouts b) @ turnout_members ?bs))"
    using ok(2) claims(1,2) snd_members apart apart' unfolding map_append distinct_append map_snd_members
    by (auto simp: members_ok_def distinct_map_filter simp del: set_concat)
  have sub: "h ` set (filter P xs @ ys) \<subseteq> h ` set xs \<union> h ` set ys" for h :: "string \<times> string \<Rightarrow> string" and P xs ys
    by auto
  have old: "fst ` set (lt_block_sections b) \<subseteq> block_keys b" "snd ` set (lt_block_sections b) \<subseteq> section_keys b"
    "fst ` set (lt_block_turnouts b) \<subseteq> block_keys b" "snd ` set (lt_block_turnouts b) \<subseteq> set (lt_topologies b)"
    using ok(2) unfolding members_ok_def by blast+
  let ?ss = "filter (\<lambda>m. fst m \<notin> bd_id ` set ?bs) (lt_block_sections b) @ section_members ?bs"
  let ?ts = "filter (\<lambda>m. fst m \<notin> bd_id ` set ?bs) (lt_block_turnouts b) @ turnout_members ?bs"
  have "fst ` set ?ss \<subseteq> block_keys ?s" by (rule subset_trans [OF sub]) (use old(1) fst_members(1) in \<open>unfold blocks, blast\<close>)
  moreover have "fst ` set ?ts \<subseteq> block_keys ?s" by (rule subset_trans [OF sub]) (use old(3) fst_members(2) in \<open>unfold blocks, blast\<close>)
  moreover have "snd ` set ?ss \<subseteq> section_keys ?s"
    by (rule subset_trans [OF sub], unfold sections snd_members) (use old(2) claims(3) in blast)
  moreover have "snd ` set ?ts \<subseteq> set (lt_topologies ?s)"
    by (rule subset_trans [OF sub], unfold topologies snd_members) (use old(4) claims(4) in blast)
  moreover have "distinct (map fst (lt_blocks ?s))"
    using ok(2) distinct_fold_upsert [of fst "lt_blocks b"] by (simp add: members_ok_def b3_def)
  moreover have tables: "lt_blocks (imported_track f ts b) = lt_blocks ?s" "lt_sections (imported_track f ts b) = lt_sections ?s"
    "lt_topologies (imported_track f ts b) = lt_topologies ?s" "lt_block_sections (imported_track f ts b) = ?ss"
    "lt_block_turnouts (imported_track f ts b) = ?ts"
    by (simp_all add: eq with_members_def rows del: stored_layout_rest lt_topologies_stored)
  ultimately show "members_ok (imported_track f ts b)"
    using d unfolding members_ok_def tables by blast
qed

lemma emptied_ok: "topo_ok (emptied db)" "members_ok (emptied db)"
  by (simp_all add: topo_ok_def members_ok_def emptied_def)

lemma import_base_ok:
  "topo_ok db \<Longrightarrow> topo_ok (import_base replace db)" "members_ok db \<Longrightarrow> members_ok (import_base replace db)"
  by (simp_all add: import_base_def emptied_ok)

lemma drawing_statement: "replace_layout_presentation p db = Inr db' \<Longrightarrow> db' = drawn_tables (normalize_layout_presentation p) db"
proof -
  assume stored: "replace_layout_presentation p db = Inr db'"
  then have "presentation_wf (normalize_layout_presentation p) (layout_presentation_resources db)"
    using drawing_statement_accepts [of p db] by simp
  from drawing_statements [OF this] show ?thesis using stored
    by (simp add: replace_layout_presentation_def Let_def split: option.splits)
qed

text \<open>What a successful import has checked, and the tables it leaves.\<close>

lemma import_layout_Inr:
  assumes ok: "topo_ok db" "members_ok db" and run: "import_layout f replace False db = Some (Inr db')"
  obtains ts drawing where "normalize_all (ld_turnouts (lf_layout f)) = Inr ts"
    and "layout_accepted ((lf_layout f)\<lparr> ld_turnouts := ts \<rparr>)"
    and "validate_turnout_address_ownership ts = None"
    and "check_against_tables f ts replace db = Inr drawing"
    and "owners_included (lf_layout f) (import_base replace db)"
    and "db' = imported f ts drawing replace (import_base replace db)"
proof -
  let ?l = "lf_layout f"
  obtain ts g where ts: "normalize_all (ld_turnouts ?l) = Inr ts" and g: "build (?l\<lparr> ld_turnouts := ts \<rparr>) = Some (Inr g)"
    and own: "validate_turnout_address_ownership ts = None"
    and rest: "rbind (check_against_tables f ts replace db) (\<lambda>drawing. store_layout f ts drawing replace db) = Inr db'"
    using run by (auto simp: import_layout_def Let_def split: sum.splits option.splits if_splits)
  obtain drawing where check: "check_against_tables f ts replace db = Inr drawing"
    and store: "store_layout f ts drawing replace db = Inr db'" using rest by auto
  have acc: "layout_accepted (?l\<lparr> ld_turnouts := ts \<rparr>)" using g by (simp add: build_Inr)
  have inc: "owners_included ?l (import_base replace db)"
  proof (cases replace)
    case True
    then show ?thesis by (simp add: owners_included_def import_base_def emptied_def)
  next
    case False
    then have "reject_omitted_block_resource_changes ?l False db = None"
      using check by (auto simp: check_against_tables_def Let_def split: sum.splits option.splits)
    then show ?thesis using reject_omitted_None [OF _ ok(2)] False by (simp add: import_base_def)
  qed
  let ?b = "import_base replace db"
  note track = imported_track_eq [OF import_base_ok(1) [OF ok(1)] import_base_ok(2) [OF ok(2)] inc acc]
  have base: "(if replace then stored (clear_layout db) else Inr db) = Inr ?b"
    by (simp add: import_base_def clear_layout_eq stored_def)
  obtain db2 db3 db4 db5 db6 db7 db8 where steps:
      "each import_provider (lf_providers f) ?b = Inr db2"
      "each upsert_turnout ts (fold upsert_block (ld_blocks ?l) db2) = Inr db3"
      "upsert_topology_definition ?l db3 = Inr db4"
      "replace_block_memberships (ld_blocks ?l) db4 = Inr db5"
      "(if lf_presentation f \<noteq> None \<or> replace then stored (replace_layout_presentation drawing db5) else Inr db5) = Inr db6"
      "each import_feedback_mapping (lf_feedback_mappings f) db6 = Inr db7"
      "each import_sensor_mapping (lf_mappings f) db7 = Inr db8"
      "each replace_route_rows (ld_routes ?l) (fold upsert_route (ld_routes ?l) db8) = Inr db'"
    using store unfolding store_layout_def Let_def base rbind.simps by auto
  have db3: "db3 = ?b\<lparr> lt_providers := fold (upsert op_id) (lf_providers f) (lt_providers ?b),
           lt_blocks := fold (upsert fst) (map (\<lambda>b. (bd_id b, bd_name b)) (ld_blocks ?l)) (lt_blocks ?b),
           lt_turnouts := fold (upsert t_id) (map stored_row ts) (lt_turnouts ?b) \<rparr>"
    using each_upsert_turnout [OF steps(2)] each_import_provider [OF steps(1)] by (simp add: fold_upsert_block)
  have db5: "db5 = imported_track f ts ?b"
    using steps(3,4) track(1,2) unfolding db3 by simp
  have db6: "db6 = (if lf_presentation f \<noteq> None \<or> replace
      then drawn_tables (normalize_layout_presentation drawing) (imported_track f ts ?b) else imported_track f ts ?b)"
    using steps(5) drawing_statement unfolding db5 by (auto split: if_splits)
  have "db' = fold with_route_rows (ld_routes ?l) (fold upsert_route (ld_routes ?l) db8)"
    by (rule each_folds [OF replace_route_rows_Inr steps(8)])
  then have "db' = imported f ts drawing replace ?b"
    using each_import_feedback [OF steps(6)] each_import_mapping [OF steps(7)]
    unfolding imported_def Let_def db6 [symmetric] by (simp add: fold_upsert_route)
  then show ?thesis using that ts acc own check inc by blast
qed

subsection \<open>The tables after an import\<close>

lemma drawn_rest [simp]:
  "lt_turnouts (drawn_tables p db) = lt_turnouts db" "lt_nodes (drawn_tables p db) = lt_nodes db"
  "lt_sections (drawn_tables p db) = lt_sections db" "lt_topologies (drawn_tables p db) = lt_topologies db"
  "lt_ports (drawn_tables p db) = lt_ports db" "lt_positions (drawn_tables p db) = lt_positions db"
  "lt_connections (drawn_tables p db) = lt_connections db" "lt_blocks (drawn_tables p db) = lt_blocks db"
  "lt_block_sections (drawn_tables p db) = lt_block_sections db"
  "lt_block_turnouts (drawn_tables p db) = lt_block_turnouts db" "lt_routes (drawn_tables p db) = lt_routes db"
  "lt_route_blocks (drawn_tables p db) = lt_route_blocks db" "lt_route_turnouts (drawn_tables p db) = lt_route_turnouts db"
  "lt_route_conflicts (drawn_tables p db) = lt_route_conflicts db"
  "lt_providers (drawn_tables p db) = lt_providers db" "lt_mappings (drawn_tables p db) = lt_mappings db"
  by (simp_all add: drawn_tables_def)

lemma imported_track_tables [simp]:
  "lt_turnouts (imported_track f ts b) = fold (upsert t_id) (map stored_row ts) (lt_turnouts b)"
  "lt_nodes (imported_track f ts b) = fold (upsert tn_id) (ld_topology_nodes (lf_layout f)) (lt_nodes b)"
  "lt_sections (imported_track f ts b) = fold (upsert ts_id) (ld_track_sections (lf_layout f)) (lt_sections b)"
  "lt_blocks (imported_track f ts b) = fold (upsert fst) (map (\<lambda>b. (bd_id b, bd_name b)) (ld_blocks (lf_layout f))) (lt_blocks b)"
  "lt_routes (imported_track f ts b) = lt_routes b" "lt_providers (imported_track f ts b) = fold (upsert op_id) (lf_providers f) (lt_providers b)"
  "lt_mappings (imported_track f ts b) = lt_mappings b"
  "lt_route_blocks (imported_track f ts b) = lt_route_blocks b"
  "lt_route_turnouts (imported_track f ts b) = lt_route_turnouts b"
  "lt_route_conflicts (imported_track f ts b) = lt_route_conflicts b"
  by (simp_all add: imported_track_def with_members_def)

lemma imported_tables [simp]:
  "lt_turnouts (imported f ts dr rep b) = fold (upsert t_id) (map stored_row ts) (lt_turnouts b)"
  "lt_nodes (imported f ts dr rep b) = fold (upsert tn_id) (ld_topology_nodes (lf_layout f)) (lt_nodes b)"
  "lt_sections (imported f ts dr rep b) = fold (upsert ts_id) (ld_track_sections (lf_layout f)) (lt_sections b)"
  "lt_blocks (imported f ts dr rep b) = fold (upsert fst) (map (\<lambda>b. (bd_id b, bd_name b)) (ld_blocks (lf_layout f))) (lt_blocks b)"
  "lt_routes (imported f ts dr rep b) = fold (upsert row_route_id) (map route_row (ld_routes (lf_layout f))) (lt_routes b)"
  by (simp_all add: imported_def Let_def)

lemma imported_track_same:
  "lt_topologies (imported f ts dr rep b) = lt_topologies (imported_track f ts b)"
  "lt_ports (imported f ts dr rep b) = lt_ports (imported_track f ts b)"
  "lt_positions (imported f ts dr rep b) = lt_positions (imported_track f ts b)"
  "lt_connections (imported f ts dr rep b) = lt_connections (imported_track f ts b)"
  "lt_block_sections (imported f ts dr rep b) = lt_block_sections (imported_track f ts b)"
  "lt_block_turnouts (imported f ts dr rep b) = lt_block_turnouts (imported_track f ts b)"
  by (simp_all add: imported_def Let_def)

lemma topology_at_cong:
  "lt_ports db = lt_ports db' \<Longrightarrow> lt_positions db = lt_positions db' \<Longrightarrow> lt_connections db = lt_connections db' \<Longrightarrow>
     topology_at db = topology_at db'"
  by (simp add: fun_eq_iff topology_at_def ports_at_def positions_at_def connections_at_def)

lemma topology_at_imported:
  assumes "layout_accepted ((lf_layout f)\<lparr> ld_turnouts := ts \<rparr>)"
  shows "topology_at (imported f ts dr rep b) i =
    (case find (\<lambda>t. tt_turnout_id t = i) (ld_turnout_topologies (lf_layout f)) of Some t \<Rightarrow> t | None \<Rightarrow> topology_at b i)"
proof -
  let ?l = "lf_layout f"
  let ?b = "b\<lparr> lt_providers := fold (upsert op_id) (lf_providers f) (lt_providers b),
           lt_blocks := fold (upsert fst) (map (\<lambda>b. (bd_id b, bd_name b)) (ld_blocks ?l)) (lt_blocks b),
           lt_turnouts := fold (upsert t_id) (map stored_row ts) (lt_turnouts b) \<rparr>"
  have wf: "topology_wf (?l\<lparr> ld_turnouts := ts \<rparr>)" using assms by (simp add: layout_accepted_def)
  have fits: "layout_fits ?l (t_id ` set ts)"
    using topology_wf_fits [OF wf] fits_cong [of ?l "?l\<lparr> ld_turnouts := ts \<rparr>"] by simp
  have d: "distinct (map tt_turnout_id (ld_turnout_topologies ?l))" using wf by (simp add: topology_wf_def)
  have "topology_at (imported f ts dr rep b) = topology_at (imported_track f ts b)"
    by (rule topology_at_cong) (simp_all only: imported_track_same)
  also have "\<dots> = topology_at (stored_layout ?l ?b)"
    by (rule topology_at_cong) (simp_all add: imported_track_def with_members_def)
  finally have at: "topology_at (imported f ts dr rep b) = topology_at (stored_layout ?l ?b)" .
  have base: "topology_at ?b = topology_at b" by (rule topology_at_cong) simp_all
  show ?thesis
  proof (cases "find (\<lambda>t. tt_turnout_id t = i) (ld_turnout_topologies ?l)")
    case None
    then have "i \<notin> tt_turnout_id ` set (ld_turnout_topologies ?l)" by (auto simp: find_None_iff)
    then show ?thesis using None topology_at_stored_layout(2) [OF d fits, of i ?b] by (simp add: at base)
  next
    case (Some t)
    then have "t \<in> set (ld_turnout_topologies ?l)" "tt_turnout_id t = i" by (auto simp: find_Some_iff)
    then show ?thesis using Some topology_at_stored_layout(1) [OF d fits, of t ?b] by (auto simp: at)
  qed
qed

lemma rows_at_members:
  assumes "distinct (map bd_id bs)"
  shows "rows_at i (filter (\<lambda>m. fst m \<notin> bd_id ` set bs) rows @ section_members bs) =
      (case find (\<lambda>b. bd_id b = i) bs of Some b \<Rightarrow> bd_track_section_ids b | None \<Rightarrow> rows_at i rows)"
    and "rows_at i (filter (\<lambda>m. fst m \<notin> bd_id ` set bs) rows @ turnout_members bs) =
      (case find (\<lambda>b. bd_id b = i) bs of Some b \<Rightarrow> bd_turnout_ids b | None \<Rightarrow> rows_at i rows)"
proof -
  have fst_case: "(\<lambda>(r, _). r = i) = (\<lambda>m. fst m = i)" by auto
  have old: "rows_at i (filter (\<lambda>m. fst m \<notin> bd_id ` set bs) rows) = (if i \<in> bd_id ` set bs then [] else rows_at i rows)"
    unfolding rows_at_def fst_case by (induction rows) auto
  have none: "rows_at i (section_members bs) = [] \<and> rows_at i (turnout_members bs) = []" if "i \<notin> bd_id ` set bs"
    using that by (auto simp: rows_at_def filter_empty_conv section_members_def turnout_members_def)
  have some: "rows_at i (section_members bs) = bd_track_section_ids b \<and> rows_at i (turnout_members bs) = bd_turnout_ids b"
    if "b \<in> set bs" "bd_id b = i" for b
    using filter_members [OF assms that(1)] that(2) by (simp add: rows_at_def fst_case)
  have "rows_at i (filter (\<lambda>m. fst m \<notin> bd_id ` set bs) rows @ section_members bs) =
      (case find (\<lambda>b. bd_id b = i) bs of Some b \<Rightarrow> bd_track_section_ids b | None \<Rightarrow> rows_at i rows) \<and>
     rows_at i (filter (\<lambda>m. fst m \<notin> bd_id ` set bs) rows @ turnout_members bs) =
      (case find (\<lambda>b. bd_id b = i) bs of Some b \<Rightarrow> bd_turnout_ids b | None \<Rightarrow> rows_at i rows)"
  proof (cases "find (\<lambda>b. bd_id b = i) bs")
    case None
    then have i: "i \<notin> bd_id ` set bs" by (auto simp: find_None_iff)
    show ?thesis using None none [OF i] i by (simp add: old)
  next
    case (Some b)
    then have b: "b \<in> set bs" "bd_id b = i" by (auto simp: find_Some_iff)
    then have i: "i \<in> bd_id ` set bs" by blast
    show ?thesis using Some some [OF b] i by (simp add: old)
  qed
  then show "rows_at i (filter (\<lambda>m. fst m \<notin> bd_id ` set bs) rows @ section_members bs) =
      (case find (\<lambda>b. bd_id b = i) bs of Some b \<Rightarrow> bd_track_section_ids b | None \<Rightarrow> rows_at i rows)"
    and "rows_at i (filter (\<lambda>m. fst m \<notin> bd_id ` set bs) rows @ turnout_members bs) =
      (case find (\<lambda>b. bd_id b = i) bs of Some b \<Rightarrow> bd_turnout_ids b | None \<Rightarrow> rows_at i rows)" by blast+
qed

lemma imported_members:
  "lt_block_sections (imported f ts dr rep b) =
     filter (\<lambda>m. fst m \<notin> bd_id ` set (ld_blocks (lf_layout f))) (lt_block_sections b) @ section_members (ld_blocks (lf_layout f))"
  "lt_block_turnouts (imported f ts dr rep b) =
     filter (\<lambda>m. fst m \<notin> bd_id ` set (ld_blocks (lf_layout f))) (lt_block_turnouts b) @ turnout_members (ld_blocks (lf_layout f))"
  by (simp_all add: imported_track_same imported_track_def with_members_def)


end
