(* ===== verification/LayoutRoundtrip.thy ===== *)
theory LayoutRoundtrip
  imports LayoutImportFacts
begin

text \<open>
  What an import promises to its callers: no accessory address is shared by two turnouts
  afterwards and no turnout with a command under way has been changed; a dry run gives the
  verdict of the import; and an export after a replacing import returns the imported layout.
\<close>

subsection \<open>Addresses\<close>

definition addresses_exclusive :: "turnout list \<Rightarrow> bool" where
  "addresses_exclusive ts \<longleftrightarrow>
     (\<forall>t\<in>set ts. \<forall>u\<in>set ts. \<forall>e\<in>set (t_endpoints t). \<forall>e'\<in>set (t_endpoints u).
        ep_linear_address e = ep_linear_address e' \<longrightarrow> t_id t = t_id u)"

lemma claim_addresses_Inr:
  "claim_addresses claims m = Inr m' \<Longrightarrow> gm_wf m \<Longrightarrow>
     (\<forall>a i. map_of m a = Some i \<longrightarrow> map_of m' a = Some i) \<and> (\<forall>(a, i)\<in>set claims. map_of m' a = Some i)"
proof (induction claims m rule: claim_addresses.induct)
  case (2 a i claims owners)
  have step: "claim_addresses claims (gm_put a i owners) = Inr m'" "map_of owners a = None \<or> map_of owners a = Some i"
    using "2.prems" by (auto split: option.splits if_splits)
  have "(\<forall>b j. map_of (gm_put a i owners) b = Some j \<longrightarrow> map_of m' b = Some j) \<and> (\<forall>(b, j)\<in>set claims. map_of m' b = Some j)"
  proof (cases "map_of owners a")
    case None
    then show ?thesis using "2.IH" step(1) "2.prems" by simp
  next
    case (Some o')
    then show ?thesis using "2.IH" step "2.prems" by simp
  qed
  moreover have "map_of (gm_put a i owners) b = Some j" if "map_of owners b = Some j" for b j
    using step(2) "2.prems"(2) that by auto
  moreover have "map_of (gm_put a i owners) a = Some i" using "2.prems"(2) by simp
  ultimately show ?case by simp
qed simp

lemma claims_exclusive:
  assumes "claim_addresses claims [] = Inr m" and "set (address_claims ts) \<subseteq> set claims"
  shows "addresses_exclusive ts"
proof -
  have owner: "map_of m (ep_linear_address e) = Some (t_id t)" if "t \<in> set ts" "e \<in> set (t_endpoints t)" for t e
  proof -
    have "(ep_linear_address e, t_id t) \<in> set claims" using assms(2) that by (force simp: address_claims_def)
    then show ?thesis using claim_addresses_Inr [OF assms(1)] by auto
  qed
  show ?thesis unfolding addresses_exclusive_def
  proof (intro ballI impI)
    fix t u e e'
    assume "t \<in> set ts" "u \<in> set ts" "e \<in> set (t_endpoints t)" "e' \<in> set (t_endpoints u)"
      and "ep_linear_address e = ep_linear_address e'"
    then have "Some (t_id t) = Some (t_id u)" using owner [of t e] owner [of u e'] by simp
    then show "t_id t = t_id u" by simp
  qed
qed

lemma set_fold_upsert_rows:
  "distinct (map key ys) \<Longrightarrow>
     set (fold (upsert key) xs ys) \<subseteq> set xs \<union> {y \<in> set ys. key y \<notin> key ` set xs} \<and>
     {y \<in> set ys. key y \<notin> key ` set xs} \<subseteq> set (fold (upsert key) xs ys)"
proof (induction xs arbitrary: ys)
  case (Cons x xs)
  have "set (fold (upsert key) xs (upsert key x ys)) \<subseteq> set xs \<union> {y \<in> set (upsert key x ys). key y \<notin> key ` set xs} \<and>
      {y \<in> set (upsert key x ys). key y \<notin> key ` set xs} \<subseteq> set (fold (upsert key) xs (upsert key x ys))"
    by (rule Cons.IH) (use Cons.prems in simp)
  moreover have "set (upsert key x ys) = insert x {y \<in> set ys. key y \<noteq> key x}" by (rule set_upsert [OF Cons.prems])
  ultimately show ?case by auto
qed simp

lemma address_claims_rows: "address_claims (map stored_row ts) = address_claims ts"
  by (simp add: address_claims_def comp_def)

lemma address_claims_mono: "set ts \<subseteq> set us \<Longrightarrow> set (address_claims ts) \<subseteq> set (address_claims us)"
  by (auto simp: address_claims_def)

lemma address_claims_append: "address_claims (ts @ us) = address_claims ts @ address_claims us"
  by (simp add: address_claims_def)

text \<open>
  C18: After an import that succeeds, in tables where identifiers were unique, no accessory
  address belongs to two turnouts, imported or already there; and a turnout with a command
  pending has not been touched: it is still there, and a replacing import has not happened.
\<close>

theorem import_addresses_exclusive:
  assumes "topo_ok db" "members_ok db" "distinct (map t_id (lt_turnouts db))"
    and "import_layout f replace False db = Some (Inr db')"
  shows "addresses_exclusive (lt_turnouts db') \<and>
    (\<forall>t\<in>set (lt_turnouts db). t_pending t \<longrightarrow> \<not> replace \<and> t \<in> set (lt_turnouts db'))"
proof -
  obtain ts dr where own: "validate_turnout_address_ownership ts = None"
    and check: "check_against_tables f ts replace db = Inr dr"
    and db': "db' = imported f ts dr replace (import_base replace db)"
    using import_layout_Inr [OF assms(1,2,4)] by metis
  have keys: "t_id ` set (map stored_row ts) = t_id ` set ts" by (simp add: image_image)
  have "distinct (map t_id (lt_turnouts (import_base replace db)))"
    using assms(3) by (simp add: import_base_def emptied_def)
  from set_fold_upsert_rows [OF this, of "map stored_row ts", unfolded keys]
  have rows: "set (lt_turnouts db') \<subseteq> set (map stored_row ts) \<union>
      {t \<in> set (lt_turnouts (import_base replace db)). t_id t \<notin> t_id ` set ts}"
    "{t \<in> set (lt_turnouts (import_base replace db)). t_id t \<notin> t_id ` set ts} \<subseteq> set (lt_turnouts db')"
    by (simp_all add: db')
  have pending: "reject_pending_turnout_configuration ts replace db = None"
    and existing: "\<not> replace \<Longrightarrow> reject_existing_turnout_address_conflicts ts db = None"
    using check by (auto simp: check_against_tables_def Let_def split: sum.splits option.splits)
  have "addresses_exclusive (lt_turnouts db')"
  proof (cases replace)
    case True
    obtain m where m: "claim_addresses (address_claims ts) [] = Inr m"
      using own by (auto simp: validate_turnout_address_ownership_def split: sum.splits)
    have "set (lt_turnouts db') \<subseteq> set (map stored_row ts)" using rows(1) True by (simp add: import_base_def emptied_def)
    then have "set (address_claims (lt_turnouts db')) \<subseteq> set (address_claims ts)"
      by (metis address_claims_mono address_claims_rows)
    then show ?thesis by (rule claims_exclusive [OF m])
  next
    case False
    let ?kept = "filter (\<lambda>t. t_id t \<notin> t_id ` set ts) (lt_turnouts db)"
    obtain m where m: "claim_addresses (sort (address_claims ?kept) @ address_claims ts) [] = Inr m"
      using existing [OF False] by (auto simp: reject_existing_turnout_address_conflicts_def split: sum.splits)
    have "set (lt_turnouts db') \<subseteq> set (?kept @ map stored_row ts)" using rows(1) False by (auto simp: import_base_def)
    then have "set (address_claims (lt_turnouts db')) \<subseteq> set (address_claims (?kept @ map stored_row ts))"
      by (rule address_claims_mono)
    also have "\<dots> = set (sort (address_claims ?kept) @ address_claims ts)"
      by (simp add: address_claims_append address_claims_rows)
    finally show ?thesis by (rule claims_exclusive [OF m])
  qed
  moreover have "\<not> replace \<and> t \<in> set (lt_turnouts db')" if t: "t \<in> set (lt_turnouts db)" "t_pending t" for t
  proof -
    have "\<not> (replace \<or> t_id t \<in> t_id ` set ts)"
      using pending t by (auto simp: reject_pending_turnout_configuration_def find_None_iff)
    then show ?thesis using rows(2) t(1) by (auto simp: import_base_def)
  qed
  ultimately show ?thesis by blast
qed

subsection \<open>Dry runs\<close>

lemma rbind_Inl: "rbind r f = Inl e \<longleftrightarrow> r = Inl e \<or> (\<exists>x. r = Inr x \<and> f x = Inl e)"
  by (cases r) auto

lemma stored_not_dry [simp]: "stored r \<noteq> Inl DryRunCompleted"
  by (cases r) (auto simp: stored_def)

lemma each_not_dry: "(\<And>x s. f x s \<noteq> Inl DryRunCompleted) \<Longrightarrow> each f xs s \<noteq> Inl DryRunCompleted"
  by (induction xs arbitrary: s) (auto simp: rbind_Inl)

lemma import_provider_not_dry [simp]: "import_provider p db \<noteq> Inl DryRunCompleted"
  by (simp add: import_provider_def split: option.splits)

lemma import_mapping_not_dry [simp]: "import_sensor_mapping m db \<noteq> Inl DryRunCompleted"
  by (simp add: import_sensor_mapping_def split: option.splits)

lemma store_layout_not_dry: "store_layout f ts dr replace db \<noteq> Inl DryRunCompleted"
  unfolding store_layout_def Let_def by (simp add: rbind_Inl each_not_dry)

lemma claim_addresses_Inl: "claim_addresses claims m = Inl e \<Longrightarrow> e \<noteq> DryRunCompleted"
  by (induction claims m rule: claim_addresses.induct) (auto split: option.splits if_splits)

lemma check_not_dry: "check_against_tables f ts replace db \<noteq> Inl DryRunCompleted"
proof
  assume dry: "check_against_tables f ts replace db = Inl DryRunCompleted"
  have or_Some: "or_else a b = Some e \<Longrightarrow> a = Some e \<or> b = Some e" for a b :: "import_error option" and e
    by (cases a) auto
  from dry show False
    by (auto simp: check_against_tables_def Let_def reject_pending_turnout_configuration_def
        reject_existing_turnout_address_conflicts_def split: sum.splits option.splits if_splits
        dest!: or_Some claim_addresses_Inl)
qed

lemma normalize_all_not_dry: "normalize_all ts \<noteq> Inl DryRunCompleted"
  by (induction ts) (auto simp: rbind_Inl split: sum.splits)

lemma route_check_returns:
  assumes "build l = Some (Inr g)"
  shows "\<exists>issues. validate_route_definitions g rs ts = Some issues"
  using validate_routes_sound [OF assms, of "turnouts_by_id ts" "sort_key rd_id rs" "[]" "[]"]
  by (auto simp: validate_route_definitions_def)

text \<open>
  A dry run always returns and finds a problem exactly when the import would fail, the same
  one; the import changes the tables only when it finds none.
\<close>

theorem dry_run_verdict:
  "\<exists>r. import_layout_commit f replace db = Some r \<and> validate_layout_import f replace db = Some (snd r) \<and>
     (snd r = None \<or> fst r = db)"
proof -
  let ?l = "lf_layout f"
  show ?thesis
  proof (cases "normalize_all (ld_turnouts ?l)")
    case (Inl e)
    then have "e \<noteq> DryRunCompleted" using normalize_all_not_dry by blast
    then show ?thesis using Inl by (simp add: import_layout_commit_def validate_layout_import_def import_layout_def)
  next
    case (Inr ts)
    note ts = Inr
    show ?thesis
    proof (cases "layout_accepted (?l\<lparr> ld_turnouts := ts \<rparr>)")
      case False
      then obtain e where "build (?l\<lparr> ld_turnouts := ts \<rparr>) = Some (Inl e)"
        using build_cases [of "?l\<lparr> ld_turnouts := ts \<rparr>"] by auto
      then show ?thesis using ts by (simp add: import_layout_commit_def validate_layout_import_def import_layout_def)
    next
      case True
      then obtain g where g: "build (?l\<lparr> ld_turnouts := ts \<rparr>) = Some (Inr g)" by (simp add: build_Inr)
      obtain issues where issues: "validate_route_definitions g (ld_routes ?l) ts = Some issues"
        using route_check_returns [OF g] by blast
      show ?thesis
      proof (cases "route_validation_errors issues \<noteq> [] \<or> validate_turnout_address_ownership ts \<noteq> None")
        case True
        then show ?thesis using ts g issues claim_addresses_Inl
          by (auto simp: import_layout_commit_def validate_layout_import_def import_layout_def
              validate_turnout_address_ownership_def split: sum.splits)
      next
        case False
        let ?r = "rbind (check_against_tables f ts replace db) (\<lambda>drawing. store_layout f ts drawing replace db)"
        have imp: "import_layout f replace dry db = Some (rbind ?r (\<lambda>db'. if dry then Inl DryRunCompleted else Inr db'))" for dry
          using False ts g issues
          by (simp add: import_layout_def) (cases "check_against_tables f ts replace db"; simp)
        have "?r \<noteq> Inl DryRunCompleted"
          by (simp add: rbind_Inl check_not_dry store_layout_not_dry)
        then show ?thesis unfolding import_layout_commit_def validate_layout_import_def imp
          by (cases ?r) auto
      qed
    qed
  qed
qed

subsection \<open>Export after import\<close>

lemma insort_key_map: "insort_key f (h x) (map h xs) = map h (insort_key (\<lambda>y. f (h y)) x xs)"
  by (induction xs) auto

lemma sort_key_map: "sort_key f (map h xs) = map h (sort_key (\<lambda>y. f (h y)) xs)"
  by (induction xs) (auto simp: insort_key_map)

lemma sort_key_unique:
  assumes "set xs = set ys" "distinct (map f xs)" "distinct (map f ys)"
  shows "sort_key f xs = sort_key f ys"
proof -
  have "mset xs = mset ys"
    using assms set_eq_iff_mset_eq_distinct [of xs ys] by (simp add: distinct_map)
  then have "sort_key f (sort_key f xs) = sort_key f ys"
    using assms by (intro sort_key_inj_key_eq) (simp_all add: distinct_map)
  then show ?thesis by (simp add: sorted_rows)
qed

lemma load_stored_row:
  assumes "normalize_turnout u = Inr t"
  shows "load_turnout (stored_row t) = Inr t"
proof -
  obtain x where t: "t = with_defaults x" and ok: "validate_turnout t = None"
    using assms by (auto simp: normalize_turnout_def Let_def split: option.splits)
  have stable: "with_defaults t = t" by (simp add: t)
  have "t_endpoints t \<noteq> []" using ok by (auto simp: validate_turnout_def validate_turnout_problem_def split: if_splits)
  moreover have "with_defaults (stored_row t) = with_defaults t"
    
    by (rule turnout.equality) (auto simp: with_defaults_def stored_row_def intro: populate_legacy_cong)
  ultimately show ?thesis using ok by (simp add: load_turnout_def normalize_turnout_def Let_def stable)
qed

lemma normalize_all_loads: "normalize_all us = Inr ts \<Longrightarrow> t \<in> set ts \<Longrightarrow> load_turnout (stored_row t) = Inr t"
  by (induction us arbitrary: ts) (auto split: sum.splits dest: load_stored_row)

lemma load_all_rows: "(\<And>t. t \<in> set ts \<Longrightarrow> load_turnout (f t) = Inr t) \<Longrightarrow> load_all (map f ts) = Inr ts"
  by (induction ts) auto

lemma fold_put_self: "gm_wf m \<Longrightarrow> fold (\<lambda>(k, v). gm_put k v) m [] = m"
proof -
  have "fold (\<lambda>(k, v). gm_put k v) m acc = acc @ m"
    if "gm_wf m" "\<forall>k\<in>fst ` set acc. \<forall>k'\<in>fst ` set m. k < k'" for acc
    using that
  proof (induction m arbitrary: acc)
    case (Cons kv m)
    obtain k v where kv: "kv = (k, v)" by (cases kv)
    have "gm_put k v acc = acc @ [(k, v)]" if "\<forall>x\<in>fst ` set acc. x < k" for acc
      using that by (induction acc) auto
    then have "gm_put k v acc = acc @ [(k, v)]" using Cons.prems by (simp add: kv)
    then show ?case using Cons.IH [of "acc @ [(k, v)]"] Cons.prems by (auto simp: kv)
  qed simp
  from this [of "[]"] show "gm_wf m \<Longrightarrow> fold (\<lambda>(k, v). gm_put k v) m [] = m" by simp
qed

lemma requirements_rows_at:
  "route_turnout_requirements i db = fold (\<lambda>(k, v). gm_put k v) (rows_at i (rdb_turnouts db)) []"
proof -
  have "fold (\<lambda>(_, t, st). gm_put t st) rows m = fold (\<lambda>(k, v). gm_put k v) (map snd rows) m"
    for rows :: "(string \<times> string \<times> string) list" and m
    by (induction rows arbitrary: m) auto
  then show ?thesis by (simp add: route_turnout_requirements_def rows_at_def)
qed

lemma covered_providers:
  "\<forall>m\<in>set fb. fm_provider m \<in> op_id ` set ps \<Longrightarrow> fold add_default fb ps = ps"
  by (induction fb) (auto simp: add_default_def)

lemma add_feedback_keys:
  "mapping_key ` set (add_feedback m rows) = insert (fm_provider m, int_text (fm_address m)) (mapping_key ` set rows) \<and>
   (distinct (map mapping_key rows) \<longrightarrow> distinct (map mapping_key (add_feedback m rows)))"
proof (cases "find (\<lambda>r. mapping_key r = (fm_provider m, int_text (fm_address m))) rows")
  case None
  then have "(fm_provider m, int_text (fm_address m)) \<notin> mapping_key ` set rows" by (auto simp: find_None_iff)
  then show ?thesis using None by (auto simp: add_feedback_def Let_def mapping_key_def)
next
  case (Some old)
  then have "mapping_key (old\<lparr> om_block_id := fm_block_id m \<rparr>) = (fm_provider m, int_text (fm_address m))"
    by (auto simp: find_Some_iff mapping_key_def)
  then show ?thesis using Some distinct_upsert [of mapping_key rows "old\<lparr> om_block_id := fm_block_id m \<rparr>"]
    by (simp add: add_feedback_def Let_def)
qed

lemma fold_add_feedback_keys:
  "mapping_key ` set (fold add_feedback fb rows) = mapping_key ` set rows \<union> (\<lambda>m. (fm_provider m, int_text (fm_address m))) ` set fb \<and>
   (distinct (map mapping_key rows) \<longrightarrow> distinct (map mapping_key (fold add_feedback fb rows)))"
  by (induction fb arbitrary: rows) (use add_feedback_keys in auto)

lemma fold_upsert_contains:
  "distinct (map key ys) \<Longrightarrow> distinct (map key xs) \<Longrightarrow> set xs \<subseteq> set (fold (upsert key) xs ys)"
proof (induction xs arbitrary: ys)
  case (Cons x xs)
  have ok: "distinct (map key (upsert key x ys))" using Cons.prems(1) by simp
  have "x \<in> set (upsert key x ys)" by (simp add: set_upsert [OF Cons.prems(1)])
  then have "x \<in> set (fold (upsert key) xs (upsert key x ys))"
    using set_fold_upsert_rows [OF ok, of xs] Cons.prems(2) by auto
  then show ?case using Cons.IH [OF ok] Cons.prems(2) by simp
qed simp

lemma covered_mappings:
  assumes "distinct (map mapping_key ms)"
    and "\<forall>m\<in>set fb. (fm_provider m, int_text (fm_address m)) \<in> mapping_key ` set ms"
  shows "sort_key mapping_key (fold (upsert mapping_key) ms (fold add_feedback fb [])) = sort_key mapping_key ms"
proof (rule sort_key_unique)
  let ?old = "fold add_feedback fb []"
  have old: "distinct (map mapping_key ?old)" "mapping_key ` set ?old \<subseteq> mapping_key ` set ms"
    using fold_add_feedback_keys [of fb "[]"] assms(2) by auto
  show "set (fold (upsert mapping_key) ms ?old) = set ms"
    using set_fold_upsert_rows [OF old(1), of ms] fold_upsert_contains [OF old(1) assms(1)] old(2) by auto
  show "distinct (map mapping_key (fold (upsert mapping_key) ms ?old))"
    by (rule distinct_fold_upsert [OF old(1)])
qed (rule assms(1))

definition canonical_route :: "route_definition \<Rightarrow> route_definition" where
  "canonical_route r =
     r\<lparr> rd_block_ids := sort (rd_block_ids r), rd_conflict_route_ids := sort (rd_conflict_route_ids r) \<rparr>"

text \<open>The file that an export of the imported tables gives.\<close>

definition canonical_file :: "layout_file \<Rightarrow> turnout list \<Rightarrow> layout_file" where
  "canonical_file f ts =
     (let l = lf_layout f; drawing = (case lf_presentation f of None \<Rightarrow> empty_layout_presentation | Some p \<Rightarrow> p)
      in \<lparr> lf_layout = (topology_of l)\<lparr>
             ld_blocks := map canonical_block (sort_key bd_id (ld_blocks l)),
             ld_turnouts := sort_key (\<lambda>t. (t_name t, t_id t)) ts,
             ld_routes := map canonical_route (sort_key (\<lambda>r. (rd_name r, rd_id r)) (ld_routes l)) \<rparr>,
           lf_presentation = Some (sorted_drawing (normalize_layout_presentation drawing)),
           lf_feedback_mappings = List.map_filter feedback_of (sort_key mapping_key (lf_mappings f)),
           lf_providers = sort_key op_id (lf_providers f),
           lf_mappings = sort_key mapping_key (lf_mappings f) \<rparr>)"

text \<open>
  A file that names nothing twice, and whose feedback mappings are among its sensor mappings.
\<close>

definition file_ok :: "layout_file \<Rightarrow> bool" where
  "file_ok f \<longleftrightarrow>
     distinct (map t_id (ld_turnouts (lf_layout f))) \<and> distinct (map rd_id (ld_routes (lf_layout f))) \<and>
     (\<forall>r\<in>set (ld_routes (lf_layout f)). gm_wf (rd_turnout_states r)) \<and>
     distinct (map op_id (lf_providers f)) \<and> distinct (map mapping_key (lf_mappings f)) \<and>
     (\<forall>m\<in>set (lf_feedback_mappings f). fm_provider m \<in> op_id ` set (lf_providers f) \<and>
        (fm_provider m, int_text (fm_address m)) \<in> mapping_key ` set (lf_mappings f))"

lemma normalize_all_ids: "normalize_all us = Inr ts \<Longrightarrow> map t_id ts = map t_id us"
proof (induction us arbitrary: ts)
  case (Cons u us)
  then obtain t rest where t: "normalize_turnout u = Inr t" "normalize_all us = Inr rest" "ts = t # rest"
    by (auto split: sum.splits)
  then have "load_turnout u = Inr t" by (simp add: load_turnout_def)
  then have "map t_id [t] = map t_id [u]" by (intro load_all_ids) simp
  then show ?case using Cons.IH [OF t(2)] t(3) by simp
qed simp

lemma upsert_from_empty: "distinct (map key xs) \<Longrightarrow> fold (upsert key) xs [] = xs"
  using fold_upsert_fresh [of key xs "[]"] by simp

lemma find_by_key: "distinct (map key xs) \<Longrightarrow> x \<in> set xs \<Longrightarrow> find (\<lambda>y. key y = key x) xs = Some x"
  by (induction xs) (auto simp: image_iff)

lemma emptied_simps [simp]:
  "lt_turnouts (emptied db) = []" "lt_nodes (emptied db) = []" "lt_sections (emptied db) = []"
  "lt_topologies (emptied db) = []" "lt_blocks (emptied db) = []" "lt_block_sections (emptied db) = []"
  "lt_block_turnouts (emptied db) = []" "lt_routes (emptied db) = []" "lt_providers (emptied db) = []"
  "lt_mappings (emptied db) = []"
  by (simp_all add: emptied_def)

lemma exported_blocks:
  assumes ok: "members_ok (imported f ts dr True (emptied db))"
    and wf: "distinct (map bd_id (ld_blocks (lf_layout f)))"
  shows "list_block_definitions (imported f ts dr True (emptied db)) =
    Some (map canonical_block (sort_key bd_id (ld_blocks (lf_layout f))))"
proof -
  let ?bs = "ld_blocks (lf_layout f)" and ?db = "imported f ts dr True (emptied db)"
  have rows: "lt_blocks ?db = map (\<lambda>b. (bd_id b, bd_name b)) ?bs"
    using upsert_from_empty [of fst "map (\<lambda>b. (bd_id b, bd_name b)) ?bs"] wf by (simp add: comp_def)
  have fst_case: "(\<lambda>m. fst m = i) = (\<lambda>(r, _). r = i)" for i :: string by auto
  have "load_block_resources ?db (bd_id b, bd_name b) = canonical_block b" if b: "b \<in> set ?bs" for b
    using rows_at_members [OF wf, of "bd_id b" "[]"] find_by_key [OF wf b]
    by (simp add: load_block_resources_def imported_members canonical_block_def rows_at_def fst_case)
  then show ?thesis
    unfolding list_block_definitions_join [OF ok] rows sort_key_map by simp
qed

lemma exported_topology:
  assumes ok: "topo_ok (imported f ts dr True (emptied db))" and acc: "layout_accepted ((lf_layout f)\<lparr> ld_turnouts := ts \<rparr>)"
  shows "get_topology_definition (imported f ts dr True (emptied db)) = Inr (topology_of (lf_layout f))"
proof -
  let ?l = "lf_layout f" and ?db = "imported f ts dr True (emptied db)"
  have d: "distinct (map tn_id (ld_topology_nodes ?l))" "distinct (map ts_id (ld_track_sections ?l))"
    "distinct (map tt_turnout_id (ld_turnout_topologies ?l))"
    using acc by (simp_all add: layout_accepted_def topology_wf_def sections_wf_def)
  have ids: "lt_topologies ?db = map tt_turnout_id (ld_turnout_topologies ?l)"
    using upsert_from_empty [of id "map tt_turnout_id (ld_turnout_topologies ?l)"] d(3)
    by (simp add: imported_track_same imported_track_def with_members_def)
  have "map (topology_at ?db) (sort (map tt_turnout_id (ld_turnout_topologies ?l))) = sort_key tt_turnout_id (ld_turnout_topologies ?l)"
    by (rule sort_key_join) (simp add: topology_at_imported [OF acc] find_by_key [OF d(3)])
  then have "list_turnout_topologies ?db = Inr (sort_key tt_turnout_id (ld_turnout_topologies ?l))"
    using list_turnout_topologies_join [OF ok] by (simp add: ids)
  then show ?thesis
    using upsert_from_empty [OF d(1)] upsert_from_empty [OF d(2)]
    by (simp add: get_topology_definition_def topology_of_def list_topology_nodes_def list_track_sections_def)
qed

lemma exported_routes:
  assumes d: "distinct (map rd_id (ld_routes (lf_layout f)))"
    and wf: "\<forall>r\<in>set (ld_routes (lf_layout f)). gm_wf (rd_turnout_states r)"
  shows "List.map_filter (export_route (imported f ts dr rep (emptied db))) (list_routes (routes_of (imported f ts dr rep (emptied db)))) =
    map canonical_route (sort_key (\<lambda>r. (rd_name r, rd_id r)) (ld_routes (lf_layout f)))"
proof -
  let ?rs = "ld_routes (lf_layout f)" and ?db = "imported f ts dr rep (emptied db)"
  have key: "map row_route_id (map route_row ?rs) = map rd_id ?rs" by (simp add: route_row_def)
  have rows: "lt_routes ?db = map route_row ?rs"
    using upsert_from_empty [of row_route_id "map route_row ?rs"] d unfolding key by simp
  have "map fst (map route_row ?rs) = map (\<lambda>r. fst (route_row r)) ?rs" by simp
  then have listed: "list_routes (routes_of ?db) = map (\<lambda>r. fst (route_row r)) (sort_key (\<lambda>r. (rd_name r, rd_id r)) ?rs)"
    unfolding list_routes_def routes_of_def rows by (simp add: sort_key_map route_row_def)
  have one: "export_route ?db (fst (route_row r)) = Some (canonical_route r)" if r: "r \<in> set ?rs" for r
  proof -
    obtain b where b: "lt_route_blocks ?db = lt_route_blocks (fold with_route_rows ?rs b)"
      "lt_route_turnouts ?db = lt_route_turnouts (fold with_route_rows ?rs b)"
      "lt_route_conflicts ?db = lt_route_conflicts (fold with_route_rows ?rs b)"
      unfolding imported_def Let_def by blast
    note at = rows_after_routes [OF d r, of b]
    have "find (\<lambda>row. row_route_id row = row_route_id (route_row r)) (map route_row ?rs) = Some (route_row r)"
      by (rule find_by_key) (use d r in \<open>simp_all add: key del: map_map\<close>)
    moreover have "(\<lambda>(row, _). ro_id row = rd_id r) = (\<lambda>row. row_route_id row = row_route_id (route_row r))"
      by (auto simp: route_row_def)
    ultimately have row: "find (\<lambda>(row, _). ro_id row = rd_id r) (lt_routes ?db) = Some (route_row r)"
      unfolding rows by simp
    have reqs: "route_turnout_requirements (rd_id r) (routes_of ?db) = rd_turnout_states r"
      using at wf r b by (simp add: requirements_rows_at routes_of_def fold_put_self)
    show ?thesis
      using row reqs at b by (simp add: export_route_def route_row_def rows_at_def canonical_route_def)
  qed
  show ?thesis unfolding listed
    by (simp add: List.map_filter_def comp_def one cong: filter_cong map_cong)
qed

lemma exported_drawing:
  "read_layout_presentation (imported f ts dr True b) = sorted_drawing (normalize_layout_presentation dr)"
  by (simp add: read_layout_presentation_def imported_def Let_def drawn_tables_def sorted_drawing_def empty_layout_presentation_def)


end
