(* ===== verification/LayoutExamples.thy ===== *)
theory LayoutExamples
  imports LayoutRoundtrip
begin

text \<open>
  The properties of the layout tables at work on the small layout of the track graph: a file
  with a drawing, a route and a sensor, imported into empty tables and replaced there. The last
  result is a file that an export and a replacing import do not preserve.
\<close>

definition bare_tables :: layout_tables where
  "bare_tables =
     \<lparr> lt_turnouts = [], lt_nodes = [], lt_sections = [], lt_topologies = [], lt_ports = [], lt_positions = [],
       lt_connections = [], lt_blocks = [], lt_block_sections = [], lt_block_turnouts = [], lt_drawing = None,
       lt_node_positions = [], lt_track_paths = [], lt_turnout_positions = [], lt_block_styles = [],
       lt_routes = [], lt_route_blocks = [], lt_route_turnouts = [], lt_route_conflicts = [],
       lt_providers = [], lt_mappings = [] \<rparr>"

definition example_drawing :: layout_presentation where
  "example_drawing =
     empty_layout_presentation\<lparr>
       lp_nodes := [\<lparr> np_node_id = ''b'', np_x = Finite 40, np_y = Finite 0 \<rparr>,
                    \<lparr> np_node_id = ''a'', np_x = Finite 0, np_y = Finite 0 \<rparr>],
       lp_track_sections := [\<lparr> pa_track_section_id = ''s1'', pa_segments =
         [\<lparr> sg_type = ''line'', sg_control1 = None, sg_control2 = None,
            sg_to = Some \<lparr> pt_x = Finite 40, pt_y = Finite 0 \<rparr> \<rparr>] \<rparr>],
       lp_blocks := [\<lparr> bs_block_id = ''b1'', bs_color = ''#33AADD'', bs_opacity = Finite (3 / 10) \<rparr>] \<rparr>"

definition example_file :: layout_file where
  "example_file =
     \<lparr> lf_layout = example_layout\<lparr> ld_routes := [example_route] \<rparr>, lf_presentation = Some example_drawing,
       lf_feedback_mappings = [\<lparr> fm_provider = ''rbus'', fm_address = 7, fm_block_id = ''b1'' \<rparr>],
       lf_providers = [default_provider ''rbus''],
       lf_mappings = [\<lparr> om_provider_id = ''rbus'', om_sensor_id = ''7'', om_block_id = ''b1'',
                        om_required = Some True, om_priority = None \<rparr>] \<rparr>"

definition yard_tables :: layout_tables where
  "yard_tables = bare_tables\<lparr> lt_turnouts := [new_simple_turnout ''t1'' ''T'' 5 ''straight'' ''straight''],
     lt_blocks := [(''b2'', ''Spare'')] \<rparr>"

definition padded_tables :: layout_tables where
  "padded_tables = bare_tables\<lparr> lt_blocks := [(''b'', ''B'')], lt_providers := [default_provider ''rbus''],
     lt_mappings := [\<lparr> om_provider_id = ''rbus'', om_sensor_id = ''05'', om_block_id = ''b'',
                       om_required = None, om_priority = None \<rparr>] \<rparr>"

definition padded_file :: layout_file where
  "padded_file =
     \<lparr> lf_layout = \<lparr> ld_blocks = [\<lparr> bd_id = ''b'', bd_name = ''B'', bd_track_section_ids = [], bd_turnout_ids = [] \<rparr>],
         ld_turnouts = [], ld_routes = [], ld_topology_nodes = [], ld_track_sections = [], ld_turnout_topologies = [] \<rparr>,
       lf_presentation = Some empty_layout_presentation,
       lf_feedback_mappings = [\<lparr> fm_provider = ''rbus'', fm_address = 5, fm_block_id = ''b'' \<rparr>],
       lf_providers = [default_provider ''rbus''], lf_mappings = lt_mappings padded_tables \<rparr>"

text \<open>The evaluations, all together since most of their time goes into setting them up.\<close>

lemma example_runs:
  "(case import_layout example_file True False bare_tables of Some (Inr _) \<Rightarrow> True | _ \<Rightarrow> False) \<and>
   file_ok example_file \<and>
   (case replace_topology_definition example_layout yard_tables of Some (Inr _) \<Rightarrow> True | _ \<Rightarrow> False) \<and>
   (case import_layout padded_file True False padded_tables of
      Some (Inr db') \<Rightarrow> map om_sensor_id (list_occupancy_sensor_mappings (occupancy_of padded_tables)) = [''05''] \<and>
        map om_sensor_id (list_occupancy_sensor_mappings (occupancy_of db')) = [''05'', ''5'']
    | _ \<Rightarrow> False)"
  by code_simp

lemma bare_ok: "topo_ok bare_tables" "members_ok bare_tables" "distinct (map t_id (lt_turnouts bare_tables))"
  by (simp_all add: topo_ok_def members_ok_def bare_tables_def)

lemma example_imports: "\<exists>db'. import_layout example_file True False bare_tables = Some (Inr db')"
  using example_runs by (auto split: option.splits sum.splits)

lemma example_file_ok: "file_ok example_file"
  using example_runs by blast


theorem import_addresses_exclusive_witness:
  "\<exists>db'. import_layout example_file True False bare_tables = Some (Inr db') \<and> addresses_exclusive (lt_turnouts db')"
  using example_imports import_addresses_exclusive [OF bare_ok] by blast


subsection \<open>Replacing a topology\<close>

theorem replace_topology_roundtrip_witness:
  "\<exists>db'. replace_topology_definition example_layout yard_tables = Some (Inr db') \<and>
     get_topology_definition db' = Inr (topology_of example_layout) \<and>
     list_block_definitions db' = Some [\<lparr> bd_id = ''b2'', bd_name = ''Spare'', bd_track_section_ids = [], bd_turnout_ids = [] \<rparr>]"
proof -
  obtain db' where run: "replace_topology_definition example_layout yard_tables = Some (Inr db')"
    using example_runs by (auto split: option.splits sum.splits)
  have "members_ok yard_tables" by (simp add: members_ok_def yard_tables_def bare_tables_def)
  moreover have "list_block_definitions yard_tables =
      Some [\<lparr> bd_id = ''b2'', bd_name = ''Spare'', bd_track_section_ids = [], bd_turnout_ids = [] \<rparr>]"
    by (simp add: list_block_definitions_def yard_tables_def bare_tables_def)
  ultimately show ?thesis using replace_topology_roundtrip [of yard_tables example_layout] run by auto
qed

subsection \<open>A sensor that an export does not preserve\<close>

text \<open>
  A sensor named \<^verbatim>\<open>05\<close> is exported as the sensor mapping it is and as a feedback mapping
  with address 5, and the import of both adds a second sensor named \<^verbatim>\<open>5\<close>.
\<close>

lemma padded_export: "export_layout padded_tables = Some (Inr padded_file)"
proof -
  have "atoi ''05'' = Some 5" by (simp add: atoi_def is_digit_def digits_value_def)
  then have "list_feedback_mappings padded_tables = lf_feedback_mappings padded_file"
    by (simp add: list_feedback_mappings_def list_occupancy_sensor_mappings_def occupancy_of_def padded_tables_def padded_file_def
        bare_tables_def feedback_of_def List.map_filter_def)
  then show ?thesis
    by (simp add: export_layout_def padded_file_def padded_tables_def bare_tables_def list_block_definitions_def
        list_turnouts_def get_topology_definition_def list_turnout_topologies_def list_topology_nodes_def list_track_sections_def
        stored_def list_routes_def routes_of_def List.map_filter_def read_layout_presentation_def empty_layout_presentation_def
        occupancy_of_def list_occupancy_providers_def list_occupancy_sensor_mappings_def)
qed

theorem export_import_adds_sensor:
  "\<exists>f db'. export_layout padded_tables = Some (Inr f) \<and> import_layout f True False padded_tables = Some (Inr db') \<and>
     map om_sensor_id (list_occupancy_sensor_mappings (occupancy_of padded_tables)) = [''05''] \<and>
     map om_sensor_id (list_occupancy_sensor_mappings (occupancy_of db')) = [''05'', ''5'']"
  using example_runs padded_export by (auto split: option.splits sum.splits)

end
