(* ===== verification/LayoutArchive.thy ===== *)
theory LayoutArchive
  imports LayoutImport
begin

text \<open>
  Layout archives, \<^verbatim>\<open>internal/transfer/archive.go\<close> and \<^verbatim>\<open>layout_validation.go\<close>: what an
  archive keeps of a layout, the checks of a document that need no store, the import, and the
  validation that reports as diagnostics what an import would refuse. The ZIP file and the JSON
  text are outside: \<^verbatim>\<open>readArchive\<close> returns the decoded document or an error, which is an argument.
  The messages of errors and diagnostics are left out; a turnout map of a route is the list of
  its entries in the order of the iteration.
\<close>

subsection \<open>Documents\<close>

record archived_turnout =
  at_id :: string
  at_name :: string
  at_kind :: turnout_kind
  at_endpoints :: "accessory_endpoint list"
  at_positions :: "turnout_position_definition list"

record archived_block =
  ab_id :: string
  ab_name :: string
  ab_track_section_ids :: "string list"
  ab_turnout_ids :: "string list"
  ab_occupied :: "bool option"

record archived_provider =
  ap_id :: string
  ap_type :: string
  ap_priority :: int
  ap_required :: bool
  ap_stale_after :: string
  ap_freshness_required :: bool

text \<open>
  The written and the read document share their fields but for the presentation, which may be
  missing where one is read, and the turnouts, which are read with all fields of a turnout.
\<close>

record ('p, 't) layout_archive =
  la_presentation :: 'p
  la_nodes :: "topology_node list"
  la_track_sections :: "track_section list"
  la_turnout_topologies :: "turnout_topology list"
  la_blocks :: "archived_block list"
  la_turnouts :: "'t list"
  la_routes :: "route_definition list"
  la_feedback_mappings :: "feedback_row list"
  la_providers :: "archived_provider list"
  la_mappings :: "occupancy_sensor_mapping list"

type_synonym written_archive = "(layout_presentation, archived_turnout) layout_archive"

type_synonym read_archive = "(layout_presentation option, turnout) layout_archive"

text \<open>\<^verbatim>\<open>time.Duration.String\<close> is an argument.\<close>

definition marshal_layout :: "(duration \<Rightarrow> string) \<Rightarrow> layout_file \<Rightarrow> written_archive" where
  "marshal_layout duration_text f =
     (let l = lf_layout f in
      \<lparr> la_presentation = (case lf_presentation f of None \<Rightarrow> empty_layout_presentation
          | Some p \<Rightarrow> normalize_layout_presentation p),
        la_nodes = ld_topology_nodes l, la_track_sections = ld_track_sections l,
        la_turnout_topologies = ld_turnout_topologies l,
        la_blocks = map (\<lambda>b. \<lparr> ab_id = bd_id b, ab_name = bd_name b, ab_track_section_ids = bd_track_section_ids b,
          ab_turnout_ids = bd_turnout_ids b, ab_occupied = None \<rparr>) (ld_blocks l),
        la_turnouts = map (\<lambda>t. \<lparr> at_id = t_id t, at_name = t_name t, at_kind = t_kind t,
          at_endpoints = t_endpoints t, at_positions = t_positions t \<rparr>) (ld_turnouts l),
        la_routes = ld_routes l, la_feedback_mappings = lf_feedback_mappings f,
        la_providers = map (\<lambda>p. \<lparr> ap_id = op_id p, ap_type = op_type p, ap_priority = op_priority p,
          ap_required = op_required p, ap_stale_after = duration_text (op_stale_after p),
          ap_freshness_required = op_freshness_required p \<rparr>) (lf_providers f),
        la_mappings = lf_mappings f \<rparr>)"

text \<open>\<^verbatim>\<open>time.ParseDuration\<close> is an argument; the error is the provider whose time it refuses.\<close>

fun unmarshal_providers ::
  "(string \<Rightarrow> duration option) \<Rightarrow> archived_provider list \<Rightarrow> string + occupancy_provider list" where
  "unmarshal_providers parse [] = Inr []"
| "unmarshal_providers parse (p # ps) =
     (case parse (ap_stale_after p) of
        None \<Rightarrow> Inl (ap_id p)
      | Some d \<Rightarrow> rbind (unmarshal_providers parse ps) (\<lambda>qs.
          Inr (\<lparr> op_id = ap_id p, op_type = ap_type p, op_priority = ap_priority p, op_required = ap_required p,
                 op_stale_after = d, op_freshness_required = ap_freshness_required p \<rparr> # qs)))"

definition unmarshal_layout :: "(string \<Rightarrow> duration option) \<Rightarrow> read_archive \<Rightarrow> string + layout_file" where
  "unmarshal_layout parse a =
     rbind (unmarshal_providers parse (la_providers a)) (\<lambda>providers.
       Inr \<lparr> lf_layout = \<lparr> ld_blocks = map (\<lambda>b. \<lparr> bd_id = ab_id b, bd_name = ab_name b,
                 bd_track_section_ids = ab_track_section_ids b, bd_turnout_ids = ab_turnout_ids b \<rparr>) (la_blocks a),
               ld_turnouts = la_turnouts a, ld_routes = la_routes a, ld_topology_nodes = la_nodes a,
               ld_track_sections = la_track_sections a, ld_turnout_topologies = la_turnout_topologies a \<rparr>,
             lf_presentation = la_presentation a, lf_feedback_mappings = la_feedback_mappings a,
             lf_providers = providers, lf_mappings = la_mappings a \<rparr>)"

subsection \<open>Checks of a document\<close>

datatype archive_problem =
    ArchiveTurnout turnout_validation_error
  | ArchiveDuplicateTurnout string
  | ArchiveGraph graph_error
  | ArchiveRouteWithoutName
  | ArchiveDuplicateRoute string
  | ArchiveFeedback string int
  | ArchiveDuplicateProvider string
  | ArchiveProvider occupancy_problem
  | ArchiveMapping occupancy_problem
  | ArchiveMappingProvider string string
  | ArchiveMappingBlock string string string
  | ArchiveDuplicateMapping string string
  | ArchiveRouteBlock string string
  | ArchiveRouteTurnout string string
  | ArchiveRoutePosition string string string
  | ArchiveRouteConflict string string
  | ArchiveRoutes "validation_issue list"
  | ArchivePresentation presentation_problem

text \<open>The loop that normalises the turnouts in place; it returns them and the map by identifier.\<close>

fun check_archive_turnouts ::
  "turnout list \<Rightarrow> (string, turnout) gomap \<Rightarrow> archive_problem + turnout list \<times> (string, turnout) gomap" where
  "check_archive_turnouts [] turnouts = Inr ([], turnouts)"
| "check_archive_turnouts (t # ts) turnouts =
     (case normalize_turnout t of
        Inl e \<Rightarrow> Inl (ArchiveTurnout e)
      | Inr t' \<Rightarrow>
          if gm_has turnouts (t_id t') then Inl (ArchiveDuplicateTurnout (t_id t))
          else rbind (check_archive_turnouts ts (gm_put (t_id t') t' turnouts))
                 (\<lambda>(ts', turnouts'). Inr (t' # ts', turnouts')))"

fun check_archive_routes :: "route_definition list \<Rightarrow> string list \<Rightarrow> archive_problem option" where
  "check_archive_routes [] routes = None"
| "check_archive_routes (r # rs) routes =
     (if rd_id r = [] \<or> rd_name r = [] then Some ArchiveRouteWithoutName
      else if rd_id r \<in> set routes then Some (ArchiveDuplicateRoute (rd_id r))
      else check_archive_routes rs (rd_id r # routes))"

definition check_archive_feedback :: "string list \<Rightarrow> feedback_row list \<Rightarrow> archive_problem option" where
  "check_archive_feedback blocks ms =
     map_option (\<lambda>m. ArchiveFeedback (fm_provider m) (fm_address m))
       (find (\<lambda>m. fm_provider m = [] \<or> fm_address m < 0 \<or> fm_block_id m \<notin> set blocks) ms)"

fun check_archive_providers :: "occupancy_provider list \<Rightarrow> string list \<Rightarrow> archive_problem option" where
  "check_archive_providers [] providers = None"
| "check_archive_providers (p # ps) providers =
     (if op_id p \<in> set providers then Some (ArchiveDuplicateProvider (op_id p))
      else case validate_occupancy_provider p of
             Some e \<Rightarrow> Some (ArchiveProvider e)
           | None \<Rightarrow> check_archive_providers ps (op_id p # providers))"

definition archive_mapping_key :: "occupancy_sensor_mapping \<Rightarrow> string" where
  "archive_mapping_key m = om_provider_id m @ [CHR 0x00] @ om_sensor_id m"

fun check_archive_mappings ::
  "string list \<Rightarrow> string list \<Rightarrow> occupancy_sensor_mapping list \<Rightarrow> string list \<Rightarrow> archive_problem option" where
  "check_archive_mappings providers blocks [] mappings = None"
| "check_archive_mappings providers blocks (m # ms) mappings =
     (case validate_occupancy_sensor_mapping m of
        Some e \<Rightarrow> Some (ArchiveMapping e)
      | None \<Rightarrow>
          if om_provider_id m \<notin> set providers then Some (ArchiveMappingProvider (om_provider_id m) (om_sensor_id m))
          else if om_block_id m \<notin> set blocks
          then Some (ArchiveMappingBlock (om_provider_id m) (om_sensor_id m) (om_block_id m))
          else if archive_mapping_key m \<in> set mappings
          then Some (ArchiveDuplicateMapping (om_provider_id m) (om_sensor_id m))
          else check_archive_mappings providers blocks ms (archive_mapping_key m # mappings))"

definition check_route_turnout ::
  "(string, turnout) gomap \<Rightarrow> route_definition \<Rightarrow> string \<times> string \<Rightarrow> archive_problem option" where
  "check_route_turnout turnouts r req =
     (case map_of turnouts (fst req) of
        None \<Rightarrow> Some (ArchiveRouteTurnout (rd_id r) (fst req))
      | Some t \<Rightarrow>
          if turnout_position t (snd req) = None then Some (ArchiveRoutePosition (rd_id r) (snd req) (fst req)) else None)"

fun first_problem :: "('a \<Rightarrow> archive_problem option) \<Rightarrow> 'a list \<Rightarrow> archive_problem option" where
  "first_problem f [] = None"
| "first_problem f (x # xs) = or_else (f x) (first_problem f xs)"

definition check_route_references ::
  "string list \<Rightarrow> (string, turnout) gomap \<Rightarrow> string list \<Rightarrow> route_definition \<Rightarrow> archive_problem option" where
  "check_route_references blocks turnouts routes r =
     or_else (first_problem (\<lambda>b. fail_if (b \<notin> set blocks) (ArchiveRouteBlock (rd_id r) b)) (rd_block_ids r))
       (or_else (first_problem (check_route_turnout turnouts r) (rd_turnout_states r))
          (first_problem (\<lambda>c. fail_if (c \<notin> set routes) (ArchiveRouteConflict (rd_id r) c)) (rd_conflict_route_ids r)))"

text \<open>
  \<^verbatim>\<open>validateLayout\<close>: the layout with its turnouts normalised. \<open>None\<close> is a search that does not
  return; there is none.
\<close>

definition validate_layout :: "layout_file \<Rightarrow> (archive_problem + layout_file) option" where
  "validate_layout f =
     (let l = lf_layout f; blocks = map bd_id (ld_blocks l) in
      case check_archive_turnouts (ld_turnouts l) [] of
        Inl e \<Rightarrow> Some (Inl e)
      | Inr (ts, turnouts) \<Rightarrow>
      (case build (l\<lparr> ld_turnouts := ts \<rparr>) of
         None \<Rightarrow> None
       | Some (Inl e) \<Rightarrow> Some (Inl (ArchiveGraph e))
       | Some (Inr g) \<Rightarrow>
       (case or_else (check_archive_routes (ld_routes l) [])
              (or_else (check_archive_feedback blocks (lf_feedback_mappings f))
                 (or_else (check_archive_providers (lf_providers f) [])
                    (or_else (check_archive_mappings (map op_id (lf_providers f)) blocks (lf_mappings f) [])
                       (first_problem (check_route_references blocks turnouts (map rd_id (ld_routes l))) (ld_routes l))))) of
          Some e \<Rightarrow> Some (Inl e)
        | None \<Rightarrow>
            map_option (\<lambda>issues.
                if route_validation_errors issues \<noteq> [] then Inl (ArchiveRoutes (route_validation_errors issues))
                else Inr (f\<lparr> lf_layout := l\<lparr> ld_turnouts := ts \<rparr> \<rparr>))
              (validate_route_definitions g (ld_routes l) ts))))"

text \<open>\<^verbatim>\<open>BuildLayoutArchive\<close>, up to the writing of the archive.\<close>

definition build_layout_archive ::
  "(duration \<Rightarrow> string) \<Rightarrow> layout_file \<Rightarrow> (archive_problem + written_archive) option" where
  "build_layout_archive duration_text f =
     map_option (\<lambda>r. rbind r (\<lambda>f'.
         case (case lf_presentation f' of None \<Rightarrow> None | Some p \<Rightarrow> validate_layout_presentation p (lf_layout f')) of
           Some e \<Rightarrow> Inl (ArchivePresentation e)
         | None \<Rightarrow> Inr (marshal_layout duration_text f')))
       (validate_layout f)"

subsection \<open>Import\<close>

datatype transfer_error =
    TransferDenied
  | UnreadableArchive string
  | InvalidArchive archive_problem
  | InvalidDrawing import_error
  | ImportFailed import_error

datatype transfer_event = LayoutImported nat nat nat bool string

text \<open>The test for \<^verbatim>\<open>ErrInvalidLayoutPresentation\<close> in the chain of the error.\<close>

fun drawing_error :: "import_error \<Rightarrow> bool" where
  "drawing_error (StoreRejected (DrawingRejected _)) = True"
| "drawing_error (StoreRejected (DrawingUnmerged _)) = True"
| "drawing_error _ = False"

text \<open>The tables afterwards, the events and the error.\<close>

definition transfer_import_layout ::
  "user \<Rightarrow> string + layout_file \<Rightarrow> bool \<Rightarrow> layout_tables \<Rightarrow>
   (layout_tables \<times> transfer_event list \<times> transfer_error option) option" where
  "transfer_import_layout u doc replace db =
     (if \<not> allowed (u_role u) PermissionConfigure then Some (db, [], Some TransferDenied)
      else case doc of
        Inl e \<Rightarrow> Some (db, [], Some (UnreadableArchive e))
      | Inr f \<Rightarrow>
      (case validate_layout f of
         None \<Rightarrow> None
       | Some (Inl e) \<Rightarrow> Some (db, [], Some (InvalidArchive e))
       | Some (Inr f') \<Rightarrow>
           map_option (\<lambda>(db', err).
               case err of
                 Some e \<Rightarrow> (db', [], Some (if drawing_error e then InvalidDrawing e else ImportFailed e))
               | None \<Rightarrow> (db', [LayoutImported (length (ld_blocks (lf_layout f'))) (length (ld_turnouts (lf_layout f')))
                               (length (ld_routes (lf_layout f'))) replace (u_id u)], None))
             (import_layout_commit f' replace db)))"

text \<open>The document that \<^verbatim>\<open>ExportLayout\<close> writes.\<close>

definition transfer_export_layout ::
  "(duration \<Rightarrow> string) \<Rightarrow> layout_tables \<Rightarrow> (import_error + written_archive) option" where
  "transfer_export_layout duration_text db =
     map_option (\<lambda>r. rbind r (\<lambda>f. Inr (marshal_layout duration_text f))) (export_layout db)"

subsection \<open>Validation\<close>

record layout_diagnostic =
  dg_code :: string
  dg_resource_type :: string
  dg_resource_id :: string

record layout_validation_result =
  lr_valid :: bool
  lr_errors :: "layout_diagnostic list"
  lr_warnings :: "layout_diagnostic list"

definition new_layout_validation_result :: layout_validation_result where
  "new_layout_validation_result = \<lparr> lr_valid = True, lr_errors = [], lr_warnings = [] \<rparr>"

text \<open>
  \<^verbatim>\<open>isLayoutValidationError\<close>. A failed constraint is one; the encoding of a track path, which can
  fail too, is reached only with a valid drawing.
\<close>

fun layout_error_is_validation :: "layout_error \<Rightarrow> bool" where
  "layout_error_is_validation (ConstraintFailed _) = True"
| "layout_error_is_validation (LayoutRejected _) = True"
| "layout_error_is_validation (SectionOfOmittedBlock _ _) = True"
| "layout_error_is_validation (TurnoutOfOmittedBlock _ _) = True"
| "layout_error_is_validation (DrawingRejected _) = True"
| "layout_error_is_validation (DrawingUnmerged _) = True"
| "layout_error_is_validation _ = False"

fun is_layout_validation_error :: "import_error \<Rightarrow> bool" where
  "is_layout_validation_error (TurnoutRejected _) = True"
| "is_layout_validation_error (RoutesRejected _) = True"
| "is_layout_validation_error (AddressConflict _ _ _) = True"
| "is_layout_validation_error (ConfigurationPending _) = True"
| "is_layout_validation_error (StoreRejected e) = layout_error_is_validation e"
| "is_layout_validation_error _ = False"

abbreviation diagnostic :: "string \<Rightarrow> string \<Rightarrow> string \<Rightarrow> layout_diagnostic" where
  "diagnostic code kind i \<equiv> \<lparr> dg_code = code, dg_resource_type = kind, dg_resource_id = i \<rparr>"

fun graph_diagnostic :: "graph_error \<Rightarrow> layout_diagnostic" where
  "graph_diagnostic (GraphTopology (TurnoutTopologyError code i _)) = diagnostic code ''turnout'' i"
| "graph_diagnostic (GraphBlocks _) = diagnostic ''block_membership_invalid'' [] []"
| "graph_diagnostic (BlockDisconnected _) = diagnostic ''block_membership_invalid'' [] []"
| "graph_diagnostic _ = diagnostic ''topology_invalid'' [] []"

definition turnout_diagnostic :: "turnout_validation_error \<Rightarrow> layout_diagnostic" where
  "turnout_diagnostic e = diagnostic (tv_code e) ''turnout'' (tv_turnout_id e)"

definition presentation_diagnostic :: "presentation_problem \<Rightarrow> layout_diagnostic" where
  "presentation_diagnostic p = (case presentation_fields p of (code, kind, i) \<Rightarrow> diagnostic code kind i)"

definition route_diagnostics :: "validation_issue list \<Rightarrow> layout_diagnostic list" where
  "route_diagnostics is = map (\<lambda>i. diagnostic (vi_code i) ''route'' (vi_resource_id i)) is"

text \<open>\<^verbatim>\<open>layoutDiagnostics\<close> on the errors of the document and on those of the store.\<close>

fun archive_diagnostics :: "archive_problem \<Rightarrow> layout_diagnostic list" where
  "archive_diagnostics (ArchiveTurnout e) = [turnout_diagnostic e]"
| "archive_diagnostics (ArchiveGraph e) = [graph_diagnostic e]"
| "archive_diagnostics (ArchiveRoutes is) = route_diagnostics is"
| "archive_diagnostics (ArchivePresentation p) = [presentation_diagnostic p]"
| "archive_diagnostics _ = [diagnostic ''layout_invalid'' [] []]"

fun store_diagnostics :: "layout_error \<Rightarrow> layout_diagnostic list" where
  "store_diagnostics (LayoutRejected e) = [graph_diagnostic e]"
| "store_diagnostics (DrawingRejected p) = [presentation_diagnostic p]"
| "store_diagnostics (DrawingUnmerged _) = [diagnostic ''layout_presentation_invalid'' [] []]"
| "store_diagnostics (SectionOfOmittedBlock _ _) = [diagnostic ''layout_import_conflict'' [] []]"
| "store_diagnostics (TurnoutOfOmittedBlock _ _) = [diagnostic ''layout_import_conflict'' [] []]"
| "store_diagnostics _ = [diagnostic ''layout_invalid'' [] []]"

fun import_diagnostics :: "import_error \<Rightarrow> layout_diagnostic list" where
  "import_diagnostics (TurnoutRejected e) = [turnout_diagnostic e]"
| "import_diagnostics (RoutesRejected is) = route_diagnostics is"
| "import_diagnostics (AddressConflict _ _ _) = [diagnostic ''accessory_address_conflict'' [] []]"
| "import_diagnostics (ConfigurationPending _) = [diagnostic ''turnout_configuration_pending'' [] []]"
| "import_diagnostics (StoreRejected e) = store_diagnostics e"
| "import_diagnostics _ = [diagnostic ''layout_invalid'' [] []]"

definition invalid_result :: "layout_diagnostic list \<Rightarrow> layout_validation_result" where
  "invalid_result ds = new_layout_validation_result\<lparr> lr_valid := False, lr_errors := ds \<rparr>"

text \<open>\<^verbatim>\<open>ValidateLayout\<close>: the result and the error of the operation itself.\<close>

definition transfer_validate_layout ::
  "user \<Rightarrow> string + layout_file \<Rightarrow> bool \<Rightarrow> layout_tables \<Rightarrow>
   (layout_validation_result \<times> transfer_error option) option" where
  "transfer_validate_layout u doc replace db =
     (if \<not> allowed (u_role u) PermissionConfigure then Some (new_layout_validation_result, Some TransferDenied)
      else case doc of
        Inl e \<Rightarrow> Some (invalid_result [diagnostic ''invalid_archive'' [] []], None)
      | Inr f0 \<Rightarrow>
      (case validate_layout f0 of
         None \<Rightarrow> None
       | Some (Inl e) \<Rightarrow> Some (invalid_result (archive_diagnostics e), None)
       | Some (Inr f) \<Rightarrow>
       (case validate_layout_import f replace db of
          None \<Rightarrow> None
        | Some (Some e) \<Rightarrow>
            Some (if is_layout_validation_error e then (invalid_result (import_diagnostics e), None)
                  else (new_layout_validation_result, Some (ImportFailed e)))
        | Some None \<Rightarrow>
        (case build (lf_layout f) of
           None \<Rightarrow> None
         | Some (Inl e) \<Rightarrow> Some (new_layout_validation_result, Some (ImportFailed (StoreRejected (LayoutRejected e))))
         | Some (Inr g) \<Rightarrow>
             map_option (\<lambda>issues. (new_layout_validation_result\<lparr> lr_warnings :=
                 route_diagnostics (filter (\<lambda>i. vi_severity i = SeverityWarning) issues) \<rparr>, None))
               (validate_route_definitions g (ld_routes (lf_layout f)) (ld_turnouts (lf_layout f)))))))"

end
