(* ===== verification/LayoutArchiveFacts.thy ===== *)
theory LayoutArchiveFacts
  imports LayoutArchive LayoutRoundtrip
begin

text \<open>
  The validation of a layout archive gives the verdict of its import. What has to be shown is
  that every refusal of the store, once the document has passed its own checks, is one of the
  errors that the validation reports as a diagnostic. At the end, what an archive keeps.
\<close>

subsection \<open>Refusals of the store\<close>

definition layout_refusal :: "layout_error + 'a \<Rightarrow> bool" where
  "layout_refusal r \<longleftrightarrow> (\<forall>e. r = Inl e \<longrightarrow> layout_error_is_validation e)"

definition import_refusal :: "import_error + 'a \<Rightarrow> bool" where
  "import_refusal r \<longleftrightarrow> (\<forall>e. r = Inl e \<longrightarrow> is_layout_validation_error e \<and> import_diagnostics e \<noteq> [])"

lemma store_diagnostics_nonempty [simp]: "store_diagnostics e \<noteq> []"
  by (cases e) auto

lemma layout_refusal_simps [simp]:
  "layout_refusal (Inr x)" "layout_refusal (Inl e) = layout_error_is_validation e" "layout_refusal (when_ok b i s)"
  by (simp_all add: layout_refusal_def when_ok_def)

lemma import_refusal_simps [simp]:
  "import_refusal (Inr x)" "import_refusal (Inl e) \<longleftrightarrow> is_layout_validation_error e \<and> import_diagnostics e \<noteq> []"
  "import_refusal (stored r) = layout_refusal r"
  by (auto simp: import_refusal_def layout_refusal_def stored_def split: sum.splits)

lemma refusal_rbind:
  "layout_refusal r \<Longrightarrow> (\<And>x. layout_refusal (f x)) \<Longrightarrow> layout_refusal (rbind r f)"
  "import_refusal q \<Longrightarrow> (\<And>y. import_refusal (g y)) \<Longrightarrow> import_refusal (rbind q g)"
  by (auto simp: layout_refusal_def import_refusal_def rbind_Inl)

lemma refusal_each:
  "(\<And>x s. x \<in> set xs \<Longrightarrow> layout_refusal (f x s)) \<Longrightarrow> layout_refusal (each f xs s)"
  "(\<And>y t. y \<in> set ys \<Longrightarrow> import_refusal (g y t)) \<Longrightarrow> import_refusal (each g ys t)"
proof -
  show "(\<And>x s. x \<in> set xs \<Longrightarrow> layout_refusal (f x s)) \<Longrightarrow> layout_refusal (each f xs s)"
    by (induction xs arbitrary: s) (auto intro!: refusal_rbind)
  show "(\<And>y t. y \<in> set ys \<Longrightarrow> import_refusal (g y t)) \<Longrightarrow> import_refusal (each g ys t)"
    by (induction ys arbitrary: t) (auto intro!: refusal_rbind)
qed

lemma clear_topology_refusal: "layout_refusal (clear_topology_definition db)"
  by (simp add: clear_topology_definition_def delete_topology_nodes_def)

lemma clear_layout_refusal: "layout_refusal (clear_layout db)"
  by (auto simp: clear_layout_def delete_turnouts_def delete_blocks_def clear_topology_refusal intro!: refusal_rbind)

lemma upsert_turnout_refusal: "layout_refusal (upsert_turnout t db)"
  by (auto simp: upsert_turnout_def insert_endpoint_def insert_position_definition_def
      intro!: refusal_rbind refusal_each split: option.split)

lemma upsert_topology_refusal: "layout_refusal (upsert_topology_definition l db)"
  by (auto simp: upsert_topology_definition_def upsert_node_def upsert_section_def store_topology_def insert_topology_def
      insert_port_def insert_position_def insert_position_row_def insert_connection_def Let_def
      intro!: refusal_rbind refusal_each split: prod.split)

lemma memberships_refusal: "layout_refusal (replace_block_memberships bs db)"
  by (auto simp: replace_block_memberships_def insert_memberships_def insert_block_section_def insert_block_turnout_def
      intro!: refusal_rbind refusal_each)

lemma drawing_refusal: "layout_refusal (replace_layout_presentation p db)"
  by (auto simp: replace_layout_presentation_def upsert_drawing_def insert_node_position_def insert_track_path_def
      insert_turnout_position_def insert_block_style_def Let_def intro!: refusal_rbind refusal_each split: option.split)

lemma route_rows_refusal: "layout_refusal (replace_route_rows r db)"
  by (auto simp: replace_route_rows_def insert_route_block_def insert_route_turnout_def insert_route_conflict_def Let_def
      intro!: refusal_rbind refusal_each)

lemma store_layout_refusal:
  assumes "\<forall>p\<in>set (lf_providers f). validate_occupancy_provider p = None"
    and "\<forall>m\<in>set (lf_mappings f). validate_occupancy_sensor_mapping m = None"
  shows "import_refusal (store_layout f ts drawing replace db)"
  unfolding store_layout_def Let_def
  by (intro refusal_rbind refusal_each)
    (use assms in \<open>auto simp: clear_layout_refusal upsert_turnout_refusal upsert_topology_refusal memberships_refusal
        drawing_refusal route_rows_refusal import_feedback_mapping_def import_provider_def import_sensor_mapping_def Let_def
        intro!: refusal_each\<close>)

lemma claim_addresses_refusal:
  "claim_addresses claims m = Inl e \<Longrightarrow> is_layout_validation_error e \<and> import_diagnostics e \<noteq> []"
  by (induction claims m rule: claim_addresses.induct) (auto split: option.splits if_splits)

lemma omitted_refusal: "reject_omitted_block_resource_changes l replace db = Some e \<Longrightarrow> layout_error_is_validation e"
  by (auto simp: reject_omitted_block_resource_changes_def Let_def or_else_Some split: if_splits option.splits)

lemma pending_refusal: "reject_pending_turnout_configuration ts replace db = Some e \<Longrightarrow> import_refusal (Inl e)"
  by (auto simp: reject_pending_turnout_configuration_def)

lemma existing_refusal: "reject_existing_turnout_address_conflicts ts db = Some e \<Longrightarrow> import_refusal (Inl e)"
  by (auto simp: reject_existing_turnout_address_conflicts_def dest: claim_addresses_refusal split: sum.splits)

lemma check_refusal: "import_refusal (check_against_tables f ts replace db)"
proof -
  have "import_refusal (Inl e)"
    if "or_else (map_option (\<lambda>e. StoreRejected (DrawingRejected e)) d)
      (or_else (reject_pending_turnout_configuration ts replace db)
         (or_else (map_option StoreRejected (reject_omitted_block_resource_changes (lf_layout f) replace db))
            (if replace then None else reject_existing_turnout_address_conflicts ts db))) = Some e" for d e
    using that unfolding or_else_Some
    by (auto dest: pending_refusal existing_refusal omitted_refusal split: if_splits)
  then show ?thesis unfolding check_against_tables_def Let_def by (simp split: sum.split option.split)
qed

lemma normalize_all_refusal: "import_refusal (normalize_all ts)"
  by (induction ts) (auto intro!: refusal_rbind split: sum.split)

text \<open>A document that has passed its own checks is refused by the store only with a diagnostic.\<close>

lemma import_layout_refusal:
  assumes "\<forall>p\<in>set (lf_providers f). validate_occupancy_provider p = None"
    and "\<forall>m\<in>set (lf_mappings f). validate_occupancy_sensor_mapping m = None"
    and "import_layout f replace False db = Some r"
  shows "import_refusal r"
proof -
  have "validate_turnout_address_ownership ts = Some e \<Longrightarrow> import_refusal (Inl e)" for ts e
    by (auto simp: validate_turnout_address_ownership_def dest: claim_addresses_refusal split: sum.splits)
  moreover have "import_refusal (rbind (check_against_tables f ts replace db)
      (\<lambda>d. rbind (store_layout f ts d replace db) (\<lambda>db'. if False then Inl DryRunCompleted else Inr db')))" for ts
    using store_layout_refusal [OF assms(1,2)] by (auto intro!: refusal_rbind check_refusal)
  moreover have "normalize_all (ld_turnouts (lf_layout f)) = Inl e \<Longrightarrow> import_refusal (Inl e)" for e
    using normalize_all_refusal [of "ld_turnouts (lf_layout f)"] by simp
  ultimately show ?thesis using assms(3)
    by (auto simp: import_layout_def Let_def route_diagnostics_def split: sum.splits option.splits if_splits)
qed

subsection \<open>The checks of the document\<close>

lemma check_archive_providers_None:
  "check_archive_providers ps seen = None \<Longrightarrow> p \<in> set ps \<Longrightarrow> validate_occupancy_provider p = None"
  by (induction ps seen rule: check_archive_providers.induct) (auto split: if_splits option.splits)

lemma check_archive_mappings_None:
  "check_archive_mappings ps bs ms seen = None \<Longrightarrow> m \<in> set ms \<Longrightarrow> validate_occupancy_sensor_mapping m = None"
  by (induction ps bs ms seen rule: check_archive_mappings.induct) (auto split: if_splits option.splits)

lemma validate_layout_returns: "validate_layout f \<noteq> None"
proof (cases "check_archive_turnouts (ld_turnouts (lf_layout f)) []")
  case (Inr r)
  obtain ts turnouts where r: "r = (ts, turnouts)" by (cases r)
  let ?l = "(lf_layout f)\<lparr> ld_turnouts := ts \<rparr>"
  show ?thesis
  proof (cases "build ?l")
    case None
    then show ?thesis using build_cases [of ?l] by (auto split: if_splits)
  next
    case (Some b)
    then show ?thesis
      using Inr r route_check_returns [of ?l] by (cases b) (auto simp: validate_layout_def Let_def split: option.splits)
  qed
qed (simp add: validate_layout_def Let_def)

lemma validate_layout_Inr:
  assumes "validate_layout f = Some (Inr f')"
  obtains g issues where "build (lf_layout f') = Some (Inr g)"
    and "validate_route_definitions g (ld_routes (lf_layout f')) (ld_turnouts (lf_layout f')) = Some issues"
    and "\<forall>p\<in>set (lf_providers f'). validate_occupancy_provider p = None"
    and "\<forall>m\<in>set (lf_mappings f'). validate_occupancy_sensor_mapping m = None"
    and "\<forall>m\<in>set (lf_feedback_mappings f'). 0 \<le> fm_address m"
    and "lf_feedback_mappings f' = lf_feedback_mappings f"
proof -
  obtain ts turnouts where ts: "check_archive_turnouts (ld_turnouts (lf_layout f)) [] = Inr (ts, turnouts)"
    using assms by (auto simp: validate_layout_def Let_def split: sum.splits)
  let ?l = "(lf_layout f)\<lparr> ld_turnouts := ts \<rparr>"
  let ?bs = "map bd_id (ld_blocks (lf_layout f))"
  obtain g where g: "build ?l = Some (Inr g)"
    using assms ts by (auto simp: validate_layout_def Let_def split: option.splits sum.splits)
  have checks: "check_archive_feedback ?bs (lf_feedback_mappings f) = None" "check_archive_providers (lf_providers f) [] = None"
    "check_archive_mappings (map op_id (lf_providers f)) ?bs (lf_mappings f) [] = None"
    using assms ts g by (auto simp: validate_layout_def Let_def split: option.splits)
  obtain issues where v: "validate_route_definitions g (ld_routes (lf_layout f)) ts = Some issues"
    and f': "f' = f\<lparr> lf_layout := ?l \<rparr>"
    using assms ts g by (auto simp: validate_layout_def Let_def split: option.splits if_splits)
  show thesis
  proof (rule that [of g issues])
    show "\<forall>m\<in>set (lf_feedback_mappings f'). 0 \<le> fm_address m"
      using checks(1) by (auto simp: f' check_archive_feedback_def find_None_iff)
  qed (use g v in \<open>auto simp: f' dest: check_archive_providers_None [OF checks(2)] check_archive_mappings_None [OF checks(3)]\<close>)
qed

subsection \<open>The verdict\<close>

lemma first_problem_Some: "first_problem f xs = Some e \<Longrightarrow> \<exists>x\<in>set xs. f x = Some e"
  by (induction xs) (auto simp: or_else_Some)

text \<open>Only the route check of the topology gives its list of issues.\<close>

lemma checks_without_issues:
  "check_archive_turnouts ts m \<noteq> Inl (ArchiveRoutes is)" "check_archive_routes rs seen \<noteq> Some (ArchiveRoutes is)"
  "check_archive_feedback bs fs \<noteq> Some (ArchiveRoutes is)" "check_archive_providers ps seen \<noteq> Some (ArchiveRoutes is)"
  "check_archive_mappings qs bs ms seen \<noteq> Some (ArchiveRoutes is)"
  "first_problem (check_route_references bs m routes) rs \<noteq> Some (ArchiveRoutes is)"
proof -
  show "check_archive_turnouts ts m \<noteq> Inl (ArchiveRoutes is)"
    by (induction ts m rule: check_archive_turnouts.induct) (auto simp: rbind_Inl split: sum.splits)
  show "check_archive_routes rs seen \<noteq> Some (ArchiveRoutes is)"
    by (induction rs seen rule: check_archive_routes.induct) auto
  show "check_archive_feedback bs fs \<noteq> Some (ArchiveRoutes is)" by (simp add: check_archive_feedback_def)
  show "check_archive_providers ps seen \<noteq> Some (ArchiveRoutes is)"
    by (induction ps seen rule: check_archive_providers.induct) (auto split: option.splits)
  show "check_archive_mappings qs bs ms seen \<noteq> Some (ArchiveRoutes is)"
    by (induction qs bs ms seen rule: check_archive_mappings.induct) (auto split: option.splits)
  show "first_problem (check_route_references bs m routes) rs \<noteq> Some (ArchiveRoutes is)"
    by (auto simp: check_route_references_def or_else_Some check_route_turnout_def fail_if_def
        dest!: first_problem_Some split: option.splits if_splits)
qed

lemma archive_diagnostics_nonempty:
  "validate_layout f = Some (Inl e) \<Longrightarrow> archive_diagnostics e \<noteq> []"
  by (cases e) (auto simp: validate_layout_def Let_def route_diagnostics_def or_else_Some checks_without_issues
      split: sum.splits option.splits if_splits)

text \<open>
  C17: Validating a layout archive always returns, without an error of its own for a user who may
  configure, and predicts the import: the result is valid exactly when the import of the same
  archive into the same tables succeeds, and otherwise it lists at least one diagnostic; an
  import that fails changes nothing and announces nothing.
\<close>

theorem validation_predicts_import:
  "\<exists>result err db' events failure.
     transfer_validate_layout u doc replace db = Some (result, err) \<and>
     transfer_import_layout u doc replace db = Some (db', events, failure) \<and>
     (err = None \<longleftrightarrow> allowed (u_role u) PermissionConfigure) \<and>
     (failure = None \<longleftrightarrow> allowed (u_role u) PermissionConfigure \<and> lr_valid result) \<and>
     (lr_valid result \<longleftrightarrow> lr_errors result = []) \<and>
     (failure = None \<and> length events = 1 \<or> failure \<noteq> None \<and> events = [] \<and> db' = db)"
proof (cases "allowed (u_role u) PermissionConfigure")
  case False
  then show ?thesis
    by (simp add: transfer_validate_layout_def transfer_import_layout_def new_layout_validation_result_def)
next
  case may: True
  show ?thesis
  proof (cases doc)
    case (Inl e)
    then show ?thesis using may
      by (simp add: transfer_validate_layout_def transfer_import_layout_def new_layout_validation_result_def invalid_result_def)
  next
    case (Inr f)
    obtain v where v: "validate_layout f = Some v" using validate_layout_returns by blast
    show ?thesis
    proof (cases v)
      case (Inl e)
      then show ?thesis using may \<open>doc = Inr f\<close> v archive_diagnostics_nonempty
        by (auto simp: transfer_validate_layout_def transfer_import_layout_def new_layout_validation_result_def invalid_result_def)
    next
      case f': (Inr f')
      obtain g issues where g: "build (lf_layout f') = Some (Inr g)"
        "validate_route_definitions g (ld_routes (lf_layout f')) (ld_turnouts (lf_layout f')) = Some issues"
        and ok: "\<forall>p\<in>set (lf_providers f'). validate_occupancy_provider p = None"
        "\<forall>m\<in>set (lf_mappings f'). validate_occupancy_sensor_mapping m = None"
        using validate_layout_Inr [OF v [unfolded f']] by metis
      obtain r where r: "import_layout_commit f' replace db = Some r" "validate_layout_import f' replace db = Some (snd r)"
        "snd r = None \<or> fst r = db" using dry_run_verdict by blast
      have refusal: "is_layout_validation_error e \<and> import_diagnostics e \<noteq> []" if "snd r = Some e" for e
      proof -
        obtain i where i: "import_layout f' replace False db = Some i" using r(1) by (auto simp: import_layout_commit_def)
        have "import_refusal i" by (rule import_layout_refusal [OF ok i])
        moreover have "i = Inl e" using r(1) i that by (cases i) (auto simp: import_layout_commit_def)
        ultimately show ?thesis by simp
      qed
      obtain db' err where r': "r = (db', err)" by (cases r)
      note ops = transfer_validate_layout_def transfer_import_layout_def new_layout_validation_result_def invalid_result_def
      show ?thesis
      proof (cases err)
        case None
        then show ?thesis using may Inr v f' g r(1,2) r' by (simp add: ops)
      next
        case (Some e)
        then show ?thesis using may Inr v f' r r' refusal [of e] by (simp add: ops)
      qed
    qed
  qed
qed

subsection \<open>What an archive keeps\<close>

text \<open>A turnout as it is read from what was written: the fields that are missing are zero.\<close>

definition configuration_only :: "archived_turnout \<Rightarrow> turnout" where
  "configuration_only t =
     \<lparr> t_id = at_id t, t_name = at_name t, t_kind = at_kind t, t_endpoints = at_endpoints t, t_positions = at_positions t,
       t_desired_position = [], t_reported_position = [], t_pending = False, t_reported_status = NoReport,
       t_quality = NoQuality, t_command_status = NoCommandStatus, t_dcc_address = 0, t_desired_state = [],
       t_reported_state = [] \<rparr>"

definition read_back :: "written_archive \<Rightarrow> read_archive" where
  "read_back a =
     \<lparr> la_presentation = Some (la_presentation a), la_nodes = la_nodes a, la_track_sections = la_track_sections a,
       la_turnout_topologies = la_turnout_topologies a, la_blocks = la_blocks a,
       la_turnouts = map configuration_only (la_turnouts a), la_routes = la_routes a,
       la_feedback_mappings = la_feedback_mappings a, la_providers = la_providers a, la_mappings = la_mappings a \<rparr>"

definition without_runtime :: "turnout \<Rightarrow> turnout" where
  "without_runtime t =
     configuration_only \<lparr> at_id = t_id t, at_name = t_name t, at_kind = t_kind t, at_endpoints = t_endpoints t,
       at_positions = t_positions t \<rparr>"

lemma unmarshal_marshalled_providers:
  assumes "\<And>d. parse (duration_text d) = Some d"
  shows "unmarshal_providers parse (map (\<lambda>p. \<lparr> ap_id = op_id p, ap_type = op_type p, ap_priority = op_priority p,
      ap_required = op_required p, ap_stale_after = duration_text (op_stale_after p),
      ap_freshness_required = op_freshness_required p \<rparr>) ps) = Inr ps"
  by (induction ps) (simp_all add: assms)

text \<open>
  Writing an archive and reading it back keeps the whole configuration: the turnouts lose what
  was commanded and observed, the drawing has its defaults, everything else is unchanged.
\<close>

theorem archive_keeps_configuration:
  assumes "\<And>d. parse (duration_text d) = Some d"
  shows "unmarshal_layout parse (read_back (marshal_layout duration_text f)) =
    Inr (f\<lparr> lf_layout := (lf_layout f)\<lparr> ld_turnouts := map without_runtime (ld_turnouts (lf_layout f)) \<rparr>,
            lf_presentation := Some (case lf_presentation f of None \<Rightarrow> empty_layout_presentation
                                      | Some p \<Rightarrow> normalize_layout_presentation p) \<rparr>)"
proof -
  have "\<lparr> bd_id = bd_id b, bd_name = bd_name b, bd_track_section_ids = bd_track_section_ids b,
      bd_turnout_ids = bd_turnout_ids b \<rparr> = b" for b :: block_definition by (cases b) simp
  then have eta: "map (\<lambda>b. \<lparr> bd_id = bd_id b, bd_name = bd_name b, bd_track_section_ids = bd_track_section_ids b,
      bd_turnout_ids = bd_turnout_ids b \<rparr>) bs = bs" for bs :: "block_definition list" by (simp add: map_idI)
  show ?thesis
    by (cases f; cases "lf_layout f") (simp add: unmarshal_layout_def read_back_def marshal_layout_def Let_def
        unmarshal_marshalled_providers [OF assms] without_runtime_def [abs_def] comp_def eta)
qed

text \<open>
  An export with a sensor whose name reads as a negative number is refused by every import: its
  feedback mapping has a negative address.
\<close>

theorem negative_sensor_not_importable:
  assumes "export_layout db = Some (Inr f)" and "m \<in> set (lt_mappings db)"
    and "atoi (om_sensor_id m) = Some a" "a < 0"
    and "lf_feedback_mappings g = lf_feedback_mappings f"
    and "transfer_import_layout u (Inr g) replace db0 = Some (db', events, failure)"
  shows "failure \<noteq> None"
proof
  assume "failure = None"
  then obtain g' where g': "validate_layout g = Some (Inr g')"
    using assms(6) by (auto simp: transfer_import_layout_def split: if_splits option.splits sum.splits)
  have "lf_feedback_mappings f = list_feedback_mappings db"
    using assms(1) by (auto simp: export_layout_def stored_def split: option.splits sum.splits)
  moreover have "\<lparr> fm_provider = om_provider_id m, fm_address = a, fm_block_id = om_block_id m \<rparr> \<in> set (list_feedback_mappings db)"
    using assms(2,3) by (force simp: list_feedback_mappings_def list_occupancy_sensor_mappings_def occupancy_of_def
        feedback_of_def List.map_filter_def)
  ultimately show False
    using validate_layout_Inr [OF g'] assms(4,5) by (metis feedback_row.select_convs(2) not_less)
qed

end
