(* ===== verification/Spec2Isabelle.thy ===== *)
theory Spec2Isabelle
  imports Prelude Station Turnout Search Service TurnoutPath TimeText Lease Gate Control ControlSafety
    Occupancy OccupancyFacts Feedback Railway RailwayFacts Routes RouteFacts RollingStock
    Topology TrackGraph TrackGraphFacts GoQuote TrackPath TrackPathFacts ActiveTrack RouteCheck
    Queries QueryFacts Frames EventBus GoText Passwords Accounts AccountFacts
    Speeds Z21 Z21Facts DccEx DccExFacts Drivers
    Simulator SimulatorFacts Scenario Runner ScenarioFacts RunnerFacts
    Presentation PresentationFacts LayoutTables LayoutFacts LayoutStoreFacts DrawingFacts
    LayoutImport LayoutImportFacts LayoutRoundtrip LayoutExamples LayoutArchive LayoutArchiveFacts
begin

text \<open>
  A verification development for TrainPilot-server, the control server of a model railway:
  clients drive locomotives, throw turnouts and set routes over HTTP, the server keeps its state
  in SQLite and talks to one DCC command station.

  \<^bold>\<open>The program and its parts.\<close>
  \<^item> The \<^emph>\<open>command station\<close> is an interface (\<^verbatim>\<open>internal/station\<close>) that the services call and
    whose health they judge, with drivers for the z21 over UDP (\<^verbatim>\<open>z21/z21.go\<close>) and for
    DCC-EX over TCP (\<^verbatim>\<open>dccex/dccex.go\<close>), and a simulated station
    (\<^verbatim>\<open>simulator/simulator.go\<close>) that scenarios drive (\<^verbatim>\<open>simulator/scenario\<close>).
  \<^item> The \<^emph>\<open>control service\<close> (\<^verbatim>\<open>internal/service/control.go\<close>) gives a session a lease on a
    locomotive, sends its speeds and functions, and stops it when the lease ends. Writes to the
    station go through a gate that lets safety commands first (\<^verbatim>\<open>command_gate.go\<close>). Leases are
    rows of the store (\<^verbatim>\<open>internal/store/leases.go\<close>).
  \<^item> The \<^emph>\<open>railway service\<close> (\<^verbatim>\<open>railway.go\<close>) throws turnouts step by step and waits for their
    feedback, turns the station's feedback into occupancy observations, and manages locomotives.
  \<^item> The \<^emph>\<open>occupancy service\<close> (\<^verbatim>\<open>occupancy.go\<close>) derives the state of each block from what its
    sensors report.
  \<^item> The \<^emph>\<open>route service\<close> (\<^verbatim>\<open>routes.go\<close>) reserves and activates routes over blocks and
    turnouts, calling the railway and the occupancy service.
  \<^item> The \<^emph>\<open>topology\<close> (\<^verbatim>\<open>internal/model/topology.go\<close>, \<^verbatim>\<open>internal/topology\<close>) turns the
    description of the track into a graph, finds paths in it, statically or over the positions
    the turnouts report, answers neighbourhood queries, checks the definitions of routes against
    it, and publishes the description to clients that build their own graph from it.
  \<^item> The \<^emph>\<open>layout\<close> is what the tables of the store hold about the track: turnouts, topology,
    blocks with their resources, routes, sensors and a drawing (\<^verbatim>\<open>internal/store/topology.go\<close>,
    \<^verbatim>\<open>block_definitions.go\<close>, \<^verbatim>\<open>layout_presentation.go\<close>). A layout file is imported into
    them, merged or replacing everything, and exported from them (\<^verbatim>\<open>store/routes.go\<close>); an
    import checks the file with the topology and the route check and then against the tables. Archives
    (\<^verbatim>\<open>internal/transfer\<close>) carry a layout or the rolling stock from one server to another.
  \<^item> The \<^emph>\<open>user\<close> and \<^emph>\<open>authentication services\<close> (\<^verbatim>\<open>users.go\<close>, \<^verbatim>\<open>authentication.go\<close>,
    \<^verbatim>\<open>internal/auth\<close>) keep accounts and passwords and let requests in by the tokens of their sessions.
  \<^item> Every change of state is published on the \<^emph>\<open>event bus\<close> (\<^verbatim>\<open>internal/events\<close>), from which
    WebSocket connections (\<^verbatim>\<open>internal/websocket\<close>) forward it to the clients.

  \<^bold>\<open>Theories and what they model.\<close>
  \<^item> \<open>Prelude\<close>: results, error chains, texts, Go maps as sorted association lists.
  \<^item> \<open>Station\<close>: \<^verbatim>\<open>station.go\<close> and \<^verbatim>\<open>health.go\<close>; \<open>Turnout\<close>: the turnouts of
    \<^verbatim>\<open>internal/model/model.go\<close>; \<open>Service\<close>: errors, roles, permissions.
  \<^item> \<open>Search\<close>: breadth-first search as a locale with its correctness; \<open>TurnoutPath\<close>:
    the planner \<^verbatim>\<open>safeTurnoutPath\<close>, an interpretation of it.
  \<^item> \<open>TimeText\<close>: how the store writes and compares instants; \<open>Lease\<close>: the lease table;
    the locale \<open>lease_update\<close> is the contract of its updates, interpreted for each.
  \<^item> \<open>Gate\<close>: the priority gate as a transition system; \<open>Control\<close>: the control service;
    \<open>ControlSafety\<close>: its properties, with the locale \<open>control_operation\<close> for what every
    operation keeps.
  \<^item> \<open>Occupancy\<close>, \<open>OccupancyFacts\<close>: occupancy model, store and service;
    \<open>Feedback\<close>: the feedback loop on top of it.
  \<^item> \<open>Railway\<close>, \<open>RailwayFacts\<close>: turnout commands and accessory events.
  \<^item> \<open>Routes\<close>, \<open>RouteFacts\<close>: the route service over the two, with the locale
    \<open>route_update\<close>; \<open>RollingStock\<close>: locomotives and their archives, with the locale
    \<open>stock_change\<close>.
  \<^item> \<open>Topology\<close>: the description of the track and its validation; \<open>TrackGraph\<close>,
    \<open>TrackGraphFacts\<close>: \<^verbatim>\<open>Build\<close> and the components, with the locale \<open>symmetric_space\<close>
    over the traversal of \<open>Search\<close>; \<open>GoQuote\<close>: quoted texts; \<open>TrackPath\<close>,
    \<open>TrackPathFacts\<close>: \<^verbatim>\<open>path.go\<close>, the second interpretation of \<open>search_space\<close>;
    \<open>ActiveTrack\<close>: \<^verbatim>\<open>active.go\<close>; \<open>RouteCheck\<close>: \<^verbatim>\<open>routes.go\<close> of the topology.
  \<^item> \<open>Queries\<close>: \<^verbatim>\<open>queries.go\<close> and \<^verbatim>\<open>definition.go\<close>; \<open>QueryFacts\<close>: the locale
    \<open>edge_view\<close> over whatever returns the edges at a node, interpreted on the static graph and
    on the active view, and the way of a definition from the server to a client.
  \<^item> \<open>EventBus\<close>: \<^verbatim>\<open>internal/events/bus.go\<close> under all interleavings with its readers;
    \<open>Frames\<close>: the frames of \<^verbatim>\<open>internal/websocket\<close>.
  \<^item> \<open>Passwords\<close>: \<^verbatim>\<open>internal/auth\<close>, over given digests; \<open>Accounts\<close>: the tables of users
    and sessions and both services on them; \<open>AccountFacts\<close>: their invariant under interleaved
    operations, with the locales \<open>user_update\<close>, \<open>session_update\<close> and \<open>hash_update\<close> for what
    an update may change, who is let in, and that revocation and refresh are final.
  \<^item> \<open>Speeds\<close>: the float64 arithmetic on the way from a percentage to a speed step, exact to
    the last bit; \<open>Z21\<close>, \<open>Z21Facts\<close>: packets, datagrams, waiting callers, accessory
    pulses, with the locale \<open>reply_table\<close> for the three tables of callers that wait for an
    answer; \<open>GoText\<close>: splitting texts and reading numbers; \<open>DccEx\<close>, \<open>DccExFacts\<close>: the
    text protocol, \<^verbatim>\<open>bufio.Scanner\<close> with its buffer, and the connection that is lost and
    re-established, as interleaved steps; \<open>Drivers\<close>: what both make of a speed.
  \<^item> \<open>Simulator\<close>: \<^verbatim>\<open>simulator.go\<close>, a command split into the section that admits it and the one
    in which it takes effect; \<open>SimulatorFacts\<close>: accessories that settle as configured
    (\<open>accessory_at\<close> is what an accessory shows at an instant, the abstraction of reports
    that are applied late), cancelled commands, and the rhythm of injected faults.
  \<^item> \<open>Scenario\<close>: the reading of scenario documents, over what \<^verbatim>\<open>encoding/json\<close> and
    \<^verbatim>\<open>time.ParseDuration\<close> return; \<open>Runner\<close>: \<^verbatim>\<open>runner.go\<close>; \<open>ScenarioFacts\<close>: a run by hand
    refines the replay of its script; \<open>RunnerFacts\<close>: the states any run can reach, with its
    goroutine and its surroundings as a step relation.
  \<^item> \<open>Presentation\<close>, \<open>PresentationFacts\<close>: \<^verbatim>\<open>model/layout_presentation.go\<close> and the merge
    of drawings; \<open>LayoutTables\<close>: the tables of a layout with the constraints of
    \<^verbatim>\<open>store/store.go\<close>, and the statements on topology, blocks and drawing; \<open>LayoutFacts\<close>: what
    writing and reading a topology gives (\<open>topology_at\<close> is the topology of a turnout that its
    rows stand for); \<open>LayoutStoreFacts\<close>: block resources and the replacement of the topology;
    \<open>DrawingFacts\<close>: the replacement of the drawing.
  \<^item> \<open>LayoutImport\<close>: import, dry run and export of \<^verbatim>\<open>store/routes.go\<close>; \<open>LayoutImportFacts\<close>:
    an import is a row-wise update of the tables (\<open>topo_ok\<close> and \<open>members_ok\<close> are the keys it
    relies on and keeps); \<open>LayoutRoundtrip\<close>: accessory addresses, the dry run, and the export
    of what was imported; \<open>LayoutExamples\<close>: an import at work, and a sensor that an export and
    an import do not preserve.
  \<^item> \<open>LayoutArchive\<close>: layout archives of \<^verbatim>\<open>internal/transfer\<close>, over the document that the ZIP file
    and \<^verbatim>\<open>encoding/json\<close> give: what they keep, their checks, import, export, and the validation
    with its diagnostics; \<open>LayoutArchiveFacts\<close>: the validation predicts the import, and an
    archive keeps the configuration.

  \<^bold>\<open>Conventions.\<close> State is a record passed and returned; what a component does to the outside
  (events published, commands sent) is a log in its state. What the outside does, such as the
  station's answers, the clock, fresh identifiers and the order in which Go iterates over a map,
  is an argument. A table is the list of its rows; a statement of a transaction fails where a
  constraint of the schema does. A float64 that the code only compares is a rational, an infinity
  or not a number. An operation that other operations can interrupt is split where it can be, and
  a step relation interleaves the parts. Errors are values; the text of a message is kept only where clients see it. Texts are byte strings with
  the white space and letters of ASCII. The database's own failures, and a context that ends
  during a statement, are not modelled; metrics and logging are left out.

  \<^bold>\<open>Bounds.\<close> Loops whose end is not structural are searches, defined as partial functions and
  proved to return; the scanner of DCC-EX ends because every turn uses up bytes or a read. Waiting
  for a turnout consumes a finite list of events and then ends by the timeout or by the context. Counters are 64-bit words; statements that need them not to come
  round say so as a hypothesis.

  \<^bold>\<open>Not modelled.\<close> The ZIP and JSON encoding of archives, and HTTP; sockets, whose reads and failures
  are arguments of the steps; the timers that start the periodic operations; the benchmark and
  the command-line tools; the migration of older databases; metrics.
\<close>

end
